(* ===== verification/Prelude.thy ===== *)
theory Prelude
  imports Main "HOL-Library.AList" "HOL-Library.Sublist"
begin

text \<open>
  Shared vocabulary of the development: the exceptions the Python code raises, the result type
  of fallible code, the string operations of the Python standard library that the sources use
  (\<open>str\<close>, \<open>split\<close>, \<open>join\<close>, slicing, \<open>isdigit\<close>), dictionaries as association lists, and the
  generic lemmas on them that the component theories share.

  Conventions. A call that may raise returns \<open>pyexn + 'a\<close>, \<open>Inl\<close> being the raised exception.
  A dictionary is an association list that is read with \<^const>\<open>map_of\<close> and written with
  \<open>AList.update\<close> and \<open>AList.delete\<close>; its order is the iteration order of the dictionary.
  Log messages are not part of any state and are left out of the model.
\<close>

named_theorems str_simps \<open>facts on the Python string operations\<close>
named_theorems dict_simps \<open>facts on dictionaries\<close>
named_theorems const_defs \<open>definitions of the constants of the sources\<close>

section \<open>Exceptions and results\<close>

datatype exc_class =
    KeyError | ValueError | IndexError | TypeError | AssertionError | RuntimeError
  | AttributeError | LookupError | SuspiciousOperation | ObjectDoesNotExist
  | TaskLockError | UserTaskError | PingFailed | CallbackError | NodeError
  | TaskRetry | MgmtTaskException | TaskExceptionC
  | VmIsNotOperational | NodeIsNotOperational | ExpectationFailed | PermissionDenied
  | PreconditionRequired | VmHasPendingTasks
  | TimeoutErrorC | ConnectionErrorC | OperationalError | OtherError string

datatype pyexn = Exn (exn_class: exc_class) (exn_msg: string)

type_synonym 'a res = "pyexn + 'a"

definition rbind :: "'a res \<Rightarrow> ('a \<Rightarrow> 'b res) \<Rightarrow> 'b res" where
  "rbind r f = (case r of Inl e \<Rightarrow> Inl e | Inr x \<Rightarrow> f x)"

lemma rbind_simps [simp]:
  "rbind (Inl e) f = Inl e"
  "rbind (Inr x) f = f x"
  by (simp_all add: rbind_def)

lemma rbind_Inr_iff: "rbind r f = Inr y \<longleftrightarrow> (\<exists>x. r = Inr x \<and> f x = Inr y)"
  by (cases r) auto

lemma rbind_Inl_iff: "rbind r f = Inl e \<longleftrightarrow> r = Inl e \<or> (\<exists>x. r = Inr x \<and> f x = Inl e)"
  by (cases r) auto

lemma rbind_assoc: "rbind (rbind r f) g = rbind r (\<lambda>x. rbind (f x) g)"
  by (cases r) simp_all

section \<open>Identifiers that are strings or integers\<close>

text \<open>Python values that the sources pass either as a string or as an integer.\<close>

datatype pyid = IdStr string | IdInt int

section \<open>Characters and numbers\<close>

definition ch_code :: "char \<Rightarrow> nat" where
  "ch_code c = of_char c"

definition is_letter :: "char \<Rightarrow> bool" where
  "is_letter c \<longleftrightarrow> (65 \<le> ch_code c \<and> ch_code c \<le> 90) \<or> (97 \<le> ch_code c \<and> ch_code c \<le> 122)"

definition is_digit :: "char \<Rightarrow> bool" where
  "is_digit c \<longleftrightarrow> 48 \<le> ch_code c \<and> ch_code c \<le> 57"

definition digit_char :: "nat \<Rightarrow> char" where
  "digit_char n = char_of (48 + n)"

text \<open>\<open>str.isdigit\<close>: false on the empty string.\<close>

definition isdigit :: "string \<Rightarrow> bool" where
  "isdigit s \<longleftrightarrow> s \<noteq> [] \<and> list_all is_digit s"

text \<open>\<open>str(n)\<close> and \<open>int(s)\<close> for decimal numbers.\<close>

fun nat_str :: "nat \<Rightarrow> string" where
  "nat_str n = (if n < 10 then [digit_char n] else nat_str (n div 10) @ [digit_char (n mod 10)])"

declare nat_str.simps [simp del]

definition int_str :: "int \<Rightarrow> string" where
  "int_str i = (if i < 0 then CHR ''-'' # nat_str (nat (- i)) else nat_str (nat i))"

definition digits_val :: "string \<Rightarrow> nat" where
  "digits_val s = foldl (\<lambda>acc c. 10 * acc + (ch_code c - 48)) 0 s"

text \<open>
  \<open>int(s)\<close>, restricted to an optional sign and decimal digits; anything else is the
  \<open>ValueError\<close> that Python raises.
\<close>

definition str_int :: "string \<Rightarrow> int res" where
  "str_int s = (case s of
      CHR ''-'' # t \<Rightarrow> (if isdigit t then Inr (- int (digits_val t))
                       else Inl (Exn ValueError ''invalid literal for int()''))
    | _ \<Rightarrow> (if isdigit s then Inr (int (digits_val s))
           else Inl (Exn ValueError ''invalid literal for int()'')))"

definition pyid_str :: "pyid \<Rightarrow> string" where
  "pyid_str x = (case x of IdStr s \<Rightarrow> s | IdInt i \<Rightarrow> int_str i)"

lemma ch_code_digit_char [simp]: "n < 10 \<Longrightarrow> ch_code (digit_char n) = 48 + n"
  by (simp add: ch_code_def digit_char_def)

lemma is_digit_digit_char [simp]: "n < 10 \<Longrightarrow> is_digit (digit_char n)"
  by (simp add: is_digit_def)

lemma digit_not_letter: "is_digit c \<Longrightarrow> \<not> is_letter c"
  by (auto simp: is_digit_def is_letter_def)

lemma nat_str_nonempty [simp]: "nat_str n \<noteq> []"
  by (subst nat_str.simps) simp

lemma list_all_digit_nat_str [simp]: "list_all is_digit (nat_str n)"
  by (induction n rule: nat_str.induct) (subst nat_str.simps, simp)

lemma isdigit_nat_str [simp]: "isdigit (nat_str n)"
  by (simp add: isdigit_def)

lemma digits_val_snoc: "digits_val (s @ [c]) = 10 * digits_val s + (ch_code c - 48)"
  by (simp add: digits_val_def)

lemma digits_val_nat_str [simp]: "digits_val (nat_str n) = n"
proof (induction n rule: nat_str.induct)
  case (1 n)
  show ?case
  proof (cases "n < 10")
    case True
    then show ?thesis by (subst nat_str.simps) (simp add: digits_val_def)
  next
    case False
    then have "digits_val (nat_str n) = 10 * (n div 10) + n mod 10"
      using 1 by (subst nat_str.simps) (simp add: digits_val_snoc)
    then show ?thesis by simp
  qed
qed

lemma nat_str_inject [simp]: "nat_str m = nat_str n \<longleftrightarrow> m = n"
  by (metis digits_val_nat_str)

lemma isdigit_no_dash: "isdigit s \<Longrightarrow> CHR ''-'' \<notin> set s"
  by (auto simp: isdigit_def list_all_iff is_digit_def ch_code_def)

lemma str_int_digits: "isdigit s \<Longrightarrow> str_int s = Inr (int (digits_val s))"
proof -
  assume d: "isdigit s"
  then obtain c t where s: "s = c # t" by (cases s) (auto simp: isdigit_def)
  from isdigit_no_dash [OF d] s have "c \<noteq> CHR ''-''" by auto
  with s d show ?thesis
    unfolding str_int_def by (auto split: list.splits char.splits bool.splits)
qed

lemma str_int_nat_str [simp]: "str_int (nat_str n) = Inr (int n)"
  by (simp add: str_int_digits)

lemma str_int_int_str: "str_int (int_str i) = Inr i"
proof (cases "i < 0")
  case True
  then show ?thesis by (simp add: int_str_def str_int_def)
next
  case False
  then show ?thesis by (simp add: int_str_def)
qed

section \<open>Splitting, joining and slicing strings\<close>

text \<open>A string between double quotes, as in the messages of exceptions.\<close>

definition quoted :: "string \<Rightarrow> string" where
  "quoted s = CHR 0x22 # s @ [CHR 0x22]"

text \<open>\<open>s.split(c)\<close> for a one-character separator.\<close>

fun split_on :: "char \<Rightarrow> string \<Rightarrow> string list" where
  "split_on c [] = [[]]"
| "split_on c (x # xs) =
     (if x = c then [] # split_on c xs
      else (case split_on c xs of [] \<Rightarrow> [[x]] | w # ws \<Rightarrow> (x # w) # ws))"

text \<open>\<open>sep.join(parts)\<close>.\<close>

fun join_with :: "string \<Rightarrow> string list \<Rightarrow> string" where
  "join_with sep [] = []"
| "join_with sep [s] = s"
| "join_with sep (s # t # ts) = s @ sep @ join_with sep (t # ts)"

text \<open>\<open>s[:-n]\<close> and \<open>s[-n:]\<close> for a positive constant \<open>n\<close>, also when \<open>s\<close> is shorter than \<open>n\<close>.\<close>

definition drop_last :: "nat \<Rightarrow> 'a list \<Rightarrow> 'a list" where
  "drop_last n s = take (length s - n) s"

definition take_last :: "nat \<Rightarrow> 'a list \<Rightarrow> 'a list" where
  "take_last n s = drop (length s - n) s"

text \<open>\<open>s.startswith(p)\<close>.\<close>

definition startswith :: "string \<Rightarrow> string \<Rightarrow> bool" where
  "startswith s p \<longleftrightarrow> take (length p) s = p"

text \<open>\<open>s.find(t)\<close>: the first position of \<open>t\<close> in \<open>s\<close>, \<open>-1\<close> when there is none.\<close>

fun find_from :: "nat \<Rightarrow> string \<Rightarrow> string \<Rightarrow> int" where
  "find_from i [] t = (if t = [] then int i else -1)"
| "find_from i (x # xs) t = (if startswith (x # xs) t then int i else find_from (Suc i) xs t)"

definition str_find :: "string \<Rightarrow> string \<Rightarrow> int" where
  "str_find s t = find_from 0 s t"

text \<open>White space, \<open>s.strip()\<close>, \<open>s.split()\<close> and \<open>s.replace(old, new)\<close>.\<close>

definition is_space :: "char \<Rightarrow> bool" where
  "is_space c \<longleftrightarrow> ch_code c = 32 \<or> (9 \<le> ch_code c \<and> ch_code c \<le> 13)"

definition strip :: "string \<Rightarrow> string" where
  "strip s = rev (dropWhile is_space (rev (dropWhile is_space s)))"

fun words_from :: "string \<Rightarrow> string \<Rightarrow> string list" where
  "words_from w [] = (if w = [] then [] else [w])"
| "words_from w (c # s) = (if is_space c then (if w = [] then words_from [] s else w # words_from [] s)
     else words_from (w @ [c]) s)"

definition split_words :: "string \<Rightarrow> string list" where "split_words s = words_from [] s"

fun str_replace :: "nat \<Rightarrow> string \<Rightarrow> string \<Rightarrow> string \<Rightarrow> string" where
  "str_replace 0 old new s = s"
| "str_replace (Suc n) old new [] = (if old = [] then new else [])"
| "str_replace (Suc n) old new (c # s) =
     (if old = [] then new @ c # str_replace n old new s
      else if startswith (c # s) old then new @ str_replace n old new (drop (length old) (c # s))
      else c # str_replace n old new s)"

definition replace_str :: "string \<Rightarrow> string \<Rightarrow> string \<Rightarrow> string" where
  "replace_str s old new = str_replace (Suc (length s)) old new s"

lemma split_on_nonempty [simp]: "split_on c s \<noteq> []"
  by (induction s) (auto split: list.splits)

lemma split_on_no_sep: "c \<notin> set s \<Longrightarrow> split_on c s = [s]"
  by (induction s) auto

lemma split_on_append_sep: "c \<notin> set s \<Longrightarrow> split_on c (s @ c # t) = s # split_on c t"
  by (induction s) auto

lemma join_split_on: "join_with [c] (split_on c s) = s"
proof (induction s)
  case Nil
  then show ?case by simp
next
  case (Cons x xs)
  obtain w ws where w: "split_on c xs = w # ws" by (cases "split_on c xs") auto
  then show ?case using Cons by (cases ws) auto
qed

lemma split_join_with:
  "ps \<noteq> [] \<Longrightarrow> \<forall>p \<in> set ps. c \<notin> set p \<Longrightarrow> split_on c (join_with [c] ps) = ps"
  by (induction "[c]" ps rule: join_with.induct) (auto simp: split_on_no_sep split_on_append_sep)

lemma drop_last_append [simp]: "length t = n \<Longrightarrow> drop_last n (s @ t) = s"
  by (simp add: drop_last_def)

lemma take_last_append [simp]: "length t = n \<Longrightarrow> take_last n (s @ t) = t"
  by (simp add: take_last_def)

lemma drop_take_last: "drop_last n s @ take_last n s = s"
  by (simp add: drop_last_def take_last_def)

lemma startswith_append [simp]: "startswith (p @ s) p"
  by (simp add: startswith_def)

lemma startswith_prefix: "startswith s p \<longleftrightarrow> prefix p s"
  by (auto simp: startswith_def prefix_def) (metis append_take_drop_id)

section \<open>Dictionaries\<close>

type_synonym 'v dict = "(string \<times> 'v) list"

text \<open>\<open>d.get(k, default)\<close>, \<open>d[k]\<close> with its \<open>KeyError\<close>, \<open>k in d\<close> and \<open>d.update(e)\<close>.\<close>

definition dget :: "'v dict \<Rightarrow> string \<Rightarrow> 'v \<Rightarrow> 'v" where
  "dget d k v = (case map_of d k of None \<Rightarrow> v | Some x \<Rightarrow> x)"

definition ditem :: "'v dict \<Rightarrow> string \<Rightarrow> 'v res" where
  "ditem d k = (case map_of d k of None \<Rightarrow> Inl (Exn KeyError k) | Some x \<Rightarrow> Inr x)"

definition dhas :: "'v dict \<Rightarrow> string \<Rightarrow> bool" where
  "dhas d k \<longleftrightarrow> k \<in> fst ` set d"

definition dupdate :: "'v dict \<Rightarrow> 'v dict \<Rightarrow> 'v dict" where
  "dupdate d e = foldl (\<lambda>acc (k, v). AList.update k v acc) d e"

lemma dhas_iff: "dhas d k \<longleftrightarrow> map_of d k \<noteq> None"
  by (simp add: dhas_def map_of_eq_None_iff)

lemma dhas_SomeD: "map_of d k = Some v \<Longrightarrow> dhas d k"
  by (simp add: dhas_iff)

lemma map_of_update [dict_simps]: "map_of (AList.update k v d) = (map_of d)(k \<mapsto> v)"
  by (simp add: update_conv')

lemma map_of_delete [dict_simps]: "map_of (AList.delete k d) = (map_of d)(k := None)"
  by (simp add: delete_conv')

lemma distinct_update [dict_simps]:
  "distinct (map fst d) \<Longrightarrow> distinct (map fst (AList.update k v d))"
  by (simp add: distinct_update)

lemma map_of_dupdate [dict_simps]:
  "distinct (map fst e) \<Longrightarrow> map_of (dupdate d e) = map_of d ++ map_of e"
proof (induction e arbitrary: d)
  case Nil
  then show ?case by (simp add: dupdate_def)
next
  case (Cons kv e)
  obtain k v where kv: "kv = (k, v)" by force
  from Cons.prems kv have "k \<notin> dom (map_of e)"
    by (auto simp: dom_map_of_conv_image_fst)
  moreover have "map_of (dupdate (AList.update k v d) e) = (map_of d)(k \<mapsto> v) ++ map_of e"
    using Cons by (simp add: dict_simps)
  ultimately show ?case
    using kv by (auto simp: dupdate_def map_add_def fun_eq_iff split: option.splits)
qed

end
