(* ===== verification/Redis.thy ===== *)
theory Redis
  imports Prelude
begin

text \<open>
  The Redis service the task queue keeps its locks, caches and task lists in. The service is
  not part of the sources: the definitions that talk to it take a parameter
  \<open>io :: 's redis_io\<close>, which runs a pipeline (a transaction) of commands in a service state and
  either returns the replies or raises. What the code relies on is the locale
  \<open>redis_service\<close>: through an observation \<open>view\<close> of the state, a pipeline that returns has
  exactly the documented effect of its commands (\<open>redis_step\<close>), and one that raises has either
  been executed completely or not at all.
\<close>

section \<open>Commands, replies and their documented effect\<close>

datatype rval = RString string | RHash "string dict" | RSet "string list"

text \<open>A store maps keys to a value and the remaining time to live in seconds, if any.\<close>

type_synonym store = "string \<Rightarrow> (rval \<times> nat option) option"

datatype rcmd =
    CGet string | CSet string string | CSetNx string string | CExpire string nat
  | CPersist string | CDel string | CExists string
  | CHSet string string string | CHGet string string | CHDel string string
  | CHGetAll string | CHKeys string
  | CSAdd string string | CSRem string string | CSIsMember string string | CSMembers string

datatype rreply = RBool bool | RStr "string option" | RInt nat | RList "string list"
  | RDict "string dict" | RErr

definition hash_at :: "store \<Rightarrow> string \<Rightarrow> string dict" where
  "hash_at st k = (case st k of Some (RHash h, _) \<Rightarrow> h | _ \<Rightarrow> [])"

definition set_at :: "store \<Rightarrow> string \<Rightarrow> string list" where
  "set_at st k = (case st k of Some (RSet xs, _) \<Rightarrow> xs | _ \<Rightarrow> [])"

text \<open>Writing a hash or a set keeps the time to live; an empty hash or set is no key at all.\<close>

definition put_hash :: "store \<Rightarrow> string \<Rightarrow> string dict \<Rightarrow> store" where
  "put_hash st k h = st(k := (if h = [] then None
     else Some (RHash h, case st k of None \<Rightarrow> None | Some (_, t) \<Rightarrow> t)))"

definition put_set :: "store \<Rightarrow> string \<Rightarrow> string list \<Rightarrow> store" where
  "put_set st k xs = st(k := (if xs = [] then None
     else Some (RSet xs, case st k of None \<Rightarrow> None | Some (_, t) \<Rightarrow> t)))"

definition is_hash_key :: "store \<Rightarrow> string \<Rightarrow> bool" where
  "is_hash_key st k = (case st k of None \<Rightarrow> True | Some (RHash _, _) \<Rightarrow> True | _ \<Rightarrow> False)"

definition is_set_key :: "store \<Rightarrow> string \<Rightarrow> bool" where
  "is_set_key st k = (case st k of None \<Rightarrow> True | Some (RSet _, _) \<Rightarrow> True | _ \<Rightarrow> False)"

fun redis_step :: "store \<Rightarrow> rcmd \<Rightarrow> rreply \<times> store" where
  "redis_step st (CGet k) = (case st k of
      None \<Rightarrow> (RStr None, st) | Some (RString v, _) \<Rightarrow> (RStr (Some v), st) | _ \<Rightarrow> (RErr, st))"
| "redis_step st (CSet k v) = (RBool True, st(k \<mapsto> (RString v, None)))"
| "redis_step st (CSetNx k v) = (case st k of
      None \<Rightarrow> (RBool True, st(k \<mapsto> (RString v, None))) | Some _ \<Rightarrow> (RBool False, st))"
| "redis_step st (CExpire k n) = (case st k of
      None \<Rightarrow> (RBool False, st)
    | Some (v, _) \<Rightarrow> (RBool True, st(k := (if n = 0 then None else Some (v, Some n)))))"
| "redis_step st (CPersist k) = (case st k of
      Some (v, Some _) \<Rightarrow> (RBool True, st(k \<mapsto> (v, None))) | _ \<Rightarrow> (RBool False, st))"
| "redis_step st (CDel k) = (RInt (if st k = None then 0 else 1), st(k := None))"
| "redis_step st (CExists k) = (RBool (st k \<noteq> None), st)"
| "redis_step st (CHSet k f v) = (if is_hash_key st k
      then (RInt (if dhas (hash_at st k) f then 0 else 1),
            put_hash st k (AList.update f v (hash_at st k))) else (RErr, st))"
| "redis_step st (CHGet k f) = (if is_hash_key st k
      then (RStr (map_of (hash_at st k) f), st) else (RErr, st))"
| "redis_step st (CHDel k f) = (if is_hash_key st k
      then (RInt (if dhas (hash_at st k) f then 1 else 0),
            put_hash st k (AList.delete f (hash_at st k))) else (RErr, st))"
| "redis_step st (CHGetAll k) = (if is_hash_key st k
      then (RDict (hash_at st k), st) else (RErr, st))"
| "redis_step st (CHKeys k) = (if is_hash_key st k
      then (RList (map fst (hash_at st k)), st) else (RErr, st))"
| "redis_step st (CSAdd k m) = (if is_set_key st k
      then (RInt (if m \<in> set (set_at st k) then 0 else 1),
            put_set st k (List.insert m (set_at st k))) else (RErr, st))"
| "redis_step st (CSRem k m) = (if is_set_key st k
      then (RInt (if m \<in> set (set_at st k) then 1 else 0),
            put_set st k (removeAll m (set_at st k))) else (RErr, st))"
| "redis_step st (CSIsMember k m) = (if is_set_key st k
      then (RBool (m \<in> set (set_at st k)), st) else (RErr, st))"
| "redis_step st (CSMembers k) = (if is_set_key st k
      then (RList (set_at st k), st) else (RErr, st))"

fun redis_run :: "store \<Rightarrow> rcmd list \<Rightarrow> rreply list \<times> store" where
  "redis_run st [] = ([], st)"
| "redis_run st (c # cs) =
     (let (r, st1) = redis_step st c; (rs, st2) = redis_run st1 cs in (r # rs, st2))"

text \<open>The passing of \<open>n\<close> seconds: keys whose time to live has run out disappear.\<close>

definition elapse :: "nat \<Rightarrow> store \<Rightarrow> store" where
  "elapse n st = (\<lambda>k. case st k of
      Some (v, Some t) \<Rightarrow> (if t \<le> n then None else Some (v, Some (t - n)))
    | x \<Rightarrow> x)"

definition str_at :: "store \<Rightarrow> string \<Rightarrow> string option" where
  "str_at st k = (case st k of Some (RString v, _) \<Rightarrow> Some v | _ \<Rightarrow> None)"

definition str_key :: "store \<Rightarrow> string \<Rightarrow> bool" where
  "str_key st k = (case st k of None \<Rightarrow> True | Some (RString _, _) \<Rightarrow> True | _ \<Rightarrow> False)"

lemma str_at_None_iff: "str_key st k \<Longrightarrow> str_at st k = None \<longleftrightarrow> st k = None"
  by (auto simp: str_at_def str_key_def split: option.splits rval.splits)

lemma elapse_None [simp]: "st k = None \<Longrightarrow> elapse n st k = None"
  by (simp add: elapse_def)

lemma elapse_persistent [simp]: "st k = Some (v, None) \<Longrightarrow> elapse n st k = Some (v, None)"
  by (simp add: elapse_def)

lemma elapse_keeps_value:
  "elapse n st k = Some (v, t) \<Longrightarrow> \<exists>t'. st k = Some (v, t')"
  by (auto simp: elapse_def split: option.splits if_splits)

lemma hash_at_put_hash [simp]: "hash_at (put_hash st k h) k' = (if k' = k then h else hash_at st k')"
  by (auto simp: hash_at_def put_hash_def split: option.splits)

lemma set_at_put_set [simp]: "set_at (put_set st k h) k' = (if k' = k then h else set_at st k')"
  by (auto simp: set_at_def put_set_def split: option.splits)

lemma put_hash_other [simp]: "k' \<noteq> k \<Longrightarrow> put_hash st k h k' = st k'"
  by (simp add: put_hash_def)

lemma put_set_other [simp]: "k' \<noteq> k \<Longrightarrow> put_set st k h k' = st k'"
  by (simp add: put_set_def)

lemma hash_at_put_set [simp]: "k' \<noteq> k \<Longrightarrow> hash_at (put_set st k h) k' = hash_at st k'"
  by (simp add: hash_at_def)

lemma set_at_put_hash [simp]: "k' \<noteq> k \<Longrightarrow> set_at (put_hash st k h) k' = set_at st k'"
  by (simp add: set_at_def)

lemma is_hash_key_put_hash [simp]: "is_hash_key (put_hash st k h) k"
  by (simp add: is_hash_key_def put_hash_def)

lemma is_set_key_put_set [simp]: "is_set_key (put_set st k h) k"
  by (simp add: is_set_key_def put_set_def)

lemma is_hash_key_cong: "st k = st' k \<Longrightarrow> is_hash_key st k = is_hash_key st' k"
  by (simp add: is_hash_key_def)

lemma is_set_key_cong: "st k = st' k \<Longrightarrow> is_set_key st k = is_set_key st' k"
  by (simp add: is_set_key_def)

section \<open>The service\<close>

type_synonym 's redis_io = "'s \<Rightarrow> rcmd list \<Rightarrow> rreply list res \<times> 's"

locale redis_service =
  fixes io :: "'s redis_io" and view :: "'s \<Rightarrow> store"
  assumes io_replies: "io s cs = (Inr rs, s') \<Longrightarrow> rs = fst (redis_run (view s) cs)"
    and io_effect: "io s cs = (Inr rs, s') \<Longrightarrow> view s' = snd (redis_run (view s) cs)"
    and io_failure: "io s cs = (Inl e, s') \<Longrightarrow>
      view s' = view s \<or> view s' = snd (redis_run (view s) cs)"
begin

lemma io_cases:
  "(\<exists>s'. io s cs = (Inr (fst (redis_run (view s) cs)), s') \<and> view s' = snd (redis_run (view s) cs))
   \<or> (\<exists>e s'. io s cs = (Inl e, s') \<and>
        (view s' = view s \<or> view s' = snd (redis_run (view s) cs)))"
proof (cases "io s cs")
  case (Pair r s')
  then show ?thesis using io_replies io_effect io_failure by (cases r) blast+
qed

text \<open>Commands that only read leave the observed store alone, even when the call raises.\<close>

lemma io_read_only:
  assumes "snd (redis_run (view s) cs) = view s" and "io s cs = (r, s')"
  shows "view s' = view s"
  using assms io_effect [of s cs _ s'] io_failure [of s cs _ s'] by (cases r) auto

end

section \<open>A service that fails when its schedule says so\<close>

text \<open>
  An instance of the interface: a store together with a schedule that says for each coming call
  whether the connection breaks before the pipeline is sent.
\<close>

record sim_redis =
  sim_store :: store
  sim_faults :: "bool list"

definition sim_io :: "sim_redis redis_io" where
  "sim_io s cs =
     (let s1 = s\<lparr>sim_faults := tl (sim_faults s)\<rparr>
      in if sim_faults s \<noteq> [] \<and> hd (sim_faults s)
         then (Inl (Exn ConnectionErrorC ''connection refused''), s1)
         else let (rs, st) = redis_run (sim_store s) cs in (Inr rs, s1\<lparr>sim_store := st\<rparr>))"

interpretation sim: redis_service sim_io sim_store
  by unfold_locales (auto simp: sim_io_def Let_def split: if_splits prod.splits)

text \<open>A call that the schedule lets through.\<close>

lemma sim_io_ok:
  "sim_faults s = [] \<Longrightarrow> sim_io s cs =
     (Inr (fst (redis_run (sim_store s) cs)), s\<lparr>sim_store := snd (redis_run (sim_store s) cs)\<rparr>)"
  by (simp add: sim_io_def Let_def case_prod_beta)

end
