(* ===== verification/Task_Id.thy ===== *)
theory Task_Id
  imports Prelude
begin

text \<open>
  Task identifiers: the constants of \<^verbatim>\<open>que/__init__.py\<close> and the functions of
  \<^verbatim>\<open>que/utils.py\<close> that build, check and take apart task IDs. A task ID is a prefix
  \<open>user, task type, owner, task group, datacenter\<close> and a 24-character random suffix.
  Random UUIDs (\<open>uuid4\<close>) and MD5 digests come from outside: they are arguments.
\<close>

section \<open>Constants\<close>

text \<open>Task queues.\<close>

definition Q_FAST :: string where [const_defs]: "Q_FAST = ''fast''"
definition Q_SLOW :: string where [const_defs]: "Q_SLOW = ''slow''"
definition Q_MGMT :: string where [const_defs]: "Q_MGMT = ''mgmt''"
definition Q_BACKUP :: string where [const_defs]: "Q_BACKUP = ''backup''"
definition Q_IMAGE :: string where [const_defs]: "Q_IMAGE = ''image''"

text \<open>Task types and task groups.\<close>

definition TT_DUMMY :: string where [const_defs]: "TT_DUMMY = ''d''"
definition TT_EXEC :: string where [const_defs]: "TT_EXEC = ''e''"
definition TT_AUTO :: string where [const_defs]: "TT_AUTO = ''a''"
definition TT_MGMT :: string where [const_defs]: "TT_MGMT = ''m''"
definition TT_INTERNAL :: string where [const_defs]: "TT_INTERNAL = ''i''"
definition TT_ERROR :: string where [const_defs]: "TT_ERROR = ''f''"
definition TT :: "string list" where
  [const_defs]: "TT = [TT_DUMMY, TT_EXEC, TT_AUTO, TT_MGMT, TT_INTERNAL, TT_ERROR]"

definition TG_DC_BOUND :: string where [const_defs]: "TG_DC_BOUND = ''d''"
definition TG_DC_UNBOUND :: string where [const_defs]: "TG_DC_UNBOUND = ''u''"
definition TG :: "string list" where [const_defs]: "TG = [TG_DC_BOUND, TG_DC_UNBOUND]"

text \<open>
  Values from \<^verbatim>\<open>core/celery/config.py\<close>. The task user is a string, the default
  datacenter an integer.
\<close>

definition LOGTASK :: string where [const_defs]: "LOGTASK = ''api.task.tasks.task_log_cb''"
definition TASK_USER :: string where [const_defs]: "TASK_USER = ''7''"
definition DEFAULT_DC :: pyid where [const_defs]: "DEFAULT_DC = IdInt 1"
definition KEY_PREFIX :: string where [const_defs]: "KEY_PREFIX = ''esdc:''"
definition EXPIRES :: nat where [const_defs]: "EXPIRES = 300"

text \<open>Elements of a task prefix: strings, the integer default of the datacenter, or \<open>None\<close>.\<close>

type_synonym prefix_item = "pyid option"

definition DEFAULT_TASK_PREFIX :: "prefix_item list" where
  [const_defs]: "DEFAULT_TASK_PREFIX =
     [None, Some (IdStr TT_EXEC), Some (IdStr ''1''), Some (IdStr TG_DC_BOUND), Some DEFAULT_DC]"

section \<open>Taking task IDs apart\<close>

text \<open>
  \<open>RE_TASK_PREFIX.split\<close> with the pattern \<open>([a-zA-Z]+)\<close>: since the pattern has a capturing
  group, the runs of letters stay in the result, between the (possibly empty) pieces around
  them.
\<close>

function re_task_split :: "string \<Rightarrow> string list" where
  "re_task_split s =
     (let a = takeWhile (\<lambda>c. \<not> is_letter c) s; r = dropWhile (\<lambda>c. \<not> is_letter c) s
      in if r = [] then [a]
         else a # takeWhile is_letter r # re_task_split (dropWhile is_letter r))"
  by pat_completeness auto
termination
proof (relation "measure length", simp, unfold in_measure)
  fix s a r :: string
  assume r: "r = dropWhile (\<lambda>c. \<not> is_letter c) s" and ne: "r \<noteq> []"
  then have "is_letter (hd r)" by (metis hd_dropWhile)
  with ne have "length (dropWhile is_letter r) < length r"
    by (cases r) (auto intro: le_imp_less_Suc length_dropWhile_le)
  also have "\<dots> \<le> length s" using r by (simp add: length_dropWhile_le)
  finally show "length (dropWhile is_letter r) < length s" .
qed

declare re_task_split.simps [simp del]

fun every_other :: "'a list \<Rightarrow> 'a list" where
  "every_other [] = []"
| "every_other [x] = [x]"
| "every_other (x # y # xs) = x # every_other xs"

definition is_valid_task_id :: "string \<Rightarrow> bool" where
  "is_valid_task_id task_id =
     (let parts = split_on (CHR ''-'') task_id
      in if length parts = 5 \<and> map length (tl parts) = [8, 4, 4, 4]
         then let tp = re_task_split (hd parts)
              in length tp = 5 \<and> list_all isdigit (every_other tp)
                 \<and> tp ! 1 \<in> set TT \<and> tp ! 3 \<in> set TG
         else False)"

definition task_prefix_from_task_id :: "string \<Rightarrow> prefix_item list" where
  "task_prefix_from_task_id task_id =
     (let tp = re_task_split (drop_last 24 task_id)
      in map (\<lambda>s. Some (IdStr s)) tp @ drop (length tp) DEFAULT_TASK_PREFIX)"

definition user_owner_ids_from_task_id :: "string \<Rightarrow> prefix_item \<times> prefix_item" where
  "user_owner_ids_from_task_id task_id =
     (let task_prefix = task_prefix_from_task_id task_id in (task_prefix ! 0, task_prefix ! 2))"

definition user_owner_dc_ids_from_task_id ::
  "string \<Rightarrow> prefix_item \<times> prefix_item \<times> prefix_item" where
  "user_owner_dc_ids_from_task_id task_id =
     (let task_prefix = task_prefix_from_task_id task_id
      in (task_prefix ! 0, task_prefix ! 2, task_prefix ! 4))"

definition user_id_from_task_id :: "string \<Rightarrow> prefix_item" where
  "user_id_from_task_id task_id = fst (user_owner_ids_from_task_id task_id)"

definition tt_from_task_id :: "string \<Rightarrow> prefix_item" where
  "tt_from_task_id task_id = task_prefix_from_task_id task_id ! 1"

definition owner_id_from_task_id :: "string \<Rightarrow> prefix_item" where
  "owner_id_from_task_id task_id = task_prefix_from_task_id task_id ! 2"

definition tg_from_task_id :: "string \<Rightarrow> prefix_item" where
  "tg_from_task_id task_id = task_prefix_from_task_id task_id ! 3"

definition dc_id_from_task_id :: "string \<Rightarrow> prefix_item" where
  "dc_id_from_task_id task_id = task_prefix_from_task_id task_id ! 4"

definition is_mgmt_task :: "string \<Rightarrow> bool" where
  "is_mgmt_task task_id \<longleftrightarrow> tt_from_task_id task_id = Some (IdStr TT_MGMT)"

definition is_task_dc_bound :: "string \<Rightarrow> bool" where
  "is_task_dc_bound task_id \<longleftrightarrow> tg_from_task_id task_id = Some (IdStr TG_DC_BOUND)"

section \<open>Building task IDs\<close>

text \<open>\<open>str(x)\<close> for a value that may be \<open>None\<close>.\<close>

definition item_str :: "prefix_item \<Rightarrow> string" where
  "item_str x = (case x of None \<Rightarrow> ''None'' | Some y \<Rightarrow> pyid_str y)"

text \<open>
  \<open>md5hex\<close> is \<open>hashlib.md5(\<cdot>).hexdigest()\<close> and \<open>uuid\<close> the string of the random UUID drawn by
  the call. \<open>hashlib.md5\<close> takes strings only.
\<close>

definition md5_tail :: "(string \<Rightarrow> string) \<Rightarrow> prefix_item \<Rightarrow> string res" where
  "md5_tail md5hex x = (case x of
      Some (IdStr s) \<Rightarrow> Inr (take_last 8 (md5hex s))
    | _ \<Rightarrow> Inl (Exn TypeError ''must be string or buffer''))"

definition task_id_from_string ::
  "(string \<Rightarrow> string) \<Rightarrow> string \<Rightarrow> prefix_item \<Rightarrow> prefix_item \<Rightarrow> bool \<Rightarrow> string \<Rightarrow> string \<Rightarrow>
   pyid \<Rightarrow> string option \<Rightarrow> string res" where
  "task_id_from_string md5hex uuid user_id owner_id dummy tt tg dc_id task_prefix =
     (let (user_id', prefix) = (case task_prefix of
          None \<Rightarrow> (let owner = (case owner_id of None \<Rightarrow> user_id | Some _ \<Rightarrow> owner_id);
                       u = item_str user_id
                   in (Some (IdStr u), u @ tt @ item_str owner @ tg @ pyid_str dc_id))
        | Some p \<Rightarrow> (user_id, p))
      in if dummy
         then rbind (md5_tail md5hex user_id')
                (\<lambda>h. Inr (prefix @ ''-'' @ h @ drop_last 13 (drop 8 uuid)))
         else Inr (prefix @ ''-'' @ drop_last 13 uuid))"

text \<open>
  A request is either a plain user ID (string or integer) or an HTTP request object, of which
  the user ID and the datacenter ID are read.
\<close>

datatype task_request = PlainUser pyid | HttpRequest (rq_user_id: int) (rq_dc_id: int)

definition task_id_from_request ::
  "(string \<Rightarrow> string) \<Rightarrow> string \<Rightarrow> task_request \<Rightarrow> prefix_item \<Rightarrow> bool \<Rightarrow> string \<Rightarrow> string \<Rightarrow>
   pyid \<Rightarrow> string res" where
  "task_id_from_request md5hex uuid request owner_id dummy tt tg dc_id =
     (case request of
        PlainUser u \<Rightarrow>
          task_id_from_string md5hex uuid (Some u) owner_id dummy tt tg dc_id None
      | HttpRequest u dc \<Rightarrow>
          task_id_from_string md5hex uuid (Some (IdInt u)) owner_id dummy tt tg (IdInt dc) None)"

text \<open>Truth value of an optional argument: \<open>None\<close>, the empty string and 0 are false.\<close>

definition truthy_id :: "prefix_item \<Rightarrow> bool" where
  "truthy_id x = (case x of None \<Rightarrow> False | Some (IdStr s) \<Rightarrow> s \<noteq> [] | Some (IdInt i) \<Rightarrow> i \<noteq> 0)"

text \<open>\<open>''.join(task_prefix)\<close>: a \<open>TypeError\<close> unless every element is a string.\<close>

fun join_items :: "prefix_item list \<Rightarrow> string res" where
  "join_items [] = Inr []"
| "join_items (Some (IdStr s) # xs) = rbind (join_items xs) (\<lambda>t. Inr (s @ t))"
| "join_items (_ # xs) = Inl (Exn TypeError ''sequence item: expected string'')"

definition set_item :: "nat \<Rightarrow> prefix_item \<Rightarrow> prefix_item list \<Rightarrow> prefix_item list" where
  "set_item i x tp = (if truthy_id x then tp[i := Some (IdStr (item_str x))] else tp)"

definition task_id_from_task_id ::
  "(string \<Rightarrow> string) \<Rightarrow> string \<Rightarrow> string \<Rightarrow> prefix_item \<Rightarrow> prefix_item \<Rightarrow> prefix_item \<Rightarrow> prefix_item \<Rightarrow> prefix_item \<Rightarrow>
   bool \<Rightarrow> string res" where
  "task_id_from_task_id md5hex uuid task_id user_id owner_id tt tg dc_id keep_task_suffix =
     rbind
       (if truthy_id user_id \<or> truthy_id owner_id \<or> truthy_id tt \<or> truthy_id tg \<or> truthy_id dc_id
        then join_items
               (set_item 4 dc_id (set_item 3 tg (set_item 2 owner_id (set_item 1 tt
                 (set_item 0 user_id (task_prefix_from_task_id task_id))))))
        else Inr (drop_last 24 task_id))
       (\<lambda>task_prefix.
          if keep_task_suffix then Inr (task_prefix @ take_last 24 task_id)
          else task_id_from_string md5hex uuid None None False TT_EXEC TG_DC_BOUND DEFAULT_DC
                 (Some task_prefix))"

definition generate_internal_task_id :: "(string \<Rightarrow> string) \<Rightarrow> string \<Rightarrow> string res" where
  "generate_internal_task_id md5hex uuid =
     task_id_from_string md5hex uuid (Some (IdStr TASK_USER)) None False TT_INTERNAL TG_DC_BOUND
       DEFAULT_DC None"

text \<open>
  Any exception inside (a task ID without a second part, a user ID that is not a string) makes
  the answer \<open>False\<close>.
\<close>

definition is_dummy_task :: "(string \<Rightarrow> string) \<Rightarrow> string \<Rightarrow> bool" where
  "is_dummy_task md5hex task_id =
     (case md5_tail md5hex (user_id_from_task_id task_id) of
        Inl _ \<Rightarrow> False
      | Inr h \<Rightarrow> (case split_on (CHR ''-'') task_id of
            _ # p # _ \<Rightarrow> p = h
          | _ \<Rightarrow> False))"

section \<open>Properties\<close>

lemma re_task_split_no_letter: "\<forall>c \<in> set a. \<not> is_letter c \<Longrightarrow> re_task_split a = [a]"
  by (subst re_task_split.simps) (simp add: Let_def dropWhile_eq_Nil_conv takeWhile_eq_all_conv)

text \<open>One run of letters between two pieces without letters is split off.\<close>

lemma re_task_split_run:
  assumes a: "\<forall>c \<in> set a. \<not> is_letter c" and l: "l \<noteq> []" "\<forall>c \<in> set l. is_letter c"
    and r: "r = [] \<or> \<not> is_letter (hd r)"
  shows "re_task_split (a @ l @ r) = a # l # re_task_split r"
proof -
  obtain x xs where lx: "l = x # xs" using l(1) by (cases l) auto
  have dw: "dropWhile (\<lambda>c. \<not> is_letter c) (a @ l @ r) = l @ r"
    using a l lx by (simp add: dropWhile_append)
  have tw: "takeWhile (\<lambda>c. \<not> is_letter c) (a @ l @ r) = a"
    using a l lx by (simp add: takeWhile_append)
  have "takeWhile is_letter r = []" "dropWhile is_letter r = r"
    using r by (cases r; simp)+
  then have "takeWhile is_letter (l @ r) = l" "dropWhile is_letter (l @ r) = r"
    using l by (simp_all add: takeWhile_append dropWhile_append)
  then show ?thesis
    using l by (subst re_task_split.simps) (simp add: Let_def dw tw)
qed

definition letters :: "string \<Rightarrow> bool" where
  "letters s \<longleftrightarrow> s \<noteq> [] \<and> list_all is_letter s"

lemma isdigit_not_letter: "isdigit s \<Longrightarrow> \<forall>c \<in> set s. \<not> is_letter c"
  by (auto simp: isdigit_def list_all_iff dest: digit_not_letter)

lemma isdigit_hd_append: "isdigit s \<Longrightarrow> \<not> is_letter (hd (s @ t))"
  by (cases s) (auto simp: isdigit_def dest: digit_not_letter)

text \<open>A well-formed prefix is split into exactly its five fields.\<close>

lemma re_task_split_prefix:
  assumes "isdigit u" "letters tt" "isdigit ow" "letters tg" "isdigit dc"
  shows "re_task_split (u @ tt @ ow @ tg @ dc) = [u, tt, ow, tg, dc]"
proof -
  have "re_task_split (u @ tt @ (ow @ tg @ dc)) = u # tt # re_task_split (ow @ tg @ dc)"
    using assms by (intro re_task_split_run)
      (auto simp: letters_def list_all_iff isdigit_not_letter isdigit_hd_append)
  also have "re_task_split (ow @ tg @ dc) = ow # tg # re_task_split dc"
    using assms isdigit_hd_append [of dc "[]"] by (intro re_task_split_run)
      (auto simp: letters_def list_all_iff isdigit_not_letter)
  finally show ?thesis
    using assms by (simp add: re_task_split_no_letter isdigit_not_letter)
qed

text \<open>The documented shape of \<open>str(uuid4())\<close>: five groups of 8, 4, 4, 4 and 12 characters.\<close>

definition uuid_format :: "string \<Rightarrow> bool" where
  "uuid_format u \<longleftrightarrow> map length (split_on (CHR ''-'') u) = [8, 4, 4, 4, 12]"

lemma uuid_format_parts:
  assumes "uuid_format u"
  obtains a b c d e where
    "u = a @ ''-'' @ b @ ''-'' @ c @ ''-'' @ d @ ''-'' @ e"
    "split_on (CHR ''-'') u = [a, b, c, d, e]"
    "length a = 8" "length b = 4" "length c = 4" "length d = 4" "length e = 12"
proof -
  from assms obtain a b c d e where sp: "split_on (CHR ''-'') u = [a, b, c, d, e]"
    and len: "length a = 8" "length b = 4" "length c = 4" "length d = 4" "length e = 12"
    by (auto simp: uuid_format_def map_eq_Cons_conv)
  have "u = join_with ''-'' [a, b, c, d, e]"
    using join_split_on [of "CHR ''-''" u] sp by simp
  with sp len that show thesis by simp
qed

lemma split_on_parts_no_sep: "p \<in> set (split_on c s) \<Longrightarrow> c \<notin> set p"
  by (induction s arbitrary: p) (auto split: if_splits list.splits)

lemma uuid_suffix:
  assumes "uuid_format u"
  obtains a b c d where "drop_last 13 u = a @ ''-'' @ b @ ''-'' @ c @ ''-'' @ d"
    "length a = 8" "length b = 4" "length c = 4" "length d = 4"
    "CHR ''-'' \<notin> set (a @ b @ c @ d)"
    "drop_last 13 (drop 8 u) = ''-'' @ b @ ''-'' @ c @ ''-'' @ d"
proof -
  from assms obtain a b c d e where u: "u = a @ ''-'' @ b @ ''-'' @ c @ ''-'' @ d @ ''-'' @ e"
    and sp: "split_on (CHR ''-'') u = [a, b, c, d, e]"
    and len: "length a = 8" "length b = 4" "length c = 4" "length d = 4" "length e = 12"
    by (rule uuid_format_parts)
  have "CHR ''-'' \<notin> set (a @ b @ c @ d)"
    using split_on_parts_no_sep [of _ "CHR ''-''" u] sp by auto
  moreover have "drop_last 13 u = a @ ''-'' @ b @ ''-'' @ c @ ''-'' @ d"
    "drop_last 13 (drop 8 u) = ''-'' @ b @ ''-'' @ c @ ''-'' @ d"
    using u len by (simp_all add: drop_last_def)
  ultimately show thesis using that len by blast
qed

lemma task_suffix_length: "uuid_format u \<Longrightarrow> length (drop_last 13 u) = 23"
  by (erule uuid_suffix) simp

lemma task_prefix_of_suffixed:
  "length t = 24 \<Longrightarrow> task_prefix_from_task_id (p @ t) =
     map (\<lambda>s. Some (IdStr s)) (re_task_split p) @ drop (length (re_task_split p)) DEFAULT_TASK_PREFIX"
  by (simp add: task_prefix_from_task_id_def Let_def)

lemma task_prefix_of_wf:
  assumes "isdigit u" "letters tt" "isdigit ow" "letters tg" "isdigit dc" "length t = 24"
  shows "task_prefix_from_task_id (u @ tt @ ow @ tg @ dc @ t) =
    map (\<lambda>s. Some (IdStr s)) [u, tt, ow, tg, dc]"
  using task_prefix_of_suffixed [OF assms(6), of "u @ tt @ ow @ tg @ dc"]
    re_task_split_prefix [OF assms(1-5)] by (simp add: const_defs)

lemma TT_letters: "tt \<in> set TT \<Longrightarrow> letters tt"
  by (auto simp: const_defs letters_def is_letter_def ch_code_def)

lemma TG_letters: "tg \<in> set TG \<Longrightarrow> letters tg"
  by (auto simp: const_defs letters_def is_letter_def ch_code_def)

lemma letters_no_dash: "letters s \<Longrightarrow> CHR ''-'' \<notin> set s"
  by (auto simp: letters_def list_all_iff is_letter_def ch_code_def)

lemma split_task_id:
  assumes "CHR ''-'' \<notin> set p" "CHR ''-'' \<notin> set (a @ b @ c @ d)"
  shows "split_on (CHR ''-'') (p @ ''-'' @ a @ ''-'' @ b @ ''-'' @ c @ ''-'' @ d) = [p, a, b, c, d]"
  using assms by (simp add: split_on_append_sep split_on_no_sep)

text \<open>
  The generator: the prefix it writes, and that the resulting ID is one \<open>is_valid_task_id\<close>
  accepts.
\<close>

lemma task_id_from_string_eq:
  "task_id_from_string md5hex uuid (Some user) (Some owner) False tt tg dc None =
     Inr (pyid_str user @ tt @ pyid_str owner @ tg @ pyid_str dc @ ''-'' @ drop_last 13 uuid)"
  by (simp add: task_id_from_string_def item_str_def Let_def)

lemma valid_wf_task_id:
  assumes "isdigit u" "tt \<in> set TT" "isdigit ow" "tg \<in> set TG" "isdigit dc"
    and "CHR ''-'' \<notin> set (a @ b @ c @ d)" "length a = 8" "length b = 4" "length c = 4" "length d = 4"
  shows "is_valid_task_id ((u @ tt @ ow @ tg @ dc) @ ''-'' @ a @ ''-'' @ b @ ''-'' @ c @ ''-'' @ d)"
proof -
  let ?p = "u @ tt @ ow @ tg @ dc"
  have "CHR ''-'' \<notin> set ?p"
    using assms(1-5) isdigit_no_dash TT_letters TG_letters letters_no_dash by (metis Un_iff set_append)
  then have "split_on (CHR ''-'') (?p @ ''-'' @ a @ ''-'' @ b @ ''-'' @ c @ ''-'' @ d) = [?p, a, b, c, d]"
    using assms(6) by (rule split_task_id)
  moreover have "re_task_split ?p = [u, tt, ow, tg, dc]"
    using assms(1-5) by (simp add: re_task_split_prefix TT_letters TG_letters)
  ultimately show ?thesis
    using assms by (simp add: is_valid_task_id_def Let_def)
qed

text \<open>
  C18. Round trip of task IDs: an ID generated for a user, owner and datacenter given as numbers,
  with a known task type and task group, is valid, and taking it apart returns exactly the
  five values it was generated from.
\<close>

theorem task_id_roundtrip:
  assumes "isdigit (pyid_str user)" "isdigit (pyid_str owner)" "isdigit (pyid_str dc)"
    and "tt \<in> set TT" "tg \<in> set TG" "uuid_format uuid"
  shows "\<exists>tid. task_id_from_string md5hex uuid (Some user) (Some owner) False tt tg dc None = Inr tid
    \<and> is_valid_task_id tid
    \<and> task_prefix_from_task_id tid = map (\<lambda>s. Some (IdStr s))
        [pyid_str user, tt, pyid_str owner, tg, pyid_str dc]"
proof -
  from assms(6) obtain a b c d where suf: "drop_last 13 uuid = a @ ''-'' @ b @ ''-'' @ c @ ''-'' @ d"
    and len: "length a = 8" "length b = 4" "length c = 4" "length d = 4"
    and nod: "CHR ''-'' \<notin> set (a @ b @ c @ d)"
    by (rule uuid_suffix)
  let ?u = "pyid_str user" and ?o = "pyid_str owner" and ?dc = "pyid_str dc"
  have "is_valid_task_id ((?u @ tt @ ?o @ tg @ ?dc) @ ''-'' @ drop_last 13 uuid)"
    unfolding suf by (rule valid_wf_task_id [OF assms(1,4,2,5,3) nod len])
  moreover have "task_prefix_from_task_id (?u @ tt @ ?o @ tg @ ?dc @ (''-'' @ drop_last 13 uuid)) =
      map (\<lambda>s. Some (IdStr s)) [?u, tt, ?o, tg, ?dc]"
    using assms task_suffix_length [OF assms(6)]
    by (intro task_prefix_of_wf) (auto intro: TT_letters TG_letters)
  ultimately show ?thesis by (simp add: task_id_from_string_eq)
qed

definition sample_uuid :: string where
  "sample_uuid = ''6f1c2a7e-1b5d-4c3a-9e0f-0123456789ab''"

theorem task_id_roundtrip_witness:
  "\<exists>tid. task_id_from_string (\<lambda>s. s) sample_uuid (Some (IdInt 12)) (Some (IdStr ''3'')) False
        TT_EXEC TG_DC_BOUND (IdInt 1) None = Inr tid
    \<and> is_valid_task_id tid
    \<and> task_prefix_from_task_id tid =
        map (\<lambda>s. Some (IdStr s)) [pyid_str (IdInt 12), TT_EXEC, pyid_str (IdStr ''3''), TG_DC_BOUND,
          pyid_str (IdInt 1)]"
  by (rule task_id_roundtrip) code_simp+

text \<open>
  Deriving a new ID from an existing one. \<open>wf_id u tt ow tg dc t\<close> is the ID with those five
  fields and the suffix \<open>t\<close>.
\<close>

definition wf_id :: "string \<Rightarrow> string \<Rightarrow> string \<Rightarrow> string \<Rightarrow> string \<Rightarrow> string \<Rightarrow> string" where
  "wf_id u tt ow tg dc t = u @ tt @ ow @ tg @ dc @ t"

definition override :: "prefix_item \<Rightarrow> string \<Rightarrow> string" where
  "override x old = (if truthy_id x then item_str x else old)"

lemma join_items_strs: "join_items (map (\<lambda>s. Some (IdStr s)) xs) = Inr (concat xs)"
  by (induction xs) auto

lemma set_items_strs:
  "set_item 4 e (set_item 3 d (set_item 2 c (set_item 1 b (set_item 0 a
      (map (\<lambda>s. Some (IdStr s)) [u, v, w, x, y]))))) =
   map (\<lambda>s. Some (IdStr s)) [override a u, override b v, override c w, override d x, override e y]"
  by (simp add: set_item_def override_def numeral_eq_Suc)

text \<open>
  Deriving a task ID from a task ID replaces exactly the fields for which a (true) value is
  given and keeps the others; the suffix is the old one on request and a new random one
  otherwise.
\<close>

theorem task_id_from_task_id_fields:
  assumes "isdigit u" "letters tt" "isdigit ow" "letters tg" "isdigit dc" "length t = 24"
  shows "task_id_from_task_id md5hex uuid (wf_id u tt ow tg dc t) a c b d e keep =
    Inr (wf_id (override a u) (override b tt) (override c ow) (override d tg) (override e dc)
           (if keep then t else ''-'' @ drop_last 13 uuid))"
proof -
  have pre: "task_prefix_from_task_id (wf_id u tt ow tg dc t) =
      map (\<lambda>s. Some (IdStr s)) [u, tt, ow, tg, dc]"
    unfolding wf_id_def using assms by (rule task_prefix_of_wf)
  have sl: "drop_last 24 (wf_id u tt ow tg dc t) = u @ tt @ ow @ tg @ dc"
    "take_last 24 (wf_id u tt ow tg dc t) = t"
    using drop_last_append [OF assms(6), of "u @ tt @ ow @ tg @ dc"]
      take_last_append [OF assms(6), of "u @ tt @ ow @ tg @ dc"] by (simp_all add: wf_id_def)
  show ?thesis
    unfolding task_id_from_task_id_def pre sl set_items_strs join_items_strs
    by (auto simp: task_id_from_string_def wf_id_def override_def)
qed

theorem task_id_from_task_id_fields_witness:
  "task_id_from_task_id (\<lambda>s. s) sample_uuid
     (wf_id ''5'' ''e'' ''9'' ''d'' ''1'' ''-6f1c2a7e-1b5d-4c3a-9e0f'') None (Some (IdInt 33)) None None
     (Some (IdInt 4)) True =
   Inr (wf_id (override None ''5'') (override None ''e'') (override (Some (IdInt 33)) ''9'')
     (override None ''d'') (override (Some (IdInt 4)) ''1'')
     (if True then ''-6f1c2a7e-1b5d-4c3a-9e0f'' else ''-'' @ drop_last 13 sample_uuid))"
  by (rule task_id_from_task_id_fields) code_simp+

text \<open>
  A prefix shorter than five fields is completed from the defaults, whose datacenter is the
  integer 1 and not a string. Taking such an ID apart works, but deriving a new ID from it with
  a new user, owner, type or group and no new datacenter always raises \<open>TypeError\<close> when the
  fields are joined.
\<close>

theorem short_task_id_join_error:
  assumes "isdigit u" "length t = 24" "truthy_id a \<or> truthy_id b \<or> truthy_id c \<or> truthy_id d"
  shows "dc_id_from_task_id (u @ t) = Some (IdInt 1)
    \<and> task_id_from_task_id md5hex uuid (u @ t) a c b d None keep =
        Inl (Exn TypeError ''sequence item: expected string'')"
proof -
  have "re_task_split u = [u]"
    using assms(1) by (simp add: re_task_split_no_letter isdigit_not_letter)
  then have pre: "task_prefix_from_task_id (u @ t) =
      [Some (IdStr u), Some (IdStr ''e''), Some (IdStr ''1''), Some (IdStr ''d''), Some (IdInt 1)]"
    using assms(2) by (simp add: task_prefix_of_suffixed const_defs)
  have "truthy_id None = False" by (simp add: truthy_id_def)
  then show ?thesis
    using assms(3) unfolding task_id_from_task_id_def pre dc_id_from_task_id_def
    by (auto simp: set_item_def numeral_eq_Suc)
qed

theorem short_task_id_join_error_witness:
  "dc_id_from_task_id (''12'' @ ''-6f1c2a7e-1b5d-4c3a-9e0f'') = Some (IdInt 1)
    \<and> task_id_from_task_id (\<lambda>s. s) sample_uuid (''12'' @ ''-6f1c2a7e-1b5d-4c3a-9e0f'') None
        (Some (IdInt 5)) None None None True =
        Inl (Exn TypeError ''sequence item: expected string'')"
  by (rule short_task_id_join_error) code_simp+

text \<open>
  Dummy task IDs are recognised: the ID generated with the dummy flag is classified as a
  dummy task, and an ordinary ID only when its random part happens to equal the digest tail of
  the user ID.
\<close>

theorem dummy_task_recognised:
  assumes "isdigit (pyid_str user)" "isdigit (pyid_str owner)" "isdigit (pyid_str dc)"
    and "letters tt" "letters tg" "uuid_format uuid"
    and "length (take_last 8 (md5hex (pyid_str user))) = 8"
    and "CHR ''-'' \<notin> set (md5hex (pyid_str user))"
    and "task_id_from_string md5hex uuid (Some user) (Some owner) dummy tt tg dc None = Inr tid"
  shows "is_dummy_task md5hex tid \<longleftrightarrow> dummy \<or> take 8 uuid = take_last 8 (md5hex (pyid_str user))"
proof -
  from assms(6) obtain a b c d where suf: "drop_last 13 uuid = a @ ''-'' @ b @ ''-'' @ c @ ''-'' @ d"
    and len: "length a = 8" "length b = 4" "length c = 4" "length d = 4"
    and nod: "CHR ''-'' \<notin> set (a @ b @ c @ d)"
    and suf8: "drop_last 13 (drop 8 uuid) = ''-'' @ b @ ''-'' @ c @ ''-'' @ d"
    by (rule uuid_suffix)
  let ?u = "pyid_str user" and ?h = "take_last 8 (md5hex (pyid_str user))"
  let ?p = "?u @ tt @ pyid_str owner @ tg @ pyid_str dc" and ?x = "if dummy then ?h else a"
  have tid: "tid = ?p @ ''-'' @ ?x @ ''-'' @ b @ ''-'' @ c @ ''-'' @ d"
    using assms(9) suf suf8
    by (auto simp: task_id_from_string_def item_str_def md5_tail_def Let_def split: if_splits)
  have "CHR ''-'' \<notin> set ?h"
    using assms(8) by (auto simp: take_last_def dest: in_set_dropD)
  moreover have "CHR ''-'' \<notin> set ?p"
    using assms(1-5) isdigit_no_dash letters_no_dash by (metis Un_iff set_append)
  ultimately have "split_on (CHR ''-'') tid = [?p, ?x, b, c, d]"
    unfolding tid using nod by (intro split_task_id) auto
  moreover have "user_id_from_task_id tid = Some (IdStr ?u)"
    using task_prefix_of_wf [OF assms(1,4,2,5,3), of "''-'' @ ?x @ ''-'' @ b @ ''-'' @ c @ ''-'' @ d"]
      assms(7) len by (simp add: tid user_id_from_task_id_def user_owner_ids_from_task_id_def)
  moreover have "take 8 uuid = a"
  proof -
    have "take 8 (drop_last 13 uuid) = a" using suf len by simp
    moreover have "take 8 (drop_last 13 uuid) = take 8 uuid"
      using task_suffix_length [OF assms(6)] by (simp add: drop_last_def min_absorb2)
    ultimately show ?thesis by simp
  qed
  ultimately show ?thesis
    by (auto simp: is_dummy_task_def md5_tail_def)
qed

theorem dummy_task_recognised_witness:
  "is_dummy_task (\<lambda>s. ''d41d8cd98f00b204'' @ s) ''5e9d1-f00b2045-1b5d-4c3a-9e0f'' \<longleftrightarrow>
     True \<or> take 8 sample_uuid = take_last 8 (''d41d8cd98f00b204'' @ pyid_str (IdInt 5))"
  by (rule dummy_task_recognised [where owner = "IdInt 9" and dc = "IdInt 1" and tt = "''e''"
        and tg = "''d''"]) code_simp+

end
