(* ===== verification/Task_Lock.thy ===== *)
theory Task_Lock
  imports Redis Task_Id
begin

text \<open>
  \<^verbatim>\<open>que/lock.py\<close>: task locks kept in Redis. A lock is a key whose value is the ID of the
  task that holds it; a second, reverse key leads from the task ID back to the lock key.
\<close>

section \<open>The code\<close>

text \<open>
  \<open>redis_set\<close>: a pipeline of \<open>SETNX\<close> or \<open>SET\<close> and, when a timeout is given, \<open>EXPIRE\<close>; the
  result is the reply to the first command.
\<close>

definition first_bool :: "rreply list \<Rightarrow> bool" where
  "first_bool rs = (case rs of RBool b # _ \<Rightarrow> b | _ \<Rightarrow> False)"

definition set_cmds :: "string \<Rightarrow> string \<Rightarrow> nat option \<Rightarrow> bool \<Rightarrow> rcmd list" where
  "set_cmds key value timeout nx =
     (if nx then CSetNx key value else CSet key value) #
     (case timeout of None \<Rightarrow> [] | Some t \<Rightarrow> if t \<noteq> 0 then [CExpire key t] else [])"

definition redis_set ::
  "'s redis_io \<Rightarrow> 's \<Rightarrow> string \<Rightarrow> string \<Rightarrow> nat option \<Rightarrow> bool \<Rightarrow> bool res \<times> 's" where
  "redis_set io s key value timeout nx =
     (let (r, s') = io s (set_cmds key value timeout nx)
      in (rbind r (\<lambda>rs. Inr (first_bool rs)), s'))"

record task_lock =
  lock_key :: string
  reverse_key :: "string option"

definition get_reverse_key :: "string \<Rightarrow> string" where
  "get_reverse_key lock_value = KEY_PREFIX @ lock_value @ '':lock''"

definition TaskLock_init :: "string \<Rightarrow> string option \<Rightarrow> task_lock" where
  "TaskLock_init name rkey = \<lparr>lock_key = name,
     reverse_key = (case rkey of Some v \<Rightarrow> (if v \<noteq> [] then Some (get_reverse_key v) else None)
                               | None \<Rightarrow> None)\<rparr>"

definition get_lock_key_from_value :: "'s redis_io \<Rightarrow> 's \<Rightarrow> string \<Rightarrow> string option res \<times> 's" where
  "get_lock_key_from_value io s lock_value =
     (let (r, s') = io s [CGet (get_reverse_key lock_value)]
      in (rbind r (\<lambda>rs. Inr (case rs of [RStr v] \<Rightarrow> v | _ \<Rightarrow> None)), s'))"

text \<open>The reverse key is computed once and remembered in the object.\<close>

definition remember_reverse_key :: "task_lock \<Rightarrow> string \<Rightarrow> string \<times> task_lock" where
  "remember_reverse_key lk lock_value = (case reverse_key lk of
      Some rk \<Rightarrow> (rk, lk)
    | None \<Rightarrow> (let rk = get_reverse_key lock_value in (rk, lk\<lparr>reverse_key := Some rk\<rparr>)))"

definition set_reverse ::
  "'s redis_io \<Rightarrow> task_lock \<Rightarrow> 's \<Rightarrow> string \<Rightarrow> nat option \<Rightarrow> task_lock \<times> 's" where
  "set_reverse io lk s lock_value timeout =
     (let (rk, lk') = remember_reverse_key lk lock_value;
          (_, s') = redis_set io s rk (lock_key lk) timeout False
      in (lk', s'))"

definition delete_reverse ::
  "'s redis_io \<Rightarrow> task_lock \<Rightarrow> 's \<Rightarrow> string \<Rightarrow> task_lock \<times> 's" where
  "delete_reverse io lk s lock_value =
     (let (rk, lk') = remember_reverse_key lk lock_value;
          (_, s') = io s [CDel rk]
      in (lk', s'))"

definition lock_acquire ::
  "'s redis_io \<Rightarrow> task_lock \<Rightarrow> 's \<Rightarrow> string \<Rightarrow> nat option \<Rightarrow> bool \<Rightarrow>
   bool res \<times> task_lock \<times> 's" where
  "lock_acquire io lk s value timeout save_reverse =
     (case redis_set io s (lock_key lk) value timeout True of
        (Inl e, s1) \<Rightarrow> (Inl e, lk, s1)
      | (Inr got, s1) \<Rightarrow>
          (if got \<and> save_reverse
           then let (lk', s2) = set_reverse io lk s1 value timeout in (Inr got, lk', s2)
           else (Inr got, lk, s1)))"

text \<open>
  \<open>delete\<close> reads the lock value, compares it when a check value is given, deletes the key and
  then the reverse key. An exception of the first two calls is swallowed with
  \<open>fail_silently\<close>.
\<close>

definition on_error :: "bool \<Rightarrow> pyexn \<Rightarrow> bool res" where
  "on_error fail_silently e = (if fail_silently then Inr False else Inl e)"

definition opt_str :: "string option \<Rightarrow> string" where
  "opt_str v = (case v of None \<Rightarrow> ''None'' | Some x \<Rightarrow> x)"

definition deleted_some :: "rreply list \<Rightarrow> bool" where
  "deleted_some rs = (case rs of RInt n # _ \<Rightarrow> n \<noteq> 0 | _ \<Rightarrow> False)"

definition lock_delete_commit ::
  "'s redis_io \<Rightarrow> task_lock \<Rightarrow> 's \<Rightarrow> string option \<Rightarrow> bool \<Rightarrow> bool \<Rightarrow> bool res \<times> task_lock \<times> 's" where
  "lock_delete_commit io lk s value fail_silently del_reverse =
     (case io s [CDel (lock_key lk)] of
        (Inl e, s1) \<Rightarrow> (on_error fail_silently e, lk, s1)
      | (Inr rs, s1) \<Rightarrow>
          (if deleted_some rs \<and> del_reverse
           then let (lk', s2) = delete_reverse io lk s1 (opt_str value) in (Inr True, lk', s2)
           else (Inr (deleted_some rs), lk, s1)))"

definition lock_delete ::
  "'s redis_io \<Rightarrow> task_lock \<Rightarrow> 's \<Rightarrow> string option \<Rightarrow> bool \<Rightarrow> bool \<Rightarrow> bool res \<times> task_lock \<times> 's" where
  "lock_delete io lk s check_value fail_silently del_reverse =
     (case io s [CGet (lock_key lk)] of
        (Inl e, s1) \<Rightarrow> (on_error fail_silently e, lk, s1)
      | (Inr rs, s1) \<Rightarrow>
          (let value = (case rs of [RStr v] \<Rightarrow> v | _ \<Rightarrow> None)
           in if check_value \<noteq> None \<and> check_value \<noteq> value then (Inr False, lk, s1)
              else lock_delete_commit io lk s1 value fail_silently del_reverse))"

definition lock_exists :: "'s redis_io \<Rightarrow> task_lock \<Rightarrow> 's \<Rightarrow> bool res \<times> 's" where
  "lock_exists io lk s =
     (let (r, s') = io s [CExists (lock_key lk)] in (rbind r (\<lambda>rs. Inr (first_bool rs)), s'))"

definition lock_get :: "'s redis_io \<Rightarrow> task_lock \<Rightarrow> 's \<Rightarrow> string option res \<times> 's" where
  "lock_get io lk s =
     (let (r, s') = io s [CGet (lock_key lk)]
      in (rbind r (\<lambda>rs. Inr (case rs of [RStr v] \<Rightarrow> v | _ \<Rightarrow> None)), s'))"

definition lock_task_check :: "'s redis_io \<Rightarrow> task_lock \<Rightarrow> 's \<Rightarrow> string \<Rightarrow> unit res \<times> 's" where
  "lock_task_check io lk s errmsg =
     (case lock_exists io lk s of
        (Inl e, s1) \<Rightarrow> (Inl e, s1)
      | (Inr False, s1) \<Rightarrow> (Inl (Exn TaskLockError errmsg), s1)
      | (Inr True, s1) \<Rightarrow>
          (case io s1 [CPersist (lock_key lk)] of
             (Inl e, s2) \<Rightarrow> (Inl e, s2)
           | (Inr _, s2) \<Rightarrow>
               (case reverse_key lk of
                  None \<Rightarrow> (Inr (), s2)
                | Some rk \<Rightarrow> (let (r, s3) = io s2 [CPersist rk] in (rbind r (\<lambda>_. Inr ()), s3)))))"

text \<open>
  \<open>NoLock\<close> answers every method call with \<open>None\<close>. The two classes together, as the runners of
  tasks use them.
\<close>

datatype any_lock = NoLock | Lock task_lock

definition any_task_check :: "'s redis_io \<Rightarrow> any_lock \<Rightarrow> 's \<Rightarrow> unit res \<times> 's" where
  "any_task_check io l s = (case l of
      NoLock \<Rightarrow> (Inr (), s)
    | Lock lk \<Rightarrow> lock_task_check io lk s ''Task did not acquire lock'')"

definition any_delete :: "'s redis_io \<Rightarrow> any_lock \<Rightarrow> 's \<Rightarrow> bool res \<times> 's" where
  "any_delete io l s = (case l of
      NoLock \<Rightarrow> (Inr False, s)
    | Lock lk \<Rightarrow> (let (r, _, s') = lock_delete io lk s None False True in (r, s')))"

section \<open>Effect of the operations on the store\<close>

definition ttl_of :: "nat option \<Rightarrow> nat option" where
  "ttl_of timeout = (case timeout of None \<Rightarrow> None | Some n \<Rightarrow> if n = 0 then None else Some n)"

definition retime :: "nat option \<Rightarrow> rval \<times> nat option \<Rightarrow> rval \<times> nat option" where
  "retime timeout x = (case ttl_of timeout of None \<Rightarrow> x | Some n \<Rightarrow> (fst x, Some n))"

lemma retime_value [simp]: "fst (retime t x) = fst x"
  by (simp add: retime_def split: option.splits)

lemma run_set_nx:
  "redis_run st (set_cmds k v t True) =
     (RBool (st k = None) # (case ttl_of t of None \<Rightarrow> [] | Some _ \<Rightarrow> [RBool True]),
      st(k := Some (case st k of None \<Rightarrow> (RString v, ttl_of t) | Some x \<Rightarrow> retime t x)))"
  by (cases t; cases "st k")
     (auto simp: set_cmds_def ttl_of_def retime_def Let_def split_def)

lemma run_set:
  "redis_run st (set_cmds k v t False) =
     (RBool True # (case ttl_of t of None \<Rightarrow> [] | Some _ \<Rightarrow> [RBool True]),
      st(k \<mapsto> (RString v, ttl_of t)))"
  by (cases t) (auto simp: set_cmds_def ttl_of_def Let_def)

lemma remember_fresh [simp]:
  "remember_reverse_key (TaskLock_init key None) v =
     (get_reverse_key v, \<lparr>lock_key = key, reverse_key = Some (get_reverse_key v)\<rparr>)"
  by (simp add: remember_reverse_key_def TaskLock_init_def Let_def)

lemma TaskLock_init_simps [simp]:
  "lock_key (TaskLock_init key rk) = key"
  "reverse_key (TaskLock_init key None) = None"
  "v \<noteq> [] \<Longrightarrow> reverse_key (TaskLock_init key (Some v)) = Some (get_reverse_key v)"
  by (simp_all add: TaskLock_init_def)

lemma get_reverse_key_inject [simp]: "get_reverse_key v = get_reverse_key w \<longleftrightarrow> v = w"
  by (simp add: get_reverse_key_def)

context redis_service
begin

lemma redis_set_io:
  assumes "redis_set io s k v t nx = (r, s')"
  obtains r' where "io s (set_cmds k v t nx) = (r', s')" "rbind r' (\<lambda>rs. Inr (first_bool rs)) = r"
  using assms by (auto simp: redis_set_def split: prod.splits)

lemma redis_set_nx_result:
  assumes "redis_set io s k v t True = (Inr got, s')"
  shows "got \<longleftrightarrow> view s k = None"
    and "view s' = (view s)(k := Some (case view s k of None \<Rightarrow> (RString v, ttl_of t)
                                       | Some x \<Rightarrow> retime t x))"
proof -
  obtain rs where io: "io s (set_cmds k v t True) = (Inr rs, s')" and got: "got = first_bool rs"
    using assms by (rule redis_set_io) (auto simp: rbind_Inr_iff)
  from io_replies [OF io] got show "got \<longleftrightarrow> view s k = None"
    by (simp add: run_set_nx first_bool_def)
  from io_effect [OF io]
  show "view s' = (view s)(k := Some (case view s k of None \<Rightarrow> (RString v, ttl_of t)
                                      | Some x \<Rightarrow> retime t x))"
    by (simp add: run_set_nx)
qed

lemma redis_set_nx_failure:
  assumes "redis_set io s k v t True = (Inl e, s')"
  shows "view s' = view s \<or>
    view s' = (view s)(k := Some (case view s k of None \<Rightarrow> (RString v, ttl_of t)
                                  | Some x \<Rightarrow> retime t x))"
proof -
  obtain e' where "io s (set_cmds k v t True) = (Inl e', s')"
    using assms by (rule redis_set_io) (auto simp: rbind_Inl_iff)
  from io_failure [OF this] show ?thesis by (simp add: run_set_nx)
qed

lemma redis_set_effect:
  assumes "redis_set io s k v t False = (r, s')"
  shows "view s' = view s \<or> view s' = (view s)(k \<mapsto> (RString v, ttl_of t))"
proof -
  obtain r' where "io s (set_cmds k v t False) = (r', s')"
    using assms by (rule redis_set_io)
  then show ?thesis
    using io_effect io_failure by (cases r') (fastforce simp: run_set)+
qed

lemma redis_set_ok:
  assumes "redis_set io s k v t False = (Inr b, s')"
  shows "b" and "view s' = (view s)(k \<mapsto> (RString v, ttl_of t))"
proof -
  obtain rs where io: "io s (set_cmds k v t False) = (Inr rs, s')" and b: "b = first_bool rs"
    using assms by (rule redis_set_io) (auto simp: rbind_Inr_iff)
  from io_replies [OF io] b show b by (simp add: run_set first_bool_def)
  from io_effect [OF io] show "view s' = (view s)(k \<mapsto> (RString v, ttl_of t))"
    by (simp add: run_set)
qed

lemma set_reverse_frame:
  assumes "set_reverse io lk s v t = (lk', s')" "k \<noteq> fst (remember_reverse_key lk v)"
  shows "view s' k = view s k"
proof -
  obtain r where "redis_set io s (fst (remember_reverse_key lk v)) (lock_key lk) t False = (r, s')"
    using assms(1) by (auto simp: set_reverse_def split: prod.splits)
  from redis_set_effect [OF this] assms(2) show ?thesis by auto
qed

lemma del_effect:
  assumes "io s [CDel k] = (r, s')"
  shows "view s' = view s \<or> view s' = (view s)(k := None)"
  using assms io_effect [of s "[CDel k]"] io_failure [of s "[CDel k]"] by (cases r) auto

lemma delete_reverse_frame:
  assumes "delete_reverse io lk s v = (lk', s')" "k \<noteq> fst (remember_reverse_key lk v)"
  shows "view s' k = view s k"
proof -
  obtain r where "io s [CDel (fst (remember_reverse_key lk v))] = (r, s')"
    using assms(1) by (auto simp: delete_reverse_def split: prod.splits)
  from del_effect [OF this] assms(2) show ?thesis by auto
qed

end

section \<open>The contract of an exclusive lock\<close>

text \<open>
  What the users of a lock rely on, whatever the store is: \<open>acquire\<close> succeeds only on a free
  lock and then the caller holds it, a refused \<open>acquire\<close> leaves the holder alone, \<open>release\<close>
  with one's own value frees the lock, with another value it leaves the holder alone. A call
  that raises has either done its work or nothing.
\<close>

text \<open>A run of requests of several clients against one lock: \<open>True\<close> asks, \<open>False\<close> releases.\<close>

fun do_op :: "('s \<Rightarrow> 'v \<Rightarrow> bool res \<times> 's) \<Rightarrow> ('s \<Rightarrow> 'v \<Rightarrow> bool res \<times> 's) \<Rightarrow> 's \<Rightarrow> bool \<times> 'v \<Rightarrow>
    bool res \<times> 's" where
  "do_op acq rel s (True, v) = acq s v"
| "do_op acq rel s (False, v) = rel s v"

fun do_ops :: "('s \<Rightarrow> 'v \<Rightarrow> bool res \<times> 's) \<Rightarrow> ('s \<Rightarrow> 'v \<Rightarrow> bool res \<times> 's) \<Rightarrow> 's \<Rightarrow>
    (bool \<times> 'v) list \<Rightarrow> bool res list \<times> 's" where
  "do_ops acq rel s [] = ([], s)"
| "do_ops acq rel s (x # xs) =
     (let (r, s1) = do_op acq rel s x; (rs, s2) = do_ops acq rel s1 xs in (r # rs, s2))"

locale exclusive_lock =
  fixes acquire :: "'s \<Rightarrow> 'v \<Rightarrow> bool res \<times> 's"
    and release :: "'s \<Rightarrow> 'v \<Rightarrow> bool res \<times> 's"
    and holder :: "'s \<Rightarrow> 'v option"
    and valid :: "'v \<Rightarrow> bool"
  assumes acquire_ok: "valid v \<Longrightarrow> acquire s v = (Inr True, s') \<Longrightarrow>
      holder s = None \<and> holder s' = Some v"
    and acquire_busy: "valid v \<Longrightarrow> acquire s v = (Inr False, s') \<Longrightarrow> holder s' = holder s"
    and acquire_error: "valid v \<Longrightarrow> acquire s v = (Inl e, s') \<Longrightarrow>
      holder s' = holder s \<or> (holder s = None \<and> holder s' = Some v)"
    and release_ok: "valid v \<Longrightarrow> release s v = (Inr True, s') \<Longrightarrow>
      holder s = Some v \<and> holder s' = None"
    and release_kept: "valid v \<Longrightarrow> release s v = (r, s') \<Longrightarrow> holder s' = holder s \<or>
      (holder s = Some v \<and> holder s' = None)"
begin

text \<open>
  While \<open>v\<close> holds the lock and does not release it, the lock stays with \<open>v\<close> and nobody else's
  \<open>acquire\<close> succeeds.
\<close>

lemma held_stays:
  assumes "holder s = Some v" "\<forall>x \<in> set xs. valid (snd x)" "(False, v) \<notin> set xs"
  shows "holder (snd (do_ops acquire release s xs)) = Some v
    \<and> (\<forall>i < length xs. fst (xs ! i) \<longrightarrow> fst (do_ops acquire release s xs) ! i \<noteq> Inr True)"
  using assms
proof (induction xs arbitrary: s)
  case Nil
  then show ?case by simp
next
  case (Cons x xs)
  obtain acq w where x: "x = (acq, w)" by force
  obtain r s1 where r: "do_op acquire release s x = (r, s1)" by force
  have w: "valid w" and nrel: "acq \<or> w \<noteq> v" using Cons.prems x by auto
  have step: "holder s1 = Some v \<and> (acq \<longrightarrow> r \<noteq> Inr True)"
  proof (cases acq)
    case True
    with r x have a: "acquire s w = (r, s1)" by simp
    show ?thesis
    proof (cases r)
      case (Inl e)
      with a acquire_error [OF w] Cons.prems(1) show ?thesis by force
    next
      case (Inr b)
      with a acquire_ok [OF w] acquire_busy [OF w] Cons.prems(1) True show ?thesis
        by (cases b) force+
    qed
  next
    case False
    with r x release_kept [OF w, of s r s1] Cons.prems(1) nrel show ?thesis by auto
  qed
  have "fst (do_ops acquire release s (x # xs)) = r # fst (do_ops acquire release s1 xs)" "snd (do_ops acquire release s (x # xs)) = snd (do_ops acquire release s1 xs)"
    using r by (simp_all add: split_def Let_def)
  moreover have "holder (snd (do_ops acquire release s1 xs)) = Some v
      \<and> (\<forall>i < length xs. fst (xs ! i) \<longrightarrow> fst (do_ops acquire release s1 xs) ! i \<noteq> Inr True)"
    using step Cons by simp
  ultimately show ?case using step x by (auto simp: nth_Cons split: nat.split)
qed

end

text \<open>The two calls on a fresh lock object for a key, as the task runners make them.\<close>

definition acquire_call ::
  "'s redis_io \<Rightarrow> string \<Rightarrow> nat option \<Rightarrow> 's \<Rightarrow> string \<Rightarrow> bool res \<times> 's" where
  "acquire_call io key timeout s v =
     (let (r, _, s') = lock_acquire io (TaskLock_init key None) s v timeout True in (r, s'))"

definition release_call :: "'s redis_io \<Rightarrow> string \<Rightarrow> 's \<Rightarrow> string \<Rightarrow> bool res \<times> 's" where
  "release_call io key s v =
     (let (r, _, s') = lock_delete io (TaskLock_init key None) s (Some v) True True in (r, s'))"

text \<open>Who holds the lock with a given key: the stored value, and its text.\<close>

definition lock_owner :: "('s \<Rightarrow> store) \<Rightarrow> string \<Rightarrow> 's \<Rightarrow> string option" where
  "lock_owner view key s =
     map_option (\<lambda>x. case fst x of RString v \<Rightarrow> v | _ \<Rightarrow> []) (view s key)"

definition lock_holder :: "('s \<Rightarrow> store) \<Rightarrow> string \<Rightarrow> 's \<Rightarrow> rval option" where
  "lock_holder view key s = map_option fst (view s key)"

lemma owner_of_holder:
  "lock_owner view key s =
     map_option (\<lambda>r. case r of RString v \<Rightarrow> v | _ \<Rightarrow> []) (lock_holder view key s)"
  by (simp add: lock_owner_def lock_holder_def option.map_comp comp_def)

context redis_service
begin

lemma acquire_cases:
  assumes "lock_acquire io (TaskLock_init key None) s v t sr = (Inr got, lk', s')"
    and "get_reverse_key v \<noteq> key"
  shows "got \<longleftrightarrow> view s key = None"
    and "view s' key = Some (case view s key of None \<Rightarrow> (RString v, ttl_of t) | Some x \<Rightarrow> retime t x)"
proof -
  obtain s1 where s1: "redis_set io s key v t True = (Inr got, s1)"
    and s': "s' = s1 \<or> (\<exists>lk. set_reverse io (TaskLock_init key None) s1 v t = (lk, s'))"
    using assms(1) by (auto simp: lock_acquire_def split: prod.splits sum.splits if_splits)
  from redis_set_nx_result [OF s1] show "got \<longleftrightarrow> view s key = None" by simp
  have "view s' key = view s1 key"
    using s' set_reverse_frame [of "TaskLock_init key None" s1 v t _ s' key] assms(2) by auto
  with redis_set_nx_result(2) [OF s1]
  show "view s' key = Some (case view s key of None \<Rightarrow> (RString v, ttl_of t) | Some x \<Rightarrow> retime t x)"
    by simp
qed

lemma acquire_failed:
  assumes "lock_acquire io lk s v t sr = (Inl e, lk', s')"
  shows "view s' = view s \<or> view s' = (view s)(lock_key lk :=
    Some (case view s (lock_key lk) of None \<Rightarrow> (RString v, ttl_of t) | Some x \<Rightarrow> retime t x))"
proof -
  have "redis_set io s (lock_key lk) v t True = (Inl e, s')"
    using assms by (auto simp: lock_acquire_def split: prod.splits sum.splits if_splits)
  then show ?thesis by (rule redis_set_nx_failure)
qed

end

context redis_service
begin

lemma get_value:
  assumes "io s [CGet k] = (Inr rs, s')"
  shows "(case rs of [RStr v] \<Rightarrow> v | _ \<Rightarrow> None) = str_at (view s) k" and "view s' = view s"
  using io_replies [OF assms] io_effect [OF assms]
  by (auto simp: str_at_def split: option.splits rval.splits)

lemma get_failed: "io s [CGet k] = (Inl e, s') \<Longrightarrow> view s' = view s"
  by (rule io_read_only [of s "[CGet k]"]) (auto split: option.splits rval.splits)

lemma delete_commit_cases:
  assumes "lock_delete_commit io (TaskLock_init key None) s v fs dr = (r, lk', s')"
    and "get_reverse_key (opt_str v) \<noteq> key"
  shows "view s' key = view s key \<or> view s' key = None"
    and "r = Inr True \<Longrightarrow> view s key \<noteq> None \<and> view s' key = None"
proof -
  obtain r1 s1 where d: "io s [CDel key] = (r1, s1)" by force
  have s': "s' = s1 \<or> (\<exists>lk. delete_reverse io (TaskLock_init key None) s1 (opt_str v) = (lk, s'))"
    using assms(1) d by (auto simp: lock_delete_commit_def split: sum.splits if_splits prod.splits)
  then have eq: "view s' key = view s1 key"
    using delete_reverse_frame [of "TaskLock_init key None" s1 "opt_str v" _ s' key] assms(2) by auto
  with del_effect [OF d] show "view s' key = view s key \<or> view s' key = None" by auto
  assume r: "r = Inr True"
  have "\<exists>rs. r1 = Inr rs \<and> deleted_some rs"
    using r assms(1) d
    by (auto simp: lock_delete_commit_def on_error_def split: sum.splits if_splits prod.splits)
  with io_replies [of s "[CDel key]"] io_effect [of s "[CDel key]"] d eq
  show "view s key \<noteq> None \<and> view s' key = None"
    by (auto simp: deleted_some_def split: if_splits)
qed

lemma delete_mismatch:
  assumes "str_at (view s) key \<noteq> Some v"
    and "lock_delete io (TaskLock_init key None) s (Some v) fs dr = (r, lk', s')"
  shows "view s' = view s \<and> r \<noteq> Inr True"
proof -
  obtain r1 s1 where g: "io s [CGet key] = (r1, s1)" by force
  then have "view s1 = view s" using get_failed get_value(2) by (cases r1) auto
  then show ?thesis
    using assms g get_value(1) [of s key _ s1]
    by (auto simp: lock_delete_def on_error_def Let_def split: sum.splits if_splits)
qed

lemma delete_checked_cases:
  assumes "lock_delete io (TaskLock_init key None) s (Some v) fs dr = (r, lk', s')"
    and "get_reverse_key v \<noteq> key"
  shows "view s' key = view s key \<or> (lock_holder view key s = Some (RString v) \<and> view s' key = None)"
    and "r = Inr True \<Longrightarrow> lock_holder view key s = Some (RString v) \<and> view s' key = None"
proof -
  obtain r1 s1 where g: "io s [CGet key] = (r1, s1)" by force
  have vs1: "view s1 = view s"
    using g get_failed get_value(2) by (cases r1) auto
  have unch: "(view s' = view s \<and> r \<noteq> Inr True) \<or>
      (lock_delete_commit io (TaskLock_init key None) s1 (Some v) fs dr = (r, lk', s')
       \<and> str_at (view s) key = Some v)"
    using assms(1) g vs1 get_value(1) [of s key _ s1]
    by (auto simp: lock_delete_def on_error_def Let_def split: sum.splits if_splits)
  have hold: "str_at (view s) key = Some v \<Longrightarrow> lock_holder view key s = Some (RString v)"
    by (auto simp: str_at_def lock_holder_def split: option.splits rval.splits)
  show "view s' key = view s key \<or> (lock_holder view key s = Some (RString v) \<and> view s' key = None)"
    using unch hold vs1 delete_commit_cases(1) [of key s1 "Some v" fs dr r lk' s'] assms(2)
    by (auto simp: opt_str_def)
  show "r = Inr True \<Longrightarrow> lock_holder view key s = Some (RString v) \<and> view s' key = None"
    using unch hold vs1 delete_commit_cases(2) [of key s1 "Some v" fs dr r lk' s'] assms(2)
    by (auto simp: opt_str_def)
qed

lemma acquire_call_ok:
  assumes "get_reverse_key v \<noteq> key" "acquire_call io key t s v = (Inr got, s')"
  shows "if got then lock_holder view key s = None \<and> lock_holder view key s' = Some (RString v)
    else lock_holder view key s' = lock_holder view key s"
proof -
  obtain lk' where "lock_acquire io (TaskLock_init key None) s v t True = (Inr got, lk', s')"
    using assms(2) by (auto simp: acquire_call_def split: prod.splits)
  from acquire_cases [OF this assms(1)] show ?thesis
    by (auto simp: lock_holder_def split: option.splits)
qed

end

text \<open>
  The code's calls satisfy the contract, on every service that behaves as documented and for
  every key and timeout. Only a value whose reverse key is the lock key itself is excluded.
\<close>

sublocale redis_service \<subseteq> key_lock: exclusive_lock
  "\<lambda>s v. acquire_call io key t s v" "\<lambda>s v. release_call io key s v"
  "\<lambda>s. lock_owner view key s"
  "\<lambda>v. get_reverse_key v \<noteq> key"
  for key t
proof (unfold_locales, goal_cases)
  case (1 v s s')
  from acquire_call_ok [OF this] show ?case by (auto simp: owner_of_holder)
next
  case (2 v s s')
  from acquire_call_ok [OF this] show ?case by (auto simp: owner_of_holder)
next
  case (3 v s e s')
  then obtain lk' where "lock_acquire io (TaskLock_init key None) s v t True = (Inl e, lk', s')"
    by (auto simp: acquire_call_def split: prod.splits)
  from acquire_failed [OF this] show ?case
    by (auto simp: lock_owner_def retime_def split: option.splits)
next
  case (4 v s s')
  then obtain lk' where "lock_delete io (TaskLock_init key None) s (Some v) True True = (Inr True, lk', s')"
    by (auto simp: release_call_def split: prod.splits)
  from delete_checked_cases(2) [OF this] 4 show ?case
    by (auto simp: lock_holder_def lock_owner_def)
next
  case (5 v s r s')
  then obtain lk' where "lock_delete io (TaskLock_init key None) s (Some v) True True = (r, lk', s')"
    by (auto simp: release_call_def split: prod.splits)
  from delete_checked_cases(1) [OF this] 5 show ?case
    by (auto simp: lock_holder_def lock_owner_def)
qed

context redis_service
begin

lemma lock_stays_with_holder:
  assumes "lock_owner view key s = Some tid"
    and "\<forall>x \<in> set xs. get_reverse_key (snd x) \<noteq> key" and "(False, tid) \<notin> set xs"
  shows "lock_owner view key (snd (do_ops (acquire_call io key t) (release_call io key) s xs)) = Some tid
    \<and> (\<forall>i < length xs. fst (xs ! i) \<longrightarrow>
         fst (do_ops (acquire_call io key t) (release_call io key) s xs) ! i \<noteq> Inr True)"
  using assms by (rule key_lock.held_stays)

end

section \<open>Properties\<close>

text \<open>
  C19. Mutual exclusion. While a task holds a lock and nobody releases it in that task's name, no
  sequence of acquire and release calls of other tasks, on any service that behaves as
  documented (connection errors included), takes the lock away or lets another acquire succeed.
\<close>

theorem lock_mutual_exclusion:
  assumes "redis_service io view"
    and "lock_owner view key s = Some tid"
    and "\<forall>x \<in> set xs. get_reverse_key (snd x) \<noteq> key" and "(False, tid) \<notin> set xs"
  shows "lock_owner view key (snd (do_ops (acquire_call io key t) (release_call io key) s xs)) = Some tid
    \<and> (\<forall>i < length xs. fst (xs ! i) \<longrightarrow>
         fst (do_ops (acquire_call io key t) (release_call io key) s xs) ! i \<noteq> Inr True)"
  by (rule redis_service.lock_stays_with_holder [OF assms])

definition demo_key :: string where "demo_key = ''esdc:vm_status vm:1''"

definition demo_redis :: sim_redis where
  "demo_redis = \<lparr>sim_store = Map.empty(demo_key \<mapsto> (RString ''5e9d1-a'', None)),
     sim_faults = [True, False, False, True]\<rparr>"

definition demo_calls :: "(bool \<times> string) list" where
  "demo_calls = [(True, ''b''), (True, ''b''), (False, ''c'')]"

theorem lock_mutual_exclusion_witness:
  "lock_owner sim_store demo_key (snd (do_ops (acquire_call sim_io demo_key (Some 300))
       (release_call sim_io demo_key) demo_redis demo_calls)) = Some ''5e9d1-a''
   \<and> fst (do_ops (acquire_call sim_io demo_key (Some 300)) (release_call sim_io demo_key) demo_redis
          demo_calls) ! 1 \<noteq> Inr True"
proof -
  have "lock_owner sim_store demo_key demo_redis = Some ''5e9d1-a''"
    by (simp add: lock_owner_def demo_redis_def)
  moreover have "\<forall>x \<in> set demo_calls. get_reverse_key (snd x) \<noteq> demo_key"
    by (simp add: get_reverse_key_def demo_key_def demo_calls_def const_defs)
  moreover have "(False, ''5e9d1-a'') \<notin> set demo_calls" by (simp add: demo_calls_def)
  ultimately have "lock_owner sim_store demo_key (snd (do_ops (acquire_call sim_io demo_key (Some 300))
       (release_call sim_io demo_key) demo_redis demo_calls)) = Some ''5e9d1-a''
    \<and> (\<forall>i < length demo_calls. fst (demo_calls ! i) \<longrightarrow>
         fst (do_ops (acquire_call sim_io demo_key (Some 300)) (release_call sim_io demo_key) demo_redis
          demo_calls) ! i \<noteq> Inr True)"
    by (rule lock_mutual_exclusion [OF sim.redis_service_axioms])
  then show ?thesis by (auto simp: demo_calls_def)
qed

text \<open>
  A refused acquire is not harmless: its \<open>EXPIRE\<close> is sent unconditionally in the same
  pipeline, so the lock of the other task gets the caller's timeout, even when the running task
  had removed the expiration of its lock.
\<close>

theorem refused_acquire_sets_expiration:
  assumes "redis_service io view"
    and "view s key = Some (v, ttl)" and "get_reverse_key tid \<noteq> key" and "n \<noteq> 0"
    and "lock_acquire io (TaskLock_init key None) s tid (Some n) sr = (Inr got, lk', s')"
  shows "\<not> got \<and> view s' key = Some (v, Some n)"
  using redis_service.acquire_cases [OF assms(1,5,3)] assms(2,4)
  by (simp add: retime_def ttl_of_def)

theorem refused_acquire_sets_expiration_witness:
  "\<not> False \<and> sim_store (snd (snd (lock_acquire sim_io (TaskLock_init demo_key None)
      (demo_redis\<lparr>sim_faults := []\<rparr>) ''b'' (Some 300) True))) demo_key = Some (RString ''5e9d1-a'', Some 300)"
proof (rule refused_acquire_sets_expiration [OF sim.redis_service_axioms])
  let ?r = "lock_acquire sim_io (TaskLock_init demo_key None) (demo_redis\<lparr>sim_faults := []\<rparr>) ''b''
      (Some 300) True"
  show "sim_store (demo_redis\<lparr>sim_faults := []\<rparr>) demo_key = Some (RString ''5e9d1-a'', None)"
    by (simp add: demo_redis_def)
  show "get_reverse_key ''b'' \<noteq> demo_key"
    by (simp add: get_reverse_key_def demo_key_def const_defs)
  show "?r = (Inr False, fst (snd ?r), snd (snd ?r))"
    by (simp add: lock_acquire_def redis_set_def set_cmds_def sim_io_def demo_redis_def first_bool_def
        rbind_def Let_def)
qed simp

text \<open>
  C11. Release is by the owner only. \<open>delete\<close> with a check value that is not the stored value
  reports failure and changes nothing; whatever it reports, the lock changes hands only from the
  given value to nobody.
\<close>

theorem delete_checked_owner_only:
  assumes "redis_service io view" and "get_reverse_key tid \<noteq> key"
    and "lock_delete io (TaskLock_init key None) s (Some tid) fs dr = (r, lk', s')"
  shows "(str_at (view s) key \<noteq> Some tid \<longrightarrow> view s' = view s \<and> r \<noteq> Inr True)
    \<and> (view s' key = view s key \<or> (lock_holder view key s = Some (RString tid) \<and> view s' key = None))"
proof (intro conjI impI)
  assume ne: "str_at (view s) key \<noteq> Some tid"
  show "view s' = view s" "r \<noteq> Inr True"
    using redis_service.delete_mismatch [OF assms(1) ne assms(3)] by auto
qed (rule redis_service.delete_checked_cases(1) [OF assms(1,3,2)])

theorem delete_checked_owner_only_witness:
  "sim_store (snd (snd (lock_delete sim_io (TaskLock_init demo_key None) demo_redis (Some ''b'') True True))) =
     sim_store demo_redis
   \<and> fst (lock_delete sim_io (TaskLock_init demo_key None) demo_redis (Some ''b'') True True) \<noteq> Inr True"
proof -
  let ?r = "lock_delete sim_io (TaskLock_init demo_key None) demo_redis (Some ''b'') True True"
  have "get_reverse_key ''b'' \<noteq> demo_key"
    by (simp add: get_reverse_key_def demo_key_def const_defs)
  moreover have "?r = (fst ?r, fst (snd ?r), snd (snd ?r))" by simp
  moreover have "str_at (sim_store demo_redis) demo_key \<noteq> Some ''b''"
    by (simp add: str_at_def demo_redis_def)
  ultimately show ?thesis
    using delete_checked_owner_only [OF sim.redis_service_axioms] by blast
qed

text \<open>A service whose calls all return.\<close>

definition always_up :: "'s redis_io \<Rightarrow> bool" where
  "always_up io \<longleftrightarrow> (\<forall>s cs. \<exists>rs s'. io s cs = (Inr rs, s'))"

context redis_service
begin

lemma up_call:
  assumes "always_up io"
  obtains s' where "io s cs = (Inr (fst (redis_run (view s) cs)), s')"
    "view s' = snd (redis_run (view s) cs)"
proof -
  from assms obtain rs s' where "io s cs = (Inr rs, s')" unfolding always_up_def by blast
  with io_replies [OF this] io_effect [OF this] that show thesis by simp
qed

lemma up_acquire_free:
  assumes "always_up io" "view s key = None" "get_reverse_key v \<noteq> key"
  obtains s' where "lock_acquire io (TaskLock_init key None) s v t True =
      (Inr True, \<lparr>lock_key = key, reverse_key = Some (get_reverse_key v)\<rparr>, s')"
    "view s' = (view s)(key \<mapsto> (RString v, ttl_of t), get_reverse_key v \<mapsto> (RString key, ttl_of t))"
proof -
  obtain s1 where s1: "io s (set_cmds key v t True) = (Inr (fst (redis_run (view s) (set_cmds key v t True))), s1)"
    and v1: "view s1 = (view s)(key \<mapsto> (RString v, ttl_of t))"
    using up_call [OF assms(1), of s "set_cmds key v t True"] assms(2) by (auto simp: run_set_nx)
  obtain s2 where s2: "io s1 (set_cmds (get_reverse_key v) key t False) =
      (Inr (fst (redis_run (view s1) (set_cmds (get_reverse_key v) key t False))), s2)"
    and v2: "view s2 = (view s1)(get_reverse_key v \<mapsto> (RString key, ttl_of t))"
    using up_call [OF assms(1), of s1 "set_cmds (get_reverse_key v) key t False"] by (auto simp: run_set)
  have "lock_acquire io (TaskLock_init key None) s v t True =
      (Inr True, \<lparr>lock_key = key, reverse_key = Some (get_reverse_key v)\<rparr>, s2)"
    using s1 s2 assms(2)
    by (simp add: lock_acquire_def redis_set_def set_reverse_def run_set_nx first_bool_def Let_def)
  with v1 v2 that show thesis by simp
qed

lemma up_get:
  assumes "always_up io" "view s k = Some (RString v, t)"
  obtains s' where "io s [CGet k] = (Inr [RStr (Some v)], s')" "view s' = view s"
  using up_call [OF assms(1), of s "[CGet k]"] assms(2) by auto

lemma up_del:
  assumes "always_up io" "view s k \<noteq> None"
  obtains s' where "io s [CDel k] = (Inr [RInt 1], s')" "view s' = (view s)(k := None)"
  using up_call [OF assms(1), of s "[CDel k]"] assms(2) by auto

lemma up_delete_own:
  assumes "always_up io" "view s key = Some (RString v, t)" "get_reverse_key v \<noteq> key"
    and "view s (get_reverse_key v) \<noteq> None"
  obtains lk' s' where "lock_delete io (TaskLock_init key None) s (Some v) fs True = (Inr True, lk', s')"
    "view s' = (view s)(key := None, get_reverse_key v := None)"
proof -
  obtain s1 where s1: "io s [CGet key] = (Inr [RStr (Some v)], s1)" "view s1 = view s"
    using up_get [OF assms(1,2)] .
  obtain s2 where s2: "io s1 [CDel key] = (Inr [RInt 1], s2)" "view s2 = (view s1)(key := None)"
    using up_del [OF assms(1), of s1 key] s1 assms(2) by auto
  obtain s3 where s3: "io s2 [CDel (get_reverse_key v)] = (Inr [RInt 1], s3)"
    "view s3 = (view s2)(get_reverse_key v := None)"
    using up_del [OF assms(1), of s2 "get_reverse_key v"] s1 s2 assms(3,4) by auto
  have "lock_delete io (TaskLock_init key None) s (Some v) fs True =
      (Inr True, \<lparr>lock_key = key, reverse_key = Some (get_reverse_key v)\<rparr>, s3)"
    using s1 s2 s3
    by (simp add: lock_delete_def lock_delete_commit_def delete_reverse_def deleted_some_def opt_str_def Let_def)
  with s1 s2 s3 that show thesis by simp
qed

lemma up_roundtrip:
  assumes "always_up io" "view s key = None" "view s (get_reverse_key v) = None"
    and "get_reverse_key v \<noteq> key"
  shows "\<exists>lk1 s1 s2 lk3 s3. lock_acquire io (TaskLock_init key None) s v t True = (Inr True, lk1, s1)
    \<and> get_lock_key_from_value io s1 v = (Inr (Some key), s2)
    \<and> lock_delete io (TaskLock_init key None) s2 (Some v) fs True = (Inr True, lk3, s3)
    \<and> view s3 = view s"
proof -
  obtain s1 where a: "lock_acquire io (TaskLock_init key None) s v t True =
      (Inr True, \<lparr>lock_key = key, reverse_key = Some (get_reverse_key v)\<rparr>, s1)"
    and v1: "view s1 = (view s)(key \<mapsto> (RString v, ttl_of t), get_reverse_key v \<mapsto> (RString key, ttl_of t))"
    using up_acquire_free [OF assms(1,2,4)] .
  obtain s2 where g: "io s1 [CGet (get_reverse_key v)] = (Inr [RStr (Some key)], s2)" "view s2 = view s1"
    using up_get [OF assms(1), of s1 "get_reverse_key v" key] v1 by auto
  obtain lk3 s3 where d: "lock_delete io (TaskLock_init key None) s2 (Some v) fs True = (Inr True, lk3, s3)"
    and v3: "view s3 = (view s2)(key := None, get_reverse_key v := None)"
    using up_delete_own [OF assms(1), of s2 key v "ttl_of t" fs] v1 g(2) assms(4) by auto
  have "view s3 = view s"
    using v1 v3 g(2) assms(2,3) by (auto simp: fun_eq_iff)
  with a d g show ?thesis by (fastforce simp: get_lock_key_from_value_def)
qed

end

text \<open>
  Round trip of a lock. On a service that answers, acquiring a free lock succeeds, the
  reverse relation then leads from the task ID back to the lock key, and releasing with the same
  task ID succeeds and restores the store exactly.
\<close>

theorem acquire_lookup_delete_roundtrip:
  assumes "redis_service io view" "always_up io"
    and "view s key = None" "view s (get_reverse_key tid) = None" "get_reverse_key tid \<noteq> key"
  shows "\<exists>lk1 s1 s2 lk3 s3. lock_acquire io (TaskLock_init key None) s tid t True = (Inr True, lk1, s1)
    \<and> get_lock_key_from_value io s1 tid = (Inr (Some key), s2)
    \<and> lock_delete io (TaskLock_init key None) s2 (Some tid) fs True = (Inr True, lk3, s3)
    \<and> view s3 = view s"
  by (rule redis_service.up_roundtrip [OF assms])

definition pure_io :: "store redis_io" where
  "pure_io st cs = (let (rs, st') = redis_run st cs in (Inr rs, st'))"

interpretation pure: redis_service pure_io "\<lambda>st. st"
  by unfold_locales (auto simp: pure_io_def split: prod.splits)

lemma pure_up [simp]: "always_up pure_io"
  by (simp add: always_up_def pure_io_def split_def Let_def)

theorem acquire_lookup_delete_roundtrip_witness:
  "\<exists>lk1 s1 s2 lk3 s3.
     lock_acquire pure_io (TaskLock_init demo_key None) Map.empty ''b'' (Some 300) True = (Inr True, lk1, s1)
    \<and> get_lock_key_from_value pure_io s1 ''b'' = (Inr (Some demo_key), s2)
    \<and> lock_delete pure_io (TaskLock_init demo_key None) s2 (Some ''b'') True True = (Inr True, lk3, s3)
    \<and> s3 = Map.empty"
  by (rule acquire_lookup_delete_roundtrip [OF pure.redis_service_axioms])
     (simp_all add: get_reverse_key_def demo_key_def const_defs)

section \<open>Tasks, their lock and time\<close>

text \<open>
  How the task runners use a lock over time (\<open>execute\<close> and \<open>MetaTask.__call__\<close> in
  \<^verbatim>\<open>que/tasks.py\<close>): a submitted task must acquire the lock to be queued; when a worker
  starts it, \<open>task_check\<close> requires the lock to exist and removes its expiration; when it has
  run, the lock is deleted without a check of its value. Time may pass at any moment.
\<close>

record proto =
  p_store :: store
  p_queued :: "string set"
  p_running :: "string set"

inductive proto_step :: "string \<Rightarrow> nat \<Rightarrow> proto \<Rightarrow> proto \<Rightarrow> bool" for key :: string and t :: nat where
  submit: "\<lbrakk>tid \<noteq> []; tid \<notin> p_queued p; tid \<notin> p_running p; get_reverse_key tid \<noteq> key;
    lock_acquire pure_io (TaskLock_init key None) (p_store p) tid (Some t) True = (Inr got, lk', st)\<rbrakk> \<Longrightarrow>
    proto_step key t p (p\<lparr>p_store := st, p_queued := (if got then insert tid (p_queued p) else p_queued p)\<rparr>)"
| start: "\<lbrakk>tid \<in> p_queued p;
    lock_task_check pure_io (TaskLock_init key (Some tid)) (p_store p) msg = (Inr (), st)\<rbrakk> \<Longrightarrow>
    proto_step key t p (p\<lparr>p_store := st, p_queued := p_queued p - {tid}, p_running := insert tid (p_running p)\<rparr>)"
| finish: "\<lbrakk>tid \<in> p_running p;
    lock_delete pure_io (TaskLock_init key (Some tid)) (p_store p) None False True = (r, lk', st)\<rbrakk> \<Longrightarrow>
    proto_step key t p (p\<lparr>p_store := st, p_running := p_running p - {tid}\<rparr>)"
| wait: "proto_step key t p (p\<lparr>p_store := elapse n (p_store p)\<rparr>)"

definition proto_init :: proto where
  "proto_init = \<lparr>p_store = Map.empty, p_queued = {}, p_running = {}\<rparr>"

text \<open>Runs, and runs in which the lock never expires.\<close>

inductive proto_reach :: "string \<Rightarrow> nat \<Rightarrow> proto \<Rightarrow> bool" for key :: string and t :: nat where
  init: "proto_reach key t proto_init"
| step: "proto_reach key t p \<Longrightarrow> proto_step key t p q \<Longrightarrow> proto_reach key t q"

definition lock_expires :: "string \<Rightarrow> proto \<Rightarrow> proto \<Rightarrow> bool" where
  "lock_expires key p q \<longleftrightarrow> p_running p = p_running q \<and> p_queued p = p_queued q
     \<and> p_store p key \<noteq> None \<and> p_store q key = None"

inductive proto_safe :: "string \<Rightarrow> nat \<Rightarrow> proto \<Rightarrow> bool" for key :: string and t :: nat where
  init: "proto_safe key t proto_init"
| step: "proto_safe key t p \<Longrightarrow> proto_step key t p q \<Longrightarrow> \<not> lock_expires key p q \<Longrightarrow> proto_safe key t q"

text \<open>
  The invariant: whoever is queued or running is the value of the lock, and no task is both.
\<close>

definition proto_inv :: "string \<Rightarrow> proto \<Rightarrow> bool" where
  "proto_inv key p \<longleftrightarrow> p_queued p \<inter> p_running p = {}
     \<and> (\<forall>tid \<in> p_queued p \<union> p_running p. lock_owner (\<lambda>st. st) key (p_store p) = Some tid
          \<and> get_reverse_key tid \<noteq> key \<and> tid \<noteq> [])"

lemma proto_inv_only:
  assumes "proto_inv key p" "a \<in> p_queued p \<union> p_running p" "b \<in> p_queued p \<union> p_running p"
  shows "a = b"
proof -
  have "lock_owner (\<lambda>st. st) key (p_store p) = Some x" if "x \<in> p_queued p \<union> p_running p" for x
    using assms(1) that unfolding proto_inv_def by blast
  from this [OF assms(2)] this [OF assms(3)] show ?thesis by simp
qed

lemma pure_io_single: "pure_io st [c] = (Inr [fst (redis_step st c)], snd (redis_step st c))"
  by (simp add: pure_io_def split_def Let_def)

lemma persist_owner [simp]:
  "lock_owner (\<lambda>st. st) key (snd (redis_step st (CPersist k))) = lock_owner (\<lambda>st. st) key st"
  by (auto simp: lock_owner_def split: option.splits)

lemma task_check_owner:
  assumes "lock_task_check pure_io lk st msg = (Inr (), st')"
  shows "lock_owner (\<lambda>st. st) key st' = lock_owner (\<lambda>st. st) key st"
proof -
  let ?st1 = "snd (redis_step st (CPersist (lock_key lk)))"
  have "st (lock_key lk) \<noteq> None"
    using assms
    by (cases "st (lock_key lk)") (simp_all add: lock_task_check_def lock_exists_def pure_io_single first_bool_def)
  then have "st' = (case reverse_key lk of None \<Rightarrow> ?st1 | Some rk \<Rightarrow> snd (redis_step ?st1 (CPersist rk)))"
    using assms
    by (simp add: lock_task_check_def lock_exists_def pure_io_single first_bool_def
        del: redis_step.simps(5) split: option.splits)
  then show ?thesis
    by (cases "reverse_key lk") (simp_all del: redis_step.simps(5))
qed

lemma proto_step_inv:
  assumes "proto_step key t p q" "proto_inv key p" "\<not> lock_expires key p q"
  shows "proto_inv key q"
  using assms
proof (induction rule: proto_step.induct)
  case (submit tid p got lk' st)
  note acq = pure.acquire_cases [OF submit(5,4)]
  show ?case
  proof (cases got)
    case True
    with acq have free: "p_store p key = None" by simp
    then have "p_queued p \<union> p_running p = {}"
      using submit(6) by (auto simp: proto_inv_def lock_owner_def)
    with acq free True submit show ?thesis by (auto simp: proto_inv_def lock_owner_def)
  next
    case False
    with acq have "lock_owner (\<lambda>st. st) key st = lock_owner (\<lambda>st. st) key (p_store p)"
      by (auto simp: lock_owner_def)
    with False submit show ?thesis by (simp add: proto_inv_def)
  qed
next
  case (start tid p msg st)
  then show ?case using task_check_owner [OF start(2), of key] by (auto simp: proto_inv_def)
next
  case (finish tid p r lk' st)
  have "x = tid" if "x \<in> p_queued p \<union> p_running p" for x
    using proto_inv_only [OF finish(3) that, of tid] finish(1) by simp
  moreover have "p_queued p \<inter> p_running p = {}" using finish(3) by (simp add: proto_inv_def)
  ultimately have "p_queued p = {}" "p_running p - {tid} = {}" using finish(1) by fastforce+
  then show ?case by (auto simp: proto_inv_def)
next
  case (wait p n)
  have "lock_owner (\<lambda>st. st) key (elapse n (p_store p)) = lock_owner (\<lambda>st. st) key (p_store p)"
    using wait by (auto simp: lock_expires_def lock_owner_def elapse_def split: option.splits if_splits)
  with wait show ?case by (simp add: proto_inv_def)
qed

lemma proto_safe_inv: "proto_safe key t p \<Longrightarrow> proto_inv key p"
proof (induction rule: proto_safe.induct)
  case init
  show ?case by (simp add: proto_inv_def proto_init_def)
next
  case (step p q)
  then show ?case by (blast intro: proto_step_inv)
qed

text \<open>
  C22. As long as the lock never runs out of time, at most one task runs under it, in every
  interleaving of submissions, starts, completions and waiting.
\<close>

theorem one_running_task_without_expiry:
  assumes "proto_safe key t p" "a \<in> p_running p" "b \<in> p_running p"
  shows "a = b"
  using proto_inv_only [OF proto_safe_inv [OF assms(1)], of a b] assms(2,3) by simp

text \<open>The runs of the witnesses, one state after the other.\<close>

definition demo_locked :: "string \<Rightarrow> nat option \<Rightarrow> store" where
  "demo_locked tid t = [demo_key \<mapsto> (RString tid, t), get_reverse_key tid \<mapsto> (RString demo_key, t)]"

lemma demo_keys [simp]: "get_reverse_key tid \<noteq> demo_key" "demo_key \<noteq> get_reverse_key tid"
  by (auto simp: get_reverse_key_def demo_key_def const_defs)

lemma demo_submit:
  "tid \<noteq> [] \<Longrightarrow> p_queued p = {} \<Longrightarrow> tid \<notin> p_running p \<Longrightarrow> p_store p demo_key = None \<Longrightarrow>
   proto_step demo_key 300 p (p\<lparr>p_store := (p_store p)(demo_key \<mapsto> (RString tid, Some 300),
       get_reverse_key tid \<mapsto> (RString demo_key, Some 300)), p_queued := {tid}\<rparr>)"
  using proto_step.submit [of tid p demo_key 300 True]
  by (auto simp: lock_acquire_def redis_set_def set_reverse_def pure_io_def run_set_nx run_set
      first_bool_def ttl_of_def Let_def)

lemma demo_start:
  "p_queued p = {tid} \<Longrightarrow> tid \<noteq> [] \<Longrightarrow> p_store p demo_key = Some (v, Some n) \<Longrightarrow>
   p_store p (get_reverse_key tid) = Some (w, Some m) \<Longrightarrow>
   proto_step demo_key 300 p (p\<lparr>p_store := (p_store p)(demo_key \<mapsto> (v, None),
       get_reverse_key tid \<mapsto> (w, None)), p_queued := {}, p_running := insert tid (p_running p)\<rparr>)"
  using proto_step.start [of tid p demo_key "[]" _ 300]
  by (auto simp: lock_task_check_def lock_exists_def pure_io_def first_bool_def Let_def)

lemma demo_refused:
  "tid \<noteq> [] \<Longrightarrow> p_queued p = {} \<Longrightarrow> tid \<notin> p_running p \<Longrightarrow> p_store p demo_key = Some (v, x) \<Longrightarrow>
   proto_step demo_key 300 p (p\<lparr>p_store := (p_store p)(demo_key \<mapsto> (v, Some 300)), p_queued := {}\<rparr>)"
  using proto_step.submit [of tid p demo_key 300 False]
  by (auto simp: lock_acquire_def redis_set_def set_reverse_def pure_io_def run_set_nx
      first_bool_def ttl_of_def retime_def Let_def)

definition demo_run1 :: proto where
  "demo_run1 = \<lparr>p_store = demo_locked ''b'' (Some 300), p_queued = {''b''}, p_running = {}\<rparr>"

definition demo_run2 :: proto where
  "demo_run2 = \<lparr>p_store = demo_locked ''b'' None, p_queued = {}, p_running = {''b''}\<rparr>"

lemma demo_step1: "proto_step demo_key 300 proto_init demo_run1"
  using demo_submit [of "''b''" proto_init]
  by (simp add: proto_init_def demo_run1_def demo_locked_def)

lemma demo_step2: "proto_step demo_key 300 demo_run1 demo_run2"
  using demo_start [of demo_run1 "''b''"]
  by (simp add: demo_run1_def demo_run2_def demo_locked_def fun_upd_twist)

theorem one_running_task_without_expiry_witness:
  "proto_safe demo_key 300 demo_run2 \<and> ''b'' \<in> p_running demo_run2 \<and> ''c'' \<notin> p_running demo_run2"
proof -
  have "proto_safe demo_key 300 demo_run1"
    by (rule proto_safe.step [OF proto_safe.init demo_step1])
       (simp add: lock_expires_def proto_init_def)
  then have safe: "proto_safe demo_key 300 demo_run2"
    by (rule proto_safe.step [OF _ demo_step2]) (simp add: lock_expires_def demo_run1_def demo_run2_def)
  have b: "''b'' \<in> p_running demo_run2" by (simp add: demo_run2_def)
  with one_running_task_without_expiry [OF safe b, of "''c''"] safe show ?thesis by auto
qed

definition demo_run3 :: proto where
  "demo_run3 = demo_run2\<lparr>p_store := (demo_locked ''b'' None)(demo_key \<mapsto> (RString ''b'', Some 300))\<rparr>"

definition demo_run4 :: proto where
  "demo_run4 = demo_run3\<lparr>p_store := elapse 300 (p_store demo_run3)\<rparr>"

text \<open>
  The expiration that a refused \<open>acquire\<close> writes defeats the lock: a task runs under a lock
  made persistent by \<open>task_check\<close>, another task is refused once, five minutes later the lock is
  gone and the second task starts while the first one is still running.
\<close>

theorem refused_acquire_lets_two_tasks_run:
  "\<exists>p. proto_reach demo_key 300 p \<and> {''b'', ''c''} \<subseteq> p_running p"
proof -
  have r2: "proto_reach demo_key 300 demo_run2"
    by (rule proto_reach.step [OF proto_reach.step [OF proto_reach.init demo_step1] demo_step2])
  have "proto_step demo_key 300 demo_run2 demo_run3"
    using demo_refused [of "''c''" demo_run2]
    by (simp add: demo_run2_def demo_run3_def demo_locked_def)
  from proto_reach.step [OF r2 this] have "proto_reach demo_key 300 demo_run4"
    unfolding demo_run4_def by (rule proto_reach.step) (rule proto_step.wait)
  moreover have q: "p_queued demo_run4 = {}" "p_running demo_run4 = {''b''}"
    "p_store demo_run4 demo_key = None"
    by (simp_all add: demo_run4_def demo_run3_def demo_run2_def elapse_def)
  ultimately have r5: "proto_reach demo_key 300 (demo_run4\<lparr>p_store := (p_store demo_run4)
      (demo_key \<mapsto> (RString ''c'', Some 300), get_reverse_key ''c'' \<mapsto> (RString demo_key, Some 300)),
      p_queued := {''c''}\<rparr>)" (is "proto_reach _ _ ?r5")
    by (intro proto_reach.step [OF _ demo_submit]) simp_all
  obtain r6 where "proto_step demo_key 300 ?r5 r6" "p_running r6 = {''c'', ''b''}"
    using demo_start [of ?r5 "''c''" "RString ''c''" 300 "RString demo_key" 300] q by auto
  with proto_reach.step [OF r5] show ?thesis by blast
qed

end
