(* ===== verification/Py_Value.thy ===== *)
theory Py_Value
  imports Prelude
begin

text \<open>
  Python values as the sources pass them around in task results, task information and VM
  definitions: \<open>None\<close>, booleans, integers, strings, lists and dictionaries with string keys.
  Equality is Python's \<open>==\<close>: booleans are numbers and the order of a dictionary does not count.
\<close>

section \<open>Values\<close>

datatype pyval =
    VNone | VBool bool | VInt int | VStr string
  | VList "pyval list" | VDict "(string \<times> pyval) list"

type_synonym pydict = "(string \<times> pyval) list"

function py_eq :: "pyval \<Rightarrow> pyval \<Rightarrow> bool" where
  "py_eq VNone w = (w = VNone)"
| "py_eq (VBool b) w = (case w of VBool c \<Rightarrow> b = c | VInt i \<Rightarrow> i = (if b then 1 else 0) | _ \<Rightarrow> False)"
| "py_eq (VInt i) w = (case w of VInt j \<Rightarrow> i = j | VBool c \<Rightarrow> i = (if c then 1 else 0) | _ \<Rightarrow> False)"
| "py_eq (VStr s) w = (w = VStr s)"
| "py_eq (VList xs) w = (case w of
      VList ys \<Rightarrow> length xs = length ys \<and> list_all (\<lambda>(x, y). py_eq x y) (zip xs ys) | _ \<Rightarrow> False)"
| "py_eq (VDict d) w = (case w of
      VDict e \<Rightarrow> length d = length e \<and>
        list_all (\<lambda>(k, v). case map_of e k of None \<Rightarrow> False | Some x \<Rightarrow> py_eq v x) d
    | _ \<Rightarrow> False)"
  by pat_completeness auto

lemma size_pair_less: "(k, v) \<in> set d \<Longrightarrow>
  size v < Suc (size_list (size_prod (\<lambda>_. 0) size) d)"
  by (induction d) (auto simp: less_Suc_eq)

lemma size_zip_less: "(x, y) \<in> set (zip xs ys) \<Longrightarrow> size x < Suc (size_list size xs)"
proof -
  assume "(x, y) \<in> set (zip xs ys)"
  then have "x \<in> set xs" by (rule set_zip_leftD)
  then show ?thesis by (induction xs) (auto simp: less_Suc_eq)
qed

termination py_eq
proof (relation "measure (\<lambda>(v, _). size v)", goal_cases)
  case (2 xs w ys z x y)
  then show ?case using size_zip_less by auto
next
  case (3 d w e z k v x)
  then show ?case using size_pair_less [of k v d] by auto
qed simp

text \<open>Truth of a value in a condition.\<close>

definition truthy :: "pyval \<Rightarrow> bool" where
  "truthy v = (case v of VNone \<Rightarrow> False | VBool b \<Rightarrow> b | VInt i \<Rightarrow> i \<noteq> 0 | VStr s \<Rightarrow> s \<noteq> []
     | VList xs \<Rightarrow> xs \<noteq> [] | VDict d \<Rightarrow> d \<noteq> [])"

text \<open>\<open>v[k]\<close> and \<open>v.get(k, default)\<close> on a value that may not be a dictionary.\<close>

definition vitem :: "pyval \<Rightarrow> string \<Rightarrow> pyval res" where
  "vitem v k = (case v of VDict d \<Rightarrow> ditem d k
     | _ \<Rightarrow> Inl (Exn TypeError ''not subscriptable with a string''))"

definition vget :: "pyval \<Rightarrow> string \<Rightarrow> pyval \<Rightarrow> pyval res" where
  "vget v k dflt = (case v of VDict d \<Rightarrow> Inr (dget d k dflt)
     | _ \<Rightarrow> Inl (Exn AttributeError ''get''))"

definition as_dict :: "pyval \<Rightarrow> pydict option" where
  "as_dict v = (case v of VDict d \<Rightarrow> Some d | _ \<Rightarrow> None)"

text \<open>Values whose dictionaries have distinct keys, as every Python dictionary has.\<close>

fun wf_val :: "pyval \<Rightarrow> bool" where
  "wf_val (VList xs) = list_all wf_val xs"
| "wf_val (VDict d) = (distinct (map fst d) \<and> list_all (\<lambda>(k, v). wf_val v) d)"
| "wf_val _ = True"

lemma py_eq_refl: "wf_val v \<Longrightarrow> py_eq v v"
proof (induction v rule: wf_val.induct)
  case (1 xs)
  then show ?case by (auto simp: list_all_iff zip_same_conv_map)
next
  case (2 d)
  have "map_of d k = Some v \<and> py_eq v v" if "(k, v) \<in> set d" for k v
    using 2 that by (force simp: list_all_iff)
  then show ?case by (force simp: list_all_iff)
qed auto

lemma wf_val_item: "wf_val (VDict d) \<Longrightarrow> map_of d k = Some v \<Longrightarrow> wf_val v"
  by (fastforce simp: list_all_iff dest: map_of_SomeD)

lemma dget_simps [dict_simps]:
  "map_of d k = Some v \<Longrightarrow> dget d k x = v"
  "map_of d k = None \<Longrightarrow> dget d k x = x"
  by (simp_all add: dget_def)

end
