(* ===== verification/User_Tasks.thy ===== *)
theory User_Tasks
  imports Task_Lock Py_Value "HOL-Library.Countable"
begin

text \<open>
  \<^verbatim>\<open>que/user_tasks.py\<close>: the pending tasks of every user, kept in Redis as one hash per user
  (task ID to pickled task information) and one set with the IDs of all pending tasks; and
  \<open>_UserTasksModel\<close> of \<^verbatim>\<open>vms/models/base.py\<close>, through which the database objects use
  these lists. \<open>pickle.dumps\<close> and \<open>pickle.loads\<close>, the result backend of the queue
  (\<open>AsyncResult.ready\<close>), the clock and the cache are parameters.
\<close>

section \<open>The code of UserTasks\<close>

definition key_all :: string where
  "key_all = KEY_PREFIX @ ''tasks''"

definition UserTasks_key :: "prefix_item \<Rightarrow> string" where
  "UserTasks_key user_id = KEY_PREFIX @ ''tasks-'' @ item_str user_id"

definition one_reply :: "(rreply \<Rightarrow> 'a) \<Rightarrow> rreply list res \<times> 's \<Rightarrow> 'a res \<times> 's" where
  "one_reply f x = (case x of (r, s) \<Rightarrow> (rbind r (\<lambda>rs. Inr (f (hd rs))), s))"

definition reply_bool :: "rreply \<Rightarrow> bool" where
  "reply_bool r = (case r of RBool b \<Rightarrow> b | RInt n \<Rightarrow> n \<noteq> 0 | _ \<Rightarrow> False)"

definition reply_list :: "rreply \<Rightarrow> string list" where
  "reply_list r = (case r of RList xs \<Rightarrow> xs | _ \<Rightarrow> [])"

definition reply_dict :: "rreply \<Rightarrow> string dict" where
  "reply_dict r = (case r of RDict d \<Rightarrow> d | _ \<Rightarrow> [])"

definition reply_str :: "rreply \<Rightarrow> string option" where
  "reply_str r = (case r of RStr v \<Rightarrow> v | _ \<Rightarrow> None)"

definition UserTasks_exists :: "'s redis_io \<Rightarrow> 's \<Rightarrow> string \<Rightarrow> bool res \<times> 's" where
  "UserTasks_exists io s task_id = one_reply reply_bool (io s [CSIsMember key_all task_id])"

lemma pow_le_imp_le: "(2::nat) ^ i \<le> n \<Longrightarrow> i < n"
  by (meson less_exp less_le_trans)

text \<open>
  The waiting loop of \<open>check\<close>. The \<open>i\<close>-th pause takes \<open>2 ^ i\<close> half seconds; \<open>pause n s\<close> is the
  state of the world after sleeping for \<open>n\<close> half seconds, in which other processes may have
  registered the task.
\<close>

function UserTasks_check_loop ::
  "'s redis_io \<Rightarrow> (nat \<Rightarrow> 's \<Rightarrow> 's) \<Rightarrow> nat \<Rightarrow> string \<Rightarrow> nat \<Rightarrow> 's \<Rightarrow> unit res \<times> 's" where
  "UserTasks_check_loop io pause timeout task_id i s =
     (case UserTasks_exists io s task_id of
        (Inl e, s1) \<Rightarrow> (Inl e, s1)
      | (Inr True, s1) \<Rightarrow> (Inr (), s1)
      | (Inr False, s1) \<Rightarrow>
          (if 2 ^ i > 2 * timeout
           then (Inl (Exn UserTaskError (''Task '' @ quoted task_id @ '' was not registered in user's task list'')), s1)
           else UserTasks_check_loop io pause timeout task_id (Suc i) (pause (2 ^ i) s1)))"
  by pat_completeness auto

termination UserTasks_check_loop
  by (relation "measure (\<lambda>(io, pause, t, tid, i, s). 2 * t + 1 - i)")
     (auto dest!: pow_le_imp_le simp: not_less)

declare UserTasks_check_loop.simps [simp del]

definition CHECK_TIMEOUT :: nat where "CHECK_TIMEOUT = 30"

definition UserTasks_check :: "'s redis_io \<Rightarrow> (nat \<Rightarrow> 's \<Rightarrow> 's) \<Rightarrow> string \<Rightarrow> 's \<Rightarrow> unit res \<times> 's" where
  "UserTasks_check io pause task_id s = UserTasks_check_loop io pause CHECK_TIMEOUT task_id 0 s"

definition tasklist :: "'s redis_io \<Rightarrow> 's \<Rightarrow> prefix_item \<Rightarrow> string list res \<times> 's" where
  "tasklist io s uid = one_reply reply_list (io s [CHKeys (UserTasks_key uid)])"

definition tasklist_all :: "'s redis_io \<Rightarrow> 's \<Rightarrow> string list res \<times> 's" where
  "tasklist_all io s = one_reply reply_list (io s [CSMembers key_all])"

fun loads_items :: "(string \<Rightarrow> 'i res) \<Rightarrow> string dict \<Rightarrow> 'i dict res" where
  "loads_items loads [] = Inr []"
| "loads_items loads ((k, v) # d) =
     rbind (loads v) (\<lambda>x. rbind (loads_items loads d) (\<lambda>e. Inr ((k, x) # e)))"

definition UserTasks_load ::
  "'s redis_io \<Rightarrow> (string \<Rightarrow> 'i res) \<Rightarrow> 's \<Rightarrow> prefix_item \<Rightarrow> 'i dict res \<times> 's" where
  "UserTasks_load io loads s uid =
     (let (r, s1) = one_reply reply_dict (io s [CHGetAll (UserTasks_key uid)])
      in (rbind r (loads_items loads), s1))"

definition UserTasks_get ::
  "'s redis_io \<Rightarrow> (string \<Rightarrow> 'i res) \<Rightarrow> 's \<Rightarrow> prefix_item \<Rightarrow> string \<Rightarrow> 'i option res \<times> 's" where
  "UserTasks_get io loads s uid task_id =
     (let (r, s1) = one_reply reply_str (io s [CHGet (UserTasks_key uid) task_id])
      in (rbind r (\<lambda>x. case x of None \<Rightarrow> Inr None
                      | Some v \<Rightarrow> rbind (loads v) (\<lambda>i. Inr (Some i))), s1))"

definition UserTasks_add ::
  "'s redis_io \<Rightarrow> ('i \<Rightarrow> string) \<Rightarrow> ('s \<Rightarrow> string \<Rightarrow> bool res) \<Rightarrow> 's \<Rightarrow> prefix_item \<Rightarrow> string \<Rightarrow> 'i \<Rightarrow>
   bool res \<times> 's" where
  "UserTasks_add io dumps ready s uid task_id task_info =
     (case ready s task_id of
        Inl e \<Rightarrow> (Inl e, s)
      | Inr True \<Rightarrow> 
          (Inl (Exn UserTaskError (''Task '' @ quoted task_id @
             '' cannot be registered in user's task list because it has already finished'')), s)
      | Inr False \<Rightarrow>
          one_reply reply_bool (io s [CHSet (UserTasks_key uid) task_id (dumps task_info),
                                      CSAdd key_all task_id]))"

definition UserTasks_delete :: "'s redis_io \<Rightarrow> 's \<Rightarrow> prefix_item \<Rightarrow> string \<Rightarrow> bool res \<times> 's" where
  "UserTasks_delete io s uid task_id =
     one_reply reply_bool (io s [CHDel (UserTasks_key uid) task_id, CSRem key_all task_id])"

text \<open>\<open>pop\<close> answers \<open>None\<close> where the source returns an empty dictionary.\<close>

definition UserTasks_pop ::
  "'s redis_io \<Rightarrow> (string \<Rightarrow> 'i res) \<Rightarrow> 's \<Rightarrow> prefix_item \<Rightarrow> string \<Rightarrow> 'i option res \<times> 's" where
  "UserTasks_pop io loads s uid task_id =
     (case UserTasks_get io loads s uid task_id of
        (Inl e, s1) \<Rightarrow> (Inl e, s1)
      | (Inr None, s1) \<Rightarrow> (Inr None, s1)
      | (Inr (Some i), s1) \<Rightarrow>
          (let (r, s2) = UserTasks_delete io s1 uid task_id in (rbind r (\<lambda>_. Inr (Some i)), s2)))"

section \<open>The code of the task list of a database object\<close>

text \<open>
  What \<open>_UserTasksModel\<close> uses of its object: the name of its key in the task information, its
  primary key, the ID of its owner and the attributes that are always shown.
\<close>

record task_obj =
  pk_key :: string
  obj_pk :: pyval
  obj_owner :: int
  default_apiview :: pydict

definition RW_methods :: "string list" where
  "RW_methods = [''POST'', ''PUT'', ''DELETE'']"

text \<open>A value to compare with: \<open>RWMethods\<close> equals the three names of writing methods.\<close>

datatype match_val = MVal pyval | MRW

definition match_eq :: "pyval \<Rightarrow> match_val \<Rightarrow> bool" where
  "match_eq x m = (case m of MVal v \<Rightarrow> py_eq x v
     | MRW \<Rightarrow> (case x of VStr s \<Rightarrow> s \<in> set RW_methods | _ \<Rightarrow> False))"

fun own_tasks :: "task_obj \<Rightarrow> pyval dict \<Rightarrow> pyval dict res" where
  "own_tasks obj [] = Inr []"
| "own_tasks obj ((tid, task) # d) =
     rbind (vget task (pk_key obj) VNone) (\<lambda>x. rbind (vget task ''apiview'' (VDict [])) (\<lambda>av.
       rbind (own_tasks obj d) (\<lambda>e. Inr (if py_eq x (obj_pk obj) then (tid, av) # e else e))))"

fun task_matches :: "pyval \<Rightarrow> match_val dict \<Rightarrow> bool res" where
  "task_matches task [] = Inr True"
| "task_matches task ((k, m) # ms) =
     rbind (vget task k VNone) (\<lambda>x. if match_eq x m then task_matches task ms else Inr False)"

fun matching_tasks :: "match_val dict \<Rightarrow> pyval dict \<Rightarrow> pyval dict res" where
  "matching_tasks ms [] = Inr []"
| "matching_tasks ms ((tid, task) # d) =
     rbind (task_matches task ms) (\<lambda>b. rbind (matching_tasks ms d) (\<lambda>e.
       Inr (if b then (tid, task) # e else e)))"

definition get_tasks ::
  "'s redis_io \<Rightarrow> (string \<Rightarrow> pyval res) \<Rightarrow> task_obj \<Rightarrow> match_val dict \<Rightarrow> 's \<Rightarrow> pyval dict res \<times> 's" where
  "get_tasks io loads obj match_dict s =
     (let (r, s1) = UserTasks_load io loads s (Some (IdInt (obj_owner obj)))
      in (rbind r (\<lambda>data. rbind (own_tasks obj data) (\<lambda>res.
            if match_dict \<noteq> [] then matching_tasks match_dict res else Inr res)), s1))"

definition tasks_rw ::
  "'s redis_io \<Rightarrow> (string \<Rightarrow> pyval res) \<Rightarrow> task_obj \<Rightarrow> 's \<Rightarrow> pyval dict res \<times> 's" where
  "tasks_rw io loads obj s = get_tasks io loads obj [(''method'', MRW)] s"

definition tasks_ro ::
  "'s redis_io \<Rightarrow> (string \<Rightarrow> pyval res) \<Rightarrow> task_obj \<Rightarrow> 's \<Rightarrow> pyval dict res \<times> 's" where
  "tasks_ro io loads obj s = get_tasks io loads obj [(''method'', MVal (VStr ''GET''))] s"

definition complete_apiview :: "string \<Rightarrow> pydict option \<Rightarrow> pydict \<Rightarrow> pydict" where
  "complete_apiview now apiview additional =
     (let av0 = (case apiview of None \<Rightarrow> [] | Some d \<Rightarrow> d);
          av1 = dupdate av0 additional
      in if dhas av1 ''time'' then av1 else AList.update ''time'' (VStr now) av1)"

definition create_task_info ::
  "string \<Rightarrow> task_obj \<Rightarrow> pydict option \<Rightarrow> string \<Rightarrow> pydict \<Rightarrow> pyval" where
  "create_task_info now obj apiview msg additional =
     VDict (dupdate [] [(pk_key obj, obj_pk obj), (''msg'', VStr msg),
                        (''apiview'', VDict (complete_apiview now apiview additional))])"

definition tasks_add ::
  "'s redis_io \<Rightarrow> (pyval \<Rightarrow> string) \<Rightarrow> ('s \<Rightarrow> string \<Rightarrow> bool res) \<Rightarrow> string \<Rightarrow> task_obj \<Rightarrow> string \<Rightarrow>
   pydict option \<Rightarrow> string \<Rightarrow> pydict \<Rightarrow> 's \<Rightarrow> bool res \<times> 's" where
  "tasks_add io dumps ready now obj task_id apiview msg additional s =
     UserTasks_add io dumps ready s (owner_id_from_task_id task_id) task_id
       (create_task_info now obj apiview msg additional)"

text \<open>
  \<open>_tasks_del\<close> and \<open>tasks_del\<close>: the task is popped from the list of its owner, its view is
  completed and left in the cache for a minute. \<open>cache_set\<close> is the cache.
\<close>

definition apiview_of :: "pyval option \<Rightarrow> pydict res" where
  "apiview_of info = (case info of
      None \<Rightarrow> Inr []
    | Some i \<Rightarrow> rbind (vget i ''apiview'' (VDict [])) (\<lambda>v. case v of VDict d \<Rightarrow> Inr d
                 | _ \<Rightarrow> Inl (Exn AttributeError ''update'')))"

definition tasks_del_with ::
  "('s \<Rightarrow> string \<Rightarrow> pydict \<Rightarrow> nat \<Rightarrow> 's) \<Rightarrow> string \<Rightarrow> pydict \<Rightarrow> pydict \<Rightarrow> 's \<Rightarrow> pydict \<times> 's" where
  "tasks_del_with cache_set task_id apiview additional s =
     (let av = dupdate apiview additional in (av, cache_set s (''sio-'' @ task_id) av 60))"

definition tasks_del_cls ::
  "'s redis_io \<Rightarrow> (string \<Rightarrow> pyval res) \<Rightarrow> ('s \<Rightarrow> string \<Rightarrow> pydict \<Rightarrow> nat \<Rightarrow> 's) \<Rightarrow> string \<Rightarrow>
   pydict option \<Rightarrow> pydict \<Rightarrow> 's \<Rightarrow> pydict res \<times> 's" where
  "tasks_del_cls io loads cache_set task_id apiview additional s =
     (case apiview of
        Some av \<Rightarrow> (let (d, s1) = tasks_del_with cache_set task_id av additional s in (Inr d, s1))
      | None \<Rightarrow>
          (case UserTasks_pop io loads s (owner_id_from_task_id task_id) task_id of
             (Inl e, s1) \<Rightarrow> (Inl e, s1)
           | (Inr info, s1) \<Rightarrow>
               (case apiview_of info of
                  Inl e \<Rightarrow> (Inl e, s1)
                | Inr av \<Rightarrow> (let (d, s2) = tasks_del_with cache_set task_id av additional s1
                             in (Inr d, s2)))))"

definition tasks_del ::
  "'s redis_io \<Rightarrow> (string \<Rightarrow> pyval res) \<Rightarrow> ('s \<Rightarrow> string \<Rightarrow> pydict \<Rightarrow> nat \<Rightarrow> 's) \<Rightarrow> task_obj \<Rightarrow> string \<Rightarrow>
   pydict \<Rightarrow> 's \<Rightarrow> pydict res \<times> 's" where
  "tasks_del io loads cache_set obj task_id additional s =
     (case UserTasks_pop io loads s (owner_id_from_task_id task_id) task_id of
        (Inl e, s1) \<Rightarrow> (Inl e, s1)
      | (Inr info, s1) \<Rightarrow>
          (case apiview_of info of
             Inl e \<Rightarrow> (Inl e, s1)
           | Inr av \<Rightarrow> tasks_del_cls io loads cache_set task_id
                         (Some (dupdate av (default_apiview obj))) additional s1))"

section \<open>The invariant of the task lists\<close>

text \<open>
  Callers pass the owner that the task ID itself names. Under this discipline the set of all
  tasks is exactly the union of the hashes of the users, and each task is in the hash of its
  owner only.
\<close>

definition owner_key :: "string \<Rightarrow> string" where
  "owner_key tid = UserTasks_key (owner_id_from_task_id tid)"

definition entry :: "store \<Rightarrow> string \<Rightarrow> string option" where
  "entry st tid = map_of (hash_at st (owner_key tid)) tid"

definition listed :: "store \<Rightarrow> string \<Rightarrow> bool" where
  "listed st tid \<longleftrightarrow> tid \<in> set (set_at st key_all)"

definition ut_inv :: "store \<Rightarrow> bool" where
  "ut_inv st \<longleftrightarrow> is_set_key st key_all \<and> (\<forall>u. is_hash_key st (UserTasks_key u))
     \<and> (\<forall>u tid. map_of (hash_at st (UserTasks_key u)) tid \<noteq> None \<longrightarrow> UserTasks_key u = owner_key tid)
     \<and> (\<forall>tid. listed st tid \<longleftrightarrow> entry st tid \<noteq> None)"

lemma key_all_other [simp]: "UserTasks_key u \<noteq> key_all" "key_all \<noteq> UserTasks_key u"
  by (auto simp: UserTasks_key_def key_all_def)

lemma owner_key_other [simp]: "owner_key t \<noteq> key_all" "key_all \<noteq> owner_key t"
  by (simp_all add: owner_key_def)

lemma ut_invD:
  assumes "ut_inv st"
  shows "is_set_key st key_all" "is_hash_key st (UserTasks_key u)" "is_hash_key st (owner_key tid)"
    "listed st tid \<longleftrightarrow> entry st tid \<noteq> None"
  using assms by (auto simp: ut_inv_def owner_key_def)

lemma is_set_put_hash [simp]: "k \<noteq> k' \<Longrightarrow> is_set_key (put_hash st k' h) k = is_set_key st k"
  by (simp add: is_set_key_def put_hash_def)

lemma is_hash_put_hash: "is_hash_key st k \<Longrightarrow> is_hash_key (put_hash st k' h) k"
  by (simp add: is_hash_key_def put_hash_def)

lemma is_hash_put_set [simp]: "k \<noteq> k' \<Longrightarrow> is_hash_key (put_set st k' h) k = is_hash_key st k"
  by (simp add: is_hash_key_def put_set_def)

definition put_entry :: "store \<Rightarrow> string \<Rightarrow> string option \<Rightarrow> store" where
  "put_entry st tid v =
     put_set (put_hash st (owner_key tid) (case v of Some x \<Rightarrow> AList.update tid x (hash_at st (owner_key tid))
                                    | None \<Rightarrow> AList.delete tid (hash_at st (owner_key tid))))
       key_all (case v of Some _ \<Rightarrow> List.insert tid (set_at st key_all)
                | None \<Rightarrow> removeAll tid (set_at st key_all))"

lemma hash_put_entry:
  "map_of (hash_at (put_entry st tid v) (UserTasks_key u)) t =
     (if UserTasks_key u = owner_key tid \<and> t = tid then v else map_of (hash_at st (UserTasks_key u)) t)"
  by (auto simp: put_entry_def dict_simps split: option.splits)

lemma entry_put_entry [simp]: "entry (put_entry st tid v) = (entry st)(tid := v)"
  by (auto simp: entry_def fun_eq_iff hash_put_entry owner_key_def)

lemma listed_put_entry [simp]: "listed (put_entry st tid v) t = (if t = tid then v \<noteq> None else listed st t)"
  by (auto simp: listed_def put_entry_def split: option.splits)

lemma ut_inv_put_entry: "ut_inv st \<Longrightarrow> ut_inv (put_entry st tid v)"
proof -
  assume inv: "ut_inv st"
  have "is_hash_key (put_entry st tid v) (UserTasks_key u)" for u
    using ut_invD(2) [OF inv] by (simp add: put_entry_def is_hash_put_hash)
  moreover have "is_set_key (put_entry st tid v) key_all"
    by (simp add: put_entry_def)
  moreover have "UserTasks_key u = owner_key t"
    if "map_of (hash_at (put_entry st tid v) (UserTasks_key u)) t \<noteq> None" for u t
    using inv that unfolding ut_inv_def hash_put_entry by (auto split: if_splits)
  ultimately show ?thesis using ut_invD(4) [OF inv] by (auto simp: ut_inv_def)
qed

lemma run_add:
  assumes "ut_inv st"
  shows "snd (redis_run st [CHSet (owner_key tid) tid v, CSAdd key_all tid]) = put_entry st tid (Some v)"
    and "reply_bool (hd (fst (redis_run st [CHSet (owner_key tid) tid v, CSAdd key_all tid]))) \<longleftrightarrow>
      entry st tid = None"
  using ut_invD [OF assms] by (auto simp: put_entry_def Let_def reply_bool_def entry_def dhas_iff)

lemma run_delete:
  assumes "ut_inv st"
  shows "snd (redis_run st [CHDel (owner_key tid) tid, CSRem key_all tid]) = put_entry st tid None"
    and "reply_bool (hd (fst (redis_run st [CHDel (owner_key tid) tid, CSRem key_all tid]))) \<longleftrightarrow>
      entry st tid \<noteq> None"
  using ut_invD [OF assms] by (auto simp: put_entry_def Let_def reply_bool_def entry_def dhas_iff)

lemma run_get:
  assumes "ut_inv st"
  shows "redis_run st [CHGet (owner_key tid) tid] = ([RStr (entry st tid)], st)"
  using ut_invD [OF assms] by (simp add: entry_def)

section \<open>The contract of the task lists\<close>

text \<open>
  An abstract registry is a partial map from task IDs to information together with a membership
  test. A call may fail, and then it has done its work or nothing.
\<close>

locale task_registry =
  fixes add :: "'s \<Rightarrow> string \<Rightarrow> 'i \<Rightarrow> bool res \<times> 's"
    and remove :: "'s \<Rightarrow> string \<Rightarrow> bool res \<times> 's"
    and content :: "'s \<Rightarrow> string \<Rightarrow> 'i option"
    and member :: "'s \<Rightarrow> string \<Rightarrow> bool"
    and ok :: "'s \<Rightarrow> bool"
  assumes add_ok: "ok s \<Longrightarrow> add s t i = (Inr b, s') \<Longrightarrow>
      ok s' \<and> content s' = (content s)(t \<mapsto> i) \<and> (b \<longleftrightarrow> content s t = None)"
    and add_error: "ok s \<Longrightarrow> add s t i = (Inl e, s') \<Longrightarrow>
      ok s' \<and> (content s' = content s \<or> content s' = (content s)(t \<mapsto> i))"
    and remove_ok: "ok s \<Longrightarrow> remove s t = (Inr b, s') \<Longrightarrow>
      ok s' \<and> content s' = (content s)(t := None) \<and> (b \<longleftrightarrow> content s t \<noteq> None)"
    and remove_error: "ok s \<Longrightarrow> remove s t = (Inl e, s') \<Longrightarrow>
      ok s' \<and> (content s' = content s \<or> content s' = (content s)(t := None))"
    and member_iff: "ok s \<Longrightarrow> member s t \<longleftrightarrow> content s t \<noteq> None"

datatype 'i reg_op = RegAdd string 'i | RegRemove string

fun reg_op_id :: "'i reg_op \<Rightarrow> string" where
  "reg_op_id (RegAdd t i) = t"
| "reg_op_id (RegRemove t) = t"

fun reg_do :: "('s \<Rightarrow> string \<Rightarrow> 'i \<Rightarrow> bool res \<times> 's) \<Rightarrow> ('s \<Rightarrow> string \<Rightarrow> bool res \<times> 's) \<Rightarrow>
    's \<Rightarrow> 'i reg_op \<Rightarrow> bool res \<times> 's" where
  "reg_do add remove s (RegAdd t i) = add s t i"
| "reg_do add remove s (RegRemove t) = remove s t"

fun reg_run :: "('s \<Rightarrow> string \<Rightarrow> 'i \<Rightarrow> bool res \<times> 's) \<Rightarrow> ('s \<Rightarrow> string \<Rightarrow> bool res \<times> 's) \<Rightarrow>
    's \<Rightarrow> 'i reg_op list \<Rightarrow> 's" where
  "reg_run add remove s [] = s"
| "reg_run add remove s (x # xs) = reg_run add remove (snd (reg_do add remove s x)) xs"

context task_registry
begin

lemma do_keeps:
  assumes "ok s" "reg_do add remove s x = (r, s')"
  shows "ok s'" and "t \<noteq> reg_op_id x \<Longrightarrow> content s' t = content s t"
proof -
  have "ok s' \<and> (t \<noteq> reg_op_id x \<longrightarrow> content s' t = content s t)"
  proof (cases x)
    case (RegAdd u i)
    then have a: "add s u i = (r, s')" using assms(2) by simp
    show ?thesis
    proof (cases r)
      case (Inl e)
      from add_error [OF assms(1) a [unfolded Inl]] show ?thesis using RegAdd by auto
    next
      case (Inr b)
      from add_ok [OF assms(1) a [unfolded Inr]] show ?thesis using RegAdd by auto
    qed
  next
    case (RegRemove u)
    then have a: "remove s u = (r, s')" using assms(2) by simp
    show ?thesis
    proof (cases r)
      case (Inl e)
      from remove_error [OF assms(1) a [unfolded Inl]] show ?thesis using RegRemove by auto
    next
      case (Inr b)
      from remove_ok [OF assms(1) a [unfolded Inr]] show ?thesis using RegRemove by auto
    qed
  qed
  then show "ok s'" "t \<noteq> reg_op_id x \<Longrightarrow> content s' t = content s t" by auto
qed

lemma run_keeps:
  assumes "ok s"
  shows "ok (reg_run add remove s xs)"
    and "t \<notin> reg_op_id ` set xs \<Longrightarrow> content (reg_run add remove s xs) t = content s t"
proof -
  have "ok (reg_run add remove s xs) \<and>
      (t \<notin> reg_op_id ` set xs \<longrightarrow> content (reg_run add remove s xs) t = content s t)"
    using assms
  proof (induction xs arbitrary: s)
    case (Cons x xs)
    obtain r s1 where x: "reg_do add remove s x = (r, s1)" by force
    show ?case
      using Cons.IH [OF do_keeps(1) [OF Cons.prems x]] do_keeps(2) [OF Cons.prems x, of t] x by simp
  qed simp
  then show "ok (reg_run add remove s xs)"
    and "t \<notin> reg_op_id ` set xs \<Longrightarrow> content (reg_run add remove s xs) t = content s t" by auto
qed

lemma run_member_iff: "ok s \<Longrightarrow>
  member (reg_run add remove s xs) t \<longleftrightarrow> content (reg_run add remove s xs) t \<noteq> None"
  by (rule member_iff) (rule run_keeps)

end

text \<open>The calls as the database objects make them, with the owner taken from the task ID.\<close>

definition add_call :: "'s redis_io \<Rightarrow> ('i \<Rightarrow> string) \<Rightarrow> ('s \<Rightarrow> string \<Rightarrow> bool res) \<Rightarrow>
    's \<Rightarrow> string \<Rightarrow> 'i \<Rightarrow> bool res \<times> 's" where
  "add_call io dumps ready s tid i = UserTasks_add io dumps ready s (owner_id_from_task_id tid) tid i"

definition remove_call :: "'s redis_io \<Rightarrow> 's \<Rightarrow> string \<Rightarrow> bool res \<times> 's" where
  "remove_call io s tid = UserTasks_delete io s (owner_id_from_task_id tid) tid"

definition info_at :: "(string \<Rightarrow> 'i res) \<Rightarrow> store \<Rightarrow> string \<Rightarrow> 'i option" where
  "info_at loads st tid = (case entry st tid of None \<Rightarrow> None
     | Some x \<Rightarrow> (case loads x of Inl _ \<Rightarrow> None | Inr i \<Rightarrow> Some i))"

definition readable :: "(string \<Rightarrow> 'i res) \<Rightarrow> store \<Rightarrow> bool" where
  "readable loads st \<longleftrightarrow> ut_inv st \<and> (\<forall>tid x. entry st tid = Some x \<longrightarrow> (\<exists>i. loads x = Inr i))"

definition reg_calls :: "'s redis_io \<Rightarrow> ('i \<Rightarrow> string) \<Rightarrow> ('s \<Rightarrow> string \<Rightarrow> bool res) \<Rightarrow>
    's \<Rightarrow> 'i reg_op list \<Rightarrow> 's" where
  "reg_calls io dumps ready s ops = reg_run (add_call io dumps ready) (remove_call io) s ops"

locale task_store = redis_service io view
  for io :: "'s redis_io" and view :: "'s \<Rightarrow> store" +
  fixes dumps :: "'i \<Rightarrow> string" and loads :: "string \<Rightarrow> 'i res"
    and ready :: "'s \<Rightarrow> string \<Rightarrow> bool res"
  assumes loads_dumps: "loads (dumps i) = Inr i"

lemma readable_put_entry:
  "readable loads st \<Longrightarrow> (case v of None \<Rightarrow> True | Some x \<Rightarrow> \<exists>i. loads x = Inr i) \<Longrightarrow>
   readable loads (put_entry st tid v)"
  by (auto simp: readable_def ut_inv_put_entry split: option.splits)

lemma info_at_put_entry: "info_at loads (put_entry st tid v) =
   (info_at loads st)(tid := (case v of None \<Rightarrow> None
      | Some x \<Rightarrow> (case loads x of Inl _ \<Rightarrow> None | Inr i \<Rightarrow> Some i)))"
  by (auto simp: info_at_def fun_eq_iff)

lemma readable_info: "readable loads st \<Longrightarrow> info_at loads st tid = None \<longleftrightarrow> entry st tid = None"
  by (fastforce simp: readable_def info_at_def split: option.splits)

context task_store
begin

lemma add_effect:
  assumes "readable loads (view s)" "add_call io dumps ready s tid i = (r, s')"
  shows "view s' = view s \<and> (\<exists>e. r = Inl e) \<or> view s' = put_entry (view s) tid (Some (dumps i))
      \<and> (\<forall>b. r = Inr b \<longrightarrow> (b \<longleftrightarrow> entry (view s) tid = None))"
proof (cases "ready s tid = Inr False")
  case False
  then obtain e where "add_call io dumps ready s tid i = (Inl e, s)"
    unfolding add_call_def UserTasks_add_def by (cases "ready s tid") (auto split: bool.splits)
  with assms(2) show ?thesis by auto
next
  case True
  have inv: "ut_inv (view s)" using assms(1) by (simp add: readable_def)
  obtain r' where io: "io s [CHSet (owner_key tid) tid (dumps i), CSAdd key_all tid] = (r', s')"
    and r: "r = rbind r' (\<lambda>rs. Inr (reply_bool (hd rs)))"
    using assms(2) True by (auto simp: add_call_def UserTasks_add_def owner_key_def one_reply_def split: prod.splits)
  show ?thesis
  proof (cases r')
    case (Inl e)
    with io_failure [OF io [unfolded Inl]] r run_add(1) [OF inv] show ?thesis by auto
  next
    case (Inr rs)
    note io' = io [unfolded Inr]
    have "view s' = put_entry (view s) tid (Some (dumps i))"
      using io_effect [OF io'] by (simp only: run_add(1) [OF inv])
    moreover have "reply_bool (hd rs) \<longleftrightarrow> entry (view s) tid = None"
      unfolding io_replies [OF io'] by (rule run_add(2) [OF inv])
    ultimately show ?thesis using r Inr by simp
  qed
qed

lemma remove_effect:
  assumes "ut_inv (view s)" "remove_call io s tid = (r, s')"
  shows "view s' = view s \<and> (\<exists>e. r = Inl e) \<or> view s' = put_entry (view s) tid None
      \<and> (\<forall>b. r = Inr b \<longrightarrow> (b \<longleftrightarrow> entry (view s) tid \<noteq> None))"
proof -
  obtain r' where io: "io s [CHDel (owner_key tid) tid, CSRem key_all tid] = (r', s')"
    and r: "r = rbind r' (\<lambda>rs. Inr (reply_bool (hd rs)))"
    using assms(2) by (auto simp: remove_call_def UserTasks_delete_def owner_key_def one_reply_def split: prod.splits)
  show ?thesis
  proof (cases r')
    case (Inl e)
    with io_failure [OF io [unfolded Inl]] r run_delete(1) [OF assms(1)] show ?thesis by auto
  next
    case (Inr rs)
    note io' = io [unfolded Inr]
    have "view s' = put_entry (view s) tid None"
      using io_effect [OF io'] by (simp only: run_delete(1) [OF assms(1)])
    moreover have "reply_bool (hd rs) \<longleftrightarrow> entry (view s) tid \<noteq> None"
      unfolding io_replies [OF io'] by (rule run_delete(2) [OF assms(1)])
    ultimately show ?thesis using r Inr by simp
  qed
qed

end

sublocale task_store \<subseteq> registry: task_registry "add_call io dumps ready" "remove_call io"
  "\<lambda>s. info_at loads (view s)" "\<lambda>s. listed (view s)" "\<lambda>s. readable loads (view s)"
proof (unfold_locales, goal_cases)
  case (1 s t i b s')
  from add_effect [OF this] show ?case
    using readable_put_entry [OF 1(1), of "Some (dumps i)"] readable_info [OF 1(1)]
    by (auto simp: info_at_put_entry loads_dumps)
next
  case (2 s t i e s')
  from add_effect [OF this] show ?case
    using 2(1) readable_put_entry [OF 2(1), of "Some (dumps i)"]
    by (auto simp: info_at_put_entry loads_dumps)
next
  case (3 s t b s')
  then have "ut_inv (view s)" by (simp add: readable_def)
  from remove_effect [OF this 3(2)] show ?case
    using readable_put_entry [OF 3(1), of None] readable_info [OF 3(1)]
    by (auto simp: info_at_put_entry)
next
  case (4 s t e s')
  then have "ut_inv (view s)" by (simp add: readable_def)
  from remove_effect [OF this 4(2)] show ?case
    using 4(1) readable_put_entry [OF 4(1), of None] by (auto simp: info_at_put_entry)
next
  case (5 s t)
  then show ?case using readable_info [OF 5] ut_invD(4) by (simp add: readable_def)
qed

section \<open>Waiting for a task to be registered\<close>

fun polled :: "(nat \<Rightarrow> 's \<Rightarrow> 's) \<Rightarrow> nat \<Rightarrow> nat \<Rightarrow> 's \<Rightarrow> 's" where
  "polled pause i 0 s = s"
| "polled pause i (Suc k) s = polled pause (Suc i) k (pause (2 ^ i) s)"

lemma exists_pure: "UserTasks_exists pure_io st tid = (Inr (listed st tid), st)"
  by (auto simp: UserTasks_exists_def one_reply_def pure_io_single reply_bool_def listed_def
      is_set_key_def set_at_def split: option.splits rval.splits)

lemma check_loop_pure:
  "fst (UserTasks_check_loop pure_io pause t tid i st) =
     (if \<exists>k. (\<forall>j<k. 2 ^ (i + j) \<le> 2 * t) \<and> listed (polled pause i k st) tid then Inr ()
      else Inl (Exn UserTaskError (''Task '' @ quoted tid @ '' was not registered in user's task list'')))"
proof (induction "2 * t + 1 - i" arbitrary: i st rule: less_induct)
  case less
  let ?found = "\<lambda>i st k. (\<forall>j<k. 2 ^ (i + j) \<le> 2 * t) \<and> listed (polled pause i k st) tid"
  have split: "(\<exists>k. ?found i st k) \<longleftrightarrow>
      listed st tid \<or> (2 ^ i \<le> 2 * t \<and> (\<exists>k. ?found (Suc i) (pause (2 ^ i) st) k))"
  proof (intro iffI; elim exE disjE conjE)
    fix k assume *: "\<forall>j<k. 2 ^ (i + j) \<le> 2 * t" "listed (polled pause i k st) tid"
    then show "listed st tid \<or> (2 ^ i \<le> 2 * t \<and> (\<exists>k. ?found (Suc i) (pause (2 ^ i) st) k))"
    proof (cases k)
      case (Suc m)
      have "2 ^ i \<le> 2 * t" using * Suc by (elim allE [of _ 0]) simp
      moreover have "2 ^ (Suc i + j) \<le> 2 * t" if "j < m" for j
        using *(1) Suc that by (elim allE [of _ "Suc j"]) simp
      ultimately show ?thesis using * Suc by auto
    qed simp
  next
    assume "listed st tid"
    then show "\<exists>k. ?found i st k" by (intro exI [of _ 0]) simp
  next
    fix k assume "2 ^ i \<le> 2 * t" "\<forall>j<k. 2 ^ (Suc i + j) \<le> 2 * t"
      "listed (polled pause (Suc i) k (pause (2 ^ i) st)) tid"
    then show "\<exists>k. ?found i st k"
      by (intro exI [of _ "Suc k"]) (auto simp: less_Suc_eq_0_disj)
  qed
  show ?case
  proof (cases "listed st tid \<or> 2 * t < 2 ^ i")
    case True
    then show ?thesis using split
      by (subst UserTasks_check_loop.simps) (auto simp: exists_pure)
  next
    case False
    then have "i < 2 * t + 1" by (auto dest!: pow_le_imp_le simp: not_less)
    then have "2 * t + 1 - Suc i < 2 * t + 1 - i" by simp
    from less(1) [OF this] False show ?thesis unfolding split
      by (subst UserTasks_check_loop.simps) (simp add: exists_pure)
  qed
qed

text \<open>
  The wait for a task to be registered ends: the list is looked at up to seven times, after
  pauses of 0.5, 1, 2, 4, 8 and 16 seconds. The call succeeds if and only if the task was
  registered at one of these moments, whatever other processes do meanwhile, and otherwise it
  raises \<open>UserTaskError\<close>.
\<close>

theorem check_waits_for_registration:
  "fst (UserTasks_check pure_io pause tid st) =
     (if \<exists>k\<le>6. listed (polled pause 0 k st) tid then Inr ()
      else Inl (Exn UserTaskError (''Task '' @ quoted tid @ '' was not registered in user's task list'')))"
proof -
  have "(\<forall>j<k. (2::nat) ^ (0 + j) \<le> 2 * CHECK_TIMEOUT) \<longleftrightarrow> k \<le> 6" for k
  proof
    assume *: "\<forall>j<k. (2::nat) ^ (0 + j) \<le> 2 * CHECK_TIMEOUT"
    show "k \<le> 6"
    proof (rule ccontr)
      assume "\<not> k \<le> 6"
      with * have "(2::nat) ^ (0 + 6) \<le> 2 * CHECK_TIMEOUT" by (intro mp [OF spec [OF *]]) simp
      then show False by (simp add: CHECK_TIMEOUT_def)
    qed
  next
    assume "k \<le> 6"
    show "\<forall>j<k. (2::nat) ^ (0 + j) \<le> 2 * CHECK_TIMEOUT"
    proof (intro allI impI)
      fix j assume "j < k"
      with \<open>k \<le> 6\<close> have "(2::nat) ^ j \<le> 2 ^ 5" by (intro power_increasing) simp_all
      then show "(2::nat) ^ (0 + j) \<le> 2 * CHECK_TIMEOUT" by (simp add: CHECK_TIMEOUT_def)
    qed
  qed
  then show ?thesis by (simp only: UserTasks_check_def check_loop_pure)
qed

section \<open>Properties of the task lists\<close>

context task_store
begin

lemma lists_agree:
  assumes "readable loads (view s)"
  shows "listed (view (reg_calls io dumps ready s ops)) tid \<longleftrightarrow>
    (\<exists>u. map_of (hash_at (view (reg_calls io dumps ready s ops)) (UserTasks_key u)) tid \<noteq> None)"
    and "tid \<notin> reg_op_id ` set ops \<Longrightarrow>
      info_at loads (view (reg_calls io dumps ready s ops)) tid = info_at loads (view s) tid"
proof -
  let ?st = "view (reg_calls io dumps ready s ops)"
  have inv: "ut_inv ?st"
    using registry.run_keeps(1) [OF assms] by (simp add: readable_def reg_calls_def)
  show "listed ?st tid \<longleftrightarrow> (\<exists>u. map_of (hash_at ?st (UserTasks_key u)) tid \<noteq> None)"
    using inv ut_invD(4) [OF inv, of tid] unfolding ut_inv_def entry_def owner_key_def by metis
  show "tid \<notin> reg_op_id ` set ops \<Longrightarrow> info_at loads ?st tid = info_at loads (view s) tid"
    using registry.run_keeps(2) [OF assms] by (simp add: reg_calls_def)
qed

lemma get_entry:
  assumes "always_up io" "readable loads (view s)" "info_at loads (view s) tid = Some i"
  obtains s' where "UserTasks_get io loads s (owner_id_from_task_id tid) tid = (Inr (Some i), s')"
    "view s' = view s"
proof -
  have inv: "ut_inv (view s)" using assms(2) by (simp add: readable_def)
  obtain x where x: "entry (view s) tid = Some x" "loads x = Inr i"
    using assms(3) by (auto simp: info_at_def split: option.splits sum.splits)
  obtain s' where "io s [CHGet (owner_key tid) tid] = (Inr [RStr (Some x)], s')" "view s' = view s"
    using up_call [OF assms(1), of s "[CHGet (owner_key tid) tid]"] run_get [OF inv, of tid] x by auto
  then show thesis using that [of s'] x
    by (simp add: UserTasks_get_def one_reply_def owner_key_def reply_str_def)
qed

lemma pop_entry:
  assumes "always_up io" "readable loads (view s)" "info_at loads (view s) tid = Some i"
  obtains s' where "UserTasks_pop io loads s (owner_id_from_task_id tid) tid = (Inr (Some i), s')"
    "view s' = put_entry (view s) tid None"
proof -
  obtain s1 where g: "UserTasks_get io loads s (owner_id_from_task_id tid) tid = (Inr (Some i), s1)"
    and v: "view s1 = view s"
    using get_entry [OF assms] .
  have inv: "ut_inv (view s1)" using assms(2) v by (simp add: readable_def)
  let ?cs = "[CHDel (owner_key tid) tid, CSRem key_all tid]"
  obtain s2 where d: "io s1 ?cs = (Inr (fst (redis_run (view s1) ?cs)), s2)"
    and v2: "view s2 = snd (redis_run (view s1) ?cs)"
    using up_call [OF assms(1)] .
  then have "\<exists>b. UserTasks_delete io s1 (owner_id_from_task_id tid) tid = (Inr b, s2)"
    by (simp add: UserTasks_delete_def one_reply_def owner_key_def)
  with g that [of s2] v2 run_delete(1) [OF inv, of tid] v show thesis
    by (auto simp: UserTasks_pop_def)
qed

lemma add_fresh:
  assumes "always_up io" "readable loads (view s)" "ready s tid = Inr False"
    "\<not> listed (view s) tid"
  obtains s' where "add_call io dumps ready s tid i = (Inr True, s')"
    "view s' = put_entry (view s) tid (Some (dumps i))"
proof -
  have inv: "ut_inv (view s)" using assms(2) by (simp add: readable_def)
  let ?cs = "[CHSet (owner_key tid) tid (dumps i), CSAdd key_all tid]"
  obtain s1 where d: "io s ?cs = (Inr (fst (redis_run (view s) ?cs)), s1)"
    and v: "view s1 = snd (redis_run (view s) ?cs)"
    using up_call [OF assms(1)] .
  have "reply_bool (hd (fst (redis_run (view s) ?cs)))"
    using run_add(2) [OF inv] ut_invD(4) [OF inv] assms(4) by blast
  with d assms(3) have "add_call io dumps ready s tid i = (Inr True, s1)"
    by (simp add: add_call_def UserTasks_add_def one_reply_def owner_key_def)
  with that v run_add(1) [OF inv] show thesis by simp
qed

end

text \<open>
  C23. The two kinds of lists never disagree. After any sequence of registrations and removals,
  each for the owner that the task ID names, and with a connection error at any call, a task is in
  the set of all tasks if and only if it is in the hash of some user, and a task that no call of
  the sequence names keeps its information.
\<close>

theorem user_tasks_lists_agree:
  assumes "redis_service io view" "\<And>i. loads (dumps i) = Inr i" "readable loads (view s)"
  shows "(listed (view (reg_calls io dumps ready s ops)) tid \<longleftrightarrow>
      (\<exists>u. map_of (hash_at (view (reg_calls io dumps ready s ops)) (UserTasks_key u)) tid \<noteq> None))
    \<and> (tid \<notin> reg_op_id ` set ops \<longrightarrow>
         info_at loads (view (reg_calls io dumps ready s ops)) tid = info_at loads (view s) tid)"
proof -
  from assms(1,2) have "task_store io view dumps loads"
    by (simp add: task_store_def task_store_axioms_def)
  from task_store.lists_agree [OF this assms(3)] show ?thesis by blast
qed

text \<open>
  A pickler for values and the instance of the interface on the service with scheduled faults.
  Its code is the number of the value in an enumeration of all values.
\<close>

instance pyval :: countable
  by countable_datatype

definition val_dumps :: "pyval \<Rightarrow> string" where
  "val_dumps v = nat_str (to_nat v)"

definition val_loads :: "string \<Rightarrow> pyval res" where
  "val_loads s = Inr (from_nat (digits_val s))"

lemma val_loads_dumps [simp]: "val_loads (val_dumps v) = Inr v"
  by (simp add: val_dumps_def val_loads_def)

interpretation sim_tasks: task_store sim_io sim_store val_dumps val_loads "\<lambda>_ _. Inr False"
  by unfold_locales simp

lemma readable_empty: "readable loads Map.empty"
  by (simp add: readable_def ut_inv_def is_set_key_def is_hash_key_def hash_at_def listed_def
      set_at_def entry_def)

definition demo_ops :: "pyval reg_op list" where
  "demo_ops = [RegAdd ''1e2d1-a'' VNone, RegRemove ''1e2d1-b'']"

definition empty_redis :: sim_redis where
  "empty_redis = \<lparr>sim_store = Map.empty, sim_faults = [False, True]\<rparr>"

theorem user_tasks_lists_agree_witness:
  "(listed (sim_store (reg_calls sim_io val_dumps (\<lambda>_ _. Inr False) empty_redis demo_ops)) ''1e2d1-a'' \<longleftrightarrow>
    (\<exists>u. map_of (hash_at (sim_store (reg_calls sim_io val_dumps (\<lambda>_ _. Inr False) empty_redis demo_ops))
       (UserTasks_key u)) ''1e2d1-a'' \<noteq> None))
   \<and> info_at val_loads (sim_store (reg_calls sim_io val_dumps (\<lambda>_ _. Inr False) empty_redis demo_ops)) ''x''
     = info_at val_loads (sim_store empty_redis) ''x''"
  using user_tasks_lists_agree [OF sim.redis_service_axioms, of val_loads val_dumps empty_redis
      "\<lambda>_ _. Inr False" demo_ops]
  by (simp add: readable_empty empty_redis_def demo_ops_def)

lemma apiview_of_create: "apiview_of (Some (create_task_info now obj apiview msg additional)) =
   Inr (complete_apiview now apiview additional)"
  by (simp add: apiview_of_def create_task_info_def vget_def dget_def dupdate_def dict_simps)

context task_store
begin

lemma add_del_roundtrip:
  assumes "always_up io" "readable loads (view s)" "ready s tid = Inr False" "\<not> listed (view s) tid"
  obtains s1 s2 where "add_call io dumps ready s tid i = (Inr True, s1)"
    "UserTasks_pop io loads s1 (owner_id_from_task_id tid) tid = (Inr (Some i), s2)"
    "entry (view s2) = entry (view s)" "ut_inv (view s2)"
proof -
  obtain s1 where a: "add_call io dumps ready s tid i = (Inr True, s1)"
    "view s1 = put_entry (view s) tid (Some (dumps i))"
    using add_fresh [OF assms(1-4)] .
  have r: "readable loads (view s1)" "info_at loads (view s1) tid = Some i"
    using assms(2) by (simp_all add: a readable_put_entry info_at_put_entry loads_dumps)
  obtain s2 where p: "UserTasks_pop io loads s1 (owner_id_from_task_id tid) tid = (Inr (Some i), s2)"
    "view s2 = put_entry (view s1) tid None"
    using pop_entry [OF assms(1) r] .
  have inv: "ut_inv (view s)" "ut_inv (view s2)"
    using assms(2) r(1) by (simp_all add: p readable_def ut_inv_put_entry)
  have "entry (view s) tid = None" using ut_invD(4) [OF inv(1)] assms(4) by blast
  then have "entry (view s2) = entry (view s)" by (auto simp: p a fun_eq_iff)
  with a p inv that show thesis by blast
qed

end

text \<open>
  C24. Registering and unregistering a task of a database object. On a service that answers, a
  task that has not finished and is not registered yet is added; deleting it then returns exactly
  the view it was registered with (with a time), completed by the default attributes of the
  object and the additional ones, and afterwards every user has the tasks he had before.
\<close>

theorem tasks_add_del_roundtrip:
  fixes loads :: "string \<Rightarrow> pyval res"
  assumes "redis_service io view" "\<And>i. loads (dumps i) = Inr i" "always_up io"
    and "\<And>s k v n. view (cache_set s k v n) = view s"
    and "readable loads (view s)" "ready s tid = Inr False" "\<not> listed (view s) tid"
  shows "\<exists>s1 s2. tasks_add io dumps ready now obj tid apiview msg additional s = (Inr True, s1)
    \<and> tasks_del io loads cache_set obj tid extra s1 =
        (Inr (dupdate (dupdate (complete_apiview now apiview additional) (default_apiview obj)) extra), s2)
    \<and> entry (view s2) = entry (view s) \<and> \<not> listed (view s2) tid"
proof -
  let ?i = "create_task_info now obj apiview msg additional"
  from assms(1,2) have ts: "task_store io view dumps loads"
    by (simp add: task_store_def task_store_axioms_def)
  obtain s1 s2 where s: "add_call io dumps ready s tid ?i = (Inr True, s1)"
    "UserTasks_pop io loads s1 (owner_id_from_task_id tid) tid = (Inr (Some ?i), s2)"
    "entry (view s2) = entry (view s)" "ut_inv (view s2)"
    using task_store.add_del_roundtrip [where ready = ready and s = s and tid = tid,
        OF ts assms(3,5,6,7)] .
  let ?d = "dupdate (dupdate (complete_apiview now apiview additional) (default_apiview obj)) extra"
  let ?s3 = "cache_set s2 (''sio-'' @ tid) ?d 60"
  have "tasks_add io dumps ready now obj tid apiview msg additional s = (Inr True, s1)"
    using s(1) by (simp add: tasks_add_def add_call_def)
  moreover have "tasks_del io loads cache_set obj tid extra s1 = (Inr ?d, ?s3)"
    using s(2) by (simp add: tasks_del_def apiview_of_create tasks_del_cls_def tasks_del_with_def Let_def)
  moreover have "entry (view ?s3) = entry (view s)" "\<not> listed (view ?s3) tid"
    using s(3,4) assms(4,5,7) ut_invD(4) by (auto simp: readable_def)
  ultimately show ?thesis by blast
qed

definition demo_vm_obj :: task_obj where
  "demo_vm_obj = \<lparr>pk_key = ''vm_uuid'', obj_pk = VStr ''u'', obj_owner = 2,
     default_apiview = [(''hostname'', VStr ''h'')]\<rparr>"

theorem tasks_add_del_roundtrip_witness:
  "\<exists>s1 s2. tasks_add pure_io val_dumps (\<lambda>_ _. Inr False) ''t'' demo_vm_obj ''1e2d1-a'' None ''m'' []
      Map.empty = (Inr True, s1)
    \<and> tasks_del pure_io val_loads (\<lambda>s _ _ _. s) demo_vm_obj ''1e2d1-a'' [(''x'', VInt 1)] s1 =
        (Inr [(''time'', VStr ''t''), (''hostname'', VStr ''h''), (''x'', VInt 1)], s2)
    \<and> entry s2 = entry Map.empty \<and> \<not> listed s2 ''1e2d1-a''"
proof -
  have "\<not> listed Map.empty ''1e2d1-a''" by (simp add: listed_def set_at_def)
  then show ?thesis
    using tasks_add_del_roundtrip [OF pure.redis_service_axioms, of val_loads val_dumps
        "\<lambda>s _ _ _. s" Map.empty "\<lambda>_ _. Inr False" "''1e2d1-a''" "''t''" demo_vm_obj None "''m''" "[]"
        "[(''x'', VInt 1)]"]
    by (simp add: readable_empty complete_apiview_def demo_vm_obj_def dupdate_def dhas_def)
qed

end
