(* ===== verification/Que_Control.thy ===== *)
theory Que_Control
  imports User_Tasks
begin

text \<open>
  The control functions of \<^verbatim>\<open>que/utils.py\<close>: results and callbacks of tasks, pinging
  workers, sending a task until it is accepted, cancelling and deleting tasks, the log task that
  closes a task which did not finish; and the handler of revoked tasks in
  \<^verbatim>\<open>que/handlers.py\<close>. The task queue library is a record of operations on the state of
  the world; it is a parameter of every definition.
\<close>

section \<open>The task queue library\<close>

record task_msg =
  m_task :: string
  m_args :: "pyval list"
  m_kwargs :: pydict
  m_queue :: "string option"
  m_expires :: "nat option"
  m_id :: "string option"

text \<open>
  The result of a task in the result backend: a value, an exception whose class name ends with
  \<open>TaskException\<close> (with its first argument), or any other exception.
\<close>

datatype ar_result = ArValue pyval | ArTaskException pyval | ArException string

record 'w celery =
  c_redis :: "'w redis_io"
  c_send :: "task_msg \<Rightarrow> 'w \<Rightarrow> string res \<times> 'w"
  c_ping :: "string list \<Rightarrow> 'w \<Rightarrow> (string \<times> pyval) list res \<times> 'w"
  c_revoke :: "string \<Rightarrow> 'w \<Rightarrow> unit res \<times> 'w"
  c_result :: "pyval \<Rightarrow> 'w \<Rightarrow> ar_result res"
  c_ready :: "'w \<Rightarrow> string \<Rightarrow> bool res"
  c_sleep :: "nat \<Rightarrow> 'w \<Rightarrow> 'w"
  c_shutdown :: "'w \<Rightarrow> bool"
  c_uuid :: "'w \<Rightarrow> string \<times> 'w"
  c_md5 :: "string \<Rightarrow> string"
  c_dumps :: "pyval \<Rightarrow> string"
  c_loads :: "string \<Rightarrow> pyval res"
  c_literal_eval :: "pyval \<Rightarrow> pyval res"

section \<open>Results and callbacks\<close>

datatype py_result = PVal pyval | PExc string

definition get_result :: "'w celery \<Rightarrow> 'w \<Rightarrow> pyval \<Rightarrow> py_result" where
  "get_result env w tid = (case c_result env tid w of
      Inl _ \<Rightarrow> PVal (VStr ''Unknown error'')
    | Inr (ArValue v) \<Rightarrow> PVal v
    | Inr (ArTaskException a) \<Rightarrow> (case c_literal_eval env a of
          Inl _ \<Rightarrow> PVal (VStr ''Unknown failure'') | Inr v \<Rightarrow> PVal v)
    | Inr (ArException c) \<Rightarrow> PExc c)"

text \<open>\<open>get_result(tid)['meta'][k]\<close>.\<close>

definition result_meta :: "'w celery \<Rightarrow> 'w \<Rightarrow> pyval \<Rightarrow> string \<Rightarrow> pyval res" where
  "result_meta env w tid k = (case get_result env w tid of
      PExc c \<Rightarrow> Inl (Exn TypeError c)
    | PVal v \<Rightarrow> rbind (vitem v ''meta'') (\<lambda>m. vitem m k))"

text \<open>
  \<open>follow_callback\<close> calls itself inside a \<open>try\<close> block; \<open>n\<close> is the number of nested calls that
  the interpreter still allows, and a call beyond it raises \<open>RuntimeError\<close>.
\<close>

fun follow_callback :: "nat \<Rightarrow> 'w celery \<Rightarrow> 'w \<Rightarrow> pyval \<Rightarrow> pyval res" where
  "follow_callback 0 env w ar = Inl (Exn RuntimeError ''maximum recursion depth exceeded'')"
| "follow_callback (Suc n) env w ar = Inr (case result_meta env w ar ''callback'' of
      Inl _ \<Rightarrow> ar
    | Inr cb \<Rightarrow> (case follow_callback n env w cb of Inl _ \<Rightarrow> ar | Inr r \<Rightarrow> r))"

definition get_callback :: "'w celery \<Rightarrow> 'w \<Rightarrow> string \<Rightarrow> pyval" where
  "get_callback env w task_id =
     (case result_meta env w (VStr task_id) ''callback'' of Inl _ \<Rightarrow> VBool False | Inr v \<Rightarrow> v)"

definition is_callback :: "'w celery \<Rightarrow> 'w \<Rightarrow> string \<Rightarrow> pyval" where
  "is_callback env w task_id =
     (case result_meta env w (VStr task_id) ''caller'' of Inl _ \<Rightarrow> VBool False | Inr v \<Rightarrow> v)"

definition is_logtask :: "'w celery \<Rightarrow> 'w \<Rightarrow> string \<Rightarrow> bool" where
  "is_logtask env w task_id =
     (case result_meta env w (VStr task_id) ''cb_name'' of Inl _ \<Rightarrow> False | Inr v \<Rightarrow> py_eq v (VStr LOGTASK))"

section \<open>Pinging workers\<close>

fun replace_first :: "char \<Rightarrow> char \<Rightarrow> string \<Rightarrow> string" where
  "replace_first a b [] = []"
| "replace_first a b (x # xs) = (if x = a then b # xs else x # replace_first a b xs)"

definition MGMT_WORKERS :: "string list" where
  "MGMT_WORKERS = [''mgmt@mgmt01.local'']"

definition queue_to_hostnames :: "string \<Rightarrow> string list" where
  "queue_to_hostnames queue =
     (if queue = Q_MGMT then MGMT_WORKERS else [replace_first (CHR ''.'') (CHR ''@'') queue])"

definition pong_workers :: "(string \<times> pyval) list res \<Rightarrow> string list" where
  "pong_workers r = (case r of
      Inl _ \<Rightarrow> []
    | Inr res \<Rightarrow> map fst (filter (\<lambda>(_, status). py_eq status (VDict [(''ok'', VStr ''pong'')])) res))"

text \<open>The loop of \<open>ping\<close> with \<open>n\<close> attempts left; every attempt but the first waits before.\<close>

fun ping_loop :: "'w celery \<Rightarrow> string list \<Rightarrow> nat \<Rightarrow> nat \<Rightarrow> bool \<Rightarrow> 'w \<Rightarrow> string list \<times> 'w" where
  "ping_loop env workers retry_wait 0 first w = ([], w)"
| "ping_loop env workers retry_wait (Suc n) first w =
     (let w1 = (if first then w else c_sleep env retry_wait w);
          (r, w2) = c_ping env workers w1;
          pong = pong_workers r
      in if pong \<noteq> [] then (pong, w2) else ping_loop env workers retry_wait n False w2)"

definition ping :: "'w celery \<Rightarrow> string \<Rightarrow> nat \<Rightarrow> 'w \<Rightarrow> string list \<times> 'w" where
  "ping env queue count w = ping_loop env (queue_to_hostnames queue) 500 count True w"

section \<open>Sending a task until it is accepted\<close>

definition send_attempt :: "'w celery \<Rightarrow> task_msg \<Rightarrow> bool \<Rightarrow> 'w \<Rightarrow> string res \<times> 'w" where
  "send_attempt env msg ping_check w =
     (case m_queue msg of
        Some q \<Rightarrow>
          (if q \<noteq> [] \<and> ping_check
           then (case ping env q 1 w of
               ([], w1) \<Rightarrow> (Inl (Exn PingFailed (''Task queue '' @ quoted q @ '' worker is not responding!'')), w1)
             | (_ # _, w1) \<Rightarrow> c_send env msg w1)
           else c_send env msg w)
      | None \<Rightarrow> c_send env msg w)"

definition can_expire :: "task_msg \<Rightarrow> bool" where
  "can_expire msg = (case m_expires msg of None \<Rightarrow> False | Some n \<Rightarrow> n \<noteq> 0)"

text \<open>
  The state of the loop: whether the worker is still pinged, and the number of retries.
\<close>

definition next_attempt :: "'w celery \<Rightarrow> nat \<Rightarrow> bool \<times> nat \<times> 'w \<Rightarrow> bool \<times> nat \<times> 'w" where
  "next_attempt env delay x = (case x of (ping_check, num_retries, w) \<Rightarrow>
     (let n = Suc num_retries
      in if c_shutdown env w \<and> n > 1 then (False, n, c_sleep env 1000 w)
         else (ping_check, n, c_sleep env delay w)))"

fun send_loop :: "nat \<Rightarrow> 'w celery \<Rightarrow> task_msg \<Rightarrow> nat \<Rightarrow> bool \<times> nat \<times> 'w \<Rightarrow> (string res \<times> 'w) option" where
  "send_loop 0 env msg delay x = None"
| "send_loop (Suc fuel) env msg delay (ping_check, num_retries, w) =
     (case send_attempt env msg ping_check w of
        (Inr t, w1) \<Rightarrow> Some (Inr t, w1)
      | (Inl e, w1) \<Rightarrow>
          (if can_expire msg
           then (if num_retries < 1
                 then send_loop fuel env msg delay (ping_check, Suc num_retries, c_sleep env 1000 w1)
                 else Some (Inl e, w1))
           else send_loop fuel env msg delay (next_attempt env delay (ping_check, num_retries, w1))))"

definition send_task_forever ::
  "nat \<Rightarrow> 'w celery \<Rightarrow> task_msg \<Rightarrow> nat \<Rightarrow> 'w \<Rightarrow> (string res \<times> 'w) option" where
  "send_task_forever fuel env msg delay w = send_loop fuel env msg delay (True, 0, w)"

section \<open>Cancelling tasks, and the log task of a task that did not finish\<close>

definition cancel_task :: "'w celery \<Rightarrow> string \<Rightarrow> bool \<Rightarrow> 'w \<Rightarrow> bool res \<times> 'w" where
  "cancel_task env task_id force w =
     (if \<not> force \<and> (truthy (get_callback env w task_id) \<or> truthy (is_callback env w task_id))
      then (Inr False, w)
      else (let (r, w1) = c_revoke env task_id w in (rbind r (\<lambda>_. Inr True), w1)))"

definition release_own_lock :: "'w celery \<Rightarrow> string \<Rightarrow> 'w \<Rightarrow> unit res \<times> 'w" where
  "release_own_lock env task_id w =
     (case get_lock_key_from_value (c_redis env) w task_id of
        (Inl e, w1) \<Rightarrow> (Inl e, w1)
      | (Inr found, w1) \<Rightarrow>
          (case found of
             None \<Rightarrow> (Inr (), w1)
           | Some k \<Rightarrow>
               (if k = [] then (Inr (), w1)
                else (let (r, _, w2) = lock_delete (c_redis env) (TaskLock_init k None) w1 (Some task_id) True True
                      in (rbind r (\<lambda>_. Inr ()), w2)))))"

definition log_result :: "string \<Rightarrow> pydict \<Rightarrow> pyval" where
  "log_result detail info = VDict [(''detail'', VStr detail),
     (''meta'', VDict [(''cb_name'', VStr LOGTASK), (''msg'', dget info ''msg'' (VStr [])),
                      (''apiview'', dget info ''apiview'' (VDict []))])]"

definition new_task_id :: "'w celery \<Rightarrow> string \<Rightarrow> 'w \<Rightarrow> string res \<times> 'w" where
  "new_task_id env task_id w =
     (let (uuid, w1) = c_uuid env w
      in (task_id_from_task_id (c_md5 env) uuid task_id None None None None None False, w1))"

text \<open>
  Everything of \<open>log_task_callback\<close> up to the sending: the lock of the task is removed, and the
  message is built from the task information. \<open>None\<close> is the early return for internal tasks and
  for tasks that are not registered.
\<close>

definition log_task_msg :: "'w celery \<Rightarrow> string \<Rightarrow> string \<Rightarrow> bool \<Rightarrow> string \<Rightarrow> 'w \<Rightarrow> task_msg option res \<times> 'w" where
  "log_task_msg env task_id task_status cleanup detail w =
     (let owner_id = snd (user_owner_ids_from_task_id task_id)
      in if owner_id = Some (IdStr TASK_USER) then (Inr None, w)
         else
           (case (if cleanup then release_own_lock env task_id w else (Inr (), w)) of
              (Inl e, w1) \<Rightarrow> (Inl e, w1)
            | (Inr _, w1) \<Rightarrow>
                (case UserTasks_get (c_redis env) (c_loads env) w1 owner_id task_id of
                   (Inl e, w2) \<Rightarrow> (Inl e, w2)
                 | (Inr None, w2) \<Rightarrow> (Inr None, w2)
                 | (Inr (Some (VDict info)), w2) \<Rightarrow>
                     (let info1 = AList.update ''cleanup'' (VBool cleanup)
                                    (AList.update ''task_status'' (VStr task_status) info);
                          (tid, w3) = new_task_id env task_id w2
                      in (rbind tid (\<lambda>t. Inr (Some
                            \<lparr>m_task = LOGTASK, m_args = [log_result detail info1, VStr task_id],
                             m_kwargs = info1, m_queue = Some Q_MGMT, m_expires = None, m_id = Some t\<rparr>)), w3))
                 | (Inr (Some _), w2) \<Rightarrow> (Inl (Exn TypeError ''item assignment''), w2))))"

definition log_task_callback ::
  "nat \<Rightarrow> 'w celery \<Rightarrow> string \<Rightarrow> string \<Rightarrow> bool \<Rightarrow> string \<Rightarrow> bool \<Rightarrow> 'w \<Rightarrow> (string option res \<times> 'w) option" where
  "log_task_callback fuel env task_id task_status cleanup detail send_forever w =
     (case log_task_msg env task_id task_status cleanup detail w of
        (Inl e, w1) \<Rightarrow> Some (Inl e, w1)
      | (Inr None, w1) \<Rightarrow> Some (Inr None, w1)
      | (Inr (Some msg), w1) \<Rightarrow>
          (if send_forever
           then map_option (\<lambda>(r, w2). (rbind r (\<lambda>t. Inr (Some t)), w2)) (send_task_forever fuel env msg 3000 w1)
           else (let (r, w2) = c_send env msg w1 in Some (rbind r (\<lambda>t. Inr (Some t)), w2))))"

definition REVOKED :: string where "REVOKED = ''REVOKED''"

text \<open>\<open>delete_task\<close> returns a pair of the ID of the log task and an error message.\<close>

definition delete_task :: "'w celery \<Rightarrow> string \<Rightarrow> bool \<Rightarrow> 'w \<Rightarrow> (string option \<times> string option) res \<times> 'w" where
  "delete_task env task_id force w =
     (if \<not> force then (Inr (None, Some ''Safe task deletion is not implemented''), w)
      else
        (case cancel_task env task_id force w of
           (Inl e, w1) \<Rightarrow> (Inl e, w1)
         | (Inr _, w1) \<Rightarrow>
             (case log_task_callback 0 env task_id REVOKED True ''vanished'' False w1 of
                None \<Rightarrow> (Inr (None, Some ''Unknown error''), w1)
              | Some (Inl e, w2) \<Rightarrow> (Inr (None, Some (exn_msg e)), w2)
              | Some (Inr (Some t), w2) \<Rightarrow> (Inr (Some t, None), w2)
              | Some (Inr None, w2) \<Rightarrow> (Inr (None, Some ''Unknown error''), w2))))"

definition worker_command :: "pyval res \<Rightarrow> string \<Rightarrow> pyval option res" where
  "worker_command reply destination = rbind reply (\<lambda>v. case vitem v destination of
      Inl _ \<Rightarrow> Inr None | Inr x \<Rightarrow> Inr (Some x))"

definition read_file :: "string \<Rightarrow> nat \<Rightarrow> string" where
  "read_file content limit =
     (let total = length content in if total > limit then drop (total - limit) content else content)"

text \<open>
  The handler of revoked tasks: \<open>knows\<close> is the mark on the request that stops the second call for
  the same request.
\<close>

definition revoked_detail :: "bool \<Rightarrow> string \<Rightarrow> bool \<Rightarrow> string" where
  "revoked_detail terminated signum expired =
     (if terminated then ''terminated ('' @ signum @ '')'' else if expired then ''expired'' else ''revoked'')"

definition task_revoked_handler ::
  "nat \<Rightarrow> 'w celery \<Rightarrow> bool \<Rightarrow> string \<Rightarrow> bool \<Rightarrow> string \<Rightarrow> bool \<Rightarrow> 'w \<Rightarrow> (bool \<times> string option res \<times> 'w) option" where
  "task_revoked_handler fuel env knows task_id terminated signum expired w =
     (if knows then Some (True, Inr None, w)
      else map_option (\<lambda>(r, w1). (True, r, w1))
             (log_task_callback fuel env task_id REVOKED True (revoked_detail terminated signum expired) True w))"

section \<open>A simulated queue\<close>

text \<open>
  An instance of the interface for the examples: a store with time, the messages sent so far and
  the moment (in milliseconds) from which the workers answer.
\<close>

record que_world =
  w_store :: store
  w_time :: nat
  w_sent :: "task_msg list"
  w_up_from :: nat

definition world_io :: "que_world redis_io" where
  "world_io w cs = (let (rs, st) = redis_run (w_store w) cs in (Inr rs, w\<lparr>w_store := st\<rparr>))"

definition sim_que :: "que_world celery" where
  "sim_que = \<lparr>c_redis = world_io,
     c_send = \<lambda>msg w. (Inr (case m_id msg of Some t \<Rightarrow> t | None \<Rightarrow> []), w\<lparr>w_sent := w_sent w @ [msg]\<rparr>),
     c_ping = \<lambda>ws w. (Inr (if w_up_from w \<le> w_time w
                then map (\<lambda>x. (x, VDict [(''ok'', VStr ''pong'')])) ws else []), w),
     c_revoke = \<lambda>t w. (Inr (), w), c_result = \<lambda>t w. Inr (ArValue VNone), c_ready = \<lambda>w t. Inr False,
     c_sleep = \<lambda>n w. w\<lparr>w_time := w_time w + n, w_store := elapse (n div 1000) (w_store w)\<rparr>,
     c_shutdown = \<lambda>w. False, c_uuid = \<lambda>w. (sample_uuid, w), c_md5 = \<lambda>s. s,
     c_dumps = val_dumps, c_loads = val_loads, c_literal_eval = \<lambda>v. Inr v\<rparr>"

interpretation world: redis_service world_io w_store
  by unfold_locales (auto simp: world_io_def split: prod.splits)

lemma world_up [simp]: "always_up world_io"
  by (simp add: always_up_def world_io_def split_def Let_def)

section \<open>Sending: termination and results\<close>

text \<open>The state of the loop before its \<open>k\<close>-th attempt, when all earlier attempts have failed.\<close>

fun attempt_at :: "nat \<Rightarrow> 'w celery \<Rightarrow> task_msg \<Rightarrow> nat \<Rightarrow> bool \<times> nat \<times> 'w \<Rightarrow> bool \<times> nat \<times> 'w" where
  "attempt_at 0 env msg delay x = x"
| "attempt_at (Suc k) env msg delay (p, n, w) =
     attempt_at k env msg delay (next_attempt env delay (p, n, snd (send_attempt env msg p w)))"

definition attempt_result :: "nat \<Rightarrow> 'w celery \<Rightarrow> task_msg \<Rightarrow> nat \<Rightarrow> bool \<times> nat \<times> 'w \<Rightarrow> string res \<times> 'w" where
  "attempt_result k env msg delay x =
     (case attempt_at k env msg delay x of (p, n, w) \<Rightarrow> send_attempt env msg p w)"

lemma attempt_result_0 [simp]: "attempt_result 0 env msg delay (p, n, w) = send_attempt env msg p w"
  by (simp add: attempt_result_def)

lemma attempt_result_Suc [simp]: "attempt_result (Suc k) env msg delay (p, n, w) =
   attempt_result k env msg delay (next_attempt env delay (p, n, snd (send_attempt env msg p w)))"
  by (simp add: attempt_result_def)

definition accepted :: "string res \<times> 'w \<Rightarrow> bool" where
  "accepted x = (case fst x of Inr _ \<Rightarrow> True | Inl _ \<Rightarrow> False)"

lemma send_loop_forever:
  assumes "\<not> can_expire msg"
  shows "send_loop fuel env msg delay x =
    (if \<exists>k<fuel. accepted (attempt_result k env msg delay x)
     then Some (attempt_result (LEAST k. accepted (attempt_result k env msg delay x)) env msg delay x)
     else None)"
proof (induction fuel arbitrary: x)
  case 0
  then show ?case by simp
next
  case (Suc fuel)
  obtain p n w where x: "x = (p, n, w)" by (cases x)
  obtain r w1 where r: "send_attempt env msg p w = (r, w1)" by force
  let ?P = "\<lambda>k. accepted (attempt_result k env msg delay x)"
  let ?y = "next_attempt env delay (p, n, w1)"
  have suc: "attempt_result (Suc k) env msg delay x = attempt_result k env msg delay ?y" for k
    using x r by simp
  show ?case
  proof (cases r)
    case (Inr t)
    then have P0: "?P 0" using x r by (simp add: accepted_def)
    then have "(LEAST k. ?P k) = 0" by (rule Least_eq_0)
    then show ?thesis using P0 x r Inr by auto
  next
    case (Inl e)
    then have P0: "\<not> ?P 0" using x r by (simp add: accepted_def)
    have ex: "(\<exists>k<Suc fuel. ?P k) \<longleftrightarrow> (\<exists>k<fuel. ?P (Suc k))"
      using P0 by (auto simp: less_Suc_eq_0_disj)
    have least: "(LEAST k. ?P k) = Suc (LEAST k. ?P (Suc k))" if "\<exists>k<fuel. ?P (Suc k)"
      using that P0 Least_Suc [of ?P] by blast
    have "send_loop (Suc fuel) env msg delay x = send_loop fuel env msg delay ?y"
      using x r Inl assms by simp
    then show ?thesis
      using Suc.IH [of ?y] ex least by (simp add: suc)
  qed
qed

text \<open>
  C25. Sending a task that must not get lost. A task without expiration is sent again and again:
  the call never raises, with any amount of fuel it returns exactly when one of the attempts made
  so far was accepted, and its answer is that of the first accepted attempt. So it returns
  whenever the workers and the broker come back.
\<close>

theorem send_forever_returns_first_success:
  assumes "\<not> can_expire msg"
  shows "(send_task_forever fuel env msg delay w \<noteq> None \<longleftrightarrow>
      (\<exists>k<fuel. accepted (attempt_result k env msg delay (True, 0, w))))
    \<and> (\<forall>r w'. send_task_forever fuel env msg delay w = Some (r, w') \<longrightarrow> (\<exists>t. r = Inr t)
         \<and> (\<exists>k<fuel. attempt_result k env msg delay (True, 0, w) = (r, w')
              \<and> (\<forall>j<k. \<not> accepted (attempt_result j env msg delay (True, 0, w)))))"
proof (intro conjI allI impI)
  let ?P = "\<lambda>k. accepted (attempt_result k env msg delay (True, 0, w))"
  note eq = send_loop_forever [OF assms, of fuel env delay "(True, 0, w)"]
  show "send_task_forever fuel env msg delay w \<noteq> None \<longleftrightarrow> (\<exists>k<fuel. ?P k)"
    by (simp add: send_task_forever_def eq)
  fix r w' assume "send_task_forever fuel env msg delay w = Some (r, w')"
  then have k: "\<exists>k<fuel. ?P k" and r: "attempt_result (LEAST k. ?P k) env msg delay (True, 0, w) = (r, w')"
    by (auto simp: send_task_forever_def eq split: if_splits)
  then obtain k where "k < fuel" "?P k" by blast
  then have "?P (LEAST k. ?P k)" "(LEAST k. ?P k) < fuel"
    using LeastI [of ?P k] Least_le [of ?P k] by auto
  note least = this
  show "\<exists>t. r = Inr t" using least(1) unfolding r by (cases r) (simp_all add: accepted_def)
  show "\<exists>k<fuel. attempt_result k env msg delay (True, 0, w) = (r, w') \<and> (\<forall>j<k. \<not> ?P j)"
    using least(2) r not_less_Least [of _ ?P] by blast
qed

definition demo_msg :: task_msg where
  "demo_msg = \<lparr>m_task = LOGTASK, m_args = [], m_kwargs = [], m_queue = Some Q_MGMT, m_expires = None,
     m_id = Some ''t''\<rparr>"

definition demo_world :: que_world where
  "demo_world = \<lparr>w_store = Map.empty, w_time = 0, w_sent = [], w_up_from = 5000\<rparr>"

lemmas demo_eval = send_attempt_def ping_def demo_msg_def demo_world_def sim_que_def next_attempt_def
  pong_workers_def queue_to_hostnames_def MGMT_WORKERS_def accepted_def can_expire_def Let_def Q_MGMT_def

theorem send_forever_returns_first_success_witness:
  "\<not> can_expire demo_msg \<and> send_task_forever 2 sim_que demo_msg 3000 demo_world = None
   \<and> send_task_forever 3 sim_que demo_msg 3000 demo_world \<noteq> None"
proof -
  let ?P = "\<lambda>k. accepted (attempt_result k sim_que demo_msg 3000 (True, 0, demo_world))"
  have e: "\<not> can_expire demo_msg" by (simp add: can_expire_def demo_msg_def)
  have "\<not> ?P 0" "\<not> ?P (Suc 0)" and P2: "?P (Suc (Suc 0))" by (simp_all add: demo_eval)
  then have "\<not> ?P k" if "k < 2" for k
    using that unfolding numeral_2_eq_2 less_Suc_eq by blast
  moreover have "\<exists>k<3. ?P k" using P2 by (intro exI [of _ "Suc (Suc 0)"] conjI) simp_all
  ultimately have "\<not> (\<exists>k<2. ?P k)" "\<exists>k<3. ?P k" by blast+
  then show ?thesis
    using e send_forever_returns_first_success [OF e, of 2 sim_que 3000 demo_world]
      send_forever_returns_first_success [OF e, of 3 sim_que 3000 demo_world] by blast
qed

text \<open>
  A task with an expiration is tried at most twice, one second apart, and the exception of
  the second attempt is passed on: the loop ends after two rounds whatever the environment does.
\<close>

theorem send_expiring_tries_twice:
  assumes "can_expire msg"
  shows "send_task_forever (Suc (Suc fuel)) env msg delay w =
    Some (case send_attempt env msg True w of
        (Inr t, w1) \<Rightarrow> (Inr t, w1)
      | (Inl e, w1) \<Rightarrow> send_attempt env msg True (c_sleep env 1000 w1))"
  using assms by (auto simp: send_task_forever_def split: prod.splits sum.splits)

theorem send_expiring_tries_twice_witness:
  "send_task_forever (Suc (Suc 0)) sim_que (demo_msg\<lparr>m_expires := Some 300\<rparr>) 3000 demo_world =
     Some (Inl (Exn PingFailed (''Task queue '' @ quoted Q_MGMT @ '' worker is not responding!'')),
           demo_world\<lparr>w_time := 1000\<rparr>)"
proof -
  have "can_expire (demo_msg\<lparr>m_expires := Some 300\<rparr>)" by (simp add: can_expire_def)
  from send_expiring_tries_twice [OF this, of 0 sim_que 3000 demo_world] show ?thesis
    by (simp add: demo_eval const_defs fun_eq_iff elapse_def)
qed

section \<open>Following callbacks\<close>

definition callback_of :: "'w celery \<Rightarrow> 'w \<Rightarrow> pyval \<Rightarrow> pyval option" where
  "callback_of env w a = (case result_meta env w a ''callback'' of Inl _ \<Rightarrow> None | Inr b \<Rightarrow> Some b)"

fun callback_chain :: "'w celery \<Rightarrow> 'w \<Rightarrow> pyval list \<Rightarrow> bool" where
  "callback_chain env w [] = False"
| "callback_chain env w [a] = (callback_of env w a = None)"
| "callback_chain env w (a # b # xs) = (callback_of env w a = Some b \<and> callback_chain env w (b # xs))"

text \<open>
  Following callbacks. When the results of tasks lead from a task through its callbacks to
  one without callback, in no more steps than the interpreter's recursion limit, \<open>follow_callback\<close>
  returns exactly the last task of this chain.
\<close>

theorem follow_callback_finds_last:
  assumes "callback_chain env w xs" "length xs \<le> n"
  shows "follow_callback n env w (hd xs) = Inr (last xs)"
  using assms
proof (induction env w xs arbitrary: n rule: callback_chain.induct)
  case (2 env w a)
  then show ?case by (cases n) (auto simp: callback_of_def split: sum.splits)
next
  case (3 env w a b xs)
  then obtain m where m: "n = Suc m" by (cases n) auto
  with 3 show ?case by (auto simp: callback_of_def split: sum.splits)
qed simp

definition demo_callbacks :: "que_world celery" where
  "demo_callbacks = sim_que\<lparr>c_result := \<lambda>t w. Inr (ArValue (case t of
      VStr [CHR ''a''] \<Rightarrow> VDict [(''meta'', VDict [(''callback'', VStr ''b'')])] | _ \<Rightarrow> VNone))\<rparr>"

theorem follow_callback_finds_last_witness:
  "follow_callback 9 demo_callbacks demo_world (VStr ''a'') = Inr (VStr ''b'')"
proof -
  have "callback_chain demo_callbacks demo_world [VStr ''a'', VStr ''b'']"
    by (simp add: callback_of_def result_meta_def get_result_def demo_callbacks_def vitem_def ditem_def)
  from follow_callback_finds_last [OF this, of 9] show ?thesis by simp
qed

section \<open>Cleaning up after a task\<close>

context redis_service
begin

lemma delete_commit_frame:
  assumes "lock_delete_commit io lk s v fs dr = (r, lk', s')" "k \<noteq> lock_key lk"
    and "k \<noteq> fst (remember_reverse_key lk (opt_str v))"
  shows "view s' k = view s k"
proof -
  obtain r1 s1 where d: "io s [CDel (lock_key lk)] = (r1, s1)" by force
  from del_effect [OF d] assms(2) have v1: "view s1 k = view s k" by auto
  show ?thesis
  proof (cases "\<exists>rs. r1 = Inr rs \<and> deleted_some rs \<and> dr")
    case True
    then obtain lk2 where "delete_reverse io lk s1 (opt_str v) = (lk2, s')"
      using assms(1) d by (auto simp: lock_delete_commit_def split: prod.splits)
    from delete_reverse_frame [OF this assms(3)] v1 show ?thesis by simp
  next
    case False
    then have "s' = s1" using assms(1) d
      by (auto simp: lock_delete_commit_def split: sum.splits if_splits)
    with v1 show ?thesis by simp
  qed
qed

lemma delete_checked_frame:
  assumes "lock_delete io (TaskLock_init key None) s (Some tid) fs dr = (r, lk', s')"
    and "k \<noteq> get_reverse_key tid" "str_at (view s) k \<noteq> Some tid"
  shows "view s' k = view s k"
proof (cases "str_at (view s) key = Some tid")
  case False
  from delete_mismatch [OF this assms(1)] show ?thesis by auto
next
  case True
  with assms(3) have k: "k \<noteq> key" by auto
  obtain r1 s1 where g: "io s [CGet key] = (r1, s1)" by force
  have v1: "view s1 = view s"
    by (rule io_read_only [OF _ g]) (simp split: option.splits rval.splits)
  show ?thesis
  proof (cases r1)
    case (Inl e)
    then show ?thesis using assms(1) g v1 by (simp add: lock_delete_def)
  next
    case (Inr rs)
    have rs: "rs = [RStr (Some tid)]"
      using io_replies [OF g [unfolded Inr]] True
      by (auto simp: str_at_def split: option.splits rval.splits)
    have "lock_delete_commit io (TaskLock_init key None) s1 (Some tid) fs dr = (r, lk', s')"
      using assms(1) g Inr rs by (simp add: lock_delete_def)
    from delete_commit_frame [OF this, of k] k assms(2) v1 show ?thesis
      by (simp add: opt_str_def)
  qed
qed

lemma lookup_read_only:
  "get_lock_key_from_value io s v = (r, s') \<Longrightarrow> view s' = view s"
  by (rule io_read_only [of s "[CGet (get_reverse_key v)]" "fst (io s [CGet (get_reverse_key v)])"])
     (auto simp: get_lock_key_from_value_def split: prod.splits option.splits rval.splits)

lemma user_get_read_only:
  "UserTasks_get io loads s u tid = (r, s') \<Longrightarrow> view s' = view s"
  by (rule io_read_only [of s "[CHGet (UserTasks_key u) tid]" "fst (io s [CHGet (UserTasks_key u) tid])"])
     (auto simp: UserTasks_get_def one_reply_def split: prod.splits)

lemma release_own_frame:
  assumes "c_redis env = io" "release_own_lock env tid s = (r, s')"
    and "k \<noteq> get_reverse_key tid" "str_at (view s) k \<noteq> Some tid"
  shows "view s' k = view s k"
proof -
  obtain r1 s1 where g: "get_lock_key_from_value io s tid = (r1, s1)" by force
  have v1: "view s1 = view s" by (rule lookup_read_only [OF g])
  show ?thesis
  proof (cases "\<exists>key. r1 = Inr (Some key) \<and> key \<noteq> []")
    case True
    then obtain key where key: "r1 = Inr (Some key)" "key \<noteq> []" by blast
    obtain r2 lk s2 where d: "lock_delete io (TaskLock_init key None) s1 (Some tid) True True = (r2, lk, s2)"
      by (metis prod.exhaust)
    have "s' = s2" using assms(1,2) g key d by (simp add: release_own_lock_def)
    with delete_checked_frame [OF d, of k] assms(3,4) v1 show ?thesis by simp
  next
    case False
    then have "s' = s1" using assms(1,2) g
      by (auto simp: release_own_lock_def split: sum.splits option.splits if_splits)
    with v1 show ?thesis by simp
  qed
qed

lemma log_msg_frame:
  assumes "c_redis env = io" "\<And>w. view (snd (c_uuid env w)) = view w"
    and "log_task_msg env tid status cleanup detail s = (r, s')"
    and "k \<noteq> get_reverse_key tid" "str_at (view s) k \<noteq> Some tid"
  shows "view s' k = view s k"
proof (cases "snd (user_owner_ids_from_task_id tid) = Some (IdStr TASK_USER)")
  case True
  then show ?thesis using assms(3) by (simp add: log_task_msg_def)
next
  case False
  obtain r1 s1 where l: "(if cleanup then release_own_lock env tid s else (Inr (), s)) = (r1, s1)" by force
  have v1: "view s1 k = view s k"
    using l release_own_frame [OF assms(1) _ assms(4,5)] by (cases cleanup) auto
  obtain r2 s2 where u: "UserTasks_get io (c_loads env) s1 (snd (user_owner_ids_from_task_id tid)) tid = (r2, s2)"
    by force
  have v2: "view s2 = view s1" by (rule user_get_read_only [OF u])
  have "view s' = view s1 \<or> view s' = view s2"
    using assms(1,2,3) False l u
    by (auto simp: log_task_msg_def new_task_id_def Let_def split_def split: sum.splits option.splits pyval.splits prod.splits)
  with v1 v2 show ?thesis by auto
qed

end

text \<open>
  Cleaning up after a revoked task removes only what belongs to that task: on any service,
  connection errors included, \<open>log_task_callback\<close> (up to the sending of the log task) leaves every
  key alone that neither holds the ID of the task nor is its reverse key, and for a task of the
  internal user it does nothing at all.
\<close>

theorem log_task_cleanup_own_keys_only:
  assumes "redis_service (c_redis env) view" "\<And>w. view (snd (c_uuid env w)) = view w"
    and "log_task_msg env tid status cleanup detail w = (r, w')"
    and "k \<noteq> get_reverse_key tid" "str_at (view w) k \<noteq> Some tid"
  shows "view w' k = view w k
    \<and> (owner_id_from_task_id tid = Some (IdStr TASK_USER) \<longrightarrow> w' = w \<and> r = Inr None)"
  using redis_service.log_msg_frame [OF assms(1) refl assms(2-5)] assms(3)
  by (auto simp: log_task_msg_def user_owner_ids_from_task_id_def owner_id_from_task_id_def)

theorem log_task_cleanup_own_keys_only_witness:
  "w_store (snd (log_task_msg sim_que ''1e2d1-a'' REVOKED True ''revoked''
      (demo_world\<lparr>w_store := demo_locked ''b'' None\<rparr>))) demo_key = Some (RString ''b'', None)"
proof -
  let ?w = "demo_world\<lparr>w_store := demo_locked ''b'' None\<rparr>"
  let ?r = "log_task_msg sim_que ''1e2d1-a'' REVOKED True ''revoked'' ?w"
  have "redis_service (c_redis sim_que) w_store"
    using world.redis_service_axioms by (simp add: sim_que_def)
  moreover have "\<And>w. w_store (snd (c_uuid sim_que w)) = w_store w" by (simp add: sim_que_def)
  moreover have "?r = (fst ?r, snd ?r)" by simp
  moreover have "demo_key \<noteq> get_reverse_key ''1e2d1-a''" by simp
  moreover have "str_at (w_store ?w) demo_key \<noteq> Some ''1e2d1-a''"
    by (simp add: str_at_def demo_locked_def)
  ultimately have "w_store (snd ?r) demo_key = w_store ?w demo_key"
    by (rule log_task_cleanup_own_keys_only [THEN conjunct1])
  then show ?thesis by (simp add: demo_locked_def)
qed

end
