(* ===== verification/Que_Execute.thy ===== *)
theory Que_Execute
  imports Que_Control
begin

text \<open>
  \<^verbatim>\<open>que/tasks.py\<close> and \<^verbatim>\<open>que/mgmt.py\<close>: running a task under its lock, building the
  result of an executed command, submitting tasks to compute nodes and to the management queue;
  and the startup handlers of the workers in \<^verbatim>\<open>que/handlers.py\<close>. The command itself, the
  compression and the encoding of its output are parameters.
\<close>

section \<open>Running a task under its lock\<close>

definition task_lock_for :: "string option \<Rightarrow> string \<Rightarrow> any_lock" where
  "task_lock_for lock tid = (case lock of
      Some k \<Rightarrow> (if k \<noteq> [] then Lock (TaskLock_init k (Some tid)) else NoLock)
    | None \<Rightarrow> NoLock)"

definition wait_registered :: "'w celery \<Rightarrow> bool \<Rightarrow> string \<Rightarrow> 'w \<Rightarrow> unit res \<times> 'w" where
  "wait_registered env check_user_tasks tid w =
     (if check_user_tasks then UserTasks_check (c_redis env) (\<lambda>n. c_sleep env (500 * n)) tid w
      else (Inr (), w))"

definition is_blocked :: "'w celery \<Rightarrow> string option \<Rightarrow> 'w \<Rightarrow> bool res \<times> 'w" where
  "is_blocked env block w = (case block of
      Some b \<Rightarrow> (if b \<noteq> [] then one_reply reply_bool (c_redis env w [CExists b]) else (Inr False, w))
    | None \<Rightarrow> (Inr False, w))"

text \<open>The \<open>try\<close> block of \<open>MetaTask.__call__\<close>: the outcome and the flag \<open>blocked\<close>.\<close>

definition MetaTask_body ::
  "'w celery \<Rightarrow> any_lock \<Rightarrow> string option \<Rightarrow> bool \<Rightarrow> string \<Rightarrow> ('w \<Rightarrow> 'r res \<times> 'w) \<Rightarrow> 'w \<Rightarrow>
   ('r res \<times> bool) \<times> 'w" where
  "MetaTask_body env task_lock block check_user_tasks tid run w =
     (case wait_registered env check_user_tasks tid w of
        (Inl e, w1) \<Rightarrow> ((Inl e, False), w1)
      | (Inr _, w1) \<Rightarrow>
          (case any_task_check (c_redis env) task_lock w1 of
             (Inl e, w2) \<Rightarrow> ((Inl e, False), w2)
           | (Inr _, w2) \<Rightarrow>
               (case is_blocked env block w2 of
                  (Inl e, w3) \<Rightarrow> ((Inl e, False), w3)
                | (Inr True, w3) \<Rightarrow> ((Inl (Exn TaskRetry []), True), w3)
                | (Inr False, w3) \<Rightarrow> (let (r, w4) = run w3 in ((r, False), w4)))))"

definition finally_delete :: "'w celery \<Rightarrow> any_lock \<Rightarrow> 'r res \<Rightarrow> 'w \<Rightarrow> 'r res \<times> 'w" where
  "finally_delete env task_lock r w =
     (case any_delete (c_redis env) task_lock w of
        (Inl e, w1) \<Rightarrow> (Inl e, w1)
      | (Inr _, w1) \<Rightarrow> (r, w1))"

definition MetaTask_call ::
  "'w celery \<Rightarrow> string option \<Rightarrow> string option \<Rightarrow> bool \<Rightarrow> string \<Rightarrow> ('w \<Rightarrow> 'r res \<times> 'w) \<Rightarrow> 'w \<Rightarrow> 'r res \<times> 'w" where
  "MetaTask_call env lock block check_user_tasks tid run w =
     (let task_lock = task_lock_for lock tid;
          ((r, blocked), w1) = MetaTask_body env task_lock block check_user_tasks tid run w
      in if blocked then (r, w1) else finally_delete env task_lock r w1)"

text \<open>
  The emergency log task of \<open>after_return\<close>. When the result has no \<open>meta\<close> of its own it shares
  the dictionary of the keyword arguments, so that the status and the cleanup flag written
  afterwards show up in it as well.
\<close>

definition emergency_result :: "pyval res \<Rightarrow> pyval option \<Rightarrow> string \<Rightarrow> pydict" where
  "emergency_result retval einfo retval_text = (case retval of
      Inr (VDict d) \<Rightarrow> d
    | _ \<Rightarrow> [(''detail'', (case einfo of Some x \<Rightarrow> x | None \<Rightarrow> VStr retval_text))])"

definition after_return_msg ::
  "pyval res \<Rightarrow> pyval option \<Rightarrow> string \<Rightarrow> string \<Rightarrow> string \<Rightarrow> string \<Rightarrow> pydict \<Rightarrow> task_msg res" where
  "after_return_msg retval einfo retval_text status task_id new_id meta =
     (let result = emergency_result retval einfo retval_text;
          closed = (\<lambda>m. AList.update ''cleanup'' (VBool True) (AList.update ''task_status'' (VStr status) m));
          msg = (\<lambda>res kw. \<lparr>m_task = LOGTASK, m_args = [VDict res, VStr task_id], m_kwargs = kw,
                   m_queue = Some Q_MGMT, m_expires = None, m_id = Some new_id\<rparr>)
      in case map_of result ''meta'' of
           None \<Rightarrow> (let m = closed (AList.update ''cb_name'' (VStr LOGTASK) meta)
                   in Inr (msg (AList.update ''meta'' (VDict m) result) m))
         | Some (VDict rm) \<Rightarrow>
             Inr (msg (AList.update ''meta'' (VDict (AList.update ''cb_name'' (VStr LOGTASK) rm)) result) (closed meta))
         | Some _ \<Rightarrow> Inl (Exn TypeError ''item assignment''))"

definition MetaTask_after_return ::
  "nat \<Rightarrow> 'w celery \<Rightarrow> bool \<Rightarrow> pyval res \<Rightarrow> pyval option \<Rightarrow> string \<Rightarrow> string \<Rightarrow> string \<Rightarrow> pydict \<Rightarrow> 'w \<Rightarrow>
   (string option res \<times> 'w) option" where
  "MetaTask_after_return fuel env all_done retval einfo retval_text status task_id meta w =
     (if truthy (dget meta ''nolog'' (VBool False)) \<or> all_done then Some (Inr None, w)
      else
        (case new_task_id env task_id w of
           (Inl e, w1) \<Rightarrow> Some (Inl e, w1)
         | (Inr t, w1) \<Rightarrow>
             (case after_return_msg retval einfo retval_text status task_id t meta of
                Inl e \<Rightarrow> Some (Inl e, w1)
              | Inr msg \<Rightarrow> map_option (\<lambda>(r, w2). (rbind r (\<lambda>x. Inr (Some x)), w2))
                            (send_task_forever fuel env msg 3000 w1))))"

section \<open>The result of an executed command\<close>

text \<open>The pairs of a \<open>replace_\<close> entry, applied one after the other.\<close>

fun replace_all :: "pyval list \<Rightarrow> string \<Rightarrow> string res" where
  "replace_all [] s = Inr s"
| "replace_all (VList (VStr a # VStr b # _) # ps) s = replace_all ps (replace_str s a b)"
| "replace_all (_ # ps) s = Inl (Exn TypeError ''replace'')"

definition replace_entry :: "pydict \<Rightarrow> string \<Rightarrow> string \<Rightarrow> string res" where
  "replace_entry meta k s = (case map_of meta k of
      None \<Rightarrow> Inr s | Some (VList ps) \<Rightarrow> replace_all ps s | Some _ \<Rightarrow> Inl (Exn TypeError ''not iterable''))"

definition code_entry :: "(string \<Rightarrow> string) \<Rightarrow> pydict \<Rightarrow> string \<Rightarrow> string \<Rightarrow> string" where
  "code_entry f meta k s = (if dhas meta k then f s else s)"

definition OUTPUT_KEYS :: "string list" where
  "OUTPUT_KEYS = [''replace_text'', ''replace_stdout'', ''replace_stderr'', ''compress_stdout'',
     ''compress_stderr'', ''encode_stdout'', ''encode_stderr'']"

text \<open>
  The treatment of the output that \<open>meta\<close> asks for, in the order of the source; the entries that
  asked for it are removed.
\<close>

definition treat_output ::
  "(string \<Rightarrow> string) \<Rightarrow> (string \<Rightarrow> string) \<Rightarrow> pydict \<Rightarrow> string \<Rightarrow> string \<Rightarrow> (string \<times> string \<times> pydict) res" where
  "treat_output compress b64encode meta stdout stderr =
     rbind (rbind (replace_entry meta ''replace_text'' stdout) (replace_entry meta ''replace_stdout'')) (\<lambda>out1.
     rbind (rbind (replace_entry meta ''replace_text'' stderr) (replace_entry meta ''replace_stderr'')) (\<lambda>err1.
       Inr (code_entry b64encode meta ''encode_stdout'' (code_entry compress meta ''compress_stdout'' out1),
            code_entry b64encode meta ''encode_stderr'' (code_entry compress meta ''compress_stderr'' err1),
            foldr AList.delete OUTPUT_KEYS meta)))"

text \<open>One of the entries \<open>stdout\<close>, \<open>stderr\<close>, \<open>returncode\<close> of an \<open>output\<close> dictionary names the key (a string)
  of the value.\<close>

definition rename_output :: "string \<Rightarrow> pyval \<Rightarrow> pydict \<Rightarrow> pydict" where
  "rename_output k v d = (let d1 = AList.delete k d in case dget d k VNone of
      VStr n \<Rightarrow> (if n \<noteq> [] then AList.update n v d1 else d1) | _ \<Rightarrow> d1)"

definition command_result :: "pydict \<Rightarrow> string \<Rightarrow> string \<Rightarrow> int \<Rightarrow> (pydict \<times> pydict) res" where
  "command_result meta stdout stderr returncode =
     (case map_of meta ''output'' of
        Some (VDict result) \<Rightarrow>
          (let meta1 = AList.delete ''output'' meta
           in Inr (rename_output ''returncode'' (VInt returncode)
                 (rename_output ''stderr'' (VStr (strip stderr))
                   (rename_output ''stdout'' (VStr (strip stdout))
                     (AList.update ''meta'' (VDict meta1) result))), meta1))
      | Some _ \<Rightarrow> Inl (Exn TypeError ''item assignment'')
      | None \<Rightarrow> Inr ([(''returncode'', VInt returncode), (''stdout'', VStr stdout), (''stderr'', VStr stderr),
                 (''meta'', VDict meta)], meta))"

text \<open>The \<open>callback\<close> argument: absent, switched off, or a name with optional arguments and expiration.\<close>

datatype callback_arg = CbDefault | CbOff | CbTask string "pydict option" "nat option"

definition callback_msg :: "callback_arg \<Rightarrow> pydict \<Rightarrow> pydict \<Rightarrow> string \<Rightarrow> string \<Rightarrow> task_msg option" where
  "callback_msg callback meta result tid new_id =
     (let msg = (\<lambda>name kw ex. Some \<lparr>m_task = name, m_args = [VDict result, VStr tid], m_kwargs = kw,
                  m_queue = Some Q_MGMT, m_expires = ex, m_id = Some new_id\<rparr>)
      in case callback of
           CbDefault \<Rightarrow> msg LOGTASK meta None
         | CbOff \<Rightarrow> None
         | CbTask name kw ex \<Rightarrow> msg name (case kw of None \<Rightarrow> [] | Some d \<Rightarrow> d) ex)"

definition set_meta :: "string \<Rightarrow> pyval \<Rightarrow> pydict \<Rightarrow> pydict res" where
  "set_meta k v result = (case map_of result ''meta'' of
      Some (VDict m) \<Rightarrow> Inr (AList.update ''meta'' (VDict (AList.update k v m)) result)
    | Some _ \<Rightarrow> Inl (Exn TypeError ''item assignment'')
    | None \<Rightarrow> Inl (Exn KeyError ''meta''))"

text \<open>
  \<open>_execute\<close> after the command has returned: \<open>proc\<close> is the outcome of the process (an exception
  when it was terminated) with the times of its start and end.
\<close>

definition execute_task ::
  "nat \<Rightarrow> 'w celery \<Rightarrow> (string \<Rightarrow> string) \<Rightarrow> (string \<Rightarrow> string) \<Rightarrow> string \<Rightarrow>
   ('w \<Rightarrow> (string \<times> string \<times> int \<times> string \<times> string) res \<times> 'w) \<Rightarrow> pydict option \<Rightarrow> callback_arg \<Rightarrow> 'w \<Rightarrow>
   (pydict res \<times> 'w) option" where
  "execute_task fuel env compress b64encode tid proc meta callback w =
     (case proc w of
        (Inl e, w1) \<Rightarrow> Some (Inl e, w1)
      | (Inr (stdout, stderr, returncode, exec_time, finish_time), w1) \<Rightarrow>
          (case treat_output compress b64encode (case meta of None \<Rightarrow> [] | Some m \<Rightarrow> m) stdout stderr of
             Inl e \<Rightarrow> Some (Inl e, w1)
           | Inr (out, err, meta0) \<Rightarrow>
               (case command_result (AList.update ''finish_time'' (VStr finish_time)
                        (AList.update ''exec_time'' (VStr exec_time) meta0)) out err returncode of
                  Inl e \<Rightarrow> Some (Inl e, w1)
                | Inr (result, meta2) \<Rightarrow>
                  (if callback = CbOff then Some (Inr result, w1)
                   else
                     (case new_task_id env tid w1 of
                        (Inl e, w2) \<Rightarrow> Some (Inl e, w2)
                      | (Inr new_id, w2) \<Rightarrow>
                          (case callback_msg callback meta2 result tid new_id of
                             None \<Rightarrow> Some (Inr result, w2)
                           | Some msg \<Rightarrow>
                               map_option (\<lambda>(r, w3).
                                   (rbind r (\<lambda>t. rbind (set_meta ''cb_name'' (VStr (m_task msg)) result)
                                                   (set_meta ''callback'' (VStr t))), w3))
                                 (send_task_forever fuel env msg 3000 w2)))))))"

section \<open>Submitting a task to a compute node\<close>

definition EXECUTE_TASK :: string where "EXECUTE_TASK = ''que.tasks.execute''"

definition opt_val :: "string option \<Rightarrow> pyval" where
  "opt_val x = (case x of None \<Rightarrow> VNone | Some s \<Rightarrow> VStr s)"

definition callback_val :: "callback_arg \<Rightarrow> pyval" where
  "callback_val cb = (case cb of CbDefault \<Rightarrow> VNone | CbOff \<Rightarrow> VBool False
     | CbTask name kw ex \<Rightarrow> VList (VStr name #
         (case kw of None \<Rightarrow> [] | Some d \<Rightarrow> VDict d #
           (case ex of None \<Rightarrow> [] | Some n \<Rightarrow> [VInt (int n)]))))"

text \<open>
  The \<open>try\<close> block of \<open>execute\<close> and \<open>MgmtTask.call\<close> after the lock key is known: acquire the lock,
  send the task, and give the lock back when the sending fails. The outcome is \<open>Inr False\<close> when
  the lock was refused.
\<close>

definition submit_locked ::
  "'w celery \<Rightarrow> string option \<Rightarrow> nat option \<Rightarrow> string \<Rightarrow> task_msg \<Rightarrow> 'w \<Rightarrow> bool res \<times> 'w" where
  "submit_locked env key timeout tid msg w =
     (case key of
        None \<Rightarrow> (let (r, w1) = c_send env msg w in (rbind r (\<lambda>_. Inr True), w1))
      | Some k \<Rightarrow>
          (case lock_acquire (c_redis env) (TaskLock_init k None) w tid timeout True of
             (Inl e, _, w1) \<Rightarrow> (Inl e, w1)
           | (Inr False, _, w1) \<Rightarrow> (Inr False, w1)
           | (Inr True, lk, w1) \<Rightarrow>
               (case c_send env msg w1 of
                  (Inr _, w2) \<Rightarrow> (Inr True, w2)
                | (Inl e, w2) \<Rightarrow>
                    (let (_, _, w3) = lock_delete (c_redis env) lk w2 None True True in (Inl e, w3)))))"

fun ping_queues :: "'w celery \<Rightarrow> string list \<Rightarrow> 'w \<Rightarrow> string option \<times> 'w" where
  "ping_queues env [] w = (None, w)"
| "ping_queues env (q # qs) w =
     (case ping env q 2 w of
        ([], w1) \<Rightarrow> (Some (''Task queue worker ('' @ join_with '', '' (queue_to_hostnames q) @ '') is not responding!''), w1)
      | (_ # _, w1) \<Rightarrow> ping_queues env qs w1)"

record exec_args =
  x_cmd :: string
  x_stdin :: "string option"
  x_meta :: "pydict option"
  x_callback :: callback_arg
  x_lock :: "string option"
  x_lock_timeout :: "nat option"
  x_queue :: "string option"
  x_expires :: "nat option"
  x_tt :: string
  x_tg :: string
  x_nolog :: bool
  x_ping_worker :: bool
  x_check_user_tasks :: bool
  x_block_key :: "string option"

definition nonempty :: "string option \<Rightarrow> bool" where
  "nonempty x = (case x of None \<Rightarrow> False | Some s \<Rightarrow> s \<noteq> [])"

definition exec_queues :: "exec_args \<Rightarrow> string list" where
  "exec_queues a = (case x_queue a of
      Some q \<Rightarrow> (if x_ping_worker a \<and> q \<noteq> []
                then (if x_callback a \<noteq> CbOff \<and> q \<noteq> Q_MGMT then [q, Q_MGMT] else [q]) else [])
    | None \<Rightarrow> [])"

definition exec_lock_key :: "exec_args \<Rightarrow> string option" where
  "exec_lock_key a = (case x_lock a of
      Some l \<Rightarrow> (if l \<noteq> [] then Some (KEY_PREFIX @ l) else None) | None \<Rightarrow> None)"

definition exec_msg :: "exec_args \<Rightarrow> string \<Rightarrow> task_msg" where
  "exec_msg a tid =
     \<lparr>m_task = EXECUTE_TASK, m_args = [VStr (x_cmd a), opt_val (x_stdin a)],
      m_kwargs = [(''meta'', VDict (AList.update ''nolog'' (VBool (x_nolog a))
                     (case x_meta a of None \<Rightarrow> [] | Some m \<Rightarrow> m))),
                  (''callback'', callback_val (x_callback a)),
                  (''lock'', opt_val (if nonempty (x_lock a) then exec_lock_key a else x_lock a)),
                  (''block'', opt_val (x_block_key a)),
                  (''check_user_tasks'', VBool (x_check_user_tasks a))],
      m_queue = x_queue a, m_expires = x_expires a, m_id = Some tid\<rparr>"

definition execute ::
  "'w celery \<Rightarrow> task_request \<Rightarrow> prefix_item \<Rightarrow> exec_args \<Rightarrow> 'w \<Rightarrow> (string option \<times> string option) res \<times> 'w" where
  "execute env request owner_id a w =
     (let (uuid, w0) = c_uuid env w
      in case task_id_from_request (c_md5 env) uuid request owner_id False (x_tt a) (x_tg a) DEFAULT_DC of
           Inl e \<Rightarrow> (Inl e, w0)
         | Inr tid \<Rightarrow>
             (case ping_queues env (exec_queues a) w0 of
                (Some err, w1) \<Rightarrow> (Inr (None, Some err), w1)
              | (None, w1) \<Rightarrow>
                  (case submit_locked env (exec_lock_key a)
                          (case x_lock_timeout a of None \<Rightarrow> x_expires a | t \<Rightarrow> t) tid (exec_msg a tid) w1 of
                     (Inl e, w2) \<Rightarrow> (Inr (None, Some (exn_msg e)), w2)
                   | (Inr False, w2) \<Rightarrow> (Inr (Some tid, Some ''Task did not acquire lock''), w2)
                   | (Inr True, w2) \<Rightarrow> (Inr (Some tid, None), w2))))"

definition SYSINFO_TASK :: string where "SYSINFO_TASK = ''api.node.sysinfo.tasks.node_sysinfo_cb''"

definition execute_sysinfo ::
  "'w celery \<Rightarrow> task_request \<Rightarrow> prefix_item \<Rightarrow> string \<Rightarrow> string \<Rightarrow> pydict option \<Rightarrow> bool \<Rightarrow> bool \<Rightarrow> 'w \<Rightarrow>
   (string option \<times> string option) res \<times> 'w" where
  "execute_sysinfo env request owner_id queue node_uuid meta check_user_tasks initial w =
     execute env request owner_id
       \<lparr>x_cmd = (if initial then ''esysinfo init 2> /dev/null'' else ''esysinfo 2> /dev/null''),
        x_stdin = None, x_meta = meta,
        x_callback = CbTask SYSINFO_TASK (Some [(''node_uuid'', VStr node_uuid)]) None,
        x_lock = Some (''node_sysinfo node_queue:'' @ queue), x_lock_timeout = None, x_queue = Some queue,
        x_expires = Some EXPIRES, x_tt = TT_EXEC, x_tg = TG_DC_UNBOUND, x_nolog = False,
        x_ping_worker = False, x_check_user_tasks = check_user_tasks, x_block_key = None\<rparr> w"

section \<open>Tasks of the management queue\<close>

text \<open>\<open>MgmtCallbackTask.__call__\<close>: an operational error of the run becomes a retry.\<close>

definition MgmtCallbackTask_call :: "(pyexn \<Rightarrow> bool) \<Rightarrow> ('w \<Rightarrow> 'r res \<times> 'w) \<Rightarrow> 'w \<Rightarrow> 'r res \<times> 'w" where
  "MgmtCallbackTask_call operational run w =
     (case run w of
        (Inl e, w1) \<Rightarrow> (Inl (if operational e then Exn TaskRetry (exn_msg e) else e), w1)
      | (Inr r, w1) \<Rightarrow> (Inr r, w1))"

definition MgmtTask_call ::
  "'w celery \<Rightarrow> string option \<Rightarrow> bool \<Rightarrow> string \<Rightarrow> ('w \<Rightarrow> 'r res \<times> 'w) \<Rightarrow> 'w \<Rightarrow> 'r res \<times> 'w" where
  "MgmtTask_call env tidlock check_user_tasks tid run w =
     (let task_lock = task_lock_for tidlock tid;
          (r, w1) = (case wait_registered env check_user_tasks tid w of
             (Inl e, w1) \<Rightarrow> (Inl e, w1)
           | (Inr _, w1) \<Rightarrow>
               (case any_task_check (c_redis env) task_lock w1 of
                  (Inl e, w2) \<Rightarrow> (Inl e, w2)
                | (Inr _, w2) \<Rightarrow> run w2))
      in finally_delete env task_lock r w1)"

definition SUCCESS :: string where "SUCCESS = ''SUCCESS''"

definition MgmtTask_after_return ::
  "'w celery \<Rightarrow> string \<Rightarrow> pyval \<Rightarrow> string option \<Rightarrow> nat option \<Rightarrow> 'w \<Rightarrow> unit res \<times> 'w" where
  "MgmtTask_after_return env status retval cache_result cache_timeout w =
     (case cache_result of
        Some k \<Rightarrow>
          (if k \<noteq> [] \<and> status = SUCCESS
           then (let (r, w1) = redis_set (c_redis env) w k (c_dumps env retval) cache_timeout False
                 in (rbind r (\<lambda>_. Inr ()), w1))
           else (Inr (), w))
      | None \<Rightarrow> (Inr (), w))"

definition tidlock_key :: "string \<Rightarrow> string" where
  "tidlock_key x = KEY_PREFIX @ x @ '':lock''"

definition cache_key :: "string \<Rightarrow> string" where
  "cache_key x = KEY_PREFIX @ x @ '':cache''"

definition cached_result :: "'w celery \<Rightarrow> string option \<Rightarrow> 'w \<Rightarrow> pyval option res \<times> 'w" where
  "cached_result env cache_result w =
     (if nonempty cache_result
      then (case one_reply reply_str (c_redis env w [CGet (cache_key (the cache_result))]) of
              (Inl e, w1) \<Rightarrow> (Inl e, w1)
            | (Inr None, w1) \<Rightarrow> (Inr None, w1)
            | (Inr (Some x), w1) \<Rightarrow>
                (case c_loads env x of
                   Inr v \<Rightarrow> (Inr (Some v), w1)
                 | Inl e \<Rightarrow> (if exn_class e = OtherError ''UnpicklingError'' then (Inr None, w1)
                            else (Inl e, w1))))
      else (Inr None, w))"

record mgmt_args =
  g_task :: string
  g_args :: "pyval list"
  g_kwargs :: pydict
  g_meta :: pydict
  g_tidlock :: "string option"
  g_tidlock_timeout :: "nat option"
  g_cache_result :: "string option"
  g_cache_timeout :: "nat option"
  g_expires :: "nat option"
  g_nolog :: bool
  g_ping_worker :: bool
  g_check_user_tasks :: bool

definition mgmt_msg :: "mgmt_args \<Rightarrow> string \<Rightarrow> task_msg" where
  "mgmt_msg a tid =
     \<lparr>m_task = g_task a, m_args = g_args a,
      m_kwargs = dupdate (g_kwargs a)
        [(''meta'', VDict (g_meta a)),
         (''tidlock'', opt_val (if nonempty (g_tidlock a) then map_option tidlock_key (g_tidlock a) else g_tidlock a)),
         (''cache_result'', opt_val (if nonempty (g_cache_result a) then map_option cache_key (g_cache_result a)
                                   else g_cache_result a)),
         (''cache_timeout'', (case g_cache_timeout a of None \<Rightarrow> VNone | Some n \<Rightarrow> VInt (int n))),
         (''nolog'', VBool (g_nolog a)), (''check_user_tasks'', VBool (g_check_user_tasks a))],
      m_queue = Some Q_MGMT, m_expires = g_expires a, m_id = Some tid\<rparr>"

text \<open>
  The locked part of \<open>call\<close>: a pending task with the same lock is returned instead of a new one.
  Every exception ends up in the error component of the answer.
\<close>

definition mgmt_submit ::
  "'w celery \<Rightarrow> mgmt_args \<Rightarrow> string \<Rightarrow> 'w \<Rightarrow> (string option \<times> string option \<times> pyval option) \<times> 'w" where
  "mgmt_submit env a tid w =
     (let key = (if nonempty (g_tidlock a) then map_option tidlock_key (g_tidlock a) else None);
          timeout = (case g_tidlock_timeout a of None \<Rightarrow> g_expires a | t \<Rightarrow> t);
          submit = (\<lambda>v. case submit_locked env key timeout tid (mgmt_msg a tid) v of
              (Inl e, v1) \<Rightarrow> ((None, Some (exn_msg e), None), v1)
            | (Inr False, v1) \<Rightarrow> ((None, Some ''MgmtTask did not acquire lock'', None), v1)
            | (Inr True, v1) \<Rightarrow> ((Some tid, None, None), v1))
      in case key of
           None \<Rightarrow> submit w
         | Some k \<Rightarrow>
             (case lock_get (c_redis env) (TaskLock_init k None) w of
                (Inl e, w1) \<Rightarrow> ((None, Some (exn_msg e), None), w1)
              | (Inr x, w1) \<Rightarrow> (if nonempty x then ((x, None, None), w1) else submit w1)))"

definition mgmt_call ::
  "'w celery \<Rightarrow> task_request \<Rightarrow> prefix_item \<Rightarrow> string \<Rightarrow> string \<Rightarrow> mgmt_args \<Rightarrow> 'w \<Rightarrow>
   (string option \<times> string option \<times> pyval option) res \<times> 'w" where
  "mgmt_call env request owner_id tt tg a w =
     (let (uuid, w0) = c_uuid env w
      in case task_id_from_request (c_md5 env) uuid request owner_id False tt tg DEFAULT_DC of
           Inl e \<Rightarrow> (Inl e, w0)
         | Inr tid \<Rightarrow>
             (case cached_result env (g_cache_result a) w0 of
                (Inl e, w1) \<Rightarrow> (Inl e, w1)
              | (Inr (Some v), w1) \<Rightarrow> (Inr (None, None, Some v), w1)
              | (Inr None, w1) \<Rightarrow>
                  (case (if g_ping_worker a then ping_queues env [Q_MGMT] w1 else (None, w1)) of
                     (Some err, w2) \<Rightarrow> (Inr (None, Some err, None), w2)
                   | (None, w2) \<Rightarrow> (let (r, w3) = mgmt_submit env a tid w2 in (Inr r, w3)))))"

definition clear_cache :: "'w celery \<Rightarrow> string \<Rightarrow> 'w \<Rightarrow> bool res \<times> 'w" where
  "clear_cache env cache_result_key w =
     one_reply reply_bool (c_redis env w [CDel (cache_key cache_result_key)])"

section \<open>Startup handlers of the workers\<close>

definition STATUS_CHECK_TASK :: string where
  "STATUS_CHECK_TASK = ''api.node.status.tasks.node_worker_status_check_all''"

definition MGMT_STARTUP_TASK :: string where
  "MGMT_STARTUP_TASK = ''api.system.tasks.mgmt_worker_startup''"

text \<open>\<open>fetch_node_uuid\<close> runs a system command and is a parameter; its failure ends the handler.\<close>

definition node_worker_start :: "'w celery \<Rightarrow> ('w \<Rightarrow> string res \<times> 'w) \<Rightarrow> string \<Rightarrow> 'w \<Rightarrow> unit res \<times> 'w" where
  "node_worker_start env fetch_node_uuid sender w =
     (case split_on (CHR ''@'') sender of
        first # rest \<Rightarrow>
          (if startswith first Q_FAST
           then (case rest of
                   [] \<Rightarrow> (Inl (Exn IndexError ''list index out of range''), w)
                 | host # _ \<Rightarrow>
                     (case fetch_node_uuid w of
                        (Inl e, w1) \<Rightarrow> (if exn_class e = NodeError then (Inr (), w1) else (Inl e, w1))
                      | (Inr uuid, w1) \<Rightarrow>
                          (let (r, w2) = execute_sysinfo env (PlainUser (IdStr TASK_USER)) (Some (IdStr TASK_USER))
                                           (Q_FAST @ ''.'' @ host) uuid None False True w1
                           in (rbind r (\<lambda>_. Inr ()), w2))))
           else (Inr (), w))
      | [] \<Rightarrow> (Inr (), w))"

definition send_internal :: "'w celery \<Rightarrow> string \<Rightarrow> 'w \<Rightarrow> unit res \<times> 'w" where
  "send_internal env task w =
     (let (uuid, w1) = c_uuid env w
      in case generate_internal_task_id (c_md5 env) uuid of
           Inl e \<Rightarrow> (Inl e, w1)
         | Inr tid \<Rightarrow>
             (let (r, w2) = c_send env \<lparr>m_task = task, m_args = [VStr tid], m_kwargs = [], m_queue = Some Q_MGMT,
                              m_expires = None, m_id = Some tid\<rparr> w1
              in (rbind r (\<lambda>_. Inr ()), w2)))"

definition mgmt_worker_start :: "'w celery \<Rightarrow> 'w \<Rightarrow> unit res \<times> 'w" where
  "mgmt_worker_start env w =
     (case send_internal env MGMT_STARTUP_TASK w of
        (Inl e, w1) \<Rightarrow> (Inl e, w1)
      | (Inr _, w1) \<Rightarrow> send_internal env STATUS_CHECK_TASK w1)"

definition worker_start :: "'w celery \<Rightarrow> ('w \<Rightarrow> string res \<times> 'w) \<Rightarrow> string \<Rightarrow> 'w \<Rightarrow> unit res \<times> 'w" where
  "worker_start env fetch_node_uuid worker_hostname w =
     (if startswith worker_hostname (Q_MGMT @ ''@'') then mgmt_worker_start env w
      else node_worker_start env fetch_node_uuid worker_hostname w)"

section \<open>The lock around a task\<close>

context redis_service
begin

lemma up_exists:
  assumes "always_up io"
  obtains s' where "io s [CExists k] = (Inr [RBool (view s k \<noteq> None)], s')" "view s' = view s"
  using up_call [OF assms, of s "[CExists k]"] by auto

lemma up_persist:
  assumes "always_up io"
  obtains b s' where "io s [CPersist k] = (Inr [RBool b], s')"
    "view s' = (view s)(k := map_option (\<lambda>x. (fst x, None)) (view s k))"
proof -
  obtain s' where io: "io s [CPersist k] = (Inr (fst (redis_run (view s) [CPersist k])), s')"
    and v: "view s' = snd (redis_run (view s) [CPersist k])"
    using up_call [OF assms] .
  have "\<exists>b. fst (redis_run (view s) [CPersist k]) = [RBool b]"
    by (auto split: option.splits)
  then obtain b where "fst (redis_run (view s) [CPersist k]) = [RBool b]" by blast
  moreover have "snd (redis_run (view s) [CPersist k]) = (view s)(k := map_option (\<lambda>x. (fst x, None)) (view s k))"
    by (auto simp: fun_eq_iff split: option.splits)
  ultimately show thesis using that io v by simp
qed

lemma up_task_check:
  assumes "always_up io" "tid \<noteq> []" "get_reverse_key tid \<noteq> key" "view s key = Some x"
  obtains s' where "lock_task_check io (TaskLock_init key (Some tid)) s msg = (Inr (), s')"
    "view s' key = Some (fst x, None)" "\<And>k. view s' k = None \<longleftrightarrow> view s k = None"
proof -
  obtain s1 where s1: "io s [CExists key] = (Inr [RBool True], s1)" "view s1 = view s"
    using up_exists [OF assms(1), of s key] assms(4) by auto
  obtain b s2 where s2: "io s1 [CPersist key] = (Inr [RBool b], s2)"
    "view s2 = (view s)(key := Some (fst x, None))"
    using up_persist [OF assms(1), of s1 key] s1(2) assms(4) by auto
  obtain b' s3 where s3: "io s2 [CPersist (get_reverse_key tid)] = (Inr [RBool b'], s3)"
    "view s3 = (view s2)(get_reverse_key tid := map_option (\<lambda>x. (fst x, None)) (view s2 (get_reverse_key tid)))"
    using up_persist [OF assms(1)] .
  have "lock_task_check io (TaskLock_init key (Some tid)) s msg = (Inr (), s3)"
    using s1 s2 s3 assms(2) by (simp add: lock_task_check_def lock_exists_def first_bool_def)
  moreover have "view s3 key = Some (fst x, None)" using s2 s3 assms(3) by simp
  moreover have "view s3 k = None \<longleftrightarrow> view s k = None" for k using s2 s3 assms(4) by auto
  ultimately show thesis using that by blast
qed

lemma up_task_check_missing:
  assumes "always_up io" "view s key = None"
  shows "fst (lock_task_check io (TaskLock_init key rk) s msg) = Inl (Exn TaskLockError msg)"
proof -
  obtain s1 where "io s [CExists key] = (Inr [RBool False], s1)"
    using up_exists [OF assms(1), of s key] assms(2) by auto
  then show ?thesis by (simp add: lock_task_check_def lock_exists_def first_bool_def)
qed

lemma up_delete_any:
  assumes "always_up io" "reverse_key lk = Some rk" "rk \<noteq> lock_key lk"
  shows "\<exists>b s'. lock_delete io lk s None fs True = (Inr b, lk, s')
    \<and> view s' = (if view s (lock_key lk) = None then view s else (view s)(lock_key lk := None, rk := None))"
proof -
  let ?k = "lock_key lk"
  obtain s1 where s1: "io s [CGet ?k] = (Inr (fst (redis_run (view s) [CGet ?k])), s1)" "view s1 = view s"
    by (rule up_call [OF assms(1), of s "[CGet ?k]"])
       (auto split: option.splits rval.splits prod.splits)
  obtain s2 where s2: "io s1 [CDel ?k] = (Inr [RInt (if view s ?k = None then 0 else 1)], s2)"
    "view s2 = (view s)(?k := None)"
    using up_call [OF assms(1), of s1 "[CDel ?k]"] s1 by auto
  obtain s3 where s3: "io s2 [CDel rk] = (Inr [RInt (if view s2 rk = None then 0 else 1)], s3)"
    "view s3 = (view s2)(rk := None)"
    using up_call [OF assms(1), of s2 "[CDel rk]"] by auto
  have r: "remember_reverse_key lk x = (rk, lk)" for x
    using assms(2) by (simp add: remember_reverse_key_def)
  show ?thesis
  proof (cases "view s ?k")
    case None
    then have "lock_delete io lk s None fs True = (Inr False, lk, s2)"
      using s1 s2 by (simp add: lock_delete_def lock_delete_commit_def deleted_some_def)
    moreover have "view s2 = view s" using None s2 by (simp add: fun_upd_idem)
    ultimately show ?thesis using None by auto
  next
    case (Some x)
    then have "lock_delete io lk s None fs True = (Inr True, lk, s3)"
      using s1 s2 s3 r by (simp add: lock_delete_def lock_delete_commit_def deleted_some_def delete_reverse_def)
    then show ?thesis using Some s2 s3 by auto
  qed
qed

end

context redis_service
begin

lemma finally_delete_frees:
  assumes "c_redis env = io" "always_up io" "key \<noteq> []" "tid \<noteq> []" "get_reverse_key tid \<noteq> key"
  shows "fst (finally_delete env (task_lock_for (Some key) tid) r w) = r"
    and "view (snd (finally_delete env (task_lock_for (Some key) tid) r w)) key = None"
proof -
  let ?lk = "TaskLock_init key (Some tid)"
  obtain b s' where d: "lock_delete io ?lk w None False True = (Inr b, ?lk, s')"
    and v: "view s' key = None"
    using up_delete_any [OF assms(2), of ?lk "get_reverse_key tid" w False] assms(4,5)
    by (auto split: if_splits)
  show "fst (finally_delete env (task_lock_for (Some key) tid) r w) = r"
    and "view (snd (finally_delete env (task_lock_for (Some key) tid) r w)) key = None"
    using d v assms(1,3) by (simp_all add: finally_delete_def any_delete_def task_lock_for_def)
qed

lemma is_blocked_up:
  assumes "c_redis env = io" "always_up io"
  obtains w' where "is_blocked env block w = (Inr (nonempty block \<and> view w (the block) \<noteq> None), w')"
    "view w' = view w"
proof (cases "nonempty block")
  case True
  then obtain b where b: "block = Some b" "b \<noteq> []" by (auto simp: nonempty_def split: option.splits)
  obtain w' where "io w [CExists b] = (Inr [RBool (view w b \<noteq> None)], w')" "view w' = view w"
    using up_exists [OF assms(2)] .
  with b assms(1) that show thesis by (simp add: is_blocked_def one_reply_def reply_bool_def nonempty_def)
next
  case False
  with that [of w] show thesis by (auto simp: is_blocked_def nonempty_def split: option.splits)
qed

lemma meta_task_missing:
  assumes "c_redis env = io" "always_up io" "key \<noteq> []" "tid \<noteq> []" "get_reverse_key tid \<noteq> key" "view w key = None"
  shows "fst (MetaTask_call env (Some key) block False tid run w) =
    Inl (Exn TaskLockError ''Task did not acquire lock'')"
proof -
  have "fst (any_task_check io (task_lock_for (Some key) tid) w) =
      Inl (Exn TaskLockError ''Task did not acquire lock'')"
    using up_task_check_missing [OF assms(2,6)] assms(3) by (simp add: any_task_check_def task_lock_for_def)
  then show ?thesis
    using finally_delete_frees(1) [OF assms(1-5)] assms(1)
    by (cases "any_task_check io (task_lock_for (Some key) tid) w")
       (simp add: MetaTask_call_def MetaTask_body_def wait_registered_def)
qed

lemma meta_task_held:
  assumes "c_redis env = io" "always_up io" "key \<noteq> []" "tid \<noteq> []" "get_reverse_key tid \<noteq> key"
    and "view w key = Some x"
  obtains w1 where "view w1 key = Some (fst x, None)"
    "MetaTask_call env (Some key) block False tid run w =
       (if nonempty block \<and> view w (the block) \<noteq> None then (Inl (Exn TaskRetry []), w1)
        else finally_delete env (task_lock_for (Some key) tid) (fst (run w1)) (snd (run w1)))"
proof -
  obtain w2 where w2: "lock_task_check io (TaskLock_init key (Some tid)) w ''Task did not acquire lock'' = (Inr (), w2)"
    "view w2 key = Some (fst x, None)" "\<And>k. view w2 k = None \<longleftrightarrow> view w k = None"
    using up_task_check [OF assms(2,4,5,6), of "''Task did not acquire lock''"] by blast
  obtain w3 where w3: "is_blocked env block w2 = (Inr (nonempty block \<and> view w2 (the block) \<noteq> None), w3)"
    "view w3 = view w2"
    using is_blocked_up [OF assms(1,2)] .
  have body: "MetaTask_body env (task_lock_for (Some key) tid) block False tid run w =
      (if nonempty block \<and> view w (the block) \<noteq> None then ((Inl (Exn TaskRetry []), True), w3)
       else ((fst (run w3), False), snd (run w3)))"
  proof (cases "nonempty block \<and> view w (the block) \<noteq> None")
    case True
    with w3(1) w2(3) have "is_blocked env block w2 = (Inr True, w3)" by simp
    with w2 assms(1,3) True show ?thesis
      by (simp add: MetaTask_body_def wait_registered_def any_task_check_def task_lock_for_def)
  next
    case False
    with w3(1) w2(3) have "is_blocked env block w2 = (Inr False, w3)" by simp
    with w2 assms(1,3) False show ?thesis
      by (simp add: MetaTask_body_def wait_registered_def any_task_check_def task_lock_for_def split_def Let_def)
  qed
  show thesis
  proof (rule that [of w3])
    show "view w3 key = Some (fst x, None)" using w2 w3 by simp
  qed (simp add: MetaTask_call_def body split del: if_split split: if_splits, auto)
qed

end

text \<open>
  C21. A task runs only under its lock, and the lock is gone afterwards. With a lock key, a
  \<open>MetaTask\<close> whose lock does not exist fails with \<open>TaskLockError\<close> without running; one that is
  blocked is retried and keeps its lock, which no longer expires; in all other cases the body runs
  in a state where the lock exists without expiration, its outcome is the outcome of the call, and
  the lock has been deleted at the end, whatever its value is by then.
\<close>

theorem meta_task_lock_lifecycle:
  assumes "redis_service (c_redis env) view" "always_up (c_redis env)"
    and "key \<noteq> []" "tid \<noteq> []" "get_reverse_key tid \<noteq> key"
  shows "(view w key = None \<longrightarrow> fst (MetaTask_call env (Some key) block False tid run w) =
      Inl (Exn TaskLockError ''Task did not acquire lock''))
    \<and> (view w key \<noteq> None \<and> nonempty block \<and> view w (the block) \<noteq> None \<longrightarrow>
        fst (MetaTask_call env (Some key) block False tid run w) = Inl (Exn TaskRetry []) \<and>
        view (snd (MetaTask_call env (Some key) block False tid run w)) key =
          map_option (\<lambda>x. (fst x, None)) (view w key))
    \<and> (view w key \<noteq> None \<and> \<not> (nonempty block \<and> view w (the block) \<noteq> None) \<longrightarrow>
        (\<exists>w1. view w1 key = map_option (\<lambda>x. (fst x, None)) (view w key)
          \<and> fst (MetaTask_call env (Some key) block False tid run w) = fst (run w1))
        \<and> view (snd (MetaTask_call env (Some key) block False tid run w)) key = None)"
proof (cases "view w key")
  case None
  then show ?thesis using redis_service.meta_task_missing [OF assms(1) refl assms(2-5)] by simp
next
  case (Some x)
  obtain w1 where w1: "view w1 key = Some (fst x, None)"
    "MetaTask_call env (Some key) block False tid run w =
       (if nonempty block \<and> view w (the block) \<noteq> None then (Inl (Exn TaskRetry []), w1)
        else finally_delete env (task_lock_for (Some key) tid) (fst (run w1)) (snd (run w1)))"
    using redis_service.meta_task_held [OF assms(1) refl assms(2-5) Some] .
  note f = redis_service.finally_delete_frees [OF assms(1) refl assms(2-5)]
  show ?thesis using Some w1 f by auto
qed

theorem meta_task_lock_lifecycle_witness:
  "fst (MetaTask_call sim_que (Some demo_key) None False ''b'' (\<lambda>w. (Inr (1::nat), w)) demo_world) =
     Inl (Exn TaskLockError ''Task did not acquire lock'')
   \<and> w_store (snd (MetaTask_call sim_que (Some demo_key) None False ''b'' (\<lambda>w. (Inr (1::nat), w))
       (demo_world\<lparr>w_store := demo_locked ''c'' (Some 9)\<rparr>))) demo_key = None"
proof -
  have r: "redis_service (c_redis sim_que) w_store" "always_up (c_redis sim_que)"
    using world.redis_service_axioms by (simp_all add: sim_que_def)
  have d: "demo_key \<noteq> []" "''b'' \<noteq> []" "get_reverse_key ''b'' \<noteq> demo_key"
    by (simp add: demo_key_def, simp, simp)
  note t = meta_task_lock_lifecycle [OF r d, where block = None and run = "\<lambda>w. (Inr (1::nat), w)"]
  show ?thesis
    using t [of demo_world] t [of "demo_world\<lparr>w_store := demo_locked ''c'' (Some 9)\<rparr>"]
    by (simp add: demo_world_def demo_locked_def nonempty_def)
qed

section \<open>Submission\<close>

text \<open>A queue whose other operations leave the Redis store alone.\<close>

locale que_service = redis_service "c_redis env" view
  for env :: "'w celery" and view :: "'w \<Rightarrow> store" +
  assumes up: "always_up (c_redis env)"
    and send_view: "view (snd (c_send env m w)) = view w"
begin

lemma submit_free:
  assumes "view w key = None" "view w (get_reverse_key tid) = None" "get_reverse_key tid \<noteq> key"
    and "submit_locked env (Some key) t tid msg w = (r, w')"
  shows "(r = Inr True \<and> view w' = (view w)(key \<mapsto> (RString tid, ttl_of t),
              get_reverse_key tid \<mapsto> (RString key, ttl_of t)))
    \<or> ((\<exists>e. r = Inl e) \<and> view w' = view w)"
proof -
  let ?lk = "\<lparr>lock_key = key, reverse_key = Some (get_reverse_key tid)\<rparr>"
  obtain w1 where a: "lock_acquire (c_redis env) (TaskLock_init key None) w tid t True = (Inr True, ?lk, w1)"
    and v1: "view w1 = (view w)(key \<mapsto> (RString tid, ttl_of t), get_reverse_key tid \<mapsto> (RString key, ttl_of t))"
    using up_acquire_free [OF up assms(1,3)] .
  obtain r2 w2 where c: "c_send env msg w1 = (r2, w2)" by force
  have v2: "view w2 = view w1" using send_view [of msg w1] c by simp
  show ?thesis
  proof (cases r2)
    case (Inr x)
    then have "r = Inr True" "w' = w2" using assms(4) a c by (simp_all add: submit_locked_def)
    with v1 v2 show ?thesis by simp
  next
    case (Inl e)
    obtain b w3 where d: "lock_delete (c_redis env) ?lk w2 None True True = (Inr b, ?lk, w3)"
      and v3: "view w3 = (if view w2 key = None then view w2 else (view w2)(key := None, get_reverse_key tid := None))"
      using up_delete_any [OF up, of ?lk "get_reverse_key tid" w2 True] assms(3) by auto
    have "r = Inl e" "w' = w3" using assms(4) a c d Inl by (simp_all add: submit_locked_def)
    moreover have "view w3 = view w"
      using v1 v2 v3 assms(1-3) by (auto simp: fun_eq_iff)
    ultimately show ?thesis by simp
  qed
qed

lemma submit_refused:
  assumes "view w key = Some x" "get_reverse_key tid \<noteq> key"
    and "submit_locked env (Some key) t tid msg w = (r, w')"
  shows "r = Inr False" and "lock_owner view key w' = lock_owner view key w"
proof -
  obtain got lk w1 where a: "lock_acquire (c_redis env) (TaskLock_init key None) w tid t True = (got, lk, w1)"
    by (metis prod.exhaust)
  obtain rs w0 where "c_redis env w (set_cmds key tid t True) = (Inr rs, w0)"
    using up unfolding always_up_def by blast
  then obtain b where b: "got = Inr b"
    using a by (auto simp: lock_acquire_def redis_set_def Let_def split: prod.splits if_splits)
  note c = acquire_cases [OF a [unfolded b] assms(2)]
  have "\<not> b" using c(1) assms(1) by simp
  then have "r = Inr False" "w' = w1" using a b assms(3) by (simp_all add: submit_locked_def)
  with c(2) assms(1) show "r = Inr False" and "lock_owner view key w' = lock_owner view key w"
    by (simp_all add: lock_owner_def)
qed

lemma get_held:
  assumes "view w key = Some (RString x, t)"
  obtains w' where "lock_get (c_redis env) (TaskLock_init key rk) w = (Inr (Some x), w')" "view w' = view w"
proof -
  obtain w' where "c_redis env w [CGet key] = (Inr [RStr (Some x)], w')" "view w' = view w"
    using up_get [OF up assms] .
  with that show thesis by (simp add: lock_get_def)
qed

end

interpretation sim_que: que_service sim_que w_store
  using world.redis_service_axioms by (simp add: que_service_def que_service_axioms_def sim_que_def)

text \<open>
  C20. No lock is leaked by a failed submission. With a Redis that answers, submitting a task under
  a lock either refuses it because the lock is held (and the holder stays), or sends the task and
  leaves the lock with exactly this task, or fails (the broker is down, for example) and restores
  the store to what it was before the call.
\<close>

theorem submission_never_leaks_lock:
  assumes "que_service env view" "get_reverse_key tid \<noteq> key"
    and "submit_locked env (Some key) t tid msg w = (r, w')"
    and "view w key = None \<Longrightarrow> view w (get_reverse_key tid) = None"
  shows "(view w key \<noteq> None \<and> r = Inr False \<and> lock_owner view key w' = lock_owner view key w)
    \<or> (view w key = None \<and> r = Inr True \<and> lock_owner view key w' = Some tid)
    \<or> (view w key = None \<and> (\<exists>e. r = Inl e) \<and> view w' = view w)"
proof (cases "view w key")
  case None
  from que_service.submit_free [OF assms(1) None assms(4) [OF None] assms(2,3)] assms(2) None
  show ?thesis by (auto simp: lock_owner_def)
next
  case (Some x)
  from que_service.submit_refused [OF assms(1) Some assms(2,3)] Some show ?thesis by simp
qed

definition broken_que :: "que_world celery" where
  "broken_que = sim_que\<lparr>c_send := \<lambda>msg w. (Inl (Exn OperationalError ''broker''), w)\<rparr>"

interpretation broken: que_service broken_que w_store
  using world.redis_service_axioms
  by (simp add: que_service_def que_service_axioms_def broken_que_def sim_que_def)

theorem submission_never_leaks_lock_witness:
  "w_store (snd (submit_locked broken_que (Some demo_key) (Some 300) ''b'' demo_msg demo_world)) = Map.empty"
proof -
  let ?r = "submit_locked broken_que (Some demo_key) (Some 300) ''b'' demo_msg demo_world"
  have r: "?r = (fst ?r, snd ?r)" by simp
  have "fst ?r \<noteq> Inr True"
    by (auto simp: submit_locked_def broken_que_def split: sum.splits prod.splits bool.splits)
  moreover have "w_store demo_world = Map.empty" by (simp add: demo_world_def)
  ultimately show ?thesis
    using submission_never_leaks_lock [OF broken.que_service_axioms demo_keys(1) r] by auto
qed

text \<open>
  One pending task per lock in the management queue. When a task holds the lock of a
  management task, a further call returns the ID of that task instead of creating a second one,
  and does not change the store.
\<close>

theorem mgmt_call_joins_pending_task:
  assumes "que_service env view" "g_tidlock a = Some l" "l \<noteq> []"
    and "view w (tidlock_key l) = Some (RString x, t)" "x \<noteq> []"
  shows "\<exists>w'. mgmt_submit env a tid w = ((Some x, None, None), w') \<and> view w' = view w"
proof -
  obtain w' where "lock_get (c_redis env) (TaskLock_init (tidlock_key l) None) w = (Inr (Some x), w')"
    "view w' = view w"
    using que_service.get_held [OF assms(1,4)] .
  with assms(2,3,5) show ?thesis by (simp add: mgmt_submit_def nonempty_def Let_def)
qed

definition demo_mgmt :: mgmt_args where
  "demo_mgmt = \<lparr>g_task = ''t'', g_args = [], g_kwargs = [], g_meta = [], g_tidlock = Some ''l'',
     g_tidlock_timeout = None, g_cache_result = None, g_cache_timeout = None, g_expires = Some EXPIRES,
     g_nolog = False, g_ping_worker = True, g_check_user_tasks = True\<rparr>"

theorem mgmt_call_joins_pending_task_witness:
  "\<exists>w'. mgmt_submit sim_que demo_mgmt ''1m2d1-b''
       (demo_world\<lparr>w_store := [tidlock_key ''l'' \<mapsto> (RString ''1m2d1-a'', None)]\<rparr>) =
     ((Some ''1m2d1-a'', None, None), w') \<and> w_store w' = [tidlock_key ''l'' \<mapsto> (RString ''1m2d1-a'', None)]"
  using mgmt_call_joins_pending_task [OF sim_que.que_service_axioms, of demo_mgmt "''l''"
      "demo_world\<lparr>w_store := [tidlock_key ''l'' \<mapsto> (RString ''1m2d1-a'', None)]\<rparr>" "''1m2d1-a''" None "''1m2d1-b''"]
  by (simp add: demo_mgmt_def)

section \<open>The callback of an executed command\<close>

lemma set_meta_lookup:
  assumes "set_meta k v d = Inr e"
  shows "\<exists>m. map_of e ''meta'' = Some (VDict m) \<and> map_of m k = Some v
    \<and> (\<forall>j. j \<noteq> k \<longrightarrow> map_of m j = (case map_of d ''meta'' of Some (VDict m0) \<Rightarrow> map_of m0 j | _ \<Rightarrow> None))"
  using assms by (auto simp: set_meta_def dict_simps split: option.splits pyval.splits)

lemma set_meta_others: "set_meta k v d = Inr e \<Longrightarrow> j \<noteq> ''meta'' \<Longrightarrow> map_of e j = map_of d j"
  by (auto simp: set_meta_def dict_simps split: option.splits pyval.splits)

text \<open>
  C26. A finished command leads to its callback. Unless callbacks are switched off, when the execution of a command ends
  with a result, one message has been accepted by the management queue: the log task with the meta data of the command,
  or else the requested callback with the arguments and the expiration that were given; its arguments are the result of
  the process, treated as \<open>meta\<close> asks for, and the ID of the command's task. The result that is stored is this result
  but for its meta data; looking up the callback in it gives exactly the ID of the callback's task, and it counts as
  logged exactly if the callback is the log task.
\<close>

theorem executed_task_leads_to_callback:
  assumes "execute_task fuel env compress b64encode tid proc meta cb w = Some (Inr result, w')" "cb \<noteq> CbOff"
    and "c_result env (VStr tid) v = Inr (ArValue (VDict result))"
  shows "\<exists>stdout stderr returncode exec_time finish_time w1 out err meta0 meta1 sent t msg w2.
      proc w = (Inr (stdout, stderr, returncode, exec_time, finish_time), w1)
    \<and> treat_output compress b64encode (case meta of None \<Rightarrow> [] | Some m \<Rightarrow> m) stdout stderr = Inr (out, err, meta0)
    \<and> command_result (AList.update ''finish_time'' (VStr finish_time) (AList.update ''exec_time'' (VStr exec_time) meta0))
        out err returncode = Inr (sent, meta1)
    \<and> send_task_forever fuel env msg 3000 w2 = Some (Inr t, w')
    \<and> m_queue msg = Some Q_MGMT \<and> m_args msg = [VDict sent, VStr tid]
    \<and> (m_task msg, m_kwargs msg, m_expires msg) = (case cb of
          CbTask name kw expires \<Rightarrow> (name, case kw of None \<Rightarrow> [] | Some d \<Rightarrow> d, expires) | _ \<Rightarrow> (LOGTASK, meta1, None))
    \<and> (\<forall>k. k \<noteq> ''meta'' \<longrightarrow> map_of result k = map_of sent k)
    \<and> get_callback env v tid = VStr t \<and> (is_logtask env v tid \<longleftrightarrow> m_task msg = LOGTASK)"
proof -
  obtain stdout stderr rc et ft w1 where p: "proc w = (Inr (stdout, stderr, rc, et, ft), w1)"
    using assms(1) unfolding execute_task_def by (auto split: prod.splits sum.splits)
  obtain out1 err1 meta0 where o: "treat_output compress b64encode (case meta of None \<Rightarrow> [] | Some m \<Rightarrow> m) stdout stderr = Inr (out1, err1, meta0)"
    using assms(1) unfolding execute_task_def p by (auto split: prod.splits sum.splits)
  let ?meta = "AList.update ''finish_time'' (VStr ft) (AList.update ''exec_time'' (VStr et) meta0)"
  obtain res0 meta2 where c: "command_result ?meta out1 err1 rc = Inr (res0, meta2)"
    using assms(1) unfolding execute_task_def p prod.case sum.case o
    by (cases "command_result ?meta out1 err1 rc") auto
  obtain new_id w2 msg where msg: "callback_msg cb meta2 res0 tid new_id = Some msg"
    and sent: "map_option (\<lambda>(r, w3). (rbind r (\<lambda>t. rbind (set_meta ''cb_name'' (VStr (m_task msg)) res0)
        (set_meta ''callback'' (VStr t))), w3)) (send_task_forever fuel env msg 3000 w2) = Some (Inr result, w')"
    using assms(1,2) unfolding execute_task_def p prod.case sum.case o c
    by (cases cb) (auto simp: callback_msg_def Let_def split: prod.splits sum.splits)
  from sent obtain t where t: "send_task_forever fuel env msg 3000 w2 = Some (Inr t, w')"
    and r: "rbind (set_meta ''cb_name'' (VStr (m_task msg)) res0) (set_meta ''callback'' (VStr t)) = Inr result"
    by (auto simp: rbind_Inr_iff)
  from r obtain res1 where r1: "set_meta ''cb_name'' (VStr (m_task msg)) res0 = Inr res1"
    "set_meta ''callback'' (VStr t) res1 = Inr result"
    by (auto simp: rbind_Inr_iff)
  obtain m where m: "map_of result ''meta'' = Some (VDict m)" "map_of m ''callback'' = Some (VStr t)"
    "map_of m ''cb_name'' = Some (VStr (m_task msg))"
    using set_meta_lookup [OF r1(1)] set_meta_lookup [OF r1(2)] by auto
  have q: "m_queue msg = Some Q_MGMT \<and> m_args msg = [VDict res0, VStr tid]
      \<and> (m_task msg, m_kwargs msg, m_expires msg) = (case cb of
          CbTask name kw expires \<Rightarrow> (name, case kw of None \<Rightarrow> [] | Some d \<Rightarrow> d, expires) | _ \<Rightarrow> (LOGTASK, meta2, None))"
    using msg by (cases cb) (auto simp: callback_msg_def Let_def)
  have k: "\<forall>k. k \<noteq> ''meta'' \<longrightarrow> map_of result k = map_of res0 k"
    using set_meta_others [OF r1(1)] set_meta_others [OF r1(2)] by metis
  have g: "get_callback env v tid = VStr t \<and> (is_logtask env v tid \<longleftrightarrow> m_task msg = LOGTASK)"
    using m assms(3) by (auto simp: get_callback_def is_logtask_def result_meta_def get_result_def vitem_def ditem_def)
  show ?thesis using p o c t q k g by blast
qed

definition demo_proc :: "que_world \<Rightarrow> (string \<times> string \<times> int \<times> string \<times> string) res \<times> que_world" where
  "demo_proc w = (Inr (''out'', [], 0, ''t0'', ''t1''), w)"

definition demo_meta :: pydict where
  "demo_meta = [(''exec_time'', VStr ''t0''), (''finish_time'', VStr ''t1'')]"

definition demo_result :: "string \<Rightarrow> pydict" where
  "demo_result tid = [(''returncode'', VInt 0), (''stdout'', VStr ''out''), (''stderr'', VStr []),
     (''meta'', VDict (demo_meta @ [(''cb_name'', VStr LOGTASK), (''callback'', VStr tid)]))]"

definition finished_que :: "que_world celery" where
  "finished_que = sim_que\<lparr>c_result := \<lambda>t w. Inr (ArValue (VDict (demo_result (''-'' @ drop_last 13 sample_uuid))))\<rparr>"

lemma demo_execute:
  "execute_task 1 finished_que (\<lambda>s. s) (\<lambda>s. s) [] demo_proc None CbDefault (demo_world\<lparr>w_up_from := 0\<rparr>) =
   Some (Inr (demo_result (''-'' @ drop_last 13 sample_uuid)),
     snd (the (execute_task 1 finished_que (\<lambda>s. s) (\<lambda>s. s) [] demo_proc None CbDefault (demo_world\<lparr>w_up_from := 0\<rparr>))))"
  by (simp add: execute_task_def demo_proc_def treat_output_def replace_entry_def code_entry_def dhas_def
      OUTPUT_KEYS_def command_result_def new_task_id_def finished_que_def sim_que_def task_id_from_task_id_def
      truthy_id_def task_id_from_string_def callback_msg_def send_task_forever_def set_meta_def demo_eval
      demo_result_def demo_meta_def drop_last_def)

theorem executed_task_leads_to_callback_witness:
  "\<exists>t msg w2 w'. send_task_forever 1 finished_que msg 3000 w2 = Some (Inr t, w')
    \<and> m_queue msg = Some Q_MGMT \<and> m_task msg = LOGTASK \<and> get_callback finished_que demo_world [] = VStr t
    \<and> is_logtask finished_que demo_world []"
proof -
  have r: "c_result finished_que (VStr []) demo_world = Inr (ArValue (VDict (demo_result (''-'' @ drop_last 13 sample_uuid))))"
    by (simp add: finished_que_def)
  show ?thesis using executed_task_leads_to_callback [OF demo_execute callback_arg.distinct(1) r]
    unfolding callback_arg.case by blast
qed

end
