(* ===== verification/State_Prog.thy ===== *)
theory State_Prog
  imports Prelude
begin

text \<open>
  Code that may raise and that reads and writes a shared state. What was written before an
  exception stays written, so the state is returned with both kinds of result. The rules of
  \<open>keeps\<close> carry an invariant of the state through such code.
\<close>

type_synonym ('s, 'a) prog = "'s \<Rightarrow> 'a res \<times> 's"

definition pret :: "'a \<Rightarrow> ('s, 'a) prog" where
  "pret x = (\<lambda>s. (Inr x, s))"

definition pres :: "'a res \<Rightarrow> ('s, 'a) prog" where
  "pres r = (\<lambda>s. (r, s))"

definition pget :: "('s \<Rightarrow> 'a) \<Rightarrow> ('s, 'a) prog" where
  "pget f = (\<lambda>s. (Inr (f s), s))"

definition pmod :: "('s \<Rightarrow> 's) \<Rightarrow> ('s, unit) prog" where
  "pmod f = (\<lambda>s. (Inr (), f s))"

definition pbind :: "('s, 'a) prog \<Rightarrow> ('a \<Rightarrow> ('s, 'b) prog) \<Rightarrow> ('s, 'b) prog" where
  "pbind m f = (\<lambda>s. case m s of (Inl e, t) \<Rightarrow> (Inl e, t) | (Inr x, t) \<Rightarrow> f x t)"

definition pwhen :: "bool \<Rightarrow> ('s, unit) prog \<Rightarrow> ('s, unit) prog" where
  "pwhen b m = (if b then m else pret ())"

text \<open>A loop over a list, without and with collected results.\<close>

fun pfor :: "'a list \<Rightarrow> ('a \<Rightarrow> ('s, 'b) prog) \<Rightarrow> ('s, unit) prog" where
  "pfor [] f = pret ()"
| "pfor (x # xs) f = pbind (f x) (\<lambda>_. pfor xs f)"

fun pmap :: "('a \<Rightarrow> ('s, 'b) prog) \<Rightarrow> 'a list \<Rightarrow> ('s, 'b list) prog" where
  "pmap f [] = pret []"
| "pmap f (x # xs) = pbind (f x) (\<lambda>y. pbind (pmap f xs) (\<lambda>ys. pret (y # ys)))"

lemmas prog_defs = pret_def pres_def pget_def pmod_def pbind_def pwhen_def

lemma pbind_Inr_iff:
  "pbind m f s = (Inr y, u) \<longleftrightarrow> (\<exists>x t. m s = (Inr x, t) \<and> f x t = (Inr y, u))"
  by (auto simp: pbind_def split: prod.splits sum.splits)

lemma prog_Inr_iff:
  "pret x s = (Inr y, u) \<longleftrightarrow> y = x \<and> u = s"
  "pres r s = (Inr y, u) \<longleftrightarrow> r = Inr y \<and> u = s"
  "pget g s = (Inr y, u) \<longleftrightarrow> y = g s \<and> u = s"
  "pmod h s = (Inr z, u) \<longleftrightarrow> u = h s"
  by (auto simp: prog_defs)

section \<open>Invariants\<close>

definition keeps :: "('s \<Rightarrow> bool) \<Rightarrow> ('s, 'a) prog \<Rightarrow> bool" where
  "keeps P m \<longleftrightarrow> (\<forall>s. P s \<longrightarrow> P (snd (m s)))"

named_theorems keeps_intros \<open>rules that carry an invariant through code\<close>

lemma keepsD: "keeps P m \<Longrightarrow> P s \<Longrightarrow> m s = (r, t) \<Longrightarrow> P t"
  by (auto simp: keeps_def dest: spec [of _ s])

lemma keeps_pure [keeps_intros]: "keeps P (pret x)" "keeps P (pres r)" "keeps P (pget g)"
  by (simp_all add: keeps_def prog_defs)

lemma keeps_pmod: "(\<And>s. P s \<Longrightarrow> P (f s)) \<Longrightarrow> keeps P (pmod f)"
  by (simp add: keeps_def prog_defs)

lemma keeps_pbind [keeps_intros]: "keeps P m \<Longrightarrow> (\<And>x. keeps P (f x)) \<Longrightarrow> keeps P (pbind m f)"
  unfolding keeps_def pbind_def by (fastforce split: prod.splits sum.splits)

lemma keeps_if [keeps_intros]: "(b \<Longrightarrow> keeps P m) \<Longrightarrow> (\<not> b \<Longrightarrow> keeps P n) \<Longrightarrow> keeps P (if b then m else n)"
  by simp

lemma keeps_pwhen [keeps_intros]: "keeps P m \<Longrightarrow> keeps P (pwhen b m)"
  by (simp add: pwhen_def keeps_pure)

lemma keeps_option [keeps_intros]:
  "keeps P m \<Longrightarrow> (\<And>y. keeps P (f y)) \<Longrightarrow> keeps P (case x of None \<Rightarrow> m | Some y \<Rightarrow> f y)"
  by (cases x) simp_all

lemma keeps_pfor [keeps_intros]: "(\<And>x. keeps P (f x)) \<Longrightarrow> keeps P (pfor xs f)"
  by (induction xs) (simp_all add: keeps_intros)

lemma keeps_pmap [keeps_intros]: "(\<And>x. keeps P (f x)) \<Longrightarrow> keeps P (pmap f xs)"
  by (induction xs) (simp_all add: keeps_intros)

section \<open>Triples\<close>

text \<open>
  From states with \<open>P\<close> the code either returns \<open>x\<close> in a state with \<open>Q x\<close> or raises in a state
  with \<open>E\<close>.
\<close>

definition triple :: "('s \<Rightarrow> bool) \<Rightarrow> ('s, 'a) prog \<Rightarrow> ('a \<Rightarrow> 's \<Rightarrow> bool) \<Rightarrow> ('s \<Rightarrow> bool) \<Rightarrow> bool" where
  "triple P m Q E \<longleftrightarrow> (\<forall>s. P s \<longrightarrow> (case m s of (Inl e, t) \<Rightarrow> E t | (Inr x, t) \<Rightarrow> Q x t))"

lemma tripleI: "(\<And>s e t. P s \<Longrightarrow> m s = (Inl e, t) \<Longrightarrow> E t) \<Longrightarrow> (\<And>s x t. P s \<Longrightarrow> m s = (Inr x, t) \<Longrightarrow> Q x t) \<Longrightarrow> triple P m Q E"
  unfolding triple_def by (auto split: prod.splits sum.splits)

lemma tripleD:
  "triple P m Q E \<Longrightarrow> P s \<Longrightarrow> m s = (Inr x, t) \<Longrightarrow> Q x t"
  "triple P m Q E \<Longrightarrow> P s \<Longrightarrow> m s = (Inl e, t) \<Longrightarrow> E t"
  unfolding triple_def by (auto dest: spec [of _ s])

lemma triple_conseq:
  "triple P' m Q' E \<Longrightarrow> (\<And>s. P s \<Longrightarrow> P' s) \<Longrightarrow> (\<And>x s. Q' x s \<Longrightarrow> Q x s) \<Longrightarrow> triple P m Q E"
  unfolding triple_def by (fastforce split: prod.splits sum.splits)

lemma triple_pre: "triple P' m Q E \<Longrightarrow> (\<And>s. P s \<Longrightarrow> P' s) \<Longrightarrow> triple P m Q E"
  by (rule triple_conseq)

lemma triple_pret: "(\<And>s. P s \<Longrightarrow> Q x s) \<Longrightarrow> triple P (pret x) Q E"
  by (simp add: triple_def prog_defs)

lemma triple_pres: "(\<And>s x. P s \<Longrightarrow> r = Inr x \<Longrightarrow> Q x s) \<Longrightarrow> (\<And>s. P s \<Longrightarrow> E s) \<Longrightarrow> triple P (pres r) Q E"
  by (cases r) (simp_all add: triple_def prog_defs)

lemma triple_pget: "(\<And>s. P s \<Longrightarrow> Q (f s) s) \<Longrightarrow> triple P (pget f) Q E"
  by (simp add: triple_def prog_defs)

lemma triple_pmod: "(\<And>s. P s \<Longrightarrow> Q () (f s)) \<Longrightarrow> triple P (pmod f) Q E"
  by (simp add: triple_def prog_defs)

lemma triple_pbind: "triple P m R E \<Longrightarrow> (\<And>x. triple (R x) (f x) Q E) \<Longrightarrow> triple P (pbind m f) Q E"
  unfolding triple_def pbind_def by (fastforce split: prod.splits sum.splits)

lemma triple_if: "(b \<Longrightarrow> triple P m Q E) \<Longrightarrow> (\<not> b \<Longrightarrow> triple P n Q E) \<Longrightarrow> triple P (if b then m else n) Q E"
  by simp

lemma triple_option:
  "(x = None \<Longrightarrow> triple P m Q E) \<Longrightarrow> (\<And>y. x = Some y \<Longrightarrow> triple P (f y) Q E)
     \<Longrightarrow> triple P (case x of None \<Rightarrow> m | Some y \<Rightarrow> f y) Q E"
  by (cases x) simp_all

text \<open>A loop whose body keeps an invariant.\<close>

lemma triple_pfor: "(\<And>x. x \<in> set xs \<Longrightarrow> triple I (f x) (\<lambda>_. I) I) \<Longrightarrow> triple I (pfor xs f) (\<lambda>_. I) I"
  by (induction xs) (auto intro!: triple_pret triple_pbind)

lemma triple_keeps: "triple I m (\<lambda>_. I) I \<longleftrightarrow> keeps I m"
proof -
  have "(case m s of (Inl e, t) \<Rightarrow> I t | (Inr x, t) \<Rightarrow> I t) = I (snd (m s))" for s
    by (cases "m s"; cases "fst (m s)") auto
  then show ?thesis by (simp add: triple_def keeps_def)
qed

end
