(* ===== verification/Py_Float.thy ===== *)
theory Py_Float
  imports Complex_Main
begin

text \<open>
  The floating point numbers of Python in the few places where the sources compute with them:
  the products of a size with a coefficient of two decimal places and the differences taken
  from such a product. A finite float is an integer mantissa times a power of two; a result is
  the exact one rounded to 53 binary digits, half to even. The range of the exponent is not
  bounded: the numbers of the sources stay far below its limits.
\<close>

section \<open>Numbers\<close>

datatype pyfloat = Flt (fl_mant: int) (fl_exp: int)

definition fl_val :: "pyfloat \<Rightarrow> real" where
  "fl_val f = real_of_int (fl_mant f) * 2 powi (fl_exp f)"

function bit_len :: "int \<Rightarrow> nat" where
  "bit_len n = (if n \<le> 0 then 0 else Suc (bit_len (n div 2)))"
  by pat_completeness auto
termination by (relation "measure nat") auto

declare bit_len.simps [simp del]

definition round_half_even :: "int \<Rightarrow> int \<Rightarrow> int" where
  "round_half_even n d =
     (let q = n div d; r = n mod d
      in if 2 * r < d then q else if 2 * r > d then q + 1 else if even q then q else q + 1)"

text \<open>The exponent of the leading binary digit of a positive fraction.\<close>

definition flog2 :: "int \<Rightarrow> int \<Rightarrow> int" where
  "flog2 n d = (if n \<ge> d then int (bit_len (n div d)) - 1 else - int (bit_len ((d - 1) div n)))"

definition float_of_frac :: "int \<Rightarrow> int \<Rightarrow> pyfloat" where
  "float_of_frac n d =
     (if n = 0 then Flt 0 0
      else let e = flog2 \<bar>n\<bar> d - 52
           in if e \<ge> 0 then Flt (round_half_even n (d * 2 ^ nat e)) e
              else Flt (round_half_even (n * 2 ^ nat (- e)) d) e)"

definition float_of_scaled :: "int \<Rightarrow> int \<Rightarrow> pyfloat" where
  "float_of_scaled m e = (if e \<ge> 0 then float_of_frac (m * 2 ^ nat e) 1 else float_of_frac m (2 ^ nat (- e)))"

definition fmul :: "pyfloat \<Rightarrow> pyfloat \<Rightarrow> pyfloat" where
  "fmul f g = float_of_scaled (fl_mant f * fl_mant g) (fl_exp f + fl_exp g)"

definition fsub :: "pyfloat \<Rightarrow> pyfloat \<Rightarrow> pyfloat" where
  "fsub f g = (let e = min (fl_exp f) (fl_exp g)
     in float_of_scaled (fl_mant f * 2 ^ nat (fl_exp f - e) - fl_mant g * 2 ^ nat (fl_exp g - e)) e)"

text \<open>\<open>int(f)\<close> rounds towards zero.\<close>

definition ftrunc :: "pyfloat \<Rightarrow> int" where
  "ftrunc f = (if fl_exp f \<ge> 0 then fl_mant f * 2 ^ nat (fl_exp f)
     else sgn (fl_mant f) * (\<bar>fl_mant f\<bar> div 2 ^ nat (- fl_exp f)))"

text \<open>Numbers that are integers or floats.\<close>

datatype pynum = NInt int | NFlt pyfloat

definition nsub :: "pynum \<Rightarrow> int \<Rightarrow> pynum" where
  "nsub x i = (case x of NInt j \<Rightarrow> NInt (j - i) | NFlt f \<Rightarrow> NFlt (fsub f (float_of_frac i 1)))"

definition nint :: "pynum \<Rightarrow> int" where
  "nint x = (case x of NInt j \<Rightarrow> j | NFlt f \<Rightarrow> ftrunc f)"

section \<open>Accuracy\<close>

lemma bit_len_le: "n < 2 ^ k \<Longrightarrow> bit_len n \<le> k"
proof (induction n arbitrary: k rule: bit_len.induct)
  case (1 n)
  show ?case
  proof (cases "n \<le> 0")
    case True
    then show ?thesis by (simp add: bit_len.simps)
  next
    case False
    then obtain j where k: "k = Suc j" using 1(2) by (cases k) auto
    have "n div 2 < 2 ^ j" using 1(2) k by simp
    then show ?thesis using 1(1) [OF False, of j] False k by (simp add: bit_len.simps [of n])
  qed
qed

lemma bit_len_pos: "n > 0 \<Longrightarrow> bit_len n \<ge> 1"
  by (subst bit_len.simps) simp

lemma flog2_le:
  assumes "n > 0" "d > 0" "n < d * 2 ^ k"
  shows "flog2 n d \<le> int k - 1"
proof (cases "n \<ge> d")
  case True
  have "d * (n div d) \<le> n" using assms(2) by (simp add: minus_mod_eq_mult_div [symmetric])
  then have "d * (n div d) < d * 2 ^ k" using assms(3) by linarith
  then have "n div d < 2 ^ k" using assms(2) by simp
  with True show ?thesis using bit_len_le by (fastforce simp: flog2_def)
next
  case False
  then have "(d - 1) div n \<ge> 1" using assms by (simp add: int_one_le_iff_zero_less pos_imp_zdiv_pos_iff)
  then have "bit_len ((d - 1) div n) \<ge> 1" by (intro bit_len_pos) simp
  with False show ?thesis by (simp add: flog2_def)
qed

lemma round_half_even_err:
  assumes "d > 0" shows "\<bar>real_of_int (round_half_even n d) - n / d\<bar> \<le> 1 / 2"
proof -
  have "real_of_int n = d * real_of_int (n div d) + real_of_int (n mod d)"
    by (metis mult_div_mod_eq of_int_add of_int_mult)
  then have eq: "n / d = real_of_int (n div d) + real_of_int (n mod d) / d"
    using assms by (simp add: field_simps)
  define x where "x = real_of_int (n mod d) / d"
  have x: "x \<ge> 0" "x < 1" "2 * (n mod d) < d \<Longrightarrow> x \<le> 1 / 2" "2 * (n mod d) > d \<Longrightarrow> x \<ge> 1 / 2"
    "2 * (n mod d) = d \<Longrightarrow> x = 1 / 2"
    using assms unfolding x_def by (simp_all add: field_simps)
  consider "2 * (n mod d) < d" | "2 * (n mod d) > d" | "2 * (n mod d) = d" by linarith
  then show ?thesis
    unfolding eq x_def [symmetric] round_half_even_def Let_def by cases (use x in \<open>auto simp: abs_le_iff\<close>)
qed

lemma scale_err:
  fixes c :: real
  assumes "\<bar>q - x / c\<bar> \<le> 1 / 2" "c > 0"
  shows "\<bar>q * c - x\<bar> \<le> c / 2"
proof -
  have "q * c - x = (q - x / c) * c" using assms(2) by (simp add: left_diff_distrib)
  then have "\<bar>q * c - x\<bar> = \<bar>q - x / c\<bar> * c" using assms(2) by (simp add: abs_mult)
  also have "\<dots> \<le> 1 / 2 * c" using assms by (intro mult_right_mono) simp_all
  finally show ?thesis by simp
qed

lemma scaled_frac_err:
  assumes "n \<noteq> 0" "d > 0"
  shows "\<bar>fl_val (float_of_frac n d) - n / d\<bar> \<le> 2 powi (flog2 \<bar>n\<bar> d - 52) / 2"
proof -
  let ?e = "flog2 \<bar>n\<bar> d - 52"
  show ?thesis
  proof (cases "?e \<ge> 0")
    case True
    have p: "(2::real) powi ?e = 2 ^ nat ?e" using True by (simp add: power_int_def)
    have "\<bar>real_of_int (round_half_even n (d * 2 ^ nat ?e)) - (n / d) / 2 ^ nat ?e\<bar> \<le> 1 / 2"
      using round_half_even_err [of "d * 2 ^ nat ?e" n] assms by simp
    from scale_err [OF this] True assms p show ?thesis
      by (simp add: float_of_frac_def Let_def fl_val_def)
  next
    case False
    let ?k = "nat (- ?e)"
    have p: "(2::real) powi ?e = inverse (2 ^ ?k)" using False by (simp add: power_int_def power_one_over inverse_eq_divide)
    have "\<bar>real_of_int (round_half_even (n * 2 ^ ?k) d) - (n / d) / inverse (2 ^ ?k)\<bar> \<le> 1 / 2"
      using round_half_even_err [of d "n * 2 ^ ?k"] assms by (simp add: field_simps)
    from scale_err [OF this] False assms p show ?thesis
      by (simp add: float_of_frac_def Let_def fl_val_def)
  qed
qed

text \<open>The error of a rounded positive fraction below \<open>2 ^ k\<close>.\<close>

lemma float_of_frac_err:
  assumes "n \<ge> 0" "d > 0" "n < d * 2 ^ k"
  shows "\<bar>fl_val (float_of_frac n d) - n / d\<bar> \<le> 2 powi (int k - 54)"
proof (cases "n = 0")
  case True
  then show ?thesis by (simp add: float_of_frac_def fl_val_def)
next
  case False
  have "\<bar>fl_val (float_of_frac n d) - n / d\<bar> \<le> 2 powi (flog2 \<bar>n\<bar> d - 52) / 2"
    by (rule scaled_frac_err [OF False assms(2)])
  also have "\<dots> = 2 powi (flog2 \<bar>n\<bar> d - 53)" by (simp add: power_int_diff)
  also have "\<dots> \<le> 2 powi (int k - 54)"
    using flog2_le [of n d k] assms False by (intro power_int_increasing) simp_all
  finally show ?thesis .
qed

lemma fl_val_scaled: "real_of_int m * 2 powi e =
    (if e \<ge> 0 then real_of_int (m * 2 ^ nat e) else real_of_int m / real_of_int (2 ^ nat (- e)))"
  by (simp add: power_int_def power_one_over inverse_eq_divide)

lemma float_of_scaled_err:
  assumes "m \<ge> 0" "real_of_int m * 2 powi e < 2 ^ k"
  shows "\<bar>fl_val (float_of_scaled m e) - real_of_int m * 2 powi e\<bar> \<le> 2 powi (int k - 54)"
proof (cases "e \<ge> 0")
  case True
  have "real_of_int (m * 2 ^ nat e) < real_of_int (2 ^ k)" using assms(2) True by (simp add: fl_val_scaled)
  then have "m * 2 ^ nat e < 1 * 2 ^ k" by linarith
  then show ?thesis using float_of_frac_err [of "m * 2 ^ nat e" 1 k] assms True
    by (simp add: float_of_scaled_def fl_val_scaled)
next
  case False
  have "real_of_int m < real_of_int (2 ^ nat (- e) * 2 ^ k)" using assms(2) False by (simp add: fl_val_scaled field_simps)
  then have "m < 2 ^ nat (- e) * 2 ^ k" by linarith
  then show ?thesis using float_of_frac_err [of m "2 ^ nat (- e)" k] assms False
    by (simp add: float_of_scaled_def fl_val_scaled)
qed

lemma fmul_err:
  assumes "fl_mant f \<ge> 0" "fl_mant g \<ge> 0" "fl_val f * fl_val g < 2 ^ k"
  shows "\<bar>fl_val (fmul f g) - fl_val f * fl_val g\<bar> \<le> 2 powi (int k - 54)"
proof -
  have "fl_val f * fl_val g = real_of_int (fl_mant f * fl_mant g) * 2 powi (fl_exp f + fl_exp g)"
    by (simp add: fl_val_def power_int_add)
  then show ?thesis using float_of_scaled_err [of "fl_mant f * fl_mant g" "fl_exp f + fl_exp g" k] assms
    by (simp add: fmul_def)
qed

lemma ftrunc_floor: "fl_mant f \<ge> 0 \<Longrightarrow> ftrunc f = \<lfloor>fl_val f\<rfloor>"
proof -
  assume m: "fl_mant f \<ge> 0"
  show ?thesis
  proof (cases "fl_exp f \<ge> 0")
    case True
    then show ?thesis by (simp add: ftrunc_def fl_val_def fl_val_scaled del: of_int_mult)
  next
    case False
    have "\<lfloor>fl_val f\<rfloor> = \<lfloor>real_of_int (fl_mant f) / real_of_int (2 ^ nat (- fl_exp f))\<rfloor>"
      using False by (simp add: fl_val_def fl_val_scaled)
    also have "\<dots> = fl_mant f div 2 ^ nat (- fl_exp f)" by (rule floor_divide_of_int_eq)
    finally show ?thesis using False m by (cases "fl_mant f = 0") (simp_all add: ftrunc_def sgn_if)
  qed
qed

lemma round_half_even_nonneg: "n \<ge> 0 \<Longrightarrow> d > 0 \<Longrightarrow> round_half_even n d \<ge> 0"
  using pos_imp_zdiv_nonneg_iff [of d n] by (simp add: round_half_even_def Let_def)

lemma float_of_frac_nonneg: "n \<ge> 0 \<Longrightarrow> d > 0 \<Longrightarrow> fl_mant (float_of_frac n d) \<ge> 0"
  by (simp add: float_of_frac_def Let_def round_half_even_nonneg)

lemma fmul_nonneg: "fl_mant f \<ge> 0 \<Longrightarrow> fl_mant g \<ge> 0 \<Longrightarrow> fl_mant (fmul f g) \<ge> 0"
  by (simp add: fmul_def float_of_scaled_def float_of_frac_nonneg)

end
