(* ===== verification/Json_Diff.thy ===== *)
theory Json_Diff
  imports Py_Value
begin

text \<open>
  \<^verbatim>\<open>vms/models/utils.py\<close>, the comparison of VM definitions from which the update command for
  a compute node is built, and the recursive update of \<open>PickleDict\<close> in
  \<^verbatim>\<open>vms/utils.py\<close>.
\<close>

section \<open>The code\<close>

text \<open>Items are paired with the value of a key, or with their position when the key is missing.\<close>

definition pair_keys_to_items :: "pydict list \<Rightarrow> string \<Rightarrow> (pyval \<times> pydict) list" where
  "pair_keys_to_items items key =
     foldl (\<lambda>acc (i, item). AList.update (dget item key (VInt (int i))) item acc) [] (enumerate 0 items)"

definition diff_dict :: "pydict \<Rightarrow> pydict \<Rightarrow> pydict \<times> string list" where
  "diff_dict old new =
     (filter (\<lambda>(k, v). case map_of old k of Some w \<Rightarrow> \<not> py_eq v w | None \<Rightarrow> True) new,
      filter (\<lambda>k. \<not> dhas new k) (map fst old))"

text \<open>Emptied attributes are added, attributes with the same value are dropped (but the key stays).\<close>

definition add_emptied :: "(string \<times> pyval) list \<Rightarrow> pydict \<Rightarrow> pydict \<Rightarrow> pydict" where
  "add_emptied remove_empty old_item new_item =
     foldl (\<lambda>n (i, empty_val). if \<not> dhas n i \<and> dhas old_item i then AList.update i empty_val n else n)
       new_item remove_empty"

definition drop_same :: "string \<Rightarrow> pydict \<Rightarrow> pydict \<Rightarrow> pydict" where
  "drop_same key old_item new_item =
     filter (\<lambda>(i, v). \<not> (i \<noteq> key \<and> (case map_of old_item i of Some w \<Rightarrow> py_eq v w | None \<Rightarrow> False))) new_item"

fun nested_update :: "(pyval \<times> pydict) list \<Rightarrow> string \<Rightarrow> (string \<times> pyval) list \<Rightarrow> (pyval \<times> pydict) list \<Rightarrow> pydict list" where
  "nested_update old key remove_empty [] = []"
| "nested_update old key remove_empty ((k, item) # new) =
     (case map_of old k of
        Some old_item \<Rightarrow>
          (if \<not> py_eq (VDict item) (VDict old_item)
           then drop_same key old_item (add_emptied remove_empty old_item item) # nested_update old key remove_empty new
           else nested_update old key remove_empty new)
      | None \<Rightarrow> nested_update old key remove_empty new)"

definition nested_add :: "(pyval \<times> pydict) list \<Rightarrow> (pyval \<times> pydict) list \<Rightarrow> pydict list" where
  "nested_add old new = map snd (filter (\<lambda>(k, _). map_of old k = None) new)"

fun nested_remove :: "(pyval \<times> pydict) list \<Rightarrow> string \<Rightarrow> (pyval \<times> pydict) list \<Rightarrow> pyval list res" where
  "nested_remove new key [] = Inr []"
| "nested_remove new key ((k, item) # old) =
     (if map_of new k = None
      then rbind (ditem item key) (\<lambda>x. rbind (nested_remove new key old) (\<lambda>xs. Inr (x # xs)))
      else nested_remove new key old)"

definition diff_dict_nested ::
  "(pyval \<times> pydict) list \<Rightarrow> (pyval \<times> pydict) list \<Rightarrow> string \<Rightarrow> (string \<times> pyval) list \<Rightarrow>
   (pydict list \<times> pyval list \<times> pydict list) res" where
  "diff_dict_nested old new key remove_empty =
     rbind (nested_remove new key old) (\<lambda>remove.
       Inr (nested_add old new, remove, nested_update old key remove_empty new))"

text \<open>
  \<open>PickleDict.update2\<close>. The inner function works on any value: a missing key starts from an empty
  dictionary, and entering a value that is not a dictionary raises unless nothing is to be done.
\<close>

function update2 :: "pyval \<Rightarrow> pydict \<Rightarrow> pyval res" where
  "update2 d [] = Inr d"
| "update2 d ((k, v) # u) =
     (case d of
        VDict dd \<Rightarrow>
          (case v of
             VDict vd \<Rightarrow> rbind (update2 (dget dd k (VDict [])) vd) (\<lambda>r. update2 (VDict (AList.update k r dd)) u)
           | _ \<Rightarrow> update2 (VDict (AList.update k v dd)) u)
      | _ \<Rightarrow> (case v of VDict _ \<Rightarrow> Inl (Exn AttributeError ''get'')
             | _ \<Rightarrow> Inl (Exn TypeError ''item assignment'')))"
  by pat_completeness auto

termination update2
  by (relation "measure (\<lambda>(d, u). size_list (size_prod (\<lambda>_. 0) size) u)") auto

text \<open>
  \<open>PickleDict.load\<close> after the parsing: a network card whose allowed addresses are a list with one
  empty string gets an empty list.
\<close>

fun fix_nic :: "pyval \<Rightarrow> pyval res" where
  "fix_nic (VDict nic) = Inr (VDict (if py_eq (dget nic ''allowed_ips'' VNone) (VList [VStr []])
     then AList.update ''allowed_ips'' (VList []) nic else nic))"
| "fix_nic _ = Inl (Exn AttributeError ''get'')"

fun fix_nics :: "pyval list \<Rightarrow> pyval list res" where
  "fix_nics [] = Inr []"
| "fix_nics (n # ns) = rbind (fix_nic n) (\<lambda>m. rbind (fix_nics ns) (\<lambda>ms. Inr (m # ms)))"

definition PickleDict_load :: "pydict \<Rightarrow> pydict res" where
  "PickleDict_load d = (case map_of d ''nics'' of
      None \<Rightarrow> Inr d
    | Some (VList ns) \<Rightarrow> rbind (fix_nics ns) (\<lambda>ms. Inr (AList.update ''nics'' (VList ms) d))
    | Some _ \<Rightarrow> Inl (Exn TypeError ''not iterable''))"

section \<open>Patching with a difference\<close>

text \<open>What a compute node does with the \<open>set_\<close> and \<open>remove_\<close> parts of an update.\<close>

definition patch_dict :: "pydict \<Rightarrow> pydict \<times> string list \<Rightarrow> pydict" where
  "patch_dict old d = dupdate (foldr AList.delete (snd d) old) (fst d)"

text \<open>The same keys with equal values.\<close>

definition dict_same :: "pydict \<Rightarrow> pydict \<Rightarrow> bool" where
  "dict_same d e \<longleftrightarrow> (\<forall>k. case (map_of d k, map_of e k) of
      (None, None) \<Rightarrow> True | (Some v, Some w) \<Rightarrow> py_eq v w | _ \<Rightarrow> False)"

lemma map_of_foldr_delete [dict_simps]:
  "map_of (foldr AList.delete ks d) k = (if k \<in> set ks then None else map_of d k)"
  by (induction ks) (auto simp: dict_simps)

lemma map_of_filter_distinct:
  "distinct (map fst d) \<Longrightarrow> map_of (filter P d) k =
     (case map_of d k of Some v \<Rightarrow> if P (k, v) then Some v else None | None \<Rightarrow> None)"
  by (induction d) (auto split: option.splits simp: rev_image_eqI dest: map_of_SomeD)

lemma distinct_keys_filter: "distinct (map fst d) \<Longrightarrow> distinct (map fst (filter P d))"
  by (induction d) auto

lemma map_of_patch:
  assumes "distinct (map fst new)"
  shows "map_of (patch_dict old (diff_dict old new)) k =
    (case map_of new k of
       None \<Rightarrow> None
     | Some v \<Rightarrow> (case map_of old k of Some w \<Rightarrow> if py_eq v w then Some w else Some v | None \<Rightarrow> Some v))"
proof -
  have "k \<in> fst ` set old \<longleftrightarrow> map_of old k \<noteq> None" by (simp add: map_of_eq_None_iff)
  then show ?thesis
    using assms
    by (auto simp: patch_dict_def diff_dict_def dict_simps distinct_keys_filter map_of_filter_distinct
        map_add_def dhas_iff simp del: not_None_eq split: option.splits)
qed

lemma dict_eq_refl: "wf_val (VDict d) \<Longrightarrow> map_of d i = Some v \<Longrightarrow> py_eq v v"
  by (blast intro: py_eq_refl wf_val_item)

lemma patch_same:
  assumes "wf_val (VDict new)"
  shows "dict_same new (patch_dict old (diff_dict old new))"
proof -
  have d: "distinct (map fst new)" using assms by simp
  note refl = dict_eq_refl [OF assms]
  show ?thesis unfolding dict_same_def map_of_patch [OF d] by (auto split: option.splits dest: refl)
qed

lemma diff_dict_self:
  assumes "wf_val (VDict new)"
  shows "diff_dict new new = ([], [])"
proof -
  have d: "distinct (map fst new)" using assms by simp
  note refl = dict_eq_refl [OF assms]
  show ?thesis using d refl by (auto simp: diff_dict_def dhas_def filter_empty_conv split: option.splits)
qed

lemma map_of_dupdate_absent: "k \<notin> fst ` set s \<Longrightarrow> map_of (dupdate d s) k = map_of d k"
  by (induction s arbitrary: d) (auto simp: dupdate_def dict_simps)

lemma map_of_dupdate_keeps: "map_of d k \<noteq> None \<or> k \<in> fst ` set s \<Longrightarrow> map_of (dupdate d s) k \<noteq> None"
proof (induction s arbitrary: d)
  case (Cons p s)
  obtain a b where p: "p = (a, b)" by force
  have "map_of (AList.update a b d) k \<noteq> None \<or> k \<in> fst ` set s" using Cons.prems p by (auto simp: dict_simps)
  from Cons.IH [OF this] show ?case by (simp add: dupdate_def p)
qed (simp add: dupdate_def)

text \<open>A patch that leads to the new dictionary sets and removes at least what the difference does.\<close>

lemma diff_dict_least:
  assumes "dict_same new (patch_dict old (s, r))" "distinct (map fst new)"
  shows "fst ` set (fst (diff_dict old new)) \<subseteq> fst ` set s \<and> set (snd (diff_dict old new)) \<subseteq> set r"
proof -
  let ?p = "patch_dict old (s, r)"
  have p: "map_of ?p k = (if k \<in> set r then None else map_of old k)" if "k \<notin> fst ` set s" for k
    using that by (simp add: patch_dict_def map_of_dupdate_absent dict_simps)
  have same: "case (map_of new k, map_of ?p k) of
      (None, None) \<Rightarrow> True | (Some v, Some w) \<Rightarrow> py_eq v w | _ \<Rightarrow> False" for k
    using assms(1) unfolding dict_same_def by blast
  have "k \<in> fst ` set s" if kv: "(k, v) \<in> set (fst (diff_dict old new))" for k v
  proof (rule ccontr)
    assume ns: "k \<notin> fst ` set s"
    have n: "map_of new k = Some v" "case map_of old k of Some w \<Rightarrow> \<not> py_eq v w | None \<Rightarrow> True"
      using kv assms(2) by (auto simp: diff_dict_def)
    obtain w where w: "map_of ?p k = Some w" "py_eq v w" using same [of k] n(1) by (auto split: option.splits)
    then have "map_of old k = Some w" using p [OF ns] by (auto split: if_splits)
    then show False using n(2) w(2) by simp
  qed
  moreover have "k \<in> set r" if k: "k \<in> set (snd (diff_dict old new))" for k
  proof -
    have k: "map_of old k \<noteq> None" "map_of new k = None" using k by (auto simp: diff_dict_def dhas_iff map_of_eq_None_iff)
    have n: "map_of ?p k = None" using same [of k] k(2) by (auto split: option.splits)
    then have "k \<notin> fst ` set s" using map_of_dupdate_keeps unfolding patch_dict_def fst_conv by metis
    then show ?thesis using p n k(1) by (auto split: if_splits)
  qed
  ultimately show ?thesis by force
qed

text \<open>
  C27. The difference of two dictionaries is the least patch: applying the computed \<open>set_\<close> and \<open>remove_\<close> parts to the
  old dictionary gives a dictionary with exactly the keys of the new one and equal values, and every other patch that does
  so sets at least the same keys and removes at least the same keys.
\<close>

theorem diff_dict_patches:
  assumes "wf_val (VDict new)"
  shows "dict_same new (patch_dict old (diff_dict old new))
    \<and> (\<forall>s r. dict_same new (patch_dict old (s, r)) \<longrightarrow>
         fst ` set (fst (diff_dict old new)) \<subseteq> fst ` set s \<and> set (snd (diff_dict old new)) \<subseteq> set r)"
  using patch_same [OF assms] diff_dict_least assms by auto

theorem diff_dict_patches_witness:
  "dict_same [(''a'', VInt 1), (''b'', VStr ''x'')]
     (patch_dict [(''a'', VInt 2), (''c'', VNone)]
       (diff_dict [(''a'', VInt 2), (''c'', VNone)] [(''a'', VInt 1), (''b'', VStr ''x'')]))
   \<and> fst ` set (fst (diff_dict [(''a'', VInt 2), (''c'', VNone)] [(''a'', VInt 1), (''b'', VStr ''x'')])) \<subseteq> {''a'', ''b''}"
proof -
  let ?old = "[(''a'', VInt 2), (''c'', VNone)]" and ?new = "[(''a'', VInt 1), (''b'', VStr ''x'')]"
  have w: "wf_val (VDict ?new)" by simp
  note p = diff_dict_patches [OF w, of ?old]
  have "dict_same ?new (patch_dict ?old (?new, [''c'']))"
    by (simp add: dict_same_def patch_dict_def dupdate_def)
  then have "fst ` set (fst (diff_dict ?old ?new)) \<subseteq> fst ` set ?new" using p by blast
  then have "fst ` set (fst (diff_dict ?old ?new)) \<subseteq> {''a'', ''b''}" by simp
  then show ?thesis using conjunct1 [OF p] by blast
qed

section \<open>Differences of lists of items\<close>

text \<open>
  What a compute node does with the \<open>update_\<close> part: the attributes of the item with the same key
  are replaced by those of the update.
\<close>

definition apply_update :: "string \<Rightarrow> pydict list \<Rightarrow> pyval \<Rightarrow> pydict \<Rightarrow> pydict" where
  "apply_update key updates k item =
     (case find (\<lambda>u. map_of u key = Some k) updates of None \<Rightarrow> item | Some u \<Rightarrow> dupdate item u)"

text \<open>Lists of items with their keys, as \<open>pair_keys_to_items\<close> makes them when every item has its key.\<close>

definition keyed :: "string \<Rightarrow> (pyval \<times> pydict) list \<Rightarrow> bool" where
  "keyed key items \<longleftrightarrow> distinct (map fst items)
     \<and> (\<forall>(k, item) \<in> set items. map_of item key = Some k \<and> wf_val (VDict item))"

lemma keyedD:
  assumes "keyed key items" "map_of items k = Some item"
  shows "map_of item key = Some k" "wf_val (VDict item)" "distinct (map fst item)"
  using assms by (fastforce simp: keyed_def dest: map_of_SomeD)+

lemma nested_remove_keyed:
  assumes "\<forall>(k, item) \<in> set old. map_of item key = Some k"
  shows "nested_remove new key old = Inr (map fst (filter (\<lambda>(k, _). map_of new k = None) old))"
  using assms by (induction new key old rule: nested_remove.induct) (auto simp: ditem_def)

lemma add_emptied_props:
  assumes "distinct (map fst item)"
  shows "distinct (map fst (add_emptied re old item)) \<and> map_of (add_emptied re old item) i =
      (case map_of item i of Some v \<Rightarrow> Some v | None \<Rightarrow> if map_of old i = None then None else map_of re i)"
  using assms
proof (induction re arbitrary: item)
  case Nil
  then show ?case by (simp add: add_emptied_def split: option.splits)
next
  case (Cons x re)
  obtain a b where x: "x = (a, b)" by force
  let ?n = "if \<not> dhas item a \<and> dhas old a then AList.update a b item else item"
  have "add_emptied (x # re) old item = add_emptied re old ?n"
    by (simp add: add_emptied_def x)
  moreover have "distinct (map fst ?n)" using Cons.prems by (simp add: dict_simps)
  ultimately show ?case using Cons.IH [of ?n] x
    by (auto simp: dict_simps dhas_iff split: option.splits if_splits)
qed

lemma map_of_drop_same:
  assumes "distinct (map fst item)"
  shows "map_of (dupdate old (drop_same key old item)) i =
    (case map_of item i of
       None \<Rightarrow> map_of old i
     | Some v \<Rightarrow> (if i \<noteq> key \<and> (\<exists>w. map_of old i = Some w \<and> py_eq v w) then map_of old i else Some v))"
  using assms
  by (auto simp: drop_same_def dict_simps distinct_keys_filter map_of_filter_distinct map_add_def
      split: option.splits)

lemma drop_same_key: "distinct (map fst item) \<Longrightarrow> map_of (drop_same key old item) key = map_of item key"
  by (simp add: drop_same_def map_of_filter_distinct split: option.splits)

lemma find_update:
  assumes "\<forall>(k, item) \<in> set new. map_of item key = Some k \<and> distinct (map fst item)"
    and "distinct (map fst new)" "map_of old k = Some old_item"
  shows "find (\<lambda>u. map_of u key = Some k) (nested_update old key re new) =
    (case map_of new k of
       None \<Rightarrow> None
     | Some item \<Rightarrow> if py_eq (VDict item) (VDict old_item) then None
                   else Some (drop_same key old_item (add_emptied re old_item item)))"
  using assms
proof (induction old key re new rule: nested_update.induct)
  case (2 old key re k' item new)
  have new: "map_of item key = Some k'" "distinct (map fst item)" using "2.prems"(1) by auto
  have key: "map_of (drop_same key o1 (add_emptied re o1 item)) key = Some k'" for o1
    using add_emptied_props [OF new(2), of re o1 key] new(1) by (simp add: drop_same_key)
  have "k \<notin> fst ` set new" if "k' = k" using "2.prems"(2) that by simp
  then show ?case
    using 2 key by (auto simp: map_of_eq_None_iff [symmetric] split: option.splits if_splits)
qed simp

lemma py_eq_dict_items:
  assumes "py_eq (VDict new) (VDict old)" "distinct (map fst new)" "distinct (map fst old)"
  shows "map_of new i = Some v \<Longrightarrow> \<exists>w. map_of old i = Some w \<and> py_eq v w"
    and "map_of new i = None \<Longrightarrow> map_of old i = None"
proof -
  have each: "\<exists>w. map_of old i = Some w \<and> py_eq v w" if "map_of new i = Some v" for i v
    using assms(1) that by (fastforce simp: list_all_iff split: option.splits dest: map_of_SomeD)
  then show "map_of new i = Some v \<Longrightarrow> \<exists>w. map_of old i = Some w \<and> py_eq v w" .
  have "fst ` set new \<subseteq> fst ` set old"
  proof
    fix k assume "k \<in> fst ` set new"
    then obtain v where "map_of new k = Some v" by (metis map_of_eq_None_iff option.exhaust)
    from each [OF this] show "k \<in> fst ` set old" by (metis map_of_eq_None_iff option.distinct(1))
  qed
  moreover have "card (fst ` set new) = card (fst ` set old)"
    using assms distinct_card [of "map fst new"] distinct_card [of "map fst old"] by simp
  ultimately have "fst ` set new = fst ` set old" by (simp add: card_subset_eq)
  then show "map_of new i = None \<Longrightarrow> map_of old i = None" by (simp add: map_of_eq_None_iff)
qed

lemma nested_parts:
  assumes "keyed key old" "keyed key new"
  shows "\<exists>add remove update. diff_dict_nested old new key re = Inr (add, remove, update)
    \<and> remove = map fst (filter (\<lambda>(k, _). map_of new k = None) old)
    \<and> add = map snd (filter (\<lambda>(k, _). map_of old k = None) new)
    \<and> (\<forall>k old_item item i. map_of old k = Some old_item \<longrightarrow> map_of new k = Some item \<longrightarrow>
         (case map_of item i of
            Some v \<Rightarrow> \<exists>w. map_of (apply_update key update k old_item) i = Some w \<and> py_eq v w
          | None \<Rightarrow> (if map_of old_item i \<noteq> None \<and> i \<in> fst ` set re
              then \<exists>w e. map_of (apply_update key update k old_item) i = Some w \<and> map_of re i = Some e
                     \<and> (w = e \<or> py_eq e w)
              else map_of (apply_update key update k old_item) i = map_of old_item i)))"
proof -
  let ?upd = "nested_update old key re new"
  have rem: "nested_remove new key old = Inr (map fst (filter (\<lambda>(k, _). map_of new k = None) old))"
    using assms(1) by (intro nested_remove_keyed) (auto simp: keyed_def)
  have pre: "\<forall>(k, item) \<in> set new. map_of item key = Some k \<and> distinct (map fst item)"
    "distinct (map fst new)"
    using assms(2) by (auto simp: keyed_def)
  have item: "(case map_of item i of
      Some v \<Rightarrow> \<exists>w. map_of (apply_update key ?upd k old_item) i = Some w \<and> py_eq v w
    | None \<Rightarrow> (if map_of old_item i \<noteq> None \<and> i \<in> fst ` set re
        then \<exists>w e. map_of (apply_update key ?upd k old_item) i = Some w \<and> map_of re i = Some e
               \<and> (w = e \<or> py_eq e w)
        else map_of (apply_update key ?upd k old_item) i = map_of old_item i))"
    if "map_of old k = Some old_item" "map_of new k = Some item" for k old_item item i
  proof -
    note o = keyedD [OF assms(1) that(1)] and n = keyedD [OF assms(2) that(2)]
    have f: "find (\<lambda>u. map_of u key = Some k) ?upd =
        (if py_eq (VDict item) (VDict old_item) then None
         else Some (drop_same key old_item (add_emptied re old_item item)))"
      using find_update [OF pre that(1)] that(2) by simp
    show ?thesis
    proof (cases "py_eq (VDict item) (VDict old_item)")
      case True
      with f have same: "apply_update key ?upd k old_item = old_item" by (simp add: apply_update_def)
      note eq = py_eq_dict_items [OF True n(3) o(3), of i]
      show ?thesis unfolding same using eq by (cases "map_of item i") simp_all
    next
      case False
      note e = add_emptied_props [OF n(3), of re old_item i]
      have re: "i \<notin> fst ` set re \<longleftrightarrow> map_of re i = None" by (simp add: map_of_eq_None_iff)
      show ?thesis
        using f False e re map_of_drop_same [of "add_emptied re old_item item" old_item key i]
          dict_eq_refl [OF n(2), of i]
        by (auto simp: apply_update_def split: option.splits if_splits)
    qed
  qed
  show ?thesis
    by (intro exI [of _ "map snd (filter (\<lambda>(k, _). map_of old k = None) new)"]
        exI [of _ "map fst (filter (\<lambda>(k, _). map_of new k = None) old)"] exI [of _ ?upd] conjI)
       (use item in \<open>auto simp: diff_dict_nested_def rem nested_add_def\<close>)
qed

text \<open>
  What the node does with the three parts: the items with a removed key go, those that stay are updated, and the added
  items come under their keys.
\<close>

definition patch_items :: "string \<Rightarrow> (pyval \<times> pydict) list \<Rightarrow> pydict list \<times> pyval list \<times> pydict list \<Rightarrow> (pyval \<times> pydict) list" where
  "patch_items key old p = (case p of (add, remove, update) \<Rightarrow>
     map (\<lambda>(k, item). (k, apply_update key update k item)) (filter (\<lambda>(k, _). k \<notin> set remove) old)
     @ map (\<lambda>item. (dget item key VNone, item)) add)"

text \<open>
  The item that a patch should leave: every attribute of the new item with an equal value, and of the attributes that
  only an old item with this key had, the empty value for those that can be emptied and the old value for the others.
\<close>

definition patched_item :: "(string \<times> pyval) list \<Rightarrow> pydict option \<Rightarrow> pydict \<Rightarrow> pydict \<Rightarrow> bool" where
  "patched_item re old_item item p \<longleftrightarrow> (\<forall>i. case map_of item i of
      Some v \<Rightarrow> (\<exists>w. map_of p i = Some w \<and> py_eq v w)
    | None \<Rightarrow> (case old_item of
        None \<Rightarrow> map_of p i = None
      | Some d \<Rightarrow> (if map_of d i \<noteq> None \<and> i \<in> fst ` set re
          then (\<exists>w e. map_of p i = Some w \<and> map_of re i = Some e \<and> (w = e \<or> py_eq e w)) else map_of p i = map_of d i)))"

lemma map_of_keyed_map: "map_of (map (\<lambda>(k, item). (k, f k item)) xs) k = map_option (f k) (map_of xs k)"
  by (induction xs) auto

lemma added_keys: "keyed key new \<Longrightarrow> map (\<lambda>item. (dget item key VNone, item)) (map snd (filter P new)) = filter P new"
  unfolding map_map by (rule map_idI) (auto simp: keyed_def dget_def)

text \<open>
  C28. The difference of two lists of keyed items (disks by path, network cards by MAC address) is a patch. Applied to
  the old items - those with a removed key go, the others are updated, the added ones come - it gives items with exactly
  the keys of the new list, each key once, and under each key an item with every attribute of the new item with an equal
  value. An attribute that a new item no longer has is not removed: it gets its empty value if it is one of those that
  can be emptied, and otherwise keeps its old value; an added item has no other attributes. Only keys of the old list are
  removed and only items of the new list added.
\<close>

theorem diff_dict_nested_patches:
  assumes "keyed key old" "keyed key new"
  shows "\<exists>add remove update p. diff_dict_nested old new key re = Inr (add, remove, update)
    \<and> p = patch_items key old (add, remove, update)
    \<and> set remove = set (map fst old) - set (map fst new)
    \<and> add = map snd (filter (\<lambda>(k, _). map_of old k = None) new)
    \<and> distinct (map fst p) \<and> set (map fst p) = set (map fst new)
    \<and> list_all (\<lambda>(k, item). case map_of p k of None \<Rightarrow> False | Some q \<Rightarrow> patched_item re (map_of old k) item q) new"
proof -
  obtain add remove update where d: "diff_dict_nested old new key re = Inr (add, remove, update)"
    "remove = map fst (filter (\<lambda>(k, _). map_of new k = None) old)"
    "add = map snd (filter (\<lambda>(k, _). map_of old k = None) new)"
    "\<forall>k old_item item i. map_of old k = Some old_item \<longrightarrow> map_of new k = Some item \<longrightarrow>
         (case map_of item i of
            Some v \<Rightarrow> \<exists>w. map_of (apply_update key update k old_item) i = Some w \<and> py_eq v w
          | None \<Rightarrow> (if map_of old_item i \<noteq> None \<and> i \<in> fst ` set re
              then \<exists>w e. map_of (apply_update key update k old_item) i = Some w \<and> map_of re i = Some e
                     \<and> (w = e \<or> py_eq e w)
              else map_of (apply_update key update k old_item) i = map_of old_item i))"
    using nested_parts [OF assms, of re] by blast
  have dist: "distinct (map fst old)" "distinct (map fst new)" using assms by (simp_all add: keyed_def)
  have rem: "set remove = set (map fst old) - set (map fst new)"
    unfolding d(2) by (force simp: map_of_eq_None_iff)
  let ?kept = "filter (\<lambda>(k, _). k \<notin> set remove) old" and ?added = "filter (\<lambda>(k, _). map_of old k = None) new"
  let ?p = "map (\<lambda>(k, item). (k, apply_update key update k item)) ?kept @ ?added"
  have p: "patch_items key old (add, remove, update) = ?p"
    by (simp add: patch_items_def d(3) added_keys [OF assms(2), unfolded map_map comp_def] comp_def)
  have fst_map: "map fst (map (\<lambda>(k, item). (k, apply_update key update k item)) xs) = map fst xs" for xs
    by (induction xs) auto
  have keys: "map fst ?p = map fst ?kept @ map fst ?added" by (simp only: map_append fst_map)
  have kk: "set (map fst ?kept) = set (map fst old) \<inter> set (map fst new)" "set (map fst ?added) = set (map fst new) - set (map fst old)"
    unfolding rem by (force simp: map_of_eq_None_iff)+
  have dp: "distinct (map fst ?p)"
    unfolding keys distinct_append kk using dist by (auto intro: distinct_keys_filter)
  have sp: "set (map fst ?p) = set (map fst new)" unfolding keys set_append kk by blast
  have al: "case map_of ?p k of None \<Rightarrow> False | Some q \<Rightarrow> patched_item re (map_of old k) item q" if n: "(k, item) \<in> set new" for k item
  proof (cases "map_of old k")
    case None
    have w: "wf_val (VDict item)" using assms(2) n by (auto simp: keyed_def)
    have "map_of ?added k = Some item" using dist(2) n None by (auto simp: distinct_keys_filter)
    moreover have "map_of ?kept k = None" using None dist(1) by (simp add: map_of_filter_distinct)
    ultimately have "map_of ?p k = Some item" by (simp add: map_add_def map_of_keyed_map)
    moreover have "patched_item re None item item" using dict_eq_refl [OF w] by (auto simp: patched_item_def split: option.split)
    ultimately show ?thesis by (simp only: None option.case)
  next
    case (Some old_item)
    have k: "k \<notin> set remove" "map_of new k = Some item" using n dist(2) by (force simp: rem, simp)
    have "map_of ?kept k = Some old_item" using k(1) Some dist(1) by (simp add: map_of_filter_distinct)
    moreover have "map_of ?added k = None" using Some dist(2) by (simp add: map_of_filter_distinct split: option.split)
    ultimately have "map_of ?p k = Some (apply_update key update k old_item)" by (simp add: map_add_def map_of_keyed_map)
    moreover have "patched_item re (Some old_item) item (apply_update key update k old_item)"
      unfolding patched_item_def option.case using d(4) Some k(2) by blast
    ultimately show ?thesis by (simp only: Some option.case)
  qed
  then have al: "list_all (\<lambda>(k, item). case map_of ?p k of None \<Rightarrow> False | Some q \<Rightarrow> patched_item re (map_of old k) item q) new"
    unfolding list_all_iff by blast
  show ?thesis
    by (rule exI [of _ add], rule exI [of _ remove], rule exI [of _ update], rule exI [of _ ?p], intro conjI)
      (rule d(1), rule p [symmetric], rule rem, rule d(3), rule dp, rule sp, rule al)
qed

definition demo_nics_old :: "(pyval \<times> pydict) list" where
  "demo_nics_old = [(VStr ''m1'', [(''mac'', VStr ''m1''), (''gateway'', VStr ''g''), (''ip'', VStr ''a'')]),
                    (VStr ''m2'', [(''mac'', VStr ''m2'')])]"

definition demo_nics_new :: "(pyval \<times> pydict) list" where
  "demo_nics_new = [(VStr ''m1'', [(''mac'', VStr ''m1''), (''ip'', VStr ''b'')]),
                    (VStr ''m3'', [(''mac'', VStr ''m3'')])]"

theorem diff_dict_nested_patches_witness:
  "diff_dict_nested demo_nics_old demo_nics_new ''mac'' [(''gateway'', VStr [])] =
     Inr ([[(''mac'', VStr ''m3'')]], [VStr ''m2''],
          [[(''mac'', VStr ''m1''), (''ip'', VStr ''b''), (''gateway'', VStr [])]])"
proof -
  have "keyed ''mac'' demo_nics_old" "keyed ''mac'' demo_nics_new"
    by (simp_all add: keyed_def demo_nics_old_def demo_nics_new_def)
  from diff_dict_nested_patches [OF this, of "[(''gateway'', VStr [])]"] show ?thesis
    by (auto simp: diff_dict_nested_def demo_nics_old_def demo_nics_new_def rbind_Inr_iff ditem_def
        add_emptied_def drop_same_def dhas_def)
qed

section \<open>Recursive update\<close>

fun lookup_path :: "pyval \<Rightarrow> string list \<Rightarrow> pyval option" where
  "lookup_path v [] = Some v"
| "lookup_path (VDict d) (k # p) = (case map_of d k of None \<Rightarrow> None | Some w \<Rightarrow> lookup_path w p)"
| "lookup_path v (k # p) = None"

text \<open>The paths that lead out of the dictionary \<open>u\<close> before they reach a value that is set.\<close>

fun untouched :: "pydict \<Rightarrow> string list \<Rightarrow> bool" where
  "untouched u [] = False"
| "untouched u (k # p) = (case map_of u k of
      None \<Rightarrow> True | Some (VDict w) \<Rightarrow> p \<noteq> [] \<and> untouched w p | Some _ \<Rightarrow> False)"

definition is_leaf :: "pyval \<Rightarrow> bool" where
  "is_leaf v = (case v of VDict _ \<Rightarrow> False | _ \<Rightarrow> True)"

lemma lookup_path_cong: "map_of d k = map_of e k \<Longrightarrow> lookup_path (VDict d) (k # p) = lookup_path (VDict e) (k # p)"
  by simp

lemma update2_step:
  assumes "update2 d ((k, w) # u) = Inr r"
  obtains dd x where "d = VDict dd" "update2 (VDict (AList.update k x dd)) u = Inr r"
    "(\<exists>wd. w = VDict wd \<and> update2 (dget dd k (VDict [])) wd = Inr x) \<or> (is_leaf w \<and> x = w)"
  using assms by (cases d; cases w) (auto simp: rbind_Inr_iff is_leaf_def)

definition update2_ok :: "pyval \<Rightarrow> pydict \<Rightarrow> pyval \<Rightarrow> string list \<Rightarrow> bool" where
  "update2_ok d u r p \<longleftrightarrow>
     (\<forall>v. lookup_path (VDict u) p = Some v \<and> is_leaf v \<longrightarrow> lookup_path r p = Some v)
     \<and> (untouched u p \<longrightarrow> lookup_path r p = lookup_path d p)"

lemma lookup_dget: "p \<noteq> [] \<Longrightarrow> lookup_path (dget dd k (VDict [])) p = lookup_path (VDict dd) (k # p)"
  by (cases p) (auto simp: dget_def split: option.splits)

lemma update2_ok_head:
  assumes "\<And>p. update2_ok (VDict (AList.update k x dd)) u r p" "map_of u k = None"
    and "(\<exists>wd. w = VDict wd \<and> (\<forall>p. update2_ok (dget dd k (VDict [])) wd x p)) \<or> (is_leaf w \<and> x = w)"
  shows "update2_ok (VDict dd) ((k, w) # u) r p"
proof (cases p)
  case Nil
  then show ?thesis by (simp add: update2_ok_def is_leaf_def)
next
  case (Cons j q)
  show ?thesis
  proof (cases "j = k")
    case False
    then show ?thesis using assms(1) [of p] Cons by (simp add: update2_ok_def dict_simps)
  next
    case True
    have r: "lookup_path r p = lookup_path x q"
      using assms(1) [of p] assms(2) Cons True by (simp add: update2_ok_def dict_simps)
    from assms(3) show ?thesis
    proof (elim disjE exE conjE)
      fix wd assume w: "w = VDict wd" and ok: "\<forall>p. update2_ok (dget dd k (VDict [])) wd x p"
      show ?thesis
        using spec [OF ok, of q] r Cons True w lookup_dget [of q dd k]
        by (cases q) (auto simp: update2_ok_def is_leaf_def)
    next
      assume "is_leaf w" "x = w"
      then show ?thesis using r Cons True
        by (auto simp: update2_ok_def is_leaf_def split: pyval.splits)
    qed
  qed
qed

lemma update2_paths:
  assumes "update2 d u = Inr r" "wf_val (VDict u)"
  shows "update2_ok d u r p"
  using assms
proof (induction "size_list (size_prod (\<lambda>_. 0) size) u" arbitrary: u d r p rule: less_induct)
  case (less u d r p)
  show ?case
  proof (cases u)
    case Nil
    then show ?thesis using less.prems by (cases p) (auto simp: update2_ok_def is_leaf_def)
  next
    case (Cons kw u')
    obtain k w where kw: "kw = (k, w)" by force
    obtain dd x where d: "d = VDict dd" and tl: "update2 (VDict (AList.update k x dd)) u' = Inr r"
      and x: "(\<exists>wd. w = VDict wd \<and> update2 (dget dd k (VDict [])) wd = Inr x) \<or> (is_leaf w \<and> x = w)"
      by (rule update2_step [OF less.prems(1) [unfolded Cons kw]])
    have wf: "wf_val (VDict u')" "wf_val w" and k: "map_of u' k = None"
      using less.prems(2) Cons kw by (auto simp: map_of_eq_None_iff)
    have "update2_ok (VDict (AList.update k x dd)) u' r p" for p
      by (rule less.hyps [OF _ tl wf(1)]) (simp add: Cons)
    moreover have "update2_ok (dget dd k (VDict [])) wd x p"
      if "w = VDict wd" "update2 (dget dd k (VDict [])) wd = Inr x" for wd p
      by (rule less.hyps [OF _ that(2)]) (use Cons kw that wf in auto)
    ultimately show ?thesis
      unfolding Cons kw d using x k by (intro update2_ok_head [of k x]) blast+
  qed
qed

text \<open>
  C29. The recursive update sets exactly what it is told to. After \<open>update2\<close> every value that is
  not a dictionary is found at its path in the result, and every path that the update does not
  mention leads to what it led to before.
\<close>

theorem update2_sets_exactly:
  assumes "update2 d u = Inr r" "wf_val (VDict u)"
  shows "(lookup_path (VDict u) p = Some v \<and> is_leaf v \<longrightarrow> lookup_path r p = Some v)
    \<and> (untouched u p \<longrightarrow> lookup_path r p = lookup_path d p)"
  using update2_paths [OF assms, of p] by (auto simp: update2_ok_def)

theorem update2_sets_exactly_witness:
  "\<exists>r. update2 (VDict [(''a'', VDict [(''x'', VInt 1)])]) [(''a'', VDict [(''y'', VInt 2)])] = Inr r
    \<and> lookup_path r [''a'', ''y''] = Some (VInt 2) \<and> lookup_path r [''a'', ''x''] = Some (VInt 1)"
proof -
  let ?d = "VDict [(''a'', VDict [(''x'', VInt 1)])]" and ?u = "[(''a'', VDict [(''y'', VInt 2)])]"
  let ?r = "VDict [(''a'', VDict [(''x'', VInt 1), (''y'', VInt 2)])]"
  have u: "update2 ?d ?u = Inr ?r" by (simp add: dget_def)
  show ?thesis
    using u update2_sets_exactly [OF u, of "[''a'', ''y'']" "VInt 2"]
      update2_sets_exactly [OF u, of "[''a'', ''x'']"] by (simp add: is_leaf_def)
qed

end
