(* ===== verification/Vm_Model.thy ===== *)
theory Vm_Model
  imports Json_Diff User_Tasks
begin

text \<open>
  The virtual machine object of \<^verbatim>\<open>vms/models/vm.py\<close> with what it inherits from
  \<^verbatim>\<open>vms/models/base.py\<close>: its fields, the two definitions \<open>json\<close> (wanted) and
  \<open>json_active\<close> (on the compute node), the attributes that are stored inside them, statuses,
  disks, network cards and resource accounting. The properties \<open>json\<close>, \<open>json_active\<close> and \<open>info\<close>
  decode a fresh copy on every read and encode on every write, so they are plain fields here.
  Settings are those of \<^verbatim>\<open>core/settings.py\<close>.
\<close>

section \<open>The object\<close>

record node_ref =
  nr_uuid :: string
  nr_hostname :: string
  nr_status :: int

record vm_template =
  t_name :: string
  t_ostype :: "int option"
  t_json :: pydict

record vm =
  v_uuid :: string
  v_hostname :: string
  v_alias :: string
  v_vnc_port :: "int option"
  v_ostype :: int
  v_hvm_type :: int
  v_status :: int
  v_owner :: int
  v_node :: "node_ref option"
  v_uptime :: int
  v_uptime_changed :: int
  v_json :: pydict
  v_json_active :: pydict
  v_info :: pydict
  v_slave_vms :: "string list"
  v_created :: "int option"
  v_slavevm :: "bool option"
  v_orig_node :: "node_ref option"
  v_node_changed :: bool
  v_status_display :: "string option"
  v_dc :: int
  v_template :: "vm_template option"
  v_fqdn_hostname :: "string option"
  v_fqdn_domain :: "string option"
  v_orig_status :: int
  v_status_change :: "int option"
  v_changed :: "int option"
  v_lock :: bool
  v_update_changed :: bool

text \<open>\<open>v_slavevm\<close> is the related slave object: \<open>None\<close> for an ordinary VM, else its flag \<open>reserve_resources\<close>.\<close>

section \<open>Operating systems, hypervisors, statuses\<close>

definition LINUX :: int where "LINUX = 1"
definition SUNOS :: int where "SUNOS = 2"
definition BSD :: int where "BSD = 3"
definition WINDOWS :: int where "WINDOWS = 4"
definition SUNOS_ZONE :: int where "SUNOS_ZONE = 5"
definition LINUX_ZONE :: int where "LINUX_ZONE = 6"

definition Hypervisor_KVM :: int where "Hypervisor_KVM = 1"
definition Hypervisor_BHYVE :: int where "Hypervisor_BHYVE = 2"
definition Hypervisor_NONE :: int where "Hypervisor_NONE = 3"
definition HVM :: "int list" where "HVM = [Hypervisor_KVM, Hypervisor_BHYVE]"

lemmas type_defs = LINUX_def SUNOS_def BSD_def WINDOWS_def SUNOS_ZONE_def LINUX_ZONE_def
  Hypervisor_KVM_def Hypervisor_BHYVE_def Hypervisor_NONE_def HVM_def

definition PENDING :: int where "PENDING = 0"
definition STOPPED :: int where "STOPPED = 1"
definition RUNNING :: int where "RUNNING = 2"
definition STOPPING :: int where "STOPPING = 3"
definition NOTREADY :: int where "NOTREADY = 7"
definition FROZEN :: int where "FROZEN = 8"
definition NOTCREATED :: int where "NOTCREATED = 9"
definition UNKNOWN :: int where "UNKNOWN = 10"
definition CREATING :: int where "CREATING = 11"
definition DEPLOYING_START :: int where "DEPLOYING_START = 12"
definition DEPLOYING_FINISH :: int where "DEPLOYING_FINISH = 13"
definition DEPLOYING_DUMMY :: int where "DEPLOYING_DUMMY = 14"
definition NOTREADY_STOPPED :: int where "NOTREADY_STOPPED = 71"
definition NOTREADY_RUNNING :: int where "NOTREADY_RUNNING = 72"
definition NOTREADY_FROZEN :: int where "NOTREADY_FROZEN = 78"
definition NOTREADY_NOTCREATED :: int where "NOTREADY_NOTCREATED = 79"
definition ERROR :: int where "ERROR = 99"

lemmas status_defs = PENDING_def STOPPED_def RUNNING_def STOPPING_def NOTREADY_def FROZEN_def
  NOTCREATED_def UNKNOWN_def CREATING_def DEPLOYING_START_def DEPLOYING_FINISH_def DEPLOYING_DUMMY_def
  NOTREADY_STOPPED_def NOTREADY_RUNNING_def NOTREADY_FROZEN_def NOTREADY_NOTCREATED_def ERROR_def

definition STATUS :: "(int \<times> string) list" where
  "STATUS = [(STOPPED, ''stopped''), (RUNNING, ''running''), (STOPPING, ''stopping''),
     (NOTREADY, ''notready''), (CREATING, ''deploying''), (DEPLOYING_START, ''deploying''),
     (DEPLOYING_FINISH, ''deploying''), (DEPLOYING_DUMMY, ''deploying''), (FROZEN, ''frozen''),
     (NOTCREATED, ''notcreated''), (NOTREADY_STOPPED, ''stopped-''), (NOTREADY_RUNNING, ''running-''),
     (NOTREADY_FROZEN, ''frozen-''), (NOTREADY_NOTCREATED, ''notcreated-''), (ERROR, ''error'')]"

definition STATUS_DICT :: "(string \<times> int) list" where
  "STATUS_DICT = [(''stopped'', STOPPED), (''running'', RUNNING), (''stopping'', STOPPING),
     (''installed'', STOPPED), (''down'', STOPPED)]"

definition STATUS_UNUSED :: "string list" where
  "STATUS_UNUSED = [''ready'', ''shutting_down'', ''incomplete'', ''configured'', ''provisioning'',
     ''receiving'', ''failed'']"

definition STATUS_KNOWN :: "int list" where
  "STATUS_KNOWN = [STOPPED, STOPPING, RUNNING, NOTCREATED, ERROR]"

definition STATUS_OPERATIONAL :: "int list" where
  "STATUS_OPERATIONAL = [RUNNING, STOPPED, STOPPING, NOTREADY, NOTREADY_STOPPED, NOTREADY_RUNNING,
     NOTREADY_NOTCREATED]"

definition STATUS_NOTREADY :: "(int \<times> int) list" where
  "STATUS_NOTREADY = [(NOTREADY, NOTREADY), (STOPPED, NOTREADY_STOPPED), (RUNNING, NOTREADY_RUNNING),
     (FROZEN, NOTREADY_FROZEN), (NOTCREATED, NOTREADY_NOTCREATED)]"

definition STATUS_TRANSITION_DICT :: "(string \<times> int) list" where
  "STATUS_TRANSITION_DICT = [(''start'', RUNNING), (''stop'', STOPPED), (''reboot'', RUNNING)]"

definition set_notready :: "vm \<Rightarrow> vm" where
  "set_notready x = x\<lparr>v_status := (case map_of STATUS_NOTREADY (v_status x) of Some s \<Rightarrow> s | None \<Rightarrow> NOTREADY)\<rparr>"

definition revert_notready :: "vm \<Rightarrow> vm" where
  "revert_notready x = x\<lparr>v_status :=
     (case map_of (map (\<lambda>(a, b). (b, a)) STATUS_NOTREADY) (v_status x) of Some s \<Rightarrow> s | None \<Rightarrow> v_status x)\<rparr>"

definition is_notcreated :: "vm \<Rightarrow> bool" where "is_notcreated x \<longleftrightarrow> v_status x = NOTCREATED"
definition is_deployed :: "vm \<Rightarrow> bool" where "is_deployed x \<longleftrightarrow> v_status x \<noteq> NOTCREATED"
definition is_hvm :: "vm \<Rightarrow> bool" where "is_hvm x \<longleftrightarrow> v_hvm_type x \<in> set HVM"
definition is_kvm :: "vm \<Rightarrow> bool" where "is_kvm x \<longleftrightarrow> v_hvm_type x = Hypervisor_KVM"
definition is_bhyve :: "vm \<Rightarrow> bool" where "is_bhyve x \<longleftrightarrow> v_hvm_type x = Hypervisor_BHYVE"
definition is_slave_vm :: "vm \<Rightarrow> bool" where "is_slave_vm x \<longleftrightarrow> v_slavevm x \<noteq> None"
definition vm_locked :: "vm \<Rightarrow> bool" where "vm_locked x \<longleftrightarrow> v_slave_vms x \<noteq> []"

definition is_deploying :: "vm \<Rightarrow> bool" where
  "is_deploying x \<longleftrightarrow> v_status x \<in> {CREATING, DEPLOYING_DUMMY, DEPLOYING_START, DEPLOYING_FINISH}"

definition add_slave_vm :: "string \<Rightarrow> vm \<Rightarrow> vm" where
  "add_slave_vm uuid x = x\<lparr>v_slave_vms := List.insert uuid (v_slave_vms x)\<rparr>"

definition delete_slave_vm :: "string \<Rightarrow> vm \<Rightarrow> vm res" where
  "delete_slave_vm uuid x = (if uuid \<in> set (v_slave_vms x)
     then Inr (x\<lparr>v_slave_vms := removeAll uuid (v_slave_vms x)\<rparr>) else Inl (Exn KeyError uuid))"

section \<open>Brands\<close>

definition HVM_TYPE_BRAND :: "(int \<times> string) list" where
  "HVM_TYPE_BRAND = [(Hypervisor_KVM, ''kvm''), (Hypervisor_BHYVE, ''bhyve''), (Hypervisor_NONE, ''none'')]"

definition OSTYPE_BRAND :: "(int \<times> string) list" where
  "OSTYPE_BRAND = [(LINUX, ''hvm''), (SUNOS, ''hvm''), (BSD, ''hvm''), (WINDOWS, ''hvm''),
     (SUNOS_ZONE, ''joyent''), (LINUX_ZONE, ''lx'')]"

definition COMPATIBLE_BRANDS :: "(string \<times> string list) list" where
  "COMPATIBLE_BRANDS = [(''kvm'', [''kvm'', ''bhyve'', ''hvm'']), (''bhyve'', [''kvm'', ''bhyve'', ''hvm'']),
     (''hvm'', [''kvm'', ''bhyve'', ''hvm'']), (''none'', [''none'']), (''joyent'', [''joyent'']), (''lx'', [''lx''])]"

text \<open>A brand name or a hypervisor type that is looked up first.\<close>

definition has_compatible_brand :: "vm \<Rightarrow> pyid \<Rightarrow> bool" where
  "has_compatible_brand x brand =
     (case (case brand of IdInt i \<Rightarrow> map_of HVM_TYPE_BRAND i | IdStr s \<Rightarrow> Some s) of
        None \<Rightarrow> False
      | Some b \<Rightarrow>
          (case dget (v_json x) ''brand'' (VStr ''kvm'') of
             VStr own \<Rightarrow> (case map_of COMPATIBLE_BRANDS own of None \<Rightarrow> False | Some bs \<Rightarrow> b \<in> set bs)
           | _ \<Rightarrow> False))"

definition brand_to_hvm_type :: "string \<Rightarrow> int res" where
  "brand_to_hvm_type brand =
     (if map_of COMPATIBLE_BRANDS brand = None then Inl (Exn KeyError (''Unknown brand specified: '' @ brand))
      else Inr (if brand = ''kvm'' then Hypervisor_KVM else if brand = ''bhyve'' then Hypervisor_BHYVE
                else Hypervisor_NONE))"

section \<open>Items of the definition\<close>

text \<open>\<open>save_item\<close>, \<open>save_items\<close> and \<open>delete_item\<close> without the final save.\<close>

definition in_metadata :: "string \<Rightarrow> (pydict \<Rightarrow> pydict) \<Rightarrow> pydict \<Rightarrow> pydict res" where
  "in_metadata md f d = (case map_of d md of
      None \<Rightarrow> Inr (AList.update md (VDict (f [])) d)
    | Some (VDict m) \<Rightarrow> Inr (AList.update md (VDict (f m)) d)
    | Some _ \<Rightarrow> Inl (Exn TypeError ''item assignment''))"

definition save_item :: "string \<Rightarrow> pyval \<Rightarrow> string option \<Rightarrow> vm \<Rightarrow> vm res" where
  "save_item key value metadata x = (case metadata of
      None \<Rightarrow> Inr (x\<lparr>v_json := AList.update key value (v_json x)\<rparr>)
    | Some md \<Rightarrow> rbind (in_metadata md (AList.update key value) (v_json x)) (\<lambda>d. Inr (x\<lparr>v_json := d\<rparr>)))"

definition save_items :: "pydict \<Rightarrow> string option \<Rightarrow> vm \<Rightarrow> vm res" where
  "save_items items metadata x = (case metadata of
      None \<Rightarrow> Inr (x\<lparr>v_json := dupdate (v_json x) items\<rparr>)
    | Some md \<Rightarrow> rbind (in_metadata md (\<lambda>m. dupdate m items) (v_json x)) (\<lambda>d. Inr (x\<lparr>v_json := d\<rparr>)))"

definition delete_item :: "string \<Rightarrow> string option \<Rightarrow> vm \<Rightarrow> vm res" where
  "delete_item key metadata x = (case metadata of
      None \<Rightarrow> Inr (x\<lparr>v_json := AList.delete key (v_json x)\<rparr>)
    | Some md \<Rightarrow> (case map_of (v_json x) md of
          None \<Rightarrow> Inr x
        | Some (VDict m) \<Rightarrow> Inr (x\<lparr>v_json := AList.update md (VDict (AList.delete key m)) (v_json x)\<rparr>)
        | Some _ \<Rightarrow> Inl (Exn TypeError ''item deletion'')))"

definition save_metadata :: "string \<Rightarrow> pyval \<Rightarrow> vm \<Rightarrow> vm res" where
  "save_metadata key value x = save_item key value (Some ''internal_metadata'') x"

definition delete_metadata :: "string \<Rightarrow> vm \<Rightarrow> vm res" where
  "delete_metadata key x = delete_item key (Some ''internal_metadata'') x"

definition internal_metadata :: "vm \<Rightarrow> pyval" where
  "internal_metadata x = dget (v_json x) ''internal_metadata'' (VDict [])"

definition customer_metadata :: "vm \<Rightarrow> pyval" where
  "customer_metadata x = dget (v_json x) ''customer_metadata'' (VDict [])"

definition set_customer_metadata :: "pyval \<Rightarrow> vm \<Rightarrow> vm res" where
  "set_customer_metadata v x = (case v of
      VDict _ \<Rightarrow> Inr (x\<lparr>v_json := AList.update ''customer_metadata'' v (v_json x)\<rparr>)
    | _ \<Rightarrow> Inl (Exn AssertionError []))"

definition save_info :: "string \<Rightarrow> pyval \<Rightarrow> vm \<Rightarrow> vm" where
  "save_info key value x = x\<lparr>v_info := AList.update key value (v_info x)\<rparr>"

text \<open>An attribute of the internal metadata that is removed when it is set to \<open>None\<close>.\<close>

definition set_opt_metadata :: "string \<Rightarrow> pyval \<Rightarrow> vm \<Rightarrow> vm res" where
  "set_opt_metadata key value x = (if value = VNone then delete_metadata key x else save_metadata key value x)"

definition get_metadata :: "string \<Rightarrow> pyval \<Rightarrow> vm \<Rightarrow> pyval res" where
  "get_metadata key dflt x = vget (internal_metadata x) key dflt"

definition get_item :: "string \<Rightarrow> pyval \<Rightarrow> vm \<Rightarrow> pyval res" where
  "get_item key dflt x = Inr (dget (v_json x) key dflt)"

definition set_item_zone :: "string \<Rightarrow> pyval \<Rightarrow> vm \<Rightarrow> vm res" where
  "set_item_zone key value x = (if \<not> is_hvm x then save_item key value None x else Inr x)"

section \<open>Attributes\<close>

text \<open>Settings of a datacenter that attributes fall back to.\<close>

record dc_settings =
  ds_mon_port :: pyval
  ds_mon_useip :: pyval
  ds_mon_proxy :: pyval
  ds_dns_enabled :: bool

definition monitoring_ip :: "vm \<Rightarrow> pyval res" where
  "monitoring_ip x = get_metadata ''mon_ip'' (VStr []) x"

definition set_monitoring_ip :: "string option \<Rightarrow> vm \<Rightarrow> vm res" where
  "set_monitoring_ip v x = save_metadata ''mon_ip'' (VStr (case v of None \<Rightarrow> [] | Some s \<Rightarrow> s)) x"

definition monitoring_dns :: "vm \<Rightarrow> pyval res" where
  "monitoring_dns x = get_metadata ''mon_dns'' (VStr (v_hostname x)) x"

definition set_monitoring_dns :: "string option \<Rightarrow> vm \<Rightarrow> vm res" where
  "set_monitoring_dns v x = set_opt_metadata ''mon_dns'' (case v of None \<Rightarrow> VNone | Some s \<Rightarrow> VStr s) x"

definition monitoring_port :: "dc_settings \<Rightarrow> vm \<Rightarrow> pyval res" where
  "monitoring_port ds x = get_metadata ''mon_port'' (ds_mon_port ds) x"

definition set_monitoring_port :: "pyval \<Rightarrow> vm \<Rightarrow> vm res" where
  "set_monitoring_port v x = set_opt_metadata ''mon_port'' v x"

definition monitoring_useip :: "dc_settings \<Rightarrow> vm \<Rightarrow> pyval res" where
  "monitoring_useip ds x = get_metadata ''mon_useip'' (ds_mon_useip ds) x"

definition set_monitoring_useip :: "pyval \<Rightarrow> vm \<Rightarrow> vm res" where
  "set_monitoring_useip v x = set_opt_metadata ''mon_useip'' v x"

definition monitoring_proxy :: "dc_settings \<Rightarrow> vm \<Rightarrow> pyval res" where
  "monitoring_proxy ds x = get_metadata ''mon_proxy'' (ds_mon_proxy ds) x"

definition set_monitoring_proxy :: "string option \<Rightarrow> vm \<Rightarrow> vm res" where
  "set_monitoring_proxy v x = set_opt_metadata ''mon_proxy'' (case v of None \<Rightarrow> VNone | Some s \<Rightarrow> VStr s) x"

text \<open>Lists kept as one string with commas.\<close>

definition get_comma_list :: "string \<Rightarrow> vm \<Rightarrow> string list res" where
  "get_comma_list key x = rbind (get_metadata key VNone x) (\<lambda>v. case v of
      VStr s \<Rightarrow> Inr (if s \<noteq> [] then split_on (CHR '','') s else [])
    | v \<Rightarrow> (if truthy v then Inl (Exn AttributeError ''split'') else Inr []))"

definition set_comma_list :: "string \<Rightarrow> string list \<Rightarrow> vm \<Rightarrow> vm res" where
  "set_comma_list key xs x = save_metadata key (VStr (join_with '','' xs)) x"

definition monitoring_hostgroups :: "vm \<Rightarrow> string list res" where
  "monitoring_hostgroups x = get_comma_list ''mon_hostgroups'' x"

definition set_monitoring_hostgroups :: "string list \<Rightarrow> vm \<Rightarrow> vm res" where
  "set_monitoring_hostgroups xs x = set_comma_list ''mon_hostgroups'' xs x"

definition monitoring_templates :: "vm \<Rightarrow> string list res" where
  "monitoring_templates x = get_comma_list ''mon_templates'' x"

definition set_monitoring_templates :: "string list \<Rightarrow> vm \<Rightarrow> vm res" where
  "set_monitoring_templates xs x = set_comma_list ''mon_templates'' xs x"

definition zabbix_sync :: "vm \<Rightarrow> bool" where
  "zabbix_sync x \<longleftrightarrow> \<not> truthy (dget (v_json x) ''do_not_inventory'' (VBool False))"

definition set_zabbix_sync :: "bool \<Rightarrow> vm \<Rightarrow> vm res" where
  "set_zabbix_sync v x = (if v then delete_item ''do_not_inventory'' None x
     else save_item ''do_not_inventory'' (VBool True) None x)"

definition is_zabbix_sync_active :: "vm \<Rightarrow> bool" where
  "is_zabbix_sync_active x = (if is_deployed x
     then \<not> truthy (dget (v_json_active x) ''do_not_inventory'' (VBool False))
     else (case dget (v_info x) ''zabbix'' (VDict []) of VDict d \<Rightarrow> dhas d ''hostid'' | _ \<Rightarrow> False))"

definition external_zabbix_sync :: "vm \<Rightarrow> pyval res" where
  "external_zabbix_sync x = get_metadata ''monitored'' (VBool (zabbix_sync x)) x"

definition set_external_zabbix_sync :: "pyval \<Rightarrow> vm \<Rightarrow> vm res" where
  "set_external_zabbix_sync v x = save_metadata ''monitored'' v x"

definition installed :: "vm \<Rightarrow> pyval res" where
  "installed x = get_metadata ''installed'' VNone x"

definition set_installed :: "pyval \<Rightarrow> vm \<Rightarrow> vm res" where
  "set_installed v x = save_metadata ''installed'' v x"

definition snapshot_size_percent_limit :: "vm \<Rightarrow> pyval res" where
  "snapshot_size_percent_limit x = get_metadata ''snapshot_size_percent_limit'' VNone x"

definition set_snapshot_size_percent_limit :: "pyval \<Rightarrow> vm \<Rightarrow> vm res" where
  "set_snapshot_size_percent_limit v x = set_opt_metadata ''snapshot_size_percent_limit'' v x"

definition snapshot_size_limit :: "vm \<Rightarrow> pyval res" where
  "snapshot_size_limit x = get_metadata ''snapshot_size_limit'' VNone x"

definition set_snapshot_size_limit :: "pyval \<Rightarrow> vm \<Rightarrow> vm res" where
  "set_snapshot_size_limit v x = set_opt_metadata ''snapshot_size_limit'' v x"

definition snapshot_limit_manual :: "vm \<Rightarrow> pyval res" where
  "snapshot_limit_manual x = get_metadata ''snapshot_limit_manual'' VNone x"

definition set_snapshot_limit_manual :: "pyval \<Rightarrow> vm \<Rightarrow> vm res" where
  "set_snapshot_limit_manual v x = set_opt_metadata ''snapshot_limit_manual'' v x"

definition snapshot_limit_auto :: "vm \<Rightarrow> pyval res" where
  "snapshot_limit_auto x = get_metadata ''snapshot_limit_auto'' VNone x"

definition set_snapshot_limit_auto :: "pyval \<Rightarrow> vm \<Rightarrow> vm res" where
  "set_snapshot_limit_auto v x = set_opt_metadata ''snapshot_limit_auto'' v x"

definition cpu_shares :: "vm \<Rightarrow> pyval" where "cpu_shares x = dget (v_json x) ''cpu_shares'' (VInt 100)"
definition set_cpu_shares :: "pyval \<Rightarrow> vm \<Rightarrow> vm res" where "set_cpu_shares v x = save_item ''cpu_shares'' v None x"

definition falsy_to :: "pyval \<Rightarrow> pyval \<Rightarrow> pyval" where
  "falsy_to dflt v = (if truthy v then v else dflt)"

definition routes :: "vm \<Rightarrow> pyval" where "routes x = dget (v_json x) ''routes'' (VDict [])"
definition set_routes :: "pyval \<Rightarrow> vm \<Rightarrow> vm res" where "set_routes v x = set_item_zone ''routes'' (falsy_to (VDict []) v) x"
definition dns_domain :: "vm \<Rightarrow> pyval" where "dns_domain x = dget (v_json x) ''dns_domain'' (VStr [])"
definition set_dns_domain :: "pyval \<Rightarrow> vm \<Rightarrow> vm res" where "set_dns_domain v x = set_item_zone ''dns_domain'' (falsy_to (VStr []) v) x"
definition resolvers :: "vm \<Rightarrow> pyval" where "resolvers x = dget (v_json x) ''resolvers'' (VList [])"
definition set_resolvers :: "pyval \<Rightarrow> vm \<Rightarrow> vm res" where "set_resolvers v x = save_item ''resolvers'' v None x"
definition maintain_resolvers :: "vm \<Rightarrow> pyval" where "maintain_resolvers x = dget (v_json x) ''maintain_resolvers'' (VBool False)"
definition set_maintain_resolvers :: "pyval \<Rightarrow> vm \<Rightarrow> vm res" where "set_maintain_resolvers v x = set_item_zone ''maintain_resolvers'' v x"
definition zfs_io_priority :: "vm \<Rightarrow> pyval" where "zfs_io_priority x = dget (v_json x) ''zfs_io_priority'' (VInt 100)"
definition set_zfs_io_priority :: "pyval \<Rightarrow> vm \<Rightarrow> vm res" where "set_zfs_io_priority v x = save_item ''zfs_io_priority'' v None x"
definition vga :: "vm \<Rightarrow> pyval" where "vga x = dget (v_json x) ''vga'' (VStr ''std'')"
definition set_vga :: "pyval \<Rightarrow> vm \<Rightarrow> vm res" where "set_vga v x = (if is_kvm x then save_item ''vga'' v None x else Inr x)"
definition bootrom :: "vm \<Rightarrow> pyval" where "bootrom x = dget (v_json x) ''bootrom'' (VStr [])"
definition set_bootrom :: "pyval \<Rightarrow> vm \<Rightarrow> vm res" where "set_bootrom v x = (if is_bhyve x then save_item ''bootrom'' v None x else Inr x)"
definition ZPOOL :: string where "ZPOOL = ''zones''"
definition zpool :: "vm \<Rightarrow> pyval" where "zpool x = dget (v_json x) ''zpool'' (VStr ZPOOL)"
definition set_zpool :: "string \<Rightarrow> vm \<Rightarrow> vm res" where "set_zpool v x = save_item ''zpool'' (VStr v) None x"
definition vm_brand :: "vm \<Rightarrow> pyval" where "vm_brand x = dget (v_json x) ''brand'' (VStr ''kvm'')"
definition cpu_type :: "vm \<Rightarrow> pyval" where "cpu_type x = (if is_kvm x then dget (v_json x) ''cpu_type'' (VStr ''qemu64'') else VStr [])"
definition set_cpu_type :: "pyval \<Rightarrow> vm \<Rightarrow> vm res" where "set_cpu_type v x = (if is_kvm x then save_item ''cpu_type'' v None x else Inr x)"

definition RESERVED_MDATA_KEYS :: "string list" where "RESERVED_MDATA_KEYS = [''resize_needed'']"

definition remove_reserved_mdata_keys :: "pydict \<Rightarrow> pydict" where
  "remove_reserved_mdata_keys d = filter (\<lambda>(k, _). k \<notin> set RESERVED_MDATA_KEYS) d"

definition mdata :: "vm \<Rightarrow> pydict res" where
  "mdata x = (case customer_metadata x of VDict d \<Rightarrow> Inr (remove_reserved_mdata_keys d)
     | _ \<Rightarrow> Inl (Exn AttributeError ''keys''))"

definition set_mdata :: "pydict \<Rightarrow> vm \<Rightarrow> vm res" where
  "set_mdata d x = set_customer_metadata (VDict (remove_reserved_mdata_keys d)) x"

text \<open>
  The extra options. The setter writes into the copy that reading \<open>json\<close> has produced, and the
  copy is dropped.
\<close>

definition extra_opts :: "vm \<Rightarrow> pyval" where
  "extra_opts x = (if is_kvm x \<and> dhas (v_json x) ''qemu_extra_opts'' then dget (v_json x) ''qemu_extra_opts'' VNone
     else if is_bhyve x \<and> dhas (v_json x) ''bhyve_extra_opts'' then dget (v_json x) ''bhyve_extra_opts'' VNone
     else VStr [])"

definition set_extra_opts :: "pyval \<Rightarrow> vm \<Rightarrow> vm" where
  "set_extra_opts v x =
     (let copy = (if is_kvm x then AList.update ''qemu_extra_opts'' v (v_json x)
                  else if is_bhyve x then AList.update ''bhyve_extra_opts'' v (v_json x) else v_json x)
      in x)"

section \<open>CPUs and memory\<close>

text \<open>
  The ratio is 1.0 and the burst 100, so that the products are exact; \<open>int\<close> of a quotient rounds
  towards zero.
\<close>

definition CPU_BURST_DEFAULT :: int where "CPU_BURST_DEFAULT = 100"
definition CPU_BURST_RATIO :: int where "CPU_BURST_RATIO = 1"
definition KVM_MEMORY_OVERHEAD :: int where "KVM_MEMORY_OVERHEAD = 256"
definition SWAP_MULTIPLIER :: int where "SWAP_MULTIPLIER = 2"

definition trunc_div :: "int \<Rightarrow> int \<Rightarrow> int" where
  "trunc_div a b = (if a \<ge> 0 then a div b else - ((- a) div b))"

definition as_int :: "pyval \<Rightarrow> int res" where
  "as_int v = (case v of VInt i \<Rightarrow> Inr i | VBool b \<Rightarrow> Inr (if b then 1 else 0)
     | _ \<Rightarrow> Inl (Exn TypeError ''number expected''))"

definition calculate_cpu_cap_from_vcpus :: "int \<Rightarrow> int" where
  "calculate_cpu_cap_from_vcpus vcpus =
     (if vcpus \<noteq> 0
      then vcpus * CPU_BURST_RATIO * 100 + (if vcpus = 1 then CPU_BURST_DEFAULT div 2 else CPU_BURST_DEFAULT)
      else 0)"

definition calculate_cpu_count_from_cpu_cap :: "int \<Rightarrow> int" where
  "calculate_cpu_count_from_cpu_cap cpu_cap =
     (if cpu_cap \<noteq> 0
      then let vcpus = trunc_div (cpu_cap - CPU_BURST_DEFAULT) (CPU_BURST_RATIO * 100)
           in if vcpus \<noteq> 0 then vcpus else 1
      else 0)"

definition calculate_cpu_count_from_vcpus :: "int \<Rightarrow> int" where
  "calculate_cpu_count_from_vcpus vcpus = calculate_cpu_count_from_cpu_cap (calculate_cpu_cap_from_vcpus vcpus)"

definition get_cpu_zone :: "pydict \<Rightarrow> int res" where
  "get_cpu_zone json = (case dget json ''cpu_cap'' VNone of VNone \<Rightarrow> Inr 0
     | v \<Rightarrow> rbind (as_int v) (\<lambda>c. Inr (calculate_cpu_count_from_cpu_cap c)))"

definition vcpus :: "vm \<Rightarrow> int res" where
  "vcpus x = (if is_hvm x then as_int (dget (v_json x) ''vcpus'' (VInt 0)) else get_cpu_zone (v_json x))"

definition set_vcpus :: "int \<Rightarrow> vm \<Rightarrow> vm res" where
  "set_vcpus value x =
     (let cap = VInt (calculate_cpu_cap_from_vcpus value)
      in if is_hvm x then save_items [(''vcpus'', VInt value), (''cpu_cap'', cap)] None x
         else save_item ''cpu_cap'' cap None x)"

definition ram :: "vm \<Rightarrow> int res" where
  "ram x = as_int (if is_hvm x then dget (v_json x) ''ram'' (VInt 0)
                   else dget (v_json x) ''max_physical_memory'' (VInt 0))"

definition set_ram :: "int \<Rightarrow> vm \<Rightarrow> vm res" where
  "set_ram value x =
     (let max_swap = max (value * SWAP_MULTIPLIER) 256
      in if is_hvm x
         then (let mem = value + KVM_MEMORY_OVERHEAD;
                   swap = (if max_swap < mem then mem else max_swap)
               in save_items [(''ram'', VInt value), (''max_physical_memory'', VInt mem), (''max_swap'', VInt swap),
                              (''max_locked_memory'', VInt mem)] None x)
         else save_items [(''max_physical_memory'', VInt value), (''max_swap'', VInt max_swap)] None x)"

definition ram_of :: "bool \<Rightarrow> bool \<Rightarrow> pydict \<Rightarrow> int res" where
  "ram_of hvm ram_overhead json =
     as_int (dget json (if hvm \<and> \<not> ram_overhead then ''ram'' else ''max_physical_memory'') (VInt 0))"

text \<open>\<open>ignore_cpu_ram\<close> is \<open>None\<close>, \<open>Some False\<close> or \<open>Some True\<close> like the argument of the source.\<close>

definition get_cpu_ram :: "bool \<Rightarrow> bool option \<Rightarrow> vm \<Rightarrow> (int \<times> int) res" where
  "get_cpu_ram ram_overhead ignore_cpu_ram x =
     (if ignore_cpu_ram \<noteq> Some False \<and> v_slavevm x = Some False then Inr (0, 0)
      else
        rbind (get_cpu_zone (v_json x)) (\<lambda>cpu. rbind (get_cpu_zone (v_json_active x)) (\<lambda>cpu_active.
        rbind (ram_of (is_hvm x) ram_overhead (v_json x)) (\<lambda>r.
        rbind (ram_of (is_hvm x) ram_overhead (v_json_active x)) (\<lambda>r_active.
          Inr (if is_deployed x then (max cpu cpu_active, max r r_active) else (cpu, r)))))))"

section \<open>Disks and network cards\<close>

fun dict_list :: "pyval list \<Rightarrow> pydict list res" where
  "dict_list [] = Inr []"
| "dict_list (VDict d # vs) = rbind (dict_list vs) (\<lambda>ds. Inr (d # ds))"
| "dict_list (_ # vs) = Inl (Exn AttributeError ''get'')"

definition get_dicts :: "pydict \<Rightarrow> string \<Rightarrow> pydict list res" where
  "get_dicts json item = (case dget json item (VList []) of VList vs \<Rightarrow> dict_list vs
     | _ \<Rightarrow> Inl (Exn TypeError ''not iterable''))"

definition is_disk :: "pydict \<Rightarrow> string option \<Rightarrow> bool" where
  "is_disk disk pool \<longleftrightarrow> (dhas disk ''size'' \<or> dhas disk ''image_uuid'')
     \<and> (case pool of Some p \<Rightarrow> p = [] \<or> py_eq (dget disk ''zpool'' (VStr ZPOOL)) (VStr p) | None \<Rightarrow> True)"

definition is_ip :: "pydict \<Rightarrow> bool" where
  "is_ip nic \<longleftrightarrow> truthy (dget nic ''ip'' VNone) \<and> \<not> py_eq (dget nic ''ip'' VNone) (VStr ''dhcp'')"

definition zone_disk :: "string \<Rightarrow> pyval \<Rightarrow> int \<Rightarrow> bool \<Rightarrow> pyval \<Rightarrow> pyval \<Rightarrow> string \<Rightarrow> pydict" where
  "zone_disk path fs quota boot compression block_size pool =
     [(''path'', VStr path), (''zfs_filesystem'', fs), (''size'', VInt quota), (''refreservation'', VInt 0),
      (''boot'', VBool boot), (''model'', VStr ''zfs''), (''compression'', compression),
      (''block_size'', block_size), (''zpool'', VStr pool)]"

definition zone_disks :: "string \<Rightarrow> pydict \<Rightarrow> bool \<Rightarrow> string \<Rightarrow> int \<Rightarrow> pydict list" where
  "zone_disks uuid json notcreated pool quota =
     (let root = pool @ ''/'' @ uuid;
          data = root @ ''/data'';
          disk0 = zone_disk ''disk0'' (dget json ''zfs_filesystem'' (VStr root)) quota True
                    (dget json ''zfs_root_compression'' (VStr ''off'')) (dget json ''zfs_root_recsize'' (VInt 131072)) pool;
          img = dget json ''image_uuid'' VNone;
          has_data = (notcreated \<and> truthy (dget json ''delegate_dataset'' (VBool False)))
            \<or> (case dget json ''datasets'' (VList []) of VList vs \<Rightarrow> VStr data \<in> set vs | _ \<Rightarrow> False)
      in (if truthy img then AList.update ''image_uuid'' img disk0 else disk0) #
         (if has_data
          then [zone_disk ''disk1'' (VStr data) quota False (dget json ''zfs_data_compression'' (VStr ''off''))
                  (dget json ''zfs_data_recsize'' (VInt 131072)) pool] else []))"

definition parse_json_disks :: "string \<Rightarrow> pydict \<Rightarrow> bool \<Rightarrow> bool \<Rightarrow> string option \<Rightarrow> pydict list res" where
  "parse_json_disks uuid json hvm notcreated pool =
     (if hvm then rbind (get_dicts json ''disks'') (\<lambda>ds. Inr (filter (\<lambda>d. is_disk d pool) ds))
      else (case dget json ''zpool'' (VStr ZPOOL) of
              VStr zp \<Rightarrow>
                (if (case pool of Some p \<Rightarrow> p \<noteq> [] \<and> zp \<noteq> p | None \<Rightarrow> False) then Inr []
                 else rbind (as_int (dget json ''quota'' (VInt 0)))
                        (\<lambda>q. Inr (zone_disks uuid json notcreated zp (q * 1024))))
            | _ \<Rightarrow> Inl (Exn TypeError ''zpool'')))"

definition vm_disks :: "pydict \<Rightarrow> string option \<Rightarrow> vm \<Rightarrow> pydict list res" where
  "vm_disks json pool x = parse_json_disks (v_uuid x) json (is_hvm x) (is_notcreated x) pool"

definition json_get_disks :: "vm \<Rightarrow> pydict list res" where "json_get_disks x = vm_disks (v_json x) None x"
definition json_active_get_disks :: "vm \<Rightarrow> pydict list res" where "json_active_get_disks x = vm_disks (v_json_active x) None x"

text \<open>\<open>re.split('-|/', s)[-1]\<close> and \<open>lstrip\<close>.\<close>

definition last_part :: "string \<Rightarrow> string" where
  "last_part s = rev (takeWhile (\<lambda>c. c \<noteq> CHR ''-'' \<and> c \<noteq> CHR ''/'') (rev s))"

definition lstrip :: "string \<Rightarrow> string \<Rightarrow> string" where
  "lstrip chars s = dropWhile (\<lambda>c. c \<in> set chars) s"

definition get_real_disk_id :: "pydict \<Rightarrow> int res" where
  "get_real_disk_id disk = rbind (ditem disk ''path'') (\<lambda>v. case v of
      VStr p \<Rightarrow> str_int (lstrip ''disk'' (last_part p)) | _ \<Rightarrow> Inl (Exn TypeError ''string expected''))"

definition get_real_nic_id :: "pydict \<Rightarrow> int res" where
  "get_real_nic_id nic = rbind (ditem nic ''interface'') (\<lambda>v. case v of
      VStr p \<Rightarrow> str_int (lstrip ''eth'' (lstrip ''net'' p)) | _ \<Rightarrow> Inl (Exn AttributeError ''lstrip''))"

fun index_map :: "(pydict \<Rightarrow> int res) \<Rightarrow> nat \<Rightarrow> pydict list \<Rightarrow> (int \<times> nat) list \<Rightarrow> (int \<times> nat) list res" where
  "index_map real_id i [] acc = Inr acc"
| "index_map real_id i (d # ds) acc = rbind (real_id d) (\<lambda>k. index_map real_id (Suc i) ds (AList.update k i acc))"

definition get_disk_map :: "pydict list \<Rightarrow> (int \<times> nat) list res" where
  "get_disk_map disks = index_map get_real_disk_id 0 disks []"

definition get_nics_map :: "pydict list \<Rightarrow> (int \<times> nat) list res" where
  "get_nics_map nics = index_map get_real_nic_id 0 nics []"

definition json_get_nics :: "vm \<Rightarrow> pydict list res" where "json_get_nics x = get_dicts (v_json x) ''nics''"
definition json_active_get_nics :: "vm \<Rightarrow> pydict list res" where "json_active_get_nics x = get_dicts (v_json_active x) ''nics''"

fun get_ips :: "bool \<Rightarrow> bool \<Rightarrow> pydict list \<Rightarrow> pyval list res" where
  "get_ips primary_ips allowed_ips [] = Inr []"
| "get_ips primary_ips allowed_ips (nic # nics) =
     rbind (if allowed_ips
            then (case dget nic ''allowed_ips'' (VList []) of VList vs \<Rightarrow> Inr vs | _ \<Rightarrow> Inl (Exn TypeError ''not iterable''))
            else Inr [])
       (\<lambda>allowed. rbind (get_ips primary_ips allowed_ips nics) (\<lambda>rest.
          Inr ((if primary_ips \<and> is_ip nic then [dget nic ''ip'' VNone] else []) @ allowed @ rest)))"

fun primary_ip_of :: "pydict list \<Rightarrow> pyval res" where
  "primary_ip_of [] = Inl (Exn LookupError ''Primary IP not found'')"
| "primary_ip_of (nic # nics) =
     (if is_ip nic \<and> truthy (dget nic ''primary'' (VBool False)) then ditem nic ''ip'' else primary_ip_of nics)"

definition interface_prefix :: "vm \<Rightarrow> string" where
  "interface_prefix x = (if v_ostype x = LINUX_ZONE then ''eth'' else ''net'')"

definition drop_falsy :: "string \<Rightarrow> pydict \<Rightarrow> pydict" where
  "drop_falsy k d = (case map_of d k of Some v \<Rightarrow> (if truthy v then d else AList.delete k d) | None \<Rightarrow> d)"

definition NICS_REMOVE_EMPTY :: "(string \<times> pyval) list" where
  "NICS_REMOVE_EMPTY = [(''gateway'', VStr []), (''allowed_ips'', VList []), (''mtu'', VNone)]"

definition clean_nic :: "vm \<Rightarrow> nat \<Rightarrow> pydict \<Rightarrow> pydict" where
  "clean_nic x i nic =
     (let n1 = AList.update ''interface'' (VStr (interface_prefix x @ nat_str i)) nic;
          n2 = drop_falsy ''primary'' (drop_falsy ''mac'' n1);
          n3 = AList.delete ''gateways'' (AList.delete ''ips'' n2);
          n4 = (if is_hvm x then n3 else AList.delete ''model'' n3)
      in foldl (\<lambda>n (k, _). drop_falsy k n) n4 NICS_REMOVE_EMPTY)"

definition save_nics :: "pydict list \<Rightarrow> string option option \<Rightarrow> vm \<Rightarrow> vm res" where
  "save_nics nics mon_ip x =
     (let cleaned = map (\<lambda>(i, n). clean_nic x i n) (enumerate 0 nics)
      in rbind (case mon_ip of None \<Rightarrow> Inr x | Some ip \<Rightarrow> set_monitoring_ip ip x)
           (save_item ''nics'' (VList (map VDict cleaned)) None))"

text \<open>
  \<open>save_disks\<close> without the final save. For a zone the first two disks become properties of the
  definition; sizes are rounded to gigabytes.
\<close>

definition zone_root_json :: "pydict \<Rightarrow> pydict \<Rightarrow> pydict res" where
  "zone_root_json root json =
     rbind (rbind (ditem root ''size'') as_int) (\<lambda>size. rbind (ditem root ''compression'') (\<lambda>c.
     rbind (ditem root ''block_size'') (\<lambda>b. rbind (ditem root ''zpool'') (\<lambda>z.
     (let d = dupdate json [(''quota'', VInt ((2 * size + 1024) div 2048)), (''zfs_root_compression'', c),
                            (''zfs_root_recsize'', b), (''zpool'', z)]
      in if truthy (dget root ''image_uuid'' (VStr ''base-64-es''))
         then rbind (ditem root ''image_uuid'') (\<lambda>u. Inr (AList.update ''image_uuid'' u d))
         else Inr (AList.delete ''image_uuid'' d))))))"

definition zone_data_json :: "bool \<Rightarrow> pydict list \<Rightarrow> pydict \<Rightarrow> pydict res" where
  "zone_data_json notcreated rest json = (case rest of
      [] \<Rightarrow> Inr (if notcreated
                 then foldr AList.delete [''delegate_dataset'', ''zfs_data_compression'', ''zfs_data_recsize''] json
                 else json)
    | data # _ \<Rightarrow>
        (let d = (if notcreated then AList.update ''delegate_dataset'' (VBool True) json else json)
         in rbind (ditem data ''compression'') (\<lambda>c. rbind (ditem data ''block_size'') (\<lambda>b.
              Inr (dupdate d [(''zfs_data_compression'', c), (''zfs_data_recsize'', b)])))))"

definition save_disks :: "pydict list \<Rightarrow> vm \<Rightarrow> vm res" where
  "save_disks disks x =
     (if is_hvm x then save_item ''disks'' (VList (map (\<lambda>d. VDict (drop_falsy ''nocreate'' d)) disks)) None x
      else (case disks of
              [] \<Rightarrow> Inr x
            | root # rest \<Rightarrow>
                rbind (zone_root_json root (v_json x)) (\<lambda>d.
                rbind (zone_data_json (is_notcreated x) rest d) (\<lambda>e. Inr (x\<lparr>v_json := e\<rparr>)))))"

section \<open>Disk sizes\<close>

fun add_sizes :: "pydict list \<Rightarrow> (pyval \<times> int) list \<Rightarrow> (pyval \<times> int) list res" where
  "add_sizes [] acc = Inr acc"
| "add_sizes (d # ds) acc =
     rbind (ditem d ''zpool'') (\<lambda>z. rbind (rbind (ditem d ''size'') as_int) (\<lambda>n.
       add_sizes ds (AList.update z ((case map_of acc z of None \<Rightarrow> 0 | Some m \<Rightarrow> m) + n) acc)))"

definition get_disks :: "string option \<Rightarrow> bool \<Rightarrow> vm \<Rightarrow> (pyval \<times> int) list res" where
  "get_disks pool active x =
     rbind (vm_disks (if active then v_json_active x else v_json x) pool x)
       (\<lambda>ds. if is_hvm x then add_sizes ds []
             else (case ds of [] \<Rightarrow> Inr [] | root # _ \<Rightarrow> add_sizes [root] []))"

definition sum_sizes :: "(pyval \<times> int) list \<Rightarrow> int" where
  "sum_sizes d = sum_list (map snd d)"

definition get_disk_size :: "string option \<Rightarrow> vm \<Rightarrow> int res" where
  "get_disk_size pool x =
     rbind (get_disks pool False x) (\<lambda>d.
       if is_deployed x
       then rbind (get_disks pool True x) (\<lambda>a. Inr (max (sum_sizes d) (sum_sizes a)))
       else Inr (sum_sizes d))"

definition get_cpu_ram_disk :: "string option \<Rightarrow> bool \<Rightarrow> bool option \<Rightarrow> bool option \<Rightarrow> vm \<Rightarrow> (int \<times> int \<times> int) res" where
  "get_cpu_ram_disk pool ram_overhead ignore_cpu_ram ignore_disk x =
     rbind (if ignore_cpu_ram = Some True then Inr (0, 0) else get_cpu_ram ram_overhead ignore_cpu_ram x)
       (\<lambda>(cpu, r). rbind (if ignore_disk = Some True then Inr 0 else get_disk_size pool x)
         (\<lambda>dsk. Inr (cpu, r, dsk)))"

fun disk_pools :: "pydict list \<Rightarrow> pyval list res" where
  "disk_pools [] = Inr []"
| "disk_pools (d # ds) = rbind (ditem d ''zpool'') (\<lambda>z. rbind (disk_pools ds) (\<lambda>zs. Inr (z # zs)))"

definition get_used_disk_pools :: "vm \<Rightarrow> pyval list res" where
  "get_used_disk_pools x =
     (let root = dget (v_json x) ''zpool'' (VStr ZPOOL);
          base = [root, dget (v_json_active x) ''zpool'' root]
      in if is_hvm x
         then rbind (rbind (vm_disks (v_json x) None x) disk_pools) (\<lambda>a.
              rbind (rbind (vm_disks (v_json_active x) None x) disk_pools) (\<lambda>b. Inr (remdups (base @ a @ b))))
         else Inr (remdups base))"

fun image_uuids :: "string option \<Rightarrow> pydict list \<Rightarrow> pyval list" where
  "image_uuids pool [] = []"
| "image_uuids pool (d # ds) =
     (case map_of d ''image_uuid'' of
        None \<Rightarrow> image_uuids pool ds
      | Some u \<Rightarrow>
          (if (case pool of Some p \<Rightarrow> p = [] \<or> py_eq (dget d ''zpool'' VNone) (VStr p) | None \<Rightarrow> True)
           then u # image_uuids pool ds else image_uuids pool ds))"

definition get_image_uuids :: "string option \<Rightarrow> vm \<Rightarrow> pyval list res" where
  "get_image_uuids pool x =
     rbind (json_get_disks x) (\<lambda>a. rbind (if is_deployed x then json_active_get_disks x else Inr [])
       (\<lambda>b. Inr (remdups (image_uuids pool (a @ b)))))"

definition is_blank :: "vm \<Rightarrow> bool res" where
  "is_blank x = rbind (json_get_disks x) (\<lambda>ds. Inr (case ds of [] \<Rightarrow> True | d # _ \<Rightarrow> \<not> dhas d ''image_uuid''))"

definition is_bootable :: "vm \<Rightarrow> bool res" where
  "is_bootable x = (if is_hvm x
     then rbind (json_get_disks x) (\<lambda>ds. Inr (ds = [] \<or> list_ex (\<lambda>d. truthy (dget d ''boot'' (VBool False))) ds))
     else rbind (is_blank x) (\<lambda>b. Inr (\<not> b)))"

section \<open>Contracts of the attributes\<close>

text \<open>
  An attribute that is stored in the definition: a value that was written is read back, and
  nothing but the definition changes. An optional one reads as its default after it was removed.
\<close>

locale vm_attribute =
  fixes get :: "vm \<Rightarrow> 'a res" and put :: "'a \<Rightarrow> vm \<Rightarrow> vm res" and valid :: "'a \<Rightarrow> bool"
  assumes get_put: "valid v \<Longrightarrow> put v x = Inr y \<Longrightarrow> get y = Inr v"
    and put_frame: "put v x = Inr y \<Longrightarrow> y = x\<lparr>v_json := v_json y\<rparr>"
begin

lemma last_write_wins: "valid w \<Longrightarrow> put v x = Inr y \<Longrightarrow> put w y = Inr z \<Longrightarrow> get z = Inr w"
  by (rule get_put)

lemma keeps_status: "put v x = Inr y \<Longrightarrow> v_status y = v_status x \<and> v_json_active y = v_json_active x"
proof -
  assume "put v x = Inr y"
  note f = put_frame [OF this]
  from arg_cong [OF f, of v_status] arg_cong [OF f, of v_json_active] show ?thesis by simp
qed

end

locale optional_attribute = vm_attribute get put "\<lambda>v. v \<noteq> VNone"
  for get :: "vm \<Rightarrow> pyval res" and put :: "pyval \<Rightarrow> vm \<Rightarrow> vm res" +
  fixes dflt :: pyval
  assumes get_removed: "put VNone x = Inr y \<Longrightarrow> get y = Inr dflt"
begin

lemma get_after: "put v x = Inr y \<Longrightarrow> get y = Inr (if v = VNone then dflt else v)"
  using get_put get_removed by (cases "v = VNone") auto

end

lemma in_metadata_lookup:
  assumes "in_metadata md f d = Inr e"
  shows "\<exists>m. (map_of d md = Some (VDict m) \<or> map_of d md = None \<and> m = [])
    \<and> map_of e md = Some (VDict (f m)) \<and> (\<forall>k. k \<noteq> md \<longrightarrow> map_of e k = map_of d k)"
  using assms by (auto simp: in_metadata_def dict_simps split: option.splits pyval.splits)

lemma save_metadata_get:
  assumes "save_metadata key v x = Inr y"
  shows "get_metadata key dflt y = Inr v" and "y = x\<lparr>v_json := v_json y\<rparr>"
    and "k \<noteq> key \<Longrightarrow> get_metadata k dflt y = get_metadata k dflt x"
proof -
  from assms obtain d where d: "in_metadata ''internal_metadata'' (AList.update key v) (v_json x) = Inr d"
    and y: "y = x\<lparr>v_json := d\<rparr>"
    by (auto simp: save_metadata_def save_item_def rbind_Inr_iff)
  note m = in_metadata_lookup [OF d]
  show "get_metadata key dflt y = Inr v" and "y = x\<lparr>v_json := v_json y\<rparr>"
    and "k \<noteq> key \<Longrightarrow> get_metadata k dflt y = get_metadata k dflt x"
    using m y by (auto simp: get_metadata_def internal_metadata_def vget_def dget_def dict_simps)
qed

lemma delete_metadata_get:
  assumes "delete_metadata key x = Inr y"
  shows "get_metadata key dflt y = Inr dflt" and "y = x\<lparr>v_json := v_json y\<rparr>"
    and "k \<noteq> key \<Longrightarrow> get_metadata k dflt y = get_metadata k dflt x"
  using assms
  by (auto simp: delete_metadata_def delete_item_def get_metadata_def internal_metadata_def vget_def dget_def
      dict_simps split: option.splits pyval.splits)

lemma set_opt_metadata_get:
  assumes "set_opt_metadata key v x = Inr y"
  shows "get_metadata key dflt y = Inr (if v = VNone then dflt else v)" and "y = x\<lparr>v_json := v_json y\<rparr>"
    and "k \<noteq> key \<Longrightarrow> get_metadata k dflt y = get_metadata k dflt x"
  using assms save_metadata_get [of key v x y] delete_metadata_get [of key x y]
  by (auto simp: set_opt_metadata_def split: if_splits)

interpretation size_limit: optional_attribute snapshot_size_limit set_snapshot_size_limit VNone
  by unfold_locales (auto simp: snapshot_size_limit_def set_snapshot_size_limit_def dest: set_opt_metadata_get)

interpretation percent_limit: optional_attribute snapshot_size_percent_limit set_snapshot_size_percent_limit VNone
  by unfold_locales (auto simp: snapshot_size_percent_limit_def set_snapshot_size_percent_limit_def
      dest: set_opt_metadata_get)

interpretation manual_limit: optional_attribute snapshot_limit_manual set_snapshot_limit_manual VNone
  by unfold_locales (auto simp: snapshot_limit_manual_def set_snapshot_limit_manual_def dest: set_opt_metadata_get)

interpretation auto_limit: optional_attribute snapshot_limit_auto set_snapshot_limit_auto VNone
  by unfold_locales (auto simp: snapshot_limit_auto_def set_snapshot_limit_auto_def dest: set_opt_metadata_get)

interpretation mon_port: optional_attribute "monitoring_port ds" set_monitoring_port "ds_mon_port ds"
  by unfold_locales (auto simp: monitoring_port_def set_monitoring_port_def dest: set_opt_metadata_get)

interpretation mon_useip: optional_attribute "monitoring_useip ds" set_monitoring_useip "ds_mon_useip ds"
  by unfold_locales (auto simp: monitoring_useip_def set_monitoring_useip_def dest: set_opt_metadata_get)

interpretation vm_installed: vm_attribute installed set_installed "\<lambda>_. True"
  by unfold_locales (auto simp: installed_def set_installed_def dest: save_metadata_get)

text \<open>Lists of names without commas, and not the list with one empty name.\<close>

definition comma_names :: "string list \<Rightarrow> bool" where
  "comma_names xs \<longleftrightarrow> (\<forall>s \<in> set xs. CHR '','' \<notin> set s) \<and> xs \<noteq> [[]]"

lemma join_nonempty: "xs \<noteq> [] \<Longrightarrow> xs \<noteq> [[]] \<Longrightarrow> join_with '','' xs \<noteq> []"
proof (cases xs)
  case (Cons a ys)
  then show "xs \<noteq> [] \<Longrightarrow> xs \<noteq> [[]] \<Longrightarrow> join_with '','' xs \<noteq> []" by (cases ys) auto
qed simp

lemma comma_list_get:
  assumes "set_comma_list key xs x = Inr y" "comma_names xs"
  shows "get_comma_list key y = Inr xs"
  using assms save_metadata_get(1) [of key "VStr (join_with '','' xs)" x y VNone]
  by (cases "xs = []") (auto simp: set_comma_list_def get_comma_list_def comma_names_def join_nonempty split_join_with)

interpretation hostgroups: vm_attribute monitoring_hostgroups set_monitoring_hostgroups comma_names
  by unfold_locales (auto simp: monitoring_hostgroups_def set_monitoring_hostgroups_def comma_list_get
      set_comma_list_def dest: save_metadata_get)

interpretation templates: vm_attribute monitoring_templates set_monitoring_templates comma_names
  by unfold_locales (auto simp: monitoring_templates_def set_monitoring_templates_def comma_list_get
      set_comma_list_def dest: save_metadata_get)

section \<open>Properties\<close>

text \<open>
  Marking a VM as not ready and reverting it. From each of the statuses stopped, running,
  frozen and not created (and from not ready itself), \<open>revert_notready\<close> after \<open>set_notready\<close>
  restores the object; while it is marked, its status is none of the normal ones.
\<close>

theorem notready_roundtrip:
  assumes "v_status x \<in> {STOPPED, RUNNING, FROZEN, NOTCREATED, NOTREADY}"
  shows "revert_notready (set_notready x) = x
    \<and> v_status (set_notready x) \<notin> {STOPPED, RUNNING, STOPPING, FROZEN, NOTCREATED}"
  using assms
  by (auto simp: revert_notready_def set_notready_def STATUS_NOTREADY_def status_defs)

definition demo_vm :: vm where
  "demo_vm = \<lparr>v_uuid = ''u'', v_hostname = ''h'', v_alias = ''a'', v_vnc_port = None, v_ostype = LINUX,
     v_hvm_type = Hypervisor_KVM, v_status = RUNNING, v_owner = 2, v_node = None, v_uptime = 0,
     v_uptime_changed = 0, v_json = [], v_json_active = [], v_info = [], v_slave_vms = [], v_created = Some 0,
     v_slavevm = None, v_orig_node = None, v_node_changed = False, v_status_display = None,
     v_dc = 1, v_template = None, v_fqdn_hostname = None, v_fqdn_domain = None, v_orig_status = RUNNING,
     v_status_change = None, v_changed = None, v_lock = False, v_update_changed = False\<rparr>"

theorem notready_roundtrip_witness:
  "revert_notready (set_notready demo_vm) = demo_vm \<and> v_status (set_notready demo_vm) \<noteq> RUNNING"
  using notready_roundtrip [of demo_vm] by (simp add: demo_vm_def)

text \<open>
  Writing one of the four snapshot limits of a VM (or removing it with \<open>None\<close>) makes it read
  as written, and leaves the other three limits, the status and the active definition alone.
\<close>

theorem snapshot_limits_independent:
  assumes "set_snapshot_size_limit v x = Inr y"
  shows "snapshot_size_limit y = Inr v \<and> snapshot_size_percent_limit y = snapshot_size_percent_limit x
    \<and> snapshot_limit_manual y = snapshot_limit_manual x \<and> snapshot_limit_auto y = snapshot_limit_auto x
    \<and> v_status y = v_status x \<and> v_json_active y = v_json_active x"
  using size_limit.get_after [OF assms] size_limit.keeps_status [OF assms]
    set_opt_metadata_get(3) [of "''snapshot_size_limit''" v x y _ VNone] assms
  by (cases "v = VNone")
     (simp_all add: snapshot_size_percent_limit_def snapshot_limit_manual_def snapshot_limit_auto_def
       set_snapshot_size_limit_def)

theorem snapshot_limits_independent_witness:
  "\<exists>y. set_snapshot_size_limit (VInt 5) demo_vm = Inr y \<and> snapshot_size_limit y = Inr (VInt 5)
    \<and> snapshot_limit_auto y = Inr VNone"
proof -
  have "\<exists>y. set_snapshot_size_limit (VInt 5) demo_vm = Inr y"
    by (simp add: set_snapshot_size_limit_def set_opt_metadata_def save_metadata_def save_item_def
        in_metadata_def demo_vm_def)
  then obtain y where y: "set_snapshot_size_limit (VInt 5) demo_vm = Inr y" by blast
  from snapshot_limits_independent [OF y] y show ?thesis
    by (auto simp: snapshot_limit_auto_def get_metadata_def internal_metadata_def vget_def dget_def demo_vm_def)
qed

lemma cpu_count_of_vcpus: "v \<ge> 1 \<Longrightarrow> calculate_cpu_count_from_vcpus v = v"
  by (auto simp: calculate_cpu_count_from_vcpus_def calculate_cpu_count_from_cpu_cap_def
      calculate_cpu_cap_from_vcpus_def CPU_BURST_RATIO_def CPU_BURST_DEFAULT_def trunc_div_def Let_def)

lemma get_cpu_zone_cap: "map_of d ''cpu_cap'' = Some (VInt c) \<Longrightarrow> get_cpu_zone d = Inr (calculate_cpu_count_from_cpu_cap c)"
  by (simp add: get_cpu_zone_def dget_def as_int_def)

text \<open>
  C30. Accounting of CPUs and memory. After the number of virtual CPUs is set to a positive number,
  exactly this number is accounted (although the CPU cap includes a burst), for hypervisors and
  zones alike; after the memory is set, a hypervisor VM is accounted with its overhead, and the
  swap limit is never below the memory limit nor below 256 MB.
\<close>

theorem cpu_ram_accounting:
  assumes "set_vcpus n x = Inr y" "n \<ge> 1" "set_ram m y = Inr z" "m \<ge> 0"
  shows "vcpus z = Inr n \<and> ram z = Inr m \<and> get_cpu_zone (v_json z) = Inr n
    \<and> ram_of (is_hvm z) True (v_json z) = Inr (if is_hvm x then m + 256 else m)
    \<and> (\<exists>s. map_of (v_json z) ''max_swap'' = Some (VInt s) \<and> s \<ge> 256
         \<and> s \<ge> (if is_hvm x then m + 256 else m))"
proof -
  note cnt = cpu_count_of_vcpus [OF assms(2), unfolded calculate_cpu_count_from_vcpus_def]
  have hv: "is_hvm z = is_hvm x" "is_hvm y = is_hvm x"
    using assms(1,3) by (auto simp: set_vcpus_def set_ram_def save_items_def save_item_def is_hvm_def Let_def
        split: if_splits)
  have cap: "map_of (v_json z) ''cpu_cap'' = Some (VInt (calculate_cpu_cap_from_vcpus n))"
    and vc: "is_hvm x \<Longrightarrow> map_of (v_json z) ''vcpus'' = Some (VInt n)"
    using assms(1,3) hv by (auto simp: set_vcpus_def set_ram_def save_items_def save_item_def Let_def dict_simps)
  have mem: "map_of (v_json z) ''max_physical_memory'' = Some (VInt (if is_hvm x then m + 256 else m))"
    and r: "is_hvm x \<Longrightarrow> map_of (v_json z) ''ram'' = Some (VInt m)"
    and sw: "\<exists>s. map_of (v_json z) ''max_swap'' = Some (VInt s) \<and> s \<ge> 256 \<and> s \<ge> (if is_hvm x then m + 256 else m)"
    using assms(3,4) hv
    by (auto simp: set_ram_def save_items_def Let_def dict_simps KVM_MEMORY_OVERHEAD_def SWAP_MULTIPLIER_def)
  show ?thesis
    using get_cpu_zone_cap [OF cap] cnt cap vc mem r sw hv
    by (auto simp: vcpus_def ram_def ram_of_def dget_def as_int_def)
qed

theorem cpu_ram_accounting_witness:
  "\<exists>y z. set_vcpus 4 demo_vm = Inr y \<and> set_ram 1024 y = Inr z \<and> vcpus z = Inr 4
    \<and> ram_of True True (v_json z) = Inr 1280"
proof -
  have h: "is_hvm demo_vm" by (simp add: is_hvm_def demo_vm_def type_defs)
  obtain y where y: "set_vcpus 4 demo_vm = Inr y" by (simp add: set_vcpus_def save_items_def h)
  obtain z where z: "set_ram 1024 y = Inr z" by (cases "is_hvm y") (auto simp: set_ram_def save_items_def Let_def)
  have "is_hvm z" using y z h
    by (auto simp: set_vcpus_def set_ram_def save_items_def is_hvm_def Let_def split: if_splits)
  with cpu_ram_accounting [OF y _ z] y z h show ?thesis by auto
qed

end
