(* ===== verification/Vm_Update.thy ===== *)
theory Vm_Update
  imports Vm_Model
begin

text \<open>
  The operations of \<^verbatim>\<open>vms/models/vm.py\<close> that prepare the definition of a VM for a compute
  node: the update command computed from \<open>json\<close> and \<open>json_active\<close>, the synchronisation of the
  definition with the fields of the object, the definition used for creation, and the choice of
  hypervisor, node, VNC port and host name. Queries to the database are arguments.
\<close>

section \<open>The update command\<close>

definition nested_part :: "string \<Rightarrow> string \<Rightarrow> pyval list \<Rightarrow> pydict" where
  "nested_part pre item vs = (if vs \<noteq> [] then [(pre @ item, VList vs)] else [])"

definition create_json_update_nested :: "string \<Rightarrow> string \<Rightarrow> (string \<times> pyval) list \<Rightarrow> vm \<Rightarrow> pydict res" where
  "create_json_update_nested item key remove_empty x =
     rbind (get_dicts (v_json x) item) (\<lambda>j. rbind (get_dicts (v_json_active x) item) (\<lambda>j_active.
     rbind (diff_dict_nested (pair_keys_to_items j_active key) (pair_keys_to_items j key) key remove_empty)
       (\<lambda>(add, remove, update).
          Inr (nested_part ''remove_'' item remove @ nested_part ''add_'' item (map VDict add)
               @ nested_part ''update_'' item (map VDict update)))))"

definition DISKS_REMOVE_EMPTY :: "(string \<times> pyval) list" where "DISKS_REMOVE_EMPTY = []"

definition create_json_update_disks :: "vm \<Rightarrow> pydict res" where
  "create_json_update_disks x =
     (if is_hvm x then create_json_update_nested ''disks'' ''path'' DISKS_REMOVE_EMPTY x else Inr [])"

definition create_json_update_nics :: "vm \<Rightarrow> pydict res" where
  "create_json_update_nics x = create_json_update_nested ''nics'' ''mac'' NICS_REMOVE_EMPTY x"

definition noupdate :: "string list" where
  "noupdate = [''uuid'', ''brand'', ''create_timestamp'', ''customer_metadata'', ''datasets'', ''delegate_dataset'',
     ''disks'', ''filesystems'', ''image_uuid'', ''internal_metadata'', ''last_modified'', ''limit_priv'', ''nics'',
     ''mdata_exec_timeout'', ''nowait'', ''pid'', ''routes'', ''server_uuid'', ''state'', ''tags'', ''type'',
     ''zfs_filesystem'', ''zfs_root_recsize'', ''zone_state'', ''zoneid'', ''zonename'', ''zonepath'', ''zpool'',
     ''datacenter_name'', ''headnode_id'', ''dns_domain'', ''exit_status'', ''exit_timestamp'']"

definition noexist_false :: "string list" where "noexist_false = [''do_not_inventory'']"

definition simple_objects :: "string list" where
  "simple_objects = [''internal_metadata'', ''customer_metadata'', ''routes'', ''tags'']"

text \<open>The plain items: without the fixed ones, with the false ones, and only those that changed.\<close>

definition changed_items :: "pydict \<Rightarrow> pydict \<Rightarrow> pydict" where
  "changed_items json json_active =
     (let r1 = foldl (\<lambda>d k. AList.delete k d) json noupdate;
          r2 = foldl (\<lambda>d k. if \<not> dhas d k \<and> dhas json_active k then AList.update k (VBool False) d else d)
                 r1 noexist_false
      in filter (\<lambda>(k, v). case map_of json_active k of Some w \<Rightarrow> \<not> py_eq v w | None \<Rightarrow> True) r2)"

text \<open>
  One of the objects that are changed with \<open>set_\<close> and \<open>remove_\<close>. A value that is not a
  dictionary raises.
\<close>

definition simple_update :: "pydict \<Rightarrow> pydict \<Rightarrow> string \<Rightarrow> pydict \<Rightarrow> pydict res" where
  "simple_update json json_active item d =
     (if dhas json_active item \<or> dhas json item
      then (case (dget json_active item (VDict []), dget json item (VDict [])) of
              (VDict old, VDict new) \<Rightarrow>
                (case diff_dict old new of (set_, remove_) \<Rightarrow>
                   (let d1 = (if remove_ \<noteq> [] then AList.update (''remove_'' @ item) (VList (map VStr remove_)) d else d)
                    in Inr (if set_ \<noteq> [] then AList.update (''set_'' @ item) (VDict set_) d1 else d1)))
            | _ \<Rightarrow> Inl (Exn AttributeError ''keys''))
      else Inr d)"

fun simple_updates :: "pydict \<Rightarrow> pydict \<Rightarrow> string list \<Rightarrow> pydict \<Rightarrow> pydict res" where
  "simple_updates json json_active [] d = Inr d"
| "simple_updates json json_active (item # items) d =
     rbind (simple_update json json_active item d) (simple_updates json json_active items)"

definition create_json_update :: "vm \<Rightarrow> pydict res" where
  "create_json_update x =
     simple_updates (v_json x) (v_json_active x) simple_objects (changed_items (v_json x) (v_json_active x))"

definition json_update :: "vm \<Rightarrow> pydict res" where
  "json_update x =
     rbind (create_json_update x) (\<lambda>d. rbind (create_json_update_nics x) (\<lambda>n.
       if is_hvm x then rbind (create_json_update_disks x) (\<lambda>s. Inr (dupdate (dupdate d n) s))
       else Inr (dupdate d n)))"

definition update_dict :: "pydict \<Rightarrow> pydict \<Rightarrow> pydict res" where
  "update_dict d u = rbind (update2 (VDict d) u)
     (\<lambda>v. case v of VDict e \<Rightarrow> Inr e | _ \<Rightarrow> Inl (Exn TypeError ''dict''))"

definition update_json :: "pydict \<Rightarrow> vm \<Rightarrow> vm res" where
  "update_json new_json x = rbind (update_dict (v_json x) new_json) (\<lambda>d. Inr (x\<lparr>v_json := d\<rparr>))"

definition json_changed :: "vm \<Rightarrow> bool" where
  "json_changed x \<longleftrightarrow> \<not> py_eq (VDict (v_json x)) (VDict (v_json_active x))"

definition dicts_changed :: "pydict list res \<Rightarrow> pydict list res \<Rightarrow> bool res" where
  "dicts_changed a b = rbind a (\<lambda>xs. rbind b (\<lambda>ys. Inr (\<not> py_eq (VList (map VDict xs)) (VList (map VDict ys)))))"

definition json_disks_changed :: "vm \<Rightarrow> bool res" where
  "json_disks_changed x = dicts_changed (json_get_disks x) (json_active_get_disks x)"

definition json_nics_changed :: "vm \<Rightarrow> bool res" where
  "json_nics_changed x = dicts_changed (json_get_nics x) (json_active_get_nics x)"

definition snapshot_quota_update_pending :: "vm \<Rightarrow> bool res" where
  "snapshot_quota_update_pending x =
     rbind (json_update x) (\<lambda>u.
     rbind (case dget u ''set_internal_metadata'' (VDict []) of VDict s \<Rightarrow> Inr (map fst s) | _ \<Rightarrow> Inl (Exn AttributeError ''keys''))
       (\<lambda>mdata.
     rbind (case dget u ''remove_internal_metadata'' (VList []) of VList r \<Rightarrow> Inr r | _ \<Rightarrow> Inl (Exn TypeError ''list''))
       (\<lambda>removed.
       Inr (list_ex (\<lambda>p. p \<in> set mdata \<or> VStr p \<in> set removed)
              [''snapshot_size_percent_limit'', ''snapshot_size_limit'']))))"

section \<open>The update command reaches the definition\<close>

lemma map_of_foldl_delete [dict_simps]:
  "map_of (foldl (\<lambda>d k. AList.delete k d) d ks) k = (if k \<in> set ks then None else map_of d k)"
  by (induction ks arbitrary: d) (auto simp: dict_simps)

lemma distinct_foldl_delete [dict_simps]:
  "distinct (map fst d) \<Longrightarrow> distinct (map fst (foldl (\<lambda>d k. AList.delete k d) d ks))"
  by (induction ks arbitrary: d) (auto simp: distinct_delete)

definition wanted :: "pydict \<Rightarrow> pydict \<Rightarrow> string \<Rightarrow> pyval option" where
  "wanted json json_active k = (if k \<in> set noupdate then None else
     (case map_of json k of Some v \<Rightarrow> Some v
      | None \<Rightarrow> if k \<in> set noexist_false \<and> dhas json_active k then Some (VBool False) else None))"

lemma map_of_changed_items:
  assumes "distinct (map fst json)"
  shows "distinct (map fst (changed_items json act))"
    and "map_of (changed_items json act) k = (case wanted json act k of None \<Rightarrow> None
      | Some v \<Rightarrow> if (\<exists>w. map_of act k = Some w \<and> py_eq v w) then None else Some v)"
proof -
  have fixed: "''do_not_inventory'' \<notin> set noupdate" by (simp add: noupdate_def)
  let ?r = "foldl (\<lambda>d k. AList.delete k d) json noupdate"
  let ?s = "if \<not> dhas ?r ''do_not_inventory'' \<and> dhas act ''do_not_inventory''
    then AList.update ''do_not_inventory'' (VBool False) ?r else ?r"
  have r: "distinct (map fst ?r)" using assms by (rule distinct_foldl_delete)
  then have s: "distinct (map fst ?s)" by (simp add: dict_simps)
  have eq: "changed_items json act =
      filter (\<lambda>(k, v). case map_of act k of Some w \<Rightarrow> \<not> py_eq v w | None \<Rightarrow> True) ?s"
    by (simp only: changed_items_def noexist_false_def Let_def foldl.simps)
  show "distinct (map fst (changed_items json act))"
    unfolding eq using s by (rule distinct_keys_filter)
  have "map_of ?s k = wanted json act k"
    using fixed by (auto simp: wanted_def noexist_false_def dict_simps dhas_iff split: option.splits)
  then show "map_of (changed_items json act) k = (case wanted json act k of None \<Rightarrow> None
      | Some v \<Rightarrow> if (\<exists>w. map_of act k = Some w \<and> py_eq v w) then None else Some v)"
    unfolding eq map_of_filter_distinct [OF s] by (auto split: option.splits)
qed

lemma simple_update_cases:
  assumes "simple_update json act item d = Inr e"
  shows "distinct (map fst d) \<Longrightarrow> distinct (map fst e)"
    and "k \<noteq> ''set_'' @ item \<Longrightarrow> k \<noteq> ''remove_'' @ item \<Longrightarrow> map_of e k = map_of d k"
  using assms
  by (auto simp: simple_update_def Let_def dict_simps split: if_splits pyval.splits prod.splits)

lemma simple_updates_distinct:
  "simple_updates json act items d = Inr e \<Longrightarrow> distinct (map fst d) \<Longrightarrow> distinct (map fst e)"
proof (induction items arbitrary: d)
  case (Cons item items)
  then obtain d1 where "simple_update json act item d = Inr d1" "simple_updates json act items d1 = Inr e"
    by (auto simp: rbind_Inr_iff)
  with Cons show ?case using simple_update_cases(1) by blast
qed simp

lemma simple_updates_other:
  assumes "simple_updates json act items d = Inr e"
    and "\<And>item. item \<in> set items \<Longrightarrow> k \<noteq> ''set_'' @ item \<and> k \<noteq> ''remove_'' @ item"
  shows "map_of e k = map_of d k"
  using assms
proof (induction items arbitrary: d)
  case (Cons item items)
  then obtain d1 where d1: "simple_update json act item d = Inr d1" "simple_updates json act items d1 = Inr e"
    by (auto simp: rbind_Inr_iff)
  have "map_of e k = map_of d1 k" using Cons d1(2) by simp
  moreover have "map_of d1 k = map_of d k"
    using simple_update_cases(2) [OF d1(1)] Cons.prems(2) [of item] by simp
  ultimately show ?case by simp
qed simp

text \<open>The difference of one object as the update command carries it.\<close>

definition payload_diff :: "pydict \<Rightarrow> string \<Rightarrow> pydict \<times> string list" where
  "payload_diff p item =
     ((case map_of p (''set_'' @ item) of Some (VDict s) \<Rightarrow> s | _ \<Rightarrow> []),
      (case map_of p (''remove_'' @ item) of
         Some (VList r) \<Rightarrow> map (\<lambda>v. case v of VStr s \<Rightarrow> s | _ \<Rightarrow> []) r | _ \<Rightarrow> []))"

definition object_of :: "pydict \<Rightarrow> string \<Rightarrow> pydict" where
  "object_of d item = (case dget d item (VDict []) of VDict m \<Rightarrow> m | _ \<Rightarrow> [])"

lemma payload_diff_cong:
  "map_of e (''set_'' @ item) = map_of d (''set_'' @ item) \<Longrightarrow>
   map_of e (''remove_'' @ item) = map_of d (''remove_'' @ item) \<Longrightarrow> payload_diff e item = payload_diff d item"
  by (simp add: payload_diff_def)

lemma simple_update_diff:
  assumes "simple_update json act item d = Inr e"
    and "map_of d (''set_'' @ item) = None" "map_of d (''remove_'' @ item) = None"
  shows "payload_diff e item = diff_dict (object_of act item) (object_of json item)"
proof (cases "dhas act item \<or> dhas json item")
  case True
  then obtain old new where on: "dget act item (VDict []) = VDict old" "dget json item (VDict []) = VDict new"
    using assms(1) by (auto simp: simple_update_def split: pyval.splits)
  obtain s r where sr: "diff_dict old new = (s, r)" by force
  have "map (\<lambda>v. case v of VStr s \<Rightarrow> s | _ \<Rightarrow> []) (map VStr r) = r" by (simp add: comp_def)
  with True on sr assms show ?thesis
    by (auto simp: simple_update_def Let_def payload_diff_def object_of_def dict_simps split: if_splits)
next
  case False
  with assms show ?thesis
    by (simp add: simple_update_def payload_diff_def object_of_def diff_dict_def dget_def dhas_iff)
qed

lemma simple_updates_diff:
  assumes "simple_updates json act items d = Inr e" "distinct items" "item \<in> set items"
    and "\<And>item. item \<in> set items \<Longrightarrow> map_of d (''set_'' @ item) = None \<and> map_of d (''remove_'' @ item) = None"
  shows "payload_diff e item = diff_dict (object_of act item) (object_of json item)"
  using assms
proof (induction items arbitrary: d)
  case (Cons i items)
  then obtain d1 where d1: "simple_update json act i d = Inr d1" "simple_updates json act items d1 = Inr e"
    by (auto simp: rbind_Inr_iff)
  note other = simple_update_cases(2) [OF d1(1)]
  show ?case
  proof (cases "item = i")
    case True
    with Cons.prems have "i \<notin> set items" by simp
    then have "payload_diff e i = payload_diff d1 i"
      by (intro payload_diff_cong simple_updates_other [OF d1(2)]) auto
    with True simple_update_diff [OF d1(1)] Cons.prems show ?thesis by simp
  next
    case False
    have "map_of d1 (''set_'' @ j) = None \<and> map_of d1 (''remove_'' @ j) = None" if "j \<in> set items" for j
      using other [of "''set_'' @ j"] other [of "''remove_'' @ j"] Cons.prems that by auto
    with Cons.IH [OF d1(2)] Cons.prems False show ?thesis by simp
  qed
qed simp

lemma wf_object_of: "wf_val (VDict d) \<Longrightarrow> wf_val (VDict (object_of d item))"
proof -
  assume wf: "wf_val (VDict d)"
  show ?thesis
  proof (cases "map_of d item")
    case (Some v)
    from wf_val_item [OF wf Some] Some show ?thesis
      by (cases v) (simp_all add: object_of_def dget_def)
  qed (simp add: object_of_def dget_def)
qed

text \<open>No item of the definition has the name of a part of the update command.\<close>

definition no_command_keys :: "pydict \<Rightarrow> bool" where
  "no_command_keys d \<longleftrightarrow> list_all (\<lambda>item. \<not> dhas d (''set_'' @ item) \<and> \<not> dhas d (''remove_'' @ item)) simple_objects"

lemma no_command_keysD:
  assumes "no_command_keys d" "item \<in> set simple_objects"
  shows "map_of d (''set_'' @ item) = None" "map_of d (''remove_'' @ item) = None"
  using assms by (auto simp: no_command_keys_def list_all_iff dhas_iff)

lemma wanted_command_keys:
  assumes "no_command_keys json" "item \<in> set simple_objects"
  shows "wanted json act (''set_'' @ item) = None" "wanted json act (''remove_'' @ item) = None"
  using no_command_keysD [OF assms] by (simp_all add: wanted_def noexist_false_def)

text \<open>
  C31. The update command brings the active definition to the wanted one. Of the plain items, every
  one that can be updated has, after the items of the command are set on the active definition, a
  value equal to the wanted one; an item that is missing in the wanted definition is left alone,
  except the flag that excludes a VM from monitoring, which becomes false. The metadata, routes and
  tags, patched with their \<open>set_\<close> and \<open>remove_\<close> parts, have exactly the wanted keys and values.
\<close>

theorem update_command_converges:
  assumes "wf_val (VDict (v_json x))" "no_command_keys (v_json x)" "create_json_update x = Inr p"
  shows "(\<forall>k v. map_of (v_json x) k = Some v \<and> k \<notin> set noupdate \<longrightarrow>
           (\<exists>w. map_of (dupdate (v_json_active x) p) k = Some w \<and> py_eq v w))
    \<and> (\<forall>k. map_of (v_json x) k = None \<and> (\<forall>item \<in> set simple_objects. k \<noteq> ''set_'' @ item \<and> k \<noteq> ''remove_'' @ item) \<longrightarrow>
           map_of (dupdate (v_json_active x) p) k = map_of (v_json_active x) k
         \<or> k = ''do_not_inventory'' \<and> map_of (dupdate (v_json_active x) p) k = Some (VBool False))
    \<and> (\<forall>item \<in> set simple_objects.
           dict_same (object_of (v_json x) item)
             (patch_dict (object_of (v_json_active x) item) (payload_diff p item)))"
proof -
  let ?j = "v_json x" and ?a = "v_json_active x"
  have d: "distinct (map fst ?j)" using assms(1) by simp
  note ci = map_of_changed_items [OF d, of ?a]
  have su: "simple_updates ?j ?a simple_objects (changed_items ?j ?a) = Inr p"
    using assms(3) by (simp add: create_json_update_def)
  have dp: "distinct (map fst p)" using simple_updates_distinct [OF su ci(1)] .
  have plain: "map_of (dupdate ?a p) k = (case map_of (changed_items ?j ?a) k of Some v \<Rightarrow> Some v | None \<Rightarrow> map_of ?a k)"
    if "\<And>item. item \<in> set simple_objects \<Longrightarrow> k \<noteq> ''set_'' @ item \<and> k \<noteq> ''remove_'' @ item" for k
    using simple_updates_other [OF su that] dp by (simp add: dict_simps map_add_def split: option.splits)
  have not_cmd: "k \<noteq> ''set_'' @ item \<and> k \<noteq> ''remove_'' @ item"
    if "map_of ?j k = Some v" "item \<in> set simple_objects" for k v item
    using no_command_keysD [OF assms(2) that(2)] that(1) by auto
  have "\<exists>w. map_of (dupdate ?a p) k = Some w \<and> py_eq v w" if "map_of ?j k = Some v" "k \<notin> set noupdate" for k v
    using plain [of k] not_cmd [OF that(1)] ci(2) [of k] dict_eq_refl [OF assms(1) that(1)] that
    by (auto simp: wanted_def split: if_splits)
  moreover have "map_of (dupdate ?a p) k = map_of ?a k
       \<or> k = ''do_not_inventory'' \<and> map_of (dupdate ?a p) k = Some (VBool False)"
    if "map_of ?j k = None" "\<forall>item \<in> set simple_objects. k \<noteq> ''set_'' @ item \<and> k \<noteq> ''remove_'' @ item" for k
    using plain [of k] that ci(2) [of k] by (auto simp: wanted_def noexist_false_def split: if_splits)
  moreover have "dict_same (object_of ?j item) (patch_dict (object_of ?a item) (payload_diff p item))"
    if "item \<in> set simple_objects" for item
  proof -
    have "payload_diff p item = diff_dict (object_of ?a item) (object_of ?j item)"
      using simple_updates_diff [OF su _ that] ci(2) wanted_command_keys [OF assms(2)]
      by (simp add: simple_objects_def)
    then show ?thesis using patch_same [OF wf_object_of [OF assms(1)]] by simp
  qed
  ultimately show ?thesis by blast
qed

definition demo_changed :: vm where
  "demo_changed = demo_vm\<lparr>
     v_json := [(''cpu_cap'', VInt 200), (''internal_metadata'', VDict [(''alias'', VStr ''a'')]), (''tags'', VDict [(''t'', VInt 1)])],
     v_json_active := [(''cpu_cap'', VInt 100), (''do_not_inventory'', VBool True), (''tags'', VDict [(''u'', VInt 2)])]\<rparr>"

theorem update_command_converges_witness:
  "\<exists>p. create_json_update demo_changed = Inr p
    \<and> map_of (dupdate (v_json_active demo_changed) p) ''cpu_cap'' = Some (VInt 200)
    \<and> map_of p ''do_not_inventory'' = Some (VBool False)
    \<and> payload_diff p ''tags'' = ([(''t'', VInt 1)], [''u''])"
proof -
  let ?p = "[(''cpu_cap'', VInt 200), (''do_not_inventory'', VBool False),
    (''set_internal_metadata'', VDict [(''alias'', VStr ''a'')]),
    (''remove_tags'', VList [VStr ''u'']), (''set_tags'', VDict [(''t'', VInt 1)])]"
  have c: "create_json_update demo_changed = Inr ?p" by code_simp
  have "wf_val (VDict (v_json demo_changed))" "no_command_keys (v_json demo_changed)" by code_simp+
  note conv = conjunct1 [OF update_command_converges [OF this c], rule_format, of "''cpu_cap''" "VInt 200"]
  have k: "map_of (v_json demo_changed) ''cpu_cap'' = Some (VInt 200) \<and> ''cpu_cap'' \<notin> set noupdate" by code_simp
  obtain w where w: "map_of (dupdate (v_json_active demo_changed) ?p) ''cpu_cap'' = Some w" "py_eq (VInt 200) w"
    using conv [OF k] by blast
  moreover have "map_of (dupdate (v_json_active demo_changed) ?p) ''cpu_cap'' = Some (VInt 200)"
    and "payload_diff ?p ''tags'' = ([(''t'', VInt 1)], [''u''])" by code_simp+
  ultimately show ?thesis using c by auto
qed

section \<open>No change, no update\<close>

lemma map_of_all_None: "(\<And>k. map_of d k = None) \<Longrightarrow> d = []"
  using map_of_eq_None_iff [of d] by (cases d) fastforce+

lemma changed_items_self:
  assumes "wf_val (VDict d)"
  shows "changed_items d d = []"
proof (rule map_of_all_None)
  fix k
  have "distinct (map fst d)" using assms by simp
  from map_of_changed_items(2) [OF this, of d k] dict_eq_refl [OF assms, of k]
  show "map_of (changed_items d d) k = None"
    by (auto simp: wanted_def dhas_iff split: option.splits if_splits)
qed

lemma simple_updates_self:
  assumes "wf_val (VDict d)" "simple_updates d d items [] = Inr p"
  shows "p = []"
  using assms(2)
proof (induction items)
  case (Cons item items)
  then obtain e where e: "simple_update d d item [] = Inr e" "simple_updates d d items e = Inr p"
    by (auto simp: rbind_Inr_iff)
  have "diff_dict m m = ([], [])" if "dget d item (VDict []) = VDict m" for m
    using wf_object_of [OF assms(1), of item] that by (simp add: object_of_def diff_dict_self del: wf_val.simps)
  with e(1) have "e = []" by (auto simp: simple_update_def split: if_splits pyval.splits)
  with e(2) Cons.IH show ?case by simp
qed simp

lemma dict_list_map: "dict_list vs = Inr ds \<Longrightarrow> vs = map VDict ds"
  by (induction vs arbitrary: ds rule: dict_list.induct) (auto simp: rbind_Inr_iff)

lemma get_dicts_wf:
  assumes "wf_val (VDict d)" "get_dicts d item = Inr ds" "i \<in> set ds"
  shows "wf_val (VDict i)"
proof (cases "map_of d item")
  case (Some v)
  with assms(2) obtain vs where v: "v = VList vs" "dict_list vs = Inr ds"
    by (auto simp: get_dicts_def dget_def split: pyval.splits)
  with wf_val_item [OF assms(1) Some] dict_list_map [OF v(2)] assms(3) show ?thesis
    by (auto simp: list_all_iff)
qed (use assms in \<open>auto simp: get_dicts_def dget_def\<close>)

lemma snd_update_subset: "snd ` set (AList.update k v d) \<subseteq> insert v (snd ` set d)"
  by (induction d) auto

lemma pair_fold_items:
  fixes acc :: "(pyval \<times> pydict) list"
  assumes "distinct (map fst acc)" "snd ` set acc \<subseteq> S" "snd ` set xs \<subseteq> S"
  shows "distinct (map fst (foldl (\<lambda>acc (i, item). AList.update (f i item) item acc) acc xs))
    \<and> snd ` set (foldl (\<lambda>acc (i, item). AList.update (f i item) item acc) acc xs) \<subseteq> S"
  using assms
proof (induction xs arbitrary: acc)
  case (Cons x xs)
  obtain i item where x: "x = (i, item)" by force
  have "snd ` set (AList.update (f i item) item acc) \<subseteq> S"
    using snd_update_subset [of "f i item" item acc] Cons.prems x by auto
  with Cons.IH [of "AList.update (f i item) item acc"] Cons.prems x show ?case
    by (simp add: distinct_update)
qed simp

lemma pair_keys_items:
  "distinct (map fst (pair_keys_to_items items key))"
  "snd ` set (pair_keys_to_items items key) \<subseteq> set items"
proof -
  have "snd ` set (enumerate 0 items) \<subseteq> set items"
    by (metis map_snd_enumerate set_map subset_refl)
  with pair_fold_items [of "[]" "set items" "enumerate 0 items" "\<lambda>i item. dget item key (VInt (int i))"]
  show "distinct (map fst (pair_keys_to_items items key))"
    and "snd ` set (pair_keys_to_items items key) \<subseteq> set items"
    by (simp_all add: pair_keys_to_items_def)
qed

lemma diff_dict_nested_self:
  assumes "distinct (map fst items)" "\<And>k i. (k, i) \<in> set items \<Longrightarrow> wf_val (VDict i)"
  shows "diff_dict_nested items items key re = Inr ([], [], [])"
proof -
  have rem: "nested_remove items key xs = Inr []" if "set xs \<subseteq> set items" for xs
    using that
  proof (induction xs)
    case (Cons x xs)
    obtain k i where "x = (k, i)" by force
    moreover with Cons.prems have "map_of items k \<noteq> None"
      by (metis Cons.prems fst_conv image_eqI list.set_intros(1) map_of_eq_None_iff subsetD)
    ultimately show ?case using Cons by auto
  qed simp
  have upd: "nested_update items key re xs = []" if "set xs \<subseteq> set items" for xs
    using that
  proof (induction xs)
    case (Cons x xs)
    obtain k i where x: "x = (k, i)" by force
    with Cons.prems have "map_of items k = Some i" "py_eq (VDict i) (VDict i)"
      using assms by (auto intro: py_eq_refl simp del: py_eq.simps)
    with Cons x show ?case by simp
  qed simp
  have "nested_add items items = []"
    by (force simp: nested_add_def filter_empty_conv map_of_eq_None_iff)
  then show ?thesis using rem [of items] upd [of items] by (simp add: diff_dict_nested_def)
qed

lemma nested_update_self:
  assumes "wf_val (VDict (v_json x))" "v_json_active x = v_json x" "create_json_update_nested item key re x = Inr p"
  shows "p = []"
proof -
  from assms obtain j where j: "get_dicts (v_json x) item = Inr j"
    by (auto simp: create_json_update_nested_def rbind_Inr_iff)
  have "wf_val (VDict i)" if "(k, i) \<in> set (pair_keys_to_items j key)" for k i
    using get_dicts_wf [OF assms(1) j] pair_keys_items(2) [of j key] that by force
  with diff_dict_nested_self [OF pair_keys_items(1)] j assms show ?thesis
    by (auto simp: create_json_update_nested_def nested_part_def)
qed

text \<open>
  When the wanted definition is the active one, the update command is empty and the definition
  does not count as changed: nothing is sent to the compute node for the plain items, the objects,
  the disks or the network cards.
\<close>

theorem no_update_when_unchanged:
  assumes "wf_val (VDict (v_json x))" "v_json_active x = v_json x" "json_update x = Inr p"
  shows "p = [] \<and> \<not> json_changed x"
proof
  from assms(3) obtain d n where d: "create_json_update x = Inr d" and n: "create_json_update_nics x = Inr n"
    and p: "p = dupdate d n \<or> (\<exists>s. create_json_update_disks x = Inr s \<and> is_hvm x \<and> p = dupdate (dupdate d n) s)"
    by (auto simp: json_update_def rbind_Inr_iff split: if_splits)
  have "d = []" using d simple_updates_self [OF assms(1)] changed_items_self [OF assms(1)] assms(2)
    by (simp add: create_json_update_def)
  moreover have "n = []"
    using n nested_update_self [OF assms(1,2)] unfolding create_json_update_nics_def by blast
  moreover have "s = []" if "create_json_update_disks x = Inr s" "is_hvm x" for s
    using that nested_update_self [OF assms(1,2)] unfolding create_json_update_disks_def by simp
  ultimately show "p = []" using p by (auto simp: dupdate_def)
  show "\<not> json_changed x"
    using py_eq_refl [OF assms(1)] assms(2) by (simp add: json_changed_def del: py_eq.simps)
qed

theorem no_update_when_unchanged_witness:
  "json_update (demo_changed\<lparr>v_json_active := v_json demo_changed\<rparr>) = Inr []"
proof -
  let ?x = "demo_changed\<lparr>v_json_active := v_json demo_changed\<rparr>"
  have "wf_val (VDict (v_json ?x))" "v_json_active ?x = v_json ?x" by code_simp+
  moreover obtain p where p: "json_update ?x = Inr p"
  proof -
    have "case json_update ?x of Inr _ \<Rightarrow> True | Inl _ \<Rightarrow> False" by code_simp
    then show ?thesis using that by (simp split: sum.splits)
  qed
  ultimately show ?thesis using no_update_when_unchanged by blast
qed

end
