(* ===== verification/Vm_Define.thy ===== *)
theory Vm_Define
  imports Vm_Update
begin

text \<open>
  Definitions of new VMs in \<^verbatim>\<open>vms/models/vm.py\<close>: hypervisor and brand, \<open>sync_json\<close> that
  copies the fields of the object and the defaults into the definition, the root password and the
  cloud-init data, \<open>fix_json\<close> that prepares the definition for the creation on a compute node,
  and \<open>revert_active\<close>.
\<close>

section \<open>Settings\<close>

text \<open>
  The settings that these operations read, from the datacenter or global. The user script is a
  format string with one field, given here as a function of that field.
\<close>

record vm_settings =
  s_json_defaults :: pydict
  s_resolvers :: pyval
  s_dc_hvm_type :: int
  s_hvm_type :: int
  s_qemu_extra_opts :: string
  s_bhyve_extra_opts :: string
  s_zone_feature_level :: int
  s_lx_kernel_version :: string
  s_ssh_keys :: "string list"
  s_user_script :: "string \<Rightarrow> string"

section \<open>Hypervisor and operating system\<close>

definition ostype_brand :: "int \<Rightarrow> string" where
  "ostype_brand os = (case map_of OSTYPE_BRAND os of Some b \<Rightarrow> b | None \<Rightarrow> ''hvm'')"

definition set_hvm_type :: "vm_settings \<Rightarrow> int \<Rightarrow> vm \<Rightarrow> vm res" where
  "set_hvm_type st value x =
     (if ostype_brand (v_ostype x) = ''hvm''
      then (let dflt = (case map_of HVM_TYPE_BRAND (s_hvm_type st) of Some b \<Rightarrow> b | None \<Rightarrow> ''kvm'');
                brand = (case map_of HVM_TYPE_BRAND value of Some b \<Rightarrow> b | None \<Rightarrow> dflt)
            in rbind (save_item ''brand'' (VStr brand) None x) (\<lambda>y. Inr (y\<lparr>v_hvm_type := value\<rparr>)))
      else Inr (x\<lparr>v_hvm_type := Hypervisor_NONE\<rparr>))"

definition set_ostype :: "int \<Rightarrow> vm \<Rightarrow> vm res" where
  "set_ostype value x =
     (let y = x\<lparr>v_ostype := value\<rparr>; brand = ostype_brand value
      in if brand \<noteq> ''hvm'' then save_item ''brand'' (VStr brand) None y else Inr y)"

section \<open>Synchronisation of the definition\<close>

definition sync_new :: "vm_settings \<Rightarrow> bool \<Rightarrow> pydict \<Rightarrow> pydict res" where
  "sync_new st sync_defaults json =
     (if sync_defaults \<and> \<not> dhas json ''uuid''
      then rbind (update_dict json (s_json_defaults st)) (\<lambda>d. Inr (AList.update ''resolvers'' (s_resolvers st) d))
      else Inr json)"

definition template_ostype :: "vm_template \<Rightarrow> vm \<Rightarrow> vm" where
  "template_ostype t x = (case t_ostype t of Some os \<Rightarrow> x\<lparr>v_ostype := os\<rparr> | None \<Rightarrow> x)"

definition sync_from_template :: "bool \<Rightarrow> vm \<Rightarrow> pydict \<Rightarrow> (vm \<times> pydict) res" where
  "sync_from_template sync_template x json =
     (case (sync_template, v_template x) of
        (True, Some t) \<Rightarrow> rbind (update_dict json (t_json t)) (\<lambda>d. Inr (template_ostype t x, d))
      | _ \<Rightarrow> Inr (x, json))"

definition sync_identity :: "vm \<Rightarrow> pydict \<Rightarrow> pydict" where
  "sync_identity x json = dupdate json
     [(''uuid'', VStr (v_uuid x)), (''hostname'', VStr (v_hostname x)), (''owner_uuid'', VStr (int_str (v_owner x))),
      (''alias'', VStr (v_hostname x))]"

definition sync_metadata :: "vm \<Rightarrow> pydict \<Rightarrow> pydict res" where
  "sync_metadata x json = rbind (ditem json ''internal_metadata'') (\<lambda>v. case v of
      VDict m \<Rightarrow>
        (let m1 = dupdate m [(''alias'', VStr (v_alias x)), (''ostype'', VInt (v_ostype x))];
             m2 = (if v_template x = None then AList.delete ''template'' m1 else m1)
         in Inr (AList.update ''internal_metadata'' (VDict m2) json))
    | _ \<Rightarrow> Inl (Exn TypeError ''item assignment''))"

definition default_item :: "string \<Rightarrow> pyval \<Rightarrow> pydict \<Rightarrow> pydict" where
  "default_item k v d = (if dhas d k then d else AList.update k v d)"

definition sync_missing :: "vm_settings \<Rightarrow> vm \<Rightarrow> pydict \<Rightarrow> pydict res" where
  "sync_missing st x json =
     (let d1 = (case v_node x of
                  Some n \<Rightarrow> if dhas json ''server_uuid'' then AList.update ''server_uuid'' (VStr (nr_uuid n)) json else json
                | None \<Rightarrow> json);
          d2 = default_item ''autoboot'' (VBool False) d1
      in rbind (if dhas d2 ''brand'' then Inr d2
                else (case map_of HVM_TYPE_BRAND (s_dc_hvm_type st) of
                        Some b \<Rightarrow> Inr (AList.update ''brand'' (VStr b) d2)
                      | None \<Rightarrow> Inl (Exn KeyError ''brand'')))
           (\<lambda>d3. Inr (default_item ''customer_metadata'' (VDict []) d3)))"

definition is_scalar :: "pyval \<Rightarrow> bool" where
  "is_scalar v = (case v of VNone \<Rightarrow> False | VList _ \<Rightarrow> False | VDict _ \<Rightarrow> False | _ \<Rightarrow> True)"

definition scalar_metadata :: "pydict \<Rightarrow> pydict" where
  "scalar_metadata json = (case map_of json ''internal_metadata'' of
      Some (VDict m) \<Rightarrow> AList.update ''internal_metadata'' (VDict (filter (\<lambda>(_, v). is_scalar v) m)) json
    | _ \<Rightarrow> json)"

definition sync_vnc :: "vm \<Rightarrow> pydict \<Rightarrow> pydict" where
  "sync_vnc x json = (if v_node x \<noteq> None
     then AList.update ''vnc_port'' (case v_vnc_port x of Some p \<Rightarrow> VInt p | None \<Rightarrow> VNone) json
     else AList.delete ''vnc_port'' json)"

definition sync_brand :: "vm_settings \<Rightarrow> vm \<Rightarrow> pydict \<Rightarrow> pydict" where
  "sync_brand st x json =
     (let brand = dget json ''brand'' VNone
      in if brand = VStr ''kvm'' then sync_vnc x (AList.update ''qemu_extra_opts'' (VStr (s_qemu_extra_opts st)) json)
         else if brand = VStr ''bhyve'' then sync_vnc x (AList.update ''bhyve_extra_opts'' (VStr (s_bhyve_extra_opts st)) json)
         else (let d = (if s_zone_feature_level st \<ge> 2
                        then dupdate json [(''zfs_filesystem_limit'', VInt 0), (''zfs_snapshot_limit'', VInt 0)] else json)
               in if v_ostype x = LINUX_ZONE then default_item ''kernel_version'' (VStr (s_lx_kernel_version st)) d else d))"

definition sync_json :: "vm_settings \<Rightarrow> bool \<Rightarrow> bool \<Rightarrow> vm \<Rightarrow> vm res" where
  "sync_json st sync_template sync_defaults x =
     rbind (sync_new st sync_defaults (v_json x)) (\<lambda>d0.
     rbind (sync_from_template sync_template x d0) (\<lambda>(y, d1).
     rbind (sync_metadata y (sync_identity y d1)) (\<lambda>d2.
     rbind (sync_missing st y d2) (\<lambda>d3.
       Inr (y\<lparr>v_json := sync_brand st y (scalar_metadata d3)\<rparr>)))))"

section \<open>Passwords and creation\<close>

definition newline :: string where "newline = [CHR 0x0A]"

definition set_cloud_init :: "string \<Rightarrow> string list \<Rightarrow> pydict \<Rightarrow> pydict res" where
  "set_cloud_init attr value json = rbind (ditem json ''customer_metadata'') (\<lambda>v. case v of
      VDict m \<Rightarrow>
        (let a = ''cloud-init:'' @ attr
         in Inr (if dhas m a then json
                 else AList.update ''customer_metadata''
                        (VDict (AList.update a (VStr (join_with newline (''#cloud-config'' # value))) m)) json))
    | _ \<Rightarrow> Inl (Exn TypeError ''not a dict''))"

text \<open>The random password is an argument; an existing one is kept.\<close>

definition root_pw_of :: "string \<Rightarrow> pydict \<Rightarrow> (string \<times> pydict) res" where
  "root_pw_of random json = (case map_of json ''internal_metadata'' of
      None \<Rightarrow> Inl (Exn KeyError ''internal_metadata'')
    | Some (VDict m) \<Rightarrow> (case map_of m ''root_pw'' of
          Some (VStr s) \<Rightarrow> Inr (s, json)
        | None \<Rightarrow> Inr (random, AList.update ''internal_metadata'' (VDict (AList.update ''root_pw'' (VStr random) m)) json)
        | Some _ \<Rightarrow> Inl (Exn TypeError ''root_pw''))
    | Some _ \<Rightarrow> Inl (Exn TypeError ''not a dict''))"

definition set_root_pw :: "string \<Rightarrow> vm \<Rightarrow> vm res" where
  "set_root_pw random x =
     rbind (root_pw_of random (v_json x)) (\<lambda>(passwd, d).
     rbind (set_cloud_init ''user-data'' [''chpasswd:'', '' expire: false'', '' list: |'', ''   root:'' @ passwd] d)
       (\<lambda>e. Inr (x\<lparr>v_json := e\<rparr>)))"

definition create_removed :: "string list" where
  "create_removed = [''snapshots'', ''create_timestamp'', ''server_uuid'', ''state'', ''zonepath'', ''zone_state'',
     ''zoneid'', ''zfs_filesystem'', ''last_modified'', ''v'', ''platform_buildstamp'', ''limit_priv'', ''nowait'',
     ''pid'', ''filesystems'', ''headnode_id'', ''datacenter_name'', ''zonename'', ''exit_status'', ''exit_timestamp'']"

text \<open>One disk of a hypervisor VM, and whether the guest has to resize it.\<close>

definition delete_if :: "bool \<Rightarrow> string \<Rightarrow> pydict \<Rightarrow> pydict" where
  "delete_if b k d = (if b then AList.delete k d else d)"

definition fix_disk :: "bool \<Rightarrow> bool \<Rightarrow> pydict \<Rightarrow> pydict \<times> bool" where
  "fix_disk bhyve resize disk =
     (let d1 = delete_if (py_eq (dget disk ''media'' (VStr ''disk'')) (VStr ''disk'')) ''path'' disk;
          img = dhas d1 ''image_uuid'';
          grow = (img \<and> resize \<and> (case (map_of d1 ''size'', map_of d1 ''image_size'') of
                     (Some s, Some t) \<Rightarrow> \<not> py_eq s t | _ \<Rightarrow> False));
          d2 = delete_if img ''size'' d1;
          d3 = delete_if grow ''refreservation'' d2;
          d4 = delete_if img ''block_size'' d3;
          d5 = delete_if True ''zfs_filesystem'' d4
      in (delete_if bhyve ''refreservation'' d5, grow))"

definition fix_hvm :: "bool \<Rightarrow> bool \<Rightarrow> pydict \<Rightarrow> (pydict \<times> bool) res" where
  "fix_hvm bhyve resize json =
     (let d = AList.delete ''dns_domain'' (AList.delete ''routes'' json)
      in if dhas d ''disks''
         then rbind (get_dicts d ''disks'') (\<lambda>ds.
                (let rs = map (fix_disk bhyve resize) ds
                 in Inr (AList.update ''disks'' (VList (map (VDict \<circ> fst) rs)) d, list_ex snd rs)))
         else Inr (d, False))"

definition fix_zone :: "pydict \<Rightarrow> pydict" where
  "fix_zone json = (let d = AList.delete ''datasets'' json
     in if truthy (dget json ''datasets'' VNone) then AList.update ''delegate_dataset'' (VBool True) d else d)"

text \<open>
  The keys of the datacenter and of the owner are joined in the iteration order of a set, which
  \<open>set_order\<close> gives.
\<close>

definition fix_metadata :: "vm_settings \<Rightarrow> (string list \<Rightarrow> string list) \<Rightarrow> string list \<Rightarrow> bool \<Rightarrow> bool \<Rightarrow> bool \<Rightarrow> bool \<Rightarrow>
    pydict \<Rightarrow> pydict" where
  "fix_metadata st set_order owner_keys hvm deploy grow recreate m =
     (let m1 = (if grow then AList.update ''resize_needed'' (VStr ''yes'') m else m);
          keys = set_order (remdups (s_ssh_keys st @ owner_keys));
          m2 = (if (\<not> dhas m1 ''root_authorized_keys'' \<or> recreate) \<and> keys \<noteq> []
                then AList.update ''root_authorized_keys'' (VStr (join_with newline keys)) m1 else m1)
      in if \<not> hvm \<and> \<not> dhas m2 ''user-script''
         then AList.update ''user-script''
                (VStr (s_user_script st (if deploy then ''/usr/sbin/poweroff'' else ''echo''))) m2
         else m2)"

definition fix_json :: "vm_settings \<Rightarrow> (string list \<Rightarrow> string list) \<Rightarrow> string list \<Rightarrow> bool \<Rightarrow> bool \<Rightarrow> bool \<Rightarrow> vm \<Rightarrow> pydict res" where
  "fix_json st set_order owner_keys deploy resize recreate x =
     (let d = foldl (\<lambda>d k. AList.delete k d) (AList.update ''autoboot'' (VBool False) (v_json x)) create_removed
      in rbind (if is_hvm x then fix_hvm (is_bhyve x) resize d else Inr (fix_zone d, False)) (\<lambda>(e, grow).
         rbind (ditem e ''customer_metadata'') (\<lambda>v. case v of
           VDict m \<Rightarrow> Inr (AList.update ''customer_metadata''
                             (VDict (fix_metadata st set_order owner_keys (is_hvm x) deploy grow recreate m)) e)
         | _ \<Rightarrow> Inl (Exn TypeError ''not a dict''))))"

section \<open>Back to the active definition\<close>

text \<open>
  The object is locked before its definition is replaced, so that it cannot be saved. Users and
  templates of the database are arguments.
\<close>

definition revert_owner_of :: "(int \<Rightarrow> bool) \<Rightarrow> vm \<Rightarrow> vm res" where
  "revert_owner_of user_exists x =
     (case dget (v_json_active x) ''owner_uuid'' (VStr (int_str (v_owner x))) of
        VStr s \<Rightarrow> (if s \<noteq> int_str (v_owner x) \<and> s \<noteq> []
                  then rbind (str_int s) (\<lambda>i. Inr (if user_exists i then x\<lparr>v_owner := i\<rparr> else x))
                  else Inr x)
      | VInt i \<Rightarrow> Inr (if i \<noteq> 0 \<and> user_exists i then x\<lparr>v_owner := i\<rparr> else x)
      | v \<Rightarrow> (if truthy v then Inl (Exn TypeError ''owner_uuid'') else Inr x))"

definition revert_template_of :: "(string \<Rightarrow> vm_template option) \<Rightarrow> pyval \<Rightarrow> vm \<Rightarrow> vm" where
  "revert_template_of templates name x =
     (if py_eq name (case v_template x of Some t \<Rightarrow> VStr (t_name t) | None \<Rightarrow> VNone) then x
      else (case name of
              VStr s \<Rightarrow> (if s \<noteq> [] then (case templates s of Some t \<Rightarrow> x\<lparr>v_template := Some t\<rparr> | None \<Rightarrow> x)
                        else x\<lparr>v_template := None\<rparr>)
            | v \<Rightarrow> (if truthy v then x else x\<lparr>v_template := None\<rparr>)))"

definition str_field :: "pyval \<Rightarrow> string res" where
  "str_field v = (case v of VStr s \<Rightarrow> Inr s | _ \<Rightarrow> Inl (Exn TypeError ''string expected''))"

definition revert_active :: "(int \<Rightarrow> bool) \<Rightarrow> (string \<Rightarrow> vm_template option) \<Rightarrow> bool \<Rightarrow> bool \<Rightarrow> bool \<Rightarrow> vm \<Rightarrow> vm res" where
  "revert_active user_exists templates json_only revert_owner revert_template x =
     (let y = x\<lparr>v_lock := True, v_json := v_json_active x\<rparr>
      in if json_only then Inr y
         else
           rbind (str_field (dget (v_json_active x) ''hostname'' (VStr (v_hostname x)))) (\<lambda>h.
           rbind (vget (dget (v_json_active x) ''internal_metadata'' (VDict [])) ''alias'' (VStr (v_alias x))) (\<lambda>av.
           rbind (str_field av) (\<lambda>a.
           rbind (vget (dget (v_json_active x) ''internal_metadata'' (VDict [])) ''template'' VNone) (\<lambda>tn.
             (let z = y\<lparr>v_hostname := h, v_alias := a\<rparr>
              in rbind (if revert_owner then revert_owner_of user_exists z else Inr z)
                   (\<lambda>w. Inr (if revert_template then revert_template_of templates tn w else w))))))))"

section \<open>Synchronised definitions\<close>

lemma update_id: "map_of d k = Some v \<Longrightarrow> AList.update k v d = d"
  by (induction d) (auto split: if_splits)

lemma delete_id: "map_of d k = None \<Longrightarrow> AList.delete k d = d"
  by (simp add: map_of_eq_None_iff delete_idem)

lemma dupdate_id: "(\<And>k v. (k, v) \<in> set e \<Longrightarrow> map_of d k = Some v) \<Longrightarrow> dupdate d e = d"
  by (induction e) (auto simp: dupdate_def update_id)

lemma map_of_filter_keep: "map_of m k = Some v \<Longrightarrow> P (k, v) \<Longrightarrow> map_of (filter P m) k = Some v"
  by (induction m) (auto split: if_splits)

lemma map_of_filter_None: "map_of m k = None \<Longrightarrow> map_of (filter P m) k = None"
  by (induction m) (auto split: if_splits)

definition synced :: "vm_settings \<Rightarrow> vm \<Rightarrow> pydict \<Rightarrow> bool" where
  "synced st x d \<longleftrightarrow>
     map_of d ''uuid'' = Some (VStr (v_uuid x)) \<and> map_of d ''hostname'' = Some (VStr (v_hostname x))
   \<and> map_of d ''owner_uuid'' = Some (VStr (int_str (v_owner x))) \<and> map_of d ''alias'' = Some (VStr (v_hostname x))
   \<and> (\<exists>m. map_of d ''internal_metadata'' = Some (VDict m) \<and> map_of m ''alias'' = Some (VStr (v_alias x))
        \<and> map_of m ''ostype'' = Some (VInt (v_ostype x)) \<and> (v_template x = None \<longrightarrow> map_of m ''template'' = None)
        \<and> (\<forall>(_, v) \<in> set m. is_scalar v))
   \<and> (\<forall>n. v_node x = Some n \<and> dhas d ''server_uuid'' \<longrightarrow> map_of d ''server_uuid'' = Some (VStr (nr_uuid n)))
   \<and> dhas d ''autoboot'' \<and> dhas d ''brand'' \<and> dhas d ''customer_metadata'' \<and> sync_brand st x d = d"

lemma sync_brand_frame: "sync_brand st (x\<lparr>v_json := j\<rparr>) d = sync_brand st x d"
  by (simp add: sync_brand_def sync_vnc_def Let_def)

lemma sync_brand_other:
  assumes "k \<notin> {''qemu_extra_opts'', ''bhyve_extra_opts'', ''vnc_port'', ''zfs_filesystem_limit'', ''zfs_snapshot_limit'',
    ''kernel_version''}"
  shows "map_of (sync_brand st x d) k = map_of d k"
  using assms by (auto simp: sync_brand_def sync_vnc_def default_item_def Let_def dict_simps map_add_def)

lemma sync_brand_idem: "sync_brand st x (sync_brand st x d) = sync_brand st x d"
proof -
  let ?e = "sync_brand st x d"
  have b: "dget ?e ''brand'' VNone = dget d ''brand'' VNone" by (simp add: dget_def sync_brand_other)
  consider (kvm) "dget d ''brand'' VNone = VStr ''kvm''" | (bhyve) "dget d ''brand'' VNone = VStr ''bhyve''"
    | (zone) "dget d ''brand'' VNone \<notin> {VStr ''kvm'', VStr ''bhyve''}" by blast
  then show ?thesis
  proof cases
    case kvm
    then have "map_of ?e ''qemu_extra_opts'' = Some (VStr (s_qemu_extra_opts st))" "sync_vnc x ?e = ?e"
      by (auto simp: sync_brand_def sync_vnc_def dict_simps intro!: update_id delete_id)
    with kvm b show ?thesis by (subst sync_brand_def) (simp add: update_id)
  next
    case bhyve
    then have "map_of ?e ''bhyve_extra_opts'' = Some (VStr (s_bhyve_extra_opts st))" "sync_vnc x ?e = ?e"
      by (auto simp: sync_brand_def sync_vnc_def dict_simps intro!: update_id delete_id)
    with bhyve b show ?thesis by (subst sync_brand_def) (simp add: update_id)
  next
    case zone
    then have "s_zone_feature_level st \<ge> 2 \<Longrightarrow> map_of ?e ''zfs_filesystem_limit'' = Some (VInt 0)"
      "s_zone_feature_level st \<ge> 2 \<Longrightarrow> map_of ?e ''zfs_snapshot_limit'' = Some (VInt 0)"
      "v_ostype x = LINUX_ZONE \<Longrightarrow> dhas ?e ''kernel_version''"
      by (auto simp: sync_brand_def default_item_def Let_def dict_simps map_add_def dhas_iff)
    moreover from this(1,2) have "s_zone_feature_level st \<ge> 2 \<Longrightarrow>
        dupdate ?e [(''zfs_filesystem_limit'', VInt 0), (''zfs_snapshot_limit'', VInt 0)] = ?e"
      by (simp add: dupdate_def update_id)
    ultimately show ?thesis using zone b by (subst sync_brand_def) (simp add: default_item_def Let_def)
  qed
qed

lemma map_of_default_item [dict_simps]:
  "map_of (default_item k v d) i = (if i = k \<and> map_of d k = None then Some v else map_of d i)"
  by (simp add: default_item_def dhas_iff dict_simps)

lemma sync_missing_props:
  assumes "sync_missing st x d = Inr e"
  shows "dhas e ''autoboot'' \<and> dhas e ''brand'' \<and> dhas e ''customer_metadata''"
    and "v_node x = Some n \<Longrightarrow> dhas e ''server_uuid'' \<Longrightarrow> map_of e ''server_uuid'' = Some (VStr (nr_uuid n))"
    and "k \<notin> {''server_uuid'', ''autoboot'', ''brand'', ''customer_metadata''} \<Longrightarrow> map_of e k = map_of d k"
proof -
  let ?d1 = "case v_node x of
      Some n \<Rightarrow> if dhas d ''server_uuid'' then AList.update ''server_uuid'' (VStr (nr_uuid n)) d else d | None \<Rightarrow> d"
  let ?d2 = "default_item ''autoboot'' (VBool False) ?d1"
  obtain d3 where d3: "d3 = ?d2 \<and> dhas ?d2 ''brand'' \<or> (\<exists>b. d3 = AList.update ''brand'' (VStr b) ?d2)"
      and e: "e = default_item ''customer_metadata'' (VDict []) d3"
    using assms by (auto simp: sync_missing_def Let_def rbind_Inr_iff split: if_splits option.splits)
  have b: "map_of d3 ''brand'' \<noteq> None" using d3 by (auto simp: dhas_iff dict_simps)
  have o: "map_of d3 k = map_of ?d2 k" if "k \<noteq> ''brand''" for k using d3 that by (auto simp: dict_simps)
  have d1: "map_of ?d1 k = map_of d k" if "k \<noteq> ''server_uuid''" for k
    using that by (auto simp: dict_simps split: option.splits)
  show "dhas e ''autoboot'' \<and> dhas e ''brand'' \<and> dhas e ''customer_metadata''"
    using b o [of "''autoboot''"] by (auto simp: e dhas_iff dict_simps)
  show "v_node x = Some n \<Longrightarrow> dhas e ''server_uuid'' \<Longrightarrow> map_of e ''server_uuid'' = Some (VStr (nr_uuid n))"
    by (auto simp: e dhas_iff dict_simps o split: if_splits)
  show "k \<notin> {''server_uuid'', ''autoboot'', ''brand'', ''customer_metadata''} \<Longrightarrow> map_of e k = map_of d k"
    by (simp add: e dict_simps o d1)
qed

lemma sync_metadata_props:
  assumes "sync_metadata x d = Inr e"
  shows "\<exists>m. map_of e ''internal_metadata'' = Some (VDict m) \<and> map_of m ''alias'' = Some (VStr (v_alias x))
      \<and> map_of m ''ostype'' = Some (VInt (v_ostype x)) \<and> (v_template x = None \<longrightarrow> map_of m ''template'' = None)"
    and "k \<noteq> ''internal_metadata'' \<Longrightarrow> map_of e k = map_of d k"
proof -
  from assms obtain m where "ditem d ''internal_metadata'' = Inr (VDict m)"
    by (auto simp: sync_metadata_def rbind_Inr_iff split: pyval.splits) (metis pyval.exhaust)
  with assms have e: "e = AList.update ''internal_metadata'' (VDict
      (if v_template x = None
       then AList.delete ''template'' (dupdate m [(''alias'', VStr (v_alias x)), (''ostype'', VInt (v_ostype x))])
       else dupdate m [(''alias'', VStr (v_alias x)), (''ostype'', VInt (v_ostype x))])) d"
    by (auto simp: sync_metadata_def Let_def)
  show "\<exists>m. map_of e ''internal_metadata'' = Some (VDict m) \<and> map_of m ''alias'' = Some (VStr (v_alias x))
      \<and> map_of m ''ostype'' = Some (VInt (v_ostype x)) \<and> (v_template x = None \<longrightarrow> map_of m ''template'' = None)"
    and "k \<noteq> ''internal_metadata'' \<Longrightarrow> map_of e k = map_of d k"
    unfolding e by (auto simp: dict_simps map_add_def)
qed

lemma scalar_metadata_props:
  assumes "map_of d ''internal_metadata'' = Some (VDict m)"
  shows "map_of (scalar_metadata d) k = (if k = ''internal_metadata''
    then Some (VDict (filter (\<lambda>(_, v). is_scalar v) m)) else map_of d k)"
  using assms by (simp add: scalar_metadata_def dict_simps)

lemma sync_identity_props:
  "map_of (sync_identity x d) ''uuid'' = Some (VStr (v_uuid x))"
  "map_of (sync_identity x d) ''hostname'' = Some (VStr (v_hostname x))"
  "map_of (sync_identity x d) ''owner_uuid'' = Some (VStr (int_str (v_owner x)))"
  "map_of (sync_identity x d) ''alias'' = Some (VStr (v_hostname x))"
  by (simp_all add: sync_identity_def dict_simps map_add_def)

lemma sync_json_synced:
  assumes "sync_json st t f x = Inr y"
  shows "synced st y (v_json y)"
proof -
  from assms obtain d1 d2 d3 z where z: "sync_metadata z (sync_identity z d1) = Inr d2" "sync_missing st z d2 = Inr d3"
    and y: "y = z\<lparr>v_json := sync_brand st z (scalar_metadata d3)\<rparr>"
    by (auto simp: sync_json_def rbind_Inr_iff)
  note md = sync_metadata_props [OF z(1)] and mi = sync_missing_props [OF z(2)]
  obtain m where m: "map_of d2 ''internal_metadata'' = Some (VDict m)" "map_of m ''alias'' = Some (VStr (v_alias z))"
      "map_of m ''ostype'' = Some (VInt (v_ostype z))" "v_template z = None \<longrightarrow> map_of m ''template'' = None"
    using md(1) by (elim exE conjE)
  have m3: "map_of d3 ''internal_metadata'' = Some (VDict m)" using mi(3) m(1) by simp
  let ?f = "filter (\<lambda>(_, v). is_scalar v) m"
  have f: "map_of ?f ''alias'' = Some (VStr (v_alias z))" "map_of ?f ''ostype'' = Some (VInt (v_ostype z))"
      "v_template z = None \<longrightarrow> map_of ?f ''template'' = None" "\<forall>(_, v) \<in> set ?f. is_scalar v"
    using m by (auto simp: map_of_filter_keep map_of_filter_None is_scalar_def)
  have yid: "sync_brand st y d = sync_brand st z d" for d
    by (simp add: y sync_brand_frame)
  have other: "map_of (v_json y) k = (if k = ''internal_metadata'' then Some (VDict ?f) else map_of d3 k)"
    if "k \<notin> {''qemu_extra_opts'', ''bhyve_extra_opts'', ''vnc_port'', ''zfs_filesystem_limit'', ''zfs_snapshot_limit'',
      ''kernel_version''}" for k
    using sync_brand_other [OF that] scalar_metadata_props [OF m3] by (simp add: y)
  have id: "map_of (v_json y) k = map_of (sync_identity z d1) k" if "k \<in> {''uuid'', ''hostname'', ''owner_uuid'', ''alias''}" for k
    using that other [of k] mi(3) [of k] md(2) [of k] by auto
  have fields: "v_uuid y = v_uuid z" "v_hostname y = v_hostname z" "v_owner y = v_owner z" "v_alias y = v_alias z"
      "v_ostype y = v_ostype z" "v_template y = v_template z" "v_node y = v_node z"
    by (simp_all add: y)
  have "sync_brand st y (v_json y) = v_json y" unfolding yid by (simp add: y sync_brand_idem)
  moreover have "dhas (v_json y) ''autoboot'' \<and> dhas (v_json y) ''brand'' \<and> dhas (v_json y) ''customer_metadata''"
    using mi(1) by (simp add: dhas_iff other)
  moreover have "map_of (v_json y) ''server_uuid'' = Some (VStr (nr_uuid n))"
    if "v_node z = Some n" "dhas (v_json y) ''server_uuid''" for n
    using mi(2) [OF that(1)] that(2) by (simp add: dhas_iff other)
  moreover have "map_of (v_json y) ''uuid'' = Some (VStr (v_uuid z))" "map_of (v_json y) ''hostname'' = Some (VStr (v_hostname z))"
      "map_of (v_json y) ''owner_uuid'' = Some (VStr (int_str (v_owner z)))" "map_of (v_json y) ''alias'' = Some (VStr (v_hostname z))"
    by (simp_all add: id sync_identity_props)
  moreover have "map_of (v_json y) ''internal_metadata'' = Some (VDict ?f)" by (simp add: other)
  ultimately show ?thesis
    unfolding synced_def fields using f by (intro conjI exI [of _ ?f] allI impI) blast+
qed

lemma synced_fixpoint:
  assumes "synced st x (v_json x)"
  shows "sync_json st False False x = Inr x"
proof -
  let ?d = "v_json x"
  from assms obtain m where m: "map_of ?d ''internal_metadata'' = Some (VDict m)" "map_of m ''alias'' = Some (VStr (v_alias x))"
      "map_of m ''ostype'' = Some (VInt (v_ostype x))" "v_template x = None \<longrightarrow> map_of m ''template'' = None"
      "\<forall>(_, v) \<in> set m. is_scalar v"
    unfolding synced_def by (elim exE conjE)
  have "sync_identity x ?d = ?d" using assms by (auto simp: sync_identity_def synced_def intro!: dupdate_id)
  moreover have "sync_metadata x ?d = Inr ?d"
  proof -
    have "dupdate m [(''alias'', VStr (v_alias x)), (''ostype'', VInt (v_ostype x))] = m"
      using m by (auto intro!: dupdate_id)
    with m show ?thesis by (auto simp: sync_metadata_def ditem_def update_id delete_id Let_def)
  qed
  moreover have "sync_missing st x ?d = Inr ?d"
    using assms by (auto simp: sync_missing_def synced_def default_item_def update_id split: option.splits)
  moreover have "scalar_metadata ?d = ?d"
    using m filter_True [of m "\<lambda>(_, v). is_scalar v"] by (auto simp: scalar_metadata_def update_id)
  moreover have "sync_brand st x ?d = ?d" using assms by (simp add: synced_def)
  ultimately show ?thesis by (simp add: sync_json_def sync_new_def sync_from_template_def)
qed

text \<open>
  C32. Whatever was synchronised before (defaults and template included), the definition that
  \<open>sync_json\<close> leaves carries the identity of the object (UUID, host name, owner, alias), its
  internal metadata name the alias and operating system and hold only scalar values, the UUID of the
  node is the one of the object if the definition has one, and synchronising again changes nothing.
\<close>

theorem sync_json_idempotent:
  assumes "sync_json st t f x = Inr y"
  shows "sync_json st False False y = Inr y
    \<and> map_of (v_json y) ''uuid'' = Some (VStr (v_uuid y)) \<and> map_of (v_json y) ''hostname'' = Some (VStr (v_hostname y))
    \<and> map_of (v_json y) ''owner_uuid'' = Some (VStr (int_str (v_owner y)))
    \<and> (\<exists>m. map_of (v_json y) ''internal_metadata'' = Some (VDict m) \<and> map_of m ''alias'' = Some (VStr (v_alias y))
         \<and> map_of m ''ostype'' = Some (VInt (v_ostype y)) \<and> (\<forall>(_, v) \<in> set m. is_scalar v))
    \<and> (\<forall>n. v_node y = Some n \<and> dhas (v_json y) ''server_uuid'' \<longrightarrow>
         map_of (v_json y) ''server_uuid'' = Some (VStr (nr_uuid n)))"
  using synced_fixpoint [OF sync_json_synced [OF assms]] sync_json_synced [OF assms]
  by (auto simp: synced_def)

definition demo_settings :: vm_settings where
  "demo_settings = \<lparr>s_json_defaults = [(''internal_metadata'', VDict [(''author'', VStr ''Erigones''), (''installed'', VBool False)])],
     s_resolvers = VList [VStr ''8.8.4.4''], s_dc_hvm_type = 1, s_hvm_type = 1, s_qemu_extra_opts = ''q'',
     s_bhyve_extra_opts = ''b'', s_zone_feature_level = 1, s_lx_kernel_version = ''4.4'', s_ssh_keys = [''k1''],
     s_user_script = (\<lambda>s. ''run '' @ s)\<rparr>"

theorem sync_json_idempotent_witness:
  "\<exists>y. sync_json demo_settings True True demo_vm = Inr y \<and> sync_json demo_settings False False y = Inr y
    \<and> map_of (v_json y) ''brand'' = Some (VStr ''kvm'')"
proof -
  let ?r = "sync_json demo_settings True True demo_vm"
  have "case ?r of Inr y \<Rightarrow> map_of (v_json y) ''brand'' = Some (VStr ''kvm'') | Inl _ \<Rightarrow> False" by code_simp
  then obtain y where "?r = Inr y" "map_of (v_json y) ''brand'' = Some (VStr ''kvm'')" by (auto split: sum.splits)
  with sync_json_idempotent [OF this(1)] show ?thesis by blast
qed

section \<open>Hypervisors, passwords and creation\<close>

text \<open>
  After the operating system and the hypervisor type of a VM are set, the brand written into the
  definition stands for exactly the hypervisor type of the object, and the VM counts as a
  hypervisor VM if and only if its operating system is not one of the zones, whatever hypervisor
  was asked for.
\<close>

theorem brand_matches_hypervisor:
  assumes "set_ostype os x = Inr y" "set_hvm_type st hv y = Inr z"
    and "os \<in> {LINUX, SUNOS, BSD, WINDOWS, SUNOS_ZONE, LINUX_ZONE}" "hv \<in> {Hypervisor_KVM, Hypervisor_BHYVE}"
  shows "(\<exists>b. map_of (v_json z) ''brand'' = Some (VStr b) \<and> brand_to_hvm_type b = Inr (v_hvm_type z))
    \<and> (is_hvm z \<longleftrightarrow> os \<notin> {SUNOS_ZONE, LINUX_ZONE}) \<and> v_ostype z = os"
proof -
  have y: "v_ostype y = os" and b: "ostype_brand os \<noteq> ''hvm'' \<Longrightarrow> map_of (v_json y) ''brand'' = Some (VStr (ostype_brand os))"
    using assms(1) by (auto simp: set_ostype_def save_item_def Let_def dict_simps split: if_splits)
  have cases: "ostype_brand os = ''hvm'' \<and> os \<notin> {SUNOS_ZONE, LINUX_ZONE}
      \<or> ostype_brand os \<in> {''joyent'', ''lx''} \<and> os \<in> {SUNOS_ZONE, LINUX_ZONE}"
    using assms(3) by (auto simp: ostype_brand_def OSTYPE_BRAND_def type_defs)
  have hv: "map_of HVM_TYPE_BRAND hv = Some (if hv = Hypervisor_KVM then ''kvm'' else ''bhyve'')"
    "hv \<in> set HVM" "Hypervisor_NONE \<notin> set HVM"
    using assms(4) by (auto simp: HVM_TYPE_BRAND_def type_defs)
  have bt: "brand_to_hvm_type ''kvm'' = Inr Hypervisor_KVM" "brand_to_hvm_type ''bhyve'' = Inr Hypervisor_BHYVE"
    "brand_to_hvm_type ''joyent'' = Inr Hypervisor_NONE" "brand_to_hvm_type ''lx'' = Inr Hypervisor_NONE"
    by (simp_all add: brand_to_hvm_type_def COMPATIBLE_BRANDS_def)
  from cases show ?thesis
  proof
    assume h: "ostype_brand os = ''hvm'' \<and> os \<notin> {SUNOS_ZONE, LINUX_ZONE}"
    with assms(2) y hv have "z = y\<lparr>v_json := AList.update ''brand'' (VStr (if hv = Hypervisor_KVM then ''kvm'' else ''bhyve'')) (v_json y),
        v_hvm_type := hv\<rparr>"
      by (simp add: set_hvm_type_def save_item_def)
    with h hv y bt assms(4) show ?thesis by (auto simp: dict_simps is_hvm_def)
  next
    assume h: "ostype_brand os \<in> {''joyent'', ''lx''} \<and> os \<in> {SUNOS_ZONE, LINUX_ZONE}"
    with assms(2) y have "z = y\<lparr>v_hvm_type := Hypervisor_NONE\<rparr>" by (auto simp: set_hvm_type_def)
    with h hv y b bt show ?thesis by (auto simp: is_hvm_def)
  qed
qed

theorem brand_matches_hypervisor_witness:
  "\<exists>y z. set_ostype LINUX_ZONE demo_vm = Inr y \<and> set_hvm_type demo_settings Hypervisor_KVM y = Inr z \<and> \<not> is_hvm z"
proof -
  obtain y where y: "set_ostype LINUX_ZONE demo_vm = Inr y"
    by (cases "ostype_brand LINUX_ZONE = ''hvm''") (auto simp: set_ostype_def save_item_def Let_def)
  moreover obtain z where z: "set_hvm_type demo_settings Hypervisor_KVM y = Inr z"
    by (cases "ostype_brand (v_ostype y) = ''hvm''") (auto simp: set_hvm_type_def save_item_def Let_def)
  ultimately show ?thesis using brand_matches_hypervisor [OF y z] by auto
qed

lemma set_cloud_init_props:
  assumes "set_cloud_init attr value d = Inr e"
  shows "\<exists>c. map_of e ''customer_metadata'' = Some (VDict c) \<and> dhas c (''cloud-init:'' @ attr)"
    and "k \<noteq> ''customer_metadata'' \<Longrightarrow> map_of e k = map_of d k"
  using assms
  by (auto simp: set_cloud_init_def ditem_def Let_def dict_simps dhas_iff split: option.splits pyval.splits if_splits)

text \<open>
  The root password is generated once: after \<open>set_root_pw\<close> the internal metadata have a root
  password and the customer metadata have cloud-init data, and a further call, with whatever random
  password, changes nothing.
\<close>

theorem root_pw_generated_once:
  assumes "set_root_pw r x = Inr y"
  shows "set_root_pw r' y = Inr y
    \<and> (\<exists>m p. map_of (v_json y) ''internal_metadata'' = Some (VDict m) \<and> map_of m ''root_pw'' = Some (VStr p))"
proof -
  from assms obtain p d where o: "root_pw_of r (v_json x) = Inr (p, d)"
      and s: "set_cloud_init ''user-data'' [''chpasswd:'', '' expire: false'', '' list: |'', ''   root:'' @ p] d = Inr (v_json y)"
    by (auto simp: set_root_pw_def rbind_Inr_iff)
  have d: "\<exists>m. map_of d ''internal_metadata'' = Some (VDict m) \<and> map_of m ''root_pw'' = Some (VStr p)"
    using o by (auto simp: root_pw_of_def dict_simps split: option.splits pyval.splits)
  from set_cloud_init_props [OF s] d show ?thesis
    by (auto simp: set_root_pw_def root_pw_of_def set_cloud_init_def ditem_def Let_def)
qed

theorem root_pw_generated_once_witness:
  "\<exists>y. set_root_pw ''pw1'' (demo_vm\<lparr>v_json := [(''internal_metadata'', VDict []), (''customer_metadata'', VDict [])]\<rparr>) = Inr y
    \<and> set_root_pw ''pw2'' y = Inr y"
proof -
  let ?r = "set_root_pw ''pw1'' (demo_vm\<lparr>v_json := [(''internal_metadata'', VDict []), (''customer_metadata'', VDict [])]\<rparr>)"
  have "case ?r of Inr y \<Rightarrow> True | Inl _ \<Rightarrow> False" by code_simp
  then obtain y where "?r = Inr y" by (auto split: sum.splits)
  with root_pw_generated_once [OF this] show ?thesis by blast
qed

lemma map_of_delete_if [dict_simps]: "map_of (delete_if b k d) i = (if b \<and> i = k then None else map_of d i)"
  by (simp add: delete_if_def dict_simps)

text \<open>What a creation expects of a disk, given the disk of the definition; only sizes that are given are compared.\<close>

definition disk_grows :: "bool \<Rightarrow> pydict \<Rightarrow> bool" where
  "disk_grows resize disk \<longleftrightarrow> resize \<and> dhas disk ''image_uuid''
     \<and> (\<exists>size image_size. map_of disk ''size'' = Some size \<and> map_of disk ''image_size'' = Some image_size \<and> \<not> py_eq size image_size)"

definition created_disk :: "bool \<Rightarrow> bool \<Rightarrow> pydict \<Rightarrow> pydict \<Rightarrow> bool" where
  "created_disk bhyve resize disk d \<longleftrightarrow> (\<forall>k. map_of d k =
     (if k = ''zfs_filesystem'' \<or> k = ''path'' \<and> py_eq (dget disk ''media'' (VStr ''disk'')) (VStr ''disk'')
         \<or> k \<in> {''size'', ''block_size''} \<and> dhas disk ''image_uuid'' \<or> k = ''refreservation'' \<and> (bhyve \<or> disk_grows resize disk)
      then None else map_of disk k))"

text \<open>The items of the whole definition, apart from the disks and the metadata.\<close>

definition created_item :: "bool \<Rightarrow> pydict \<Rightarrow> string \<Rightarrow> pyval option" where
  "created_item hvm json k =
     (if k \<in> set create_removed \<or> k \<in> (if hvm then {''routes'', ''dns_domain''} else {''datasets''}) then None
      else if k = ''autoboot'' then Some (VBool False)
      else if k = ''delegate_dataset'' \<and> \<not> hvm \<and> truthy (dget json ''datasets'' VNone) then Some (VBool True)
      else map_of json k)"

definition created_metadata :: "vm_settings \<Rightarrow> string list \<Rightarrow> bool \<Rightarrow> bool \<Rightarrow> bool \<Rightarrow> bool \<Rightarrow> pydict \<Rightarrow> string \<Rightarrow> pyval option" where
  "created_metadata st keys hvm deploy grow recreate m k =
     (if k = ''resize_needed'' \<and> grow then Some (VStr ''yes'')
      else if k = ''root_authorized_keys'' \<and> keys \<noteq> [] \<and> (recreate \<or> map_of m k = None) then Some (VStr (join_with newline keys))
      else if k = ''user-script'' \<and> \<not> hvm \<and> map_of m k = None
        then Some (VStr (s_user_script st (if deploy then ''/usr/sbin/poweroff'' else ''echo'')))
      else map_of m k)"

lemma fix_disk_created: "created_disk bh rs d (fst (fix_disk bh rs d))"
  unfolding created_disk_def disk_grows_def
  by (auto simp: fix_disk_def Let_def dict_simps dhas_iff split: option.splits)

lemma fix_disk_grows: "snd (fix_disk bh rs d) = disk_grows rs d"
  by (auto simp: fix_disk_def Let_def dict_simps dhas_iff disk_grows_def split: option.splits)

lemma fix_hvm_result:
  assumes "fix_hvm bh rs d = Inr (e, grow)"
  obtains "map_of d ''disks'' = None" "e = AList.delete ''dns_domain'' (AList.delete ''routes'' d)" "\<not> grow"
  | ds where "get_dicts d ''disks'' = Inr ds" "map_of d ''disks'' \<noteq> None" "grow = list_ex (disk_grows rs) ds"
      "e = AList.update ''disks'' (VList (map (\<lambda>x. VDict (fst (fix_disk bh rs x))) ds)) (AList.delete ''dns_domain'' (AList.delete ''routes'' d))"
proof -
  let ?d = "AList.delete ''dns_domain'' (AList.delete ''routes'' d)"
  have m: "map_of ?d ''disks'' = map_of d ''disks''" by (simp add: dict_simps)
  then have g: "get_dicts ?d ''disks'' = get_dicts d ''disks''" by (simp add: get_dicts_def dget_def)
  show ?thesis
  proof (cases "map_of d ''disks''")
    case None
    then have "\<not> dhas ?d ''disks''" using m by (simp add: dhas_iff)
    then have "(?d, False) = (e, grow)" using assms unfolding fix_hvm_def Let_def by (simp only: if_False sum.inject)
    then show ?thesis using that(1) None by blast
  next
    case (Some v)
    then have "dhas ?d ''disks''" using m by (simp add: dhas_iff)
    then have "rbind (get_dicts d ''disks'') (\<lambda>ds. Inr (AList.update ''disks'' (VList (map (VDict \<circ> fst) (map (fix_disk bh rs) ds))) ?d,
        list_ex snd (map (fix_disk bh rs) ds))) = Inr (e, grow)"
      using assms unfolding fix_hvm_def Let_def g by (simp only: if_True)
    then obtain ds where ds: "get_dicts d ''disks'' = Inr ds"
        "e = AList.update ''disks'' (VList (map (VDict \<circ> fst) (map (fix_disk bh rs) ds))) ?d" "grow = list_ex snd (map (fix_disk bh rs) ds)"
      by (auto simp: rbind_Inr_iff)
    have "grow = list_ex (disk_grows rs) ds" unfolding ds(3) by (simp add: list_ex_iff fix_disk_grows)
    moreover have "map (VDict \<circ> fst) (map (fix_disk bh rs) ds) = map (\<lambda>x. VDict (fst (fix_disk bh rs x))) ds" by simp
    ultimately show ?thesis using that(2) [OF ds(1)] ds(2) Some by (metis option.distinct(1))
  qed
qed

lemma fix_metadata_items:
  "map_of (fix_metadata st so keys hvm deploy grow recreate m) k = created_metadata st (so (remdups (s_ssh_keys st @ keys))) hvm deploy grow recreate m k"
proof -
  define ks where "ks = so (remdups (s_ssh_keys st @ keys))"
  define m1 where "m1 = (if grow then AList.update ''resize_needed'' (VStr ''yes'') m else m)"
  define m2 where "m2 = (if (\<not> dhas m1 ''root_authorized_keys'' \<or> recreate) \<and> ks \<noteq> []
                then AList.update ''root_authorized_keys'' (VStr (join_with newline ks)) m1 else m1)"
  define script where "script = VStr (s_user_script st (if deploy then ''/usr/sbin/poweroff'' else ''echo''))"
  have 1: "map_of m1 k = (if k = ''resize_needed'' \<and> grow then Some (VStr ''yes'') else map_of m k)" for k
    by (cases grow) (simp_all add: m1_def dict_simps)
  have 2: "map_of m2 k = (if k = ''root_authorized_keys'' \<and> ks \<noteq> [] \<and> (recreate \<or> map_of m1 ''root_authorized_keys'' = None)
      then Some (VStr (join_with newline ks)) else map_of m1 k)" for k
    by (cases "map_of m1 ''root_authorized_keys''"; cases recreate) (simp_all add: m2_def dict_simps dhas_iff)
  have "fix_metadata st so keys hvm deploy grow recreate m = (if \<not> hvm \<and> \<not> dhas m2 ''user-script'' then AList.update ''user-script'' script m2 else m2)"
    unfolding fix_metadata_def Let_def m2_def m1_def ks_def script_def ..
  then have 3: "map_of (fix_metadata st so keys hvm deploy grow recreate m) k =
      (if k = ''user-script'' \<and> \<not> hvm \<and> map_of m2 ''user-script'' = None then Some script else map_of m2 k)"
    by (cases hvm; cases "map_of m2 ''user-script''") (simp_all add: dict_simps dhas_iff)
  have d: "''root_authorized_keys'' \<noteq> ''resize_needed''" "''user-script'' \<noteq> ''resize_needed''" "''user-script'' \<noteq> ''root_authorized_keys''"
    by simp_all
  show ?thesis unfolding 3 2 1 created_metadata_def ks_def [symmetric] script_def [symmetric]
    using d by (simp only: simp_thms if_False) (smt (verit))
qed

lemma create_removed_other:
  "list_all (\<lambda>k. k \<notin> set create_removed) [''disks'', ''customer_metadata'', ''autoboot'', ''routes'', ''dns_domain'', ''datasets'', ''delegate_dataset'']"
  by code_simp

text \<open>
  C33. The definition that is sent for the creation of a VM is exactly the definition of the VM with these changes. The
  properties of an existing VM are gone, it does not boot automatically; of a hypervisor VM the routes and the DNS domain
  are gone, of a zone the datasets, which are delegated when there were any. Every disk of a hypervisor VM is kept
  without its file system, without its path unless it is another medium than a disk, without size and block size when it
  has an image, and without a reservation for bhyve or when it must grow; the guest is told to resize exactly when a
  disk must grow. The SSH keys of the datacenter and the owner are set when there are some and none were set, or for
  a recreation; a zone without a user script gets one, which powers off after a deployment. Nothing else changes.
\<close>

theorem fix_json_clean:
  assumes "fix_json st so keys deploy resize recreate x = Inr d"
  shows "\<exists>m m' disks. map_of (v_json x) ''customer_metadata'' = Some (VDict m) \<and> map_of d ''customer_metadata'' = Some (VDict m')
    \<and> map_of m' = created_metadata st (so (remdups (s_ssh_keys st @ keys))) (is_hvm x) deploy (list_ex (disk_grows resize) disks) recreate m
    \<and> (if is_hvm x \<and> dhas (v_json x) ''disks''
        then get_dicts (v_json x) ''disks'' = Inr disks \<and> (\<exists>ds. map_of d ''disks'' = Some (VList (map VDict ds))
          \<and> list_all2 (created_disk (is_bhyve x) resize) disks ds)
        else disks = [] \<and> map_of d ''disks'' = map_of (v_json x) ''disks'')
    \<and> (\<forall>k. k \<notin> {''disks'', ''customer_metadata''} \<longrightarrow> map_of d k = created_item (is_hvm x) (v_json x) k)"
proof -
  let ?d = "foldl (\<lambda>d k. AList.delete k d) (AList.update ''autoboot'' (VBool False) (v_json x)) create_removed"
  note cr = create_removed_other [unfolded list.pred_inject]
  have d0: "map_of ?d k = (if k \<in> set create_removed then None else if k = ''autoboot'' then Some (VBool False) else map_of (v_json x) k)" for k
    by (simp add: dict_simps)
  obtain e grow v where e: "(if is_hvm x then fix_hvm (is_bhyve x) resize ?d else Inr (fix_zone ?d, False)) = Inr (e, grow)"
      and v: "ditem e ''customer_metadata'' = Inr v" "(case v of VDict m \<Rightarrow> Inr (AList.update ''customer_metadata''
                 (VDict (fix_metadata st so keys (is_hvm x) deploy grow recreate m)) e)
               | _ \<Rightarrow> Inl (Exn TypeError ''not a dict'')) = Inr d"
    using assms unfolding fix_json_def Let_def rbind_Inr_iff by (auto simp: rbind_Inr_iff simp del: foldl.simps split del: if_split)
  from v(2) obtain m where m: "v = VDict m" by (cases v) simp_all
  have d: "d = AList.update ''customer_metadata'' (VDict (fix_metadata st so keys (is_hvm x) deploy grow recreate m)) e"
    using v(2) unfolding m by simp
  obtain disks where e2: "grow = list_ex (disk_grows resize) disks"
      "if is_hvm x \<and> dhas (v_json x) ''disks''
        then get_dicts (v_json x) ''disks'' = Inr disks \<and> (\<exists>ds. map_of e ''disks'' = Some (VList (map VDict ds))
          \<and> list_all2 (created_disk (is_bhyve x) resize) disks ds)
        else disks = [] \<and> map_of e ''disks'' = map_of (v_json x) ''disks''"
      "\<And>k. k \<noteq> ''disks'' \<Longrightarrow> map_of e k = created_item (is_hvm x) (v_json x) k"
  proof (cases "is_hvm x")
    case True
    then have fh: "fix_hvm (is_bhyve x) resize ?d = Inr (e, grow)" using e by simp
    have k0: "map_of ?d ''disks'' = map_of (v_json x) ''disks''" using cr by (simp add: d0)
    then have g0: "get_dicts ?d ''disks'' = get_dicts (v_json x) ''disks''" by (simp add: get_dicts_def dget_def)
    from fh show ?thesis
    proof (cases rule: fix_hvm_result)
      case 1
      have o: "map_of e k = created_item True (v_json x) k" for k unfolding 1(2) by (auto simp: dict_simps d0 created_item_def)
      have "map_of e ''disks'' = map_of (v_json x) ''disks''" unfolding 1(2) using k0 by (simp add: dict_simps)
      moreover have "\<not> dhas (v_json x) ''disks''" using 1(1) k0 by (simp add: dhas_iff)
      ultimately show ?thesis using that [of "[]"] 1(3) o True by simp
    next
      case (2 ds)
      have o: "k \<noteq> ''disks'' \<Longrightarrow> map_of e k = created_item True (v_json x) k" for k
        unfolding 2(4) by (auto simp: dict_simps d0 created_item_def)
      have "\<exists>qs. map_of e ''disks'' = Some (VList (map VDict qs)) \<and> list_all2 (created_disk (is_bhyve x) resize) ds qs"
        by (rule exI [of _ "map (fst \<circ> fix_disk (is_bhyve x) resize) ds"])
          (simp add: 2(4) dict_simps list_all2_map2 list_all2_same fix_disk_created comp_def)
      moreover have "dhas (v_json x) ''disks''" using 2(2) k0 by (simp add: dhas_iff)
      moreover have "get_dicts (v_json x) ''disks'' = Inr ds" using 2(1) g0 by simp
      ultimately show ?thesis using that [OF 2(3)] o True by simp
    qed
  next
    case False
    then have fz: "e = fix_zone ?d" "\<not> grow" using e by auto
    have t: "dget ?d ''datasets'' VNone = dget (v_json x) ''datasets'' VNone" using cr by (simp add: dget_def d0)
    have o: "map_of e k = created_item False (v_json x) k" for k
      using cr unfolding fz(1) fix_zone_def Let_def t by (auto simp: dict_simps d0 created_item_def)
    then have "map_of e ''disks'' = map_of (v_json x) ''disks''" using cr by (simp add: created_item_def)
    then show ?thesis using that [of "[]"] fz(2) o False by simp
  qed
  have cm: "map_of (v_json x) ''customer_metadata'' = Some (VDict m)"
    using v(1) e2(3) [of "''customer_metadata''"] cr unfolding m by (auto simp: ditem_def created_item_def split: option.splits if_splits)
  show ?thesis
  proof (intro exI conjI)
    show "map_of (v_json x) ''customer_metadata'' = Some (VDict m)" by (rule cm)
    show "map_of d ''customer_metadata'' = Some (VDict (fix_metadata st so keys (is_hvm x) deploy grow recreate m))"
      by (simp add: d dict_simps)
    show "map_of (fix_metadata st so keys (is_hvm x) deploy grow recreate m)
        = created_metadata st (so (remdups (s_ssh_keys st @ keys))) (is_hvm x) deploy (list_ex (disk_grows resize) disks) recreate m"
      by (rule ext) (simp only: fix_metadata_items e2(1))
    have "map_of d ''disks'' = map_of e ''disks''" by (simp add: d dict_simps)
    with e2(2) show "if is_hvm x \<and> dhas (v_json x) ''disks''
        then get_dicts (v_json x) ''disks'' = Inr disks \<and> (\<exists>ds. map_of d ''disks'' = Some (VList (map VDict ds))
          \<and> list_all2 (created_disk (is_bhyve x) resize) disks ds)
        else disks = [] \<and> map_of d ''disks'' = map_of (v_json x) ''disks''" by simp
    show "\<forall>k. k \<notin> {''disks'', ''customer_metadata''} \<longrightarrow> map_of d k = created_item (is_hvm x) (v_json x) k"
      using e2(3) by (simp add: d dict_simps)
  qed
qed

theorem fix_json_clean_witness:
  "\<exists>d. fix_json demo_settings (\<lambda>ks. ks) [''k2''] True True False (demo_vm\<lparr>v_json := [(''customer_metadata'', VDict []),
       (''disks'', VList [VDict [(''image_uuid'', VStr ''i''), (''size'', VInt 2), (''image_size'', VInt 1)]])]\<rparr>) = Inr d
    \<and> map_of d ''autoboot'' = Some (VBool False)"
proof -
  let ?r = "fix_json demo_settings (\<lambda>ks. ks) [''k2''] True True False (demo_vm\<lparr>v_json := [(''customer_metadata'', VDict []),
       (''disks'', VList [VDict [(''image_uuid'', VStr ''i''), (''size'', VInt 2), (''image_size'', VInt 1)]])]\<rparr>)"
  have "case ?r of Inr y \<Rightarrow> True | Inl _ \<Rightarrow> False" by code_simp
  then obtain d where "?r = Inr d" by (auto split: sum.splits)
  have a: "created_item hvm j ''autoboot'' = Some (VBool False)" for hvm j
    using create_removed_other by (simp add: created_item_def)
  have "map_of d ''autoboot'' = Some (VBool False)"
    using fix_json_clean [OF \<open>?r = Inr d\<close>] a by (elim exE conjE) simp
  then show ?thesis using \<open>?r = Inr d\<close> by blast
qed

lemma revert_owner_frame:
  "revert_owner_of ue z = Inr w \<Longrightarrow> v_lock w = v_lock z \<and> v_json w = v_json z
    \<and> v_json_active w = v_json_active z \<and> v_status w = v_status z"
  by (auto simp: revert_owner_of_def rbind_Inr_iff split: pyval.splits if_splits)

lemma revert_template_frame:
  "v_lock (revert_template_of ts n z) = v_lock z \<and> v_json (revert_template_of ts n z) = v_json z
    \<and> v_json_active (revert_template_of ts n z) = v_json_active z \<and> v_status (revert_template_of ts n z) = v_status z"
  by (auto simp: revert_template_of_def split: pyval.splits option.splits)

lemma revert_active_locked:
  assumes "revert_active ue ts jo ro rt x = Inr y"
  shows "v_lock y \<and> v_json y = v_json_active x \<and> v_json_active y = v_json_active x \<and> v_status y = v_status x"
proof (cases jo)
  case True
  with assms show ?thesis by (auto simp: revert_active_def)
next
  case False
  with assms obtain h a tn w where w: "(if ro then revert_owner_of ue
        (x\<lparr>v_lock := True, v_json := v_json_active x, v_hostname := h, v_alias := a\<rparr>)
      else Inr (x\<lparr>v_lock := True, v_json := v_json_active x, v_hostname := h, v_alias := a\<rparr>)) = Inr w"
    and y: "y = (if rt then revert_template_of ts tn w else w)"
    by (auto simp: revert_active_def Let_def rbind_Inr_iff)
  have "v_lock w \<and> v_json w = v_json_active x \<and> v_json_active w = v_json_active x \<and> v_status w = v_status x"
  proof (cases ro)
    case True
    with w have "revert_owner_of ue (x\<lparr>v_lock := True, v_json := v_json_active x, v_hostname := h, v_alias := a\<rparr>) = Inr w" by simp
    from revert_owner_frame [OF this] show ?thesis by simp
  next
    case False
    with w show ?thesis by auto
  qed
  with y revert_template_frame show ?thesis by auto
qed

end
