(* ===== verification/Vm_State.thy ===== *)
theory Vm_State
  imports Vm_Define
begin

text \<open>
  Placing, naming and saving a VM in \<^verbatim>\<open>vms/models/vm.py\<close> and the saving of objects with a
  status in \<^verbatim>\<open>vms/models/base.py\<close>: node and node history, VNC port, host name, uptime, the
  displayed status, and \<open>save\<close>. The database is an argument of each query, and what \<open>save\<close>
  causes elsewhere (writes, cache entries, recalculations, DNS changes) is returned as a list of
  effects in the order of the code.
\<close>

section \<open>Node, history and VNC port\<close>

definition set_node :: "node_ref option \<Rightarrow> vm \<Rightarrow> vm res" where
  "set_node node x =
     (if map_option nr_uuid (v_node x) \<noteq> map_option nr_uuid node
      then (if v_orig_node x \<noteq> None
            then Inl (Exn SuspiciousOperation ''Cannot change node multiple times without saving!'')
            else Inr (x\<lparr>v_orig_node := v_node x, v_node_changed := True, v_node := node\<rparr>))
      else Inr x)"

definition history_entry :: "node_ref \<Rightarrow> int \<Rightarrow> pydict" where
  "history_entry n now = [(''node_uuid'', VStr (nr_uuid n)), (''node_hostname'', VStr (nr_hostname n)), (''till'', VInt now)]"

definition update_node_history :: "int \<Rightarrow> node_ref option \<Rightarrow> vm \<Rightarrow> vm res" where
  "update_node_history now orig_node x =
     (let info = default_item ''node_history'' (VList []) (v_info x)
      in case (case orig_node of Some n \<Rightarrow> Some n | None \<Rightarrow> v_orig_node x) of
           None \<Rightarrow> Inr (x\<lparr>v_info := info\<rparr>)
         | Some n \<Rightarrow> (case map_of info ''node_history'' of
               Some (VList h) \<Rightarrow>
                 Inr (x\<lparr>v_info := AList.update ''node_history'' (VList (h @ [VDict (history_entry n now)])) info\<rparr>)
             | _ \<Rightarrow> Inl (Exn AttributeError ''append'')))"

text \<open>
  \<open>vms\<close> are the VMs of the node with their ports. Every step of the loop asks for the same port
  \<open>new_port\<close>.
\<close>

definition FIRST_VNC_PORT :: int where "FIRST_VNC_PORT = 15901"

fun vnc_loop :: "int set \<Rightarrow> int \<Rightarrow> int list \<Rightarrow> int option" where
  "vnc_loop taken new_port [] = None"
| "vnc_loop taken new_port (port # ports) =
     (if new_port \<notin> taken then Some port else vnc_loop taken new_port ports)"

definition next_vnc_port :: "int list \<Rightarrow> int" where
  "next_vnc_port ports = (if Max (set ports) + 1 \<ge> 65535 then FIRST_VNC_PORT else Max (set ports) + 1)"

definition choose_vnc_port :: "(string \<times> int) list \<Rightarrow> vm \<Rightarrow> vm res" where
  "choose_vnc_port vms x =
     (case filter (\<lambda>(u, _). u \<noteq> v_uuid x) vms of
        [] \<Rightarrow> Inr (x\<lparr>v_vnc_port := Some FIRST_VNC_PORT\<rparr>)
      | others \<Rightarrow>
          (let new_port = next_vnc_port (map snd others)
           in case vnc_loop (snd ` set vms) new_port [new_port..65535] of
                Some port \<Rightarrow> Inr (x\<lparr>v_vnc_port := Some port\<rparr>)
              | None \<Rightarrow> Inl (Exn RuntimeError ''Could not find free VNC port'')))"

section \<open>Host names\<close>

definition lower_char :: "char \<Rightarrow> char" where
  "lower_char c = (if 65 \<le> ch_code c \<and> ch_code c \<le> 90 then char_of (ch_code c + 32) else c)"

definition lower :: "string \<Rightarrow> string" where "lower s = map lower_char s"

definition zfill2 :: "string \<Rightarrow> string" where
  "zfill2 s = replicate (2 - length s) (CHR ''0'') @ s"

definition hostname_suffix :: "nat \<Rightarrow> string" where
  "hostname_suffix i = (if i = 0 then [] else CHR ''-'' # zfill2 (nat_str i))"

definition hostname_exists :: "string list \<Rightarrow> string \<Rightarrow> bool" where
  "hostname_exists names h \<longleftrightarrow> list_ex (\<lambda>n. lower n = lower h) names"

text \<open>The loop of \<open>generate_hostname\<close>, with fuel; \<open>names\<close> are the host names in the database.\<close>

fun hostname_loop :: "nat \<Rightarrow> string list \<Rightarrow> string \<Rightarrow> string \<Rightarrow> nat \<Rightarrow> string option" where
  "hostname_loop 0 names alias domain i = None"
| "hostname_loop (Suc n) names alias domain i =
     (let hostname = alias @ hostname_suffix i @ ''.'' @ domain
      in if \<not> hostname_exists names hostname then Some hostname else hostname_loop n names alias domain (Suc i))"

definition generate_hostname :: "nat \<Rightarrow> string list \<Rightarrow> string \<Rightarrow> string \<Rightarrow> string option" where
  "generate_hostname fuel names domain alias = hostname_loop fuel names (lower (strip alias)) domain 0"

fun fqdn_search :: "string list \<Rightarrow> string list \<Rightarrow> string list \<Rightarrow> (string \<times> string) option" where
  "fqdn_search domains before [] = None"
| "fqdn_search domains before (p # rest) =
     (if join_with ''.'' (p # rest) \<in> set domains
      then Some (join_with ''.'' before, join_with ''.'' (p # rest))
      else fqdn_search domains (before @ [p]) rest)"

definition hostname_is_valid_fqdn :: "bool \<Rightarrow> string list \<Rightarrow> bool \<Rightarrow> vm \<Rightarrow> bool \<times> vm" where
  "hostname_is_valid_fqdn dns_enabled domains use_cache x =
     (if use_cache \<and> v_fqdn_hostname x \<notin> {None, Some []}
      then (v_fqdn_domain x \<notin> {None, Some []}, x)
      else (case (if dns_enabled
                  then (case split_on (CHR ''.'') (v_hostname x) of p # rest \<Rightarrow> fqdn_search domains [p] rest | [] \<Rightarrow> None)
                  else None) of
              Some (h, d) \<Rightarrow> (True, x\<lparr>v_fqdn_hostname := Some h, v_fqdn_domain := Some d\<rparr>)
            | None \<Rightarrow> (False, x\<lparr>v_fqdn_hostname := Some (v_hostname x), v_fqdn_domain := None\<rparr>)))"

section \<open>Effects\<close>

datatype effect =
    DbSave "string list option"
  | CacheSet string pyval
  | UpdateStorage nat
  | UpdateNode string
  | DnsDelete string string string
  | DnsAdd string string string

text \<open>
  \<open>update_hostname\<close>: the addresses of the old name are moved to the new one. \<open>records\<close> gives the
  addresses of a name in a domain.
\<close>

definition update_hostname :: "bool \<Rightarrow> string list \<Rightarrow> (string \<Rightarrow> string \<Rightarrow> string list) \<Rightarrow> string option \<Rightarrow> vm \<Rightarrow>
    (bool \<times> vm \<times> effect list) res" where
  "update_hostname dns_enabled domains records new_hostname x =
     (if v_fqdn_hostname x = None \<and> v_fqdn_domain x = None then Inl (Exn AssertionError ''fqdn not cached'')
      else if \<not> dns_enabled then Inr (False, x, [])
      else
        (let y = (case new_hostname of
                    Some h \<Rightarrow> (if h \<noteq> [] then (snd (hostname_is_valid_fqdn dns_enabled domains False x))\<lparr>v_hostname := h\<rparr> else x)
                  | None \<Rightarrow> x)
         in case (v_fqdn_hostname y, v_fqdn_domain y) of
              (Some h, Some d) \<Rightarrow>
                (if h \<noteq> [] \<and> d \<noteq> []
                 then (let old = h @ ''.'' @ d;
                           (valid, z) = hostname_is_valid_fqdn dns_enabled domains False y;
                           new_domain = (case v_fqdn_domain z of Some nd \<Rightarrow> nd | None \<Rightarrow> [])
                       in Inr (valid, z, concat (map (\<lambda>ip. DnsDelete old d ip #
                                (if valid then [DnsAdd new_domain (v_hostname z) ip] else [])) (records old d))))
                 else Inr (False, y, []))
            | _ \<Rightarrow> Inr (False, y, [])))"

section \<open>Ports and names\<close>

lemma vnc_loop_ports: "ports \<noteq> [] \<Longrightarrow> vnc_loop taken p ports = (if p \<notin> taken then Some (hd ports) else None)"
proof -
  have "p \<in> taken \<Longrightarrow> vnc_loop taken p ps = None" for ps by (induction ps) auto
  then show "ports \<noteq> [] \<Longrightarrow> vnc_loop taken p ports = (if p \<notin> taken then Some (hd ports) else None)"
    by (cases ports) auto
qed

lemma next_vnc_port_less: "next_vnc_port ports < 65535"
  by (simp add: next_vnc_port_def FIRST_VNC_PORT_def)

lemma choose_vnc_port_cases:
  "choose_vnc_port vms x =
    (let others = filter (\<lambda>(u, _). u \<noteq> v_uuid x) vms; new_port = next_vnc_port (map snd others)
     in if others = [] then Inr (x\<lparr>v_vnc_port := Some FIRST_VNC_PORT\<rparr>)
        else if new_port \<notin> snd ` set vms then Inr (x\<lparr>v_vnc_port := Some new_port\<rparr>)
        else Inl (Exn RuntimeError ''Could not find free VNC port''))"
proof -
  have "vnc_loop (snd ` set vms) q [q..65535] = (if q \<notin> snd ` set vms then Some q else None)" if "q < 65535" for q
    using that upto_rec1 [of q 65535] vnc_loop_ports [of "[q..65535]"] by (simp del: upto.simps vnc_loop.simps)
  then show ?thesis
    unfolding choose_vnc_port_def Let_def using next_vnc_port_less
    by (cases "filter (\<lambda>(u, _). u \<noteq> v_uuid x) vms") (simp_all del: upto.simps)
qed

lemma choose_vnc_port_free:
  assumes "choose_vnc_port vms x = Inr y"
  shows "\<exists>p. y = x\<lparr>v_vnc_port := Some p\<rparr> \<and> p < 65535 \<and> \<not> list_ex (\<lambda>(u, q). u \<noteq> v_uuid x \<and> q = p) vms"
proof -
  let ?o = "filter (\<lambda>(u, _). u \<noteq> v_uuid x) vms"
  let ?p = "next_vnc_port (map snd ?o)"
  show ?thesis
  proof (cases "?o = []")
    case True
    with assms show ?thesis
      by (intro exI [of _ FIRST_VNC_PORT])
         (auto simp: choose_vnc_port_cases filter_empty_conv list_ex_iff FIRST_VNC_PORT_def)
  next
    case False
    with assms have "?p \<notin> snd ` set vms" "y = x\<lparr>v_vnc_port := Some ?p\<rparr>"
      by (auto simp: choose_vnc_port_cases Let_def split: if_splits)
    then show ?thesis using next_vnc_port_less by (intro exI [of _ ?p]) (force simp: list_ex_iff)
  qed
qed

text \<open>
  The VNC port that is chosen for a VM is used by no other VM of its node, and nothing but the
  port of the object changes.
\<close>

theorem vnc_port_unique:
  assumes "choose_vnc_port vms x = Inr y"
  shows "\<exists>p. y = x\<lparr>v_vnc_port := Some p\<rparr> \<and> p < 65535 \<and> \<not> list_ex (\<lambda>(u, q). u \<noteq> v_uuid x \<and> q = p) vms"
  by (rule choose_vnc_port_free [OF assms])

theorem vnc_port_unique_witness:
  "\<exists>y p. choose_vnc_port [(''a'', 15901), (''b'', 15905)] demo_vm = Inr y \<and> v_vnc_port y = Some p \<and> p < 65535 \<and> p \<noteq> 15905"
proof -
  have "choose_vnc_port [(''a'', 15901), (''b'', 15905)] demo_vm = Inr (demo_vm\<lparr>v_vnc_port := Some 15906\<rparr>)"
    by (simp add: choose_vnc_port_cases next_vnc_port_def demo_vm_def)
  from vnc_port_unique [OF this] this show ?thesis by auto
qed

text \<open>
  Once another VM of the node has one of the last ports, the search starts over at the first
  port, and the loop then tests only that port: if the first port is in use, choosing a port fails
  although almost all ports are free.
\<close>

theorem vnc_port_exhausted_early:
  assumes "(u, p) \<in> set vms" "u \<noteq> v_uuid x" "p \<ge> 65534" "(w, FIRST_VNC_PORT) \<in> set vms"
  shows "choose_vnc_port vms x = Inl (Exn RuntimeError ''Could not find free VNC port'')"
proof -
  let ?o = "filter (\<lambda>(u, _). u \<noteq> v_uuid x) vms"
  have m: "(u, p) \<in> set ?o" using assms by auto
  then have "p \<in> set (map snd ?o)" by force
  then have "p \<le> Max (set (map snd ?o))" by (intro Max_ge) simp_all
  with assms(3) have "next_vnc_port (map snd ?o) = FIRST_VNC_PORT" by (simp add: next_vnc_port_def)
  moreover have "FIRST_VNC_PORT \<in> snd ` set vms" using assms(4) by force
  moreover have "?o \<noteq> []" using m by (metis list.set(1) empty_iff)
  ultimately show ?thesis by (simp add: choose_vnc_port_cases Let_def)
qed

theorem vnc_port_exhausted_early_witness:
  "choose_vnc_port [(''a'', 15901), (''b'', 65534)] demo_vm = Inl (Exn RuntimeError ''Could not find free VNC port'')"
  by (rule vnc_port_exhausted_early [of "''b''" 65534 _ _ "''a''"]) (simp_all add: demo_vm_def FIRST_VNC_PORT_def)

lemma lower_append: "lower (a @ b) = lower a @ lower b"
  by (simp add: lower_def)

lemma lower_digits: "list_all is_digit s \<Longrightarrow> lower s = s"
  by (induction s) (auto simp: lower_def lower_char_def is_digit_def)

lemma digits_val_zero: "digits_val (CHR ''0'' # s) = digits_val s"
  by (simp add: digits_val_def ch_code_def)

lemma digits_val_zfill: "digits_val (zfill2 s) = digits_val s"
proof -
  have "digits_val (replicate n (CHR ''0'') @ s) = digits_val s" for n
    by (induction n) (simp_all add: digits_val_zero)
  then show ?thesis by (simp add: zfill2_def)
qed

lemma lower_suffix: "lower (hostname_suffix i) = hostname_suffix i"
proof -
  have "lower (zfill2 (nat_str n)) = zfill2 (nat_str n)" for n
  proof (rule lower_digits)
    have "is_digit (CHR ''0'')" by (simp add: is_digit_def ch_code_def)
    with list_all_digit_nat_str [of n] show "list_all is_digit (zfill2 (nat_str n))"
      by (auto simp: zfill2_def list_all_iff)
  qed
  moreover have "lower_char (CHR ''-'') = CHR ''-''" by (simp add: lower_char_def ch_code_def)
  ultimately show ?thesis by (simp add: hostname_suffix_def lower_def)
qed

lemma zfill2_inject: "zfill2 (nat_str i) = zfill2 (nat_str j) \<Longrightarrow> i = j"
  using digits_val_zfill digits_val_nat_str by metis

lemma hostname_suffix_inject: "lower (hostname_suffix i) = lower (hostname_suffix j) \<Longrightarrow> i = j"
  unfolding lower_suffix by (simp add: hostname_suffix_def split: if_splits) (erule zfill2_inject)

lemma hostname_loop_finds:
  assumes "\<not> hostname_exists names (alias @ hostname_suffix j @ ''.'' @ domain)" "i \<le> j" "j < i + fuel"
  shows "\<exists>k. hostname_loop fuel names alias domain i = Some (alias @ hostname_suffix k @ ''.'' @ domain)
    \<and> \<not> hostname_exists names (alias @ hostname_suffix k @ ''.'' @ domain) \<and> k \<le> j"
  using assms
proof (induction fuel arbitrary: i)
  case (Suc fuel)
  show ?case
  proof (cases "hostname_exists names (alias @ hostname_suffix i @ ''.'' @ domain)")
    case True
    with Suc.prems have "i \<noteq> j" by auto
    with Suc.IH [of "Suc i"] Suc.prems True show ?thesis by (simp add: Let_def)
  next
    case False
    with Suc.prems show ?thesis by (auto simp: Let_def)
  qed
qed simp

lemma hostname_free_candidate:
  "\<exists>j \<le> length names. \<not> hostname_exists names (alias @ hostname_suffix j @ ''.'' @ domain)"
proof (rule ccontr)
  assume "\<not> ?thesis"
  then have all: "hostname_exists names (alias @ hostname_suffix j @ ''.'' @ domain)" if "j \<le> length names" for j
    using that by blast
  let ?f = "\<lambda>j. lower (alias @ hostname_suffix j @ ''.'' @ domain)"
  have "?f ` {..length names} \<subseteq> lower ` set names"
  proof
    fix h assume "h \<in> ?f ` {..length names}"
    then obtain j where "j \<le> length names" "h = ?f j" by auto
    with all [of j] obtain n where "n \<in> set names" "lower n = h" unfolding hostname_exists_def list_ex_iff by blast
    then show "h \<in> lower ` set names" by blast
  qed
  then have "card (?f ` {..length names}) \<le> card (lower ` set names)" by (intro card_mono) simp_all
  also have "\<dots> \<le> length names" using card_image_le [of "set names" lower] card_length [of names] by simp
  also have "card (?f ` {..length names}) = Suc (length names)"
    by (subst card_image) (auto simp: inj_on_def lower_append intro: hostname_suffix_inject)
  finally show False by simp
qed

text \<open>
  The search for a host name ends: with one attempt more than there are names in the database it
  returns a name that no VM has (not even in another case), made of the stripped lower-case alias, a
  number and the domain.
\<close>

theorem generate_hostname_terminates:
  assumes "fuel > length names"
  shows "\<exists>h k. generate_hostname fuel names domain alias = Some h \<and> \<not> hostname_exists names h
    \<and> h = lower (strip alias) @ hostname_suffix k @ ''.'' @ domain \<and> k \<le> length names"
proof -
  obtain j where "j \<le> length names" "\<not> hostname_exists names (lower (strip alias) @ hostname_suffix j @ ''.'' @ domain)"
    using hostname_free_candidate by blast
  with hostname_loop_finds [of names "lower (strip alias)" j domain 0 fuel] assms show ?thesis
    unfolding generate_hostname_def by force
qed

theorem generate_hostname_terminates_witness:
  "\<exists>h. generate_hostname 3 [''WEB.example.com'', ''web-01.example.com''] ''example.com'' '' Web '' = Some h
    \<and> \<not> hostname_exists [''WEB.example.com'', ''web-01.example.com''] h \<and> h = ''web-02.example.com''"
proof -
  have "generate_hostname 3 [''WEB.example.com'', ''web-01.example.com''] ''example.com'' '' Web '' = Some ''web-02.example.com''"
    by code_simp
  moreover note generate_hostname_terminates [of "[''WEB.example.com'', ''web-01.example.com'']" 3 "''example.com''" "'' Web ''"]
  ultimately show ?thesis by auto
qed

lemma join_with_append:
  "xs \<noteq> [] \<Longrightarrow> ys \<noteq> [] \<Longrightarrow> join_with sep (xs @ ys) = join_with sep xs @ sep @ join_with sep ys"
proof (induction sep xs rule: join_with.induct)
  case (2 sep s)
  then show ?case by (cases ys) auto
qed auto

lemma fqdn_search_Some:
  assumes "fqdn_search domains before rest = Some (h, d)" "before \<noteq> []"
  shows "d \<in> set domains \<and> join_with ''.'' (before @ rest) = h @ ''.'' @ d"
  using assms
proof (induction domains before rest rule: fqdn_search.induct)
  case (2 domains before p rest)
  show ?case
  proof (cases "join_with ''.'' (p # rest) \<in> set domains")
    case True
    with "2.prems" have "h = join_with ''.'' before" "d = join_with ''.'' (p # rest)"
      by (simp_all del: join_with.simps)
    with True join_with_append [of before "p # rest" "''.''"] "2.prems"(2) show ?thesis by (simp del: join_with.simps)
  next
    case False
    with 2 show ?thesis by (simp del: join_with.simps)
  qed
qed simp

lemma list_ex_upt_Suc: "list_ex P [1..<Suc n] \<longleftrightarrow> \<not> list_all (\<lambda>i. \<not> P (Suc i)) [0..<n]"
proof -
  have "[1..<Suc n] = map Suc [0..<n]" by (simp add: map_Suc_upt)
  then show ?thesis unfolding list_ex_iff list_all_iff by (simp only: set_map ball_simps bex_simps simp_thms)
qed

lemma list_all_upt_Suc: "list_all P [0..<Suc n] \<longleftrightarrow> P 0 \<and> list_all (\<lambda>i. P (Suc i)) [0..<n]"
proof -
  have "[0..<Suc n] = 0 # map Suc [0..<n]" by (simp add: upt_conv_Cons map_Suc_upt del: upt_Suc)
  then show ?thesis by (simp only: list.pred_inject list.pred_map comp_def)
qed

lemma fqdn_search_None:
  "fqdn_search domains before rest = None \<longleftrightarrow> list_all (\<lambda>i. join_with ''.'' (drop i rest) \<notin> set domains) [0..<length rest]"
proof (induction domains before rest rule: fqdn_search.induct)
  case (2 domains before p rest)
  then show ?case by (simp add: list_all_upt_Suc del: upt_Suc)
qed simp

text \<open>
  The split of a host name into host and domain. When DNS is enabled and the cache is not used,
  the name is valid exactly when what follows one of its dots is an available domain; a valid name is
  the host part, a dot and the domain part that are remembered, and an invalid name is
  remembered as a host without a domain.
\<close>

theorem fqdn_split:
  assumes "hostname_is_valid_fqdn True domains False x = (valid, y)"
  shows "(valid \<longleftrightarrow> list_ex (\<lambda>i. join_with ''.'' (drop i (split_on (CHR ''.'') (v_hostname x))) \<in> set domains)
           [1..<length (split_on (CHR ''.'') (v_hostname x))])
    \<and> (if valid then \<exists>h d. v_fqdn_hostname y = Some h \<and> v_fqdn_domain y = Some d \<and> d \<in> set domains
           \<and> v_hostname y = h @ ''.'' @ d
         else v_fqdn_hostname y = Some (v_hostname y) \<and> v_fqdn_domain y = None)"
proof -
  obtain p rest where sp: "split_on (CHR ''.'') (v_hostname x) = p # rest"
    by (cases "split_on (CHR ''.'') (v_hostname x)") simp_all
  have none: "fqdn_search domains [p] rest = None \<longleftrightarrow>
      \<not> list_ex (\<lambda>i. join_with ''.'' (drop i (p # rest)) \<in> set domains) [1..<length (p # rest)]"
    using list_ex_upt_Suc [of "\<lambda>i. join_with ''.'' (drop i (p # rest)) \<in> set domains" "length rest"]
    by (simp add: fqdn_search_None del: upt_Suc)
  have host: "join_with ''.'' (p # rest) = v_hostname x"
    using join_split_on [of "CHR ''.''" "v_hostname x"] sp by simp
  have r: "(case fqdn_search domains [p] rest of
        Some (h, d) \<Rightarrow> (True, x\<lparr>v_fqdn_hostname := Some h, v_fqdn_domain := Some d\<rparr>)
      | None \<Rightarrow> (False, x\<lparr>v_fqdn_hostname := Some (v_hostname x), v_fqdn_domain := None\<rparr>)) = (valid, y)"
    using assms by (simp add: hostname_is_valid_fqdn_def sp)
  show ?thesis
  proof (cases "fqdn_search domains [p] rest")
    case None
    then have "\<not> valid" "y = x\<lparr>v_fqdn_hostname := Some (v_hostname x), v_fqdn_domain := None\<rparr>"
      using r by simp_all
    moreover have "\<not> list_ex (\<lambda>i. join_with ''.'' (drop i (p # rest)) \<in> set domains) [1..<length (p # rest)]"
      using none None by blast
    ultimately show ?thesis unfolding sp by simp
  next
    case (Some hd)
    obtain h d where hd: "hd = (h, d)" by force
    have "d \<in> set domains \<and> v_hostname x = h @ ''.'' @ d"
      using Some hd fqdn_search_Some [of domains "[p]" rest h d] host by simp
    moreover have "valid" "y = x\<lparr>v_fqdn_hostname := Some h, v_fqdn_domain := Some d\<rparr>"
      using r Some hd by simp_all
    moreover have "list_ex (\<lambda>i. join_with ''.'' (drop i (p # rest)) \<in> set domains) [1..<length (p # rest)]"
      using none Some by simp
    ultimately show ?thesis unfolding sp by simp
  qed
qed

theorem fqdn_split_witness:
  "\<exists>y. hostname_is_valid_fqdn True [''b.c'', ''c''] False (demo_vm\<lparr>v_hostname := ''a.b.c''\<rparr>) = (True, y)
    \<and> v_fqdn_domain y \<noteq> None \<and> v_fqdn_hostname y = Some ''a''"
proof -
  let ?x = "demo_vm\<lparr>v_hostname := ''a.b.c''\<rparr>"
  have "fst (hostname_is_valid_fqdn True [''b.c'', ''c''] False ?x)
      \<and> v_fqdn_hostname (snd (hostname_is_valid_fqdn True [''b.c'', ''c''] False ?x)) = Some ''a''" by code_simp
  then obtain y where y: "hostname_is_valid_fqdn True [''b.c'', ''c''] False ?x = (True, y)" "v_fqdn_hostname y = Some ''a''"
    by (metis prod.collapse)
  have "v_fqdn_domain y \<noteq> None" using fqdn_split [OF y(1)] by (elim conjE) (simp, blast)
  with y show ?thesis by blast
qed

end
