(* ===== verification/Vm_Save.thy ===== *)
theory Vm_Save
  imports Vm_State
begin

text \<open>
  Uptime, node history, the displayed status and \<open>save\<close> of a VM: \<^verbatim>\<open>vms/models/vm.py\<close> and
  the class \<open>_StatusModel\<close> of \<^verbatim>\<open>vms/models/base.py\<close>. Time is in seconds and an argument.
\<close>

section \<open>Uptime\<close>

text \<open>A missing state and state 0 stand for the status of the VM.\<close>

definition update_uptime :: "int \<Rightarrow> int option \<Rightarrow> bool \<Rightarrow> vm \<Rightarrow> vm" where
  "update_uptime now state force_init x =
     (let st = (case state of Some s \<Rightarrow> if s = 0 then v_status x else s | None \<Rightarrow> v_status x)
      in if st = RUNNING \<or> force_init
         then (if v_uptime_changed x = 0 \<or> v_uptime x = 0
               then x\<lparr>v_uptime := v_uptime x + 1, v_uptime_changed := now\<rparr> else x)
         else if st = STOPPED \<or> st = FROZEN
         then (if v_uptime_changed x \<noteq> 0 \<and> v_uptime x \<noteq> 0
               then x\<lparr>v_uptime := v_uptime x + (now - v_uptime_changed x), v_uptime_changed := now\<rparr> else x)
         else x)"

definition uptime_actual :: "int \<Rightarrow> vm \<Rightarrow> int" where
  "uptime_actual now x = (if v_status x = RUNNING \<and> v_uptime_changed x \<noteq> 0
     then v_uptime x + (now - v_uptime_changed x) else v_uptime x)"

section \<open>Node history\<close>

definition till_of :: "pydict \<Rightarrow> int res" where
  "till_of d = rbind (ditem d ''till'') as_int"

text \<open>The entries of the period, and whether the current node is the last one.\<close>

fun history_select :: "int \<Rightarrow> int option \<Rightarrow> pydict list \<Rightarrow> (pydict list \<times> bool) res" where
  "history_select since till [] = Inr ([], True)"
| "history_select since till (i # is) =
     rbind (till_of i) (\<lambda>t.
       if (case till of Some u \<Rightarrow> u \<noteq> 0 \<and> t \<ge> u | None \<Rightarrow> False) then Inr ([i], False)
       else rbind (history_select since till is) (\<lambda>(r, last).
              Inr (if t > since then i # r else r, last)))"

text \<open>\<open>weight d t\<close> stands for the rounded quotient of two floating point numbers.\<close>

fun history_frames :: "(int \<Rightarrow> int \<Rightarrow> pyval) \<Rightarrow> int \<Rightarrow> int \<Rightarrow> pydict list \<Rightarrow> pydict list res" where
  "history_frames weight len begin [] = Inr []"
| "history_frames weight len begin (i # is) =
     rbind (till_of i) (\<lambda>t.
       if len = 0 then Inl (Exn (OtherError ''ZeroDivisionError'') ''float division by zero'')
       else rbind (history_frames weight len t is) (\<lambda>r.
              Inr (dupdate i [(''since'', VInt begin), (''duration'', VInt (t - begin)), (''weight'', weight (t - begin) len)] # r)))"

definition current_entry :: "int \<Rightarrow> int option \<Rightarrow> vm \<Rightarrow> pydict" where
  "current_entry now till x =
     [(''node_uuid'', case v_node x of Some n \<Rightarrow> VStr (nr_uuid n) | None \<Rightarrow> VNone),
      (''node_hostname'', case v_node x of Some n \<Rightarrow> VStr (nr_hostname n) | None \<Rightarrow> VNone),
      (''till'', VInt (case till of Some t \<Rightarrow> if t = 0 then now else t | None \<Rightarrow> now))]"

definition history_begin :: "int \<Rightarrow> vm \<Rightarrow> int res" where
  "history_begin since x = (case v_created x of
      None \<Rightarrow> Inl (Exn AttributeError ''strftime'')
    | Some c \<Rightarrow> Inr (if since \<noteq> 0 \<and> since > c then since else c))"

definition node_history :: "(int \<Rightarrow> int \<Rightarrow> pyval) \<Rightarrow> int \<Rightarrow> int \<Rightarrow> int option \<Rightarrow> vm \<Rightarrow> pydict list res" where
  "node_history weight now since till x =
     rbind (get_dicts (v_info x) ''node_history'') (\<lambda>nh.
     rbind (history_select since till nh) (\<lambda>(sel, last_node_is_current).
     rbind (history_begin since x) (\<lambda>begin.
       (let ret = (if last_node_is_current then sel @ [current_entry now till x] else sel)
        in rbind (till_of (last ret)) (\<lambda>t. history_frames weight (t - begin) begin ret)))))"

section \<open>Displayed status\<close>

definition STATUS_PENDING :: string where "STATUS_PENDING = ''pending''"
definition STATUS_UNKNOWN :: string where "STATUS_UNKNOWN = ''unknown''"
definition NODE_ONLINE :: int where "NODE_ONLINE = 2"

definition get_status_changing_tasks :: "pyval dict \<Rightarrow> pyval dict res" where
  "get_status_changing_tasks own = matching_tasks [(''view'', MVal (VStr ''vm_status'')), (''method'', MVal (VStr ''PUT''))] own"

definition is_changing_status :: "pyval dict \<Rightarrow> bool res" where
  "is_changing_status own = rbind (get_status_changing_tasks own) (\<lambda>ts. Inr (ts \<noteq> []))"

fun task_items :: "string \<Rightarrow> pyval \<Rightarrow> pyval dict \<Rightarrow> pyval list res" where
  "task_items key dflt [] = Inr []"
| "task_items key dflt ((_, task) # ts) =
     rbind (vget task key dflt) (\<lambda>v. rbind (task_items key dflt ts) (\<lambda>vs. Inr (v # vs)))"

definition get_target_status :: "pyval dict \<Rightarrow> int option res" where
  "get_target_status tasks = rbind (task_items ''action'' VNone tasks) (\<lambda>actions.
     Inr (case remdups actions of
            [] \<Rightarrow> None
          | [a] \<Rightarrow> Some (case a of VStr s \<Rightarrow> (case map_of STATUS_TRANSITION_DICT s of Some t \<Rightarrow> t | None \<Rightarrow> UNKNOWN)
                          | _ \<Rightarrow> UNKNOWN)
          | _ \<Rightarrow> Some UNKNOWN))"

text \<open>\<open>get_status_display\<close> of Django: the text of the status, or the number itself.\<close>

definition get_status_display :: "vm \<Rightarrow> string" where
  "get_status_display x = (case map_of STATUS (v_status x) of Some s \<Rightarrow> s | None \<Rightarrow> int_str (v_status x))"

definition status_display :: "bool \<Rightarrow> bool \<Rightarrow> pyval dict \<Rightarrow> vm \<Rightarrow> (string \<times> vm) res" where
  "status_display pending unknown own x =
     (if unknown \<and> (case v_node x of Some n \<Rightarrow> nr_status n \<noteq> NODE_ONLINE | None \<Rightarrow> False) then Inr (STATUS_UNKNOWN, x)
      else if \<not> pending then Inr (get_status_display x, x)
      else
        rbind (get_status_changing_tasks own) (\<lambda>tasks.
        rbind (get_target_status tasks) (\<lambda>target.
        rbind (if tasks \<noteq> [] \<and> target \<noteq> Some (v_status x)
               then (if v_status x = STOPPING
                     then rbind (task_items ''force'' (VBool False) tasks)
                            (\<lambda>fs. Inr (if list_ex truthy fs then STATUS_PENDING else get_status_display x))
                     else Inr STATUS_PENDING)
               else Inr (get_status_display x))
          (\<lambda>d. Inr (d, x\<lparr>v_status_display := Some d\<rparr>)))))"

definition vm_state :: "pyval dict \<Rightarrow> vm \<Rightarrow> (string \<times> vm) res" where
  "vm_state own x = (case v_status_display x of
      None \<Rightarrow> status_display True False own x
    | Some d \<Rightarrow> Inr (d, x))"

definition vm_default_apiview :: "pyval dict \<Rightarrow> vm \<Rightarrow> (pydict \<times> vm) res" where
  "vm_default_apiview own x = rbind (status_display True True own x) (\<lambda>(d, y).
     Inr ([(''hostname'', VStr (v_hostname x)), (''status'', VInt (v_status x)), (''status_display'', VStr d),
           (''define_changed'', VBool (json_changed x)), (''locked'', VBool (vm_locked x))], y))"

section \<open>Saving\<close>

text \<open>
  \<open>_StatusModel.save\<close> of an object whose status is cached. \<open>change_time\<close> is the optional argument
  \<open>status_change_time\<close>: when it is missing the current time is taken, when it is given as \<open>None\<close>
  that is stored.
\<close>

definition status_key :: "vm \<Rightarrow> string" where "status_key x = v_uuid x @ '':status''"
definition status_change_key :: "vm \<Rightarrow> string" where "status_change_key x = v_uuid x @ '':status-change''"

definition StatusModel_save :: "int \<Rightarrow> int option option \<Rightarrow> string list option \<Rightarrow> vm \<Rightarrow> (vm \<times> effect list) res" where
  "StatusModel_save now change_time update_fields x =
     (if v_lock x then Inl (Exn SuspiciousOperation ''object is locked!'')
      else
        (let x1 = (if v_update_changed x then x\<lparr>v_changed := Some now\<rparr> else x);
             x2 = (if v_created x1 = None then x1\<lparr>v_created := Some now\<rparr> else x1);
             differs = (v_status x2 \<noteq> v_orig_status x2);
             x3 = (if differs then x2\<lparr>v_status_change := (case change_time of Some t \<Rightarrow> t | None \<Rightarrow> Some now)\<rparr> else x2)
         in if differs \<and> (case update_fields of None \<Rightarrow> True | Some fs \<Rightarrow> ''status'' \<in> set fs)
            then Inr (x3\<lparr>v_orig_status := v_status x3\<rparr>,
                      [DbSave update_fields, CacheSet (status_key x3) (VInt (v_status x3)),
                       CacheSet (status_change_key x3) (case v_status_change x3 of Some t \<Rightarrow> VInt t | None \<Rightarrow> VNone)])
            else Inr (x3, [DbSave update_fields])))"

text \<open>
  What \<open>save\<close> asks the database and its arguments: the VMs with their ports by node, the storages of
  a node for some pools, the available domains and address records.
\<close>

record save_env =
  e_now :: int
  e_settings :: vm_settings
  e_vms :: "string option \<Rightarrow> (string \<times> int) list"
  e_storages :: "string \<Rightarrow> int \<Rightarrow> pyval list \<Rightarrow> nat list"
  e_dns :: bool
  e_domains :: "string list"
  e_records :: "string \<Rightarrow> string \<Rightarrow> string list"

record save_args =
  sv_sync_json :: bool
  sv_update_hostname :: bool
  sv_update_node :: bool
  sv_storages :: "nat list option"
  sv_keep_vnc_port :: bool
  sv_fields :: "string list option"
  sv_change_time :: "int option option"

text \<open>\<open>sv_storages\<close> is \<open>None\<close> for \<open>True\<close>: all storages of the VM.\<close>

definition get_node_storages :: "save_env \<Rightarrow> vm \<Rightarrow> nat list res" where
  "get_node_storages env x = (case v_node x of
      None \<Rightarrow> Inr []
    | Some n \<Rightarrow> rbind (get_disks None False x) (\<lambda>d.
        Inr (if d \<noteq> [] then e_storages env (nr_uuid n) (v_dc x) (map fst d) else [])))"

definition save_node_part :: "save_env \<Rightarrow> save_args \<Rightarrow> vm \<Rightarrow> vm res" where
  "save_node_part env a x =
     (if v_node_changed x
      then rbind (update_node_history (e_now env) None x)
             (\<lambda>y. Inr (if sv_keep_vnc_port a then y else y\<lparr>v_vnc_port := None\<rparr>))
      else Inr x)"

definition save_port_part :: "save_env \<Rightarrow> vm \<Rightarrow> vm res" where
  "save_port_part env x =
     (if v_vnc_port x = None then choose_vnc_port (e_vms env (map_option nr_uuid (v_node x))) x else Inr x)"

definition save_json_part :: "save_env \<Rightarrow> save_args \<Rightarrow> vm \<Rightarrow> vm res" where
  "save_json_part env a x =
     (if sv_sync_json a \<or> v_node_changed x then sync_json (e_settings env) False False x else Inr x)"

definition node_effects :: "save_args \<Rightarrow> vm \<Rightarrow> effect list" where
  "node_effects a x =
     (let upd = (\<lambda>n. case n of Some r \<Rightarrow> [UpdateNode (nr_uuid r)] | None \<Rightarrow> [])
      in if v_node_changed x then upd (v_node x) @ upd (v_orig_node x)
         else if sv_update_node a then upd (v_node x) else [])"

definition save_finish :: "vm \<Rightarrow> vm" where
  "save_finish x = (if v_node_changed x then x\<lparr>v_node_changed := False, v_orig_node := None\<rparr> else x)"

definition save_hostname :: "save_env \<Rightarrow> save_args \<Rightarrow> vm \<Rightarrow> (vm \<times> effect list) res" where
  "save_hostname env a x =
     (if sv_update_hostname a
      then rbind (update_hostname (e_dns env) (e_domains env) (e_records env) None x) (\<lambda>(_, y, es). Inr (y, es))
      else Inr (x, []))"

definition vm_save :: "save_env \<Rightarrow> save_args \<Rightarrow> vm \<Rightarrow> (vm \<times> effect list) res" where
  "vm_save env a x =
     rbind (save_node_part env a x) (\<lambda>x1.
     rbind (save_port_part env x1) (\<lambda>x2.
     rbind (save_json_part env a x2) (\<lambda>x3.
     rbind (StatusModel_save (e_now env) (sv_change_time a) (sv_fields a) x3) (\<lambda>(x4, es1).
     (let x5 = x4\<lparr>v_update_changed := False\<rparr>
      in rbind (case sv_storages a of None \<Rightarrow> get_node_storages env x5 | Some ns \<Rightarrow> Inr ns) (\<lambda>ns.
         (let es2 = es1 @ map UpdateStorage ns @ node_effects a x5
          in rbind (save_hostname env a (save_finish x5)) (\<lambda>(x6, es3). Inr (x6, es2 @ es3)))))))))"

definition save_status :: "save_env \<Rightarrow> int option \<Rightarrow> int option option \<Rightarrow> vm \<Rightarrow> (vm \<times> effect list) res" where
  "save_status env new_status change_time x =
     vm_save env \<lparr>sv_sync_json = False, sv_update_hostname = False, sv_update_node = False, sv_storages = Some [],
                  sv_keep_vnc_port = False, sv_fields = Some [''status'', ''status_change''], sv_change_time = change_time\<rparr>
       (case new_status of Some s \<Rightarrow> x\<lparr>v_status := s\<rparr> | None \<Rightarrow> x)"

text \<open>\<open>post_delete\<close>: the node and its storages are recalculated.\<close>

definition vm_post_delete :: "save_env \<Rightarrow> vm \<Rightarrow> effect list res" where
  "vm_post_delete env x = (case v_node x of
      None \<Rightarrow> Inr []
    | Some n \<Rightarrow> rbind (get_disks None False x) (\<lambda>d.
        Inr (UpdateNode (nr_uuid n) #
             (if d \<noteq> [] then map UpdateStorage (e_storages env (nr_uuid n) (v_dc x) (map fst d)) else []))))"

section \<open>Uptime over a sequence of status changes\<close>

fun uptime_run :: "(int \<times> int) list \<Rightarrow> vm \<Rightarrow> vm" where
  "uptime_run [] x = x"
| "uptime_run ((now, st) # es) x = uptime_run es (update_uptime now (Some st) False x)"

lemma uptime_step_inv:
  assumes "v_uptime x = 1 + (v_uptime_changed x - t0)" "v_uptime_changed x \<ge> t0" "t0 > 0" "t \<ge> t0"
    and "st = RUNNING \<or> st = STOPPED"
  shows "v_uptime (update_uptime t (Some st) False x) = 1 + (v_uptime_changed (update_uptime t (Some st) False x) - t0)"
    and "v_uptime_changed (update_uptime t (Some st) False x) \<ge> t0"
    and "st = STOPPED \<Longrightarrow> v_uptime_changed (update_uptime t (Some st) False x) = t"
proof -
  have "update_uptime t (Some st) False x =
      (if st = STOPPED then x\<lparr>v_uptime := v_uptime x + (t - v_uptime_changed x), v_uptime_changed := t\<rparr> else x)"
  proof (cases "st = RUNNING")
    case True
    with assms(1-3) show ?thesis by (simp add: update_uptime_def status_defs)
  next
    case False
    with assms show ?thesis by (simp add: update_uptime_def status_defs)
  qed
  with assms show "v_uptime (update_uptime t (Some st) False x) = 1 + (v_uptime_changed (update_uptime t (Some st) False x) - t0)"
    and "v_uptime_changed (update_uptime t (Some st) False x) \<ge> t0"
    and "st = STOPPED \<Longrightarrow> v_uptime_changed (update_uptime t (Some st) False x) = t"
    by simp_all
qed

lemma uptime_run_inv:
  assumes "v_uptime x = 1 + (v_uptime_changed x - t0)" "v_uptime_changed x \<ge> t0" "t0 > 0"
    and "list_all (\<lambda>(t, st). t \<ge> t0 \<and> (st = RUNNING \<or> st = STOPPED)) es"
  shows "v_uptime (uptime_run es x) = 1 + (v_uptime_changed (uptime_run es x) - t0)
    \<and> v_uptime_changed (uptime_run es x) \<ge> t0"
  using assms
proof (induction es arbitrary: x)
  case (Cons e es)
  obtain t st where e: "e = (t, st)" by force
  with Cons.prems(4) have "t \<ge> t0" "st = RUNNING \<or> st = STOPPED" by simp_all
  note step = uptime_step_inv [OF Cons.prems(1,2,3) this]
  from Cons.IH [OF step(1,2) Cons.prems(3)] Cons.prems(4) e show ?case by simp
qed simp

lemma uptime_run_append: "uptime_run (es @ fs) x = uptime_run fs (uptime_run es x)"
  by (induction es arbitrary: x) auto

text \<open>
  The aggregated uptime of a VM. However often a VM is stopped and started again after its
  first start at \<open>t0\<close>, the uptime after the last stop is the whole time since the first start (and the
  one second that starting it for the first time counts): the time during which the VM was stopped
  is counted too, because a start after the first one does not record its time.
\<close>

theorem uptime_includes_downtime:
  assumes "v_uptime x = 0" "t0 > 0" "t1 \<ge> t0"
    and "list_all (\<lambda>(t, st). t \<ge> t0 \<and> (st = RUNNING \<or> st = STOPPED)) es"
  shows "v_uptime (uptime_run ((t0, RUNNING) # es @ [(t1, STOPPED)]) x) = 1 + (t1 - t0)"
proof -
  let ?x = "x\<lparr>v_uptime := 1, v_uptime_changed := t0\<rparr>"
  have x: "update_uptime t0 (Some RUNNING) False x = ?x"
    using assms(1) by (simp add: update_uptime_def status_defs)
  have inv: "v_uptime (uptime_run es ?x) = 1 + (v_uptime_changed (uptime_run es ?x) - t0)"
    "v_uptime_changed (uptime_run es ?x) \<ge> t0"
    using uptime_run_inv [of ?x t0 es] assms(2,4) by simp_all
  from uptime_step_inv [OF inv assms(2,3), of STOPPED] show ?thesis
    by (simp add: x uptime_run_append)
qed

theorem uptime_includes_downtime_witness:
  "v_uptime (uptime_run [(100, RUNNING), (110, STOPPED), (1000, RUNNING), (1010, STOPPED)] demo_vm) = 911"
  using uptime_includes_downtime [of demo_vm 100 1010 "[(110, STOPPED), (1000, RUNNING)]"]
  by (simp add: demo_vm_def)

section \<open>Frames of the node history\<close>

fun frames_ok :: "int \<Rightarrow> pydict list \<Rightarrow> int \<Rightarrow> bool" where
  "frames_ok b [] e \<longleftrightarrow> b = e"
| "frames_ok b (i # is) e \<longleftrightarrow> (\<exists>t. till_of i = Inr t \<and> map_of i ''since'' = Some (VInt b)
     \<and> map_of i ''duration'' = Some (VInt (t - b)) \<and> frames_ok t is e)"

definition frame_duration :: "pydict \<Rightarrow> int" where
  "frame_duration i = (case map_of i ''duration'' of Some (VInt d) \<Rightarrow> d | _ \<Rightarrow> 0)"

lemma frames_ok_durations: "frames_ok b is e \<Longrightarrow> sum_list (map frame_duration is) = e - b"
  by (induction "is" arbitrary: b) (auto simp: frame_duration_def)

lemma history_frames_ok:
  assumes "history_frames weight len b is = Inr r" "is \<noteq> []" "till_of (last is) = Inr e"
  shows "frames_ok b r e \<and> length r = length is \<and> len \<noteq> 0"
  using assms
proof (induction "is" arbitrary: b r)
  case (Cons i "is")
  then obtain t s where t: "till_of i = Inr t" "len \<noteq> 0" and s: "history_frames weight len t is = Inr s"
    and r: "r = dupdate i [(''since'', VInt b), (''duration'', VInt (t - b)), (''weight'', weight (t - b) len)] # s"
    by (auto simp: rbind_Inr_iff split: if_splits)
  have i: "till_of (dupdate i [(''since'', VInt b), (''duration'', VInt (t - b)), (''weight'', weight (t - b) len)]) = Inr t"
    using t(1) by (simp add: till_of_def ditem_def dict_simps map_add_def)
  have f: "frames_ok t s e \<and> length s = length is"
  proof (cases "is = []")
    case True
    with s t Cons.prems(3) show ?thesis by simp
  next
    case False
    with Cons.IH [OF s] Cons.prems(3) show ?thesis by simp
  qed
  with r i t show ?case by (simp add: dict_simps map_add_def)
qed simp

lemma history_select_nonempty: "history_select since till nh = Inr (sel, lst) \<Longrightarrow> lst \<or> sel \<noteq> []"
proof (induction nh arbitrary: sel lst)
  case (Cons i nh)
  from Cons.prems obtain t where "till_of i = Inr t" by (auto simp: rbind_Inr_iff)
  with Cons.prems consider "sel = [i]" | r where "history_select since till nh = Inr (r, lst)" "sel = (if t > since then i # r else r)"
    by (auto simp: rbind_Inr_iff split: if_splits)
  then show ?case using Cons.IH by cases auto
qed simp

text \<open>
  The reference: the entry for a time is the first one in the history that ends after it, and the current node when
  there is none. A period ends now, or with the first entry that reaches the requested end.
\<close>

definition till_int :: "pydict \<Rightarrow> int" where
  "till_int i = (case till_of i of Inr t \<Rightarrow> t | Inl _ \<Rightarrow> 0)"

definition entry_at :: "pydict list \<Rightarrow> pydict \<Rightarrow> int \<Rightarrow> pydict" where
  "entry_at nh cur t = (case find (\<lambda>i. t < till_int i) nh of Some i \<Rightarrow> i | None \<Rightarrow> cur)"

definition history_limit :: "int \<Rightarrow> int option \<Rightarrow> int" where
  "history_limit now till = (case till of Some u \<Rightarrow> if u = 0 then now else u | None \<Rightarrow> now)"

definition history_end :: "int \<Rightarrow> int option \<Rightarrow> pydict list \<Rightarrow> int" where
  "history_end now till nh = (if till = None \<or> till = Some 0 then now
     else (case find (\<lambda>i. history_limit now till \<le> till_int i) nh of Some i \<Rightarrow> till_int i | None \<Rightarrow> history_limit now till))"

definition covers :: "pydict \<Rightarrow> int \<Rightarrow> bool" where
  "covers f t \<longleftrightarrow> (\<exists>b. map_of f ''since'' = Some (VInt b) \<and> b \<le> t \<and> t < b + frame_duration f)"

definition timed :: "pydict list \<Rightarrow> bool" where
  "timed is \<longleftrightarrow> (\<forall>i \<in> set is. till_of i = Inr (till_int i))"

lemma timed_simps [simp]: "timed []" "timed (i # is) \<longleftrightarrow> till_of i = Inr (till_int i) \<and> timed is" "timed (is @ js) \<longleftrightarrow> timed is \<and> timed js"
  by (auto simp: timed_def)

lemma frames_cover:
  assumes "history_frames weight len b is = Inr r" "timed is" "sorted (b # map till_int is)"
  shows "(b \<le> t \<and> is \<noteq> [] \<and> t < till_int (last is) \<longrightarrow> (\<exists>f \<in> set r. covers f t))
    \<and> (\<forall>f \<in> set r. covers f t \<longrightarrow> b \<le> t \<and> (\<exists>i. find (\<lambda>i. t < till_int i) is = Some i \<and> map_of f ''node_uuid'' = map_of i ''node_uuid''))"
  using assms
proof (induction "is" arbitrary: b r)
  case (Cons i "is")
  let ?u = "till_int i"
  let ?f = "dupdate i [(''since'', VInt b), (''duration'', VInt (?u - b)), (''weight'', weight (?u - b) len)]"
  obtain s where s: "history_frames weight len ?u is = Inr s" and r: "r = ?f # s"
    using Cons.prems(1,2) by (auto simp: rbind_Inr_iff split: if_splits)
  have o: "sorted (?u # map till_int is)" "b \<le> ?u" using Cons.prems(3) by simp_all
  have ti: "timed is" using Cons.prems(2) by simp
  note ih = Cons.IH [OF s ti o(1)]
  have m: "map_of ?f ''since'' = Some (VInt b)" "frame_duration ?f = ?u - b" "map_of ?f ''node_uuid'' = map_of i ''node_uuid''"
    by (simp_all add: dict_simps map_add_def frame_duration_def)
  have c: "covers ?f t \<longleftrightarrow> b \<le> t \<and> t < ?u" unfolding covers_def m(1,2) by auto
  have old: "covers f t \<longrightarrow> ?u \<le> t \<and> (\<exists>i. find (\<lambda>i. t < till_int i) is = Some i \<and> map_of f ''node_uuid'' = map_of i ''node_uuid'')" if "f \<in> set s" for f
    using ih that by blast
  have cov: "\<exists>f \<in> set r. covers f t" if t: "b \<le> t" "t < till_int (last (i # is))"
  proof (cases "t < ?u")
    case True
    then show ?thesis using c t r by auto
  next
    case False
    then have "is \<noteq> []" "t < till_int (last is)" using t by (auto split: if_splits)
    then show ?thesis using ih False r by auto
  qed
  have "b \<le> t \<and> (\<exists>i'. find (\<lambda>i. t < till_int i) (i # is) = Some i' \<and> map_of f ''node_uuid'' = map_of i' ''node_uuid'')"
    if f: "f \<in> set r" "covers f t" for f
  proof (cases "f = ?f")
    case True
    then show ?thesis using f(2) c m(3) by auto
  next
    case False
    then have "f \<in> set s" using f(1) r by simp
    then show ?thesis using old f(2) o(2) by auto
  qed
  then show ?case using cov by blast
qed auto

text \<open>What is selected, when the history is in order.\<close>

lemma history_select_timed:
  assumes "history_select since till nh = Inr (sel, lst)"
  shows "timed sel \<and> (lst \<longrightarrow> timed nh)"
  using assms
proof (induction nh arbitrary: sel lst)
  case (Cons i nh)
  obtain t where t: "till_of i = Inr t" using Cons.prems by (auto simp: rbind_Inr_iff)
  then have i: "till_of i = Inr (till_int i)" by (simp add: till_int_def)
  consider "sel = [i]" "\<not> lst" | r where "history_select since till nh = Inr (r, lst)" "sel = (if t > since then i # r else r)"
    using Cons.prems t by (auto simp: rbind_Inr_iff split: if_splits)
  then show ?case
  proof cases
    case 1
    then show ?thesis using i by (simp only: timed_simps) simp
  next
    case (2 r)
    from Cons.IH [OF 2(1)] show ?thesis using i unfolding 2(2) timed_simps by (cases "since < t") auto
  qed
qed simp

lemma history_select_entries:
  assumes "history_select since till nh = Inr (sel, lst)" "sorted (map till_int nh)" "\<forall>i \<in> set nh. till_int i \<le> now"
  shows "sorted (map till_int sel) \<and> set sel \<subseteq> set nh
    \<and> (\<forall>i \<in> set sel. since < till_int i \<or> i = last sel \<and> \<not> lst \<and> history_limit now till \<le> till_int i)
    \<and> (lst \<longrightarrow> history_end now till nh = history_limit now till \<and> (\<forall>i \<in> set sel. till_int i \<le> history_limit now till))
    \<and> (\<not> lst \<longrightarrow> history_end now till nh = till_int (last sel))
    \<and> (\<forall>t. since \<le> t \<longrightarrow> t < history_end now till nh \<longrightarrow> find (\<lambda>i. t < till_int i) nh = find (\<lambda>i. t < till_int i) sel)"
  using assms
proof (induction nh arbitrary: sel lst)
  case Nil
  then show ?case by (simp add: history_end_def history_limit_def split: option.split)
next
  case (Cons i nh)
  obtain u where u: "till_of i = Inr u" using Cons.prems(1) by (auto simp: rbind_Inr_iff)
  then have u': "till_int i = u" by (simp add: till_int_def)
  have o: "sorted (map till_int nh)" "\<forall>i \<in> set nh. till_int i \<le> now" "\<forall>j \<in> set nh. u \<le> till_int j" "u \<le> now"
    using Cons.prems(2,3) u' by auto
  let ?stop = "case till of Some v \<Rightarrow> v \<noteq> 0 \<and> u \<ge> v | None \<Rightarrow> False"
  show ?case
  proof (cases ?stop)
    case True
    then have s: "sel = [i]" "lst = False" using Cons.prems(1) u by auto
    have l: "history_limit now till \<le> u" "till \<noteq> None" "till \<noteq> Some 0" using True by (auto simp: history_limit_def split: option.splits)
    then have e: "history_end now till (i # nh) = u" by (auto simp: history_end_def u')
    show ?thesis using s l e by (simp add: u')
  next
    case False
    then obtain r where r: "history_select since till nh = Inr (r, lst)" "sel = (if u > since then i # r else r)"
      using Cons.prems(1) u by (auto simp: rbind_Inr_iff)
    note ih = Cons.IH [OF r(1) o(1,2)]
    have e: "history_end now till (i # nh) = history_end now till nh"
      using False by (auto simp: history_end_def history_limit_def u' split: option.splits)
    have lim: "u \<le> history_limit now till" using False o(4) by (auto simp: history_limit_def split: option.splits)
    have ne: "lst \<or> r \<noteq> []" by (rule history_select_nonempty [OF r(1)])
    have so: "sorted (map till_int sel)" using ih o(3) r(2) u' by auto
    show ?thesis
    proof (cases "u > since")
      case True
      then have sel: "sel = i # r" using r(2) by simp
      have last: "lst \<or> r \<noteq> [] \<and> last sel = last r" using ne sel by auto
      have f: "\<forall>t. since \<le> t \<longrightarrow> t < history_end now till (i # nh) \<longrightarrow> find (\<lambda>i. t < till_int i) (i # nh) = find (\<lambda>i. t < till_int i) sel"
        using ih unfolding sel e by (simp add: u')
      have g: "\<forall>j \<in> set sel. since < till_int j \<or> j = last sel \<and> \<not> lst \<and> history_limit now till \<le> till_int j"
      proof
        fix j assume "j \<in> set sel"
        then consider "j = i" | "j \<in> set r" unfolding sel by auto
        then show "since < till_int j \<or> j = last sel \<and> \<not> lst \<and> history_limit now till \<le> till_int j"
        proof cases
          case 2
          then show ?thesis using ih last by auto
        qed (use True u' in simp)
      qed
      have h: "(lst \<longrightarrow> history_end now till nh = history_limit now till \<and> (\<forall>j \<in> set sel. till_int j \<le> history_limit now till))
          \<and> (\<not> lst \<longrightarrow> history_end now till nh = till_int (last sel))" "set sel \<subseteq> set (i # nh)"
        using ih lim last unfolding sel by (auto simp: u')
      show ?thesis using so f g h unfolding e by blast
    next
      case False
      then have sel: "sel = r" using r(2) by simp
      show ?thesis using ih so False unfolding sel e by (auto simp: u')
    qed
  qed
qed

text \<open>
  C34. The node history of a VM partitions the requested period, and names the right nodes. When the history is in order of
  time, from the creation until now, and the period is not empty, the frames follow each other without gap or
  overlap from the later of its start and the creation of the VM to its end: the requested one (or now) or, when a past
  node reaches it, the end of the VM's time on that node, which the source does not cut off. Their durations add up to the length of the period,
  every moment in it is covered by a frame, and a frame that covers a moment names the node of the first entry of the
  history that ends after it, or the current node when there is none.
\<close>

theorem node_history_partition:
  assumes "node_history weight now since till x = Inr ret" "get_dicts (v_info x) ''node_history'' = Inr nh"
    "v_created x = Some c" "0 \<le> c" "sorted (c # map till_int nh @ [now])" "max since c < history_limit now till"
  shows "frames_ok (max since c) ret (history_end now till nh)
    \<and> sum_list (map frame_duration ret) = history_end now till nh - max since c
    \<and> (\<forall>t. max since c \<le> t \<and> t < history_end now till nh \<longrightarrow> (\<exists>f \<in> set ret. covers f t))
    \<and> (\<forall>t. \<forall>f \<in> set ret. covers f t \<longrightarrow> map_of f ''node_uuid'' = map_of (entry_at nh (current_entry now till x) t) ''node_uuid'')"
proof -
  let ?b = "max since c" and ?cur = "current_entry now till x" and ?l = "history_limit now till"
  obtain sel lst b where sel: "history_select since till nh = Inr (sel, lst)" and hb: "history_begin since x = Inr b"
      and r: "rbind (till_of (last (if lst then sel @ [?cur] else sel)))
        (\<lambda>t. history_frames weight (t - b) b (if lst then sel @ [?cur] else sel)) = Inr ret"
    using assms(1,2) by (auto simp: node_history_def rbind_Inr_iff Let_def)
  let ?r = "if lst then sel @ [?cur] else sel"
  have b: "b = ?b" using hb assms(3,4) by (auto simp: history_begin_def max_def split: if_splits)
  have cur: "till_of ?cur = Inr ?l" "till_int ?cur = ?l"
    by (simp_all add: current_entry_def till_of_def ditem_def as_int_def history_limit_def till_int_def split: option.split)
  have so: "sorted (map till_int nh)" "\<forall>i \<in> set nh. till_int i \<le> now" "\<forall>i \<in> set nh. c \<le> till_int i"
    using assms(5) by (auto simp: sorted_append)
  note e = history_select_entries [OF sel so(1,2)]
  have t: "timed ?r" using history_select_timed [OF sel] cur by auto
  have ne: "?r \<noteq> []" using history_select_nonempty [OF sel] by auto
  have len: "till_int (last ?r) = history_end now till nh" using e cur by (cases lst) auto
  have "?b \<le> till_int j" if j: "j \<in> set sel" for j
  proof -
    have "c \<le> till_int j" using e j so(3) by blast
    moreover have "since < till_int j \<or> ?l \<le> till_int j" using e j by blast
    ultimately show ?thesis using assms(6) by auto
  qed
  then have sr: "sorted (b # map till_int ?r)"
    using e cur assms(6) unfolding b by (cases lst) (auto simp: sorted_append)
  have tl: "till_of (last ?r) = Inr (till_int (last ?r))" by (rule t [unfolded timed_def, THEN bspec]) (rule last_in_set [OF ne])
  then have f: "history_frames weight (till_int (last ?r) - b) b ?r = Inr ret" using r by simp
  note ok = history_frames_ok [OF f ne tl]
  have fr: "frames_ok ?b ret (history_end now till nh)" using ok len b by simp
  note c = frames_cover [OF f t sr, unfolded b]
  have cover: "\<exists>f \<in> set ret. covers f t" if "?b \<le> t" "t < history_end now till nh" for t
    using c [of t] that ne len by simp
  have node: "map_of f ''node_uuid'' = map_of (entry_at nh ?cur t) ''node_uuid''" if f: "f \<in> set ret" "covers f t" for f t
  proof -
    obtain i where i: "?b \<le> t" "find (\<lambda>i. t < till_int i) ?r = Some i" "map_of f ''node_uuid'' = map_of i ''node_uuid''"
      using c [of t] f by blast
    have tr: "sorted (map till_int ?r)" using sr by simp
    obtain k where k: "k < length ?r" "?r ! k = i" "t < till_int i" using i(2) by (auto simp: find_Some_iff)
    have "till_int i \<le> till_int (last ?r)"
      using sorted_nth_mono [OF tr, of k "length ?r - 1"] k ne by (simp add: last_conv_nth)
    then have te: "t < history_end now till nh" using k(3) len by simp
    have same: "find (\<lambda>i. t < till_int i) nh = find (\<lambda>i. t < till_int i) sel" using e i(1) te by auto
    have "entry_at nh ?cur t = i"
    proof (cases "find (\<lambda>i. t < till_int i) sel")
      case None
      then have "lst" using i(2) by (cases lst) auto
      moreover have "find P (sel @ [q]) = (case find P sel of None \<Rightarrow> if P q then Some q else None | Some a \<Rightarrow> Some a)" for P q
        by (induction sel) auto
      ultimately show ?thesis using i(2) None same by (simp add: entry_at_def split: if_splits)
    next
      case (Some a)
      moreover have "find P (sel @ [q]) = (case find P sel of None \<Rightarrow> if P q then Some q else None | Some a \<Rightarrow> Some a)" for P q
        by (induction sel) auto
      ultimately show ?thesis using i(2) same by (cases lst) (auto simp: entry_at_def)
    qed
    then show ?thesis using i(3) by simp
  qed
  show ?thesis using fr frames_ok_durations [OF fr] cover node by blast
qed

definition demo_history :: vm where
  "demo_history = demo_vm\<lparr>v_created := Some 100,
     v_info := [(''node_history'', VList [VDict [(''node_uuid'', VStr ''n1''), (''till'', VInt 150)],
                                          VDict [(''node_uuid'', VStr ''n2''), (''till'', VInt 400)]])]\<rparr>"

theorem node_history_partition_witness:
  "\<exists>ret. node_history (\<lambda>_ _. VNone) 500 0 None demo_history = Inr ret \<and> length ret = 3
    \<and> sum_list (map frame_duration ret) = 400"
proof -
  have "case node_history (\<lambda>_ _. VNone) 500 0 None demo_history of Inr r \<Rightarrow> length r = 3 | Inl _ \<Rightarrow> False" by code_simp
  then obtain ret where r: "node_history (\<lambda>_ _. VNone) 500 0 None demo_history = Inr ret" "length ret = 3"
    by (auto split: sum.splits)
  let ?nh = "[[(''node_uuid'', VStr ''n1''), (''till'', VInt 150)], [(''node_uuid'', VStr ''n2''), (''till'', VInt 400)]]"
  have n: "get_dicts (v_info demo_history) ''node_history'' = Inr ?nh" by code_simp
  have t: "map till_int ?nh = [150, 400]" by (simp add: till_int_def till_of_def ditem_def as_int_def)
  have c: "v_created demo_history = Some 100" by (simp add: demo_history_def)
  have h: "history_end 500 None ?nh = 500" "max 0 100 < history_limit 500 None" by (simp_all add: history_end_def history_limit_def)
  have "sum_list (map frame_duration ret) = history_end 500 None ?nh - max 0 100"
    using node_history_partition [OF r(1) n c _ _ h(2)] unfolding t by simp
  then show ?thesis using r h(1) by auto
qed

section \<open>Saving a VM\<close>

lemma update_node_history_frame:
  assumes "update_node_history now n x = Inr y"
  shows "y = x\<lparr>v_info := v_info y\<rparr>"
proof (cases "case n of Some n \<Rightarrow> Some n | None \<Rightarrow> v_orig_node x")
  case None
  with assms show ?thesis by (auto simp: update_node_history_def Let_def)
next
  case (Some r)
  with assms show ?thesis
    by (auto simp: update_node_history_def Let_def split: option.splits pyval.splits)
qed

lemma choose_vnc_port_frame: "choose_vnc_port vms x = Inr y \<Longrightarrow> y = x\<lparr>v_vnc_port := v_vnc_port y\<rparr>"
  by (auto simp: choose_vnc_port_cases Let_def split: if_splits)

lemma sync_json_frame:
  assumes "sync_json st False f x = Inr y"
  shows "y = x\<lparr>v_json := v_json y\<rparr>"
  using assms by (auto simp: sync_json_def rbind_Inr_iff sync_from_template_def)

lemma save_node_part_frame:
  assumes "save_node_part env a x = Inr y"
  shows "v_lock y = v_lock x" "v_node y = v_node x" "v_node_changed y = v_node_changed x"
    "v_orig_node y = v_orig_node x" "v_uuid y = v_uuid x" "v_json y = v_json x" "v_status y = v_status x"
    "v_node_changed x \<Longrightarrow> \<not> sv_keep_vnc_port a \<Longrightarrow> v_vnc_port y = None"
proof -
  have "\<exists>i p. y = x\<lparr>v_info := i, v_vnc_port := p\<rparr> \<and> (v_node_changed x \<longrightarrow> \<not> sv_keep_vnc_port a \<longrightarrow> p = None)"
  proof (cases "v_node_changed x")
    case True
    with assms obtain z where z: "update_node_history (e_now env) None x = Inr z"
        "y = (if sv_keep_vnc_port a then z else z\<lparr>v_vnc_port := None\<rparr>)"
      by (auto simp: save_node_part_def rbind_Inr_iff)
    from update_node_history_frame [OF z(1)] obtain i where "z = x\<lparr>v_info := i\<rparr>" by blast
    with z(2) have "y = x\<lparr>v_info := i, v_vnc_port := if sv_keep_vnc_port a then v_vnc_port x else None\<rparr>" by simp
    then show ?thesis by (intro exI conjI) auto
  next
    case False
    with assms have "y = x\<lparr>v_info := v_info x, v_vnc_port := v_vnc_port x\<rparr>" by (simp add: save_node_part_def)
    with False show ?thesis by blast
  qed
  then show "v_lock y = v_lock x" "v_node y = v_node x" "v_node_changed y = v_node_changed x"
    "v_orig_node y = v_orig_node x" "v_uuid y = v_uuid x" "v_json y = v_json x" "v_status y = v_status x"
    "v_node_changed x \<Longrightarrow> \<not> sv_keep_vnc_port a \<Longrightarrow> v_vnc_port y = None"
    by auto
qed

lemma save_port_part_frame:
  assumes "save_port_part env x = Inr y"
  shows "y = x\<lparr>v_vnc_port := v_vnc_port y\<rparr>"
    and "v_vnc_port x = None \<Longrightarrow> choose_vnc_port (e_vms env (map_option nr_uuid (v_node x))) x = Inr y"
  using assms choose_vnc_port_frame by (auto simp: save_port_part_def split: if_splits)

lemma save_json_part_frame:
  assumes "save_json_part env a x = Inr y"
  shows "y = x\<lparr>v_json := v_json y\<rparr>"
    and "v_node_changed x \<Longrightarrow> sync_json (e_settings env) False False x = Inr y"
  using assms sync_json_frame by (auto simp: save_json_part_def split: if_splits)

lemma StatusModel_save_locked: "v_lock x \<Longrightarrow> StatusModel_save now t fs x = Inl (Exn SuspiciousOperation ''object is locked!'')"
  by (simp add: StatusModel_save_def)

text \<open>
  C35. An object that was turned back to its active definition for display cannot be saved by
  accident: every \<open>save\<close> of it fails, whatever is to be saved, so that the wanted definition in the
  database survives.
\<close>

theorem reverted_vm_not_saved:
  assumes "revert_active ue ts jo ro rt x = Inr y"
  shows "\<exists>e. vm_save env a y = Inl e"
proof (rule ccontr)
  assume "\<not> ?thesis"
  then obtain r where "vm_save env a y = Inr r" by (cases "vm_save env a y") auto
  then obtain x1 x2 x3 p where s: "save_node_part env a y = Inr x1" "save_port_part env x1 = Inr x2"
      "save_json_part env a x2 = Inr x3" "StatusModel_save (e_now env) (sv_change_time a) (sv_fields a) x3 = Inr p"
    by (auto simp: vm_save_def rbind_Inr_iff)
  have "v_lock y" using revert_active_locked [OF assms] by simp
  then have "v_lock x1" using save_node_part_frame(1) [OF s(1)] by simp
  then have "v_lock x2" using arg_cong [OF save_port_part_frame(1) [OF s(2)], of v_lock] by simp
  then have "v_lock x3" using arg_cong [OF save_json_part_frame(1) [OF s(3)], of v_lock] by simp
  with s(4) StatusModel_save_locked show False by simp
qed

definition demo_env :: save_env where
  "demo_env = \<lparr>e_now = 1000, e_settings = demo_settings, e_vms = (\<lambda>_. [(''w'', 15901)]), e_storages = (\<lambda>_ _ _. [7]),
     e_dns = False, e_domains = [], e_records = (\<lambda>_ _. [])\<rparr>"

definition demo_save :: save_args where
  "demo_save = \<lparr>sv_sync_json = False, sv_update_hostname = False, sv_update_node = False, sv_storages = Some [],
     sv_keep_vnc_port = False, sv_fields = None, sv_change_time = None\<rparr>"

theorem reverted_vm_not_saved_witness:
  "\<exists>y e. revert_active (\<lambda>_. True) (\<lambda>_. None) True True True demo_vm = Inr y \<and> vm_save demo_env demo_save y = Inl e"
proof -
  obtain y where y: "revert_active (\<lambda>_. True) (\<lambda>_. None) True True True demo_vm = Inr y"
    by (simp add: revert_active_def)
  from reverted_vm_not_saved [OF y] y show ?thesis by blast
qed

lemma fqdn_frame: "\<exists>h d. snd (hostname_is_valid_fqdn b ds c z) = z\<lparr>v_fqdn_hostname := h, v_fqdn_domain := d\<rparr>"
proof (cases "c \<and> v_fqdn_hostname z \<notin> {None, Some []}")
  case True
  then have "snd (hostname_is_valid_fqdn b ds c z) = z\<lparr>v_fqdn_hostname := v_fqdn_hostname z, v_fqdn_domain := v_fqdn_domain z\<rparr>"
    by (simp add: hostname_is_valid_fqdn_def)
  then show ?thesis by blast
next
  case False
  let ?r = "if b then (case split_on (CHR ''.'') (v_hostname z) of p # rest \<Rightarrow> fqdn_search ds [p] rest | [] \<Rightarrow> None) else None"
  have e: "hostname_is_valid_fqdn b ds c z = (case ?r of
      Some (h, d) \<Rightarrow> (True, z\<lparr>v_fqdn_hostname := Some h, v_fqdn_domain := Some d\<rparr>)
    | None \<Rightarrow> (False, z\<lparr>v_fqdn_hostname := Some (v_hostname z), v_fqdn_domain := None\<rparr>))"
    unfolding hostname_is_valid_fqdn_def using False by (simp only: if_False)
  have "\<exists>h d. z\<lparr>v_fqdn_hostname := i, v_fqdn_domain := j\<rparr> = z\<lparr>v_fqdn_hostname := h, v_fqdn_domain := d\<rparr>" for i j
    by blast
  then show ?thesis unfolding e by (cases ?r) auto
qed

lemma save_hostname_frame:
  assumes "save_hostname env a x = Inr (y, es)"
  shows "\<exists>h d. y = x\<lparr>v_fqdn_hostname := h, v_fqdn_domain := d\<rparr>"
proof -
  have keep: "\<exists>h d. x = x\<lparr>v_fqdn_hostname := h, v_fqdn_domain := d\<rparr>"
    by (rule exI [of _ "v_fqdn_hostname x"], rule exI [of _ "v_fqdn_domain x"]) simp
  show ?thesis
  proof (cases "sv_update_hostname a")
    case True
    with assms obtain v where "update_hostname (e_dns env) (e_domains env) (e_records env) None x = Inr (v, y, es)"
      by (auto simp: save_hostname_def rbind_Inr_iff)
    then have "y = x \<or> y = snd (hostname_is_valid_fqdn (e_dns env) (e_domains env) False x)"
      by (auto simp: update_hostname_def Let_def split: if_splits option.splits prod.splits)
    then show ?thesis using fqdn_frame [of "e_dns env" "e_domains env" False x] keep by (elim disjE) simp_all
  next
    case False
    with assms keep show ?thesis by (simp add: save_hostname_def)
  qed
qed

text \<open>
  C36. Saving a VM that was moved to another node. When the save succeeds the move is complete: the
  object no longer counts as moved, a VNC port is chosen that no other VM of the new node has, the
  definition is in step with the object, and the free resources of both the new and the old node
  are recalculated after the object was written to the database.
\<close>

theorem save_completes_move:
  assumes "vm_save env a x = Inr (y, es)" "v_node_changed x" "\<not> sv_keep_vnc_port a" "v_node x = Some n" "v_orig_node x = Some old"
  shows "\<not> v_node_changed y \<and> v_orig_node y = None \<and> v_node y = Some n
    \<and> (\<exists>p. v_vnc_port y = Some p \<and> \<not> list_ex (\<lambda>(u, q). u \<noteq> v_uuid x \<and> q = p) (e_vms env (Some (nr_uuid n))))
    \<and> map_of (v_json y) ''uuid'' = Some (VStr (v_uuid y))
    \<and> (\<exists>es1 es3. es = DbSave (sv_fields a) # es1 @ [UpdateNode (nr_uuid n), UpdateNode (nr_uuid old)] @ es3)"
proof -
  from assms(1) obtain x1 x2 x3 x4 es1 ns es3 where s: "save_node_part env a x = Inr x1" "save_port_part env x1 = Inr x2"
      "save_json_part env a x2 = Inr x3" "StatusModel_save (e_now env) (sv_change_time a) (sv_fields a) x3 = Inr (x4, es1)"
      "save_hostname env a (save_finish (x4\<lparr>v_update_changed := False\<rparr>)) = Inr (y, es3)"
    and es: "es = es1 @ map UpdateStorage ns @ node_effects a (x4\<lparr>v_update_changed := False\<rparr>) @ es3"
    unfolding vm_save_def by (auto simp: rbind_Inr_iff Let_def)
  note f1 = save_node_part_frame [OF s(1)]
  have p: "choose_vnc_port (e_vms env (Some (nr_uuid n))) x1 = Inr x2"
    using save_port_part_frame(2) [OF s(2)] f1 assms by simp
  obtain q where q: "x2 = x1\<lparr>v_vnc_port := Some q\<rparr>" "\<not> list_ex (\<lambda>(u, r). u \<noteq> v_uuid x1 \<and> r = q) (e_vms env (Some (nr_uuid n)))"
    using choose_vnc_port_free [OF p] by blast
  have j: "sync_json (e_settings env) False False x2 = Inr x3"
    using save_json_part_frame(2) [OF s(3)] q(1) f1 assms(2) by simp
  obtain js where x3: "x3 = x2\<lparr>v_json := js\<rparr>" using save_json_part_frame(1) [OF s(3)] by blast
  have u: "map_of js ''uuid'' = Some (VStr (v_uuid x3))"
    using sync_json_synced [OF j] x3 by (simp add: synced_def)
  obtain es2 where x4: "es1 = DbSave (sv_fields a) # es2" "v_node x4 = v_node x3" "v_vnc_port x4 = v_vnc_port x3"
      "v_json x4 = v_json x3" "v_uuid x4 = v_uuid x3" "v_node_changed x4 = v_node_changed x3" "v_orig_node x4 = v_orig_node x3"
    using s(4) by (auto simp: StatusModel_save_def Let_def split: if_splits)
  have ch: "v_node_changed x4" "v_orig_node x4 = Some old" "v_node x4 = Some n"
    using x4 x3 q(1) f1 assms by simp_all
  obtain h d where y: "y = (save_finish (x4\<lparr>v_update_changed := False\<rparr>))\<lparr>v_fqdn_hostname := h, v_fqdn_domain := d\<rparr>"
    using save_hostname_frame [OF s(5)] by blast
  have "es = DbSave (sv_fields a) # (es2 @ map UpdateStorage ns) @ [UpdateNode (nr_uuid n), UpdateNode (nr_uuid old)] @ es3"
    using ch by (simp add: es x4(1) node_effects_def)
  then have "\<exists>es1 es3. es = DbSave (sv_fields a) # es1 @ [UpdateNode (nr_uuid n), UpdateNode (nr_uuid old)] @ es3" by blast
  moreover have "v_vnc_port y = Some q" "v_json y = js" "v_uuid y = v_uuid x3" "v_node y = Some n"
    "\<not> v_node_changed y" "v_orig_node y = None"
    using ch x3 x4 q(1) by (simp_all add: y save_finish_def)
  ultimately show ?thesis using q(2) u f1(5) by (intro conjI) auto
qed

definition demo_moved :: vm where
  "demo_moved = demo_vm\<lparr>v_node := Some \<lparr>nr_uuid = ''n2'', nr_hostname = ''h2'', nr_status = 2\<rparr>,
     v_orig_node := Some \<lparr>nr_uuid = ''n1'', nr_hostname = ''h1'', nr_status = 2\<rparr>, v_node_changed := True,
     v_json := [(''internal_metadata'', VDict [])]\<rparr>"

lemma vm_save_demo_moved: "case vm_save demo_env demo_save demo_moved of Inr (y, es) \<Rightarrow> True | Inl _ \<Rightarrow> False"
proof -
  let ?h = "demo_moved\<lparr>v_info := [(''node_history'', VList [VDict [(''node_uuid'', VStr ''n1''), (''node_hostname'', VStr ''h1''), (''till'', VInt 1000)]])],
    v_vnc_port := None\<rparr>"
  have 1: "save_node_part demo_env demo_save demo_moved = Inr ?h" by code_simp
  have 2: "save_port_part demo_env ?h = Inr (?h\<lparr>v_vnc_port := Some 15902\<rparr>)"
    by (simp add: save_port_part_def demo_env_def choose_vnc_port_cases next_vnc_port_def demo_moved_def demo_vm_def)
  have "case rbind (save_json_part demo_env demo_save (?h\<lparr>v_vnc_port := Some 15902\<rparr>)) (\<lambda>x3.
      rbind (StatusModel_save (e_now demo_env) (sv_change_time demo_save) (sv_fields demo_save) x3) (\<lambda>(x4, es1).
      (let x5 = x4\<lparr>v_update_changed := False\<rparr>
      in rbind (case sv_storages demo_save of None \<Rightarrow> get_node_storages demo_env x5 | Some ns \<Rightarrow> Inr ns) (\<lambda>ns.
         (let es2 = es1 @ map UpdateStorage ns @ node_effects demo_save x5
          in rbind (save_hostname demo_env demo_save (save_finish x5)) (\<lambda>(x6, es3). Inr (x6, es2 @ es3))))))) of
      Inr (y, es) \<Rightarrow> True | Inl _ \<Rightarrow> False" by code_simp
  then show ?thesis unfolding vm_save_def 1 rbind_simps 2 .
qed

theorem save_completes_move_witness:
  "\<exists>y es. vm_save demo_env demo_save demo_moved = Inr (y, es) \<and> v_orig_node y = None \<and> v_vnc_port y \<noteq> None"
proof -
  obtain y es where y: "vm_save demo_env demo_save demo_moved = Inr (y, es)"
    using vm_save_demo_moved by (auto split: sum.splits)
  have "v_node_changed demo_moved" "\<not> sv_keep_vnc_port demo_save"
    "v_node demo_moved = Some \<lparr>nr_uuid = ''n2'', nr_hostname = ''h2'', nr_status = 2\<rparr>"
    "v_orig_node demo_moved = Some \<lparr>nr_uuid = ''n1'', nr_hostname = ''h1'', nr_status = 2\<rparr>"
    by (simp_all add: demo_moved_def demo_save_def)
  note m = save_completes_move [OF y this]
  show ?thesis using m y by auto
qed

end
