(* ===== verification/Storage.thy ===== *)
theory Storage
  imports State_Prog Py_Float Vm_Save
begin

text \<open>
  Storages and the sizes kept on them, \<^verbatim>\<open>vms/models/storage.py\<close>: the total size of a storage, the
  sizes of disks, snapshots, backups and images that are computed from the database and kept in
  the cache, and the free size that is computed from them. The database tables and the cache are
  the shared state of the programs; entries of the cache may also expire at any time, which the
  theorems about the cache allow for.
\<close>

section \<open>Objects\<close>

definition LOCAL_STORAGE :: int where "LOCAL_STORAGE = 1"
definition NFS :: int where "NFS = 2"
definition ISCSI :: int where "ISCSI = 3"
definition FIBER :: int where "FIBER = 4"
definition SIZE_COEF :: int where "SIZE_COEF = 60"

text \<open>A coefficient is kept in hundredths: it has two decimal places.\<close>

record storage =
  st_pk :: "int option"
  st_name :: string
  st_alias :: string
  st_owner :: int
  st_access :: int
  st_type :: int
  st_size :: int
  st_size_coef :: int
  st_size_free :: int

record node_storage =
  ns_pk :: "int option"
  ns_zpool :: string
  ns_node :: string
  ns_storage :: storage
  ns_dcs :: "int list"

record snapshot =
  sn_id :: int
  sn_vm :: string
  sn_dc :: int
  sn_disk_id :: int
  sn_define :: "int option"
  sn_name :: string
  sn_type :: int
  sn_status :: int
  sn_ns :: int
  sn_size :: "int option"
  sn_created :: "int option"

record backup =
  bk_id :: int
  bk_dc :: int
  bk_vm :: "string option"
  bk_vm_hostname :: string
  bk_vm_disk_id :: int
  bk_disk_id :: int
  bk_define :: "int option"
  bk_name :: string
  bk_status :: int
  bk_ns :: int
  bk_type :: int
  bk_size :: "int option"
  bk_json :: pydict

text \<open>The datacenter of a snapshot is the one of its VM (\<open>vm__dc\<close> in the queries).\<close>

definition Snapshot_OK :: int where "Snapshot_OK = 1"
definition Snapshot_PENDING :: int where "Snapshot_PENDING = 2"
definition Snapshot_ROLLBACK :: int where "Snapshot_ROLLBACK = 3"
definition Snapshot_LOST :: int where "Snapshot_LOST = 4"
definition Backup_OK :: int where "Backup_OK = 1"
definition Backup_PENDING :: int where "Backup_PENDING = 2"
definition Backup_RESTORE :: int where "Backup_RESTORE = 3"
definition Backup_LOST :: int where "Backup_LOST = 4"

lemmas row_status_defs = Snapshot_OK_def Snapshot_PENDING_def Snapshot_ROLLBACK_def Snapshot_LOST_def
  Backup_OK_def Backup_PENDING_def Backup_RESTORE_def Backup_LOST_def

section \<open>Cache keys\<close>

datatype ckey =
    VmsSizeTotal int | VmsSizeDc int int | VmsSizeTotalDc int
  | SnapTotal int | RepSnapTotal int | SnapDc int int | SnapTotalDc int | SnapTotalVm string
  | BackupTotal int | BackupDc int int | BackupTotalDc int | BackupTotalVm string
  | ImageTotal int

definition VMS_SIZE_TOTAL_KEY :: "int \<Rightarrow> string" where
  "VMS_SIZE_TOTAL_KEY p = ''vms-size-total:'' @ int_str p"
definition VMS_SIZE_DC_KEY :: "int \<Rightarrow> int \<Rightarrow> string" where
  "VMS_SIZE_DC_KEY d p = ''vms-size-dc:'' @ int_str d @ '':'' @ int_str p"
definition VMS_SIZE_TOTAL_DC_KEY :: "int \<Rightarrow> string" where
  "VMS_SIZE_TOTAL_DC_KEY d = ''vms-size-total-dc:'' @ int_str d"
definition SNAPSHOT_SIZE_TOTAL_KEY :: "int \<Rightarrow> string" where
  "SNAPSHOT_SIZE_TOTAL_KEY p = ''snapshot-size-total:'' @ int_str p"
definition REP_SNAPSHOT_SIZE_TOTAL_KEY :: "int \<Rightarrow> string" where
  "REP_SNAPSHOT_SIZE_TOTAL_KEY p = ''rep-snapshot-size-total:'' @ int_str p"
definition SNAPSHOT_SIZE_DC_KEY :: "int \<Rightarrow> int \<Rightarrow> string" where
  "SNAPSHOT_SIZE_DC_KEY d p = ''snapshot-size-dc:'' @ int_str d @ '':'' @ int_str p"
definition SNAPSHOT_SIZE_TOTAL_DC_KEY :: "int \<Rightarrow> string" where
  "SNAPSHOT_SIZE_TOTAL_DC_KEY d = ''snapshot-size-total-dc:'' @ int_str d"
definition SNAPSHOT_SIZE_TOTAL_VM_KEY :: "string \<Rightarrow> string" where
  "SNAPSHOT_SIZE_TOTAL_VM_KEY u = ''snapshot-size-total-vm:'' @ u"
definition BACKUP_SIZE_TOTAL_KEY :: "int \<Rightarrow> string" where
  "BACKUP_SIZE_TOTAL_KEY p = ''backup-size-total:'' @ int_str p"
definition BACKUP_SIZE_DC_KEY :: "int \<Rightarrow> int \<Rightarrow> string" where
  "BACKUP_SIZE_DC_KEY d p = ''backup-size-dc:'' @ int_str d @ '':'' @ int_str p"
definition BACKUP_SIZE_TOTAL_DC_KEY :: "int \<Rightarrow> string" where
  "BACKUP_SIZE_TOTAL_DC_KEY d = ''backup-size-total-dc:'' @ int_str d"
definition BACKUP_SIZE_TOTAL_VM_KEY :: "string \<Rightarrow> string" where
  "BACKUP_SIZE_TOTAL_VM_KEY u = ''backup-size-total-vm:'' @ u"
definition IMAGE_SIZE_TOTAL_KEY :: "int \<Rightarrow> string" where
  "IMAGE_SIZE_TOTAL_KEY p = ''image-size-total:'' @ int_str p"

fun ckey_str :: "ckey \<Rightarrow> string" where
  "ckey_str (VmsSizeTotal p) = VMS_SIZE_TOTAL_KEY p"
| "ckey_str (VmsSizeDc d p) = VMS_SIZE_DC_KEY d p"
| "ckey_str (VmsSizeTotalDc d) = VMS_SIZE_TOTAL_DC_KEY d"
| "ckey_str (SnapTotal p) = SNAPSHOT_SIZE_TOTAL_KEY p"
| "ckey_str (RepSnapTotal p) = REP_SNAPSHOT_SIZE_TOTAL_KEY p"
| "ckey_str (SnapDc d p) = SNAPSHOT_SIZE_DC_KEY d p"
| "ckey_str (SnapTotalDc d) = SNAPSHOT_SIZE_TOTAL_DC_KEY d"
| "ckey_str (SnapTotalVm u) = SNAPSHOT_SIZE_TOTAL_VM_KEY u"
| "ckey_str (BackupTotal p) = BACKUP_SIZE_TOTAL_KEY p"
| "ckey_str (BackupDc d p) = BACKUP_SIZE_DC_KEY d p"
| "ckey_str (BackupTotalDc d) = BACKUP_SIZE_TOTAL_DC_KEY d"
| "ckey_str (BackupTotalVm u) = BACKUP_SIZE_TOTAL_VM_KEY u"
| "ckey_str (ImageTotal p) = IMAGE_SIZE_TOTAL_KEY p"

text \<open>Different keys are different strings, so the cache can be read as a map of keys.\<close>

lemma int_str_inject [simp]: "int_str i = int_str j \<longleftrightarrow> i = j"
  by (metis Inr_inject str_int_int_str)

lemma int_str_no_colon [simp]: "CHR '':'' \<notin> set (int_str i)"
proof -
  have "CHR '':'' \<notin> set (nat_str n)" for n
    using list_all_digit_nat_str [of n] by (auto simp: list_all_iff is_digit_def ch_code_def)
  then show ?thesis by (simp add: int_str_def)
qed

lemma colon_split: "CHR '':'' \<notin> set a \<Longrightarrow> CHR '':'' \<notin> set c \<Longrightarrow>
  a @ CHR '':'' # b = c @ CHR '':'' # d \<longleftrightarrow> a = c \<and> b = d"
  by (auto simp: append_eq_append_conv2 append_eq_Cons_conv Cons_eq_append_conv)

lemmas key_defs = VMS_SIZE_TOTAL_KEY_def VMS_SIZE_DC_KEY_def VMS_SIZE_TOTAL_DC_KEY_def
  SNAPSHOT_SIZE_TOTAL_KEY_def REP_SNAPSHOT_SIZE_TOTAL_KEY_def SNAPSHOT_SIZE_DC_KEY_def
  SNAPSHOT_SIZE_TOTAL_DC_KEY_def SNAPSHOT_SIZE_TOTAL_VM_KEY_def BACKUP_SIZE_TOTAL_KEY_def
  BACKUP_SIZE_DC_KEY_def BACKUP_SIZE_TOTAL_DC_KEY_def BACKUP_SIZE_TOTAL_VM_KEY_def IMAGE_SIZE_TOTAL_KEY_def

lemma ckey_str_inject: "ckey_str k = ckey_str l \<longleftrightarrow> k = l"
  by (cases k; cases l; simp add: key_defs colon_split)

section \<open>Database and cache\<close>

text \<open>
  A row of \<open>rs_nss\<close> carries its storage as it was read; \<open>fresh_ns\<close> reads it again from the table
  of storages. \<open>rs_images\<close> holds the sizes of the images on a node storage.
\<close>

record res_state =
  rs_cache :: "ckey \<Rightarrow> int option"
  rs_vms :: "vm list"
  rs_snaps :: "snapshot list"
  rs_backups :: "backup list"
  rs_images :: "int \<Rightarrow> int option list"
  rs_nss :: "node_storage list"
  rs_storages :: "int \<Rightarrow> storage option"
  rs_next_id :: int

definition fresh_ns :: "'z res_state_scheme \<Rightarrow> node_storage \<Rightarrow> node_storage" where
  "fresh_ns s ns = (case Option.bind (st_pk (ns_storage ns)) (rs_storages s) of
      None \<Rightarrow> ns | Some st \<Rightarrow> ns\<lparr>ns_storage := st\<rparr>)"

definition cache_set :: "ckey \<Rightarrow> int option \<Rightarrow> ('z res_state_scheme, unit) prog" where
  "cache_set k v = pmod (\<lambda>s. s\<lparr>rs_cache := (rs_cache s)(k := v)\<rparr>)"

definition cache_delete :: "ckey \<Rightarrow> ('z res_state_scheme, unit) prog" where
  "cache_delete k = pmod (\<lambda>s. s\<lparr>rs_cache := (rs_cache s)(k := None)\<rparr>)"

definition storage_save :: "storage \<Rightarrow> ('z res_state_scheme, storage) prog" where
  "storage_save st = (\<lambda>s. case st_pk st of
      Some p \<Rightarrow> (Inr st, s\<lparr>rs_storages := (rs_storages s)(p \<mapsto> st)\<rparr>)
    | None \<Rightarrow> (let st' = st\<lparr>st_pk := Some (rs_next_id s)\<rparr>
        in (Inr st', s\<lparr>rs_storages := (rs_storages s)(rs_next_id s \<mapsto> st'), rs_next_id := rs_next_id s + 1\<rparr>)))"

section \<open>Sizes\<close>

definition b_to_mb :: "int \<Rightarrow> int" where
  "b_to_mb value = value div 1048576"

text \<open>\<open>int(n * float(coef))\<close>, the total of a resource.\<close>

definition scaled_num :: "int \<Rightarrow> int \<Rightarrow> pyfloat" where
  "scaled_num n coef = fmul (float_of_frac n 1) (float_of_frac coef 100)"

definition scaled_total :: "int \<Rightarrow> int \<Rightarrow> int" where
  "scaled_total n coef = ftrunc (scaled_num n coef)"

definition size_total :: "storage \<Rightarrow> int" where
  "size_total st = scaled_total (st_size st) (st_size_coef st)"

text \<open>\<open>aggregate(Sum('size'))\<close>: \<open>None\<close> when there is no row with a size.\<close>

definition db_sum :: "int option list \<Rightarrow> int option" where
  "db_sum xs = (let ys = List.map_filter id xs in if ys = [] then None else Some (sum_list ys))"

definition sum_mb :: "int option list \<Rightarrow> int" where
  "sum_mb xs = (case db_sum xs of None \<Rightarrow> 0 | Some n \<Rightarrow> if n \<noteq> 0 then b_to_mb n else 0)"

text \<open>\<open>exclude(status__in=..., size__isnull=True)\<close> leaves out the rows for which both hold.\<close>

definition counted_snapshot :: "snapshot \<Rightarrow> bool" where
  "counted_snapshot r \<longleftrightarrow> \<not> (sn_status r \<in> {Snapshot_PENDING, Snapshot_LOST} \<and> sn_size r = None)"

definition counted_backup :: "backup \<Rightarrow> bool" where
  "counted_backup r \<longleftrightarrow> \<not> (bk_status r \<in> {Backup_PENDING, Backup_LOST} \<and> bk_size r = None)"

definition of_dc :: "int option \<Rightarrow> int \<Rightarrow> bool" where
  "of_dc dc d \<longleftrightarrow> (case dc of None \<Rightarrow> True | Some e \<Rightarrow> d = e)"

definition on_node :: "string \<Rightarrow> vm \<Rightarrow> bool" where
  "on_node uuid x \<longleftrightarrow> (case v_node x of None \<Rightarrow> False | Some n \<Rightarrow> nr_uuid n = uuid)"

fun sum_res :: "int res list \<Rightarrow> int res" where
  "sum_res [] = Inr 0"
| "sum_res (r # rs) = rbind r (\<lambda>n. rbind (sum_res rs) (\<lambda>m. Inr (n + m)))"

definition calculate_vms_size :: "node_storage \<Rightarrow> int option \<Rightarrow> ('z res_state_scheme, int) prog" where
  "calculate_vms_size ns dc = (\<lambda>s.
     (sum_res (map (get_disk_size (Some (ns_zpool ns)))
        (filter (\<lambda>x. on_node (ns_node ns) x \<and> of_dc dc (v_dc x)) (rs_vms s))), s))"

definition calculate_snapshots_size :: "int \<Rightarrow> int option \<Rightarrow> ('z res_state_scheme, int) prog" where
  "calculate_snapshots_size ns dc = pget (\<lambda>s.
     sum_mb (map sn_size (filter (\<lambda>r. sn_ns r = ns \<and> counted_snapshot r \<and> of_dc dc (sn_dc r)) (rs_snaps s))))"

definition calculate_backups_size :: "int \<Rightarrow> int option \<Rightarrow> ('z res_state_scheme, int) prog" where
  "calculate_backups_size ns dc = pget (\<lambda>s.
     sum_mb (map bk_size (filter (\<lambda>r. bk_ns r = ns \<and> counted_backup r \<and> of_dc dc (bk_dc r)) (rs_backups s))))"

text \<open>The key of the aggregate is always present, so the default of \<open>get\<close> is never used.\<close>

definition calculate_images_size :: "int \<Rightarrow> ('z res_state_scheme, int option) prog" where
  "calculate_images_size ns = pget (\<lambda>s. db_sum (rs_images s ns))"

section \<open>Cached sizes\<close>

definition get_cached_size :: "ckey \<Rightarrow> ('z res_state_scheme \<Rightarrow> int option list) \<Rightarrow> ('z res_state_scheme, int) prog" where
  "get_cached_size k rows = pbind (pget (\<lambda>s. rs_cache s k)) (\<lambda>c. case c of
      Some n \<Rightarrow> pret n
    | None \<Rightarrow> pbind (pget (\<lambda>s. sum_mb (rows s))) (\<lambda>n. pbind (cache_set k (Some n)) (\<lambda>_. pret n)))"

definition clear_cached_size :: "ckey \<Rightarrow> ('z res_state_scheme, unit) prog" where
  "clear_cached_size k = cache_delete k"

text \<open>\<open>fetch\<close> may yield \<open>None\<close>, which is put into the cache and which \<open>int\<close> then refuses.\<close>

definition related_size :: "ckey \<Rightarrow> ('z res_state_scheme, int option) prog \<Rightarrow> bool \<Rightarrow> ('z res_state_scheme, int) prog" where
  "related_size k fetch clear = pbind (pget (\<lambda>s. rs_cache s k)) (\<lambda>c.
     pbind (if clear \<or> c = None then pbind fetch (\<lambda>n. pbind (cache_set k n) (\<lambda>_. pret n)) else pret c) (\<lambda>r.
     pres (case r of Some n \<Rightarrow> Inr n | None \<Rightarrow> Inl (Exn TypeError ''int() argument must be a string or a number''))))"

definition some_size :: "('s, int) prog \<Rightarrow> ('s, int option) prog" where
  "some_size m = pbind m (\<lambda>n. pret (Some n))"

text \<open>An object that has no primary key yet has size 0.\<close>

definition with_pk :: "node_storage \<Rightarrow> (int \<Rightarrow> ('z res_state_scheme, int) prog) \<Rightarrow> ('z res_state_scheme, int) prog" where
  "with_pk ns f = (case ns_pk ns of None \<Rightarrow> pret 0 | Some p \<Rightarrow> f p)"

definition get_vms_size :: "node_storage \<Rightarrow> bool \<Rightarrow> ('z res_state_scheme, int) prog" where
  "get_vms_size ns clear = with_pk ns (\<lambda>p. related_size (VmsSizeTotal p) (some_size (calculate_vms_size ns None)) clear)"

definition dc_vms_size_cached :: "node_storage \<Rightarrow> int \<Rightarrow> bool \<Rightarrow> ('z res_state_scheme, int) prog" where
  "dc_vms_size_cached ns dc clear =
     with_pk ns (\<lambda>p. related_size (VmsSizeDc dc p) (some_size (calculate_vms_size ns (Some dc))) clear)"

definition get_dc_vms_size :: "node_storage \<Rightarrow> int \<Rightarrow> bool \<Rightarrow> ('z res_state_scheme, int) prog" where
  "get_dc_vms_size ns dc clear = pbind (dc_vms_size_cached ns dc clear) (\<lambda>res.
     pbind (pwhen clear
       (pbind (pget (\<lambda>s. filter (\<lambda>o'. ns_pk o' \<noteq> ns_pk ns \<and> dc \<in> set (ns_dcs o')) (rs_nss s))) (\<lambda>others.
        pbind (pmap (\<lambda>o'. dc_vms_size_cached o' dc False) others) (\<lambda>sizes.
          cache_set (VmsSizeTotalDc dc) (Some (res + sum_list sizes))))))
     (\<lambda>_. pret res))"

definition get_snapshots_size :: "node_storage \<Rightarrow> bool \<Rightarrow> ('z res_state_scheme, int) prog" where
  "get_snapshots_size ns clear = with_pk ns (\<lambda>p. related_size (SnapTotal p) (some_size (calculate_snapshots_size p None)) clear)"

definition get_dc_snapshots_size :: "node_storage \<Rightarrow> int \<Rightarrow> bool \<Rightarrow> ('z res_state_scheme, int) prog" where
  "get_dc_snapshots_size ns dc clear =
     with_pk ns (\<lambda>p. related_size (SnapDc dc p) (some_size (calculate_snapshots_size p (Some dc))) clear)"

definition get_backups_size :: "node_storage \<Rightarrow> bool \<Rightarrow> ('z res_state_scheme, int) prog" where
  "get_backups_size ns clear = with_pk ns (\<lambda>p. related_size (BackupTotal p) (some_size (calculate_backups_size p None)) clear)"

definition get_dc_backups_size :: "node_storage \<Rightarrow> int \<Rightarrow> bool \<Rightarrow> ('z res_state_scheme, int) prog" where
  "get_dc_backups_size ns dc clear =
     with_pk ns (\<lambda>p. related_size (BackupDc dc p) (some_size (calculate_backups_size p (Some dc))) clear)"

definition get_images_size :: "node_storage \<Rightarrow> bool \<Rightarrow> ('z res_state_scheme, int) prog" where
  "get_images_size ns clear = with_pk ns (\<lambda>p. related_size (ImageTotal p) (calculate_images_size p) clear)"

text \<open>Sizes of replicated snapshots are only ever put into the cache by a callback.\<close>

definition get_rep_snapshots_size :: "node_storage \<Rightarrow> ('z res_state_scheme, int) prog" where
  "get_rep_snapshots_size ns = pget (\<lambda>s. case ns_pk ns of None \<Rightarrow> 0
     | Some p \<Rightarrow> (case rs_cache s (RepSnapTotal p) of None \<Rightarrow> 0 | Some n \<Rightarrow> n))"

definition set_rep_snapshots_size :: "int \<Rightarrow> int \<Rightarrow> ('z res_state_scheme, unit) prog" where
  "set_rep_snapshots_size p bytes = cache_set (RepSnapTotal p) (Some (b_to_mb bytes))"

section \<open>Free size\<close>

definition get_size_free :: "string option \<Rightarrow> int option \<Rightarrow> node_storage \<Rightarrow> int" where
  "get_size_free node_zpool dc_disk_free ns = (case dc_disk_free of
      Some free \<Rightarrow> if Some (ns_zpool ns) = node_zpool then free else st_size_free (ns_storage ns)
    | None \<Rightarrow> st_size_free (ns_storage ns))"

definition get_size :: "string option \<Rightarrow> int option \<Rightarrow> node_storage \<Rightarrow> int" where
  "get_size node_zpool dc_disk ns = (case dc_disk of
      Some d \<Rightarrow> if Some (ns_zpool ns) = node_zpool then d else size_total (ns_storage ns)
    | None \<Rightarrow> size_total (ns_storage ns))"

text \<open>Which sizes are computed anew; the lists name datacenters.\<close>

record recalc =
  rc_vms :: bool
  rc_snapshots :: bool
  rc_backups :: bool
  rc_dc_vms :: "int list"
  rc_dc_snapshots :: "int list"
  rc_dc_backups :: "int list"

definition recalc_default :: recalc where
  "recalc_default = \<lparr>rc_vms = True, rc_snapshots = True, rc_backups = True,
     rc_dc_vms = [], rc_dc_snapshots = [], rc_dc_backups = []\<rparr>"

definition get_free_size :: "recalc \<Rightarrow> node_storage \<Rightarrow> ('z res_state_scheme, int) prog" where
  "get_free_size rc ns =
     pbind (get_vms_size ns (rc_vms rc)) (\<lambda>v. pbind (get_snapshots_size ns (rc_snapshots rc)) (\<lambda>n.
     pbind (get_rep_snapshots_size ns) (\<lambda>r. pbind (get_backups_size ns (rc_backups rc)) (\<lambda>b.
       pret (size_total (ns_storage ns) - (v + n + r + b))))))"

definition ns_update_resources :: "bool \<Rightarrow> recalc \<Rightarrow> node_storage \<Rightarrow> ('z res_state_scheme, node_storage) prog" where
  "ns_update_resources save rc ns =
     pbind (get_free_size rc ns) (\<lambda>free.
       (let ns1 = ns\<lparr>ns_storage := (ns_storage ns)\<lparr>st_size_free := free\<rparr>\<rparr> in
        pbind (pfor (rc_dc_vms rc) (\<lambda>d. get_dc_vms_size ns1 d True)) (\<lambda>_.
        pbind (pfor (rc_dc_snapshots rc) (\<lambda>d. get_dc_snapshots_size ns1 d True)) (\<lambda>_.
        pbind (pfor (rc_dc_backups rc) (\<lambda>d. get_dc_backups_size ns1 d True)) (\<lambda>_.
          if save then pbind (storage_save (ns_storage ns1)) (\<lambda>st. pret (ns1\<lparr>ns_storage := st\<rparr>))
          else pret ns1)))))"

definition check_free_space :: "node_storage \<Rightarrow> int \<Rightarrow> bool" where
  "check_free_space ns disk_size \<longleftrightarrow> disk_size \<le> st_size_free (ns_storage ns)"

text \<open>\<open>post_delete\<close> removes the storage together with its association.\<close>

definition ns_post_delete :: "node_storage \<Rightarrow> ('z res_state_scheme, unit) prog" where
  "ns_post_delete ns = pmod (\<lambda>s. s\<lparr>rs_storages := (case st_pk (ns_storage ns) of None \<Rightarrow> rs_storages s
     | Some p \<Rightarrow> (rs_storages s)(p := None))\<rparr>)"

text \<open>Names of a node storage in the task log.\<close>

definition ns_alias :: "string \<Rightarrow> node_storage \<Rightarrow> string" where
  "ns_alias node_hostname ns = st_alias (ns_storage ns) @ ''@'' @ node_hostname"

definition ns_name :: "string \<Rightarrow> node_storage \<Rightarrow> string" where
  "ns_name node_hostname ns = ns_zpool ns @ ''@'' @ node_hostname"

definition ns_get_log_name_lookup_kwargs :: "string \<Rightarrow> string dict" where
  "ns_get_log_name_lookup_kwargs v = (case split_on (CHR ''@'') v of
      z # h # ps \<Rightarrow> [(''zpool'', z), (''node__hostname'', join_with ''@'' (h # ps))]
    | _ \<Rightarrow> [(''zpool'', v)])"

section \<open>The total of a resource\<close>

lemma scaled_num_err:
  assumes "0 \<le> n" "n < 2 ^ 31" "0 \<le> c" "c < 10000"
  shows "\<bar>fl_val (scaled_num n c) - real_of_int (n * c) / 100\<bar> < 1 / 100"
proof -
  let ?f = "fl_val (float_of_frac n 1)" and ?g = "fl_val (float_of_frac c 100)"
  have f: "\<bar>?f - n\<bar> \<le> 1 / 2 ^ 23" using float_of_frac_err [of n 1 31] assms by (simp add: power_int_def power_one_over)
  have g: "\<bar>?g - c / 100\<bar> \<le> 1 / 2 ^ 47" using float_of_frac_err [of c 100 7] assms by (simp add: power_int_def power_one_over)
  have n: "0 \<le> real_of_int n" "real_of_int n \<le> 2 ^ 31" and c: "0 \<le> c / 100" "c / 100 \<le> 100" using assms by simp_all
  have g': "\<bar>?g\<bar> \<le> 101"
  proof -
    have "\<bar>?g - c / 100\<bar> \<le> 1" using g by (rule order_trans) simp
    then show ?thesis using c by linarith
  qed
  have "?f * ?g - n * (c / 100) = (?f - n) * ?g + n * (?g - c / 100)" by (simp add: algebra_simps)
  also have "\<bar>\<dots>\<bar> \<le> \<bar>?f - n\<bar> * \<bar>?g\<bar> + \<bar>real_of_int n\<bar> * \<bar>?g - c / 100\<bar>"
    by (metis abs_mult abs_triangle_ineq)
  also have "\<dots> \<le> 1 / 2 ^ 23 * 101 + 2 ^ 31 * (1 / 2 ^ 47)"
    using f g g' n by (intro add_mono mult_mono) simp_all
  also have "\<dots> \<le> 1 / 2000" by simp
  finally have p: "\<bar>?f * ?g - n * (c / 100)\<bar> \<le> 1 / 2000" .
  have "n * (c / 100) \<le> 2 ^ 31 * 100" using n c by (intro mult_mono) simp_all
  moreover have "2 ^ 31 * 100 + 1 < (2::real) ^ 38" by simp
  ultimately have "?f * ?g < 2 ^ 38" using p by linarith
  then have "\<bar>fl_val (scaled_num n c) - ?f * ?g\<bar> \<le> 1 / 65536"
    using fmul_err [of "float_of_frac n 1" "float_of_frac c 100" 38] assms
    by (simp add: scaled_num_def float_of_frac_nonneg power_int_def power_one_over)
  moreover have "real_of_int (n * c) / 100 = n * (c / 100)" by simp
  ultimately show ?thesis using p by linarith
qed

lemma scaled_num_nonneg: "n \<ge> 0 \<Longrightarrow> c \<ge> 0 \<Longrightarrow> fl_mant (scaled_num n c) \<ge> 0"
  by (simp add: scaled_num_def fmul_nonneg float_of_frac_nonneg)

lemma scaled_total_near:
  assumes "0 \<le> n" "n < 2 ^ 31" "0 \<le> c" "c < 10000"
  shows "scaled_total n c \<le> n * c div 100" "n * c div 100 \<le> scaled_total n c + 1"
    "\<not> 100 dvd n * c \<Longrightarrow> scaled_total n c = n * c div 100"
proof -
  let ?q = "n * c div 100" and ?r = "n * c mod 100"
  have "n * c = 100 * ?q + ?r" by simp
  then have "real_of_int (n * c) = 100 * real_of_int ?q + real_of_int ?r" by (metis of_int_add of_int_mult of_int_numeral)
  then have v: "\<bar>fl_val (scaled_num n c) - (?q + ?r / 100)\<bar> < 1 / 100"
    using scaled_num_err [OF assms] by (simp add: add_divide_distrib)
  have t: "scaled_total n c = \<lfloor>fl_val (scaled_num n c)\<rfloor>"
    using scaled_num_nonneg assms by (simp add: scaled_total_def ftrunc_floor)
  have r: "real_of_int ?r \<le> 99" "real_of_int ?r \<ge> 0" by linarith+
  have "fl_val (scaled_num n c) < real_of_int ?q + 1" using v r by linarith
  then show "scaled_total n c \<le> ?q" by (simp add: t floor_le_iff)
  have "fl_val (scaled_num n c) \<ge> real_of_int ?q - 1" using v r by linarith
  then have "?q - 1 \<le> \<lfloor>fl_val (scaled_num n c)\<rfloor>" by (subst le_floor_iff) simp
  then show "?q \<le> scaled_total n c + 1" by (simp add: t)
  show "scaled_total n c = ?q" if "\<not> 100 dvd n * c"
  proof -
    from that have "?r \<noteq> 0" by (simp add: dvd_eq_mod_eq_0)
    then have "real_of_int ?r \<ge> 1" using r(2) by linarith
    then have "fl_val (scaled_num n c) \<ge> real_of_int ?q" using v by linarith
    then have "?q \<le> scaled_total n c" by (simp add: t le_floor_iff)
    with \<open>scaled_total n c \<le> ?q\<close> show ?thesis by simp
  qed
qed

text \<open>
  The total size of a storage. For a size that the database column can hold and a coefficient
  of at most four digits, the product computed with floats and truncated is never above the exact
  product rounded down, and at most one below; it is exact whenever the exact product is not a
  whole number.
\<close>

theorem size_total_bounds:
  assumes "0 \<le> st_size st" "st_size st < 2 ^ 31" "0 \<le> st_size_coef st" "st_size_coef st < 10000"
  shows "size_total st \<le> st_size st * st_size_coef st div 100
    \<and> st_size st * st_size_coef st div 100 \<le> size_total st + 1
    \<and> (100 dvd st_size st * st_size_coef st \<or> size_total st = st_size st * st_size_coef st div 100)"
  using scaled_total_near [OF assms] by (auto simp: size_total_def)

definition demo_storage :: storage where
  "demo_storage = \<lparr>st_pk = Some 1, st_name = ''zones@n1'', st_alias = ''zones'', st_owner = 1, st_access = 1,
     st_type = LOCAL_STORAGE, st_size = 100, st_size_coef = 29, st_size_free = 0\<rparr>"

theorem size_total_bounds_witness:
  "size_total demo_storage = 28 \<and> 28 \<le> (100 * 29 div 100 :: int)"
proof -
  have "size_total demo_storage = 28" by code_simp
  with size_total_bounds [of demo_storage] show ?thesis by (simp add: demo_storage_def)
qed

section \<open>Free size and what uses it\<close>

lemma related_size_clear:
  "related_size k (some_size (\<lambda>s. (r, s))) True s =
     (case r of Inl e \<Rightarrow> (Inl e, s) | Inr n \<Rightarrow> (Inr n, s\<lparr>rs_cache := (rs_cache s)(k \<mapsto> n)\<rparr>))"
  by (simp add: related_size_def some_size_def cache_set_def prog_defs split: sum.splits)

lemma sizes_fresh:
  assumes "ns_pk ns = Some p"
  shows "get_vms_size ns True s = (case fst (calculate_vms_size ns None s) of Inl e \<Rightarrow> (Inl e, s)
      | Inr n \<Rightarrow> (Inr n, s\<lparr>rs_cache := (rs_cache s)(VmsSizeTotal p \<mapsto> n)\<rparr>))"
    "get_snapshots_size ns True s = (Inr (sum_mb (map sn_size (filter (\<lambda>r. sn_ns r = p \<and> counted_snapshot r) (rs_snaps s)))),
      s\<lparr>rs_cache := (rs_cache s)(SnapTotal p \<mapsto> sum_mb (map sn_size (filter (\<lambda>r. sn_ns r = p \<and> counted_snapshot r) (rs_snaps s))))\<rparr>)"
    "get_backups_size ns True s = (Inr (sum_mb (map bk_size (filter (\<lambda>r. bk_ns r = p \<and> counted_backup r) (rs_backups s)))),
      s\<lparr>rs_cache := (rs_cache s)(BackupTotal p \<mapsto> sum_mb (map bk_size (filter (\<lambda>r. bk_ns r = p \<and> counted_backup r) (rs_backups s))))\<rparr>)"
  using assms
  by (simp_all add: get_vms_size_def get_snapshots_size_def get_backups_size_def with_pk_def related_size_def
      some_size_def cache_set_def calculate_vms_size_def calculate_snapshots_size_def calculate_backups_size_def
      prog_defs of_dc_def split: sum.splits)

lemma rc_recalc_default:
  "rc_vms recalc_default" "rc_snapshots recalc_default" "rc_backups recalc_default"
  "rc_dc_vms recalc_default = []" "rc_dc_snapshots recalc_default = []" "rc_dc_backups recalc_default = []"
  by (simp_all add: recalc_default_def)

lemma ns_update_default:
  assumes "get_free_size recalc_default ns s = (Inr free, u)" "st_pk (ns_storage ns) = Some q"
  shows "ns_update_resources True recalc_default ns s =
    (Inr (ns\<lparr>ns_storage := (ns_storage ns)\<lparr>st_size_free := free\<rparr>\<rparr>),
     u\<lparr>rs_storages := (rs_storages u)(q \<mapsto> (ns_storage ns)\<lparr>st_size_free := free\<rparr>)\<rparr>)"
  by (simp add: ns_update_resources_def pbind_def pret_def assms rc_recalc_default storage_save_def)

text \<open>
  Accounting of a storage. When the free size of a node storage was computed anew, it is the
  total less the disks of the VMs on the node, the counted snapshots and backups in the database
  and the replicated snapshots; the three sums are then in the cache and the storage is saved. So
  a disk passes the check of the free space exactly when it fits into the total besides what is
  there.
\<close>

theorem free_size_accounting:
  assumes "ns_update_resources True rc ns s = (Inr ns', t)" "rc = recalc_default"
    "ns_pk ns = Some p" "st_pk (ns_storage ns) = Some q"
  shows "\<exists>v n b r. fst (calculate_vms_size ns None s) = Inr v
    \<and> n = sum_mb (map sn_size (filter (\<lambda>x. sn_ns x = p \<and> counted_snapshot x) (rs_snaps s)))
    \<and> b = sum_mb (map bk_size (filter (\<lambda>x. bk_ns x = p \<and> counted_backup x) (rs_backups s)))
    \<and> r = (case rs_cache s (RepSnapTotal p) of None \<Rightarrow> 0 | Some k \<Rightarrow> k)
    \<and> v + n + r + b + st_size_free (ns_storage ns') = size_total (ns_storage ns)
    \<and> (\<forall>d. check_free_space ns' d \<longleftrightarrow> v + n + r + b + d \<le> size_total (ns_storage ns))
    \<and> rs_storages t q = Some (ns_storage ns')
    \<and> rs_cache t = (rs_cache s)(VmsSizeTotal p \<mapsto> v, SnapTotal p \<mapsto> n, BackupTotal p \<mapsto> b)"
proof -
  let ?n = "sum_mb (map sn_size (filter (\<lambda>x. sn_ns x = p \<and> counted_snapshot x) (rs_snaps s)))"
  let ?b = "sum_mb (map bk_size (filter (\<lambda>x. bk_ns x = p \<and> counted_backup x) (rs_backups s)))"
  let ?r = "case rs_cache s (RepSnapTotal p) of None \<Rightarrow> 0 | Some k \<Rightarrow> k"
  obtain v where v: "fst (calculate_vms_size ns None s) = Inr v"
  proof (cases "fst (calculate_vms_size ns None s)")
    case (Inl e)
    then have "ns_update_resources True rc ns s = (Inl e, s)"
      by (simp add: ns_update_resources_def get_free_size_def pbind_def sizes_fresh(1) [OF assms(3)] rc_recalc_default assms(2))
    with assms(1) show ?thesis by simp
  qed
  have g: "get_free_size rc ns s = (Inr (size_total (ns_storage ns) - (v + ?n + ?r + ?b)),
      s\<lparr>rs_cache := (rs_cache s)(VmsSizeTotal p \<mapsto> v, SnapTotal p \<mapsto> ?n, BackupTotal p \<mapsto> ?b)\<rparr>)"
    by (simp add: get_free_size_def assms(2,3) rc_recalc_default sizes_fresh [OF assms(3)] v
        get_rep_snapshots_size_def prog_defs)
  have ns': "ns' = ns\<lparr>ns_storage := (ns_storage ns)\<lparr>st_size_free := size_total (ns_storage ns) - (v + ?n + ?r + ?b)\<rparr>\<rparr>"
    and t: "t = s\<lparr>rs_cache := (rs_cache s)(VmsSizeTotal p \<mapsto> v, SnapTotal p \<mapsto> ?n, BackupTotal p \<mapsto> ?b),
          rs_storages := (rs_storages s)(q \<mapsto> ns_storage ns')\<rparr>"
    using ns_update_default [OF g [unfolded assms(2)] assms(4), symmetric] assms(1) unfolding assms(2)
    by (auto simp del: fun_upd_apply)
  show ?thesis using v
    by (intro exI [of _ v] exI [of _ ?n] exI [of _ ?b] exI [of _ ?r]) (simp add: ns' t check_free_space_def, arith)
qed

definition demo_ns :: node_storage where
  "demo_ns = \<lparr>ns_pk = Some 7, ns_zpool = ''zones'', ns_node = ''n1'', ns_storage = demo_storage, ns_dcs = [1]\<rparr>"

definition demo_snapshot :: snapshot where
  "demo_snapshot = \<lparr>sn_id = 1, sn_vm = ''u'', sn_dc = 1, sn_disk_id = 0, sn_define = None, sn_name = ''s'', sn_type = 2,
     sn_status = Snapshot_OK, sn_ns = 7, sn_size = Some 5242880, sn_created = None\<rparr>"

definition demo_res_state :: res_state where
  "demo_res_state = \<lparr>rs_cache = (\<lambda>k. None), rs_vms = [], rs_snaps = [demo_snapshot], rs_backups = [],
     rs_images = (\<lambda>p. []), rs_nss = [demo_ns], rs_storages = (\<lambda>p. if p = 1 then Some demo_storage else None), rs_next_id = 100\<rparr>"

theorem free_size_accounting_witness:
  "\<exists>ns' t. ns_update_resources True recalc_default demo_ns demo_res_state = (Inr ns', t)
    \<and> st_size_free (ns_storage ns') = 23 \<and> \<not> check_free_space ns' 24"
proof -
  let ?f = "get_free_size recalc_default demo_ns demo_res_state"
  have "fst ?f = Inr 23" by code_simp
  then obtain u where "?f = (Inr 23, u)" by (cases ?f) auto
  then have "\<exists>ns' t. ns_update_resources True recalc_default demo_ns demo_res_state = (Inr ns', t)"
    using ns_update_default [of demo_ns demo_res_state 23 u 1] by (auto simp: demo_ns_def demo_storage_def)
  then obtain ns' t where e: "ns_update_resources True recalc_default demo_ns demo_res_state = (Inr ns', t)" by blast
  have "size_total demo_storage = 28" "fst (calculate_vms_size demo_ns None demo_res_state) = Inr 0"
    "sum_mb (map sn_size (filter (\<lambda>x. sn_ns x = 7 \<and> counted_snapshot x) (rs_snaps demo_res_state))) = 5"
    "sum_mb (map bk_size (filter (\<lambda>x. bk_ns x = 7 \<and> counted_backup x) (rs_backups demo_res_state))) = 0"
    by code_simp+
  then show ?thesis
    using free_size_accounting [OF e refl, of 7 1] e
    by (auto simp: demo_ns_def demo_storage_def demo_res_state_def check_free_space_def)
qed

text \<open>
  Names in the task log. The attributes by which the task log looks up a node storage from its
  name are its pool and the host name of its node.
\<close>

theorem ns_log_name_roundtrip:
  assumes "CHR ''@'' \<notin> set (ns_zpool ns)"
  shows "ns_get_log_name_lookup_kwargs (ns_name hostname ns) = [(''zpool'', ns_zpool ns), (''node__hostname'', hostname)]"
proof -
  have "split_on (CHR ''@'') (ns_name hostname ns) = ns_zpool ns # split_on (CHR ''@'') hostname"
    using split_on_append_sep [OF assms] by (simp add: ns_name_def)
  moreover obtain h hs where "split_on (CHR ''@'') hostname = h # hs" by (cases "split_on (CHR ''@'') hostname") auto
  ultimately show ?thesis
    using join_split_on [of "CHR ''@''" hostname] by (simp add: ns_get_log_name_lookup_kwargs_def)
qed

theorem ns_log_name_roundtrip_witness:
  "ns_get_log_name_lookup_kwargs (ns_name ''a@b'' demo_ns) = [(''zpool'', ''zones''), (''node__hostname'', ''a@b'')]"
  using ns_log_name_roundtrip [of demo_ns "''a@b''"] by (simp add: demo_ns_def)

text \<open>A storage without images has no size of images: the sum of no rows is \<open>None\<close>, which \<open>int\<close> refuses.\<close>

theorem images_size_of_no_images:
  assumes "ns_pk ns = Some p" "rs_images s p = []" "rs_cache s (ImageTotal p) = None"
  shows "\<exists>m. fst (get_images_size ns clear s) = Inl (Exn TypeError m)"
  using assms by (simp add: get_images_size_def with_pk_def related_size_def calculate_images_size_def db_sum_def
      cache_set_def prog_defs List.map_filter_def)

end
