(* ===== verification/Node_Info.thy ===== *)
theory Node_Info
  imports Storage Que_Control
begin

text \<open>
  The compute node object of \<^verbatim>\<open>vms/models/node.py\<close> and what it reads from the output of
  \<open>sysinfo\<close> that the node reports: network cards and addresses, overlays, capabilities, storage
  pools, the parsing of a new report and its comparison with the stored one, and the names of
  queues and workers.
\<close>

section \<open>The object\<close>

definition NODE_ZPOOL :: string where "NODE_ZPOOL = ''zones''"
definition DEFAULT_OVERLAY_PORT :: int where "DEFAULT_OVERLAY_PORT = 4789"
definition DEFAULT_OVERLAY_IP :: string where "DEFAULT_OVERLAY_IP = ''0.0.0.0''"
definition Node_OFFLINE :: int where "Node_OFFLINE = 1"
definition Node_ONLINE :: int where "Node_ONLINE = 2"
definition Node_UNREACHABLE :: int where "Node_UNREACHABLE = 3"
definition Node_UNLICENSED :: int where "Node_UNLICENSED = 9"

definition ESYSINFO :: "string list" where
  "ESYSINFO = [''sysinfo'', ''diskinfo'', ''zpools'', ''nictags'', ''overlay_rules'']"

definition SYSINFO_SHOWN :: "string list" where
  "SYSINFO_SHOWN = [''Boot Time'', ''Manufacturer'', ''Product'', ''Serial Number'', ''SKU Number'', ''HW Version'',
     ''HW Family'', ''Datacenter Name'', ''VM Capable'', ''CPU Type'', ''CPU Virtualization'', ''CPU Physical Cores'',
     ''Live Image'', ''Bhyve Capable'', ''Bhyve Max Vcpus'']"

text \<open>
  \<open>n_storage\<close> and \<open>n_ns\<close> are the objects kept in \<open>_storage\<close> and \<open>_ns\<close>; coefficients are kept
  in hundredths.
\<close>

record node =
  n_uuid :: string
  n_hostname :: string
  n_address :: string
  n_status :: int
  n_orig_status :: int
  n_owner :: int
  n_config :: pyval
  n_cpu :: int
  n_ram :: int
  n_cpu_coef :: int
  n_ram_coef :: int
  n_cpu_free :: int
  n_ram_free :: int
  n_is_compute :: bool
  n_is_backup :: bool
  n_is_head :: bool
  n_json :: pydict
  n_vlan_id :: "int option"
  n_storage :: "storage option"
  n_ns :: "node_storage option"

section \<open>Values of the report\<close>

text \<open>\<open>int(v)\<close>, \<open>x in v\<close> for a string \<open>x\<close> and \<open>s.partition('.')[2]\<close>.\<close>

definition py_int :: "pyval \<Rightarrow> int res" where
  "py_int v = (case v of VInt i \<Rightarrow> Inr i | VBool b \<Rightarrow> Inr (if b then 1 else 0) | VStr s \<Rightarrow> str_int s
     | _ \<Rightarrow> Inl (Exn TypeError ''int() argument must be a string or a number''))"

definition py_in :: "string \<Rightarrow> pyval \<Rightarrow> bool res" where
  "py_in x v = (case v of VList vs \<Rightarrow> Inr (list_ex (py_eq (VStr x)) vs) | VDict d \<Rightarrow> Inr (dhas d x)
     | VStr s \<Rightarrow> Inr (sublist x s) | _ \<Rightarrow> Inl (Exn TypeError ''argument is not iterable''))"

fun after_dot :: "string \<Rightarrow> string" where
  "after_dot [] = []"
| "after_dot (c # s) = (if c = CHR ''.'' then s else after_dot s)"

definition sysinfo_get :: "string \<Rightarrow> pyval \<Rightarrow> node \<Rightarrow> pyval res" where
  "sysinfo_get key dflt n = vget (dget (n_json n) ''sysinfo'' (VDict [])) key dflt"

definition platform_version :: "node \<Rightarrow> pyval res" where
  "platform_version n = sysinfo_get ''Live Image'' VNone n"

definition platform_version_short :: "node \<Rightarrow> int res" where
  "platform_version_short n = rbind (platform_version n) (\<lambda>v.
     if \<not> truthy v then Inr 0
     else (case v of VStr s \<Rightarrow> str_int (take 8 s) | _ \<Rightarrow> Inl (Exn TypeError ''not subscriptable'')))"

definition node_dc_name :: "node \<Rightarrow> pyval res" where "node_dc_name n = sysinfo_get ''Datacenter Name'' (VStr []) n"
definition domain_name :: "node \<Rightarrow> string" where "domain_name n = after_dot (n_hostname n)"
definition cpu_sockets :: "node \<Rightarrow> pyval res" where "cpu_sockets n = sysinfo_get ''CPU Physical Cores'' VNone n"

fun pick_items :: "string list \<Rightarrow> pyval \<Rightarrow> pyval \<Rightarrow> pydict res" where
  "pick_items [] v dflt = Inr []"
| "pick_items (k # ks) v dflt = rbind (vget v k dflt) (\<lambda>x. rbind (pick_items ks v dflt) (\<lambda>d. Inr ((k, x) # d)))"

definition sysinfo_shown :: "node \<Rightarrow> pydict res" where
  "sysinfo_shown n = pick_items SYSINFO_SHOWN (dget (n_json n) ''sysinfo'' (VDict [])) (VStr [])"

definition bhyve_capable :: "node \<Rightarrow> bool res" where
  "bhyve_capable n = rbind (sysinfo_get ''Bhyve Capable'' (VStr ''false'') n) (\<lambda>v. Inr (truthy v))"

definition bhyve_max_vcpus :: "node \<Rightarrow> int res" where
  "bhyve_max_vcpus n = rbind (sysinfo_get ''Bhyve Max Vcpus'' (VInt 1000) n) py_int"

definition diskinfo :: "node \<Rightarrow> pyval" where "diskinfo n = dget (n_json n) ''diskinfo'' (VDict [])"
definition zpools :: "node \<Rightarrow> pyval" where "zpools n = dget (n_json n) ''zpools'' (VDict [])"
definition boottime :: "node \<Rightarrow> int res" where "boottime n = rbind (sysinfo_get ''Boot Time'' (VInt 0) n) py_int"
definition network_interfaces :: "node \<Rightarrow> pyval res" where
  "network_interfaces n = sysinfo_get ''Network Interfaces'' (VDict []) n"
definition virtual_network_interfaces :: "node \<Rightarrow> pyval res" where
  "virtual_network_interfaces n = sysinfo_get ''Virtual Network Interfaces'' (VDict []) n"
definition network_aggregations :: "node \<Rightarrow> pyval res" where
  "network_aggregations n = sysinfo_get ''Link Aggregations'' (VDict []) n"
definition overlays :: "node \<Rightarrow> pyval res" where "overlays n = sysinfo_get ''Overlays'' (VDict []) n"
definition etherstubs :: "node \<Rightarrow> pyval res" where "etherstubs n = sysinfo_get ''Etherstubs'' (VDict []) n"
definition nictags :: "node \<Rightarrow> pyval" where "nictags n = dget (n_json n) ''nictags'' (VList [])"
definition overlay_rules :: "node \<Rightarrow> pyval" where "overlay_rules n = dget (n_json n) ''overlay_rules'' (VDict [])"

definition networking :: "node \<Rightarrow> pydict res" where
  "networking n = rbind (network_interfaces n) (\<lambda>a. rbind (virtual_network_interfaces n) (\<lambda>b.
     rbind (network_aggregations n) (\<lambda>c. rbind (overlays n) (\<lambda>d. rbind (etherstubs n) (\<lambda>e.
       Inr [(''Network Interfaces'', a), (''Virtual Network Interfaces'', b), (''Link Aggregations'', c),
            (''NIC Tags'', nictags n), (''Overlays'', d), (''Etherstubs'', e)])))))"

definition api_sysinfo :: "node \<Rightarrow> pydict res" where
  "api_sysinfo n = rbind (sysinfo_shown n) (\<lambda>s. rbind (networking n) (\<lambda>net.
     Inr (AList.update ''disks'' (diskinfo n) (AList.update ''zpools'' (zpools n)
       (AList.update ''networking'' (VDict net) s)))))"

definition node_zpool :: "node \<Rightarrow> string option res" where
  "node_zpool n = rbind (sysinfo_get ''Zpool'' VNone n) (\<lambda>v. case v of
      VNone \<Rightarrow> Inr None | VStr s \<Rightarrow> Inr (Some s) | _ \<Rightarrow> Inl (Exn TypeError ''zpool''))"

definition zpool_size :: "node \<Rightarrow> int res" where
  "zpool_size n = rbind (rbind (sysinfo_get ''Zpool Size in GiB'' (VInt 0) n) py_int) (\<lambda>i. Inr (i * 1024))"

section \<open>Network cards and addresses\<close>

fun with_ip :: "pydict \<Rightarrow> (string \<times> pyval) list res" where
  "with_ip [] = Inr []"
| "with_ip ((i, p) # d) = rbind (vget p ''ip4addr'' VNone) (\<lambda>a. rbind (with_ip d) (\<lambda>r.
     Inr (if truthy a then (i, p) # r else r)))"

definition used_nics :: "node \<Rightarrow> pydict res" where
  "used_nics n = rbind (network_interfaces n) (\<lambda>a. rbind (virtual_network_interfaces n) (\<lambda>b.
     case (a, b) of (VDict d, VDict e) \<Rightarrow> with_ip (dupdate d e) | _ \<Rightarrow> Inl (Exn AttributeError ''copy'')))"

fun map_res :: "('a \<Rightarrow> 'b res) \<Rightarrow> 'a list \<Rightarrow> 'b list res" where
  "map_res f [] = Inr []"
| "map_res f (x # xs) = rbind (f x) (\<lambda>y. rbind (map_res f xs) (\<lambda>ys. Inr (y # ys)))"

definition node_ips :: "node \<Rightarrow> pyval list res" where
  "node_ips n = rbind (used_nics n) (\<lambda>d. map_res (\<lambda>p. vitem p ''ip4addr'') (map snd d))"

definition get_node_ip_by_iface :: "string \<Rightarrow> pydict \<Rightarrow> pyval res" where
  "get_node_ip_by_iface iface nics = (case map_of nics iface of None \<Rightarrow> Inr VNone | Some p \<Rightarrow> vitem p ''ip4addr'')"

fun get_node_ip_by_nictag :: "string \<Rightarrow> pydict \<Rightarrow> pyval res" where
  "get_node_ip_by_nictag tag [] = Inr VNone"
| "get_node_ip_by_nictag tag ((i, nic) # nics) =
     rbind (vget nic ''NIC Names'' (VList [])) (\<lambda>names. rbind (py_in tag names) (\<lambda>b.
       if b then vitem nic ''ip4addr'' else get_node_ip_by_nictag tag nics))"

text \<open>\<open>a or b or ...\<close>: the first true value, else the last one.\<close>

fun first_true :: "pyval res list \<Rightarrow> pyval res" where
  "first_true [] = Inr VNone"
| "first_true [r] = r"
| "first_true (r # rs) = rbind r (\<lambda>v. if truthy v then Inr v else first_true rs)"

definition admin_candidates :: "pydict \<Rightarrow> pyval res list" where
  "admin_candidates nics = [get_node_ip_by_iface ''admin0'' nics, get_node_ip_by_iface ''admin_0'' nics,
     get_node_ip_by_nictag ''admin'' nics]"

definition address_admin :: "node \<Rightarrow> pyval res" where
  "address_admin n = rbind (used_nics n) (\<lambda>nics. first_true (admin_candidates nics))"

definition address_external :: "node \<Rightarrow> pyval res" where
  "address_external n = rbind (used_nics n) (\<lambda>nics. first_true
     ([get_node_ip_by_iface ''external0'' nics, get_node_ip_by_iface ''external_0'' nics,
       get_node_ip_by_nictag ''external'' nics] @ admin_candidates nics))"

definition get_overlay_port :: "string \<Rightarrow> node \<Rightarrow> pyval res" where
  "get_overlay_port name n = rbind (vitem (overlay_rules n) name) (\<lambda>rule. rbind (vitem rule ''port'') (\<lambda>p.
     Inr (if truthy p then p else VInt DEFAULT_OVERLAY_PORT)))"

definition get_overlay_ip :: "string \<Rightarrow> bool \<Rightarrow> node \<Rightarrow> pyval res" where
  "get_overlay_ip name remote n = rbind (vitem (overlay_rules n) name) (\<lambda>rule. rbind (vitem rule ''ip'') (\<lambda>ip.
     rbind (if \<not> truthy ip \<or> py_eq ip (VStr DEFAULT_OVERLAY_IP)
            then (if remote then address_external n else address_admin n) else Inr ip) (\<lambda>a.
     if truthy a then Inr a else Inl (Exn AssertionError (''IP address was not defined for overlay '' @ quoted name)))))"

section \<open>A new report\<close>

fun admin_vnic :: "string list \<Rightarrow> pyval \<Rightarrow> (pyval \<times> pyval) res" where
  "admin_vnic [] vnics = Inr (VNone, VNone)"
| "admin_vnic (name # names) vnics =
     rbind (vget vnics name (VDict [])) (\<lambda>iface. rbind (vget iface ''ip4addr'' VNone) (\<lambda>ip.
       if truthy ip \<or> names = [] then Inr (iface, ip) else admin_vnic names vnics))"

fun admin_nic :: "pydict \<Rightarrow> pyval \<times> pyval \<Rightarrow> (pyval \<times> pyval) res" where
  "admin_nic [] acc = Inr acc"
| "admin_nic ((i, info) # nics) acc =
     rbind (vget info ''NIC Names'' (VList [])) (\<lambda>names. rbind (py_in ''admin'' names) (\<lambda>b.
       if b then rbind (vget info ''ip4addr'' VNone) (\<lambda>ip. Inr (info, ip)) else admin_nic nics acc))"

definition init_address :: "node \<Rightarrow> node res" where
  "init_address n =
     rbind (sysinfo_get ''Virtual Network Interfaces'' (VDict []) n) (\<lambda>vnics.
     rbind (admin_vnic [''admin0'', ''admin_0''] vnics) (\<lambda>(iface, ip).
     rbind (if truthy ip then Inr (iface, ip)
            else rbind (vitem (dget (n_json n) ''sysinfo'' (VDict [])) ''Network Interfaces'') (\<lambda>v. case v of
                VDict nics \<Rightarrow> admin_nic nics (iface, ip) | _ \<Rightarrow> Inl (Exn AttributeError ''items''))) (\<lambda>(iface, ip).
     if \<not> truthy ip then Inl (Exn RuntimeError ''Node IP Address not found in sysinfo output'')
     else rbind (rbind (vget iface ''VLAN'' (VInt 0)) py_int) (\<lambda>vlan. case ip of
         VStr a \<Rightarrow> Inr (n\<lparr>n_vlan_id := Some vlan, n_address := a\<rparr>) | _ \<Rightarrow> Inl (Exn TypeError ''address'')))))"

definition vlan_id :: "node \<Rightarrow> int res" where
  "vlan_id n = (case n_vlan_id n of Some v \<Rightarrow> Inr v
     | None \<Rightarrow> Inl (Exn AssertionError ''vlan_id is available only during node initialization''))"

definition get_esysinfo :: "node \<Rightarrow> pydict" where
  "get_esysinfo n = map (\<lambda>i. (i, dget (n_json n) i (VDict []))) ESYSINFO"

fun copy_items :: "string list \<Rightarrow> pydict \<Rightarrow> pydict \<Rightarrow> pydict res" where
  "copy_items [] v d = Inr d"
| "copy_items (i # is) v d = rbind (ditem v i) (\<lambda>x. copy_items is v (AList.update i x d))"

definition set_esysinfo :: "pydict \<Rightarrow> node \<Rightarrow> node res" where
  "set_esysinfo v n = rbind (copy_items ESYSINFO v (n_json n)) (\<lambda>d. Inr (n\<lparr>n_json := d\<rparr>))"

definition node_sshkey :: "node \<Rightarrow> pyval" where "node_sshkey n = dget (n_json n) ''sshkey'' VNone"
definition set_node_sshkey :: "pyval \<Rightarrow> node \<Rightarrow> node" where
  "set_node_sshkey v n = n\<lparr>n_json := AList.update ''sshkey'' v (n_json n)\<rparr>"
definition authorized_keys :: "node \<Rightarrow> pyval" where "authorized_keys n = dget (n_json n) ''authorized_keys'' (VStr [])"
definition set_authorized_keys :: "pyval \<Rightarrow> node \<Rightarrow> node" where
  "set_authorized_keys v n = n\<lparr>n_json := AList.update ''authorized_keys'' v (n_json n)\<rparr>"

text \<open>\<open>parse_sysinfo\<close> takes \<open>config\<close> and \<open>sshkey\<close> out of the report that it is given.\<close>

definition parse_sysinfo :: "pydict \<Rightarrow> bool \<Rightarrow> node \<Rightarrow> node res" where
  "parse_sysinfo es update_ip n =
     (let n1 = n\<lparr>n_config := dget es ''config'' (VStr [])\<rparr>;
          es1 = AList.delete ''config'' es;
          n2 = set_node_sshkey (dget es1 ''sshkey'' (VStr [])) n1;
          es2 = AList.delete ''sshkey'' es1
      in rbind (set_esysinfo es2 n2) (\<lambda>n3.
         rbind (vitem (dget (n_json n3) ''sysinfo'' (VDict [])) ''Hostname'') (\<lambda>h. case h of
           VStr s \<Rightarrow> (let n4 = n3\<lparr>n_hostname := s\<rparr> in if update_ip then init_address n4 else Inr n4)
         | _ \<Rightarrow> Inl (Exn TypeError ''hostname''))))"

definition sysinfo_changed :: "pydict \<Rightarrow> node \<Rightarrow> bool" where
  "sysinfo_changed es n =
     (let config = dget es ''config'' (VStr []);
          new = AList.delete ''sshkey'' (AList.delete ''config'' es)
      in \<not> (py_eq (VDict (get_esysinfo n)) (VDict new) \<and> py_eq (n_config n) config))"

definition sshkey_changed :: "pydict \<Rightarrow> node \<Rightarrow> bool" where
  "sshkey_changed es n \<longleftrightarrow> \<not> py_eq (node_sshkey n) (dget es ''sshkey'' (VStr []))"

section \<open>NIC tags of all nodes\<close>

fun add_nictags :: "pyval list \<Rightarrow> (pyval \<times> string) list \<Rightarrow> (pyval \<times> string) list res" where
  "add_nictags [] tags = Inr tags"
| "add_nictags (nic # nics) tags =
     rbind (vitem nic ''name'') (\<lambda>name. rbind (vitem nic ''type'') (\<lambda>t. case t of
       VStr s \<Rightarrow>
         (let ty = replace_str s ''aggr'' ''normal''
          in if map_of tags name \<noteq> None \<and> map_of tags name \<noteq> Some ty
             then Inl (Exn ValueError ''Duplicate NIC tag name with different type exists on another compute node!'')
             else add_nictags nics (AList.update name ty tags))
     | _ \<Rightarrow> Inl (Exn AttributeError ''replace'')))"

fun collect_nictags :: "node list \<Rightarrow> (pyval \<times> string) list \<Rightarrow> (pyval \<times> string) list res" where
  "collect_nictags [] tags = Inr tags"
| "collect_nictags (n # ns) tags = (case nictags n of
      VList nics \<Rightarrow> rbind (add_nictags nics tags) (collect_nictags ns)
    | _ \<Rightarrow> Inl (Exn TypeError ''not iterable''))"

text \<open>The cached dictionary is used unless it is missing or empty.\<close>

definition all_nictags :: "bool \<Rightarrow> (pyval \<times> string) list option \<Rightarrow> node list \<Rightarrow>
    (pyval \<times> string) list res \<times> (pyval \<times> string) list option" where
  "all_nictags clear cached nodes =
     (let c = (if clear then None else cached)
      in case c of
           Some (t # ts) \<Rightarrow> (Inr (t # ts), c)
         | _ \<Rightarrow> (case collect_nictags nodes [] of
               Inl e \<Rightarrow> (Inl e, c) | Inr tags \<Rightarrow> (Inr tags, Some tags)))"

section \<open>Names\<close>

definition get_queue :: "string \<Rightarrow> node \<Rightarrow> string" where "get_queue speed n = speed @ ''.'' @ n_hostname n"
definition all_queues :: "node \<Rightarrow> string list" where
  "all_queues n = map (\<lambda>s. get_queue s n) [''fast'', ''slow'', ''image'', ''backup'']"
definition fast_queue :: "node \<Rightarrow> string" where "fast_queue n = get_queue ''fast'' n"
definition slow_queue :: "node \<Rightarrow> string res" where
  "slow_queue n = (if n_is_compute n then Inr (get_queue ''slow'' n)
     else Inl (Exn AssertionError ''Node compute capability disabled''))"
definition backup_queue :: "node \<Rightarrow> string res" where
  "backup_queue n = (if n_is_backup n then Inr (get_queue ''backup'' n)
     else Inl (Exn AssertionError ''Node backup capability disabled''))"
definition image_queue :: "node \<Rightarrow> string" where "image_queue n = get_queue ''image'' n"
definition node_worker :: "string \<Rightarrow> node \<Rightarrow> string" where
  "node_worker queue n = replace_first (CHR ''.'') (CHR ''@'') (get_queue queue n)"
definition node_color :: "node \<Rightarrow> string" where "node_color n = CHR ''#'' # drop 30 (n_uuid n)"
definition node_vendor :: "node \<Rightarrow> string res" where
  "node_vendor n = rbind (sysinfo_get ''Manufacturer'' (VStr []) n) (\<lambda>v. case v of
      VStr s \<Rightarrow> Inr (replace_str s '' Inc.'' []) | _ \<Rightarrow> Inl (Exn AttributeError ''replace''))"
definition initializing_key :: "node \<Rightarrow> string" where
  "initializing_key n = ''node:'' @ n_uuid n @ '':initializing''"
definition system_version_key :: "node \<Rightarrow> string" where
  "system_version_key n = ''node:'' @ n_uuid n @ '':system-version''"

definition node_model :: "node \<Rightarrow> string res" where
  "node_model n = rbind (sysinfo_get ''Product'' (VStr []) n) (\<lambda>p. rbind (sysinfo_get ''Manufacturer'' VNone n) (\<lambda>m.
     case p of
       VStr s \<Rightarrow> Inr (strip (replace_str
         (if py_eq m (VStr ''IBM'') then replace_str (hd (split_on (CHR ''-'') s)) ''IBM'' [] else s) ''Server'' []))
     | _ \<Rightarrow> Inl (Exn AttributeError ''replace'')))"

text \<open>\<open>system_version\<close> asks the worker of the node and keeps an answer that is not empty.\<close>

definition system_version :: "(string \<Rightarrow> string option) \<Rightarrow> string option \<Rightarrow> node \<Rightarrow> string \<times> string option" where
  "system_version ask cached n = (case cached of
      Some (c # v) \<Rightarrow> (c # v, cached)
    | _ \<Rightarrow> (case ask (node_worker ''fast'' n) of
          Some (c # v) \<Rightarrow> (c # v, Some (c # v)) | _ \<Rightarrow> ([], cached)))"

section \<open>Items of the node\<close>

definition zabbix_info :: "node \<Rightarrow> pyval" where "zabbix_info n = dget (n_json n) ''zabbix'' (VDict [])"
definition set_zabbix_info :: "pyval \<Rightarrow> node \<Rightarrow> node" where
  "set_zabbix_info v n = n\<lparr>n_json := AList.update ''zabbix'' v (n_json n)\<rparr>"
definition node_internal_metadata :: "node \<Rightarrow> pyval" where
  "node_internal_metadata n = dget (n_json n) ''internal_metadata'' (VDict [])"
definition node_save_metadata :: "string \<Rightarrow> pyval \<Rightarrow> node \<Rightarrow> node res" where
  "node_save_metadata key v n =
     rbind (in_metadata ''internal_metadata'' (AList.update key v) (n_json n)) (\<lambda>d. Inr (n\<lparr>n_json := d\<rparr>))"
definition node_monitoring_hostgroups :: "node \<Rightarrow> pyval res" where
  "node_monitoring_hostgroups n = vget (node_internal_metadata n) ''mon_hostgroups'' (VList [])"
definition set_node_monitoring_hostgroups :: "pyval \<Rightarrow> node \<Rightarrow> node res" where
  "set_node_monitoring_hostgroups v n = node_save_metadata ''mon_hostgroups'' v n"
definition node_monitoring_templates :: "node \<Rightarrow> pyval res" where
  "node_monitoring_templates n = vget (node_internal_metadata n) ''mon_templates'' (VList [])"
definition set_node_monitoring_templates :: "pyval \<Rightarrow> node \<Rightarrow> node res" where
  "set_node_monitoring_templates v n = node_save_metadata ''mon_templates'' v n"

definition is_online :: "node \<Rightarrow> bool" where "is_online n \<longleftrightarrow> n_status n = Node_ONLINE"
definition is_offline :: "node \<Rightarrow> bool" where "is_offline n \<longleftrightarrow> n_status n = Node_OFFLINE"
definition is_unreachable :: "node \<Rightarrow> bool" where "is_unreachable n \<longleftrightarrow> n_status n = Node_UNREACHABLE"
definition is_unlicensed :: "node \<Rightarrow> bool" where "is_unlicensed n \<longleftrightarrow> n_status n = Node_UNLICENSED"

definition cpu_total :: "node \<Rightarrow> int" where "cpu_total n = scaled_total (n_cpu n) (n_cpu_coef n)"
definition ram_total :: "node \<Rightarrow> int" where "ram_total n = scaled_total (n_ram n) (n_ram_coef n)"
definition node_ram_kvm_overhead :: "node \<Rightarrow> pyval" where "node_ram_kvm_overhead n = dget (n_json n) ''ram_kvm_overhead'' (VInt 0)"
definition set_node_ram_kvm_overhead :: "int \<Rightarrow> node \<Rightarrow> node" where
  "set_node_ram_kvm_overhead v n = n\<lparr>n_json := AList.update ''ram_kvm_overhead'' (VInt v) (n_json n)\<rparr>"

text \<open>The address record of a node is created in the first administrative network that contains it.\<close>

definition create_ip_address :: "(string \<Rightarrow> 'net \<Rightarrow> bool) \<Rightarrow> 'net list \<Rightarrow> node \<Rightarrow> 'net res" where
  "create_ip_address inside nets n = (case find (inside (n_address n)) nets of
      Some net \<Rightarrow> Inr net
    | None \<Rightarrow> Inl (Exn ObjectDoesNotExist (''IP address '' @ quoted (n_address n) @ '' does not belong to any admin network'')))"

section \<open>A stored report is not a change\<close>

lemma copy_items_get:
  assumes "copy_items ks v d = Inr e" "distinct ks"
  shows "map_of e k = (if k \<in> set ks then map_of v k else map_of d k)" "k \<in> set ks \<Longrightarrow> map_of v k \<noteq> None"
  using assms by (induction ks arbitrary: d) (auto simp: rbind_Inr_iff ditem_def dict_simps split: option.splits if_splits)

lemma case_VStr_Inr_iff:
  "(case v of VNone \<Rightarrow> Inl e | VBool b \<Rightarrow> Inl e | VInt i \<Rightarrow> Inl e | VStr s \<Rightarrow> f s | VList xs \<Rightarrow> Inl e | VDict d \<Rightarrow> Inl e)
     = Inr y \<longleftrightarrow> (\<exists>s. v = VStr s \<and> f s = Inr y)"
  by (cases v) auto

lemma init_address_frame: "init_address n = Inr m \<Longrightarrow> \<exists>v a. m = n\<lparr>n_vlan_id := v, n_address := a\<rparr>"
  unfolding init_address_def
  by (auto simp: rbind_Inr_iff case_VStr_Inr_iff split: prod.splits if_splits simp del: admin_vnic.simps)

lemma ESYSINFO_facts: "distinct ESYSINFO" "''sshkey'' \<notin> set ESYSINFO" "''config'' \<notin> set ESYSINFO"
  by (simp_all add: ESYSINFO_def)

lemma parse_sysinfo_stored:
  assumes "parse_sysinfo es u n = Inr m"
  shows "n_config m = dget es ''config'' (VStr [])" "node_sshkey m = dget es ''sshkey'' (VStr [])"
    "k \<in> set ESYSINFO \<Longrightarrow> map_of (n_json m) k = map_of es k \<and> map_of es k \<noteq> None"
proof -
  let ?es = "AList.delete ''sshkey'' (AList.delete ''config'' es)"
  let ?n = "set_node_sshkey (dget (AList.delete ''config'' es) ''sshkey'' (VStr [])) (n\<lparr>n_config := dget es ''config'' (VStr [])\<rparr>)"
  obtain n3 h where n3: "set_esysinfo ?es ?n = Inr n3"
      "(if u then init_address (n3\<lparr>n_hostname := h\<rparr>) else Inr (n3\<lparr>n_hostname := h\<rparr>)) = Inr m"
    using assms unfolding parse_sysinfo_def Let_def
    by (auto simp: rbind_Inr_iff case_VStr_Inr_iff split del: if_split)
  have m: "n_json m = n_json n3 \<and> n_config m = n_config n3"
    using n3(2) init_address_frame [of "n3\<lparr>n_hostname := h\<rparr>" m] by (auto split: if_splits)
  obtain e where e: "copy_items ESYSINFO ?es (n_json ?n) = Inr e" "n3 = ?n\<lparr>n_json := e\<rparr>"
    using n3(1) by (auto simp: set_esysinfo_def rbind_Inr_iff)
  note g = copy_items_get [OF e(1) ESYSINFO_facts(1)]
  show "n_config m = dget es ''config'' (VStr [])" using m e(2) by (simp add: set_node_sshkey_def)
  show "node_sshkey m = dget es ''sshkey'' (VStr [])"
    using m e(2) g(1) [of "''sshkey''"] ESYSINFO_facts(2)
    by (simp add: node_sshkey_def set_node_sshkey_def dget_def dict_simps)
  show "map_of (n_json m) k = map_of es k \<and> map_of es k \<noteq> None" if k: "k \<in> set ESYSINFO"
  proof -
    have "k \<noteq> ''sshkey''" "k \<noteq> ''config''" using k ESYSINFO_facts by blast+
    then show ?thesis using m e(2) g [of k] k by (simp add: dict_simps)
  qed
qed

lemma py_eq_dict_iff: "py_eq (VDict d) (VDict e) \<longleftrightarrow> length d = length e \<and>
    list_all (\<lambda>(k, v). case map_of e k of None \<Rightarrow> False | Some x \<Rightarrow> py_eq v x) d"
  by simp

lemma map_of_get_esysinfo: "k \<in> set ESYSINFO \<Longrightarrow> map_of (get_esysinfo n) k = Some (dget (n_json n) k (VDict []))"
  by (auto simp: get_esysinfo_def map_of_map_restrict)

text \<open>
  Reports of a node. After a report with nothing but the known items was parsed, the same
  report is neither a change of the system information nor of the SSH key, so that it is not
  processed again; and a report that counts as unchanged agrees with the parsed one on each of
  the five items.
\<close>

theorem parsed_report_unchanged:
  assumes "parse_sysinfo es u n = Inr m" "wf_val (VDict es)"
    "fst ` set es \<subseteq> insert ''config'' (insert ''sshkey'' (set ESYSINFO))"
  shows "\<not> sysinfo_changed es m \<and> \<not> sshkey_changed es m
    \<and> (\<forall>es'. \<not> sysinfo_changed es' m \<longrightarrow> list_all (\<lambda>k. case (map_of es k, map_of es' k) of
          (Some v, Some w) \<Rightarrow> py_eq v w | _ \<Rightarrow> False) ESYSINFO)"
proof -
  let ?es = "AList.delete ''sshkey'' (AList.delete ''config'' es)"
  note s = parse_sysinfo_stored [OF assms(1)]
  have d: "distinct (map fst es)" using assms(2) by simp
  have wf: "wf_val v" if "map_of es k = Some v" for k v using wf_val_item [OF assms(2) that] .
  have keys: "fst ` set ?es = set ESYSINFO"
  proof -
    have "fst ` set ?es = fst ` set es - {''config'', ''sshkey''}"
      unfolding dom_map_of_conv_image_fst [symmetric] by (auto simp: dict_simps)
    moreover have "set ESYSINFO \<subseteq> fst ` set es" using s(3) by (metis map_of_eq_None_iff subsetI)
    ultimately show ?thesis using assms(3) ESYSINFO_facts by auto
  qed
  have len: "length ?es = length (get_esysinfo m)"
  proof -
    have "distinct (map fst ?es)" using d by (simp add: distinct_delete)
    then have "length ?es = card (set ESYSINFO)" using keys distinct_card [of "map fst ?es"] by simp
    then show ?thesis using distinct_card [OF ESYSINFO_facts(1)] by (simp add: get_esysinfo_def)
  qed
  have get: "dget (n_json m) k (VDict []) = the (map_of es k)" if "k \<in> set ESYSINFO" for k
    using s(3) [OF that] by (auto simp: dget_def)
  have mo: "map_of ?es k = map_of es k" if "k \<in> set ESYSINFO" for k
    using that ESYSINFO_facts(2,3) by (auto simp: dict_simps)
  have "list_all (\<lambda>(k, v). case map_of ?es k of None \<Rightarrow> False | Some x \<Rightarrow> py_eq v x) (get_esysinfo m)"
    using s(3) mo get wf by (fastforce simp: get_esysinfo_def list_all_iff py_eq_refl)
  with len have "py_eq (VDict (get_esysinfo m)) (VDict ?es)" by simp
  moreover have "py_eq (n_config m) (dget es ''config'' (VStr []))"
    unfolding s(1) by (rule py_eq_refl) (auto simp: dget_def wf split: option.splits)
  moreover have "py_eq (node_sshkey m) (dget es ''sshkey'' (VStr []))"
    unfolding s(2) by (rule py_eq_refl) (auto simp: dget_def wf split: option.splits)
  moreover have "list_all (\<lambda>k. case (map_of es k, map_of es' k) of
      (Some v, Some w) \<Rightarrow> py_eq v w | _ \<Rightarrow> False) ESYSINFO" if un: "\<not> sysinfo_changed es' m" for es'
  proof -
    have "list_all (\<lambda>(k, v). case map_of (AList.delete ''sshkey'' (AList.delete ''config'' es')) k of
        None \<Rightarrow> False | Some x \<Rightarrow> py_eq v x) (get_esysinfo m)"
      using un by (simp add: sysinfo_changed_def Let_def)
    then have "case map_of (AList.delete ''sshkey'' (AList.delete ''config'' es')) k of
        None \<Rightarrow> False | Some x \<Rightarrow> py_eq (dget (n_json m) k (VDict [])) x" if "k \<in> set ESYSINFO" for k
      using that by (fastforce simp: get_esysinfo_def list_all_iff)
    moreover have "k \<noteq> ''sshkey''" "k \<noteq> ''config''" if "k \<in> set ESYSINFO" for k using that ESYSINFO_facts by blast+
    ultimately have "case (map_of es k, map_of es' k) of (Some v, Some w) \<Rightarrow> py_eq v w | _ \<Rightarrow> False" if "k \<in> set ESYSINFO" for k
      using that s(3) [OF that] get [OF that] by (fastforce simp: dict_simps split: option.splits)
    then show ?thesis unfolding list_all_iff by blast
  qed
  ultimately show ?thesis by (auto simp: sysinfo_changed_def sshkey_changed_def Let_def simp del: py_eq.simps)
qed

definition demo_report :: pydict where
  "demo_report = [(''sysinfo'', VDict [(''Hostname'', VStr ''node1''), (''Zpool'', VStr ''zones''), (''Zpool Size in GiB'', VStr ''2''),
       (''CPU Total Cores'', VStr ''8''), (''MiB of Memory'', VStr ''4096''),
       (''Network Interfaces'', VDict [(''ix0'', VDict [(''ip4addr'', VStr ''10.0.0.5''), (''NIC Names'', VList [VStr ''admin''])])])]),
     (''diskinfo'', VDict []), (''zpools'', VDict []), (''nictags'', VList []), (''overlay_rules'', VDict []),
     (''config'', VStr ''c''), (''sshkey'', VStr ''k'')]"

definition demo_node :: node where
  "demo_node = \<lparr>n_uuid = ''n1'', n_hostname = [], n_address = [], n_status = Node_ONLINE, n_orig_status = Node_ONLINE,
     n_owner = 1, n_config = VStr [], n_cpu = 8, n_ram = 4096, n_cpu_coef = 100, n_ram_coef = 100, n_cpu_free = 0, n_ram_free = 0,
     n_is_compute = True, n_is_backup = False, n_is_head = False, n_json = [], n_vlan_id = None, n_storage = None, n_ns = None\<rparr>"

theorem parsed_report_unchanged_witness:
  "\<exists>m. parse_sysinfo demo_report True demo_node = Inr m \<and> n_address m = ''10.0.0.5'' \<and> \<not> sysinfo_changed demo_report m"
proof -
  have "case parse_sysinfo demo_report True demo_node of Inr m \<Rightarrow> n_address m = ''10.0.0.5'' | Inl _ \<Rightarrow> False" by code_simp
  then obtain m where m: "parse_sysinfo demo_report True demo_node = Inr m" "n_address m = ''10.0.0.5''"
    by (auto split: sum.splits)
  have "wf_val (VDict demo_report)" "fst ` set demo_report \<subseteq> insert ''config'' (insert ''sshkey'' (set ESYSINFO))"
    by code_simp+
  with parsed_report_unchanged [OF m(1)] m show ?thesis by blast
qed

section \<open>NIC tags agree\<close>

definition nic_tag :: "pyval \<Rightarrow> pyval \<Rightarrow> string \<Rightarrow> bool" where
  "nic_tag nic name ty \<longleftrightarrow> vitem nic ''name'' = Inr name
     \<and> (\<exists>s. vitem nic ''type'' = Inr (VStr s) \<and> ty = replace_str s ''aggr'' ''normal'')"

definition node_nics :: "node \<Rightarrow> pyval list" where
  "node_nics n = (case nictags n of VList nics \<Rightarrow> nics | _ \<Rightarrow> [])"

lemma add_nictags_ok:
  assumes "add_nictags nics tags = Inr out"
  shows "map_of tags \<subseteq>\<^sub>m map_of out \<and> (\<forall>nic \<in> set nics. \<exists>name ty. nic_tag nic name ty \<and> map_of out name = Some ty)
    \<and> (\<forall>name ty. map_of out name = Some ty \<longrightarrow> map_of tags name = Some ty \<or> (\<exists>nic \<in> set nics. nic_tag nic name ty))"
  using assms
proof (induction nics arbitrary: tags)
  case Nil
  then show ?case by simp
next
  case (Cons nic nics)
  obtain name s where n: "vitem nic ''name'' = Inr name" "vitem nic ''type'' = Inr (VStr s)"
    using Cons.prems by (auto simp: rbind_Inr_iff case_VStr_Inr_iff)
  define ty where "ty = replace_str s ''aggr'' ''normal''"
  have ok: "map_of tags name = None \<or> map_of tags name = Some ty" and
    rest: "add_nictags nics (AList.update name ty tags) = Inr out"
    using Cons.prems n by (auto simp: Let_def ty_def split: if_splits)
  note ih = Cons.IH [OF rest]
  have up: "map_of tags \<subseteq>\<^sub>m (map_of tags)(name \<mapsto> ty)" using ok by (auto simp: map_le_def)
  have "map_of tags \<subseteq>\<^sub>m map_of out" using ih up by (metis map_le_trans map_of_update)
  moreover have tag: "nic_tag nic name ty" using n by (auto simp: nic_tag_def ty_def)
  moreover have "map_of out name = Some ty" using ih by (auto simp: map_le_def dict_simps dest!: bspec [of _ _ name])
  moreover have "map_of out k = Some t \<Longrightarrow> map_of tags k = Some t \<or> (\<exists>nic' \<in> set (nic # nics). nic_tag nic' k t)" for k t
  proof -
    assume o: "map_of out k = Some t"
    then consider "map_of (AList.update name ty tags) k = Some t" | "\<exists>nic' \<in> set nics. nic_tag nic' k t" using ih by blast
    then show ?thesis using tag by cases (auto simp: dict_simps split: if_splits)
  qed
  ultimately show ?case using ih by auto
qed

lemma collect_nictags_ok:
  assumes "collect_nictags ns tags = Inr out"
  shows "map_of tags \<subseteq>\<^sub>m map_of out
    \<and> (\<forall>n \<in> set ns. \<forall>nic \<in> set (node_nics n). \<exists>name ty. nic_tag nic name ty \<and> map_of out name = Some ty)
    \<and> (\<forall>name ty. map_of out name = Some ty \<longrightarrow> map_of tags name = Some ty
         \<or> (\<exists>n \<in> set ns. \<exists>nic \<in> set (node_nics n). nic_tag nic name ty))"
  using assms
proof (induction ns arbitrary: tags)
  case Nil
  then show ?case by simp
next
  case (Cons n ns)
  obtain nics mid where "nictags n = VList nics" and a: "add_nictags nics tags = Inr mid" and r: "collect_nictags ns mid = Inr out"
    using Cons.prems by (auto simp: rbind_Inr_iff split: pyval.splits)
  then have nn: "node_nics n = nics" by (simp add: node_nics_def)
  note ih = Cons.IH [OF r] and ad = add_nictags_ok [OF a]
  have "map_of tags \<subseteq>\<^sub>m map_of out" using ih ad map_le_trans by blast
  moreover have "\<exists>name ty. nic_tag nic name ty \<and> map_of out name = Some ty" if "nic \<in> set nics" for nic
    using ih ad that by (metis domI map_le_def)
  moreover have "map_of out k = Some t \<Longrightarrow> map_of tags k = Some t \<or> (\<exists>n' \<in> set (n # ns). \<exists>nic \<in> set (node_nics n'). nic_tag nic k t)" for k t
    using ih ad nn by (metis list.set_intros)
  ultimately show ?case using ih nn by auto
qed

text \<open>
  NIC tags of all nodes. When they are collected without an error, every network card of every
  node has the type under its tag that the dictionary holds (aggregations counting as normal), so
  no two nodes disagree on the type of a tag, the dictionary holds no other tag, and it is what a
  later call finds in the cache.
\<close>

theorem nictags_agree:
  assumes "all_nictags True cached nodes = (Inr tags, cached')" "tags \<noteq> []"
  shows "(\<forall>n \<in> set nodes. \<forall>nic \<in> set (node_nics n). \<exists>name ty. nic_tag nic name ty \<and> map_of tags name = Some ty)
    \<and> (\<forall>name ty. map_of tags name = Some ty \<longrightarrow> (\<exists>n \<in> set nodes. \<exists>nic \<in> set (node_nics n). nic_tag nic name ty))
    \<and> (\<forall>n \<in> set nodes. \<forall>m \<in> set nodes. \<forall>nic \<in> set (node_nics n). \<forall>nic' \<in> set (node_nics m). \<forall>name t t'.
         nic_tag nic name t \<and> nic_tag nic' name t' \<longrightarrow> t = t')
    \<and> all_nictags False cached' nodes' = (Inr tags, cached')"
proof -
  have c: "collect_nictags nodes [] = Inr tags" "cached' = Some tags"
    using assms(1) by (auto simp: all_nictags_def split: sum.splits)
  note ok = collect_nictags_ok [OF c(1)]
  have "nic_tag nic name t \<Longrightarrow> nic_tag nic name' t' \<Longrightarrow> name = name' \<and> t = t'" for nic name name' t t'
    by (auto simp: nic_tag_def)
  then have *: "map_of tags name = Some t" if "n \<in> set nodes" "nic \<in> set (node_nics n)" "nic_tag nic name t" for n nic name t
    using ok that by metis
  have "t = t'" if "n \<in> set nodes" "nic \<in> set (node_nics n)" "nic_tag nic name t"
      "m \<in> set nodes" "nic' \<in> set (node_nics m)" "nic_tag nic' name t'" for n m nic nic' name t t'
    using * [OF that(1-3)] * [OF that(4-6)] by simp
  moreover have "all_nictags False cached' nodes' = (Inr tags, cached')"
    using assms(2) c(2) by (cases tags) (simp_all add: all_nictags_def)
  ultimately show ?thesis using ok by auto
qed

definition demo_tagged :: "string \<Rightarrow> node" where
  "demo_tagged ty = demo_node\<lparr>n_json := [(''nictags'', VList [VDict [(''name'', VStr ''admin''), (''type'', VStr ty)]])]\<rparr>"

theorem nictags_agree_witness:
  "all_nictags True None [demo_tagged ''aggr'', demo_tagged ''normal'']
     = (Inr [(VStr ''admin'', ''normal'')], Some [(VStr ''admin'', ''normal'')])
   \<and> all_nictags False (Some [(VStr ''admin'', ''normal'')]) [] = (Inr [(VStr ''admin'', ''normal'')], Some [(VStr ''admin'', ''normal'')])
   \<and> fst (all_nictags True None [demo_tagged ''aggr'', demo_tagged ''etherstub''])
       = Inl (Exn ValueError ''Duplicate NIC tag name with different type exists on another compute node!'')"
proof -
  have e: "all_nictags True None [demo_tagged ''aggr'', demo_tagged ''normal'']
     = (Inr [(VStr ''admin'', ''normal'')], Some [(VStr ''admin'', ''normal'')])" by code_simp
  have "fst (all_nictags True None [demo_tagged ''aggr'', demo_tagged ''etherstub''])
       = Inl (Exn ValueError ''Duplicate NIC tag name with different type exists on another compute node!'')" by code_simp
  with e nictags_agree [OF e, of "[]"] show ?thesis by blast
qed

section \<open>Addresses of overlays\<close>

lemma first_true_truthy:
  assumes "first_true (as @ bs) = Inr x" "first_true bs = Inr a" "truthy a"
  shows "truthy x"
  using assms
proof (induction as)
  case Nil
  then show ?case by simp
next
  case (Cons r rs)
  have "bs \<noteq> []" using Cons.prems(2,3) by (auto simp: truthy_def)
  then obtain b cs where "rs @ bs = b # cs" by (cases "rs @ bs") auto
  then show ?case using Cons by (auto simp: rbind_Inr_iff split: if_splits)
qed

text \<open>
  Addresses of overlays. On a node with an administrative address every overlay has an address:
  the one of its rule unless that is missing or 0.0.0.0, else the external address of the node for
  a remote peer and the administrative one otherwise; the external address always exists then.
\<close>

theorem overlay_has_address:
  assumes "address_admin n = Inr a" "truthy a" "address_external n = Inr x"
    "vitem (overlay_rules n) name = Inr rule" "vitem rule ''ip'' = Inr ip"
  shows "get_overlay_ip name remote n = Inr (if truthy ip \<and> \<not> py_eq ip (VStr DEFAULT_OVERLAY_IP) then ip
      else if remote then x else a) \<and> truthy x"
proof -
  obtain nics where u: "used_nics n = Inr nics" using assms(1) by (auto simp: address_admin_def rbind_Inr_iff)
  have "truthy x"
    by (rule first_true_truthy [OF _ _ assms(2)], rule assms(3) [unfolded address_external_def u rbind_simps],
        rule assms(1) [unfolded address_admin_def u rbind_simps])
  then show ?thesis using assms by (auto simp: get_overlay_ip_def)
qed

definition demo_overlay_node :: node where
  "demo_overlay_node = demo_node\<lparr>n_json := [(''sysinfo'', VDict [(''Network Interfaces'', VDict
      [(''admin0'', VDict [(''ip4addr'', VStr ''10.0.0.5'')])])]),
     (''overlay_rules'', VDict [(''ov'', VDict [(''ip'', VStr ''0.0.0.0''), (''port'', VInt 0)])])]\<rparr>"

theorem overlay_has_address_witness:
  "get_overlay_ip ''ov'' True demo_overlay_node = Inr (VStr ''10.0.0.5'')
    \<and> get_overlay_port ''ov'' demo_overlay_node = Inr (VInt 4789)"
proof -
  have "address_admin demo_overlay_node = Inr (VStr ''10.0.0.5'')" "address_external demo_overlay_node = Inr (VStr ''10.0.0.5'')"
    "vitem (overlay_rules demo_overlay_node) ''ov'' = Inr (VDict [(''ip'', VStr ''0.0.0.0''), (''port'', VInt 0)])"
    "vitem (VDict [(''ip'', VStr ''0.0.0.0''), (''port'', VInt 0)]) ''ip'' = Inr (VStr ''0.0.0.0'')"
    "get_overlay_port ''ov'' demo_overlay_node = Inr (VInt 4789)"
    by code_simp+
  with overlay_has_address [of demo_overlay_node "VStr ''10.0.0.5''" "VStr ''10.0.0.5''" "''ov''"] show ?thesis
    by (simp add: truthy_def DEFAULT_OVERLAY_IP_def)
qed

section \<open>Queues and workers\<close>

lemma replace_first_append: "a \<notin> set s \<Longrightarrow> replace_first a b (s @ a # t) = s @ b # t"
  by (induction s) auto

text \<open>The worker of a queue of a node is the one that the queue control asks for this queue.\<close>

lemma node_worker_queue:
  assumes "CHR ''.'' \<notin> set speed" "get_queue speed n \<noteq> Q_MGMT"
  shows "node_worker speed n = speed @ ''@'' @ n_hostname n"
    and "queue_to_hostnames (get_queue speed n) = [node_worker speed n]"
  using replace_first_append [OF assms(1)] assms(2) by (simp_all add: node_worker_def get_queue_def queue_to_hostnames_def)

end
