(* ===== verification/Dc_Node.thy ===== *)
theory Dc_Node
  imports Node_Info "HOL-Library.List_Lexorder"
begin

text \<open>
  Resources of compute nodes and their division among datacenters, the rest of
  \<^verbatim>\<open>vms/models/node.py\<close> with \<open>NodeStorage.save\<close>: the resources that VMs leave free on a node, the
  three strategies by which a datacenter shares a node, the choice of a node for a new VM and the
  saving of a node that was read from a report.
\<close>

section \<open>State\<close>

definition Strategy_SHARED :: int where "Strategy_SHARED = 1"
definition Strategy_SHARED_LIMIT :: int where "Strategy_SHARED_LIMIT = 2"
definition Strategy_RESERVED :: int where "Strategy_RESERVED = 3"
definition DcNode_PRIORITY :: int where "DcNode_PRIORITY = 100"
definition ACCESS_PUBLIC :: int where "ACCESS_PUBLIC = 1"

lemmas strategy_defs = Strategy_SHARED_def Strategy_SHARED_LIMIT_def Strategy_RESERVED_def

record dc_node =
  dn_pk :: "int option"
  dn_dc :: int
  dn_node :: string
  dn_priority :: int
  dn_cpu :: int
  dn_ram :: int
  dn_disk :: int
  dn_cpu_free :: int
  dn_ram_free :: int
  dn_disk_free :: int
  dn_strategy :: int
  dn_json :: pydict

text \<open>The lists of all nodes and of all NIC tags are cached too.\<close>

record node_state = res_state +
  rs_nodes :: "node list"
  rs_dcnodes :: "dc_node list"
  rs_all_nodes :: "string list option"
  rs_nictags :: "(pyval \<times> string) list option"

type_synonym 'a nprog = "(node_state, 'a) prog"

section \<open>The local storage of a node\<close>

definition new_local_storage :: "string \<Rightarrow> int \<Rightarrow> node \<Rightarrow> storage" where
  "new_local_storage pool zsize n = \<lparr>st_pk = None, st_name = take 64 (pool @ ''@'' @ n_hostname n), st_alias = pool,
     st_owner = n_owner n, st_access = ACCESS_PUBLIC, st_type = LOCAL_STORAGE, st_size = zsize,
     st_size_coef = SIZE_COEF, st_size_free = 0\<rparr>"

definition no_storage :: storage where
  "no_storage = \<lparr>st_pk = None, st_name = [], st_alias = [], st_owner = 0, st_access = ACCESS_PUBLIC,
     st_type = LOCAL_STORAGE, st_size = 0, st_size_coef = 100, st_size_free = 0\<rparr>"

definition find_ns :: "string \<Rightarrow> string \<Rightarrow> node_state \<Rightarrow> node_storage option" where
  "find_ns uuid pool s = map_option (fresh_ns s) (find (\<lambda>ns. ns_node ns = uuid \<and> ns_zpool ns = pool) (rs_nss s))"

text \<open>The property \<open>storage\<close> is loaded once and kept together with its node storage.\<close>

definition node_storage_of :: "node \<Rightarrow> (storage \<times> node) nprog" where
  "node_storage_of n = (case n_storage n of
      Some st \<Rightarrow> pret (st, n)
    | None \<Rightarrow> pbind (pres (node_zpool n)) (\<lambda>zp. case zp of
          Some (c # z) \<Rightarrow> pbind (pget (find_ns (n_uuid n) (c # z))) (\<lambda>found. case found of
              Some ns \<Rightarrow> pret (ns_storage ns, n\<lparr>n_ns := Some ns, n_storage := Some (ns_storage ns)\<rparr>)
            | None \<Rightarrow> pbind (pres (zpool_size n)) (\<lambda>zsize.
                (let st = new_local_storage (c # z) zsize n in pret (st, n\<lparr>n_storage := Some st\<rparr>))))
        | _ \<Rightarrow> pret (no_storage, n\<lparr>n_storage := Some no_storage\<rparr>)))"

definition node_disk :: "node \<Rightarrow> (int \<times> node) nprog" where
  "node_disk n = pbind (node_storage_of n) (\<lambda>(st, n'). pret (st_size st, n'))"

definition set_node_disk :: "int \<Rightarrow> node \<Rightarrow> node nprog" where
  "set_node_disk v n = pbind (node_storage_of n) (\<lambda>(st, n'). pret (n'\<lparr>n_storage := Some (st\<lparr>st_size := v\<rparr>)\<rparr>))"

definition node_disk_free :: "node \<Rightarrow> (int \<times> node) nprog" where
  "node_disk_free n = pbind (node_storage_of n) (\<lambda>(st, n'). pret (st_size_free st, n'))"

text \<open>The space of a node storage that is taken by anything but the disks of VMs.\<close>

definition other_sizes :: "node_storage \<Rightarrow> int nprog" where
  "other_sizes ns = pbind (get_backups_size ns False) (\<lambda>b. pbind (get_snapshots_size ns False) (\<lambda>n.
     pbind (get_rep_snapshots_size ns) (\<lambda>r. pret (b + n + r))))"

definition set_node_disk_free :: "int \<Rightarrow> node \<Rightarrow> node nprog" where
  "set_node_disk_free v n =
     pbind (case n_ns n of
         None \<Rightarrow> pret n
       | Some ns \<Rightarrow> pbind (node_storage_of n) (\<lambda>(st, n1). pbind (other_sizes ns) (\<lambda>o'.
           pbind (pwhen (ns_pk ns \<noteq> None) (cache_set (VmsSizeTotal (the (ns_pk ns))) (Some (size_total st - o' - v)))) (\<lambda>_.
             pret n1))))
     (\<lambda>n1. pbind (node_storage_of n1) (\<lambda>(st, n2). pret (n2\<lparr>n_storage := Some (st\<lparr>st_size_free := v\<rparr>)\<rparr>)))"

section \<open>Resources of a node\<close>

definition node_resources :: "node \<Rightarrow> ((pynum \<times> pynum \<times> pynum) \<times> node) nprog" where
  "node_resources n = pbind (node_storage_of n) (\<lambda>(st, n1).
     pbind (case n_ns n1 of None \<Rightarrow> pret 0 | Some ns \<Rightarrow> other_sizes ns) (\<lambda>o'.
       pret ((NFlt (scaled_num (n_cpu n) (n_cpu_coef n)), NFlt (scaled_num (n_ram n) (n_ram_coef n)),
              NInt (size_total st - o')), n1)))"

definition node_vms :: "node \<Rightarrow> 'z res_state_scheme \<Rightarrow> vm list" where
  "node_vms n s = filter (on_node (n_uuid n)) (rs_vms s)"

definition vm_usage :: "string option \<Rightarrow> vm \<Rightarrow> (int \<times> int \<times> int) res" where
  "vm_usage zp x = get_cpu_ram_disk zp True None None x"

fun add_usage :: "string option \<Rightarrow> vm list \<Rightarrow> int \<times> int \<times> int \<Rightarrow> (int \<times> int \<times> int) res" where
  "add_usage zp [] acc = Inr acc"
| "add_usage zp (x # xs) (c, r, d) =
     rbind (vm_usage zp x) (\<lambda>(vc, vr, vd). add_usage zp xs (c + vc, r + vr, d + vd))"

definition get_used_resources :: "int \<Rightarrow> node \<Rightarrow> (int \<times> int \<times> int) nprog" where
  "get_used_resources dc n = pbind (pres (node_zpool n)) (\<lambda>zp. (\<lambda>s.
     (add_usage zp (filter (\<lambda>x. v_dc x = dc) (node_vms n s)) (0, 0, 0), s)))"

fun sub_usage :: "string option \<Rightarrow> vm list \<Rightarrow> pynum \<times> pynum \<times> pynum \<Rightarrow> (int \<times> int \<times> int) res" where
  "sub_usage zp [] (c, r, d) = Inr (nint c, nint r, nint d)"
| "sub_usage zp (x # xs) (c, r, d) =
     rbind (vm_usage zp x) (\<lambda>(vc, vr, vd). sub_usage zp xs (nsub c vc, nsub r vr, nsub d vd))"

definition free_vms :: "int option \<Rightarrow> int option \<Rightarrow> int list \<Rightarrow> vm list \<Rightarrow> vm list" where
  "free_vms dc dc_exclude dcs_exclude vms =
     filter (\<lambda>x. of_dc dc (v_dc x) \<and> v_dc x \<notin> set dcs_exclude \<and> Some (v_dc x) \<noteq> dc_exclude) vms"

definition get_free_resources ::
  "pynum \<times> pynum \<times> pynum \<Rightarrow> int option \<Rightarrow> int option \<Rightarrow> int list \<Rightarrow> node \<Rightarrow> (int \<times> int \<times> int) nprog" where
  "get_free_resources tot dc dc_exclude dcs_exclude n = pbind (pres (node_zpool n)) (\<lambda>zp. (\<lambda>s.
     (sub_usage zp (free_vms dc dc_exclude dcs_exclude (node_vms n s)) tot, s)))"

text \<open>The operating system is compared with the identifiers of hypervisors.\<close>

definition get_ram_kvm_overhead :: "int option \<Rightarrow> node \<Rightarrow> int nprog" where
  "get_ram_kvm_overhead dc n = pget (\<lambda>s.
     int (length (filter (\<lambda>x. of_dc dc (v_dc x) \<and> v_ostype x \<in> set HVM) (node_vms n s))) * KVM_MEMORY_OVERHEAD)"

definition node_update_resources :: "node \<Rightarrow> node nprog" where
  "node_update_resources n =
     pbind (node_resources n) (\<lambda>(tot, n1).
     pbind (get_free_resources tot None None [] n1) (\<lambda>(cpu, mem, disk).
     pbind (set_node_disk_free disk (n1\<lparr>n_cpu_free := cpu, n_ram_free := mem\<rparr>)) (\<lambda>n2.
     pbind (get_ram_kvm_overhead None n2) (\<lambda>o'. pret (set_node_ram_kvm_overhead o' n2)))))"

section \<open>Resources of a node in a datacenter\<close>

definition check_free_resources :: "int option \<Rightarrow> int option \<Rightarrow> int option \<Rightarrow> dc_node \<Rightarrow> bool" where
  "check_free_resources cpu mem disk dn =
     (if cpu \<noteq> None \<and> the cpu > dn_cpu_free dn then False
      else if mem \<noteq> None \<and> the mem > dn_ram_free dn then False
      else if disk \<noteq> None \<and> the disk > dn_disk_free dn then False
      else True)"

definition reserved_rows :: "string \<Rightarrow> node_state \<Rightarrow> dc_node list" where
  "reserved_rows uuid s = filter (\<lambda>r. dn_node r = uuid \<and> dn_strategy r = Strategy_RESERVED) (rs_dcnodes s)"

text \<open>The result holds what is free, what is not reserved (\<open>_nonreserved_resources\<close>) and the node.\<close>

definition get_nonreserved_free_resources ::
  "bool \<Rightarrow> dc_node \<Rightarrow> node \<Rightarrow> ((int \<times> int \<times> int) \<times> (int \<times> int \<times> int) \<times> node) nprog" where
  "get_nonreserved_free_resources exclude_this_dc dn n =
     pbind (pget (reserved_rows (n_uuid n))) (\<lambda>reserved.
     (let r = (if exclude_this_dc then filter (\<lambda>x. dn_dc x \<noteq> dn_dc dn) reserved else reserved) in
      pbind (node_resources n) (\<lambda>((cpu_n, ram_n, disk_n), n1).
      (let cpu_f = nint cpu_n - sum_list (map dn_cpu r);
           ram_f = nint ram_n - sum_list (map dn_ram r);
           disk_f = nint disk_n - sum_list (map dn_disk r) in
       pbind (get_free_resources (NInt cpu_f, NInt ram_f, NInt disk_f) None
           (if exclude_this_dc then Some (dn_dc dn) else None) (remdups (map dn_dc reserved)) n1) (\<lambda>free.
         pret (free, (cpu_f, ram_f, disk_f), n1))))))"

definition dcnode_update_resources :: "dc_node \<Rightarrow> node \<Rightarrow> (dc_node \<times> node) nprog" where
  "dcnode_update_resources dn n =
     pbind (if dn_strategy dn = Strategy_RESERVED
            then pbind (get_free_resources (NInt (dn_cpu dn), NInt (dn_ram dn), NInt (dn_disk dn)) (Some (dn_dc dn)) None [] n)
                   (\<lambda>(c, r, d). pret (dn\<lparr>dn_cpu_free := c, dn_ram_free := r, dn_disk_free := d\<rparr>, n))
            else if dn_strategy dn \<in> {Strategy_SHARED, Strategy_SHARED_LIMIT}
            then pbind (get_nonreserved_free_resources False dn n) (\<lambda>((c, r, d), (cn, rn, dk), n1).
                   (let dn1 = dn\<lparr>dn_cpu_free := c, dn_ram_free := r, dn_disk_free := d\<rparr> in
                    if dn_strategy dn = Strategy_SHARED then pret (dn1\<lparr>dn_cpu := cn, dn_ram := rn, dn_disk := dk\<rparr>, n1)
                    else pbind (get_free_resources (NInt (dn_cpu dn), NInt (dn_ram dn), NInt (dn_disk dn)) (Some (dn_dc dn)) None [] n1)
                      (\<lambda>(cu, ru, du). pret (dn1\<lparr>dn_cpu_free := (if cu < c then cu else c),
                         dn_ram_free := (if ru < r then ru else r), dn_disk_free := (if du < d then du else d)\<rparr>, n1))))
            else pret (dn, n))
     (\<lambda>(dn1, n1). pbind (get_ram_kvm_overhead (Some (dn_dc dn1)) n1) (\<lambda>o'.
        pret (dn1\<lparr>dn_json := AList.update ''ram_kvm_overhead'' (VInt o') (dn_json dn1)\<rparr>, n1)))"

definition dcnode_write :: "dc_node \<Rightarrow> dc_node nprog" where
  "dcnode_write dn = (\<lambda>s. case dn_pk dn of
      Some p \<Rightarrow> (Inr dn, s\<lparr>rs_dcnodes := map (\<lambda>r. if dn_pk r = Some p then dn else r) (rs_dcnodes s)\<rparr>)
    | None \<Rightarrow> (let dn' = dn\<lparr>dn_pk := Some (rs_next_id s)\<rparr>
        in (Inr dn', s\<lparr>rs_dcnodes := rs_dcnodes s @ [dn'], rs_next_id := rs_next_id s + 1\<rparr>)))"

definition dcnode_save :: "bool \<Rightarrow> dc_node \<Rightarrow> node \<Rightarrow> dc_node nprog" where
  "dcnode_save update dn n =
     pbind (if update then pbind (dcnode_update_resources dn n) (\<lambda>(dn1, n1). pret dn1) else pret dn) dcnode_write"

text \<open>The rows are read together with their node, which every row has as an object of its own.\<close>

definition dcnode_update_all :: "string \<Rightarrow> unit nprog" where
  "dcnode_update_all uuid =
     pbind (pget (\<lambda>s. find (\<lambda>n. n_uuid n = uuid) (rs_nodes s))) (\<lambda>found. case found of
         None \<Rightarrow> pret ()
       | Some n \<Rightarrow> pbind (pget (\<lambda>s. filter (\<lambda>r. dn_node r = uuid) (rs_dcnodes s))) (\<lambda>rows.
           pfor rows (\<lambda>dn. dcnode_save True dn n)))"

section \<open>Choosing a node for a VM\<close>

text \<open>
  \<open>vm.is_bhyve\<close> is the method itself, which is always true, so every VM takes the branch that
  looks at the candidates one by one; the loop has no \<open>break\<close>.
\<close>

definition node_of_uuid :: "string \<Rightarrow> node_state \<Rightarrow> node option" where
  "node_of_uuid uuid s = find (\<lambda>n. n_uuid n = uuid) (rs_nodes s)"

definition has_free_storage :: "int \<Rightarrow> (pyval \<times> int) list \<Rightarrow> node_state \<Rightarrow> string \<Rightarrow> bool" where
  "has_free_storage dc vm_disk s uuid \<longleftrightarrow>
     list_ex (\<lambda>ns. ns_node ns = uuid \<and> dc \<in> set (ns_dcs ns) \<and>
       list_ex (\<lambda>(z, n). z = VStr (ns_zpool ns) \<and> st_size_free (ns_storage (fresh_ns s ns)) \<ge> n) vm_disk) (rs_nss s)"

definition fits :: "int \<Rightarrow> int \<Rightarrow> int \<Rightarrow> (pyval \<times> int) list \<Rightarrow> node_state \<Rightarrow> dc_node \<Rightarrow> bool" where
  "fits dc vm_cpu vm_ram vm_disk s r \<longleftrightarrow> dn_dc r = dc
     \<and> (case node_of_uuid (dn_node r) s of None \<Rightarrow> False | Some n \<Rightarrow> n_status n = Node_ONLINE \<and> n_is_compute n)
     \<and> dn_cpu_free r \<ge> vm_cpu \<and> dn_ram_free r \<ge> vm_ram
     \<and> (vm_disk = [] \<or> has_free_storage dc vm_disk s (dn_node r))
     \<and> (case map_of vm_disk (VStr NODE_ZPOOL) of None \<Rightarrow> True | Some d \<Rightarrow> dn_disk_free r \<ge> d)"

definition node_order :: "dc_node \<Rightarrow> int list" where
  "node_order r = [- dn_priority r, dn_cpu_free r, dn_ram_free r, dn_disk_free r]"

definition order_rows :: "dc_node list \<Rightarrow> dc_node list" where
  "order_rows rs = sort_key node_order rs"

fun last_bhyve :: "int \<Rightarrow> node_state \<Rightarrow> dc_node list \<Rightarrow> node option \<Rightarrow> node option res" where
  "last_bhyve vm_cpu s [] acc = Inr acc"
| "last_bhyve vm_cpu s (r # rs) acc =
     (case node_of_uuid (dn_node r) s of
        None \<Rightarrow> last_bhyve vm_cpu s rs acc
      | Some n \<Rightarrow> rbind (bhyve_capable n) (\<lambda>b.
          if \<not> b then last_bhyve vm_cpu s rs acc
          else rbind (bhyve_max_vcpus n) (\<lambda>m. last_bhyve vm_cpu s rs (if vm_cpu > m then acc else Some n))))"

definition choose_node :: "int \<Rightarrow> vm \<Rightarrow> node option nprog" where
  "choose_node dc x = (\<lambda>s.
     (rbind (get_cpu_ram True None x) (\<lambda>(vm_cpu, vm_ram). rbind (get_disks None False x) (\<lambda>vm_disk.
        last_bhyve vm_cpu s (order_rows (filter (fits dc vm_cpu vm_ram vm_disk s) (rs_dcnodes s))) None)), s))"

section \<open>Saving a node storage\<close>

definition ns_write :: "node_storage \<Rightarrow> node_storage nprog" where
  "ns_write ns = (\<lambda>s. case ns_pk ns of
      Some p \<Rightarrow> (Inr ns, s\<lparr>rs_nss := map (\<lambda>r. if ns_pk r = Some p then ns else r) (rs_nss s)\<rparr>)
    | None \<Rightarrow> (let ns' = ns\<lparr>ns_pk := Some (rs_next_id s)\<rparr>
        in (Inr ns', s\<lparr>rs_nss := rs_nss s @ [ns'], rs_next_id := rs_next_id s + 1\<rparr>)))"

definition ns_save :: "bool \<Rightarrow> bool \<Rightarrow> recalc \<Rightarrow> node_storage \<Rightarrow> node_storage nprog" where
  "ns_save update update_dcnode rc ns =
     pbind (if update then ns_update_resources True rc ns else pret ns) (\<lambda>ns1.
     pbind (ns_write ns1) (\<lambda>ns2.
     pbind (pwhen (update \<and> update_dcnode) (dcnode_update_all (ns_node ns))) (\<lambda>_. pret ns2)))"

section \<open>Saving a node\<close>

text \<open>A transaction: after an exception the tables are as before, the cache is not.\<close>

definition atomic :: "'a nprog \<Rightarrow> 'a nprog" where
  "atomic m = (\<lambda>s. case m s of
      (Inl e, t) \<Rightarrow> (Inl e, s\<lparr>rs_cache := rs_cache t, rs_all_nodes := rs_all_nodes t, rs_nictags := rs_nictags t\<rparr>)
    | (Inr x, t) \<Rightarrow> (Inr x, t))"

definition node_sync_json :: "node \<Rightarrow> node nprog" where
  "node_sync_json n =
     pbind (pres (rbind (sysinfo_get ''CPU Total Cores'' (VInt 0) n) py_int)) (\<lambda>cpu.
     pbind (pres (rbind (sysinfo_get ''MiB of Memory'' (VInt 0) n) py_int)) (\<lambda>mem.
     pbind (pres (zpool_size n)) (\<lambda>zsize. set_node_disk zsize (n\<lparr>n_cpu := cpu, n_ram := mem\<rparr>))))"

definition node_write :: "node \<Rightarrow> unit nprog" where
  "node_write n = pmod (\<lambda>s. s\<lparr>rs_nodes := (if list_ex (\<lambda>m. n_uuid m = n_uuid n) (rs_nodes s)
     then map (\<lambda>m. if n_uuid m = n_uuid n then n else m) (rs_nodes s) else rs_nodes s @ [n])\<rparr>)"

definition clear_node_caches :: "unit nprog" where
  "clear_node_caches = (\<lambda>s. (let (r, tags) = all_nictags True (rs_nictags s) (rs_nodes s)
     in (rbind r (\<lambda>_. Inr ()), s\<lparr>rs_all_nodes := None, rs_nictags := tags\<rparr>)))"

record node_save_args =
  na_sync_json :: bool
  na_update_resources :: bool
  na_zpool_update :: bool
  na_zpool_create :: bool
  na_zpools_update :: bool
  na_clear_cache :: bool

definition node_save_args_default :: node_save_args where
  "node_save_args_default = \<lparr>na_sync_json = False, na_update_resources = True, na_zpool_update = False,
     na_zpool_create = False, na_zpools_update = False, na_clear_cache = False\<rparr>"

text \<open>The storage of a node and the one of its node storage are one object.\<close>

definition save_local_storage :: "bool \<Rightarrow> node \<Rightarrow> node nprog" where
  "save_local_storage zpool_create n = pbind (pres (node_zpool n)) (\<lambda>zp. case zp of
      Some (c # z) \<Rightarrow>
        pbind (node_storage_of n) (\<lambda>(st, n1). pbind (storage_save st) (\<lambda>st1.
        (let n2 = n1\<lparr>n_storage := Some st1\<rparr> in
         if zpool_create \<or> n_ns n1 = None
         then pbind (ns_save True False recalc_default
                \<lparr>ns_pk = None, ns_zpool = c # z, ns_node = n_uuid n, ns_storage = st1, ns_dcs = []\<rparr>) (\<lambda>ns.
                pret (n2\<lparr>n_ns := Some ns, n_storage := Some (ns_storage ns)\<rparr>))
         else pret n2)))
    | _ \<Rightarrow> pret n)"

definition save_zpool :: "pydict \<Rightarrow> node_storage \<Rightarrow> unit nprog" where
  "save_zpool pools ns = (case map_of pools (ns_zpool ns) of
      Some (VDict d) \<Rightarrow> (case map_of d ''size'' of
          None \<Rightarrow> pret ()
        | Some v \<Rightarrow> (if py_eq (VInt (st_size (ns_storage ns))) v then pret ()
            else pbind (pres (as_int v)) (\<lambda>i. atomic (
              (let st = (ns_storage ns)\<lparr>st_size := i\<rparr> in
               pbind (storage_save st) (\<lambda>st1. pbind (ns_save True False recalc_default (ns\<lparr>ns_storage := st1\<rparr>)) (\<lambda>_. pret ())))))))
    | None \<Rightarrow> pret ()
    | Some _ \<Rightarrow> pres (Inl (Exn TypeError ''size'')))"

definition save_zpools :: "node \<Rightarrow> unit nprog" where
  "save_zpools n = (case zpools n of
      VDict d \<Rightarrow> (if dhas d NODE_ZPOOL
        then (let pools = AList.delete NODE_ZPOOL d in
              pbind (pget (\<lambda>s. map (fresh_ns s) (filter (\<lambda>ns. ns_node ns = n_uuid n \<and> dhas pools (ns_zpool ns)) (rs_nss s)))) (\<lambda>rows.
                pfor rows (save_zpool pools)))
        else pres (Inl (Exn KeyError NODE_ZPOOL)))
    | _ \<Rightarrow> pres (Inl (Exn AttributeError ''pop'')))"

definition node_save :: "node_save_args \<Rightarrow> node \<Rightarrow> node nprog" where
  "node_save a n0 =
     pbind (if na_sync_json a then node_sync_json n0 else pret n0) (\<lambda>n1.
     (let upd = na_sync_json a \<or> na_update_resources a in
      pbind (if upd then node_update_resources n1 else pret n1) (\<lambda>n2.
      (let zpool_update = upd \<or> na_zpool_update a;
           status_changed = (n_orig_status n2 \<noteq> n_status n2) in
       pbind (atomic (pbind (node_write n2) (\<lambda>_. pwhen (na_clear_cache a \<or> status_changed) clear_node_caches))) (\<lambda>_.
       (let n3 = n2\<lparr>n_orig_status := n_status n2\<rparr> in
       pbind (if zpool_update \<or> na_zpool_create a then save_local_storage (na_zpool_create a) n3 else pret n3) (\<lambda>n4.
       pbind (pwhen (na_zpools_update a) (save_zpools n4)) (\<lambda>_.
       pbind (pwhen upd (dcnode_update_all (n_uuid n4))) (\<lambda>_. pret n4)))))))))"

text \<open>\<open>update_resources\<close> with \<open>save=True\<close>, for a node and for a node of a datacenter.\<close>

definition node_update_resources_save :: "node \<Rightarrow> node nprog" where
  "node_update_resources_save n = node_save node_save_args_default n"

definition node_save_status :: "int option \<Rightarrow> node \<Rightarrow> node nprog" where
  "node_save_status new_status n =
     node_save (node_save_args_default\<lparr>na_update_resources := False\<rparr>)
       (case new_status of None \<Rightarrow> n | Some v \<Rightarrow> n\<lparr>n_status := v\<rparr>)"

definition node_delete :: "node \<Rightarrow> unit nprog" where
  "node_delete n = pbind (pmod (\<lambda>s. s\<lparr>rs_nodes := filter (\<lambda>m. n_uuid m \<noteq> n_uuid n) (rs_nodes s)\<rparr>)) (\<lambda>_. clear_node_caches)"

definition node_all :: "bool \<Rightarrow> string list option nprog" where
  "node_all clear = (if clear then pbind (pmod (\<lambda>s. s\<lparr>rs_all_nodes := None\<rparr>)) (\<lambda>_. pret None)
     else (\<lambda>s. case rs_all_nodes s of
        Some (u # us) \<Rightarrow> (Inr (Some (u # us)), s)
      | _ \<Rightarrow> (let us = map n_uuid (sort_key (\<lambda>n. map ch_code (n_hostname n)) (rs_nodes s))
          in (Inr (Some us), s\<lparr>rs_all_nodes := Some us\<rparr>))))"

section \<open>Nodes from reports\<close>

definition new_node :: "string \<Rightarrow> int \<Rightarrow> int \<Rightarrow> bool \<Rightarrow> node" where
  "new_node uuid status owner is_head = \<lparr>n_uuid = uuid, n_hostname = [], n_address = [], n_status = status,
     n_orig_status = status, n_owner = owner, n_config = VStr [], n_cpu = 0, n_ram = 0, n_cpu_coef = 100, n_ram_coef = 100,
     n_cpu_free = 0, n_ram_free = 0, n_is_compute = True, n_is_backup = False, n_is_head = is_head, n_json = [],
     n_vlan_id = None, n_storage = None, n_ns = None\<rparr>"

definition create_from_sysinfo :: "string \<Rightarrow> pydict \<Rightarrow> int \<Rightarrow> int \<Rightarrow> bool \<Rightarrow> int option \<Rightarrow> node nprog" where
  "create_from_sysinfo uuid es status owner is_head dc_default =
     pbind (pres (parse_sysinfo es True (new_node uuid status owner is_head))) (\<lambda>n.
     pbind (node_save (node_save_args_default\<lparr>na_sync_json := True, na_zpool_create := True, na_clear_cache := True\<rparr>) n) (\<lambda>n1.
     case dc_default of
       None \<Rightarrow> pret n1
     | Some dc \<Rightarrow> (if dc = 0 then pret n1 else
         pbind (dcnode_save True \<lparr>dn_pk = None, dn_dc = dc, dn_node = uuid, dn_priority = DcNode_PRIORITY, dn_cpu = 0, dn_ram = 0,
             dn_disk = 0, dn_cpu_free = 0, dn_ram_free = 0, dn_disk_free = 0, dn_strategy = Strategy_SHARED, dn_json = []\<rparr> n1) (\<lambda>_.
         pbind (pmod (\<lambda>s. s\<lparr>rs_nss := map (\<lambda>r. if n_ns n1 \<noteq> None \<and> ns_pk r = ns_pk (the (n_ns n1))
             then r\<lparr>ns_dcs := List.insert dc (ns_dcs r)\<rparr> else r) (rs_nss s)\<rparr>)) (\<lambda>_. pret n1)))))"

definition update_from_sysinfo :: "pydict \<Rightarrow> node \<Rightarrow> node nprog" where
  "update_from_sysinfo es n =
     (let current = zpools n in
      pbind (pres (parse_sysinfo es False n)) (\<lambda>n1.
        node_save (node_save_args_default\<lparr>na_sync_json := True, na_zpool_update := True, na_clear_cache := True,
          na_zpools_update := \<not> py_eq current (zpools n1)\<rparr>) n1))"

text \<open>Pending tasks of the VMs, storages and (for the node of the images) images of a node.\<close>

definition has_related_tasks :: "bool list \<Rightarrow> bool list \<Rightarrow> bool \<Rightarrow> bool list \<Rightarrow> bool" where
  "has_related_tasks vm_tasks ns_tasks is_image_node image_tasks \<longleftrightarrow>
     (if list_ex id vm_tasks then True else if list_ex id ns_tasks then True
      else if is_image_node \<and> list_ex id image_tasks then True else False)"

section \<open>What VMs use\<close>

definition usage :: "string option \<Rightarrow> vm \<Rightarrow> int \<times> int \<times> int" where
  "usage zp x = (case vm_usage zp x of Inr u \<Rightarrow> u | Inl e \<Rightarrow> (0, 0, 0))"

definition known_usage :: "string option \<Rightarrow> vm list \<Rightarrow> bool" where
  "known_usage zp xs \<longleftrightarrow> (\<forall>x \<in> set xs. \<exists>u. vm_usage zp x = Inr u)"

definition sum_cpu :: "string option \<Rightarrow> vm list \<Rightarrow> int" where
  "sum_cpu zp xs = sum_list (map (\<lambda>x. fst (usage zp x)) xs)"
definition sum_ram :: "string option \<Rightarrow> vm list \<Rightarrow> int" where
  "sum_ram zp xs = sum_list (map (\<lambda>x. fst (snd (usage zp x))) xs)"
definition sum_disk :: "string option \<Rightarrow> vm list \<Rightarrow> int" where
  "sum_disk zp xs = sum_list (map (\<lambda>x. snd (snd (usage zp x))) xs)"

lemmas sum_usage_defs = sum_cpu_def sum_ram_def sum_disk_def

lemma known_usage_simps [simp]:
  "known_usage zp []" "known_usage zp (x # xs) \<longleftrightarrow> (\<exists>u. vm_usage zp x = Inr u) \<and> known_usage zp xs"
  by (auto simp: known_usage_def)

lemma sub_usage_Inr_iff:
  "sub_usage zp xs (NInt c, NInt r, NInt d) = Inr (c', r', d') \<longleftrightarrow>
     known_usage zp xs \<and> c' = c - sum_cpu zp xs \<and> r' = r - sum_ram zp xs \<and> d' = d - sum_disk zp xs"
  by (induction xs arbitrary: c r d) (auto simp: sum_usage_defs usage_def rbind_Inr_iff nint_def nsub_def)

section \<open>Shared nodes are not overcommitted\<close>

lemma split_by_dc:
  fixes f :: "vm \<Rightarrow> int"
  assumes "distinct ds"
  shows "sum_list (map f (filter (\<lambda>x. v_dc x \<in> set ds) xs)) = (\<Sum>d\<leftarrow>ds. sum_list (map f (filter (\<lambda>x. v_dc x = d) xs)))"
  using assms
proof (induction ds)
  case Nil
  then show ?case by simp
next
  case (Cons d ds)
  have "sum_list (map f (filter (\<lambda>x. v_dc x \<in> set (d # ds)) xs)) =
      sum_list (map f (filter (\<lambda>x. v_dc x = d) xs)) + sum_list (map f (filter (\<lambda>x. v_dc x \<in> set ds) xs))"
    using Cons.prems by (induction xs) auto
  then show ?case using Cons by simp
qed

lemma split_filter: "sum_list (map f (filter P xs)) + sum_list (map f (filter (\<lambda>x. \<not> P x) xs)) = sum_list (map f xs)"
  for f :: "'a \<Rightarrow> int"
  by (induction xs) auto

lemma not_overcommitted:
  fixes f :: "vm \<Rightarrow> int" and tot :: "dc_node \<Rightarrow> int"
  assumes "distinct (map dn_dc rows)"
    and "\<forall>r \<in> set rows. tot r - sum_list (map f (filter (\<lambda>x. v_dc x = dn_dc r) xs)) \<ge> 0"
    and "t - sum_list (map tot rows) - sum_list (map f (filter (\<lambda>x. v_dc x \<notin> set (map dn_dc rows)) xs)) \<ge> 0"
  shows "sum_list (map f xs) \<le> t"
proof -
  have "(\<Sum>d\<leftarrow>map dn_dc rows. sum_list (map f (filter (\<lambda>x. v_dc x = d) xs))) \<le> sum_list (map tot rows)"
    using assms(2) by (induction rows) (auto simp: add_mono)
  then show ?thesis
    using split_filter [of f "\<lambda>x. v_dc x \<in> set (map dn_dc rows)" xs] split_by_dc [OF assms(1), of f xs] assms(3)
    by simp
qed

text \<open>What only reads the tables and writes the cache.\<close>

definition tables :: "vm list \<Rightarrow> node list \<Rightarrow> dc_node list \<Rightarrow> node_state \<Rightarrow> bool" where
  "tables V N D s \<longleftrightarrow> rs_vms s = V \<and> rs_nodes s = N \<and> rs_dcnodes s = D"

lemma keeps_read [keeps_intros]: "keeps P (\<lambda>s. (g s, s))" "keeps P (calculate_vms_size ns dc)"
  by (simp_all add: keeps_def calculate_vms_size_def)

lemma tables_cache [keeps_intros]: "keeps (tables V N D) (cache_set k v)"
  unfolding cache_set_def by (rule keeps_pmod) (simp add: tables_def)

lemma tables_sizes [keeps_intros]:
  "keeps (tables V N D) (get_vms_size ns clear)" "keeps (tables V N D) (get_snapshots_size ns clear)"
  "keeps (tables V N D) (get_backups_size ns clear)" "keeps (tables V N D) (get_rep_snapshots_size ns)"
  unfolding get_vms_size_def get_snapshots_size_def get_backups_size_def get_rep_snapshots_size_def with_pk_def
    related_size_def some_size_def calculate_snapshots_size_def calculate_backups_size_def
  by (intro keeps_intros)+

lemma keeps_case_prod [keeps_intros]: "(\<And>x y. keeps P (f x y)) \<Longrightarrow> keeps P (case p of (x, y) \<Rightarrow> f x y)"
  by (cases p) simp

lemma keeps_case_prod_app [keeps_intros]: "(\<And>x y. keeps P (f x y z)) \<Longrightarrow> keeps P ((case p of (x, y) \<Rightarrow> f x y) z)"
  by (cases p) simp

lemma keeps_list [keeps_intros]: "keeps P m \<Longrightarrow> (\<And>y ys. keeps P (f y ys)) \<Longrightarrow> keeps P (case xs of [] \<Rightarrow> m | y # ys \<Rightarrow> f y ys)"
  by (cases xs) simp_all

lemma keeps_let [keeps_intros]: "keeps P (f x) \<Longrightarrow> keeps P (let y = x in f y)"
  by simp

lemma tables_resources [keeps_intros]:
  "keeps (tables V N D) (node_storage_of n)" "keeps (tables V N D) (other_sizes ns)"
  "keeps (tables V N D) (node_resources n)" "keeps (tables V N D) (get_free_resources tot dc e es n)"
  "keeps (tables V N D) (get_ram_kvm_overhead dc n)"
proof -
  show 1: "keeps (tables V N D) (node_storage_of n)" for n
    unfolding node_storage_of_def by (intro keeps_intros)
  show 2: "keeps (tables V N D) (other_sizes ns)" for ns
    unfolding other_sizes_def by (intro keeps_intros)
  show "keeps (tables V N D) (node_resources n)"
    unfolding node_resources_def by (intro keeps_intros 1 2)
  show "keeps (tables V N D) (get_free_resources tot dc e es n)"
    unfolding get_free_resources_def by (intro keeps_intros)
  show "keeps (tables V N D) (get_ram_kvm_overhead dc n)"
    unfolding get_ram_kvm_overhead_def by (intro keeps_intros)
qed

lemma tables_nonreserved [keeps_intros]: "keeps (tables V N D) (get_nonreserved_free_resources b dn n)"
  unfolding get_nonreserved_free_resources_def by (intro keeps_intros)

lemma tables_dcnode [keeps_intros]: "keeps (tables V N D) (dcnode_update_resources dn n)"
  unfolding dcnode_update_resources_def by (intro keeps_intros)

definition zp_of :: "node \<Rightarrow> string option" where
  "zp_of n = (case node_zpool n of Inr z \<Rightarrow> z | Inl e \<Rightarrow> None)"

definition same_node :: "node \<Rightarrow> node \<Rightarrow> bool" where
  "same_node n m \<longleftrightarrow> n_uuid m = n_uuid n \<and> n_json m = n_json n"

lemma same_node_zpool: "same_node n m \<Longrightarrow> node_zpool m = node_zpool n"
  by (simp add: same_node_def node_zpool_def sysinfo_get_def)

lemma node_storage_of_same:
  assumes "node_storage_of n s = (Inr (st, n'), t)"
  shows "same_node n n'"
proof (cases "n_storage n")
  case (Some st')
  then show ?thesis using assms by (simp add: node_storage_of_def prog_Inr_iff same_node_def)
next
  case None
  then obtain zp where zp: "node_zpool n = Inr zp"
    using assms by (auto simp: node_storage_of_def pbind_Inr_iff prog_Inr_iff)
  show ?thesis
  proof (cases "zp = None \<or> zp = Some []")
    case True
    then show ?thesis using assms None zp by (auto simp: node_storage_of_def pbind_Inr_iff prog_Inr_iff same_node_def)
  next
    case False
    then obtain c z where "zp = Some (c # z)" by (cases zp) (auto simp: neq_Nil_conv)
    then show ?thesis using assms None zp
      by (cases "find_ns (n_uuid n) (c # z) s")
         (auto simp: node_storage_of_def pbind_Inr_iff prog_Inr_iff same_node_def Let_def)
  qed
qed

lemma node_resources_Inr:
  assumes "node_resources n s = (Inr ((a, b, c), n'), t)"
  shows "nint a = cpu_total n \<and> nint b = ram_total n \<and> (\<exists>d. c = NInt d) \<and> same_node n n'"
proof -
  obtain st n1 s1 where "node_storage_of n s = (Inr (st, n1), s1)" and
    r: "a = NFlt (scaled_num (n_cpu n) (n_cpu_coef n))" "b = NFlt (scaled_num (n_ram n) (n_ram_coef n))" "\<exists>d. c = NInt d" "n' = n1"
    using assms by (auto simp: node_resources_def pbind_Inr_iff prog_Inr_iff)
  then show ?thesis
    using node_storage_of_same by (auto simp: nint_def cpu_total_def ram_total_def scaled_total_def)
qed

lemma get_free_Inr:
  assumes "get_free_resources (NInt c, NInt r, NInt d) dc e es n s = (Inr (c', r', d'), t)"
  shows "known_usage (zp_of n) (free_vms dc e es (node_vms n s)) \<and> c' = c - sum_cpu (zp_of n) (free_vms dc e es (node_vms n s))
    \<and> r' = r - sum_ram (zp_of n) (free_vms dc e es (node_vms n s)) \<and> t = s"
  using assms by (auto simp: get_free_resources_def pbind_Inr_iff prog_Inr_iff sub_usage_Inr_iff zp_of_def)

definition unreserved :: "dc_node list \<Rightarrow> vm list \<Rightarrow> vm list" where
  "unreserved rows vms = filter (\<lambda>x. v_dc x \<notin> set (map dn_dc rows)) vms"

lemma nonreserved_Inr:
  assumes "get_nonreserved_free_resources False dn n s = (Inr ((c, r, d), (cn, rn, dk), n'), t)"
  defines "R \<equiv> reserved_rows (n_uuid n) s"
  defines "X \<equiv> unreserved R (node_vms n s)"
  shows "cn = cpu_total n - sum_list (map dn_cpu R) \<and> rn = ram_total n - sum_list (map dn_ram R)
    \<and> known_usage (zp_of n) X \<and> c = cn - sum_cpu (zp_of n) X \<and> r = rn - sum_ram (zp_of n) X \<and> same_node n n'"
proof -
  obtain a b e n1 s1 where nr: "node_resources n s = (Inr ((a, b, e), n1), s1)" and
    fr: "get_free_resources (NInt (nint a - sum_list (map dn_cpu R)), NInt (nint b - sum_list (map dn_ram R)),
        NInt (nint e - sum_list (map dn_disk R))) None None (remdups (map dn_dc R)) n1 s1 = (Inr (c, r, d), t)"
    and out: "cn = nint a - sum_list (map dn_cpu R)" "rn = nint b - sum_list (map dn_ram R)" "n' = n1"
    using assms(1) unfolding get_nonreserved_free_resources_def R_def
    by (auto simp: pbind_Inr_iff prog_Inr_iff Let_def)
  have "tables (rs_vms s) (rs_nodes s) (rs_dcnodes s) s1"
    by (rule keepsD [OF tables_resources(3) _ nr]) (simp add: tables_def)
  moreover have sn: "same_node n n1" using node_resources_Inr [OF nr] by blast
  ultimately have v: "node_vms n1 s1 = node_vms n s" "zp_of n1 = zp_of n"
    using same_node_zpool [OF sn] by (simp_all add: node_vms_def tables_def same_node_def zp_of_def)
  have "free_vms None None (remdups (map dn_dc R)) (node_vms n s) = X"
    by (simp add: free_vms_def X_def unreserved_def of_dc_def)
  then show ?thesis using get_free_Inr [OF fr] node_resources_Inr [OF nr] out v by simp
qed

text \<open>What the update of a row establishes, for the reserved rows \<open>R\<close> and the VMs \<open>V\<close> of the node.\<close>

definition row_ok :: "node \<Rightarrow> vm list \<Rightarrow> dc_node list \<Rightarrow> dc_node \<Rightarrow> bool" where
  "row_ok n V R q \<longleftrightarrow>
     (let own = filter (\<lambda>x. v_dc x = dn_dc q) V; rest = unreserved R V; zp = zp_of n in
      (dn_strategy q = Strategy_RESERVED \<longrightarrow> known_usage zp own
         \<and> dn_cpu_free q = dn_cpu q - sum_cpu zp own \<and> dn_ram_free q = dn_ram q - sum_ram zp own)
      \<and> (dn_strategy q \<in> {Strategy_SHARED, Strategy_SHARED_LIMIT} \<longrightarrow> known_usage zp rest
         \<and> dn_cpu_free q \<le> cpu_total n - sum_list (map dn_cpu R) - sum_cpu zp rest
         \<and> dn_ram_free q \<le> ram_total n - sum_list (map dn_ram R) - sum_ram zp rest))"

definition same_row :: "dc_node \<Rightarrow> dc_node \<Rightarrow> bool" where
  "same_row q q' \<longleftrightarrow> dn_pk q' = dn_pk q \<and> dn_dc q' = dn_dc q \<and> dn_node q' = dn_node q \<and> dn_strategy q' = dn_strategy q"

lemma own_vms: "free_vms (Some dc) None [] V = filter (\<lambda>x. v_dc x = dc) V"
  by (simp add: free_vms_def of_dc_def)

lemma update_row_ok:
  assumes "dcnode_update_resources dn n s = (Inr (dn', n'), t)"
  shows "row_ok n (node_vms n s) (reserved_rows (n_uuid n) s) dn'
    \<and> same_row dn dn'
    \<and> (dn_strategy dn = Strategy_RESERVED \<longrightarrow> dn_cpu dn' = dn_cpu dn \<and> dn_ram dn' = dn_ram dn)"
proof -
  let ?V = "node_vms n s" and ?R = "reserved_rows (n_uuid n) s"
  consider "dn_strategy dn = Strategy_RESERVED" | "dn_strategy dn = Strategy_SHARED" | "dn_strategy dn = Strategy_SHARED_LIMIT"
    | "dn_strategy dn \<notin> {Strategy_RESERVED, Strategy_SHARED, Strategy_SHARED_LIMIT}" by auto
  then show ?thesis
  proof cases
    case 1
    obtain c r d s1 where f: "get_free_resources (NInt (dn_cpu dn), NInt (dn_ram dn), NInt (dn_disk dn)) (Some (dn_dc dn)) None [] n s = (Inr (c, r, d), s1)"
      and dn': "same_row dn dn'" "dn_cpu dn' = dn_cpu dn" "dn_ram dn' = dn_ram dn" "dn_cpu_free dn' = c" "dn_ram_free dn' = r"
      using assms 1 by (auto simp: dcnode_update_resources_def pbind_Inr_iff prog_Inr_iff same_row_def)
    show ?thesis using get_free_Inr [OF f] dn' 1 by (simp add: row_ok_def own_vms Let_def strategy_defs same_row_def)
  next
    case 2
    obtain c r d cn rn dk n1 s1 where f: "get_nonreserved_free_resources False dn n s = (Inr ((c, r, d), (cn, rn, dk), n1), s1)"
      and dn': "same_row dn dn'" "dn_cpu_free dn' = c" "dn_ram_free dn' = r"
      using assms 2 by (auto simp: dcnode_update_resources_def pbind_Inr_iff prog_Inr_iff Let_def strategy_defs same_row_def)
    show ?thesis using nonreserved_Inr [OF f] dn' 2 by (simp add: row_ok_def Let_def strategy_defs same_row_def)
  next
    case 3
    then have ns: "dn_strategy dn \<noteq> Strategy_RESERVED" "dn_strategy dn \<noteq> Strategy_SHARED" by (simp_all add: strategy_defs)
    obtain c r d cn rn dk n1 s1 cu ru du s2 where
      f: "get_nonreserved_free_resources False dn n s = (Inr ((c, r, d), (cn, rn, dk), n1), s1)" and
      g: "get_free_resources (NInt (dn_cpu dn), NInt (dn_ram dn), NInt (dn_disk dn)) (Some (dn_dc dn)) None [] n1 s1 = (Inr (cu, ru, du), s2)" and
      dn': "same_row dn dn'" "dn_cpu_free dn' = (if cu < c then cu else c)" "dn_ram_free dn' = (if ru < r then ru else r)"
      using assms ns 3
      by (auto simp: dcnode_update_resources_def pbind_Inr_iff prog_Inr_iff Let_def same_row_def split del: if_split)
    have "dn_cpu_free dn' \<le> c" "dn_ram_free dn' \<le> r" using dn'(2,3) by (auto split: if_splits)
    then show ?thesis using nonreserved_Inr [OF f] dn'(1) 3 by (simp add: row_ok_def Let_def strategy_defs same_row_def)
  next
    case 4
    then show ?thesis using assms
      by (auto simp: dcnode_update_resources_def pbind_Inr_iff prog_Inr_iff row_ok_def Let_def same_row_def)
  qed
qed

definition rsig :: "dc_node list \<Rightarrow> (int \<times> int \<times> int) list" where
  "rsig R = map (\<lambda>r. (dn_dc r, dn_cpu r, dn_ram r)) R"

lemma rsig_maps:
  assumes "rsig R = rsig R'"
  shows "map dn_dc R = map dn_dc R'" "map dn_cpu R = map dn_cpu R'" "map dn_ram R = map dn_ram R'"
proof -
  have "map dn_dc Q = map fst (rsig Q)" "map dn_cpu Q = map (fst \<circ> snd) (rsig Q)" "map dn_ram Q = map (snd \<circ> snd) (rsig Q)" for Q
    by (simp_all add: rsig_def comp_def)
  then show "map dn_dc R = map dn_dc R'" "map dn_cpu R = map dn_cpu R'" "map dn_ram R = map dn_ram R'"
    using assms by simp_all
qed

lemma row_ok_sig: "rsig R = rsig R' \<Longrightarrow> row_ok n V R q \<longleftrightarrow> row_ok n V R' q"
proof -
  assume e: "rsig R = rsig R'"
  note m = rsig_maps [OF e]
  have "unreserved R V = unreserved R' V" unfolding unreserved_def m(1) ..
  then show ?thesis unfolding row_ok_def m by simp
qed

lemma map_filter_same:
  assumes "\<forall>r \<in> set D. P (g r) = P r \<and> (P r \<longrightarrow> h (g r) = h r)"
  shows "map h (filter P (map g D)) = map h (filter P D)"
  using assms by (induction D) auto

lemma dcnode_save_step:
  assumes "dcnode_save True dn n s = (Inr dn', s1)" "dn \<in> set (rs_dcnodes s)" "dn_pk dn = Some p"
    "distinct (map dn_pk (rs_dcnodes s))"
  shows "rs_vms s1 = rs_vms s \<and> rs_nodes s1 = rs_nodes s
    \<and> rs_dcnodes s1 = map (\<lambda>r. if dn_pk r = Some p then dn' else r) (rs_dcnodes s)
    \<and> rsig (reserved_rows u s1) = rsig (reserved_rows u s)
    \<and> row_ok n (node_vms n s) (reserved_rows (n_uuid n) s) dn' \<and> same_row dn dn'"
proof -
  obtain n1 s0 where u: "dcnode_update_resources dn n s = (Inr (dn', n1), s0)" and w: "dcnode_write dn' s0 = (Inr dn', s1)"
  proof -
    from assms(1) obtain d1 n1 s0 where 1: "dcnode_update_resources dn n s = (Inr (d1, n1), s0)" "dcnode_write d1 s0 = (Inr dn', s1)"
      by (auto simp: dcnode_save_def pbind_Inr_iff prog_Inr_iff)
    then have "dn_pk d1 = Some p" using update_row_ok [OF 1(1)] assms(3) by (simp add: same_row_def)
    then have "d1 = dn'" using 1(2) by (simp add: dcnode_write_def)
    with 1 that show ?thesis by blast
  qed
  note ok = update_row_ok [OF u]
  have pk: "dn_pk dn' = Some p" using ok assms(3) by (simp add: same_row_def)
  have t0: "tables (rs_vms s) (rs_nodes s) (rs_dcnodes s) s0"
    by (rule keepsD [OF tables_dcnode _ u]) (simp add: tables_def)
  let ?g = "\<lambda>r. if dn_pk r = Some p then dn' else r"
  have s1: "rs_vms s1 = rs_vms s" "rs_nodes s1 = rs_nodes s" "rs_dcnodes s1 = map ?g (rs_dcnodes s)"
    using w t0 by (auto simp: dcnode_write_def pk tables_def)
  have eq: "r = dn" if "r \<in> set (rs_dcnodes s)" "dn_pk r = Some p" for r
    using that assms(2-4) by (simp add: distinct_map inj_on_def)
  have "rsig (reserved_rows u s1) = rsig (reserved_rows u s)"
    unfolding rsig_def reserved_rows_def s1(3)
    by (rule map_filter_same) (use eq ok in \<open>auto simp: same_row_def\<close>)
  then show ?thesis using s1 ok by simp
qed

lemma update_rows_ok:
  assumes "pfor rows (\<lambda>dn. dcnode_save True dn n) s = (Inr (), t)" "set rows \<subseteq> set (rs_dcnodes s)"
    "distinct (map dn_pk rows)" "distinct (map dn_pk (rs_dcnodes s))" "None \<notin> dn_pk ` set (rs_dcnodes s)"
    "\<forall>q \<in> set (rs_dcnodes s). dn_node q = n_uuid n \<and> dn_pk q \<notin> dn_pk ` set rows \<longrightarrow>
       row_ok n (node_vms n s) (reserved_rows (n_uuid n) s) q"
  shows "(\<forall>q \<in> set (rs_dcnodes t). dn_node q = n_uuid n \<longrightarrow> row_ok n (node_vms n t) (reserved_rows (n_uuid n) t) q)
    \<and> rs_vms t = rs_vms s \<and> rsig (reserved_rows (n_uuid n) t) = rsig (reserved_rows (n_uuid n) s)"
  using assms
proof (induction rows arbitrary: s)
  case Nil
  then show ?case by (auto simp: prog_Inr_iff)
next
  case (Cons dn rows)
  obtain dn' s1 where d: "dcnode_save True dn n s = (Inr dn', s1)" and r: "pfor rows (\<lambda>dn. dcnode_save True dn n) s1 = (Inr (), t)"
    using Cons.prems(1) by (auto simp: pbind_Inr_iff)
  obtain p where p: "dn_pk dn = Some p" using Cons.prems(2,5) by force
  have "dn \<in> set (rs_dcnodes s)" using Cons.prems(2) by simp
  note st = dcnode_save_step [OF d this p Cons.prems(4), of "n_uuid n"]
  let ?g = "\<lambda>r. if dn_pk r = Some p then dn' else r"
  have D: "rs_dcnodes s1 = map ?g (rs_dcnodes s)" and pk: "dn_pk dn' = Some p" using st p by (simp_all add: same_row_def)
  have pks: "map dn_pk (rs_dcnodes s1) = map dn_pk (rs_dcnodes s)" by (simp add: D pk)
  have vms: "node_vms n s1 = node_vms n s" using st by (simp add: node_vms_def)
  have sub: "set rows \<subseteq> set (rs_dcnodes s1)"
  proof
    fix r assume r: "r \<in> set rows"
    then have "dn_pk r \<noteq> Some p" using Cons.prems(3) p by force
    then show "r \<in> set (rs_dcnodes s1)" using r Cons.prems(2) by (force simp: D)
  qed
  have others: "\<forall>q \<in> set (rs_dcnodes s1). dn_node q = n_uuid n \<and> dn_pk q \<notin> dn_pk ` set rows \<longrightarrow>
      row_ok n (node_vms n s1) (reserved_rows (n_uuid n) s1) q"
  proof (intro ballI impI)
    fix q assume q: "q \<in> set (rs_dcnodes s1)" "dn_node q = n_uuid n \<and> dn_pk q \<notin> dn_pk ` set rows"
    have "row_ok n (node_vms n s) (reserved_rows (n_uuid n) s) q"
    proof (cases "dn_pk q = Some p")
      case True
      then have "q = dn'" using q(1) by (auto simp: D split: if_splits)
      then show ?thesis using st by simp
    next
      case False
      then have "q \<in> set (rs_dcnodes s)" using q(1) pk by (auto simp: D split: if_splits)
      then show ?thesis using Cons.prems(6) False q(2) p by simp
    qed
    then show "row_ok n (node_vms n s1) (reserved_rows (n_uuid n) s1) q"
      using row_ok_sig [of "reserved_rows (n_uuid n) s1"] st vms by simp
  qed
  have rest: "distinct (map dn_pk rows)" "distinct (map dn_pk (rs_dcnodes s1))" "None \<notin> dn_pk ` set (rs_dcnodes s1)"
    using Cons.prems(3-5) pks by (simp, simp, metis list.set_map)
  have "rs_vms s1 = rs_vms s" "rsig (reserved_rows (n_uuid n) s1) = rsig (reserved_rows (n_uuid n) s)" using st by blast+
  then show ?case using Cons.IH [OF r sub rest others] by argo
qed

text \<open>
  C38. A node is not overcommitted. After a successful update of the resources of all datacenters of a node: if then none of
  its rows reports negative free CPUs or memory, and at least one row shares the node, with or without a limit, then all
  VMs on the node together use at most the CPUs and the memory of the node, whatever the strategies of the other rows are
  and in whichever datacenters the VMs are. The keys of the rows are distinct, and no datacenter has two rows that
  reserve the node, as the database guarantees.
\<close>

theorem node_not_overcommitted:
  assumes "dcnode_update_all u s = (Inr (), t)" "node_of_uuid u s = Some n"
    "distinct (map dn_pk (rs_dcnodes s))" "None \<notin> dn_pk ` set (rs_dcnodes s)" "distinct (map dn_dc (reserved_rows u s))"
    "\<forall>q \<in> set (rs_dcnodes t). dn_node q = u \<longrightarrow> dn_cpu_free q \<ge> 0 \<and> dn_ram_free q \<ge> 0"
    "\<exists>q \<in> set (rs_dcnodes t). dn_node q = u \<and> dn_strategy q \<in> {Strategy_SHARED, Strategy_SHARED_LIMIT}"
  shows "sum_cpu (zp_of n) (node_vms n t) \<le> cpu_total n \<and> sum_ram (zp_of n) (node_vms n t) \<le> ram_total n"
proof -
  have u: "n_uuid n = u" using assms(2) by (auto simp: node_of_uuid_def find_Some_iff)
  have r: "pfor (filter (\<lambda>r. dn_node r = u) (rs_dcnodes s)) (\<lambda>dn. dcnode_save True dn n) s = (Inr (), t)"
    using assms(1,2) by (simp add: dcnode_update_all_def node_of_uuid_def pbind_def pget_def)
  have dist: "distinct (map dn_pk (filter (\<lambda>r. dn_node r = u) (rs_dcnodes s)))"
    using assms(3) by (simp add: distinct_map_filter)
  have "\<forall>q \<in> set (rs_dcnodes s). dn_node q = n_uuid n \<and> dn_pk q \<notin> dn_pk ` set (filter (\<lambda>r. dn_node r = u) (rs_dcnodes s)) \<longrightarrow>
      row_ok n (node_vms n s) (reserved_rows (n_uuid n) s) q" using u by force
  from update_rows_ok [OF r _ dist assms(3,4) this]
  have ok: "\<And>q. q \<in> set (rs_dcnodes t) \<Longrightarrow> dn_node q = u \<Longrightarrow> row_ok n (node_vms n t) (reserved_rows u t) q"
    and sig: "rsig (reserved_rows u t) = rsig (reserved_rows u s)" using u by auto
  let ?R = "reserved_rows u t" and ?V = "node_vms n t" and ?z = "zp_of n"
  have dd: "distinct (map dn_dc ?R)" using assms(5) rsig_maps(1) [OF sig] by simp
  obtain q where q: "q \<in> set (rs_dcnodes t)" "dn_node q = u" "dn_strategy q \<in> {Strategy_SHARED, Strategy_SHARED_LIMIT}"
    using assms(7) by blast
  have sh: "0 \<le> cpu_total n - sum_list (map dn_cpu ?R) - sum_cpu ?z (unreserved ?R ?V)"
    "0 \<le> ram_total n - sum_list (map dn_ram ?R) - sum_ram ?z (unreserved ?R ?V)"
    using ok [OF q(1,2)] q assms(6) by (fastforce simp: row_ok_def Let_def)+
  have rv: "dn_cpu r - sum_cpu ?z (filter (\<lambda>x. v_dc x = dn_dc r) ?V) \<ge> 0 \<and> dn_ram r - sum_ram ?z (filter (\<lambda>x. v_dc x = dn_dc r) ?V) \<ge> 0"
    if "r \<in> set ?R" for r
    using ok [of r] assms(6) that by (auto simp: reserved_rows_def row_ok_def Let_def)
  show ?thesis
    using not_overcommitted [of ?R dn_cpu "\<lambda>x. fst (usage ?z x)" ?V "cpu_total n"]
      not_overcommitted [of ?R dn_ram "\<lambda>x. fst (snd (usage ?z x))" ?V "ram_total n"] dd sh rv
    by (simp add: sum_usage_defs unreserved_def)
qed

definition demo_hosted :: vm where
  "demo_hosted = demo_vm\<lparr>v_node := Some \<lparr>nr_uuid = ''n1'', nr_hostname = ''h1'', nr_status = 2\<rparr>,
     v_json := [(''cpu_cap'', VInt 500), (''max_physical_memory'', VInt 1024)],
     v_json_active := [(''cpu_cap'', VInt 500), (''max_physical_memory'', VInt 1024)]\<rparr>"

definition demo_dc_node :: dc_node where
  "demo_dc_node = \<lparr>dn_pk = Some 1, dn_dc = 1, dn_node = ''n1'', dn_priority = 100, dn_cpu = 0, dn_ram = 0, dn_disk = 0,
     dn_cpu_free = 0, dn_ram_free = 0, dn_disk_free = 0, dn_strategy = Strategy_SHARED, dn_json = []\<rparr>"

definition demo_state :: node_state where
  "demo_state = \<lparr>rs_cache = (\<lambda>k. None), rs_vms = [demo_hosted], rs_snaps = [], rs_backups = [], rs_images = (\<lambda>p. []),
     rs_nss = [], rs_storages = (\<lambda>p. None), rs_next_id = 100, rs_nodes = [demo_node], rs_dcnodes = [demo_dc_node],
     rs_all_nodes = None, rs_nictags = None\<rparr>"

theorem node_not_overcommitted_witness:
  "\<exists>t. dcnode_update_all ''n1'' demo_state = (Inr (), t) \<and> map dn_cpu_free (rs_dcnodes t) = [4]
    \<and> sum_cpu (zp_of demo_node) (node_vms demo_node t) \<le> 8"
proof -
  have "case dcnode_update_all ''n1'' demo_state of (Inr _, t) \<Rightarrow> map dn_cpu_free (rs_dcnodes t) = [4]
      \<and> list_all (\<lambda>q. dn_cpu_free q \<ge> 0 \<and> dn_ram_free q \<ge> 0) (rs_dcnodes t)
      \<and> list_ex (\<lambda>q. dn_node q = ''n1'' \<and> (dn_strategy q = Strategy_SHARED)) (rs_dcnodes t) | (Inl _, t) \<Rightarrow> False"
    by code_simp
  then obtain t where t: "dcnode_update_all ''n1'' demo_state = (Inr (), t)" "map dn_cpu_free (rs_dcnodes t) = [4]"
    "\<forall>q \<in> set (rs_dcnodes t). dn_node q = ''n1'' \<longrightarrow> dn_cpu_free q \<ge> 0 \<and> dn_ram_free q \<ge> 0"
    "\<exists>q \<in> set (rs_dcnodes t). dn_node q = ''n1'' \<and> dn_strategy q \<in> {Strategy_SHARED, Strategy_SHARED_LIMIT}"
    by (auto simp: list_all_iff list_ex_iff split: prod.splits sum.splits)
  have n: "node_of_uuid ''n1'' demo_state = Some demo_node" by (simp add: node_of_uuid_def demo_state_def demo_node_def)
  have "distinct (map dn_pk (rs_dcnodes demo_state))" "None \<notin> dn_pk ` set (rs_dcnodes demo_state)"
    "distinct (map dn_dc (reserved_rows ''n1'' demo_state))"
    by (simp_all add: demo_state_def demo_dc_node_def reserved_rows_def)
  from node_not_overcommitted [OF t(1) n this t(3,4)] have "sum_cpu (zp_of demo_node) (node_vms demo_node t) \<le> cpu_total demo_node" ..
  moreover have "cpu_total demo_node = 8" by code_simp
  ultimately show ?thesis using t(1,2) by auto
qed

section \<open>The chosen node\<close>

definition qualifies :: "int \<Rightarrow> node_state \<Rightarrow> dc_node \<Rightarrow> bool" where
  "qualifies vm_cpu s r \<longleftrightarrow> (case node_of_uuid (dn_node r) s of None \<Rightarrow> False
     | Some n \<Rightarrow> bhyve_capable n = Inr True \<and> (case bhyve_max_vcpus n of Inl e \<Rightarrow> False | Inr m \<Rightarrow> vm_cpu \<le> m))"

lemma last_bhyve_Some:
  assumes "last_bhyve vm_cpu s rs acc = Inr (Some n)"
  shows "(acc = Some n \<and> (\<forall>r \<in> set rs. \<not> qualifies vm_cpu s r)) \<or>
    (\<exists>pre q post. rs = pre @ q # post \<and> node_of_uuid (dn_node q) s = Some n \<and> qualifies vm_cpu s q
       \<and> (\<forall>r \<in> set post. \<not> qualifies vm_cpu s r))"
  using assms
proof (induction rs arbitrary: acc)
  case Nil
  then show ?case by simp
next
  case (Cons r rs)
  obtain acc' where rest: "last_bhyve vm_cpu s rs acc' = Inr (Some n)" and
    acc': "(qualifies vm_cpu s r \<and> acc' = node_of_uuid (dn_node r) s) \<or> (\<not> qualifies vm_cpu s r \<and> acc' = acc)"
    using Cons.prems
    by (cases "node_of_uuid (dn_node r) s") (auto simp: qualifies_def rbind_Inr_iff split: if_splits)
  from Cons.IH [OF rest] show ?case
  proof (elim disjE exE conjE)
    assume a: "acc' = Some n" "\<forall>r \<in> set rs. \<not> qualifies vm_cpu s r"
    show ?thesis
    proof (cases "qualifies vm_cpu s r")
      case True
      then show ?thesis using a acc' by (intro disjI2 exI [of _ "[]"] exI [of _ r] exI [of _ rs]) simp
    next
      case False
      then show ?thesis using a acc' by simp
    qed
  next
    fix pre q post assume "rs = pre @ q # post" "node_of_uuid (dn_node q) s = Some n" "qualifies vm_cpu s q"
      "\<forall>r \<in> set post. \<not> qualifies vm_cpu s r"
    then show ?thesis by (intro disjI2 exI [of _ "r # pre"] exI [of _ q] exI [of _ post]) simp
  qed
qed

lemma last_bhyve_None:
  "last_bhyve vm_cpu s rs acc = Inr None \<Longrightarrow> acc = None \<and> (\<forall>r \<in> set rs. \<not> qualifies vm_cpu s r)"
proof (induction rs arbitrary: acc)
  case (Cons r rs)
  obtain acc' where rest: "last_bhyve vm_cpu s rs acc' = Inr None" and
    acc': "(qualifies vm_cpu s r \<and> acc' = node_of_uuid (dn_node r) s) \<or> (\<not> qualifies vm_cpu s r \<and> acc' = acc)"
    using Cons.prems by (cases "node_of_uuid (dn_node r) s") (auto simp: qualifies_def rbind_Inr_iff split: if_splits)
  from Cons.IH [OF rest] have "acc' = None" "\<forall>r \<in> set rs. \<not> qualifies vm_cpu s r" by blast+
  then show ?case using acc' by (auto simp: qualifies_def split: option.splits)
qed simp

lemma choose_node_run:
  assumes "choose_node dc x s = (Inr c, t)" "get_cpu_ram True None x = Inr (cpu, mem)" "get_disks None False x = Inr disks"
  shows "last_bhyve cpu s (order_rows (filter (fits dc cpu mem disks s) (rs_dcnodes s))) None = Inr c \<and> t = s"
  using assms by (auto simp: choose_node_def)

text \<open>
  The loop that is to take the first candidate keeps the last one in the order: no candidate that qualifies has a lower
  priority than the row that is chosen.
\<close>

lemma chosen_is_last:
  assumes "choose_node dc x s = (Inr (Some n), t)" "get_cpu_ram True None x = Inr (cpu, mem)"
    "get_disks None False x = Inr disks"
  shows "\<exists>q \<in> set (rs_dcnodes s). fits dc cpu mem disks s q \<and> qualifies cpu s q \<and> node_of_uuid (dn_node q) s = Some n
    \<and> (\<forall>q' \<in> set (rs_dcnodes s). fits dc cpu mem disks s q' \<and> qualifies cpu s q' \<longrightarrow> dn_priority q \<le> dn_priority q')"
proof -
  let ?rows = "filter (fits dc cpu mem disks s) (rs_dcnodes s)"
  have l: "last_bhyve cpu s (order_rows ?rows) None = Inr (Some n)" using choose_node_run [OF assms] by blast
  from last_bhyve_Some [OF l] obtain pre q post where o: "order_rows ?rows = pre @ q # post"
    and q: "node_of_uuid (dn_node q) s = Some n" "qualifies cpu s q" and post: "\<forall>r \<in> set post. \<not> qualifies cpu s r"
    by auto
  have set: "set (pre @ q # post) = set ?rows" unfolding o [symmetric] order_rows_def by simp
  then have qi: "q \<in> set (rs_dcnodes s)" "fits dc cpu mem disks s q" by auto
  have "sorted (map node_order (pre @ q # post))" unfolding o [symmetric] order_rows_def by simp
  then have pre: "node_order r \<le> node_order q" if "r \<in> set pre" for r using that by (auto simp: sorted_append)
  have "dn_priority q \<le> dn_priority q'" if "q' \<in> set (rs_dcnodes s)" "fits dc cpu mem disks s q'" "qualifies cpu s q'" for q'
  proof -
    have "q' \<in> set pre \<or> q' = q" using that set post by auto
    then have "node_order q' \<le> node_order q" using pre by auto
    then show ?thesis by (auto simp: node_order_def)
  qed
  then show ?thesis using qi q by (intro bexI [of _ q]) auto
qed

text \<open>
  A row of the datacenter whose node may host the VM: it is online and a compute node, the free CPUs, memory and local
  disk of the row suffice, the VM has no disk or one of its pools has room for the disks on it, and the node has the
  capability and the CPUs for a bhyve VM.
\<close>

definition suitable :: "int \<Rightarrow> int \<Rightarrow> int \<Rightarrow> (pyval \<times> int) list \<Rightarrow> node_state \<Rightarrow> dc_node \<Rightarrow> node \<Rightarrow> bool" where
  "suitable dc cpu mem disks s q n \<longleftrightarrow> dn_dc q = dc \<and> node_of_uuid (dn_node q) s = Some n
     \<and> n_status n = Node_ONLINE \<and> n_is_compute n
     \<and> check_free_resources (Some cpu) (Some mem) (map_of disks (VStr NODE_ZPOOL)) q
     \<and> (disks = [] \<or> (\<exists>ns \<in> set (rs_nss s). ns_node ns = n_uuid n \<and> dc \<in> set (ns_dcs ns)
          \<and> (\<exists>d. (VStr (ns_zpool ns), d) \<in> set disks \<and> d \<le> st_size_free (ns_storage (fresh_ns s ns)))))
     \<and> bhyve_capable n = Inr True \<and> (\<exists>m. bhyve_max_vcpus n = Inr m \<and> cpu \<le> m)"

lemma suitable_iff:
  assumes "node_of_uuid (dn_node q) s = Some n"
  shows "fits dc cpu mem disks s q \<and> qualifies cpu s q \<longleftrightarrow> suitable dc cpu mem disks s q n"
proof -
  have u: "dn_node q = n_uuid n" using assms by (auto simp: node_of_uuid_def find_Some_iff)
  have h: "has_free_storage dc disks s (dn_node q) \<longleftrightarrow> (\<exists>ns \<in> set (rs_nss s). ns_node ns = n_uuid n \<and> dc \<in> set (ns_dcs ns)
          \<and> (\<exists>d. (VStr (ns_zpool ns), d) \<in> set disks \<and> d \<le> st_size_free (ns_storage (fresh_ns s ns))))"
    unfolding has_free_storage_def u list_ex_iff by fastforce
  show ?thesis unfolding suitable_def fits_def qualifies_def assms option.case h check_free_resources_def
    by (cases "bhyve_max_vcpus n"; cases "map_of disks (VStr NODE_ZPOOL)") auto
qed

text \<open>
  C39. The choice of a node for a VM. It changes nothing; a chosen node is suitable for the VM by one of the rows of the
  datacenter, and when no node is chosen no row has a suitable node. Which of several suitable nodes is chosen is not
  stated (see \<open>chosen_is_last\<close>: the source does not choose the one that its comment announces). As in the source, a VM
  with disks on several pools needs room on one of them only, besides its local disks, and every VM is tested for bhyve.
\<close>

theorem chosen_node_fits:
  assumes "choose_node dc x s = (Inr c, t)" "get_cpu_ram True None x = Inr (cpu, mem)" "get_disks None False x = Inr disks"
  shows "t = s \<and> (case c of
      Some n \<Rightarrow> \<exists>q \<in> set (rs_dcnodes s). suitable dc cpu mem disks s q n
    | None \<Rightarrow> \<forall>q \<in> set (rs_dcnodes s). \<forall>n. \<not> suitable dc cpu mem disks s q n)"
proof (cases c)
  case None
  have l: "last_bhyve cpu s (order_rows (filter (fits dc cpu mem disks s) (rs_dcnodes s))) None = Inr None" "t = s"
    using choose_node_run [OF assms] None by simp_all
  have "\<not> suitable dc cpu mem disks s q n" if q: "q \<in> set (rs_dcnodes s)" for q n
  proof
    assume a: "suitable dc cpu mem disks s q n"
    then have "node_of_uuid (dn_node q) s = Some n" by (simp add: suitable_def)
    then have "fits dc cpu mem disks s q" "qualifies cpu s q" using suitable_iff a by blast+
    then show False using last_bhyve_None [OF l(1)] q by (simp add: order_rows_def)
  qed
  then show ?thesis using None l(2) by simp
next
  case (Some n)
  have t: "t = s" using choose_node_run [OF assms] by blast
  obtain q where q: "q \<in> set (rs_dcnodes s)" "fits dc cpu mem disks s q" "qualifies cpu s q" "node_of_uuid (dn_node q) s = Some n"
    using chosen_is_last [OF assms(1) [unfolded Some] assms(2,3)] by blast
  have "suitable dc cpu mem disks s q n" using suitable_iff [OF q(4)] q(2,3) by blast
  then show ?thesis using t q(1) Some by auto
qed

definition demo_bhyve_node :: node where
  "demo_bhyve_node = demo_node\<lparr>n_json := [(''sysinfo'', VDict [(''Bhyve Capable'', VStr ''true'')])]\<rparr>"

definition demo_choice :: "string \<Rightarrow> int \<Rightarrow> dc_node" where
  "demo_choice uuid prio = demo_dc_node\<lparr>dn_node := uuid, dn_priority := prio, dn_cpu_free := 8, dn_ram_free := 4096\<rparr>"

definition demo_choice_state :: node_state where
  "demo_choice_state = demo_state\<lparr>rs_nodes := [demo_bhyve_node, demo_bhyve_node\<lparr>n_uuid := ''n2''\<rparr>],
     rs_dcnodes := [demo_choice ''n1'' 200, demo_choice ''n2'' 50]\<rparr>"

theorem chosen_node_fits_witness:
  "\<exists>n t. choose_node 1 demo_hosted demo_choice_state = (Inr (Some n), t) \<and> n_uuid n = ''n2'' \<and> n_status n = Node_ONLINE"
proof -
  have "case fst (choose_node 1 demo_hosted demo_choice_state) of Inr (Some n) \<Rightarrow> n_uuid n = ''n2'' | _ \<Rightarrow> False" by code_simp
  then obtain n t where c: "choose_node 1 demo_hosted demo_choice_state = (Inr (Some n), t)" "n_uuid n = ''n2''"
    by (cases "choose_node 1 demo_hosted demo_choice_state") (auto split: sum.splits option.splits)
  have "get_cpu_ram True None demo_hosted = Inr (4, 1024)" "get_disks None False demo_hosted = Inr []" by code_simp+
  from chosen_node_fits [OF c(1) this] have "n_status n = Node_ONLINE" by (auto simp: suitable_def)
  then show ?thesis using c by blast
qed

end
