(* ===== verification/Node_Save.thy ===== *)
theory Node_Save
  imports Dc_Node
begin

text \<open>
  What saving a node, a node storage or the resources of the datacenters leaves alone. The
  interface \<open>resource_inv\<close> lists the writes that these operations make; every property of the
  state that survives them survives the operations. It is used for the NIC tags of all nodes here
  and for the cache of sizes in the theory of snapshots.
\<close>

section \<open>The interface\<close>

locale resource_inv =
  fixes P :: "node_state \<Rightarrow> bool"
  assumes storages: "P s \<Longrightarrow> P (s\<lparr>rs_storages := x, rs_next_id := i\<rparr>)"
    and nss: "P s \<Longrightarrow> P (s\<lparr>rs_nss := y, rs_next_id := i\<rparr>)"
    and dcnodes: "P s \<Longrightarrow> P (s\<lparr>rs_dcnodes := z, rs_next_id := i\<rparr>)"
    and vms_key: "P s \<Longrightarrow> k \<in> {VmsSizeTotal p, VmsSizeDc d p, VmsSizeTotalDc d} \<Longrightarrow> P (s\<lparr>rs_cache := (rs_cache s)(k := v)\<rparr>)"
    and snapshots: "keeps P (get_snapshots_size ns clear)"
    and backups: "keeps P (get_backups_size ns clear)"
    and dc_snapshots: "keeps P (get_dc_snapshots_size ns d clear)"
    and dc_backups: "keeps P (get_dc_backups_size ns d clear)"
begin

lemma keeps_vms_key:
  "keeps P (cache_set (VmsSizeTotal p) v)" "keeps P (cache_set (VmsSizeDc d p) v)" "keeps P (cache_set (VmsSizeTotalDc d) v)"
  unfolding cache_set_def by (rule keeps_pmod, rule vms_key, assumption, simp)+

lemma keeps_rep: "keeps P (get_rep_snapshots_size ns)"
  unfolding get_rep_snapshots_size_def by (intro keeps_intros)

lemma keeps_vms_sizes: "keeps P (get_vms_size ns clear)" "keeps P (get_dc_vms_size ns d clear)"
proof -
  show "keeps P (get_vms_size ns clear)"
    unfolding get_vms_size_def with_pk_def related_size_def some_size_def
    by (intro keeps_intros keeps_vms_key)
  have "keeps P (dc_vms_size_cached ns d clear)" for ns clear
    unfolding dc_vms_size_cached_def with_pk_def related_size_def some_size_def
    by (intro keeps_intros keeps_vms_key)
  then show "keeps P (get_dc_vms_size ns d clear)"
    unfolding get_dc_vms_size_def by (intro keeps_intros keeps_vms_key)
qed

lemmas keeps_sizes = keeps_vms_sizes keeps_rep snapshots backups dc_snapshots dc_backups keeps_vms_key

lemma keeps_storage_save: "keeps P (storage_save st)"
  unfolding keeps_def
proof (intro allI impI)
  fix s assume s: "P s"
  have "P (s\<lparr>rs_storages := x\<rparr>)" for x using storages [OF s, where x = x and i = "rs_next_id s"] by (cases s) simp
  then show "P (snd (storage_save st s))"
    using storages [OF s] by (cases "st_pk st") (simp_all add: storage_save_def Let_def)
qed

lemma keeps_ns_update: "keeps P (ns_update_resources save rc ns)"
  unfolding ns_update_resources_def get_free_size_def
  by (intro keeps_intros keeps_sizes keeps_storage_save)

lemma keeps_ns_write: "keeps P (ns_write ns)"
  unfolding keeps_def
proof (intro allI impI)
  fix s assume s: "P s"
  have "P (s\<lparr>rs_nss := x\<rparr>)" for x using nss [OF s, where y = x and i = "rs_next_id s"] by (cases s) simp
  then show "P (snd (ns_write ns s))" using nss [OF s] by (cases "ns_pk ns") (simp_all add: ns_write_def Let_def)
qed

lemma keeps_dcnode_write: "keeps P (dcnode_write dn)"
  unfolding keeps_def
proof (intro allI impI)
  fix s assume s: "P s"
  have "P (s\<lparr>rs_dcnodes := x\<rparr>)" for x using dcnodes [OF s, where z = x and i = "rs_next_id s"] by (cases s) simp
  then show "P (snd (dcnode_write dn s))" using dcnodes [OF s] by (cases "dn_pk dn") (simp_all add: dcnode_write_def Let_def)
qed

lemma keeps_node_storage_of: "keeps P (node_storage_of n)"
  unfolding node_storage_of_def by (intro keeps_intros)

lemma keeps_free: "keeps P (get_free_resources tot dc e es n)"
  unfolding get_free_resources_def by (intro keeps_intros)

lemma keeps_overhead: "keeps P (get_ram_kvm_overhead dc n)"
  unfolding get_ram_kvm_overhead_def by (intro keeps_intros)

lemma keeps_resources: "keeps P (node_resources n)"
  unfolding node_resources_def other_sizes_def by (intro keeps_intros keeps_sizes keeps_node_storage_of)

lemma keeps_dcnode_save: "keeps P (dcnode_save update dn n)"
proof -
  have "keeps P (get_nonreserved_free_resources b dn n)" for b
    unfolding get_nonreserved_free_resources_def by (intro keeps_intros keeps_resources keeps_free)
  then have "keeps P (dcnode_update_resources dn n)"
    unfolding dcnode_update_resources_def by (intro keeps_intros keeps_free keeps_overhead)
  then show ?thesis unfolding dcnode_save_def by (intro keeps_intros keeps_dcnode_write)
qed

lemma keeps_update_all: "keeps P (dcnode_update_all u)"
  unfolding dcnode_update_all_def by (intro keeps_intros keeps_dcnode_save)

lemma keeps_ns_save: "keeps P (ns_save update update_dcnode rc ns)"
  unfolding ns_save_def by (intro keeps_intros keeps_ns_update keeps_ns_write keeps_update_all)

lemma keeps_local_storage: "keeps P (save_local_storage create n)"
  unfolding save_local_storage_def by (intro keeps_intros keeps_node_storage_of keeps_storage_save keeps_ns_save)

end

section \<open>NIC tags after saving a node\<close>

definition nodes_and_tags :: "node list \<Rightarrow> (pyval \<times> string) list option \<Rightarrow> node_state \<Rightarrow> bool" where
  "nodes_and_tags N T s \<longleftrightarrow> rs_nodes s = N \<and> rs_nictags s = T"

lemma nodes_and_tags_cache: "keeps (nodes_and_tags N T) (cache_set k v)"
  unfolding cache_set_def by (rule keeps_pmod) (simp add: nodes_and_tags_def)

interpretation nt: resource_inv "nodes_and_tags N T" for N T
proof
  fix ns clear d
  note defs = get_snapshots_size_def get_backups_size_def get_dc_snapshots_size_def get_dc_backups_size_def with_pk_def
    related_size_def some_size_def calculate_snapshots_size_def calculate_backups_size_def
  show "keeps (nodes_and_tags N T) (get_snapshots_size ns clear)" "keeps (nodes_and_tags N T) (get_backups_size ns clear)"
    "keeps (nodes_and_tags N T) (get_dc_snapshots_size ns d clear)" "keeps (nodes_and_tags N T) (get_dc_backups_size ns d clear)"
    unfolding defs by (intro keeps_intros nodes_and_tags_cache)+
qed (simp_all add: nodes_and_tags_def)

lemma keeps_atomic_tags: "keeps (nodes_and_tags N T) m \<Longrightarrow> keeps (nodes_and_tags N T) (atomic m)"
  unfolding keeps_def atomic_def nodes_and_tags_def by (fastforce split: prod.splits sum.splits)

lemma keeps_save_zpools: "keeps (nodes_and_tags N T) (save_zpools n)"
proof -
  have "keeps (nodes_and_tags N T) (save_zpool pools ns)" for pools ns
  proof (cases "map_of pools (ns_zpool ns)")
    case None
    then show ?thesis by (simp add: save_zpool_def keeps_pure)
  next
    case (Some v)
    show ?thesis
    proof (cases v)
      case (VDict d)
      then show ?thesis using Some
        by (cases "map_of d ''size''")
           (simp_all add: save_zpool_def keeps_pure, intro impI keeps_intros keeps_atomic_tags nt.keeps_storage_save nt.keeps_ns_save)
    qed (simp_all add: save_zpool_def Some keeps_pure)
  qed
  then show ?thesis
    by (cases "zpools n") (simp_all add: save_zpools_def keeps_pure, intro impI keeps_intros)
qed



end
