(* ===== verification/Snapshots.thy ===== *)
theory Snapshots
  imports Node_Save
begin

text \<open>
  Snapshots and backups of disks, \<^verbatim>\<open>vms/models/snapshot.py\<close> and \<^verbatim>\<open>vms/models/backup.py\<close>, with the
  disk numbers and cron schedules of \<^verbatim>\<open>vms/models/base.py\<close>: the names on the compute node, the paths
  of backups, the sums of sizes that are kept in the cache and the updates after which the cache
  agrees with the database again.
\<close>

section \<open>Disks\<close>

text \<open>
  \<open>disk_id\<close> is the number in the path of a disk, the numbers that users see are positions in the
  active definition, from one.
\<close>

definition item_at :: "'a list \<Rightarrow> int \<Rightarrow> 'a res" where
  "item_at xs i = (if 0 \<le> i \<and> i < int (length xs) then Inr (xs ! nat i)
     else if i < 0 \<and> - i \<le> int (length xs) then Inr (xs ! nat (int (length xs) + i))
     else Inl (Exn IndexError ''list index out of range''))"

definition disk_map_of :: "vm \<Rightarrow> (pydict list \<times> (int \<times> nat) list) res" where
  "disk_map_of x = rbind (json_active_get_disks x) (\<lambda>ds. rbind (get_disk_map ds) (\<lambda>m. Inr (ds, m)))"

definition array_disk_id :: "vm \<Rightarrow> int \<Rightarrow> int res" where
  "array_disk_id x disk_id = rbind (disk_map_of x) (\<lambda>(ds, m). case map_of m disk_id of
      None \<Rightarrow> Inl (Exn KeyError (int_str disk_id)) | Some i \<Rightarrow> Inr (int i + 1))"

definition disk_item :: "string \<Rightarrow> vm \<Rightarrow> int \<Rightarrow> pyval res" where
  "disk_item key x disk_id = rbind (array_disk_id x disk_id) (\<lambda>a. rbind (json_active_get_disks x) (\<lambda>ds.
     rbind (item_at ds (a - 1)) (\<lambda>d. ditem d key)))"

definition snap_disk_size :: "vm \<Rightarrow> int \<Rightarrow> pyval res" where "snap_disk_size = disk_item ''size''"
definition snap_zfs_filesystem :: "vm \<Rightarrow> int \<Rightarrow> pyval res" where "snap_zfs_filesystem = disk_item ''zfs_filesystem''"

definition get_disk_id :: "vm \<Rightarrow> int \<Rightarrow> int res" where
  "get_disk_id x array_id = rbind (json_active_get_disks x) (\<lambda>ds. rbind (item_at ds (array_id - 1)) get_real_disk_id)"

section \<open>Snapshots\<close>

definition Snapshot_AUTO :: int where "Snapshot_AUTO = 1"
definition Snapshot_MANUAL :: int where "Snapshot_MANUAL = 2"
definition SNAPSHOT_USER_PREFIX :: "string list" where "SNAPSHOT_USER_PREFIX = [''es-'', ''as-'']"
definition SNAPSHOT_LOCKED :: "int list" where "SNAPSHOT_LOCKED = [Snapshot_PENDING, Snapshot_ROLLBACK]"

definition snapshot_locked :: "snapshot \<Rightarrow> bool" where
  "snapshot_locked r \<longleftrightarrow> sn_status r \<in> set SNAPSHOT_LOCKED"

definition snapid :: "int \<Rightarrow> snapshot \<Rightarrow> string" where
  "snapid array_id r = int_str array_id @ ''_'' @ sn_name r"

definition zfs_name :: "snapshot \<Rightarrow> string" where
  "zfs_name r = (if sn_type r = Snapshot_AUTO then TT_AUTO else TT_EXEC) @ ''s-'' @ int_str (sn_id r)"

text \<open>The new row, with its VM, node storage and remaining attributes given in \<open>base\<close>.\<close>

definition create_from_zfs_name :: "string \<Rightarrow> int \<Rightarrow> string option \<Rightarrow> int option \<Rightarrow> snapshot \<Rightarrow> snapshot res" where
  "create_from_zfs_name zname status name timestamp base =
     (case split_on (CHR ''-'') zname of
        t # i # ps \<Rightarrow>
          rbind (case t of [] \<Rightarrow> Inl (Exn IndexError ''string index out of range'') | c # cs \<Rightarrow> Inr [c]) (\<lambda>t0.
          rbind (if t0 = TT_EXEC then Inr Snapshot_MANUAL else if t0 = TT_AUTO then Inr Snapshot_AUTO
                 else Inl (Exn AssertionError ''Unknown snapshot type'')) (\<lambda>ty.
          rbind (str_int (join_with ''-'' (i # ps))) (\<lambda>id.
            Inr (base\<lparr>sn_id := id, sn_type := ty, sn_status := status,
              sn_name := (case name of None \<Rightarrow> zname | Some m \<Rightarrow> if m = [] \<or> m = ''-'' then zname else m),
              sn_created := (case timestamp of None \<Rightarrow> sn_created base | Some ts \<Rightarrow> if ts = 0 then sn_created base else Some ts)\<rparr>))))
      | _ \<Rightarrow> Inl (Exn ValueError ''need more than 1 value to unpack''))"

definition snap_rows :: "(snapshot \<Rightarrow> bool) \<Rightarrow> 'z res_state_scheme \<Rightarrow> int option list" where
  "snap_rows sel s = map sn_size (filter (\<lambda>r. sel r \<and> counted_snapshot r) (rs_snaps s))"

definition snapshot_get_total_dc_size :: "int \<Rightarrow> int nprog" where
  "snapshot_get_total_dc_size dc = get_cached_size (SnapTotalDc dc) (snap_rows (\<lambda>r. sn_dc r = dc))"

definition snapshot_get_total_vm_size :: "string \<Rightarrow> int nprog" where
  "snapshot_get_total_vm_size uuid = get_cached_size (SnapTotalVm uuid) (snap_rows (\<lambda>r. sn_vm r = uuid))"

definition snapshot_clear_total_dc_size :: "int \<Rightarrow> unit nprog" where
  "snapshot_clear_total_dc_size dc = clear_cached_size (SnapTotalDc dc)"

definition snapshot_clear_total_vm_size :: "string \<Rightarrow> unit nprog" where
  "snapshot_clear_total_vm_size uuid = clear_cached_size (SnapTotalVm uuid)"

definition snapshot_update_resources :: "node_storage \<Rightarrow> vm option \<Rightarrow> int option \<Rightarrow> unit nprog" where
  "snapshot_update_resources ns x dc =
     pbind (pres (case (dc, x) of (Some d, _) \<Rightarrow> Inr d | (None, Some v) \<Rightarrow> Inr (v_dc v)
       | (None, None) \<Rightarrow> Inl (Exn AttributeError ''dc''))) (\<lambda>d.
     pbind (ns_save True True \<lparr>rc_vms = False, rc_snapshots = True, rc_backups = False, rc_dc_vms = [],
         rc_dc_snapshots = [d], rc_dc_backups = []\<rparr> ns) (\<lambda>_.
     pbind (snapshot_clear_total_dc_size d) (\<lambda>_.
       case x of None \<Rightarrow> pret () | Some v \<Rightarrow> snapshot_clear_total_vm_size (v_uuid v))))"

section \<open>Backups\<close>

definition Backup_DATASET :: int where "Backup_DATASET = 1"
definition Backup_FILE :: int where "Backup_FILE = 2"
definition COMPRESSION_NONE :: int where "COMPRESSION_NONE = 0"
definition COMPRESSION_GZIP :: int where "COMPRESSION_GZIP = 1"
definition COMPRESSION_BZIP2 :: int where "COMPRESSION_BZIP2 = 2"
definition COMPRESSION_XZ :: int where "COMPRESSION_XZ = 3"
definition FILE_SUFFIX :: "(int \<times> string) list" where
  "FILE_SUFFIX = [(COMPRESSION_NONE, ''zfs''), (COMPRESSION_GZIP, ''zfs.gz''), (COMPRESSION_BZIP2, ''zfs.bz2''),
     (COMPRESSION_XZ, ''zfs.xz'')]"
definition BACKUP_LOCKED :: "int list" where "BACKUP_LOCKED = [Backup_PENDING, Backup_RESTORE]"

definition backup_locked :: "backup \<Rightarrow> bool" where
  "backup_locked b \<longleftrightarrow> bk_status b \<in> set BACKUP_LOCKED"

definition backup_vm_brand :: "backup \<Rightarrow> pyval" where
  "backup_vm_brand b = dget (bk_json b) ''brand'' (VStr ''kvm'')"

definition backup_get_disks :: "backup \<Rightarrow> pydict list res" where
  "backup_get_disks b = rbind (ditem (bk_json b) ''uuid'') (\<lambda>u. case u of
      VStr uuid \<Rightarrow> parse_json_disks uuid (bk_json b)
        (py_eq (backup_vm_brand b) (VStr ''kvm'') \<or> py_eq (backup_vm_brand b) (VStr ''bhyve'')) False None
    | _ \<Rightarrow> Inl (Exn TypeError ''uuid''))"

definition backup_array_disk_id :: "backup \<Rightarrow> int" where
  "backup_array_disk_id b = bk_vm_disk_id b + 1"

definition backup_vm_uuid :: "backup \<Rightarrow> pyval res" where
  "backup_vm_uuid b = (case bk_vm b of Some u \<Rightarrow> Inr (VStr u) | None \<Rightarrow> ditem (bk_json b) ''uuid'')"

definition backup_vm_hostname_real :: "vm option \<Rightarrow> backup \<Rightarrow> string" where
  "backup_vm_hostname_real x b = (case x of Some v \<Rightarrow> v_hostname v | None \<Rightarrow> bk_vm_hostname b)"

definition backup_disk_item :: "string \<Rightarrow> backup \<Rightarrow> pyval res" where
  "backup_disk_item key b = rbind (backup_get_disks b) (\<lambda>ds. rbind (item_at ds (bk_vm_disk_id b)) (\<lambda>d. ditem d key))"

definition backup_disk_size :: "backup \<Rightarrow> pyval res" where "backup_disk_size = backup_disk_item ''size''"
definition backup_zfs_filesystem :: "backup \<Rightarrow> pyval res" where "backup_zfs_filesystem = backup_disk_item ''zfs_filesystem''"

text \<open>Of the VM when it still has the disk, else of the definition that was backed up.\<close>

definition backup_zfs_filesystem_real :: "vm option \<Rightarrow> backup \<Rightarrow> pyval res" where
  "backup_zfs_filesystem_real x b = (case x of
      None \<Rightarrow> backup_zfs_filesystem b
    | Some v \<Rightarrow>
        (case rbind (disk_map_of v) (\<lambda>(ds, m). case map_of m (bk_disk_id b) of
             None \<Rightarrow> Inl (Exn KeyError (int_str (bk_disk_id b)))
           | Some i \<Rightarrow> rbind (item_at ds (int i)) (\<lambda>d. ditem d ''zfs_filesystem'')) of
           Inl (Exn c m) \<Rightarrow> (if c = IndexError \<or> c = KeyError then backup_zfs_filesystem b else Inl (Exn c m))
         | Inr f \<Rightarrow> Inr f))"

definition bkpid :: "backup \<Rightarrow> string" where
  "bkpid b = int_str (backup_array_disk_id b) @ ''_'' @ bk_name b"

definition backup_snap_name :: "backup \<Rightarrow> string" where
  "backup_snap_name b = ''is-'' @ int_str (bk_id b)"

definition backup_file_name :: "int \<Rightarrow> backup \<Rightarrow> string res" where
  "backup_file_name compression b = (if bk_name b = [] then Inl (Exn AssertionError [])
     else (case map_of FILE_SUFFIX compression of
       None \<Rightarrow> Inl (Exn KeyError (int_str compression))
     | Some sfx \<Rightarrow> Inr (bk_name b @ ''-full.'' @ sfx)))"

text \<open>\<open>posixpath.join\<close>.\<close>

definition path_join2 :: "string \<Rightarrow> string \<Rightarrow> string" where
  "path_join2 p q = (if startswith q ''/'' then q
     else if p = [] \<or> last p = CHR ''/'' then p @ q else p @ ''/'' @ q)"

definition path_join :: "string \<Rightarrow> string list \<Rightarrow> string" where
  "path_join p qs = foldl path_join2 p qs"

record backup_dirs =
  bd_file :: string
  bd_ds :: string
  bd_manifests_file :: string
  bd_manifests_ds :: string

definition create_file_path :: "backup_dirs \<Rightarrow> string \<Rightarrow> string \<Rightarrow> int \<Rightarrow> backup \<Rightarrow> string res" where
  "create_file_path dirs pool vm_uuid compression b = rbind (backup_file_name compression b) (\<lambda>f.
     Inr (path_join ''/'' [pool, bd_file dirs, vm_uuid, ''disk'' @ int_str (bk_disk_id b), f]))"

definition create_dataset_path :: "backup_dirs \<Rightarrow> string \<Rightarrow> string \<Rightarrow> backup \<Rightarrow> string" where
  "create_dataset_path dirs pool vm_uuid b = path_join pool [bd_ds dirs, vm_uuid @ ''-disk'' @ int_str (bk_disk_id b)]"

definition create_file_manifest_path :: "backup_dirs \<Rightarrow> string \<Rightarrow> string \<Rightarrow> int \<Rightarrow> backup \<Rightarrow> string res" where
  "create_file_manifest_path dirs pool vm_uuid compression b = rbind (backup_file_name compression b) (\<lambda>f.
     Inr (path_join ''/'' [pool, bd_manifests_file dirs, vm_uuid, ''disk'' @ int_str (bk_disk_id b), f @ ''.json'']))"

definition create_dataset_manifest_path :: "backup_dirs \<Rightarrow> string \<Rightarrow> string \<Rightarrow> backup \<Rightarrow> string" where
  "create_dataset_manifest_path dirs pool vm_uuid b =
     path_join ''/'' [pool, bd_manifests_ds dirs, vm_uuid @ ''-disk'' @ int_str (bk_disk_id b), backup_snap_name b @ ''.json'']"

definition backup_rows :: "(backup \<Rightarrow> bool) \<Rightarrow> 'z res_state_scheme \<Rightarrow> int option list" where
  "backup_rows sel s = map bk_size (filter (\<lambda>r. sel r \<and> counted_backup r) (rs_backups s))"

definition backup_get_total_dc_size :: "int \<Rightarrow> int nprog" where
  "backup_get_total_dc_size dc = get_cached_size (BackupTotalDc dc) (backup_rows (\<lambda>r. bk_dc r = dc))"

definition backup_get_total_vm_size :: "string \<Rightarrow> int nprog" where
  "backup_get_total_vm_size uuid = get_cached_size (BackupTotalVm uuid) (backup_rows (\<lambda>r. bk_vm r = Some uuid))"

definition backup_clear_total_dc_size :: "int \<Rightarrow> unit nprog" where
  "backup_clear_total_dc_size dc = clear_cached_size (BackupTotalDc dc)"

definition backup_clear_total_vm_size :: "string \<Rightarrow> unit nprog" where
  "backup_clear_total_vm_size uuid = clear_cached_size (BackupTotalVm uuid)"

definition backup_update_resources :: "node_storage \<Rightarrow> vm option \<Rightarrow> int \<Rightarrow> unit nprog" where
  "backup_update_resources ns x dc =
     pbind (ns_save True True \<lparr>rc_vms = False, rc_snapshots = False, rc_backups = True, rc_dc_vms = [],
         rc_dc_snapshots = [], rc_dc_backups = [dc]\<rparr> ns) (\<lambda>_.
     pbind (backup_clear_total_dc_size dc) (\<lambda>_.
       case x of None \<Rightarrow> pret () | Some v \<Rightarrow> backup_clear_total_vm_size (v_uuid v)))"

section \<open>Names and numbers\<close>

text \<open>
  Names of snapshots on the compute node. A row that is created again from the name that a
  snapshot has on the node gets its number and type; a missing name or a dash is replaced by the
  name on the node.
\<close>

theorem zfs_name_roundtrip:
  assumes "sn_type r \<in> {Snapshot_AUTO, Snapshot_MANUAL}" "sn_id r \<ge> 0"
  shows "\<exists>r'. create_from_zfs_name (zfs_name r) status name ts base = Inr r'
    \<and> sn_id r' = sn_id r \<and> sn_type r' = sn_type r \<and> sn_status r' = status
    \<and> sn_name r' = (if name = None \<or> name = Some [] \<or> name = Some ''-'' then zfs_name r else the name)
    \<and> zfs_name r' = zfs_name r"
proof -
  have d: "CHR ''-'' \<notin> set (int_str (sn_id r))"
    using assms(2) isdigit_no_dash [OF isdigit_nat_str, of "nat (sn_id r)"] by (simp add: int_str_def)
  have s: "split_on (CHR ''-'') (zfs_name r) = [(if sn_type r = Snapshot_AUTO then TT_AUTO else TT_EXEC) @ ''s'', int_str (sn_id r)]"
    using split_on_append_sep [of "CHR ''-''" "(if sn_type r = Snapshot_AUTO then TT_AUTO else TT_EXEC) @ ''s''" "int_str (sn_id r)"]
      split_on_no_sep [OF d] by (simp add: zfs_name_def TT_AUTO_def TT_EXEC_def)
  have str: "str_int (int_str (sn_id r)) = Inr (sn_id r)" by (rule str_int_int_str)
  from assms(1) show ?thesis
    unfolding create_from_zfs_name_def s
    by (auto simp: TT_AUTO_def TT_EXEC_def str Snapshot_AUTO_def Snapshot_MANUAL_def zfs_name_def split: option.splits)
qed

theorem zfs_name_roundtrip_witness:
  "\<exists>r'. create_from_zfs_name ''es-1'' Snapshot_OK None None demo_snapshot = Inr r' \<and> sn_id r' = 1 \<and> sn_name r' = ''es-1''"
proof -
  have z: "zfs_name demo_snapshot = ''es-1''" by code_simp
  have "sn_type demo_snapshot \<in> {Snapshot_AUTO, Snapshot_MANUAL}" "sn_id demo_snapshot \<ge> 0" "sn_id demo_snapshot = 1"
    by (simp_all add: demo_snapshot_def Snapshot_AUTO_def Snapshot_MANUAL_def)
  with zfs_name_roundtrip [of demo_snapshot Snapshot_OK None None demo_snapshot] z show ?thesis by auto
qed

lemma index_map_get:
  assumes "index_map f i ds acc = Inr m" "map_of m k = Some j"
  shows "map_of acc k = Some j \<or> (i \<le> j \<and> j < i + length ds \<and> f (ds ! (j - i)) = Inr k)"
  using assms
proof (induction ds arbitrary: i acc)
  case Nil
  then show ?case by simp
next
  case (Cons d ds)
  obtain q where q: "f d = Inr q" "index_map f (Suc i) ds (AList.update q i acc) = Inr m"
    using Cons.prems(1) by (auto simp: rbind_Inr_iff)
  from Cons.IH [OF q(2) Cons.prems(2)] show ?case
  proof
    assume "map_of (AList.update q i acc) k = Some j"
    then show ?thesis using q(1) by (auto simp: map_of_update split: if_splits)
  next
    assume "Suc i \<le> j \<and> j < Suc i + length ds \<and> f (ds ! (j - Suc i)) = Inr k"
    then show ?thesis by (auto simp: nth_Cons' Suc_diff_Suc)
  qed
qed

text \<open>
  Numbers of disks. The number that users see for the disk of a snapshot leads back to the real
  number of the disk in the active definition of the VM.
\<close>

theorem array_disk_id_roundtrip:
  assumes "array_disk_id x disk_id = Inr a"
  shows "get_disk_id x a = Inr disk_id \<and> a \<ge> 1"
proof -
  obtain ds m i where ds: "json_active_get_disks x = Inr ds" and m: "get_disk_map ds = Inr m" "map_of m disk_id = Some i"
    and a: "a = int i + 1"
    using assms by (auto simp: array_disk_id_def disk_map_of_def rbind_Inr_iff split: option.splits)
  have "i < length ds \<and> get_real_disk_id (ds ! i) = Inr disk_id"
    using index_map_get [OF m(1) [unfolded get_disk_map_def] m(2)] by simp
  then show ?thesis using ds a by (simp add: get_disk_id_def item_at_def)
qed

definition demo_two_disks :: vm where
  "demo_two_disks = demo_vm\<lparr>v_json_active := [(''disks'', VList
     [VDict [(''path'', VStr ''/dev/zvol/rdsk/zones/u-disk0''), (''size'', VInt 10), (''zpool'', VStr ''zones'')],
      VDict [(''path'', VStr ''/dev/zvol/rdsk/zones/u-disk4''), (''size'', VInt 20), (''zpool'', VStr ''zones'')]])]\<rparr>"

theorem array_disk_id_roundtrip_witness:
  "array_disk_id demo_two_disks 4 = Inr 2 \<and> get_disk_id demo_two_disks 2 = Inr 4"
proof -
  have a: "array_disk_id demo_two_disks 4 = Inr 2" by code_simp
  with array_disk_id_roundtrip [OF a] show ?thesis by simp
qed

section \<open>The cache agrees with the database\<close>

fun db_size :: "ckey \<Rightarrow> 'z res_state_scheme \<Rightarrow> int option" where
  "db_size (SnapTotal p) s = Some (sum_mb (snap_rows (\<lambda>r. sn_ns r = p) s))"
| "db_size (SnapDc d p) s = Some (sum_mb (snap_rows (\<lambda>r. sn_ns r = p \<and> sn_dc r = d) s))"
| "db_size (SnapTotalDc d) s = Some (sum_mb (snap_rows (\<lambda>r. sn_dc r = d) s))"
| "db_size (SnapTotalVm u) s = Some (sum_mb (snap_rows (\<lambda>r. sn_vm r = u) s))"
| "db_size (BackupTotal p) s = Some (sum_mb (backup_rows (\<lambda>r. bk_ns r = p) s))"
| "db_size (BackupDc d p) s = Some (sum_mb (backup_rows (\<lambda>r. bk_ns r = p \<and> bk_dc r = d) s))"
| "db_size (BackupTotalDc d) s = Some (sum_mb (backup_rows (\<lambda>r. bk_dc r = d) s))"
| "db_size (BackupTotalVm u) s = Some (sum_mb (backup_rows (\<lambda>r. bk_vm r = Some u) s))"
| "db_size k s = None"

text \<open>Every cached size of snapshots and backups is the one of the database, but for the keys in \<open>K\<close>.\<close>

definition coherent_but :: "ckey set \<Rightarrow> 'z res_state_scheme \<Rightarrow> bool" where
  "coherent_but K s \<longleftrightarrow> (\<forall>k v n. k \<notin> K \<longrightarrow> rs_cache s k = Some v \<longrightarrow> db_size k s = Some n \<longrightarrow> v = n)"

lemma db_size_same:
  assumes "rs_snaps t = rs_snaps s" "rs_backups t = rs_backups s"
  shows "db_size k t = db_size k s"
  using assms by (cases k) (simp_all add: snap_rows_def backup_rows_def)

lemma coherent_write:
  assumes "coherent_but K s" "v = None \<or> db_size k s = None \<or> db_size k s = v"
  shows "coherent_but (K - {k}) (s\<lparr>rs_cache := (rs_cache s)(k := v)\<rparr>)"
proof -
  have "db_size l (s\<lparr>rs_cache := (rs_cache s)(k := v)\<rparr>) = db_size l s" for l by (rule db_size_same) simp_all
  then show ?thesis using assms by (auto simp: coherent_but_def)
qed

lemma coherent_mono: "coherent_but K s \<Longrightarrow> K \<subseteq> L \<Longrightarrow> coherent_but L s"
  by (auto simp: coherent_but_def)

text \<open>Reading a size through the cache.\<close>

lemma related_pure:
  assumes "db_size k s = Some (f s)" "coherent_but K s"
    "related_size k (some_size (pget f)) clear s = (r, t)"
  shows "coherent_but K t" "clear \<Longrightarrow> coherent_but (K - {k}) t" "clear \<or> k \<notin> K \<Longrightarrow> r = Inr (f s)"
proof -
  let ?w = "s\<lparr>rs_cache := (rs_cache s)(k := Some (f s))\<rparr>"
  have w: "coherent_but (K - {k}) ?w" by (rule coherent_write [OF assms(2)]) (simp add: assms(1))
  then have w': "coherent_but K ?w" by (rule coherent_mono) blast
  consider (fresh) "clear \<or> rs_cache s k = None" "t = ?w" "r = Inr (f s)"
    | (cached) v where "\<not> clear" "rs_cache s k = Some v" "t = s" "r = Inr v"
    using assms(3) by (cases "rs_cache s k"; cases clear)
      (simp_all add: related_size_def some_size_def cache_set_def prog_defs)
  note c = this
  show "coherent_but K t" using c by cases (simp_all add: w' assms(2))
  show "coherent_but (K - {k}) t" if clear using c that by cases (simp_all add: w)
  show "r = Inr (f s)" if "clear \<or> k \<notin> K"
    using c
  proof cases
    case cached
    then have "k \<notin> K" using that by blast
    then have "v = f s" using assms(1,2) cached(2) unfolding coherent_but_def by blast
    then show ?thesis using cached(4) by simp
  qed
qed

lemma size_reads:
  "get_snapshots_size ns clear = with_pk ns (\<lambda>p. related_size (SnapTotal p) (some_size (pget (\<lambda>s. sum_mb (snap_rows (\<lambda>r. sn_ns r = p) s)))) clear)"
  "get_dc_snapshots_size ns d clear = with_pk ns (\<lambda>p. related_size (SnapDc d p) (some_size (pget (\<lambda>s. sum_mb (snap_rows (\<lambda>r. sn_ns r = p \<and> sn_dc r = d) s)))) clear)"
  "get_backups_size ns clear = with_pk ns (\<lambda>p. related_size (BackupTotal p) (some_size (pget (\<lambda>s. sum_mb (backup_rows (\<lambda>r. bk_ns r = p) s)))) clear)"
  "get_dc_backups_size ns d clear = with_pk ns (\<lambda>p. related_size (BackupDc d p) (some_size (pget (\<lambda>s. sum_mb (backup_rows (\<lambda>r. bk_ns r = p \<and> bk_dc r = d) s)))) clear)"
  by (simp_all add: get_snapshots_size_def get_dc_snapshots_size_def get_backups_size_def get_dc_backups_size_def
      calculate_snapshots_size_def calculate_backups_size_def snap_rows_def backup_rows_def of_dc_def conj_commute conj_left_commute)

lemma keeps_related:
  fixes f :: "node_state \<Rightarrow> int"
  assumes "\<And>s :: node_state. db_size k s = Some (f s)"
  shows "keeps (coherent_but K) (related_size k (some_size (pget f)) clear)"
  unfolding keeps_def
proof (intro allI impI)
  fix s :: node_state assume s: "coherent_but K s"
  obtain r t where "related_size k (some_size (pget f)) clear s = (r, t)" by (cases "related_size k (some_size (pget f)) clear s")
  then show "coherent_but K (snd (related_size k (some_size (pget f)) clear s))"
    using related_pure(1) [where k = k and f = f and s = s, OF assms s] by simp
qed

interpretation ch: resource_inv "coherent_but K" for K
proof
  fix s :: node_state and x i y z k d p v ns clear
  assume c: "coherent_but K s"
  have same: "coherent_but K t" if "rs_snaps t = rs_snaps s" "rs_backups t = rs_backups s" "rs_cache t = rs_cache s" for t :: node_state
    using c db_size_same [OF that(1,2)] that(3) by (simp add: coherent_but_def)
  show "coherent_but K (s\<lparr>rs_storages := x, rs_next_id := i\<rparr>)" "coherent_but K (s\<lparr>rs_nss := y, rs_next_id := i\<rparr>)"
    "coherent_but K (s\<lparr>rs_dcnodes := z, rs_next_id := i\<rparr>)"
    by (rule same; simp)+
  assume "k \<in> {VmsSizeTotal p, VmsSizeDc d p, VmsSizeTotalDc d}"
  then have "db_size k s = None" by auto
  then show "coherent_but K (s\<lparr>rs_cache := (rs_cache s)(k := v)\<rparr>)"
    using coherent_write [OF c, of v k] by (auto intro: coherent_mono)
next
  fix ns d clear
  let ?P = "coherent_but K :: node_state \<Rightarrow> bool"
  show "keeps ?P (get_snapshots_size ns clear)" "keeps ?P (get_backups_size ns clear)"
    "keeps ?P (get_dc_snapshots_size ns d clear)" "keeps ?P (get_dc_backups_size ns d clear)"
    by (auto simp: size_reads with_pk_def keeps_pure intro!: keeps_related split: option.split)
qed

text \<open>A size that was computed anew, and a deleted entry, agree with the database.\<close>

lemma fresh_size:
  fixes s :: "'z res_state_scheme"
  assumes "coherent_but K s" "ns_pk ns = Some p"
  shows "get_snapshots_size ns True s = (r, t) \<Longrightarrow> coherent_but (K - {SnapTotal p}) t"
    "get_dc_snapshots_size ns d True s = (r, t) \<Longrightarrow> coherent_but (K - {SnapDc d p}) t"
    "get_backups_size ns True s = (r, t) \<Longrightarrow> coherent_but (K - {BackupTotal p}) t"
    "get_dc_backups_size ns d True s = (r, t) \<Longrightarrow> coherent_but (K - {BackupDc d p}) t"
  by (auto simp: size_reads with_pk_def assms(2) intro!: related_pure(2) [OF _ assms(1)])

lemma coherent_delete: "cache_delete k s = (r, t) \<Longrightarrow> coherent_but K s \<Longrightarrow> coherent_but (K - {k}) t"
  using coherent_write [of K s None k] by (auto simp: cache_delete_def pmod_def)

lemma coherent_clear_vm:
  assumes "(case x of None \<Rightarrow> pret () | Some v \<Rightarrow> clear_cached_size (f (v_uuid v))) s = (Inr (), t)" "coherent_but K s"
    "x = None \<longrightarrow> K = {}" "\<forall>v. x = Some v \<longrightarrow> K \<subseteq> {f (v_uuid v)}"
  shows "coherent_but {} t"
proof (cases x)
  case None
  then show ?thesis using assms by (simp add: prog_Inr_iff)
next
  case (Some v)
  then have "coherent_but (K - {f (v_uuid v)}) t"
    using coherent_delete [OF _ assms(2)] assms(1) by (simp add: clear_cached_size_def)
  then show ?thesis by (rule coherent_mono) (use assms(4) Some in blast)
qed

lemma changed_rows:
  assumes "filter (\<lambda>r. \<not> R r) old = filter (\<lambda>r. \<not> R r) new" "\<And>r. Q r \<Longrightarrow> \<not> R r"
  shows "filter Q old = filter Q new"
proof -
  have "filter Q xs = filter Q (filter (\<lambda>r. \<not> R r) xs)" for xs
    using assms(2) by (induction xs) auto
  then show ?thesis using assms(1) by metis
qed

lemma fresh_pfor:
  assumes "\<And>d s K r t. m d s = (r, t) \<Longrightarrow> coherent_but K s \<Longrightarrow> coherent_but (K - {k d}) t"
  shows "pfor ds m s = (Inr (), t) \<Longrightarrow> coherent_but K s \<Longrightarrow> coherent_but (K - k ` set ds) t"
proof (induction ds arbitrary: s K)
  case Nil
  then show ?case by (simp add: prog_Inr_iff)
next
  case (Cons d ds)
  obtain r u where u: "m d s = (Inr r, u)" "pfor ds m u = (Inr (), t)"
    using Cons.prems(1) by (auto simp: pbind_Inr_iff)
  have "coherent_but (K - {k d} - k ` set ds) t" by (rule Cons.IH [OF u(2) assms [OF u(1) Cons.prems(2)]])
  then show ?case by (rule coherent_mono) auto
qed

lemma fresh_sizes:
  assumes "ns_pk ns = Some p" "coherent_but K s"
  shows "pfor ds (\<lambda>d. get_dc_snapshots_size ns d True) s = (Inr (), t) \<Longrightarrow> coherent_but (K - (\<lambda>d. SnapDc d p) ` set ds) t"
    "pfor ds (\<lambda>d. get_dc_backups_size ns d True) s = (Inr (), t) \<Longrightarrow> coherent_but (K - (\<lambda>d. BackupDc d p) ` set ds) t"
proof -
  have 1: "coherent_but (K - {SnapDc d p}) t" if "get_dc_snapshots_size ns d True s = (r, t)" "coherent_but K s" for d s K r t
    using fresh_size(2) [OF that(2) assms(1) that(1)] .
  have 2: "coherent_but (K - {BackupDc d p}) t" if "get_dc_backups_size ns d True s = (r, t)" "coherent_but K s" for d s K r t
    using fresh_size(4) [OF that(2) assms(1) that(1)] .
  show "pfor ds (\<lambda>d. get_dc_snapshots_size ns d True) s = (Inr (), t) \<Longrightarrow> coherent_but (K - (\<lambda>d. SnapDc d p) ` set ds) t"
    by (rule fresh_pfor [where m = "\<lambda>d. get_dc_snapshots_size ns d True", OF 1 _ assms(2)])
  show "pfor ds (\<lambda>d. get_dc_backups_size ns d True) s = (Inr (), t) \<Longrightarrow> coherent_but (K - (\<lambda>d. BackupDc d p) ` set ds) t"
    by (rule fresh_pfor [where m = "\<lambda>d. get_dc_backups_size ns d True", OF 2 _ assms(2)])
qed

lemma fresh_or_kept:
  assumes "ns_pk ns = Some p" "coherent_but K (s :: node_state)"
  shows "get_snapshots_size ns c s = (r, t) \<Longrightarrow> coherent_but (K - (if c then {SnapTotal p} else {})) t"
    "get_backups_size ns c s = (r, t) \<Longrightarrow> coherent_but (K - (if c then {BackupTotal p} else {})) t"
  using fresh_size(1,3) [OF assms(2,1)] keepsD [OF ch.snapshots assms(2)] keepsD [OF ch.backups assms(2)]
  by (cases c; simp)+

text \<open>The keys that saving a node storage computes anew.\<close>

definition fresh_keys :: "recalc \<Rightarrow> int \<Rightarrow> ckey set" where
  "fresh_keys rc p = (if rc_snapshots rc then {SnapTotal p} else {}) \<union> (if rc_backups rc then {BackupTotal p} else {})
     \<union> (\<lambda>d. SnapDc d p) ` set (rc_dc_snapshots rc) \<union> (\<lambda>d. BackupDc d p) ` set (rc_dc_backups rc)"

lemma ns_save_fresh:
  assumes "ns_save True b rc ns s = (Inr n', t)" "ns_pk ns = Some p" "coherent_but K s"
  shows "coherent_but (K - fresh_keys rc p) t"
proof -
  obtain n2 n3 a1 a2 where u: "ns_update_resources True rc ns s = (Inr n2, a1)" and
    w: "ns_write n2 a1 = (Inr n3, a2)" and all: "pwhen b (dcnode_update_all (ns_node ns)) a2 = (Inr (), t)"
    using assms(1) by (auto simp: ns_save_def pbind_Inr_iff prog_Inr_iff)
  obtain x1 x2 x3 x4 b1 b2 b3 b4 b5 b6 b7 y where v: "get_vms_size ns (rc_vms rc) s = (Inr x1, b1)"
    and sn: "get_snapshots_size ns (rc_snapshots rc) b1 = (Inr x2, b2)" and rep: "get_rep_snapshots_size ns b2 = (Inr x3, b3)"
    and bk: "get_backups_size ns (rc_backups rc) b3 = (Inr x4, b4)"
    and dv: "pfor (rc_dc_vms rc) (\<lambda>d. get_dc_vms_size (ns\<lparr>ns_storage := y\<rparr>) d True) b4 = (Inr (), b5)"
    and ds: "pfor (rc_dc_snapshots rc) (\<lambda>d. get_dc_snapshots_size (ns\<lparr>ns_storage := y\<rparr>) d True) b5 = (Inr (), b6)"
    and db: "pfor (rc_dc_backups rc) (\<lambda>d. get_dc_backups_size (ns\<lparr>ns_storage := y\<rparr>) d True) b6 = (Inr (), b7)"
    and sv: "\<exists>st'. storage_save y b7 = (Inr st', a1)"
    using u by (auto simp: ns_update_resources_def get_free_size_def pbind_Inr_iff prog_Inr_iff Let_def)
  have p': "ns_pk (ns\<lparr>ns_storage := y\<rparr>) = Some p" by (simp add: assms(2))
  let ?S = "if rc_snapshots rc then {SnapTotal p} else {}" and ?B = "if rc_backups rc then {BackupTotal p} else {}"
  have "coherent_but K b1" by (rule keepsD [OF ch.keeps_vms_sizes(1) assms(3) v])
  then have "coherent_but (K - ?S) b2"
    by (rule fresh_or_kept(1) [OF assms(2) _ sn])
  then have "coherent_but (K - ?S) b3" by (rule keepsD [OF ch.keeps_rep _ rep])
  then have "coherent_but (K - ?S - ?B) b4"
    by (rule fresh_or_kept(2) [OF assms(2) _ bk])
  then have "coherent_but (K - ?S - ?B) b5"
    by (rule keepsD [OF keeps_pfor [OF ch.keeps_vms_sizes(2)] _ dv])
  from fresh_sizes(2) [OF p' fresh_sizes(1) [OF p' this ds] db]
  have "coherent_but (K - fresh_keys rc p) b7" by (simp add: fresh_keys_def Diff_eq Int_assoc)
  then have "coherent_but (K - fresh_keys rc p) a1" using keepsD [OF ch.keeps_storage_save] sv by blast
  then have "coherent_but (K - fresh_keys rc p) a2" by (rule keepsD [OF ch.keeps_ns_write _ w])
  then show ?thesis by (rule keepsD [OF keeps_pwhen [OF ch.keeps_update_all] _ all])
qed

lemma coherent_read:
  assumes "coherent_but {} t" "db_size k t = Some (sum_mb (rows t))"
  shows "fst (get_cached_size k rows t) = Inr (sum_mb (rows t))"
  using assms by (cases "rs_cache t k") (auto simp: get_cached_size_def cache_set_def prog_defs coherent_but_def)

text \<open>
  C40. The cached sizes of snapshots. Suppose every cached size of snapshots and backups agreed with
  the database, and then snapshots of one VM (in one datacenter) on one node storage were created,
  removed or changed. If the following update of the resources returns, every cached size agrees
  with the new database, so that the total sizes that are read are those of the database.
\<close>

theorem snapshot_cache_coherent:
  assumes "coherent_but {} s"
    and "filter (\<lambda>r. \<not> (sn_ns r = p \<and> sn_vm r = v_uuid v \<and> sn_dc r = d)) (rs_snaps s) =
         filter (\<lambda>r. \<not> (sn_ns r = p \<and> sn_vm r = v_uuid v \<and> sn_dc r = d)) new"
    and "snapshot_update_resources ns (Some v) (Some d) (s\<lparr>rs_snaps := new\<rparr>) = (Inr (), t)" "ns_pk ns = Some p"
  shows "coherent_but {} t \<and> fst (snapshot_get_total_dc_size e t) = Inr (sum_mb (snap_rows (\<lambda>r. sn_dc r = e) t))
    \<and> fst (snapshot_get_total_vm_size u t) = Inr (sum_mb (snap_rows (\<lambda>r. sn_vm r = u) t))"
proof -
  let ?s = "s\<lparr>rs_snaps := new\<rparr>" and ?K = "{SnapTotal p, SnapDc d p, SnapTotalDc d, SnapTotalVm (v_uuid v)}"
  have same: "snap_rows Q ?s = snap_rows Q s" if "\<And>r. Q r \<Longrightarrow> \<not> (sn_ns r = p \<and> sn_vm r = v_uuid v \<and> sn_dc r = d)" for Q
  proof -
    have "filter (\<lambda>r. Q r \<and> counted_snapshot r) new = filter (\<lambda>r. Q r \<and> counted_snapshot r) (rs_snaps s)"
      by (rule changed_rows [OF assms(2) [symmetric]]) (use that in blast)
    then show ?thesis by (simp add: snap_rows_def)
  qed
  have "db_size k ?s = db_size k s" if "k \<notin> ?K" for k
    using that by (cases k) (auto simp: backup_rows_def intro!: arg_cong [where f = sum_mb] same)
  then have c0: "coherent_but ?K ?s" using assms(1) by (auto simp: coherent_but_def)
  let ?rc = "\<lparr>rc_vms = False, rc_snapshots = True, rc_backups = False, rc_dc_vms = [], rc_dc_snapshots = [d], rc_dc_backups = []\<rparr>"
  obtain n1 s1 s2 where n: "ns_save True True ?rc ns ?s = (Inr n1, s1)"
    and dc: "snapshot_clear_total_dc_size d s1 = (Inr (), s2)"
    and vm: "snapshot_clear_total_vm_size (v_uuid v) s2 = (Inr (), t)"
    using assms(3) by (auto simp: snapshot_update_resources_def pbind_Inr_iff prog_Inr_iff)
  have c1: "coherent_but (?K - fresh_keys ?rc p) s1" by (rule ns_save_fresh [OF n assms(4) c0])
  have "coherent_but (?K - fresh_keys ?rc p - {SnapTotalDc d}) s2"
    by (rule coherent_delete [OF dc [unfolded snapshot_clear_total_dc_size_def clear_cached_size_def] c1])
  then have "coherent_but (?K - fresh_keys ?rc p - {SnapTotalDc d} - {SnapTotalVm (v_uuid v)}) t"
    by (rule coherent_delete [OF vm [unfolded snapshot_clear_total_vm_size_def clear_cached_size_def]])
  then have c: "coherent_but {} t" by (rule coherent_mono) (auto simp: fresh_keys_def)
  then show ?thesis by (simp add: snapshot_get_total_dc_size_def snapshot_get_total_vm_size_def coherent_read)
qed

definition demo_size_state :: node_state where
  "demo_size_state = demo_state\<lparr>rs_nodes := [], rs_vms := [], rs_nss := [demo_ns], rs_storages := (\<lambda>p. None)\<rparr>"

theorem snapshot_cache_coherent_witness:
  "\<exists>t. snapshot_update_resources demo_ns (Some demo_vm) (Some 1) (demo_size_state\<lparr>rs_snaps := [demo_snapshot]\<rparr>) = (Inr (), t)
    \<and> fst (snapshot_get_total_dc_size 1 t) = Inr (sum_mb (snap_rows (\<lambda>r. sn_dc r = 1) t))"
proof -
  have "fst (snapshot_update_resources demo_ns (Some demo_vm) (Some 1) (demo_size_state\<lparr>rs_snaps := [demo_snapshot]\<rparr>)) = Inr ()"
    by code_simp
  then obtain t where t: "snapshot_update_resources demo_ns (Some demo_vm) (Some 1) (demo_size_state\<lparr>rs_snaps := [demo_snapshot]\<rparr>) = (Inr (), t)"
    by (metis prod.collapse)
  have "coherent_but {} demo_size_state" by (simp add: coherent_but_def demo_size_state_def demo_state_def)
  moreover have "filter (\<lambda>r. \<not> (sn_ns r = 7 \<and> sn_vm r = v_uuid demo_vm \<and> sn_dc r = 1)) (rs_snaps demo_size_state) =
      filter (\<lambda>r. \<not> (sn_ns r = 7 \<and> sn_vm r = v_uuid demo_vm \<and> sn_dc r = 1)) [demo_snapshot]"
    by (simp add: demo_size_state_def demo_state_def demo_snapshot_def demo_vm_def)
  moreover have "ns_pk demo_ns = Some 7" by (simp add: demo_ns_def)
  ultimately show ?thesis using snapshot_cache_coherent [OF _ _ t] t by blast
qed

text \<open>
  The cached sizes of backups. The same for the backups of one VM (or of VMs that are gone) in
  one datacenter on one node storage.
\<close>

theorem backup_cache_coherent:
  assumes "coherent_but {} s"
    and "filter (\<lambda>r. \<not> (bk_ns r = p \<and> bk_vm r = map_option v_uuid x \<and> bk_dc r = d)) (rs_backups s) =
         filter (\<lambda>r. \<not> (bk_ns r = p \<and> bk_vm r = map_option v_uuid x \<and> bk_dc r = d)) new"
    and "backup_update_resources ns x d (s\<lparr>rs_backups := new\<rparr>) = (Inr (), t)" "ns_pk ns = Some p"
  shows "coherent_but {} t \<and> fst (backup_get_total_dc_size e t) = Inr (sum_mb (backup_rows (\<lambda>r. bk_dc r = e) t))
    \<and> fst (backup_get_total_vm_size u t) = Inr (sum_mb (backup_rows (\<lambda>r. bk_vm r = Some u) t))"
proof -
  let ?s = "s\<lparr>rs_backups := new\<rparr>" and ?V = "case x of None \<Rightarrow> {} | Some v \<Rightarrow> {BackupTotalVm (v_uuid v)}"
  let ?K = "{BackupTotal p, BackupDc d p, BackupTotalDc d} \<union> ?V"
  have same: "backup_rows Q ?s = backup_rows Q s" if "\<And>r. Q r \<Longrightarrow> \<not> (bk_ns r = p \<and> bk_vm r = map_option v_uuid x \<and> bk_dc r = d)" for Q
  proof -
    have "filter (\<lambda>r. Q r \<and> counted_backup r) new = filter (\<lambda>r. Q r \<and> counted_backup r) (rs_backups s)"
      by (rule changed_rows [OF assms(2) [symmetric]]) (use that in blast)
    then show ?thesis by (simp add: backup_rows_def)
  qed
  have "db_size k ?s = db_size k s" if "k \<notin> ?K" for k
    using that by (cases k; cases x) (auto simp: snap_rows_def intro!: arg_cong [where f = sum_mb] same)
  then have c0: "coherent_but ?K ?s" using assms(1) by (auto simp: coherent_but_def)
  let ?rc = "\<lparr>rc_vms = False, rc_snapshots = False, rc_backups = True, rc_dc_vms = [], rc_dc_snapshots = [], rc_dc_backups = [d]\<rparr>"
  obtain n1 s1 s2 where n: "ns_save True True ?rc ns ?s = (Inr n1, s1)"
    and dc: "backup_clear_total_dc_size d s1 = (Inr (), s2)"
    and vm: "(case x of None \<Rightarrow> pret () | Some v \<Rightarrow> backup_clear_total_vm_size (v_uuid v)) s2 = (Inr (), t)"
    using assms(3) by (auto simp: backup_update_resources_def pbind_Inr_iff prog_Inr_iff)
  have "coherent_but (?K - fresh_keys ?rc p) s1" by (rule ns_save_fresh [OF n assms(4) c0])
  then have "coherent_but (?K - fresh_keys ?rc p - {BackupTotalDc d}) s2"
    by (rule coherent_delete [OF dc [unfolded backup_clear_total_dc_size_def clear_cached_size_def]])
  then have "coherent_but ?V s2" by (rule coherent_mono) (auto simp: fresh_keys_def)
  then have "coherent_but {} t"
    by (rule coherent_clear_vm [where f = BackupTotalVm, OF vm [unfolded backup_clear_total_vm_size_def]]) (simp_all split: option.splits)
  then show ?thesis by (simp add: backup_get_total_dc_size_def backup_get_total_vm_size_def coherent_read)
qed

definition demo_backup :: backup where
  "demo_backup = \<lparr>bk_id = 1, bk_dc = 1, bk_vm = None, bk_vm_hostname = ''h'', bk_vm_disk_id = 0, bk_disk_id = 0, bk_define = None,
     bk_name = ''b'', bk_status = Backup_OK, bk_ns = 7, bk_type = Backup_FILE, bk_size = Some 3145728, bk_json = []\<rparr>"

theorem backup_cache_coherent_witness:
  "\<exists>t. backup_update_resources demo_ns None 1 (demo_size_state\<lparr>rs_backups := [demo_backup]\<rparr>) = (Inr (), t)
    \<and> fst (backup_get_total_dc_size 1 t) = Inr (sum_mb (backup_rows (\<lambda>r. bk_dc r = 1) t))"
proof -
  have "fst (backup_update_resources demo_ns None 1 (demo_size_state\<lparr>rs_backups := [demo_backup]\<rparr>)) = Inr ()" by code_simp
  then obtain t where t: "backup_update_resources demo_ns None 1 (demo_size_state\<lparr>rs_backups := [demo_backup]\<rparr>) = (Inr (), t)"
    by (metis prod.collapse)
  have "coherent_but {} demo_size_state" by (simp add: coherent_but_def demo_size_state_def demo_state_def)
  moreover have "filter (\<lambda>r. \<not> (bk_ns r = 7 \<and> bk_vm r = map_option v_uuid None \<and> bk_dc r = 1)) (rs_backups demo_size_state) =
      filter (\<lambda>r. \<not> (bk_ns r = 7 \<and> bk_vm r = map_option v_uuid None \<and> bk_dc r = 1)) [demo_backup]"
    by (simp add: demo_size_state_def demo_state_def demo_backup_def)
  moreover have "ns_pk demo_ns = Some 7" by (simp add: demo_ns_def)
  ultimately show ?thesis using backup_cache_coherent [OF _ _ t] t by blast
qed

section \<open>Schedules of definitions\<close>

text \<open>
  \<open>_ScheduleModel\<close>: a definition of automatic snapshots or backups has a periodic task with a cron
  entry. \<open>sm_active\<close> and \<open>sm_schedule\<close> are the cached attributes.
\<close>

record crontab =
  c_minute :: string
  c_hour :: string
  c_day_of_month :: string
  c_month_of_year :: string
  c_day_of_week :: string

record periodic_task =
  pt_pk :: "int option"
  pt_name :: string
  pt_task :: string
  pt_args :: string
  pt_crontab :: "crontab option"
  pt_enabled :: bool

record schedule_model =
  sm_active :: "bool option"
  sm_schedule :: "string option"
  sm_periodic :: "periodic_task option"

definition snapshot_periodic_task :: "string \<Rightarrow> string \<Rightarrow> int \<Rightarrow> int \<Rightarrow> periodic_task" where
  "snapshot_periodic_task name vm_uuid disk_id define_id =
     \<lparr>pt_pk = None, pt_name = ''snapshot-'' @ name @ ''-'' @ vm_uuid @ ''-disk'' @ int_str disk_id,
      pt_task = ''api.vm.snapshot.tasks.vm_snapshot_beat'', pt_args = ''['' @ int_str define_id @ '']'',
      pt_crontab = None, pt_enabled = True\<rparr>"

definition backup_periodic_task :: "string \<Rightarrow> string \<Rightarrow> int \<Rightarrow> int \<Rightarrow> periodic_task" where
  "backup_periodic_task name vm_uuid disk_id define_id =
     \<lparr>pt_pk = None, pt_name = ''backup-'' @ name @ ''-'' @ vm_uuid @ ''-disk'' @ int_str disk_id,
      pt_task = ''api.vm.backup.tasks.vm_backup_beat'', pt_args = ''['' @ int_str define_id @ '']'',
      pt_crontab = None, pt_enabled = True\<rparr>"

definition cron_field :: "string \<Rightarrow> string" where
  "cron_field f = (let g = filter (\<lambda>c. c \<noteq> CHR '' '') f in if f = [] \<or> g = [] then ''*'' else g)"

definition crontab_to_schedule :: "crontab \<Rightarrow> string" where
  "crontab_to_schedule c = join_with '' '' (map (\<lambda>f. cron_field (f c)) [c_minute, c_hour, c_day_of_month, c_month_of_year, c_day_of_week])"

definition save_crontab :: "string option \<Rightarrow> crontab res" where
  "save_crontab schedule = (case schedule of
      None \<Rightarrow> Inl (Exn AttributeError ''split'')
    | Some s \<Rightarrow> (case split_words s of
        [a, b, c, d, e] \<Rightarrow> Inr \<lparr>c_minute = a, c_hour = b, c_day_of_month = c, c_month_of_year = d, c_day_of_week = e\<rparr>
      | _ \<Rightarrow> Inl (Exn ValueError ''wrong number of values to unpack'')))"

definition sched_active :: "schedule_model \<Rightarrow> bool" where
  "sched_active m = (case sm_active m of Some b \<Rightarrow> b
     | None \<Rightarrow> (case sm_periodic m of Some pt \<Rightarrow> pt_enabled pt | None \<Rightarrow> True))"

definition sched_schedule :: "schedule_model \<Rightarrow> string option" where
  "sched_schedule m = (case sm_schedule m of Some s \<Rightarrow> Some s
     | None \<Rightarrow> (case sm_periodic m of None \<Rightarrow> None | Some pt \<Rightarrow> map_option crontab_to_schedule (pt_crontab pt)))"

definition set_sched_active :: "bool option \<Rightarrow> schedule_model \<Rightarrow> schedule_model" where
  "set_sched_active v m = m\<lparr>sm_active := v\<rparr>"
definition set_sched_schedule :: "string option \<Rightarrow> schedule_model \<Rightarrow> schedule_model" where
  "set_sched_schedule v m = m\<lparr>sm_schedule := v\<rparr>"

text \<open>The cron entry and the flag of the task are brought to the cached attributes.\<close>

definition sync_task :: "schedule_model \<Rightarrow> periodic_task \<Rightarrow> (periodic_task \<times> bool) res" where
  "sync_task m pt =
     rbind (case pt_crontab pt of
         None \<Rightarrow> rbind (save_crontab (sched_schedule m)) (\<lambda>c. Inr (pt\<lparr>pt_crontab := Some c\<rparr>, True))
       | Some c \<Rightarrow> (if sched_schedule m \<noteq> Some (crontab_to_schedule c)
           then rbind (save_crontab (sched_schedule m)) (\<lambda>c'. Inr (pt\<lparr>pt_crontab := Some c'\<rparr>, True))
           else Inr (pt, False)))
     (\<lambda>(pt1, do_save). Inr (if sched_active m \<noteq> pt_enabled pt1 then (pt1\<lparr>pt_enabled := sched_active m\<rparr>, True) else (pt1, do_save)))"

text \<open>
  A new task gets its key (\<open>new_pk\<close>) when it is saved, and the object is saved once more with it.
  The result holds the object and how often a task row was written.
\<close>

definition schedule_save :: "int \<Rightarrow> periodic_task \<Rightarrow> schedule_model \<Rightarrow> (schedule_model \<times> nat) res" where
  "schedule_save new_pk fresh m =
     (let pt = (case sm_periodic m of Some p \<Rightarrow> p | None \<Rightarrow> fresh) in
      rbind (sync_task m pt) (\<lambda>(pt1, do_save).
        if pt_pk pt1 = None
        then (let pt2 = pt1\<lparr>pt_pk := Some new_pk\<rparr>; m1 = m\<lparr>sm_periodic := Some pt2\<rparr>
              in rbind (sync_task m1 pt2) (\<lambda>(pt3, again). Inr (m1\<lparr>sm_periodic := Some pt3\<rparr>, if again then 2 else 1)))
        else Inr (m\<lparr>sm_periodic := Some pt1\<rparr>, if do_save then 1 else 0)))"

lemma words_from_word: "\<forall>c \<in> set v. \<not> is_space c \<Longrightarrow> words_from w (v @ s) = words_from (w @ v) s"
  by (induction v arbitrary: w) auto

definition five_words :: "string \<Rightarrow> bool" where
  "five_words s \<longleftrightarrow> (\<exists>ws. length ws = 5 \<and> (\<forall>w \<in> set ws. w \<noteq> [] \<and> (\<forall>c \<in> set w. \<not> is_space c)) \<and> s = join_with '' '' ws)"

lemma space_is_space: "is_space (CHR '' '')"
  by (simp add: is_space_def ch_code_def)

lemma cron_word: "w \<noteq> [] \<Longrightarrow> \<forall>c \<in> set w. \<not> is_space c \<Longrightarrow> cron_field w = w"
proof -
  assume w: "w \<noteq> []" "\<forall>c \<in> set w. \<not> is_space c"
  then have "filter (\<lambda>c. c \<noteq> CHR '' '') w = w" using space_is_space by (intro filter_True) auto
  then show ?thesis using w(1) by (simp add: cron_field_def)
qed

lemma save_five_words:
  assumes "five_words s"
  shows "\<exists>c. save_crontab (Some s) = Inr c \<and> crontab_to_schedule c = s"
proof -
  obtain ws where ws: "length ws = 5" "\<forall>w \<in> set ws. w \<noteq> [] \<and> (\<forall>c \<in> set w. \<not> is_space c)" "s = join_with '' '' ws"
    using assms by (auto simp: five_words_def)
  then obtain a b c d e where e: "ws = [a, b, c, d, e]"
    by (auto simp: numeral_eq_Suc length_Suc_conv)
  have "split_words s = ws"
    using ws(2) by (simp add: split_words_def ws(3) e words_from_word space_is_space)
      (use words_from_word [of e "[]" "[]"] in simp)
  then show ?thesis using ws(2,3) by (simp add: save_crontab_def e crontab_to_schedule_def cron_word)
qed

text \<open>
  Schedules of snapshots and backups. After a definition with a schedule of five words was
  saved, the periodic task has this schedule and is enabled exactly when the definition is active,
  so that a definition read from the database shows the same; saving again writes no task.
\<close>

theorem schedule_roundtrip:
  assumes "sched_schedule m = Some s" "five_words s"
  shows "\<exists>m' k. schedule_save pk fresh m = Inr (m', k) \<and> k \<le> 1
    \<and> sched_schedule (m'\<lparr>sm_schedule := None, sm_active := None\<rparr>) = Some s
    \<and> sched_active (m'\<lparr>sm_schedule := None, sm_active := None\<rparr>) = sched_active m'
    \<and> schedule_save pk fresh m' = Inr (m', 0)"
proof -
  obtain c where c: "save_crontab (Some s) = Inr c" "crontab_to_schedule c = s" using save_five_words [OF assms(2)] by blast
  have sync: "\<exists>p b. sync_task m pt = Inr (p, b) \<and> pt_pk p = pt_pk pt \<and> pt_enabled p = sched_active m
      \<and> map_option crontab_to_schedule (pt_crontab p) = Some s" for pt
    using c assms(1) by (cases "pt_crontab pt") (auto simp: sync_task_def)
  have idle: "sync_task m' pt = Inr (pt, False)" if "sched_schedule m' = Some s" "pt_enabled pt = sched_active m'"
      "map_option crontab_to_schedule (pt_crontab pt) = Some s" for m' pt
    using that by (auto simp: sync_task_def)
  let ?pt = "case sm_periodic m of Some p \<Rightarrow> p | None \<Rightarrow> fresh"
  obtain p b where p: "sync_task m ?pt = Inr (p, b)" "pt_pk p = pt_pk ?pt" "pt_enabled p = sched_active m"
    "map_option crontab_to_schedule (pt_crontab p) = Some s" using sync by blast
  define q where "q = p\<lparr>pt_pk := Some (case pt_pk p of None \<Rightarrow> pk | Some i \<Rightarrow> i)\<rparr>"
  let ?m = "m\<lparr>sm_periodic := Some q\<rparr>"
  have q: "pt_enabled q = sched_active m" "map_option crontab_to_schedule (pt_crontab q) = Some s" "pt_pk q \<noteq> None"
    using p by (simp_all add: q_def)
  have act: "sched_active ?m = sched_active m" using q(1) by (simp add: sched_active_def split: option.splits)
  have sch: "sched_schedule ?m = Some s" using q(2) assms(1) by (auto simp: sched_schedule_def split: option.splits)
  have idle_q: "sync_task ?m q = Inr (q, False)" by (rule idle [OF sch _ q(2)]) (simp add: q(1) act)
  have "\<exists>k \<le> 1. schedule_save pk fresh m = Inr (?m, k)"
  proof (cases "pt_pk p")
    case None
    then have "q = p\<lparr>pt_pk := Some pk\<rparr>" by (simp add: q_def)
    then show ?thesis using None p(1) idle_q by (simp add: schedule_save_def Let_def)
  next
    case (Some i)
    then have "q = p" by (simp add: q_def)
    then show ?thesis using Some p(1) by (simp add: schedule_save_def Let_def)
  qed
  moreover have "schedule_save pk fresh ?m = Inr (?m, 0)"
    using idle_q q(3) by (auto simp: schedule_save_def Let_def)
  moreover have "sched_schedule (?m\<lparr>sm_schedule := None, sm_active := None\<rparr>) = Some s"
    "sched_active (?m\<lparr>sm_schedule := None, sm_active := None\<rparr>) = sched_active ?m"
    using q act by (simp_all add: sched_schedule_def sched_active_def [of "?m\<lparr>sm_schedule := None, sm_active := None\<rparr>"])
  ultimately show ?thesis by blast
qed

theorem schedule_roundtrip_witness:
  "\<exists>m' k. schedule_save 5 (snapshot_periodic_task ''daily'' ''u'' 0 1) \<lparr>sm_active = Some False, sm_schedule = Some ''0 1 * * *'', sm_periodic = None\<rparr>
      = Inr (m', k) \<and> sched_schedule (m'\<lparr>sm_schedule := None, sm_active := None\<rparr>) = Some ''0 1 * * *''"
proof -
  have "five_words ''0 1 * * *''" unfolding five_words_def
    by (rule exI [of _ "[''0'', ''1'', ''*'', ''*'', ''*'']"]) (simp add: is_space_def ch_code_def)
  with schedule_roundtrip [of "\<lparr>sm_active = Some False, sm_schedule = Some ''0 1 * * *'', sm_periodic = None\<rparr>" "''0 1 * * *''" 5
      "snapshot_periodic_task ''daily'' ''u'' 0 1"]
  show ?thesis by (auto simp: sched_schedule_def)
qed

end
