(* ===== verification/Vm_Commands.thy ===== *)
theory Vm_Commands
  imports Vm_Update Py_Float
begin

text \<open>
  The shell commands that the API sends to compute nodes for VMs: the disk quota of
  \<^verbatim>\<open>vms/models/vm.py\<close>, the corrections of creations and updates of
  \<^verbatim>\<open>api/vm/base/vm_manage.py\<close> and the start, stop and update commands of
  \<^verbatim>\<open>api/vm/status/vm_status.py\<close>. Commands are texts; how a shell runs them is outside.
\<close>

section \<open>Formatting\<close>

text \<open>\<open>'%s' % v\<close>; the text of lists and dictionaries is a parameter.\<close>

definition fmt :: "(pyval \<Rightarrow> string) \<Rightarrow> pyval \<Rightarrow> string" where
  "fmt repr v = (case v of VNone \<Rightarrow> ''None'' | VBool b \<Rightarrow> (if b then ''True'' else ''False'') | VInt i \<Rightarrow> int_str i
     | VStr s \<Rightarrow> s | _ \<Rightarrow> repr v)"

section \<open>Quota of the disks\<close>

text \<open>Sums and quotients of floats, and \<open>round\<close> of Python 2, half away from zero.\<close>

definition fadd :: "pyfloat \<Rightarrow> pyfloat \<Rightarrow> pyfloat" where
  "fadd f g = (let e = min (fl_exp f) (fl_exp g)
     in float_of_scaled (fl_mant f * 2 ^ nat (fl_exp f - e) + fl_mant g * 2 ^ nat (fl_exp g - e)) e)"

definition fdiv :: "pyfloat \<Rightarrow> int \<Rightarrow> pyfloat" where
  "fdiv f n = (if fl_exp f \<ge> 0 then float_of_frac (fl_mant f * 2 ^ nat (fl_exp f)) n
     else float_of_frac (fl_mant f) (n * 2 ^ nat (- fl_exp f)))"

definition fround :: "pyfloat \<Rightarrow> int" where
  "fround f = (if fl_exp f \<ge> 0 then fl_mant f * 2 ^ nat (fl_exp f)
     else (let d = 2 ^ nat (- fl_exp f) in sgn (fl_mant f) * ((2 * \<bar>fl_mant f\<bar> + d) div (2 * d))))"

definition float_of_int :: "int \<Rightarrow> pyfloat" where "float_of_int i = float_of_frac i 1"

text \<open>\<open>float(v)\<close>, with the conversion of a string as a parameter.\<close>

definition py_float :: "(string \<Rightarrow> pyfloat res) \<Rightarrow> pyval \<Rightarrow> pyfloat res" where
  "py_float parse v = (case v of VInt i \<Rightarrow> Inr (float_of_int i) | VBool b \<Rightarrow> Inr (float_of_int (if b then 1 else 0))
     | VStr s \<Rightarrow> parse s | _ \<Rightarrow> Inl (Exn TypeError ''float() argument must be a string or a number''))"

definition vm_disk :: "vm \<Rightarrow> int res" where "vm_disk x = rbind (get_disks None False x) (\<lambda>d. Inr (sum_sizes d))"
definition vm_disk_active :: "vm \<Rightarrow> int res" where "vm_disk_active x = rbind (get_disks None True x) (\<lambda>d. Inr (sum_sizes d))"

definition ZFS_METADATA_OVERHEAD :: pyfloat where "ZFS_METADATA_OVERHEAD = float_of_frac 103 100"
definition MINIMUM_QUOTA :: int where "MINIMUM_QUOTA = 1536"

definition quota_of :: "int \<Rightarrow> pyfloat \<Rightarrow> string" where
  "quota_of all_disks_size limit =
     (let quota = fround (fadd (fmul (float_of_int 2) (fmul (float_of_int all_disks_size) ZFS_METADATA_OVERHEAD)) limit)
      in int_str (if quota < MINIMUM_QUOTA then MINIMUM_QUOTA else quota) @ ''M'')"

definition calculate_zfs_snapshot_quota :: "(string \<Rightarrow> pyfloat res) \<Rightarrow> vm \<Rightarrow> string res" where
  "calculate_zfs_snapshot_quota parse x =
     rbind (vm_disk x) (\<lambda>all_disks_size.
     if all_disks_size = 0 then Inr ''none'' else
     rbind (snapshot_size_limit x) (\<lambda>vm_snap_size_limit.
     rbind (snapshot_size_percent_limit x) (\<lambda>snap_perc_limit.
     if vm_snap_size_limit = VNone
     then (if snap_perc_limit = VNone then Inr ''none''
           else rbind (py_float parse snap_perc_limit) (\<lambda>p.
                  Inr (quota_of all_disks_size (fmul (fdiv p 100) (float_of_int all_disks_size)))))
     else rbind (as_int vm_snap_size_limit) (\<lambda>l. Inr (quota_of all_disks_size (float_of_int l))))))"

section \<open>Creation\<close>

text \<open>What the commands need from outside: the texts of containers and the conversion of strings to floats.\<close>

record cmd_env =
  ce_repr :: "pyval \<Rightarrow> string"
  ce_parse_float :: "string \<Rightarrow> pyfloat res"
  ce_iso_dir :: string

definition check_space_cmd :: "string \<Rightarrow> string \<Rightarrow> string" where
  "check_space_cmd pool megs =
     ''if [[ \"$(($(zfs get -Hpo value available '' @ pool @ '') / 1024 / 1024))\" -le '' @ megs @ '' ]]; then echo ''
     @ ''\"Requested disk size ('' @ megs @ ''M) is greater than the available space.\" >&2; exit 11; fi && ''"

text \<open>One disk of a KVM and of a bhyve VM: the corrections after the creation and the check before it.\<close>

definition fix_create_disk :: "cmd_env \<Rightarrow> bool \<Rightarrow> string \<Rightarrow> string \<Rightarrow> nat \<times> pydict \<Rightarrow> (string \<times> string) res" where
  "fix_create_disk env kvm pool uuid = (\<lambda>(i, disk).
     if \<not> dhas disk ''image_uuid'' then Inr ([], []) else
     rbind (ditem disk ''size'') (\<lambda>megs. rbind (ditem disk ''image_size'') (\<lambda>image_megs.
     if py_eq megs image_megs then Inr ([], []) else
     (let volume = pool @ ''/'' @ uuid @ (if kvm then ''-disk'' else ''/disk'') @ nat_str i;
          resize = ''; zfs set volsize='' @ fmt (ce_repr env) megs @ ''M '' @ volume @ '' >&2; e=$((e+=$?))'';
          refres = (case map_of disk ''refreservation'' of Some r \<Rightarrow>
              (if kvm then ''; zfs set refreservation='' @ fmt (ce_repr env) r @ ''M '' @ volume @ '' >&2; e=$((e+=$?))'' else [])
            | None \<Rightarrow> [])
      in Inr (resize @ refres, check_space_cmd pool (fmt (ce_repr env) megs))))))"

fun fix_create_disks :: "cmd_env \<Rightarrow> bool \<Rightarrow> string \<Rightarrow> string \<Rightarrow> (nat \<times> pydict) list \<Rightarrow> (string \<times> string) res" where
  "fix_create_disks env kvm pool uuid [] = Inr ([], [])"
| "fix_create_disks env kvm pool uuid (d # ds) =
     rbind (fix_create_disk env kvm pool uuid d) (\<lambda>(cmd, check).
     rbind (fix_create_disks env kvm pool uuid ds) (\<lambda>(cmds, checks). Inr (cmd @ cmds, check @ checks)))"

definition set_quota_cmd :: "string \<Rightarrow> string \<Rightarrow> string \<Rightarrow> string" where
  "set_quota_cmd quota pool uuid = ''; zfs set quota='' @ quota @ '' '' @ pool @ ''/'' @ uuid @ '' >&2; e=$((e+=$?))''"

definition fix_create :: "cmd_env \<Rightarrow> vm \<Rightarrow> (string \<times> string) res" where
  "fix_create env x =
     (let pool = fmt (ce_repr env) (zpool x) in
      if is_kvm x then rbind (json_get_disks x) (\<lambda>ds. fix_create_disks env True pool (v_uuid x) (enumerate 0 ds))
      else if is_bhyve x then
        rbind (calculate_zfs_snapshot_quota (ce_parse_float env) x) (\<lambda>quota.
        rbind (json_get_disks x) (\<lambda>ds.
        rbind (fix_create_disks env False pool (v_uuid x) (enumerate 0 ds)) (\<lambda>(cmd, check).
          Inr (set_quota_cmd quota pool (v_uuid x) @ cmd, check))))
      else Inr ([], []))"

section \<open>Updates\<close>

definition strip_rdsk :: "string \<Rightarrow> string" where
  "strip_rdsk path = (if startswith path ''/dev/zvol/rdsk/'' then drop (length ''/dev/zvol/rdsk/'') path else path)"

text \<open>One disk: what stays for \<open>vmadm\<close> and the commands that replace the rest.\<close>

definition fix_update_disk :: "cmd_env \<Rightarrow> vm \<Rightarrow> pydict \<Rightarrow> (pydict \<times> string) res" where
  "fix_update_disk env x disk =
     rbind (ditem disk ''path'') (\<lambda>p. case p of VStr path \<Rightarrow>
       (let fs = strip_rdsk path;
            resize = (case map_of disk ''size'' of
                Some v \<Rightarrow> ''; zfs set volsize='' @ fmt (ce_repr env) v @ ''M '' @ fs @ '' >&2; e=$((e+=$?)); '' | None \<Rightarrow> []);
            disk1 = AList.delete ''size'' disk;
            refres = (case map_of disk ''refreservation'' of
                Some v \<Rightarrow> (if is_bhyve x then []
                  else ''; zfs set refreservation='' @ fmt (ce_repr env) v @ ''M '' @ fs @ '' >&2; e=$((e+=$?)); '') | None \<Rightarrow> [])
        in Inr (AList.delete ''refreservation'' disk1, resize @ refres))
     | _ \<Rightarrow> Inl (Exn TypeError ''expected string or buffer''))"

fun fix_update_disks :: "cmd_env \<Rightarrow> vm \<Rightarrow> pydict list \<Rightarrow> (pydict list \<times> string) res" where
  "fix_update_disks env x [] = Inr ([], [])"
| "fix_update_disks env x (d # ds) = rbind (fix_update_disk env x d) (\<lambda>(e, cmd).
     rbind (fix_update_disks env x ds) (\<lambda>(es, cmds). Inr (e # es, cmd @ cmds)))"

definition fix_update :: "cmd_env \<Rightarrow> pydict \<Rightarrow> vm \<Rightarrow> (pydict \<times> string) res" where
  "fix_update env upd x =
     rbind (get_dicts upd ''update_disks'') (\<lambda>disks.
     rbind (fix_update_disks env x disks) (\<lambda>(disks', cmd).
     (let json' = (if dhas upd ''update_disks'' then AList.update ''update_disks'' (VList (map VDict disks')) upd
                   else upd)
      in if is_bhyve x
         then rbind (if disks \<noteq> [] then Inr True else snapshot_quota_update_pending x) (\<lambda>pending.
              if \<not> pending then Inr (json', cmd) else
              rbind (calculate_zfs_snapshot_quota (ce_parse_float env) x) (\<lambda>quota.
              rbind (vm_disk x) (\<lambda>disk. rbind (vm_disk_active x) (\<lambda>disk_active.
              (let set_quota = set_quota_cmd quota (fmt (ce_repr env) (zpool x)) (v_uuid x) @ ''; ''
               in Inr (json', if disk > disk_active then set_quota @ cmd else cmd @ set_quota))))))
         else Inr (json', cmd))))"

definition validate_update :: "bool \<Rightarrow> string \<Rightarrow> bool res" where
  "validate_update has_snapshots os_cmd =
     (if os_cmd \<noteq> [] \<and> has_snapshots then Inl (Exn ExpectationFailed ''VM has snapshots'') else Inr True)"

text \<open>The added and changed items are dictionaries.\<close>

fun has_model :: "pyval list \<Rightarrow> bool" where
  "has_model [] = False"
| "has_model (VDict d # vs) = (dhas d ''model'' \<or> has_model vs)"
| "has_model (_ # vs) = has_model vs"

definition check_items_update :: "pyval \<Rightarrow> bool" where
  "check_items_update v = (case v of VList vs \<Rightarrow> has_model vs | _ \<Rightarrow> False)"

definition must_be_stopped :: "pydict \<Rightarrow> bool" where
  "must_be_stopped upd \<longleftrightarrow> list_ex (\<lambda>(key, val).
     key \<in> set [''add_nics'', ''remove_nics'', ''add_disks'', ''remove_disks'']
     \<or> key \<in> set [''update_disks'', ''update_nics''] \<and> check_items_update val) upd"

definition check_update :: "vm \<Rightarrow> pydict \<Rightarrow> unit res" where
  "check_update x upd = (if v_status x \<noteq> STOPPED \<and> must_be_stopped upd
     then Inl (Exn PreconditionRequired ''VM has to be stopped when updating disks or NICs'') else Inr ())"


section \<open>Changes of the status\<close>

definition zonecfg :: "cmd_env \<Rightarrow> string \<Rightarrow> string" where
  "zonecfg env uuid = ''zonecfg -z '' @ uuid @ '' 'add fs;set dir='' @ ce_iso_dir env
     @ '';set special=/iso;set type=lofs;add options [ro,nodevices];end' >/dev/null 2>/dev/null''"

definition action_cmd :: "string \<Rightarrow> string \<Rightarrow> bool \<Rightarrow> int option \<Rightarrow> string" where
  "action_cmd action uuid force timeout = ''vmadm '' @ action @ '' '' @ uuid
     @ (if force then '' -F'' else case timeout of Some t \<Rightarrow> if t \<noteq> 0 then '' -t '' @ int_str t else [] | None \<Rightarrow> [])"

text \<open>An update that goes along with a change of the status; \<open>dump\<close> is the JSON text of the update.\<close>

definition add_update_cmd ::
  "cmd_env \<Rightarrow> (pydict \<Rightarrow> string) \<Rightarrow> bool \<Rightarrow> vm \<Rightarrow> string \<Rightarrow> bool \<Rightarrow> string \<Rightarrow> (string \<times> string) res" where
  "add_update_cmd env dump has_snapshots x orig_cmd os_cmd_allowed pre_cmd =
     rbind (json_update x) (\<lambda>u. rbind (fix_update env u x) (\<lambda>(upd, os_cmd).
     rbind (if os_cmd \<noteq> []
            then (if os_cmd_allowed then validate_update has_snapshots os_cmd
                  else Inl (Exn PreconditionRequired ''VM must be updated first''))
            else Inr True) (\<lambda>_.
     (let cmd = os_cmd @ ''vmadm update '' @ v_uuid x @ '' >&2; e=$?; vmadm get '' @ v_uuid x @ '' 2>/dev/null; ''
                @ orig_cmd @ ''; exit $e''
      in Inr (if pre_cmd \<noteq> [] then pre_cmd @ '' && '' @ cmd else cmd, dump upd)))))"

definition iso_touch :: "cmd_env \<Rightarrow> vm \<Rightarrow> string \<Rightarrow> string option \<Rightarrow> string" where
  "iso_touch env x img img2 =
     (let path = ''/'' @ fmt (ce_repr env) (zpool x) @ ''/'' @ v_uuid x @ ''/root/iso''; dir = ce_iso_dir env
      in zonecfg env (v_uuid x) @ ''; mkdir -p \"'' @ path @ ''\"; test -f \"'' @ dir @ ''/'' @ img @ ''\" && ''
         @ ''touch '' @ path @ ''/'' @ img @ '' || (rm -f '' @ path @ ''/'' @ img @ ''; ''
         @ ''echo \"ISO image '' @ img @ '' is not available on compute node\" >&2; exit 9) &&''
         @ (case img2 of None \<Rightarrow> [] | Some i \<Rightarrow>
              ''(test -f \"'' @ dir @ ''/'' @ i @ ''\" && touch '' @ path @ ''/'' @ i @ '' || rm -f '' @ path @ ''/'' @ i
              @ '') >/dev/null 2>/dev/null;''))"

text \<open>The parts of the start command without and with an ISO image, and the image that is remembered.\<close>

definition start_iso_cmd :: "cmd_env \<Rightarrow> vm \<Rightarrow> string \<Rightarrow> string option \<Rightarrow> bool \<Rightarrow> string list \<times> pyval option" where
  "start_iso_cmd env x img img2 once =
     (let start = ''vmadm start '' @ v_uuid x; touch = iso_touch env x img img2 in
      if is_kvm x then
        ([touch, start, (if once then ''order=c,once=d cdrom=/iso/'' else ''order=d cdrom=/iso/'') @ img @ '',ide'']
           @ (case img2 of Some i \<Rightarrow> [''cdrom=/iso/'' @ i @ '',ide''] | None \<Rightarrow> []),
         Some (if once then VNone else VStr img))
      else if is_bhyve x then
        (let opts = fmt (ce_repr env) (extra_opts x);
             pre = ''vmadm update '' @ v_uuid x @ '' bhyve_extra_opts=\"'' @ opts @ '' -s 3:0,ahci-cd,/iso/'' @ img
         in ([touch, pre @ (case img2 of Some i \<Rightarrow> '' -s 3:1,ahci-cd,/iso/'' @ i | None \<Rightarrow> []) @ ''\" && '', start,
              ''&& vmadm update '' @ v_uuid x @ '' bhyve_extra_opts=\"'' @ opts @ ''\"''], Some (VStr img)))
      else ([touch, start], None))"

definition start_cmd :: "cmd_env \<Rightarrow> vm \<Rightarrow> string option \<Rightarrow> string option \<Rightarrow> bool \<Rightarrow> string \<times> pyval option" where
  "start_cmd env x img img2 once = (case img of
      Some i \<Rightarrow> (case start_iso_cmd env x i img2 once of (parts, last_cdimage) \<Rightarrow> (join_with '' '' parts, last_cdimage))
    | None \<Rightarrow> (join_with '' '' [''vmadm start '' @ v_uuid x, ''order=c''], Some VNone))"

section \<open>The quota leaves room\<close>

lemma fl_val_nonneg: "fl_mant f \<ge> 0 \<Longrightarrow> fl_val f \<ge> 0"
  by (simp add: fl_val_def)

lemma fround_err: "fl_mant f \<ge> 0 \<Longrightarrow> \<bar>real_of_int (fround f) - fl_val f\<bar> \<le> 1 / 2"
proof -
  assume m: "fl_mant f \<ge> 0"
  show ?thesis
  proof (cases "fl_exp f \<ge> 0")
    case True
    then show ?thesis by (simp add: fround_def fl_val_def power_int_def)
  next
    case False
    define d :: int where "d = 2 ^ nat (- fl_exp f)"
    have d: "d > 0" by (simp add: d_def)
    have v: "fl_val f = fl_mant f / d" using False by (simp add: fl_val_def d_def power_int_def power_one_over inverse_eq_divide)
    define q where "q = (2 * fl_mant f + d) div (2 * d)"
    have q: "2 * d * q \<le> 2 * fl_mant f + d" "2 * fl_mant f + d < 2 * d * (q + 1)"
    proof -
      have "2 * fl_mant f + d = 2 * d * q + (2 * fl_mant f + d) mod (2 * d)" by (simp add: q_def)
      moreover have "0 \<le> (2 * fl_mant f + d) mod (2 * d)" "(2 * fl_mant f + d) mod (2 * d) < 2 * d" using d by simp_all
      ultimately show "2 * d * q \<le> 2 * fl_mant f + d" "2 * fl_mant f + d < 2 * d * (q + 1)" by (simp_all add: distrib_left)
    qed
    have r: "fround f = q"
    proof (cases "fl_mant f = 0")
      case True
      then have "q = 0" using d by (simp add: q_def)
      then show ?thesis using False True by (simp add: fround_def Let_def)
    next
      case nz: False
      then show ?thesis using False m by (simp add: fround_def Let_def q_def d_def sgn_if)
    qed
    have "real_of_int (2 * d * q) \<le> real_of_int (2 * fl_mant f + d)" "real_of_int (2 * fl_mant f + d) < real_of_int (2 * d * (q + 1))"
      using q by linarith+
    then have "real_of_int q - fl_mant f / d \<le> 1 / 2" "fl_mant f / d - real_of_int q \<le> 1 / 2"
      using d by (simp_all add: field_simps)
    then show ?thesis unfolding v r abs_le_iff by linarith
  qed
qed

lemma fadd_err:
  assumes "fl_mant f \<ge> 0" "fl_mant g \<ge> 0" "fl_val f + fl_val g < 2 ^ k"
  shows "\<bar>fl_val (fadd f g) - (fl_val f + fl_val g)\<bar> \<le> 2 powi (int k - 54)" "fl_mant (fadd f g) \<ge> 0"
proof -
  let ?e = "min (fl_exp f) (fl_exp g)"
  let ?m = "fl_mant f * 2 ^ nat (fl_exp f - ?e) + fl_mant g * 2 ^ nat (fl_exp g - ?e)"
  have p: "(2::real) ^ nat (i - ?e) * 2 powi ?e = 2 powi i" if "?e \<le> i" for i
    using that by (simp add: power_int_add [symmetric] flip: power_int_of_nat)
  have "real_of_int ?m * 2 powi ?e = fl_mant f * (2 ^ nat (fl_exp f - ?e) * 2 powi ?e) + fl_mant g * (2 ^ nat (fl_exp g - ?e) * 2 powi ?e)"
    by (simp add: distrib_right)
  also have "\<dots> = fl_val f + fl_val g" by (simp add: p fl_val_def)
  finally have s: "real_of_int ?m * 2 powi ?e = fl_val f + fl_val g" .
  have m: "?m \<ge> 0" using assms by simp
  show "\<bar>fl_val (fadd f g) - (fl_val f + fl_val g)\<bar> \<le> 2 powi (int k - 54)"
    using float_of_scaled_err [OF m, of ?e k] assms(3) unfolding s by (simp add: fadd_def Let_def)
  show "fl_mant (fadd f g) \<ge> 0" using m by (simp add: fadd_def Let_def float_of_scaled_def float_of_frac_nonneg)
qed


lemma abs_mult_diff: "\<bar>x * y - u * w\<bar> \<le> \<bar>x - u\<bar> * \<bar>y\<bar> + \<bar>u\<bar> * \<bar>y - w\<bar>" for x y u w :: real
proof -
  have "x * y - u * w = (x - u) * y + u * (y - w)" by (simp add: algebra_simps)
  then have "\<bar>x * y - u * w\<bar> \<le> \<bar>(x - u) * y\<bar> + \<bar>u * (y - w)\<bar>" by (metis abs_triangle_ineq)
  then show ?thesis by (simp add: abs_mult)
qed

lemma abs_mult_diff_le:
  fixes x y u w :: real
  assumes "\<bar>x - u\<bar> \<le> e" "\<bar>y\<bar> \<le> c" "\<bar>u\<bar> \<le> b" "\<bar>y - w\<bar> \<le> f"
  shows "\<bar>x * y - u * w\<bar> \<le> e * c + b * f"
proof -
  have "\<bar>x - u\<bar> * \<bar>y\<bar> \<le> e * c" using assms by (intro mult_mono) linarith+
  moreover have "\<bar>u\<bar> * \<bar>y - w\<bar> \<le> b * f" using assms by (intro mult_mono) linarith+
  ultimately show ?thesis using abs_mult_diff [of x y u w] by linarith
qed

lemma float_of_int_err: "0 \<le> i \<Longrightarrow> i < 2 ^ k \<Longrightarrow> \<bar>fl_val (float_of_int i) - real_of_int i\<bar> \<le> 2 powi (int k - 54)"
  using float_of_frac_err [of i 1 k] by (simp add: float_of_int_def)

lemma float_of_int_nonneg: "0 \<le> i \<Longrightarrow> fl_mant (float_of_int i) \<ge> 0"
  by (simp add: float_of_int_def float_of_frac_nonneg)

lemma overhead: "\<bar>fl_val ZFS_METADATA_OVERHEAD - 103 / 100\<bar> \<le> 1 / 2 ^ 53" "fl_mant ZFS_METADATA_OVERHEAD \<ge> 0"
  using float_of_frac_err [of 103 100 1] by (simp_all add: ZFS_METADATA_OVERHEAD_def float_of_frac_nonneg power_int_def power_one_over inverse_eq_divide)

text \<open>The disks with the overhead, twice.\<close>

lemma near_less: "\<bar>x - y\<bar> \<le> e \<Longrightarrow> y + e < b \<Longrightarrow> x < b" for x y :: real
  by linarith

lemma near_greater: "\<bar>x - y\<bar> \<le> e \<Longrightarrow> b < y - e \<Longrightarrow> b < x" for x y :: real
  by linarith

lemma near_trans: "\<bar>x - y\<bar> \<le> e \<Longrightarrow> \<bar>y - z\<bar> \<le> f \<Longrightarrow> e + f \<le> g \<Longrightarrow> \<bar>x - z\<bar> \<le> g" for x y z :: real
  by linarith

lemma disks_part:
  assumes "0 \<le> d" "d < 2 ^ 40"
  shows "\<bar>fl_val (fmul (float_of_int 2) (fmul (float_of_int d) ZFS_METADATA_OVERHEAD)) - 2.06 * real_of_int d\<bar> \<le> 1 / 64"
    "fl_mant (fmul (float_of_int 2) (fmul (float_of_int d) ZFS_METADATA_OVERHEAD)) \<ge> 0"
proof -
  define D where "D = real_of_int d"
  let ?a = "fl_val (float_of_int d)" and ?b = "fl_val ZFS_METADATA_OVERHEAD" and ?t = "fl_val (float_of_int 2)"
  let ?c = "fl_val (fmul (float_of_int d) ZFS_METADATA_OVERHEAD)"
  have pos: "fl_mant (float_of_int d) \<ge> 0" "fl_mant (float_of_int 2) \<ge> 0" "fl_mant (fmul (float_of_int d) ZFS_METADATA_OVERHEAD) \<ge> 0"
    using assms(1) by (simp_all add: float_of_int_nonneg fmul_nonneg overhead(2))
  have d: "0 \<le> D" "D \<le> 2 ^ 40"
    unfolding D_def using assms of_int_less_iff [of d "2 ^ 40", where 'a = real] by (simp_all del: of_int_less_iff)
  have a: "\<bar>?a - D\<bar> \<le> 1 / 16384" using float_of_int_err [OF assms] by (simp add: D_def power_int_def power_one_over inverse_eq_divide)
  have b: "\<bar>?b - 1.03\<bar> \<le> 1 / 2 ^ 53" using overhead(1) by simp
  have t: "\<bar>?t - 2\<bar> \<le> 1 / 2 ^ 52" using float_of_int_err [of 2 2] by (simp add: power_int_def power_one_over inverse_eq_divide)
  have b1: "0 \<le> ?b" "?b < 2"
    by (rule fl_val_nonneg [OF overhead(2)], rule near_less [OF b], simp)
  have ab: "\<bar>?a * ?b - D * 1.03\<bar> \<le> 1 / 16384 * 2 + 2 ^ 40 * (1 / 2 ^ 53)"
    using b1 d by (intro abs_mult_diff_le a b) simp_all
  have lt: "?a * ?b < 2 ^ 42" by (rule near_less [OF ab]) (use d in simp)
  have c: "\<bar>?c - ?a * ?b\<bar> \<le> 1 / 4096"
    using fmul_err [OF pos(1) overhead(2), of 42] lt by (simp add: power_int_def power_one_over inverse_eq_divide)
  have c1: "\<bar>?c - D * 1.03\<bar> \<le> 1 / 1024" by (rule near_trans [OF c ab]) simp
  have c2: "0 \<le> ?c" "?c < 2 ^ 42"
    by (rule fl_val_nonneg [OF pos(3)], rule near_less [OF c1], use d in simp)
  have tc: "\<bar>?t * ?c - 2 * (D * 1.03)\<bar> \<le> 1 / 2 ^ 52 * 2 ^ 42 + 2 * (1 / 1024)"
    using c2 by (intro abs_mult_diff_le t c1) simp_all
  have lt2: "?t * ?c < 2 ^ 44" by (rule near_less [OF tc]) (use d in simp)
  have m: "\<bar>fl_val (fmul (float_of_int 2) (fmul (float_of_int d) ZFS_METADATA_OVERHEAD)) - ?t * ?c\<bar> \<le> 1 / 1024"
    using fmul_err [OF pos(2,3), of 44] lt2 by (simp add: power_int_def power_one_over inverse_eq_divide)
  have e: "2 * (D * 1.03) = 2.06 * real_of_int d" by (simp add: D_def)
  show "\<bar>fl_val (fmul (float_of_int 2) (fmul (float_of_int d) ZFS_METADATA_OVERHEAD)) - 2.06 * real_of_int d\<bar> \<le> 1 / 64"
    by (rule near_trans [OF m tc [unfolded e]]) simp
  show "fl_mant (fmul (float_of_int 2) (fmul (float_of_int d) ZFS_METADATA_OVERHEAD)) \<ge> 0" by (rule fmul_nonneg [OF pos(2,3)])
qed

text \<open>The quota of the disks of a bhyve VM leaves room for everything that may be written: all disks
  twice (data and reservation), the limit of the snapshots and the overhead of three per cent, exact
  to one megabyte in spite of the floating-point arithmetic, and never less than the minimum.\<close>

theorem quota_leaves_room:
  assumes "calculate_zfs_snapshot_quota parse x = Inr q" "vm_disk x = Inr d" "0 < d" "d < 2 ^ 40"
    "snapshot_size_limit x = Inr (VInt l)" "0 \<le> l" "l < 2 ^ 40"
  shows "\<exists>n. q = int_str n @ ''M'' \<and> n \<ge> 1536 \<and> n \<ge> 2 * d + l \<and> (n = 1536 \<or> \<bar>real_of_int n - (2.06 * d + l)\<bar> < 1)"
proof -
  let ?m = "fmul (float_of_int 2) (fmul (float_of_int d) ZFS_METADATA_OVERHEAD)" and ?l = "float_of_int l"
  define n where "n = fround (fadd ?m ?l)"
  obtain v where pv: "snapshot_size_percent_limit x = Inr v" and q: "q = quota_of d ?l"
    using assms(1,3) by (auto simp: calculate_zfs_snapshot_quota_def assms(2,5) as_int_def rbind_Inr_iff)
  have d: "0 \<le> d" using assms(3) by simp
  define D where "D = real_of_int d" define L where "L = real_of_int l"
  have dl: "0 \<le> D" "D \<le> 2 ^ 40" "0 \<le> L" "L \<le> 2 ^ 40"
    unfolding D_def L_def using assms(3,4,6,7) of_int_less_iff [of d "2 ^ 40", where 'a = real] of_int_less_iff [of l "2 ^ 40", where 'a = real]
    by (simp_all del: of_int_less_iff)
  note m = disks_part [OF d assms(4), folded D_def]
  have l: "\<bar>fl_val ?l - L\<bar> \<le> 1 / 16384" "fl_mant ?l \<ge> 0"
    using float_of_int_err [OF assms(6,7)] assms(6) by (simp_all add: L_def power_int_def power_one_over inverse_eq_divide float_of_int_nonneg)
  have s: "\<bar>(fl_val ?m + fl_val ?l) - (2.06 * D + L)\<bar> \<le> 1 / 32"
  proof -
    have "\<bar>(fl_val ?m + fl_val ?l) - (2.06 * D + L)\<bar> \<le> 1 / 64 + 1 / 16384" using m(1) l(1) by linarith
    then show ?thesis by (rule order.trans) simp
  qed
  have lt: "fl_val ?m + fl_val ?l < 2 ^ 44" by (rule near_less [OF s]) (use dl in simp)
  have a: "\<bar>fl_val (fadd ?m ?l) - (fl_val ?m + fl_val ?l)\<bar> \<le> 1 / 1024"
    using fadd_err(1) [OF m(2) l(2) lt] by (simp add: power_int_def power_one_over inverse_eq_divide)
  have f: "\<bar>real_of_int n - fl_val (fadd ?m ?l)\<bar> \<le> 1 / 2"
    unfolding n_def by (rule fround_err [OF fadd_err(2) [OF m(2) l(2) lt]])
  have as: "\<bar>fl_val (fadd ?m ?l) - (2.06 * D + L)\<bar> \<le> 1 / 16" by (rule near_trans [OF a s]) simp
  have n: "\<bar>real_of_int n - (2.06 * D + L)\<bar> \<le> 9 / 16" by (rule near_trans [OF f as]) simp
  have n2: "n \<ge> 2 * d + l"
  proof -
    have "real_of_int n > 2 * D + L - 1" by (rule near_greater [OF n]) (use dl(1) in simp)
    then have "real_of_int n > real_of_int (2 * d + l - 1)" by (simp add: D_def L_def)
    then show ?thesis by linarith
  qed
  show ?thesis
  proof (cases "n < 1536")
    case True
    then show ?thesis using n2 by (intro exI [of _ 1536]) (simp add: q quota_of_def n_def MINIMUM_QUOTA_def Let_def)
  next
    case False
    have "\<bar>real_of_int n - (2.06 * d + l)\<bar> < 1" using n unfolding D_def L_def by (rule le_less_trans) simp
    then show ?thesis using False n2 by (intro exI [of _ n]) (simp add: q quota_of_def n_def MINIMUM_QUOTA_def Let_def)
  qed
qed


definition demo_bhyve :: vm where
  "demo_bhyve = demo_vm\<lparr>v_hvm_type := Hypervisor_BHYVE,
     v_json := [(''disks'', VList [VDict [(''path'', VStr ''/dev/zvol/rdsk/zones/u/disk0''), (''size'', VInt 10240), (''zpool'', VStr ''zones'')]]),
                (''internal_metadata'', VDict [(''snapshot_size_limit'', VInt 5120)])]\<rparr>"

theorem quota_leaves_room_witness:
  "\<exists>n. calculate_zfs_snapshot_quota (\<lambda>_. Inl (Exn ValueError [])) demo_bhyve = Inr (int_str n @ ''M'') \<and> n \<ge> 25600 \<and> n < 26216"
proof -
  have v: "vm_disk demo_bhyve = Inr 10240" "snapshot_size_limit demo_bhyve = Inr (VInt 5120)"
    "snapshot_size_percent_limit demo_bhyve = Inr VNone" by code_simp+
  obtain q where q: "calculate_zfs_snapshot_quota (\<lambda>_. Inl (Exn ValueError [])) demo_bhyve = Inr q"
    by (simp add: calculate_zfs_snapshot_quota_def v as_int_def)
  from quota_leaves_room [OF q v(1) _ _ v(2)] obtain n where n: "q = int_str n @ ''M''" "n \<ge> 25600"
      "n = 1536 \<or> \<bar>real_of_int n - (2.06 * real_of_int 10240 + real_of_int 5120)\<bar> < 1" by auto
  have "\<bar>real_of_int n - (2.06 * real_of_int 10240 + real_of_int 5120)\<bar> < 1" using n(2,3) by simp
  then have "real_of_int n < 26216" by (simp add: abs_less_iff)
  then show ?thesis using q n by auto
qed

section \<open>Updates keep what vmadm can do\<close>

lemma map_of_strip: "map_of (AList.delete ''refreservation'' (AList.delete ''size'' d)) k
    = (if k = ''size'' \<or> k = ''refreservation'' then None else map_of d k)"
  by (simp add: dict_simps)

lemma fix_update_disk_strip:
  assumes "fix_update_disk env x d = Inr (a, b)"
  shows "a = AList.delete ''refreservation'' (AList.delete ''size'' d)"
proof -
  obtain v where v: "ditem d ''path'' = Inr v" using assms by (auto simp: fix_update_disk_def rbind_Inr_iff)
  show ?thesis using assms by (cases v) (simp_all add: fix_update_disk_def v Let_def)
qed

lemma fix_update_disks_strip:
  "fix_update_disks env x ds = Inr (es, cmd) \<Longrightarrow> es = map (\<lambda>d. AList.delete ''refreservation'' (AList.delete ''size'' d)) ds"
proof (induction ds arbitrary: es cmd)
  case Nil
  then show ?case by simp
next
  case (Cons d ds)
  from Cons.prems obtain a b es' cs where "fix_update_disk env x d = Inr (a, b)" "fix_update_disks env x ds = Inr (es', cs)" "es = a # es'"
    by (auto simp: rbind_Inr_iff)
  then show ?case using Cons.IH fix_update_disk_strip by simp
qed

lemma dict_list_dicts: "dict_list (map VDict ds) = Inr ds"
  by (induction ds) simp_all

lemma get_dicts_update: "get_dicts (AList.update k (VList (map VDict ds)) d) k = Inr ds"
  by (simp add: get_dicts_def dget_def dict_simps dict_list_dicts)

text \<open>
  The sizes and reservations of disks, which \<^verbatim>\<open>vmadm\<close> cannot change, are taken out of
  an update and become ZFS commands; everything else of the update stays. The quota of a bhyve VM is
  raised before its disks grow and lowered only after they have shrunk.
\<close>

theorem fix_update_moves_sizes:
  assumes "fix_update env upd x = Inr (v, cmd)" "distinct (map fst upd)"
  shows "\<exists>ds cmds. get_dicts upd ''update_disks'' = Inr ds \<and> fix_update_disks env x ds = Inr (map (\<lambda>d. AList.delete ''refreservation'' (AList.delete ''size'' d)) ds, cmds)
    \<and> get_dicts v ''update_disks'' = Inr (map (\<lambda>d. AList.delete ''refreservation'' (AList.delete ''size'' d)) ds)
    \<and> map_of (AList.delete ''update_disks'' v) = map_of (AList.delete ''update_disks'' upd)
    \<and> (cmd = cmds \<or> (is_bhyve x \<and> (\<exists>q n m. calculate_zfs_snapshot_quota (ce_parse_float env) x = Inr q \<and> vm_disk x = Inr n
          \<and> vm_disk_active x = Inr m
          \<and> cmd = (let quota = set_quota_cmd q (fmt (ce_repr env) (zpool x)) (v_uuid x) @ ''; '' in if n > m then quota @ cmds else cmds @ quota))))"
proof -
  let ?strip = "\<lambda>d. AList.delete ''refreservation'' (AList.delete ''size'' d)"
  obtain ds es cmds where ds: "get_dicts upd ''update_disks'' = Inr ds" "fix_update_disks env x ds = Inr (es, cmds)"
    using assms(1) by (auto simp: fix_update_def rbind_Inr_iff)
  have es: "es = map ?strip ds" by (rule fix_update_disks_strip [OF ds(2)])
  let ?json = "if dhas upd ''update_disks'' then AList.update ''update_disks'' (VList (map VDict es)) upd else upd"
  have v: "v = ?json" using assms(1) by (auto simp: fix_update_def rbind_Inr_iff ds Let_def split: if_splits)
  have none: "ds = []" if "\<not> dhas upd ''update_disks''"
  proof -
    have "map_of upd ''update_disks'' = None" using that by (simp add: dhas_def map_of_eq_None_iff)
    then show ?thesis using ds(1) by (simp add: get_dicts_def dget_def)
  qed
  have g: "get_dicts v ''update_disks'' = Inr (map ?strip ds)"
    using none ds(1) by (cases "dhas upd ''update_disks''") (simp_all only: v es if_True if_False get_dicts_update, simp)
  have m: "map_of (AList.delete ''update_disks'' v) = map_of (AList.delete ''update_disks'' upd)"
    by (rule ext) (simp add: v dict_simps)
  have c: "cmd = cmds \<or> (is_bhyve x \<and> (\<exists>q n m. calculate_zfs_snapshot_quota (ce_parse_float env) x = Inr q \<and> vm_disk x = Inr n
          \<and> vm_disk_active x = Inr m
          \<and> cmd = (let quota = set_quota_cmd q (fmt (ce_repr env) (zpool x)) (v_uuid x) @ ''; '' in if n > m then quota @ cmds else cmds @ quota)))"
    using assms(1) by (auto simp: fix_update_def rbind_Inr_iff ds Let_def split: if_splits)
  show ?thesis using ds g m c es by blast
qed


theorem fix_update_moves_sizes_witness:
  "\<exists>v cmd. fix_update \<lparr>ce_repr = (\<lambda>_. []), ce_parse_float = (\<lambda>_. Inl (Exn ValueError [])), ce_iso_dir = ''/iso''\<rparr>
      [(''update_disks'', VList [VDict [(''path'', VStr ''/dev/zvol/rdsk/zones/u/disk0''), (''size'', VInt 20)]]), (''ram'', VInt 1024)]
      demo_vm = Inr (v, cmd)
    \<and> get_dicts v ''update_disks'' = Inr [[(''path'', VStr ''/dev/zvol/rdsk/zones/u/disk0'')]]"
proof -
  let ?env = "\<lparr>ce_repr = (\<lambda>_. []), ce_parse_float = (\<lambda>_. Inl (Exn ValueError [])), ce_iso_dir = ''/iso''\<rparr>"
  let ?u = "[(''update_disks'', VList [VDict [(''path'', VStr ''/dev/zvol/rdsk/zones/u/disk0''), (''size'', VInt 20)]]), (''ram'', VInt 1024)]"
  have "case fix_update ?env ?u demo_vm of Inr _ \<Rightarrow> True | Inl _ \<Rightarrow> False" by code_simp
  then obtain v cmd where f: "fix_update ?env ?u demo_vm = Inr (v, cmd)" by (auto split: sum.splits)
  have "get_dicts ?u ''update_disks'' = Inr [[(''path'', VStr ''/dev/zvol/rdsk/zones/u/disk0''), (''size'', VInt 20)]]" by code_simp
  with fix_update_moves_sizes [OF f] f show ?thesis by auto
qed

end
