(* ===== verification/Api_Fields.thy ===== *)
theory Api_Fields
  imports Vm_Commands
begin

text \<open>
  The fields of \<^verbatim>\<open>api/fields.py\<close> that the definitions of VMs and disks use, some validators of
  \<^verbatim>\<open>api/validators.py\<close>, and the part of \<^verbatim>\<open>api/serializers.py\<close> that turns the data of a request into
  attributes and validates them. Fields and their validators are values; a serializer is a list of named
  fields with a method for some of them.
\<close>

section \<open>Validation errors\<close>

text \<open>
  A conversion returns a value, raises a \<open>ValidationError\<close> with messages, or raises something else,
  which nothing catches.
\<close>

type_synonym 'a fres = "(string list + 'a) res"

definition fok :: "'a \<Rightarrow> 'a fres" where "fok x = Inr (Inr x)"
definition invalid :: "string \<Rightarrow> 'a fres" where "invalid msg = Inr (Inl [msg])"

definition fbind :: "'a fres \<Rightarrow> ('a \<Rightarrow> 'b fres) \<Rightarrow> 'b fres" where
  "fbind m f = (case m of Inl e \<Rightarrow> Inl e | Inr (Inl es) \<Rightarrow> Inr (Inl es) | Inr (Inr x) \<Rightarrow> f x)"

fun fmap :: "('a \<Rightarrow> 'b fres) \<Rightarrow> 'a list \<Rightarrow> 'b list fres" where
  "fmap f [] = fok []"
| "fmap f (x # xs) = fbind (f x) (\<lambda>y. fbind (fmap f xs) (\<lambda>ys. fok (y # ys)))"

definition lift_res :: "'a res \<Rightarrow> 'a fres" where
  "lift_res r = (case r of Inl e \<Rightarrow> Inl e | Inr x \<Rightarrow> fok x)"

definition MSG_REQUIRED :: string where "MSG_REQUIRED = ''This field is required.''"
definition MSG_INVALID :: string where "MSG_INVALID = ''Invalid value.''"
definition MSG_NUMBER :: string where "MSG_NUMBER = ''Enter a whole number.''"
definition MSG_CHOICE :: string where "MSG_CHOICE = ''Select a valid choice.''"

section \<open>Kinds of fields\<close>

text \<open>
  What is outside: the text of lists and dictionaries, the tag parser and the splitting of a string into items of
  taggit, and the objects that a related field may name, by the name of the set that it chooses from.
\<close>

record field_env =
  fe_repr :: "pyval \<Rightarrow> string"
  fe_parse_tags :: "string \<Rightarrow> string list option"
  fe_split_strip :: "string \<Rightarrow> string list"
  fe_related :: "string \<Rightarrow> pyval \<Rightarrow> pyval option"

datatype field_kind =
    BooleanField
  | CharField
  | IntegerField
  | ChoiceField "string list"
  | IntegerChoiceField "int list"
  | ArrayField "nat option"
  | TagField
  | SlugRelatedField string string
  | DictField "(string \<Rightarrow> string option) list" "(string \<Rightarrow> string option) list" "nat option"

text \<open>A validator returns its message; a default of \<open>None\<close> is no default.\<close>

record field =
  fl_kind :: field_kind
  fl_read_only :: bool
  fl_required :: bool
  fl_allow_empty :: bool
  fl_default :: pyval
  fl_validators :: "(pyval \<Rightarrow> string option) list"

definition field_of :: "field_kind \<Rightarrow> bool \<Rightarrow> pyval \<Rightarrow> (pyval \<Rightarrow> string option) list \<Rightarrow> field" where
  "field_of kind required dflt vs = \<lparr>fl_kind = kind, fl_read_only = False, fl_required = required, fl_allow_empty = (\<not> required),
     fl_default = dflt, fl_validators = vs\<rparr>"

definition read_only_field :: "field_kind \<Rightarrow> field" where
  "read_only_field kind = \<lparr>fl_kind = kind, fl_read_only = True, fl_required = False, fl_allow_empty = True, fl_default = VNone,
     fl_validators = []\<rparr>"

section \<open>Validators\<close>

definition max_value :: "int \<Rightarrow> pyval \<Rightarrow> string option" where
  "max_value n v = (case v of VInt i \<Rightarrow> if i > n then Some (''Ensure this value is less than or equal to '' @ int_str n @ ''.'') else None
     | _ \<Rightarrow> None)"

definition min_value :: "int \<Rightarrow> pyval \<Rightarrow> string option" where
  "min_value n v = (case v of VInt i \<Rightarrow> if i < n then Some (''Ensure this value is greater than or equal to '' @ int_str n @ ''.'') else None
     | _ \<Rightarrow> None)"

definition max_length :: "nat \<Rightarrow> pyval \<Rightarrow> string option" where
  "max_length n v = (case v of VStr s \<Rightarrow> if length s > n then Some ''too long'' else None | _ \<Rightarrow> None)"

definition min_length :: "nat \<Rightarrow> pyval \<Rightarrow> string option" where
  "min_length n v = (case v of VStr s \<Rightarrow> if length s < n then Some ''too short'' else None | _ \<Rightarrow> None)"

text \<open>A regular expression is given by what it matches; \<open>$\<close> also matches before a newline at the end.\<close>

definition regex_validator :: "(string \<Rightarrow> bool) \<Rightarrow> pyval \<Rightarrow> string option" where
  "regex_validator re v = (case v of VStr s \<Rightarrow> if re s then None else Some ''Enter a valid value.'' | _ \<Rightarrow> None)"

definition before_end :: "(string \<Rightarrow> bool) \<Rightarrow> string \<Rightarrow> bool" where
  "before_end m s \<longleftrightarrow> m s \<or> (s \<noteq> [] \<and> last s = CHR 0x0A \<and> m (butlast s))"

definition is_alnum :: "char \<Rightarrow> bool" where "is_alnum c \<longleftrightarrow> is_letter c \<or> is_digit c"

definition mod2_validator :: "pyval \<Rightarrow> string option" where
  "mod2_validator v = (case v of VInt i \<Rightarrow> if i mod 2 \<noteq> 0 then Some ''Must be power of 2.'' else None | _ \<Rightarrow> None)"

text \<open>\<open>^(\*|\d+(-\d+)?(,\d+(-\d+)?)*)(/\d+)?$\<close> on a column, which has no white space.\<close>

definition cron_range :: "string \<Rightarrow> bool" where
  "cron_range s = (case split_on (CHR ''-'') s of [a] \<Rightarrow> isdigit a | [a, b] \<Rightarrow> isdigit a \<and> isdigit b | _ \<Rightarrow> False)"

definition cron_column :: "string \<Rightarrow> bool" where
  "cron_column s = (case split_on (CHR ''/'') s of
      [a] \<Rightarrow> a = ''*'' \<or> list_all cron_range (split_on (CHR '','') a)
    | [a, n] \<Rightarrow> (a = ''*'' \<or> list_all cron_range (split_on (CHR '','') a)) \<and> isdigit n
    | _ \<Rightarrow> False)"

fun first_bad :: "nat \<Rightarrow> string list \<Rightarrow> nat option" where
  "first_bad i [] = None"
| "first_bad i (c # cs) = (if cron_column c then first_bad (Suc i) cs else Some i)"

definition cron_validator :: "string \<Rightarrow> string option" where
  "cron_validator value =
     (if strip value \<noteq> value then Some ''Leading nor trailing spaces are allowed.''
      else (let columns = split_words value in
        if columns \<noteq> split_on (CHR '' '') value then Some ''Use only a single space as a column separator.''
        else if length columns \<noteq> 5 then Some ''Entry has to consist of exactly 5 columns.''
        else (case first_bad 0 columns of None \<Rightarrow> None
          | Some i \<Rightarrow> Some (''Incorrect value in '' @ nat_str (i + 1) @ ''. column.''))))"

section \<open>Conversion of one value\<close>

definition EMPTY_VALUES :: "pyval list" where "EMPTY_VALUES = [VNone, VStr [], VList [], VDict []]"

definition TRUE_VALUES :: "string list" where "TRUE_VALUES = [''t'', ''T'', ''true'', ''True'', ''TRUE'', ''1'']"
definition FALSE_VALUES :: "string list" where "FALSE_VALUES = [''f'', ''F'', ''false'', ''False'', ''FALSE'', ''0'']"

text \<open>The test for membership needs a hash, which lists and dictionaries do not have.\<close>

definition get_boolean_value :: "pyval \<Rightarrow> bool res" where
  "get_boolean_value v = (case v of
      VStr s \<Rightarrow> Inr (if s \<in> set TRUE_VALUES then True else if s \<in> set FALSE_VALUES then False else s \<noteq> [])
    | VList _ \<Rightarrow> Inl (Exn TypeError ''unhashable type: list'')
    | VDict _ \<Rightarrow> Inl (Exn TypeError ''unhashable type: dict'')
    | _ \<Rightarrow> Inr (truthy v))"

text \<open>\<open>int(str(v))\<close>: white space around the number and a sign are allowed.\<close>

definition int_of_text :: "string \<Rightarrow> int option" where
  "int_of_text s = (case strip s of
      c # t \<Rightarrow> (if c = CHR ''+'' then (if isdigit t then Some (int (digits_val t)) else None)
               else (case str_int (c # t) of Inr i \<Rightarrow> Some i | Inl _ \<Rightarrow> None))
    | [] \<Rightarrow> None)"

definition whole_number :: "pyval \<Rightarrow> int fres" where
  "whole_number v = (case v of
      VInt i \<Rightarrow> fok i
    | VStr s \<Rightarrow> (case int_of_text s of Some i \<Rightarrow> fok i | None \<Rightarrow> invalid MSG_NUMBER)
    | _ \<Rightarrow> invalid MSG_NUMBER)"

definition char_text :: "field_env \<Rightarrow> pyval \<Rightarrow> string" where
  "char_text env v = (case v of VNone \<Rightarrow> [] | _ \<Rightarrow> fmt (fe_repr env) v)"

definition tag_ok :: "string \<Rightarrow> bool" where
  "tag_ok = before_end (\<lambda>s. s \<noteq> [] \<and> list_all (\<lambda>c. is_alnum c \<or> c \<in> set '' :/_-'') s)"

fun strict_tags :: "pyval list \<Rightarrow> pyval fres" where
  "strict_tags [] = fok (VList [])"
| "strict_tags (t # ts) = (case t of
      VStr s \<Rightarrow> (if tag_ok s then fbind (strict_tags ts) (\<lambda>v. case v of VList vs \<Rightarrow> fok (VList (t # vs)) | _ \<Rightarrow> fok v)
                else invalid MSG_INVALID)
    | _ \<Rightarrow> Inl (Exn TypeError ''expected string or buffer''))"

definition pairs_of :: "string list \<Rightarrow> (string \<times> string) list option" where
  "pairs_of items = (if list_all (\<lambda>i. length (split_on (CHR '':'') i) = 2) items
     then Some (map (\<lambda>i. let p = split_on (CHR '':'') i in (hd p, p ! 1)) items) else None)"

definition dict_native :: "field_env \<Rightarrow> pyval \<Rightarrow> pyval fres" where
  "dict_native env v = (if \<not> truthy v then fok (VDict []) else (case v of
      VStr s \<Rightarrow> (case pairs_of (fe_split_strip env s) of
          None \<Rightarrow> invalid MSG_INVALID
        | Some ps \<Rightarrow> fok (VDict (dupdate [] (map (\<lambda>(k, x). (k, VStr x)) ps))))
    | VDict d \<Rightarrow> fok (VDict (map (\<lambda>(k, x). (k, VStr (char_text env x))) d))
    | _ \<Rightarrow> invalid MSG_INVALID))"

text \<open>\<open>from_native\<close> of each kind of field.\<close>

definition boolean_native :: "pyval \<Rightarrow> pyval fres" where
  "boolean_native v = lift_res (rbind (get_boolean_value v) (\<lambda>b. Inr (VBool b)))"

definition integer_native :: "pyval \<Rightarrow> pyval fres" where
  "integer_native v = (if v \<in> set EMPTY_VALUES then fok VNone else fbind (whole_number v) (\<lambda>i. fok (VInt i)))"

definition choice_native :: "pyval \<Rightarrow> pyval fres" where
  "choice_native v = fok (if v \<in> set EMPTY_VALUES then VStr [] else v)"

definition integer_choice_native :: "field \<Rightarrow> pyval \<Rightarrow> pyval fres" where
  "integer_choice_native f v =
     (if fl_allow_empty f \<and> v \<in> {VStr [], VNone} then fok VNone else fbind (whole_number v) (\<lambda>i. fok (VInt i)))"

definition array_native :: "field_env \<Rightarrow> pyval \<Rightarrow> pyval fres" where
  "array_native env v = (if \<not> truthy v then fok (VList []) else (case v of
      VStr s \<Rightarrow> fok (VList (map VStr (fe_split_strip env s)))
    | VList vs \<Rightarrow> fok (VList (map (\<lambda>x. VStr (char_text env x)) vs))
    | _ \<Rightarrow> invalid MSG_INVALID))"

definition tag_native :: "field_env \<Rightarrow> pyval \<Rightarrow> pyval fres" where
  "tag_native env v = (case v of
      VList vs \<Rightarrow> strict_tags vs
    | VStr s \<Rightarrow> (case fe_parse_tags env s of Some ts \<Rightarrow> strict_tags (map VStr ts) | None \<Rightarrow> invalid MSG_INVALID)
    | _ \<Rightarrow> invalid MSG_INVALID)"

definition slug_native :: "field_env \<Rightarrow> string \<Rightarrow> string \<Rightarrow> pyval \<Rightarrow> pyval fres" where
  "slug_native env q slug v = (case fe_related env q v of
      Some x \<Rightarrow> fok x | None \<Rightarrow> invalid (''Object with '' @ slug @ ''='' @ fmt (fe_repr env) v @ '' does not exist.''))"

definition from_native :: "field_env \<Rightarrow> field \<Rightarrow> pyval \<Rightarrow> pyval fres" where
  "from_native env f v = (case fl_kind f of
      BooleanField \<Rightarrow> boolean_native v
    | CharField \<Rightarrow> fok (VStr (char_text env v))
    | IntegerField \<Rightarrow> integer_native v
    | ChoiceField cs \<Rightarrow> choice_native v
    | IntegerChoiceField cs \<Rightarrow> integer_choice_native f v
    | ArrayField n \<Rightarrow> array_native env v
    | TagField \<Rightarrow> tag_native env v
    | SlugRelatedField q slug \<Rightarrow> slug_native env q slug v
    | DictField ks vs n \<Rightarrow> dict_native env v)"

lemmas native_defs = from_native_def boolean_native_def integer_native_def choice_native_def integer_choice_native_def array_native_def
  tag_native_def slug_native_def

section \<open>Checks of one value\<close>

definition require :: "bool \<Rightarrow> string \<Rightarrow> unit fres" where
  "require b msg = (if b then fok () else invalid msg)"

definition nonempty :: "field \<Rightarrow> pyval \<Rightarrow> unit fres" where
  "nonempty f v = require (fl_allow_empty f \<or> v \<notin> set EMPTY_VALUES) MSG_REQUIRED"

definition dict_size :: "pydict \<Rightarrow> nat" where
  "dict_size d = sum_list (map (\<lambda>(k, v). case v of VStr s \<Rightarrow> length s | _ \<Rightarrow> 0) d)"

definition item_ok :: "pyval \<Rightarrow> bool" where "item_ok v \<longleftrightarrow> v \<noteq> VStr []"

text \<open>\<open>validate\<close> of each kind of field.\<close>

definition validate_choice :: "string list \<Rightarrow> field \<Rightarrow> pyval \<Rightarrow> unit fres" where
  "validate_choice cs f v = fbind (nonempty f v) (\<lambda>_. require (\<not> truthy v \<or> v \<in> VStr ` set cs) MSG_CHOICE)"

definition validate_integer_choice :: "int list \<Rightarrow> field \<Rightarrow> pyval \<Rightarrow> unit fres" where
  "validate_integer_choice cs f v = (if v = VNone \<and> fl_allow_empty f then fok () else require (v \<in> VInt ` set cs) MSG_CHOICE)"

definition validate_array :: "nat option \<Rightarrow> pyval \<Rightarrow> unit fres" where
  "validate_array n v = (case v of
      VList vs \<Rightarrow> fbind (require (case n of None \<Rightarrow> True | Some m \<Rightarrow> length vs \<le> m) ''too many items'')
        (\<lambda>_. require (list_all item_ok vs) MSG_REQUIRED)
    | _ \<Rightarrow> fok ())"

definition validate_dict :: "nat option \<Rightarrow> pyval \<Rightarrow> unit fres" where
  "validate_dict n v = (case v of
      VDict d \<Rightarrow> fbind (require (case n of None \<Rightarrow> True | Some m \<Rightarrow> dict_size d \<le> m) ''too large'')
        (\<lambda>_. require (list_all (\<lambda>(k, x). k \<noteq> [] \<and> item_ok x) d) MSG_REQUIRED)
    | _ \<Rightarrow> fok ())"

definition validate_field :: "field \<Rightarrow> pyval \<Rightarrow> unit fres" where
  "validate_field f v = (case fl_kind f of
      ChoiceField cs \<Rightarrow> validate_choice cs f v
    | IntegerChoiceField cs \<Rightarrow> validate_integer_choice cs f v
    | ArrayField n \<Rightarrow> validate_array n v
    | DictField ks vs n \<Rightarrow> validate_dict n v
    | _ \<Rightarrow> nonempty f v)"

lemmas validate_defs = validate_field_def validate_choice_def validate_integer_choice_def validate_array_def validate_dict_def

definition errors_of :: "('a \<Rightarrow> string option) list \<Rightarrow> 'a \<Rightarrow> string list" where
  "errors_of vs x = concat (map (\<lambda>w. case w x of Some m \<Rightarrow> [m] | None \<Rightarrow> []) vs)"

fun first_errors :: "string list list \<Rightarrow> unit fres" where
  "first_errors [] = fok ()"
| "first_errors (es # ess) = (if es = [] then first_errors ess else Inr (Inl es))"

definition val_errors :: "(string \<Rightarrow> string option) list \<Rightarrow> pyval \<Rightarrow> string list" where
  "val_errors vs x = (case x of VStr s \<Rightarrow> if s = [] then [] else errors_of vs s | _ \<Rightarrow> [])"

definition run_array_validators :: "field \<Rightarrow> pyval list \<Rightarrow> unit fres" where
  "run_array_validators f vs =
     first_errors (map (\<lambda>x. if x \<in> set EMPTY_VALUES then [] else errors_of (fl_validators f) x) vs)"

definition run_dict_validators :: "(string \<Rightarrow> string option) list \<Rightarrow> (string \<Rightarrow> string option) list \<Rightarrow> pydict \<Rightarrow> unit fres" where
  "run_dict_validators ks vs d =
     first_errors (concat (map (\<lambda>(k, x). [if k = [] then [] else errors_of ks k, val_errors vs x]) d))"

definition run_validators :: "field \<Rightarrow> pyval \<Rightarrow> unit fres" where
  "run_validators f v = (case (fl_kind f, v) of
      (ArrayField n, VList vs) \<Rightarrow> run_array_validators f vs
    | (DictField ks vs n, VDict d) \<Rightarrow> run_dict_validators ks vs d
    | _ \<Rightarrow> (if v \<in> set EMPTY_VALUES then fok () else first_errors [errors_of (fl_validators f) v]))"

section \<open>Fields of a request\<close>

text \<open>
  The value of a field in the data of a request: \<open>None\<close> when it stays unset. Partial updates take no
  defaults and require nothing. A related field takes its default also when that is \<open>None\<close>, and treats the text
  \<open>None\<close> as empty.
\<close>

definition related_from_native :: "field_env \<Rightarrow> bool \<Rightarrow> field \<Rightarrow> pyval option \<Rightarrow> pyval option fres" where
  "related_from_native env part f given =
     (case (case given of Some v \<Rightarrow> Some v | None \<Rightarrow> if part then None else Some (fl_default f)) of
        None \<Rightarrow> fok None
      | Some v \<Rightarrow> (if v \<in> {VNone, VStr [], VStr ''None''}
          then fbind (require (fl_allow_empty f) MSG_REQUIRED) (\<lambda>_. fok (Some VNone))
          else fbind (from_native env f v) (\<lambda>o'. fok (Some o'))))"

definition field_from_native :: "field_env \<Rightarrow> bool \<Rightarrow> field \<Rightarrow> pyval option \<Rightarrow> pyval option fres" where
  "field_from_native env part f given =
     (if fl_read_only f then fok None
      else (case fl_kind f of
        SlugRelatedField q slug \<Rightarrow> related_from_native env part f given
      | _ \<Rightarrow> (case (case given of Some v \<Rightarrow> Some v | None \<Rightarrow> if fl_default f \<noteq> VNone \<and> \<not> part then Some (fl_default f) else None) of
          None \<Rightarrow> fbind (require (part \<or> \<not> fl_required f) MSG_REQUIRED) (\<lambda>_. fok None)
        | Some v \<Rightarrow> fbind (from_native env f v) (\<lambda>x. fbind (validate_field f x) (\<lambda>_. fbind (run_validators f x) (\<lambda>_. fok (Some x)))))))"

type_synonym fields = "(string \<times> field) list"
type_synonym form_errors = "(string \<times> string list) list"

fun restore_fields :: "field_env \<Rightarrow> bool \<Rightarrow> fields \<Rightarrow> pydict \<Rightarrow> (form_errors \<times> pydict) res" where
  "restore_fields env part [] data = Inr ([], [])"
| "restore_fields env part ((k, f) # fs) data = (case field_from_native env part f (map_of data k) of
      Inl e \<Rightarrow> Inl e
    | Inr r \<Rightarrow> rbind (restore_fields env part fs data) (\<lambda>(errors, attrs). Inr (case r of
          Inl es \<Rightarrow> ((k, es) # errors, attrs)
        | Inr None \<Rightarrow> (errors, attrs)
        | Inr (Some v) \<Rightarrow> (errors, (k, v) # attrs))))"

text \<open>
  The methods \<open>validate_<name>\<close> of a serializer: from the attributes and the serializer to messages (none
  when the attribute is accepted) and both changed. Fields with errors, and those that a partial update does not give,
  are skipped.
\<close>

type_synonym 's methods = "string \<Rightarrow> (pydict \<Rightarrow> 's \<Rightarrow> (string list \<times> pydict \<times> 's) res) option"

fun validate_methods :: "'s methods \<Rightarrow> bool \<Rightarrow> string list \<Rightarrow> form_errors \<Rightarrow> pydict \<Rightarrow> 's \<Rightarrow> (form_errors \<times> pydict \<times> 's) res" where
  "validate_methods ms part [] errors attrs ser = Inr (errors, attrs, ser)"
| "validate_methods ms part (k # ks) errors attrs ser =
     (if dhas errors k \<or> (part \<and> \<not> dhas attrs k) then validate_methods ms part ks errors attrs ser
      else (case ms k of None \<Rightarrow> validate_methods ms part ks errors attrs ser
        | Some m \<Rightarrow> rbind (m attrs ser) (\<lambda>(es, attrs', ser').
            validate_methods ms part ks (if es = [] then errors else errors @ [(k, es)]) attrs' ser')))"

text \<open>
  \<open>is_valid\<close> up to \<open>restore_object\<close>: the errors, or the attributes and the serializer. \<open>check\<close> is the method
  \<open>validate\<close>, which runs when there are no errors so far and adds its own.
\<close>

definition perform_validation ::
  "'s methods \<Rightarrow> (pydict \<Rightarrow> 's \<Rightarrow> (form_errors \<times> pydict \<times> 's) res) \<Rightarrow> field_env \<Rightarrow> bool \<Rightarrow> fields \<Rightarrow> pydict \<Rightarrow> 's
    \<Rightarrow> (form_errors + pydict \<times> 's) res" where
  "perform_validation ms check env part fs data ser =
     rbind (restore_fields env part fs data) (\<lambda>(errors, attrs).
     rbind (validate_methods ms part (map fst fs) errors attrs ser) (\<lambda>(errors1, attrs1, ser1).
     if errors1 \<noteq> [] then Inr (Inl errors1)
     else rbind (check attrs1 ser1) (\<lambda>(errors2, attrs2, ser2).
       Inr (if errors2 \<noteq> [] then Inl errors2 else Inr (attrs2, ser2)))))"

section \<open>Types of the attributes\<close>

lemma fbind_ok: "fbind m f = Inr (Inr y) \<longleftrightarrow> (\<exists>x. m = Inr (Inr x) \<and> f x = Inr (Inr y))"
  by (auto simp: fbind_def split: sum.splits)

lemmas f_defs = fok_def invalid_def require_def lift_res_def

lemma require_ok: "require b m = Inr (Inr u) \<longleftrightarrow> b" by (simp add: f_defs)

text \<open>
  The values that a field accepts. A choice is one of the choices or something false: a false value is not
  compared with them.
\<close>

definition has_kind :: "field \<Rightarrow> pyval \<Rightarrow> bool" where
  "has_kind f v = (case fl_kind f of
      BooleanField \<Rightarrow> (\<exists>b. v = VBool b)
    | CharField \<Rightarrow> (\<exists>s. v = VStr s \<and> (fl_allow_empty f \<or> s \<noteq> []))
    | IntegerField \<Rightarrow> v = VNone \<and> fl_allow_empty f \<or> (\<exists>i. v = VInt i)
    | ChoiceField cs \<Rightarrow> (\<exists>s. v = VStr s \<and> s \<in> set cs) \<or> \<not> truthy v \<and> (v = VStr [] \<and> fl_allow_empty f \<or> v \<notin> set EMPTY_VALUES)
    | IntegerChoiceField cs \<Rightarrow> v = VNone \<and> fl_allow_empty f \<or> (\<exists>i. v = VInt i \<and> i \<in> set cs)
    | ArrayField n \<Rightarrow> (\<exists>ss. v = VList (map VStr ss) \<and> [] \<notin> set ss \<and> (case n of None \<Rightarrow> True | Some m \<Rightarrow> length ss \<le> m))
    | TagField \<Rightarrow> (\<exists>ts. v = VList (map VStr ts) \<and> list_all tag_ok ts)
    | SlugRelatedField q slug \<Rightarrow> True
    | DictField ks vs n \<Rightarrow> (\<exists>d. v = VDict (map (\<lambda>(k, s). (k, VStr s)) d) \<and> (\<forall>(k, s) \<in> set d. k \<noteq> [] \<and> s \<noteq> [])
        \<and> (case n of None \<Rightarrow> True | Some m \<Rightarrow> sum_list (map (length \<circ> snd) d) \<le> m)))"

text \<open>
  No validator of a field has an objection: those of an array look at every item, those of a dictionary at every key
  and every value, all others at the value itself unless it is empty.
\<close>

definition passes :: "field \<Rightarrow> pyval \<Rightarrow> bool" where
  "passes f v \<longleftrightarrow> (case fl_kind f of
      ArrayField n \<Rightarrow> (\<forall>xs. v = VList xs \<longrightarrow> (\<forall>x \<in> set xs. \<forall>w \<in> set (fl_validators f). w x = None))
    | DictField ks vs n \<Rightarrow> (\<forall>d. v = VDict d \<longrightarrow>
        (\<forall>(k, x) \<in> set d. (\<forall>w \<in> set ks. w k = None) \<and> (\<forall>s. x = VStr s \<longrightarrow> (\<forall>w \<in> set vs. w s = None))))
    | _ \<Rightarrow> v \<in> set EMPTY_VALUES \<or> (\<forall>w \<in> set (fl_validators f). w v = None))"

text \<open>
  A related field looks up the object that the given text, or the default, names; an empty text, and the text
  \<open>None\<close>, stand for no object where that is allowed.
\<close>

definition looked_up :: "field_env \<Rightarrow> field \<Rightarrow> pyval \<Rightarrow> pyval \<Rightarrow> bool" where
  "looked_up env f given v \<longleftrightarrow> (case fl_kind f of
      SlugRelatedField q slug \<Rightarrow> (if given \<in> {VNone, VStr [], VStr ''None''} then v = VNone \<and> fl_allow_empty f
        else fe_related env q given = Some v)
    | _ \<Rightarrow> True)"

lemma strict_tags_ok: "strict_tags vs = Inr (Inr w) \<Longrightarrow> \<exists>ts. vs = map VStr ts \<and> w = VList (map VStr ts) \<and> list_all tag_ok ts"
proof (induction vs arbitrary: w)
  case Nil
  then show ?case by (simp add: f_defs)
next
  case (Cons t vs)
  obtain s where s: "t = VStr s" "tag_ok s" using Cons.prems by (auto simp: f_defs split: pyval.splits if_splits)
  obtain x where x: "strict_tags vs = Inr (Inr x)" "(case x of VList vs \<Rightarrow> fok (VList (t # vs)) | _ \<Rightarrow> fok x) = Inr (Inr w)"
    using Cons.prems s by (auto simp: fbind_ok)
  from Cons.IH [OF x(1)] obtain ts where "vs = map VStr ts" "x = VList (map VStr ts)" "list_all tag_ok ts" by blast
  with x(2) s show ?case by (intro exI [of _ "s # ts"]) (simp add: f_defs)
qed

lemma strict_tags_strings: "list_all tag_ok ts \<Longrightarrow> strict_tags (map VStr ts) = fok (VList (map VStr ts))"
  by (induction ts) (simp_all add: fbind_def fok_def)

lemma str_values: "\<exists>ss. vs = map VStr ss" if "\<forall>v \<in> set vs. \<exists>s. v = VStr s"
  using that by (induction vs) (auto simp: Cons_eq_map_conv)

lemma dict_native_ok:
  assumes "dict_native env v = Inr (Inr w)"
  shows "\<exists>d. w = VDict (map (\<lambda>(k, s). (k, VStr s)) d)"
proof -
  have strings: "\<exists>d. e = map (\<lambda>(k, s). (k, VStr s)) d" if "\<forall>p \<in> set e. \<exists>s. snd p = VStr s" for e
    using that
  proof (induction e)
    case (Cons p e)
    then obtain d s where "e = map (\<lambda>(k, s). (k, VStr s)) d" "snd p = VStr s" by auto
    then show ?case by (intro exI [of _ "(fst p, s) # d"]) (cases p, simp)
  qed simp
  have upd: "\<forall>p \<in> set (dupdate e (map (\<lambda>(k, x). (k, VStr x)) ps)). \<exists>s. snd p = VStr s"
    if "\<forall>p \<in> set e. \<exists>s. snd p = VStr s" for e ps
    using that
  proof (induction ps arbitrary: e)
    case (Cons q ps)
    have "\<forall>p \<in> set (AList.update (fst q) (VStr (snd q)) e). \<exists>s. snd p = VStr s"
      using Cons.prems by (induction e) (auto split: if_splits)
    from Cons.IH [OF this] show ?case by (cases q) (simp add: dupdate_def)
  qed (simp add: dupdate_def)
  from assms consider "w = VDict []" | ps where "w = VDict (dupdate [] (map (\<lambda>(k, x). (k, VStr x)) ps))"
    | d where "w = VDict (map (\<lambda>(k, x). (k, VStr (char_text env x))) d)"
    unfolding dict_native_def f_defs by (auto split: if_splits pyval.splits option.splits)
  then show ?thesis
  proof cases
    case 1
    then show ?thesis by (intro exI [of _ "[]"]) simp
  next
    case 2
    with strings [OF upd [of "[]"]] show ?thesis by auto
  next
    case 3
    have "\<exists>e. map (\<lambda>(k, x). (k, VStr (char_text env x))) d = map (\<lambda>(k, s). (k, VStr s)) e" by (rule strings) auto
    with 3 show ?thesis by auto
  qed
qed

lemma dict_size_strings: "dict_size (map (\<lambda>(k, s). (k, VStr s)) d) = sum_list (map (length \<circ> snd) d)"
  by (induction d) (auto simp: dict_size_def)

lemma from_native_kind:
  assumes "from_native env f v = Inr (Inr x)" "validate_field f x = Inr (Inr u)"
  shows "has_kind f x"
proof (cases "fl_kind f")
  case BooleanField
  then show ?thesis using assms(1) by (auto simp: native_defs has_kind_def lift_res_def fok_def rbind_def split: sum.splits)
next
  case CharField
  then show ?thesis using assms
    by (auto simp: native_defs has_kind_def fok_def validate_defs nonempty_def require_ok EMPTY_VALUES_def)
next
  case IntegerField
  then show ?thesis using assms
    by (auto simp: native_defs has_kind_def fok_def fbind_ok validate_defs nonempty_def require_ok EMPTY_VALUES_def split: if_splits)
next
  case (ChoiceField cs)
  then have "nonempty f x = Inr (Inr ())" "\<not> truthy x \<or> (\<exists>s. x = VStr s \<and> s \<in> set cs)"
    using assms(2) by (auto simp: validate_defs fbind_ok require_ok)
  moreover have "x = VStr [] \<or> x \<notin> set EMPTY_VALUES"
    using assms(1) ChoiceField by (auto simp: native_defs fok_def split: if_splits)
  ultimately show ?thesis using ChoiceField by (auto simp: has_kind_def nonempty_def require_ok)
next
  case (IntegerChoiceField cs)
  then show ?thesis using assms(2) by (auto simp: has_kind_def validate_defs require_ok split: if_splits)
next
  case (ArrayField n)
  have "\<exists>ss. x = VList (map VStr ss)"
    using assms(1) ArrayField str_values by (auto simp: native_defs f_defs split: if_splits pyval.splits intro!: str_values)
  then obtain ss where ss: "x = VList (map VStr ss)" ..
  have "[] \<notin> set ss \<and> (case n of None \<Rightarrow> True | Some m \<Rightarrow> length ss \<le> m)"
    using assms(2) ArrayField unfolding ss
    by (auto simp: validate_defs fbind_ok require_ok list_all_iff item_ok_def split: option.splits)
  with ArrayField ss show ?thesis unfolding has_kind_def by (simp only: field_kind.case) blast
next
  case TagField
  then show ?thesis using assms(1) strict_tags_ok
    by (fastforce simp: native_defs has_kind_def f_defs split: pyval.splits option.splits)
next
  case (SlugRelatedField q slug)
  then show ?thesis by (simp add: has_kind_def)
next
  case (DictField ks vs n)
  then have "dict_native env v = Inr (Inr x)" using assms(1) by (simp add: native_defs)
  from dict_native_ok [OF this] obtain d where d: "x = VDict (map (\<lambda>(k, s). (k, VStr s)) d)" ..
  have "case n of None \<Rightarrow> True | Some m \<Rightarrow> sum_list (map (length \<circ> snd) d) \<le> m" "\<forall>(k, s) \<in> set d. k \<noteq> [] \<and> s \<noteq> []"
    using assms(2) DictField unfolding d
    by (auto simp: validate_defs fbind_ok require_ok list_all_iff item_ok_def dict_size_strings split: option.splits)
  with DictField d show ?thesis by (auto simp: has_kind_def)
qed

definition is_related :: "field \<Rightarrow> bool" where
  "is_related f \<longleftrightarrow> (case fl_kind f of SlugRelatedField _ _ \<Rightarrow> True | _ \<Rightarrow> False)"

lemma field_from_native_plain:
  assumes "\<not> is_related f" "\<not> fl_read_only f"
  shows "field_from_native env part f given = (case (case given of Some v \<Rightarrow> Some v | None \<Rightarrow> if fl_default f \<noteq> VNone \<and> \<not> part then Some (fl_default f) else None) of
          None \<Rightarrow> fbind (require (part \<or> \<not> fl_required f) MSG_REQUIRED) (\<lambda>_. fok None)
        | Some v \<Rightarrow> fbind (from_native env f v) (\<lambda>x. fbind (validate_field f x) (\<lambda>_. fbind (run_validators f x) (\<lambda>_. fok (Some x)))))"
  using assms unfolding field_from_native_def is_related_def by (cases "fl_kind f") simp_all

lemma errors_of_none: "errors_of ws x = [] \<longleftrightarrow> (\<forall>w \<in> set ws. w x = None)"
  by (auto simp: errors_of_def split: option.splits)

lemma first_errors_ok: "first_errors ess = Inr (Inr u) \<longleftrightarrow> (\<forall>es \<in> set ess. es = [])"
  by (induction ess) (auto simp: fok_def)

lemma validated_passes:
  assumes "run_validators f v = Inr (Inr u)" "has_kind f v" "\<not> is_related f"
  shows "passes f v"
proof (cases "fl_kind f")
  case (ArrayField n)
  then obtain ss where v: "v = VList (map VStr ss)" "[] \<notin> set ss" using assms(2) by (auto simp: has_kind_def)
  have "first_errors (map (\<lambda>x. if x \<in> set EMPTY_VALUES then [] else errors_of (fl_validators f) x) (map VStr ss)) = Inr (Inr u)"
    using assms(1) unfolding run_validators_def ArrayField v(1) by (simp add: run_array_validators_def)
  then have "errors_of (fl_validators f) (VStr s) = []" if "s \<in> set ss" for s
    using that v(2) unfolding first_errors_ok by (auto simp: EMPTY_VALUES_def)
  then show ?thesis unfolding passes_def ArrayField errors_of_none by (auto simp: v(1))
next
  case (DictField ks vs n)
  then obtain d where v: "v = VDict (map (\<lambda>(k, s). (k, VStr s)) d)" "\<forall>(k, s) \<in> set d. k \<noteq> [] \<and> s \<noteq> []"
    using assms(2) by (auto simp: has_kind_def)
  have e: "\<forall>es \<in> set (concat (map (\<lambda>(k, x). [if k = [] then [] else errors_of ks k, val_errors vs x]) (map (\<lambda>(k, s). (k, VStr s)) d))). es = []"
    using assms(1) unfolding run_validators_def DictField v(1)
    by (simp only: prod.case field_kind.case pyval.case run_dict_validators_def first_errors_ok)
  have "errors_of ks k = [] \<and> errors_of vs s = []" if "(k, s) \<in> set d" for k s
    using e that v(2) by (fastforce simp: val_errors_def)
  then show ?thesis unfolding passes_def DictField errors_of_none by (auto simp: v(1))
qed (use assms in \<open>auto simp: passes_def run_validators_def errors_of_none fok_def is_related_def split: if_splits\<close>)

lemma field_value_kind:
  assumes "field_from_native env part f given = Inr (Inr (Some x))"
  shows "\<not> fl_read_only f \<and> (part \<longrightarrow> given \<noteq> None) \<and> has_kind f x \<and> (is_related f \<or> passes f x)
    \<and> looked_up env f (case given of Some w \<Rightarrow> w | None \<Rightarrow> fl_default f) x"
proof -
  have ro: "\<not> fl_read_only f" using assms by (auto simp: field_from_native_def fok_def)
  show ?thesis
  proof (cases "is_related f")
    case True
    then obtain q slug where k: "fl_kind f = SlugRelatedField q slug" by (auto simp: is_related_def split: field_kind.splits)
    have r: "related_from_native env part f given = Inr (Inr (Some x))" using assms ro by (simp add: field_from_native_def k)
    then have p: "part \<longrightarrow> given \<noteq> None" by (cases given) (auto simp: related_from_native_def fok_def)
    define g where "g = (case given of Some w \<Rightarrow> w | None \<Rightarrow> fl_default f)"
    have "(if g \<in> {VNone, VStr [], VStr ''None''} then fbind (require (fl_allow_empty f) MSG_REQUIRED) (\<lambda>_. fok (Some VNone))
          else fbind (from_native env f g) (\<lambda>o'. fok (Some o'))) = Inr (Inr (Some x))"
    proof -
      have "(case given of Some v \<Rightarrow> Some v | None \<Rightarrow> if part then None else Some (fl_default f)) = Some g"
        using p by (cases given) (auto simp: g_def)
      from r [unfolded related_from_native_def this option.case] show ?thesis .
    qed
    then have "looked_up env f g x"
      by (auto simp: looked_up_def k native_defs f_defs fbind_def split: if_splits option.splits)
    then show ?thesis using ro True k p by (simp add: has_kind_def g_def)
  next
    case False
    obtain v where v: "(case given of Some v \<Rightarrow> Some v | None \<Rightarrow> if fl_default f \<noteq> VNone \<and> \<not> part then Some (fl_default f) else None) = Some v"
        "from_native env f v = Inr (Inr x)" "validate_field f x = Inr (Inr ())" "run_validators f x = Inr (Inr ())"
      using assms unfolding field_from_native_plain [OF False ro]
      by (auto simp: fbind_ok fok_def split: option.splits if_splits)
    have h: "has_kind f x" by (rule from_native_kind [OF v(2,3)])
    have "looked_up env f g x" for g using False by (simp add: looked_up_def is_related_def split: field_kind.splits)
    then show ?thesis using v(1) ro h validated_passes [OF v(4) h False] by (auto split: option.splits if_splits)
  qed
qed


definition demo_form :: fields where
  "demo_form = [(''ram'', field_of IntegerField True VNone [max_value 1048576, min_value 1]),
     (''vga'', field_of (ChoiceField [''std'', ''cirrus'']) True (VStr ''std'') [])]"

definition demo_reader :: field_env where
  "demo_reader = \<lparr>fe_repr = (\<lambda>_. []), fe_parse_tags = (\<lambda>_. None), fe_split_strip = (\<lambda>s. [s]), fe_related = (\<lambda>_ _. None)\<rparr>"


section \<open>Parsing again\<close>

lemma from_native_again:
  assumes "\<not> is_related f" "has_kind f x"
  shows "from_native env f x = fok x"
proof (cases "fl_kind f")
  case (SlugRelatedField q slug)
  then show ?thesis using assms(1) by (simp add: is_related_def)
next
  case (ChoiceField cs)
  then show ?thesis using assms(2) by (auto simp: has_kind_def native_defs EMPTY_VALUES_def truthy_def fok_def)
next
  case (ArrayField n)
  then obtain ss where "x = VList (map VStr ss)" using assms(2) by (auto simp: has_kind_def)
  then show ?thesis using ArrayField
    by (cases ss) (auto simp: native_defs truthy_def char_text_def fmt_def comp_def)
next
  case TagField
  then show ?thesis using assms(2) by (auto simp: has_kind_def native_defs strict_tags_strings)
next
  case (DictField ks vs n)
  then obtain d where "x = VDict (map (\<lambda>(k, s). (k, VStr s)) d)" using assms(2) by (auto simp: has_kind_def)
  then show ?thesis using DictField
    by (cases d) (auto simp: native_defs dict_native_def truthy_def char_text_def fmt_def comp_def case_prod_unfold)
qed (use assms(2) in \<open>auto simp: has_kind_def native_defs EMPTY_VALUES_def lift_res_def get_boolean_value_def truthy_def rbind_def
  char_text_def fmt_def fbind_def whole_number_def fok_def\<close>)

text \<open>
  C16. Reading a value that a field has accepted gives the same value again, so that what a request
  has set can be sent back unchanged. This does not cover related fields, which turn a name into an object.
\<close>

theorem accepted_value_reparsed:
  assumes "\<not> is_related f" "field_from_native env part f given = Inr (Inr (Some x))"
  shows "field_from_native env part f (Some x) = Inr (Inr (Some x))"
proof -
  have ro: "\<not> fl_read_only f" using assms(2) by (auto simp: field_from_native_def fok_def)
  obtain v where v: "validate_field f x = Inr (Inr ())" "run_validators f x = Inr (Inr ())"
    using assms(2) unfolding field_from_native_plain [OF assms(1) ro]
    by (auto simp: fbind_ok fok_def split: option.splits if_splits)
  have "has_kind f x" using field_value_kind [OF assms(2)] by blast
  from from_native_again [OF assms(1) this] v show ?thesis
    unfolding field_from_native_plain [OF assms(1) ro] by (simp add: fbind_def fok_def)
qed

theorem accepted_value_reparsed_witness:
  "field_from_native demo_reader True (snd (hd demo_form)) (Some (VInt 512)) = Inr (Inr (Some (VInt 512)))"
proof -
  have "\<not> is_related (snd (hd demo_form))"
    "field_from_native demo_reader True (snd (hd demo_form)) (Some (VStr '' 512'')) = Inr (Inr (Some (VInt 512)))" by code_simp+
  from accepted_value_reparsed [OF this] show ?thesis .
qed

section \<open>Gaps\<close>

text \<open>
  A field of choices accepts \<open>False\<close> and \<open>0\<close>, which are none of its choices: only true values are compared
  with them. A multiple of two passes the validator that demands a power of two.
\<close>

lemma choice_accepts_false:
  "field_from_native env part (field_of (ChoiceField cs) required dflt []) (Some (VBool False)) = fok (Some (VBool False))"
  by (simp add: field_from_native_def field_of_def native_defs validate_defs run_validators_def nonempty_def
      EMPTY_VALUES_def require_def truthy_def errors_of_def fbind_def fok_def)

lemma even_block_size_accepted:
  "field_from_native env part (field_of IntegerField True VNone [max_value 131072, min_value 512, mod2_validator]) (Some (VInt 514))
    = fok (Some (VInt 514))"
  by (simp add: field_from_native_def field_of_def native_defs validate_defs run_validators_def nonempty_def
      EMPTY_VALUES_def require_def whole_number_def errors_of_def max_value_def min_value_def mod2_validator_def fbind_def fok_def)

end
