(* ===== verification/Schedule_Form.thy ===== *)
theory Schedule_Form
  imports Snapshots Api_Fields
begin

text \<open>
  The schedule of a snapshot or backup definition from the request to the periodic task: what
  \<open>CronField\<close> accepts is stored by the models as it was given.
\<close>

lemma words_from_words:
  assumes "\<forall>c \<in> set w. \<not> is_space c" "v \<in> set (words_from w s)"
  shows "v \<noteq> [] \<and> (\<forall>c \<in> set v. \<not> is_space c)"
  using assms
proof (induction s arbitrary: w)
  case Nil
  then show ?case by (simp split: if_splits)
next
  case (Cons c s)
  note nil = Cons.IH [of "[]"]
  show ?case
  proof (cases "is_space c")
    case True
    then have "v \<in> set (words_from [] s) \<or> v = w \<and> w \<noteq> []" using Cons.prems(2) by (auto split: if_splits)
    then show ?thesis
    proof
      assume "v \<in> set (words_from [] s)"
      from nil [OF _ this] show ?thesis by simp
    next
      assume "v = w \<and> w \<noteq> []"
      then show ?thesis using Cons.prems(1) by blast
    qed
  next
    case False
    then have "\<forall>c \<in> set (w @ [c]). \<not> is_space c" "v \<in> set (words_from (w @ [c]) s)" using Cons.prems by simp_all
    then show ?thesis by (rule Cons.IH)
  qed
qed

lemma cron_five_words:
  assumes "cron_validator s = None"
  shows "five_words s"
proof -
  have e: "split_words s = split_on (CHR '' '') s" "length (split_words s) = 5"
    using assms by (auto simp: cron_validator_def Let_def split: if_splits)
  have "s = join_with '' '' (split_words s)" unfolding e(1) by (rule join_split_on [symmetric])
  moreover have "\<forall>w \<in> set (split_words s). w \<noteq> [] \<and> (\<forall>c \<in> set w. \<not> is_space c)"
    using words_from_words [of "[]"] by (simp add: split_words_def)
  ultimately show ?thesis using e(2) unfolding five_words_def by blast
qed

text \<open>
  C17. A schedule that the API accepts is stored and read back as it was given: the periodic task
  has these five columns and is enabled exactly when the definition is active, and saving again
  writes nothing.
\<close>

theorem accepted_schedule_stored:
  assumes "cron_validator s = None" "sched_schedule m = Some s"
  shows "\<exists>m' k. schedule_save pk fresh m = Inr (m', k) \<and> k \<le> 1
    \<and> sched_schedule (m'\<lparr>sm_schedule := None, sm_active := None\<rparr>) = Some s
    \<and> sched_active (m'\<lparr>sm_schedule := None, sm_active := None\<rparr>) = sched_active m'
    \<and> schedule_save pk fresh m' = Inr (m', 0)"
  by (rule schedule_roundtrip [OF assms(2) cron_five_words [OF assms(1)]])

theorem accepted_schedule_stored_witness:
  "\<exists>m' k. schedule_save 5 (snapshot_periodic_task ''daily'' ''u'' 0 1) \<lparr>sm_active = Some False, sm_schedule = Some ''0 1-5,7 */2 * *'', sm_periodic = None\<rparr>
      = Inr (m', k) \<and> sched_schedule (m'\<lparr>sm_schedule := None, sm_active := None\<rparr>) = Some ''0 1-5,7 */2 * *''"
proof -
  have "cron_validator ''0 1-5,7 */2 * *'' = None" by code_simp
  with accepted_schedule_stored [of "''0 1-5,7 */2 * *''" "\<lparr>sm_active = Some False, sm_schedule = Some ''0 1-5,7 */2 * *'', sm_periodic = None\<rparr>" 5
      "snapshot_periodic_task ''daily'' ''u'' 0 1"]
  show ?thesis by (auto simp: sched_schedule_def)
qed

end
