(* ===== verification/Ip_Usage.thy ===== *)
theory Ip_Usage
  imports Vm_Save
begin

text \<open>
  The addresses of networks and the VMs that use them, \<^verbatim>\<open>vms/models/ipaddress.py\<close>, with
  \<open>vm_update_ipaddress_usage\<close> of \<^verbatim>\<open>api/vm/base/utils.py\<close>, which brings the table of addresses in
  line with the definition of a VM after every command on its node.
\<close>

section \<open>Addresses\<close>

text \<open>
  A row of the table; a VM is given by its UUID. \<open>ip_vm\<close> is the VM that has the address on one of its
  network cards, \<open>ip_vms\<close> those that have it among the additional addresses of a card.
\<close>

record ip_row =
  ip_ip :: string
  ip_subnet :: string
  ip_vm :: "string option"
  ip_vms :: "string list"
  ip_usage :: int
  ip_note :: string

definition USAGE_VM :: int where "USAGE_VM = 1"
definition USAGE_VM_REAL :: int where "USAGE_VM_REAL = 2"
definition USAGE_NODE :: int where "USAGE_NODE = 3"
definition USAGE_OTHER :: int where "USAGE_OTHER = 9"

lemmas usage_codes = USAGE_VM_def USAGE_VM_REAL_def USAGE_NODE_def USAGE_OTHER_def

definition is_node_address :: "ip_row \<Rightarrow> bool" where "is_node_address r \<longleftrightarrow> ip_usage r = USAGE_NODE"

definition ip_hostname :: "(string \<Rightarrow> vm option) \<Rightarrow> ip_row \<Rightarrow> string option" where
  "ip_hostname db r = (if ip_usage r = USAGE_NODE then Some (ip_note r)
     else case ip_vm r of Some u \<Rightarrow> map_option v_hostname (db u) | None \<Rightarrow> None)"

definition additional_vm_uuids :: "ip_row \<Rightarrow> string list" where
  "additional_vm_uuids r = (if ip_usage r \<in> {USAGE_VM, USAGE_VM_REAL} then ip_vms r else [])"

definition additional_vm_hostnames :: "(string \<Rightarrow> vm option) \<Rightarrow> ip_row \<Rightarrow> string list" where
  "additional_vm_hostnames db r = (if ip_usage r \<in> {USAGE_VM, USAGE_VM_REAL}
     then List.map_filter (\<lambda>u. map_option v_hostname (db u)) (ip_vms r) else [])"

definition api_note :: "ip_row \<Rightarrow> string" where
  "api_note r = (if ip_usage r = USAGE_NODE then [] else ip_note r)"

definition set_api_note :: "string \<Rightarrow> ip_row \<Rightarrow> ip_row" where
  "set_api_note v r = (if ip_usage r \<noteq> USAGE_NODE then r\<lparr>ip_note := v\<rparr> else r)"

definition web_usage :: "ip_row \<Rightarrow> int" where
  "web_usage r = (if ip_usage r = USAGE_VM_REAL then USAGE_VM else ip_usage r)"

text \<open>The card of the VM that has the address, with its number counted from 1.\<close>

fun find_nic :: "string \<Rightarrow> string \<Rightarrow> nat \<Rightarrow> pydict list \<Rightarrow> (nat option \<times> pydict)" where
  "find_nic ip uuid i [] = (None, [])"
| "find_nic ip uuid i (nic # nics) =
     (if py_eq (dget nic ''network_uuid'' VNone) (VStr uuid) \<and> py_eq (dget nic ''ip'' VNone) (VStr ip)
      then (Some i, nic) else find_nic ip uuid (Suc i) nics)"

definition ip_get_nic :: "(string \<Rightarrow> vm option) \<Rightarrow> ip_row \<Rightarrow> (nat option \<times> pydict) res" where
  "ip_get_nic db r = (case ip_vm r of
      None \<Rightarrow> Inr (None, [])
    | Some u \<Rightarrow> (case db u of None \<Rightarrow> Inr (None, [])
        | Some x \<Rightarrow> (if ip_ip r = [] then Inr (None, [])
            else rbind (json_get_nics x) (\<lambda>nics. Inr (find_nic (ip_ip r) (ip_subnet r) 1 nics)))))"

section \<open>Usage after a command\<close>

text \<open>
  The usage goes back to \<open>USAGE_VM\<close> when no other VM that is created has the address among its
  additional ones.
\<close>

definition others_notcreated :: "(string \<Rightarrow> vm option) \<Rightarrow> string \<Rightarrow> ip_row \<Rightarrow> bool" where
  "others_notcreated db uuid r \<longleftrightarrow>
     list_all (\<lambda>u. u \<noteq> uuid \<longrightarrow> (case db u of Some x \<Rightarrow> is_notcreated x | None \<Rightarrow> True)) (ip_vms r)"

definition reset_allowed_ip_usage :: "(string \<Rightarrow> vm option) \<Rightarrow> string \<Rightarrow> ip_row \<Rightarrow> ip_row" where
  "reset_allowed_ip_usage db uuid r = (if others_notcreated db uuid r then r\<lparr>ip_usage := USAGE_VM\<rparr> else r)"

definition is_ip_ok :: "ip_row list \<Rightarrow> pyval \<Rightarrow> pyval \<Rightarrow> bool" where
  "is_ip_ok rows vm_ip network_uuid \<longleftrightarrow> vm_ip = VStr ''dhcp''
     \<or> list_ex (\<lambda>r. VStr (ip_ip r) = vm_ip \<and> VStr (ip_subnet r) = network_uuid \<and> ip_usage r = USAGE_VM_REAL) rows"

text \<open>The addresses of a VM that are returned, and the additional ones that are.\<close>

definition return_old_ips :: "string \<Rightarrow> pyval set \<Rightarrow> ip_row list \<Rightarrow> ip_row list" where
  "return_old_ips uuid current = map (\<lambda>r.
     if ip_vm r = Some uuid \<and> VStr (ip_ip r) \<notin> current then r\<lparr>ip_vm := None, ip_usage := USAGE_VM\<rparr> else r)"

definition remove_allowed_ips :: "(string \<Rightarrow> vm option) \<Rightarrow> string \<Rightarrow> pyval set \<Rightarrow> ip_row list \<Rightarrow> ip_row list" where
  "remove_allowed_ips db uuid current = map (\<lambda>r.
     if uuid \<in> set (ip_vms r) \<and> VStr (ip_ip r) \<notin> current
     then reset_allowed_ip_usage db uuid (r\<lparr>ip_vms := removeAll uuid (ip_vms r)\<rparr>) else r)"

definition usage_notcreated :: "(string \<Rightarrow> vm option) \<Rightarrow> string \<Rightarrow> ip_row list \<Rightarrow> ip_row list" where
  "usage_notcreated db uuid rows =
     map (\<lambda>r. if uuid \<in> set (ip_vms r) \<and> ip_usage r = USAGE_VM_REAL then reset_allowed_ip_usage db uuid r else r)
       (map (\<lambda>r. if ip_vm r = Some uuid \<and> ip_usage r = USAGE_VM_REAL then r\<lparr>ip_usage := USAGE_VM\<rparr> else r) rows)"

definition usage_created :: "string \<Rightarrow> ip_row list \<Rightarrow> ip_row list" where
  "usage_created uuid rows =
     map (\<lambda>r. if uuid \<in> set (ip_vms r) \<and> ip_usage r = USAGE_VM then r\<lparr>ip_usage := USAGE_VM_REAL\<rparr> else r)
       (map (\<lambda>r. if ip_vm r = Some uuid \<and> ip_usage r = USAGE_VM then r\<lparr>ip_usage := USAGE_VM_REAL\<rparr> else r) rows)"

definition allowed_of :: "pydict \<Rightarrow> pyval list res" where
  "allowed_of nic = (case dget nic ''allowed_ips'' (VList []) of VList vs \<Rightarrow> Inr vs
     | _ \<Rightarrow> Inl (Exn TypeError ''not iterable''))"

definition check_nic_ips :: "ip_row list \<Rightarrow> ip_row list \<Rightarrow> pydict \<Rightarrow> unit res" where
  "check_nic_ips vm_ips vm_allowed_ips nic =
     (let network = dget nic ''network_uuid'' VNone; ip = dget nic ''ip'' (VStr []) in
      if \<not> truthy network then Inl (Exn ValueError ''does not have a network uuid!'')
      else if truthy ip \<and> \<not> is_ip_ok vm_ips ip network
      then Inl (Exn ValueError ''IP address is not properly associated with VM!'')
      else rbind (allowed_of nic) (\<lambda>allowed.
        if list_all (\<lambda>a. is_ip_ok vm_allowed_ips a network) allowed then Inr ()
        else Inl (Exn ValueError ''allowed IP address is not properly associated with VM!'')))"

fun check_nics_ips :: "ip_row list \<Rightarrow> ip_row list \<Rightarrow> pydict list \<Rightarrow> unit res" where
  "check_nics_ips vm_ips vm_allowed_ips [] = Inr ()"
| "check_nics_ips vm_ips vm_allowed_ips (nic # nics) =
     rbind (check_nic_ips vm_ips vm_allowed_ips nic) (\<lambda>_. check_nics_ips vm_ips vm_allowed_ips nics)"

definition current_ips :: "bool \<Rightarrow> bool \<Rightarrow> vm \<Rightarrow> pyval set res" where
  "current_ips primary allowed x =
     rbind (rbind (json_active_get_nics x) (get_ips primary allowed)) (\<lambda>a.
     rbind (rbind (json_get_nics x) (get_ips primary allowed)) (\<lambda>b. Inr (set a \<union> set b)))"

text \<open>What was written before an error stays written.\<close>

definition vm_update_ipaddress_usage ::
  "(string \<Rightarrow> vm option) \<Rightarrow> vm \<Rightarrow> ip_row list \<Rightarrow> unit res \<times> ip_row list" where
  "vm_update_ipaddress_usage db x rows =
     (case rbind (current_ips True False x) (\<lambda>c. rbind (current_ips False True x) (\<lambda>a. Inr (c, a))) of
        Inl e \<Rightarrow> (Inl e, rows)
      | Inr (current, current_allowed) \<Rightarrow>
          (let uuid = v_uuid x;
               rows1 = remove_allowed_ips db uuid current_allowed (return_old_ips uuid current rows)
           in if is_notcreated x then (Inr (), usage_notcreated db uuid rows1)
              else (let rows2 = usage_created uuid rows1;
                        vm_ips = filter (\<lambda>r. ip_vm r = Some uuid \<and> ip_usage r = USAGE_VM_REAL) rows2;
                        vm_allowed_ips = filter (\<lambda>r. uuid \<in> set (ip_vms r) \<and> ip_usage r = USAGE_VM_REAL) rows2
                    in (rbind (json_active_get_nics x) (check_nics_ips vm_ips vm_allowed_ips), rows2))))"

section \<open>What an update does to a row\<close>

lemma removeAll_absent: "u \<notin> set xs \<Longrightarrow> removeAll u xs = xs"
  by (induction xs) auto

lemma check_nics_ips_all: "check_nics_ips is as nics = Inr () \<Longrightarrow> nic \<in> set nics \<Longrightarrow> check_nic_ips is as nic = Inr ()"
  by (induction nics) (auto simp: rbind_Inr_iff)

text \<open>
  What an update of a created VM does to every row: an address that none of its cards has any more is returned, the VM
  is taken off the additional addresses that it does not have, and the usage follows. A row is freed when its address
  is returned, or when the VM was taken off and every other VM that shares it is not created.
\<close>

definition freed_row :: "(string \<Rightarrow> vm option) \<Rightarrow> string \<Rightarrow> pyval set \<Rightarrow> pyval set \<Rightarrow> ip_row \<Rightarrow> bool" where
  "freed_row db u c a r \<longleftrightarrow> ip_vm r = Some u \<and> VStr (ip_ip r) \<notin> c
     \<or> u \<in> set (ip_vms r) \<and> VStr (ip_ip r) \<notin> a
       \<and> list_all (\<lambda>w. w = u \<or> (case db w of Some y \<Rightarrow> v_status y = NOTCREATED | None \<Rightarrow> True)) (ip_vms r)"

definition row_after :: "(string \<Rightarrow> vm option) \<Rightarrow> string \<Rightarrow> pyval set \<Rightarrow> pyval set \<Rightarrow> ip_row \<Rightarrow> ip_row" where
  "row_after db u c a r =
     (let vm = (if ip_vm r = Some u \<and> VStr (ip_ip r) \<notin> c then None else ip_vm r);
          vms = (if VStr (ip_ip r) \<in> a then ip_vms r else removeAll u (ip_vms r));
          usage = (if freed_row db u c a r then USAGE_VM else ip_usage r)
      in r\<lparr>ip_vm := vm, ip_vms := vms,
           ip_usage := (if (vm = Some u \<or> u \<in> set vms) \<and> usage = USAGE_VM then USAGE_VM_REAL else usage)\<rparr>)"

lemma others_notcreated_removed: "others_notcreated db u (r\<lparr>ip_vms := removeAll u (ip_vms r)\<rparr>) = others_notcreated db u r"
  "others_notcreated db u r = list_all (\<lambda>w. w = u \<or> (case db w of Some y \<Rightarrow> v_status y = NOTCREATED | None \<Rightarrow> True)) (ip_vms r)"
  unfolding others_notcreated_def is_notcreated_def list_all_iff by (auto split: option.split)

lemma created_rows: "usage_created u (remove_allowed_ips db u a (return_old_ips u c rows)) = map (row_after db u c a) rows"
proof -
  let ?f1 = "\<lambda>r. if ip_vm r = Some u \<and> VStr (ip_ip r) \<notin> c then r\<lparr>ip_vm := None, ip_usage := USAGE_VM\<rparr> else r"
  let ?f2 = "\<lambda>r. if u \<in> set (ip_vms r) \<and> VStr (ip_ip r) \<notin> a then reset_allowed_ip_usage db u (r\<lparr>ip_vms := removeAll u (ip_vms r)\<rparr>) else r"
  let ?f3 = "\<lambda>r. if ip_vm r = Some u \<and> ip_usage r = USAGE_VM then r\<lparr>ip_usage := USAGE_VM_REAL\<rparr> else r"
  let ?f4 = "\<lambda>r. if u \<in> set (ip_vms r) \<and> ip_usage r = USAGE_VM then r\<lparr>ip_usage := USAGE_VM_REAL\<rparr> else r"
  have r1: "?f1 r = r\<lparr>ip_vm := (if ip_vm r = Some u \<and> VStr (ip_ip r) \<notin> c then None else ip_vm r),
      ip_usage := (if ip_vm r = Some u \<and> VStr (ip_ip r) \<notin> c then USAGE_VM else ip_usage r)\<rparr>" for r by simp
  have r2: "?f2 r = r\<lparr>ip_vms := (if VStr (ip_ip r) \<in> a then ip_vms r else removeAll u (ip_vms r)),
      ip_usage := (if u \<in> set (ip_vms r) \<and> VStr (ip_ip r) \<notin> a \<and> others_notcreated db u r then USAGE_VM else ip_usage r)\<rparr>" for r
    by (simp add: reset_allowed_ip_usage_def others_notcreated_removed(1) removeAll_absent)
  have r34: "?f4 (?f3 r) = r\<lparr>ip_usage := (if (ip_vm r = Some u \<or> u \<in> set (ip_vms r)) \<and> ip_usage r = USAGE_VM then USAGE_VM_REAL else ip_usage r)\<rparr>" for r
    by (auto simp: usage_codes)
  have o: "others_notcreated db u (r\<lparr>ip_vm := v, ip_usage := k\<rparr>) = others_notcreated db u r" for r v k
    by (simp add: others_notcreated_def)
  have "?f4 (?f3 (?f2 (?f1 r))) = row_after db u c a r" for r
    unfolding r34 r2 r1 row_after_def Let_def freed_row_def others_notcreated_removed(2) [symmetric]
    by (auto simp: o)
  then show ?thesis
    unfolding usage_created_def remove_allowed_ips_def return_old_ips_def map_map by (simp add: o_def cong: map_cong)
qed

text \<open>The row for an address of a card, with what it must satisfy.\<close>

definition has_address :: "ip_row list \<Rightarrow> pyval \<Rightarrow> pyval \<Rightarrow> (ip_row \<Rightarrow> bool) \<Rightarrow> bool" where
  "has_address rows a network P \<longleftrightarrow> a = VStr ''dhcp'' \<or> list_ex (\<lambda>r. VStr (ip_ip r) = a \<and> VStr (ip_subnet r) = network \<and> P r) rows"

lemma checked_nic:
  assumes "check_nic_ips is as nic = Inr ()"
  shows "truthy (dget nic ''network_uuid'' VNone)
    \<and> (truthy (dget nic ''ip'' VNone) \<longrightarrow> has_address is (dget nic ''ip'' VNone) (dget nic ''network_uuid'' VNone) (\<lambda>r. ip_usage r = USAGE_VM_REAL))
    \<and> (\<exists>vs. allowed_of nic = Inr vs \<and> list_all (\<lambda>v. has_address as v (dget nic ''network_uuid'' VNone) (\<lambda>r. ip_usage r = USAGE_VM_REAL)) vs)"
proof -
  have d: "dget nic ''ip'' (VStr []) = dget nic ''ip'' VNone \<or> \<not> truthy (dget nic ''ip'' VNone)"
    by (auto simp: dget_def truthy_def split: option.splits)
  obtain vs where "truthy (dget nic ''network_uuid'' VNone)" "allowed_of nic = Inr vs"
      "\<not> (truthy (dget nic ''ip'' (VStr [])) \<and> \<not> is_ip_ok is (dget nic ''ip'' (VStr [])) (dget nic ''network_uuid'' VNone))"
      "list_all (\<lambda>a. is_ip_ok as a (dget nic ''network_uuid'' VNone)) vs"
    using assms unfolding check_nic_ips_def Let_def by (auto simp: rbind_Inr_iff split: if_splits)
  then show ?thesis using d unfolding is_ip_ok_def has_address_def by auto
qed

text \<open>
  C14. When the addresses of a created VM are updated without an error (after a command on its node), every address on a
  card that the node reports (other than \<open>dhcp\<close>) is in use by this VM: the one of the card is a row of the card's network
  that belongs to the VM, and each additional one is a row of that network shared by the VM, both marked as real. All
  rows are pinned: the VM loses exactly the addresses that none of its cards has, it is taken off exactly the
  additional addresses that it does not have, other VMs keep theirs, and the usage of a shared row goes back only
  when no other VM that shares it is created.
\<close>

theorem vm_owns_reported_addresses:
  assumes "vm_update_ipaddress_usage db x rows = (Inr (), rows')" "\<not> is_notcreated x"
    "json_active_get_nics x = Inr nics" "current_ips True False x = Inr current" "current_ips False True x = Inr allowed"
  shows "list_all (\<lambda>nic. let network = dget nic ''network_uuid'' VNone in
        truthy network
        \<and> (truthy (dget nic ''ip'' VNone) \<longrightarrow> has_address rows' (dget nic ''ip'' VNone) network
             (\<lambda>r. ip_vm r = Some (v_uuid x) \<and> ip_usage r = USAGE_VM_REAL))
        \<and> (\<exists>vs. allowed_of nic = Inr vs \<and> list_all (\<lambda>v. has_address rows' v network
             (\<lambda>r. v_uuid x \<in> set (ip_vms r) \<and> ip_usage r = USAGE_VM_REAL)) vs)) nics
    \<and> rows' = map (row_after db (v_uuid x) current allowed) rows"
proof -
  let ?u = "v_uuid x"
  let ?rows = "map (row_after db ?u current allowed) rows"
  have r: "rows' = ?rows" "check_nics_ips (filter (\<lambda>r. ip_vm r = Some ?u \<and> ip_usage r = USAGE_VM_REAL) ?rows)
      (filter (\<lambda>r. ?u \<in> set (ip_vms r) \<and> ip_usage r = USAGE_VM_REAL) ?rows) nics = Inr ()"
    using assms(1,2,3) by (auto simp: vm_update_ipaddress_usage_def assms(4,5) Let_def created_rows)
  have f: "has_address (filter P rs) v n (\<lambda>r. ip_usage r = USAGE_VM_REAL) \<Longrightarrow> has_address rs v n P" for P rs v n
    by (auto simp: has_address_def list_ex_iff)
  have "let network = dget nic ''network_uuid'' VNone in
        truthy network
        \<and> (truthy (dget nic ''ip'' VNone) \<longrightarrow> has_address rows' (dget nic ''ip'' VNone) network
             (\<lambda>r. ip_vm r = Some ?u \<and> ip_usage r = USAGE_VM_REAL))
        \<and> (\<exists>vs. allowed_of nic = Inr vs \<and> list_all (\<lambda>v. has_address rows' v network
             (\<lambda>r. ?u \<in> set (ip_vms r) \<and> ip_usage r = USAGE_VM_REAL)) vs)" if n: "nic \<in> set nics" for nic
    using checked_nic [OF check_nics_ips_all [OF r(2) n]] f unfolding r(1) Let_def list_all_iff by meson
  then show ?thesis using r(1) by (simp add: list_all_iff)
qed

definition demo_ip_rows :: "ip_row list" where
  "demo_ip_rows = [\<lparr>ip_ip = ''10.0.0.5'', ip_subnet = ''net'', ip_vm = Some ''u'', ip_vms = [], ip_usage = 1, ip_note = []\<rparr>,
     \<lparr>ip_ip = ''10.0.0.6'', ip_subnet = ''net'', ip_vm = Some ''u'', ip_vms = [], ip_usage = 2, ip_note = []\<rparr>]"

definition demo_nics_vm :: vm where
  "demo_nics_vm = demo_vm\<lparr>v_json := [(''nics'', VList [VDict [(''ip'', VStr ''10.0.0.5''), (''network_uuid'', VStr ''net'')]])],
     v_json_active := [(''nics'', VList [VDict [(''ip'', VStr ''10.0.0.5''), (''network_uuid'', VStr ''net'')]])]\<rparr>"

theorem vm_owns_reported_addresses_witness:
  "\<exists>rows'. vm_update_ipaddress_usage (\<lambda>_. None) demo_nics_vm demo_ip_rows = (Inr (), rows')
     \<and> has_address rows' (VStr ''10.0.0.5'') (VStr ''net'') (\<lambda>r. ip_vm r = Some ''u'' \<and> ip_usage r = USAGE_VM_REAL)"
proof -
  let ?n = "[(''ip'', VStr ''10.0.0.5''), (''network_uuid'', VStr ''net'')]"
  have n: "json_active_get_nics demo_nics_vm = Inr [?n]" by code_simp
  have c: "current_ips True False demo_nics_vm = Inr {VStr ''10.0.0.5''}" "current_ips False True demo_nics_vm = Inr {}"
    by (simp_all add: current_ips_def json_active_get_nics_def json_get_nics_def get_dicts_def demo_nics_vm_def dget_def is_ip_def truthy_def)
  have u: "v_uuid demo_nics_vm = ''u''" "\<not> is_notcreated demo_nics_vm" by code_simp+
  have d: "dget ?n ''ip'' VNone = VStr ''10.0.0.5''" "dget ?n ''network_uuid'' VNone = VStr ''net''" "truthy (VStr ''10.0.0.5'')"
    by (simp_all add: dget_def truthy_def)
  have e: "fst (vm_update_ipaddress_usage (\<lambda>_. None) demo_nics_vm demo_ip_rows) = Inr ()" by code_simp
  then have r: "vm_update_ipaddress_usage (\<lambda>_. None) demo_nics_vm demo_ip_rows
     = (Inr (), snd (vm_update_ipaddress_usage (\<lambda>_. None) demo_nics_vm demo_ip_rows))" by (metis prod.collapse)
  have "has_address (snd (vm_update_ipaddress_usage (\<lambda>_. None) demo_nics_vm demo_ip_rows)) (VStr ''10.0.0.5'') (VStr ''net'')
      (\<lambda>r. ip_vm r = Some ''u'' \<and> ip_usage r = USAGE_VM_REAL)"
    using vm_owns_reported_addresses [OF r u(2) n c] unfolding u(1) list.pred_inject Let_def d using d(3) by blast
  then show ?thesis using r by blast
qed

end
