(* ===== verification/Vm_Status.thy ===== *)
theory Vm_Status
  imports Node_Info Ip_Usage
begin

text \<open>
  Changes of the status of VMs, \<^verbatim>\<open>api/vm/status/tasks.py\<close> with the helpers of
  \<^verbatim>\<open>api/vm/base/utils.py\<close>: the checks that compare what compute nodes report with the cached
  status, the deploy process that they drive, and the callbacks of the commands that start, stop
  and reboot VMs. The database, the Django cache and the keys in Redis are one state; signals, task
  logs, events and submitted commands are appended to its output. Checks of one VM exclude each
  other (\<open>mgmt_lock\<close>), so a check is one step on this state.
\<close>

section \<open>State\<close>

text \<open>
  What leaves the process. A command carries its queue, the shell command, the lock and the
  callback with its arguments; \<open>CmdMeta\<close> is what a command of the API carries besides for its callback and
  \<open>DnsCall\<close> a request to the API of DNS records.
\<close>

datatype status_event =
    Signal string string string
  | TaskLogged string string int "int option"
  | UserInformed string string int string
  | CmdRun string string "string option" string "(string \<times> pyval) list"
  | CmdMeta pydict
  | TasksDeleted string string
  | SuccessLogged string string
  | DisksRemoved string "int list"
  | ResourcesUpdated effect
  | DnsCall string pydict
  | SnapshotsDeleted string
  | MailSent string string
  | ErrorLogged string string
  | TemplateDefined string string

record status_state =
  ss_db :: "string \<Rightarrow> vm option"
  ss_cache :: "string \<Rightarrow> pyval option"
  ss_finished :: "string list"
  ss_ips :: "ip_row list"
  ss_out :: "status_event list"

type_synonym 'a sprog = "(status_state, 'a) prog"

text \<open>
  What is outside: the environment of \<open>save\<close>, md5 and new UUIDs for task IDs, whether the image
  with some UUID needs a deployment, the error with which the queue refuses a command, dateutil,
  the JSON decoder and the raw form in which Redis returns a cached value.
\<close>

record status_env =
  se_save :: save_env
  se_md5 :: "string \<Rightarrow> string"
  se_uuid :: string
  se_image_deploy :: "pyval \<Rightarrow> bool res"
  se_refused :: "string \<Rightarrow> string \<Rightarrow> string option"
  se_parse_time :: "string \<Rightarrow> int res"
  se_load_json :: "string \<Rightarrow> pydict res"
  se_raw :: "pyval \<Rightarrow> pyval"

definition out :: "status_event list \<Rightarrow> unit sprog" where
  "out es = pmod (\<lambda>s. s\<lparr>ss_out := ss_out s @ es\<rparr>)"

text \<open>A cached \<open>None\<close> reads like a missing value.\<close>

definition cache_get :: "string \<Rightarrow> status_state \<Rightarrow> pyval option" where
  "cache_get k s = (case ss_cache s k of Some VNone \<Rightarrow> None | v \<Rightarrow> v)"

definition cache_put :: "string \<Rightarrow> pyval \<Rightarrow> unit sprog" where
  "cache_put k v = pmod (\<lambda>s. s\<lparr>ss_cache := (ss_cache s)(k \<mapsto> v)\<rparr>)"

definition vm_status_key :: "string \<Rightarrow> string" where "vm_status_key uuid = uuid @ '':status''"
definition vm_status_change_key :: "string \<Rightarrow> string" where "vm_status_change_key uuid = uuid @ '':status-change''"

text \<open>An object read from the database starts with its transient attributes at their defaults.\<close>

definition fresh_vm :: "vm \<Rightarrow> vm" where
  "fresh_vm x = x\<lparr>v_orig_status := v_status x, v_lock := False, v_update_changed := False, v_node_changed := False,
     v_orig_node := None, v_status_display := None, v_fqdn_hostname := None, v_fqdn_domain := None\<rparr>"

definition load_vm :: "string \<Rightarrow> vm option sprog" where
  "load_vm uuid = pget (\<lambda>s. map_option fresh_vm (ss_db s uuid))"

text \<open>Only the columns named by \<open>update_fields\<close> are written.\<close>

definition write_fields :: "string list option \<Rightarrow> vm \<Rightarrow> vm \<Rightarrow> vm" where
  "write_fields fs x row = (case fs of None \<Rightarrow> x | Some f \<Rightarrow> row\<lparr>
     v_status := (if ''status'' \<in> set f then v_status x else v_status row),
     v_status_change := (if ''status_change'' \<in> set f then v_status_change x else v_status_change row),
     v_uptime := (if ''uptime'' \<in> set f then v_uptime x else v_uptime row),
     v_uptime_changed := (if ''uptime_changed'' \<in> set f then v_uptime_changed x else v_uptime_changed row),
     v_json := (if ''enc_json'' \<in> set f then v_json x else v_json row),
     v_json_active := (if ''enc_json_active'' \<in> set f then v_json_active x else v_json_active row),
     v_info := (if ''enc_info'' \<in> set f then v_info x else v_info row),
     v_changed := (if ''changed'' \<in> set f then v_changed x else v_changed row),
     v_node := (if ''node_id'' \<in> set f then v_node x else v_node row)\<rparr>)"

definition run_effect :: "vm \<Rightarrow> status_state \<Rightarrow> effect \<Rightarrow> status_state" where
  "run_effect x s e = (case e of
      DbSave fs \<Rightarrow> s\<lparr>ss_db := (ss_db s)(v_uuid x := (case fs of None \<Rightarrow> Some x
        | Some _ \<Rightarrow> map_option (write_fields fs x) (ss_db s (v_uuid x))))\<rparr>
    | CacheSet k v \<Rightarrow> s\<lparr>ss_cache := (ss_cache s)(k \<mapsto> v)\<rparr>
    | _ \<Rightarrow> s\<lparr>ss_out := ss_out s @ [ResourcesUpdated e]\<rparr>)"

text \<open>A row that is gone is inserted again by a full save; saving it with \<open>update_fields\<close> is an error of
  the database.\<close>

definition st_save :: "status_env \<Rightarrow> save_args \<Rightarrow> vm \<Rightarrow> vm sprog" where
  "st_save env a x = (\<lambda>s. case vm_save (se_save env) a x of
      Inl e \<Rightarrow> (Inl e, s)
    | Inr (y, es) \<Rightarrow> (if sv_fields a \<noteq> None \<and> ss_db s (v_uuid y) = None
        then (Inl (Exn (OtherError ''DatabaseError'') ''Save with update_fields did not affect any rows.''), s)
        else (Inr y, foldl (run_effect y) s es)))"

definition status_args :: "string list \<Rightarrow> int option option \<Rightarrow> save_args" where
  "status_args fs change_time = \<lparr>sv_sync_json = False, sv_update_hostname = False, sv_update_node = False,
     sv_storages = Some [], sv_keep_vnc_port = False, sv_fields = Some fs, sv_change_time = change_time\<rparr>"

definition st_save_status :: "status_env \<Rightarrow> int option \<Rightarrow> int option option \<Rightarrow> vm \<Rightarrow> vm sprog" where
  "st_save_status env new_status change_time x =
     st_save env (status_args [''status'', ''status_change''] change_time)
       (case new_status of Some v \<Rightarrow> x\<lparr>v_status := v\<rparr> | None \<Rightarrow> x)"

section \<open>Times\<close>

definition get_task_time :: "status_env \<Rightarrow> string option \<Rightarrow> int option res" where
  "get_task_time env task_time = (case task_time of
      Some (c # t) \<Rightarrow> rbind (se_parse_time env (c # t)) (\<lambda>i. Inr (Some i))
    | _ \<Rightarrow> Inr None)"

definition strip_colons :: "string \<Rightarrow> string" where
  "strip_colons s = rev (dropWhile (\<lambda>c. c = CHR '':'') (rev (dropWhile (\<lambda>c. c = CHR '':'') s)))"

definition parse_timestamp :: "status_env \<Rightarrow> string \<Rightarrow> int option res" where
  "parse_timestamp env exit_or_boot_timestamp = (case strip_colons exit_or_boot_timestamp of
      [] \<Rightarrow> Inr None
    | c # t \<Rightarrow> rbind (se_parse_time env (c # t)) (\<lambda>i. Inr (Some i)))"

text \<open>
  The time of an event counts fractions of a second of unknown size; it is scaled by its number of
  digits so that the seconds have ten digits, and kept here in whole seconds.
\<close>

fun digits :: "nat \<Rightarrow> nat" where
  "digits n = (if n < 10 then 1 else Suc (digits (n div 10)))"

declare digits.simps [simp del]

definition event_time :: "int \<Rightarrow> int res" where
  "event_time w = (if w \<le> 0 then Inl (Exn ValueError ''math domain error'')
     else (let k = int (digits (nat w)) - 10 in
       Inr (if k \<ge> 0 then w div 10 ^ nat k else w * 10 ^ nat (- k))))"

section \<open>Commands on compute nodes\<close>

definition node_fast_queue :: "node_ref \<Rightarrow> string" where "node_fast_queue n = ''fast.'' @ nr_hostname n"

text \<open>\<open>execute\<close>: the error when the command was refused.\<close>

definition execute_cmd :: "status_env \<Rightarrow> string \<Rightarrow> string \<Rightarrow> string option \<Rightarrow> string \<Rightarrow> (string \<times> pyval) list \<Rightarrow> string option sprog" where
  "execute_cmd env queue cmd lock callback args = (case se_refused env queue cmd of
      Some e \<Rightarrow> pret (Some e)
    | None \<Rightarrow> pbind (out [CmdRun queue cmd lock callback args]) (\<lambda>_. pret None))"

definition the_node :: "vm \<Rightarrow> node_ref res" where
  "the_node x = (case v_node x of Some n \<Rightarrow> Inr n | None \<Rightarrow> Inl (Exn AttributeError ''uuid''))"

definition vm_status_all :: "status_env \<Rightarrow> bool \<Rightarrow> node_ref \<Rightarrow> unit sprog" where
  "vm_status_all env is_compute n = (if \<not> is_compute then pret () else
     pbind (execute_cmd env (node_fast_queue n) ''vmadm list -p -H -o uuid,state,exit_timestamp,boot_timestamp'' None
         ''api.vm.status.tasks.vm_status_all_cb'' [(''node_uuid'', VStr (nr_uuid n))]) (\<lambda>_. pret ()))"

definition vm_status_one :: "status_env \<Rightarrow> vm \<Rightarrow> unit sprog" where
  "vm_status_one env x = pbind (pres (the_node x)) (\<lambda>n.
     pbind (execute_cmd env (node_fast_queue n)
         (''vmadm list -p -H -o uuid,state,exit_timestamp,boot_timestamp uuid='' @ v_uuid x) None
         ''api.vm.status.tasks.vm_status_all_cb'' [(''node_uuid'', VStr (nr_uuid n))]) (\<lambda>_. pret ()))"

definition vm_deploy :: "status_env \<Rightarrow> bool \<Rightarrow> vm \<Rightarrow> unit sprog" where
  "vm_deploy env force_stop x = pbind (pres (the_node x)) (\<lambda>n.
     pbind (execute_cmd env (node_fast_queue n)
         ((if force_stop then ''vmadm stop '' @ v_uuid x @ '' -F'' else ''vmadm start '' @ v_uuid x)
            @ '' >/dev/null 2>/dev/null; vmadm get '' @ v_uuid x @ '' 2>/dev/null'')
         (Some (''vmadm deploy '' @ v_uuid x)) ''api.vm.base.tasks.vm_deploy_cb'' [(''vm_uuid'', VStr (v_uuid x))]) (\<lambda>_. pret ()))"

text \<open>The image of the first disk decides on the deployment; custom images need none.\<close>

definition is_deploy_needed :: "status_env \<Rightarrow> vm \<Rightarrow> bool res" where
  "is_deploy_needed env x = rbind (json_get_disks x) (\<lambda>ds. case ds of
      [] \<Rightarrow> Inr False
    | d # _ \<Rightarrow> (case map_of d ''image_uuid'' of None \<Rightarrow> Inr False | Some u \<Rightarrow> se_image_deploy env u))"

text \<open>Keys in Redis are written without the prefix that all of them share.\<close>

definition deploy_finished_key :: "vm \<Rightarrow> string" where "deploy_finished_key x = v_uuid x @ '':deploy_finished''"

definition set_deploy_finished :: "vm \<Rightarrow> unit sprog" where
  "set_deploy_finished x = pmod (\<lambda>s. s\<lparr>ss_finished := List.insert (deploy_finished_key x) (ss_finished s)\<rparr>)"

definition has_deploy_finished :: "vm \<Rightarrow> bool sprog" where
  "has_deploy_finished x = (\<lambda>s. if deploy_finished_key x \<in> set (ss_finished s)
     then (Inr True, s\<lparr>ss_finished := removeAll (deploy_finished_key x) (ss_finished s)\<rparr>) else (Inr False, s))"

section \<open>A status changes\<close>

text \<open>Whether the cached time of the last change is after the time of a new one.\<close>

definition newer_change :: "string \<Rightarrow> int option \<Rightarrow> status_state \<Rightarrow> bool res" where
  "newer_change uuid change_time s = (case change_time of
      None \<Rightarrow> Inr False
    | Some t \<Rightarrow> (case cache_get (vm_status_change_key uuid) s of
        None \<Rightarrow> Inr False
      | Some (VInt old) \<Rightarrow> Inr (old > t)
      | Some _ \<Rightarrow> Inl (Exn TypeError ''can't compare datetime.datetime'')))"

definition save_new_status :: "status_env \<Rightarrow> vm \<Rightarrow> int \<Rightarrow> int option \<Rightarrow> int option \<Rightarrow> vm sprog" where
  "save_new_status env x state old_state change_time =
     (let x1 = x\<lparr>v_status := state\<rparr>;
          x2 = (if state \<noteq> STOPPING then update_uptime (e_now (se_save env)) None False x1 else x1);
          x3 = (case old_state of Some v \<Rightarrow> x2\<lparr>v_orig_status := v\<rparr> | None \<Rightarrow> x2)
      in st_save env (status_args [''status'', ''status_change'', ''uptime'', ''uptime_changed''] (Some change_time)) x3)"

text \<open>The signals, the log entry and the event for the users of a changed VM.\<close>

definition changed_events :: "string \<Rightarrow> vm \<Rightarrow> status_event list" where
  "changed_events tid x = Signal ''vm_status_changed'' tid (v_uuid x)
     # (if v_status x = RUNNING then [Signal ''vm_running'' tid (v_uuid x)]
        else if v_status x = STOPPED then [Signal ''vm_stopped'' tid (v_uuid x)] else [])
     @ [TaskLogged tid (v_uuid x) (v_status x) (v_status_change x),
        UserInformed tid (v_uuid x) (v_status x) (get_status_display x)]"

definition vm_status_changed ::
  "status_env \<Rightarrow> string \<Rightarrow> vm \<Rightarrow> int \<Rightarrow> int option \<Rightarrow> bool \<Rightarrow> bool \<Rightarrow> int option \<Rightarrow> vm sprog" where
  "vm_status_changed env tid x state old_state save_state deploy_over change_time =
     pbind (\<lambda>s. (newer_change (v_uuid x) change_time s, s)) (\<lambda>too_old.
     if too_old then pret x else
     pbind (if save_state then save_new_status env x state old_state change_time else pret x) (\<lambda>y.
     pbind (pwhen deploy_over (set_deploy_finished y)) (\<lambda>_.
     if is_slave_vm y then pret y else
     pbind (pres (task_id_from_task_id (se_md5 env) (se_uuid env) tid None (Some (IdInt (v_owner y))) None None
         (Some (IdInt (v_dc y))) False)) (\<lambda>tid'.
     pbind (out (changed_events tid' y)) (\<lambda>_. pret y)))))"

definition save_vm_status :: "status_env \<Rightarrow> string \<Rightarrow> vm \<Rightarrow> int \<Rightarrow> int option \<Rightarrow> bool \<Rightarrow> int option \<Rightarrow> vm sprog" where
  "save_vm_status env tid x new_state old_state deploy_over change_time =
     vm_status_changed env tid x new_state (Some (case old_state of None \<Rightarrow> v_status x | Some v \<Rightarrow> v))
       True deploy_over change_time"


section \<open>Checks of a reported status\<close>

text \<open>
  The local flags \<open>deploy\<close>, \<open>deploy_finish\<close>, \<open>deploy_over\<close> of a check that goes on; \<open>NoDeploy\<close> when
  none is set. \<open>None\<close> is a report that is ignored.
\<close>

datatype deploy_phase = NoDeploy | Deploy | DeployFinish | DeployOver

definition deploy_flag :: "bool \<Rightarrow> int \<Rightarrow> int \<Rightarrow> deploy_phase option" where
  "deploy_flag force_change state_cache state =
     (if force_change then Some NoDeploy
      else if state_cache = CREATING then (if state = RUNNING then Some Deploy else None)
      else if state_cache = DEPLOYING_DUMMY then (if state = STOPPED then Some DeployOver else None)
      else if state_cache = DEPLOYING_START then (if state = STOPPED then Some DeployFinish else None)
      else if state_cache = DEPLOYING_FINISH then (if state = RUNNING then Some DeployOver else None)
      else if state_cache \<notin> set STATUS_KNOWN then None
      else Some NoDeploy)"

text \<open>What a check does once the VM is known to be on the node; the result is what it returns.\<close>

definition check_finish ::
  "status_env \<Rightarrow> string \<Rightarrow> vm \<Rightarrow> int \<Rightarrow> int \<Rightarrow> bool \<Rightarrow> int option \<Rightarrow> int option sprog" where
  "check_finish env tid x state state_cache deploy_over change_time =
     pbind (save_vm_status env tid x state (Some state_cache) deploy_over change_time) (\<lambda>_. pret (Some state))"

definition check_apply ::
  "status_env \<Rightarrow> string \<Rightarrow> vm \<Rightarrow> int \<Rightarrow> int \<Rightarrow> deploy_phase \<Rightarrow> int option \<Rightarrow> int option sprog" where
  "check_apply env tid x state state_cache flag change_time = (case flag of
      NoDeploy \<Rightarrow> check_finish env tid x state state_cache False change_time
    | DeployOver \<Rightarrow> check_finish env tid x state state_cache True change_time
    | DeployFinish \<Rightarrow>
        pbind (st_save_status env (Some DEPLOYING_FINISH) (Some change_time) x) (\<lambda>y.
        pbind (vm_deploy env False y) (\<lambda>_. pret None))
    | Deploy \<Rightarrow>
        pbind (pres (is_deploy_needed env x)) (\<lambda>needed.
        if needed then pbind (st_save_status env (Some DEPLOYING_START) (Some change_time) x) (\<lambda>_. pret None)
        else pbind (pres (is_blank x)) (\<lambda>blank.
          if blank then pbind (st_save_status env (Some DEPLOYING_DUMMY) (Some change_time) x) (\<lambda>y.
            pbind (vm_deploy env True y) (\<lambda>_. pret None))
          else check_finish env tid x state state_cache True change_time)))"

definition vm_status_check ::
  "status_env \<Rightarrow> string \<Rightarrow> string \<Rightarrow> string \<Rightarrow> int \<Rightarrow> pyval option \<Rightarrow> int option \<Rightarrow> bool \<Rightarrow> int option sprog" where
  "vm_status_check env tid node_uuid uuid state cached change_time force_change =
     pbind (case cached of
         None \<Rightarrow> pbind (load_vm uuid) (\<lambda>r. case r of
             None \<Rightarrow> pret None
           | Some x \<Rightarrow> pbind (cache_put (vm_status_key uuid) (VInt (v_status x))) (\<lambda>_. pret (Some (v_status x, Some x))))
       | Some v \<Rightarrow> pbind (pres (py_int v)) (\<lambda>i. pret (Some (i, None))))
     (\<lambda>r. case r of
         None \<Rightarrow> pret None
       | Some (state_cache, loaded) \<Rightarrow>
           if state_cache = state then pret None
           else (case deploy_flag force_change state_cache state of
               None \<Rightarrow> pret None
             | Some flag \<Rightarrow>
                 pbind (case loaded of None \<Rightarrow> load_vm uuid | Some x \<Rightarrow> pret (Some x)) (\<lambda>found. case found of
                     None \<Rightarrow> pret None
                   | Some x \<Rightarrow> pbind (pres (the_node x)) (\<lambda>n.
                       if nr_uuid n \<noteq> node_uuid then pret None
                       else check_apply env tid x state state_cache flag change_time))))"

section \<open>Callbacks\<close>

text \<open>\<open>s.split(c, n)\<close> for a character and \<open>s.splitlines()\<close> for lines that end with a line feed.\<close>

fun split_max :: "nat \<Rightarrow> char \<Rightarrow> string \<Rightarrow> string list" where
  "split_max 0 c s = [s]"
| "split_max (Suc n) c s = (case dropWhile (\<lambda>x. x \<noteq> c) s of
      [] \<Rightarrow> [s]
    | _ # t \<Rightarrow> takeWhile (\<lambda>x. x \<noteq> c) s # split_max n c t)"

definition split_lines :: "string \<Rightarrow> string list" where
  "split_lines s = (let ls = split_on (CHR 0x0A) s in if last ls = [] then butlast ls else ls)"

text \<open>The lines of \<open>vmadm list\<close> that can be used: UUID, status and time of exit or boot.\<close>

definition status_line :: "string \<Rightarrow> (string \<times> int \<times> string) option" where
  "status_line line = (case split_max 2 (CHR '':'') (strip line) of
      [uuid, st, t] \<Rightarrow> (if st \<in> set STATUS_UNUSED then None
        else (case map_of STATUS_DICT st of None \<Rightarrow> None | Some state \<Rightarrow> Some (uuid, state, t)))
    | _ \<Rightarrow> None)"

definition status_lines :: "string \<Rightarrow> (string \<times> int \<times> string) list" where
  "status_lines stdout = List.map_filter status_line (split_lines stdout)"

text \<open>All states are read from Redis before the first check.\<close>

definition check_line ::
  "status_env \<Rightarrow> string \<Rightarrow> string \<Rightarrow> (string \<times> int \<times> string) \<times> pyval option \<Rightarrow> int option sprog" where
  "check_line env tid node_uuid = (\<lambda>((uuid, state, t), cached).
     pbind (pres (parse_timestamp env t)) (\<lambda>change_time.
       vm_status_check env tid node_uuid uuid state cached change_time False))"

definition raw_state :: "status_env \<Rightarrow> string \<Rightarrow> status_state \<Rightarrow> pyval option" where
  "raw_state env uuid s = map_option (se_raw env) (ss_cache s (vm_status_key uuid))"

definition vm_status_all_cb :: "status_env \<Rightarrow> string \<Rightarrow> int \<Rightarrow> string \<Rightarrow> string \<Rightarrow> unit sprog" where
  "vm_status_all_cb env tid returncode stdout node_uuid =
     (if returncode \<noteq> 0 then pret ()
      else (let vms = status_lines stdout in
        pbind (pget (\<lambda>s. map (\<lambda>(uuid, _). raw_state env uuid s) vms)) (\<lambda>vm_states.
          pfor (zip vms vm_states) (check_line env tid node_uuid))))"

definition vm_status_event_cb :: "status_env \<Rightarrow> string \<Rightarrow> string \<Rightarrow> string \<Rightarrow> int \<Rightarrow> string \<Rightarrow> unit sprog" where
  "vm_status_event_cb env tid zonename state when node_uuid =
     pbind (pget (cache_get (vm_status_key zonename))) (\<lambda>state_cache.
     pbind (pres (case map_of STATUS_DICT state of None \<Rightarrow> Inl (Exn KeyError state) | Some v \<Rightarrow> Inr v)) (\<lambda>st.
     pbind (pres (event_time when)) (\<lambda>change_time.
     pbind (vm_status_check env tid node_uuid zonename st state_cache (Some change_time) False) (\<lambda>_. pret ()))))"

text \<open>
  The result of a command as the callbacks read it: return code, output, error output and the items
  of \<open>meta\<close> (\<open>apiview\<close> included).
\<close>

record cmd_result =
  cr_returncode :: int
  cr_stdout :: string
  cr_message :: string
  cr_exec_time :: "string option"
  cr_finish_time :: "string option"
  cr_last_status :: int
  cr_update :: bool
  cr_freeze :: bool

text \<open>The answer to a user who asks for the current status.\<close>

record current_status =
  cs_status :: "string option"
  cs_status_changed :: bool
  cs_message :: string

definition task_exception :: "string \<Rightarrow> pyexn" where "task_exception msg = Exn TaskExceptionC msg"

definition bad_return_code :: "cmd_result \<Rightarrow> pyexn" where
  "bad_return_code r = task_exception (''Got bad return code ('' @ int_str (cr_returncode r) @ ''). Error: '' @ cr_message r)"

definition get_vm :: "string \<Rightarrow> vm sprog" where
  "get_vm uuid = pbind (load_vm uuid) (\<lambda>r. pres (case r of
      None \<Rightarrow> Inl (Exn ObjectDoesNotExist ''Vm'') | Some x \<Rightarrow> Inr x))"

definition vm_status_current_cb :: "status_env \<Rightarrow> cmd_result \<Rightarrow> string \<Rightarrow> string \<Rightarrow> bool \<Rightarrow> current_status sprog" where
  "vm_status_current_cb env r tid vm_uuid force_change =
     (if cr_returncode r \<noteq> 0 then pres (Inl (bad_return_code r)) else
      (let st = hd (split_on (CHR '':'') (strip (cr_stdout r))) in
       pbind (get_vm vm_uuid) (\<lambda>x.
       pbind (case (if st \<noteq> [] then map_of STATUS_DICT st else Some NOTCREATED) of
           None \<Rightarrow> pret \<lparr>cs_status = Some st, cs_status_changed = False, cs_message = ''Unidentified VM status''\<rparr>
         | Some state \<Rightarrow>
             pbind (pget (cache_get (vm_status_key vm_uuid))) (\<lambda>state_cache.
             pbind (pres (the_node x)) (\<lambda>n.
             pbind (pres (get_task_time env (cr_exec_time r))) (\<lambda>change_time.
             pbind (vm_status_check env tid (nr_uuid n) vm_uuid state state_cache change_time force_change) (\<lambda>res.
               pret \<lparr>cs_status = (if st \<noteq> [] then Some st else map_of STATUS state),
                     cs_status_changed = (case res of None \<Rightarrow> False | Some v \<Rightarrow> v \<noteq> 0), cs_message = []\<rparr>)))))
       (\<lambda>res. pbind (out [TasksDeleted vm_uuid tid]) (\<lambda>_. pret res)))))"

section \<open>The callback of start, stop and reboot\<close>

definition contains :: "string \<Rightarrow> string \<Rightarrow> bool" where "contains s t \<longleftrightarrow> str_find s t \<ge> 0"

definition is_vm_missing :: "vm \<Rightarrow> string \<Rightarrow> bool" where
  "is_vm_missing x msg \<longleftrightarrow> contains msg (v_hostname x @ '': No such zone configured'')"

fun real_disk_ids :: "pyval list \<Rightarrow> int list res" where
  "real_disk_ids [] = Inr []"
| "real_disk_ids (VDict d # ds) = rbind (get_real_disk_id d) (\<lambda>i. rbind (real_disk_ids ds) (\<lambda>is. Inr (i # is)))"
| "real_disk_ids (v # ds) = Inl (Exn TypeError ''disk'')"

definition vm_delete_snapshots_of_removed_disks :: "vm \<Rightarrow> int list sprog" where
  "vm_delete_snapshots_of_removed_disks x =
     pbind (pres (rbind (create_json_update_disks x) (\<lambda>u. case dget u ''remove_disks'' (VList []) of
         VList ds \<Rightarrow> real_disk_ids ds | _ \<Rightarrow> Inl (Exn TypeError ''remove_disks'')))) (\<lambda>ids.
     pbind (pwhen (ids \<noteq> []) (out [DisksRemoved (v_uuid x) ids])) (\<lambda>_. pret ids))"

text \<open>A transaction restores the tables after an exception, not the cache.\<close>

definition db_atomic :: "'a sprog \<Rightarrow> 'a sprog" where
  "db_atomic m = (\<lambda>s. case m s of (Inl e, t) \<Rightarrow> (Inl e, t\<lparr>ss_db := ss_db s, ss_ips := ss_ips s\<rparr>) | (Inr x, t) \<Rightarrow> (Inr x, t))"

definition st_ip_usage :: "vm \<Rightarrow> unit sprog" where
  "st_ip_usage x = (\<lambda>s. case vm_update_ipaddress_usage (ss_db s) x (ss_ips s) of (r, rows) \<Rightarrow> (r, s\<lparr>ss_ips := rows\<rparr>))"

text \<open>The definition that the node returned becomes both the wanted and the active one.\<close>

definition update_args :: save_args where
  "update_args = \<lparr>sv_sync_json = False, sv_update_hostname = False, sv_update_node = True, sv_storages = None,
     sv_keep_vnc_port = False, sv_fields = Some [''enc_json'', ''enc_json_active'', ''changed''], sv_change_time = None\<rparr>"

definition save_updated_json :: "status_env \<Rightarrow> cmd_result \<Rightarrow> string \<Rightarrow> vm \<Rightarrow> vm sprog" where
  "save_updated_json env r tid x = (\<lambda>s.
     (case pbind (pres (se_load_json env (cr_stdout r))) (\<lambda>js.
             pbind (vm_delete_snapshots_of_removed_disks x) (\<lambda>_. pret js)) s of
        (Inl e, t) \<Rightarrow> (Inr x, t)
      | (Inr js, t) \<Rightarrow>
          db_atomic (pbind (st_save env update_args (x\<lparr>v_json_active := js, v_json := js, v_update_changed := True\<rparr>)) (\<lambda>y.
            pbind (st_ip_usage y) (\<lambda>_.
            pbind (out [Signal ''vm_json_active_changed'' tid (v_uuid y)]) (\<lambda>_. pret y)))) t))"

definition status_cb_failed :: "status_env \<Rightarrow> cmd_result \<Rightarrow> vm \<Rightarrow> unit sprog" where
  "status_cb_failed env r x =
     pbind (if v_status x = STOPPING then st_save_status env (Some (cr_last_status r)) None x else pret x) (\<lambda>y.
       vm_status_one env y)"

text \<open>The new status and its time, by the message of the command.\<close>

definition message_status :: "status_env \<Rightarrow> cmd_result \<Rightarrow> (int \<times> int option) res" where
  "message_status env r =
     rbind (get_task_time env (cr_exec_time r)) (\<lambda>t.
       if contains (cr_message r) ''Successfully started'' then Inr (RUNNING, t)
       else if contains (cr_message r) ''Successfully completed stop''
         then (if cr_freeze r then rbind (get_task_time env (cr_finish_time r)) (\<lambda>f. Inr (FROZEN, f)) else Inr (STOPPED, t))
       else if contains (cr_message r) ''Successfully completed reboot'' then Inr (RUNNING, t)
       else Inl (task_exception (''Unknown status ('' @ cr_message r @ '')'')))"

definition vm_status_cb :: "status_env \<Rightarrow> cmd_result \<Rightarrow> string \<Rightarrow> string \<Rightarrow> unit sprog" where
  "vm_status_cb env r tid vm_uuid =
     pbind (get_vm vm_uuid) (\<lambda>x.
     if cr_returncode r = 0 \<and> startswith (cr_message r) ''Successfully''
     then pbind (if cr_update r \<and> contains (cr_message r) ''Successfully updated''
                 then save_updated_json env r tid x else pret x) (\<lambda>y.
          pbind (pres (message_status env r)) (\<lambda>(new_status, change_time).
          pbind (save_vm_status env tid y new_status None False change_time) (\<lambda>z.
            out [SuccessLogged tid (v_uuid z)])))
     else pbind (if is_vm_missing x (cr_message r)
                 then (if v_status x = STOPPING
                       then pbind (pres (get_task_time env (cr_finish_time r))) (\<lambda>t.
                              pbind (save_vm_status env tid x STOPPED None False t) (\<lambda>_. pret ()))
                       else pret ())
                 else status_cb_failed env r x) (\<lambda>_. pres (Inl (bad_return_code r))))"

text \<open>The periodic update of the uptime of the running VMs on nodes that are online.\<close>

definition vm_uptime_all :: "int \<Rightarrow> unit sprog" where
  "vm_uptime_all now = pmod (\<lambda>s. s\<lparr>ss_db := (\<lambda>u. map_option (\<lambda>x.
     if (case v_node x of Some n \<Rightarrow> nr_status n = Node_ONLINE | None \<Rightarrow> False) \<and> v_status x = RUNNING \<and> v_uptime_changed x > 0
     then x\<lparr>v_uptime_changed := now, v_uptime := v_uptime x + (now - v_uptime_changed x)\<rparr> else x) (ss_db s u))\<rparr>)"

end
