(* ===== verification/Vm_Status_Inv.thy ===== *)
theory Vm_Status_Inv
  imports Vm_Status
begin

text \<open>
  What holds between the database and the cache while statuses change: the cached status of a VM is
  the one in the database after every check and every callback, also after those that fail; the
  deploy process is a state machine that the checks refine; old reports change nothing.
\<close>

section \<open>Saving a status\<close>

text \<open>Columns that are never empty, and rows under their own key.\<close>

definition db_ok :: "status_state \<Rightarrow> bool" where
  "db_ok s \<longleftrightarrow> (\<forall>u x. ss_db s u = Some x \<longrightarrow> v_uuid x = u \<and> v_vnc_port x \<noteq> None \<and> v_created x \<noteq> None)"

text \<open>An object that can be saved without anything but its own columns being written.\<close>

definition plain_vm :: "vm \<Rightarrow> bool" where
  "plain_vm x \<longleftrightarrow> \<not> v_lock x \<and> \<not> v_node_changed x \<and> v_vnc_port x \<noteq> None \<and> v_created x \<noteq> None \<and> \<not> v_update_changed x"

definition changed_vm :: "int \<Rightarrow> int option option \<Rightarrow> vm \<Rightarrow> vm" where
  "changed_vm now ct x = (if v_status x \<noteq> v_orig_status x
     then x\<lparr>v_status_change := (case ct of Some t \<Rightarrow> t | None \<Rightarrow> Some now), v_orig_status := v_status x\<rparr> else x)"

definition cached_vm :: "vm \<Rightarrow> vm \<Rightarrow> (string \<Rightarrow> pyval option) \<Rightarrow> (string \<Rightarrow> pyval option)" where
  "cached_vm x y c = (if v_status x \<noteq> v_orig_status x
     then c(vm_status_key (v_uuid x) \<mapsto> VInt (v_status x),
            vm_status_change_key (v_uuid x) \<mapsto> (case v_status_change y of Some t \<Rightarrow> VInt t | None \<Rightarrow> VNone)) else c)"

lemma no_update_changed: "\<not> v_update_changed x \<Longrightarrow> x\<lparr>v_update_changed := False\<rparr> = x"
  by (cases x) simp

lemma StatusModel_save_plain:
  assumes "plain_vm x"
  shows "StatusModel_save now ct fs x = (if v_status x \<noteq> v_orig_status x \<and> (case fs of None \<Rightarrow> True | Some f \<Rightarrow> ''status'' \<in> set f)
     then Inr (changed_vm now ct x, [DbSave fs, CacheSet (status_key x) (VInt (v_status x)),
        CacheSet (status_change_key x) (case v_status_change (changed_vm now ct x) of Some t \<Rightarrow> VInt t | None \<Rightarrow> VNone)])
     else Inr ((if v_status x \<noteq> v_orig_status x
        then x\<lparr>v_status_change := (case ct of Some t \<Rightarrow> t | None \<Rightarrow> Some now)\<rparr> else x), [DbSave fs]))"
  using assms by (auto simp: StatusModel_save_def Let_def plain_vm_def changed_vm_def status_key_def status_change_key_def)

lemma vm_save_plain:
  assumes "plain_vm x" "''status'' \<in> set fs"
  shows "vm_save env (status_args fs ct) x = Inr (changed_vm (e_now env) ct x,
     DbSave (Some fs) # (if v_status x \<noteq> v_orig_status x
       then [CacheSet (status_key x) (VInt (v_status x)),
             CacheSet (status_change_key x) (case v_status_change (changed_vm (e_now env) ct x) of Some t \<Rightarrow> VInt t | None \<Rightarrow> VNone)]
       else []))"
proof -
  let ?y = "changed_vm (e_now env) ct x"
  obtain q where p: "\<not> v_node_changed x" "v_vnc_port x = Some q" using assms(1) by (auto simp: plain_vm_def)
  have y: "\<not> v_node_changed ?y" using p(1) by (simp add: changed_vm_def)
  have u: "?y\<lparr>v_update_changed := False\<rparr> = ?y"
    by (rule no_update_changed) (use assms(1) in \<open>simp add: changed_vm_def plain_vm_def\<close>)
  have s: "StatusModel_save (e_now env) ct (Some fs) x = Inr (?y, DbSave (Some fs) # (if v_status x \<noteq> v_orig_status x
       then [CacheSet (status_key x) (VInt (v_status x)),
             CacheSet (status_change_key x) (case v_status_change ?y of Some t \<Rightarrow> VInt t | None \<Rightarrow> VNone)] else []))"
    using assms(2) by (simp add: StatusModel_save_plain [OF assms(1)] changed_vm_def)
  show ?thesis
    using p by (simp add: vm_save_def save_node_part_def save_port_part_def save_json_part_def s status_args_def u y
      node_effects_def save_finish_def save_hostname_def)
qed

lemma changed_vm_simps [simp]:
  "v_uuid (changed_vm now ct x) = v_uuid x" "v_status (changed_vm now ct x) = v_status x"
  "v_orig_status (changed_vm now ct x) = v_status x" "v_uptime (changed_vm now ct x) = v_uptime x"
  "v_uptime_changed (changed_vm now ct x) = v_uptime_changed x" "v_node (changed_vm now ct x) = v_node x"
  "v_slavevm (changed_vm now ct x) = v_slavevm x" "v_owner (changed_vm now ct x) = v_owner x"
  "v_dc (changed_vm now ct x) = v_dc x" "plain_vm (changed_vm now ct x) = plain_vm x"
  by (auto simp: changed_vm_def plain_vm_def)

lemma vm_keys: "status_key x = vm_status_key (v_uuid x)" "status_change_key x = vm_status_change_key (v_uuid x)"
  by (simp_all add: status_key_def status_change_key_def vm_status_key_def vm_status_change_key_def)

lemma vm_keys_distinct [simp]: "vm_status_key u \<noteq> vm_status_change_key w" "vm_status_change_key w \<noteq> vm_status_key u"
proof -
  have "last (vm_status_key u) \<noteq> last (vm_status_change_key w)"
    by (simp add: vm_status_key_def vm_status_change_key_def)
  then show "vm_status_key u \<noteq> vm_status_change_key w" "vm_status_change_key w \<noteq> vm_status_key u" by auto
qed

lemma vm_keys_inject [simp]:
  "vm_status_key u = vm_status_key w \<longleftrightarrow> u = w" "vm_status_change_key u = vm_status_change_key w \<longleftrightarrow> u = w"
  by (simp_all add: vm_status_key_def vm_status_change_key_def)

lemma args_fields: "sv_fields (status_args fs ct) = Some fs" "sv_fields update_args = Some [''enc_json'', ''enc_json_active'', ''changed'']"
  by (simp_all add: status_args_def update_args_def)

lemma st_save_plain:
  assumes "plain_vm x" "''status'' \<in> set fs"
  shows "st_save env (status_args fs ct) x s = (case ss_db s (v_uuid x) of
      None \<Rightarrow> (Inl (Exn (OtherError ''DatabaseError'') ''Save with update_fields did not affect any rows.''), s)
    | Some row \<Rightarrow> (let y = changed_vm (e_now (se_save env)) ct x in
        (Inr y, s\<lparr>ss_db := (ss_db s)(v_uuid x \<mapsto> write_fields (Some fs) y row), ss_cache := cached_vm x y (ss_cache s)\<rparr>)))"
proof -
  have e: "s\<lparr>ss_db := d, ss_cache := ss_cache s\<rparr> = s\<lparr>ss_db := d\<rparr>" for d by simp
  show ?thesis
    by (simp add: st_save_def vm_save_plain [OF assms] args_fields(1) run_effect_def cached_vm_def vm_keys Let_def e split: option.split)
qed

section \<open>The cached status is the status in the database\<close>

definition coherent :: "status_state \<Rightarrow> bool" where
  "coherent s \<longleftrightarrow> (\<forall>u v. cache_get (vm_status_key u) s = Some v \<longrightarrow>
     (\<exists>x. ss_db s u = Some x \<and> v = VInt (v_status x)))"

definition status_inv :: "status_state \<Rightarrow> bool" where
  "status_inv s \<longleftrightarrow> db_ok s \<and> coherent s"

text \<open>An object in memory whose save keeps the cache right, and one that is as in the database.\<close>

definition savable :: "vm \<Rightarrow> status_state \<Rightarrow> bool" where
  "savable x s \<longleftrightarrow> status_inv s \<and> plain_vm x \<and> (\<exists>row. ss_db s (v_uuid x) = Some row
     \<and> (v_status x = v_orig_status x \<longrightarrow> v_status row = v_status x))"

definition current :: "vm \<Rightarrow> status_state \<Rightarrow> bool" where
  "current x s \<longleftrightarrow> status_inv s \<and> plain_vm x \<and> v_orig_status x = v_status x
     \<and> (\<exists>row. ss_db s (v_uuid x) = Some row \<and> v_status row = v_status x)"

lemma current_inv: "current x s \<Longrightarrow> status_inv s" by (simp add: current_def)
lemma savable_inv: "savable x s \<Longrightarrow> status_inv s" by (simp add: savable_def)

lemma cache_get_simps [simp]:
  "cache_get k (s\<lparr>ss_db := d\<rparr>) = cache_get k s" "cache_get k (s\<lparr>ss_out := es\<rparr>) = cache_get k s"
  "cache_get k (s\<lparr>ss_finished := f\<rparr>) = cache_get k s" "cache_get k (s\<lparr>ss_ips := is\<rparr>) = cache_get k s"
  by (simp_all add: cache_get_def)

lemma cache_get_upd: "cache_get k (s\<lparr>ss_cache := (ss_cache s)(l \<mapsto> v)\<rparr>) = (if k = l then (if v = VNone then None else Some v) else cache_get k s)"
  by (auto simp: cache_get_def split: option.splits pyval.splits)

lemma status_inv_frame [simp]:
  "status_inv (s\<lparr>ss_out := es\<rparr>) = status_inv s" "status_inv (s\<lparr>ss_finished := f\<rparr>) = status_inv s"
  "status_inv (s\<lparr>ss_ips := is\<rparr>) = status_inv s"
  by (simp_all add: status_inv_def db_ok_def coherent_def)

lemma current_frame [simp]:
  "current x (s\<lparr>ss_out := es\<rparr>) = current x s" "current x (s\<lparr>ss_finished := f\<rparr>) = current x s"
  "current x (s\<lparr>ss_ips := is\<rparr>) = current x s"
  by (simp_all add: current_def)

lemma write_fields_simps [simp]:
  "v_uuid (write_fields (Some fs) x row) = v_uuid row" "v_vnc_port (write_fields (Some fs) x row) = v_vnc_port row"
  "v_created (write_fields (Some fs) x row) = v_created row" "v_node (write_fields (Some fs) x row) = (if ''node_id'' \<in> set fs then v_node x else v_node row)"
  "v_status (write_fields (Some fs) x row) = (if ''status'' \<in> set fs then v_status x else v_status row)"
  by (simp_all add: write_fields_def)

text \<open>What a save of the status leaves in the cache and the database for every VM.\<close>

lemma saved_cache_get:
  "cache_get (vm_status_key u) (s\<lparr>ss_db := d, ss_cache := cached_vm x y (ss_cache s)\<rparr>)
     = (if v_status x \<noteq> v_orig_status x \<and> u = v_uuid x then Some (VInt (v_status x)) else cache_get (vm_status_key u) s)"
  by (auto simp: cache_get_def cached_vm_def)

lemma saved_inv:
  assumes "savable x s" "ss_db s (v_uuid x) = Some row" "''status'' \<in> set fs" "v_status y = v_status x"
  shows "status_inv (s\<lparr>ss_db := (ss_db s)(v_uuid x \<mapsto> write_fields (Some fs) y row), ss_cache := cached_vm x y (ss_cache s)\<rparr>)"
proof -
  have db: "db_ok s" and co: "coherent s" using assms(1) by (auto simp: savable_def status_inv_def)
  have same: "v_status row = v_status x" if "v_status x = v_orig_status x"
    using assms(1,2) that by (auto simp: savable_def)
  have "db_ok (s\<lparr>ss_db := (ss_db s)(v_uuid x \<mapsto> write_fields (Some fs) y row), ss_cache := cached_vm x y (ss_cache s)\<rparr>)"
    using db assms(2) by (auto simp: db_ok_def)
  moreover have "coherent (s\<lparr>ss_db := (ss_db s)(v_uuid x \<mapsto> write_fields (Some fs) y row), ss_cache := cached_vm x y (ss_cache s)\<rparr>)"
  proof -
    have old: "\<exists>z. ss_db s u = Some z \<and> v = VInt (v_status z)" if "cache_get (vm_status_key u) s = Some v" for u v
      using co that by (simp add: coherent_def)
    have own: "v = VInt (v_status row)" if "cache_get (vm_status_key (v_uuid x)) s = Some v" for v
      using old [OF that] assms(2) by simp
    have "\<exists>z. ((ss_db s)(v_uuid x \<mapsto> write_fields (Some fs) y row)) u = Some z \<and> v = VInt (v_status z)"
      if "(if v_status x \<noteq> v_orig_status x \<and> u = v_uuid x then Some (VInt (v_status x)) else cache_get (vm_status_key u) s) = Some v"
      for u v
    proof (cases "u = v_uuid x")
      case True
      have "v = VInt (v_status x)"
      proof (cases "v_status x = v_orig_status x")
        case eq: True
        then have "v = VInt (v_status row)" using own that True by simp
        then show ?thesis using same [OF eq] by simp
      next
        case False
        then show ?thesis using that True by simp
      qed
      then show ?thesis using True assms(3,4) by simp
    next
      case False
      then show ?thesis using old that by simp
    qed
    then show ?thesis unfolding coherent_def saved_cache_get by simp
  qed
  ultimately show ?thesis by (simp add: status_inv_def)
qed

lemma triple_st_save:
  assumes "''status'' \<in> set fs"
  shows "triple (savable x) (st_save env (status_args fs ct) x)
    (\<lambda>y s. current y s \<and> v_uuid y = v_uuid x \<and> v_status y = v_status x) status_inv"
proof (rule tripleI)
  fix s e t assume "savable x s" "st_save env (status_args fs ct) x s = (Inl e, t)"
  then show "status_inv t" using assms
    by (auto simp: savable_def st_save_plain Let_def)
next
  fix s y t assume s: "savable x s" and y: "st_save env (status_args fs ct) x s = (Inr y, t)"
  obtain row where row: "ss_db s (v_uuid x) = Some row" and p: "plain_vm x" using s by (auto simp: savable_def)
  let ?y = "changed_vm (e_now (se_save env)) ct x"
  let ?t = "s\<lparr>ss_db := (ss_db s)(v_uuid x \<mapsto> write_fields (Some fs) ?y row), ss_cache := cached_vm x ?y (ss_cache s)\<rparr>"
  have "st_save env (status_args fs ct) x s = (Inr ?y, ?t)"
    by (simp only: st_save_plain [OF p assms] row option.case Let_def)
  with y have yt: "y = ?y" "t = ?t" by (metis Pair_inject sum.inject(2))+
  have inv: "status_inv ?t" by (rule saved_inv [OF s row assms]) simp
  have "ss_db ?t (v_uuid x) = Some (write_fields (Some fs) ?y row)" by simp
  moreover have "v_status (write_fields (Some fs) ?y row) = v_status x" using assms by simp
  ultimately have "current ?y ?t" using inv p unfolding current_def changed_vm_simps by blast
  then show "current y t \<and> v_uuid y = v_uuid x \<and> v_status y = v_status x" unfolding yt by simp
qed

lemma plain_vm_upd [simp]:
  "plain_vm (x\<lparr>v_status := st\<rparr>) = plain_vm x" "plain_vm (x\<lparr>v_orig_status := st\<rparr>) = plain_vm x"
  by (simp_all add: plain_vm_def)

lemma current_savable: "current x s \<Longrightarrow> savable (x\<lparr>v_status := st\<rparr>) s"
proof -
  assume c: "current x s"
  then obtain row where "ss_db s (v_uuid x) = Some row" "v_status row = v_status x" by (auto simp: current_def)
  then show ?thesis using c by (simp add: savable_def current_def)
qed

lemma triple_st_save_status:
  "triple (current x) (st_save_status env st ct x) (\<lambda>y s. current y s \<and> v_uuid y = v_uuid x) status_inv"
proof -
  have x: "x\<lparr>v_status := v_status x\<rparr> = x" by simp
  have "triple (current x) (st_save env (status_args [''status'', ''status_change''] ct) (x\<lparr>v_status := v\<rparr>))
      (\<lambda>y s. current y s \<and> v_uuid y = v_uuid x) status_inv" for v
    by (rule triple_conseq [OF triple_st_save [of "[''status'', ''status_change'']" "x\<lparr>v_status := v\<rparr>"]])
       (simp_all add: current_savable)
  from this [of "v_status x"] this show ?thesis unfolding st_save_status_def x by (cases st) simp_all
qed

lemma update_uptime_frame [simp]:
  "v_status (update_uptime now st f x) = v_status x" "v_orig_status (update_uptime now st f x) = v_orig_status x"
  "v_uuid (update_uptime now st f x) = v_uuid x" "plain_vm (update_uptime now st f x) = plain_vm x"
  "v_node (update_uptime now st f x) = v_node x" "v_slavevm (update_uptime now st f x) = v_slavevm x"
  "v_owner (update_uptime now st f x) = v_owner x" "v_dc (update_uptime now st f x) = v_dc x"
  by (auto simp: update_uptime_def plain_vm_def Let_def)

lemma triple_save_new_status:
  assumes "\<And>v. old = Some v \<Longrightarrow> v = st \<Longrightarrow> v_status x = st"
  shows "triple (current x) (save_new_status env x st old ct)
    (\<lambda>y s. current y s \<and> v_uuid y = v_uuid x \<and> v_status y = st) status_inv"
proof -
  let ?x1 = "x\<lparr>v_status := st\<rparr>"
  let ?x2 = "if st \<noteq> STOPPING then update_uptime (e_now (se_save env)) None False ?x1 else ?x1"
  let ?x3 = "case old of Some v \<Rightarrow> ?x2\<lparr>v_orig_status := v\<rparr> | None \<Rightarrow> ?x2"
  have x3: "v_uuid ?x3 = v_uuid x" "v_status ?x3 = st"
    "v_orig_status ?x3 = (case old of Some v \<Rightarrow> v | None \<Rightarrow> v_orig_status x)" "plain_vm ?x3 = plain_vm x"
    by (simp_all split: option.split)
  have sv: "savable ?x3 s" if "current x s" for s
    using that assms unfolding savable_def x3 by (auto simp: current_def split: option.splits)
  show ?thesis unfolding save_new_status_def Let_def
    by (rule triple_conseq [OF triple_st_save]) (use sv x3(1,2) in auto)
qed

text \<open>Loading, and the steps that leave the database and the cache alone.\<close>

lemma fresh_vm_simps [simp]:
  "v_uuid (fresh_vm x) = v_uuid x" "v_status (fresh_vm x) = v_status x" "v_orig_status (fresh_vm x) = v_status x"
  "v_node (fresh_vm x) = v_node x" "v_slavevm (fresh_vm x) = v_slavevm x" "v_owner (fresh_vm x) = v_owner x"
  "v_dc (fresh_vm x) = v_dc x" "v_json (fresh_vm x) = v_json x" "v_hostname (fresh_vm x) = v_hostname x"
  by (simp_all add: fresh_vm_def)

lemma current_fresh:
  assumes "status_inv s" "ss_db s u = Some row"
  shows "current (fresh_vm row) s" "v_uuid (fresh_vm row) = u"
  using assms by (auto simp: current_def fresh_vm_def plain_vm_def status_inv_def db_ok_def)

lemma triple_load_vm:
  "triple status_inv (load_vm u) (\<lambda>r s. status_inv s \<and> (\<forall>x. r = Some x \<longrightarrow> current x s \<and> v_uuid x = u)) status_inv"
  unfolding load_vm_def by (rule triple_pget) (auto dest: current_fresh)

lemma triple_get_vm: "triple status_inv (get_vm u) (\<lambda>x s. current x s \<and> v_uuid x = u) status_inv"
  unfolding get_vm_def
  by (rule triple_pbind [OF triple_load_vm], rule triple_pres) (auto split: option.splits)

lemma triple_out: "(\<And>s. P s \<Longrightarrow> Q () (s\<lparr>ss_out := ss_out s @ es\<rparr>)) \<Longrightarrow> triple P (out es) Q E"
  unfolding out_def by (rule triple_pmod)

lemma triple_execute_cmd:
  assumes "\<And>s es. P s \<Longrightarrow> P (s\<lparr>ss_out := es\<rparr>)"
  shows "triple P (execute_cmd env q c l cb args) (\<lambda>_. P) E"
  unfolding execute_cmd_def
  by (cases "se_refused env q c") (auto intro!: triple_pret triple_pbind [where R = "\<lambda>_. P"] triple_out assms)

lemma triple_commands:
  assumes "\<And>s es. P s \<Longrightarrow> P (s\<lparr>ss_out := es\<rparr>)" "\<And>s. P s \<Longrightarrow> E s"
  shows "triple P (vm_deploy env b x) (\<lambda>_. P) E" "triple P (vm_status_one env x) (\<lambda>_. P) E"
    "triple P (vm_status_all env c n) (\<lambda>_. P) E"
proof -
  have ex: "triple P (execute_cmd env q c l cb args) (\<lambda>_. P) E" for q c l cb args
    by (rule triple_execute_cmd) (rule assms(1))
  show "triple P (vm_deploy env b x) (\<lambda>_. P) E" unfolding vm_deploy_def
    by (rule triple_pbind [OF triple_pres [where Q = "\<lambda>_. P"]]) (auto intro: assms(2) triple_pbind ex triple_pret)
  show "triple P (vm_status_one env x) (\<lambda>_. P) E" unfolding vm_status_one_def
    by (rule triple_pbind [OF triple_pres [where Q = "\<lambda>_. P"]]) (auto intro: assms(2) triple_pbind ex triple_pret)
  show "triple P (vm_status_all env c n) (\<lambda>_. P) E" unfolding vm_status_all_def
    by (auto intro: triple_pret triple_pbind ex)
qed

lemma triple_ip_usage:
  assumes "\<And>s is. P s \<Longrightarrow> P (s\<lparr>ss_ips := is\<rparr>)" "\<And>s. P s \<Longrightarrow> E s"
  shows "triple P (st_ip_usage x) (\<lambda>_. P) E"
  by (rule tripleI) (auto simp: st_ip_usage_def assms split: prod.splits)

lemma triple_newer_change: "triple P (\<lambda>s. (newer_change u t s, s)) (\<lambda>b s. P s) P"
  by (rule tripleI) auto

lemma triple_vm_status_changed:
  assumes "\<And>v. old = Some v \<Longrightarrow> v = st \<Longrightarrow> v_status x = st"
  shows "triple (current x) (vm_status_changed env tid x st old save over t) (\<lambda>_. status_inv) status_inv"
proof -
  have weak: "triple (current x) (\<lambda>s. (newer_change (v_uuid x) t s, s)) (\<lambda>b s. current x s) status_inv"
    by (rule tripleI) (auto dest: current_inv)
  have save: "triple (current x) (if save then save_new_status env x st old t else pret x) (\<lambda>_. status_inv) status_inv"
    by (auto intro!: triple_pret triple_conseq [OF triple_save_new_status [OF assms]] dest: current_inv)
  have rest: "triple status_inv (pbind (pwhen over (set_deploy_finished y)) (\<lambda>_. if is_slave_vm y then pret y else
      pbind (pres r) (\<lambda>tid'. pbind (out (changed_events tid' y)) (\<lambda>_. pret y)))) (\<lambda>_. status_inv) status_inv" for y r
    unfolding pwhen_def set_deploy_finished_def
    by (rule triple_pbind [where R = "\<lambda>_. status_inv"])
      (auto intro!: triple_if triple_pmod triple_pret triple_pbind [where R = "\<lambda>_. status_inv"] triple_pres triple_out)
  show ?thesis unfolding vm_status_changed_def
    by (rule triple_pbind [OF weak], rule triple_if, rule triple_pret, rule current_inv, assumption,
        rule triple_pbind [OF save], rule rest)
qed

lemma triple_save_vm_status:
  assumes "\<And>v. old = Some v \<Longrightarrow> v \<noteq> st"
  shows "triple (current x) (save_vm_status env tid x st old over t) (\<lambda>_. status_inv) status_inv"
  unfolding save_vm_status_def by (rule triple_vm_status_changed) (use assms in \<open>auto split: option.splits\<close>)

lemma triple_check_finish:
  "st \<noteq> cached \<Longrightarrow> triple (current x) (check_finish env tid x st cached over t) (\<lambda>_. status_inv) status_inv"
  unfolding check_finish_def
  by (rule triple_pbind [OF triple_save_vm_status]) (auto intro: triple_pret)

lemma triple_check_apply:
  assumes "st \<noteq> cached"
  shows "triple (current x) (check_apply env tid x st cached flag t) (\<lambda>_. status_inv) status_inv"
proof -
  note fin = triple_check_finish [OF assms]
  have dep: "triple (current x) (pbind (st_save_status env (Some v) ct x) (\<lambda>y. pbind (vm_deploy env b y) (\<lambda>_. pret None)))
      (\<lambda>_. status_inv) status_inv" for v ct b
    by (rule triple_pbind [OF triple_conseq [OF triple_st_save_status, where Q = "\<lambda>_. status_inv"]])
       (auto intro!: triple_pbind [OF triple_commands(1)] triple_pret dest: current_inv)
  have start: "triple (current x) (pbind (st_save_status env (Some v) ct x) (\<lambda>_. pret None)) (\<lambda>_. status_inv) status_inv" for v ct
    by (rule triple_pbind [OF triple_conseq [OF triple_st_save_status, where Q = "\<lambda>_. status_inv"]])
       (auto intro!: triple_pret dest: current_inv)
  have keep: "triple (current x) (pres r) (\<lambda>_. current x) status_inv" for r
    by (rule triple_pres) (auto dest: current_inv)
  show ?thesis unfolding check_apply_def
    by (cases flag) (auto intro!: triple_pbind [OF keep] fin dep start)
qed

lemma coherent_cache_status:
  assumes "status_inv s" "ss_db s u = Some x"
  shows "status_inv (s\<lparr>ss_cache := (ss_cache s)(vm_status_key u \<mapsto> VInt (v_status x))\<rparr>)"
  using assms by (auto simp: status_inv_def coherent_def cache_get_upd db_ok_def)

lemma current_cache_status:
  assumes "current x s"
  shows "current x (s\<lparr>ss_cache := (ss_cache s)(vm_status_key (v_uuid x) \<mapsto> VInt (v_status x))\<rparr>)"
proof -
  obtain row where r: "ss_db s (v_uuid x) = Some row" "v_status row = v_status x" using assms by (auto simp: current_def)
  from coherent_cache_status [OF current_inv [OF assms] r(1)] r assms show ?thesis by (simp add: current_def)
qed

text \<open>Every check keeps the cache right, whatever cached value it was given and whatever the report is.\<close>

lemma triple_vm_status_check:
  "triple status_inv (vm_status_check env tid n u st cached t force) (\<lambda>_. status_inv) status_inv"
proof -
  let ?first = "case cached of
         None \<Rightarrow> pbind (load_vm u) (\<lambda>r. case r of
             None \<Rightarrow> pret None
           | Some x \<Rightarrow> pbind (cache_put (vm_status_key u) (VInt (v_status x))) (\<lambda>_. pret (Some (v_status x, Some x))))
       | Some v \<Rightarrow> pbind (pres (py_int v)) (\<lambda>i. pret (Some (i, None)))"
  let ?loaded = "\<lambda>r s. status_inv s \<and> (\<forall>i x. r = Some (i, Some x) \<longrightarrow> current x s \<and> v_uuid x = u)"
  have put: "triple (\<lambda>s. current x s \<and> v_uuid x = u) (cache_put (vm_status_key u) (VInt (v_status x)))
      (\<lambda>_ s. current x s \<and> v_uuid x = u) status_inv" for x
    unfolding cache_put_def by (rule triple_pmod) (auto intro: current_cache_status)
  have first: "triple status_inv ?first ?loaded status_inv"
  proof (cases cached)
    case None
    have "triple (\<lambda>s. status_inv s \<and> (\<forall>x. r = Some x \<longrightarrow> current x s \<and> v_uuid x = u))
        (case r of None \<Rightarrow> pret None | Some x \<Rightarrow>
           pbind (cache_put (vm_status_key u) (VInt (v_status x))) (\<lambda>_. pret (Some (v_status x, Some x)))) ?loaded status_inv" for r
      by (cases r) (auto intro!: triple_pret triple_pbind [OF triple_pre [OF put]] dest: current_inv)
    then show ?thesis unfolding None by (simp add: triple_pbind [OF triple_load_vm])
  next
    case (Some v)
    then show ?thesis by (auto intro!: triple_pbind [where R = "\<lambda>_. status_inv"] triple_pres triple_pret)
  qed
  have load: "triple (\<lambda>s. status_inv s \<and> (\<forall>x. loaded = Some x \<longrightarrow> current x s \<and> v_uuid x = u))
      (case loaded of None \<Rightarrow> load_vm u | Some x \<Rightarrow> pret (Some x))
      (\<lambda>r s. status_inv s \<and> (\<forall>x. r = Some x \<longrightarrow> current x s \<and> v_uuid x = u)) status_inv" for loaded
    by (cases loaded) (auto intro!: triple_pre [OF triple_load_vm] triple_pret)
  have app: "triple (\<lambda>s. status_inv s \<and> (\<forall>x. r = Some x \<longrightarrow> current x s \<and> v_uuid x = u))
      (case r of None \<Rightarrow> pret None
         | Some x \<Rightarrow> pbind (pres (the_node x)) (\<lambda>nd. if nr_uuid nd \<noteq> n then pret None else check_apply env tid x st c flag t))
      (\<lambda>_. status_inv) status_inv" if "st \<noteq> c" for r c flag
    by (cases r) (auto intro!: triple_pret triple_pbind [where R = "\<lambda>_. current (the r)"] triple_pres
        triple_check_apply [OF that] dest: current_inv)
  show ?thesis unfolding vm_status_check_def
  proof (rule triple_pbind [OF first])
    fix r
    show "triple (?loaded r) (case r of None \<Rightarrow> pret None
       | Some (c, loaded) \<Rightarrow> if c = st then pret None else (case deploy_flag force c st of None \<Rightarrow> pret None
             | Some flag \<Rightarrow> pbind (case loaded of None \<Rightarrow> load_vm u | Some x \<Rightarrow> pret (Some x)) (\<lambda>found. case found of
                     None \<Rightarrow> pret None
                   | Some x \<Rightarrow> pbind (pres (the_node x)) (\<lambda>nd.
                       if nr_uuid nd \<noteq> n then pret None else check_apply env tid x st c flag t))))
      (\<lambda>_. status_inv) status_inv"
    proof (cases r)
      case None
      then show ?thesis by (auto intro: triple_pret)
    next
      case (Some p)
      obtain c loaded where p: "p = (c, loaded)" by force
      have "triple (?loaded r) (pbind (case loaded of None \<Rightarrow> load_vm u | Some x \<Rightarrow> pret (Some x)) (\<lambda>found. case found of
                     None \<Rightarrow> pret None
                   | Some x \<Rightarrow> pbind (pres (the_node x)) (\<lambda>nd.
                       if nr_uuid nd \<noteq> n then pret None else check_apply env tid x st c flag t)))
        (\<lambda>_. status_inv) status_inv" if "c \<noteq> st" for flag
        by (rule triple_pbind [OF triple_pre [OF load] app]) (use Some p that in auto)
      then show ?thesis using Some p by (auto intro!: triple_pret split: option.split)
    qed
  qed
qed

section \<open>Callbacks keep the cache right\<close>

definition resources_only :: "effect list \<Rightarrow> bool" where
  "resources_only es \<longleftrightarrow> list_all (\<lambda>e. case e of UpdateStorage _ \<Rightarrow> True | UpdateNode _ \<Rightarrow> True | _ \<Rightarrow> False) es"

lemma run_resources:
  "resources_only es \<Longrightarrow> foldl (run_effect x) s es = s\<lparr>ss_out := ss_out s @ map ResourcesUpdated es\<rparr>"
proof (induction es arbitrary: s)
  case Nil
  then show ?case by simp
next
  case (Cons e es)
  then show ?case by (cases e) (simp_all add: resources_only_def run_effect_def)
qed

lemma node_effects_resources: "resources_only (node_effects a x)"
  by (auto simp: resources_only_def node_effects_def Let_def split: option.split)

lemma vm_save_update:
  assumes "plain_vm x" "v_orig_status x = v_status x" "z = x\<lparr>v_json_active := js, v_json := js, v_update_changed := True\<rparr>"
    "vm_save env update_args z = Inr (y, es)"
  shows "y = x\<lparr>v_json_active := js, v_json := js, v_changed := Some (e_now env)\<rparr>"
    "\<exists>rest. es = DbSave (sv_fields update_args) # rest \<and> resources_only rest"
proof -
  let ?y = "x\<lparr>v_json_active := js, v_json := js, v_changed := Some (e_now env)\<rparr>"
  obtain q where p: "\<not> v_node_changed z" "v_vnc_port z = Some q" "\<not> v_lock z" "v_created z \<noteq> None" "v_orig_status z = v_status z"
      "v_update_changed z"
    using assms(1,2,3) by (auto simp: plain_vm_def)
  have u: "z\<lparr>v_changed := Some (e_now env), v_update_changed := False\<rparr> = ?y"
  proof -
    have "z\<lparr>v_changed := Some (e_now env), v_update_changed := False\<rparr> = ?y\<lparr>v_update_changed := False\<rparr>"
      unfolding assms(3) by simp
    also have "\<dots> = ?y" by (rule no_update_changed) (use assms(1) in \<open>simp add: plain_vm_def\<close>)
    finally show ?thesis .
  qed
  have s: "StatusModel_save (e_now env) None (sv_fields update_args) z = Inr (z\<lparr>v_changed := Some (e_now env)\<rparr>, [DbSave (sv_fields update_args)])"
    using p by (simp add: StatusModel_save_def Let_def)
  have nc: "\<not> v_node_changed ?y" using p(1) assms(3) by simp
  have e: "\<exists>ns. y = ?y \<and> es = [DbSave (sv_fields update_args)] @ map UpdateStorage ns @ node_effects update_args ?y"
    using assms(4) p(1,2) s nc unfolding vm_save_def
    by (auto simp: save_node_part_def save_port_part_def save_json_part_def update_args_def rbind_Inr_iff u
        save_finish_def save_hostname_def Let_def)
  have r: "resources_only (map UpdateStorage ns @ node_effects update_args ?y)" for ns
    using node_effects_resources [of update_args ?y] by (auto simp: resources_only_def list_all_iff)
  from e show "y = ?y" by blast
  from e obtain ns where "es = DbSave (sv_fields update_args) # map UpdateStorage ns @ node_effects update_args ?y" by auto
  with r show "\<exists>rest. es = DbSave (sv_fields update_args) # rest \<and> resources_only rest" by blast
qed

text \<open>A row may change in every column but those that the invariant is about.\<close>

lemma status_inv_row:
  assumes "status_inv s" "ss_db s u = Some row" "v_uuid r = v_uuid row" "v_vnc_port r = v_vnc_port row"
    "v_created r = v_created row" "v_status r = v_status row"
  shows "status_inv (s\<lparr>ss_db := (ss_db s)(u \<mapsto> r)\<rparr>)"
proof -
  have db: "db_ok s" and co: "coherent s" using assms(1) by (simp_all add: status_inv_def)
  have "db_ok (s\<lparr>ss_db := (ss_db s)(u \<mapsto> r)\<rparr>)" using db assms(2-5) by (auto simp: db_ok_def)
  moreover have "\<exists>z. ((ss_db s)(u \<mapsto> r)) w = Some z \<and> v = VInt (v_status z)" if c: "cache_get (vm_status_key w) s = Some v" for w v
  proof -
    obtain z where z: "ss_db s w = Some z" "v = VInt (v_status z)" using co c by (auto simp: coherent_def)
    show ?thesis
    proof (cases "w = u")
      case True
      then show ?thesis using z assms(2,6) by simp
    next
      case False
      then show ?thesis using z by simp
    qed
  qed
  ultimately show ?thesis by (simp add: status_inv_def coherent_def)
qed

lemma triple_save_json:
  "triple (\<lambda>s. current x s) (st_save env update_args (x\<lparr>v_json_active := js, v_json := js, v_update_changed := True\<rparr>))
     (\<lambda>y s. current y s \<and> v_uuid y = v_uuid x) status_inv"
proof (rule tripleI)
  fix s e t assume "current x s" "st_save env update_args (x\<lparr>v_json_active := js, v_json := js, v_update_changed := True\<rparr>) s = (Inl e, t)"
  then show "status_inv t" by (auto simp: st_save_def split: sum.splits prod.splits if_splits dest: current_inv)
next
  let ?z = "x\<lparr>v_json_active := js, v_json := js, v_update_changed := True\<rparr>"
  fix s y t assume s: "current x s" and y: "st_save env update_args ?z s = (Inr y, t)"
  have p: "plain_vm x" "v_orig_status x = v_status x" using s by (simp_all add: current_def)
  obtain row where row: "ss_db s (v_uuid x) = Some row" "v_status row = v_status x" using s by (auto simp: current_def)
  obtain es where v: "vm_save (se_save env) update_args ?z = Inr (y, es)" and t: "t = foldl (run_effect y) s es"
    using y by (auto simp: st_save_def split: sum.splits prod.splits if_splits)
  obtain rest where r: "es = DbSave (sv_fields update_args) # rest" "resources_only rest"
    using vm_save_update(2) [OF p refl v] by blast
  have yv: "y = x\<lparr>v_json_active := js, v_json := js, v_changed := Some (e_now (se_save env))\<rparr>"
    by (rule vm_save_update(1) [OF p refl v])
  let ?row = "write_fields (sv_fields update_args) y row"
  let ?s = "s\<lparr>ss_db := (ss_db s)(v_uuid x \<mapsto> ?row)\<rparr>"
  have rw: "v_uuid ?row = v_uuid row" "v_vnc_port ?row = v_vnc_port row" "v_created ?row = v_created row" "v_status ?row = v_status row"
    by (simp_all add: update_args_def)
  have t': "t = ?s\<lparr>ss_out := ss_out s @ map ResourcesUpdated rest\<rparr>"
    unfolding t r(1) by (simp add: run_effect_def run_resources [OF r(2)] row yv args_fields(2))
  have inv: "status_inv s" by (rule current_inv [OF s])
  then have "status_inv ?s" by (rule status_inv_row [OF _ row(1)]) (use rw in simp_all)
  moreover have "plain_vm y" "v_orig_status y = v_status y" "v_uuid y = v_uuid x" "v_status y = v_status x"
    using p by (simp_all add: yv plain_vm_def)
  ultimately show "current y t \<and> v_uuid y = v_uuid x" using row rw by (simp add: t' current_def)
qed

lemma triple_db_atomic:
  assumes "triple P m Q E" "\<And>s t. P s \<Longrightarrow> E t \<Longrightarrow> ss_cache t = ss_cache s \<Longrightarrow> E (t\<lparr>ss_db := ss_db s, ss_ips := ss_ips s\<rparr>)"
    "\<And>s. ss_cache (snd (m s)) = ss_cache s"
  shows "triple P (db_atomic m) Q E"
proof -
  have "case db_atomic m s of (Inl e, t) \<Rightarrow> E t | (Inr x, t) \<Rightarrow> Q x t" if "P s" for s
  proof (cases "m s")
    case (Pair r t)
    then show ?thesis
      using tripleD [OF assms(1) that] assms(2) [OF that] assms(3) [of s] by (cases r) (simp_all add: db_atomic_def)
  qed
  then show ?thesis by (simp add: triple_def)
qed

lemma triple_inv_pres: "triple status_inv (pres r) (\<lambda>_. status_inv) status_inv"
  by (rule triple_pres)

lemma triple_inv_pget: "triple status_inv (pget f) (\<lambda>_. status_inv) status_inv"
  by (rule triple_pget)

lemma triple_vm_status_all_cb: "triple status_inv (vm_status_all_cb env tid rc o' n) (\<lambda>_. status_inv) status_inv"
proof -
  have line: "triple status_inv (check_line env tid n p) (\<lambda>_. status_inv) status_inv" for p
    unfolding check_line_def by (cases p; cases "fst p") (auto intro!: triple_pbind [OF triple_inv_pres] triple_vm_status_check)
  show ?thesis unfolding vm_status_all_cb_def Let_def
    by (auto intro!: triple_pret triple_pbind [OF triple_inv_pget] triple_pfor line)
qed

lemma triple_vm_status_event_cb: "triple status_inv (vm_status_event_cb env tid z st w n) (\<lambda>_. status_inv) status_inv"
  unfolding vm_status_event_cb_def
  by (auto intro!: triple_pbind [OF triple_inv_pget] triple_pbind [OF triple_inv_pres] triple_pbind [OF triple_vm_status_check] triple_pret)

lemma triple_vm_status_current_cb:
  "triple status_inv (vm_status_current_cb env r tid u force) (\<lambda>_. status_inv) status_inv"
proof -
  have get: "triple status_inv (get_vm u) (\<lambda>_. status_inv) status_inv"
    by (rule triple_conseq [OF triple_get_vm]) (auto dest: current_inv)
  have out: "triple status_inv (out es) (\<lambda>_. status_inv) status_inv" for es by (rule triple_out) simp
  show ?thesis unfolding vm_status_current_cb_def Let_def
    by (auto intro!: triple_inv_pres triple_pbind [OF get] triple_pbind [OF out] triple_pret triple_if
        triple_pbind [where R = "\<lambda>_. status_inv"] triple_option triple_inv_pget triple_vm_status_check)
qed

lemma triple_save_updated_json:
  "triple (current x) (save_updated_json env r tid x) (\<lambda>y s. current y s \<and> v_uuid y = v_uuid x) status_inv"
proof -
  let ?body = "\<lambda>js. pbind (st_save env update_args (x\<lparr>v_json_active := js, v_json := js, v_update_changed := True\<rparr>)) (\<lambda>y.
            pbind (st_ip_usage y) (\<lambda>_.
            pbind (out [Signal ''vm_json_active_changed'' tid (v_uuid y)]) (\<lambda>_. pret y)))"
  let ?Q = "\<lambda>y s. current y s \<and> v_uuid y = v_uuid x"
  have body: "case db_atomic (?body js) s of (Inl e, t) \<Rightarrow> status_inv t | (Inr y, t) \<Rightarrow> ?Q y t" if s: "current x s" for js s
  proof -
    have b: "triple (current x) (?body js) ?Q status_inv"
      by (auto intro!: triple_pbind [OF triple_save_json] triple_pbind [where R = "\<lambda>_. ?Q _"] triple_ip_usage triple_out triple_pret
          dest: current_inv)
    have c: "ss_cache t = ss_cache s" if "?body js s = (res, t)" for res t
    proof -
      have p: "plain_vm x" "v_orig_status x = v_status x" using s by (simp_all add: current_def)
      let ?m = "st_save env update_args (x\<lparr>v_json_active := js, v_json := js, v_update_changed := True\<rparr>)"
      have m: "ss_cache u = ss_cache s" if mu: "?m s = (q, u)" for q u
      proof (cases q)
        case (Inl e)
        then show ?thesis using mu by (auto simp: st_save_def split: sum.splits prod.splits if_splits)
      next
        case (Inr y)
        then obtain es where v: "vm_save (se_save env) update_args (x\<lparr>v_json_active := js, v_json := js, v_update_changed := True\<rparr>) = Inr (y, es)"
            and u: "u = foldl (run_effect y) s es"
          using mu by (auto simp: st_save_def split: sum.splits prod.splits if_splits)
        obtain rest where "es = DbSave (sv_fields update_args) # rest" "resources_only rest"
          using vm_save_update(2) [OF p refl v] by blast
        then show ?thesis by (simp add: u run_effect_def run_resources)
      qed
      obtain q u where q: "?m s = (q, u)" by force
      have "ss_cache t = ss_cache u"
        using that by (auto simp: pbind_def q st_ip_usage_def out_def pmod_def pret_def split: sum.splits prod.splits)
      then show ?thesis using m [OF q] by simp
    qed
    obtain res t where bt: "?body js s = (res, t)" by force
    show ?thesis
    proof (cases res)
      case (Inl e)
      have "status_inv (t\<lparr>ss_db := ss_db s, ss_ips := ss_ips s\<rparr>)"
        using current_inv [OF s] c [OF bt] by (simp add: status_inv_def db_ok_def coherent_def cache_get_def)
      then show ?thesis by (simp add: db_atomic_def bt Inl)
    next
      case (Inr y)
      then show ?thesis using tripleD(1) [OF b s] bt by (simp add: db_atomic_def)
    qed
  qed
  have first: "current x t" if "pbind (pres (se_load_json env (cr_stdout r))) (\<lambda>js.
             pbind (vm_delete_snapshots_of_removed_disks x) (\<lambda>_. pret js)) s = (q, t)" "current x s" for s q t
  proof -
    have "keeps (current x) (pbind (pres (se_load_json env (cr_stdout r))) (\<lambda>js.
             pbind (vm_delete_snapshots_of_removed_disks x) (\<lambda>_. pret js)))"
      unfolding vm_delete_snapshots_of_removed_disks_def out_def by (intro keeps_intros keeps_pmod) simp
    from keepsD [OF this that(2,1)] show ?thesis .
  qed
  have "case save_updated_json env r tid x s of (Inl e, t) \<Rightarrow> status_inv t | (Inr y, t) \<Rightarrow> ?Q y t" if s: "current x s" for s
  proof -
    let ?f = "pbind (pres (se_load_json env (cr_stdout r))) (\<lambda>js. pbind (vm_delete_snapshots_of_removed_disks x) (\<lambda>_. pret js))"
    obtain q t where f: "?f s = (q, t)" by force
    note t = first [OF f s]
    show ?thesis
    proof (cases q)
      case (Inl e)
      then show ?thesis using t by (simp add: save_updated_json_def f)
    next
      case (Inr js)
      then show ?thesis using body [OF t, of js] by (simp add: save_updated_json_def f)
    qed
  qed
  then show ?thesis by (simp add: triple_def)
qed

lemma triple_vm_status_cb: "triple status_inv (vm_status_cb env r tid u) (\<lambda>_. status_inv) status_inv"
proof -
  have out: "triple status_inv (out es) (\<lambda>_. status_inv) status_inv" for es by (rule triple_out) simp
  have upd: "triple (\<lambda>s. current x s \<and> v_uuid x = u) (if b then save_updated_json env r tid x else pret x) (\<lambda>y s. current y s) status_inv" for x b
    by (auto intro!: triple_conseq [OF triple_save_updated_json] triple_pret)
  have keep: "triple (current x) (pres q) (\<lambda>_. current x) status_inv" for q :: "'b res" and x
    by (rule triple_pres) (auto dest: current_inv)
  have save: "triple (current x) (save_vm_status env tid x st None f t) (\<lambda>_. status_inv) status_inv" for x st f t
    unfolding save_vm_status_def by (rule triple_vm_status_changed) simp
  have failed: "triple (current x) (status_cb_failed env r x) (\<lambda>_. status_inv) status_inv" for x
  proof -
    have "triple (current x) (if v_status x = STOPPING then st_save_status env (Some (cr_last_status r)) None x else pret x)
        (\<lambda>_. status_inv) status_inv"
      by (auto intro!: triple_conseq [OF triple_st_save_status] triple_pret dest: current_inv)
    then show ?thesis unfolding status_cb_failed_def
      by (rule triple_pbind) (auto intro: triple_commands(2))
  qed
  have ok: "triple (\<lambda>s. current x s \<and> v_uuid x = u) (pbind (if b then save_updated_json env r tid x else pret x) (\<lambda>y.
      pbind (pres q) (\<lambda>(st, t). pbind (save_vm_status env tid y st None False t) (\<lambda>z. out [SuccessLogged tid (v_uuid z)]))))
      (\<lambda>_. status_inv) status_inv" for x b q
  proof (rule triple_pbind [OF upd], rule triple_pbind [OF keep])
    fix y and p :: "int \<times> int option"
    show "triple (current y) (case p of (st, t) \<Rightarrow> pbind (save_vm_status env tid y st None False t)
        (\<lambda>z. out [SuccessLogged tid (v_uuid z)])) (\<lambda>_. status_inv) status_inv"
      by (cases p) (simp add: triple_pbind [OF save out])
  qed
  have gone: "triple (current x) (if v_status x = STOPPING
      then pbind (pres q) (\<lambda>t. pbind (save_vm_status env tid x STOPPED None False t) (\<lambda>_. pret ())) else pret ())
      (\<lambda>_. status_inv) status_inv" for x q
    by (auto intro!: triple_pbind [OF keep] triple_pbind [OF save] triple_pret dest: current_inv)
  have bad: "triple (\<lambda>s. current x s \<and> v_uuid x = u) (pbind (if is_vm_missing x m then (if v_status x = STOPPING
      then pbind (pres q) (\<lambda>t. pbind (save_vm_status env tid x STOPPED None False t) (\<lambda>_. pret ())) else pret ())
      else status_cb_failed env r x) (\<lambda>_. pres (Inl (bad_return_code r)))) (\<lambda>_. status_inv) status_inv" for x q m
    by (rule triple_pbind [OF triple_pre [OF triple_if [OF gone failed]] triple_inv_pres]) simp
  show ?thesis unfolding vm_status_cb_def
    by (rule triple_pbind [OF triple_get_vm], rule triple_if, rule ok, rule bad)
qed

lemma triple_vm_uptime_all: "triple status_inv (vm_uptime_all now) (\<lambda>_. status_inv) status_inv"
proof -
  have "status_inv (s\<lparr>ss_db := (\<lambda>u. map_option (\<lambda>x. if P x then x\<lparr>v_uptime_changed := now, v_uptime := f x\<rparr> else x) (ss_db s u))\<rparr>)"
    if "status_inv s" for s P f
  proof -
    have "db_ok (s\<lparr>ss_db := (\<lambda>u. map_option (\<lambda>x. if P x then x\<lparr>v_uptime_changed := now, v_uptime := f x\<rparr> else x) (ss_db s u))\<rparr>)"
      using that by (fastforce simp: status_inv_def db_ok_def)
    moreover have "coherent (s\<lparr>ss_db := (\<lambda>u. map_option (\<lambda>x. if P x then x\<lparr>v_uptime_changed := now, v_uptime := f x\<rparr> else x) (ss_db s u))\<rparr>)"
    proof -
      have "\<exists>z. map_option (\<lambda>x. if P x then x\<lparr>v_uptime_changed := now, v_uptime := f x\<rparr> else x) (ss_db s u) = Some z \<and> v = VInt (v_status z)"
        if c: "cache_get (vm_status_key u) s = Some v" for u v
      proof -
        obtain x where x: "ss_db s u = Some x" "v = VInt (v_status x)"
          using \<open>status_inv s\<close> c unfolding status_inv_def coherent_def by blast
        have "v_status (if P x then x\<lparr>v_uptime_changed := now, v_uptime := f x\<rparr> else x) = v_status x" by simp
        then show ?thesis unfolding x option.map by metis
      qed
      then show ?thesis by (simp add: coherent_def)
    qed
    ultimately show ?thesis by (simp add: status_inv_def)
  qed
  note inv = this
  show ?thesis unfolding vm_uptime_all_def by (rule triple_pmod, rule inv)
qed

end
