(* ===== verification/Vm_Lifecycle.thy ===== *)
theory Vm_Lifecycle
  imports Vm_Status_Inv "HOL-Library.Sublist"
begin

text \<open>
  The deployment of a VM as a state machine. \<open>deploy_step\<close> is what the checks of reports promise:
  which status follows which report, and when the deployment is over. The checks of
  \<^verbatim>\<open>api/vm/status/tasks.py\<close> refine it in the database and in the cache, and the events of a
  node that belong to a deployment complete it.
\<close>

section \<open>The machine\<close>

inductive deploy_step :: "bool \<Rightarrow> bool \<Rightarrow> int \<Rightarrow> int \<Rightarrow> int \<Rightarrow> bool \<Rightarrow> bool" for needed blank where
  image_boots: "needed \<Longrightarrow> deploy_step needed blank CREATING RUNNING DEPLOYING_START False"
| blank_boots: "\<not> needed \<Longrightarrow> blank \<Longrightarrow> deploy_step needed blank CREATING RUNNING DEPLOYING_DUMMY False"
| ready_boots: "\<not> needed \<Longrightarrow> \<not> blank \<Longrightarrow> deploy_step needed blank CREATING RUNNING RUNNING True"
| blank_stops: "deploy_step needed blank DEPLOYING_DUMMY STOPPED STOPPED True"
| image_stops: "deploy_step needed blank DEPLOYING_START STOPPED DEPLOYING_FINISH False"
| image_boots_again: "deploy_step needed blank DEPLOYING_FINISH RUNNING RUNNING True"
| follows: "old \<in> set STATUS_KNOWN \<Longrightarrow> deploy_step needed blank old report report False"
| waits: "old \<notin> set STATUS_KNOWN
    \<Longrightarrow> (old, report) \<notin> {(CREATING, RUNNING), (DEPLOYING_DUMMY, STOPPED), (DEPLOYING_START, STOPPED), (DEPLOYING_FINISH, RUNNING)}
    \<Longrightarrow> deploy_step needed blank old report old False"

lemmas status_codes = CREATING_def RUNNING_def STOPPED_def STOPPING_def DEPLOYING_START_def DEPLOYING_DUMMY_def
  DEPLOYING_FINISH_def STATUS_KNOWN_def NOTCREATED_def ERROR_def

inductive_cases deploy_stepE: "deploy_step needed blank old report new over"

lemma deploy_step_deterministic:
  "deploy_step needed blank old report new over \<Longrightarrow> deploy_step needed blank old report new' over' \<Longrightarrow> new' = new \<and> over' = over"
  by (elim deploy_stepE) (simp_all add: status_codes)

text \<open>A row that differs from another one only in its status and its uptime.\<close>

definition status_row :: "vm \<Rightarrow> vm \<Rightarrow> bool" where
  "status_row row row' \<longleftrightarrow> (\<exists>a b c d. row' = row\<lparr>v_status := a, v_status_change := b, v_uptime := c, v_uptime_changed := d\<rparr>)"

lemma status_row_refl: "status_row x x"
  unfolding status_row_def
  by (rule exI [of _ "v_status x"], rule exI [of _ "v_status_change x"], rule exI [of _ "v_uptime x"], rule exI [of _ "v_uptime_changed x"]) simp

lemma status_row_trans: "status_row x y \<Longrightarrow> status_row y z \<Longrightarrow> status_row x z"
  unfolding status_row_def by (elim exE) (simp, metis)

lemma status_row_write:
  assumes "set fs \<subseteq> {''status'', ''status_change'', ''uptime'', ''uptime_changed''}"
  shows "status_row row (write_fields (Some fs) y row)"
proof -
  have n: "''enc_json'' \<notin> set fs" "''enc_json_active'' \<notin> set fs" "''enc_info'' \<notin> set fs" "''changed'' \<notin> set fs" "''node_id'' \<notin> set fs"
    using assms by auto
  show ?thesis unfolding status_row_def write_fields_def option.case
    by (rule exI, rule exI, rule exI, rule exI) (simp add: n)
qed

text \<open>The first disk does not depend on the status, so neither do the decisions about the deployment.\<close>

lemma first_disk:
  "rbind (parse_json_disks uuid js hvm nc pool) (\<lambda>ds. case ds of [] \<Rightarrow> e | d # _ \<Rightarrow> g d)
     = rbind (parse_json_disks uuid js hvm nc' pool) (\<lambda>ds. case ds of [] \<Rightarrow> e | d # _ \<Rightarrow> g d)"
proof -
  have z: "\<exists>d r r'. zone_disks uuid js nc zp q = d # r \<and> zone_disks uuid js nc' zp q = d # r'" for zp q
    by (simp add: zone_disks_def Let_def)
  have "(case zone_disks uuid js nc zp q of [] \<Rightarrow> e | d # _ \<Rightarrow> g d) = (case zone_disks uuid js nc' zp q of [] \<Rightarrow> e | d # _ \<Rightarrow> g d)" for zp q
    using z [of zp q] by auto
  then show ?thesis by (simp add: parse_json_disks_def rbind_assoc split: pyval.split)
qed

lemma is_blank_first: "is_blank x = rbind (json_get_disks x) (\<lambda>ds. case ds of [] \<Rightarrow> Inr True | d # _ \<Rightarrow> Inr (\<not> dhas d ''image_uuid''))"
  unfolding is_blank_def by (rule arg_cong [where f = "rbind _"]) (auto split: list.split)

lemma status_row_simps:
  assumes "status_row x y"
  shows "v_uuid y = v_uuid x" "v_node y = v_node x" "is_deploy_needed env (fresh_vm y) = is_deploy_needed env (fresh_vm x)"
    "is_blank (fresh_vm y) = is_blank (fresh_vm x)"
proof -
  have f: "v_uuid y = v_uuid x" "v_node y = v_node x" "v_json y = v_json x" "is_hvm (fresh_vm y) = is_hvm (fresh_vm x)"
    using assms by (auto simp: status_row_def fresh_vm_def is_hvm_def)
  then show "v_uuid y = v_uuid x" "v_node y = v_node x" by simp_all
  show "is_deploy_needed env (fresh_vm y) = is_deploy_needed env (fresh_vm x)"
    unfolding is_deploy_needed_def json_get_disks_def vm_disks_def by (simp add: f first_disk)
  show "is_blank (fresh_vm y) = is_blank (fresh_vm x)"
    unfolding is_blank_first json_get_disks_def vm_disks_def by (simp add: f first_disk)
qed

section \<open>What a check leaves\<close>

text \<open>
  The VM \<open>u\<close> has the status \<open>new\<close>, with \<open>t\<close> as the time of its change when it changed; other VMs are
  as before.
\<close>

definition status_result :: "string \<Rightarrow> int \<Rightarrow> int option \<Rightarrow> bool \<Rightarrow> status_state \<Rightarrow> status_state \<Rightarrow> bool" where
  "status_result u new t over s s' \<longleftrightarrow>
     (\<exists>x y. ss_db s u = Some x \<and> ss_db s' u = Some y \<and> status_row x y \<and> v_status y = new
       \<and> (if new = v_status x then cache_get (vm_status_change_key u) s' = cache_get (vm_status_change_key u) s
          else cache_get (vm_status_change_key u) s' = map_option VInt t \<and> cache_get (vm_status_key u) s' = Some (VInt new)))
     \<and> (\<forall>w. w \<noteq> u \<longrightarrow> ss_db s' w = ss_db s w \<and> cache_get (vm_status_key w) s' = cache_get (vm_status_key w) s
          \<and> cache_get (vm_status_change_key w) s' = cache_get (vm_status_change_key w) s)
     \<and> ss_finished s' = (if over then List.insert (u @ '':deploy_finished'') (ss_finished s) else ss_finished s)"

lemma status_result_same:
  assumes "ss_db s u = Some x" "v_status x = new"
  shows "status_result u new t False s s"
  using assms status_row_refl by (auto simp: status_result_def)

lemma status_result_out [simp]:
  "status_result u new t over s (s'\<lparr>ss_out := es\<rparr>) = status_result u new t over s s'"
  by (simp add: status_result_def)

lemma status_result_cached:
  "status_result u new t over (s\<lparr>ss_cache := (ss_cache s)(vm_status_key u \<mapsto> v)\<rparr>) s' \<Longrightarrow> status_result u new t over s s'"
  by (auto simp: status_result_def cache_get_upd)

lemma status_result_finished:
  "status_result u new t False s s'
     \<Longrightarrow> status_result u new t True s (s'\<lparr>ss_finished := List.insert (u @ '':deploy_finished'') (ss_finished s')\<rparr>)"
  by (simp add: status_result_def cong: if_cong split del: if_split)

lemma st_save_result:
  assumes "plain_vm z" "v_status z \<noteq> v_orig_status z" "''status'' \<in> set fs" "''status_change'' \<in> set fs"
    "set fs \<subseteq> {''status'', ''status_change'', ''uptime'', ''uptime_changed''}"
    "ss_db s (v_uuid z) = Some row" "v_status row \<noteq> v_status z"
  shows "\<exists>y s'. st_save env (status_args fs ct) z s = (Inr y, s') \<and> v_uuid y = v_uuid z \<and> v_node y = v_node z
    \<and> status_result (v_uuid z) (v_status z) (case ct of Some t \<Rightarrow> t | None \<Rightarrow> Some (e_now (se_save env))) False s s'"
proof -
  let ?t = "case ct of Some t \<Rightarrow> t | None \<Rightarrow> Some (e_now (se_save env))"
  let ?y = "changed_vm (e_now (se_save env)) ct z"
  let ?s = "s\<lparr>ss_db := (ss_db s)(v_uuid z \<mapsto> write_fields (Some fs) ?y row), ss_cache := cached_vm z ?y (ss_cache s)\<rparr>"
  have "st_save env (status_args fs ct) z s = (Inr ?y, ?s)"
    by (simp only: st_save_plain [OF assms(1,3)] assms(6) option.case Let_def)
  moreover have "status_row row (write_fields (Some fs) ?y row)" by (rule status_row_write) (rule assms(5))
  then have "status_result (v_uuid z) (v_status z) ?t False s ?s"
    using assms(2,3,6,7) unfolding status_result_def
    by (auto simp: cached_vm_def cache_get_def changed_vm_def vm_keys_distinct [symmetric] split: option.split)
  ultimately show ?thesis by auto
qed


lemma save_status_result:
  assumes "current x s" "v \<noteq> v_status x"
  shows "\<exists>y s'. st_save_status env (Some v) ct x s = (Inr y, s') \<and> v_uuid y = v_uuid x \<and> v_node y = v_node x
    \<and> status_result (v_uuid x) v (case ct of Some t \<Rightarrow> t | None \<Rightarrow> Some (e_now (se_save env))) False s s'"
proof -
  obtain row where row: "ss_db s (v_uuid x) = Some row" "v_status row = v_status x" "plain_vm x" "v_orig_status x = v_status x"
    using assms(1) by (auto simp: current_def)
  have "\<exists>y s'. st_save env (status_args [''status'', ''status_change''] ct) (x\<lparr>v_status := v\<rparr>) s = (Inr y, s')
      \<and> v_uuid y = v_uuid (x\<lparr>v_status := v\<rparr>) \<and> v_node y = v_node (x\<lparr>v_status := v\<rparr>)
      \<and> status_result (v_uuid (x\<lparr>v_status := v\<rparr>)) (v_status (x\<lparr>v_status := v\<rparr>))
          (case ct of Some t \<Rightarrow> t | None \<Rightarrow> Some (e_now (se_save env))) False s s'"
    by (rule st_save_result [where row = row]) (use assms(2) row in auto)
  then show ?thesis unfolding st_save_status_def by auto
qed

lemma save_new_status_result:
  assumes "current x s" "st \<noteq> v_status x"
  shows "\<exists>y s'. save_new_status env x st (Some (v_status x)) t s = (Inr y, s') \<and> v_uuid y = v_uuid x
    \<and> status_result (v_uuid x) st t False s s'"
proof -
  obtain row where row: "ss_db s (v_uuid x) = Some row" "v_status row = v_status x" "plain_vm x"
    using assms(1) by (auto simp: current_def)
  let ?x1 = "x\<lparr>v_status := st\<rparr>"
  let ?x2 = "if st \<noteq> STOPPING then update_uptime (e_now (se_save env)) None False ?x1 else ?x1"
  let ?x3 = "?x2\<lparr>v_orig_status := v_status x\<rparr>"
  have x3: "v_uuid ?x3 = v_uuid x" "v_status ?x3 = st" "v_orig_status ?x3 = v_status x" "plain_vm ?x3"
    using row(3) by simp_all
  have "\<exists>y s'. st_save env (status_args [''status'', ''status_change'', ''uptime'', ''uptime_changed''] (Some t)) ?x3 s = (Inr y, s')
      \<and> v_uuid y = v_uuid ?x3 \<and> v_node y = v_node ?x3 \<and> status_result (v_uuid ?x3) (v_status ?x3)
          (case Some t of Some t \<Rightarrow> t | None \<Rightarrow> Some (e_now (se_save env))) False s s'"
    by (rule st_save_result [where row = row]) (use assms(2) row x3 in auto)
  then show ?thesis unfolding save_new_status_def Let_def x3 option.case by blast
qed

text \<open>Signals, logs and a task ID that cannot be made leave what was saved.\<close>

lemma same_out: "\<exists>es. t = t\<lparr>ss_out := es\<rparr>" for t :: status_state
  by (rule exI [of _ "ss_out t"]) simp

lemma changed_tail:
  "\<exists>es. snd (pbind (pwhen over (set_deploy_finished y)) (\<lambda>_. if is_slave_vm y then pret y else
       pbind (pres r) (\<lambda>tid'. pbind (out (ev tid')) (\<lambda>_. pret y))) s)
     = (if over then s\<lparr>ss_finished := List.insert (v_uuid y @ '':deploy_finished'') (ss_finished s)\<rparr> else s)\<lparr>ss_out := es\<rparr>"
proof -
  let ?t = "if over then s\<lparr>ss_finished := List.insert (v_uuid y @ '':deploy_finished'') (ss_finished s)\<rparr> else s"
  have w: "pbind (pwhen over (set_deploy_finished y)) f s = f () ?t" for f :: "unit \<Rightarrow> vm sprog"
    by (simp add: prog_defs set_deploy_finished_def deploy_finished_key_def)
  show ?thesis
  proof (cases "is_slave_vm y")
    case True
    then show ?thesis unfolding w using same_out [of ?t] by (simp add: pret_def split del: if_split)
  next
    case slave: False
    show ?thesis
    proof (cases r)
      case (Inl e)
      then show ?thesis unfolding w using same_out [of ?t] slave by (simp add: prog_defs split del: if_split)
    next
      case (Inr i)
      then show ?thesis unfolding w using slave by (simp add: prog_defs out_def split del: if_split) blast
    qed
  qed
qed

lemma vm_status_changed_result:
  assumes "current x s" "st \<noteq> v_status x" "newer_change (v_uuid x) t s = Inr False"
  shows "status_result (v_uuid x) st t over s (snd (vm_status_changed env tid x st (Some (v_status x)) True over t s))"
proof -
  obtain y s1 where y: "save_new_status env x st (Some (v_status x)) t s = (Inr y, s1)" "v_uuid y = v_uuid x"
      "status_result (v_uuid x) st t False s s1"
    using save_new_status_result [OF assms(1,2)] by blast
  let ?s2 = "if over then s1\<lparr>ss_finished := List.insert (v_uuid x @ '':deploy_finished'') (ss_finished s1)\<rparr> else s1"
  have s2: "status_result (v_uuid x) st t over s ?s2" using status_result_finished [OF y(3)] y(3) by (cases over) simp_all
  have "vm_status_changed env tid x st (Some (v_status x)) True over t s = pbind (pwhen over (set_deploy_finished y)) (\<lambda>_.
     if is_slave_vm y then pret y else
     pbind (pres (task_id_from_task_id (se_md5 env) (se_uuid env) tid None (Some (IdInt (v_owner y))) None None
         (Some (IdInt (v_dc y))) False)) (\<lambda>tid'. pbind (out (changed_events tid' y)) (\<lambda>_. pret y))) s1"
    by (simp add: vm_status_changed_def pbind_def assms(3) y(1) if_distrib)
  then obtain es where "snd (vm_status_changed env tid x st (Some (v_status x)) True over t s) = ?s2\<lparr>ss_out := es\<rparr>"
    using changed_tail [of over y] y(2) by metis
  then show ?thesis using s2 by auto
qed


lemma pbind_steps:
  "pbind (pres r) f s = (case r of Inl e \<Rightarrow> (Inl e, s) | Inr x \<Rightarrow> f x s)" "pbind (pret x) f s = f x s"
  "pbind (pget g) f s = f (g s) s" "pbind (pmod h) k s = k () (h s)"
  by (simp_all add: prog_defs split: sum.split)

lemma get_vm_some: "ss_db s u = Some x \<Longrightarrow> pbind (get_vm u) f s = f (fresh_vm x) s"
  by (simp add: get_vm_def load_vm_def pbind_def pget_def pres_def)

lemma snd_pbind_pret: "snd (pbind m (\<lambda>_. pret z) s) = snd (m s)"
  by (simp add: pbind_def pret_def split: prod.split sum.split)

lemma vm_deploy_out: "\<exists>es. snd (vm_deploy env b y s) = s\<lparr>ss_out := es\<rparr>"
proof (cases "the_node y")
  case (Inl e)
  then show ?thesis using same_out [of s] by (simp add: vm_deploy_def prog_defs)
next
  case (Inr n)
  let ?q = "node_fast_queue n"
  let ?c = "(if b then ''vmadm stop '' @ v_uuid y @ '' -F'' else ''vmadm start '' @ v_uuid y)
            @ '' >/dev/null 2>/dev/null; vmadm get '' @ v_uuid y @ '' 2>/dev/null''"
  have "snd (vm_deploy env b y s) = snd (execute_cmd env ?q ?c (Some (''vmadm deploy '' @ v_uuid y)) ''api.vm.base.tasks.vm_deploy_cb''
      [(''vm_uuid'', VStr (v_uuid y))] s)"
    unfolding vm_deploy_def snd_pbind_pret Inr by (simp only: pbind_def pres_def split: prod.split sum.split) (simp add: snd_pbind_pret pret_def split: prod.split sum.split)
  moreover have "\<exists>es. snd (execute_cmd env ?q ?c l cb args s) = s\<lparr>ss_out := es\<rparr>" for l cb args
    using same_out [of s] by (cases "se_refused env ?q ?c") (auto simp: execute_cmd_def out_def prog_defs)
  ultimately show ?thesis by metis
qed

lemma check_finish_result:
  assumes "current x s" "st \<noteq> v_status x" "newer_change (v_uuid x) t s = Inr False"
  shows "status_result (v_uuid x) st t over s (snd (check_finish env tid x st (v_status x) over t s))"
  unfolding check_finish_def snd_pbind_pret save_vm_status_def option.case by (rule vm_status_changed_result [OF assms])

lemma save_deploy_result:
  assumes "current x s" "v \<noteq> v_status x"
  shows "status_result (v_uuid x) v t False s (snd (pbind (st_save_status env (Some v) (Some t) x) (\<lambda>_. pret (None :: int option)) s))"
    "status_result (v_uuid x) v t False s (snd (pbind (st_save_status env (Some v) (Some t) x) (\<lambda>y. pbind (vm_deploy env b y) (\<lambda>_. pret (None :: int option))) s))"
proof -
  obtain y s' where y: "st_save_status env (Some v) (Some t) x s = (Inr y, s')" "status_result (v_uuid x) v t False s s'"
    using save_status_result [OF assms, of env "Some t"] by auto
  show "status_result (v_uuid x) v t False s (snd (pbind (st_save_status env (Some v) (Some t) x) (\<lambda>_. pret (None :: int option)) s))"
    unfolding snd_pbind_pret using y by simp
  have "snd (pbind (st_save_status env (Some v) (Some t) x) (\<lambda>y. pbind (vm_deploy env b y) (\<lambda>_. pret (None :: int option))) s) = snd (vm_deploy env b y s')"
    by (simp add: pbind_def [of "st_save_status env (Some v) (Some t) x"] y(1) snd_pbind_pret)
  then show "status_result (v_uuid x) v t False s (snd (pbind (st_save_status env (Some v) (Some t) x) (\<lambda>y. pbind (vm_deploy env b y) (\<lambda>_. pret (None :: int option))) s))"
    using vm_deploy_out [of env b y s'] y(2) by auto
qed

lemma check_apply_result:
  assumes "current x s" "report \<noteq> v_status x" "newer_change (v_uuid x) t s = Inr False"
    "is_deploy_needed env x = Inr needed" "is_blank x = Inr blank" "deploy_flag False (v_status x) report = Some flag"
  shows "\<exists>new over. deploy_step needed blank (v_status x) report new over
    \<and> status_result (v_uuid x) new t over s (snd (check_apply env tid x report (v_status x) flag t s))"
proof (cases flag)
  case NoDeploy
  then have "v_status x \<in> set STATUS_KNOWN" using assms(6) by (simp add: deploy_flag_def split: if_splits)
  then have "deploy_step needed blank (v_status x) report report False" by (rule deploy_step.follows)
  then show ?thesis using check_finish_result [OF assms(1-3), of False] NoDeploy by (auto simp: check_apply_def)
next
  case DeployOver
  then have "(v_status x = DEPLOYING_DUMMY \<and> report = STOPPED) \<or> (v_status x = DEPLOYING_FINISH \<and> report = RUNNING)"
    using assms(6) by (simp add: deploy_flag_def split: if_splits)
  then have "deploy_step needed blank (v_status x) report report True"
    by (auto intro: deploy_step.blank_stops deploy_step.image_boots_again)
  then show ?thesis using check_finish_result [OF assms(1-3), of True] DeployOver by (auto simp: check_apply_def)
next
  case DeployFinish
  then have st: "v_status x = DEPLOYING_START" "report = STOPPED"
    using assms(6) by (simp_all add: deploy_flag_def split: if_splits)
  have "DEPLOYING_FINISH \<noteq> v_status x" using st by (simp add: status_codes)
  then show ?thesis using save_deploy_result(2) [OF assms(1)] deploy_step.image_stops st DeployFinish
    by (fastforce simp: check_apply_def)
next
  case Deploy
  then have st: "v_status x = CREATING" "report = RUNNING"
    using assms(6) by (simp_all add: deploy_flag_def split: if_splits)
  have ne: "DEPLOYING_START \<noteq> v_status x" "DEPLOYING_DUMMY \<noteq> v_status x" using st by (simp_all add: status_codes)
  have c: "check_apply env tid x report (v_status x) flag t s =
     (if needed then pbind (st_save_status env (Some DEPLOYING_START) (Some t) x) (\<lambda>_. pret None)
      else if blank then pbind (st_save_status env (Some DEPLOYING_DUMMY) (Some t) x) (\<lambda>y. pbind (vm_deploy env True y) (\<lambda>_. pret None))
      else check_finish env tid x report (v_status x) True t) s"
    by (simp add: check_apply_def Deploy pbind_steps assms(4,5))
  show ?thesis
  proof (cases needed)
    case True
    have "deploy_step needed blank CREATING RUNNING DEPLOYING_START False" using True by (rule deploy_step.image_boots)
    with save_deploy_result(1) [OF assms(1) ne(1)] show ?thesis unfolding c if_P [OF True] unfolding st by blast
  next
    case nn: False
    show ?thesis
    proof (cases blank)
      case True
      have "deploy_step needed blank CREATING RUNNING DEPLOYING_DUMMY False" using nn True by (rule deploy_step.blank_boots)
      with save_deploy_result(2) [OF assms(1) ne(2)] show ?thesis unfolding c if_P [OF True] if_not_P [OF nn] unfolding st by blast
    next
      case False
      have "deploy_step needed blank CREATING RUNNING RUNNING True" using nn False by (rule deploy_step.ready_boots)
      with check_finish_result [OF assms(1-3)] show ?thesis unfolding c if_not_P [OF False] if_not_P [OF nn] unfolding st by blast
    qed
  qed
qed

section \<open>Checks refine the machine\<close>

lemma status_result_step:
  assumes "status_result u new t over s s'" "ss_db s u = Some x"
  shows "\<exists>y. ss_db s' u = Some y \<and> status_row x y \<and> v_status y = new"
  using assms by (auto simp: status_result_def)

lemma deploy_flag_some:
  "old \<in> set STATUS_KNOWN \<Longrightarrow> deploy_flag False old report = Some NoDeploy"
  "deploy_flag False CREATING RUNNING = Some Deploy" "deploy_flag False DEPLOYING_DUMMY STOPPED = Some DeployOver"
  "deploy_flag False DEPLOYING_START STOPPED = Some DeployFinish" "deploy_flag False DEPLOYING_FINISH RUNNING = Some DeployOver"
  by (auto simp: deploy_flag_def status_codes)

lemma ignored_step:
  assumes "old = report \<or> deploy_flag False old report = None"
  shows "deploy_step needed blank old report old False"
proof (cases "old \<in> set STATUS_KNOWN")
  case True
  then have "old = report" using assms by (simp add: deploy_flag_some)
  then show ?thesis using deploy_step.follows [OF True, of needed blank report] by simp
next
  case False
  have "RUNNING \<noteq> CREATING" "STOPPED \<noteq> DEPLOYING_DUMMY" "STOPPED \<noteq> DEPLOYING_START" "RUNNING \<noteq> DEPLOYING_FINISH"
    by (simp_all add: status_codes)
  then have "(old, report) \<notin> {(CREATING, RUNNING), (DEPLOYING_DUMMY, STOPPED), (DEPLOYING_START, STOPPED), (DEPLOYING_FINISH, RUNNING)}"
    using assms deploy_flag_some(2-5) by auto
  then show ?thesis by (rule deploy_step.waits [OF False])
qed

lemma check_result:
  assumes inv: "status_inv s" and db: "ss_db s u = Some x"
    and cached: "(case cached of None \<Rightarrow> Inr (v_status x) | Some v \<Rightarrow> py_int v) = Inr (v_status x)"
    and node: "v_node x = Some n"
    and new: "newer_change u t s = Inr False"
    and dep: "is_deploy_needed env (fresh_vm x) = Inr needed" "is_blank (fresh_vm x) = Inr blank"
  shows "\<exists>new over. deploy_step needed blank (v_status x) report new over
    \<and> status_result u new t over s (snd (vm_status_check env tid (nr_uuid n) u report cached t False s))"
proof -
  let ?x = "fresh_vm x"
  let ?s = "case cached of None \<Rightarrow> s\<lparr>ss_cache := (ss_cache s)(vm_status_key u \<mapsto> VInt (v_status x))\<rparr> | Some v \<Rightarrow> s"
  have cur: "current ?x ?s" and ux: "v_uuid ?x = u"
    using current_fresh [OF inv db] current_cache_status [of ?x s] by (auto split: option.split)
  have lift: "status_result u v t ov ?s s' \<Longrightarrow> status_result u v t ov s s'" for v ov s'
    by (cases cached) (auto intro: status_result_cached)
  have dbs: "ss_db ?s u = Some x" by (simp add: db split: option.split)
  have nc: "newer_change u t ?s = Inr False" using new
    by (cases cached) (simp_all add: newer_change_def cache_get_upd cong: option.case_cong)
  have red: "vm_status_check env tid (nr_uuid n) u report cached t False s =
     (if v_status x = report then pret None
      else case deploy_flag False (v_status x) report of None \<Rightarrow> pret None
        | Some flag \<Rightarrow> check_apply env tid ?x report (v_status x) flag t) ?s"
  proof (cases cached)
    case None
    then show ?thesis
      by (simp add: vm_status_check_def load_vm_def cache_put_def pbind_def pget_def pmod_def pret_def pres_def db the_node_def node
          split: option.split)
  next
    case (Some v)
    then have v: "py_int v = Inr (v_status x)" using cached by simp
    show ?thesis unfolding Some
      by (simp add: v vm_status_check_def load_vm_def pbind_def pget_def pret_def pres_def db the_node_def node
          split: option.split)
  qed
  show ?thesis
  proof (cases "v_status x = report \<or> deploy_flag False (v_status x) report = None")
    case True
    then have "snd (vm_status_check env tid (nr_uuid n) u report cached t False s) = ?s" by (auto simp: red pret_def)
    moreover have "deploy_step needed blank (v_status x) report (v_status x) False" by (rule ignored_step) (rule True)
    ultimately show ?thesis using lift [OF status_result_same [OF dbs refl]] by metis
  next
    case False
    then obtain flag where f: "v_status x \<noteq> report" "deploy_flag False (v_status x) report = Some flag" by auto
    have "\<exists>new over. deploy_step needed blank (v_status ?x) report new over
        \<and> status_result (v_uuid ?x) new t over ?s (snd (check_apply env tid ?x report (v_status ?x) flag t ?s))"
    proof (rule check_apply_result [OF cur])
      show "report \<noteq> v_status ?x" using f(1) by simp
      show "newer_change (v_uuid ?x) t ?s = Inr False" unfolding ux by (rule nc)
      show "is_deploy_needed env ?x = Inr needed" "is_blank ?x = Inr blank" by (rule dep)+
      show "deploy_flag False (v_status ?x) report = Some flag" unfolding fresh_vm_simps by (rule f(2))
    qed
    then obtain new over where r: "deploy_step needed blank (v_status x) report new over"
        "status_result u new t over ?s (snd (check_apply env tid ?x report (v_status x) flag t ?s))"
      unfolding fresh_vm_simps(2) unfolding ux by (elim exE conjE)
    have "vm_status_check env tid (nr_uuid n) u report cached t False s = check_apply env tid ?x report (v_status x) flag t ?s"
      unfolding red f(2) if_not_P [OF f(1)] option.case by (rule refl)
    then show ?thesis using r(1) lift [OF r(2)] by metis
  qed
qed


section \<open>Runs\<close>

inductive deploy_run :: "bool \<Rightarrow> bool \<Rightarrow> int \<Rightarrow> int list \<Rightarrow> int \<Rightarrow> bool \<Rightarrow> bool" for needed blank where
  no_report: "deploy_run needed blank old [] old False"
| one_report: "deploy_step needed blank old report mid over \<Longrightarrow> deploy_run needed blank mid reports new later
    \<Longrightarrow> deploy_run needed blank old (report # reports) new (over \<or> later)"

inductive_cases deploy_run_NilE: "deploy_run needed blank old [] new over"
inductive_cases deploy_run_ConsE: "deploy_run needed blank old (report # reports) new over"

lemma deploy_step_known: "deploy_step needed blank old report new over \<Longrightarrow> old \<in> set STATUS_KNOWN \<Longrightarrow> new = report"
  by (elim deploy_stepE) (auto simp: status_codes)

lemma deploy_step_cases:
  "deploy_step needed blank DEPLOYING_FINISH report new over \<Longrightarrow> report = RUNNING \<Longrightarrow> new = RUNNING \<and> over"
  "deploy_step needed blank DEPLOYING_FINISH report new over \<Longrightarrow> report \<noteq> RUNNING \<Longrightarrow> new = DEPLOYING_FINISH"
  "deploy_step needed blank DEPLOYING_START report new over \<Longrightarrow> report = STOPPED \<Longrightarrow> new = DEPLOYING_FINISH"
  "deploy_step needed blank DEPLOYING_START report new over \<Longrightarrow> report \<noteq> STOPPED \<Longrightarrow> new = DEPLOYING_START"
  "deploy_step True blank CREATING report new over \<Longrightarrow> report = RUNNING \<Longrightarrow> new = DEPLOYING_START"
  "deploy_step needed blank CREATING report new over \<Longrightarrow> report \<noteq> RUNNING \<Longrightarrow> new = CREATING"
  by (elim deploy_stepE; simp add: status_codes)+

text \<open>A VM in a known status is in the status that was reported last.\<close>

lemma deploy_run_known:
  "deploy_run needed blank old reports new over \<Longrightarrow> old \<in> set STATUS_KNOWN \<Longrightarrow> set reports \<subseteq> set STATUS_KNOWN
     \<Longrightarrow> new = last (old # reports)"
  by (induction rule: deploy_run.induct) (auto dest: deploy_step_known)

lemma RUNNING_known: "RUNNING \<in> set STATUS_KNOWN" by (simp add: status_codes)

lemma deploy_run_finish:
  assumes "deploy_run needed blank DEPLOYING_FINISH reports new over" "RUNNING \<in> set reports" "set reports \<subseteq> set STATUS_KNOWN"
  shows "new = last reports \<and> over"
  using assms
proof (induction reports arbitrary: over)
  case Nil
  then show ?case by simp
next
  case (Cons r rs)
  from Cons.prems(1) obtain mid o1 o2 where m: "deploy_step needed blank DEPLOYING_FINISH r mid o1"
      "deploy_run needed blank mid rs new o2" "over = (o1 \<or> o2)" by (elim deploy_run_ConsE) auto
  show ?case
  proof (cases "r = RUNNING")
    case True
    then have "mid = RUNNING" "o1" using deploy_step_cases(1) [OF m(1)] by auto
    then show ?thesis using deploy_run_known [OF m(2)] Cons.prems(3) m(3) True RUNNING_known by (auto simp: last.simps)
  next
    case False
    then have "mid = DEPLOYING_FINISH" using deploy_step_cases(2) [OF m(1)] by simp
    then show ?thesis using Cons.IH [of o2] m(2,3) Cons.prems(2,3) False by auto
  qed
qed

lemma deploy_run_start:
  assumes "deploy_run needed blank DEPLOYING_START reports new over" "subseq [STOPPED, RUNNING] reports"
    "set reports \<subseteq> set STATUS_KNOWN"
  shows "new = last reports \<and> over"
  using assms
proof (induction reports arbitrary: over)
  case Nil
  then show ?case by simp
next
  case (Cons r rs)
  from Cons.prems(1) obtain mid o1 o2 where m: "deploy_step needed blank DEPLOYING_START r mid o1"
      "deploy_run needed blank mid rs new o2" "over = (o1 \<or> o2)" by (elim deploy_run_ConsE) auto
  show ?case
  proof (cases "r = STOPPED")
    case True
    then have "mid = DEPLOYING_FINISH" using deploy_step_cases(3) [OF m(1)] by simp
    moreover have "RUNNING \<in> set rs" using Cons.prems(2) True by (simp add: subseq_singleton_left)
    ultimately show ?thesis using deploy_run_finish [of needed blank rs new o2] m(2,3) Cons.prems(3) by auto
  next
    case False
    then have "mid = DEPLOYING_START" "subseq [STOPPED, RUNNING] rs"
      using deploy_step_cases(4) [OF m(1)] Cons.prems(2) by auto
    then show ?thesis using Cons.IH [of o2] m(2,3) Cons.prems(3) by auto
  qed
qed

lemma deploy_run_creating:
  assumes "deploy_run True blank CREATING reports new over" "subseq [RUNNING, STOPPED, RUNNING] reports"
    "set reports \<subseteq> set STATUS_KNOWN"
  shows "new = last reports \<and> over"
  using assms
proof (induction reports arbitrary: over)
  case Nil
  then show ?case by simp
next
  case (Cons r rs)
  from Cons.prems(1) obtain mid o1 o2 where m: "deploy_step True blank CREATING r mid o1"
      "deploy_run True blank mid rs new o2" "over = (o1 \<or> o2)" by (elim deploy_run_ConsE) auto
  show ?case
  proof (cases "r = RUNNING")
    case True
    then have "mid = DEPLOYING_START" using deploy_step_cases(5) [OF m(1)] by simp
    moreover have "subseq [STOPPED, RUNNING] rs" using Cons.prems(2) True by simp
    ultimately show ?thesis using deploy_run_start [of True blank rs new o2] m(2,3) Cons.prems(3) by auto
  next
    case False
    then have "mid = CREATING" "subseq [RUNNING, STOPPED, RUNNING] rs"
      using deploy_step_cases(6) [OF m(1)] Cons.prems(2) by auto
    then show ?thesis using Cons.IH [of o2] m(2,3) Cons.prems(3) by auto
  qed
qed


section \<open>The events of a node\<close>

text \<open>The events that \<^verbatim>\<open>erigonesd-vmon\<close> sends for one VM, each handled by its own task.\<close>

fun events_run :: "status_env \<Rightarrow> string \<Rightarrow> string \<Rightarrow> string \<Rightarrow> (string \<times> int) list \<Rightarrow> status_state \<Rightarrow> status_state" where
  "events_run env tid node u [] s = s"
| "events_run env tid node u ((st, w) # es) s = events_run env tid node u es (snd (vm_status_event_cb env tid u st w node s))"

definition reported :: "string \<times> int \<Rightarrow> int" where
  "reported e = the (map_of STATUS_DICT (fst e))"

text \<open>
  The events are readable and their times go up from \<open>c\<close>, which is not before the last change that is
  known.
\<close>

fun timely :: "int \<Rightarrow> (string \<times> int) list \<Rightarrow> bool" where
  "timely c [] = True"
| "timely c ((st, w) # es) = (map_of STATUS_DICT st \<noteq> None
     \<and> (case event_time w of Inl e \<Rightarrow> False | Inr t \<Rightarrow> c \<le> t \<and> timely t es))"

definition changed_by :: "string \<Rightarrow> int \<Rightarrow> status_state \<Rightarrow> bool" where
  "changed_by u t s \<longleftrightarrow> (\<forall>v. cache_get (vm_status_change_key u) s = Some v \<longrightarrow> (\<exists>c. v = VInt c \<and> c \<le> t))"

lemma changed_by_newer: "changed_by u t s \<Longrightarrow> newer_change u (Some t) s = Inr False"
  unfolding changed_by_def newer_change_def by (auto split: option.split)

lemma changed_by_mono: "changed_by u c s \<Longrightarrow> c \<le> t \<Longrightarrow> changed_by u t s"
  unfolding changed_by_def by fastforce

lemma changed_by_result: "status_result u new (Some t) over s s' \<Longrightarrow> changed_by u t s \<Longrightarrow> changed_by u t s'"
  unfolding status_result_def changed_by_def by (auto split: if_splits)

lemma STATUS_DICT_known: "map_of STATUS_DICT st = Some v \<Longrightarrow> v \<in> set STATUS_KNOWN"
  by (auto simp: STATUS_DICT_def STATUS_KNOWN_def split: if_splits)

lemma event_snd:
  assumes "map_of STATUS_DICT st = Some v" "event_time w = Inr t"
  shows "snd (vm_status_event_cb env tid u st w node s)
    = snd (vm_status_check env tid node u v (cache_get (vm_status_key u) s) (Some t) False s)"
  by (simp add: vm_status_event_cb_def pbind_steps assms snd_pbind_pret)

lemma status_inv_cached:
  assumes "status_inv s" "ss_db s u = Some x"
  shows "cache_get (vm_status_key u) s = None \<or> cache_get (vm_status_key u) s = Some (VInt (v_status x))"
proof (cases "cache_get (vm_status_key u) s")
  case (Some v)
  then have "\<exists>z. ss_db s u = Some z \<and> v = VInt (v_status z)" using assms(1) unfolding status_inv_def coherent_def by blast
  then show ?thesis using assms(2) Some by simp
qed simp

lemma event_result:
  assumes "status_inv s" "ss_db s u = Some x" "v_node x = Some n" "map_of STATUS_DICT st = Some v" "event_time w = Inr t"
    "changed_by u t s" "is_deploy_needed env (fresh_vm x) = Inr needed" "is_blank (fresh_vm x) = Inr blank"
  shows "\<exists>new over. deploy_step needed blank (v_status x) v new over
    \<and> status_result u new (Some t) over s (snd (vm_status_event_cb env tid u st w (nr_uuid n) s))"
proof -
  have "(case cache_get (vm_status_key u) s of None \<Rightarrow> Inr (v_status x) | Some c \<Rightarrow> py_int c) = Inr (v_status x)"
    using status_inv_cached [OF assms(1,2)] by (auto simp: py_int_def)
  then show ?thesis unfolding event_snd [OF assms(4,5)]
    by (rule check_result [OF assms(1,2) _ assms(3) changed_by_newer [OF assms(6)] assms(7,8)])
qed

lemma event_inv: "status_inv s \<Longrightarrow> status_inv (snd (vm_status_event_cb env tid u st w node s))"
  using triple_vm_status_event_cb [of env tid u st w node] by (simp add: triple_keeps keeps_def)

lemma events_refine:
  assumes "status_inv s" "ss_db s u = Some x" "v_node x = Some n" "changed_by u c s" "timely c es"
    "is_deploy_needed env (fresh_vm x) = Inr needed" "is_blank (fresh_vm x) = Inr blank"
  shows "\<exists>y over. ss_db (events_run env tid (nr_uuid n) u es s) u = Some y
    \<and> deploy_run needed blank (v_status x) (map reported es) (v_status y) over
    \<and> set (ss_finished s) \<union> (if over then {u @ '':deploy_finished''} else {}) \<subseteq> set (ss_finished (events_run env tid (nr_uuid n) u es s))
    \<and> status_inv (events_run env tid (nr_uuid n) u es s)"
  using assms
proof (induction es arbitrary: s x c)
  case Nil
  then show ?case by (auto intro!: exI [of _ x] exI [of _ False] deploy_run.no_report)
next
  case (Cons e es)
  obtain st w where e: "e = (st, w)" by force
  from Cons.prems(5) obtain v t where t: "map_of STATUS_DICT st = Some v" "event_time w = Inr t" "c \<le> t" "timely t es"
    by (auto simp: e split: sum.splits)
  let ?s = "snd (vm_status_event_cb env tid u st w (nr_uuid n) s)"
  have ct: "changed_by u t s" by (rule changed_by_mono [OF Cons.prems(4) t(3)])
  obtain new o1 where step: "deploy_step needed blank (v_status x) v new o1"
      "status_result u new (Some t) o1 s ?s"
    using event_result [OF Cons.prems(1-3) t(1,2) ct Cons.prems(6,7)] by blast
  obtain y where y: "ss_db ?s u = Some y" "status_row x y" "v_status y = new"
    using status_result_step [OF step(2) Cons.prems(2)] by blast
  note sr = status_row_simps [OF y(2)]
  obtain z o2 where z: "ss_db (events_run env tid (nr_uuid n) u es ?s) u = Some z"
      "deploy_run needed blank (v_status y) (map reported es) (v_status z) o2"
      "set (ss_finished ?s) \<union> (if o2 then {u @ '':deploy_finished''} else {})
         \<subseteq> set (ss_finished (events_run env tid (nr_uuid n) u es ?s))"
      "status_inv (events_run env tid (nr_uuid n) u es ?s)"
    using Cons.IH [OF event_inv [OF Cons.prems(1)] y(1) _ changed_by_result [OF step(2) ct] t(4)] Cons.prems(3,6,7) sr
    by metis
  have fin: "set (ss_finished ?s) = set (ss_finished s) \<union> (if o1 then {u @ '':deploy_finished''} else {})"
    using step(2) by (auto simp: status_result_def)
  have run: "deploy_run needed blank (v_status x) (map reported (e # es)) (v_status z) (o1 \<or> o2)"
    using deploy_run.one_report [OF step(1)] z(2) y(3) t(1) by (simp add: e reported_def)
  show ?case
    by (rule exI [of _ z], rule exI [of _ "o1 \<or> o2"]) (use z run fin in \<open>auto simp: e split: if_splits\<close>)
qed

lemma timely_known: "timely c es \<Longrightarrow> set (map reported es) \<subseteq> set STATUS_KNOWN"
  by (induction c es rule: timely.induct) (auto simp: reported_def dest: STATUS_DICT_known split: sum.splits)


section \<open>Times of events\<close>

lemma digits_bounds: "0 < n \<Longrightarrow> 10 ^ (digits n - 1) \<le> n \<and> n < 10 ^ digits n"
proof (induction n rule: digits.induct)
  case (1 n)
  show ?case
  proof (cases "n < 10")
    case True
    then show ?thesis using "1.prems" by (simp add: digits.simps [of n])
  next
    case False
    then have d: "digits n = Suc (digits (n div 10))" by (simp add: digits.simps [of n])
    have ih: "10 ^ (digits (n div 10) - 1) \<le> n div 10" "n div 10 < 10 ^ digits (n div 10)"
      using "1.IH" [OF False] False by auto
    have "digits (n div 10) \<ge> 1" by (subst digits.simps) simp
    then have "(10::nat) ^ digits (n div 10) = 10 * 10 ^ (digits (n div 10) - 1)"
      by (cases "digits (n div 10)") simp_all
    moreover have "10 * (n div 10) \<le> n" "n < 10 * Suc (n div 10)" by simp_all
    ultimately show ?thesis using ih unfolding d by simp linarith
  qed
qed

lemma digits_pos: "digits n \<ge> 1"
  by (subst digits.simps) simp

lemma event_time_pos:
  assumes "0 < w"
  shows "\<exists>t k. event_time w = Inr t \<and> 10 ^ 9 \<le> t \<and> t < 10 ^ 10 \<and> (t = w div 10 ^ k \<or> t = w * 10 ^ k)"
proof -
  let ?d = "digits (nat w)"
  have b: "10 ^ (?d - 1) \<le> nat w" "nat w < 10 ^ ?d" using digits_bounds [of "nat w"] assms by simp_all
  have w: "int (nat w) = w" using assms by simp
  have lo: "(10::int) ^ (?d - 1) \<le> w"
    using b(1) w by (metis of_nat_le_iff of_nat_numeral of_nat_power)
  have hi: "w < (10::int) ^ ?d"
    using b(2) w by (metis of_nat_less_iff of_nat_numeral of_nat_power)
  show ?thesis
  proof (cases "?d \<ge> 10")
    case True
    then obtain k where k: "?d = k + 10" by (metis add.commute le_Suc_ex)
    have t: "event_time w = Inr (w div 10 ^ k)" using assms by (simp add: event_time_def k)
    have "(10::int) ^ 9 * 10 ^ k \<le> w" using lo by (simp add: k power_add mult.commute)
    then have "((10::int) ^ 9 * 10 ^ k) div 10 ^ k \<le> w div 10 ^ k" by (rule zdiv_mono1) simp
    then have "10 ^ 9 \<le> w div 10 ^ k" by (simp only: nonzero_mult_div_cancel_right power_not_zero zero_neq_numeral [symmetric] not_False_eq_True)
    moreover have "w div 10 ^ k < 10 ^ 10"
    proof (rule ccontr)
      assume "\<not> w div 10 ^ k < 10 ^ 10"
      then have "(10::int) ^ 10 * 10 ^ k \<le> w div 10 ^ k * 10 ^ k" by (intro mult_right_mono) simp_all
      also have "\<dots> \<le> w" by (simp add: minus_mod_eq_div_mult [symmetric])
      finally show False using hi by (simp add: k power_add mult.commute)
    qed
    ultimately show ?thesis using t by blast
  next
    case False
    define k where "k = 10 - ?d"
    have t: "event_time w = Inr (w * 10 ^ k)" using assms False by (simp add: event_time_def k_def nat_diff_distrib)
    have e: "9 = (?d - 1) + k" "10 = ?d + k" using False digits_pos [of "nat w"] by (simp_all add: k_def)
    have "(10::int) ^ 9 = 10 ^ (?d - 1) * 10 ^ k" "(10::int) ^ 10 = 10 ^ ?d * 10 ^ k"
      by (subst e, simp only: power_add)+
    then have "10 ^ 9 \<le> w * 10 ^ k" "w * 10 ^ k < 10 ^ 10" using lo hi by (simp_all only: mult_right_mono mult_strict_right_mono zero_le_power zero_less_power zero_le_numeral zero_less_numeral)
    then show ?thesis using t by blast
  qed
qed

text \<open>
  C12. Whatever the unit of the time of an event is, a positive time is read as seconds: it is scaled by a power of ten,
  down (without the fraction) or up, to a number with ten digits, a date between 2001 and 2286; any other time is an error. The number of digits is counted exactly; the
  source takes a logarithm in floating point.
\<close>

theorem event_time_bounds:
  "case event_time w of
     Inr t \<Rightarrow> 0 < w \<and> 10 ^ 9 \<le> t \<and> t < 10 ^ 10 \<and> (\<exists>k. t = w div 10 ^ k \<or> t = w * 10 ^ k)
   | Inl e \<Rightarrow> w \<le> 0 \<and> e = Exn ValueError ''math domain error''"
proof (cases "0 < w")
  case True
  then show ?thesis using event_time_pos [OF True] by auto
next
  case False
  then show ?thesis by (simp add: event_time_def)
qed

section \<open>Properties of status changes\<close>

definition demo_status_env :: status_env where
  "demo_status_env = \<lparr>se_save = demo_env, se_md5 = (\<lambda>_. replicate 32 (CHR ''a'')), se_uuid = ''1'', se_image_deploy = (\<lambda>_. Inr True),
     se_refused = (\<lambda>_ _. None), se_parse_time = (\<lambda>_. Inr 5), se_load_json = (\<lambda>_. Inr []), se_raw = (\<lambda>v. v)\<rparr>"

text \<open>A VM with an image that has just been created on its node.\<close>

definition demo_created :: vm where
  "demo_created = demo_vm\<lparr>v_status := CREATING, v_orig_status := CREATING, v_vnc_port := Some 15900,
     v_node := Some \<lparr>nr_uuid = ''n'', nr_hostname = ''node'', nr_status = 2\<rparr>,
     v_json := [(''disks'', VList [VDict [(''image_uuid'', VStr ''i''), (''size'', VInt 10), (''media'', VStr ''disk'')]])]\<rparr>"

definition demo_status_state :: "vm \<Rightarrow> status_state" where
  "demo_status_state x = \<lparr>ss_db = [v_uuid x \<mapsto> x], ss_cache = [vm_status_key (v_uuid x) \<mapsto> VInt (v_status x)],
     ss_finished = [], ss_ips = [], ss_out = []\<rparr>"

lemma demo_status_inv: "v_vnc_port x \<noteq> None \<Longrightarrow> v_created x \<noteq> None \<Longrightarrow> status_inv (demo_status_state x)"
  by (auto simp: status_inv_def db_ok_def coherent_def demo_status_state_def cache_get_def)

lemma demo_created_deploy:
  "is_deploy_needed demo_status_env (fresh_vm demo_created) = Inr True" "is_blank (fresh_vm demo_created) = Inr False"
  by code_simp+



text \<open>
  C8. The events of a node complete a deployment: when a VM with an image that deploys itself is
  being created and its node reports that it runs, later that it is stopped and later that it runs
  again, whatever it reports before, in between and after, then the deployment is flagged as
  finished and the VM has the status of the last report, in the database and in the cache.
\<close>

theorem deployment_completes:
  assumes "status_inv s" "ss_db s u = Some x" "v_node x = Some n" "v_status x = CREATING"
    "is_deploy_needed env (fresh_vm x) = Inr True" "is_blank (fresh_vm x) = Inr blank"
    "changed_by u c s" "timely c es" "subseq [RUNNING, STOPPED, RUNNING] (map reported es)"
    "s' = events_run env tid (nr_uuid n) u es s"
  shows "\<exists>y. ss_db s' u = Some y \<and> v_status y = reported (last es)
    \<and> cache_get (vm_status_key u) s' \<in> {None, Some (VInt (v_status y))} \<and> (u @ '':deploy_finished'') \<in> set (ss_finished s')"
proof -
  obtain y over where y: "ss_db s' u = Some y" "deploy_run True blank CREATING (map reported es) (v_status y) over"
      "set (ss_finished s) \<union> (if over then {u @ '':deploy_finished''} else {}) \<subseteq> set (ss_finished s')" "status_inv s'"
    using events_refine [OF assms(1-3,7,8,5,6), of tid] unfolding assms(4,10) by blast
  have "v_status y = last (map reported es) \<and> over"
    by (rule deploy_run_creating [OF y(2) assms(9) timely_known [OF assms(8)]])
  moreover have "es \<noteq> []" using assms(9) by auto
  ultimately show ?thesis using y status_inv_cached [OF y(4,1)] by (auto simp: last_map)
qed

text \<open>
  The only checks that save a status without comparing the time of the report: the first report of a new VM that runs,
  and the stop in the middle of a deployment.
\<close>

definition untimed :: "bool \<Rightarrow> int \<Rightarrow> int \<Rightarrow> bool" where
  "untimed force st report \<longleftrightarrow> \<not> force \<and> (st = CREATING \<and> report = RUNNING \<or> st = DEPLOYING_START \<and> report = STOPPED)"

lemma timed_flag: "\<not> untimed force st report \<Longrightarrow> deploy_flag force st report \<in> {None, Some NoDeploy, Some DeployOver}"
  unfolding untimed_def deploy_flag_def by (cases force) auto

lemma stale_check_apply:
  assumes "newer_change u t s = Inr True" "v_uuid x = u" "flag \<in> {NoDeploy, DeployOver}"
  shows "snd (check_apply env tid (fresh_vm x) report st flag t s) = s"
proof -
  have "snd (check_finish env tid (fresh_vm x) report st over t s) = s" for over
    by (simp add: check_finish_def save_vm_status_def vm_status_changed_def pbind_def assms(1,2)) (simp add: pret_def)
  then show ?thesis using assms(3) by (auto simp: check_apply_def)
qed

lemma stale_body:
  assumes "newer_change u t s = Inr True" "ss_db s u = Some x" "v_uuid x = u" "\<not> untimed force (v_status x) report"
  shows "snd ((case deploy_flag force (v_status x) report of None \<Rightarrow> pret None
       | Some flag \<Rightarrow> pbind (pres (the_node (fresh_vm x))) (\<lambda>n. if nr_uuid n \<noteq> node then pret None
           else check_apply env tid (fresh_vm x) report (v_status x) flag t)) s) = s"
proof (cases "deploy_flag force (v_status x) report")
  case None
  then show ?thesis by (simp add: pret_def)
next
  case (Some flag)
  then have "flag \<in> {NoDeploy, DeployOver}" using timed_flag [OF assms(4)] by auto
  note a = stale_check_apply [OF assms(1,3) this, of env tid report "v_status x"]
  show ?thesis using a by (cases "the_node x") (auto simp: Some pbind_steps pret_def the_node_def split: option.splits)
qed

text \<open>
  C10. A report that is older than the last known change of the status changes nothing: no row, no flag of a deployment,
  nothing sent, and of the cache only a missing status of the VM is filled in with the status in the database. This
  holds for every status of the VM and every report, forced or not, except for the two steps of a deployment that
  \<open>_vm_status_check\<close> saves without comparing times: a new VM (CREATING) that is reported running, and a VM being deployed
  (DEPLOYING_START) that is reported stopped.
\<close>

theorem stale_report_ignored:
  assumes "status_inv s" "ss_db s u = Some x" "newer_change u t s = Inr True" "\<not> untimed force (v_status x) report"
  shows "snd (vm_status_check env tid node u report (cache_get (vm_status_key u) s) t force s)
    = (case cache_get (vm_status_key u) s of Some _ \<Rightarrow> s
       | None \<Rightarrow> s\<lparr>ss_cache := (ss_cache s)(vm_status_key u \<mapsto> VInt (v_status x))\<rparr>)"
proof -
  have u: "v_uuid x = u" using assms(1,2) by (auto simp: status_inv_def db_ok_def)
  show ?thesis
  proof (cases "cache_get (vm_status_key u) s")
    case (Some c)
    have c: "py_int c = Inr (v_status x)" using status_inv_cached [OF assms(1,2)] Some by (auto simp: py_int_def)
    have "vm_status_check env tid node u report (Some c) t force s = (if v_status x = report then pret None
       else case deploy_flag force (v_status x) report of None \<Rightarrow> pret None
         | Some flag \<Rightarrow> pbind (pres (the_node (fresh_vm x))) (\<lambda>n. if nr_uuid n \<noteq> node then pret None
             else check_apply env tid (fresh_vm x) report (v_status x) flag t)) s"
      by (simp add: assms(2) c vm_status_check_def load_vm_def pbind_def pget_def pret_def pres_def split: option.split)
    then show ?thesis using stale_body [OF assms(3,2) u assms(4)] by (simp add: Some pret_def)
  next
    case None
    let ?s = "s\<lparr>ss_cache := (ss_cache s)(vm_status_key u \<mapsto> VInt (v_status x))\<rparr>"
    have "vm_status_check env tid node u report None t force s = (if v_status x = report then pret None
       else case deploy_flag force (v_status x) report of None \<Rightarrow> pret None
         | Some flag \<Rightarrow> pbind (pres (the_node (fresh_vm x))) (\<lambda>n. if nr_uuid n \<noteq> node then pret None
             else check_apply env tid (fresh_vm x) report (v_status x) flag t)) ?s"
      by (simp add: vm_status_check_def load_vm_def cache_put_def pbind_def pget_def pmod_def pret_def assms(2) split: option.split)
    moreover have "newer_change u t ?s = newer_change u t s"
    proof -
      have "cache_get (vm_status_change_key u) ?s = cache_get (vm_status_change_key u) s" by (simp add: cache_get_def)
      then show ?thesis unfolding newer_change_def by (rule arg_cong)
    qed
    moreover have "ss_db ?s u = Some x" using assms(2) by simp
    ultimately show ?thesis using stale_body [OF _ _ u assms(4)] assms(3) by (simp add: None pret_def)
  qed
qed

text \<open>
  A stop that fails is undone: the callback of a failed command of a VM that is marked as stopping
  raises the error of the command, the VM has its last known status again, in the database and in
  the cache, and a check of its status is on its way unless the queue refused it.
\<close>

theorem failed_stop_restores_status:
  assumes "status_inv s" "ss_db s u = Some x" "v_status x = STOPPING" "v_node x = Some n"
    "cr_returncode r \<noteq> 0" "\<not> is_vm_missing (fresh_vm x) (cr_message r)" "cr_last_status r \<noteq> STOPPING"
  shows "\<exists>y s'. vm_status_cb env r tid u s = (Inl (bad_return_code r), s') \<and> ss_db s' u = Some y
    \<and> v_status y = cr_last_status r \<and> cache_get (vm_status_key u) s' = Some (VInt (cr_last_status r))
    \<and> (let q = node_fast_queue n; c = ''vmadm list -p -H -o uuid,state,exit_timestamp,boot_timestamp uuid='' @ u
       in se_refused env q c \<noteq> None
        \<or> CmdRun q c None ''api.vm.status.tasks.vm_status_all_cb'' [(''node_uuid'', VStr (nr_uuid n))] \<in> set (ss_out s'))"
proof -
  let ?c = "''vmadm list -p -H -o uuid,state,exit_timestamp,boot_timestamp uuid='' @ u"
  have cur: "current (fresh_vm x) s" "v_uuid (fresh_vm x) = u" by (rule current_fresh [OF assms(1,2)])+
  have u: "v_uuid x = u" using cur(2) by simp
  obtain z s1 where z: "st_save_status env (Some (cr_last_status r)) None (fresh_vm x) s = (Inr z, s1)"
      "v_node z = v_node x" "v_uuid z = u" "status_result u (cr_last_status r) (Some (e_now (se_save env))) False s s1"
    using save_status_result [OF cur(1), of "cr_last_status r" env None] assms(3,7) u by auto
  have "status_cb_failed env r (fresh_vm x) s = vm_status_one env z s1"
    by (simp add: status_cb_failed_def assms(3) pbind_def [of "st_save_status _ _ _ _"] z(1))
  then have cb: "vm_status_cb env r tid u s = pbind (vm_status_one env z) (\<lambda>_. pres (Inl (bad_return_code r))) s1"
    by (simp add: vm_status_cb_def get_vm_some [OF assms(2)] assms(5,6)) (simp add: pbind_def)
  have one: "vm_status_one env z s1 = (Inr (), if se_refused env (node_fast_queue n) ?c \<noteq> None then s1
      else s1\<lparr>ss_out := ss_out s1 @ [CmdRun (node_fast_queue n) ?c None ''api.vm.status.tasks.vm_status_all_cb'' [(''node_uuid'', VStr (nr_uuid n))]]\<rparr>)"
    by (simp add: vm_status_one_def the_node_def z(2,3) assms(4) pbind_steps execute_cmd_def out_def prog_defs split: option.split)
  let ?s' = "snd (vm_status_one env z s1)"
  have r: "status_result u (cr_last_status r) (Some (e_now (se_save env))) False s ?s'" using z(4) by (simp add: one)
  obtain y where y: "ss_db ?s' u = Some y" "v_status y = cr_last_status r" using status_result_step [OF r assms(2)] by blast
  have c: "cache_get (vm_status_key u) ?s' = Some (VInt (cr_last_status r))"
    using r assms(2,3,7) by (auto simp: status_result_def)
  have "vm_status_cb env r tid u s = (Inl (bad_return_code r), ?s')" by (simp add: cb pbind_def one pres_def)
  moreover have "se_refused env (node_fast_queue n) ?c \<noteq> None \<or> CmdRun (node_fast_queue n) ?c None
      ''api.vm.status.tasks.vm_status_all_cb'' [(''node_uuid'', VStr (nr_uuid n))] \<in> set (ss_out ?s')" by (simp add: one)
  ultimately show ?thesis using y c unfolding Let_def by blast
qed


theorem failed_stop_restores_status_witness:
  "\<exists>y. ss_db (snd (vm_status_cb demo_status_env \<lparr>cr_returncode = 1, cr_stdout = [], cr_message = ''timeout'', cr_exec_time = None,
      cr_finish_time = None, cr_last_status = RUNNING, cr_update = False, cr_freeze = False\<rparr> ''t'' ''u''
      (demo_status_state (demo_created\<lparr>v_status := STOPPING\<rparr>)))) ''u'' = Some y \<and> v_status y = RUNNING"
proof -
  let ?x = "demo_created\<lparr>v_status := STOPPING\<rparr>"
  let ?s = "demo_status_state ?x"
  let ?r = "\<lparr>cr_returncode = 1, cr_stdout = [], cr_message = ''timeout'', cr_exec_time = None,
      cr_finish_time = None, cr_last_status = RUNNING, cr_update = False, cr_freeze = False\<rparr>"
  have i: "status_inv ?s" by (rule demo_status_inv) (simp_all add: demo_created_def demo_vm_def)
  have x: "ss_db ?s ''u'' = Some ?x" "v_status ?x = STOPPING" "v_node ?x = Some \<lparr>nr_uuid = ''n'', nr_hostname = ''node'', nr_status = 2\<rparr>"
    by (simp_all add: demo_status_state_def demo_created_def demo_vm_def)
  have m: "\<not> is_vm_missing (fresh_vm ?x) (cr_message ?r)" by code_simp
  have r: "cr_returncode ?r \<noteq> 0" "cr_last_status ?r \<noteq> STOPPING" "cr_last_status ?r = RUNNING" by (simp_all add: status_codes)
  from failed_stop_restores_status [OF i x r(1) m r(2), of demo_status_env "''t''"] show ?thesis unfolding r(3) by auto
qed

theorem stale_report_ignored_witness:
  "\<exists>s. newer_change ''u'' (Some 50) s = Inr True \<and> ss_db s ''u'' \<noteq> None
     \<and> snd (vm_status_check demo_status_env ''t'' ''n'' ''u'' STOPPED (Some (VInt RUNNING)) (Some 50) False s) = s"
proof -
  let ?x = "demo_created\<lparr>v_status := RUNNING\<rparr>"
  let ?s = "(demo_status_state ?x)\<lparr>ss_cache := [vm_status_key ''u'' \<mapsto> VInt RUNNING, vm_status_change_key ''u'' \<mapsto> VInt 100]\<rparr>"
  have i: "status_inv ?s"
    by (auto simp: status_inv_def db_ok_def coherent_def demo_status_state_def cache_get_def demo_created_def demo_vm_def)
  have x: "ss_db ?s ''u'' = Some ?x" "newer_change ''u'' (Some 50) ?s = Inr True" "\<not> untimed False (v_status ?x) STOPPED"
      "cache_get (vm_status_key ''u'') ?s = Some (VInt RUNNING)"
    by (simp_all add: demo_status_state_def demo_created_def demo_vm_def cache_get_def newer_change_def untimed_def status_codes)
  from stale_report_ignored [OF i x(1-3), of demo_status_env "''t''" "''n''"] x(1,2)
  show ?thesis unfolding x(4) option.case by (metis option.distinct(1))
qed

lemma event_time_ten: "1000000000 \<le> w \<Longrightarrow> w < 10000000000 \<Longrightarrow> event_time w = Inr w"
proof -
  assume a: "1000000000 \<le> w" "w < 10000000000"
  have n: "0 < nat w" "(10::nat) ^ 9 \<le> nat w" "nat w < 10 ^ 10" using a by simp_all
  note b = digits_bounds [OF n(1)]
  have "(10::nat) ^ (digits (nat w) - 1) < 10 ^ 10" using b(1) n(3) by (meson le_less_trans)
  then have "digits (nat w) - 1 < 10" by (rule power_less_imp_less_exp [rotated]) simp
  moreover have "(10::nat) ^ 9 < 10 ^ digits (nat w)" using b n(2) by (meson le_less_trans)
  then have "9 < digits (nat w)" by (rule power_less_imp_less_exp [rotated]) simp
  ultimately have "digits (nat w) = 10" by simp
  then show ?thesis using a by (simp add: event_time_def)
qed

definition demo_events :: "(string \<times> int) list" where
  "demo_events = [(''running'', 1500000000), (''running'', 1500000010), (''stopped'', 1500000100), (''running'', 1500000200)]"

theorem deployment_completes_witness:
  "\<exists>y. ss_db (events_run demo_status_env ''t'' ''n'' ''u'' demo_events (demo_status_state demo_created)) ''u'' = Some y
    \<and> v_status y = RUNNING
    \<and> ''u:deploy_finished'' \<in> set (ss_finished (events_run demo_status_env ''t'' ''n'' ''u'' demo_events (demo_status_state demo_created)))"
proof -
  let ?s = "demo_status_state demo_created"
  have i: "status_inv ?s" by (rule demo_status_inv) (simp_all add: demo_created_def demo_vm_def)
  have x: "ss_db ?s ''u'' = Some demo_created" "v_node demo_created = Some \<lparr>nr_uuid = ''n'', nr_hostname = ''node'', nr_status = 2\<rparr>"
    "v_status demo_created = CREATING"
    by (simp_all add: demo_status_state_def demo_created_def demo_vm_def)
  have c: "changed_by ''u'' 0 ?s" by (simp add: changed_by_def demo_status_state_def cache_get_def)
  have t: "timely 0 demo_events" by (simp add: demo_events_def event_time_ten STATUS_DICT_def)
  have r: "map reported demo_events = [RUNNING, RUNNING, STOPPED, RUNNING]" "reported (last demo_events) = RUNNING"
    by (simp_all add: demo_events_def reported_def STATUS_DICT_def)
  have "subseq [RUNNING, STOPPED, RUNNING] (map reported demo_events)" unfolding r by (simp add: status_codes)
  from deployment_completes [OF i x demo_created_deploy c t this refl, of "''t''"] show ?thesis unfolding r by auto
qed


end
