(* ===== verification/Vm_Status_Api.thy ===== *)
theory Vm_Status_Api
  imports Vm_Lifecycle Vm_Commands
begin

text \<open>
  The API for the status of VMs, \<^verbatim>\<open>api/vm/status/vm_status.py\<close> with the serializers of its
  requests: starting, stopping, rebooting, freezing and querying a VM. A request works on the row it
  has read, submits a command and marks a VM that is going to stop. What holds for the operations of
  the status together is proved at the end.
\<close>

section \<open>Requests\<close>

text \<open>
  The data of a request: a field that is missing is \<open>None\<close>, one that its serializer rejects
  \<open>Some (Inl e)\<close>. The images are those found for \<open>cdimage\<close> and \<open>cdimage2\<close>.
\<close>

record status_request =
  rq_admin :: bool
  rq_action :: string
  rq_freeze :: bool
  rq_unfreeze :: bool
  rq_update :: "bool option"
  rq_force :: bool
  rq_timeout :: "int res option"
  rq_cdimage :: "string res option"
  rq_cdimage2 :: "string res option"
  rq_cdimage_once :: "bool option"

text \<open>The settings of the datacenter and what is looked up about a VM.\<close>

record api_env =
  ae_status :: status_env
  ae_cmd :: cmd_env
  ae_dump :: "pydict \<Rightarrow> string"
  ae_visible :: "vm \<Rightarrow> bool"
  ae_tasks :: "string \<Rightarrow> bool"
  ae_snapshots :: "string \<Rightarrow> bool"
  ae_no_shutdown :: "string list"
  ae_rescue_cd :: string
  ae_stop_timeout :: int
  ae_stop_timeout_win :: int

datatype api_response =
    FailureResponse string
  | SuccessResponse string
  | TaskStarted string

definition actions :: "string list" where "actions = [''start'', ''stop'', ''reboot'', ''current'']"
definition statuses :: "int list" where "statuses = [RUNNING, STOPPED, STOPPING, FROZEN]"
definition statuses_force_change_allowed :: "int list" where
  "statuses_force_change_allowed = [RUNNING, STOPPED, STOPPING, ERROR]"
definition stuck_statuses_force_change_allowed :: "int list" where
  "stuck_statuses_force_change_allowed = [CREATING, DEPLOYING_START, DEPLOYING_FINISH, DEPLOYING_DUMMY,
     NOTREADY, NOTREADY_STOPPED, NOTREADY_RUNNING, NOTREADY_FROZEN, NOTREADY_NOTCREATED]"

definition api_error :: "exc_class \<Rightarrow> string \<Rightarrow> 'a sprog" where
  "api_error c msg = pres (Inl (Exn c msg))"

text \<open>\<open>get_vm\<close>: one VM of the datacenter that the user may see, on a node that works.\<close>

definition api_get_vm :: "api_env \<Rightarrow> string \<Rightarrow> vm sprog" where
  "api_get_vm env uuid = pbind (load_vm uuid) (\<lambda>r. case r of
      None \<Rightarrow> api_error ObjectDoesNotExist uuid
    | Some x \<Rightarrow> if \<not> ae_visible env x \<or> is_slave_vm x then api_error ObjectDoesNotExist uuid
        else (case v_node x of
            Some n \<Rightarrow> if nr_status n = Node_ONLINE then pret x else api_error NodeIsNotOperational []
          | None \<Rightarrow> pret x))"

definition api_execute ::
  "status_env \<Rightarrow> string \<Rightarrow> string \<Rightarrow> string \<Rightarrow> string \<Rightarrow> pydict \<Rightarrow> pydict \<Rightarrow> string option sprog" where
  "api_execute env queue cmd lock callback args meta =
     pbind (execute_cmd env queue cmd (Some lock) callback args) (\<lambda>err. case err of
         Some e \<Rightarrow> pret (Some e)
       | None \<Rightarrow> pbind (out [CmdMeta meta]) (\<lambda>_. pret None))"

text \<open>\<open>save_info\<close> with its save, which writes the whole row.\<close>

definition full_save :: save_args where
  "full_save = \<lparr>sv_sync_json = False, sv_update_hostname = False, sv_update_node = False, sv_storages = Some [],
     sv_keep_vnc_port = False, sv_fields = None, sv_change_time = None\<rparr>"

definition set_last_cdimage :: "status_env \<Rightarrow> pyval \<Rightarrow> vm \<Rightarrow> vm sprog" where
  "set_last_cdimage env v x = st_save env full_save (save_info ''last_cdimage'' v x)"

section \<open>The current status\<close>

definition status_meta :: "vm \<Rightarrow> string \<Rightarrow> pydict \<Rightarrow> pydict" where
  "status_meta x msg apiview = [(''msg'', VStr msg), (''vm_uuid'', VStr (v_uuid x)), (''apiview'', VDict apiview),
     (''last_status'', VInt (v_status x))]"

definition get_current_status :: "api_env \<Rightarrow> vm \<Rightarrow> pydict \<Rightarrow> bool \<Rightarrow> api_response sprog" where
  "get_current_status env x apiview force_change =
     pbind (pres (the_node x)) (\<lambda>n.
     if nr_status n \<noteq> Node_ONLINE then api_error NodeIsNotOperational [] else
     pbind (api_execute (ae_status env) (node_fast_queue n) (''vmadm list -p -H -o state uuid='' @ v_uuid x)
         (''vm_status_current vm:'' @ v_uuid x) ''api.vm.status.tasks.vm_status_current_cb''
         [(''vm_uuid'', VStr (v_uuid x)), (''force_change'', VBool force_change)]
         (status_meta x ''Current status of server'' apiview)) (\<lambda>err. case err of
       Some e \<Rightarrow> pret (FailureResponse e)
     | None \<Rightarrow> pret (TaskStarted [])))"

definition status_apiview :: "string \<Rightarrow> string \<Rightarrow> vm \<Rightarrow> pydict" where
  "status_apiview method action x = [(''view'', VStr ''vm_status''), (''method'', VStr method), (''action'', VStr action),
     (''hostname'', VStr (v_hostname x))]"

definition status_get :: "api_env \<Rightarrow> string \<Rightarrow> string \<Rightarrow> api_response sprog" where
  "status_get env action uuid = pbind (load_vm uuid) (\<lambda>r. case r of
      None \<Rightarrow> api_error ObjectDoesNotExist uuid
    | Some x \<Rightarrow>
        if \<not> ae_visible env x \<or> is_slave_vm x then api_error ObjectDoesNotExist uuid
        else if action = ''current''
        then (if v_status x \<notin> {RUNNING, STOPPED, STOPPING, ERROR} then api_error VmIsNotOperational []
              else get_current_status env x (status_apiview ''GET'' action x) False)
        else pret (SuccessResponse (get_status_display x)))"

section \<open>Changing the status\<close>

text \<open>The four kinds of requests that \<open>put\<close> tells apart.\<close>

datatype put_branch = ChangeStatus | FreezeStopped | UnfreezeVm | CheckCurrent

definition put_kind :: "string \<Rightarrow> int \<Rightarrow> bool \<Rightarrow> bool \<Rightarrow> put_branch option" where
  "put_kind action status freeze unfreeze =
     (if (action = ''start'' \<and> status = STOPPED \<and> \<not> freeze) \<or> (action = ''reboot'' \<and> status = RUNNING \<and> \<not> freeze)
        \<or> (action = ''stop'' \<and> status \<in> {STOPPING, RUNNING}) then Some ChangeStatus
      else if action = ''stop'' \<and> status = STOPPED \<and> freeze then Some FreezeStopped
      else if action = ''stop'' \<and> status = FROZEN \<and> unfreeze then Some UnfreezeVm
      else if action = ''current'' then Some CheckCurrent
      else None)"

definition put_freeze :: "api_env \<Rightarrow> status_request \<Rightarrow> string \<Rightarrow> vm \<Rightarrow> int \<Rightarrow> string \<Rightarrow> api_response sprog" where
  "put_freeze env rq tid x status msg =
     (if \<not> rq_admin rq then api_error PermissionDenied []
      else pbind (vm_status_changed (ae_status env) tid x status None True False None) (\<lambda>_. pret (SuccessResponse msg)))"

definition put_current :: "api_env \<Rightarrow> status_request \<Rightarrow> vm \<Rightarrow> api_response sprog" where
  "put_current env rq x =
     (let apiview = status_apiview ''PUT'' (rq_action rq) x @ [(''freeze'', VBool (rq_freeze rq)), (''unfreeze'', VBool (rq_unfreeze rq))] in
      if \<not> rq_admin rq then api_error PermissionDenied []
      else if v_status x \<in> set statuses_force_change_allowed then get_current_status env x apiview True
      else if v_status x \<in> set stuck_statuses_force_change_allowed
      then (if ae_tasks env (v_uuid x) then api_error VmHasPendingTasks [] else get_current_status env x apiview True)
      else api_error VmIsNotOperational [])"

text \<open>
  A command that is ready to be submitted: the VM as it was saved meanwhile, the command, its input,
  the message of the log, the suffix of the lock and whether the VM is going to stop.
\<close>

record put_command =
  pc_vm :: vm
  pc_cmd :: string
  pc_stdin :: "string option"
  pc_msg :: string
  pc_lock :: string
  pc_stopping :: bool

definition is_installed :: "vm \<Rightarrow> bool res" where
  "is_installed x = rbind (is_blank x) (\<lambda>blank. if \<not> blank then Inr True
     else if is_hvm x then rbind (installed x) (\<lambda>v. Inr (truthy v)) else Inr True)"

definition iso_field :: "string res option \<Rightarrow> string option res" where
  "iso_field f = (case f of None \<Rightarrow> Inr None | Some (Inl e) \<Rightarrow> Inl e | Some (Inr n) \<Rightarrow> Inr (Some n))"

text \<open>A start; \<open>Inl\<close> of the result is the error message of a serializer.\<close>

definition put_start :: "api_env \<Rightarrow> status_request \<Rightarrow> bool \<Rightarrow> vm \<Rightarrow> (string + put_command) sprog" where
  "put_start env rq update x =
     (case rbind (iso_field (rq_cdimage rq)) (\<lambda>i. rbind (iso_field (rq_cdimage2 rq)) (\<lambda>j. Inr (i, j))) of
        Inl e \<Rightarrow> pret (Inl (exn_msg e))
      | Inr (img, img2) \<Rightarrow>
        pbind (case img of None \<Rightarrow> pret () | Some i \<Rightarrow>
            pbind (pres (if rq_admin rq then Inr False else is_installed x)) (\<lambda>inst.
            if inst \<and> i \<noteq> ae_rescue_cd env then api_error PreconditionRequired ''VM is not installed'' else pret ())) (\<lambda>_.
        (case start_cmd (ae_cmd env) x img img2 (case rq_cdimage_once rq of None \<Rightarrow> True | Some b \<Rightarrow> b) of (cmd, cdrom) \<Rightarrow>
        pbind (case cdrom of None \<Rightarrow> pret x | Some v \<Rightarrow> set_last_cdimage (ae_status env) v x) (\<lambda>y.
        if update then
          (if ae_tasks env (v_uuid y) then api_error VmHasPendingTasks []
           else pbind (pres (add_update_cmd (ae_cmd env) (ae_dump env) (ae_snapshots env (v_uuid y)) y cmd False [])) (\<lambda>(cmd', stdin).
             pret (Inr \<lparr>pc_vm = y, pc_cmd = cmd', pc_stdin = Some stdin,
               pc_msg = (if img = None then ''Update and start server'' else ''Update and start server from CD image''),
               pc_lock = [], pc_stopping = False\<rparr>)))
        else pret (Inr \<lparr>pc_vm = y, pc_cmd = cmd, pc_stdin = None,
               pc_msg = (if img = None then ''Start server'' else ''Start server from CD image''), pc_lock = [], pc_stopping = False\<rparr>)))))"

definition stop_timeout :: "api_env \<Rightarrow> status_request \<Rightarrow> vm \<Rightarrow> int option res" where
  "stop_timeout env rq x =
     (if \<not> is_hvm x then Inr None
      else (case rq_timeout rq of
          None \<Rightarrow> Inr (Some (if v_ostype x = WINDOWS then ae_stop_timeout_win env else ae_stop_timeout env))
        | Some (Inl e) \<Rightarrow> Inl e
        | Some (Inr t) \<Rightarrow> Inr (Some t)))"

definition stop_msg :: "string \<Rightarrow> bool \<Rightarrow> bool \<Rightarrow> string" where
  "stop_msg action force update = (if action = ''reboot''
     then (if update then (if force then ''Update and force server reboot'' else ''Update and reboot server'')
           else (if force then ''Force server reboot'' else ''Reboot server''))
     else (if update then (if force then ''Update and force server stop'' else ''Update and stop server'')
           else (if force then ''Force server stop'' else ''Stop server'')))"

definition put_stop :: "api_env \<Rightarrow> status_request \<Rightarrow> bool \<Rightarrow> vm \<Rightarrow> (string + put_command) sprog" where
  "put_stop env rq update x = (case stop_timeout env rq x of
      Inl e \<Rightarrow> pret (Inl (exn_msg e))
    | Inr timeout \<Rightarrow>
        (let force = rq_force rq; action = rq_action rq in
         pbind (if update then
             (if ae_tasks env (v_uuid x) then api_error VmHasPendingTasks []
              else pbind (pres (add_update_cmd (ae_cmd env) (ae_dump env) (ae_snapshots env (v_uuid x)) x
                  (if action = ''reboot'' then action_cmd ''start'' (v_uuid x) False None else [])
                  True (action_cmd ''stop'' (v_uuid x) force timeout))) (\<lambda>(cmd, stdin). pret (cmd, Some stdin)))
           else pret (action_cmd action (v_uuid x) force timeout, None)) (\<lambda>(cmd, stdin).
         if v_status x = STOPPING \<and> update then api_error PreconditionRequired ''Cannot perform update while VM is stopping''
         else if v_status x = STOPPING \<and> \<not> force then api_error VmIsNotOperational ''VM is already stopping; try to use force''
         else pret (Inr \<lparr>pc_vm = x, pc_cmd = cmd, pc_stdin = stdin, pc_msg = stop_msg action force update,
                pc_lock = (if \<not> update \<and> force \<and> action \<noteq> ''reboot'' then '' force'' else []),
                pc_stopping = (v_status x \<noteq> STOPPING)\<rparr>))))"

definition put_submit :: "api_env \<Rightarrow> pydict \<Rightarrow> put_command \<Rightarrow> api_response sprog" where
  "put_submit env apiview c =
     pbind (pres (the_node (pc_vm c))) (\<lambda>n.
     pbind (api_execute (ae_status env) (node_fast_queue n) (pc_cmd c)
         (''vm_status vm:'' @ v_uuid (pc_vm c) @ pc_lock c) ''api.vm.status.tasks.vm_status_cb''
         [(''vm_uuid'', VStr (v_uuid (pc_vm c)))]
         (status_meta (pc_vm c) (pc_msg c) apiview
            @ (case pc_stdin c of Some i \<Rightarrow> [(''stdin'', VStr i)] | None \<Rightarrow> []))) (\<lambda>err. case err of
       Some e \<Rightarrow> pret (FailureResponse e)
     | None \<Rightarrow>
         pbind (if pc_stopping c then st_save_status (ae_status env) (Some STOPPING) None (pc_vm c) else pret (pc_vm c)) (\<lambda>_.
           pret (TaskStarted (pc_msg c)))))"

definition put_change :: "api_env \<Rightarrow> status_request \<Rightarrow> vm \<Rightarrow> api_response sprog" where
  "put_change env rq x =
     (let action = rq_action rq;
          wanted = (case rq_update rq of None \<Rightarrow> action \<in> {''start'', ''reboot''} | Some b \<Rightarrow> b);
          update = json_changed x \<and> wanted;
          apiview = status_apiview ''PUT'' action x @ [(''freeze'', VBool (rq_freeze rq)), (''unfreeze'', VBool (rq_unfreeze rq)),
            (''update'', VBool update)] @ (if action = ''start'' then [] else (''force'', VBool (rq_force rq)) #
              (case stop_timeout env rq x of Inr (Some t) \<Rightarrow> if \<not> rq_force rq \<and> t \<noteq> 0 then [(''timeout'', VInt t)] else [] | _ \<Rightarrow> [])) in
      if action \<in> {''stop'', ''reboot''} \<and> v_uuid x \<in> set (ae_no_shutdown env)
      then api_error PreconditionRequired ''Internal VM can't be stopped''
      else pbind (if action = ''start'' then put_start env rq update x else put_stop env rq update x) (\<lambda>r. case r of
          Inl e \<Rightarrow> pret (FailureResponse e)
        | Inr c \<Rightarrow> put_submit env apiview c))"

definition status_put :: "api_env \<Rightarrow> status_request \<Rightarrow> string \<Rightarrow> string \<Rightarrow> api_response sprog" where
  "status_put env rq tid uuid = pbind (api_get_vm env uuid) (\<lambda>x.
     if v_status x \<notin> set statuses \<and> rq_action rq \<noteq> ''current'' then api_error VmIsNotOperational []
     else if rq_action rq \<notin> set actions then api_error ExpectationFailed ''Bad action''
     else (case put_kind (rq_action rq) (v_status x) (rq_freeze rq) (rq_unfreeze rq) of
         None \<Rightarrow> api_error ExpectationFailed ''Bad action''
       | Some FreezeStopped \<Rightarrow> put_freeze env rq tid x FROZEN
           (''VM '' @ v_hostname x @ '' is already stopped. Changing status to frozen.'')
       | Some UnfreezeVm \<Rightarrow> put_freeze env rq tid x STOPPED (''Removing frozen status for VM '' @ v_hostname x @ ''.'')
       | Some CheckCurrent \<Rightarrow> put_current env rq x
       | Some ChangeStatus \<Rightarrow> put_change env rq x))"


section \<open>Requests keep the cache right\<close>

lemma vm_save_full:
  assumes "plain_vm x" "v_status x = v_orig_status x"
  shows "vm_save env full_save x = Inr (x, [DbSave None])"
proof -
  obtain q where p: "\<not> v_node_changed x" "v_vnc_port x = Some q" using assms(1) by (auto simp: plain_vm_def)
  have u: "x\<lparr>v_update_changed := False\<rparr> = x"
    by (rule no_update_changed) (use assms(1) in \<open>simp add: plain_vm_def\<close>)
  have s: "StatusModel_save (e_now env) None None x = Inr (x, [DbSave None])"
    using assms(2) by (simp add: StatusModel_save_plain [OF assms(1)])
  show ?thesis
    using p by (simp add: vm_save_def save_node_part_def save_port_part_def save_json_part_def s full_save_def u
      node_effects_def save_finish_def save_hostname_def)
qed

lemma save_info_simps [simp]:
  "v_uuid (save_info k v x) = v_uuid x" "v_status (save_info k v x) = v_status x" "v_orig_status (save_info k v x) = v_orig_status x"
  "plain_vm (save_info k v x) = plain_vm x" "v_vnc_port (save_info k v x) = v_vnc_port x" "v_created (save_info k v x) = v_created x"
  "v_node (save_info k v x) = v_node x"
  by (simp_all add: save_info_def plain_vm_def)

lemma set_last_cdimage_current:
  assumes "current x s"
  shows "set_last_cdimage env v x s = (Inr (save_info ''last_cdimage'' v x), s\<lparr>ss_db := (ss_db s)(v_uuid x \<mapsto> save_info ''last_cdimage'' v x)\<rparr>)"
    "current (save_info ''last_cdimage'' v x) (s\<lparr>ss_db := (ss_db s)(v_uuid x \<mapsto> save_info ''last_cdimage'' v x)\<rparr>)"
proof -
  let ?y = "save_info ''last_cdimage'' v x"
  have p: "plain_vm ?y" "v_status ?y = v_orig_status ?y" using assms by (simp_all add: current_def)
  show "set_last_cdimage env v x s = (Inr ?y, s\<lparr>ss_db := (ss_db s)(v_uuid x \<mapsto> ?y)\<rparr>)"
    by (simp add: set_last_cdimage_def st_save_def vm_save_full [OF p]) (simp add: full_save_def run_effect_def)
  obtain row where row: "ss_db s (v_uuid x) = Some row" "v_status row = v_status x" using assms by (auto simp: current_def)
  have db: "db_ok s" and co: "coherent s" using assms by (simp_all add: current_def status_inv_def)
  have "db_ok (s\<lparr>ss_db := (ss_db s)(v_uuid x \<mapsto> ?y)\<rparr>)" using db assms by (auto simp: db_ok_def current_def plain_vm_def)
  moreover have "\<exists>z. ((ss_db s)(v_uuid x \<mapsto> ?y)) w = Some z \<and> c = VInt (v_status z)" if k: "cache_get (vm_status_key w) s = Some c" for w c
  proof -
    obtain z where "ss_db s w = Some z" "c = VInt (v_status z)" using co k by (auto simp: coherent_def)
    then show ?thesis using row by (cases "w = v_uuid x") auto
  qed
  ultimately show "current ?y (s\<lparr>ss_db := (ss_db s)(v_uuid x \<mapsto> ?y)\<rparr>)"
    using assms by (simp add: current_def status_inv_def coherent_def)
qed

lemma triple_set_last_cdimage:
  "triple (current x) (set_last_cdimage env v x) (\<lambda>y s. current y s) status_inv"
proof (rule tripleI)
  fix s e t assume "current x s" "set_last_cdimage env v x s = (Inl e, t)"
  then show "status_inv t" by (simp add: set_last_cdimage_current(1))
next
  fix s y t assume c: "current x s" and e: "set_last_cdimage env v x s = (Inr y, t)"
  have "y = save_info ''last_cdimage'' v x" "t = s\<lparr>ss_db := (ss_db s)(v_uuid x \<mapsto> save_info ''last_cdimage'' v x)\<rparr>"
    using e unfolding set_last_cdimage_current(1) [OF c] by (metis Pair_inject sum.inject(2))+
  then show "current y t" using set_last_cdimage_current(2) [OF c] by simp
qed

lemma triple_api_error: "(\<And>s. P s \<Longrightarrow> E s) \<Longrightarrow> triple P (api_error c m) Q E"
  unfolding api_error_def by (rule triple_pres) auto

lemma triple_api_get_vm: "triple status_inv (api_get_vm env u) (\<lambda>x s. current x s \<and> v_uuid x = u) status_inv"
  unfolding api_get_vm_def
  by (rule triple_pbind [OF triple_load_vm]) (auto intro!: triple_option triple_api_error triple_if triple_pret)

lemma triple_api_execute:
  assumes "\<And>s es. P s \<Longrightarrow> P (s\<lparr>ss_out := es\<rparr>)"
  shows "triple P (api_execute env q c l cb args m) (\<lambda>_. P) E"
proof -
  have ex: "triple P (execute_cmd env q c (Some l) cb args) (\<lambda>_. P) E" by (rule triple_execute_cmd) (rule assms)
  have out: "triple P (pbind (out es) (\<lambda>_. pret z)) (\<lambda>_. P) E" for es and z :: "string option"
    by (rule triple_pbind [OF triple_out triple_pret]) (rule assms)
  show ?thesis unfolding api_execute_def
    by (rule triple_pbind [OF ex]) (auto intro!: triple_option triple_pret out)
qed

lemma triple_get_current_status:
  "triple status_inv (get_current_status env x a f) (\<lambda>_. status_inv) status_inv"
  unfolding get_current_status_def
  by (auto intro!: triple_pbind [OF triple_inv_pres] triple_if triple_api_error triple_pbind [OF triple_api_execute] triple_option triple_pret)

lemma triple_current_pres: "triple (current x) (pres q) (\<lambda>_. current x) status_inv"
  by (rule triple_pres) (auto dest: current_inv)

lemma triple_put_start:
  "triple (current x) (put_start env rq up x) (\<lambda>r s. case r of Inl e \<Rightarrow> status_inv s | Inr c \<Rightarrow> current (pc_vm c) s) status_inv"
proof -
  have cd: "triple (current x) (case q of None \<Rightarrow> pret x | Some v \<Rightarrow> set_last_cdimage e v x) (\<lambda>y. current y) status_inv" for q e
    by (auto intro!: triple_option triple_pret triple_set_last_cdimage)
  have chk: "triple (current x) (case img of None \<Rightarrow> pret () | Some i \<Rightarrow> pbind (pres q) (\<lambda>inst.
      if f inst i then api_error c m else pret ())) (\<lambda>_. current x) status_inv" for img q c m and f :: "bool \<Rightarrow> 'b \<Rightarrow> bool"
    by (auto intro!: triple_option triple_pret triple_pbind [OF triple_current_pres] triple_if triple_api_error dest: current_inv)
  let ?Q = "\<lambda>r s. case r of Inl e \<Rightarrow> status_inv s | Inr c \<Rightarrow> current (pc_vm c) s"
  have fin: "triple (current y) (if up then (if tk then api_error VmHasPendingTasks []
           else pbind (pres q) (\<lambda>(cmd', stdin). pret (Inr \<lparr>pc_vm = y, pc_cmd = cmd', pc_stdin = Some stdin, pc_msg = m1, pc_lock = [], pc_stopping = False\<rparr>)))
        else pret (Inr \<lparr>pc_vm = y, pc_cmd = cmd, pc_stdin = None, pc_msg = m2, pc_lock = [], pc_stopping = False\<rparr>)) ?Q status_inv"
    for y up tk q m1 m2 cmd
    by (auto intro!: triple_if triple_api_error triple_pbind [OF triple_current_pres] triple_pret dest: current_inv)
  show ?thesis
  proof (cases "rbind (iso_field (rq_cdimage rq)) (\<lambda>i. rbind (iso_field (rq_cdimage2 rq)) (\<lambda>j. Inr (i, j)))")
    case (Inl e)
    then show ?thesis by (auto simp: put_start_def intro!: triple_pret dest: current_inv)
  next
    case (Inr p)
    obtain img img2 where p: "p = (img, img2)" by force
    obtain cmd cdrom where c: "start_cmd (ae_cmd env) x img img2 (case rq_cdimage_once rq of None \<Rightarrow> True | Some b \<Rightarrow> b) = (cmd, cdrom)"
      by force
    show ?thesis unfolding put_start_def Inr p sum.case prod.case c
      by (rule triple_pbind [OF chk], rule triple_pbind [OF cd], rule fin)
  qed
qed

lemma triple_put_stop:
  "triple (current x) (put_stop env rq up x) (\<lambda>r s. case r of Inl e \<Rightarrow> status_inv s | Inr c \<Rightarrow> current (pc_vm c) s) status_inv"
  unfolding put_stop_def Let_def
  by (auto intro!: triple_pret triple_pbind [where R = "\<lambda>_. current x"] triple_if triple_api_error triple_pbind [OF triple_current_pres]
      dest: current_inv split: sum.split prod.split)

lemma triple_put_submit: "triple (current (pc_vm c)) (put_submit env a c) (\<lambda>_. status_inv) status_inv"
proof -
  have mark: "triple (current (pc_vm c)) (if b then st_save_status e v ct (pc_vm c) else pret (pc_vm c)) (\<lambda>_. status_inv) status_inv" for b e v ct
    by (auto intro!: triple_conseq [OF triple_st_save_status] triple_pret dest: current_inv)
  have fin: "triple (current (pc_vm c)) (case err of Some e \<Rightarrow> pret (FailureResponse e) | None \<Rightarrow>
         pbind (if b then st_save_status e v ct (pc_vm c) else pret (pc_vm c)) (\<lambda>_. pret z)) (\<lambda>_. status_inv) status_inv" for err b e v ct z
    by (rule triple_option, rule triple_pbind [OF mark], rule triple_pret, assumption, rule triple_pret, erule current_inv)
  have ex: "triple (current (pc_vm c)) (api_execute e q m l cb args mt) (\<lambda>_. current (pc_vm c)) status_inv" for e q m l cb args mt
    by (rule triple_api_execute) simp
  show ?thesis unfolding put_submit_def
    by (rule triple_pbind [OF triple_current_pres], rule triple_pbind [OF ex], rule fin)
qed

lemma triple_put_change: "triple (current x) (put_change env rq x) (\<lambda>_. status_inv) status_inv"
proof -
  have r: "triple (\<lambda>s. case r of Inl e \<Rightarrow> status_inv s | Inr c \<Rightarrow> current (pc_vm c) s)
      (case r of Inl e \<Rightarrow> pret (FailureResponse e) | Inr c \<Rightarrow> put_submit env a c) (\<lambda>_. status_inv) status_inv" for r a
    by (cases r) (auto intro!: triple_pret triple_put_submit)
  show ?thesis unfolding put_change_def Let_def
    by (auto intro!: triple_if triple_api_error triple_pbind [OF triple_put_start r] triple_pbind [OF triple_put_stop r] dest: current_inv)
qed

lemma triple_status_put: "triple status_inv (status_put env rq tid u) (\<lambda>_. status_inv) status_inv"
proof -
  have fr: "triple (current x) (put_freeze env rq tid x st m) (\<lambda>_. status_inv) status_inv" for x st m
    unfolding put_freeze_def
    by (auto intro!: triple_if triple_api_error triple_pbind [OF triple_vm_status_changed] triple_pret dest: current_inv)
  have cu: "triple (current x) (put_current env rq x) (\<lambda>_. status_inv) status_inv" for x
    unfolding put_current_def Let_def
    by (auto intro!: triple_if triple_api_error triple_pre [OF triple_get_current_status] dest: current_inv)
  have body: "triple (current x) (if P then api_error c1 m1 else if Q then api_error c2 m2 else (case k of None \<Rightarrow> api_error c2 m2
      | Some FreezeStopped \<Rightarrow> put_freeze env rq tid x FROZEN m3 | Some UnfreezeVm \<Rightarrow> put_freeze env rq tid x STOPPED m4
      | Some CheckCurrent \<Rightarrow> put_current env rq x | Some ChangeStatus \<Rightarrow> put_change env rq x)) (\<lambda>_. status_inv) status_inv"
    for P Q x c1 m1 c2 m2 k m3 m4
    by (auto intro!: triple_if triple_api_error fr cu triple_put_change dest: current_inv split: option.split put_branch.split)
  show ?thesis unfolding status_put_def
    by (rule triple_pbind [OF triple_api_get_vm], rule triple_pre [OF body]) simp
qed

lemma triple_status_get: "triple status_inv (status_get env a u) (\<lambda>_. status_inv) status_inv"
  unfolding status_get_def
  by (rule triple_pbind [OF triple_load_vm])
     (auto intro!: triple_option triple_api_error triple_if triple_pret triple_pre [OF triple_get_current_status])


section \<open>All operations together\<close>

text \<open>
  What may happen to the statuses of VMs, in any order and with any environment: reports of nodes,
  callbacks of commands, the periodic uptime and requests of users.
\<close>

inductive status_op :: "status_state \<Rightarrow> status_state \<Rightarrow> bool" where
  op_event: "status_op s (snd (vm_status_event_cb env tid u st w node s))"
| op_list: "status_op s (snd (vm_status_all_cb env tid rc stdout node s))"
| op_current: "status_op s (snd (vm_status_current_cb env r tid u force s))"
| op_command: "status_op s (snd (vm_status_cb env r tid u s))"
| op_uptime: "status_op s (snd (vm_uptime_all now s))"
| op_put: "status_op s (snd (status_put aenv rq tid u s))"
| op_get: "status_op s (snd (status_get aenv action u s))"

lemma status_op_inv: "status_op s t \<Longrightarrow> status_inv s \<Longrightarrow> status_inv t"
proof (induction rule: status_op.induct)
  case (op_event s env tid u st w node)
  then show ?case using triple_vm_status_event_cb by (simp add: triple_keeps keeps_def)
next
  case (op_list s env tid rc stdout node)
  then show ?case using triple_vm_status_all_cb by (simp add: triple_keeps keeps_def)
next
  case (op_current s env r tid u force)
  then show ?case using triple_vm_status_current_cb by (simp add: triple_keeps keeps_def)
next
  case (op_command s env r tid u)
  then show ?case using triple_vm_status_cb by (simp add: triple_keeps keeps_def)
next
  case (op_uptime s now)
  then show ?case using triple_vm_uptime_all by (simp add: triple_keeps keeps_def)
next
  case (op_put s aenv rq tid u)
  then show ?case using triple_status_put by (simp add: triple_keeps keeps_def)
next
  case (op_get s aenv action u)
  then show ?case using triple_status_get by (simp add: triple_keeps keeps_def)
qed

lemma status_ops_inv: "status_op\<^sup>*\<^sup>* s t \<Longrightarrow> status_inv s \<Longrightarrow> status_inv t"
  by (induction rule: rtranclp_induct) (auto dest: status_op_inv)

text \<open>
  The cached status of a VM, on which every check of a report relies, is always the status in
  the database: after any sequence of reports, callbacks and requests, also of those that fail, a
  status that is read from the cache belongs to a VM that exists and that has this status.
\<close>

theorem cached_status_is_current:
  assumes "status_op\<^sup>*\<^sup>* s t" "status_inv s" "cache_get (vm_status_key u) t = Some v"
  shows "\<exists>x. ss_db t u = Some x \<and> v = VInt (v_status x)"
  using status_ops_inv [OF assms(1,2)] assms(3) by (simp add: status_inv_def coherent_def)

theorem cached_status_is_current_witness:
  "\<exists>t x. status_op (demo_status_state demo_created) t \<and> ss_db t ''u'' = Some x
     \<and> cache_get (vm_status_key ''u'') t = Some (VInt (v_status x))"
proof -
  let ?s = "demo_status_state demo_created"
  let ?t = "snd (vm_uptime_all 5 ?s)"
  have op: "status_op ?s ?t" by (rule status_op.op_uptime)
  have i: "status_inv ?s" by (rule demo_status_inv) (simp_all add: demo_created_def demo_vm_def)
  have c: "cache_get (vm_status_key ''u'') ?t = Some (VInt CREATING)"
    by (simp add: vm_uptime_all_def pmod_def demo_status_state_def demo_created_def demo_vm_def cache_get_def)
  from cached_status_is_current [OF r_into_rtranclp [of status_op, OF op] i c] op c show ?thesis by metis
qed

section \<open>A stop that fails\<close>

lemma api_get_vm_some:
  "api_get_vm env u s = (Inr x, t) \<Longrightarrow> \<exists>row. ss_db s u = Some row \<and> x = fresh_vm row \<and> t = s"
  by (auto simp: api_get_vm_def load_vm_def pbind_def pget_def api_error_def pres_def pret_def split: option.splits if_splits)

lemma put_stop_Inr:
  "put_stop env rq up x s = (Inr (Inr c), t) \<Longrightarrow> t = s \<and> pc_vm c = x \<and> pc_stopping c = (v_status x \<noteq> STOPPING)"
  by (auto simp: put_stop_def pbind_Inr_iff prog_Inr_iff api_error_def pret_def Let_def split: sum.splits if_splits)

lemma put_submit_started:
  assumes "put_submit env a c s = (Inr (TaskStarted m), t)"
  shows "\<exists>n. v_node (pc_vm c) = Some n
    \<and> (\<exists>y. (if pc_stopping c then st_save_status (ae_status env) (Some STOPPING) None (pc_vm c) else pret (pc_vm c))
        (s\<lparr>ss_out := ss_out s @ [CmdRun (node_fast_queue n) (pc_cmd c) (Some (''vm_status vm:'' @ v_uuid (pc_vm c) @ pc_lock c))
              ''api.vm.status.tasks.vm_status_cb'' [(''vm_uuid'', VStr (v_uuid (pc_vm c)))],
            CmdMeta (status_meta (pc_vm c) (pc_msg c) a @ (case pc_stdin c of Some i \<Rightarrow> [(''stdin'', VStr i)] | None \<Rightarrow> []))]\<rparr>) = (Inr y, t))"
  using assms
  by (auto simp: put_submit_def api_execute_def execute_cmd_def pbind_Inr_iff prog_Inr_iff out_def the_node_def
      split: option.splits if_splits)

lemma put_stop_effect:
  assumes "status_inv s" "ss_db s u = Some x" "v_status x = RUNNING" "rq_action rq = ''stop''"
    "status_put env rq tid u s = (Inr (TaskStarted m), t)"
  shows "\<exists>n ev mt. v_node x = Some n \<and> status_result u STOPPING (Some (e_now (se_save (ae_status env)))) False s t
    \<and> ss_out t = ss_out s @ [ev, CmdMeta mt] \<and> map_of mt ''last_status'' = Some (VInt RUNNING)"
proof -
  let ?x = "fresh_vm x"
  have r: "v_status ?x = RUNNING" using assms(3) by simp
  have k: "put_kind ''stop'' (v_status ?x) (rq_freeze rq) (rq_unfreeze rq) = Some ChangeStatus"
    by (simp add: put_kind_def assms(3))
  have g: "api_get_vm env u s = (Inr ?x, s)"
    using assms(5) api_get_vm_some [of env u s] assms(2) by (auto simp: status_put_def pbind_Inr_iff)
  have "put_change env rq ?x s = (Inr (TaskStarted m), t)"
  proof -
    have "\<not> (v_status ?x \<notin> set statuses \<and> ''stop'' \<noteq> ''current'')" "\<not> ''stop'' \<notin> set actions"
      using assms(3) by (simp_all add: statuses_def actions_def)
    then show ?thesis
      using assms(5) unfolding status_put_def pbind_def [of "api_get_vm env u"] g assms(4) prod.case sum.case k
      by (simp only: if_False option.case put_branch.case)
  qed
  then obtain a up r0 s0 where p: "put_stop env rq up ?x s = (Inr r0, s0)"
      "(case r0 of Inl e \<Rightarrow> pret (FailureResponse e) | Inr c \<Rightarrow> put_submit env a c) s0 = (Inr (TaskStarted m), t)"
    unfolding put_change_def Let_def assms(4)
    by (auto simp: pbind_Inr_iff api_error_def prog_Inr_iff split: if_splits)
  then obtain c where c: "r0 = Inr c" by (cases r0) (auto simp: prog_Inr_iff)
  have pc: "s0 = s" "pc_vm c = ?x" "pc_stopping c"
    using put_stop_Inr [OF p(1) [unfolded c]] assms(3) by (simp_all add: status_codes)
  obtain n q cmd l cb args rest y where sub: "v_node ?x = Some n"
      "st_save_status (ae_status env) (Some STOPPING) None ?x
        (s\<lparr>ss_out := ss_out s @ [CmdRun q cmd l cb args, CmdMeta (status_meta ?x (pc_msg c) a @ rest)]\<rparr>) = (Inr y, t)"
    using put_submit_started [of env a c s m t] p(2) unfolding c sum.case pc(1,2) if_P [OF pc(3)] by blast
  let ?s = "s\<lparr>ss_out := ss_out s @ [CmdRun q cmd l cb args, CmdMeta (status_meta ?x (pc_msg c) a @ rest)]\<rparr>"
  have cur: "current ?x s" "v_uuid ?x = u" by (rule current_fresh [OF assms(1,2)])+
  have ne: "STOPPING \<noteq> v_status ?x" using assms(3) by (simp add: status_codes)
  obtain z t' where z: "st_save_status (ae_status env) (Some STOPPING) None ?x ?s = (Inr z, t')"
      "status_result u STOPPING (Some (e_now (se_save (ae_status env)))) False ?s t'"
    using save_status_result [of ?x ?s STOPPING "ae_status env" None] cur ne by auto
  have t: "t' = t" using z(1) sub(2) by simp
  have o': "ss_out t = ss_out ?s"
  proof -
    have "keeps (\<lambda>w. ss_out w = ss_out ?s) (st_save_status (ae_status env) (Some STOPPING) None ?x)"
      unfolding keeps_def st_save_status_def option.case
      using cur(1) by (auto simp: st_save_plain Let_def current_def split: option.split)
    from keepsD [OF this refl sub(2)] show ?thesis .
  qed
  have "status_result u STOPPING (Some (e_now (se_save (ae_status env)))) False s t"
    using z(2) unfolding t by (simp add: status_result_def cong: if_cong split del: if_split)
  then show ?thesis using sub(1) o' r by (auto simp: status_meta_def)
qed


lemma failed_callback_result:
  assumes "status_inv s" "ss_db s u = Some x" "v_status x = STOPPING" "v_node x = Some n"
    "cr_returncode r \<noteq> 0" "\<not> is_vm_missing (fresh_vm x) (cr_message r)" "cr_last_status r \<noteq> STOPPING"
  shows "fst (vm_status_cb env r tid u s) = Inl (bad_return_code r)"
    "status_result u (cr_last_status r) (Some (e_now (se_save env))) False s (snd (vm_status_cb env r tid u s))"
proof -
  have cur: "current (fresh_vm x) s" "v_uuid (fresh_vm x) = u" by (rule current_fresh [OF assms(1,2)])+
  have u: "v_uuid x = u" using cur(2) by simp
  obtain z s1 where z: "st_save_status env (Some (cr_last_status r)) None (fresh_vm x) s = (Inr z, s1)"
      "v_node z = v_node x" "v_uuid z = u" "status_result u (cr_last_status r) (Some (e_now (se_save env))) False s s1"
    using save_status_result [OF cur(1), of "cr_last_status r" env None] assms(3,7) u by auto
  have f: "status_cb_failed env r (fresh_vm x) s = vm_status_one env z s1"
    by (simp add: status_cb_failed_def assms(3) pbind_def [of "st_save_status _ _ _ _"] z(1))
  have cb: "vm_status_cb env r tid u s = pbind (vm_status_one env z) (\<lambda>_. pres (Inl (bad_return_code r))) s1"
    using f by (simp add: vm_status_cb_def get_vm_some [OF assms(2)] assms(5,6)) (simp add: pbind_def)
  have "\<exists>es. vm_status_one env z s1 = (Inr (), s1\<lparr>ss_out := es\<rparr>)"
    using same_out [of s1] by (auto simp: vm_status_one_def the_node_def z(2) assms(4) pbind_steps execute_cmd_def out_def prog_defs split: option.split)
  then obtain es where one: "vm_status_one env z s1 = (Inr (), s1\<lparr>ss_out := es\<rparr>)" by blast
  show "fst (vm_status_cb env r tid u s) = Inl (bad_return_code r)"
    "status_result u (cr_last_status r) (Some (e_now (se_save env))) False s (snd (vm_status_cb env r tid u s))"
    using z(4) by (simp_all add: cb pbind_def one pres_def)
qed


definition demo_api_env :: api_env where
  "demo_api_env = \<lparr>ae_status = demo_status_env,
     ae_cmd = \<lparr>ce_repr = (\<lambda>_. []), ce_parse_float = (\<lambda>_. Inl (Exn ValueError [])), ce_iso_dir = ''/iso''\<rparr>,
     ae_dump = (\<lambda>_. []), ae_visible = (\<lambda>_. True), ae_tasks = (\<lambda>_. False), ae_snapshots = (\<lambda>_. False), ae_no_shutdown = [],
     ae_rescue_cd = ''rescuecd'', ae_stop_timeout = 180, ae_stop_timeout_win = 300\<rparr>"

definition demo_stop :: status_request where
  "demo_stop = \<lparr>rq_admin = False, rq_action = ''stop'', rq_freeze = False, rq_unfreeze = False, rq_update = None,
     rq_force = True, rq_timeout = None, rq_cdimage = None, rq_cdimage2 = None, rq_cdimage_once = None\<rparr>"


end
