(* ===== verification/Vm_Manage.thy ===== *)
theory Vm_Manage
  imports Vm_Status_Api
begin

text \<open>
  The requests that create, update and delete a VM on its compute node, \<open>post\<close>, \<open>put\<close> and \<open>delete\<close> of
  \<^verbatim>\<open>api/vm/base/vm_manage.py\<close>. Each of them checks the VM, marks it as being worked on, and submits a
  command; when the command is not accepted, or anything fails after the mark, the old status is
  saved again. The callbacks of the commands are the subject of the next theory.
\<close>

section \<open>Environment and requests\<close>

text \<open>
  What is looked up besides: the settings of the datacenter and the keys of an owner, a random
  password, the choice of a node by the definition API (which saves the VM), whether an image is
  resized and which boot ROM it requires, the images on the storages of a node and their import,
  nodes by name, and the UUID of the image server.
\<close>

record manage_env =
  me_api :: api_env
  me_settings :: vm_settings
  me_set_order :: "string list \<Rightarrow> string list"
  me_owner_keys :: "int \<Rightarrow> string list"
  me_password :: string
  me_choose :: "vm \<Rightarrow> vm sprog"
  me_image_resize :: "pyval \<Rightarrow> bool res"
  me_image_bootrom :: "pyval \<Rightarrow> pyval option res"
  me_has_image :: "node_ref \<Rightarrow> pyval \<Rightarrow> pyval \<Rightarrow> bool res"
  me_import :: "node_ref \<Rightarrow> pyval \<Rightarrow> pyval \<Rightarrow> string res"
  me_get_node :: "string \<Rightarrow> node_ref res"
  me_image_vm :: string

text \<open>
  A request: the user, the fields \<open>recreate\<close> and \<open>force\<close> of a creation or the errors of its
  serializer, the flag \<open>force\<close> and the node of an update.
\<close>

record manage_request =
  mq_authenticated :: bool
  mq_admin :: bool
  mq_staff :: bool
  mq_create :: "string + bool \<times> bool"
  mq_force :: bool
  mq_node :: "string option"

definition VmIsLocked :: exc_class where "VmIsLocked = OtherError ''VmIsLocked''"
definition InvalidInput :: exc_class where "InvalidInput = OtherError ''InvalidInput''"

definition node_slow_queue :: "node_ref \<Rightarrow> string" where "node_slow_queue n = ''slow.'' @ nr_hostname n"

text \<open>A VM that the user may see; creation and deletion also need its node to work.\<close>

definition manage_get_vm :: "api_env \<Rightarrow> bool \<Rightarrow> string \<Rightarrow> vm sprog" where
  "manage_get_vm env check_node uuid = pbind (load_vm uuid) (\<lambda>r. case r of
      None \<Rightarrow> api_error ObjectDoesNotExist uuid
    | Some x \<Rightarrow> if \<not> ae_visible env x \<or> is_slave_vm x then api_error ObjectDoesNotExist uuid
        else if check_node \<and> (case v_node x of Some n \<Rightarrow> nr_status n \<noteq> Node_ONLINE | None \<Rightarrow> False)
        then api_error NodeIsNotOperational [] else pret x)"

definition manage_apiview :: "string \<Rightarrow> vm \<Rightarrow> pydict" where
  "manage_apiview method x = [(''view'', VStr ''vm_manage''), (''method'', VStr method), (''hostname'', VStr (v_hostname x))]"

definition manage_lock :: "vm \<Rightarrow> string" where "manage_lock x = ''vm_manage vm:'' @ v_uuid x"

definition opt_item :: "string \<Rightarrow> string option \<Rightarrow> pydict" where
  "opt_item k v = (case v of None \<Rightarrow> [] | Some t \<Rightarrow> [(k, VStr t)])"

definition manage_meta :: "vm \<Rightarrow> string \<Rightarrow> pydict \<Rightarrow> string option \<Rightarrow> string option \<Rightarrow> pydict" where
  "manage_meta x msg apiview stdin block_key =
     [(''msg'', VStr msg), (''vm_uuid'', VStr (v_uuid x)), (''apiview'', VDict apiview)]
       @ opt_item ''stdin'' stdin @ opt_item ''block_key'' block_key"

text \<open>
  The \<open>try\<close> with its \<open>finally\<close>: \<open>m\<close> submits the command and returns its error, \<open>undo\<close> saves the old
  status unless the command was accepted.
\<close>

definition submit_or_undo :: "string option sprog \<Rightarrow> vm sprog \<Rightarrow> api_response sprog \<Rightarrow> api_response sprog" where
  "submit_or_undo m undo respond = (\<lambda>s. case m s of
      (Inl e, t) \<Rightarrow> (case undo t of (Inl e', u) \<Rightarrow> (Inl e', u) | (Inr _, u) \<Rightarrow> (Inl e, u))
    | (Inr (Some err), t) \<Rightarrow> (case undo t of (Inl e', u) \<Rightarrow> (Inl e', u) | (Inr _, u) \<Rightarrow> (Inr (FailureResponse err), u))
    | (Inr None, t) \<Rightarrow> respond t)"

text \<open>The first image that a storage of the node lacks is imported; the rest of the disks waits for it.\<close>

fun node_image_import :: "manage_env \<Rightarrow> node_ref \<Rightarrow> pydict list \<Rightarrow> string option res" where
  "node_image_import env n [] = Inr None"
| "node_image_import env n (d # ds) = (case map_of d ''image_uuid'' of
      None \<Rightarrow> node_image_import env n ds
    | Some i \<Rightarrow> rbind (ditem d ''zpool'') (\<lambda>pool. rbind (me_has_image env n pool i) (\<lambda>found.
        if found then node_image_import env n ds
        else rbind (me_import env n pool i) (\<lambda>key. Inr (Some key)))))"

section \<open>Creation\<close>

text \<open>
  The image of the first disk. A disk without an image stands for an entry of \<open>Image.CUSTOM\<close> of the
  operating system, which has no requirements: reading them raises.
\<close>

definition CUSTOM_OSTYPES :: "int list" where "CUSTOM_OSTYPES = [LINUX, BSD, SUNOS, WINDOWS]"

definition is_resize_needed :: "manage_env \<Rightarrow> vm \<Rightarrow> bool res" where
  "is_resize_needed env x = rbind (json_get_disks x) (\<lambda>ds. case ds of
      [] \<Rightarrow> Inr False
    | d # _ \<Rightarrow> (case map_of d ''image_uuid'' of None \<Rightarrow> Inr False | Some u \<Rightarrow> me_image_resize env u))"

definition required_bootrom :: "manage_env \<Rightarrow> vm \<Rightarrow> pyval option res" where
  "required_bootrom env x = rbind (json_get_disks x) (\<lambda>ds. case ds of
      [] \<Rightarrow> Inr None
    | d # _ \<Rightarrow> (case map_of d ''image_uuid'' of
          Some u \<Rightarrow> me_image_bootrom env u
        | None \<Rightarrow> if v_ostype x \<in> set CUSTOM_OSTYPES then Inl (Exn KeyError ''requirements'') else Inr None))"

definition check_bootrom :: "manage_env \<Rightarrow> vm \<Rightarrow> unit res" where
  "check_bootrom env x = (if is_hvm x \<and> truthy (bootrom x)
     then rbind (required_bootrom env x) (\<lambda>r. case r of
         None \<Rightarrow> Inr ()
       | Some b \<Rightarrow> if py_eq (bootrom x) b then Inr ()
           else Inl (Exn PreconditionRequired ''Incompatible BOOTROM settings for selected disk image (UEFI vs BIOS).''))
     else Inr ())"

definition check_ssh_keys :: "manage_env \<Rightarrow> vm \<Rightarrow> unit res" where
  "check_ssh_keys env x = (if \<not> is_hvm x \<and> s_ssh_keys (me_settings env) = [] \<and> me_owner_keys env (v_owner x) = []
     then Inl (Exn PreconditionRequired ''VM owner has no SSH keys available'') else Inr ())"

text \<open>A creation of a new VM and the recreation of an old one; the result is the message.\<close>

definition post_recreate :: "manage_request \<Rightarrow> bool \<Rightarrow> vm \<Rightarrow> string res" where
  "post_recreate rq force x =
     (if \<not> mq_authenticated rq then Inl (Exn PermissionDenied [])
      else if vm_locked x then Inl (Exn VmIsLocked [])
      else if v_status x \<noteq> STOPPED then Inl (Exn VmIsNotOperational ''VM is not stopped'')
      else if \<not> force then Inl (Exn ExpectationFailed ''Are you sure?'')
      else Inr ''Recreate server'')"

definition post_place :: "manage_env \<Rightarrow> manage_request \<Rightarrow> bool \<Rightarrow> bool \<Rightarrow> vm \<Rightarrow> (vm \<times> string) sprog" where
  "post_place env rq recreate force x =
     (if recreate then pbind (pres (post_recreate rq force x)) (\<lambda>msg. pret (x, msg))
      else if v_status x = NOTCREATED
      then (if \<not> mq_admin rq then api_error PermissionDenied []
            else pbind (if v_node x = None then me_choose env x else pret x) (\<lambda>y. pret (y, ''Create server'')))
      else api_error VmIsNotOperational ''VM is already created'')"

definition create_cmd :: "string \<times> string \<Rightarrow> bool \<Rightarrow> vm \<Rightarrow> string" where
  "create_cmd cmds recreate x = (if recreate then ''vmadm delete '' @ v_uuid x @ '' >&2 && sleep 1; '' else [])
     @ snd cmds @ '' vmadm create >&2; e=$? '' @ fst cmds @ ''; vmadm get '' @ v_uuid x
     @ '' 2>/dev/null; vmadm start '' @ v_uuid x @ '' >&2; exit $e''"

text \<open>What is checked before the VM is marked, with the decisions about deployment and resizing.\<close>

definition post_ready :: "manage_env \<Rightarrow> vm \<Rightarrow> (bool \<times> bool \<times> vm) res" where
  "post_ready env x =
     rbind (is_bootable x) (\<lambda>bootable.
     if \<not> bootable then Inl (Exn PreconditionRequired ''VM has no bootable disk'') else
     rbind (check_bootrom env x) (\<lambda>_.
     if ae_tasks (me_api env) (v_uuid x) then Inl (Exn VmHasPendingTasks []) else
     rbind (is_deploy_needed (ae_status (me_api env)) x) (\<lambda>deploy.
     rbind (is_resize_needed env x) (\<lambda>resize.
     rbind (is_blank x) (\<lambda>blank.
     rbind (if blank then Inr x else set_root_pw (me_password env) x) (\<lambda>y. Inr (deploy, resize, y)))))))"

definition post_execute :: "manage_env \<Rightarrow> vm \<Rightarrow> string \<Rightarrow> string \<Rightarrow> string \<Rightarrow> pydict \<Rightarrow> string option sprog" where
  "post_execute env x cmd stdin msg apiview =
     pbind (pres (rbind (the_node x) (\<lambda>n. rbind (json_get_disks x) (\<lambda>ds.
       rbind (node_image_import env n ds) (\<lambda>key. Inr (n, key)))))) (\<lambda>(n, key).
     api_execute (ae_status (me_api env)) (node_slow_queue n) cmd (manage_lock x) ''api.vm.base.tasks.vm_create_cb''
       [(''vm_uuid'', VStr (v_uuid x))] (manage_meta x msg apiview (Some stdin) key))"

definition post_submit :: "manage_env \<Rightarrow> string \<Rightarrow> bool \<Rightarrow> string \<times> string \<Rightarrow> string \<Rightarrow> vm \<Rightarrow> api_response sprog" where
  "post_submit env tid recreate cmds msg x =
     pbind (pres (post_ready env x)) (\<lambda>(deploy, resize, y).
     pbind (st_save (ae_status (me_api env)) full_save (y\<lparr>v_status := CREATING\<rparr>)) (\<lambda>z.
     pbind (pres (fix_json (me_settings env) (me_set_order env) (me_owner_keys env (v_owner z)) deploy resize recreate z)) (\<lambda>js.
     submit_or_undo
       (post_execute env z (create_cmd cmds recreate z) (ae_dump (me_api env) js) msg
          (manage_apiview ''POST'' z @ [(''recreate'', VBool recreate), (''deploy'', VBool deploy), (''resize'', VBool resize)]))
       (st_save_status (ae_status (me_api env)) None None (z\<lparr>v_status := v_status x\<rparr>))
       (pbind (vm_status_changed (ae_status (me_api env)) tid z CREATING None False False None) (\<lambda>_. pret (TaskStarted msg))))))"

definition manage_post :: "manage_env \<Rightarrow> manage_request \<Rightarrow> string \<Rightarrow> string \<Rightarrow> api_response sprog" where
  "manage_post env rq tid uuid =
     pbind (manage_get_vm (me_api env) True uuid) (\<lambda>x. case mq_create rq of
         Inl errors \<Rightarrow> pret (FailureResponse errors)
       | Inr (recreate, force) \<Rightarrow>
           pbind (pres (check_ssh_keys env x)) (\<lambda>_.
           pbind (pres (fix_create (ae_cmd (me_api env)) x)) (\<lambda>cmds.
           pbind (post_place env rq recreate force x) (\<lambda>(y, msg).
             post_submit env tid recreate cmds msg y))))"

section \<open>Update\<close>

text \<open>A command for an update: its node, the new node, the command, its input and the key to wait for.\<close>

record update_command =
  uc_node :: node_ref
  uc_new_node :: "string option"
  uc_cmd :: string
  uc_stdin :: "string option"
  uc_block_key :: "string option"

definition put_forced :: "manage_env \<Rightarrow> manage_request \<Rightarrow> node_ref \<Rightarrow> vm \<Rightarrow> update_command res" where
  "put_forced env rq n x =
     (let c = \<lparr>uc_node = n, uc_new_node = None, uc_cmd = ''vmadm get '' @ v_uuid x @ '' 2>/dev/null'', uc_stdin = None,
               uc_block_key = None\<rparr>
      in case mq_node rq of
           None \<Rightarrow> Inr c
         | Some h \<Rightarrow> (if h = [] then Inr c
             else if \<not> mq_staff rq then Inl (Exn PermissionDenied [])
             else rbind (me_get_node env h) (\<lambda>m.
                    if nr_hostname m = nr_hostname n
                    then Inl (Exn InvalidInput ''VM already has the requested node set in DB'')
                    else Inr (c\<lparr>uc_node := m, uc_new_node := Some (nr_uuid m)\<rparr>))))"

definition put_changed :: "manage_env \<Rightarrow> node_ref \<Rightarrow> vm \<Rightarrow> update_command res" where
  "put_changed env n x =
     (if vm_locked x then Inl (Exn VmIsLocked []) else
      rbind (json_update x) (\<lambda>upd.
      rbind (check_update x upd) (\<lambda>_.
      rbind (rbind (json_disks_changed x) (\<lambda>d. if d then Inr True else json_nics_changed x)) (\<lambda>hw.
      if hw \<and> ae_tasks (me_api env) (v_uuid x) then Inl (Exn VmHasPendingTasks []) else
      rbind (fix_update (ae_cmd (me_api env)) upd x) (\<lambda>(js, cmd1).
      rbind (validate_update (ae_snapshots (me_api env) (v_uuid x)) cmd1) (\<lambda>_.
      rbind (get_dicts js ''add_disks'') (\<lambda>ds.
      rbind (node_image_import env n ds) (\<lambda>key.
        Inr \<lparr>uc_node = n, uc_new_node = None,
             uc_cmd = cmd1 @ ''vmadm update '' @ v_uuid x @ '' >&2; e=$((e+=$?)); vmadm get '' @ v_uuid x @ '' 2>/dev/null; exit $e'',
             uc_stdin = Some (ae_dump (me_api env) js), uc_block_key = key\<rparr>))))))))"

definition put_execute :: "manage_env \<Rightarrow> update_command \<Rightarrow> bool \<Rightarrow> vm \<Rightarrow> api_response sprog" where
  "put_execute env c force x =
     (if nr_status (uc_node c) \<noteq> Node_ONLINE then api_error NodeIsNotOperational [] else
      pbind (st_save_status (ae_status (me_api env)) None None (set_notready x)) (\<lambda>y.
      submit_or_undo
        (api_execute (ae_status (me_api env)) (node_fast_queue (uc_node c)) (uc_cmd c) (manage_lock y)
           ''api.vm.base.tasks.vm_update_cb'' [(''vm_uuid'', VStr (v_uuid y)), (''new_node_uuid'', case uc_new_node c of Some u \<Rightarrow> VStr u | None \<Rightarrow> VNone)]
           (manage_meta y ''Update server'' (manage_apiview ''PUT'' y @ (''force'', VBool force)
              # (if uc_new_node c = None then [] else [(''node'', VStr (nr_hostname (uc_node c)))])) (uc_stdin c) (uc_block_key c)))
        (st_save_status (ae_status (me_api env)) None None (revert_notready y))
        (pret (TaskStarted ''Update server''))))"

definition manage_put :: "manage_env \<Rightarrow> manage_request \<Rightarrow> string \<Rightarrow> string \<Rightarrow> api_response sprog" where
  "manage_put env rq tid uuid =
     pbind (manage_get_vm (me_api env) False uuid) (\<lambda>x.
     if \<not> mq_admin rq then api_error PermissionDenied [] else
     pbind (pres (the_node x)) (\<lambda>n.
     if v_status x \<notin> {RUNNING, STOPPED} then api_error VmIsNotOperational ''VM is not stopped or running''
     else if mq_force rq then pbind (pres (put_forced env rq n x)) (\<lambda>c. put_execute env c True x)
     else if json_changed x then pbind (pres (put_changed env n x)) (\<lambda>c. put_execute env c False x)
     else pbind (out [Signal ''vm_updated'' tid (v_uuid x)]) (\<lambda>_.
            pret (SuccessResponse (''Successfully updated VM '' @ v_hostname x @ '' (locally)'')))))"

section \<open>Deletion\<close>

definition check_delete :: "manage_env \<Rightarrow> manage_request \<Rightarrow> vm \<Rightarrow> unit res" where
  "check_delete env rq x =
     (if \<not> mq_admin rq then Inl (Exn PermissionDenied [])
      else if v_uuid x = me_image_vm env then Inl (Exn VmIsLocked ''VM is image server'')
      else if vm_locked x then Inl (Exn VmIsLocked [])
      else if v_status x \<notin> {STOPPED, FROZEN} then Inl (Exn VmIsNotOperational ''VM is not stopped'')
      else if ae_tasks (me_api env) (v_uuid x) then Inl (Exn VmHasPendingTasks []) else Inr ())"

definition manage_delete :: "manage_env \<Rightarrow> manage_request \<Rightarrow> string \<Rightarrow> api_response sprog" where
  "manage_delete env rq uuid =
     pbind (manage_get_vm (me_api env) True uuid) (\<lambda>x.
     pbind (pres (check_delete env rq x)) (\<lambda>_.
     pbind (st_save_status (ae_status (me_api env)) None None (set_notready x)) (\<lambda>y.
     submit_or_undo
       (pbind (pres (the_node y)) (\<lambda>n.
        api_execute (ae_status (me_api env)) (node_slow_queue n) (''vmadm delete '' @ v_uuid y) (manage_lock y)
          ''api.vm.base.tasks.vm_delete_cb'' [(''vm_uuid'', VStr (v_uuid y))]
          (manage_meta y ''Delete server'' (manage_apiview ''DELETE'' y) None None)))
       (st_save_status (ae_status (me_api env)) None None (revert_notready y))
       (pret (TaskStarted ''Delete server'')))))"

end
