(* ===== verification/Vm_Tasks.thy ===== *)
theory Vm_Tasks
  imports Vm_Manage
begin

text \<open>
  The callbacks of \<^verbatim>\<open>api/vm/base/tasks.py\<close>, which run when a node has created, updated or deleted a
  VM: they store the definition that the node returned, count the resources, update the addresses and
  wait until a created VM is deployed. What other processes do while the callback sleeps is an
  argument of the wait.
\<close>

section \<open>Results and helpers\<close>

text \<open>The result of a command: return code, message, JSON output and the flags of \<open>apiview\<close>.\<close>

record manage_result =
  mr_returncode :: int
  mr_message :: string
  mr_json :: "string option"
  mr_recreate :: bool
  mr_force :: bool

text \<open>
  What the callbacks need besides the environment of the status: whether mails are sent in the
  datacenter, nodes by UUID, whether a template has definitions of snapshots or backups, and the
  request for an update that \<open>vm_update\<close> makes on behalf of the system.
\<close>

record task_env =
  te_status :: status_env
  te_create_mail :: bool
  te_deploy_mail :: bool
  te_node :: "string \<Rightarrow> node_ref option"
  te_template_defs :: "vm \<Rightarrow> bool"
  te_manage :: manage_env

definition bad_manage_code :: "manage_result \<Rightarrow> pyexn" where
  "bad_manage_code r = task_exception (''Got bad return code ('' @ int_str (mr_returncode r) @ ''). Error: '' @ mr_message r)"

definition load_output :: "status_env \<Rightarrow> manage_result \<Rightarrow> pydict res" where
  "load_output env r = (case mr_json r of
      None \<Rightarrow> Inl (Exn TypeError ''expected string or buffer'')
    | Some text \<Rightarrow> se_load_json env text)"

text \<open>The snapshots of a VM with the definitions of its snapshots and backups are deleted.\<close>

definition delete_snapshots :: "vm \<Rightarrow> unit sprog" where
  "delete_snapshots x = out [SnapshotsDeleted (v_uuid x)]"

definition resources_args :: "string list option \<Rightarrow> save_args" where
  "resources_args fs = \<lparr>sv_sync_json = False, sv_update_hostname = False, sv_update_node = True, sv_storages = None,
     sv_keep_vnc_port = False, sv_fields = fs, sv_change_time = None\<rparr>"

definition vm_error :: "status_env \<Rightarrow> vm \<Rightarrow> vm sprog" where
  "vm_error env x = pbind (st_save_status env None None (x\<lparr>v_status := ERROR\<rparr>)) (\<lambda>y.
     pbind (vm_status_one env y) (\<lambda>_. pret y))"

definition vm_create_cb_failed :: "status_env \<Rightarrow> manage_result \<Rightarrow> string \<Rightarrow> vm \<Rightarrow> bool \<Rightarrow> vm sprog" where
  "vm_create_cb_failed env r tid x inform_user =
     pbind (if mr_recreate r
            then (if startswith (mr_message r) ''Successfully deleted''
                  then pbind (delete_snapshots x) (\<lambda>_.
                       pbind (pres (save_metadata ''installed'' (VBool False) x)) (\<lambda>y.
                       pbind (st_save env (status_args [''enc_json'', ''changed''] None) y) (\<lambda>z. pret (z, NOTCREATED))))
                  else pret (x, STOPPED))
            else pret (x, NOTCREATED)) (\<lambda>(y, revert_state).
     if inform_user
     then (if v_status y \<noteq> revert_state then vm_status_changed env tid y revert_state None True False None else pret y)
     else st_save_status env None None (y\<lparr>v_status := revert_state\<rparr>))"

definition vm_update_cb_done :: "status_env \<Rightarrow> vm \<Rightarrow> vm sprog" where
  "vm_update_cb_done env x = st_save_status env None None (revert_notready x)"

definition vm_delete_cb_failed :: "status_env \<Rightarrow> vm \<Rightarrow> vm sprog" where
  "vm_delete_cb_failed env x = st_save_status env None None (revert_notready x)"

definition vm_delete_cb_succeeded :: "status_env \<Rightarrow> string \<Rightarrow> vm \<Rightarrow> vm sprog" where
  "vm_delete_cb_succeeded env tid x =
     pbind (st_save env (resources_args None) (x\<lparr>v_status := NOTCREATED, v_json_active := [], v_update_changed := True\<rparr>)) (\<lambda>y.
     pbind (st_ip_usage y) (\<lambda>_.
     pbind (delete_snapshots y) (\<lambda>_.
     pbind (out [Signal ''vm_notcreated'' tid (v_uuid y)]) (\<lambda>_. pret y))))"

section \<open>Creation\<close>

text \<open>
  The \<open>try\<close> that takes over the output of the node, up to the first exception: the object as it is then, and whether
  everything was taken over.
\<close>

definition take_created :: "status_env \<Rightarrow> manage_result \<Rightarrow> vm \<Rightarrow> (bool \<times> vm) sprog" where
  "take_created env r x = (case load_output env r of
      Inl e \<Rightarrow> pret (False, x)
    | Inr js \<Rightarrow>
        (let y = x\<lparr>v_json_active := js, v_json := js, v_update_changed := True\<rparr> in
         if \<not> mr_recreate r then pret (True, y)
         else pbind (delete_snapshots y) (\<lambda>_. case save_metadata ''installed'' (VBool False) y of
             Inl e \<Rightarrow> pret (False, y)
           | Inr z \<Rightarrow> pret (True, z))))"

definition save_created :: "status_env \<Rightarrow> string \<Rightarrow> vm \<Rightarrow> vm sprog" where
  "save_created env tid x = db_atomic (pbind (st_save env (resources_args None) x) (\<lambda>y.
     pbind (st_ip_usage y) (\<lambda>_.
     pbind (out [Signal ''vm_created'' tid (v_uuid y)]) (\<lambda>_. pret y))))"

text \<open>The callback up to the wait for the deployment.\<close>

definition create_cb_start :: "task_env \<Rightarrow> manage_result \<Rightarrow> string \<Rightarrow> string \<Rightarrow> vm sprog" where
  "create_cb_start env r tid uuid =
     pbind (get_vm uuid) (\<lambda>x.
     if mr_returncode r = 0 \<and> contains (mr_message r) ''Successfully created''
     then pbind (take_created (te_status env) r x) (\<lambda>(taken, y).
          if \<not> taken then pbind (vm_error (te_status env) y) (\<lambda>_. pres (Inl (task_exception ''Could not parse json output'')))
          else pbind (save_created (te_status env) tid y) (\<lambda>z.
          if \<not> contains (mr_message r) ''Successfully started''
          then pbind (vm_error (te_status env) z) (\<lambda>_.
                 pres (Inl (task_exception (''Initial start failed ('' @ mr_message r @ '')''))))
          else pbind (pwhen (te_create_mail env) (out [MailSent ''vm/base/vm_create_email.txt'' (v_uuid z)])) (\<lambda>_. pret z)))
     else pbind (vm_create_cb_failed (te_status env) r tid x True) (\<lambda>y.
          pbind (if mr_recreate r \<and> contains (mr_message r) ''Successfully deleted''
                 then vm_error (te_status env) y else pret y) (\<lambda>_.
          pres (Inl (bad_manage_code r)))))"

text \<open>
  The wait. Polls are numbered from \<open>i\<close>, \<open>world i\<close> is what happens while the callback sleeps after
  the poll \<open>i\<close>. The result is whether the deployment was over, or \<open>None\<close> when the fuel did not
  last.
\<close>

definition VMS_VM_DEPLOY_TOOLONG :: int where "VMS_VM_DEPLOY_TOOLONG = 600"
definition VMS_VM_DEPLOY_TOOLONG_MAX_CYCLES :: int where "VMS_VM_DEPLOY_TOOLONG_MAX_CYCLES = 1"

definition vm_reset :: "status_env \<Rightarrow> vm \<Rightarrow> unit sprog" where
  "vm_reset env x = pbind (pres (the_node x)) (\<lambda>n.
     pbind (execute_cmd env (node_fast_queue n) (''vmadm stop '' @ v_uuid x @ '' -F; vmadm start '' @ v_uuid x) None [] [])
       (\<lambda>_. pret ()))"

fun wait_deployed :: "status_env \<Rightarrow> (nat \<Rightarrow> status_state \<Rightarrow> status_state) \<Rightarrow> vm \<Rightarrow> nat \<Rightarrow> nat \<Rightarrow> int \<Rightarrow> int \<Rightarrow> bool option sprog" where
  "wait_deployed env world x 0 i timer repeat = pret None"
| "wait_deployed env world x (Suc fuel) i timer repeat =
     pbind (has_deploy_finished x) (\<lambda>finished.
     if finished then pret (Some True)
     else if timer > VMS_VM_DEPLOY_TOOLONG
     then (if repeat = VMS_VM_DEPLOY_TOOLONG_MAX_CYCLES then pret (Some False)
           else pbind (vm_reset env x) (\<lambda>_. pbind (pmod (world i)) (\<lambda>_.
                  wait_deployed env world x fuel (Suc i) 3 (repeat + 1))))
     else pbind (pmod (world i)) (\<lambda>_. wait_deployed env world x fuel (Suc i) (timer + 3) repeat))"

text \<open>The message without its last line.\<close>

definition without_last_line :: "string \<Rightarrow> string" where
  "without_last_line msg = join_with newline (butlast (split_on (CHR 0x0A) (strip msg)))"

definition create_cb_timeout :: "task_env \<Rightarrow> string \<Rightarrow> vm \<Rightarrow> string sprog" where
  "create_cb_timeout env tid x = pbind (vm_error (te_status env) x) (\<lambda>y.
     pbind (out [ErrorLogged tid (v_uuid y)]) (\<lambda>_. pret (''VM '' @ v_hostname y @ '' deploy has timed out'')))"

definition create_cb_finish :: "task_env \<Rightarrow> manage_result \<Rightarrow> string \<Rightarrow> vm \<Rightarrow> string sprog" where
  "create_cb_finish env r tid x =
     pbind (get_vm (v_uuid x)) (\<lambda>y.
     pbind (out [Signal ''vm_deployed'' tid (v_uuid y)]) (\<lambda>_.
     pbind (pwhen (te_deploy_mail env) (out [MailSent ''vm/base/vm_deploy_email.txt'' (v_uuid y)])) (\<lambda>_.
     pbind (out [SuccessLogged tid (v_uuid y)]) (\<lambda>_.
     pbind (pwhen (v_template y \<noteq> None \<and> te_template_defs env y) (out [TemplateDefined tid (v_uuid y)])) (\<lambda>_.
       pret (without_last_line (mr_message r)))))))"

definition vm_create_cb :: "task_env \<Rightarrow> (nat \<Rightarrow> status_state \<Rightarrow> status_state) \<Rightarrow> nat \<Rightarrow> manage_result \<Rightarrow> string \<Rightarrow> string \<Rightarrow>
    string option sprog" where
  "vm_create_cb env world fuel r tid uuid =
     pbind (create_cb_start env r tid uuid) (\<lambda>x.
     pbind (wait_deployed (te_status env) world x fuel 0 0 0) (\<lambda>w. case w of
         None \<Rightarrow> pret None
       | Some True \<Rightarrow> pbind (create_cb_finish env r tid x) (\<lambda>msg. pret (Some msg))
       | Some False \<Rightarrow> pbind (create_cb_timeout env tid x) (\<lambda>msg. pret (Some msg))))"

section \<open>Update\<close>

definition ignored_changed_vm_attrs :: "string list" where
  "ignored_changed_vm_attrs = [''set_customer_metadata'', ''remove_customer_metadata'', ''create_timestamp'',
     ''boot_timestamp'', ''autoboot'', ''vnc_port'', ''update_disks'']"

text \<open>
  The definition of the node replaces the wanted one; a VM that is found on another node than the
  one in the database must have the same definition there.
\<close>

definition take_updated :: "task_env \<Rightarrow> pydict \<Rightarrow> string option \<Rightarrow> vm \<Rightarrow> vm res" where
  "take_updated env js new_node x =
     (let y = x\<lparr>v_json := js\<rparr> in case new_node of
        None \<Rightarrow> Inr (y\<lparr>v_json_active := js, v_update_changed := True\<rparr>)
      | Some u \<Rightarrow>
          rbind (json_update y) (\<lambda>upd.
          (case filter (\<lambda>(k, _). k \<notin> set ignored_changed_vm_attrs) upd of
             [] \<Rightarrow> (case te_node env u of
                 None \<Rightarrow> Inl (Exn ObjectDoesNotExist ''Node'')
               | Some n \<Rightarrow> set_node (Some n) (y\<lparr>v_json_active := js, v_update_changed := True\<rparr>))
           | diff \<Rightarrow> Inl (task_exception (''VM definition on compute node differs from definition in DB in following attributes: ''
                 @ join_with '','' (map fst diff))))))"

definition update_fields :: "string option \<Rightarrow> string list" where
  "update_fields new_node = [''enc_json'', ''enc_json_active'', ''changed''] @ (if new_node = None then [] else [''node_id''])"

definition save_updated :: "status_env \<Rightarrow> string \<Rightarrow> string option \<Rightarrow> vm \<Rightarrow> vm sprog" where
  "save_updated env tid new_node x = db_atomic (pbind (st_save env (resources_args (Some (update_fields new_node))) x) (\<lambda>y.
     pbind (st_ip_usage y) (\<lambda>_.
     pbind (out [Signal ''vm_json_active_changed'' tid (v_uuid y)]) (\<lambda>_. pret y))))"

text \<open>\<open>vm_update\<close>: a request of the system; the exceptions of the API become responses, others go on.\<close>

definition api_exception :: "exc_class \<Rightarrow> bool" where
  "api_exception c \<longleftrightarrow> c \<in> {VmIsNotOperational, NodeIsNotOperational, ExpectationFailed, PermissionDenied, PreconditionRequired,
     VmHasPendingTasks, VmIsLocked, InvalidInput, ObjectDoesNotExist}"

definition system_request :: manage_request where
  "system_request = \<lparr>mq_authenticated = True, mq_admin = True, mq_staff = True, mq_create = Inr (False, False), mq_force = False,
     mq_node = None\<rparr>"

definition vm_update :: "manage_env \<Rightarrow> string \<Rightarrow> vm \<Rightarrow> unit sprog" where
  "vm_update env tid x = (\<lambda>s. case manage_put env system_request tid (v_uuid x) s of
      (Inl e, t) \<Rightarrow> (if api_exception (exn_class e) then (Inr (), t) else (Inl e, t))
    | (Inr _, t) \<Rightarrow> (Inr (), t))"

definition vm_update_cb :: "task_env \<Rightarrow> manage_result \<Rightarrow> string \<Rightarrow> string \<Rightarrow> string option \<Rightarrow> vm sprog" where
  "vm_update_cb env r tid uuid new_node =
     pbind (get_vm uuid) (\<lambda>x.
     pbind (vm_update_cb_done (te_status env) x) (\<lambda>y.
     if mr_returncode r = 0 \<and> (mr_force r \<or> contains (mr_message r) ''Successfully updated'')
     then pbind (pres (case load_output (te_status env) r of
              Inl e \<Rightarrow> Inl (task_exception ''Could not parse json output'') | Inr js \<Rightarrow> Inr js)) (\<lambda>js.
          pbind (vm_delete_snapshots_of_removed_disks y) (\<lambda>_.
          pbind (pres (take_updated env js new_node y)) (\<lambda>z.
          pbind (save_updated (te_status env) tid new_node z) (\<lambda>w.
          pbind (if new_node = None then pret () else
                 pbind (out [Signal ''vm_node_changed'' tid (v_uuid w)]) (\<lambda>_.
                 if json_changed w then vm_update (te_manage env) tid w else pret ())) (\<lambda>_.
          pbind (out [SuccessLogged tid (v_uuid w)]) (\<lambda>_. pret w))))))
     else pres (Inl (bad_manage_code r))))"

section \<open>Deletion and the end of a deployment\<close>

definition vm_delete_cb :: "task_env \<Rightarrow> manage_result \<Rightarrow> string \<Rightarrow> string \<Rightarrow> vm sprog" where
  "vm_delete_cb env r tid uuid =
     pbind (get_vm uuid) (\<lambda>x.
     if mr_returncode r = 0 \<and> startswith (mr_message r) ''Successfully deleted''
     then pbind (vm_delete_cb_succeeded (te_status env) tid x) (\<lambda>y. pbind (out [SuccessLogged tid (v_uuid y)]) (\<lambda>_. pret y))
     else pbind (if is_vm_missing x (mr_message r) then vm_delete_cb_succeeded (te_status env) tid x
                 else vm_delete_cb_failed (te_status env) x) (\<lambda>_. pres (Inl (bad_manage_code r))))"

text \<open>Exceptions while the output is saved are logged only.\<close>

definition vm_deploy_cb :: "status_env \<Rightarrow> manage_result \<Rightarrow> string \<Rightarrow> unit sprog" where
  "vm_deploy_cb env r uuid =
     (if mr_returncode r \<noteq> 0 then pret () else
      pbind (get_vm uuid) (\<lambda>x s. case pbind (pres (load_output env r)) (\<lambda>js.
          st_save env (status_args [''enc_json'', ''enc_json_active'', ''changed''] None)
            (x\<lparr>v_json_active := js, v_json := js, v_update_changed := True\<rparr>)) s of (_, t) \<Rightarrow> (Inr (), t)))"

end
