(* ===== verification/Vm_Manage_Inv.thy ===== *)
theory Vm_Manage_Inv
  imports Vm_Tasks
begin

text \<open>
  The cached status stays the status in the database also while VMs are created, updated and deleted:
  every save, whatever it writes, keeps the invariant of the statuses when the object was read
  from the database, so the requests and the callbacks do.
\<close>

section \<open>Any save\<close>

lemma save_parts:
  assumes "vm_save env a x = Inr (y, es)" "\<not> sv_update_hostname a"
  shows "\<exists>i p j x4 es1 rest. StatusModel_save (e_now env) (sv_change_time a) (sv_fields a) (x\<lparr>v_info := i, v_vnc_port := Some p, v_json := j\<rparr>) = Inr (x4, es1)
    \<and> y = save_finish (x4\<lparr>v_update_changed := False\<rparr>) \<and> es = es1 @ rest \<and> resources_only rest"
proof -
  from assms obtain x1 x2 x3 x4 es1 ns where s: "save_node_part env a x = Inr x1" "save_port_part env x1 = Inr x2"
      "save_json_part env a x2 = Inr x3" "StatusModel_save (e_now env) (sv_change_time a) (sv_fields a) x3 = Inr (x4, es1)"
      "y = save_finish (x4\<lparr>v_update_changed := False\<rparr>)"
      "es = es1 @ map UpdateStorage ns @ node_effects a (x4\<lparr>v_update_changed := False\<rparr>)"
    unfolding vm_save_def by (auto simp: rbind_Inr_iff Let_def save_hostname_def)
  have "\<exists>i p. x1 = x\<lparr>v_info := i, v_vnc_port := p\<rparr>"
  proof (cases "v_node_changed x")
    case True
    with s(1) obtain z where z: "update_node_history (e_now env) None x = Inr z"
        "x1 = (if sv_keep_vnc_port a then z else z\<lparr>v_vnc_port := None\<rparr>)"
      by (auto simp: save_node_part_def rbind_Inr_iff)
    from update_node_history_frame [OF z(1)] obtain i where "z = x\<lparr>v_info := i\<rparr>" by blast
    with z(2) have "x1 = x\<lparr>v_info := i, v_vnc_port := if sv_keep_vnc_port a then v_vnc_port x else None\<rparr>" by simp
    then show ?thesis by blast
  next
    case False
    with s(1) have "x1 = x\<lparr>v_info := v_info x, v_vnc_port := v_vnc_port x\<rparr>" by (simp add: save_node_part_def)
    then show ?thesis by blast
  qed
  then obtain i q where x1: "x1 = x\<lparr>v_info := i, v_vnc_port := q\<rparr>" by blast
  have "\<exists>p. x2 = x1\<lparr>v_vnc_port := Some p\<rparr>"
  proof (cases "v_vnc_port x1")
    case None
    then show ?thesis using save_port_part_frame(2) [OF s(2)] choose_vnc_port_free by blast
  next
    case (Some p)
    with s(2) have "x2 = x1" by (simp add: save_port_part_def)
    with Some have "x2 = x1\<lparr>v_vnc_port := Some p\<rparr>" by simp
    then show ?thesis by blast
  qed
  then obtain p where x2: "x2 = x1\<lparr>v_vnc_port := Some p\<rparr>" by blast
  obtain j where "x3 = x2\<lparr>v_json := j\<rparr>" using save_json_part_frame(1) [OF s(3)] by blast
  with x1 x2 have x3: "x3 = x\<lparr>v_info := i, v_vnc_port := Some p, v_json := j\<rparr>" by simp
  have r: "resources_only (map UpdateStorage ns @ node_effects a (x4\<lparr>v_update_changed := False\<rparr>))"
    using node_effects_resources [of a "x4\<lparr>v_update_changed := False\<rparr>"] by (auto simp: resources_only_def list_all_iff)
  from s(4) have sm: "StatusModel_save (e_now env) (sv_change_time a) (sv_fields a) (x\<lparr>v_info := i, v_vnc_port := Some p, v_json := j\<rparr>) = Inr (x4, es1)"
    unfolding x3 .
  show ?thesis
    by (rule exI [of _ i], rule exI [of _ p], rule exI [of _ j], rule exI [of _ x4], rule exI [of _ es1],
        rule exI [of _ "map UpdateStorage ns @ node_effects a (x4\<lparr>v_update_changed := False\<rparr>)"])
      (use sm s(5,6) r in blast)
qed

definition saves_status :: "save_args \<Rightarrow> bool" where
  "saves_status a \<longleftrightarrow> (case sv_fields a of None \<Rightarrow> True | Some fs \<Rightarrow> ''status'' \<in> set fs)"

definition status_sets :: "save_args \<Rightarrow> vm \<Rightarrow> pyval \<Rightarrow> effect list" where
  "status_sets a x w = (if v_status x \<noteq> v_orig_status x \<and> saves_status a
     then [CacheSet (vm_status_key (v_uuid x)) (VInt (v_status x)), CacheSet (vm_status_change_key (v_uuid x)) w] else [])"

lemma StatusModel_save_result:
  assumes "StatusModel_save now ct (sv_fields a) z = Inr (y, es)"
  shows "v_uuid y = v_uuid z \<and> v_status y = v_status z \<and> \<not> v_lock y \<and> v_created y \<noteq> None \<and> v_vnc_port y = v_vnc_port z
    \<and> v_orig_status y = (if saves_status a then v_status z else v_orig_status z) \<and> v_node y = v_node z \<and> v_info y = v_info z
    \<and> v_json y = v_json z \<and> v_json_active y = v_json_active z
    \<and> (\<exists>w. es = DbSave (sv_fields a) # status_sets a z w)"
  using assms
  by (auto simp: StatusModel_save_def Let_def saves_status_def status_sets_def status_key_def status_change_key_def
      vm_status_key_def vm_status_change_key_def split: if_splits)

lemma vm_save_result:
  assumes "vm_save env a x = Inr (y, es)" "\<not> sv_update_hostname a"
  shows "v_uuid y = v_uuid x" "v_status y = v_status x" "plain_vm y"
    "v_orig_status y = (if saves_status a then v_status x else v_orig_status x)"
    "\<exists>w rest. es = DbSave (sv_fields a) # status_sets a x w @ rest \<and> resources_only rest"
proof -
  obtain i p j x4 es1 rest where s:
      "StatusModel_save (e_now env) (sv_change_time a) (sv_fields a) (x\<lparr>v_info := i, v_vnc_port := Some p, v_json := j\<rparr>) = Inr (x4, es1)"
      "y = save_finish (x4\<lparr>v_update_changed := False\<rparr>)" "es = es1 @ rest" "resources_only rest"
    using save_parts [OF assms] by blast
  note r = StatusModel_save_result [OF s(1)]
  have sets: "status_sets a (x\<lparr>v_info := i, v_vnc_port := Some p, v_json := j\<rparr>) w = status_sets a x w" for w
    by (simp add: status_sets_def)
  have y: "v_uuid y = v_uuid x4" "v_status y = v_status x4" "v_orig_status y = v_orig_status x4" "v_lock y = v_lock x4"
    "v_created y = v_created x4" "v_vnc_port y = v_vnc_port x4" "\<not> v_node_changed y" "\<not> v_update_changed y"
    by (simp_all add: s(2) save_finish_def)
  show "v_uuid y = v_uuid x" "v_status y = v_status x" "plain_vm y"
    "v_orig_status y = (if saves_status a then v_status x else v_orig_status x)"
    using r by (simp_all add: y plain_vm_def)
  show "\<exists>w rest. es = DbSave (sv_fields a) # status_sets a x w @ rest \<and> resources_only rest"
    using r s(3,4) unfolding sets by (metis append_Cons)
qed

text \<open>A row and its entry in the cache change together.\<close>

lemma status_inv_write:
  assumes "status_inv s" "ss_db s u = Some row" "v_uuid r = u" "v_vnc_port r \<noteq> None" "v_created r \<noteq> None"
    "c = ss_cache s \<and> v_status r = v_status row \<or> c = (ss_cache s)(vm_status_key u \<mapsto> VInt (v_status r), vm_status_change_key u \<mapsto> w)"
  shows "status_inv (s\<lparr>ss_db := (ss_db s)(u \<mapsto> r), ss_cache := c\<rparr>)"
proof -
  have db: "db_ok s" and co: "coherent s" using assms(1) by (simp_all add: status_inv_def)
  have "db_ok (s\<lparr>ss_db := (ss_db s)(u \<mapsto> r), ss_cache := c\<rparr>)" using db assms(3-5) by (auto simp: db_ok_def)
  moreover have "\<exists>z. ((ss_db s)(u \<mapsto> r)) q = Some z \<and> v = VInt (v_status z)"
    if g: "cache_get (vm_status_key q) (s\<lparr>ss_db := (ss_db s)(u \<mapsto> r), ss_cache := c\<rparr>) = Some v" for q v
  proof (cases "q = u")
    case True
    show ?thesis using assms(6)
    proof
      assume c: "c = ss_cache s \<and> v_status r = v_status row"
      then have "cache_get (vm_status_key u) s = Some v" using g True by (simp add: cache_get_def)
      then obtain z where "ss_db s u = Some z" "v = VInt (v_status z)" using co unfolding coherent_def by blast
      with assms(2) have "v = VInt (v_status row)" by simp
      with c True show ?thesis by simp
    next
      assume "c = (ss_cache s)(vm_status_key u \<mapsto> VInt (v_status r), vm_status_change_key u \<mapsto> w)"
      then have "v = VInt (v_status r)" using g True by (simp add: cache_get_def)
      with True show ?thesis by simp
    qed
  next
    case False
    then have "cache_get (vm_status_key q) s = Some v" using g assms(6) by (auto simp: cache_get_def)
    then obtain z where "ss_db s q = Some z" "v = VInt (v_status z)" using co unfolding coherent_def by blast
    with False show ?thesis by simp
  qed
  ultimately show ?thesis by (simp add: status_inv_def coherent_def)
qed

text \<open>An object whose row still has the status that the object had when it was read.\<close>

definition settled :: "vm \<Rightarrow> status_state \<Rightarrow> bool" where
  "settled x s \<longleftrightarrow> status_inv s \<and> (\<exists>row. ss_db s (v_uuid x) = Some row \<and> v_status row = v_orig_status x)"

lemma current_settled: "current x s \<Longrightarrow> settled x s"
  by (auto simp: current_def settled_def)

lemma settled_upd [simp]:
  "settled (x\<lparr>v_status := st\<rparr>) s = settled x s" "settled (x\<lparr>v_json := js\<rparr>) s = settled x s"
  "settled (x\<lparr>v_json_active := js\<rparr>) s = settled x s" "settled (x\<lparr>v_update_changed := b\<rparr>) s = settled x s"
  "settled (x\<lparr>v_node := n\<rparr>) s = settled x s" "settled (x\<lparr>v_orig_node := n\<rparr>) s = settled x s"
  "settled (x\<lparr>v_node_changed := b\<rparr>) s = settled x s"
  "settled x (s\<lparr>ss_out := es\<rparr>) = settled x s" "settled x (s\<lparr>ss_ips := is\<rparr>) = settled x s" "settled x (s\<lparr>ss_finished := f\<rparr>) = settled x s"
  by (simp_all add: settled_def)

lemma settled_inv: "settled x s \<Longrightarrow> status_inv s" by (simp add: settled_def)

lemma st_save_settles:
  assumes "st_save env a x s = (Inr y, t)" "\<not> sv_update_hostname a" "ss_db s (v_uuid x) = Some row"
  shows "\<exists>w rest. resources_only rest \<and> t = s\<lparr>ss_db := (ss_db s)(v_uuid x \<mapsto> write_fields (sv_fields a) y row),
      ss_cache := (if v_status x \<noteq> v_orig_status x \<and> saves_status a
        then (ss_cache s)(vm_status_key (v_uuid x) \<mapsto> VInt (v_status x), vm_status_change_key (v_uuid x) \<mapsto> w) else ss_cache s),
      ss_out := ss_out s @ map ResourcesUpdated rest\<rparr>"
proof -
  obtain es where v: "vm_save (se_save env) a x = Inr (y, es)" and t: "t = foldl (run_effect y) s es"
    using assms(1) by (auto simp: st_save_def split: sum.splits prod.splits if_splits)
  note r = vm_save_result [OF v assms(2)]
  obtain w rest where es: "es = DbSave (sv_fields a) # status_sets a x w @ rest" "resources_only rest" using r(5) by blast
  define s1 where "s1 = s\<lparr>ss_db := (ss_db s)(v_uuid x \<mapsto> write_fields (sv_fields a) y row)\<rparr>"
  have d: "run_effect y s (DbSave (sv_fields a)) = s1"
    unfolding s1_def run_effect_def effect.case r(1)
    using assms(3) by (cases "sv_fields a") (simp_all add: write_fields_def)
  have c: "foldl (run_effect y) s1 (status_sets a x w) = s1\<lparr>ss_cache := (if v_status x \<noteq> v_orig_status x \<and> saves_status a
        then (ss_cache s)(vm_status_key (v_uuid x) \<mapsto> VInt (v_status x), vm_status_change_key (v_uuid x) \<mapsto> w) else ss_cache s)\<rparr>"
    by (simp add: status_sets_def run_effect_def s1_def)
  have "t = s\<lparr>ss_db := (ss_db s)(v_uuid x \<mapsto> write_fields (sv_fields a) y row),
      ss_cache := (if v_status x \<noteq> v_orig_status x \<and> saves_status a
        then (ss_cache s)(vm_status_key (v_uuid x) \<mapsto> VInt (v_status x), vm_status_change_key (v_uuid x) \<mapsto> w) else ss_cache s),
      ss_out := ss_out s @ map ResourcesUpdated rest\<rparr>"
    unfolding t es(1) foldl.simps d foldl_append c run_resources [OF es(2)] by (simp add: s1_def)
  with es(2) show ?thesis by blast
qed

lemma st_save_inv:
  assumes "st_save env a x s = (Inr y, t)" "\<not> sv_update_hostname a" "status_inv s" "ss_db s (v_uuid x) = Some row"
    "v_status x \<noteq> v_orig_status x \<and> saves_status a \<or> v_status x = v_orig_status x \<and> v_status row = v_status x"
  shows "status_inv t" "v_uuid y = v_uuid x" "v_status y = v_status x" "current y t"
proof -
  obtain es where v: "vm_save (se_save env) a x = Inr (y, es)"
    using assms(1) by (auto simp: st_save_def split: sum.splits prod.splits if_splits)
  note r = vm_save_result [OF v assms(2)]
  obtain w rest where t: "t = s\<lparr>ss_db := (ss_db s)(v_uuid x \<mapsto> write_fields (sv_fields a) y row),
      ss_cache := (if v_status x \<noteq> v_orig_status x \<and> saves_status a
        then (ss_cache s)(vm_status_key (v_uuid x) \<mapsto> VInt (v_status x), vm_status_change_key (v_uuid x) \<mapsto> w) else ss_cache s),
      ss_out := ss_out s @ map ResourcesUpdated rest\<rparr>"
    using st_save_settles [OF assms(1,2,4)] by blast
  let ?r = "write_fields (sv_fields a) y row"
  have db: "db_ok s" using assms(3) by (simp add: status_inv_def)
  have rw: "v_uuid row = v_uuid x" "v_vnc_port row \<noteq> None" "v_created row \<noteq> None" using db assms(4) by (auto simp: db_ok_def)
  have r': "v_uuid ?r = v_uuid x" "v_vnc_port ?r \<noteq> None" "v_created ?r \<noteq> None"
    using r(1,3) rw by (auto simp: write_fields_def plain_vm_def split: option.split)
  have st: "v_status ?r = v_status x"
    using r(2) assms(5) by (cases "sv_fields a") (auto simp: saves_status_def write_fields_def)
  have "status_inv (s\<lparr>ss_db := (ss_db s)(v_uuid x \<mapsto> ?r),
      ss_cache := (if v_status x \<noteq> v_orig_status x \<and> saves_status a
        then (ss_cache s)(vm_status_key (v_uuid x) \<mapsto> VInt (v_status x), vm_status_change_key (v_uuid x) \<mapsto> w) else ss_cache s)\<rparr>)"
    by (rule status_inv_write [OF assms(3,4) r']) (use st assms(5) in \<open>auto\<close>)
  then show inv: "status_inv t" unfolding t by (simp del: fun_upd_apply split del: if_split)
  show "v_uuid y = v_uuid x" "v_status y = v_status x" by (rule r(1), rule r(2))
  have "v_orig_status y = v_status y" using r(2,4) assms(5) by auto
  moreover have "ss_db t (v_uuid y) = Some ?r" using r(1) by (simp add: t)
  ultimately show "current y t" using inv r(1-3) st unfolding current_def by auto
qed

lemma st_save_failed: "st_save env a x s = (Inl e, t) \<Longrightarrow> t = s"
  by (auto simp: st_save_def split: sum.splits prod.splits if_splits)

lemma triple_any_save:
  assumes "\<not> sv_update_hostname a" "saves_status a \<or> v_status x = v_orig_status x"
  shows "triple (settled x) (st_save env a x) (\<lambda>y s. current y s \<and> v_uuid y = v_uuid x \<and> v_status y = v_status x) status_inv"
proof (rule tripleI)
  fix s e t assume "settled x s" "st_save env a x s = (Inl e, t)"
  then show "status_inv t" using st_save_failed settled_inv by blast
next
  fix s y t assume s: "settled x s" and y: "st_save env a x s = (Inr y, t)"
  obtain row where row: "ss_db s (v_uuid x) = Some row" "v_status row = v_orig_status x" using s by (auto simp: settled_def)
  have "v_status x \<noteq> v_orig_status x \<and> saves_status a \<or> v_status x = v_orig_status x \<and> v_status row = v_status x"
    using assms(2) row(2) by auto
  from st_save_inv [OF y assms(1) settled_inv [OF s] row(1) this]
  show "current y t \<and> v_uuid y = v_uuid x \<and> v_status y = v_status x" by blast
qed

text \<open>A status that differs from the one that was read can be saved whatever happened to the row.\<close>

lemma triple_stale_save:
  assumes "v_status x \<noteq> v_orig_status x" "''status'' \<in> set fs"
  shows "triple status_inv (st_save env (status_args fs ct) x) (\<lambda>y s. current y s \<and> v_uuid y = v_uuid x) status_inv"
proof (rule tripleI)
  fix s e t assume "status_inv s" "st_save env (status_args fs ct) x s = (Inl e, t)"
  then show "status_inv t" using st_save_failed by blast
next
  fix s y t assume s: "status_inv s" and y: "st_save env (status_args fs ct) x s = (Inr y, t)"
  have u: "v_uuid z = v_uuid x" if "vm_save (se_save env) (status_args fs ct) x = Inr (z, es)" for z es
    by (rule vm_save_result(1) [OF that]) (simp add: status_args_def)
  have "ss_db s (v_uuid x) \<noteq> None"
  proof (cases "vm_save (se_save env) (status_args fs ct) x")
    case (Inr p)
    obtain z es where p: "p = (z, es)" by force
    show ?thesis using y u [OF Inr [unfolded p]] by (auto simp: st_save_def Inr p args_fields(1) simp del: not_None_eq split: if_splits)
  qed (use y in \<open>simp add: st_save_def\<close>)
  then obtain row where row: "ss_db s (v_uuid x) = Some row" by blast
  have "v_status x \<noteq> v_orig_status x \<and> saves_status (status_args fs ct)"
    using assms by (simp add: saves_status_def args_fields(1))
  then show "current y t \<and> v_uuid y = v_uuid x"
    using st_save_inv [OF y _ s row] by (simp add: status_args_def)
qed

section \<open>Requests\<close>

lemma triple_save_mark:
  "triple (current x) (st_save_status env None ct (x\<lparr>v_status := v\<rparr>)) (\<lambda>y s. current y s \<and> v_uuid y = v_uuid x) status_inv"
  unfolding st_save_status_def option.case
  by (rule triple_conseq [OF triple_any_save]) (auto simp: status_args_def saves_status_def dest: current_settled)

lemma triple_save_notready:
  "triple (current x) (st_save_status env None ct (set_notready x)) (\<lambda>y s. current y s \<and> v_uuid y = v_uuid x) status_inv"
  "triple (current x) (st_save_status env None ct (revert_notready x)) (\<lambda>y s. current y s \<and> v_uuid y = v_uuid x) status_inv"
  unfolding set_notready_def revert_notready_def by (rule triple_save_mark)+

lemma triple_submit:
  assumes "triple P m (\<lambda>_. P) P" "triple P undo (\<lambda>_. status_inv) status_inv" "triple P respond (\<lambda>_. status_inv) status_inv"
  shows "triple P (submit_or_undo m undo respond) (\<lambda>_. status_inv) status_inv"
proof (rule tripleI)
  fix s e t assume "P s" "submit_or_undo m undo respond s = (Inl e, t)"
  then show "status_inv t" using assms
    by (auto simp: submit_or_undo_def split: prod.splits sum.splits option.splits dest: tripleD)
next
  fix s r t assume "P s" "submit_or_undo m undo respond s = (Inr r, t)"
  then show "status_inv t" using assms
    by (auto simp: submit_or_undo_def split: prod.splits sum.splits option.splits dest: tripleD)
qed

lemma triple_uuid:
  assumes "triple (current y) m (\<lambda>z s. current z s \<and> v_uuid z = v_uuid y) E"
  shows "triple (\<lambda>s. current y s \<and> v_uuid y = u) m (\<lambda>z s. current z s \<and> v_uuid z = u) E"
proof (cases "v_uuid y = u")
  case True
  then show ?thesis using assms by simp
next
  case False
  then show ?thesis by (simp add: triple_def)
qed

lemma triple_same_pres: "triple P (pres r) (\<lambda>_. P) P"
  by (rule triple_pres)

lemma triple_manage_get_vm: "triple status_inv (manage_get_vm env b u) (\<lambda>x s. current x s \<and> v_uuid x = u) status_inv"
  unfolding manage_get_vm_def
  by (rule triple_pbind [OF triple_load_vm]) (auto intro!: triple_option triple_api_error triple_if triple_pret)

text \<open>The choice of a node may change the VM but leaves what it saved consistent.\<close>

definition choice_ok :: "manage_env \<Rightarrow> bool" where
  "choice_ok env \<longleftrightarrow> (\<forall>x. triple (current x) (me_choose env x) (\<lambda>y s. current y s) status_inv)"

lemma triple_post_place:
  assumes "choice_ok env"
  shows "triple (current x) (post_place env rq recreate force x) (\<lambda>(y, m) s. current y s) status_inv"
proof -
  have c: "triple (current x) (if b then me_choose env x else pret x) (\<lambda>y. current y) status_inv" for b
    using assms by (auto simp: choice_ok_def intro: triple_pret)
  show ?thesis unfolding post_place_def
    by (intro triple_if triple_pbind [OF triple_current_pres] triple_api_error triple_pbind [OF c] triple_pret) (auto dest: current_inv)
qed

lemma set_root_pw_frame: "set_root_pw pw x = Inr y \<Longrightarrow> \<exists>js. y = x\<lparr>v_json := js\<rparr>"
  by (auto simp: set_root_pw_def rbind_Inr_iff)

lemma post_ready_frame: "post_ready env x = Inr (d, r, y) \<Longrightarrow> \<exists>js. y = x\<lparr>v_json := js\<rparr>"
proof -
  assume "post_ready env x = Inr (d, r, y)"
  then have "y = x \<or> set_root_pw (me_password env) x = Inr y"
    by (auto simp: post_ready_def rbind_Inr_iff split: if_splits)
  then show ?thesis
  proof
    assume "y = x"
    then have "y = x\<lparr>v_json := v_json x\<rparr>" by simp
    then show ?thesis ..
  qed (rule set_root_pw_frame)
qed

lemma triple_full_save:
  "triple (current x) (st_save env full_save (x\<lparr>v_json := js, v_status := v\<rparr>)) (\<lambda>y s. current y s \<and> v_uuid y = v_uuid x) status_inv"
  by (rule triple_conseq [OF triple_any_save]) (auto simp: full_save_def saves_status_def dest: current_settled)

lemma triple_post_execute: "triple (current z) (post_execute env z cmd stdin msg a) (\<lambda>_. current z) (current z)"
proof -
  have ex: "triple (current z) (case p of (n, key) \<Rightarrow> api_execute e (q n) c l cb args (mt n key)) (\<lambda>_. current z) (current z)"
    for p and q :: "node_ref \<Rightarrow> string" and e c l cb args and mt :: "node_ref \<Rightarrow> string option \<Rightarrow> pydict"
    by (cases p) (auto intro: triple_api_execute)
  show ?thesis unfolding post_execute_def by (rule triple_pbind [OF triple_same_pres]) (rule ex)
qed

lemma triple_post_submit: "triple (current x) (post_submit env tid recreate cmds msg x) (\<lambda>_. status_inv) status_inv"
proof -
  have tail: "triple (current z) (pbind (pres r) (\<lambda>js. submit_or_undo (post_execute env z (c z) (st js) msg (a z))
       (st_save_status e None None (z\<lparr>v_status := v\<rparr>))
       (pbind (vm_status_changed e tid z CREATING None False False None) (\<lambda>_. pret (TaskStarted msg))))) (\<lambda>_. status_inv) status_inv"
    for z r e v and c :: "vm \<Rightarrow> string" and st :: "'a \<Rightarrow> string" and a :: "vm \<Rightarrow> pydict"
    by (rule triple_pbind [OF triple_current_pres], rule triple_submit [OF triple_post_execute])
      (auto intro!: triple_conseq [OF triple_save_mark] triple_pbind [OF triple_vm_status_changed] triple_pret dest: current_inv)
  show ?thesis
  proof (cases "post_ready env x")
    case (Inl e)
    then show ?thesis by (auto simp: post_submit_def triple_def prog_defs dest: current_inv)
  next
    case (Inr p)
    obtain d r y where p: "p = (d, r, y)" using prod_cases3 by blast
    obtain js where y: "y = x\<lparr>v_json := js\<rparr>" using post_ready_frame Inr p by blast
    have a: "triple (current x) (pbind (st_save (ae_status (me_api env)) full_save (y\<lparr>v_status := CREATING\<rparr>)) f) (\<lambda>_. status_inv) status_inv"
      if "\<And>z. triple (current z) (f z) (\<lambda>_. status_inv) status_inv" for f :: "vm \<Rightarrow> api_response sprog"
      unfolding y by (rule triple_pbind [OF triple_full_save], rule triple_pre [OF that]) simp
    have "pbind (pres (Inr (d, r, y))) f s = f (d, r, y) s" for f :: "bool \<times> bool \<times> vm \<Rightarrow> api_response sprog" and s
      by (simp add: prog_defs)
    then have b: "pbind (pres (Inr (d, r, y))) f = f (d, r, y)" for f :: "bool \<times> bool \<times> vm \<Rightarrow> api_response sprog"
      by (rule ext)
    show ?thesis unfolding post_submit_def Inr p b prod.case by (rule a, rule tail)
  qed
qed

lemma triple_manage_post:
  assumes "choice_ok env"
  shows "triple status_inv (manage_post env rq tid u) (\<lambda>_. status_inv) status_inv"
proof -
  have p: "triple ((case p of (y, m) \<Rightarrow> current y) :: status_state \<Rightarrow> bool)
      (case p of (y, msg) \<Rightarrow> post_submit env tid r c msg y) (\<lambda>_. status_inv) status_inv" for p r c
    by (cases p) (simp add: triple_post_submit)
  have b: "triple (current x) (case q of Inl errors \<Rightarrow> pret (FailureResponse errors)
     | Inr (recreate, force) \<Rightarrow> pbind (pres r1) (\<lambda>_. pbind (pres r2) (\<lambda>cmds.
           pbind (post_place env rq recreate force x) (\<lambda>(y, msg). post_submit env tid recreate cmds msg y))))
     (\<lambda>_. status_inv) status_inv" for x q r1 r2
    by (auto intro!: triple_pret triple_pbind [OF triple_current_pres] triple_pbind [OF triple_post_place [OF assms]] p triple_post_submit
        dest: current_inv split: sum.split)
  show ?thesis unfolding manage_post_def
    by (rule triple_pbind [OF triple_manage_get_vm], rule triple_pre [OF b]) simp
qed

lemma triple_put_execute: "triple (current x) (put_execute env c force x) (\<lambda>_. status_inv) status_inv"
proof -
  have s: "triple (\<lambda>s. current y s \<and> v_uuid y = v_uuid x) (submit_or_undo (api_execute e q m l cb args mt)
      (st_save_status e None None (revert_notready y)) (pret r)) (\<lambda>_. status_inv) status_inv" for y e q m l cb args mt r
    by (rule triple_pre [OF triple_submit [where P = "current y"]])
      (auto intro: triple_api_execute triple_conseq [OF triple_save_notready(2)] triple_pret dest: current_inv)
  show ?thesis unfolding put_execute_def
    by (rule triple_if, rule triple_api_error, erule current_inv, rule triple_pbind [OF triple_save_notready(1)], rule s)
qed

lemma triple_manage_put: "triple status_inv (manage_put env rq tid u) (\<lambda>_. status_inv) status_inv"
proof -
  have o: "triple (current x) (pbind (out es) (\<lambda>_. pret r)) (\<lambda>_. status_inv) status_inv" for x es and r :: api_response
    by (rule triple_pbind [where R = "\<lambda>_. current x"], rule triple_out, simp, rule triple_pret, erule current_inv)
  have b: "triple (current x) (if \<not> a then api_error PermissionDenied [] else pbind (pres r1) (\<lambda>n.
     if v_status x \<notin> S then api_error VmIsNotOperational m
     else if b1 then pbind (pres (r2 n)) (\<lambda>c. put_execute env c True x)
     else if b2 then pbind (pres (r3 n)) (\<lambda>c. put_execute env c False x)
     else pbind (out es) (\<lambda>_. pret r))) (\<lambda>_. status_inv) status_inv" for x a r1 S m b1 b2 es r and r2 r3 :: "'a \<Rightarrow> update_command res"
    by (intro triple_if triple_api_error triple_pbind [OF triple_current_pres] triple_put_execute o) (auto dest: current_inv)
  show ?thesis unfolding manage_put_def
    by (rule triple_pbind [OF triple_manage_get_vm], rule triple_pre [OF b]) simp
qed

lemma triple_manage_delete: "triple status_inv (manage_delete env rq u) (\<lambda>_. status_inv) status_inv"
proof -
  have s: "triple (\<lambda>s. current y s \<and> v_uuid y = w) (submit_or_undo (pbind (pres r1) (\<lambda>n. api_execute e (q n) m l cb args mt))
      (st_save_status e None None (revert_notready y)) (pret r)) (\<lambda>_. status_inv) status_inv"
    for y w r1 e m l cb args mt r and q :: "node_ref \<Rightarrow> string"
    by (rule triple_pre [OF triple_submit [where P = "current y"]])
      (auto intro: triple_pbind [OF triple_same_pres triple_api_execute] triple_conseq [OF triple_save_notready(2)] triple_pret
        dest: current_inv)
  have b: "triple (\<lambda>s. current x s \<and> v_uuid x = u) (pbind (pres r0) (\<lambda>_. pbind (st_save_status e None None (set_notready x)) (\<lambda>y.
      submit_or_undo (pbind (pres (the_node y)) (\<lambda>n. api_execute e (q n) (m y) (l y) cb (args y) (mt y)))
      (st_save_status e None None (revert_notready y)) (pret r)))) (\<lambda>_. status_inv) status_inv"
    for x r0 e m l cb args mt r and q :: "node_ref \<Rightarrow> string"
    by (rule triple_pre [where P' = "current x"], rule triple_pbind [OF triple_current_pres],
        rule triple_pbind [OF triple_save_notready(1)], rule s) simp
  show ?thesis unfolding manage_delete_def by (rule triple_pbind [OF triple_manage_get_vm], rule b)
qed

section \<open>Callbacks\<close>

lemma triple_vm_status_changed_current:
  "triple (current x) (vm_status_changed env tid x st None save over t) (\<lambda>y s. current y s \<and> v_uuid y = v_uuid x) status_inv"
proof -
  have weak: "triple (current x) (\<lambda>s. (newer_change (v_uuid x) t s, s)) (\<lambda>b s. current x s) status_inv"
    by (rule tripleI) (auto dest: current_inv)
  let ?Q = "\<lambda>y s. current y s \<and> v_uuid y = v_uuid x"
  have save: "triple (current x) (if save then save_new_status env x st None t else pret x) ?Q status_inv"
    by (auto intro!: triple_pret triple_conseq [OF triple_save_new_status])
  have rest: "triple (?Q y) (pbind (pwhen over (set_deploy_finished y)) (\<lambda>_. if is_slave_vm y then pret y else
      pbind (pres r) (\<lambda>tid'. pbind (out (changed_events tid' y)) (\<lambda>_. pret y)))) ?Q status_inv" for y r
    unfolding pwhen_def set_deploy_finished_def
    by (rule triple_pbind [where R = "\<lambda>_. ?Q y"])
      (auto intro!: triple_if triple_pmod triple_pret triple_pbind [where R = "\<lambda>_. ?Q y"] triple_pres triple_out dest: current_inv)
  show ?thesis unfolding vm_status_changed_def
    by (rule triple_pbind [OF weak], rule triple_if, rule triple_pret, simp, rule triple_pbind [OF save], rule rest)
qed

lemma triple_vm_error: "triple (current x) (vm_error env x) (\<lambda>y s. current y s \<and> v_uuid y = v_uuid x) status_inv"
  unfolding vm_error_def
  by (rule triple_pbind [OF triple_save_mark], rule triple_pbind [OF triple_commands(2)]) (auto intro: triple_pret dest: current_inv)

text \<open>An error can be saved for an object that also changed in memory.\<close>

lemma triple_vm_error_settled: "triple (settled x) (vm_error env x) (\<lambda>y s. current y s \<and> v_uuid y = v_uuid x) status_inv"
proof -
  have "triple (settled x) (st_save_status env None None (x\<lparr>v_status := ERROR\<rparr>)) (\<lambda>y s. current y s \<and> v_uuid y = v_uuid x) status_inv"
    unfolding st_save_status_def option.case
    by (rule triple_conseq [OF triple_any_save]) (auto simp: status_args_def saves_status_def)
  then show ?thesis unfolding vm_error_def
    by (rule triple_pbind, intro triple_pbind [OF triple_commands(2)]) (auto intro: triple_pret dest: current_inv)
qed

lemma triple_delete_snapshots: "(\<And>s es. P s \<Longrightarrow> P (s\<lparr>ss_out := es\<rparr>)) \<Longrightarrow> triple P (delete_snapshots x) (\<lambda>_. P) E"
  unfolding delete_snapshots_def by (rule triple_out) simp

lemma save_metadata_frame: "save_metadata k v x = Inr y \<Longrightarrow> \<exists>js. y = x\<lparr>v_json := js\<rparr>"
  by (auto simp: save_metadata_def save_item_def rbind_Inr_iff split: option.splits)

lemma triple_create_cb_failed:
  "triple (current x) (vm_create_cb_failed env r tid x inform) (\<lambda>y s. current y s \<and> v_uuid y = v_uuid x) status_inv"
proof -
  let ?Q = "\<lambda>(y, v :: int) s. current y s \<and> v_uuid y = v_uuid x"
  have fin: "triple (?Q p) ((\<lambda>(y, v). if inform then (if v_status y \<noteq> v then vm_status_changed env tid y v None True False None else pret y)
     else st_save_status env None None (y\<lparr>v_status := v\<rparr>)) p) (\<lambda>y s. current y s \<and> v_uuid y = v_uuid x) status_inv" for p
  proof (cases p)
    case (Pair y v)
    have "triple (current y) (if inform then (if v_status y \<noteq> v then vm_status_changed env tid y v None True False None else pret y)
       else st_save_status env None None (y\<lparr>v_status := v\<rparr>)) (\<lambda>z s. current z s \<and> v_uuid z = v_uuid y) status_inv"
      by (intro triple_if triple_vm_status_changed_current triple_save_mark triple_pret) simp
    from triple_uuid [OF this] show ?thesis unfolding Pair prod.case .
  qed
  have sv: "triple (current x) (pbind (pres (save_metadata k v x)) (\<lambda>y.
      pbind (st_save env (status_args [''enc_json'', ''changed''] None) y) (\<lambda>z. pret (z, w)))) ?Q status_inv" for k v w
  proof (cases "save_metadata k v x")
    case (Inl e)
    then show ?thesis by (auto simp: triple_def prog_defs dest: current_inv)
  next
    case (Inr y)
    obtain js where y: "y = x\<lparr>v_json := js\<rparr>" using save_metadata_frame [OF Inr] by blast
    have "triple (current x) (st_save env (status_args [''enc_json'', ''changed''] None) y) (\<lambda>z s. current z s \<and> v_uuid z = v_uuid x) status_inv"
    proof (cases "v_orig_status x = v_status x")
      case True
      then show ?thesis unfolding y
        by (intro triple_conseq [OF triple_any_save]) (auto simp: status_args_def saves_status_def dest: current_settled)
    next
      case False
      then show ?thesis by (simp add: triple_def current_def)
    qed
    then have "triple (current x) (pbind (st_save env (status_args [''enc_json'', ''changed''] None) y) (\<lambda>z. pret (z, w))) ?Q status_inv"
      by (rule triple_pbind) (rule triple_pret, simp)
    moreover have "pbind (pres (Inr y)) f = f y" for f :: "vm \<Rightarrow> 'q sprog" by (rule ext) (simp add: prog_defs)
    ultimately show ?thesis unfolding Inr by metis
  qed
  have "triple (current x) (if mr_recreate r then (if startswith (mr_message r) ''Successfully deleted''
        then pbind (delete_snapshots x) (\<lambda>_. pbind (pres (save_metadata ''installed'' (VBool False) x)) (\<lambda>y.
            pbind (st_save env (status_args [''enc_json'', ''changed''] None) y) (\<lambda>z. pret (z, NOTCREATED))))
        else pret (x, STOPPED)) else pret (x, NOTCREATED)) ?Q status_inv"
    by (intro triple_if triple_pbind [OF triple_delete_snapshots] sv triple_pret) auto
  then show ?thesis unfolding vm_create_cb_failed_def by (rule triple_pbind) (rule fin)
qed

text \<open>The output of the node is taken over in memory.\<close>

definition taken_vm :: "vm \<Rightarrow> vm \<Rightarrow> status_state \<Rightarrow> bool" where
  "taken_vm x y s \<longleftrightarrow> settled y s \<and> v_uuid y = v_uuid x \<and> v_status y = v_orig_status y"

lemma taken_json [simp]: "taken_vm x (y\<lparr>v_json := js\<rparr>) s = taken_vm x y s"
  "taken_vm x (y\<lparr>v_json_active := js\<rparr>) s = taken_vm x y s" "taken_vm x (y\<lparr>v_update_changed := b\<rparr>) s = taken_vm x y s"
  "taken_vm x (y\<lparr>v_node := n\<rparr>) s = taken_vm x y s" "taken_vm x (y\<lparr>v_orig_node := n\<rparr>) s = taken_vm x y s"
  "taken_vm x (y\<lparr>v_node_changed := b\<rparr>) s = taken_vm x y s" "taken_vm x y (s\<lparr>ss_out := es\<rparr>) = taken_vm x y s"
  by (simp_all add: taken_vm_def)

lemma current_taken: "current x s \<Longrightarrow> taken_vm x x s"
  by (auto simp: taken_vm_def current_settled) (simp add: current_def)

lemma taken_inv: "taken_vm x y s \<Longrightarrow> status_inv s" by (simp add: taken_vm_def settled_def)

lemma triple_take_created: "triple (current x) (take_created env r x) (\<lambda>(b, y) s. taken_vm x y s) status_inv"
proof -
  have m: "triple (taken_vm x y) (case save_metadata k v y of Inl e \<Rightarrow> pret (False, y) | Inr z \<Rightarrow> pret (True, z))
      (\<lambda>(b, y) s. taken_vm x y s) status_inv" for y k v
  proof (cases "save_metadata k v y")
    case (Inr z)
    then obtain js where "z = y\<lparr>v_json := js\<rparr>" using save_metadata_frame by blast
    then show ?thesis by (auto simp: Inr intro: triple_pret)
  qed (auto intro: triple_pret)
  show ?thesis
  proof (cases "load_output env r")
    case (Inl e)
    then show ?thesis by (auto simp: take_created_def intro: triple_pret current_taken)
  next
    case (Inr js)
    let ?y = "x\<lparr>v_json_active := js, v_json := js, v_update_changed := True\<rparr>"
    have "triple (taken_vm x ?y) (if \<not> mr_recreate r then pret (True, ?y)
         else pbind (delete_snapshots ?y) (\<lambda>_. case save_metadata ''installed'' (VBool False) ?y of
             Inl e \<Rightarrow> pret (False, ?y) | Inr z \<Rightarrow> pret (True, z))) (\<lambda>(b, y) s. taken_vm x y s) status_inv"
      by (rule triple_if, rule triple_pret, simp, rule triple_pbind [OF triple_delete_snapshots m]) simp
    then show ?thesis unfolding take_created_def Inr sum.case Let_def by (rule triple_pre) (simp add: current_taken)
  qed
qed

text \<open>A transaction that leaves the cache alone.\<close>

lemma triple_db_atomic_inv:
  assumes "triple P m Q E" "\<And>s. P s \<Longrightarrow> status_inv s" "\<And>s e t. P s \<Longrightarrow> m s = (Inl e, t) \<Longrightarrow> ss_cache t = ss_cache s"
  shows "triple P (db_atomic m) Q status_inv"
proof (rule tripleI)
  fix s e t assume s: "P s" and "db_atomic m s = (Inl e, t)"
  then obtain u where u: "m s = (Inl e, u)" "t = u\<lparr>ss_db := ss_db s, ss_ips := ss_ips s\<rparr>"
    by (auto simp: db_atomic_def split: prod.splits sum.splits)
  show "status_inv t"
    using assms(2) [OF s] assms(3) [OF s u(1)] by (simp add: u(2) status_inv_def db_ok_def coherent_def cache_get_def)
next
  fix s y t assume s: "P s" and "db_atomic m s = (Inr y, t)"
  then have "m s = (Inr y, t)" by (auto simp: db_atomic_def split: prod.splits sum.splits)
  then show "Q y t" by (rule tripleD(1) [OF assms(1) s])
qed

lemma save_signal_cache:
  assumes "taken_vm x y s" "\<not> sv_update_hostname a"
    "pbind (st_save env a y) (\<lambda>y. pbind (st_ip_usage y) (\<lambda>_. pbind (out (es y)) (\<lambda>_. pret y))) s = (r, t)"
  shows "ss_cache t = ss_cache s"
proof -
  obtain row where row: "ss_db s (v_uuid y) = Some row" using assms(1) by (auto simp: taken_vm_def settled_def)
  obtain q u where q: "st_save env a y s = (q, u)" by force
  have "ss_cache u = ss_cache s"
  proof (cases q)
    case (Inl e)
    then show ?thesis using st_save_failed q by blast
  next
    case (Inr z)
    then show ?thesis using st_save_settles [OF q [unfolded Inr] assms(2) row] assms(1) by (auto simp: taken_vm_def)
  qed
  moreover have "ss_cache t = ss_cache u"
    using assms(3) by (auto simp: pbind_def q st_ip_usage_def out_def pmod_def pret_def split: sum.splits prod.splits)
  ultimately show ?thesis by simp
qed

lemma triple_save_signal:
  assumes "\<not> sv_update_hostname a"
  shows "triple (taken_vm x y) (db_atomic (pbind (st_save env a y) (\<lambda>y. pbind (st_ip_usage y) (\<lambda>_. pbind (out (es y)) (\<lambda>_. pret y)))))
    (\<lambda>z s. current z s \<and> v_uuid z = v_uuid x) status_inv"
proof (rule triple_db_atomic_inv)
  have s: "triple (taken_vm x y) (st_save env a y) (\<lambda>z s. current z s \<and> v_uuid z = v_uuid x) status_inv"
  proof (cases "v_status y = v_orig_status y \<and> v_uuid y = v_uuid x")
    case True
    with assms show ?thesis by (intro triple_conseq [OF triple_any_save]) (auto simp: taken_vm_def)
  qed (auto simp: triple_def taken_vm_def)
  show "triple (taken_vm x y) (pbind (st_save env a y) (\<lambda>y. pbind (st_ip_usage y) (\<lambda>_. pbind (out (es y)) (\<lambda>_. pret y))))
    (\<lambda>z s. current z s \<and> v_uuid z = v_uuid x) status_inv"
    by (auto intro!: triple_pbind [OF s] triple_pbind [where R = "\<lambda>_ s. current _ s \<and> v_uuid _ = v_uuid x"] triple_ip_usage triple_out triple_pret
          dest: current_inv)
qed (auto dest: taken_inv save_signal_cache [OF _ assms])

lemma triple_create_cb_start: "triple status_inv (create_cb_start env r tid u) (\<lambda>_. status_inv) status_inv"
proof -
  have err: "triple (taken_vm x y) (pbind (vm_error e y) (\<lambda>_. pres (Inl exn))) (\<lambda>_. status_inv) status_inv" for x y e exn
    by (rule triple_pbind [OF triple_pre [OF triple_vm_error_settled]]) (auto simp: taken_vm_def intro: triple_pres dest: current_inv)
  have err': "triple (\<lambda>s. current y s \<and> v_uuid y = w) (pbind (vm_error e y) (\<lambda>_. pres (Inl exn))) (\<lambda>_. status_inv) status_inv" for y w e exn
    by (rule triple_pbind [OF triple_pre [OF triple_vm_error]]) (auto intro: triple_pres dest: current_inv)
  have mail: "triple (\<lambda>s. current y s \<and> v_uuid y = w) (pbind (pwhen b (out es)) (\<lambda>_. pret y)) (\<lambda>_. status_inv) status_inv" for y w b es
    by (rule triple_pbind [where R = "\<lambda>_. status_inv"]) (auto simp: pwhen_def intro!: triple_out triple_pret dest: current_inv)
  have tk: "triple ((case p of (b, y) \<Rightarrow> taken_vm x y) :: status_state \<Rightarrow> bool) (case p of (taken, y) \<Rightarrow>
      if \<not> taken then pbind (vm_error e y) (\<lambda>_. pres (Inl exn)) else pbind (save_created e tid y) (f y)) (\<lambda>_. status_inv) status_inv"
    if "\<And>y z w. triple (\<lambda>s. current z s \<and> v_uuid z = w) (f y z) (\<lambda>_. status_inv) status_inv"
    for p x e exn and f :: "vm \<Rightarrow> vm \<Rightarrow> vm sprog"
    unfolding save_created_def
    by (cases p) (auto simp: resources_args_def intro!: triple_if err triple_pbind [OF triple_save_signal] that)
  have ok: "triple (current x) (pbind (take_created e r x) (\<lambda>(taken, y).
      if \<not> taken then pbind (vm_error e y) (\<lambda>_. pres (Inl exn))
      else pbind (save_created e tid y) (\<lambda>z. if b then pbind (vm_error e z) (\<lambda>_. pres (Inl exn'))
        else pbind (pwhen c (out (es z))) (\<lambda>_. pret z)))) (\<lambda>_. status_inv) status_inv" for x e exn exn' b c es
    by (rule triple_pbind [OF triple_take_created], rule tk, rule triple_if, rule err', rule mail)
  have bad: "triple (current x) (pbind (vm_create_cb_failed e r tid x True) (\<lambda>y. pbind (if b then vm_error e y else pret y)
      (\<lambda>_. pres (Inl exn)))) (\<lambda>_. status_inv) status_inv" for x e exn b
  proof (rule triple_pbind [OF triple_create_cb_failed])
    fix y
    have "triple (current y) (if b then vm_error e y else pret y) (\<lambda>_. status_inv) status_inv"
      by (intro triple_if triple_conseq [OF triple_vm_error] triple_pret) (auto dest: current_inv)
    then show "triple (\<lambda>s. current y s \<and> v_uuid y = v_uuid x) (pbind (if b then vm_error e y else pret y) (\<lambda>_. pres (Inl exn)))
        (\<lambda>_. status_inv) status_inv"
      by (intro triple_pbind [where R = "\<lambda>_. status_inv"] triple_pres) (auto intro: triple_pre)
  qed
  have "triple (\<lambda>s. current x s \<and> v_uuid x = u) (if c1 then pbind (take_created e r x) (\<lambda>(taken, y).
      if \<not> taken then pbind (vm_error e y) (\<lambda>_. pres (Inl exn))
      else pbind (save_created e tid y) (\<lambda>z. if b then pbind (vm_error e z) (\<lambda>_. pres (Inl exn'))
        else pbind (pwhen c (out (es z))) (\<lambda>_. pret z)))
      else pbind (vm_create_cb_failed e r tid x True) (\<lambda>y. pbind (if d then vm_error e y else pret y) (\<lambda>_. pres (Inl exn''))))
      (\<lambda>_. status_inv) status_inv" for x e exn exn' exn'' b c c1 d es
    by (rule triple_pre [where P' = "current x"], rule triple_if, rule ok, rule bad) simp
  then show ?thesis unfolding create_cb_start_def by (rule triple_pbind [OF triple_get_vm])
qed

lemma triple_create_cb_finish: "triple status_inv (create_cb_finish env r tid x) (\<lambda>_. status_inv) status_inv"
proof -
  have g: "triple status_inv (get_vm u) (\<lambda>_. status_inv) status_inv" for u
    by (rule triple_conseq [OF triple_get_vm]) (auto dest: current_inv)
  have o: "triple status_inv (out es) (\<lambda>_. status_inv) status_inv" "triple status_inv (pwhen b (out es)) (\<lambda>_. status_inv) status_inv" for es b
    by (auto simp: pwhen_def intro!: triple_out triple_pret)
  show ?thesis unfolding create_cb_finish_def
    by (intro triple_pbind [OF g] triple_pbind [OF o(1)] triple_pbind [OF o(2)] triple_pret)
qed

text \<open>The wait holds an object that was read before: its row may have changed meanwhile.\<close>

lemma triple_create_cb_timeout:
  assumes "v_orig_status x \<noteq> ERROR"
  shows "triple status_inv (create_cb_timeout env tid x) (\<lambda>_. status_inv) status_inv"
proof -
  have s: "triple status_inv (st_save_status e None None (x\<lparr>v_status := ERROR\<rparr>)) (\<lambda>y s. current y s) status_inv" for e
    unfolding st_save_status_def option.case
    by (rule triple_conseq [OF triple_stale_save]) (use assms in auto)
  have "triple status_inv (vm_error e x) (\<lambda>_. status_inv) status_inv" for e
    unfolding vm_error_def
    by (rule triple_pbind [OF s], rule triple_pbind [OF triple_commands(2) triple_pret]) (auto dest: current_inv)
  then show ?thesis unfolding create_cb_timeout_def
    by (rule triple_pbind, intro triple_pbind [where R = "\<lambda>_. status_inv"] triple_out triple_pret) simp_all
qed

lemma triple_has_deploy_finished: "triple status_inv (has_deploy_finished x) (\<lambda>_. status_inv) status_inv"
  by (rule tripleI) (auto simp: has_deploy_finished_def split: if_splits)

lemma triple_vm_reset: "triple status_inv (vm_reset env x) (\<lambda>_. status_inv) status_inv"
  unfolding vm_reset_def
  by (rule triple_pbind [OF triple_inv_pres], rule triple_pbind [OF triple_execute_cmd triple_pret]) simp_all

lemma set_node_frame:
  "set_node n x = Inr y \<Longrightarrow> y = x \<or> y = x\<lparr>v_orig_node := v_node x, v_node_changed := True, v_node := n\<rparr>"
  by (auto simp: set_node_def split: if_splits)

lemma take_updated_taken:
  assumes "take_updated env js nn x = Inr y" "current x s"
  shows "taken_vm x y s"
proof -
  let ?z = "x\<lparr>v_json := js, v_json_active := js, v_update_changed := True\<rparr>"
  have z: "taken_vm x ?z s" using current_taken [OF assms(2)] by simp
  show ?thesis
  proof (cases nn)
    case None
    with assms(1) have "y = ?z" by (simp add: take_updated_def)
    with z show ?thesis by simp
  next
    case (Some u)
    with assms(1) obtain upd :: pydict where u: "(case filter (\<lambda>(k, _). k \<notin> set ignored_changed_vm_attrs) upd of
             [] \<Rightarrow> (case te_node env u of None \<Rightarrow> Inl (Exn ObjectDoesNotExist ''Node'') | Some n \<Rightarrow> set_node (Some n) ?z)
           | diff \<Rightarrow> Inl (task_exception (''VM definition on compute node differs from definition in DB in following attributes: ''
                 @ join_with '','' (map fst diff)))) = Inr y"
      unfolding take_updated_def Let_def Some option.case rbind_Inr_iff by blast
    obtain n where "set_node (Some n) ?z = Inr y"
      using u by (cases "filter (\<lambda>(k, _). k \<notin> set ignored_changed_vm_attrs) upd"; cases "te_node env u") simp_all
    from set_node_frame [OF this] z show ?thesis by (elim disjE) simp_all
  qed
qed

lemma triple_vm_update: "triple status_inv (vm_update env tid x) (\<lambda>_. status_inv) status_inv"
proof (rule tripleI)
  fix s e t assume "status_inv s" "vm_update env tid x s = (Inl e, t)"
  then show "status_inv t" using triple_manage_put [of env system_request tid "v_uuid x"]
    by (auto simp: vm_update_def split: prod.splits sum.splits if_splits dest: tripleD)
next
  fix s r t assume "status_inv s" "vm_update env tid x s = (Inr r, t)"
  then show "status_inv t" using triple_manage_put [of env system_request tid "v_uuid x"]
    by (auto simp: vm_update_def split: prod.splits sum.splits if_splits dest: tripleD)
qed

lemma triple_vm_update_cb: "triple status_inv (vm_update_cb env r tid u nn) (\<lambda>_. status_inv) status_inv"
proof -
  have take: "triple (current y) (pres (take_updated env js nn y)) (\<lambda>z s. taken_vm y z s) status_inv" for js y
    by (rule triple_pres) (auto dest: take_updated_taken current_inv)
  have dis: "triple (current y) (vm_delete_snapshots_of_removed_disks y) (\<lambda>_. current y) status_inv" for y
  proof -
    have "triple (current y) (pwhen b (out es)) (\<lambda>_. current y) status_inv" for b es
      by (auto simp: pwhen_def intro!: triple_out triple_pret)
    then show ?thesis unfolding vm_delete_snapshots_of_removed_disks_def
      by (intro triple_pbind [OF triple_current_pres] triple_pbind [where R = "\<lambda>_. current y"] triple_pret)
  qed
  have sav: "triple (taken_vm y z) (save_updated e tid nn z) (\<lambda>w s. current w s \<and> v_uuid w = v_uuid y) status_inv" for y z e
    unfolding save_updated_def by (rule triple_save_signal) (simp add: resources_args_def)
  have o: "triple status_inv (out es) (\<lambda>_. status_inv) status_inv" for es by (rule triple_out) simp
  have upd: "triple status_inv (if b then pret () else pbind (out es) (\<lambda>_. if c then vm_update e tid w else pret ())) (\<lambda>_. status_inv) status_inv"
    for b es c e w
    by (intro triple_if triple_pret triple_pbind [OF o] triple_vm_update)
  have fin: "triple (\<lambda>s. current w s \<and> v_uuid w = q) (pbind (if b then pret () else pbind (out es) (\<lambda>_. if c then vm_update e tid w else pret ()))
      (\<lambda>_. pbind (out es') (\<lambda>_. pret w))) (\<lambda>_. status_inv) status_inv" for w b es c e es' q
    by (rule triple_pre [OF triple_pbind [OF upd triple_pbind [OF o triple_pret]]]) (auto dest: current_inv)
  have body: "triple (\<lambda>s. current y s \<and> v_uuid y = q) (if b then pbind (pres l) (\<lambda>js. pbind (vm_delete_snapshots_of_removed_disks y) (\<lambda>_.
      pbind (pres (take_updated env js nn y)) (\<lambda>z. pbind (save_updated e tid nn z) (\<lambda>w.
      pbind (if nn = None then pret () else pbind (out (es w)) (\<lambda>_. if json_changed w then vm_update e' tid w else pret ())) (\<lambda>_.
      pbind (out (es' w)) (\<lambda>_. pret w)))))) else pres (Inl exn)) (\<lambda>_. status_inv) status_inv" for y q b l e e' es es' exn
    by (rule triple_pre [where P' = "current y"], rule triple_if, rule triple_pbind [OF triple_current_pres], rule triple_pbind [OF dis],
        rule triple_pbind [OF take], rule triple_pbind [OF sav], rule fin, rule triple_pres) (auto dest: current_inv)
  have done': "triple (\<lambda>s. current x s \<and> v_uuid x = u) (vm_update_cb_done e x) (\<lambda>y s. current y s \<and> v_uuid y = u) status_inv" for e x
    unfolding vm_update_cb_done_def by (rule triple_uuid) (rule triple_save_notready(2))
  show ?thesis unfolding vm_update_cb_def
    by (rule triple_pbind [OF triple_get_vm], rule triple_pbind [OF done'], rule body)
qed

lemma triple_delete_cb_succeeded: "triple (current x) (vm_delete_cb_succeeded env tid x) (\<lambda>y s. current y s \<and> v_uuid y = v_uuid x) status_inv"
proof -
  let ?Q = "\<lambda>y s. current y s \<and> v_uuid y = v_uuid x"
  have s: "triple (current x) (st_save env (resources_args None) (x\<lparr>v_status := NOTCREATED, v_json_active := [], v_update_changed := True\<rparr>)) ?Q status_inv"
    by (rule triple_conseq [OF triple_any_save]) (auto simp: resources_args_def saves_status_def dest: current_settled)
  have o: "triple (?Q y) (out es) (\<lambda>_. ?Q y) status_inv" for y es by (rule triple_out) simp
  have i: "triple (?Q y) (st_ip_usage y) (\<lambda>_. ?Q y) status_inv" for y by (rule triple_ip_usage) (auto dest: current_inv)
  show ?thesis unfolding vm_delete_cb_succeeded_def delete_snapshots_def
    by (rule triple_pbind [OF s], rule triple_pbind [OF i], rule triple_pbind [OF o], rule triple_pbind [OF o], rule triple_pret)
qed

lemma triple_vm_delete_cb: "triple status_inv (vm_delete_cb env r tid u) (\<lambda>_. status_inv) status_inv"
proof -
  have a: "triple (current x) (vm_delete_cb_succeeded e tid x) (\<lambda>_. status_inv) status_inv"
    "triple (current x) (vm_delete_cb_failed e x) (\<lambda>_. status_inv) status_inv" for x e
    unfolding vm_delete_cb_failed_def
    by (auto intro: triple_conseq [OF triple_delete_cb_succeeded] triple_conseq [OF triple_save_notready(2)] dest: current_inv)
  have o: "triple status_inv (pbind (out es) (\<lambda>_. pret y)) (\<lambda>_. status_inv) status_inv" for es and y :: vm
    by (rule triple_pbind [where R = "\<lambda>_. status_inv"], rule triple_out) (auto intro: triple_pret)
  have "triple (\<lambda>s. current x s \<and> v_uuid x = u) (if b then pbind (vm_delete_cb_succeeded e tid x) (\<lambda>y. pbind (out (es y)) (\<lambda>_. pret y))
     else pbind (if c then vm_delete_cb_succeeded e tid x else vm_delete_cb_failed e x) (\<lambda>_. pres (Inl exn))) (\<lambda>_. status_inv) status_inv"
    for x b c e es exn
    by (rule triple_pre [where P' = "current x"], rule triple_if, rule triple_pbind [OF a(1) o],
        rule triple_pbind [OF triple_if [OF a] triple_inv_pres]) simp
  then show ?thesis unfolding vm_delete_cb_def by (rule triple_pbind [OF triple_get_vm])
qed

lemma triple_vm_deploy_cb: "triple status_inv (vm_deploy_cb env r u) (\<lambda>_. status_inv) status_inv"
proof -
  have s: "triple (current x) (pbind (pres l) (\<lambda>js. st_save env (status_args [''enc_json'', ''enc_json_active'', ''changed''] None)
      (x\<lparr>v_json_active := js, v_json := js, v_update_changed := True\<rparr>))) (\<lambda>_. status_inv) status_inv" for x l
  proof (rule triple_pbind [OF triple_current_pres])
    fix js
    show "triple (current x) (st_save env (status_args [''enc_json'', ''enc_json_active'', ''changed''] None)
      (x\<lparr>v_json_active := js, v_json := js, v_update_changed := True\<rparr>)) (\<lambda>_. status_inv) status_inv"
    proof (cases "v_orig_status x = v_status x")
      case True
      then show ?thesis by (intro triple_conseq [OF triple_any_save]) (auto simp: status_args_def dest: current_settled current_inv)
    qed (simp add: triple_def current_def)
  qed
  have h: "triple (current x) (\<lambda>s. case pbind (pres l) (\<lambda>js. st_save env (status_args [''enc_json'', ''enc_json_active'', ''changed''] None)
      (x\<lparr>v_json_active := js, v_json := js, v_update_changed := True\<rparr>)) s of (_, t) \<Rightarrow> (Inr (), t)) (\<lambda>_. status_inv) status_inv" for x l
    using s [of x l] by (auto simp: triple_def split: prod.splits sum.splits)
  show ?thesis unfolding vm_deploy_cb_def
    by (rule triple_if, rule triple_pret, assumption, rule triple_pbind [OF triple_get_vm], rule triple_pre [OF h], simp)
qed

end
