(* ===== verification/Vm_Manage_Safe.thy ===== *)
theory Vm_Manage_Safe
  imports Vm_Manage_Inv
begin

text \<open>
  What the requests and callbacks of \<^verbatim>\<open>vm_manage\<close> guarantee: all operations on VMs keep the cached
  statuses right, and the wait for a deployment ends. The lemmas at the end tell what a refused request and a failed
  command leave of the VM; \<^verbatim>\<open>Vm_Manage_Undo\<close> draws the conclusions.
\<close>

section \<open>All operations on VMs\<close>

text \<open>
  The operations of the statuses with the requests and callbacks of this part. The callback of a
  creation is a sequence of steps, between which anything else may happen: its start, polls, a reset
  and its end, which still has the object that was read at the start.
\<close>

inductive vm_op :: "status_state \<Rightarrow> status_state \<Rightarrow> bool" where
  op_status: "status_op s t \<Longrightarrow> vm_op s t"
| op_post: "choice_ok env \<Longrightarrow> vm_op s (snd (manage_post env rq tid u s))"
| op_put: "vm_op s (snd (manage_put env rq tid u s))"
| op_delete: "vm_op s (snd (manage_delete env rq u s))"
| op_created: "vm_op s (snd (create_cb_start tenv r tid u s))"
| op_poll: "vm_op s (snd (has_deploy_finished x s))"
| op_reset: "vm_op s (snd (vm_reset senv x s))"
| op_finished: "vm_op s (snd (create_cb_finish tenv r tid x s))"
| op_timeout: "v_orig_status x \<noteq> ERROR \<Longrightarrow> vm_op s (snd (create_cb_timeout tenv tid x s))"
| op_updated: "vm_op s (snd (vm_update_cb tenv r tid u nn s))"
| op_deleted: "vm_op s (snd (vm_delete_cb tenv r tid u s))"
| op_deployed: "vm_op s (snd (vm_deploy_cb senv r u s))"

lemma triple_snd: "triple status_inv m (\<lambda>_. status_inv) status_inv \<Longrightarrow> status_inv s \<Longrightarrow> status_inv (snd (m s))"
  by (simp add: triple_keeps keeps_def)

lemma vm_op_inv: "vm_op s t \<Longrightarrow> status_inv s \<Longrightarrow> status_inv t"
  by (induction rule: vm_op.induct)
    (auto intro: status_op_inv triple_snd triple_manage_post triple_manage_put triple_manage_delete triple_create_cb_start
      triple_has_deploy_finished triple_vm_reset triple_create_cb_finish triple_create_cb_timeout triple_vm_update_cb
      triple_vm_delete_cb triple_vm_deploy_cb)

lemma vm_ops_inv: "vm_op\<^sup>*\<^sup>* s t \<Longrightarrow> status_inv s \<Longrightarrow> status_inv t"
  by (induction rule: rtranclp_induct) (auto dest: vm_op_inv)

text \<open>
  The cached status of a VM, on which every check of a report relies, is always the status in
  the database: after any sequence of reports, requests and callbacks, also of those that fail, a
  status that is read from the cache belongs to a VM that exists and that has this status.
\<close>

theorem status_cache_agrees:
  assumes "vm_op\<^sup>*\<^sup>* s t" "status_inv s" "cache_get (vm_status_key u) t = Some v"
  shows "\<exists>x. ss_db t u = Some x \<and> v = VInt (v_status x)"
  using vm_ops_inv [OF assms(1,2)] assms(3) by (simp add: status_inv_def coherent_def)

definition demo_manage_env :: manage_env where
  "demo_manage_env = \<lparr>me_api = demo_api_env, me_settings = demo_settings, me_set_order = id, me_owner_keys = (\<lambda>_. [''key'']),
     me_password = ''secret'', me_choose = (\<lambda>_. api_error ExpectationFailed []), me_image_resize = (\<lambda>_. Inr False),
     me_image_bootrom = (\<lambda>_. Inr None), me_has_image = (\<lambda>_ _ _. Inr True), me_import = (\<lambda>_ _ _. Inr []),
     me_get_node = (\<lambda>_. Inl (Exn ObjectDoesNotExist [])), me_image_vm = []\<rparr>"

definition demo_manage_request :: manage_request where
  "demo_manage_request = \<lparr>mq_authenticated = True, mq_admin = True, mq_staff = False, mq_create = Inr (False, False),
     mq_force = False, mq_node = None\<rparr>"

definition demo_stopped :: vm where
  "demo_stopped = demo_created\<lparr>v_status := STOPPED\<rparr>"

theorem status_cache_agrees_witness:
  "\<exists>t x. vm_op (demo_status_state demo_stopped) t \<and> ss_db t ''u'' = Some x \<and> v_status x = NOTREADY_STOPPED
     \<and> cache_get (vm_status_key ''u'') t = Some (VInt (v_status x))"
proof -
  let ?s = "demo_status_state demo_stopped"
  let ?t = "snd (manage_delete demo_manage_env demo_manage_request ''u'' ?s)"
  have op: "vm_op ?s ?t" by (rule vm_op.op_delete)
  have i: "status_inv ?s" by (rule demo_status_inv) (simp_all add: demo_stopped_def demo_created_def demo_vm_def)
  have c: "cache_get (vm_status_key ''u'') ?t = Some (VInt NOTREADY_STOPPED)" by code_simp
  obtain x where "ss_db ?t ''u'' = Some x" "VInt NOTREADY_STOPPED = VInt (v_status x)"
    using status_cache_agrees [OF r_into_rtranclp [of vm_op, OF op] i c] by blast
  then show ?thesis using op c by auto
qed

section \<open>The wait for a deployment\<close>

text \<open>
  The states at the polls when none of them succeeds: \<open>world i\<close> after the poll \<open>i\<close>, and a reset of the
  VM after the poll 201, which comes after ten minutes.
\<close>

definition reset_event :: "status_env \<Rightarrow> vm \<Rightarrow> node_ref \<Rightarrow> status_state \<Rightarrow> status_state" where
  "reset_event env x n s = snd (execute_cmd env (node_fast_queue n) (''vmadm stop '' @ v_uuid x @ '' -F; vmadm start '' @ v_uuid x) None [] [] s)"

fun poll_state :: "status_env \<Rightarrow> (nat \<Rightarrow> status_state \<Rightarrow> status_state) \<Rightarrow> vm \<Rightarrow> node_ref \<Rightarrow> status_state \<Rightarrow> nat \<Rightarrow> status_state" where
  "poll_state env world x n s 0 = s"
| "poll_state env world x n s (Suc i) =
     world i (if i = 201 then reset_event env x n (poll_state env world x n s i) else poll_state env world x n s i)"

definition deployed_at :: "vm \<Rightarrow> status_state \<Rightarrow> bool" where
  "deployed_at x s \<longleftrightarrow> deploy_finished_key x \<in> set (ss_finished s)"

definition poll_timer :: "nat \<Rightarrow> int" where "poll_timer i = (if i \<le> 201 then 3 * int i else 3 * (int i - 201))"
definition poll_repeat :: "nat \<Rightarrow> int" where "poll_repeat i = (if i \<le> 201 then 0 else 1)"

lemma vm_reset_run: "v_node x = Some n \<Longrightarrow> vm_reset env x s = (Inr (), reset_event env x n s)"
  by (simp add: vm_reset_def the_node_def reset_event_def execute_cmd_def prog_defs out_def split: option.split)

lemma wait_deployed_step:
  assumes "v_node x = Some n" "i \<le> 402"
  shows "wait_deployed env world x (Suc fuel) i (poll_timer i) (poll_repeat i) s =
    (if deployed_at x s then (Inr (Some True), s\<lparr>ss_finished := removeAll (deploy_finished_key x) (ss_finished s)\<rparr>)
     else if i = 402 then (Inr (Some False), s)
     else wait_deployed env world x fuel (Suc i) (poll_timer (Suc i)) (poll_repeat (Suc i))
            (world i (if i = 201 then reset_event env x n s else s)))"
proof (cases "deployed_at x s")
  case True
  then show ?thesis by (simp add: has_deploy_finished_def deployed_at_def prog_defs)
next
  case False
  then have f: "has_deploy_finished x s = (Inr False, s)" by (simp add: has_deploy_finished_def deployed_at_def)
  have r: "wait_deployed env world x (Suc fuel) i t rp s =
      (if t > 600 then (if rp = 1 then (Inr (Some False), s)
         else wait_deployed env world x fuel (Suc i) 3 (rp + 1) (world i (reset_event env x n s)))
       else wait_deployed env world x fuel (Suc i) (t + 3) rp (world i s))" for t rp
    by (simp add: pbind_def [of "has_deploy_finished x"] f VMS_VM_DEPLOY_TOOLONG_def VMS_VM_DEPLOY_TOOLONG_MAX_CYCLES_def pbind_steps
        pbind_def [of "vm_reset env x"] vm_reset_run [OF assms(1)] pret_def del: wait_deployed.simps(1))
  consider "i < 201" | "i = 201" | "201 < i" "i < 402" | "i = 402" using assms(2) by linarith
  then show ?thesis
  proof cases
    case 1
    then show ?thesis using False unfolding r by (simp add: poll_timer_def poll_repeat_def algebra_simps)
  next
    case 2
    then show ?thesis using False unfolding r by (simp add: poll_timer_def poll_repeat_def)
  next
    case 3
    then show ?thesis using False unfolding r by (simp add: poll_timer_def poll_repeat_def algebra_simps)
  next
    case 4
    then show ?thesis using False unfolding r by (simp add: poll_timer_def poll_repeat_def)
  qed
qed

lemma wait_deployed_run:
  assumes "v_node x = Some n" "i \<le> 403"
  shows "wait_deployed env world x (403 - i + extra) i (poll_timer i) (poll_repeat i) (poll_state env world x n s i) =
    (case find (\<lambda>k. deployed_at x (poll_state env world x n s k)) [i..<403] of
       Some k \<Rightarrow> (let t = poll_state env world x n s k in
         (Inr (Some True), t\<lparr>ss_finished := removeAll (deploy_finished_key x) (ss_finished t)\<rparr>))
     | None \<Rightarrow> (Inr (Some False), poll_state env world x n s 402)) \<or> i = 403"
  using assms(2)
proof (induction "403 - i" arbitrary: i)
  case 0
  then show ?case by simp
next
  case (Suc m)
  then have i: "i \<le> 402" "403 - i + extra = Suc (403 - Suc i + extra)" "[i..<403] = i # [Suc i..<403]"
    by (simp_all add: upt_conv_Cons)
  have ih: "wait_deployed env world x (403 - Suc i + extra) (Suc i) (poll_timer (Suc i)) (poll_repeat (Suc i)) (poll_state env world x n s (Suc i)) =
    (case find (\<lambda>k. deployed_at x (poll_state env world x n s k)) [Suc i..<403] of
       Some k \<Rightarrow> (let t = poll_state env world x n s k in
         (Inr (Some True), t\<lparr>ss_finished := removeAll (deploy_finished_key x) (ss_finished t)\<rparr>))
     | None \<Rightarrow> (Inr (Some False), poll_state env world x n s 402)) \<or> Suc i = 403"
    by (rule Suc.hyps) (use Suc i in simp_all)
  show ?case
  proof (cases "deployed_at x (poll_state env world x n s i)")
    case True
    then show ?thesis unfolding i(2,3) wait_deployed_step [OF assms(1) i(1)] by (simp add: Let_def)
  next
    case no: False
    show ?thesis
    proof (cases "i = 402")
      case True
      then show ?thesis using no unfolding i(2,3) wait_deployed_step [OF assms(1) i(1)] by simp
    next
      case False
      then have "wait_deployed env world x (403 - i + extra) i (poll_timer i) (poll_repeat i) (poll_state env world x n s i)
        = wait_deployed env world x (403 - Suc i + extra) (Suc i) (poll_timer (Suc i)) (poll_repeat (Suc i)) (poll_state env world x n s (Suc i))"
        using no unfolding i(2) wait_deployed_step [OF assms(1) i(1)] by (simp del: wait_deployed.simps)
      then show ?thesis using ih False no unfolding i(3) by (simp del: wait_deployed.simps)
    qed
  qed
qed

text \<open>
  C6. The callback of a creation does not wait for ever: whatever happens while it sleeps, it polls
  at most 403 times, which is 402 pauses of three seconds. It goes on with the first poll that finds the deployment
  finished, after which the mark is gone, and gives up when none does; in the meantime it has reset the
  VM once.
\<close>

theorem deploy_wait_ends:
  assumes "v_node x = Some n" "fuel \<ge> 403"
  shows "wait_deployed env world x fuel 0 0 0 s =
    (case find (\<lambda>k. deployed_at x (poll_state env world x n s k)) [0..<403] of
       Some k \<Rightarrow> (let t = poll_state env world x n s k in
         (Inr (Some True), t\<lparr>ss_finished := removeAll (deploy_finished_key x) (ss_finished t)\<rparr>))
     | None \<Rightarrow> (Inr (Some False), poll_state env world x n s 402))"
proof -
  obtain extra where "fuel = 403 - 0 + extra" using assms(2) le_Suc_ex by force
  then show ?thesis
    using wait_deployed_run [OF assms(1), of 0 env world extra s] by (simp add: poll_timer_def poll_repeat_def del: wait_deployed.simps upt_Suc)
qed

definition demo_world :: "nat \<Rightarrow> status_state \<Rightarrow> status_state" where
  "demo_world i s = (if i = 4 then s\<lparr>ss_finished := [deploy_finished_key demo_created]\<rparr> else s)"

theorem deploy_wait_ends_witness:
  "\<exists>t. wait_deployed demo_status_env demo_world demo_created 403 0 0 0 (demo_status_state demo_created) = (Inr (Some True), t)
     \<and> ss_finished t = []"
proof -
  have n: "\<exists>n. v_node demo_created = Some n" by (simp add: demo_created_def)
  then obtain n where n: "v_node demo_created = Some n" ..
  let ?s = "demo_status_state demo_created"
  let ?p = "poll_state demo_status_env demo_world demo_created n ?s"
  have p: "?p 0 = ?s" "?p (Suc 0) = ?s" "?p 1 = ?s" "?p 2 = ?s" "?p 3 = ?s" "?p 4 = ?s" "?p 5 = ?s\<lparr>ss_finished := [deploy_finished_key demo_created]\<rparr>"
    by (simp_all add: demo_world_def numeral_eq_Suc)
  have f: "\<not> deployed_at demo_created ?s" "deployed_at demo_created (?s\<lparr>ss_finished := [deploy_finished_key demo_created]\<rparr>)"
    by (simp_all add: deployed_at_def demo_status_state_def)
  have l: "[0..<403] = [0, 1, 2, 3, 4, 5] @ [6..<403]"
    by (simp add: upt_conv_Cons numeral_eq_Suc del: upt_Suc)
  have "find (\<lambda>k. deployed_at demo_created (?p k)) [0..<403] = Some 5"
    unfolding l by (simp add: p f del: poll_state.simps)
  then show ?thesis using deploy_wait_ends [OF n, of 403 demo_status_env demo_world ?s] by (simp add: p Let_def)
qed

section \<open>Refused requests and failed commands\<close>

datatype manage_call = PostVm | PutVm | DeleteVm

definition manage :: "manage_call \<Rightarrow> manage_env \<Rightarrow> manage_request \<Rightarrow> string \<Rightarrow> string \<Rightarrow> api_response sprog" where
  "manage c env rq tid u = (case c of PostVm \<Rightarrow> manage_post env rq tid u | PutVm \<Rightarrow> manage_put env rq tid u
     | DeleteVm \<Rightarrow> manage_delete env rq u)"

text \<open>
  A VM that has kept its status and all of what its node knows; \<open>whole\<close> tells whether the wanted
  definition must be the same as well.
\<close>

definition kept_vm :: "bool \<Rightarrow> vm \<Rightarrow> vm \<Rightarrow> bool" where
  "kept_vm whole x y \<longleftrightarrow> v_uuid y = v_uuid x \<and> v_hostname y = v_hostname x \<and> v_status y = v_status x \<and> v_node y = v_node x
     \<and> v_vnc_port y = v_vnc_port x \<and> v_json_active y = v_json_active x \<and> v_info y = v_info x \<and> v_owner y = v_owner x
     \<and> v_slave_vms y = v_slave_vms x \<and> (whole \<longrightarrow> v_json y = v_json x)"

definition kept_at :: "bool \<Rightarrow> string \<Rightarrow> status_state \<Rightarrow> status_state \<Rightarrow> bool" where
  "kept_at whole u s t \<longleftrightarrow> (ss_db t)(u := None) = (ss_db s)(u := None)
     \<and> (case ss_db s u of None \<Rightarrow> ss_db t u = None
        | Some x \<Rightarrow> (case ss_db t u of None \<Rightarrow> False | Some y \<Rightarrow> kept_vm whole x y))"

lemma kept_vm_refl: "kept_vm w x x" by (simp add: kept_vm_def)

lemma kept_at_db: "ss_db t = ss_db s \<Longrightarrow> kept_at w u s t"
  by (auto simp: kept_at_def kept_vm_refl split: option.split)

text \<open>A row in the middle of an operation: only its status, and perhaps its wanted definition, differs from the old row.\<close>

definition marked_vm :: "bool \<Rightarrow> int \<Rightarrow> vm \<Rightarrow> vm \<Rightarrow> bool" where
  "marked_vm whole v x y \<longleftrightarrow> v_status y = v \<and> kept_vm whole x (y\<lparr>v_status := v_status x\<rparr>)"

definition marked_at :: "bool \<Rightarrow> int \<Rightarrow> string \<Rightarrow> status_state \<Rightarrow> status_state \<Rightarrow> bool" where
  "marked_at whole v u s t \<longleftrightarrow> (ss_db t)(u := None) = (ss_db s)(u := None)
     \<and> (\<exists>x y. ss_db s u = Some x \<and> ss_db t u = Some y \<and> marked_vm whole v x y)"

lemma marked_back: "marked_at w v u s t \<Longrightarrow> ss_db s u = Some x \<Longrightarrow> v_status x = v \<Longrightarrow> kept_at w u s t"
  by (auto simp: marked_at_def kept_at_def marked_vm_def kept_vm_def)

lemma marked_status_row:
  "ss_db t u = Some y \<Longrightarrow> marked_at w v u s t \<Longrightarrow> status_row y z \<Longrightarrow> v_status z = v'
     \<Longrightarrow> (ss_db t')(u := None) = (ss_db t)(u := None) \<Longrightarrow> ss_db t' u = Some z \<Longrightarrow> marked_at w v' u s t'"
  by (auto simp: marked_at_def marked_vm_def kept_vm_def status_row_def)

text \<open>Saving another status.\<close>

lemma save_mark_result:
  assumes "current x s" "v \<noteq> v_status x" "ss_db s (v_uuid x) = Some row"
  shows "\<exists>y t z. st_save_status env None None (x\<lparr>v_status := v\<rparr>) s = (Inr y, t) \<and> current y t \<and> v_uuid y = v_uuid x
    \<and> v_status y = v \<and> ss_db t (v_uuid x) = Some z \<and> status_row row z \<and> v_status z = v \<and> v_hostname y = v_hostname x
    \<and> (ss_db t)(v_uuid x := None) = (ss_db s)(v_uuid x := None)"
proof -
  let ?x = "x\<lparr>v_status := v\<rparr>"
  let ?y = "changed_vm (e_now (se_save env)) None ?x"
  have p: "plain_vm ?x" using assms(1) by (simp add: current_def)
  let ?z = "write_fields (Some [''status'', ''status_change'']) ?y row"
  let ?t = "s\<lparr>ss_db := (ss_db s)(v_uuid x \<mapsto> ?z), ss_cache := cached_vm ?x ?y (ss_cache s)\<rparr>"
  have e: "st_save_status env None None ?x s = (Inr ?y, ?t)"
    unfolding st_save_status_def option.case by (simp add: st_save_plain [OF p] assms(3) Let_def)
  have c: "current ?y ?t \<and> v_uuid ?y = v_uuid x" by (rule tripleD(1) [OF triple_save_mark assms(1) e])
  have "status_row row ?z" by (rule status_row_write) auto
  then show ?thesis using e c
    by (intro exI [of _ ?y] exI [of _ ?t] exI [of _ ?z]) (auto simp: changed_vm_def fun_upd_def)
qed

text \<open>Code that only submits commands.\<close>

definition out_only :: "'a sprog \<Rightarrow> bool" where
  "out_only m \<longleftrightarrow> (\<forall>s. \<exists>es. snd (m s) = s\<lparr>ss_out := es\<rparr>)"

lemma out_onlyI: "(\<And>s. \<exists>es. snd (m s) = s\<lparr>ss_out := es\<rparr>) \<Longrightarrow> out_only m"
  by (simp add: out_only_def)

lemma out_only_pres [intro]: "out_only (pres r)" "out_only (pret z)"
  by (auto intro!: out_onlyI simp: prog_defs same_out)

lemma out_only_pbind [intro]: "out_only m \<Longrightarrow> (\<And>z. out_only (f z)) \<Longrightarrow> out_only (pbind m f)"
proof (rule out_onlyI)
  fix s assume m: "out_only m" and f: "\<And>z. out_only (f z)"
  obtain r t where r: "m s = (r, t)" by force
  obtain es where t: "t = s\<lparr>ss_out := es\<rparr>" using m r by (metis out_only_def snd_conv)
  show "\<exists>es. snd (pbind m f s) = s\<lparr>ss_out := es\<rparr>"
  proof (cases r)
    case (Inl e)
    then show ?thesis using r t by (auto simp: pbind_def)
  next
    case (Inr z)
    obtain es' where "snd (f z t) = t\<lparr>ss_out := es'\<rparr>" using f [of z] by (auto simp: out_only_def)
    then show ?thesis using r t Inr by (auto simp: pbind_def)
  qed
qed

lemma out_only_out [intro]: "out_only (out es)"
  by (rule out_onlyI) (auto simp: out_def pmod_def)

lemma out_only_execute [intro]: "out_only (api_execute env q c l cb args mt)"
proof -
  have e: "out_only (execute_cmd env q c (Some l) cb args)"
    unfolding execute_cmd_def by (cases "se_refused env q c") auto
  have f: "out_only (case err of Some e \<Rightarrow> pret (Some e) | None \<Rightarrow> pbind (out es) (\<lambda>_. pret None))" for err :: "string option" and es
    by (cases err) auto
  show ?thesis unfolding api_execute_def by (rule out_only_pbind [OF e]) (rule f)
qed

definition started :: "api_response res \<Rightarrow> bool" where
  "started r \<longleftrightarrow> (case r of Inr (TaskStarted _) \<Rightarrow> True | _ \<Rightarrow> False)"

lemma started_task: "started (Inr (TaskStarted m))" by (simp add: started_def)

lemma submit_result:
  assumes "out_only m" "current y s" "ss_db s u = Some row" "v_uuid y = u" "v \<noteq> v_status y"
    "submit_or_undo m (st_save_status e None None (y\<lparr>v_status := v\<rparr>)) respond s = (r, t)"
  shows "(\<exists>es. m s = (Inr None, s\<lparr>ss_out := es\<rparr>) \<and> respond (s\<lparr>ss_out := es\<rparr>) = (r, t))
    \<or> \<not> started r \<and> (\<exists>z. ss_db t u = Some z \<and> status_row row z \<and> v_status z = v \<and> (ss_db t)(u := None) = (ss_db s)(u := None))"
proof -
  obtain es q where m: "m s = (q, s\<lparr>ss_out := es\<rparr>)"
    using assms(1) unfolding out_only_def by (metis prod.collapse)
  have "current y (s\<lparr>ss_out := es\<rparr>)" "ss_db (s\<lparr>ss_out := es\<rparr>) (v_uuid y) = Some row" using assms(2-4) by simp_all
  from save_mark_result [OF this(1) assms(5) this(2), of e]
  obtain y' t' z where u: "st_save_status e None None (y\<lparr>v_status := v\<rparr>) (s\<lparr>ss_out := es\<rparr>) = (Inr y', t')"
      "ss_db t' u = Some z" "status_row row z" "v_status z = v" "(ss_db t')(u := None) = (ss_db s)(u := None)"
    using assms(4) by auto
  show ?thesis
  proof (cases q)
    case (Inl ex)
    then have "r = Inl ex" "t = t'" using assms(6) by (simp_all add: submit_or_undo_def m u(1))
    then show ?thesis using u(2-5) by (auto simp: started_def)
  next
    case (Inr err)
    show ?thesis
    proof (cases err)
      case None
      then show ?thesis using assms(6) Inr m by (auto simp: submit_or_undo_def)
    next
      case (Some ex)
      then have "r = Inr (FailureResponse ex)" "t = t'" using assms(6) Inr by (simp_all add: submit_or_undo_def m u(1))
      then show ?thesis using u(2-5) by (auto simp: started_def)
    qed
  qed
qed

lemma notready_back:
  assumes "v_status x \<in> {RUNNING, STOPPED, FROZEN}" "v_status y = v_status (set_notready x)"
  shows "v_status (revert_notready y) = v_status x" "v_status (set_notready x) \<noteq> v_status x" "v_status (revert_notready y) \<noteq> v_status y"
  using assms
  by (auto simp: set_notready_def revert_notready_def STATUS_NOTREADY_def RUNNING_def STOPPED_def FROZEN_def NOTREADY_def
      NOTCREATED_def NOTREADY_STOPPED_def NOTREADY_RUNNING_def NOTREADY_FROZEN_def NOTREADY_NOTCREATED_def)

lemma status_row_kept: "status_row x y \<Longrightarrow> v_status y = v_status x \<Longrightarrow> kept_vm True x y"
  by (auto simp: status_row_def kept_vm_def)

lemma status_row_marked: "status_row x y \<Longrightarrow> v_status y = v \<Longrightarrow> marked_vm True v x y"
  by (auto simp: status_row_def marked_vm_def kept_vm_def)

lemma mark_submit_result:
  assumes "status_inv s" "ss_db s u = Some row" "v_status row \<in> {RUNNING, STOPPED, FROZEN}" "\<And>y. out_only (m y)"
    "pbind (st_save_status e None None (set_notready (fresh_vm row))) (\<lambda>y. submit_or_undo (m y)
       (st_save_status e None None (revert_notready y)) (pret (TaskStarted msg))) s = (r, t)"
  shows "started r \<and> marked_at True (v_status (set_notready row)) u s t \<or> \<not> started r \<and> kept_at True u s t"
proof -
  let ?x = "fresh_vm row" and ?v = "v_status (set_notready row)"
  have cur: "current ?x s" "v_uuid ?x = u" by (rule current_fresh [OF assms(1,2)])+
  have n: "set_notready ?x = ?x\<lparr>v_status := ?v\<rparr>" by (simp add: set_notready_def)
  have ne: "?v \<noteq> v_status ?x" using notready_back(2) [OF assms(3)] by simp
  have "ss_db s (v_uuid ?x) = Some row" using cur(2) assms(2) by simp
  from save_mark_result [OF cur(1) ne this, of e]
  obtain y t1 z where y: "st_save_status e None None (set_notready ?x) s = (Inr y, t1)" "current y t1" "v_uuid y = u" "v_status y = ?v"
      "ss_db t1 u = Some z" "status_row row z" "v_status z = ?v" "(ss_db t1)(u := None) = (ss_db s)(u := None)"
    unfolding n cur(2) by blast
  have rv: "revert_notready y = y\<lparr>v_status := v_status row\<rparr>" "v_status row \<noteq> v_status y"
  proof -
    have "v_status (revert_notready y) = v_status row" using notready_back(1) [OF assms(3) y(4)] .
    then show "revert_notready y = y\<lparr>v_status := v_status row\<rparr>" by (simp add: revert_notready_def)
    show "v_status row \<noteq> v_status y" using ne y(4) by simp
  qed
  have "submit_or_undo (m y) (st_save_status e None None (y\<lparr>v_status := v_status row\<rparr>)) (pret (TaskStarted msg)) t1 = (r, t)"
    using assms(5) by (simp add: pbind_def y(1) rv(1))
  from submit_result [OF assms(4) y(2,5,3) rv(2) this] show ?thesis
  proof
    assume "\<exists>es. m y t1 = (Inr None, t1\<lparr>ss_out := es\<rparr>) \<and> pret (TaskStarted msg) (t1\<lparr>ss_out := es\<rparr>) = (r, t)"
    then obtain es where rt: "r = Inr (TaskStarted msg)" "t = t1\<lparr>ss_out := es\<rparr>" by (auto simp: pret_def)
    then have "marked_at True ?v u s t"
      using y(5-8) assms(2) status_row_marked by (auto simp: marked_at_def)
    then show ?thesis using rt by (simp add: started_def)
  next
    assume "\<not> started r \<and> (\<exists>w. ss_db t u = Some w \<and> status_row z w \<and> v_status w = v_status row \<and> (ss_db t)(u := None) = (ss_db t1)(u := None))"
    then obtain w where w: "\<not> started r" "ss_db t u = Some w" "status_row z w" "v_status w = v_status row"
      "(ss_db t)(u := None) = (ss_db t1)(u := None)" by blast
    have "kept_vm True row w" by (rule status_row_kept [OF status_row_trans [OF y(6) w(3)] w(4)])
    then show ?thesis using w y(8) assms(2) by (simp add: kept_at_def)
  qed
qed

lemma manage_get_vm_result:
  assumes "manage_get_vm env b u s = (q, t)"
  shows "t = s \<and> ((\<exists>e. q = Inl e) \<or> (\<exists>row. ss_db s u = Some row \<and> q = Inr (fresh_vm row)))"
  using assms
  by (auto simp: manage_get_vm_def load_vm_def pbind_def pget_def api_error_def pres_def pret_def split: option.splits if_splits)

lemma delete_result:
  assumes "status_inv s" "manage_delete env rq u s = (r, t)"
  shows "started r \<and> (\<exists>x. ss_db s u = Some x \<and> v_status x \<in> {RUNNING, STOPPED, FROZEN} \<and> marked_at True (v_status (set_notready x)) u s t)
    \<or> \<not> started r \<and> kept_at True u s t"
proof -
  obtain q s1 where q: "manage_get_vm (me_api env) True u s = (q, s1)" by force
  note g = manage_get_vm_result [OF q]
  show ?thesis
  proof (cases q)
    case (Inl e)
    then show ?thesis using assms(2) g q by (auto simp: manage_delete_def pbind_def started_def kept_at_db)
  next
    case (Inr x)
    then obtain row where row: "ss_db s u = Some row" "x = fresh_vm row" "s1 = s" using g by auto
    show ?thesis
    proof (cases "check_delete env rq x")
      case (Inl e)
      then show ?thesis using assms(2) Inr q row by (auto simp: manage_delete_def pbind_def pres_def started_def kept_at_db)
    next
      case ok: (Inr i)
      then have st: "v_status row \<in> {RUNNING, STOPPED, FROZEN}"
        by (auto simp: check_delete_def row(2) split: if_splits)
      note m = mark_submit_result [OF assms(1) row(1) st, where e = "ae_status (me_api env)" and r = r and t = t]
      have "started r \<and> marked_at True (v_status (set_notready row)) u s t \<or> \<not> started r \<and> kept_at True u s t"
        by (rule m [OF _ assms(2) [unfolded manage_delete_def pbind_def [of "manage_get_vm _ _ _"] q Inr prod.case sum.case row(2,3)
              pbind_steps(1) [of _ _ s] ok [unfolded row(2)]]]) auto
      then show ?thesis using row(1) st by blast
    qed
  qed
qed

lemma put_execute_result:
  assumes "status_inv s" "ss_db s u = Some row" "v_status row \<in> {RUNNING, STOPPED, FROZEN}"
    "put_execute env c f (fresh_vm row) s = (r, t)"
  shows "started r \<and> marked_at True (v_status (set_notready row)) u s t \<or> \<not> started r \<and> kept_at True u s t"
proof (cases "nr_status (uc_node c) \<noteq> Node_ONLINE")
  case True
  then show ?thesis using assms(4) by (auto simp: put_execute_def api_error_def pres_def started_def kept_at_db)
next
  case False
  show ?thesis
    by (rule mark_submit_result [OF assms(1-3) _ assms(4) [unfolded put_execute_def if_not_P [OF False]]]) (rule out_only_execute)
qed

lemma put_result:
  assumes "status_inv s" "manage_put env rq tid u s = (r, t)"
  shows "started r \<and> (\<exists>x. ss_db s u = Some x \<and> v_status x \<in> {RUNNING, STOPPED, FROZEN} \<and> marked_at True (v_status (set_notready x)) u s t)
    \<or> \<not> started r \<and> kept_at True u s t"
proof -
  obtain q s1 where q: "manage_get_vm (me_api env) False u s = (q, s1)" by force
  note g = manage_get_vm_result [OF q]
  have e: "\<not> started r \<and> kept_at True u s t" if "(Inl ex, s) = (r, t)" for ex
    using that by (auto simp: started_def kept_at_db)
  show ?thesis
  proof (cases q)
    case (Inl ex)
    then have "(Inl ex, s) = (r, t)" using assms(2) g q by (simp add: manage_put_def pbind_def)
    from e [OF this] show ?thesis by blast
  next
    case (Inr x)
    then obtain row where row: "ss_db s u = Some row" "x = fresh_vm row" "s1 = s" using g by auto
    note b = assms(2) [unfolded manage_put_def pbind_def [of "manage_get_vm _ _ _"] q Inr prod.case sum.case row(2,3)]
    show ?thesis
    proof (cases "mq_admin rq")
      case False
      then have "(Inl (Exn PermissionDenied []), s) = (r, t)" using b by (simp add: api_error_def pres_def)
      from e [OF this] show ?thesis by blast
    next
      case admin: True
      show ?thesis
      proof (cases "the_node (fresh_vm row)")
        case (Inl ex)
        then have "(Inl ex, s) = (r, t)" using b admin by (simp add: pbind_steps)
        from e [OF this] show ?thesis by blast
      next
        case n: (Inr n)
        show ?thesis
        proof (cases "v_status row \<in> {RUNNING, STOPPED}")
          case False
          then have "(Inl (Exn VmIsNotOperational ''VM is not stopped or running''), s) = (r, t)"
            using b admin n by (simp add: api_error_def prog_defs)
          from e [OF this] show ?thesis by blast
        next
          case st: True
          have st': "v_status row \<in> {RUNNING, STOPPED, FROZEN}" using st by auto
          have x: "started r \<and> marked_at True (v_status (set_notready row)) u s t \<or> \<not> started r \<and> kept_at True u s t"
            if "pbind (pres p) (\<lambda>c. put_execute env c f (fresh_vm row)) s = (r, t)" for p f
          proof (cases p)
            case (Inl ex)
            then have "(Inl ex, s) = (r, t)" using that by (simp add: pbind_steps)
            from e [OF this] show ?thesis by blast
          next
            case (Inr c)
            then show ?thesis using that put_execute_result [OF assms(1) row(1) st'] by (simp add: pbind_steps)
          qed
          have "started r \<and> marked_at True (v_status (set_notready row)) u s t \<or> \<not> started r \<and> kept_at True u s t"
          proof (cases "mq_force rq")
            case True
            then show ?thesis using b admin n st
              by (intro x [of "put_forced env rq n (fresh_vm row)" True]) (auto simp: pbind_steps(1) [of _ _ s])
          next
            case nf: False
            show ?thesis
            proof (cases "json_changed (fresh_vm row)")
              case True
              then show ?thesis using b admin n st nf
                by (intro x [of "put_changed env n (fresh_vm row)" False]) (auto simp: pbind_steps(1) [of _ _ s])
            next
              case False
              then show ?thesis using b admin n st nf
                by (auto simp: prog_defs out_def started_def kept_at_db)
            qed
          qed
          then show ?thesis using row(1) st' by blast
        qed
      qed
    qed
  qed
qed

lemma vm_save_full_any:
  assumes "plain_vm x"
  shows "vm_save env full_save x = Inr (changed_vm (e_now env) None x,
     DbSave None # (if v_status x \<noteq> v_orig_status x
       then [CacheSet (status_key x) (VInt (v_status x)),
             CacheSet (status_change_key x) (case v_status_change (changed_vm (e_now env) None x) of Some t \<Rightarrow> VInt t | None \<Rightarrow> VNone)]
       else []))"
proof -
  let ?y = "changed_vm (e_now env) None x"
  obtain q where p: "\<not> v_node_changed x" "v_vnc_port x = Some q" using assms(1) by (auto simp: plain_vm_def)
  have y: "\<not> v_node_changed ?y" using p(1) by (simp add: changed_vm_def)
  have u: "?y\<lparr>v_update_changed := False\<rparr> = ?y"
    by (rule no_update_changed) (use assms(1) in \<open>simp add: changed_vm_def plain_vm_def\<close>)
  have s: "StatusModel_save (e_now env) None None x = Inr (?y, DbSave None # (if v_status x \<noteq> v_orig_status x
       then [CacheSet (status_key x) (VInt (v_status x)),
             CacheSet (status_change_key x) (case v_status_change ?y of Some t \<Rightarrow> VInt t | None \<Rightarrow> VNone)] else []))"
    by (simp add: StatusModel_save_plain [OF assms(1)] changed_vm_def)
  show ?thesis
    using p by (simp add: vm_save_def save_node_part_def save_port_part_def save_json_part_def s full_save_def u y
      node_effects_def save_finish_def save_hostname_def)
qed

lemma full_save_result:
  assumes "plain_vm x"
  shows "\<exists>t. st_save env full_save x s = (Inr (changed_vm (e_now (se_save env)) None x), t)
    \<and> ss_db t = (ss_db s)(v_uuid x \<mapsto> changed_vm (e_now (se_save env)) None x)"
  by (simp add: st_save_def vm_save_full_any [OF assms]) (simp add: full_save_def run_effect_def)

text \<open>The state in which the table holds an object as it is in memory.\<close>

definition with_row :: "vm \<Rightarrow> status_state \<Rightarrow> status_state" where
  "with_row x s = s\<lparr>ss_db := (ss_db s)(v_uuid x \<mapsto> x)\<rparr>"

lemma with_row_simps [simp]:
  "ss_db (with_row x s) = (ss_db s)(v_uuid x \<mapsto> x)"
  by (simp add: with_row_def)

lemma kept_at_fresh:
  assumes "ss_db s u = Some row" "v_uuid row = u"
  shows "kept_at w u (with_row (fresh_vm row) s) t = kept_at w u s t"
    "marked_at w v u (with_row (fresh_vm row) s) t = marked_at w v u s t"
  using assms by (simp_all add: kept_at_def marked_at_def marked_vm_def kept_vm_def fresh_vm_def split: option.split)

lemma creating_marked:
  assumes "v_uuid x = u" "ss_db t = (ss_db s)(u \<mapsto> changed_vm now None (x\<lparr>v_json := js, v_status := CREATING\<rparr>))"
  shows "marked_at False CREATING u (with_row x s) t"
  using assms by (auto simp: marked_at_def marked_vm_def kept_vm_def changed_vm_def fun_upd_def)

text \<open>
  The exceptions of a creation after which its mark stays: \<open>fix_json\<close> raises, which is called after the mark was saved
  and before what takes it back, or the identity of the event cannot be built when the command is already submitted.
\<close>

definition event_task_id :: "status_env \<Rightarrow> string \<Rightarrow> vm \<Rightarrow> string res" where
  "event_task_id env tid y =
     task_id_from_task_id (se_md5 env) (se_uuid env) tid None (Some (IdInt (v_owner y))) None None (Some (IdInt (v_dc y))) False"

definition stays_creating :: "manage_env \<Rightarrow> string \<Rightarrow> api_response res \<Rightarrow> vm \<Rightarrow> bool" where
  "stays_creating env tid r y \<longleftrightarrow> v_status y = CREATING \<and> (\<exists>ex. r = Inl ex
     \<and> ((\<exists>deploy resize recreate.
            fix_json (me_settings env) (me_set_order env) (me_owner_keys env (v_owner y)) deploy resize recreate y = Inl ex)
        \<or> event_task_id (ae_status (me_api env)) tid y = Inl ex))"

lemma creating_answer:
  assumes "pbind (vm_status_changed env tid y v None False False None) (\<lambda>_. pret (TaskStarted msg)) s = (r, t)"
  shows "ss_db t = ss_db s \<and> (r = Inr (TaskStarted msg) \<or> (\<exists>ex. r = Inl ex \<and> event_task_id env tid y = Inl ex))"
proof -
  have "vm_status_changed env tid y v None False False None s = pbind (pwhen False (set_deploy_finished y)) (\<lambda>_. if is_slave_vm y then pret y else
       pbind (pres (event_task_id env tid y)) (\<lambda>tid'. pbind (out (changed_events tid' y)) (\<lambda>_. pret y))) s"
    by (simp add: vm_status_changed_def newer_change_def event_task_id_def pbind_def [of "\<lambda>s. (Inr False, s)"] pbind_steps(2))
  moreover have "pwhen False (set_deploy_finished y) = pret ()" by (simp add: pwhen_def)
  ultimately have e: "vm_status_changed env tid y v None False False None s = (if is_slave_vm y then (Inr y, s)
      else case event_task_id env tid y of Inl ex \<Rightarrow> (Inl ex, s) | Inr tid' \<Rightarrow> (Inr y, snd (out (changed_events tid' y) s)))"
    by (simp add: pbind_def pret_def pres_def out_def pmod_def split: sum.split)
  show ?thesis using assms unfolding pbind_def [of "vm_status_changed _ _ _ _ _ _ _ _"] e
    by (auto simp: pret_def out_def pmod_def split: if_splits sum.splits)
qed

lemma post_submit_result:
  assumes "current x s" "v_uuid x = u" "v_status x \<noteq> CREATING" "post_submit env tid recreate cmds msg x s = (r, t)"
  shows "(started r \<longrightarrow> marked_at False CREATING u (with_row x s) t)
    \<and> (\<not> started r \<longrightarrow> ss_db t = ss_db s \<or> kept_at False u (with_row x s) t
         \<or> marked_at False CREATING u (with_row x s) t \<and> (\<exists>y. ss_db t u = Some y \<and> stays_creating env tid r y))"
proof -
  let ?e = "ae_status (me_api env)"
  show ?thesis
  proof (cases "post_ready env x")
    case (Inl ex)
    then show ?thesis using assms(4) by (auto simp: post_submit_def pbind_steps started_def)
  next
    case (Inr p)
    obtain d rs y where p: "p = (d, rs, y)" using prod_cases3 by blast
    obtain js where y: "y = x\<lparr>v_json := js\<rparr>" using post_ready_frame Inr p by blast
    let ?x = "x\<lparr>v_json := js, v_status := CREATING\<rparr>"
    let ?z = "changed_vm (e_now (se_save ?e)) None ?x"
    have pl: "plain_vm ?x" using assms(1) by (simp add: current_def plain_vm_def)
    have u: "v_uuid ?x = u" using assms(2) by simp
    obtain t1 where t1: "st_save ?e full_save ?x s = (Inr ?z, t1)" "ss_db t1 = (ss_db s)(u \<mapsto> ?z)"
      using full_save_result [OF pl, of ?e s] unfolding u by blast
    have m1: "marked_at False CREATING u (with_row x s) t1" by (rule creating_marked [OF assms(2) t1(2)])
    have row0: "ss_db (with_row x s) u = Some x" using assms(2) by simp
    have c1: "current ?z t1" by (rule conjunct1 [OF tripleD(1) [OF triple_full_save assms(1) t1(1)]])
    have row1: "ss_db t1 u = Some ?z" using t1(2) by simp
    show ?thesis
    proof (cases "fix_json (me_settings env) (me_set_order env) (me_owner_keys env (v_owner ?z)) d rs recreate ?z")
      case fj: (Inl ex)
      have "(r, t) = (Inl ex, t1)"
        using assms(4) unfolding post_submit_def Inr p y
        by (simp add: pbind_steps pbind_def [of "st_save _ _ _"] t1(1) fj del: changed_vm_simps)
      then have rt: "r = Inl ex" "t = t1" by blast+
      have "v_status ?z = CREATING" by simp
      then have "stays_creating env tid r ?z" unfolding stays_creating_def rt(1) using fj by blast
      then show ?thesis using m1 row1 unfolding rt by (auto simp: started_def)
    next
      case fj: (Inr jd)
      let ?m = "post_execute env ?z (create_cmd cmds recreate ?z) (ae_dump (me_api env) jd) msg
          (manage_apiview ''POST'' ?z @ [(''recreate'', VBool recreate), (''deploy'', VBool d), (''resize'', VBool rs)])"
      let ?r = "pbind (vm_status_changed ?e tid ?z CREATING None False False None) (\<lambda>_. pret (TaskStarted msg))"
      have sub: "submit_or_undo ?m (st_save_status ?e None None (?z\<lparr>v_status := v_status x\<rparr>)) ?r t1 = (r, t)"
        using assms(4) unfolding post_submit_def Inr p y
        by (simp add: pbind_steps pbind_def [of "st_save _ _ _"] t1(1) fj del: changed_vm_simps)
      have oo: "out_only ?m" unfolding post_execute_def by (rule out_only_pbind) (auto split: prod.split)
      have ne: "v_status x \<noteq> v_status ?z" using assms(3) by simp
      have uz: "v_uuid ?z = u" using u by simp
      from submit_result [OF oo c1 row1 uz ne sub] show ?thesis
      proof
        assume "\<exists>es. ?m t1 = (Inr None, t1\<lparr>ss_out := es\<rparr>) \<and> ?r (t1\<lparr>ss_out := es\<rparr>) = (r, t)"
        then obtain es where es: "?r (t1\<lparr>ss_out := es\<rparr>) = (r, t)" by blast
        from creating_answer [OF es] have a: "ss_db t = ss_db t1"
            "r = Inr (TaskStarted msg) \<or> (\<exists>ex. r = Inl ex \<and> event_task_id ?e tid ?z = Inl ex)" by simp_all
        have m: "marked_at False CREATING u (with_row x s) t" using m1 a(1) by (simp add: marked_at_def)
        have "v_status ?z = CREATING" by simp
        then have "started r \<or> stays_creating env tid r ?z" using a(2) started_task [of msg] unfolding stays_creating_def by metis
        then show ?thesis using m row1 a(1) by auto
      next
        assume "\<not> started r \<and> (\<exists>w. ss_db t u = Some w \<and> status_row ?z w \<and> v_status w = v_status x \<and> (ss_db t)(u := None) = (ss_db t1)(u := None))"
        then obtain w where w: "\<not> started r" "ss_db t u = Some w" "status_row ?z w" "v_status w = v_status x"
          "(ss_db t)(u := None) = (ss_db t1)(u := None)" by blast
        have "kept_at False u (with_row x s) t"
          by (rule marked_back [OF marked_status_row [OF row1 m1 w(3,4,5,2)] row0 refl])
        then show ?thesis using w(1) by simp
      qed
    qed
  qed
qed

text \<open>
  The choice of a node, when a creation needs one: it saves the VM with the node and leaves its status, and all other
  VMs, as they are; a choice that fails saves nothing.
\<close>

definition choice_keeps :: "manage_env \<Rightarrow> bool" where
  "choice_keeps env \<longleftrightarrow> (\<forall>x s r t. current x s \<longrightarrow> me_choose env x s = (r, t) \<longrightarrow>
     (case r of Inl _ \<Rightarrow> ss_db t = ss_db s
      | Inr z \<Rightarrow> current z t \<and> ss_db t = (ss_db s)(v_uuid x \<mapsto> z) \<and> v_uuid z = v_uuid x \<and> v_status z = v_status x))"

definition placed :: "manage_env \<Rightarrow> vm \<Rightarrow> status_state \<Rightarrow> vm \<Rightarrow> bool" where
  "placed env x s z \<longleftrightarrow> z = x \<or> v_node x = None \<and> v_status x = NOTCREATED \<and> (\<exists>s1. me_choose env x s = (Inr z, s1))"

lemma post_place_result:
  assumes "post_place env rq recreate force x s = (q, t)"
  shows "(case q of Inl e \<Rightarrow> t = s \<or> me_choose env x s = (Inl e, t)
     | Inr (z, msg) \<Rightarrow> (z = x \<and> t = s \<or> v_node x = None \<and> me_choose env x s = (Inr z, t))
         \<and> v_status x = (if recreate then STOPPED else NOTCREATED) \<and> placed env x s z)"
proof (cases recreate)
  case True
  show ?thesis
  proof (cases "post_recreate rq force x")
    case (Inl e)
    then show ?thesis using assms(1) True by (auto simp: post_place_def pbind_steps)
  next
    case (Inr msg)
    then have "v_status x = STOPPED" by (simp add: post_recreate_def split: if_splits)
    then show ?thesis using assms(1) True Inr by (auto simp: post_place_def pbind_steps pret_def placed_def)
  qed
next
  case no: False
  consider "v_status x \<noteq> NOTCREATED" | "v_status x = NOTCREATED" "\<not> mq_admin rq" | "v_status x = NOTCREATED" "mq_admin rq" by blast
  then show ?thesis
  proof cases
    case 1
    then have "(Inl (Exn VmIsNotOperational ''VM is already created''), s) = (q, t)"
      using assms(1) no unfolding post_place_def api_error_def pres_def by (simp only: if_False)
    then show ?thesis by auto
  next
    case 2
    then have "(Inl (Exn PermissionDenied []), s) = (q, t)"
      using assms(1) no unfolding post_place_def api_error_def pres_def by (simp only: if_False if_True simp_thms)
    then show ?thesis by auto
  next
    case 3
    have m: "pbind (if v_node x = None then me_choose env x else pret x) (\<lambda>y. pret (y, ''Create server'')) s = (q, t)"
      using assms no 3 unfolding post_place_def by (simp only: if_False if_True simp_thms)
    show ?thesis
    proof (cases "v_node x = None")
      case True
      obtain p w where p: "me_choose env x s = (p, w)" by force
      have "(case p of Inl e \<Rightarrow> (Inl e, w) | Inr y \<Rightarrow> (Inr (y, ''Create server''), w)) = (q, t)"
        using m unfolding if_P [OF True] pbind_def p prod.case pret_def .
      then show ?thesis using p True 3(1) no by (cases p) (auto simp: placed_def)
    next
      case False
      have "q = Inr (x, ''Create server'') \<and> t = s"
        using m unfolding if_not_P [OF False] pbind_steps(2) unfolding pret_def by (elim Pair_inject) simp
      then show ?thesis using no 3(1) by (simp add: placed_def)
    qed
  qed
qed

lemma pbind_pres_pres: "pbind (pres a) (\<lambda>z. pbind (pres (g z)) f) s = pbind (pres (rbind a g)) f s"
  by (cases a) (simp_all add: pbind_steps)

lemma post_result:
  assumes "status_inv s" "ss_db s u = Some row" "manage_post env rq tid u s = (r, t)" "choice_keeps env"
  shows "\<exists>z. placed env (fresh_vm row) s z \<and> v_uuid z = u \<and> v_status z = v_status row
    \<and> (started r \<longrightarrow> marked_at False CREATING u (with_row z s) t
      \<and> (\<exists>recreate force. mq_create rq = Inr (recreate, force) \<and> v_status row = (if recreate then STOPPED else NOTCREATED)))
    \<and> (\<not> started r \<longrightarrow> kept_at False u (with_row z s) t
      \<or> marked_at False CREATING u (with_row z s) t \<and> (\<exists>y. ss_db t u = Some y \<and> stays_creating env tid r y))"
proof -
  obtain q s1 where q: "manage_get_vm (me_api env) True u s = (q, s1)" by force
  note g = manage_get_vm_result [OF q]
  have cur: "current (fresh_vm row) s" "v_uuid (fresh_vm row) = u" by (rule current_fresh [OF assms(1,2)])+
  have early: ?thesis if "ss_db t = ss_db s" "\<not> started r"
  proof -
    have "kept_at False u (with_row (fresh_vm row) s) t"
      using kept_at_db [OF that(1), of False u] kept_at_fresh(1) [OF assms(2), of False t] cur(2) by simp
    then show ?thesis using that(2) cur(2) by (intro exI [of _ "fresh_vm row"]) (simp add: placed_def)
  qed
  show ?thesis
  proof (cases q)
    case (Inl ex)
    from assms(3) have "(Inl ex, s1) = (r, t)"
      unfolding manage_post_def pbind_def [of "manage_get_vm _ _ _"] q Inl prod.case sum.case .
    then show ?thesis using early g Inl by (auto simp: started_def)
  next
    case (Inr x)
    from g have x: "x = fresh_vm row" "s1 = s" unfolding Inr assms(2) by blast+
    note b = assms(3) [unfolded manage_post_def pbind_def [of "manage_get_vm _ _ _"] q Inr prod.case sum.case x]
    show ?thesis
    proof (cases "mq_create rq")
      case (Inl errors)
      have "(Inr (FailureResponse errors), s) = (r, t)" using b unfolding Inl sum.case pret_def .
      then show ?thesis using early by (auto simp: started_def)
    next
      case mc: (Inr p)
      obtain recreate force where p: "p = (recreate, force)" by force
      show ?thesis
      proof (cases "rbind (check_ssh_keys env (fresh_vm row)) (\<lambda>_. fix_create (ae_cmd (me_api env)) (fresh_vm row))")
        case (Inl ex)
        have "(Inl ex, s) = (r, t)"
          using b unfolding mc p sum.case prod.case pbind_pres_pres pbind_steps(1) [of _ _ s] Inl .
        then show ?thesis using early by (auto simp: started_def)
      next
        case ok: (Inr cmds)
        have b2: "pbind (post_place env rq recreate force (fresh_vm row)) (\<lambda>(y, msg). post_submit env tid recreate cmds msg y) s = (r, t)"
          using b unfolding mc p sum.case prod.case pbind_pres_pres pbind_steps(1) [of _ _ s] ok .
        obtain q2 s2 where q2: "post_place env rq recreate force (fresh_vm row) s = (q2, s2)" by force
        note g2 = post_place_result [OF q2]
        show ?thesis
        proof (cases q2)
          case (Inl ex)
          have rt: "(Inl ex, s2) = (r, t)" using b2 unfolding pbind_def q2 Inl prod.case sum.case .
          have "ss_db s2 = ss_db s"
            using g2 assms(4) cur(1) unfolding Inl choice_keeps_def by fastforce
          then show ?thesis using early rt by (auto simp: started_def)
        next
          case (Inr zm)
          obtain z msg where zm: "zm = (z, msg)" by force
          have w: "z = fresh_vm row \<and> s2 = s \<or> v_node (fresh_vm row) = None \<and> me_choose env (fresh_vm row) s = (Inr z, s2)"
              "v_status row = (if recreate then STOPPED else NOTCREATED)" "placed env (fresh_vm row) s z"
            using g2 unfolding Inr zm by simp_all
          have z: "current z s2 \<and> v_uuid z = u \<and> v_status z = v_status row \<and> (ss_db s2)(u \<mapsto> z) = (ss_db s)(u \<mapsto> z)
              \<and> (z = fresh_vm row \<and> s2 = s \<or> ss_db s2 = (ss_db s)(u \<mapsto> z))"
            using w(1) cur assms(4) unfolding choice_keeps_def by fastforce
          have sub: "post_submit env tid recreate cmds msg z s2 = (r, t)"
            using b2 unfolding pbind_def q2 Inr zm prod.case sum.case .
          have nc: "v_status z \<noteq> CREATING" using z w(2) by (simp add: status_codes split: if_splits)
          have ms: "marked_at b v u (with_row z s2) t = marked_at b v u (with_row z s) t"
              "kept_at b u (with_row z s2) t = kept_at b u (with_row z s) t" for b v
            using z by (simp_all add: marked_at_def kept_at_def)
          have k: "ss_db t = ss_db s2 \<Longrightarrow> kept_at False u (with_row z s) t"
          proof -
            assume e: "ss_db t = ss_db s2"
            from z have "z = fresh_vm row \<and> s2 = s \<or> ss_db t = ss_db (with_row z s)" using e by auto
            then show ?thesis
            proof
              assume f: "z = fresh_vm row \<and> s2 = s"
              then have "kept_at False u s t" using e kept_at_db by blast
              then show ?thesis using f kept_at_fresh(1) [OF assms(2), of False t] cur(2) by simp
            qed (rule kept_at_db)
          qed
          note f = post_submit_result [OF conjunct1 [OF z] _ nc sub, of u, unfolded ms]
          have f': "(started r \<longrightarrow> marked_at False CREATING u (with_row z s) t)
              \<and> (\<not> started r \<longrightarrow> kept_at False u (with_row z s) t
                 \<or> marked_at False CREATING u (with_row z s) t \<and> (\<exists>y. ss_db t u = Some y \<and> stays_creating env tid r y))"
            using f k z by blast
          show ?thesis using w(2,3) z f' mc p by (intro exI [of _ z]) blast
        qed
      qed
    qed
  qed
qed

section \<open>Callbacks of failed commands\<close>

definition manage_cb :: "manage_call \<Rightarrow> task_env \<Rightarrow> manage_result \<Rightarrow> string \<Rightarrow> string \<Rightarrow> string option \<Rightarrow> vm sprog" where
  "manage_cb c env r tid u nn = (case c of PostVm \<Rightarrow> create_cb_start env r tid u | PutVm \<Rightarrow> vm_update_cb env r tid u nn
     | DeleteVm \<Rightarrow> vm_delete_cb env r tid u)"

lemma startswith_contains: "startswith s p \<Longrightarrow> contains s p"
  by (cases s; cases p) (auto simp: contains_def str_find_def startswith_def)

lemma reverted_row:
  assumes "status_inv s" "ss_db s u = Some x" "v_status x \<in> {RUNNING, STOPPED, FROZEN}"
    "marked_at True (v_status (set_notready x)) u s s1" "status_inv s1"
  shows "\<exists>row y s2. ss_db s1 u = Some row \<and> v_hostname row = v_hostname x
    \<and> st_save_status e None None (revert_notready (fresh_vm row)) s1 = (Inr y, s2) \<and> kept_at True u s s2"
proof -
  obtain row where row: "ss_db s1 u = Some row" "marked_vm True (v_status (set_notready x)) x row"
    using assms(2,4) by (auto simp: marked_at_def)
  have cur: "current (fresh_vm row) s1" "v_uuid (fresh_vm row) = u" by (rule current_fresh [OF assms(5) row(1)])+
  have st: "v_status (fresh_vm row) = v_status (set_notready x)" using row(2) by (simp add: marked_vm_def)
  have rv: "revert_notready (fresh_vm row) = (fresh_vm row)\<lparr>v_status := v_status x\<rparr>"
    using notready_back(1) [OF assms(3) st] by (simp add: revert_notready_def)
  have ne: "v_status x \<noteq> v_status (fresh_vm row)" using notready_back(2) [OF assms(3)] st by metis
  have "ss_db s1 (v_uuid (fresh_vm row)) = Some row" using cur(2) row(1) by simp
  from save_mark_result [OF cur(1) ne this, of e]
  obtain y s2 z where y: "st_save_status e None None (revert_notready (fresh_vm row)) s1 = (Inr y, s2)" "ss_db s2 u = Some z"
      "status_row row z" "v_status z = v_status x" "(ss_db s2)(u := None) = (ss_db s1)(u := None)"
    unfolding rv cur(2) by blast
  have "kept_at True u s s2"
    by (rule marked_back [OF marked_status_row [OF row(1) assms(4) y(3-5) y(2)] assms(2) refl])
  moreover have "v_hostname row = v_hostname x" using row(2) by (simp add: marked_vm_def kept_vm_def)
  ultimately show ?thesis using row(1) y(1) by blast
qed

lemma save_new_status_None: "save_new_status env x st None t = save_new_status env x st (Some (v_orig_status x)) t"
proof -
  have id: "z\<lparr>v_orig_status := v_orig_status z\<rparr> = z" for z :: vm by (cases z) simp
  have a: "(update_uptime now None False (x\<lparr>v_status := st\<rparr>))\<lparr>v_orig_status := v_orig_status x\<rparr> = update_uptime now None False (x\<lparr>v_status := st\<rparr>)" for now
    using id [of "update_uptime now None False (x\<lparr>v_status := st\<rparr>)"] by simp
  have b: "x\<lparr>v_status := v, v_orig_status := v_orig_status x\<rparr> = x\<lparr>v_status := v\<rparr>" for v
    using id [of "x\<lparr>v_status := v\<rparr>"] by simp
  show ?thesis unfolding save_new_status_def Let_def option.case
    by (cases "st \<noteq> STOPPING") (simp_all only: a b if_True if_False simp_thms)
qed

lemma reverting_change_result:
  assumes "status_inv s" "ss_db s u = Some row" "v \<noteq> v_status row"
  shows "status_result u v None False s (snd (vm_status_changed env tid (fresh_vm row) v None True False None s))"
proof -
  have cur: "current (fresh_vm row) s" "v_uuid (fresh_vm row) = u" by (rule current_fresh [OF assms(1,2)])+
  have orig: "v_orig_status (fresh_vm row) = v_status (fresh_vm row)" by simp
  have "vm_status_changed env tid (fresh_vm row) v None True False None = vm_status_changed env tid (fresh_vm row) v (Some (v_status (fresh_vm row))) True False None"
    unfolding vm_status_changed_def save_new_status_None [of env "fresh_vm row"] orig ..
  moreover have "status_result (v_uuid (fresh_vm row)) v None False s
      (snd (vm_status_changed env tid (fresh_vm row) v (Some (v_status (fresh_vm row))) True False None s))"
    by (rule vm_status_changed_result [OF cur(1)]) (use assms(3) in \<open>simp_all add: newer_change_def\<close>)
  ultimately show ?thesis unfolding cur(2) by metis
qed

lemma update_cb_failed:
  assumes "status_inv s" "ss_db s u = Some x" "v_status x \<in> {RUNNING, STOPPED, FROZEN}"
    "marked_at True (v_status (set_notready x)) u s s1" "status_inv s1" "mr_returncode r \<noteq> 0"
  shows "\<exists>s2. vm_update_cb env r tid u nn s1 = (Inl (bad_manage_code r), s2) \<and> kept_at True u s s2"
proof -
  obtain row y s2 where y: "ss_db s1 u = Some row"
      "st_save_status (te_status env) None None (revert_notready (fresh_vm row)) s1 = (Inr y, s2)" "kept_at True u s s2"
    using reverted_row [OF assms(1-5)] by blast
  have "vm_update_cb env r tid u nn s1 = (Inl (bad_manage_code r), s2)"
    unfolding vm_update_cb_def get_vm_some [OF y(1)] vm_update_cb_done_def
    by (simp add: pbind_def [of "st_save_status _ _ _ _"] y(2) assms(6) pres_def)
  with y(3) show ?thesis by blast
qed

lemma delete_cb_failed:
  assumes "status_inv s" "ss_db s u = Some x" "v_status x \<in> {RUNNING, STOPPED, FROZEN}"
    "marked_at True (v_status (set_notready x)) u s s1" "status_inv s1" "mr_returncode r \<noteq> 0"
    "\<not> contains (mr_message r) (v_hostname x @ '': No such zone configured'')"
  shows "\<exists>s2. vm_delete_cb env r tid u s1 = (Inl (bad_manage_code r), s2) \<and> kept_at True u s s2"
proof -
  obtain row y s2 where y: "ss_db s1 u = Some row" "v_hostname row = v_hostname x"
      "st_save_status (te_status env) None None (revert_notready (fresh_vm row)) s1 = (Inr y, s2)" "kept_at True u s s2"
    using reverted_row [OF assms(1-5)] by blast
  have "\<not> is_vm_missing (fresh_vm row) (mr_message r)" using assms(7) y(2) by (simp add: is_vm_missing_def)
  then have "vm_delete_cb env r tid u s1 = (Inl (bad_manage_code r), s2)"
    unfolding vm_delete_cb_def get_vm_some [OF y(1)] vm_delete_cb_failed_def
    by (simp add: pbind_def [of "st_save_status _ _ _ _"] y(3) assms(6) pres_def)
  with y(4) show ?thesis by blast
qed

lemma create_cb_failed:
  assumes "ss_db s u = Some x" "v_status x = (if mr_recreate r then STOPPED else NOTCREATED)"
    "marked_at False CREATING u s s1" "status_inv s1" "mr_returncode r \<noteq> 0" "\<not> contains (mr_message r) ''Successfully deleted''"
  shows "\<exists>e s2. create_cb_start env r tid u s1 = (Inl e, s2) \<and> kept_at False u s s2"
proof -
  obtain row where row: "ss_db s1 u = Some row" "marked_vm False CREATING x row"
    using assms(1,3) by (auto simp: marked_at_def)
  have st: "v_status row = CREATING" using row(2) by (simp add: marked_vm_def)
  have ne: "v_status x \<noteq> v_status row" unfolding st assms(2) by (simp add: status_codes)
  have ns: "\<not> startswith (mr_message r) ''Successfully deleted''" using assms(6) startswith_contains by blast
  let ?c = "vm_status_changed (te_status env) tid (fresh_vm row) (v_status x) None True False None"
  have f: "vm_create_cb_failed (te_status env) r tid (fresh_vm row) True s1 = ?c s1"
  proof -
    have "vm_create_cb_failed (te_status env) r tid (fresh_vm row) True s1
       = pbind (pret (fresh_vm row, v_status x)) (\<lambda>(y, v). if True then (if v_status y \<noteq> v then vm_status_changed (te_status env) tid y v None True False None
            else pret y) else st_save_status (te_status env) None None (y\<lparr>v_status := v\<rparr>)) s1"
      unfolding vm_create_cb_failed_def if_not_P [OF ns] assms(2) by (cases "mr_recreate r") (simp_all only: if_True if_False)
    also have "\<dots> = ?c s1" unfolding pbind_steps(2) using ne by simp
    finally show ?thesis .
  qed
  obtain q s2 where q: "?c s1 = (q, s2)" by force
  note r = reverting_change_result [OF assms(4) row(1) ne, of "te_status env" tid, unfolded q snd_conv]
  have other: "(ss_db s2)(u := None) = (ss_db s1)(u := None)"
    by (rule ext) (use r in \<open>simp add: status_result_def\<close>)
  obtain z where z: "ss_db s2 u = Some z" "status_row row z" "v_status z = v_status x"
    using r row(1) unfolding status_result_def by auto
  have k: "kept_at False u s s2" by (rule marked_back [OF marked_status_row [OF row(1) assms(3) z(2,3) other z(1)] assms(1) refl])
  have "\<exists>e. create_cb_start env r tid u s1 = (Inl e, s2)"
    unfolding create_cb_start_def get_vm_some [OF row(1)]
    using assms(5,6) by (cases q) (simp_all add: pbind_def [of "vm_create_cb_failed _ _ _ _ _"] f q pbind_steps, simp add: pres_def)
  then show ?thesis using k by blast
qed

end
