(* ===== verification/Networks.thy ===== *)
theory Networks
  imports Ip_Usage "HOL-Library.Word"
begin

text \<open>
  Networks of VMs, \<^verbatim>\<open>vms/models/subnet.py\<close>: their range of addresses, their DNS servers and
  whether a VM uses them. Addresses are words of 32 bits once they have been read.
\<close>

unbundle bit_operations_syntax

section \<open>Networks\<close>

record subnet =
  sn_uuid :: string
  sn_name :: string
  sn_access :: int
  sn_nic_tag :: string
  sn_vlan_id :: int
  sn_vxlan_id :: "int option"
  sn_netmask :: string
  sn_gateway :: "string option"
  sn_resolvers :: string
  sn_ptr_domain :: string
  sn_mtu :: "int option"
  sn_dhcp_passthrough :: bool

definition get_resolvers :: "subnet \<Rightarrow> string list" where
  "get_resolvers n = (let r = strip (sn_resolvers n) in
     if r = [] then [] else map strip (split_on (CHR '','') r))"

text \<open>A value that is set: \<open>None\<close>, a list or a string; only a string or a list can be stored.\<close>

definition set_subnet_resolvers :: "pyval \<Rightarrow> subnet \<Rightarrow> subnet res" where
  "set_subnet_resolvers v n = (case v of
      VStr s \<Rightarrow> Inr (n\<lparr>sn_resolvers := s\<rparr>)
    | VList vs \<Rightarrow> (if list_all (\<lambda>w. case w of VStr _ \<Rightarrow> True | _ \<Rightarrow> False) vs
        then Inr (n\<lparr>sn_resolvers := join_with [CHR '',''] (map (\<lambda>w. case w of VStr s \<Rightarrow> s | _ \<Rightarrow> []) vs)\<rparr>)
        else Inl (Exn TypeError ''sequence item: expected string''))
    | _ \<Rightarrow> Inl (Exn (OtherError ''IntegrityError'') ''resolvers''))"

section \<open>Addresses of a network\<close>

definition prefix_mask :: "nat \<Rightarrow> 32 word" where "prefix_mask p = NOT (mask (32 - p))"

text \<open>A netmask, or else a host mask, whose bits are inverted.\<close>

definition mask_prefix :: "32 word \<Rightarrow> nat option" where
  "mask_prefix m = (case List.find (\<lambda>p. prefix_mask p = m) [0..<33] of
      Some p \<Rightarrow> Some p
    | None \<Rightarrow> List.find (\<lambda>p. prefix_mask p = NOT m) [0..<33])"

text \<open>A network by its address and the length of its prefix; the address must have no host bits.\<close>

definition get_ip_network :: "32 word \<Rightarrow> 32 word \<Rightarrow> (32 word \<times> nat) res" where
  "get_ip_network netaddr netmask = (case mask_prefix netmask of
      None \<Rightarrow> Inl (Exn ValueError ''is not a valid netmask'')
    | Some p \<Rightarrow> if netaddr AND prefix_mask p \<noteq> netaddr then Inl (Exn ValueError ''has host bits set'') else Inr (netaddr, p))"

definition get_net_address :: "32 word \<Rightarrow> 32 word \<Rightarrow> 32 word res" where
  "get_net_address ipaddr netmask = (case mask_prefix netmask of
      None \<Rightarrow> Inl (Exn ValueError ''is not a valid netmask'')
    | Some p \<Rightarrow> Inr (ipaddr AND prefix_mask p))"

definition broadcast_address :: "32 word \<times> nat \<Rightarrow> 32 word" where
  "broadcast_address net = (case net of (a, p) \<Rightarrow> a OR NOT (prefix_mask p))"

text \<open>An address made from a number, which has to fit.\<close>

definition address_of_int :: "int \<Rightarrow> 32 word res" where
  "address_of_int i = (if 0 \<le> i \<and> i < 2 ^ 32 then Inr (word_of_int i) else Inl (Exn (OtherError ''AddressValueError'') []))"

record hostinfo =
  hi_min :: "32 word"
  hi_max :: "32 word"
  hi_hosts :: int

definition get_ip_network_hostinfo :: "32 word \<times> nat \<Rightarrow> hostinfo res" where
  "get_ip_network_hostinfo net =
     (let netaddr = uint (fst net); bcastaddr = uint (broadcast_address net) in
      rbind (address_of_int (netaddr + 1)) (\<lambda>lo. rbind (address_of_int (bcastaddr - 1)) (\<lambda>hi.
        Inr \<lparr>hi_min = lo, hi_max = hi, hi_hosts = bcastaddr - netaddr - 1\<rparr>)))"

definition ip_network :: "(string \<Rightarrow> 32 word res) \<Rightarrow> string \<Rightarrow> string \<Rightarrow> (32 word \<times> nat) res" where
  "ip_network parse network netmask = rbind (parse network) (\<lambda>a. rbind (parse netmask) (\<lambda>m. get_ip_network a m))"

section \<open>Use by VMs\<close>

text \<open>The cards of a VM in its definition and, when it is created, on its node.\<close>

definition get_vm_nics :: "vm \<Rightarrow> pydict list res" where
  "get_vm_nics x = rbind (json_get_nics x) (\<lambda>a.
     if is_deployed x then rbind (json_active_get_nics x) (\<lambda>b. Inr (a @ b)) else Inr a)"

fun first_with :: "string \<Rightarrow> pyval \<Rightarrow> pydict list \<Rightarrow> pydict option res" where
  "first_with k v [] = Inr None"
| "first_with k v (nic # nics) = rbind (ditem nic k) (\<lambda>w. if py_eq w v then Inr (Some nic) else first_with k v nics)"

definition get_nic_by_ip :: "vm \<Rightarrow> pyval \<Rightarrow> pydict option res" where
  "get_nic_by_ip x ip = rbind (get_vm_nics x) (first_with ''ip'' ip)"

definition get_nic_config :: "vm \<Rightarrow> pyval \<Rightarrow> pydict option res" where
  "get_nic_config x net_uuid = rbind (get_vm_nics x) (first_with ''network_uuid'' net_uuid)"

fun items_of :: "string \<Rightarrow> pydict list \<Rightarrow> pyval list res" where
  "items_of k [] = Inr []"
| "items_of k (nic # nics) = rbind (ditem nic k) (\<lambda>v. rbind (items_of k nics) (\<lambda>vs. Inr (v # vs)))"

definition get_network_uuids :: "vm \<Rightarrow> pyval set res" where
  "get_network_uuids x = rbind (get_vm_nics x) (\<lambda>nics. rbind (items_of ''network_uuid'' nics) (\<lambda>vs. Inr (set vs)))"

text \<open>A VM of one datacenter, or of any of the given ones, uses a network.\<close>

fun any_uses :: "string \<Rightarrow> vm list \<Rightarrow> bool res" where
  "any_uses uuid [] = Inr False"
| "any_uses uuid (x # xs) = rbind (get_network_uuids x) (\<lambda>us. if VStr uuid \<in> us then Inr True else any_uses uuid xs)"

definition is_used_by_vms :: "subnet \<Rightarrow> int option \<Rightarrow> int list \<Rightarrow> vm list \<Rightarrow> ip_row list \<Rightarrow> bool res" where
  "is_used_by_vms n dc dcs vms rows =
     (let own = filter (\<lambda>r. ip_subnet r = sn_uuid n) rows in
      case dc of
        Some d \<Rightarrow>
          (let mine = filter (\<lambda>x. v_dc x = d) vms in
           if list_ex (\<lambda>r. list_ex (\<lambda>x. ip_vm r = Some (v_uuid x)) mine) own then Inr True else any_uses (sn_uuid n) mine)
      | None \<Rightarrow>
          (if list_ex (\<lambda>r. ip_vm r \<noteq> None \<or> ip_vms r \<noteq> []) own then Inr True
           else any_uses (sn_uuid n) (filter (\<lambda>x. v_dc x \<in> set dcs) vms)))"


section \<open>The hosts of a network\<close>

lemma uint_host_part: "p \<le> 32 \<Longrightarrow> uint (NOT (prefix_mask p)) = 2 ^ (32 - p) - 1"
  by (simp add: prefix_mask_def uint_mask_eq min_def mask_eq_exp_minus_1 [where 'a = int]) arith

lemma broadcast_sum:
  assumes "a AND prefix_mask p = a" "p \<le> 32"
  shows "uint (broadcast_address (a, p)) = uint a + 2 ^ (32 - p) - 1"
proof -
  have z: "a AND NOT (prefix_mask p) = 0" by (metis assms(1) and.assoc and.right_neutral bit.conj_cancel_right and_zero_eq)
  have "uint (a OR NOT (prefix_mask p)) = uint a OR uint (NOT (prefix_mask p))" by (rule uint_or)
  also have "\<dots> = uint a + uint (NOT (prefix_mask p))"
  proof -
    have "uint a AND uint (NOT (prefix_mask p)) = 0" unfolding uint_and [symmetric] z by simp
    then show ?thesis by (metis disjunctive_add_eq_or)
  qed
  finally show ?thesis by (simp add: broadcast_address_def uint_host_part [OF assms(2)])
qed

lemma mask_prefix_le: "mask_prefix m = Some p \<Longrightarrow> p \<le> 32"
  by (auto simp: mask_prefix_def find_Some_iff split: option.splits)

lemma get_ip_network_Inr: "get_ip_network a m = Inr net \<Longrightarrow> fst net = a \<and> a AND prefix_mask (snd net) = a \<and> snd net \<le> 32"
  by (auto simp: get_ip_network_def dest: mask_prefix_le split: option.splits if_splits)

text \<open>
  The hosts of a network. The first and the last host address lie one after the address of the
  network and one before its broadcast address, and the number of hosts is the number of addresses
  from the first to the last one, so it is zero for a prefix of 31 bits and negative for one of 32.
  Only the networks of the single addresses at both ends of the address space have no such addresses.
\<close>

theorem network_hostinfo:
  assumes "get_ip_network a m = Inr net"
  shows "case get_ip_network_hostinfo net of
      Inr h \<Rightarrow> uint (hi_min h) = uint a + 1 \<and> uint (hi_max h) = uint a + 2 ^ (32 - snd net) - 2
        \<and> hi_hosts h = 2 ^ (32 - snd net) - 2 \<and> hi_hosts h = uint (hi_max h) - uint (hi_min h) + 1
    | Inl e \<Rightarrow> snd net = 32 \<and> (a = 0 \<or> a = -1)"
proof -
  obtain p where net: "net = (a, p)" and p: "a AND prefix_mask p = a" "p \<le> 32"
    using get_ip_network_Inr [OF assms] by (cases net) auto
  define k :: int where "k = 2 ^ (32 - p)"
  have b: "uint (broadcast_address (a, p)) = uint a + k - 1" using broadcast_sum [OF p] by (simp add: k_def)
  have lim: "0 \<le> uint a" "uint a < 2 ^ 32" "uint a + k - 1 < 2 ^ 32"
    using uint_lt2p [of a] uint_lt2p [of "broadcast_address (a, p)"] b by simp_all
  have k1: "k = 1 \<longleftrightarrow> p = 32" "1 \<le> k" using p(2) power_inject_exp [of "2 :: int" "32 - p" 0] by (auto simp: k_def)
  have top: "uint a = 2 ^ 32 - 1 \<longleftrightarrow> a = -1" "uint a = 0 \<longleftrightarrow> a = 0"
    by (simp_all add: word_uint_eq_iff uint_word_ariths)
  have pos: "0 < uint a \<or> uint a = 0" using lim(1) by linarith
  have w: "uint (word_of_int i :: 32 word) = i" if "0 \<le> i" "i < 2 ^ 32" for i
    using that by (simp add: uint_word_of_int)
  show ?thesis
  proof (cases "k = 1")
    case True
    then show ?thesis
      using pos lim top k1 b w [of "uint a + 1"] w [of "uint a - 1"]
      by (auto simp: net get_ip_network_hostinfo_def address_of_int_def Let_def k_def [symmetric])
  next
    case False
    then have k2: "2 \<le> k" using k1 by simp
    then show ?thesis
      using lim top k1 b w [of "uint a + 1"] w [of "uint a + k - 2"]
      by (auto simp: net get_ip_network_hostinfo_def address_of_int_def Let_def k_def [symmetric])
         (use k2 lim(1) in linarith)+
  qed
qed

theorem network_hostinfo_witness:
  "\<exists>h. get_ip_network 0x0A000000 0xFFFFFF00 = Inr (0x0A000000, 24)
     \<and> get_ip_network_hostinfo (0x0A000000, 24) = Inr h \<and> hi_hosts h = 254"
proof -
  have n: "get_ip_network 0x0A000000 0xFFFFFF00 = Inr (0x0A000000, 24)" by code_simp
  from network_hostinfo [OF n] n show ?thesis by (cases "get_ip_network_hostinfo (0x0A000000, 24)") auto
qed

end
