(* ===== verification/Nic_Define.thy ===== *)
theory Nic_Define
  imports Vm_Status_Api Networks
begin

text \<open>
  Network cards of a VM: the serializer \<open>VmDefineNicSerializer\<close> of \<^verbatim>\<open>api/vm/define/serializers.py\<close>, which
  validates a card, finds an address for it and keeps the table of addresses and the DNS in line, and
  the operations of \<^verbatim>\<open>api/vm/define/vm_define_nic.py\<close>. A request is given by the attributes that the
  fields of the serializer have parsed, defaults included.
\<close>

section \<open>Environment\<close>

text \<open>
  The user and what is looked up: networks by UUID, networks that the user may choose by name, NIC
  tags of nodes, pending tasks that change the VM, which of some free addresses the database returns
  first, and the DNS records. \<open>ne_reverse\<close> and \<open>ne_ptr_content\<close> are the name for the reverse lookup that
  dnspython computes and the formatted default content.
\<close>

record nic_env =
  ne_api :: api_env
  ne_staff :: bool
  ne_subnets :: "subnet list"
  ne_choice :: "string \<Rightarrow> subnet option"
  ne_node_tags :: "string \<Rightarrow> string list"
  ne_tasks_rw :: "string \<Rightarrow> bool"
  ne_pick :: "nat \<Rightarrow> nat"
  ne_default_resolvers :: pyval
  ne_records_A :: "string \<Rightarrow> string \<Rightarrow> (int \<times> string) list"
  ne_ptr_records :: "string \<Rightarrow> bool"
  ne_domains :: "string list"
  ne_reverse :: "string \<Rightarrow> string"
  ne_ptr_content :: "vm \<Rightarrow> string \<Rightarrow> string"

definition ne_save :: "nic_env \<Rightarrow> save_env" where "ne_save env = se_save (ae_status (ne_api env))"

definition SUBNET_UNUSABLE :: "int list" where "SUBNET_UNUSABLE = [2, 4, 9]"

definition find_subnet :: "nic_env \<Rightarrow> pyval \<Rightarrow> subnet option" where
  "find_subnet env uuid = List.find (\<lambda>n. VStr (sn_uuid n) = uuid) (ne_subnets env)"

definition find_ip :: "ip_row list \<Rightarrow> pyval \<Rightarrow> subnet option \<Rightarrow> ip_row option" where
  "find_ip rows ip net = (case net of None \<Rightarrow> None
     | Some n \<Rightarrow> List.find (\<lambda>r. VStr (ip_ip r) = ip \<and> ip_subnet r = sn_uuid n) rows)"

definition ips_in :: "ip_row list \<Rightarrow> pyval list \<Rightarrow> subnet option \<Rightarrow> ip_row list" where
  "ips_in rows ips net = (case net of None \<Rightarrow> []
     | Some n \<Rightarrow> filter (\<lambda>r. VStr (ip_ip r) \<in> set ips \<and> ip_subnet r = sn_uuid n) rows)"

definition other_error :: "string \<Rightarrow> string \<Rightarrow> 'a res" where
  "other_error c msg = Inl (Exn (OtherError c) msg)"

definition valid_fqdn :: "nic_env \<Rightarrow> vm \<Rightarrow> bool" where
  "valid_fqdn env x = fst (hostname_is_valid_fqdn (e_dns (ne_save env)) (e_domains (ne_save env)) False x)"

definition fqdn_domain :: "nic_env \<Rightarrow> vm \<Rightarrow> string" where
  "fqdn_domain env x =
     (case v_fqdn_domain (snd (hostname_is_valid_fqdn (e_dns (ne_save env)) (e_domains (ne_save env)) False x)) of
        Some d \<Rightarrow> d | None \<Rightarrow> [])"

section \<open>The serializer\<close>

text \<open>The address of a card: none yet, one that an external DHCP server gives (\<open>False\<close>) or a row.\<close>

datatype nic_addr = NoAddr | Dhcp | Addr ip_row

record nic_ser =
  sr_object :: "pydict option"
  sr_net :: "subnet option"
  sr_net_old :: "subnet option"
  sr_ip :: nic_addr
  sr_ip_old :: nic_addr
  sr_ips :: "ip_row list"
  sr_ips_old :: "ip_row list"
  sr_changing_allowed :: bool
  sr_monitoring_old :: bool
  sr_dns :: "(int \<times> string) list"
  sr_resolvers :: pyval

definition new_nic_ser :: "vm \<Rightarrow> nic_ser" where
  "new_nic_ser x = \<lparr>sr_object = None, sr_net = None, sr_net_old = None, sr_ip = NoAddr, sr_ip_old = NoAddr, sr_ips = [],
     sr_ips_old = [], sr_changing_allowed = False, sr_monitoring_old = False, sr_dns = [], sr_resolvers = resolvers x\<rparr>"

text \<open>\<open>fix_before\<close>, on the card as it is in the definition.\<close>

definition set_default_item :: "string \<Rightarrow> pyval \<Rightarrow> pydict \<Rightarrow> pydict" where
  "set_default_item k v d = (if dhas d k then d else AList.update k v d)"

definition fix_net :: "nic_env \<Rightarrow> pydict \<Rightarrow> (subnet option \<times> pydict) res" where
  "fix_net env data =
     (if truthy (dget data ''network_uuid'' VNone)
      then (case find_subnet env (dget data ''network_uuid'' VNone) of
          None \<Rightarrow> other_error ''APIError'' ''Unknown net in NIC definition.''
        | Some n \<Rightarrow> Inr (Some n, AList.delete ''network_uuid'' (AList.update ''net'' (VStr (sn_name n)) data)))
      else Inr (None, AList.update ''net'' VNone data))"

definition fix_ip :: "ip_row list \<Rightarrow> subnet option \<Rightarrow> pydict \<Rightarrow> (nic_addr \<times> pydict) res" where
  "fix_ip rows net d =
     (let ip = dget d ''ip'' VNone in
      if \<not> truthy ip then Inr (NoAddr, d)
      else if (case net of Some n \<Rightarrow> sn_dhcp_passthrough n | None \<Rightarrow> False) \<and> ip = VStr ''dhcp''
      then Inr (Dhcp, dupdate d [(''ip'', VNone), (''netmask'', VNone), (''gateway'', VNone)])
      else (case find_ip rows ip net of
          None \<Rightarrow> other_error ''APIError'' ''Unknown ip in NIC definition.''
        | Some r \<Rightarrow> Inr (Addr r, d)))"

definition fix_allowed :: "ip_row list \<Rightarrow> subnet option \<Rightarrow> pydict \<Rightarrow> (ip_row list \<times> pydict) res" where
  "fix_allowed rows net d = (case dget d ''allowed_ips'' VNone of
      VNone \<Rightarrow> Inr ([], d)
    | VList vs \<Rightarrow> Inr (ips_in rows vs net, AList.update ''allowed_ips'' (VList (remdups vs)) d)
    | _ \<Rightarrow> Inl (Exn TypeError ''not iterable''))"

definition fix_before :: "nic_env \<Rightarrow> ip_row list \<Rightarrow> vm \<Rightarrow> pydict \<Rightarrow> nic_ser res" where
  "fix_before env rows x data =
     rbind (fix_net env data) (\<lambda>(net, d1).
     rbind (fix_ip rows net (set_default_item ''primary'' (VBool False)
         (set_default_item ''mtu'' VNone (set_default_item ''vlan_id'' (VInt 0) d1)))) (\<lambda>(addr, d2).
     rbind (fix_allowed rows net d2) (\<lambda>(ips, d3).
     rbind (monitoring_ip x) (\<lambda>mon.
     (let ip = dget d2 ''ip'' VNone;
          dns = (if truthy ip \<and> valid_fqdn env x
                 then filter (\<lambda>(_, c). VStr c = ip) (ne_records_A env (v_hostname x) (fqdn_domain env x)) else []);
          net_dns = (case net of Some n \<Rightarrow> py_eq (VList (map VStr (get_resolvers n))) (resolvers x) | None \<Rightarrow> False)
      in Inr ((new_nic_ser x)\<lparr>sr_net := net, sr_ip := addr, sr_ips := ips, sr_dns := dns, sr_monitoring_old := py_eq mon ip,
           sr_object := Some (dupdate d3 [(''dns'', VBool (dns \<noteq> [])), (''use_net_dns'', VBool net_dns),
             (''monitoring'', VBool (py_eq mon ip)), (''set_gateway'', VBool (truthy (dget d3 ''gateway'' VNone)))])\<rparr>))))))"

text \<open>\<open>jsondata\<close>: the card as it is stored.\<close>

definition jsondata :: "nic_ser \<Rightarrow> pydict" where
  "jsondata ser =
     (let d0 = (case sr_object ser of Some d \<Rightarrow> d | None \<Rightarrow> []);
          d1 = (case map_of d0 ''net'' of
              None \<Rightarrow> d0
            | Some v \<Rightarrow> (if truthy v then AList.update ''network_uuid'' (VStr (case sr_net ser of Some n \<Rightarrow> sn_uuid n | None \<Rightarrow> []))
                                            (AList.delete ''net'' d0) else AList.delete ''net'' d0));
          d2 = foldl (\<lambda>d k. AList.delete k d) d1 [''dns'', ''use_net_dns'', ''monitoring'', ''set_gateway''] in
      if \<not> truthy (dget d2 ''ip'' VNone) \<and> (case sr_net ser of Some n \<Rightarrow> sn_dhcp_passthrough n | None \<Rightarrow> False)
      then AList.delete ''gateway'' (AList.delete ''netmask'' (AList.update ''ip'' (VStr ''dhcp'') d2)) else d2)"

section \<open>Validation of fields\<close>

text \<open>Errors by the name of their field.\<close>

type_synonym field_errors = "(string \<times> string) list"

definition given :: "pydict \<Rightarrow> string \<Rightarrow> (pyval \<Rightarrow> bool) \<Rightarrow> string \<Rightarrow> field_errors" where
  "given attrs k bad msg = (case map_of attrs k of None \<Rightarrow> [] | Some v \<Rightarrow> if bad v then [(k, msg)] else [])"

definition validate_mac :: "vm \<Rightarrow> nic_ser \<Rightarrow> pydict \<Rightarrow> field_errors" where
  "validate_mac x ser attrs = (case sr_object ser of None \<Rightarrow> []
     | Some d \<Rightarrow> given attrs ''mac'' (\<lambda>v. is_deployed x \<and> (\<not> truthy v \<or> \<not> py_eq (dget d ''mac'' VNone) v)) ''Cannot change MAC address.'')"

definition validate_set_gateway :: "vm \<Rightarrow> nic_ser \<Rightarrow> pydict \<Rightarrow> field_errors" where
  "validate_set_gateway x ser attrs = (case sr_object ser of None \<Rightarrow> []
     | Some d \<Rightarrow> given attrs ''set_gateway'' (\<lambda>v. is_deployed x \<and> \<not> py_eq (dget d ''set_gateway'' VNone) v) ''Cannot change gateway.'')"

definition INSECURE_ATTRS :: "string list" where
  "INSECURE_ATTRS = [''allow_dhcp_spoofing'', ''allow_ip_spoofing'', ''allow_mac_spoofing'', ''allow_restricted_traffic'',
     ''allow_unfiltered_promisc'']"

definition validate_insecure :: "nic_env \<Rightarrow> pydict \<Rightarrow> field_errors" where
  "validate_insecure env attrs = concat (map (\<lambda>k. given attrs k (\<lambda>v. \<not> ne_staff env \<and> truthy v) ''Permission denied'') INSECURE_ATTRS)"

definition validate_primary :: "vm \<Rightarrow> nat option \<Rightarrow> pydict \<Rightarrow> field_errors res" where
  "validate_primary x nic_id attrs = (case (map_of attrs ''primary'', nic_id) of
      (Some (VBool True), Some i) \<Rightarrow>
        rbind (json_get_nics x) (\<lambda>nics. let others = take i nics @ drop (Suc i) nics in
          Inr (if list_ex (\<lambda>n. dget n ''primary'' (VBool False) = VBool True) others
               then [(''primary'', ''Cannot enable primary flag on multiple NICs.'')] else []))
    | _ \<Rightarrow> Inr [])"

text \<open>The NIC tags that the cards of a VM need must be on its node.\<close>

fun nic_tags_of :: "nic_env \<Rightarrow> pydict list \<Rightarrow> string list res" where
  "nic_tags_of env [] = Inr []"
| "nic_tags_of env (nic # nics) = rbind (ditem nic ''network_uuid'') (\<lambda>u. case find_subnet env u of
      None \<Rightarrow> Inl (Exn ObjectDoesNotExist ''Subnet'')
    | Some n \<Rightarrow> rbind (nic_tags_of env nics) (\<lambda>ts. Inr (sn_nic_tag n # ts)))"

definition validate_nic_tags :: "nic_env \<Rightarrow> vm \<Rightarrow> node_ref \<Rightarrow> subnet option \<Rightarrow> bool res" where
  "validate_nic_tags env x node new_net = rbind (json_get_nics x) (\<lambda>nics. rbind (nic_tags_of env nics) (\<lambda>ts.
     Inr (set ts \<union> (case new_net of Some n \<Rightarrow> {sn_nic_tag n} | None \<Rightarrow> {}) \<subseteq> set (ne_node_tags env (nr_uuid node)))))"

definition validate_net :: "nic_env \<Rightarrow> vm \<Rightarrow> nic_ser \<Rightarrow> pydict \<Rightarrow> (field_errors \<times> nic_ser) res" where
  "validate_net env x ser attrs = (case map_of attrs ''net'' of
      Some (VStr name) \<Rightarrow>
        (if name = [] then Inr ([], ser)
         else if sr_object ser \<noteq> None \<and> (case sr_net ser of Some n \<Rightarrow> sn_name n = name | None \<Rightarrow> False) then Inr ([], ser)
         else (case ne_choice env name of
             None \<Rightarrow> Inr ([(''net'', ''does not exist.'')], ser)
           | Some n \<Rightarrow>
               if sn_access n \<in> set SUBNET_UNUSABLE then Inr ([(''net'', ''does not exist.'')], ser)
               else rbind (case v_node x of None \<Rightarrow> Inr True | Some node \<Rightarrow> validate_nic_tags env x node (Some n)) (\<lambda>ok.
                 if \<not> ok then Inr ([(''net'', ''Network is not available on compute node.'')], ser)
                 else (case sr_object ser of
                     Some d \<Rightarrow>
                       (if map_option sn_uuid (sr_net ser) = Some (sn_uuid n) then Inr ([], ser\<lparr>sr_net := Some n\<rparr>)
                        else if (truthy (dget d ''mtu'' VNone) \<and> sn_mtu n = None) \<or> sn_vxlan_id n \<notin> {None, Some 0}
                        then Inr ([(''net'', ''This field cannot be changed'')], ser\<lparr>sr_net_old := sr_net ser\<rparr>)
                        else Inr ([], ser\<lparr>sr_net_old := sr_net ser, sr_net := Some n\<rparr>))
                   | None \<Rightarrow> Inr ([], ser\<lparr>sr_net := Some n\<rparr>)))))
    | _ \<Rightarrow> Inr ([], ser))"

definition validate_fields :: "nic_env \<Rightarrow> vm \<Rightarrow> nat option \<Rightarrow> nic_ser \<Rightarrow> pydict \<Rightarrow> (field_errors \<times> nic_ser) res" where
  "validate_fields env x nic_id ser attrs =
     rbind (validate_net env x ser attrs) (\<lambda>(net_errors, ser1).
     rbind (validate_primary x nic_id attrs) (\<lambda>primary_errors.
       Inr (validate_mac x ser attrs @ net_errors @ primary_errors @ validate_insecure env attrs
              @ validate_set_gateway x ser attrs, ser1)))"

section \<open>Choice of the addresses\<close>

definition same_dc :: "(string \<Rightarrow> vm option) \<Rightarrow> vm \<Rightarrow> string \<Rightarrow> bool" where
  "same_dc db x u \<longleftrightarrow> (case db u of Some y \<Rightarrow> v_dc y = v_dc x | None \<Rightarrow> True)"

text \<open>The error message when an address is used by some VM.\<close>

definition check_ip_usage :: "(string \<Rightarrow> vm option) \<Rightarrow> vm \<Rightarrow> bool \<Rightarrow> ip_row \<Rightarrow> string option res" where
  "check_ip_usage db x allowed_ips r =
     (if ip_usage r = USAGE_VM_REAL \<and> ip_vm r = Some (v_uuid x)
      then rbind (rbind (json_get_nics x) (get_ips True True)) (\<lambda>ips.
        Inr (if VStr (ip_ip r) \<in> set ips then Some ''is already used.'' else None))
      else if ip_vm r \<noteq> None then Inr (Some ''is already used as default address.'')
      else if allowed_ips
      then Inr (if ip_usage r \<notin> {USAGE_VM, USAGE_VM_REAL} then Some ''is not available.''
        else if list_ex (\<lambda>u. u \<noteq> v_uuid x \<and> \<not> same_dc db x u) (ip_vms r)
        then Some ''is already used as additional address in another virtual datacenter.'' else None)
      else Inr (if ip_usage r \<noteq> USAGE_VM then Some ''is not available.''
        else if ip_vms r \<noteq> [] then Some ''is already used as additional address.'' else None))"

fun check_ips_usage :: "(string \<Rightarrow> vm option) \<Rightarrow> vm \<Rightarrow> ip_row list \<Rightarrow> string list res" where
  "check_ips_usage db x [] = Inr []"
| "check_ips_usage db x (r # rs) = rbind (check_ip_usage db x True r) (\<lambda>e. rbind (check_ips_usage db x rs) (\<lambda>es.
     Inr (case e of Some m \<Rightarrow> m # es | None \<Rightarrow> es)))"

definition is_addr :: "nic_addr \<Rightarrow> bool" where "is_addr a = (case a of Addr _ \<Rightarrow> True | _ \<Rightarrow> False)"
definition addr_ip :: "nic_addr \<Rightarrow> string option" where "addr_ip a = (case a of Addr r \<Rightarrow> Some (ip_ip r) | _ \<Rightarrow> None)"

definition same_ip :: "ip_row \<Rightarrow> ip_row \<Rightarrow> bool" where
  "same_ip r q \<longleftrightarrow> ip_ip q = ip_ip r \<and> ip_subnet q = ip_subnet r"

text \<open>A step of \<open>validate\<close> ends with errors or goes on with the serializer and the attributes.\<close>

type_synonym nic_step = "(field_errors + nic_ser \<times> pydict) res"

definition next_step :: "nic_step \<Rightarrow> (nic_ser \<Rightarrow> pydict \<Rightarrow> nic_step) \<Rightarrow> nic_step" where
  "next_step m f = rbind m (\<lambda>r. case r of Inl es \<Rightarrow> Inr (Inl es) | Inr (ser, attrs) \<Rightarrow> f ser attrs)"

definition choose_ip :: "(string \<Rightarrow> vm option) \<Rightarrow> ip_row list \<Rightarrow> vm \<Rightarrow> nic_ser \<Rightarrow> pydict \<Rightarrow> nic_step" where
  "choose_ip db rows x ser attrs =
     (let ip = dget attrs ''ip'' (VBool True) in
      if dhas attrs ''ip'' \<and> truthy ip
      then (if sr_object ser \<noteq> None \<and> sr_net_old ser = None \<and> map_option VStr (addr_ip (sr_ip ser)) = Some ip
            then Inr (Inr (ser, attrs))
            else (case find_ip rows ip (sr_net ser) of
                None \<Rightarrow> Inr (Inl [(''ip'', ''does not exist.'')])
              | Some r \<Rightarrow> rbind (check_ip_usage db x False r) (\<lambda>err. case err of
                    Some m \<Rightarrow> Inr (Inl [(''ip'', m)])
                  | None \<Rightarrow> Inr (Inr (ser\<lparr>sr_ip_old := (case sr_ip ser of Addr q \<Rightarrow> if same_ip r q then sr_ip_old ser else Addr q
                                                            | _ \<Rightarrow> sr_ip_old ser), sr_ip := Addr r\<rparr>,
                       AList.update ''ip'' (VStr (ip_ip r)) attrs)))))
      else if sr_net_old ser \<noteq> None \<or> \<not> truthy ip then Inr (Inr (ser\<lparr>sr_ip_old := sr_ip ser, sr_ip := NoAddr\<rparr>, attrs))
      else Inr (Inr (ser, attrs)))"

text \<open>Two query sets are different objects, so additional addresses that are given are always set again.\<close>

definition choose_allowed :: "(string \<Rightarrow> vm option) \<Rightarrow> ip_row list \<Rightarrow> vm \<Rightarrow> nic_ser \<Rightarrow> pydict \<Rightarrow> nic_step" where
  "choose_allowed db rows x ser attrs = (case dget attrs ''allowed_ips'' (VList []) of
      VList vs \<Rightarrow>
        (let allowed = remdups vs in
         if allowed \<noteq> []
         then (let new = ips_in rows allowed (sr_net ser); ip_list = map (\<lambda>r. VStr (ip_ip r)) new in
               if length ip_list \<noteq> length allowed
               then Inr (Inl (map (\<lambda>_. (''allowed_ips'', ''does not exist.'')) (filter (\<lambda>i. i \<notin> set ip_list) allowed)))
               else if list_ex (\<lambda>a. map_option VStr (addr_ip (sr_ip ser)) = Some a) allowed
               then Inr (Inl [(''allowed_ips'', ''The default IP address must not be among allowed_ips.'')])
               else rbind (check_ips_usage db x new) (\<lambda>errors.
                 if errors \<noteq> [] then Inr (Inl (map (Pair ''allowed_ips'') errors))
                 else Inr (Inr (ser\<lparr>sr_ips_old := (if sr_ips ser \<noteq> [] then filter (\<lambda>r. VStr (ip_ip r) \<notin> set ip_list) (sr_ips ser)
                                                    else sr_ips_old ser),
                       sr_ips := new, sr_changing_allowed := True\<rparr>,
                     AList.update ''allowed_ips'' (VList (remdups ip_list)) attrs))))
         else if sr_ips ser \<noteq> [] \<and> (sr_net_old ser \<noteq> None \<or> dhas attrs ''allowed_ips'')
         then Inr (Inr (ser\<lparr>sr_ips_old := sr_ips ser, sr_ips := [], sr_changing_allowed := True\<rparr>,
               AList.update ''allowed_ips'' (VList []) attrs))
         else Inr (Inr (ser, attrs)))
    | _ \<Rightarrow> Inl (Exn TypeError ''not iterable''))"

definition attr_or_object :: "nic_ser \<Rightarrow> pydict \<Rightarrow> string \<Rightarrow> pyval res" where
  "attr_or_object ser attrs k = (case map_of attrs k of Some v \<Rightarrow> Inr v
     | None \<Rightarrow> (case sr_object ser of Some d \<Rightarrow> ditem d k | None \<Rightarrow> Inl (Exn TypeError ''not subscriptable'')))"

definition check_dhcp :: "subnet \<Rightarrow> nic_ser \<Rightarrow> pydict \<Rightarrow> nic_step" where
  "check_dhcp net ser attrs = (if \<not> sn_dhcp_passthrough net then Inr (Inr (ser, attrs)) else
     rbind (attr_or_object ser attrs ''dns'') (\<lambda>dns. rbind (attr_or_object ser attrs ''monitoring'') (\<lambda>mon.
       if truthy dns \<or> truthy mon
       then Inr (Inl ((if truthy dns then [(''dns'', ''Cannot enable DNS for externally managed network.'')] else [])
              @ (if truthy mon then [(''monitoring'', ''Cannot enable monitoring for externally managed network.'')] else [])))
       else Inr (Inr (ser, attrs)))))"

text \<open>A free address of the network when the card has none.\<close>

definition free_ips :: "ip_row list \<Rightarrow> subnet \<Rightarrow> pyval list \<Rightarrow> ip_row list" where
  "free_ips rows net allowed = filter (\<lambda>r. ip_subnet r = sn_uuid net \<and> ip_vm r = None \<and> ip_vms r = []
     \<and> ip_usage r = USAGE_VM \<and> VStr (ip_ip r) \<notin> set allowed) rows"

definition find_free_ip :: "nic_env \<Rightarrow> ip_row list \<Rightarrow> subnet \<Rightarrow> nic_ser \<Rightarrow> pydict \<Rightarrow> nic_step" where
  "find_free_ip env rows net ser attrs =
     (if is_addr (sr_ip ser) then Inr (Inr (ser, attrs))
      else if sn_dhcp_passthrough net
      then Inr (Inr (ser\<lparr>sr_ip := Dhcp\<rparr>, dupdate attrs [(''ip'', VNone), (''netmask'', VNone), (''gateway'', VNone)]))
      else (let allowed = (case dget attrs ''allowed_ips'' (VList []) of VList vs \<Rightarrow> vs | _ \<Rightarrow> []);
                free = free_ips rows net allowed in
            if free = [] then Inr (Inl [(''non_field_errors'', ''Cannot find free IP address for net'')])
            else (let r = free ! (ne_pick env (length free) mod length free) in
                  Inr (Inr (ser\<lparr>sr_ip := Addr r\<rparr>, AList.update ''ip'' (VStr (ip_ip r)) attrs)))))"

definition str_or_none :: "string option \<Rightarrow> pyval" where
  "str_or_none v = (case v of Some s \<Rightarrow> VStr s | None \<Rightarrow> VNone)"

definition int_or_none :: "int option \<Rightarrow> pyval" where
  "int_or_none v = (case v of Some i \<Rightarrow> VInt i | None \<Rightarrow> VNone)"

definition inherit_net :: "nic_env \<Rightarrow> subnet \<Rightarrow> nic_ser \<Rightarrow> pydict \<Rightarrow> nic_step" where
  "inherit_net env net ser attrs =
     (let attrs1 = (if sr_ip ser \<noteq> Dhcp
                    then dupdate attrs [(''netmask'', VStr (sn_netmask net)), (''gateway'', str_or_none (sn_gateway net))] else attrs)
      in rbind (attr_or_object ser attrs1 ''set_gateway'') (\<lambda>set_gateway.
        (let attrs2 = (if truthy set_gateway then attrs1 else AList.update ''gateway'' VNone attrs1);
             attrs3 = dupdate attrs2 [(''vlan_id'', VInt (sn_vlan_id net)),
               (''nic_tag'', VStr (case sn_vxlan_id net of Some i \<Rightarrow> if i \<noteq> 0 then sn_nic_tag net @ ''/'' @ int_str i else sn_nic_tag net
                                   | None \<Rightarrow> sn_nic_tag net)),
               (''mtu'', int_or_none (sn_mtu net))];
             ser1 = (case map_of attrs3 ''use_net_dns'' of None \<Rightarrow> ser
               | Some v \<Rightarrow> if truthy v then ser\<lparr>sr_resolvers := VList (map VStr (get_resolvers net))\<rparr>
                   else if sr_object ser \<noteq> None then ser\<lparr>sr_resolvers := ne_default_resolvers env\<rparr> else ser)
         in Inr (Inr (ser1, attrs3)))))"

text \<open>\<open>validate\<close>: the assertions say that there is a network and, but for DHCP, an address that is in the attributes.\<close>

definition nic_validate :: "nic_env \<Rightarrow> (string \<Rightarrow> vm option) \<Rightarrow> ip_row list \<Rightarrow> vm \<Rightarrow> nic_ser \<Rightarrow> pydict \<Rightarrow> nic_step" where
  "nic_validate env db rows x ser attrs = (case sr_net ser of
      None \<Rightarrow> Inl (Exn AssertionError [])
    | Some net \<Rightarrow>
        next_step (choose_ip db rows x ser attrs) (\<lambda>ser1 attrs1.
        next_step (choose_allowed db rows x ser1 attrs1) (\<lambda>ser2 attrs2.
        next_step (check_dhcp net ser2 attrs2) (\<lambda>ser3 attrs3.
        next_step (find_free_ip env rows net ser3 attrs3) (\<lambda>ser4 attrs4.
          if is_addr (sr_ip ser4) \<and> \<not> truthy (dget attrs4 ''ip'' (VBool True)) then Inl (Exn AssertionError [])
          else inherit_net env net ser4 attrs4)))))"

text \<open>\<open>is_valid\<close>: the errors, or the serializer with its object.\<close>

definition nic_is_valid ::
  "nic_env \<Rightarrow> (string \<Rightarrow> vm option) \<Rightarrow> ip_row list \<Rightarrow> vm \<Rightarrow> nat option \<Rightarrow> nic_ser \<Rightarrow> pydict \<Rightarrow> (field_errors + nic_ser) res" where
  "nic_is_valid env db rows x nic_id ser attrs =
     rbind (validate_fields env x nic_id ser attrs) (\<lambda>(errors, ser1).
       if errors \<noteq> [] then Inr (Inl errors)
       else rbind (nic_validate env db rows x ser1 attrs) (\<lambda>r. Inr (case r of
           Inl es \<Rightarrow> Inl es
         | Inr (ser2, attrs2) \<Rightarrow> Inr (ser2\<lparr>sr_object := Some (case sr_object ser2 of
               Some d \<Rightarrow> dupdate d attrs2 | None \<Rightarrow> attrs2)\<rparr>))))"

section \<open>DNS records of an address\<close>

definition dns_call :: "string \<Rightarrow> pydict \<Rightarrow> unit sprog" where
  "dns_call method data = out [DnsCall method data]"

text \<open>The name of a reverse record; in a domain like \<open>0/26.0.0.10-in-addr.arpa\<close> the range is put in.\<close>

definition get_reverse :: "nic_env \<Rightarrow> string \<Rightarrow> string \<Rightarrow> string" where
  "get_reverse env ipaddr domain =
     (let rev = ne_reverse env ipaddr; digits = takeWhile is_digit domain in
      if digits \<noteq> [] \<and> startswith (drop (length digits) domain) ''/''
      then (let ptr_cidr = hd (split_max 1 (CHR ''.'') domain) in
            case split_max 1 (CHR ''.'') rev of
              [a, b] \<Rightarrow> a @ ''.'' @ ptr_cidr @ ''.'' @ b
            | _ \<Rightarrow> rev)
      else rev)"

text \<open>Errors of these two are caught and logged.\<close>

definition save_a :: "nic_env \<Rightarrow> vm \<Rightarrow> ip_row \<Rightarrow> (int \<times> string) list \<Rightarrow> bool \<Rightarrow> unit sprog" where
  "save_a env x r dns delete =
     (if \<not> e_dns (ne_save env) \<or> \<not> valid_fqdn env x then pret ()
      else (let ip = ip_ip r; domain = fqdn_domain env x;
                dns' = (if dns = [] then ne_records_A env (v_hostname x) domain else dns) in
        if delete then pfor dns' (\<lambda>(i, _). dns_call ''DELETE'' [(''id'', VInt i)])
        else if dns' \<noteq> [] \<and> list_all (\<lambda>(_, c). c = ip) dns' then pret ()
        else if dns' \<noteq> [] then pfor dns' (\<lambda>(i, _). dns_call ''PUT'' [(''id'', VInt i), (''content'', VStr ip)])
        else if domain \<notin> set (ne_domains env) then pret ()
        else dns_call ''POST'' [(''type'', VStr ''A''), (''name'', VStr (lower (v_hostname x))), (''domain'', VStr domain),
               (''content'', VStr ip)]))"

definition save_ptr :: "nic_env \<Rightarrow> vm \<Rightarrow> ip_row \<Rightarrow> string \<Rightarrow> bool \<Rightarrow> unit sprog" where
  "save_ptr env x r ptr_domain delete =
     (if \<not> e_dns (ne_save env) then pret ()
      else (let name = get_reverse env (ip_ip r) ptr_domain in
        if ne_ptr_records env name
        then (if delete then dns_call ''DELETE'' [(''name'', VStr name)]
              else dns_call ''PUT'' [(''name'', VStr name), (''content'', VStr (ne_ptr_content env x (ip_ip r)))])
        else if delete \<or> ptr_domain \<notin> set (ne_domains env) then pret ()
        else dns_call ''POST'' [(''type'', VStr ''PTR''), (''domain'', VStr ptr_domain), (''name'', VStr name),
               (''content'', VStr (ne_ptr_content env x (ip_ip r)))]))"

definition row_ptr_domain :: "nic_env \<Rightarrow> ip_row \<Rightarrow> string" where
  "row_ptr_domain env r = (case find_subnet env (VStr (ip_subnet r)) of Some n \<Rightarrow> sn_ptr_domain n | None \<Rightarrow> [])"

section \<open>Addresses of a card\<close>

text \<open>
  Saving an address writes all its columns as they were read; the relation to the VMs that have it as
  additional address is another table.
\<close>

definition map_ips :: "(ip_row \<Rightarrow> ip_row) \<Rightarrow> unit sprog" where
  "map_ips f = pmod (\<lambda>s. s\<lparr>ss_ips := map f (ss_ips s)\<rparr>)"

definition ip_save :: "ip_row \<Rightarrow> unit sprog" where
  "ip_save r = map_ips (\<lambda>q. if same_ip r q then r\<lparr>ip_vms := ip_vms q\<rparr> else q)"

definition vms_remove :: "ip_row \<Rightarrow> string \<Rightarrow> unit sprog" where
  "vms_remove r u = map_ips (\<lambda>q. if same_ip r q then q\<lparr>ip_vms := removeAll u (ip_vms q)\<rparr> else q)"

definition vms_add :: "ip_row \<Rightarrow> string \<Rightarrow> unit sprog" where
  "vms_add r u = map_ips (\<lambda>q. if same_ip r q then q\<lparr>ip_vms := List.insert u (ip_vms q)\<rparr> else q)"

text \<open>An address that is in use on the node stays with the VM until the node has been updated.\<close>

definition remove_vm_ip_association :: "vm \<Rightarrow> ip_row \<Rightarrow> bool \<Rightarrow> unit sprog" where
  "remove_vm_ip_association x r many =
     (if ip_usage r = USAGE_VM_REAL \<and> is_deployed x then pret ()
      else if many then vms_remove r (v_uuid x) else ip_save (r\<lparr>ip_vm := None\<rparr>))"

definition create_vm_ip_association :: "vm \<Rightarrow> ip_row \<Rightarrow> bool \<Rightarrow> unit sprog" where
  "create_vm_ip_association x r many =
     (if ip_vm r \<noteq> None then pres (other_error ''APIError'' ''Unexpected problem with IP address association.'')
      else if many then vms_add r (v_uuid x) else ip_save (r\<lparr>ip_vm := Some (v_uuid x)\<rparr>))"

definition update_vm_ip_association :: "vm \<Rightarrow> ip_row \<Rightarrow> bool \<Rightarrow> bool \<Rightarrow> unit sprog" where
  "update_vm_ip_association x r delete many =
     (if delete then remove_vm_ip_association x r many else create_vm_ip_association x r many)"

definition with_addr :: "nic_addr \<Rightarrow> (ip_row \<Rightarrow> unit sprog) \<Rightarrow> unit sprog" where
  "with_addr a f = (case a of Addr r \<Rightarrow> f r | _ \<Rightarrow> pret ())"

definition save_ip_rows :: "nic_env \<Rightarrow> vm \<Rightarrow> nic_ser \<Rightarrow> bool \<Rightarrow> bool \<Rightarrow> unit sprog" where
  "save_ip_rows env x ser delete update =
     (if update \<and> \<not> is_addr (sr_ip_old ser) then pret ()
      else pbind (with_addr (sr_ip_old ser) (\<lambda>r. remove_vm_ip_association x r False)) (\<lambda>_.
           pbind (with_addr (sr_ip ser) (\<lambda>r. update_vm_ip_association x r delete False)) (\<lambda>_.
           pbind (with_addr (sr_ip_old ser) (\<lambda>r. if row_ptr_domain env r \<noteq> [] then save_ptr env x r (row_ptr_domain env r) True else pret ())) (\<lambda>_.
             with_addr (sr_ip ser) (\<lambda>r. case sr_net ser of
                 Some n \<Rightarrow> if sn_ptr_domain n \<noteq> [] then save_ptr env x r (sn_ptr_domain n) delete else pret ()
               | None \<Rightarrow> pret ())))))"

definition save_allowed_rows :: "vm \<Rightarrow> nic_ser \<Rightarrow> bool \<Rightarrow> unit sprog" where
  "save_allowed_rows x ser delete =
     (if \<not> sr_changing_allowed ser then pret ()
      else pbind (pfor (sr_ips_old ser) (\<lambda>r. remove_vm_ip_association x r True)) (\<lambda>_.
             pfor (sr_ips ser) (\<lambda>r. update_vm_ip_association x r delete True)))"

definition save_dns :: "nic_env \<Rightarrow> vm \<Rightarrow> nic_ser \<Rightarrow> bool \<Rightarrow> unit sprog" where
  "save_dns env x ser delete =
     pbind (pres (ditem (case sr_object ser of Some d \<Rightarrow> d | None \<Rightarrow> []) ''dns'')) (\<lambda>dns.
       (let remove_dns = (sr_dns ser \<noteq> [] \<and> \<not> truthy dns);
            delete' = (delete \<or> remove_dns);
            ip = (if delete' \<and> is_addr (sr_ip_old ser) then sr_ip_old ser else sr_ip ser)
        in if truthy dns \<or> remove_dns then with_addr ip (\<lambda>r. save_a env x r (sr_dns ser) delete') else pret ()))"

definition save_ip :: "nic_env \<Rightarrow> vm \<Rightarrow> nic_ser \<Rightarrow> bool \<Rightarrow> bool \<Rightarrow> unit sprog" where
  "save_ip env x ser delete update =
     (if sr_ip ser = NoAddr \<or> (sr_ip ser = Dhcp \<and> \<not> (case sr_net ser of Some n \<Rightarrow> sn_dhcp_passthrough n | None \<Rightarrow> False))
      then pres (Inl (Exn AssertionError []))
      else pbind (save_ip_rows env x ser delete update) (\<lambda>_.
           pbind (save_allowed_rows x ser delete) (\<lambda>_.
             save_dns env x ser delete)))"

text \<open>The new monitoring address, empty when it is removed, \<open>None\<close> when it stays.\<close>

definition get_monitoring_ip :: "nic_ser \<Rightarrow> bool \<Rightarrow> string option option res" where
  "get_monitoring_ip ser delete =
     (let d = (case sr_object ser of Some d \<Rightarrow> d | None \<Rightarrow> []) in
      rbind (ditem d ''monitoring'') (\<lambda>monitoring. rbind (ditem d ''ip'') (\<lambda>ip.
        if sr_ip ser = NoAddr \<or> (sr_ip ser = Dhcp \<and> (truthy monitoring
              \<or> \<not> (case sr_net ser of Some n \<Rightarrow> sn_dhcp_passthrough n | None \<Rightarrow> False)))
        then Inl (Exn AssertionError [])
        else if sr_monitoring_old ser \<and> (delete \<or> \<not> truthy monitoring) then Inr (Some (Some []))
        else if truthy monitoring then (case ip of VStr s \<Rightarrow> Inr (Some (Some s)) | _ \<Rightarrow> Inr (Some None))
        else Inr None)))"

section \<open>Operations on a card\<close>

definition NIC_ID_MAX :: nat where "NIC_ID_MAX = 15"

definition VM_STATUS_OPERATIONAL :: "int list" where
  "VM_STATUS_OPERATIONAL = [NOTCREATED, RUNNING, STOPPED, STOPPING]"

definition if_vm_operational :: "nic_env \<Rightarrow> vm \<Rightarrow> 'a sprog \<Rightarrow> 'a sprog" where
  "if_vm_operational env x m =
     (if v_slave_vms x \<noteq> [] then pres (other_error ''VmIsLocked'' [])
      else if v_status x \<notin> set VM_STATUS_OPERATIONAL then api_error VmIsNotOperational []
      else if ne_tasks_rw env (v_uuid x) then api_error VmHasPendingTasks []
      else m)"

text \<open>The cards and the one with the given number; a new one is appended.\<close>

definition get_listitem :: "string \<Rightarrow> 'a list \<Rightarrow> nat \<Rightarrow> 'a \<Rightarrow> nat \<Rightarrow> ('a list \<times> 'a) res" where
  "get_listitem method xs i dflt max_value =
     (if i > max_value then other_error ''ItemOutOfRange'' []
      else if i < length xs then (if method = ''POST'' then other_error ''ItemAlreadyExists'' [] else Inr (xs, xs ! i))
      else if method = ''POST'' then (if i = length xs then Inr (xs @ [dflt], dflt) else other_error ''ItemOutOfRange'' [])
      else other_error ''ItemNotFound'' [])"

definition save_vm_nics :: "nic_env \<Rightarrow> vm \<Rightarrow> pydict list \<Rightarrow> string option option \<Rightarrow> vm sprog" where
  "save_vm_nics env x nics mon = pbind (pres (save_nics nics mon x)) (st_save (ae_status (ne_api env)) full_save)"

definition nic_save_valid :: "nic_env \<Rightarrow> vm \<Rightarrow> pydict list \<Rightarrow> nat \<Rightarrow> (pydict \<Rightarrow> pydict) \<Rightarrow> bool \<Rightarrow> nic_ser \<Rightarrow> api_response sprog" where
  "nic_save_valid env x nics nic_id f update ser =
     pbind (pres (set_resolvers (sr_resolvers ser) x)) (\<lambda>y.
     pbind (pres (get_monitoring_ip ser False)) (\<lambda>mon.
     pbind (save_vm_nics env y (nics[nic_id := f (jsondata ser)]) mon) (\<lambda>z.
     pbind (save_ip env z ser False update) (\<lambda>_.
       pret (SuccessResponse (''nic_id='' @ nat_str (nic_id + 1)))))))"

definition field_error_msg :: "field_errors \<Rightarrow> string" where
  "field_error_msg es = concat (map (\<lambda>(k, m). k @ '': '' @ m) es)"

text \<open>The fields that a request can set; anything else in its data is dropped.\<close>

definition NIC_FIELDS :: "string list" where
  "NIC_FIELDS = [''mac'', ''model'', ''net'', ''ip'', ''primary'', ''dns'', ''use_net_dns''] @ INSECURE_ATTRS
     @ [''allowed_ips'', ''monitoring'', ''set_gateway'']"

definition nic_attrs :: "pydict \<Rightarrow> pydict" where
  "nic_attrs data = filter (\<lambda>(k, _). k \<in> set NIC_FIELDS) data"

definition nic_post :: "nic_env \<Rightarrow> vm \<Rightarrow> nat \<Rightarrow> pydict \<Rightarrow> api_response sprog" where
  "nic_post env x nic_id attrs = if_vm_operational env x (db_atomic (
     pbind (pres (rbind (json_get_nics x) (\<lambda>nics. get_listitem ''POST'' nics nic_id [] NIC_ID_MAX))) (\<lambda>(nics, nic).
     pbind (\<lambda>s. (nic_is_valid env (ss_db s) (ss_ips s) x (Some nic_id) (new_nic_ser x) (nic_attrs attrs), s)) (\<lambda>r. case r of
         Inl es \<Rightarrow> pret (FailureResponse (field_error_msg es))
       | Inr ser \<Rightarrow> nic_save_valid env x nics nic_id (\<lambda>d. d) False ser))))"

definition nic_put :: "nic_env \<Rightarrow> vm \<Rightarrow> nat \<Rightarrow> pydict \<Rightarrow> api_response sprog" where
  "nic_put env x nic_id attrs = if_vm_operational env x (db_atomic (
     pbind (pres (rbind (json_get_nics x) (\<lambda>nics. get_listitem ''PUT'' nics nic_id [] NIC_ID_MAX))) (\<lambda>(nics, nic).
     pbind (\<lambda>s. (rbind (fix_before env (ss_ips s) x nic) (\<lambda>ser. nic_is_valid env (ss_db s) (ss_ips s) x (Some nic_id) ser (nic_attrs attrs)), s)) (\<lambda>r. case r of
         Inl es \<Rightarrow> pret (FailureResponse (field_error_msg es))
       | Inr ser \<Rightarrow> nic_save_valid env x nics nic_id (dupdate nic) True ser))))"

definition nic_delete :: "nic_env \<Rightarrow> vm \<Rightarrow> nat \<Rightarrow> api_response sprog" where
  "nic_delete env x nic_id = if_vm_operational env x (db_atomic (
     pbind (pres (rbind (json_get_nics x) (\<lambda>nics. get_listitem ''DELETE'' nics nic_id [] NIC_ID_MAX))) (\<lambda>(nics, nic).
     pbind (\<lambda>s. (fix_before env (ss_ips s) x nic, s)) (\<lambda>ser.
     pbind (pres (get_monitoring_ip ser True)) (\<lambda>mon.
     pbind (save_vm_nics env x (take nic_id nics @ drop (Suc nic_id) nics) mon) (\<lambda>z.
     pbind (save_ip env z ser True False) (\<lambda>_.
       pret (SuccessResponse (''nic_id='' @ nat_str (nic_id + 1))))))))))"

datatype nic_request = NicPost nat pydict | NicPut nat pydict | NicDelete nat

definition nic_define :: "nic_env \<Rightarrow> nic_request \<Rightarrow> string \<Rightarrow> api_response sprog" where
  "nic_define env rq uuid = pbind (api_get_vm (ne_api env) uuid) (\<lambda>x. case rq of
      NicPost i attrs \<Rightarrow> nic_post env x i attrs
    | NicPut i attrs \<Rightarrow> nic_put env x i attrs
    | NicDelete i \<Rightarrow> nic_delete env x i)"

end
