(* ===== verification/Vm_Def_Form.thy ===== *)
theory Vm_Def_Form
  imports Nic_Define Api_Fields Dc_Node Vm_Manage
begin

text \<open>
  The serializer \<open>VmDefineSerializer\<close> of \<^verbatim>\<open>api/vm/define/serializers.py\<close>: the fields of a definition with
  the defaults of the datacenter and of a template, the checks of the fields, the check of the
  resources of a node, and the change of the object.
\<close>

section \<open>Environment\<close>

text \<open>The settings of the datacenter that the definition of a VM depends on, with the global ones mixed in.\<close>

record def_settings =
  ds_ostype :: int
  ds_hvm_type :: int
  ds_cpu_type :: string
  ds_zpool :: string
  ds_monitored_internal :: bool
  ds_zabbix_sync :: bool
  ds_monitored :: bool
  ds_cpu_shares :: int
  ds_zfs_io_priority :: int
  ds_mdata :: pydict
  ds_snap_limit :: "int option"
  ds_snap_size_limit :: "int option"
  ds_snap_percent_limit :: "int option"
  ds_snap_default :: pyval
  ds_snap_size_default :: pyval
  ds_snap_percent_default :: pyval
  ds_vga :: string
  ds_bootrom :: string
  ds_cpu_cap_required :: bool
  ds_zone_enabled :: bool
  ds_define_limit :: "int option"
  ds_hostgroups_allowed :: "string list option"
  ds_templates_allowed :: "string list option"
  ds_image_zone :: string
  ds_image_lx_zone :: string
  ds_image_disk :: string
  ds_compression :: string
  ds_model_kvm :: string
  ds_model_bhyve :: string

record image =
  im_uuid :: string
  im_name :: string
  im_size :: int
  im_resize :: bool
  im_access :: int
  im_ostype :: int
  im_status :: int
  im_disk_driver :: "string option"
  im_tags :: "string list"

text \<open>
  The user, the tables of nodes and of the UUIDs of all VMs, the storages and images that the user may see
  (images in their order by name), all images, templates by name with what they define, the tags of a VM, an
  IPv4 parser and whether an address is reserved, and the UUID and time of a new object.
\<close>

record def_env =
  df_nic :: nic_env
  df_fields :: field_env
  df_settings :: def_settings
  df_nodes :: node_state
  df_uuids :: "string list"
  df_dc :: int
  df_user :: int
  df_username :: string
  df_zpool_visible :: "node_storage \<Rightarrow> bool"
  df_images :: "image list"
  df_all_images :: "image list"
  df_template :: "string \<Rightarrow> vm_template option"
  df_template_hvm :: "string \<Rightarrow> int option"
  df_vm_define :: "string \<Rightarrow> pydict"
  df_vm_define_disk :: "string \<Rightarrow> pydict list"
  df_vm_define_nic :: "string \<Rightarrow> pydict list"
  df_tags :: "string \<Rightarrow> string list"
  df_ipv4 :: "string \<Rightarrow> bool"
  df_ip_reserved :: "string \<Rightarrow> bool"
  df_new_uuid :: string

definition df_status :: "def_env \<Rightarrow> status_env" where "df_status env = ae_status (ne_api (df_nic env))"
definition df_save :: "def_env \<Rightarrow> save_env" where "df_save env = se_save (df_status env)"

section \<open>Fields\<close>

text \<open>The regular expressions of the names.\<close>

definition hostname_re :: "string \<Rightarrow> bool" where
  "hostname_re = before_end (\<lambda>s. length s \<ge> 3 \<and> is_alnum (hd s) \<and> is_alnum (last s)
     \<and> list_all (\<lambda>c. is_alnum c \<or> c \<in> set ''.-'') (butlast (tl s)))"

definition dns_domain_re :: "string \<Rightarrow> bool" where
  "dns_domain_re = before_end (\<lambda>s. s \<noteq> [] \<and> is_alnum (hd s) \<and> list_all (\<lambda>c. is_alnum c \<or> c \<in> set '' ._/-'') (tl s))"

definition hostgroup_re :: "string \<Rightarrow> bool" where
  "hostgroup_re = before_end (\<lambda>s. s \<noteq> [] \<and> list_all (\<lambda>c. is_alnum c \<or> is_space c \<or> c \<in> set ''_.-,{}'' \<or> c = CHR 0x22) s)"

definition mdata_key_re :: "string \<Rightarrow> bool" where
  "mdata_key_re = before_end (\<lambda>s. s \<noteq> [] \<and> list_all (\<lambda>c. is_alnum c \<or> c \<in> set ''.-_:'') s)"

definition text_validator :: "(pyval \<Rightarrow> string option) \<Rightarrow> string \<Rightarrow> string option" where
  "text_validator w s = w (VStr s)"

definition cidr_validator :: "def_env \<Rightarrow> string \<Rightarrow> string option" where
  "cidr_validator env value =
     (let bad = Some ''Enter a valid IPv4 address or IPv4 network.'';
          ok = (\<lambda>ip n. df_ipv4 env ip \<and> 1 \<le> n \<and> n \<le> (32::int) \<and> \<not> df_ip_reserved env ip)
      in case split_on (CHR ''/'') value of
           [ip] \<Rightarrow> if ok ip 32 then None else bad
         | [ip, m] \<Rightarrow> (case int_of_text m of Some n \<Rightarrow> if ok ip n then None else bad | None \<Rightarrow> bad)
         | _ \<Rightarrow> bad)"

definition ip_or_nic_validator :: "def_env \<Rightarrow> string \<Rightarrow> string option" where
  "ip_or_nic_validator env value =
     (if df_ipv4 env value \<or> before_end (\<lambda>s. take 5 s = ''nics['' \<and> s \<noteq> [] \<and> last s = CHR '']'' \<and> isdigit (butlast (drop 5 s))) value
      then None else Some ''Enter a valid IPv4 address or NIC.'')"

definition OSTYPES :: "int list" where "OSTYPES = [LINUX, SUNOS, BSD, WINDOWS, SUNOS_ZONE, LINUX_ZONE]"
definition HVM_OSTYPES :: "int list" where "HVM_OSTYPES = [LINUX, SUNOS, BSD, WINDOWS]"
definition HVM_TYPES :: "int list" where "HVM_TYPES = [Hypervisor_KVM, Hypervisor_BHYVE, Hypervisor_NONE]"
definition CPU_TYPES :: "string list" where "CPU_TYPES = [''qemu64'', ''host'']"
definition VGA_MODEL :: "string list" where "VGA_MODEL = [''std'', ''cirrus'', ''vmware'']"
definition BHYVE_BOOTROM :: "string list" where "BHYVE_BOOTROM = [''bios'', ''uefi'']"

text \<open>The bounds of a limit of snapshots, which is mandatory when the datacenter has one.\<close>

definition snap_field :: "int option \<Rightarrow> int \<Rightarrow> pyval \<Rightarrow> field" where
  "snap_field limit unlimited dflt = (case limit of
      None \<Rightarrow> field_of IntegerField False dflt [min_value 0, max_value unlimited]
    | Some m \<Rightarrow> (field_of IntegerField False dflt [min_value 1, max_value m])\<lparr>fl_required := True\<rparr>)"

text \<open>The kind of the VM, of the object or guessed from the data before they are checked.\<close>

definition int_in :: "pyval \<Rightarrow> int list \<Rightarrow> bool option" where
  "int_in v xs = (if \<not> truthy v then None else (case py_int v of Inr i \<Rightarrow> Some (i \<in> set xs) | Inl _ \<Rightarrow> None))"

definition or_val :: "pyval \<Rightarrow> pyval \<Rightarrow> pyval" where "or_val v w = (if truthy v then v else w)"

definition opt_int :: "int option \<Rightarrow> pyval" where "opt_int i = (case i of Some n \<Rightarrow> VInt n | None \<Rightarrow> VNone)"

definition is_hvm_of :: "def_env \<Rightarrow> vm option \<Rightarrow> pydict \<Rightarrow> (string \<times> vm_template) option \<Rightarrow> bool" where
  "is_hvm_of env obj data template = (case obj of
      Some x \<Rightarrow> is_hvm x
    | None \<Rightarrow>
        (let o1 = dget data ''ostype'' VNone;
             o2 = (case (o1, template) of
                 (VNone, Some (n, t)) \<Rightarrow> or_val (dget (df_vm_define env n) ''ostype'' VNone) (opt_int (t_ostype t)) | _ \<Rightarrow> o1)
         in case int_in o2 HVM_OSTYPES of Some b \<Rightarrow> b | None \<Rightarrow> True))"

definition is_kvm_of :: "def_env \<Rightarrow> vm option \<Rightarrow> pydict \<Rightarrow> (string \<times> vm_template) option \<Rightarrow> bool" where
  "is_kvm_of env obj data template = (case obj of
      Some x \<Rightarrow> is_kvm x
    | None \<Rightarrow>
        (let h1 = dget data ''hvm_type'' VNone;
             h2 = (case (h1, template) of (VNone, Some (n, t)) \<Rightarrow>
                  or_val (dget (df_vm_define env n) ''hvm_type'' VNone) (opt_int (df_template_hvm env n)) | _ \<Rightarrow> h1)
         in case int_in h2 [Hypervisor_KVM] of Some b \<Rightarrow> b | None \<Rightarrow> True))"

definition def_fields :: "def_env \<Rightarrow> bool \<Rightarrow> bool \<Rightarrow> fields" where
  "def_fields env hvm kvm =
     (let st = df_settings env; bhyve = (hvm \<and> \<not> kvm);
          name = (\<lambda>req n. field_of CharField req VNone [min_length 4, max_length n, regex_validator hostname_re]) in
      [(''hostname'', name True 128),
       (''alias'', name False 24),
       (''ostype'', field_of (IntegerChoiceField OSTYPES) True (VInt (ds_ostype st)) []),
       (''hvm_type'', field_of (IntegerChoiceField HVM_TYPES) True (VInt (ds_hvm_type st)) [])]
      @ (if kvm then [(''cpu_type'', field_of (ChoiceField CPU_TYPES) True (VStr (ds_cpu_type st)) [])] else [])
      @ [(''vcpus'', field_of IntegerField True VNone [max_value 1024, min_value (if hvm \<or> ds_cpu_cap_required st then 1 else 0)]),
       (''ram'', field_of IntegerField True VNone [max_value 1048576, min_value 1]),
       (''note'', field_of CharField False VNone []),
       (''owner'', field_of (SlugRelatedField ''owners'' ''username'') False (VStr (df_username env)) []),
       (''node'', field_of (SlugRelatedField ''nodes'' ''hostname'') False VNone []),
       (''template'', field_of (SlugRelatedField ''templates'' ''name'') False VNone []),
       (''tags'', field_of TagField False (VList []) []),
       (''monitored_internal'', field_of BooleanField True (VBool (ds_monitored_internal st)) []),
       (''monitored'', field_of BooleanField True (VBool (ds_zabbix_sync st \<and> ds_monitored st)) []),
       (''monitoring_hostgroups'', field_of (ArrayField (Some 16)) True (VList []) [regex_validator hostgroup_re]),
       (''monitoring_templates'', field_of (ArrayField (Some 32)) True (VList []) []),
       (''installed'', field_of BooleanField True (VBool False) []),
       (''snapshot_limit_manual'', snap_field (ds_snap_limit st) 65536 (ds_snap_default st)),
       (''snapshot_size_limit'', snap_field (ds_snap_size_limit st) 2147483647 (ds_snap_size_default st)),
       (''snapshot_size_percent_limit'', snap_field (ds_snap_percent_limit st) 10000 (ds_snap_percent_default st)),
       (''cpu_shares'', field_of IntegerField True (VInt (ds_cpu_shares st)) [min_value 0, max_value 1048576]),
       (''zfs_io_priority'', field_of IntegerField True (VInt (ds_zfs_io_priority st)) [min_value 0, max_value 1024]),
       (''zpool'', field_of CharField True (VStr (ds_zpool st)) [max_length 64])]
      @ (if hvm then [] else
         [(''maintain_resolvers'', field_of BooleanField True (VBool True) []),
          (''dns_domain'', field_of CharField False VNone [max_length 1024, regex_validator dns_domain_re]),
          (''routes'', field_of (DictField [cidr_validator env, text_validator (max_length 32)]
             [ip_or_nic_validator env, text_validator (max_length 16)] None) True (VDict []) [])])
      @ (if kvm then [(''vga'', field_of (ChoiceField VGA_MODEL) True (VStr (ds_vga st)) [])] else [])
      @ (if bhyve then [(''bootrom'', field_of (ChoiceField BHYVE_BOOTROM) True (VStr (ds_bootrom st)) [])] else [])
      @ [(''mdata'', field_of (DictField [text_validator (max_length 128), text_validator (regex_validator mdata_key_re)] []
             (Some 2097152)) True (VDict (ds_mdata st)) [])])"

definition set_default :: "string \<Rightarrow> pyval \<Rightarrow> fields \<Rightarrow> fields" where
  "set_default k v fs = map (\<lambda>(n, f). (n, if n = k then f\<lparr>fl_default := v\<rparr> else f)) fs"

definition set_defaults :: "pydict \<Rightarrow> fields \<Rightarrow> fields" where
  "set_defaults d fs = foldl (\<lambda>fs (k, v). set_default k v fs) fs d"

text \<open>The defaults of a new definition: from the host name in the address of the request and from the template.\<close>

definition post_defaults :: "def_env \<Rightarrow> string \<Rightarrow> (string \<times> vm_template) option \<Rightarrow> pydict" where
  "post_defaults env hostname template =
     [(''hostname'', VStr hostname), (''alias'', VStr hostname),
      (''dns_domain'', VStr (case split_max 1 (CHR ''.'') hostname of [_, d] \<Rightarrow> d | _ \<Rightarrow> []))]
     @ (case template of None \<Rightarrow> []
        | Some (n, t) \<Rightarrow> (case t_ostype t of Some os \<Rightarrow> [(''ostype'', VInt os)] | None \<Rightarrow> [])
            @ (case df_template_hvm env n of Some h \<Rightarrow> [(''hvm_type'', VInt h)] | None \<Rightarrow> []) @ df_vm_define env n)"

section \<open>Checks of fields\<close>

text \<open>
  The serializer: its object, the flags that the checks set, the storages (by key) to be recalculated and the
  image for a new zone.
\<close>

record def_ser =
  dv_object :: "vm option"
  dv_hostname_changed :: bool
  dv_zpool_changed :: bool
  dv_node_changed :: bool
  dv_update_node :: bool
  dv_storages :: "nat list"
  dv_zone_img :: "image option"

definition new_def_ser :: "vm option \<Rightarrow> def_ser" where
  "new_def_ser obj = \<lparr>dv_object = obj, dv_hostname_changed = False, dv_zpool_changed = False, dv_node_changed = False,
     dv_update_node = False, dv_storages = [], dv_zone_img = None\<rparr>"

text \<open>A method that only accepts or refuses the value of its attribute.\<close>

definition accepts :: "string \<Rightarrow> (pyval \<Rightarrow> def_ser \<Rightarrow> string option) \<Rightarrow> pydict \<Rightarrow> def_ser \<Rightarrow> (string list \<times> pydict \<times> def_ser) res" where
  "accepts k f attrs ser = Inr (case map_of attrs k of
      None \<Rightarrow> ([], attrs, ser)
    | Some v \<Rightarrow> (case f v ser of None \<Rightarrow> ([], attrs, ser) | Some msg \<Rightarrow> ([msg], attrs, ser)))"

definition refuse_if :: "bool \<Rightarrow> string \<Rightarrow> string option" where
  "refuse_if b msg = (if b then Some msg else None)"

definition MSG_DENIED :: string where "MSG_DENIED = ''Permission denied''"

definition node_ref_of :: "node \<Rightarrow> node_ref" where
  "node_ref_of n = \<lparr>nr_uuid = n_uuid n, nr_hostname = n_hostname n, nr_status = n_status n\<rparr>"

definition node_of_val :: "def_env \<Rightarrow> pyval \<Rightarrow> node option" where
  "node_of_val env v = (case v of VStr u \<Rightarrow> node_of_uuid u (df_nodes env) | _ \<Rightarrow> None)"

definition check_owner :: "def_env \<Rightarrow> pyval \<Rightarrow> def_ser \<Rightarrow> string option" where
  "check_owner env v ser = (case dv_object ser of None \<Rightarrow> None
     | Some x \<Rightarrow> refuse_if (truthy v \<and> v \<noteq> VInt (v_owner x) \<and> ae_tasks (ne_api (df_nic env)) (v_uuid x)) ''VM has pending tasks.'')"

definition moves :: "vm option \<Rightarrow> node option \<Rightarrow> bool option" where
  "moves obj n = (case (obj, map_option n_uuid n) of
      (Some x, m) \<Rightarrow> (case v_node x of
          Some old \<Rightarrow> (if m = Some (nr_uuid old) then Some False else if is_notcreated x then Some True else None)
        | None \<Rightarrow> Some (m \<noteq> None))
    | (None, m) \<Rightarrow> Some (m \<noteq> None))"

definition def_validate_node :: "def_env \<Rightarrow> pydict \<Rightarrow> def_ser \<Rightarrow> (string list \<times> pydict \<times> def_ser) res" where
  "def_validate_node env attrs ser = (case map_of attrs ''node'' of
      None \<Rightarrow> Inr ([], attrs, ser)
    | Some v \<Rightarrow> (case moves (dv_object ser) (node_of_val env v) of
        None \<Rightarrow> Inr ([''Cannot change node.''], attrs, ser)
      | Some changed \<Rightarrow>
          (let ser1 = ser\<lparr>dv_node_changed := dv_node_changed ser \<or> changed\<rparr> in
           case (dv_node_changed ser1, node_of_val env v) of
             (True, Some n) \<Rightarrow>
               (if n_status n \<noteq> Node_ONLINE then Inr ([''Node is currently not available.''], attrs, ser1)
                else (case dv_object ser of
                    None \<Rightarrow> Inr ([], attrs, ser1)
                  | Some x \<Rightarrow> rbind (validate_nic_tags (df_nic env) x (node_ref_of n) None) (\<lambda>ok.
                      Inr (if ok then [] else [''Network is not available on compute node.''], attrs, ser1))))
           | _ \<Rightarrow> Inr ([], attrs, ser1))))"

text \<open>The VMs in the database.\<close>

definition db_vms :: "def_env \<Rightarrow> (string \<Rightarrow> vm option) \<Rightarrow> vm list" where
  "db_vms env db = List.map_filter db (df_uuids env)"

definition same_text :: "string \<Rightarrow> string \<Rightarrow> bool" where "same_text s t \<longleftrightarrow> lower s = lower t"

definition INVALID_HOSTNAMES :: "string list" where "INVALID_HOSTNAMES = [''define'', ''status'', ''backup'', ''snapshot'']"

definition def_validate_hostname ::
  "def_env \<Rightarrow> (string \<Rightarrow> vm option) \<Rightarrow> pydict \<Rightarrow> def_ser \<Rightarrow> (string list \<times> pydict \<times> def_ser) res" where
  "def_validate_hostname env db attrs ser = (case map_of attrs ''hostname'' of
      Some (VStr h) \<Rightarrow>
        (let own = (case dv_object ser of Some x \<Rightarrow> v_hostname x = h \<or> v_uuid x = h | None \<Rightarrow> False);
             ser1 = (case dv_object ser of Some x \<Rightarrow> (if v_hostname x \<noteq> h then ser\<lparr>dv_hostname_changed := True\<rparr> else ser) | None \<Rightarrow> ser)
         in if own then Inr ([], attrs, ser1)
            else if list_ex (\<lambda>y. same_text (v_hostname y) h \<or> same_text (v_uuid y) h) (db_vms env db)
            then other_error ''ObjectAlreadyExists'' ''VM''
            else if str_find h ''..'' \<ge> 0 \<or> str_find h ''--'' \<ge> 0 \<or> h \<in> set INVALID_HOSTNAMES
            then Inr ([MSG_INVALID], attrs, ser)
            else Inr ([], attrs, ser1))
    | _ \<Rightarrow> Inr ([], attrs, ser))"

definition template_name :: "vm \<Rightarrow> pyval" where
  "template_name x = (case v_template x of Some t \<Rightarrow> VStr (t_name t) | None \<Rightarrow> VNone)"

definition check_template :: "pyval \<Rightarrow> def_ser \<Rightarrow> string option" where
  "check_template v ser = (case dv_object ser of None \<Rightarrow> None
     | Some x \<Rightarrow> refuse_if (truthy v \<and> v \<noteq> template_name x) ''Cannot change template.'')"

definition check_staff_default :: "def_env \<Rightarrow> pyval \<Rightarrow> pyval \<Rightarrow> def_ser \<Rightarrow> string option" where
  "check_staff_default env dflt v ser = refuse_if (\<not> ne_staff (df_nic env) \<and> \<not> py_eq v dflt) MSG_DENIED"

definition def_validate_zpool :: "pydict \<Rightarrow> def_ser \<Rightarrow> (string list \<times> pydict \<times> def_ser) res" where
  "def_validate_zpool attrs ser = Inr (case map_of attrs ''zpool'' of
      None \<Rightarrow> ([], attrs, ser)
    | Some v \<Rightarrow> (case dv_object ser of
        None \<Rightarrow> ([], attrs, ser\<lparr>dv_zpool_changed := True\<rparr>)
      | Some x \<Rightarrow> (if py_eq (zpool x) v then ([], attrs, ser)
          else if is_deployed x then ([''Cannot change zpool.''], attrs, ser)
          else if \<not> is_hvm x then ([''Cannot change zpool for this OS type. Please change it on the first disk.''], attrs, ser)
          else ([], attrs, ser\<lparr>dv_zpool_changed := True\<rparr>))))"

definition zone_image :: "def_env \<Rightarrow> int \<Rightarrow> image option" where
  "zone_image env os =
     (let name = (if os = LINUX_ZONE then ds_image_lx_zone (df_settings env) else ds_image_zone (df_settings env));
          imgs = filter (\<lambda>i. im_ostype i = os) (df_images env)
      in case List.find (\<lambda>i. im_name i = name) imgs of Some i \<Rightarrow> Some i | None \<Rightarrow> (case imgs of i # _ \<Rightarrow> Some i | [] \<Rightarrow> None))"

definition def_validate_ostype :: "def_env \<Rightarrow> pydict \<Rightarrow> def_ser \<Rightarrow> (string list \<times> pydict \<times> def_ser) res" where
  "def_validate_ostype env attrs ser = Inr (case map_of attrs ''ostype'' of
      Some (VInt os) \<Rightarrow> (case dv_object ser of
          Some x \<Rightarrow> (if v_ostype x \<noteq> os then [''Cannot change ostype.''] else [], attrs, ser)
        | None \<Rightarrow>
            (if os \<in> set HVM_OSTYPES then ([], attrs, ser)
             else if \<not> ds_zone_enabled (df_settings env) then ([''This OS type is not supported.''], attrs, ser)
             else (case zone_image env os of
                 None \<Rightarrow> ([''Default disk image for this OS type is not available.''], attrs, ser)
               | Some i \<Rightarrow> ([], attrs, ser\<lparr>dv_zone_img := Some i\<rparr>))))
    | _ \<Rightarrow> ([], attrs, ser))"

definition def_validate_hvm_type :: "pydict \<Rightarrow> def_ser \<Rightarrow> (string list \<times> pydict \<times> def_ser) res" where
  "def_validate_hvm_type attrs ser = Inr (case map_of attrs ''hvm_type'' of
      None \<Rightarrow> ([], attrs, ser)
    | Some v \<Rightarrow>
        (if (case dv_object ser of Some x \<Rightarrow> VInt (v_hvm_type x) \<noteq> v | None \<Rightarrow> False)
         then ([''Cannot change hypervisor type.''], attrs, ser)
         else (let os = (case map_of attrs ''ostype'' of Some (VInt i) \<Rightarrow> Some i
                 | Some _ \<Rightarrow> None | None \<Rightarrow> map_option v_ostype (dv_object ser)) in
           (case os of Some i \<Rightarrow> if ostype_brand i = ''hvm'' \<and> v = VInt Hypervisor_NONE
                                  then [''You must select correct hypervisor.''] else []
             | None \<Rightarrow> [], attrs, ser))))"

definition check_allowed :: "string list option \<Rightarrow> string list res \<Rightarrow> string \<Rightarrow> pyval \<Rightarrow> string option res" where
  "check_allowed allowed old msg v = rbind old (\<lambda>o'. Inr (
     if v = VList (map VStr o') then None
     else (case (allowed, v) of
         (Some names, VList vs) \<Rightarrow> refuse_if (\<not> set vs \<subseteq> VStr ` set names) msg
       | _ \<Rightarrow> None)))"

definition def_validate_list :: "string \<Rightarrow> string list option \<Rightarrow> (vm \<Rightarrow> string list res) \<Rightarrow> string \<Rightarrow> pydict \<Rightarrow> def_ser
    \<Rightarrow> (string list \<times> pydict \<times> def_ser) res" where
  "def_validate_list k allowed old msg attrs ser = (case map_of attrs k of
      None \<Rightarrow> Inr ([], attrs, ser)
    | Some v \<Rightarrow> (case dv_object ser of
        Some x \<Rightarrow> rbind (check_allowed allowed (old x) msg v) (\<lambda>e. Inr (case e of Some m \<Rightarrow> [m] | None \<Rightarrow> [], attrs, ser))
      | None \<Rightarrow> Inr (case (allowed, v) of
            (Some names, VList vs) \<Rightarrow> if set vs \<subseteq> VStr ` set names then [] else [msg]
          | _ \<Rightarrow> [], attrs, ser)))"

definition def_methods :: "def_env \<Rightarrow> (string \<Rightarrow> vm option) \<Rightarrow> fields \<Rightarrow> def_ser methods" where
  "def_methods env db fs k =
     (let st = df_settings env in map_of
       [(''owner'', accepts ''owner'' (check_owner env)),
        (''node'', def_validate_node env),
        (''hostname'', def_validate_hostname env db),
        (''template'', accepts ''template'' check_template),
        (''cpu_shares'', accepts ''cpu_shares'' (check_staff_default env (VInt (ds_cpu_shares st)))),
        (''zfs_io_priority'', accepts ''zfs_io_priority'' (check_staff_default env (VInt (ds_zfs_io_priority st)))),
        (''zpool'', def_validate_zpool),
        (''ostype'', def_validate_ostype env),
        (''hvm_type'', def_validate_hvm_type),
        (''monitored_internal'', accepts ''monitored_internal'' (check_staff_default env
           (case map_of fs ''monitored_internal'' of Some f \<Rightarrow> fl_default f | None \<Rightarrow> VNone))),
        (''monitoring_hostgroups'', def_validate_list ''monitoring_hostgroups'' (ds_hostgroups_allowed st) monitoring_hostgroups
           ''Selected monitoring hostgroups are not available.''),
        (''monitoring_templates'', def_validate_list ''monitoring_templates'' (ds_templates_allowed st) monitoring_templates
           ''Selected monitoring templates are not available.'')] k)"

end
