(* ===== verification/Vm_Def_Api.thy ===== *)
theory Vm_Def_Api
  imports Vm_Def_Form
begin

text \<open>
  The rest of the definition of a VM: the checks of the whole request in \<open>validate\<close> with the resources of the
  node, \<open>restore_object\<close>, which sets the attributes of the VM, and the requests of
  \<^verbatim>\<open>api/vm/define/vm_define.py\<close> that change or delete a definition or choose a node for it.
\<close>

section \<open>Storages\<close>

text \<open>\<open>get_zpools\<close>: the node storages of the datacenter that the user may see.\<close>

definition visible_zpools :: "def_env \<Rightarrow> node_storage list" where
  "visible_zpools env = filter (\<lambda>ns. df_dc env \<in> set (ns_dcs ns) \<and> df_zpool_visible env ns)
     (map (fresh_ns (df_nodes env)) (rs_nss (df_nodes env)))"

definition pool_text :: "pyval \<Rightarrow> string" where "pool_text v = (case v of VStr s \<Rightarrow> s | _ \<Rightarrow> [])"

definition no_zpool :: "pyval \<Rightarrow> string" where
  "no_zpool name = ''Storage with zpool='' @ pool_text name @ '' does not exist.''"

text \<open>The storage of a pool on a node, or none when there is no node and the pool exists on some node.\<close>

definition validate_zpool :: "def_env \<Rightarrow> pyval \<Rightarrow> node option \<Rightarrow> string list + node_storage option" where
  "validate_zpool env name node = (case node of
      Some n \<Rightarrow> (case find (\<lambda>ns. ns_node ns = n_uuid n \<and> VStr (ns_zpool ns) = name) (visible_zpools env) of
          Some ns \<Rightarrow> Inr (Some ns) | None \<Rightarrow> Inl [no_zpool name])
    | None \<Rightarrow> (if list_ex (\<lambda>ns. VStr (ns_zpool ns) = name) (visible_zpools env) then Inr None else Inl [no_zpool name]))"

text \<open>The storages of a node, all that belong to the datacenter; the result are their keys.\<close>

definition node_storages :: "def_env \<Rightarrow> string \<Rightarrow> pyval list \<Rightarrow> nat list" where
  "node_storages env uuid pools = List.map_filter (\<lambda>ns.
     if ns_node ns = uuid \<and> VStr (ns_zpool ns) \<in> set pools \<and> df_dc env \<in> set (ns_dcs ns)
     then map_option nat (ns_pk ns) else None) (rs_nss (df_nodes env))"

section \<open>Resources of a node\<close>

definition no_space :: "pyval \<Rightarrow> string" where
  "no_space name = ''Not enough free disk space on storage with zpool='' @ pool_text name @ ''.''"

fun check_disks :: "def_env \<Rightarrow> node \<Rightarrow> (pyval \<times> int) list \<Rightarrow> string list \<times> nat list" where
  "check_disks env n [] = ([], [])"
| "check_disks env n ((pool, mb) # ds) = (case check_disks env n ds of (errors, storages) \<Rightarrow>
     (case validate_zpool env pool (Some n) of
        Inl messages \<Rightarrow> (messages @ errors, storages)
      | Inr None \<Rightarrow> (errors, storages)
      | Inr (Some ns) \<Rightarrow> (if check_free_space ns mb
          then (errors, (case ns_pk ns of Some p \<Rightarrow> [nat p] | None \<Rightarrow> []) @ storages)
          else (no_space pool # errors, storages))))"

definition asked_cpu :: "pydict \<Rightarrow> int option res" where
  "asked_cpu attrs = (case map_of attrs ''vcpus'' of
      None \<Rightarrow> Inr None | Some v \<Rightarrow> rbind (as_int v) (\<lambda>i. Inr (Some (calculate_cpu_count_from_vcpus i))))"

definition asked_ram :: "pydict \<Rightarrow> int option res" where
  "asked_ram attrs = (case dget attrs ''ram'' VNone of VNone \<Rightarrow> Inr None | v \<Rightarrow> rbind (as_int v) (\<lambda>i. Inr (Some i)))"

text \<open>What a node has to provide: CPUs, memory and disk space.\<close>

record demand =
  dm_node :: node
  dm_cpu :: int
  dm_ram :: int
  dm_disk :: int

definition old_resources :: "def_env \<Rightarrow> vm option \<Rightarrow> node option \<Rightarrow> (string list \<times> nat list \<times> int \<times> int \<times> int) res" where
  "old_resources env obj node = (case obj of
      None \<Rightarrow> Inr ([], [], 0, 0, 0)
    | Some x \<Rightarrow> rbind (get_disks None False x) (\<lambda>disks.
        rbind (case node of
            None \<Rightarrow> Inr ([], [], 0, 0, 0)
          | Some n \<Rightarrow> rbind (node_zpool n) (\<lambda>zp. rbind (get_cpu_ram_disk zp False None None x) (\<lambda>(c, r, d).
              Inr (case check_disks env n disks of (errors, storages) \<Rightarrow> (errors, storages, c, r, d)))))
          (\<lambda>(errors, storages, r). Inr (errors, storages @ (case v_node x of
               Some m \<Rightarrow> node_storages env (nr_uuid m) (map fst disks) | None \<Rightarrow> []), r))))"

definition moved_demand ::
  "def_env \<Rightarrow> bool \<Rightarrow> vm option \<Rightarrow> node option \<Rightarrow> int option \<Rightarrow> int option \<Rightarrow> (string list \<times> nat list \<times> demand option) res" where
  "moved_demand env hvm obj node in_cpu in_ram =
     rbind (old_resources env obj node) (\<lambda>(errors, storages, old_cpu, old_ram, new_disk).
       (let overhead = (if hvm then KVM_MEMORY_OVERHEAD else 0) in
        Inr (errors, storages, map_option (\<lambda>n. \<lparr>dm_node = n,
          dm_cpu = (case in_cpu of None \<Rightarrow> old_cpu | Some c \<Rightarrow> c),
          dm_ram = (case in_ram of None \<Rightarrow> old_ram + overhead | Some r \<Rightarrow> r + overhead), dm_disk = new_disk\<rparr>) node)))"

definition grown_demand :: "def_env \<Rightarrow> vm \<Rightarrow> node_ref \<Rightarrow> int option \<Rightarrow> int option \<Rightarrow> demand res" where
  "grown_demand env x m in_cpu in_ram = (case node_of_uuid (nr_uuid m) (df_nodes env) of
      None \<Rightarrow> Inl (Exn ObjectDoesNotExist (nr_uuid m))
    | Some n \<Rightarrow> rbind (get_cpu_ram False None x) (\<lambda>(old_cpu, old_ram). Inr \<lparr>dm_node = n,
        dm_cpu = (case in_cpu of None \<Rightarrow> 0 | Some c \<Rightarrow> c - old_cpu),
        dm_ram = (case in_ram of None \<Rightarrow> 0 | Some r \<Rightarrow> r - old_ram), dm_disk = 0\<rparr>))"

definition node_demand ::
  "def_env \<Rightarrow> bool \<Rightarrow> pydict \<Rightarrow> def_ser \<Rightarrow> (string list \<times> nat list \<times> demand option) res" where
  "node_demand env hvm attrs ser =
     rbind (asked_cpu attrs) (\<lambda>in_cpu. rbind (asked_ram attrs) (\<lambda>in_ram.
     if dv_node_changed ser
     then rbind (ditem attrs ''node'') (\<lambda>v. moved_demand env hvm (dv_object ser) (node_of_val env v) in_cpu in_ram)
     else (case dv_object ser of
         None \<Rightarrow> Inr ([], [], None)
       | Some x \<Rightarrow> (case v_node x of
           None \<Rightarrow> Inr ([], [], None)
         | Some m \<Rightarrow> (if in_cpu = None \<and> in_ram = None then Inr ([], [], None)
             else rbind (grown_demand env x m in_cpu in_ram) (\<lambda>d. Inr ([], [], Some d)))))))"

definition BHYVE_MIN_PLATFORM_SHORT :: int where "BHYVE_MIN_PLATFORM_SHORT = 20210408"

definition bhyve_errors :: "demand \<Rightarrow> string list res" where
  "bhyve_errors d = rbind (bhyve_capable (dm_node d)) (\<lambda>capable. rbind (bhyve_max_vcpus (dm_node d)) (\<lambda>m.
     rbind (platform_version_short (dm_node d)) (\<lambda>platform.
       Inr ((if capable then [] else [''Node is not bhyve capable''])
          @ (if dm_cpu d > m then [''Bhyve supports max '' @ int_str m @ '' vcpus''] else [])
          @ (if platform < BHYVE_MIN_PLATFORM_SHORT then [''Compute node platform is too old for bhyve.''] else [])))))"

definition free_errors :: "dc_node \<Rightarrow> demand \<Rightarrow> string list" where
  "free_errors r d =
     (if dm_cpu d > 0 \<and> \<not> check_free_resources (Some (dm_cpu d)) None None r then [''Not enough free vCPUs on node.''] else [])
     @ (if dm_ram d > 0 \<and> \<not> check_free_resources None (Some (dm_ram d)) None r then [''Not enough free RAM on node.''] else [])
     @ (if dm_disk d > 0 \<and> \<not> check_free_resources None None (Some (dm_disk d)) r then [''Not enough free disk space on node.''] else [])"

definition get_dc_node :: "def_env \<Rightarrow> node \<Rightarrow> dc_node res" where
  "get_dc_node env n = (case find (\<lambda>r. dn_dc r = df_dc env \<and> dn_node r = n_uuid n) (rs_dcnodes (df_nodes env)) of
      Some r \<Rightarrow> Inr r | None \<Rightarrow> Inl (Exn ObjectDoesNotExist (n_uuid n)))"

definition validate_node_resources :: "def_env \<Rightarrow> bool \<Rightarrow> bool \<Rightarrow> pydict \<Rightarrow> def_ser \<Rightarrow> (string list \<times> def_ser) res" where
  "validate_node_resources env hvm bhyve attrs ser =
     rbind (node_demand env hvm attrs ser) (\<lambda>(errors, storages, wanted).
       (let ser1 = ser\<lparr>dv_storages := dv_storages ser @ storages\<rparr> in case wanted of
          None \<Rightarrow> Inr ([], ser1)
        | Some d \<Rightarrow> rbind (get_dc_node env (dm_node d)) (\<lambda>r.
            rbind (if bhyve then bhyve_errors d else Inr []) (\<lambda>bh.
            (let es = errors @ free_errors r d @ bh in
             Inr (es, if es = [] then ser1\<lparr>dv_update_node := True\<rparr> else ser1))))))"

section \<open>The whole request\<close>

definition OSTYPE :: "(int \<times> string) list" where
  "OSTYPE = [(LINUX, ''Linux VM''), (SUNOS, ''SunOS VM''), (BSD, ''BSD VM''), (WINDOWS, ''Windows VM''),
     (SUNOS_ZONE, ''SunOS Zone''), (LINUX_ZONE, ''Linux Zone'')]"

definition over_limit :: "def_env \<Rightarrow> (string \<Rightarrow> vm option) \<Rightarrow> bool" where
  "over_limit env db = (case ds_define_limit (df_settings env) of
      None \<Rightarrow> False | Some m \<Rightarrow> m \<le> int (length (filter (\<lambda>y. v_dc y = df_dc env) (db_vms env db))))"

definition wanted_ostype :: "pydict \<Rightarrow> vm option \<Rightarrow> int res" where
  "wanted_ostype attrs obj = (case map_of attrs ''ostype'' of
      Some v \<Rightarrow> as_int v
    | None \<Rightarrow> (case obj of Some x \<Rightarrow> Inr (v_ostype x) | None \<Rightarrow> Inl (Exn AttributeError ''ostype'')))"

definition template_errors :: "def_env \<Rightarrow> int \<Rightarrow> pydict \<Rightarrow> form_errors" where
  "template_errors env ostype attrs = (case dget attrs ''template'' VNone of
      VStr t \<Rightarrow> (case Option.bind (df_template env t) t_ostype of
          Some os \<Rightarrow> (if os \<noteq> 0 \<and> os \<noteq> ostype
            then [(''template'', [''Server template is only available for servers with \"'' @
                 (case map_of OSTYPE os of Some s \<Rightarrow> s | None \<Rightarrow> int_str os) @ ''\" OS type.''])] else [])
        | None \<Rightarrow> [])
    | _ \<Rightarrow> [])"

definition zpool_errors :: "def_env \<Rightarrow> pydict \<Rightarrow> def_ser \<Rightarrow> form_errors res" where
  "zpool_errors env attrs ser = (if \<not> (dv_zpool_changed ser \<or> dv_node_changed ser) then Inr [] else
     rbind (case map_of attrs ''zpool'' of Some v \<Rightarrow> Inr v
         | None \<Rightarrow> (case dv_object ser of Some x \<Rightarrow> Inr (zpool x) | None \<Rightarrow> Inl (Exn AttributeError ''zpool''))) (\<lambda>pool.
       (let node = (case map_of attrs ''node'' of Some v \<Rightarrow> node_of_val env v
              | None \<Rightarrow> Option.bind (Option.bind (dv_object ser) v_node) (\<lambda>m. node_of_uuid (nr_uuid m) (df_nodes env)))
        in Inr (case validate_zpool env pool node of Inl messages \<Rightarrow> [(''zpool'', messages)] | Inr _ \<Rightarrow> []))))"

definition alias_owner :: "def_env \<Rightarrow> pydict \<Rightarrow> vm option \<Rightarrow> pyval" where
  "alias_owner env attrs obj = (case (map_of attrs ''owner'', obj) of
      (Some v, _) \<Rightarrow> v | (None, Some x) \<Rightarrow> VInt (v_owner x) | (None, None) \<Rightarrow> VInt (df_user env))"

definition alias_errors :: "def_env \<Rightarrow> (string \<Rightarrow> vm option) \<Rightarrow> pydict \<Rightarrow> vm option \<Rightarrow> form_errors" where
  "alias_errors env db attrs obj = (case map_of attrs ''alias'' of
      Some (VStr a) \<Rightarrow>
        (if (case obj of Some x \<Rightarrow> v_alias x = a | None \<Rightarrow> False) then []
         else if list_ex (\<lambda>y. v_dc y = df_dc env \<and> VInt (v_owner y) = alias_owner env attrs obj \<and> same_text (v_alias y) a) (db_vms env db)
         then [(''alias'', [''This server name is already in use. Please supply a different server name.''])] else [])
    | _ \<Rightarrow> [])"

definition fix_owner :: "def_env \<Rightarrow> vm option \<Rightarrow> pydict \<Rightarrow> pydict" where
  "fix_owner env obj attrs = (if map_of attrs ''owner'' = Some VNone
     then (if obj = None then AList.update ''owner'' (VInt (df_user env)) attrs else AList.delete ''owner'' attrs) else attrs)"

definition fix_cpu_type :: "vm option \<Rightarrow> int \<Rightarrow> pydict \<Rightarrow> pydict \<Rightarrow> pydict" where
  "fix_cpu_type obj ostype data attrs = (if obj = None \<and> ostype = WINDOWS \<and> \<not> dhas data ''cpu_type''
     then AList.update ''cpu_type'' (VStr ''host'') attrs else attrs)"

definition fix_monitored :: "def_env \<Rightarrow> pydict \<Rightarrow> pydict" where
  "fix_monitored env attrs =
     (let off = (\<lambda>k b d. if dhas d k \<and> \<not> b then AList.update k (VBool False) d else d) in
      off ''monitored'' (ds_zabbix_sync (df_settings env)) (off ''monitored_internal'' (ds_monitored_internal (df_settings env)) attrs))"

definition def_check ::
  "def_env \<Rightarrow> (string \<Rightarrow> vm option) \<Rightarrow> bool \<Rightarrow> bool \<Rightarrow> bool \<Rightarrow> pydict \<Rightarrow> pydict \<Rightarrow> def_ser \<Rightarrow> (form_errors \<times> pydict \<times> def_ser) res" where
  "def_check env db post hvm bhyve data attrs ser =
     (if post \<and> over_limit env db
      then Inr ([(''non_field_errors'', [''Maximum number of server definitions reached.''])], attrs, ser)
      else rbind (wanted_ostype attrs (dv_object ser)) (\<lambda>ostype.
        (let attrs1 = fix_owner env (dv_object ser) (fix_cpu_type (dv_object ser) ostype data attrs) in
         rbind (zpool_errors env attrs1 ser) (\<lambda>zpool_es.
         (let errors = template_errors env ostype attrs1 @ zpool_es @ alias_errors env db attrs1 (dv_object ser) in
          rbind (if errors = [] then validate_node_resources env hvm bhyve attrs1 ser else Inr ([], ser)) (\<lambda>(node_es, ser1).
            Inr (errors @ (if node_es = [] then [] else [(''node'', node_es)]), fix_monitored env attrs1, ser1)))))))"

section \<open>Setting the attributes\<close>

text \<open>
  A new object. The operating system and the hypervisor are set from the request; until then they have no value,
  written 0 here.
\<close>

definition new_vm :: "def_env \<Rightarrow> vm" where
  "new_vm env = \<lparr>v_uuid = df_new_uuid env, v_hostname = [], v_alias = [], v_vnc_port = None, v_ostype = 0, v_hvm_type = 0,
     v_status = NOTCREATED, v_owner = 0, v_node = None, v_uptime = 0, v_uptime_changed = 0, v_json = [], v_json_active = [],
     v_info = [], v_slave_vms = [], v_created = None, v_slavevm = None, v_orig_node = None, v_node_changed = False,
     v_status_display = None, v_dc = df_dc env, v_template = None, v_fqdn_hostname = None, v_fqdn_domain = None,
     v_orig_status = NOTCREATED, v_status_change = None, v_changed = None, v_lock = False, v_update_changed = True\<rparr>"

fun str_items :: "pyval list \<Rightarrow> string list res" where
  "str_items [] = Inr []"
| "str_items (VStr s # vs) = rbind (str_items vs) (\<lambda>ss. Inr (s # ss))"
| "str_items (_ # vs) = Inl (Exn TypeError ''expected string'')"

definition str_list :: "pyval \<Rightarrow> string list res" where
  "str_list v = (case v of VList vs \<Rightarrow> str_items vs | _ \<Rightarrow> Inl (Exn TypeError ''not iterable''))"

definition as_dict :: "pyval \<Rightarrow> pydict res" where
  "as_dict v = (case v of VDict d \<Rightarrow> Inr d | _ \<Rightarrow> Inl (Exn AttributeError ''keys''))"

definition set_owner_attr :: "pyval \<Rightarrow> vm \<Rightarrow> vm res" where
  "set_owner_attr v x = (case v of VInt i \<Rightarrow> Inr (x\<lparr>v_owner := i\<rparr>) | _ \<Rightarrow> Inl (Exn ValueError ''owner''))"

definition template_of_val :: "def_env \<Rightarrow> pyval \<Rightarrow> vm_template option" where
  "template_of_val env v = (case v of VStr t \<Rightarrow> df_template env t | _ \<Rightarrow> None)"

text \<open>
  The setters of the attributes of a VM. The note and the tags are not kept with the object in the model; other names only
  occur in a template, and setting them changes nothing that is stored.
\<close>

definition setters :: "def_env \<Rightarrow> (string \<times> (pyval \<Rightarrow> vm \<Rightarrow> vm res)) list" where
  "setters env =
     [(''node'', \<lambda>v. set_node (map_option node_ref_of (node_of_val env v))),
      (''hostname'', \<lambda>v x. rbind (str_field v) (\<lambda>h. Inr (x\<lparr>v_hostname := h\<rparr>))),
      (''alias'', \<lambda>v x. rbind (str_field v) (\<lambda>a. Inr (x\<lparr>v_alias := a\<rparr>))),
      (''owner'', set_owner_attr),
      (''template'', \<lambda>v x. Inr (x\<lparr>v_template := template_of_val env v\<rparr>)),
      (''vcpus'', \<lambda>v x. rbind (as_int v) (\<lambda>i. set_vcpus i x)),
      (''ram'', \<lambda>v x. rbind (as_int v) (\<lambda>i. set_ram i x)),
      (''cpu_type'', set_cpu_type),
      (''monitored_internal'', \<lambda>v. set_zabbix_sync (truthy v)),
      (''monitored'', set_external_zabbix_sync),
      (''monitoring_hostgroups'', \<lambda>v x. rbind (str_list v) (\<lambda>l. set_monitoring_hostgroups l x)),
      (''monitoring_templates'', \<lambda>v x. rbind (str_list v) (\<lambda>l. set_monitoring_templates l x)),
      (''installed'', set_installed),
      (''snapshot_limit_manual'', set_snapshot_limit_manual),
      (''snapshot_size_limit'', set_snapshot_size_limit),
      (''snapshot_size_percent_limit'', set_snapshot_size_percent_limit),
      (''cpu_shares'', set_cpu_shares),
      (''zfs_io_priority'', set_zfs_io_priority),
      (''zpool'', \<lambda>v x. rbind (str_field v) (\<lambda>z. set_zpool z x)),
      (''maintain_resolvers'', set_maintain_resolvers),
      (''dns_domain'', set_dns_domain),
      (''routes'', set_routes),
      (''vga'', set_vga),
      (''bootrom'', set_bootrom),
      (''mdata'', \<lambda>v x. rbind (as_dict v) (\<lambda>d. set_mdata d x))]"

definition set_attr :: "def_env \<Rightarrow> string \<Rightarrow> pyval \<Rightarrow> vm \<Rightarrow> vm res" where
  "set_attr env k v x = (case map_of (setters env) k of Some f \<Rightarrow> f v x | None \<Rightarrow> Inr x)"

fun set_attrs :: "def_env \<Rightarrow> pydict \<Rightarrow> vm \<Rightarrow> vm res" where
  "set_attrs env [] x = Inr x"
| "set_attrs env ((k, v) # d) x = rbind (set_attr env k v x) (set_attrs env d)"

text \<open>The template is applied whenever the request names one, also when the VM has it already.\<close>

definition restore_template :: "def_env \<Rightarrow> pydict \<Rightarrow> vm \<Rightarrow> pydict \<Rightarrow> (vm \<times> pydict) res" where
  "restore_template env attrs x json = (case dget attrs ''template'' VNone of
      VStr t \<Rightarrow> rbind (sync_from_template True (x\<lparr>v_template := df_template env t\<rparr>) json) (\<lambda>(y, d).
        Inr (y\<lparr>v_json := d\<rparr>, df_vm_define env t))
    | _ \<Rightarrow> Inr (x\<lparr>v_json := json\<rparr>, []))"

definition restore_brand :: "def_env \<Rightarrow> pydict \<Rightarrow> vm \<Rightarrow> vm res" where
  "restore_brand env data x =
     rbind (case map_of data ''ostype'' of None \<Rightarrow> Inr x | Some v \<Rightarrow> rbind (py_int v) (\<lambda>i. set_ostype i x)) (\<lambda>y.
       case map_of data ''hvm_type'' of None \<Rightarrow> Inr y
       | Some v \<Rightarrow> rbind (py_int v) (\<lambda>i. set_hvm_type (e_settings (df_save env)) i y))"

text \<open>The disk of a new zone comes from an image; its size in MB is rounded to GB.\<close>

definition zone_disk :: "def_env \<Rightarrow> def_ser \<Rightarrow> vm \<Rightarrow> vm res" where
  "zone_disk env ser x = (if dv_object ser = None \<and> \<not> is_hvm x \<and> \<not> dhas (v_json x) ''image_uuid''
     then (case dv_zone_img ser of
         None \<Rightarrow> Inl (Exn AttributeError ''uuid'')
       | Some i \<Rightarrow> save_items [(''image_uuid'', VStr (im_uuid i)), (''quota'', VInt ((im_size i + 512) div 1024)),
           (''zfs_root_compression'', VStr (ds_compression (df_settings env)))] None x)
     else Inr x)"

definition hostname_metadata :: "def_ser \<Rightarrow> vm \<Rightarrow> vm res" where
  "hostname_metadata ser x = rbind (mdata x) (\<lambda>d.
     if \<not> dhas d ''hostname'' \<or> dv_hostname_changed ser then set_mdata (AList.update ''hostname'' (VStr (v_hostname x)) d) x else Inr x)"

definition cache_fqdn :: "def_env \<Rightarrow> vm \<Rightarrow> vm" where
  "cache_fqdn env x = snd (hostname_is_valid_fqdn (e_dns (df_save env)) (e_domains (df_save env)) True x)"

definition restore_owner :: "pydict \<Rightarrow> vm \<Rightarrow> vm res" where
  "restore_owner attrs x = (case dget attrs ''owner'' VNone of VNone \<Rightarrow> Inr x | v \<Rightarrow> set_owner_attr v x)"

definition restore_object :: "def_env \<Rightarrow> pydict \<Rightarrow> def_ser \<Rightarrow> vm res" where
  "restore_object env attrs ser =
     rbind (restore_owner attrs (case dv_object ser of Some x \<Rightarrow> x | None \<Rightarrow> new_vm env)) (\<lambda>x0.
     (let x1 = cache_fqdn env x0 in
      rbind (sync_new (e_settings (df_save env)) True (v_json x1)) (\<lambda>json.
      rbind (restore_template env attrs x1 json) (\<lambda>(x2, template_data).
      (let data = dupdate template_data attrs in
       rbind (restore_brand env data x2) (\<lambda>x3.
       rbind (set_attrs env (filter (\<lambda>(k, _). k \<noteq> ''ostype'' \<and> k \<noteq> ''hvm_type'') data) x3) (\<lambda>x4.
       rbind (zone_disk env ser x4) (\<lambda>x5. hostname_metadata ser x5))))))))"

section \<open>Requests\<close>

text \<open>\<open>is_valid\<close>: with the host name of the address for a new definition, with the object for a change.\<close>

definition named_template :: "def_env \<Rightarrow> pydict \<Rightarrow> (string \<times> vm_template) option" where
  "named_template env data = (case dget data ''template'' VNone of
      VStr t \<Rightarrow> map_option (Pair t) (df_template env t) | _ \<Rightarrow> None)"

definition def_is_valid ::
  "def_env \<Rightarrow> (string \<Rightarrow> vm option) \<Rightarrow> string option \<Rightarrow> vm option \<Rightarrow> pydict \<Rightarrow> (form_errors + def_ser \<times> vm) res" where
  "def_is_valid env db hostname obj data =
     (let template = (if hostname = None then None else named_template env data);
          hvm = is_hvm_of env obj data template; kvm = is_kvm_of env obj data template;
          fs = (case hostname of None \<Rightarrow> def_fields env hvm kvm
            | Some h \<Rightarrow> set_defaults (post_defaults env h template) (def_fields env hvm kvm))
      in rbind (perform_validation (def_methods env db fs) (def_check env db (hostname \<noteq> None) hvm (hvm \<and> \<not> kvm) data)
           (df_fields env) (hostname = None) fs data (new_def_ser obj)) (\<lambda>r. case r of
             Inl errors \<Rightarrow> Inr (Inl errors)
           | Inr (attrs, ser) \<Rightarrow> rbind (restore_object env attrs ser) (\<lambda>x. Inr (Inr (ser, x)))))"

definition def_save_args :: "def_ser \<Rightarrow> save_args" where
  "def_save_args ser = \<lparr>sv_sync_json = True, sv_update_hostname = dv_hostname_changed ser,
     sv_update_node = dv_update_node ser, sv_storages = Some (dv_storages ser), sv_keep_vnc_port = False,
     sv_fields = None, sv_change_time = None\<rparr>"

definition def_put :: "def_env \<Rightarrow> vm \<Rightarrow> pydict \<Rightarrow> (form_errors + vm) sprog" where
  "def_put env x data = if_vm_operational (df_nic env) x (db_atomic (
     pbind (\<lambda>s. (def_is_valid env (ss_db s) None (Some x) data, s)) (\<lambda>r. case r of
         Inl errors \<Rightarrow> pret (Inl errors)
       | Inr (ser, y) \<Rightarrow>
           pbind (st_save (df_status env) (def_save_args ser) y) (\<lambda>z.
           pbind (pwhen (dv_hostname_changed ser) (out [Signal ''VmDefineHostnameChanged'' (v_hostname x) (v_uuid z)])) (\<lambda>_.
             pret (Inr z))))))"

text \<open>The automatic choice of a node, which the creation of a VM uses.\<close>

definition def_choose_node :: "def_env \<Rightarrow> vm \<Rightarrow> vm sprog" where
  "def_choose_node env x =
     (let err = ''Could not find node with free resources'' in
      pbind (pres (fst (choose_node (v_dc x) x (df_nodes env)))) (\<lambda>node. case node of
          None \<Rightarrow> api_error ExpectationFailed err
        | Some n \<Rightarrow> pbind (def_put env x [(''node'', VStr (n_hostname n))]) (\<lambda>r. case r of
              Inr y \<Rightarrow> pret y
            | Inl errors \<Rightarrow> api_error ExpectationFailed
                (case map_of errors ''node'' of Some messages \<Rightarrow> concat messages | None \<Rightarrow> err))))"

text \<open>
  The row of a VM is deleted with its cached status; addresses lose it, and the resources of its node are recalculated.
\<close>

definition forget_vm :: "string \<Rightarrow> ip_row \<Rightarrow> ip_row" where
  "forget_vm u r = r\<lparr>ip_vm := (if ip_vm r = Some u then None else ip_vm r), ip_vms := removeAll u (ip_vms r)\<rparr>"

definition delete_row :: "status_env \<Rightarrow> vm \<Rightarrow> unit sprog" where
  "delete_row env x =
     pbind (pmod (\<lambda>s. s\<lparr>ss_db := (ss_db s)(v_uuid x := None), ss_ips := map (forget_vm (v_uuid x)) (ss_ips s),
       ss_cache := (ss_cache s)(vm_status_key (v_uuid x) := None, vm_status_change_key (v_uuid x) := None)\<rparr>)) (\<lambda>_.
     pbind (pres (vm_post_delete (se_save env) x)) (\<lambda>es. out (map ResourcesUpdated es)))"

definition ignore_errors :: "unit sprog \<Rightarrow> unit sprog" where
  "ignore_errors m = (\<lambda>s. (Inr (), snd (m s)))"

definition def_delete :: "def_env \<Rightarrow> string \<Rightarrow> vm \<Rightarrow> unit sprog" where
  "def_delete env tid x = if_vm_operational (df_nic env) x (db_atomic (
     if is_deployed x then api_error VmIsNotOperational ''VM is not notcreated'' else
     pbind (pres (json_get_nics x)) (\<lambda>nics.
     pbind (pfor nics (\<lambda>nic. ignore_errors (pbind (\<lambda>s. (fix_before (df_nic env) (ss_ips s) x nic, s)) (\<lambda>ser.
       save_ip (df_nic env) x ser True False)))) (\<lambda>_.
     pbind (delete_row (df_status env) x) (\<lambda>_. out [Signal ''vm_undefined'' tid (v_uuid x)])))))"

datatype def_request = DefPut pydict | DefDelete

definition vm_define :: "def_env \<Rightarrow> def_request \<Rightarrow> string \<Rightarrow> string \<Rightarrow> (form_errors + unit) sprog" where
  "vm_define env rq tid uuid = pbind (api_get_vm (ne_api (df_nic env)) uuid) (\<lambda>x. case rq of
      DefPut data \<Rightarrow> pbind (def_put env x data) (\<lambda>r. pret (map_sum id (\<lambda>_. ()) r))
    | DefDelete \<Rightarrow> pbind (def_delete env tid x) (\<lambda>_. pret (Inr ())))"

end
