(* ===== verification/Vm_Def_Inv.thy ===== *)
theory Vm_Def_Inv
  imports Vm_Manage_Safe Vm_Def_Api
begin

text \<open>
  Lemmas on the requests for definitions: what setting attributes changes in an object, what saving the whole row
  does, when a change is valid, and what the checks leave of the attributes.
\<close>

section \<open>What setting attributes changes\<close>

text \<open>The part of an object that identifies it and its status; the host name is only changed by its setter.\<close>

definition same_row :: "vm \<Rightarrow> vm \<Rightarrow> bool" where
  "same_row x y \<longleftrightarrow> v_uuid y = v_uuid x \<and> v_status y = v_status x \<and> v_orig_status y = v_orig_status x"

definition same_name :: "vm \<Rightarrow> vm \<Rightarrow> bool" where
  "same_name x y \<longleftrightarrow> same_row x y \<and> v_hostname y = v_hostname x"

lemma same_name_refl [simp]: "same_name x x" "same_row x x" by (simp_all add: same_name_def same_row_def)
lemma same_name_trans: "same_name x y \<Longrightarrow> same_name y z \<Longrightarrow> same_name x z" by (simp add: same_name_def same_row_def)
lemma same_row_trans: "same_row x y \<Longrightarrow> same_row y z \<Longrightarrow> same_row x z" by (simp add: same_row_def)
lemma same_name_row: "same_name x y \<Longrightarrow> same_row x y" by (simp add: same_name_def)

lemma same_name_upd [simp]:
  "same_name x (y\<lparr>v_json := j\<rparr>) = same_name x y" "same_name x (y\<lparr>v_alias := a\<rparr>) = same_name x y"
  "same_name x (y\<lparr>v_owner := i\<rparr>) = same_name x y" "same_name x (y\<lparr>v_template := t\<rparr>) = same_name x y"
  "same_name x (y\<lparr>v_ostype := i\<rparr>) = same_name x y" "same_name x (y\<lparr>v_hvm_type := i\<rparr>) = same_name x y"
  "same_name x (y\<lparr>v_node := n\<rparr>) = same_name x y" "same_name x (y\<lparr>v_node_changed := b\<rparr>) = same_name x y"
  "same_name x (y\<lparr>v_orig_node := n\<rparr>) = same_name x y"
  "same_name x (y\<lparr>v_fqdn_hostname := h\<rparr>) = same_name x y" "same_name x (y\<lparr>v_fqdn_domain := h\<rparr>) = same_name x y"
  by (simp_all add: same_name_def same_row_def)

lemma save_item_name: "save_item k v md x = Inr y \<Longrightarrow> same_name x y"
  by (auto simp: save_item_def rbind_Inr_iff split: option.splits)

lemma save_items_name: "save_items d md x = Inr y \<Longrightarrow> same_name x y"
  by (auto simp: save_items_def rbind_Inr_iff split: option.splits)

lemma delete_item_name: "delete_item k md x = Inr y \<Longrightarrow> same_name x y"
  by (auto simp: delete_item_def split: option.splits pyval.splits)

lemmas item_names = save_item_name save_items_name delete_item_name

lemma set_metadata_name:
  "save_metadata k v x = Inr y \<Longrightarrow> same_name x y" "set_opt_metadata k v x = Inr y \<Longrightarrow> same_name x y"
  "set_comma_list k l x = Inr y \<Longrightarrow> same_name x y" "set_item_zone k v x = Inr y \<Longrightarrow> same_name x y"
  "set_mdata d x = Inr y \<Longrightarrow> same_name x y"
  by (auto simp: save_metadata_def set_opt_metadata_def delete_metadata_def set_comma_list_def set_item_zone_def set_mdata_def
      set_customer_metadata_def split: if_splits dest: item_names)

lemmas setter_defs = set_vcpus_def set_ram_def set_cpu_type_def set_zabbix_sync_def set_external_zabbix_sync_def
  set_monitoring_hostgroups_def set_monitoring_templates_def set_installed_def set_snapshot_limit_manual_def
  set_snapshot_size_limit_def set_snapshot_size_percent_limit_def set_cpu_shares_def set_zfs_io_priority_def set_zpool_def
  set_maintain_resolvers_def set_dns_domain_def set_routes_def set_vga_def set_bootrom_def

lemma setter_names:
  "set_vcpus i x = Inr y \<Longrightarrow> same_name x y" "set_ram i x = Inr y \<Longrightarrow> same_name x y" "set_cpu_type v x = Inr y \<Longrightarrow> same_name x y"
  "set_zabbix_sync b x = Inr y \<Longrightarrow> same_name x y" "set_external_zabbix_sync v x = Inr y \<Longrightarrow> same_name x y"
  "set_monitoring_hostgroups l x = Inr y \<Longrightarrow> same_name x y" "set_monitoring_templates l x = Inr y \<Longrightarrow> same_name x y"
  "set_installed v x = Inr y \<Longrightarrow> same_name x y" "set_snapshot_limit_manual v x = Inr y \<Longrightarrow> same_name x y"
  "set_snapshot_size_limit v x = Inr y \<Longrightarrow> same_name x y" "set_snapshot_size_percent_limit v x = Inr y \<Longrightarrow> same_name x y"
  "set_cpu_shares v x = Inr y \<Longrightarrow> same_name x y" "set_zfs_io_priority v x = Inr y \<Longrightarrow> same_name x y" "set_zpool z x = Inr y \<Longrightarrow> same_name x y"
  "set_maintain_resolvers v x = Inr y \<Longrightarrow> same_name x y" "set_dns_domain v x = Inr y \<Longrightarrow> same_name x y"
  "set_routes v x = Inr y \<Longrightarrow> same_name x y" "set_vga v x = Inr y \<Longrightarrow> same_name x y" "set_bootrom v x = Inr y \<Longrightarrow> same_name x y"
  "set_node n x = Inr y \<Longrightarrow> same_name x y" "set_owner_attr v x = Inr y \<Longrightarrow> same_name x y"
  by (auto simp: setter_defs set_node_def set_owner_attr_def Let_def split: if_splits pyval.splits
      dest: item_names set_metadata_name)

definition keeps_name :: "(pyval \<Rightarrow> vm \<Rightarrow> vm res) \<Rightarrow> bool" where
  "keeps_name f \<longleftrightarrow> (\<forall>v x y. f v x = Inr y \<longrightarrow> same_name x y)"

lemma keeps_nameI: "(\<And>v x y. f v x = Inr y \<Longrightarrow> same_name x y) \<Longrightarrow> keeps_name f" by (simp add: keeps_name_def)

lemma keeps_name_rbind: "(\<And>i. keeps_name (\<lambda>_. g i)) \<Longrightarrow> keeps_name (\<lambda>v x. rbind (p v) (\<lambda>i. g i x))"
  by (auto simp: keeps_name_def rbind_Inr_iff)

lemma keeps_name_update: "(\<And>v x. same_name x (u v x)) \<Longrightarrow> keeps_name (\<lambda>v x. Inr (u v x))"
  by (auto simp: keeps_name_def)

lemma setters_keep_name: "list_all (\<lambda>(k, f). k \<noteq> ''hostname'' \<longrightarrow> keeps_name f) (setters env)"
proof -
  have drop: "P \<Longrightarrow> Q \<longrightarrow> P" for P Q :: bool by simp
  have host: "''hostname'' \<noteq> ''hostname'' \<longrightarrow> P" for P by simp
  show ?thesis unfolding setters_def list.pred_inject prod.case
    by (intro conjI TrueI) ((rule host | rule drop, (rule keeps_nameI, erule setter_names) |
      rule drop, rule keeps_name_rbind, rule keeps_nameI, erule setter_names set_metadata_name |
      rule drop, rule keeps_name_rbind, rule keeps_name_update, simp | rule drop, rule keeps_name_update, simp | simp)+)
qed

lemma set_attr_name: "set_attr env k v x = Inr y \<Longrightarrow> k \<noteq> ''hostname'' \<Longrightarrow> same_name x y"
  using setters_keep_name [of env]
  by (auto simp: set_attr_def list_all_iff keeps_name_def split: option.splits dest!: map_of_SomeD)

text \<open>All attributes together: the new host name is one that the data give.\<close>

definition given_name :: "pydict \<Rightarrow> vm \<Rightarrow> string \<Rightarrow> bool" where
  "given_name d x h \<longleftrightarrow> h = v_hostname x \<or> (''hostname'', VStr h) \<in> set d"

lemma set_attr_row: "set_attr env k v x = Inr y \<Longrightarrow> same_row x y \<and> given_name [(k, v)] x (v_hostname y)"
proof (cases "k = ''hostname''")
  case True
  assume "set_attr env k v x = Inr y"
  moreover have "map_of (setters env) ''hostname'' = Some (\<lambda>v x. rbind (str_field v) (\<lambda>h. Inr (x\<lparr>v_hostname := h\<rparr>)))"
    by (simp add: setters_def)
  ultimately obtain h where "str_field v = Inr h" "y = x\<lparr>v_hostname := h\<rparr>" using True by (auto simp: set_attr_def rbind_Inr_iff)
  then show ?thesis using True by (auto simp: same_row_def given_name_def str_field_def split: pyval.splits)
next
  case False
  assume "set_attr env k v x = Inr y"
  from set_attr_name [OF this False] show ?thesis by (simp add: same_name_def given_name_def)
qed

lemma set_attrs_row: "set_attrs env d x = Inr y \<Longrightarrow> same_row x y \<and> given_name d x (v_hostname y)"
proof (induction d arbitrary: x)
  case Nil
  then show ?case by (simp add: given_name_def)
next
  case (Cons p d)
  obtain k v where p: "p = (k, v)" by force
  obtain z where z: "set_attr env k v x = Inr z" "set_attrs env d z = Inr y" using Cons.prems p by (auto simp: rbind_Inr_iff)
  from set_attr_row [OF z(1)] Cons.IH [OF z(2)] show ?case
    by (auto simp: p given_name_def dest: same_row_trans)
qed

lemma cache_fqdn_name: "same_name x (cache_fqdn env x)"
  unfolding cache_fqdn_def hostname_is_valid_fqdn_def by (simp split: option.split prod.split)

lemma restore_owner_name: "restore_owner attrs x = Inr y \<Longrightarrow> same_name x y"
  by (auto simp: restore_owner_def split: pyval.splits dest: setter_names)

lemma restore_template_name: "restore_template env attrs x json = Inr (y, d) \<Longrightarrow>
  same_name x y \<and> (d = [] \<or> (\<exists>t. d = df_vm_define env t))"
  by (auto simp: restore_template_def sync_from_template_def template_ostype_def rbind_Inr_iff split: pyval.splits option.splits)

lemma set_brand_name: "set_ostype i x = Inr y \<Longrightarrow> same_name x y" "set_hvm_type st i x = Inr y \<Longrightarrow> same_name x y"
  by (auto simp: set_ostype_def set_hvm_type_def save_item_def Let_def rbind_Inr_iff split: if_splits)

lemma restore_brand_name: "restore_brand env d x = Inr y \<Longrightarrow> same_name x y"
  by (auto simp: restore_brand_def rbind_Inr_iff split: option.splits intro: set_brand_name same_name_trans [OF set_brand_name(1) set_brand_name(2)])

lemma zone_disk_name: "zone_disk env ser x = Inr y \<Longrightarrow> same_name x y"
  by (auto simp: zone_disk_def split: if_splits option.splits dest: save_items_name)

lemma hostname_metadata_name: "hostname_metadata ser x = Inr y \<Longrightarrow> same_name x y"
  by (auto simp: hostname_metadata_def rbind_Inr_iff split: if_splits dest: set_metadata_name)

lemma set_dupdate: "set (dupdate d e) \<subseteq> set d \<union> set e"
proof (induction e arbitrary: d)
  case (Cons p e)
  obtain k v where p: "p = (k, v)" by force
  have "set (AList.update k v d) \<subseteq> insert (k, v) (set d)" by (induction d) auto
  with Cons.IH [of "AList.update k v d"] show ?case by (auto simp: dupdate_def p)
qed (simp add: dupdate_def)

definition plain_templates :: "def_env \<Rightarrow> bool" where
  "plain_templates env \<longleftrightarrow> (\<forall>t. \<not> dhas (df_vm_define env t) ''hostname'')"

lemma restore_object_row:
  assumes "restore_object env attrs ser = Inr y"
  shows "same_row (case dv_object ser of Some x \<Rightarrow> x | None \<Rightarrow> new_vm env) y"
    and "plain_templates env \<Longrightarrow> given_name attrs (case dv_object ser of Some x \<Rightarrow> x | None \<Rightarrow> new_vm env) (v_hostname y)"
proof -
  let ?x = "case dv_object ser of Some x \<Rightarrow> x | None \<Rightarrow> new_vm env"
  from assms obtain x0 json x2 td x3 x4 x5 where s: "restore_owner attrs ?x = Inr x0"
      "restore_template env attrs (cache_fqdn env x0) json = Inr (x2, td)"
      "restore_brand env (dupdate td attrs) x2 = Inr x3"
      "set_attrs env (filter (\<lambda>(k, _). k \<noteq> ''ostype'' \<and> k \<noteq> ''hvm_type'') (dupdate td attrs)) x3 = Inr x4"
      "zone_disk env ser x4 = Inr x5" "hostname_metadata ser x5 = Inr y"
    unfolding restore_object_def Let_def by (auto simp: rbind_Inr_iff)
  have a: "same_name ?x x3"
    using same_name_trans [OF restore_owner_name [OF s(1)] same_name_trans [OF cache_fqdn_name [of x0 env]
      same_name_trans [OF conjunct1 [OF restore_template_name [OF s(2)]] restore_brand_name [OF s(3)]]]] .
  have b: "same_name x4 y" using same_name_trans [OF zone_disk_name [OF s(5)] hostname_metadata_name [OF s(6)]] .
  note c = set_attrs_row [OF s(4)]
  show "same_row ?x y" using a b c by (meson same_name_row same_row_trans)
  assume t: "plain_templates env"
  have "(''hostname'', v) \<notin> set td" for v
    using restore_template_name [OF s(2)] t by (force simp: plain_templates_def dhas_iff map_of_eq_None_iff)
  then have "(''hostname'', v) \<in> set (filter (\<lambda>(k, _). k \<noteq> ''ostype'' \<and> k \<noteq> ''hvm_type'') (dupdate td attrs)) \<Longrightarrow> (''hostname'', v) \<in> set attrs" for v
    using set_dupdate [of td attrs] by auto
  then show "given_name attrs ?x (v_hostname y)" using a b c by (auto simp: given_name_def same_name_def)
qed

section \<open>Saving\<close>

text \<open>The change of the DNS records comes last and changes only the cached parts of the name.\<close>

definition quiet :: "effect list \<Rightarrow> bool" where
  "quiet es \<longleftrightarrow> list_all (\<lambda>e. case e of DbSave _ \<Rightarrow> False | CacheSet _ _ \<Rightarrow> False | _ \<Rightarrow> True) es"

lemma quiet_resources: "resources_only es \<Longrightarrow> quiet es"
  by (auto simp: resources_only_def quiet_def list_all_iff split: effect.splits)

lemma quiet_append [simp]: "quiet (es @ fs) = (quiet es \<and> quiet fs)" by (simp add: quiet_def)

lemma run_quiet: "quiet es \<Longrightarrow> foldl (run_effect y) s es = s\<lparr>ss_out := ss_out s @ map ResourcesUpdated es\<rparr>"
  by (induction es arbitrary: s) (auto simp: quiet_def run_effect_def split: effect.splits)

lemma update_hostname_frame:
  assumes "update_hostname dns domains records None x = Inr (b, y, es)"
  shows "same_name x y \<and> quiet es \<and> plain_vm y = plain_vm x"
proof -
  have fq: "same_name x (snd (hostname_is_valid_fqdn dns domains False x))"
      "plain_vm (snd (hostname_is_valid_fqdn dns domains False x)) = plain_vm x" for x
    unfolding hostname_is_valid_fqdn_def plain_vm_def by (simp_all split: option.split prod.split)
  have r: "quiet (concat (map (\<lambda>ip. DnsDelete u d ip # (if v then [DnsAdd nd h ip] else [])) ips))" for u d v nd h ips
    by (induction ips) (simp_all add: quiet_def)
  have n: "quiet []" by (simp add: quiet_def)
  from assms consider "y = x" "es = []"
    | h d z v where "hostname_is_valid_fqdn dns domains False x = (v, z)" "y = z"
        "es = concat (map (\<lambda>ip. DnsDelete (h @ ''.'' @ d) d ip # (if v then [DnsAdd (case v_fqdn_domain z of Some nd \<Rightarrow> nd | None \<Rightarrow> []) (v_hostname z) ip] else [])) (records (h @ ''.'' @ d) d))"
    unfolding update_hostname_def by (auto simp: Let_def split: if_splits option.splits prod.splits)
  then show ?thesis
  proof cases
    case 1
    then show ?thesis using n by simp
  next
    case 2
    then show ?thesis using fq [of x] r by simp
  qed
qed

lemma save_hostname_off:
  assumes "vm_save env a x = Inr (y, es)"
  obtains z es0 rest where "vm_save env (a\<lparr>sv_update_hostname := False\<rparr>) x = Inr (z, es0)" "es = es0 @ rest" "quiet rest"
    "same_name z y" "plain_vm y = plain_vm z"
proof -
  from assms obtain x1 x2 x3 x4 es1 ns es3 where s: "save_node_part env a x = Inr x1" "save_port_part env x1 = Inr x2"
      "save_json_part env a x2 = Inr x3" "StatusModel_save (e_now env) (sv_change_time a) (sv_fields a) x3 = Inr (x4, es1)"
      "(case sv_storages a of None \<Rightarrow> get_node_storages env (x4\<lparr>v_update_changed := False\<rparr>) | Some ns \<Rightarrow> Inr ns) = Inr ns"
      "save_hostname env a (save_finish (x4\<lparr>v_update_changed := False\<rparr>)) = Inr (y, es3)"
      "es = es1 @ map UpdateStorage ns @ node_effects a (x4\<lparr>v_update_changed := False\<rparr>) @ es3"
    unfolding vm_save_def Let_def by (auto simp: rbind_Inr_iff)
  let ?z = "save_finish (x4\<lparr>v_update_changed := False\<rparr>)"
  have e: "same_name ?z y \<and> quiet es3 \<and> plain_vm y = plain_vm ?z"
    using s(6) update_hostname_frame [of "e_dns env" "e_domains env" "e_records env" ?z]
    by (auto simp: save_hostname_def rbind_Inr_iff quiet_def split: if_splits)
  let ?a = "a\<lparr>sv_update_hostname := False\<rparr>"
  have off: "save_node_part env ?a x = Inr x1" "save_json_part env ?a x2 = Inr x3"
      "StatusModel_save (e_now env) (sv_change_time ?a) (sv_fields ?a) x3 = Inr (x4, es1)"
      "(case sv_storages ?a of None \<Rightarrow> get_node_storages env (x4\<lparr>v_update_changed := False\<rparr>) | Some ns \<Rightarrow> Inr ns) = Inr ns"
      "save_hostname env ?a ?z = Inr (?z, [])" "node_effects ?a = node_effects a"
    using s(1,3,4,5)
    by (simp_all add: save_node_part_def save_json_part_def save_hostname_def node_effects_def fun_eq_iff Let_def
        cong: if_cong split del: if_split)
  have "vm_save env ?a x = Inr (?z, es1 @ map UpdateStorage ns @ node_effects a (x4\<lparr>v_update_changed := False\<rparr>))"
    unfolding vm_save_def off s(2) rbind_simps prod.case Let_def by simp
  then show thesis using that e s(7) by force
qed

lemma StatusModel_save_name: "StatusModel_save now ct fs x = Inr (y, es) \<Longrightarrow> v_hostname y = v_hostname x"
  by (auto simp: StatusModel_save_def Let_def split: if_splits)

lemma vm_save_name:
  assumes "vm_save env a x = Inr (y, es)"
  shows "v_hostname y = v_hostname x"
proof -
  obtain z es0 rest where z: "vm_save env (a\<lparr>sv_update_hostname := False\<rparr>) x = Inr (z, es0)" "same_name z y"
    by (rule save_hostname_off [OF assms]) blast
  have "\<not> sv_update_hostname (a\<lparr>sv_update_hostname := False\<rparr>)" by simp
  from save_parts [OF z(1) this] obtain i p j x4 es1 where
      "StatusModel_save (e_now env) (sv_change_time (a\<lparr>sv_update_hostname := False\<rparr>)) (sv_fields (a\<lparr>sv_update_hostname := False\<rparr>))
         (x\<lparr>v_info := i, v_vnc_port := Some p, v_json := j\<rparr>) = Inr (x4, es1)" "z = save_finish (x4\<lparr>v_update_changed := False\<rparr>)" by blast
  from StatusModel_save_name [OF this(1)] this(2) z(2) show ?thesis by (simp add: save_finish_def same_name_def)
qed

text \<open>A save of the whole row, with or without a change of the name.\<close>

lemma st_save_whole:
  assumes "st_save env a x s = (Inr y, t)" "sv_fields a = None"
  shows "v_uuid y = v_uuid x \<and> v_hostname y = v_hostname x \<and> v_status y = v_status x \<and> v_orig_status y = v_status x \<and> plain_vm y
    \<and> (\<exists>w es. t = s\<lparr>ss_db := (ss_db s)(v_uuid x \<mapsto> y),
        ss_cache := (if v_status x \<noteq> v_orig_status x
          then (ss_cache s)(vm_status_key (v_uuid x) \<mapsto> VInt (v_status x), vm_status_change_key (v_uuid x) \<mapsto> w) else ss_cache s),
        ss_out := es\<rparr>)"
proof -
  obtain es where v: "vm_save (se_save env) a x = Inr (y, es)" and t: "t = foldl (run_effect y) s es"
    using assms by (auto simp: st_save_def split: sum.splits prod.splits)
  obtain z es0 rest where z: "vm_save (se_save env) (a\<lparr>sv_update_hostname := False\<rparr>) x = Inr (z, es0)" "es = es0 @ rest" "quiet rest"
      "same_name z y" "plain_vm y = plain_vm z" by (rule save_hostname_off [OF v])
  have "\<not> sv_update_hostname (a\<lparr>sv_update_hostname := False\<rparr>)" by simp
  note r = vm_save_result [OF z(1) this]
  have sf: "saves_status (a\<lparr>sv_update_hostname := False\<rparr>)" using assms(2) by (simp add: saves_status_def)
  have y: "v_uuid y = v_uuid x" "v_status y = v_status x" "v_orig_status y = v_status x" "plain_vm y"
    using r z(4,5) sf by (simp_all add: same_name_def same_row_def)
  obtain w rest' where e: "es0 = DbSave None # status_sets (a\<lparr>sv_update_hostname := False\<rparr>) x w @ rest'" "resources_only rest'"
    using r(5) assms(2) by auto
  have ro: "quiet (rest' @ rest)" using e(2) z(3) by (simp add: quiet_resources)
  have d: "run_effect y s (DbSave None) = s\<lparr>ss_db := (ss_db s)(v_uuid x \<mapsto> y)\<rparr>" by (simp add: run_effect_def y)
  have c: "foldl (run_effect y) s1 (status_sets (a\<lparr>sv_update_hostname := False\<rparr>) x w) = s1\<lparr>ss_cache := (if v_status x \<noteq> v_orig_status x
        then (ss_cache s1)(vm_status_key (v_uuid x) \<mapsto> VInt (v_status x), vm_status_change_key (v_uuid x) \<mapsto> w) else ss_cache s1)\<rparr>" for s1
    using sf by (simp add: status_sets_def run_effect_def)
  have "t = foldl (run_effect y) (foldl (run_effect y) (run_effect y s (DbSave None)) (status_sets (a\<lparr>sv_update_hostname := False\<rparr>) x w)) (rest' @ rest)"
    by (simp add: t z(2) e(1))
  also have "\<dots> = s\<lparr>ss_db := (ss_db s)(v_uuid x \<mapsto> y),
        ss_cache := (if v_status x \<noteq> v_orig_status x
          then (ss_cache s)(vm_status_key (v_uuid x) \<mapsto> VInt (v_status x), vm_status_change_key (v_uuid x) \<mapsto> w) else ss_cache s),
        ss_out := ss_out s @ map ResourcesUpdated (rest' @ rest)\<rparr>"
    unfolding d c run_quiet [OF ro] by simp
  finally show ?thesis using y vm_save_name [OF v] by blast
qed

section \<open>A change of a definition\<close>

text \<open>A change either has no effect or saves an object that was valid.\<close>

lemma if_vm_operational_result:
  assumes "if_vm_operational env x m s = (r, t)"
  shows "t = s \<and> (\<exists>e. r = Inl e) \<or> m s = (r, t)"
  using assms by (auto simp: if_vm_operational_def other_error_def api_error_def pres_def split: if_splits)

lemma def_put_result:
  assumes "def_put env x data s = (r, t)"
  obtains "t = s" "\<And>z. r \<noteq> Inr (Inr z)"
  | ser y z u es where "def_is_valid env (ss_db s) None (Some x) data = Inr (Inr (ser, y))"
      "st_save (df_status env) (def_save_args ser) y s = (Inr z, u)" "r = Inr (Inr z)" "t = u\<lparr>ss_out := es\<rparr>"
proof (cases "def_is_valid env (ss_db s) None (Some x) data")
  case (Inl e)
  then have "t = s" "\<And>z. r \<noteq> Inr (Inr z)" using if_vm_operational_result [OF assms [unfolded def_put_def]]
    by (auto simp: db_atomic_def pbind_def)
  then show ?thesis by (rule that(1))
next
  case (Inr v)
  show ?thesis
  proof (cases v)
    case (Inl es)
    then have "t = s" "\<And>z. r \<noteq> Inr (Inr z)" using if_vm_operational_result [OF assms [unfolded def_put_def]] Inr
      by (auto simp: db_atomic_def pbind_def pret_def)
    then show ?thesis by (rule that(1))
  next
    case p: (Inr p)
    obtain ser y where v: "def_is_valid env (ss_db s) None (Some x) data = Inr (Inr (ser, y))" using Inr p by (cases p) simp
    show ?thesis
    proof (cases "st_save (df_status env) (def_save_args ser) y s")
      case (Pair q u)
      show ?thesis
      proof (cases q)
        case (Inl e)
        then have "u = s" using st_save_failed Pair by blast
        then have "t = s" "\<And>z. r \<noteq> Inr (Inr z)" using if_vm_operational_result [OF assms [unfolded def_put_def]] v Pair Inl
          by (auto simp: db_atomic_def pbind_def)
        then show ?thesis by (rule that(1))
      next
        case z: (Inr z)
        have "u = u\<lparr>ss_out := ss_out u\<rparr>" by simp
        then have "\<exists>es. u = u\<lparr>ss_out := es\<rparr>" by blast
        then have "t = s \<and> (\<exists>e. r = Inl e) \<or> r = Inr (Inr z) \<and> (\<exists>es. t = u\<lparr>ss_out := es\<rparr>)"
          using if_vm_operational_result [OF assms [unfolded def_put_def]] v Pair z
          by (auto simp: db_atomic_def pbind_def pwhen_def out_def pmod_def pret_def split: if_splits)
        then show ?thesis
        proof
          assume "t = s \<and> (\<exists>e. r = Inl e)"
          then show ?thesis using that(1) by blast
        next
          assume "r = Inr (Inr z) \<and> (\<exists>es. t = u\<lparr>ss_out := es\<rparr>)"
          then show ?thesis using that(2) [OF v] Pair z by blast
        qed
      qed
    qed
  qed
qed

text \<open>The serializer keeps its object.\<close>

lemma resources_object: "validate_node_resources env hvm bhyve attrs ser = Inr (es, ser') \<Longrightarrow> dv_object ser' = dv_object ser"
  by (auto simp: validate_node_resources_def rbind_Inr_iff Let_def split: option.splits)

lemma check_parts:
  assumes "def_check env db post hvm bhyve data attrs ser = Inr (es, attrs', ser')"
  obtains "attrs' = attrs" "ser' = ser" "es \<noteq> []"
  | os zes nes where "attrs' = fix_monitored env (fix_owner env (dv_object ser) (fix_cpu_type (dv_object ser) os data attrs))"
      "zpool_errors env (fix_owner env (dv_object ser) (fix_cpu_type (dv_object ser) os data attrs)) ser = Inr zes"
      "es = template_errors env os (fix_owner env (dv_object ser) (fix_cpu_type (dv_object ser) os data attrs)) @ zes
         @ alias_errors env db (fix_owner env (dv_object ser) (fix_cpu_type (dv_object ser) os data attrs)) (dv_object ser)
         @ (if nes = [] then [] else [(''node'', nes)])"
      "validate_node_resources env hvm bhyve (fix_owner env (dv_object ser) (fix_cpu_type (dv_object ser) os data attrs)) ser = Inr (nes, ser')
        \<or> es \<noteq> [] \<and> ser' = ser"
proof (cases "post \<and> over_limit env db")
  case True
  then show ?thesis using assms that(1) by (auto simp: def_check_def)
next
  case False
  note c = assms(1) [unfolded def_check_def if_not_P [OF False] Let_def]
  from c obtain os where "rbind (zpool_errors env (fix_owner env (dv_object ser) (fix_cpu_type (dv_object ser) os data attrs)) ser) (\<lambda>zes.
      rbind (if template_errors env os (fix_owner env (dv_object ser) (fix_cpu_type (dv_object ser) os data attrs)) @ zes
           @ alias_errors env db (fix_owner env (dv_object ser) (fix_cpu_type (dv_object ser) os data attrs)) (dv_object ser) = []
         then validate_node_resources env hvm bhyve (fix_owner env (dv_object ser) (fix_cpu_type (dv_object ser) os data attrs)) ser else Inr ([], ser))
       (\<lambda>(nes, ser1). Inr ((template_errors env os (fix_owner env (dv_object ser) (fix_cpu_type (dv_object ser) os data attrs)) @ zes
           @ alias_errors env db (fix_owner env (dv_object ser) (fix_cpu_type (dv_object ser) os data attrs)) (dv_object ser))
          @ (if nes = [] then [] else [(''node'', nes)]), fix_monitored env (fix_owner env (dv_object ser) (fix_cpu_type (dv_object ser) os data attrs)), ser1)))
       = Inr (es, attrs', ser')" unfolding rbind_Inr_iff [of "wanted_ostype attrs (dv_object ser)"] by blast
  then obtain zes nes ser1 where z: "zpool_errors env (fix_owner env (dv_object ser) (fix_cpu_type (dv_object ser) os data attrs)) ser = Inr zes"
      "(if template_errors env os (fix_owner env (dv_object ser) (fix_cpu_type (dv_object ser) os data attrs)) @ zes
           @ alias_errors env db (fix_owner env (dv_object ser) (fix_cpu_type (dv_object ser) os data attrs)) (dv_object ser) = []
         then validate_node_resources env hvm bhyve (fix_owner env (dv_object ser) (fix_cpu_type (dv_object ser) os data attrs)) ser else Inr ([], ser))
       = Inr (nes, ser1)"
      "es = (template_errors env os (fix_owner env (dv_object ser) (fix_cpu_type (dv_object ser) os data attrs)) @ zes
           @ alias_errors env db (fix_owner env (dv_object ser) (fix_cpu_type (dv_object ser) os data attrs)) (dv_object ser))
          @ (if nes = [] then [] else [(''node'', nes)])"
      "attrs' = fix_monitored env (fix_owner env (dv_object ser) (fix_cpu_type (dv_object ser) os data attrs))" "ser1 = ser'"
    unfolding rbind_Inr_iff split_paired_Ex prod.case sum.inject prod.inject by blast
  show ?thesis
    by (rule that(2) [OF z(4,1), of nes]) (use z(2,3,5) in \<open>auto split: if_splits\<close>)
qed

lemma check_object:
  "def_check env db post hvm bhyve data attrs ser = Inr (es, attrs', ser') \<Longrightarrow> dv_object ser' = dv_object ser"
  by (erule check_parts) (auto dest: resources_object)

definition checks_attribute :: "def_env \<Rightarrow> (pydict \<Rightarrow> def_ser \<Rightarrow> (string list \<times> pydict \<times> def_ser) res) \<Rightarrow> bool" where
  "checks_attribute env m \<longleftrightarrow> (\<forall>attrs ser es attrs' ser'. m attrs ser = Inr (es, attrs', ser')
     \<longrightarrow> attrs' = attrs \<and> dv_object ser' = dv_object ser)"

lemma checks_simple:
  "checks_attribute env (accepts k f)" "checks_attribute env def_validate_zpool" "checks_attribute env (def_validate_ostype env)"
  unfolding checks_attribute_def accepts_def def_validate_zpool_def def_validate_ostype_def
  by (auto split: option.splits if_splits pyval.splits)

lemma checks_hvm_type: "checks_attribute env def_validate_hvm_type"
  unfolding checks_attribute_def def_validate_hvm_type_def Let_def by (auto split: option.splits if_splits)

lemma checks_list: "checks_attribute env (def_validate_list k al old msg)"
  unfolding checks_attribute_def def_validate_list_def by (auto simp: rbind_Inr_iff split: option.splits)

lemma checks_node: "checks_attribute env (def_validate_node env)"
  unfolding checks_attribute_def def_validate_node_def Let_def
  by (auto simp: rbind_Inr_iff split: option.splits bool.splits if_splits)

lemma checks_hostname: "checks_attribute env (def_validate_hostname env db)"
  unfolding checks_attribute_def def_validate_hostname_def Let_def other_error_def
  by (auto split: option.splits pyval.splits if_splits)

lemmas checks_attributes = checks_simple checks_hvm_type checks_list checks_node checks_hostname

definition checks_attributes_all :: "def_ser methods \<Rightarrow> bool" where
  "checks_attributes_all ms \<longleftrightarrow> (\<forall>k m attrs ser es attrs' ser'. ms k = Some m \<longrightarrow> m attrs ser = Inr (es, attrs', ser')
     \<longrightarrow> attrs' = attrs \<and> dv_object ser' = dv_object ser)"

lemma methods_check: "checks_attributes_all (def_methods env db fs)"
proof -
  have a: "list_all (\<lambda>(k, m). checks_attribute env m) ms \<Longrightarrow> checks_attributes_all (map_of ms)" for ms
    unfolding checks_attributes_all_def checks_attribute_def list_all_iff by (fastforce dest: map_of_SomeD)
  show ?thesis unfolding def_methods_def Let_def
    by (rule a) (simp only: list.pred_inject prod.case checks_attributes simp_thms)
qed

lemma validate_methods_ok:
  assumes "validate_methods ms part ks errors attrs ser = Inr ([], attrs', ser')" "checks_attributes_all ms"
  shows "errors = [] \<and> attrs' = attrs \<and> dv_object ser' = dv_object ser \<and> (\<forall>k m. k \<in> set ks \<longrightarrow> dhas attrs k \<longrightarrow> ms k = Some m
    \<longrightarrow> (\<exists>ser1 ser2. dv_object ser1 = dv_object ser \<and> m attrs ser1 = Inr ([], attrs, ser2)))"
  using assms
proof (induction ks arbitrary: errors attrs ser)
  case Nil
  then show ?case by simp
next
  case (Cons k ks)
  show ?case
  proof (cases "dhas errors k \<or> (part \<and> \<not> dhas attrs k) \<or> ms k = None")
    case True
    then have "validate_methods ms part ks errors attrs ser = Inr ([], attrs', ser')" using Cons.prems by (auto split: if_splits)
    from Cons.IH [OF this Cons.prems(2)] True show ?thesis by (auto simp: dhas_iff)
  next
    case False
    then obtain m where m: "ms k = Some m" by auto
    obtain es a1 s1 where r: "m attrs ser = Inr (es, a1, s1)"
        "validate_methods ms part ks (if es = [] then errors else errors @ [(k, es)]) a1 s1 = Inr ([], attrs', ser')"
      using Cons.prems False m by (auto simp: rbind_Inr_iff)
    have k: "a1 = attrs" "dv_object s1 = dv_object ser"
      using Cons.prems(2) m r(1) unfolding checks_attributes_all_def by blast+
    note ih = Cons.IH [OF r(2) Cons.prems(2)]
    then have "es = []" by (auto split: if_splits)
    with ih k r(1) m show ?thesis by auto
  qed
qed

text \<open>The attributes that reach the object: those that the fields gave, but for three that the check of the whole request sets.\<close>

lemma restore_fields_keys:
  "restore_fields env part fs data = Inr (errors, attrs) \<Longrightarrow> distinct (map fst fs)
    \<Longrightarrow> distinct (map fst attrs) \<and> fst ` set attrs \<subseteq> fst ` set fs"
proof (induction fs arbitrary: errors attrs)
  case (Cons p fs)
  obtain k f where p: "p = (k, f)" by force
  obtain r where r: "field_from_native env part f (map_of data k) = Inr r" using Cons.prems(1) p by (auto split: sum.splits)
  obtain errors1 attrs1 where q: "restore_fields env part fs data = Inr (errors1, attrs1)"
    using Cons.prems(1) p r by (auto simp: rbind_def split: sum.splits)
  have a: "attrs = (case r of Inr (Some w) \<Rightarrow> (k, w) # attrs1 | _ \<Rightarrow> attrs1)"
    using Cons.prems(1) p r q by (auto split: sum.splits option.splits)
  from Cons.IH [OF q] Cons.prems(2) show ?case unfolding a by (force simp: p split: sum.split option.split)
qed simp

lemma def_fields_distinct: "distinct (map fst (def_fields env hvm kvm))"
  by (cases hvm; cases kvm; simp add: def_fields_def Let_def)

lemma set_alist: "set (AList.update k v d) \<subseteq> insert (k, v) (set d)" "set (AList.delete k d) \<subseteq> set d"
  by (induction d) (auto simp: AList.delete_eq)

lemma alist_item: "(k, v) \<in> set (AList.update k' w d) \<Longrightarrow> k \<noteq> k' \<Longrightarrow> (k, v) \<in> set d" "(k, v) \<in> set (AList.delete k' d) \<Longrightarrow> (k, v) \<in> set d"
  using set_alist by fastforce+

lemma fixed_attrs:
  "(k, v) \<in> set (fix_owner env obj attrs) \<Longrightarrow> k \<noteq> ''owner'' \<Longrightarrow> (k, v) \<in> set attrs"
  "(k, v) \<in> set (fix_cpu_type obj os data attrs) \<Longrightarrow> k \<noteq> ''cpu_type'' \<Longrightarrow> (k, v) \<in> set attrs"
  "(k, v) \<in> set (fix_monitored env attrs) \<Longrightarrow> k \<noteq> ''monitored'' \<Longrightarrow> k \<noteq> ''monitored_internal'' \<Longrightarrow> (k, v) \<in> set attrs"
  unfolding fix_owner_def fix_cpu_type_def fix_monitored_def Let_def by (auto split: if_splits dest: alist_item)

lemma checked_attrs:
  assumes "def_check env db post hvm bhyve data attrs ser = Inr (es, attrs', ser')" "(k, v) \<in> set attrs'"
    "k \<noteq> ''owner''" "k \<noteq> ''cpu_type''" "k \<noteq> ''monitored''" "k \<noteq> ''monitored_internal''"
  shows "(k, v) \<in> set attrs"
  by (rule check_parts [OF assms(1)]) (use assms(2-) fixed_attrs in metis)+

text \<open>What a valid change says: the row stays, and a new name is free.\<close>

definition free_name :: "def_env \<Rightarrow> (string \<Rightarrow> vm option) \<Rightarrow> string \<Rightarrow> bool" where
  "free_name env db h \<longleftrightarrow> list_all (\<lambda>y. \<not> same_text (v_hostname y) h \<and> \<not> same_text (v_uuid y) h) (db_vms env db)"

lemma validate_hostname_free:
  assumes "def_validate_hostname env db attrs ser = Inr ([], attrs', ser')" "map_of attrs ''hostname'' = Some (VStr h)"
  shows "(case dv_object ser of Some x \<Rightarrow> v_hostname x = h \<or> v_uuid x = h | None \<Rightarrow> False) \<or> free_name env db h"
  using assms
  by (auto simp: def_validate_hostname_def other_error_def free_name_def list_all_iff list_ex_iff Let_def
      split: if_splits option.splits)

end
