(* ===== verification/Nic_Inv.thy ===== *)
theory Nic_Inv
  imports Nic_Define
begin

text \<open>
  Every address in the definition of a VM is a row of this VM in the table of addresses, so no two
  VMs have the same address; the operations on network cards keep this.
\<close>

section \<open>Addresses of a definition\<close>

text \<open>A dictionary has a key once.\<close>

abbreviation keys_once :: "'v dict \<Rightarrow> bool" where "keys_once d \<equiv> distinct (map fst d)"

lemma keys_once_dupdate [dict_simps]: "keys_once d \<Longrightarrow> keys_once (dupdate d e)"
proof (induction e arbitrary: d)
  case (Cons kv e)
  then show ?case by (cases kv) (simp add: dupdate_def dict_simps)
qed (simp add: dupdate_def)

lemma keys_once_delete [dict_simps]: "keys_once d \<Longrightarrow> keys_once (AList.delete k d)"
  by (simp add: distinct_delete)

lemma keys_once_foldl: "keys_once d \<Longrightarrow> keys_once (foldl (\<lambda>d k. AList.delete k d) d ks)"
  by (induction ks arbitrary: d) (simp_all add: dict_simps)

definition nic_address :: "pydict \<Rightarrow> (pyval \<times> pyval) option" where
  "nic_address nic = (if is_ip nic \<and> truthy (dget nic ''network_uuid'' VNone)
     then Some (dget nic ''ip'' VNone, dget nic ''network_uuid'' VNone) else None)"

definition nics_addresses :: "pydict list \<Rightarrow> (pyval \<times> pyval) list" where
  "nics_addresses nics = List.map_filter nic_address nics"

definition vm_addresses :: "vm \<Rightarrow> (pyval \<times> pyval) list" where
  "vm_addresses x = (case json_get_nics x of Inr nics \<Rightarrow> nics_addresses nics | Inl _ \<Rightarrow> [])"

definition row_key :: "ip_row \<Rightarrow> pyval \<times> pyval" where "row_key r = (VStr (ip_ip r), VStr (ip_subnet r))"

definition owned :: "ip_row list \<Rightarrow> string \<Rightarrow> pyval \<times> pyval \<Rightarrow> bool" where
  "owned rows u a \<longleftrightarrow> (\<exists>r \<in> set rows. row_key r = a \<and> ip_vm r = Some u)"

definition cards_once :: "vm \<Rightarrow> bool" where
  "cards_once x \<longleftrightarrow> (case json_get_nics x of Inr nics \<Rightarrow> list_all (\<lambda>d. keys_once d) nics | Inl _ \<Rightarrow> True)"

definition addr_inv :: "status_state \<Rightarrow> bool" where
  "addr_inv s \<longleftrightarrow> distinct (map row_key (ss_ips s))
     \<and> (\<forall>u x. ss_db s u = Some x \<longrightarrow> cards_once x \<and> distinct (vm_addresses x) \<and> (\<forall>a \<in> set (vm_addresses x). owned (ss_ips s) u a))"

text \<open>Only the definitions and the rows of addresses count.\<close>

definition defs_of :: "status_state \<Rightarrow> (string \<Rightarrow> pydict option) \<times> ip_row list" where
  "defs_of s = (\<lambda>u. map_option v_json (ss_db s u), ss_ips s)"

lemma vm_addresses_cong: "v_json x = v_json y \<Longrightarrow> vm_addresses x = vm_addresses y"
  by (simp add: vm_addresses_def json_get_nics_def)

lemma cards_once_cong: "v_json x = v_json y \<Longrightarrow> cards_once x = cards_once y"
  by (simp add: cards_once_def json_get_nics_def)

lemma addr_inv_defs: "defs_of t = defs_of s \<Longrightarrow> addr_inv s \<Longrightarrow> addr_inv t"
proof -
  assume d: "defs_of t = defs_of s" and s: "addr_inv s"
  have j: "map_option v_json (ss_db t u) = map_option v_json (ss_db s u)" for u
    using d by (auto simp: defs_of_def dest: fun_cong)
  have "\<exists>y. ss_db s u = Some y \<and> vm_addresses y = vm_addresses x \<and> cards_once y = cards_once x" if "ss_db t u = Some x" for u x
    using j [of u] that by (cases "ss_db s u") (auto dest: vm_addresses_cong cards_once_cong)
  moreover have "ss_ips t = ss_ips s" using d by (simp add: defs_of_def)
  ultimately show ?thesis using s by (fastforce simp: addr_inv_def)
qed

lemma owned_unique:
  assumes "distinct (map row_key rows)" "owned rows u a" "owned rows w a"
  shows "u = w"
proof -
  obtain p q where "p \<in> set rows" "row_key p = a" "ip_vm p = Some u" "q \<in> set rows" "row_key q = a" "ip_vm q = Some w"
    using assms(2,3) by (auto simp: owned_def)
  moreover have "inj_on row_key (set rows)" using assms(1) by (simp add: distinct_map)
  ultimately show ?thesis by (metis inj_onD option.inject)
qed

text \<open>Two VMs never have an address in common.\<close>

lemma addresses_exclusive:
  assumes "addr_inv s" "ss_db s u = Some x" "ss_db s w = Some y" "u \<noteq> w"
  shows "set (vm_addresses x) \<inter> set (vm_addresses y) = {}"
  using assms owned_unique [of "ss_ips s" u _ w] by (fastforce simp: addr_inv_def)

section \<open>What validation leaves\<close>

lemma next_step_Inr: "next_step m f = Inr (Inr p) \<longleftrightarrow> (\<exists>ser attrs. m = Inr (Inr (ser, attrs)) \<and> f ser attrs = Inr (Inr p))"
proof (cases m)
  case (Inr r)
  then show ?thesis by (cases r) (auto simp: next_step_def)
qed (simp add: next_step_def)

text \<open>The address that a step of validation leaves and the rest of what decides on the card.\<close>

definition same_choice :: "nic_ser \<Rightarrow> pydict \<Rightarrow> nic_ser \<Rightarrow> pydict \<Rightarrow> bool" where
  "same_choice ser attrs ser' attrs' \<longleftrightarrow> sr_net ser' = sr_net ser \<and> sr_net_old ser' = sr_net_old ser \<and> sr_object ser' = sr_object ser
     \<and> sr_ip ser' = sr_ip ser \<and> sr_ip_old ser' = sr_ip_old ser
     \<and> map_of attrs' ''ip'' = map_of attrs ''ip'' \<and> map_of attrs' ''net'' = map_of attrs ''net''
     \<and> map_of attrs' ''network_uuid'' = map_of attrs ''network_uuid'' \<and> (keys_once attrs \<longrightarrow> keys_once attrs')"

lemma same_choice_refl: "same_choice ser attrs ser attrs" by (simp add: same_choice_def)

lemma choose_allowed_same: "choose_allowed db rows x ser attrs = Inr (Inr (ser', attrs')) \<Longrightarrow> same_choice ser attrs ser' attrs'"
  by (auto simp: choose_allowed_def Let_def rbind_Inr_iff same_choice_def dict_simps split: pyval.splits if_splits)

lemma check_dhcp_same: "check_dhcp net ser attrs = Inr (Inr (ser', attrs')) \<Longrightarrow> same_choice ser attrs ser' attrs'"
  by (auto simp: check_dhcp_def rbind_Inr_iff same_choice_def split: if_splits)

lemma inherit_net_same:
  assumes "inherit_net env net ser attrs = Inr (Inr (ser', attrs'))"
  shows "same_choice ser attrs ser' attrs'"
proof -
  let ?a1 = "if sr_ip ser \<noteq> Dhcp
    then dupdate attrs [(''netmask'', VStr (sn_netmask net)), (''gateway'', str_or_none (sn_gateway net))] else attrs"
  obtain g t m where a: "attrs' = dupdate (if truthy g then ?a1 else AList.update ''gateway'' VNone ?a1)
        [(''vlan_id'', VInt (sn_vlan_id net)), (''nic_tag'', VStr t), (''mtu'', m)]"
      and s: "ser' = (case map_of attrs' ''use_net_dns'' of None \<Rightarrow> ser
               | Some v \<Rightarrow> if truthy v then ser\<lparr>sr_resolvers := VList (map VStr (get_resolvers net))\<rparr>
                   else if sr_object ser \<noteq> None then ser\<lparr>sr_resolvers := ne_default_resolvers env\<rparr> else ser)"
    using assms unfolding inherit_net_def Let_def rbind_Inr_iff sum.inject prod.inject by blast
  have "map_of attrs' k = map_of attrs k" if "k \<in> {''ip'', ''net'', ''network_uuid''}" for k
    using that by (auto simp: a dict_simps map_add_def)
  moreover have "keys_once attrs \<longrightarrow> keys_once attrs'" by (simp add: a dict_simps)
  moreover have "sr_net ser' = sr_net ser \<and> sr_net_old ser' = sr_net_old ser \<and> sr_object ser' = sr_object ser
      \<and> sr_ip ser' = sr_ip ser \<and> sr_ip_old ser' = sr_ip_old ser"
    by (simp add: s split: option.split)
  ultimately show ?thesis by (simp add: same_choice_def)
qed

lemma find_free_ip_cases:
  assumes "find_free_ip env rows net ser attrs = Inr (Inr (ser', attrs'))"
  shows "(is_addr (sr_ip ser) \<and> ser' = ser \<and> attrs' = attrs)
    \<or> (\<not> is_addr (sr_ip ser) \<and> sn_dhcp_passthrough net \<and> ser' = ser\<lparr>sr_ip := Dhcp\<rparr>
        \<and> attrs' = dupdate attrs [(''ip'', VNone), (''netmask'', VNone), (''gateway'', VNone)])
    \<or> (\<not> is_addr (sr_ip ser) \<and> (\<exists>r \<in> set rows. ip_subnet r = sn_uuid net \<and> ip_vm r = None \<and> ser' = ser\<lparr>sr_ip := Addr r\<rparr>
        \<and> attrs' = AList.update ''ip'' (VStr (ip_ip r)) attrs))"
proof (cases "is_addr (sr_ip ser) \<or> sn_dhcp_passthrough net")
  case True
  then show ?thesis using assms by (auto simp: find_free_ip_def split: if_splits)
next
  case False
  define free where "free = free_ips rows net (case dget attrs ''allowed_ips'' (VList []) of VList vs \<Rightarrow> vs | _ \<Rightarrow> [])"
  have f: "free \<noteq> []" "ser' = ser\<lparr>sr_ip := Addr (free ! (ne_pick env (length free) mod length free))\<rparr>"
    "attrs' = AList.update ''ip'' (VStr (ip_ip (free ! (ne_pick env (length free) mod length free)))) attrs"
    using assms False by (auto simp: find_free_ip_def Let_def free_def [symmetric] split: if_splits)
  have "free ! (ne_pick env (length free) mod length free) \<in> set free" using f(1) by simp
  then show ?thesis using f False by (auto simp: free_def free_ips_def)
qed

lemma find_ip_Some: "find_ip rows ip net = Some r \<Longrightarrow> r \<in> set rows \<and> VStr (ip_ip r) = ip \<and> (\<exists>n. net = Some n \<and> ip_subnet r = sn_uuid n)"
  by (auto simp: find_ip_def find_Some_iff split: option.splits)

lemma choose_ip_cases:
  assumes "choose_ip db rows x ser attrs = Inr (Inr (ser', attrs'))"
  shows "(ser' = ser \<and> attrs' = attrs \<and> sr_net_old ser = None
        \<and> (map_of attrs ''ip'' = None \<or> (\<exists>r. sr_ip ser = Addr r \<and> map_of attrs ''ip'' = Some (VStr (ip_ip r)))))
    \<or> (\<exists>r \<in> set rows. \<exists>n. sr_net ser = Some n \<and> ip_subnet r = sn_uuid n
        \<and> ser' = ser\<lparr>sr_ip_old := (case sr_ip ser of Addr q \<Rightarrow> if same_ip r q then sr_ip_old ser else Addr q | _ \<Rightarrow> sr_ip_old ser), sr_ip := Addr r\<rparr>
        \<and> attrs' = AList.update ''ip'' (VStr (ip_ip r)) attrs)
    \<or> (ser' = ser\<lparr>sr_ip_old := sr_ip ser, sr_ip := NoAddr\<rparr> \<and> attrs' = attrs)"
proof (cases "dhas attrs ''ip'' \<and> truthy (dget attrs ''ip'' (VBool True))")
  case True
  then obtain v where v: "map_of attrs ''ip'' = Some v" "dget attrs ''ip'' (VBool True) = v" "truthy v"
    by (auto simp: dhas_iff dict_simps)
  show ?thesis
  proof (cases "sr_object ser \<noteq> None \<and> sr_net_old ser = None \<and> map_option VStr (addr_ip (sr_ip ser)) = Some v")
    case True
    then have "\<exists>r. sr_ip ser = Addr r \<and> v = VStr (ip_ip r)" by (auto simp: addr_ip_def split: nic_addr.splits)
    then show ?thesis using assms True v by (auto simp: choose_ip_def Let_def dhas_iff split: if_splits)
  next
    case False
    obtain r where r: "find_ip rows v (sr_net ser) = Some r"
      using assms False v by (cases "find_ip rows v (sr_net ser)") (auto simp: choose_ip_def Let_def dhas_iff split: if_splits)
    then show ?thesis using assms False v find_ip_Some [OF r]
      by (auto simp: choose_ip_def Let_def dhas_iff rbind_Inr_iff split: if_splits option.splits)
  qed
next
  case False
  then show ?thesis using assms
    by (auto simp: choose_ip_def Let_def dhas_iff dget_def truthy_def split: if_splits option.splits)
qed

text \<open>
  The three results of validation: the card keeps its address, gets one from DHCP or gets a row of
  its network; an address that it had before is remembered unless it is kept.
\<close>

definition kept_addr :: "nic_ser \<Rightarrow> nic_ser \<Rightarrow> pydict \<Rightarrow> bool" where
  "kept_addr ser ser' attrs' \<longleftrightarrow> (\<exists>r. sr_ip ser = Addr r \<and> sr_ip ser' = Addr r \<and> sr_net_old ser = None \<and> sr_ip_old ser' = NoAddr
     \<and> map_of attrs' ''ip'' \<in> {None, Some (VStr (ip_ip r))})"

definition remembers :: "nic_ser \<Rightarrow> nic_ser \<Rightarrow> (ip_row \<Rightarrow> bool) \<Rightarrow> bool" where
  "remembers ser ser' P \<longleftrightarrow> sr_ip_old ser' \<in> {NoAddr, sr_ip ser} \<and> (\<forall>q. sr_ip ser = Addr q \<longrightarrow> sr_ip_old ser' = Addr q \<or> P q)"

definition dhcp_addr :: "subnet \<Rightarrow> nic_ser \<Rightarrow> nic_ser \<Rightarrow> pydict \<Rightarrow> bool" where
  "dhcp_addr net ser ser' attrs' \<longleftrightarrow> sr_ip ser' = Dhcp \<and> sn_dhcp_passthrough net \<and> map_of attrs' ''ip'' = Some VNone
     \<and> remembers ser ser' (\<lambda>_. False)"

definition new_addr :: "ip_row list \<Rightarrow> subnet \<Rightarrow> nic_ser \<Rightarrow> nic_ser \<Rightarrow> pydict \<Rightarrow> bool" where
  "new_addr rows net ser ser' attrs' \<longleftrightarrow> (\<exists>r \<in> set rows. ip_subnet r = sn_uuid net \<and> sr_ip ser' = Addr r
     \<and> map_of attrs' ''ip'' = Some (VStr (ip_ip r)) \<and> ip_ip r \<noteq> [] \<and> remembers ser ser' (same_ip r))"

lemma validated_addr:
  assumes "choose_ip db rows x ser attrs = Inr (Inr (ser1, attrs1))" "same_choice ser1 attrs1 ser3 attrs3"
    "find_free_ip env rows net ser3 attrs3 = Inr (Inr (ser4, attrs4))" "sr_net ser = Some net" "sr_ip_old ser = NoAddr"
    "\<not> (is_addr (sr_ip ser4) \<and> \<not> truthy (dget attrs4 ''ip'' (VBool True)))"
  shows "kept_addr ser ser4 attrs4 \<or> dhcp_addr net ser ser4 attrs4 \<or> new_addr rows net ser ser4 attrs4"
proof -
  have s: "sr_ip ser3 = sr_ip ser1" "sr_ip_old ser3 = sr_ip_old ser1" "map_of attrs3 ''ip'' = map_of attrs1 ''ip''"
    using assms(2) by (simp_all add: same_choice_def)
  have ne: "ip_ip r \<noteq> []" if "sr_ip ser4 = Addr r" "map_of attrs4 ''ip'' = Some (VStr (ip_ip r))" for r
    using assms(6) that by (auto simp: is_addr_def dget_def truthy_def)
  note free = find_free_ip_cases [OF assms(3)]
  from choose_ip_cases [OF assms(1)] show ?thesis
  proof (elim disjE)
    assume a: "ser1 = ser \<and> attrs1 = attrs \<and> sr_net_old ser = None
        \<and> (map_of attrs ''ip'' = None \<or> (\<exists>r. sr_ip ser = Addr r \<and> map_of attrs ''ip'' = Some (VStr (ip_ip r))))"
    show ?thesis
    proof (cases "sr_ip ser")
      case (Addr r)
      then have "ser4 = ser3" "attrs4 = attrs3" using free s a by (auto simp: is_addr_def)
      then show ?thesis using a s Addr assms(5) by (auto simp: kept_addr_def)
    next
      case NoAddr
      then show ?thesis using free s a assms(5) ne
        by (auto simp: is_addr_def dhcp_addr_def new_addr_def remembers_def dict_simps map_add_def)
    next
      case Dhcp
      then show ?thesis using free s a assms(5) ne
        by (auto simp: is_addr_def dhcp_addr_def new_addr_def remembers_def dict_simps map_add_def)
    qed
  next
    assume "\<exists>r \<in> set rows. \<exists>n. sr_net ser = Some n \<and> ip_subnet r = sn_uuid n
        \<and> ser1 = ser\<lparr>sr_ip_old := (case sr_ip ser of Addr q \<Rightarrow> if same_ip r q then sr_ip_old ser else Addr q | _ \<Rightarrow> sr_ip_old ser), sr_ip := Addr r\<rparr>
        \<and> attrs1 = AList.update ''ip'' (VStr (ip_ip r)) attrs"
    then obtain r where r: "r \<in> set rows" "ip_subnet r = sn_uuid net" "sr_ip ser1 = Addr r"
        "sr_ip_old ser1 = (case sr_ip ser of Addr q \<Rightarrow> if same_ip r q then sr_ip_old ser else Addr q | _ \<Rightarrow> sr_ip_old ser)"
        "map_of attrs1 ''ip'' = Some (VStr (ip_ip r))"
      using assms(4) by (auto simp: dict_simps)
    then have "ser4 = ser3" "attrs4 = attrs3" using free s by (auto simp: is_addr_def)
    then have "new_addr rows net ser ser4 attrs4"
      using r s ne [of r] assms(5) unfolding new_addr_def remembers_def by (auto split: nic_addr.splits if_splits)
    then show ?thesis by simp
  next
    assume a: "ser1 = ser\<lparr>sr_ip_old := sr_ip ser, sr_ip := NoAddr\<rparr> \<and> attrs1 = attrs"
    then show ?thesis using free s ne
      by (auto simp: is_addr_def dhcp_addr_def new_addr_def remembers_def dict_simps map_add_def)
  qed
qed

lemma nic_validate_addr:
  assumes "nic_validate env db rows x ser attrs = Inr (Inr (ser', attrs'))" "sr_ip_old ser = NoAddr"
  shows "\<exists>net. sr_net ser = Some net \<and> sr_net ser' = Some net \<and> sr_object ser' = sr_object ser
    \<and> map_of attrs' ''net'' = map_of attrs ''net'' \<and> map_of attrs' ''network_uuid'' = map_of attrs ''network_uuid''
    \<and> (keys_once attrs \<longrightarrow> keys_once attrs')
    \<and> (kept_addr ser ser' attrs' \<or> dhcp_addr net ser ser' attrs' \<or> new_addr rows net ser ser' attrs')"
proof -
  obtain net where n: "sr_net ser = Some net" using assms(1) by (auto simp: nic_validate_def split: option.splits)
  obtain ser1 attrs1 ser2 attrs2 ser3 attrs3 ser4 attrs4 where
    c: "choose_ip db rows x ser attrs = Inr (Inr (ser1, attrs1))" and
    a: "choose_allowed db rows x ser1 attrs1 = Inr (Inr (ser2, attrs2))" "check_dhcp net ser2 attrs2 = Inr (Inr (ser3, attrs3))" and
    f: "find_free_ip env rows net ser3 attrs3 = Inr (Inr (ser4, attrs4))" and
    t: "\<not> (is_addr (sr_ip ser4) \<and> \<not> truthy (dget attrs4 ''ip'' (VBool True)))" and
    i: "inherit_net env net ser4 attrs4 = Inr (Inr (ser', attrs'))"
    using assms(1) unfolding nic_validate_def n option.case next_step_Inr by (auto split: if_splits)
  have s: "same_choice ser1 attrs1 ser3 attrs3"
    using choose_allowed_same [OF a(1)] check_dhcp_same [OF a(2)] by (simp add: same_choice_def)
  have l: "same_choice ser4 attrs4 ser' attrs'" by (rule inherit_net_same [OF i])
  have r: "kept_addr ser ser4 attrs4 \<or> dhcp_addr net ser ser4 attrs4 \<or> new_addr rows net ser ser4 attrs4"
    by (rule validated_addr [OF c s f n assms(2) t])
  have r': "kept_addr ser ser' attrs' \<or> dhcp_addr net ser ser' attrs' \<or> new_addr rows net ser ser' attrs'"
    using r l by (simp add: kept_addr_def dhcp_addr_def new_addr_def remembers_def same_choice_def)
  have k: "sr_net ser1 = sr_net ser \<and> sr_object ser1 = sr_object ser
      \<and> map_of attrs1 ''net'' = map_of attrs ''net'' \<and> map_of attrs1 ''network_uuid'' = map_of attrs ''network_uuid''
      \<and> (keys_once attrs \<longrightarrow> keys_once attrs1)"
    using choose_ip_cases [OF c] by (auto simp: dict_simps)
  have k4: "sr_net ser4 = sr_net ser3 \<and> sr_object ser4 = sr_object ser3
      \<and> map_of attrs4 ''net'' = map_of attrs3 ''net'' \<and> map_of attrs4 ''network_uuid'' = map_of attrs3 ''network_uuid''
      \<and> (keys_once attrs3 \<longrightarrow> keys_once attrs4)"
    using find_free_ip_cases [OF f] by (auto simp: dict_simps map_add_def)
  show ?thesis using r' k k4 s l n by (auto simp: same_choice_def)
qed

lemma validate_net_cases:
  assumes "validate_net env x ser attrs = Inr ([], ser1)" "sr_net_old ser = None"
  shows "sr_ip ser1 = sr_ip ser \<and> sr_ip_old ser1 = sr_ip_old ser \<and> sr_object ser1 = sr_object ser
    \<and> (sr_net ser1 = sr_net ser \<or> (\<exists>name. map_of attrs ''net'' = Some (VStr name) \<and> name \<noteq> []))
    \<and> (sr_object ser \<noteq> None \<and> sr_net_old ser1 = None
         \<longrightarrow> sr_net ser = None \<or> map_option sn_uuid (sr_net ser1) = map_option sn_uuid (sr_net ser))"
proof (cases "map_of attrs ''net''")
  case None
  then show ?thesis using assms by (simp add: validate_net_def)
next
  case (Some v)
  show ?thesis
  proof (cases "\<exists>name. v = VStr name \<and> name \<noteq> []")
    case False
    then have "ser1 = ser" using assms(1) Some by (auto simp: validate_net_def split: pyval.splits if_splits)
    then show ?thesis by simp
  next
    case True
    then obtain name where v: "v = VStr name" "name \<noteq> []" by blast
    then show ?thesis
      using assms Some
      by (auto simp: validate_net_def rbind_Inr_iff split: option.splits if_splits)
  qed
qed

lemma nic_is_valid_addr:
  assumes "nic_is_valid env db rows x i ser attrs = Inr (Inr ser')" "sr_ip_old ser = NoAddr" "sr_net_old ser = None"
  shows "\<exists>net ser1 attrs'. sr_net ser' = Some net
    \<and> sr_object ser' = Some (case sr_object ser of Some d \<Rightarrow> dupdate d attrs' | None \<Rightarrow> attrs')
    \<and> map_of attrs' ''net'' = map_of attrs ''net'' \<and> map_of attrs' ''network_uuid'' = map_of attrs ''network_uuid''
    \<and> (keys_once attrs \<longrightarrow> keys_once attrs') \<and> sr_ip ser1 = sr_ip ser
    \<and> (sr_net ser = Some net \<or> (\<exists>name. map_of attrs ''net'' = Some (VStr name) \<and> name \<noteq> []))
    \<and> (sr_object ser \<noteq> None \<and> sr_net_old ser1 = None \<longrightarrow> sr_net ser = None \<or> map_option sn_uuid (sr_net ser) = Some (sn_uuid net))
    \<and> (kept_addr ser1 ser' attrs' \<or> dhcp_addr net ser1 ser' attrs' \<or> new_addr rows net ser1 ser' attrs')"
proof -
  obtain ser1 r where f: "validate_fields env x i ser attrs = Inr ([], ser1)"
    and r: "nic_validate env db rows x ser1 attrs = Inr r" "(case r of
           Inl es \<Rightarrow> Inl es
         | Inr (ser2, attrs2) \<Rightarrow> Inr (ser2\<lparr>sr_object := Some (case sr_object ser2 of
               Some d \<Rightarrow> dupdate d attrs2 | None \<Rightarrow> attrs2)\<rparr>)) = Inr ser'"
    using assms(1) by (auto simp: nic_is_valid_def rbind_Inr_iff split: if_splits)
  obtain ser2 attrs2 where v: "nic_validate env db rows x ser1 attrs = Inr (Inr (ser2, attrs2))"
    and s: "ser' = ser2\<lparr>sr_object := Some (case sr_object ser2 of Some d \<Rightarrow> dupdate d attrs2 | None \<Rightarrow> attrs2)\<rparr>"
  proof (cases r)
    case (Inr p)
    then show ?thesis using r that by (cases p) simp
  qed (use r in simp)
  have n: "validate_net env x ser attrs = Inr ([], ser1)" using f by (auto simp: validate_fields_def rbind_Inr_iff)
  note c = validate_net_cases [OF n assms(3)]
  have old: "sr_ip_old ser1 = NoAddr" using c assms(2) by simp
  obtain net where w: "sr_net ser1 = Some net" "sr_net ser2 = Some net" "sr_object ser2 = sr_object ser1"
      "map_of attrs2 ''net'' = map_of attrs ''net''" "map_of attrs2 ''network_uuid'' = map_of attrs ''network_uuid''"
      "keys_once attrs \<longrightarrow> keys_once attrs2"
      "kept_addr ser1 ser2 attrs2 \<or> dhcp_addr net ser1 ser2 attrs2 \<or> new_addr rows net ser1 ser2 attrs2"
    using nic_validate_addr [OF v old] by blast
  have "kept_addr ser1 ser' attrs2 \<or> dhcp_addr net ser1 ser' attrs2 \<or> new_addr rows net ser1 ser' attrs2"
    using w(7) by (simp add: s kept_addr_def dhcp_addr_def new_addr_def remembers_def)
  moreover have "sr_net ser' = Some net \<and> sr_object ser' = Some (case sr_object ser of Some d \<Rightarrow> dupdate d attrs2 | None \<Rightarrow> attrs2)"
    using w c by (simp add: s)
  moreover have "sr_ip ser1 = sr_ip ser \<and> (sr_net ser = Some net \<or> (\<exists>name. map_of attrs ''net'' = Some (VStr name) \<and> name \<noteq> []))
    \<and> (sr_object ser \<noteq> None \<and> sr_net_old ser1 = None \<longrightarrow> sr_net ser = None \<or> map_option sn_uuid (sr_net ser) = Some (sn_uuid net))"
    using c w(1) by (cases "sr_net ser") auto
  ultimately show ?thesis using w(4-6) by blast
qed

section \<open>The card that is stored\<close>

lemma map_of_foldl_other: "k \<notin> set ks \<Longrightarrow> map_of (foldl (\<lambda>d k. AList.delete k d) d ks) k = map_of d k"
  by (induction ks arbitrary: d) (auto simp: dict_simps)

lemma jsondata_get:
  assumes "sr_object ser = Some d" "sr_net ser = Some net"
  shows "map_of (jsondata ser) ''ip'' = (if \<not> truthy (dget d ''ip'' VNone) \<and> sn_dhcp_passthrough net then Some (VStr ''dhcp'') else map_of d ''ip'')"
    "map_of (jsondata ser) ''network_uuid'' = (if truthy (dget d ''net'' VNone) then Some (VStr (sn_uuid net)) else map_of d ''network_uuid'')"
proof -
  define d1 where "d1 = (case map_of d ''net'' of None \<Rightarrow> d | Some v \<Rightarrow>
      if truthy v then AList.update ''network_uuid'' (VStr (sn_uuid net)) (AList.delete ''net'' d) else AList.delete ''net'' d)"
  define d2 where "d2 = foldl (\<lambda>d k. AList.delete k d) d1 [''dns'', ''use_net_dns'', ''monitoring'', ''set_gateway'']"
  have j: "jsondata ser = (if \<not> truthy (dget d2 ''ip'' VNone) \<and> sn_dhcp_passthrough net
      then AList.delete ''gateway'' (AList.delete ''netmask'' (AList.update ''ip'' (VStr ''dhcp'') d2)) else d2)"
    unfolding jsondata_def assms option.case Let_def d2_def d1_def by (rule refl)
  have g: "map_of d2 ''ip'' = map_of d ''ip''" 
    "map_of d2 ''network_uuid'' = (if truthy (dget d ''net'' VNone) then Some (VStr (sn_uuid net)) else map_of d ''network_uuid'')"
    unfolding d2_def by (subst map_of_foldl_other, simp, simp add: d1_def dict_simps dget_def truthy_def split: option.split)+
  show "map_of (jsondata ser) ''ip'' = (if \<not> truthy (dget d ''ip'' VNone) \<and> sn_dhcp_passthrough net then Some (VStr ''dhcp'') else map_of d ''ip'')"
    using g(1) by (simp add: j dict_simps dget_def)
  show "map_of (jsondata ser) ''network_uuid'' = (if truthy (dget d ''net'' VNone) then Some (VStr (sn_uuid net)) else map_of d ''network_uuid'')"
    using g by (simp add: j dict_simps dget_def)
qed

lemma jsondata_keys: "sr_object ser = Some d \<Longrightarrow> keys_once d \<Longrightarrow> keys_once (jsondata ser)"
proof -
  assume s: "sr_object ser = Some d" and d: "keys_once d"
  define d1 where "d1 = (case map_of d ''net'' of
              None \<Rightarrow> d
            | Some v \<Rightarrow> (if truthy v then AList.update ''network_uuid'' (VStr (case sr_net ser of Some n \<Rightarrow> sn_uuid n | None \<Rightarrow> []))
                                            (AList.delete ''net'' d) else AList.delete ''net'' d))"
  have "keys_once d1" using d unfolding d1_def by (cases "map_of d ''net''") (simp_all add: dict_simps)
  then show ?thesis
    unfolding jsondata_def s option.case d1_def [symmetric] Let_def
    by (simp add: keys_once_foldl dict_simps del: foldl_Cons cong: if_cong)
qed

lemma nic_attrs_keys: "keys_once data \<Longrightarrow> keys_once (nic_attrs data)"
  by (simp add: nic_attrs_def distinct_map_filter)

lemma nic_address_of: "dget nic ''ip'' VNone = i \<Longrightarrow> dget nic ''network_uuid'' VNone = n \<Longrightarrow> nic_address nic \<in> {None, Some (i, n)}"
  by (simp add: nic_address_def)

lemma no_address: "map_of nic ''ip'' = Some (VStr ''dhcp'') \<Longrightarrow> nic_address nic = None"
  by (simp add: nic_address_def is_ip_def dget_def)

lemma nic_attrs_network: "map_of (nic_attrs data) ''network_uuid'' = None"
  by (auto simp: nic_attrs_def map_of_eq_None_iff NIC_FIELDS_def INSECURE_ATTRS_def)

text \<open>A card as it is read for a change.\<close>

lemma rbindE: "rbind m f = Inr y \<Longrightarrow> (\<And>a. m = Inr a \<Longrightarrow> f a = Inr y \<Longrightarrow> thesis) \<Longrightarrow> thesis"
  by (cases m) simp_all

lemma rbind_pairE:
  "rbind m (\<lambda>(a, b). f a b) = Inr y \<Longrightarrow> (\<And>a b. m = Inr (a, b) \<Longrightarrow> f a b = Inr y \<Longrightarrow> thesis) \<Longrightarrow> thesis"
  by (cases m) auto

lemma fix_net_keys: "fix_net env d = Inr (net, e) \<Longrightarrow> keys_once d \<Longrightarrow> keys_once e"
  by (auto simp: fix_net_def other_error_def dict_simps split: if_splits option.splits)

lemma fix_ip_cases:
  assumes "fix_ip rows net d = Inr (addr, e)"
  shows "(addr = NoAddr \<and> e = d \<and> \<not> truthy (dget d ''ip'' VNone)) \<or> (addr = Dhcp \<and> dget d ''ip'' VNone = VStr ''dhcp'' \<and> e = dupdate d [(''ip'', VNone), (''netmask'', VNone), (''gateway'', VNone)])
    \<or> (\<exists>r. truthy (dget d ''ip'' VNone) \<and> find_ip rows (dget d ''ip'' VNone) net = Some r \<and> addr = Addr r \<and> e = d)"
  using assms by (simp add: fix_ip_def Let_def other_error_def split: if_splits option.splits)

lemma fix_ip_get:
  assumes "fix_ip rows net d = Inr (addr, e)"
  shows "map_of e ''ip'' = (if addr = Dhcp then Some VNone else map_of d ''ip'') \<and> map_of e ''network_uuid'' = map_of d ''network_uuid''"
  using fix_ip_cases [OF assms] by (auto simp: dict_simps map_add_def)

lemma fix_ip_keys: "fix_ip rows net d = Inr (addr, e) \<Longrightarrow> keys_once d \<Longrightarrow> keys_once e"
  by (drule fix_ip_cases) (auto simp: dict_simps)

lemma fix_allowed_keys: "fix_allowed rows net d = Inr (ips, e) \<Longrightarrow> keys_once d \<Longrightarrow> keys_once e"
  by (auto simp: fix_allowed_def dict_simps split: pyval.splits)

lemma set_default_keys: "keys_once d \<Longrightarrow> keys_once (set_default_item k v d)"
  by (simp add: set_default_item_def dict_simps)

lemma fix_before_facts:
  assumes "fix_before env rows x nic = Inr ser"
  shows "sr_ip_old ser = NoAddr" "sr_net_old ser = None"
    "\<exists>d. sr_object ser = Some d \<and> map_of d ''ip'' = (if sr_ip ser = Dhcp then Some VNone else map_of nic ''ip'')
       \<and> (sr_net ser \<noteq> None \<longrightarrow> map_of d ''network_uuid'' = None) \<and> (keys_once nic \<longrightarrow> keys_once d)"
    "sr_net ser = Some n \<Longrightarrow> dget nic ''network_uuid'' VNone = VStr (sn_uuid n)"
    "sr_ip ser = Addr q \<Longrightarrow> q \<in> set rows \<and> row_key q = (dget nic ''ip'' VNone, dget nic ''network_uuid'' VNone)
       \<and> truthy (dget nic ''ip'' VNone) \<and> truthy (dget nic ''network_uuid'' VNone) \<and> sr_net ser \<noteq> None"
    "nic_address nic \<noteq> None \<Longrightarrow> \<exists>q. sr_ip ser = Addr q"
proof -
  obtain net d1 addr d2 ips d3 mon where
    f: "fix_net env nic = Inr (net, d1)" and
    i: "fix_ip rows net (set_default_item ''primary'' (VBool False)
         (set_default_item ''mtu'' VNone (set_default_item ''vlan_id'' (VInt 0) d1))) = Inr (addr, d2)" and
    a: "fix_allowed rows net d2 = Inr (ips, d3)" and
    s0: "Inr ser = (let ip = dget d2 ''ip'' VNone;
          dns = (if truthy ip \<and> valid_fqdn env x
                 then filter (\<lambda>(_, c). VStr c = ip) (ne_records_A env (v_hostname x) (fqdn_domain env x)) else []);
          net_dns = (case net of Some n \<Rightarrow> py_eq (VList (map VStr (get_resolvers n))) (resolvers x) | None \<Rightarrow> False)
      in (Inr ((new_nic_ser x)\<lparr>sr_net := net, sr_ip := addr, sr_ips := ips, sr_dns := dns, sr_monitoring_old := py_eq mon ip,
           sr_object := Some (dupdate d3 [(''dns'', VBool (dns \<noteq> [])), (''use_net_dns'', VBool net_dns),
             (''monitoring'', VBool (py_eq mon ip)), (''set_gateway'', VBool (truthy (dget d3 ''gateway'' VNone)))])\<rparr>) :: nic_ser res))"
    using assms unfolding fix_before_def by (elim rbind_pairE rbindE) (rule that, assumption+, rule sym)
  have s: "sr_ip_old ser = NoAddr" "sr_net_old ser = None" "sr_net ser = net" "sr_ip ser = addr"
    using s0 by (simp_all add: Let_def new_nic_ser_def)
  obtain v w m g where o: "sr_object ser = Some (dupdate d3 [(''dns'', v), (''use_net_dns'', w), (''monitoring'', m), (''set_gateway'', g)])"
    using s0 by (simp add: Let_def)
  have n: "map_of d1 ''ip'' = map_of nic ''ip''" "net \<noteq> None \<Longrightarrow> map_of d1 ''network_uuid'' = None"
    "net = Some n \<Longrightarrow> dget nic ''network_uuid'' VNone = VStr (sn_uuid n) \<and> truthy (dget nic ''network_uuid'' VNone)" for n
    using f by (auto simp: fix_net_def other_error_def find_subnet_def find_Some_iff dict_simps split: if_splits option.splits)
  let ?d = "set_default_item ''primary'' (VBool False) (set_default_item ''mtu'' VNone (set_default_item ''vlan_id'' (VInt 0) d1))"
  have d: "map_of ?d k = map_of d1 k" if "k \<in> {''ip'', ''network_uuid''}" for k
    using that by (auto simp: set_default_item_def dict_simps)
  have d2: "map_of d2 ''ip'' = (if addr = Dhcp then Some VNone else map_of nic ''ip'')" "map_of d2 ''network_uuid'' = map_of d1 ''network_uuid''"
    using fix_ip_get [OF i] d n(1) by simp_all
  have d3: "map_of d3 ''ip'' = map_of d2 ''ip''" "map_of d3 ''network_uuid'' = map_of d2 ''network_uuid''"
    using a by (auto simp: fix_allowed_def dict_simps split: pyval.splits)
  have k: "keys_once nic \<Longrightarrow> keys_once d3"
    using fix_allowed_keys [OF a] fix_ip_keys [OF i] fix_net_keys [OF f] set_default_keys by blast
  show "sr_ip_old ser = NoAddr" "sr_net_old ser = None" by (rule s(1), rule s(2))
  show "\<exists>d. sr_object ser = Some d \<and> map_of d ''ip'' = (if sr_ip ser = Dhcp then Some VNone else map_of nic ''ip'')
       \<and> (sr_net ser \<noteq> None \<longrightarrow> map_of d ''network_uuid'' = None) \<and> (keys_once nic \<longrightarrow> keys_once d)"
    using s(3,4) o d2 d3 n(2) k by (auto simp: dict_simps map_add_def)
  show "dget nic ''network_uuid'' VNone = VStr (sn_uuid n)" if "sr_net ser = Some n" using n(3) [of n] s(3) that by simp
  have ip: "dget ?d ''ip'' VNone = dget nic ''ip'' VNone" using d [of "''ip''"] n(1) by (simp add: dget_def)
  show "\<exists>q. sr_ip ser = Addr q" if "nic_address nic \<noteq> None"
  proof -
    have "truthy (dget nic ''ip'' VNone) \<and> dget nic ''ip'' VNone \<noteq> VStr ''dhcp''"
      using that by (auto simp: nic_address_def is_ip_def split: if_splits)
    then show ?thesis using fix_ip_cases [OF i] s(4) unfolding ip by blast
  qed
  show "q \<in> set rows \<and> row_key q = (dget nic ''ip'' VNone, dget nic ''network_uuid'' VNone)
       \<and> truthy (dget nic ''ip'' VNone) \<and> truthy (dget nic ''network_uuid'' VNone) \<and> sr_net ser \<noteq> None" if "sr_ip ser = Addr q"
  proof -
    have t: "truthy (dget nic ''ip'' VNone)" "find_ip rows (dget nic ''ip'' VNone) net = Some q"
      using fix_ip_cases [OF i] that s(4) unfolding ip by auto
    then show ?thesis using find_ip_Some [OF t(2)] n(3) s(3) by (auto simp: row_key_def)
  qed
qed

text \<open>What a change makes of a card.\<close>

definition card_result :: "ip_row list \<Rightarrow> nic_ser \<Rightarrow> nic_ser \<Rightarrow> pydict \<Rightarrow> bool" where
  "card_result rows ser ser' nic \<longleftrightarrow>
     (\<exists>r \<in> set rows. sr_ip ser = Addr r \<and> sr_ip ser' = Addr r \<and> sr_ip_old ser' = NoAddr \<and> nic_address nic \<in> {None, Some (row_key r)})
   \<or> (sr_ip ser' = Dhcp \<and> nic_address nic = None \<and> remembers ser ser' (\<lambda>_. False))
   \<or> (\<exists>r \<in> set rows. sr_ip ser' = Addr r \<and> nic_address nic \<in> {None, Some (row_key r)} \<and> remembers ser ser' (same_ip r))"

lemma put_card:
  assumes "fix_before env rows x nic = Inr ser"
    "nic_is_valid env db rows x i ser (nic_attrs data) = Inr (Inr ser')" "keys_once nic" "keys_once data"
  shows "card_result rows ser ser' (dupdate nic (jsondata ser'))"
proof -
  note f = fix_before_facts [OF assms(1)]
  obtain d where d: "sr_object ser = Some d" "map_of d ''ip'' = (if sr_ip ser = Dhcp then Some VNone else map_of nic ''ip'')"
      "sr_net ser \<noteq> None \<Longrightarrow> map_of d ''network_uuid'' = None" "keys_once d"
    using f(3) assms(3) by blast
  obtain net ser1 attrs' where v: "sr_net ser' = Some net" "sr_object ser' = Some (dupdate d attrs')"
      "map_of attrs' ''net'' = map_of (nic_attrs data) ''net''" "map_of attrs' ''network_uuid'' = None" "sr_ip ser1 = sr_ip ser"
      "sr_net ser = Some net \<or> (\<exists>name. map_of (nic_attrs data) ''net'' = Some (VStr name) \<and> name \<noteq> [])"
      "sr_net_old ser1 = None \<longrightarrow> sr_net ser = None \<or> map_option sn_uuid (sr_net ser) = Some (sn_uuid net)"
      "kept_addr ser1 ser' attrs' \<or> dhcp_addr net ser1 ser' attrs' \<or> new_addr rows net ser1 ser' attrs'" "keys_once attrs'"
    using nic_is_valid_addr [OF assms(2) f(1,2), unfolded d(1) option.case nic_attrs_network] nic_attrs_keys [OF assms(4)]
    by blast
  let ?d = "dupdate d attrs'" and ?c = "dupdate nic (jsondata ser')"
  note j = jsondata_get [OF v(2,1)]
  have kj [simp]: "keys_once (jsondata ser')" by (rule jsondata_keys [OF v(2)]) (simp add: d(4) dict_simps)
  note [simp] = v(9) and [simp del] = map_of_eq_Some_iff
  have net: "dget ?c ''network_uuid'' VNone = VStr (sn_uuid net)"
    if c: "truthy (dget ?d ''net'' VNone) \<or> (\<exists>n. sr_net ser = Some n \<and> sn_uuid n = sn_uuid net)"
  proof (cases "truthy (dget ?d ''net'' VNone)")
    case True
    then show ?thesis using j(2) by (simp add: dget_def dict_simps map_add_def)
  next
    case False
    then obtain n where n: "sr_net ser = Some n" "sn_uuid n = sn_uuid net" using c by blast
    have "map_of (jsondata ser') ''network_uuid'' = None" using j(2) False d(3) n(1) v(4) by (simp add: dict_simps map_add_def)
    then show ?thesis using f(4) [OF n(1)] n(2) by (simp add: dget_def dict_simps map_add_def)
  qed
  have tn: "truthy (dget ?d ''net'' VNone) \<or> sr_net ser = Some net"
    using v(3,6) by (auto simp: dget_def dict_simps map_add_def truthy_def)
  have ip: "dget ?c ''ip'' VNone = w" if "map_of ?d ''ip'' = Some w" "truthy w" for w
    using j(1) that by (simp add: dget_def dict_simps map_add_def)
  from v(8) show ?thesis
  proof (elim disjE)
    assume "kept_addr ser1 ser' attrs'"
    then obtain r where r: "sr_ip ser = Addr r" "sr_ip ser' = Addr r" "sr_net_old ser1 = None" "sr_ip_old ser' = NoAddr"
        "map_of attrs' ''ip'' \<in> {None, Some (VStr (ip_ip r))}"
      using v(5) by (auto simp: kept_addr_def)
    note q = f(5) [OF r(1)]
    have nic: "map_of nic ''ip'' = Some (VStr (ip_ip r))" using q by (auto simp: row_key_def dget_def split: option.splits)
    have "map_of ?d ''ip'' = Some (VStr (ip_ip r))" using r(1,5) d(2) nic by (auto simp: dict_simps map_add_def)
    moreover have "truthy (VStr (ip_ip r))" using q by (simp add: row_key_def)
    ultimately have a: "dget ?c ''ip'' VNone = VStr (ip_ip r)" by (rule ip)
    obtain n where n: "sr_net ser = Some n" "sn_uuid n = sn_uuid net" using v(7) r(3) q by auto
    have "dget ?c ''network_uuid'' VNone = VStr (ip_subnet r)" using net n f(4) [OF n(1)] q by (auto simp: row_key_def)
    then have "nic_address ?c \<in> {None, Some (row_key r)}" unfolding row_key_def by (rule nic_address_of [OF a])
    then show ?thesis using r q unfolding card_result_def by blast
  next
    assume k: "dhcp_addr net ser1 ser' attrs'"
    then have "map_of attrs' ''ip'' = Some VNone" "sn_dhcp_passthrough net" by (simp_all add: dhcp_addr_def del: map_of_eq_Some_iff)
    then have "map_of ?d ''ip'' = Some VNone" "sn_dhcp_passthrough net" by (simp_all add: dict_simps map_add_def del: map_of_eq_Some_iff)
    then have "map_of ?c ''ip'' = Some (VStr ''dhcp'')" using j(1) by (simp add: dget_def dict_simps map_add_def truthy_def)
    then have "nic_address ?c = None" by (rule no_address)
    then show ?thesis using k v(5) by (simp add: card_result_def dhcp_addr_def remembers_def)
  next
    assume "new_addr rows net ser1 ser' attrs'"
    then obtain r where r: "r \<in> set rows" "ip_subnet r = sn_uuid net" "sr_ip ser' = Addr r"
        "map_of attrs' ''ip'' = Some (VStr (ip_ip r))" "ip_ip r \<noteq> []" "remembers ser ser' (same_ip r)"
      using v(5) by (auto simp: new_addr_def remembers_def)
    have "map_of ?d ''ip'' = Some (VStr (ip_ip r))" "truthy (VStr (ip_ip r))"
      using r(4,5) by (simp_all add: dict_simps map_add_def truthy_def)
    then have a: "dget ?c ''ip'' VNone = VStr (ip_ip r)" by (rule ip)
    have "dget ?c ''network_uuid'' VNone = VStr (ip_subnet r)" unfolding r(2) by (rule net) (use tn in auto)
    then have "nic_address ?c \<in> {None, Some (row_key r)}" unfolding row_key_def by (rule nic_address_of [OF a])
    then show ?thesis using r unfolding card_result_def by blast
  qed
qed

lemma post_card:
  assumes "nic_is_valid env db rows x i (new_nic_ser x) (nic_attrs data) = Inr (Inr ser')" "keys_once data"
  shows "card_result rows (new_nic_ser x) ser' (jsondata ser')" "keys_once (jsondata ser')"
proof -
  have n: "sr_ip_old (new_nic_ser x) = NoAddr" "sr_net_old (new_nic_ser x) = None" "sr_object (new_nic_ser x) = None"
      "sr_ip (new_nic_ser x) = NoAddr" "sr_net (new_nic_ser x) = None"
    by (simp_all add: new_nic_ser_def)
  obtain net ser1 attrs' name where v: "sr_net ser' = Some net" "sr_object ser' = Some attrs'"
      "map_of attrs' ''net'' = map_of (nic_attrs data) ''net''" "sr_ip ser1 = NoAddr"
      "map_of (nic_attrs data) ''net'' = Some (VStr name)" "name \<noteq> []" "keys_once attrs'"
      "kept_addr ser1 ser' attrs' \<or> dhcp_addr net ser1 ser' attrs' \<or> new_addr rows net ser1 ser' attrs'"
    using nic_is_valid_addr [OF assms(1) n(1,2), unfolded n option.case] nic_attrs_keys [OF assms(2)] by blast
  show "keys_once (jsondata ser')" by (rule jsondata_keys [OF v(2,7)])
  note j = jsondata_get [OF v(2,1)] and [simp del] = map_of_eq_Some_iff
  have net: "dget (jsondata ser') ''network_uuid'' VNone = VStr (sn_uuid net)"
    using j(2) v(3,5,6) by (simp add: dget_def truthy_def)
  from v(8) show "card_result rows (new_nic_ser x) ser' (jsondata ser')"
  proof (elim disjE)
    assume "kept_addr ser1 ser' attrs'"
    then show ?thesis using v(4) by (auto simp: kept_addr_def)
  next
    assume k: "dhcp_addr net ser1 ser' attrs'"
    then have "map_of attrs' ''ip'' = Some VNone" "sn_dhcp_passthrough net" by (simp_all add: dhcp_addr_def)
    then have "map_of (jsondata ser') ''ip'' = Some (VStr ''dhcp'')" using j(1) by (simp add: dget_def truthy_def)
    then have "nic_address (jsondata ser') = None" by (rule no_address)
    then show ?thesis using k v(4) by (simp add: card_result_def dhcp_addr_def remembers_def n)
  next
    assume "new_addr rows net ser1 ser' attrs'"
    then obtain r where r: "r \<in> set rows" "ip_subnet r = sn_uuid net" "sr_ip ser' = Addr r"
        "map_of attrs' ''ip'' = Some (VStr (ip_ip r))" "ip_ip r \<noteq> []" "remembers (new_nic_ser x) ser' (same_ip r)"
      using v(4) by (auto simp: new_addr_def remembers_def n)
    have "map_of (jsondata ser') ''ip'' = Some (VStr (ip_ip r))" using j(1) r(4,5) by (simp add: dget_def truthy_def)
    then have "dget (jsondata ser') ''ip'' VNone = VStr (ip_ip r)" by (simp add: dget_def)
    from nic_address_of [OF this net] have "nic_address (jsondata ser') \<in> {None, Some (row_key r)}"
      by (simp add: row_key_def r(2))
    then show ?thesis using r unfolding card_result_def by blast
  qed
qed

end
