(* ===== verification/Nic_Safe.thy ===== *)
theory Nic_Safe
  imports Nic_Inv
begin

text \<open>
  The requests on network cards keep the addresses of the definitions among the rows that belong to
  their VMs, so two VMs never get the same address, apart from a card that gets its first address by
  a change: that address is left without an owner and can be given away again.
\<close>

section \<open>Owners of addresses\<close>

type_synonym owner_list = "((pyval \<times> pyval) \<times> string option) list"

definition owners :: "ip_row list \<Rightarrow> owner_list" where
  "owners rows = map (\<lambda>r. (row_key r, ip_vm r)) rows"

definition set_owner :: "pyval \<times> pyval \<Rightarrow> string option \<Rightarrow> owner_list \<Rightarrow> owner_list" where
  "set_owner a w K = map (\<lambda>(k, v). (k, if k = a then w else v)) K"

lemma row_keys_owners: "map row_key rows = map fst (owners rows)"
  by (simp add: owners_def comp_def)

lemma owned_owners: "owned rows u a \<longleftrightarrow> (a, Some u) \<in> set (owners rows)"
  by (auto simp: owned_def owners_def image_iff)

lemma set_owner_keys [simp]: "map fst (set_owner a w K) = map fst K"
  by (simp add: set_owner_def comp_def case_prod_beta)

lemma in_set_owner: "(b, v) \<in> set (set_owner a w K) \<longleftrightarrow> (if b = a then a \<in> fst ` set K \<and> v = w else (b, v) \<in> set K)"
  by (force simp: set_owner_def image_iff)

lemma same_ip_key: "same_ip r q \<longleftrightarrow> row_key q = row_key r"
  by (auto simp: same_ip_def row_key_def)

text \<open>States in which only the owners, the definitions and the cache count.\<close>

definition frozen :: "owner_list \<Rightarrow> (string \<Rightarrow> vm option) \<Rightarrow> (string \<Rightarrow> pyval option) \<Rightarrow> status_state \<Rightarrow> bool" where
  "frozen K D C s \<longleftrightarrow> owners (ss_ips s) = K \<and> ss_db s = D \<and> ss_cache s = C"

definition cached :: "(string \<Rightarrow> pyval option) \<Rightarrow> status_state \<Rightarrow> bool" where "cached C s \<longleftrightarrow> ss_cache s = C"

lemma frozen_cached: "frozen K D C s \<Longrightarrow> cached C s" by (simp add: frozen_def cached_def)

lemma frozen_out [keeps_intros]: "keeps (frozen K D C) (dns_call m d)"
  unfolding dns_call_def out_def by (rule keeps_pmod) (simp add: frozen_def)

lemma frozen_map_ips: "(\<And>q. row_key (f q) = row_key q \<and> ip_vm (f q) = ip_vm q) \<Longrightarrow> keeps (frozen K D C) (map_ips f)"
  unfolding map_ips_def by (rule keeps_pmod) (simp add: frozen_def owners_def comp_def)

lemma frozen_vms [keeps_intros]: "keeps (frozen K D C) (vms_remove r u)" "keeps (frozen K D C) (vms_add r u)"
  by (simp_all add: vms_remove_def vms_add_def frozen_map_ips row_key_def)

lemma frozen_dns [keeps_intros]:
  "keeps (frozen K D C) (save_a env x r dns delete)" "keeps (frozen K D C) (save_ptr env x r p delete)"
  by (auto simp: save_a_def save_ptr_def Let_def intro!: keeps_intros)

lemma frozen_with_addr [keeps_intros]: "(\<And>r. keeps P (f r)) \<Longrightarrow> keeps P (with_addr a f)"
  by (cases a) (simp_all add: with_addr_def keeps_pure)

lemma frozen_many [keeps_intros]:
  "keeps (frozen K D C) (remove_vm_ip_association x r True)" "keeps (frozen K D C) (update_vm_ip_association x r delete True)"
  by (auto simp: remove_vm_ip_association_def create_vm_ip_association_def update_vm_ip_association_def intro!: keeps_intros)

lemma frozen_rest: "keeps (frozen K D C) (save_allowed_rows x ser delete)" "keeps (frozen K D C) (save_dns env x ser delete)"
  by (auto simp: save_allowed_rows_def save_dns_def Let_def intro!: keeps_intros)

text \<open>What \<open>save_ip\<close> does to the owner of an address.\<close>

definition detach :: "vm \<Rightarrow> nic_addr \<Rightarrow> owner_list \<Rightarrow> owner_list" where
  "detach x a K = (case a of
     Addr r \<Rightarrow> if ip_usage r = USAGE_VM_REAL \<and> is_deployed x then K else set_owner (row_key r) None K
   | _ \<Rightarrow> K)"

definition attach :: "vm \<Rightarrow> nic_addr \<Rightarrow> owner_list \<Rightarrow> owner_list" where
  "attach x a K = (case a of Addr r \<Rightarrow> set_owner (row_key r) (Some (v_uuid x)) K | _ \<Rightarrow> K)"

definition saved_owners :: "vm \<Rightarrow> nic_ser \<Rightarrow> bool \<Rightarrow> bool \<Rightarrow> owner_list \<Rightarrow> owner_list" where
  "saved_owners x ser delete update K =
     (if update \<and> \<not> is_addr (sr_ip_old ser) then K
      else (if delete then detach else attach) x (sr_ip ser) (detach x (sr_ip_old ser) K))"

definition attachable :: "nic_ser \<Rightarrow> bool \<Rightarrow> bool \<Rightarrow> bool" where
  "attachable ser delete update \<longleftrightarrow> delete \<or> (update \<and> \<not> is_addr (sr_ip_old ser)) \<or> (\<forall>r. sr_ip ser = Addr r \<longrightarrow> ip_vm r = None)"

lemma ip_save_owner: "triple (frozen K D C) (ip_save (r\<lparr>ip_vm := w\<rparr>)) (\<lambda>_. frozen (set_owner (row_key r) w K) D C) (cached C)"
  unfolding ip_save_def map_ips_def
  by (rule triple_pmod) (auto simp: frozen_def owners_def set_owner_def same_ip_key row_key_def)

lemma triple_frozen: "keeps (frozen K D C) m \<Longrightarrow> triple (frozen K D C) m (\<lambda>_. frozen K D C) (cached C)"
  by (rule tripleI) (auto dest: keepsD frozen_cached)

lemma detach_triple:
  "triple (frozen K D C) (with_addr a (\<lambda>r. remove_vm_ip_association x r False)) (\<lambda>_. frozen (detach x a K) D C) (cached C)"
  by (cases a) (auto simp: with_addr_def remove_vm_ip_association_def detach_def intro!: triple_pret ip_save_owner)

lemma attach_triple:
  "triple (frozen K D C) (with_addr a (\<lambda>r. create_vm_ip_association x r False))
     (\<lambda>_ s. frozen (attach x a K) D C s \<and> (\<forall>r. a = Addr r \<longrightarrow> ip_vm r = None)) (cached C)"
proof (cases a)
  case (Addr r)
  show ?thesis
  proof (cases "ip_vm r = None")
    case True
    then show ?thesis using ip_save_owner by (simp add: Addr with_addr_def create_vm_ip_association_def attach_def)
  next
    case False
    then show ?thesis
      by (auto simp: Addr with_addr_def create_vm_ip_association_def other_error_def frozen_cached intro!: triple_pres)
  qed
qed (auto simp: with_addr_def attach_def intro!: triple_pret)

lemma frozen_ptr: "keeps (frozen K D C) (with_addr a (\<lambda>r. if row_ptr_domain env r \<noteq> [] then save_ptr env x r (row_ptr_domain env r) True else pret ()))"
  "keeps (frozen K D C) (with_addr a (\<lambda>r. case sr_net ser of
     Some n \<Rightarrow> if sn_ptr_domain n \<noteq> [] then save_ptr env x r (sn_ptr_domain n) delete else pret () | None \<Rightarrow> pret ()))"
  by (intro keeps_intros)+

lemma save_ip_rows_triple:
  "triple (frozen K D C) (save_ip_rows env x ser delete update)
     (\<lambda>_ s. frozen (saved_owners x ser delete update K) D C s \<and> attachable ser delete update) (cached C)"
proof (cases "update \<and> \<not> is_addr (sr_ip_old ser)")
  case True
  then show ?thesis unfolding save_ip_rows_def by (auto simp: saved_owners_def attachable_def intro!: triple_pret)
next
  case False
  let ?K1 = "detach x (sr_ip_old ser) K"
  let ?K2 = "(if delete then detach else attach) x (sr_ip ser) ?K1"
  have a: "triple (frozen ?K1 D C) (with_addr (sr_ip ser) (\<lambda>r. update_vm_ip_association x r delete False))
      (\<lambda>_ s. frozen ?K2 D C s \<and> attachable ser delete update) (cached C)"
  proof (cases delete)
    case True
    then show ?thesis using detach_triple [of ?K1 D C "sr_ip ser" x]
      by (simp add: update_vm_ip_association_def attachable_def)
  next
    case False
    show ?thesis unfolding update_vm_ip_association_def if_not_P [OF False]
      by (rule triple_conseq [OF attach_triple]) (auto simp: attachable_def False)
  qed
  have k: "triple (\<lambda>s. frozen ?K2 D C s \<and> attachable ser delete update) m
      (\<lambda>_ s. frozen ?K2 D C s \<and> attachable ser delete update) (cached C)" if "keeps (frozen ?K2 D C) m" for m :: "unit sprog"
    using triple_frozen [OF that] unfolding triple_def by (fastforce split: prod.splits sum.splits)
  have s: "saved_owners x ser delete update K = ?K2" unfolding saved_owners_def if_not_P [OF False] by (rule refl)
  show ?thesis unfolding save_ip_rows_def if_not_P [OF False] s
    by (rule triple_pbind [OF detach_triple], rule triple_pbind [OF a], rule triple_pbind [OF k])
      (rule frozen_ptr k [OF frozen_ptr(2)])+
qed

lemma save_ip_triple:
  "triple (frozen K D C) (save_ip env x ser delete update)
     (\<lambda>_ s. frozen (saved_owners x ser delete update K) D C s \<and> attachable ser delete update) (cached C)"
proof -
  let ?Q = "\<lambda>s. frozen (saved_owners x ser delete update K) D C s \<and> attachable ser delete update"
  have k: "triple ?Q m (\<lambda>_. ?Q) (cached C)" if "keeps (frozen (saved_owners x ser delete update K) D C) m" for m :: "unit sprog"
    using triple_frozen [OF that] unfolding triple_def by (fastforce split: prod.splits sum.splits)
  show ?thesis unfolding save_ip_def
    by (rule triple_if, rule triple_pres, simp, simp add: frozen_cached,
        rule triple_pbind [OF save_ip_rows_triple], rule triple_pbind [OF k])
      (rule frozen_rest k [OF frozen_rest(2)])+
qed

section \<open>The saved definition\<close>

lemma drop_falsy_get: "k \<noteq> j \<Longrightarrow> map_of (drop_falsy j d) k = map_of d k"
  by (simp add: drop_falsy_def dict_simps split: option.split)

lemma drop_falsy_keys: "keys_once d \<Longrightarrow> keys_once (drop_falsy k d)"
  by (simp add: drop_falsy_def dict_simps split: option.split)

lemma clean_nic_get: "k \<in> {''ip'', ''network_uuid''} \<Longrightarrow> map_of (clean_nic x i nic) k = map_of nic k"
  unfolding clean_nic_def Let_def NICS_REMOVE_EMPTY_def
  by (auto simp: drop_falsy_get dict_simps)

lemma clean_nic_keys: "keys_once nic \<Longrightarrow> keys_once (clean_nic x i nic)"
  unfolding clean_nic_def Let_def NICS_REMOVE_EMPTY_def
  by (simp add: drop_falsy_keys dict_simps)

lemma clean_nic_address [simp]: "nic_address (clean_nic x i nic) = nic_address nic"
  by (simp add: nic_address_def is_ip_def dget_def clean_nic_get)

lemma dict_list_of_map: "dict_list (map VDict ds) = Inr ds"
  by (induction ds) simp_all

lemma save_nics_json:
  assumes "save_nics nics mon x = Inr y"
  shows "json_get_nics y = Inr (map (\<lambda>(i, n). clean_nic x i n) (enumerate 0 nics))" "\<exists>d. y = x\<lparr>v_json := d\<rparr>"
proof -
  obtain z where z: "(case mon of None \<Rightarrow> Inr x | Some ip \<Rightarrow> set_monitoring_ip ip x) = Inr z"
    and y: "y = z\<lparr>v_json := AList.update ''nics'' (VList (map VDict (map (\<lambda>(i, n). clean_nic x i n) (enumerate 0 nics)))) (v_json z)\<rparr>"
    using assms by (auto simp: save_nics_def rbind_Inr_iff save_item_def Let_def)
  have "\<exists>d. z = x\<lparr>v_json := d\<rparr>" using z
    by (cases mon) (auto simp: set_monitoring_ip_def save_metadata_def save_item_def rbind_Inr_iff intro: exI [of _ "v_json x"])
  then show "\<exists>d. y = x\<lparr>v_json := d\<rparr>" using y by auto
  show "json_get_nics y = Inr (map (\<lambda>(i, n). clean_nic x i n) (enumerate 0 nics))"
    unfolding y by (simp add: json_get_nics_def get_dicts_def dget_def dict_simps dict_list_of_map del: map_map)
qed

lemma nics_addresses_clean: "nics_addresses (map (\<lambda>(i, n). clean_nic x i n) (enumerate j nics)) = nics_addresses nics"
  by (induction nics arbitrary: j) (simp_all add: nics_addresses_def List.map_filter_simps split: option.split)

lemma keys_once_clean: "list_all (\<lambda>d. keys_once d) nics \<Longrightarrow> list_all (\<lambda>d. keys_once d) (map (\<lambda>(i, n). clean_nic x i n) (enumerate j nics))"
  by (induction nics arbitrary: j) (simp_all add: clean_nic_keys)

definition card_addresses :: "vm \<Rightarrow> (pyval \<times> pyval) option list" where
  "card_addresses x = (case json_get_nics x of Inr nics \<Rightarrow> map nic_address nics | Inl _ \<Rightarrow> [])"

lemma card_addresses_clean: "map nic_address (map (\<lambda>(i, n). clean_nic x i n) (enumerate j nics)) = map nic_address nics"
  by (induction nics arbitrary: j) simp_all

lemma st_save_nics:
  assumes "current x s" "set_resolvers v x = Inr y \<or> y = x"
    "save_vm_nics env y nics mon s = (Inr z, t)"
  shows "t = s\<lparr>ss_db := (ss_db s)(v_uuid x \<mapsto> z)\<rparr>" "v_uuid z = v_uuid x" "vm_addresses z = nics_addresses nics"
    "list_all (\<lambda>d. keys_once d) nics \<Longrightarrow> cards_once z" "plain_vm z" "v_status z = v_status x" "is_deployed z = is_deployed x"
    "card_addresses z = map nic_address nics"
proof -
  obtain w where w: "save_nics nics mon y = Inr w" "st_save (ae_status (ne_api env)) full_save w s = (Inr z, t)"
    using assms(3) by (auto simp: save_vm_nics_def pbind_Inr_iff prog_Inr_iff)
  obtain d where d: "w = x\<lparr>v_json := d\<rparr>"
    using save_nics_json(2) [OF w(1)] assms(2) by (auto simp: set_resolvers_def save_item_def)
  have p: "plain_vm w" "v_status w = v_orig_status w" using assms(1) by (simp_all add: d current_def plain_vm_def)
  have e: "z = w" "t = s\<lparr>ss_db := (ss_db s)(v_uuid w \<mapsto> w)\<rparr>"
    using w(2) unfolding st_save_def vm_save_full [OF p] by (auto simp: full_save_def run_effect_def)
  show "t = s\<lparr>ss_db := (ss_db s)(v_uuid x \<mapsto> z)\<rparr>" "v_uuid z = v_uuid x" "plain_vm z" "v_status z = v_status x" "is_deployed z = is_deployed x"
    using e d p by (simp_all add: is_deployed_def)
  note j = save_nics_json(1) [OF w(1)]
  show "vm_addresses z = nics_addresses nics" unfolding e vm_addresses_def j by (simp add: nics_addresses_clean)
  show "card_addresses z = map nic_address nics"
    unfolding e card_addresses_def j sum.case(2) by (rule card_addresses_clean)
  show "cards_once z" if "list_all (\<lambda>d. keys_once d) nics" unfolding e cards_once_def j by (simp add: keys_once_clean [OF that])
qed

section \<open>One card is replaced\<close>

definition opt_list :: "'a option \<Rightarrow> 'a list" where
  "opt_list v = (case v of None \<Rightarrow> [] | Some x \<Rightarrow> [x])"

lemma opt_list_simps [simp]: "opt_list None = []" "opt_list (Some x) = [x]" "a \<in> set (opt_list v) \<longleftrightarrow> v = Some a"
  by (auto simp: opt_list_def split: option.splits)

lemma nics_addresses_Cons: "nics_addresses (n # ns) = opt_list (nic_address n) @ nics_addresses ns"
  by (simp add: nics_addresses_def List.map_filter_simps opt_list_def split: option.split)

lemma nics_addresses_Nil [simp]: "nics_addresses [] = []"
  by (simp add: nics_addresses_def List.map_filter_simps)

lemma nics_addresses_append: "nics_addresses (xs @ ys) = nics_addresses xs @ nics_addresses ys"
  by (induction xs) (simp_all add: nics_addresses_Cons)

lemma nics_addresses_no_dhcp: "a \<in> set (nics_addresses nics) \<Longrightarrow> fst a \<noteq> VStr ''dhcp''"
  by (induction nics) (auto simp: nics_addresses_Cons nic_address_def is_ip_def split: if_splits)

lemma vm_addresses_no_dhcp: "a \<in> set (vm_addresses x) \<Longrightarrow> fst a \<noteq> VStr ''dhcp''"
  by (auto simp: vm_addresses_def dest: nics_addresses_no_dhcp split: sum.splits)

lemma nics_addresses_split:
  assumes "i < length nics"
  shows "nics_addresses nics = nics_addresses (take i nics) @ opt_list (nic_address (nics ! i)) @ nics_addresses (drop (Suc i) nics)"
    "nics_addresses (nics[i := c]) = nics_addresses (take i nics) @ opt_list (nic_address c) @ nics_addresses (drop (Suc i) nics)"
    "nics_addresses (take i nics @ drop (Suc i) nics) = nics_addresses (take i nics) @ nics_addresses (drop (Suc i) nics)"
proof -
  have "nics_addresses nics = nics_addresses (take i nics @ nics ! i # drop (Suc i) nics)"
    using id_take_nth_drop [OF assms] by simp
  then show "nics_addresses nics = nics_addresses (take i nics) @ opt_list (nic_address (nics ! i)) @ nics_addresses (drop (Suc i) nics)"
    by (simp add: nics_addresses_append nics_addresses_Cons)
  show "nics_addresses (nics[i := c]) = nics_addresses (take i nics) @ opt_list (nic_address c) @ nics_addresses (drop (Suc i) nics)"
    unfolding upd_conv_take_nth_drop [OF assms] by (simp add: nics_addresses_append nics_addresses_Cons)
  show "nics_addresses (take i nics @ drop (Suc i) nics) = nics_addresses (take i nics) @ nics_addresses (drop (Suc i) nics)"
    by (rule nics_addresses_append)
qed

lemma saved_owners_keys: "map fst (saved_owners x ser delete update K) = map fst K"
  by (simp add: saved_owners_def detach_def attach_def split: nic_addr.split)

lemma saved_other:
  assumes "(b, v) \<in> set K" "\<And>q. sr_ip_old ser = Addr q \<Longrightarrow> b \<noteq> row_key q"
    "\<And>r. update \<longrightarrow> is_addr (sr_ip_old ser) \<Longrightarrow> sr_ip ser = Addr r \<Longrightarrow> b \<noteq> row_key r"
  shows "(b, v) \<in> set (saved_owners x ser delete update K)"
  using assms by (auto simp: saved_owners_def detach_def attach_def in_set_owner split: nic_addr.split)

lemma saved_new:
  assumes "sr_ip ser = Addr r" "r \<in> set rows" "update \<longrightarrow> is_addr (sr_ip_old ser)"
  shows "(row_key r, Some (v_uuid x)) \<in> set (saved_owners x ser False update (owners rows))"
proof -
  let ?K = "detach x (sr_ip_old ser) (owners rows)"
  have "map fst ?K = map fst (owners rows)" by (simp add: detach_def split: nic_addr.split)
  then have "fst ` set ?K = fst ` set (owners rows)" by (metis list.set_map)
  then have "row_key r \<in> fst ` set ?K" using assms(2) by (force simp: owners_def)
  moreover have "\<not> (update \<and> \<not> is_addr (sr_ip_old ser))" using assms(3) by blast
  ultimately show ?thesis using assms(1) by (auto simp: saved_owners_def attach_def in_set_owner)
qed

lemma free_not_owned:
  assumes "distinct (map row_key rows)" "r \<in> set rows" "ip_vm r = None"
  shows "\<not> owned rows u (row_key r)"
proof
  assume "owned rows u (row_key r)"
  then obtain q where q: "q \<in> set rows" "row_key q = row_key r" "ip_vm q = Some u" by (auto simp: owned_def)
  have "inj_on row_key (set rows)" using assms(1) by (simp add: distinct_map)
  then have "q = r" by (rule inj_onD) (use q assms(2) in auto)
  then show False using q(3) assms(3) by simp
qed

text \<open>
  What a card was before and is after a request: the rows of its address, which is the one in the
  definition.
\<close>

definition card_read :: "nic_ser \<Rightarrow> pydict \<Rightarrow> bool" where
  "card_read ser nic \<longleftrightarrow> (\<forall>q. sr_ip ser = Addr q \<longrightarrow> fst (row_key q) = VStr ''dhcp'' \<or> nic_address nic = Some (row_key q))
     \<and> (nic_address nic \<noteq> None \<longrightarrow> is_addr (sr_ip ser))"

lemma fix_before_read:
  assumes "fix_before env rows x nic = Inr ser"
  shows "card_read ser nic"
proof -
  have "fst (row_key q) = VStr ''dhcp'' \<or> nic_address nic = Some (row_key q)" if "sr_ip ser = Addr q" for q
  proof -
    note f = fix_before_facts(5) [OF assms that]
    have i: "dget nic ''ip'' VNone = VStr (ip_ip q)" "row_key q = (dget nic ''ip'' VNone, dget nic ''network_uuid'' VNone)"
      using f by (simp_all add: row_key_def)
    show ?thesis using f by (cases "ip_ip q = ''dhcp''") (simp_all add: i nic_address_def is_ip_def)
  qed
  moreover have "is_addr (sr_ip ser)" if "nic_address nic \<noteq> None"
    using fix_before_facts(6) [OF assms that] by (auto simp: is_addr_def)
  ultimately show ?thesis by (simp add: card_read_def)
qed

lemma replaced_card:
  assumes inv: "distinct (map row_key rows)" "distinct (A @ opt_list (nic_address nic) @ B)"
    and own: "\<And>a. a \<in> set (A @ opt_list (nic_address nic) @ B) \<Longrightarrow> owned rows (v_uuid x) a"
    and nd: "\<And>a. a \<in> set (A @ B) \<Longrightarrow> fst a \<noteq> VStr ''dhcp''"
    and card: "card_read ser nic" "card_result rows ser ser' c" "attachable ser' False update"
    and first: "update \<and> nic_address nic = None \<longrightarrow> nic_address c = None"
  shows "distinct (A @ opt_list (nic_address c) @ B)"
    "\<And>a. a \<in> set (A @ opt_list (nic_address c) @ B) \<Longrightarrow> (a, Some (v_uuid x)) \<in> set (saved_owners x ser' False update (owners rows))"
    "\<And>w b. w \<noteq> v_uuid x \<Longrightarrow> fst b \<noteq> VStr ''dhcp'' \<Longrightarrow> owned rows w b
       \<Longrightarrow> (b, Some w) \<in> set (saved_owners x ser' False update (owners rows))"
proof -
  let ?u = "v_uuid x" and ?K = "saved_owners x ser' False update (owners rows)"
  have old: "sr_ip ser = Addr q" if "sr_ip_old ser' = Addr q" for q
    using card(2) that by (auto simp: card_result_def remembers_def)
  have free: "\<not> owned rows w (row_key r)" if "sr_ip ser' = Addr r" "update \<longrightarrow> is_addr (sr_ip_old ser')" for r w
  proof -
    have "r \<in> set rows" using card(2) that(1) by (auto simp: card_result_def)
    then show ?thesis using card(3) that by (intro free_not_owned [OF inv(1)]) (auto simp: attachable_def)
  qed
  have mine: "nic_address nic = Some b" if "sr_ip ser = Addr q" "b = row_key q" "fst b \<noteq> VStr ''dhcp''" for q b
    using card(1) that by (auto simp: card_read_def)
  have keep: "(b, Some w) \<in> set ?K" if b: "owned rows w b" "\<And>q. sr_ip_old ser' = Addr q \<Longrightarrow> b \<noteq> row_key q" for b w
    by (rule saved_other) (use b free in \<open>auto simp: owned_owners [symmetric]\<close>)
  show others: "(b, Some w) \<in> set ?K" if "w \<noteq> ?u" "fst b \<noteq> VStr ''dhcp''" "owned rows w b" for w b
  proof (rule keep [OF that(3)])
    fix q assume q: "sr_ip_old ser' = Addr q"
    show "b \<noteq> row_key q"
      using mine [OF old [OF q] _ that(2)] own [of b] owned_unique [OF inv(1) that(3), of ?u] that(1) by auto
  qed
  have rest: "(b, Some ?u) \<in> set ?K" if b: "b \<in> set (A @ B)" for b
  proof (rule keep)
    show "owned rows ?u b" by (rule own) (use b in auto)
    fix q assume q: "sr_ip_old ser' = Addr q"
    show "b \<noteq> row_key q" using mine [OF old [OF q] _ nd [OF b]] inv(2) b by auto
  qed
  have new: "a \<notin> set (A @ B) \<and> (a, Some ?u) \<in> set ?K" if a: "nic_address c = Some a" for a
  proof -
    have d: "fst a \<noteq> VStr ''dhcp''" using a by (auto simp: nic_address_def is_ip_def split: if_splits)
    obtain r where r: "r \<in> set rows" "sr_ip ser' = Addr r" "a = row_key r" using card(2) a by (auto simp: card_result_def)
    show ?thesis
    proof (cases "update \<longrightarrow> is_addr (sr_ip_old ser')")
      case True
      then show ?thesis using saved_new [OF r(2,1) True, of x] free [OF r(2) True] own [of a] r(3) by auto
    next
      case False
      then have na: "\<not> is_addr (sr_ip_old ser')" "nic_address nic \<noteq> None" using first a by auto
      have "is_addr (sr_ip ser)" using card(1) na(2) by (simp add: card_read_def)
      then obtain q where q0: "sr_ip ser = Addr q" by (cases "sr_ip ser") (simp_all add: is_addr_def)
      have "q = r \<or> same_ip r q" using card(2) q0 r(2) na(1) by (auto simp: card_result_def remembers_def is_addr_def)
      then have q: "sr_ip ser = Addr q" "row_key q = a" using q0 r(3) by (auto simp: same_ip_key)
      have n: "nic_address nic = Some a" by (rule mine [OF q(1) q(2) [symmetric] d])
      have "?K = owners rows" using False by (simp add: saved_owners_def)
      then show ?thesis using n inv(2) own [of a] by (auto simp: owned_owners)
    qed
  qed
  have AB: "distinct (A @ B)" using inv(2) by auto
  show "distinct (A @ opt_list (nic_address c) @ B)" using AB new by (cases "nic_address c") auto
  show "(a, Some ?u) \<in> set ?K" if "a \<in> set (A @ opt_list (nic_address c) @ B)" for a
    by (cases "a \<in> set (A @ B)") (use that rest [of a] new [of a] in simp_all)
qed

section \<open>The requests\<close>

text \<open>What a request that succeeds leaves: the cards, the owners of addresses and the rest of the VM.\<close>

definition nic_saved :: "vm \<Rightarrow> pydict list \<Rightarrow> nic_ser \<Rightarrow> bool \<Rightarrow> bool \<Rightarrow> status_state \<Rightarrow> status_state \<Rightarrow> bool" where
  "nic_saved x nics ser delete update s t \<longleftrightarrow> (\<exists>z. ss_db t = (ss_db s)(v_uuid x \<mapsto> z) \<and> v_uuid z = v_uuid x \<and> plain_vm z
     \<and> v_status z = v_status x \<and> vm_addresses z = nics_addresses nics
     \<and> card_addresses z = map nic_address nics \<and> (list_all (\<lambda>d. keys_once d) nics \<longrightarrow> cards_once z))
     \<and> owners (ss_ips t) = saved_owners x ser delete update (owners (ss_ips s)) \<and> ss_cache t = ss_cache s
     \<and> attachable ser delete update"

lemma saved_owners_cong:
  "v_uuid z = v_uuid x \<Longrightarrow> is_deployed z = is_deployed x \<Longrightarrow> saved_owners z ser delete update = saved_owners x ser delete update"
  by (auto simp: fun_eq_iff saved_owners_def detach_def attach_def split: nic_addr.split)

lemma save_vm_nics_fails: 
  assumes "current x s" "set_resolvers v x = Inr y \<or> y = x" "save_vm_nics env y nics mon s = (Inl e, t)"
  shows "t = s"
proof (cases "save_nics nics mon y")
  case (Inl e')
  then show ?thesis using assms(3) by (simp add: save_vm_nics_def prog_defs)
next
  case (Inr w)
  obtain d where d: "w = x\<lparr>v_json := d\<rparr>"
    using save_nics_json(2) [OF Inr] assms(2) by (auto simp: set_resolvers_def save_item_def)
  have p: "plain_vm w" "v_status w = v_orig_status w" using assms(1) by (simp_all add: d current_def plain_vm_def)
  show ?thesis using assms(3) unfolding save_vm_nics_def Inr st_save_def by (simp add: prog_defs vm_save_full [OF p]) (simp add: full_save_def)
qed

lemma saved_card:
  assumes "current x s0" "set_resolvers v x = Inr y \<or> y = x"
  shows "triple (\<lambda>s. s = s0) (pbind (save_vm_nics env y nics mon) (\<lambda>z. pbind (save_ip env z ser delete update) (\<lambda>_. pret resp)))
    (\<lambda>_. nic_saved x nics ser delete update s0) (cached (ss_cache s0))"
proof (rule triple_pbind)
  show "triple (\<lambda>s. s = s0) (save_vm_nics env y nics mon) (\<lambda>z s. s = s0\<lparr>ss_db := (ss_db s0)(v_uuid x \<mapsto> z)\<rparr> \<and> v_uuid z = v_uuid x \<and> plain_vm z
     \<and> v_status z = v_status x \<and> vm_addresses z = nics_addresses nics
     \<and> card_addresses z = map nic_address nics \<and> (list_all (\<lambda>d. keys_once d) nics \<longrightarrow> cards_once z)
     \<and> is_deployed z = is_deployed x) (cached (ss_cache s0))"
  proof (rule tripleI)
    show "cached (ss_cache s0) t" if "s = s0" "save_vm_nics env y nics mon s = (Inl e, t)" for s e t
      using save_vm_nics_fails [OF assms that(2) [unfolded that(1)]] by (simp add: cached_def)
  qed (use st_save_nics [OF assms] in simp)
  fix z
  let ?P = "\<lambda>s. s = s0\<lparr>ss_db := (ss_db s0)(v_uuid x \<mapsto> z)\<rparr> \<and> v_uuid z = v_uuid x \<and> plain_vm z
     \<and> v_status z = v_status x \<and> vm_addresses z = nics_addresses nics
     \<and> card_addresses z = map nic_address nics \<and> (list_all (\<lambda>d. keys_once d) nics \<longrightarrow> cards_once z)
     \<and> is_deployed z = is_deployed x"
  show "triple ?P (pbind (save_ip env z ser delete update) (\<lambda>_. pret resp)) (\<lambda>_. nic_saved x nics ser delete update s0) (cached (ss_cache s0))"
  proof (cases "?P (s0\<lparr>ss_db := (ss_db s0)(v_uuid x \<mapsto> z)\<rparr>)")
    case True
    have c: "saved_owners z ser delete update = saved_owners x ser delete update"
      by (rule saved_owners_cong) (use True in simp_all)
    have f: "triple ?P (save_ip env z ser delete update)
        (\<lambda>_ s. frozen (saved_owners x ser delete update (owners (ss_ips s0))) ((ss_db s0)(v_uuid x \<mapsto> z)) (ss_cache s0) s
          \<and> attachable ser delete update) (cached (ss_cache s0))"
      using save_ip_triple [of "owners (ss_ips s0)" "(ss_db s0)(v_uuid x \<mapsto> z)" "ss_cache s0" env z ser delete update] unfolding c
      by (rule triple_pre) (simp add: frozen_def)
    show ?thesis by (rule triple_pbind [OF f], rule triple_pret) (use True in \<open>auto simp: nic_saved_def frozen_def\<close>)
  qed (auto simp: triple_def)
qed

lemma nic_save_valid_triple:
  assumes "current x s0"
  shows "triple (\<lambda>s. s = s0) (nic_save_valid env x nics i f update ser)
    (\<lambda>_. nic_saved x (nics[i := f (jsondata ser)]) ser False update s0) (cached (ss_cache s0))"
  unfolding nic_save_valid_def
proof (rule triple_pbind)
  show "triple (\<lambda>s. s = s0) (pres (set_resolvers (sr_resolvers ser) x)) (\<lambda>y s. s = s0 \<and> set_resolvers (sr_resolvers ser) x = Inr y) (cached (ss_cache s0))"
    by (rule triple_pres) (simp_all add: cached_def)
  fix y
  show "triple (\<lambda>s. s = s0 \<and> set_resolvers (sr_resolvers ser) x = Inr y)
    (pbind (pres (get_monitoring_ip ser False)) (\<lambda>mon. pbind (save_vm_nics env y (nics[i := f (jsondata ser)]) mon) (\<lambda>z.
     pbind (save_ip env z ser False update) (\<lambda>_. pret (SuccessResponse (''nic_id='' @ nat_str (i + 1)))))))
    (\<lambda>_. nic_saved x (nics[i := f (jsondata ser)]) ser False update s0) (cached (ss_cache s0))"
  proof (cases "set_resolvers (sr_resolvers ser) x = Inr y")
    case True
    show ?thesis
      by (rule triple_pbind [where R = "\<lambda>_ s. s = s0"], rule triple_pres, simp, simp add: cached_def)
        (rule saved_card [OF assms disjI1 [OF True]])
  qed (simp add: triple_def)
qed

text \<open>Such a state has the invariants again.\<close>

lemma addr_inv_update:
  assumes "addr_inv s" "ss_db t = (ss_db s)(u \<mapsto> z)" "map fst (owners (ss_ips t)) = map fst (owners (ss_ips s))" "cards_once z"
    "distinct (vm_addresses z)" "\<And>a. a \<in> set (vm_addresses z) \<Longrightarrow> owned (ss_ips t) u a"
    "\<And>w y a. w \<noteq> u \<Longrightarrow> ss_db s w = Some y \<Longrightarrow> a \<in> set (vm_addresses y) \<Longrightarrow> owned (ss_ips t) w a"
  shows "addr_inv t"
  using assms by (simp add: addr_inv_def row_keys_owners)

lemma status_inv_update:
  assumes "nic_saved x nics ser delete update s t" "current x s"
  shows "status_inv t"
proof -
  obtain z where z: "ss_db t = (ss_db s)(v_uuid x \<mapsto> z)" "v_uuid z = v_uuid x" "plain_vm z" "v_status z = v_status x" "ss_cache t = ss_cache s"
    using assms(1) by (auto simp: nic_saved_def)
  obtain row where row: "ss_db s (v_uuid x) = Some row" "v_status row = v_status x" and inv: "db_ok s" "coherent s"
    using assms(2) by (auto simp: current_def status_inv_def)
  have "db_ok t" using inv(1) z by (auto simp: db_ok_def plain_vm_def)
  moreover have "coherent t"
  proof -
    have "cache_get k t = cache_get k s" for k using z(5) by (simp add: cache_get_def)
    then show ?thesis using inv(2) row z(1,4) unfolding coherent_def by (metis fun_upd_apply option.sel)
  qed
  ultimately show ?thesis by (simp add: status_inv_def)
qed

lemma vm_cards:
  assumes "addr_inv s" "ss_db s u = Some row" "v_json x = v_json row" "json_get_nics x = Inr nics"
  shows "distinct (nics_addresses nics)" "\<And>a. a \<in> set (nics_addresses nics) \<Longrightarrow> owned (ss_ips s) u a"
    "list_all (\<lambda>d. keys_once d) nics"
proof -
  have "vm_addresses row = nics_addresses nics" "cards_once row = list_all (\<lambda>d. keys_once d) nics"
    using assms(3,4) by (simp_all add: vm_addresses_def cards_once_def json_get_nics_def)
  then show "distinct (nics_addresses nics)" "\<And>a. a \<in> set (nics_addresses nics) \<Longrightarrow> owned (ss_ips s) u a"
    "list_all (\<lambda>d. keys_once d) nics"
    using assms(1,2) unfolding addr_inv_def by metis+
qed

lemma saved_addr_inv:
  assumes inv: "addr_inv s" and saved: "nic_saved x nics' ser delete update s t" and keys: "list_all (\<lambda>d. keys_once d) nics'"
    and mine: "distinct (nics_addresses nics')"
      "\<And>a. a \<in> set (nics_addresses nics') \<Longrightarrow> (a, Some (v_uuid x)) \<in> set (saved_owners x ser delete update (owners (ss_ips s)))"
    and others: "\<And>w b. w \<noteq> v_uuid x \<Longrightarrow> fst b \<noteq> VStr ''dhcp'' \<Longrightarrow> owned (ss_ips s) w b
       \<Longrightarrow> (b, Some w) \<in> set (saved_owners x ser delete update (owners (ss_ips s)))"
  shows "addr_inv t"
proof -
  obtain z where z: "ss_db t = (ss_db s)(v_uuid x \<mapsto> z)" "vm_addresses z = nics_addresses nics'" "cards_once z"
    and o: "owners (ss_ips t) = saved_owners x ser delete update (owners (ss_ips s))"
    using saved keys by (auto simp: nic_saved_def)
  show ?thesis
  proof (rule addr_inv_update [OF inv z(1) _ z(3)])
    show "map fst (owners (ss_ips t)) = map fst (owners (ss_ips s))" by (simp add: o saved_owners_keys)
    show "distinct (vm_addresses z)" by (simp add: z(2) mine(1))
    show "owned (ss_ips t) (v_uuid x) a" if "a \<in> set (vm_addresses z)" for a
      unfolding owned_owners o by (rule mine(2)) (use that z(2) in simp)
    show "owned (ss_ips t) w a" if "w \<noteq> v_uuid x" "ss_db s w = Some y" "a \<in> set (vm_addresses y)" for w y a
      unfolding owned_owners o
      by (rule others [OF that(1) vm_addresses_no_dhcp [OF that(3)]]) (use inv that(2,3) in \<open>auto simp: addr_inv_def\<close>)
  qed
qed

lemma put_keeps:
  assumes inv: "addr_inv s" "ss_db s (v_uuid x) = Some row" "v_json x = v_json row"
    and nics: "json_get_nics x = Inr nics" "i < length nics"
    and ser: "fix_before env (ss_ips s) x (nics ! i) = Inr ser"
      "nic_is_valid env db (ss_ips s) x n ser (nic_attrs data) = Inr (Inr ser')" "keys_once data"
    and saved: "nic_saved x (nics[i := dupdate (nics ! i) (jsondata ser')]) ser' False True s t"
    and first: "nic_address (nics ! i) = None \<Longrightarrow> nic_address (dupdate (nics ! i) (jsondata ser')) = None"
  shows "addr_inv t"
proof -
  let ?nic = "nics ! i" and ?c = "dupdate (nics ! i) (jsondata ser')"
  note v = vm_cards [OF inv nics(1)] and sp = nics_addresses_split [OF nics(2)]
  have k: "keys_once ?nic" using v(3) nics(2) by (simp add: list_all_length)
  have u: "distinct (map row_key (ss_ips s))" using inv(1) by (simp add: addr_inv_def)
  have nd: "fst a \<noteq> VStr ''dhcp''" if "a \<in> set (nics_addresses (take i nics) @ nics_addresses (drop (Suc i) nics))" for a
    using that by (auto dest: nics_addresses_no_dhcp)
  have att: "attachable ser' False True" using saved by (simp add: nic_saved_def)
  have fi: "True \<and> nic_address ?nic = None \<longrightarrow> nic_address ?c = None" using first by simp
  note r = replaced_card [OF u v(1) [unfolded sp(1)] v(2) [unfolded sp(1)] nd fix_before_read [OF ser(1)]
      put_card [OF ser(1,2) k ser(3)] att fi, folded sp(2)]
  show ?thesis
  proof (rule saved_addr_inv [OF inv(1) saved])
    show "list_all (\<lambda>d. keys_once d) (nics[i := ?c])"
      using v(3) keys_once_dupdate [OF k] set_update_subset_insert [of nics i ?c] unfolding list_all_iff by blast
  qed (rule r; assumption)+
qed

lemma post_keeps:
  assumes inv: "addr_inv s" "ss_db s (v_uuid x) = Some row" "v_json x = v_json row"
    and nics: "json_get_nics x = Inr nics"
    and ser: "nic_is_valid env db (ss_ips s) x n (new_nic_ser x) (nic_attrs data) = Inr (Inr ser')" "keys_once data"
    and saved: "nic_saved x (nics @ [jsondata ser']) ser' False False s t"
  shows "addr_inv t"
proof -
  note v = vm_cards [OF inv nics]
  have a: "nic_address [] = None" by (simp add: nic_address_def is_ip_def dget_def truthy_def)
  have u: "distinct (map row_key (ss_ips s))" using inv(1) by (simp add: addr_inv_def)
  have nd: "fst b \<noteq> VStr ''dhcp''" if "b \<in> set (nics_addresses nics @ [])" for b
    using that by (auto dest: nics_addresses_no_dhcp)
  have att: "attachable ser' False False" using saved by (simp add: nic_saved_def)
  have c: "card_read (new_nic_ser x) []" by (simp add: card_read_def a new_nic_ser_def)
  have d: "distinct (nics_addresses nics @ opt_list (nic_address []) @ [])" using v(1) a by simp
  have e: "owned (ss_ips s) (v_uuid x) b" if "b \<in> set (nics_addresses nics @ opt_list (nic_address []) @ [])" for b
    using v(2) that a by auto
  have f: "nics_addresses (nics @ [jsondata ser']) = nics_addresses nics @ opt_list (nic_address (jsondata ser')) @ []"
    by (simp add: nics_addresses_append nics_addresses_Cons)
  note r = replaced_card [OF u d e nd c post_card(1) [OF ser] att, folded f]
  show ?thesis
    by (rule saved_addr_inv [OF inv(1) saved]) (use v(3) post_card(2) [OF ser] r in auto)
qed

lemma delete_keeps:
  assumes inv: "addr_inv s" "ss_db s (v_uuid x) = Some row" "v_json x = v_json row"
    and nics: "json_get_nics x = Inr nics" "i < length nics"
    and ser: "fix_before env (ss_ips s) x (nics ! i) = Inr ser"
    and saved: "nic_saved x (take i nics @ drop (Suc i) nics) ser True False s t"
  shows "addr_inv t"
proof -
  let ?nic = "nics ! i" and ?K = "saved_owners x ser True False (owners (ss_ips s))"
  note v = vm_cards [OF inv nics(1)] and sp = nics_addresses_split [OF nics(2)]
  have old: "sr_ip_old ser = NoAddr" by (rule fix_before_facts(1) [OF ser])
  have u: "distinct (map row_key (ss_ips s))" using inv(1) by (simp add: addr_inv_def)
  have mine: "nic_address ?nic = Some b" if "sr_ip ser = Addr q" "b = row_key q" "fst b \<noteq> VStr ''dhcp''" for q b
    using fix_before_read [OF ser] that by (auto simp: card_read_def)
  have keep: "(b, Some w) \<in> set ?K" if "owned (ss_ips s) w b" "\<And>q. sr_ip ser = Addr q \<Longrightarrow> b \<noteq> row_key q" for w b
    by (rule saved_other) (use that old in \<open>auto simp: owned_owners [symmetric]\<close>)
  show ?thesis
  proof (rule saved_addr_inv [OF inv(1) saved])
    show "list_all (\<lambda>d. keys_once d) (take i nics @ drop (Suc i) nics)"
      using v(3) by (auto simp: list_all_iff dest: in_set_takeD in_set_dropD)
    show "distinct (nics_addresses (take i nics @ drop (Suc i) nics))" using v(1) sp by auto
    show "(a, Some (v_uuid x)) \<in> set ?K" if a: "a \<in> set (nics_addresses (take i nics @ drop (Suc i) nics))" for a
    proof (rule keep)
      show "owned (ss_ips s) (v_uuid x) a" by (rule v(2)) (use a sp in auto)
      show "a \<noteq> row_key q" if "sr_ip ser = Addr q" for q
        using mine [OF that _ nics_addresses_no_dhcp [OF a]] v(1) a sp(1,3) by auto
    qed
    show "(b, Some w) \<in> set ?K" if "w \<noteq> v_uuid x" "fst b \<noteq> VStr ''dhcp''" "owned (ss_ips s) w b" for w b
    proof (rule keep [OF that(3)])
      show "b \<noteq> row_key q" if q: "sr_ip ser = Addr q" for q
        using mine [OF q _ \<open>fst b \<noteq> VStr ''dhcp''\<close>] v(2) [of b] sp(1) owned_unique [OF u \<open>owned (ss_ips s) w b\<close>, of "v_uuid x"]
          \<open>w \<noteq> v_uuid x\<close> by auto
    qed
  qed
qed

section \<open>Preservation\<close>

lemma triple_atomic:
  assumes "triple (\<lambda>s. s = s0) m Q (cached (ss_cache s0))"
  shows "triple (\<lambda>s. s = s0) (db_atomic m) Q (\<lambda>t. defs_of t = defs_of s0 \<and> ss_db t = ss_db s0 \<and> ss_cache t = ss_cache s0)"
  using assms unfolding triple_def db_atomic_def
  by (auto simp: defs_of_def cached_def split: prod.splits sum.splits)

definition put_result :: "nic_env \<Rightarrow> vm \<Rightarrow> nat \<Rightarrow> pydict \<Rightarrow> status_state \<Rightarrow> status_state \<Rightarrow> bool" where
  "put_result env x i data s t \<longleftrightarrow> (\<exists>nics ser ser'. json_get_nics x = Inr nics \<and> i < length nics
     \<and> fix_before env (ss_ips s) x (nics ! i) = Inr ser
     \<and> nic_is_valid env (ss_db s) (ss_ips s) x (Some i) ser (nic_attrs data) = Inr (Inr ser')
     \<and> nic_saved x (nics[i := dupdate (nics ! i) (jsondata ser')]) ser' False True s t)"

definition post_result :: "nic_env \<Rightarrow> vm \<Rightarrow> nat \<Rightarrow> pydict \<Rightarrow> status_state \<Rightarrow> status_state \<Rightarrow> bool" where
  "post_result env x i data s t \<longleftrightarrow> (\<exists>nics ser'. json_get_nics x = Inr nics
     \<and> nic_is_valid env (ss_db s) (ss_ips s) x (Some i) (new_nic_ser x) (nic_attrs data) = Inr (Inr ser')
     \<and> nic_saved x (nics @ [jsondata ser']) ser' False False s t)"

definition delete_result :: "nic_env \<Rightarrow> vm \<Rightarrow> nat \<Rightarrow> status_state \<Rightarrow> status_state \<Rightarrow> bool" where
  "delete_result env x i s t \<longleftrightarrow> (\<exists>nics ser. json_get_nics x = Inr nics \<and> i < length nics
     \<and> fix_before env (ss_ips s) x (nics ! i) = Inr ser \<and> nic_saved x (take i nics @ drop (Suc i) nics) ser True False s t)"

lemma triple_at:
  assumes "\<And>x u. m s0 = (Inr x, u) \<Longrightarrow> u = s0 \<and> triple (\<lambda>s. s = s0) (f x) Q E" "\<And>e u. m s0 = (Inl e, u) \<Longrightarrow> E u"
  shows "triple (\<lambda>s. s = s0) (pbind m f) Q E"
proof -
  obtain r u where m: "m s0 = (r, u)" by (cases "m s0")
  show ?thesis
  proof (cases r)
    case (Inl e)
    then show ?thesis using assms(2) m by (simp add: triple_def pbind_def)
  next
    case (Inr x)
    then show ?thesis using assms(1) m by (simp add: triple_def pbind_def)
  qed
qed

lemma get_listitem_Inr:
  "get_listitem method xs i d n = Inr (ys, y) \<Longrightarrow>
     (if method = ''POST'' then i = length xs \<and> ys = xs @ [d] \<and> y = d else i < length xs \<and> ys = xs \<and> y = xs ! i)"
  by (auto simp: get_listitem_def other_error_def split: if_splits)

lemma nic_put_triple:
  assumes "current x s0"
  shows "triple (\<lambda>s. s = s0) (nic_put env x i data) (\<lambda>_ t. t = s0 \<or> put_result env x i data s0 t)
    (\<lambda>t. defs_of t = defs_of s0 \<and> ss_db t = ss_db s0 \<and> ss_cache t = ss_cache s0)"
  unfolding nic_put_def if_vm_operational_def
proof (intro triple_if)
  show "triple (\<lambda>s. s = s0) (db_atomic (
     pbind (pres (rbind (json_get_nics x) (\<lambda>nics. get_listitem ''PUT'' nics i [] NIC_ID_MAX))) (\<lambda>(nics, nic).
     pbind (\<lambda>s. (rbind (fix_before env (ss_ips s) x nic) (\<lambda>ser. nic_is_valid env (ss_db s) (ss_ips s) x (Some i) ser (nic_attrs data)), s)) (\<lambda>r. case r of
         Inl es \<Rightarrow> pret (FailureResponse (field_error_msg es))
       | Inr ser \<Rightarrow> nic_save_valid env x nics i (dupdate nic) True ser)))) (\<lambda>_ t. t = s0 \<or> put_result env x i data s0 t)
    (\<lambda>t. defs_of t = defs_of s0 \<and> ss_db t = ss_db s0 \<and> ss_cache t = ss_cache s0)"
  proof (rule triple_atomic, rule triple_at, goal_cases)
    case (1 p u)
    obtain nics where n: "json_get_nics x = Inr nics" "i < length nics" "p = (nics, nics ! i)" and u: "u = s0"
      using 1 by (cases p) (auto simp: prog_Inr_iff rbind_Inr_iff dest: get_listitem_Inr)
    have "triple (\<lambda>s. s = s0) (case r of Inl es \<Rightarrow> pret (FailureResponse (field_error_msg es))
       | Inr ser \<Rightarrow> nic_save_valid env x nics i (dupdate (nics ! i)) True ser) (\<lambda>_ t. t = s0 \<or> put_result env x i data s0 t) (cached (ss_cache s0))"
      if r: "rbind (fix_before env (ss_ips s0) x (nics ! i)) (\<lambda>ser. nic_is_valid env (ss_db s0) (ss_ips s0) x (Some i) ser (nic_attrs data)) = Inr r" for r
    proof (cases r)
      case (Inl es)
      then show ?thesis by (auto intro: triple_pret)
    next
      case (Inr ser')
      show ?thesis unfolding Inr sum.case
        by (rule triple_conseq [OF nic_save_valid_triple [OF assms]])
          (use n r Inr in \<open>auto simp: put_result_def rbind_Inr_iff\<close>)
    qed
    then show ?case unfolding n(3) prod.case u by (intro conjI refl triple_at) (auto simp: cached_def)
  qed (auto simp: prog_defs cached_def)
qed (auto simp: api_error_def other_error_def defs_of_def intro!: triple_pres)

lemma nic_post_triple:
  assumes "current x s0"
  shows "triple (\<lambda>s. s = s0) (nic_post env x i data) (\<lambda>_ t. t = s0 \<or> post_result env x i data s0 t)
    (\<lambda>t. defs_of t = defs_of s0 \<and> ss_db t = ss_db s0 \<and> ss_cache t = ss_cache s0)"
  unfolding nic_post_def if_vm_operational_def
proof (intro triple_if)
  show "triple (\<lambda>s. s = s0) (db_atomic (
     pbind (pres (rbind (json_get_nics x) (\<lambda>nics. get_listitem ''POST'' nics i [] NIC_ID_MAX))) (\<lambda>(nics, nic).
     pbind (\<lambda>s. (nic_is_valid env (ss_db s) (ss_ips s) x (Some i) (new_nic_ser x) (nic_attrs data), s)) (\<lambda>r. case r of
         Inl es \<Rightarrow> pret (FailureResponse (field_error_msg es))
       | Inr ser \<Rightarrow> nic_save_valid env x nics i (\<lambda>d. d) False ser)))) (\<lambda>_ t. t = s0 \<or> post_result env x i data s0 t)
    (\<lambda>t. defs_of t = defs_of s0 \<and> ss_db t = ss_db s0 \<and> ss_cache t = ss_cache s0)"
  proof (rule triple_atomic, rule triple_at, goal_cases)
    case (1 p u)
    obtain nics where n: "json_get_nics x = Inr nics" "i = length nics" "p = (nics @ [[]], [])" and u: "u = s0"
      using 1 by (cases p) (auto simp: prog_Inr_iff rbind_Inr_iff dest: get_listitem_Inr)
    have "triple (\<lambda>s. s = s0) (case r of Inl es \<Rightarrow> pret (FailureResponse (field_error_msg es))
       | Inr ser \<Rightarrow> nic_save_valid env x (nics @ [[]]) i (\<lambda>d. d) False ser) (\<lambda>_ t. t = s0 \<or> post_result env x i data s0 t) (cached (ss_cache s0))"
      if r: "nic_is_valid env (ss_db s0) (ss_ips s0) x (Some i) (new_nic_ser x) (nic_attrs data) = Inr r" for r
    proof (cases r)
      case (Inl es)
      then show ?thesis by (auto intro: triple_pret)
    next
      case (Inr ser')
      show ?thesis unfolding Inr sum.case
        by (rule triple_conseq [OF nic_save_valid_triple [OF assms]])
          (use n r Inr in \<open>auto simp: post_result_def\<close>)
    qed
    then show ?case unfolding n(3) prod.case u by (intro conjI refl triple_at) (auto simp: cached_def)
  qed (auto simp: prog_defs cached_def)
qed (auto simp: api_error_def other_error_def defs_of_def intro!: triple_pres)

lemma nic_delete_triple:
  assumes "current x s0"
  shows "triple (\<lambda>s. s = s0) (nic_delete env x i) (\<lambda>_ t. delete_result env x i s0 t)
    (\<lambda>t. defs_of t = defs_of s0 \<and> ss_db t = ss_db s0 \<and> ss_cache t = ss_cache s0)"
  unfolding nic_delete_def if_vm_operational_def
proof (intro triple_if)
  show "triple (\<lambda>s. s = s0) (db_atomic (
     pbind (pres (rbind (json_get_nics x) (\<lambda>nics. get_listitem ''DELETE'' nics i [] NIC_ID_MAX))) (\<lambda>(nics, nic).
     pbind (\<lambda>s. (fix_before env (ss_ips s) x nic, s)) (\<lambda>ser.
     pbind (pres (get_monitoring_ip ser True)) (\<lambda>mon.
     pbind (save_vm_nics env x (take i nics @ drop (Suc i) nics) mon) (\<lambda>z.
     pbind (save_ip env z ser True False) (\<lambda>_.
       pret (SuccessResponse (''nic_id='' @ nat_str (i + 1)))))))))) (\<lambda>_ t. delete_result env x i s0 t)
    (\<lambda>t. defs_of t = defs_of s0 \<and> ss_db t = ss_db s0 \<and> ss_cache t = ss_cache s0)"
  proof (rule triple_atomic, rule triple_at, goal_cases)
    case (1 p u)
    obtain nics where n: "json_get_nics x = Inr nics" "i < length nics" "p = (nics, nics ! i)" and u: "u = s0"
      using 1 by (cases p) (auto simp: prog_Inr_iff rbind_Inr_iff dest: get_listitem_Inr)
    have h: "triple (\<lambda>s. s = s0) (pbind (pres (get_monitoring_ip ser True)) (\<lambda>mon.
        pbind (save_vm_nics env x (take i nics @ drop (Suc i) nics) mon) (\<lambda>z.
        pbind (save_ip env z ser True False) (\<lambda>_. pret (SuccessResponse (''nic_id='' @ nat_str (i + 1)))))))
        (\<lambda>_ t. delete_result env x i s0 t) (cached (ss_cache s0))"
      if r: "fix_before env (ss_ips s0) x (nics ! i) = Inr ser" for ser
    proof (rule triple_at, goal_cases)
      case (1 mon v)
      then show ?case using n r
        by (auto simp: prog_Inr_iff delete_result_def intro!: triple_conseq [OF saved_card [OF assms disjI2 [OF refl]]])
    qed (simp add: pres_def cached_def)
    show ?case unfolding n(3) prod.case u by (rule conjI [OF refl], rule triple_at) (use h in \<open>auto simp: cached_def\<close>)
  qed (auto simp: prog_defs cached_def)
qed (auto simp: api_error_def other_error_def defs_of_def intro!: triple_pres)

text \<open>The address of a card in the database, and the change that leaves an address without an owner.\<close>

definition address_of_card :: "status_state \<Rightarrow> string \<Rightarrow> nat \<Rightarrow> (pyval \<times> pyval) option" where
  "address_of_card s u i = (case ss_db s u of None \<Rightarrow> None
     | Some x \<Rightarrow> (let as = card_addresses x in if i < length as then as ! i else None))"

definition gets_first_address :: "nic_request \<Rightarrow> string \<Rightarrow> status_state \<Rightarrow> status_state \<Rightarrow> bool" where
  "gets_first_address rq u s t \<longleftrightarrow> (case rq of
     NicPut i _ \<Rightarrow> address_of_card s u i = None \<and> address_of_card t u i \<noteq> None | _ \<Rightarrow> False)"

definition request_data :: "nic_request \<Rightarrow> pydict" where
  "request_data rq = (case rq of NicPost _ d \<Rightarrow> d | NicPut _ d \<Rightarrow> d | NicDelete _ \<Rightarrow> [])"

lemma current_row:
  assumes "status_inv s" "api_get_vm env u s = (Inr x, t)"
  shows "t = s" "current x s" "v_uuid x = u" "\<exists>row. ss_db s u = Some row \<and> v_json x = v_json row"
proof -
  obtain row where row: "ss_db s u = Some row" "x = fresh_vm row" "t = s"
    using assms(2) by (auto simp: api_get_vm_def pbind_Inr_iff prog_Inr_iff load_vm_def api_error_def
        split: option.splits if_splits)
  show "t = s" by (rule row(3))
  show "current x s" "v_uuid x = u" unfolding row(2) by (rule current_fresh [OF assms(1) row(1)])+
  show "\<exists>row. ss_db s u = Some row \<and> v_json x = v_json row" using row by (simp add: fresh_vm_def)
qed

lemma api_get_vm_state: "api_get_vm env u s = (r, t) \<Longrightarrow> t = s"
  by (auto simp: api_get_vm_def prog_defs load_vm_def api_error_def split: option.splits if_splits)

lemma nic_saved_card:
  assumes "nic_saved x nics ser delete update s t" "i < length nics"
  shows "address_of_card t (v_uuid x) i = nic_address (nics ! i)"
  using assms by (auto simp: nic_saved_def address_of_card_def Let_def)

lemma nic_define_keeps:
  assumes inv: "addr_inv s" "status_inv s" and run: "nic_define env rq u s = (r, t)"
    and keys: "keys_once (request_data rq)" and first: "\<not> gets_first_address rq u s t"
  shows "addr_inv t \<and> status_inv t"
proof (cases "\<exists>x. api_get_vm (ne_api env) u s = (Inr x, s)")
  case False
  then have "t = s"
    using run api_get_vm_state [of "ne_api env" u s] by (auto simp: nic_define_def pbind_def split: prod.splits sum.splits)
  then show ?thesis using inv by simp
next
  case True
  then obtain x where g: "api_get_vm (ne_api env) u s = (Inr x, s)" by blast
  obtain row where c: "current x s" "v_uuid x = u" "ss_db s (v_uuid x) = Some row" "v_json x = v_json row"
    using current_row [OF inv(2) g] by blast
  have m: "(case rq of NicPost i attrs \<Rightarrow> nic_post env x i attrs | NicPut i attrs \<Rightarrow> nic_put env x i attrs
    | NicDelete i \<Rightarrow> nic_delete env x i) s = (r, t)" using run g by (simp add: nic_define_def pbind_def)
  have old: ?thesis if "defs_of t = defs_of s" "ss_db t = ss_db s" "ss_cache t = ss_cache s"
    using addr_inv_defs [OF that(1) inv(1)] inv(2) that(2,3)
    by (simp add: status_inv_def db_ok_def coherent_def cache_get_def)
  show ?thesis
  proof (cases rq)
    case (NicPost i data)
    note tr = nic_post_triple [OF c(1), of env i data, THEN tripleD(1)] nic_post_triple [OF c(1), of env i data, THEN tripleD(2)]
    show ?thesis
    proof (cases r)
      case (Inl e)
      show ?thesis using tr(2) [OF refl m [unfolded NicPost Inl nic_request.case]] old by simp
    next
      case (Inr a)
      from tr(1) [OF refl m [unfolded NicPost Inr nic_request.case]] show ?thesis
        using post_keeps [OF inv(1) c(3,4)] keys status_inv_update [OF _ c(1)] inv by (auto simp: post_result_def NicPost request_data_def)
    qed
  next
    case (NicPut i data)
    note tr = nic_put_triple [OF c(1), of env i data, THEN tripleD(1)] nic_put_triple [OF c(1), of env i data, THEN tripleD(2)]
    show ?thesis
    proof (cases r)
      case (Inl e)
      show ?thesis using tr(2) [OF refl m [unfolded NicPut Inl nic_request.case]] old by simp
    next
      case (Inr a)
      show ?thesis
      proof (cases "t = s")
        case False
        then obtain nics ser ser' where p: "json_get_nics x = Inr nics" "i < length nics"
            "fix_before env (ss_ips s) x (nics ! i) = Inr ser"
            "nic_is_valid env (ss_db s) (ss_ips s) x (Some i) ser (nic_attrs data) = Inr (Inr ser')"
            "nic_saved x (nics[i := dupdate (nics ! i) (jsondata ser')]) ser' False True s t"
          using tr(1) [OF refl m [unfolded NicPut Inr nic_request.case]] by (auto simp: put_result_def)
        have k: "keys_once data" using keys by (simp add: NicPut request_data_def)
        have "address_of_card s u i = nic_address (nics ! i)"
          using c p(1,2) by (simp add: address_of_card_def card_addresses_def json_get_nics_def Let_def)
        moreover have "address_of_card t u i = nic_address (dupdate (nics ! i) (jsondata ser'))"
          using nic_saved_card [OF p(5), of i] p(2) c(2) by simp
        ultimately have "nic_address (nics ! i) = None \<Longrightarrow> nic_address (dupdate (nics ! i) (jsondata ser')) = None"
          using first unfolding NicPut gets_first_address_def nic_request.case by metis
        then show ?thesis using put_keeps [OF inv(1) c(3,4) p(1-4) k p(5)] status_inv_update [OF p(5) c(1)] by simp
      qed (use inv in simp)
    qed
  next
    case (NicDelete i)
    note tr = nic_delete_triple [OF c(1), of env i, THEN tripleD(1)] nic_delete_triple [OF c(1), of env i, THEN tripleD(2)]
    show ?thesis
    proof (cases r)
      case (Inl e)
      show ?thesis using tr(2) [OF refl m [unfolded NicDelete Inl nic_request.case]] old by simp
    next
      case (Inr a)
      from tr(1) [OF refl m [unfolded NicDelete Inr nic_request.case]] show ?thesis
        using delete_keeps [OF inv(1) c(3,4)] status_inv_update [OF _ c(1)] by (auto simp: delete_result_def)
    qed
  qed
qed

section \<open>Sequences of requests\<close>

fun nic_run :: "(nic_env \<times> nic_request \<times> string) list \<Rightarrow> status_state \<Rightarrow> status_state" where
  "nic_run [] s = s"
| "nic_run ((env, rq, u) # rqs) s = nic_run rqs (snd (nic_define env rq u s))"

fun no_first_address :: "(nic_env \<times> nic_request \<times> string) list \<Rightarrow> status_state \<Rightarrow> bool" where
  "no_first_address [] s = True"
| "no_first_address ((env, rq, u) # rqs) s =
     (\<not> gets_first_address rq u s (snd (nic_define env rq u s)) \<and> no_first_address rqs (snd (nic_define env rq u s)))"

definition request_ok :: "nic_env \<times> nic_request \<times> string \<Rightarrow> bool" where
  "request_ok q \<longleftrightarrow> keys_once (request_data (fst (snd q)))"

lemma nic_run_keeps:
  "addr_inv s \<Longrightarrow> status_inv s \<Longrightarrow> list_all request_ok rqs \<Longrightarrow> no_first_address rqs s \<Longrightarrow> addr_inv (nic_run rqs s) \<and> status_inv (nic_run rqs s)"
proof (induction rqs s rule: nic_run.induct)
  case (2 env rq u rqs s)
  obtain r t where t: "nic_define env rq u s = (r, t)" by (cases "nic_define env rq u s")
  have "addr_inv t \<and> status_inv t"
    by (rule nic_define_keeps [OF 2(2,3) t]) (use 2(4,5) t in \<open>simp_all add: request_ok_def\<close>)
  then show ?case using 2 t by simp
qed simp

text \<open>
  C13. Whatever requests add, change and delete network cards, each as its own user and successful or
  not, two VMs never have an address in common, and every address in a definition is a row of its VM,
  as long as no change gives a card its first address.
\<close>

theorem nic_requests_keep_addresses_apart:
  assumes "addr_inv s" "status_inv s" "list_all request_ok rqs" "no_first_address rqs s"
    "ss_db (nic_run rqs s) u = Some x" "ss_db (nic_run rqs s) w = Some y" "u \<noteq> w"
  shows "set (vm_addresses x) \<inter> set (vm_addresses y) = {}
    \<and> list_all (owned (ss_ips (nic_run rqs s)) u) (vm_addresses x)"
proof -
  have i: "addr_inv (nic_run rqs s)" using nic_run_keeps [OF assms(1-4)] by simp
  have "list_all (owned (ss_ips (nic_run rqs s)) u) (vm_addresses x)"
    using i assms(5) by (auto simp: addr_inv_def list_all_iff)
  then show ?thesis using addresses_exclusive [OF i assms(5-7)] by simp
qed

text \<open>A network with addresses and one with DHCP, and two VMs, the first one with the given cards.\<close>

definition demo_subnet :: "string \<Rightarrow> string \<Rightarrow> bool \<Rightarrow> subnet" where
  "demo_subnet u n dhcp = \<lparr>sn_uuid = u, sn_name = n, sn_access = 1, sn_nic_tag = ''admin'', sn_vlan_id = 0, sn_vxlan_id = None,
     sn_netmask = ''255.255.255.0'', sn_gateway = Some ''10.0.0.1'', sn_resolvers = [], sn_ptr_domain = [], sn_mtu = None,
     sn_dhcp_passthrough = dhcp\<rparr>"

definition demo_nic_env :: nic_env where
  "demo_nic_env = \<lparr>ne_api = demo_api_env, ne_staff = False, ne_subnets = [demo_subnet ''net'' ''lan'' False, demo_subnet ''ext'' ''wan'' True],
     ne_choice = (\<lambda>n. if n = ''lan'' then Some (demo_subnet ''net'' ''lan'' False) else None), ne_node_tags = (\<lambda>_. [''admin'']),
     ne_tasks_rw = (\<lambda>_. False), ne_pick = (\<lambda>n. 0), ne_default_resolvers = VList [], ne_records_A = (\<lambda>_ _. []),
     ne_ptr_records = (\<lambda>_. False), ne_domains = [], ne_reverse = (\<lambda>s. s), ne_ptr_content = (\<lambda>_ s. s)\<rparr>"

definition demo_nic_vm :: "string \<Rightarrow> pydict list \<Rightarrow> vm" where
  "demo_nic_vm u nics = demo_vm\<lparr>v_uuid := u, v_status := NOTCREATED, v_orig_status := NOTCREATED, v_vnc_port := Some 15900,
     v_json := [(''nics'', VList (map VDict nics))]\<rparr>"

definition demo_nic_state :: "pydict list \<Rightarrow> status_state" where
  "demo_nic_state nics = \<lparr>ss_db = [''u'' \<mapsto> demo_nic_vm ''u'' nics, ''w'' \<mapsto> demo_nic_vm ''w'' []], ss_cache = (\<lambda>_. None), ss_finished = [],
     ss_ips = [\<lparr>ip_ip = ''10.0.0.5'', ip_subnet = ''net'', ip_vm = None, ip_vms = [], ip_usage = 1, ip_note = []\<rparr>,
       \<lparr>ip_ip = ''10.0.0.6'', ip_subnet = ''net'', ip_vm = None, ip_vms = [], ip_usage = 1, ip_note = []\<rparr>], ss_out = []\<rparr>"

definition demo_card_data :: "string \<Rightarrow> pydict" where
  "demo_card_data ip = [(''net'', VStr ''lan''), (''ip'', VStr ip), (''dns'', VBool False), (''monitoring'', VBool False),
     (''primary'', VBool False), (''set_gateway'', VBool True)]"

definition demo_requests :: "(nic_env \<times> nic_request \<times> string) list" where
  "demo_requests = [(demo_nic_env, NicPost 0 (demo_card_data ''10.0.0.5''), ''u''), (demo_nic_env, NicPost 0 (demo_card_data ''10.0.0.5''), ''w''),
     (demo_nic_env, NicPut 0 (demo_card_data ''10.0.0.6''), ''u''), (demo_nic_env, NicPost 0 (demo_card_data ''10.0.0.5''), ''w'')]"

definition addresses_of :: "status_state \<Rightarrow> string \<Rightarrow> (pyval \<times> pyval) list option" where
  "addresses_of s u = map_option vm_addresses (ss_db s u)"

lemma demo_nic_inv: "status_inv (demo_nic_state nics)"
  by (auto simp: status_inv_def db_ok_def coherent_def demo_nic_state_def demo_nic_vm_def demo_vm_def cache_get_def)

lemma demo_addr_inv: "list_all (\<lambda>d. keys_once d) nics \<Longrightarrow> nics_addresses nics = [] \<Longrightarrow> addr_inv (demo_nic_state nics)"
  by (auto simp: addr_inv_def demo_nic_state_def demo_nic_vm_def row_key_def cards_once_def vm_addresses_def json_get_nics_def
      get_dicts_def dget_def dict_list_of_map dict_list.simps(1) split: if_splits)

text \<open>
  Another VM cannot have an address that is taken, and can have it when its card has got another one.
\<close>

theorem nic_requests_keep_addresses_apart_witness:
  "\<exists>x y. ss_db (nic_run demo_requests (demo_nic_state [])) ''u'' = Some x \<and> ss_db (nic_run demo_requests (demo_nic_state [])) ''w'' = Some y
     \<and> vm_addresses x = [(VStr ''10.0.0.6'', VStr ''net'')] \<and> vm_addresses y = [(VStr ''10.0.0.5'', VStr ''net'')]
     \<and> set (vm_addresses x) \<inter> set (vm_addresses y) = {}"
proof -
  have a: "addresses_of (nic_run demo_requests (demo_nic_state [])) ''u'' = Some [(VStr ''10.0.0.6'', VStr ''net'')]
    \<and> addresses_of (nic_run demo_requests (demo_nic_state [])) ''w'' = Some [(VStr ''10.0.0.5'', VStr ''net'')]" by code_simp
  then obtain x y where x: "ss_db (nic_run demo_requests (demo_nic_state [])) ''u'' = Some x" "vm_addresses x = [(VStr ''10.0.0.6'', VStr ''net'')]"
    and y: "ss_db (nic_run demo_requests (demo_nic_state [])) ''w'' = Some y" "vm_addresses y = [(VStr ''10.0.0.5'', VStr ''net'')]"
    by (auto simp: addresses_of_def)
  have r: "list_all request_ok demo_requests" "no_first_address demo_requests (demo_nic_state [])" by code_simp+
  have i: "addr_inv (demo_nic_state [])" by (rule demo_addr_inv) simp_all
  from nic_requests_keep_addresses_apart [OF i demo_nic_inv r x(1) y(1)] x y show ?thesis by simp
qed

text \<open>
  A card that gets its first address by a change: the address stays without an owner and is given to
  a second VM.
\<close>

theorem first_address_given_twice:
  "\<exists>s d. addr_inv s \<and> status_inv s
     \<and> (let t = nic_run [(demo_nic_env, NicPut 0 d, ''u''), (demo_nic_env, NicPost 0 d, ''w'')] s in
        addresses_of t ''u'' = Some [(VStr ''10.0.0.5'', VStr ''net'')] \<and> addresses_of t ''w'' = Some [(VStr ''10.0.0.5'', VStr ''net'')])"
proof -
  let ?n = "[(''ip'', VStr ''dhcp''), (''network_uuid'', VStr ''ext'')]" and ?d = "demo_card_data ''10.0.0.5''"
  let ?t = "nic_run [(demo_nic_env, NicPut 0 ?d, ''u''), (demo_nic_env, NicPost 0 ?d, ''w'')] (demo_nic_state [?n])"
  have "addresses_of ?t ''u'' = Some [(VStr ''10.0.0.5'', VStr ''net'')] \<and> addresses_of ?t ''w'' = Some [(VStr ''10.0.0.5'', VStr ''net'')]"
    by code_simp
  moreover have "addr_inv (demo_nic_state [?n])"
    by (rule demo_addr_inv) (simp_all add: nics_addresses_Cons nic_address_def is_ip_def dget_def)
  ultimately show ?thesis using demo_nic_inv [of "[?n]"] unfolding Let_def by blast
qed

end
