(* ===== verification/Vm_Def_Safe.thy ===== *)
theory Vm_Def_Safe
  imports Vm_Def_Inv Nic_Safe
begin

text \<open>
  What the requests for definitions keep: the cached status of every VM, so that a node may be chosen by them in the
  course of a creation, and the uniqueness of names. A VM that is accepted on a node fits there.
\<close>

section \<open>A valid change\<close>

lemma valid_change:
  assumes "def_is_valid env db None (Some x) data = Inr (Inr (ser, y))"
  obtains attrs0 ser1 attrs where "restore_fields (df_fields env) True (def_fields env (is_hvm x) (is_kvm x)) data = Inr ([], attrs0)"
    "validate_methods (def_methods env db (def_fields env (is_hvm x) (is_kvm x))) True (map fst (def_fields env (is_hvm x) (is_kvm x))) [] attrs0
       (new_def_ser (Some x)) = Inr ([], attrs0, ser1)"
    "dv_object ser1 = Some x" "dv_object ser = Some x"
    "def_check env db False (is_hvm x) (is_hvm x \<and> \<not> is_kvm x) data attrs0 ser1 = Inr ([], attrs, ser)"
    "restore_object env attrs ser = Inr y"
proof -
  let ?fs = "def_fields env (is_hvm x) (is_kvm x)"
  have k: "is_hvm_of env (Some x) data None = is_hvm x" "is_kvm_of env (Some x) data None = is_kvm x"
    by (simp_all add: is_hvm_of_def is_kvm_of_def)
  from assms obtain r where r: "perform_validation (def_methods env db ?fs) (def_check env db False (is_hvm x) (is_hvm x \<and> \<not> is_kvm x) data)
        (df_fields env) True ?fs data (new_def_ser (Some x)) = Inr r"
      "(case r of Inl errors \<Rightarrow> Inr (Inl errors) | Inr (attrs, s) \<Rightarrow> rbind (restore_object env attrs s) (\<lambda>x. Inr (Inr (s, x)))) = Inr (Inr (ser, y))"
    by (auto simp: def_is_valid_def Let_def k rbind_Inr_iff)
  then obtain attrs where p: "perform_validation (def_methods env db ?fs) (def_check env db False (is_hvm x) (is_hvm x \<and> \<not> is_kvm x) data)
        (df_fields env) True ?fs data (new_def_ser (Some x)) = Inr (Inr (attrs, ser))" and y: "restore_object env attrs ser = Inr y"
    by (cases r) (auto simp: rbind_Inr_iff)
  from p obtain errors attrs0 attrs1 ser1 where v: "restore_fields (df_fields env) True ?fs data = Inr (errors, attrs0)"
      "validate_methods (def_methods env db ?fs) True (map fst ?fs) errors attrs0 (new_def_ser (Some x)) = Inr ([], attrs1, ser1)"
      "def_check env db False (is_hvm x) (is_hvm x \<and> \<not> is_kvm x) data attrs1 ser1 = Inr ([], attrs, ser)"
    unfolding perform_validation_def by (auto simp: rbind_Inr_iff split: if_splits)
  from validate_methods_ok [OF v(2) methods_check] have m: "errors = []" "attrs1 = attrs0" "dv_object ser1 = Some x"
    by (simp_all add: new_def_ser_def)
  from check_object [OF v(3)] m(3) have "dv_object ser = Some x" by simp
  with that v y m show thesis by simp
qed

lemma valid_change_row:
  assumes "def_is_valid env db None (Some x) data = Inr (Inr (ser, y))"
  shows "same_row x y"
proof -
  obtain attrs where "dv_object ser = Some x" "restore_object env attrs ser = Inr y" by (rule valid_change [OF assms])
  with restore_object_row(1) show ?thesis by fastforce
qed

lemma valid_change_name:
  assumes "def_is_valid env db None (Some x) data = Inr (Inr (ser, y))" "plain_templates env"
  shows "v_hostname y = v_hostname x \<or> v_hostname y = v_uuid x \<or> free_name env db (v_hostname y)"
proof -
  let ?fs = "def_fields env (is_hvm x) (is_kvm x)"
  obtain attrs0 ser1 attrs where v: "restore_fields (df_fields env) True ?fs data = Inr ([], attrs0)"
    "validate_methods (def_methods env db ?fs) True (map fst ?fs) [] attrs0 (new_def_ser (Some x)) = Inr ([], attrs0, ser1)"
    "dv_object ser = Some x" "def_check env db False (is_hvm x) (is_hvm x \<and> \<not> is_kvm x) data attrs0 ser1 = Inr ([], attrs, ser)"
    "restore_object env attrs ser = Inr y" by (rule valid_change [OF assms(1)])
  from restore_object_row(2) [OF v(5) assms(2)] v(3) have "given_name attrs x (v_hostname y)" by simp
  then consider "v_hostname y = v_hostname x" | "(''hostname'', VStr (v_hostname y)) \<in> set attrs" by (auto simp: given_name_def)
  then show ?thesis
  proof cases
    case 2
    have in0: "(''hostname'', VStr (v_hostname y)) \<in> set attrs0" by (rule checked_attrs [OF v(4) 2]) simp_all
    note r = restore_fields_keys [OF v(1) def_fields_distinct]
    from in0 r have k: "map_of attrs0 ''hostname'' = Some (VStr (v_hostname y))" by simp
    have f: "''hostname'' \<in> set (map fst ?fs)" by (simp add: def_fields_def Let_def)
    have m: "def_methods env db ?fs ''hostname'' = Some (def_validate_hostname env db)" by (simp add: def_methods_def Let_def)
    have d: "dhas attrs0 ''hostname''" using k by (simp add: dhas_iff)
    have o': "dv_object (new_def_ser (Some x)) = Some x" by (simp add: new_def_ser_def)
    from validate_methods_ok [OF v(2) methods_check] f m d obtain s1 s2 where
        "dv_object s1 = Some x" "def_validate_hostname env db attrs0 s1 = Inr ([], attrs0, s2)"
      unfolding o' by blast
    from validate_hostname_free [OF this(2) k] this(1) show ?thesis by auto
  qed simp
qed

section \<open>The cached status\<close>

lemma status_inv_out [simp]: "status_inv (s\<lparr>ss_out := es\<rparr>) = status_inv s" "current x (s\<lparr>ss_out := es\<rparr>) = current x s"
  by (simp_all add: status_inv_def db_ok_def coherent_def current_def)

lemma whole_save_inv:
  assumes "current x s" "same_row x y" "st_save env a y s = (Inr z, t)" "sv_fields a = None"
  shows "current z t \<and> v_uuid z = v_uuid x"
proof -
  obtain row where row: "ss_db s (v_uuid x) = Some row" "v_status row = v_status x" and i: "status_inv s"
    using assms(1) by (auto simp: current_def)
  note w = st_save_whole [OF assms(3,4)]
  have e: "v_status y = v_orig_status y" "v_uuid y = v_uuid x" "v_status y = v_status x"
    using assms(1,2) by (simp_all add: current_def same_row_def)
  obtain es where t: "t = s\<lparr>ss_db := (ss_db s)(v_uuid x \<mapsto> z), ss_cache := ss_cache s, ss_out := es\<rparr>"
    using w e by auto
  have "status_inv (s\<lparr>ss_db := (ss_db s)(v_uuid x \<mapsto> z), ss_cache := ss_cache s\<rparr>)"
    by (rule status_inv_write [OF i row(1)]) (use w e row(2) in \<open>auto simp: plain_vm_def\<close>)
  then have it: "status_inv t" unfolding t by simp
  then show ?thesis using w e by (auto simp: current_def t)
qed

lemma def_put_current:
  assumes "current x s" "def_put env x data s = (r, t)"
  shows "status_inv t \<and> (\<forall>z. r = Inr (Inr z) \<longrightarrow> current z t \<and> v_uuid z = v_uuid x)"
proof (cases rule: def_put_result [OF assms(2)])
  case 1
  then show ?thesis using assms(1) current_inv by blast
next
  case (2 ser y z u es)
  have "sv_fields (def_save_args ser) = None" by (simp add: def_save_args_def)
  from whole_save_inv [OF assms(1) valid_change_row [OF 2(1)] 2(2) this] 2(3,4) current_inv show ?thesis by auto
qed

text \<open>
  The choice of a node by the definition API, which saves the VM with its new node, keeps the object as the database has
  it and the cached status right: what the creation of a VM demands of its choice.
\<close>

lemma choice_is_ok: "choice_ok (menv\<lparr>me_choose := def_choose_node env\<rparr>)"
proof -
  have "triple (current x) (def_choose_node env x) (\<lambda>y s. current y s) status_inv" for x
  proof (rule tripleI)
    fix s e t assume s: "current x s" "def_choose_node env x s = (Inl e, t)"
    obtain r where r: "fst (choose_node (v_dc x) x (df_nodes env)) = r" by simp
    have "t = s \<or> (\<exists>(n :: node) q. def_put env x [(''node'', VStr (n_hostname n))] s = (q, t))"
    proof (cases r)
      case (Inr q)
      show ?thesis
      proof (cases q)
        case (Some n)
        obtain q' u where p: "def_put env x [(''node'', VStr (n_hostname n))] s = (q', u)" by force
        then have "u = t" using s(2) r Inr Some
          by (auto simp: def_choose_node_def Let_def prog_defs api_error_def split: sum.splits option.splits)
        with p show ?thesis by blast
      qed (use s(2) r Inr in \<open>auto simp: def_choose_node_def Let_def prog_defs api_error_def\<close>)
    qed (use s(2) r in \<open>auto simp: def_choose_node_def Let_def prog_defs\<close>)
    then show "status_inv t" using def_put_current [OF s(1)] current_inv [OF s(1)] by blast
  next
    fix s y t assume s: "current x s" "def_choose_node env x s = (Inr y, t)"
    obtain n where "fst (choose_node (v_dc x) x (df_nodes env)) = Inr (Some n)"
        "def_put env x [(''node'', VStr (n_hostname n))] s = (Inr (Inr y), t)"
      using s(2) by (auto simp: def_choose_node_def Let_def prog_defs api_error_def split: prod.splits sum.splits option.splits)
    with def_put_current [OF s(1)] show "current y t" by blast
  qed
  then show ?thesis by (simp add: choice_ok_def)
qed

text \<open>The tables of VMs and the cache are not touched by the addresses of a card.\<close>

definition fixed_rows :: "(string \<Rightarrow> vm option) \<Rightarrow> (string \<Rightarrow> pyval option) \<Rightarrow> status_state \<Rightarrow> bool" where
  "fixed_rows D C s \<longleftrightarrow> ss_db s = D \<and> ss_cache s = C"

lemma fixed_out: "keeps (fixed_rows D C) (out es)" "keeps (fixed_rows D C) (map_ips f)"
  by (simp_all add: keeps_def out_def map_ips_def pmod_def fixed_rows_def)

lemma fixed_addr: "(\<And>r. keeps (fixed_rows D C) (f r)) \<Longrightarrow> keeps (fixed_rows D C) (with_addr a f)"
  by (cases a) (simp_all add: with_addr_def keeps_pure)

lemma fixed_association:
  "keeps (fixed_rows D C) (remove_vm_ip_association x r many)" "keeps (fixed_rows D C) (update_vm_ip_association x r delete many)"
  by (auto simp: remove_vm_ip_association_def create_vm_ip_association_def update_vm_ip_association_def ip_save_def vms_remove_def
      vms_add_def intro!: keeps_intros fixed_out)

lemma fixed_dns: "keeps (fixed_rows D C) (save_a env x r dns delete)" "keeps (fixed_rows D C) (save_ptr env x r ptr delete)"
  unfolding save_a_def save_ptr_def dns_call_def Let_def by (auto intro!: keeps_intros fixed_out split: prod.splits)

lemma fixed_save_ip: "keeps (fixed_rows D C) (save_ip env x ser delete update)"
  unfolding save_ip_def save_ip_rows_def save_allowed_rows_def save_dns_def Let_def
  by (auto intro!: keeps_intros fixed_addr fixed_association fixed_dns)

lemma fixed_cards:
  "keeps (fixed_rows D C) (pfor nics (\<lambda>nic. ignore_errors (pbind (\<lambda>s. (fix_before env (ss_ips s) x nic, s)) (\<lambda>ser. save_ip env x ser True False))))"
proof (rule keeps_pfor)
  fix nic
  have "keeps (fixed_rows D C) (\<lambda>s. (fix_before env (ss_ips s) x nic, s))" by (simp add: keeps_def)
  then have "keeps (fixed_rows D C) (pbind (\<lambda>s. (fix_before env (ss_ips s) x nic, s)) (\<lambda>ser. save_ip env x ser True False))"
    by (rule keeps_pbind) (rule fixed_save_ip)
  then show "keeps (fixed_rows D C) (ignore_errors (pbind (\<lambda>s. (fix_before env (ss_ips s) x nic, s)) (\<lambda>ser. save_ip env x ser True False)))"
    by (simp add: keeps_def ignore_errors_def)
qed

text \<open>A deletion removes the row with its cached status, or leaves all rows; then the cached status may be gone, too.\<close>

definition drop_cached :: "string \<Rightarrow> (string \<Rightarrow> pyval option) \<Rightarrow> string \<Rightarrow> pyval option" where
  "drop_cached u C = C(vm_status_key u := None, vm_status_change_key u := None)"

lemma delete_row_result:
  assumes "delete_row env x s = (r, t)"
  shows "ss_db t = (ss_db s)(v_uuid x := None) \<and> ss_cache t = drop_cached (v_uuid x) (ss_cache s)"
  using assms by (auto simp: delete_row_def prog_defs out_def drop_cached_def split: sum.splits)

lemma def_delete_result:
  assumes "def_delete env tid x s = (r, t)"
  shows "ss_db t = ss_db s \<and> ss_cache t \<in> {ss_cache s, drop_cached (v_uuid x) (ss_cache s)}
    \<or> ss_db t = (ss_db s)(v_uuid x := None) \<and> ss_cache t = drop_cached (v_uuid x) (ss_cache s) \<and> is_notcreated x"
proof -
  let ?m = "if is_deployed x then api_error VmIsNotOperational ''VM is not notcreated'' else
     pbind (pres (json_get_nics x)) (\<lambda>nics.
     pbind (pfor nics (\<lambda>nic. ignore_errors (pbind (\<lambda>s. (fix_before (df_nic env) (ss_ips s) x nic, s)) (\<lambda>ser.
       save_ip (df_nic env) x ser True False)))) (\<lambda>_.
     pbind (delete_row (df_status env) x) (\<lambda>_. out [Signal ''vm_undefined'' tid (v_uuid x)])))"
  obtain q u where m: "?m s = (q, u)" by force
  have u: "ss_db u = ss_db s \<and> ss_cache u = ss_cache s
    \<or> ss_db u = (ss_db s)(v_uuid x := None) \<and> ss_cache u = drop_cached (v_uuid x) (ss_cache s) \<and> is_notcreated x"
  proof (cases "is_deployed x")
    case True
    then show ?thesis using m by (auto simp: api_error_def pres_def)
  next
    case False
    then have nc: "is_notcreated x" by (auto simp: is_deployed_def is_notcreated_def)
    show ?thesis
    proof (cases "json_get_nics x")
      case (Inl e)
      then show ?thesis using m False by (auto simp: pbind_def pres_def)
    next
      case (Inr nics)
      obtain q1 s1 where c: "pfor nics (\<lambda>nic. ignore_errors (pbind (\<lambda>s. (fix_before (df_nic env) (ss_ips s) x nic, s)) (\<lambda>ser.
          save_ip (df_nic env) x ser True False))) s = (q1, s1)" by force
      have "fixed_rows (ss_db s) (ss_cache s) s" by (simp add: fixed_rows_def)
      from keepsD [OF fixed_cards this c] have f: "ss_db s1 = ss_db s" "ss_cache s1 = ss_cache s" by (simp_all add: fixed_rows_def)
      obtain q2 s2 where d: "delete_row (df_status env) x s1 = (q2, s2)" by force
      note dr = delete_row_result [OF d]
      show ?thesis using m False Inr c d dr f nc
        by (auto simp: pbind_def pres_def out_def pmod_def split: sum.splits)
    qed
  qed
  have "t = s \<or> db_atomic ?m s = (r, t)" using if_vm_operational_result [OF assms [unfolded def_delete_def]] by blast
  then show ?thesis
  proof
    assume "db_atomic ?m s = (r, t)"
    then show ?thesis using u m by (auto simp: db_atomic_def split: sum.splits)
  qed simp
qed

lemma status_inv_drop:
  assumes "status_inv s" "ss_db t = ss_db s \<and> ss_cache t \<in> {ss_cache s, drop_cached u (ss_cache s)}
    \<or> ss_db t = (ss_db s)(u := None) \<and> ss_cache t = drop_cached u (ss_cache s)"
  shows "status_inv t"
proof -
  have d: "drop_cached u (ss_cache s) (vm_status_key v) = (if v = u then None else ss_cache s (vm_status_key v))" for v
    by (simp add: drop_cached_def)
  have g: "cache_get (vm_status_key v) s = Some w \<and> (ss_cache t = drop_cached u (ss_cache s) \<longrightarrow> v \<noteq> u)"
    if c: "cache_get (vm_status_key v) t = Some w" for v w
  proof (cases "ss_cache t = drop_cached u (ss_cache s)")
    case True
    then show ?thesis using c d [of v] by (auto simp: cache_get_def split: if_splits)
  next
    case False
    then show ?thesis using c assms(2) by (auto simp: cache_get_def)
  qed
  show ?thesis using assms unfolding status_inv_def db_ok_def coherent_def by (fastforce dest: g split: if_splits)
qed

lemma api_get_vm_result:
  assumes "api_get_vm env u s = (r, t)"
  shows "t = s \<and> (\<forall>x. r = Inr x \<longrightarrow> (\<exists>row. ss_db s u = Some row \<and> x = fresh_vm row))"
  using assms by (auto simp: api_get_vm_def load_vm_def prog_defs api_error_def split: option.splits if_splits)

lemma vm_define_result:
  assumes "vm_define env rq tid u s = (r, t)"
  obtains "t = s"
  | row data q where "ss_db s u = Some row" "def_put env (fresh_vm row) data s = (q, t)"
  | row q where "ss_db s u = Some row" "def_delete env tid (fresh_vm row) s = (q, t)"
proof -
  obtain r1 t1 where g: "api_get_vm (ne_api (df_nic env)) u s = (r1, t1)" by force
  note gr = api_get_vm_result [OF g]
  show thesis
  proof (cases r1)
    case (Inl e)
    then show ?thesis using that(1) assms g gr by (auto simp: vm_define_def pbind_def)
  next
    case (Inr x)
    then obtain row where row: "ss_db s u = Some row" "x = fresh_vm row" "t1 = s" using gr by blast
    show ?thesis
    proof (cases rq)
      case (DefPut data)
      obtain q t2 where p: "def_put env x data s = (q, t2)" by force
      then have "t2 = t" using assms g Inr row DefPut by (auto simp: vm_define_def pbind_def pret_def split: sum.splits)
      then show ?thesis using that(2) row p by blast
    next
      case DefDelete
      obtain q t2 where p: "def_delete env tid x s = (q, t2)" by force
      then have "t2 = t" using assms g Inr row DefDelete by (auto simp: vm_define_def pbind_def pret_def split: sum.splits)
      then show ?thesis using that(3) row p by blast
    qed
  qed
qed

lemma fresh_current: "status_inv s \<Longrightarrow> ss_db s u = Some row \<Longrightarrow> current (fresh_vm row) s"
  by (rule current_fresh)

lemma vm_define_inv:
  assumes "status_inv s" "vm_define env rq tid u s = (r, t)"
  shows "status_inv t"
proof (cases rule: vm_define_result [OF assms(2)])
  case 1
  then show ?thesis using assms(1) by simp
next
  case (2 row data q)
  then show ?thesis using def_put_current fresh_current [OF assms(1)] by blast
next
  case (3 row q)
  from def_delete_result [OF 3(2)] status_inv_drop [OF assms(1)] show ?thesis by blast
qed

text \<open>Everything that happens to VMs, with the requests for definitions and the choice of a node by them.\<close>

inductive vm_life :: "status_state \<Rightarrow> status_state \<Rightarrow> bool" where
  life_op: "vm_op s t \<Longrightarrow> vm_life s t"
| life_define: "vm_life s (snd (vm_define env rq tid u s))"
| life_create: "vm_life s (snd (manage_post (menv\<lparr>me_choose := def_choose_node env\<rparr>) mrq tid u s))"

lemma vm_life_inv: "vm_life s t \<Longrightarrow> status_inv s \<Longrightarrow> status_inv t"
proof (induction rule: vm_life.induct)
  case (life_op s t)
  then show ?case by (rule vm_op_inv)
next
  case (life_define s env rq tid u)
  then show ?case by (cases "vm_define env rq tid u s") (auto dest: vm_define_inv)
next
  case (life_create s menv env mrq tid u)
  from triple_snd [OF triple_manage_post [OF choice_is_ok]] life_create show ?case .
qed

text \<open>
  C1. The cached status of a VM, on which every check of a report relies, is always the status in
  the database: after any sequence of reports, commands, callbacks and requests for definitions, also of those that
  fail, a status that is read from the cache belongs to a VM that exists and that has this status.
\<close>

theorem cache_agrees_for_life:
  assumes "vm_life\<^sup>*\<^sup>* s t" "status_inv s" "cache_get (vm_status_key u) t = Some v"
  shows "\<exists>x. ss_db t u = Some x \<and> v = VInt (v_status x)"
proof -
  have "status_inv t" using assms(1,2) by (induction rule: rtranclp_induct) (auto dest: vm_life_inv)
  with assms(3) show ?thesis by (simp add: status_inv_def coherent_def)
qed

section \<open>Unique names\<close>

text \<open>No name is the name or the UUID of another VM, in any case of letters.\<close>

definition apart :: "vm \<Rightarrow> vm \<Rightarrow> bool" where
  "apart x y \<longleftrightarrow> \<not> same_text (v_hostname x) (v_hostname y) \<and> \<not> same_text (v_hostname x) (v_uuid y)
     \<and> \<not> same_text (v_uuid x) (v_hostname y) \<and> \<not> same_text (v_uuid x) (v_uuid y)"

definition names_unique :: "(string \<Rightarrow> vm option) \<Rightarrow> bool" where
  "names_unique db \<longleftrightarrow> (\<forall>u x. db u = Some x \<longrightarrow> v_uuid x = u)
     \<and> (\<forall>u v x y. db u = Some x \<longrightarrow> db v = Some y \<longrightarrow> u \<noteq> v \<longrightarrow> apart x y)"

text \<open>A request of a definition while the user that sends it reads all VMs.\<close>

inductive def_step :: "status_state \<Rightarrow> status_state \<Rightarrow> bool" where
  "plain_templates env \<Longrightarrow> (\<forall>u. ss_db s u \<noteq> None \<longrightarrow> u \<in> set (df_uuids env))
     \<Longrightarrow> def_step s (snd (vm_define env rq tid u s))"

lemma free_name_apart:
  assumes "free_name env db h" "\<forall>u. db u \<noteq> None \<longrightarrow> u \<in> set (df_uuids env)" "db v = Some y"
  shows "\<not> same_text (v_hostname y) h \<and> \<not> same_text (v_uuid y) h"
proof -
  have "v \<in> set (df_uuids env)" using assms(2,3) by simp
  then have "y \<in> set (db_vms env db)" using assms(3) unfolding db_vms_def
    by (force simp: List.map_filter_def)
  with assms(1) show ?thesis by (simp add: free_name_def list_all_iff)
qed

lemma names_unique_put:
  assumes "names_unique (ss_db s)" "plain_templates env" "\<forall>u. ss_db s u \<noteq> None \<longrightarrow> u \<in> set (df_uuids env)"
    "ss_db s u = Some row" "def_put env (fresh_vm row) data s = (q, t)"
  shows "names_unique (ss_db t)"
proof (cases rule: def_put_result [OF assms(5)])
  case 1
  then show ?thesis using assms(1) by simp
next
  case (2 ser y z w es)
  let ?x = "fresh_vm row"
  have x: "v_uuid ?x = u" "v_hostname ?x = v_hostname row" "v_uuid row = u"
    using assms(1,4) by (auto simp: names_unique_def fresh_vm_def)
  have r: "same_row ?x y" by (rule valid_change_row [OF 2(1)])
  have "sv_fields (def_save_args ser) = None" by (simp add: def_save_args_def)
  note sw = st_save_whole [OF 2(2) this]
  have z: "v_uuid z = u" "v_hostname z = v_hostname y" "ss_db t = (ss_db s)(u \<mapsto> z)"
    using sw r x by (auto simp: same_row_def 2(4))
  have name: "v_hostname y = v_hostname row \<or> v_hostname y = u \<or> free_name env (ss_db s) (v_hostname y)"
    using valid_change_name [OF 2(1) assms(2)] x by simp
  have a: "apart z p \<and> apart p z" if p: "ss_db s v = Some p" "v \<noteq> u" for v p
  proof -
    have "apart row p" using assms(1,4) p unfolding names_unique_def by blast
    moreover have "free_name env (ss_db s) (v_hostname y) \<Longrightarrow> \<not> same_text (v_hostname p) (v_hostname y) \<and> \<not> same_text (v_uuid p) (v_hostname y)"
      by (rule free_name_apart [OF _ assms(3) p(1)])
    ultimately show ?thesis using name z(1,2) x(3) by (auto simp: apart_def same_text_def)
  qed
  show ?thesis using assms(1) a z(1) unfolding names_unique_def z(3) by auto
qed

lemma names_unique_delete: "names_unique db \<Longrightarrow> names_unique (db(u := None))"
  by (auto simp: names_unique_def)

lemma def_step_names: "def_step s t \<Longrightarrow> names_unique (ss_db s) \<Longrightarrow> names_unique (ss_db t)"
proof (induction rule: def_step.induct)
  case (1 env s rq tid u)
  obtain r t where t: "vm_define env rq tid u s = (r, t)" by force
  show ?case
  proof (cases rule: vm_define_result [OF t])
    case 1
    then show ?thesis using \<open>names_unique (ss_db s)\<close> t by simp
  next
    case (2 row data q)
    from names_unique_put [OF 1(3,1,2) 2] show ?thesis by (simp add: t)
  next
    case (3 row q)
    from def_delete_result [OF 3(2)] have "ss_db t = ss_db s \<or> ss_db t = (ss_db s)(v_uuid (fresh_vm row) := None)" by blast
    then show ?thesis using names_unique_delete [OF 1(3)] 1(3) unfolding t snd_conv by metis
  qed
qed

text \<open>
  C4. Names identify VMs. However definitions are changed and deleted, no VM gets the host name or
  the UUID of another one as its name, in whatever case, so that a request that names a VM means one VM. A VM may get its
  own UUID as its name. The templates must not define a host name, which nothing would check.
\<close>

theorem names_stay_unique:
  assumes "def_step\<^sup>*\<^sup>* s t" "names_unique (ss_db s)" "ss_db t u = Some x" "ss_db t v = Some y" "u \<noteq> v"
  shows "apart x y"
proof -
  have "names_unique (ss_db t)" using assms(1,2) by (induction rule: rtranclp_induct) (auto dest: def_step_names)
  with assms(3-5) show ?thesis unfolding names_unique_def by blast
qed

section \<open>Resources\<close>

lemma fixed_attr: "k \<notin> {''owner'', ''cpu_type''} \<Longrightarrow> map_of (fix_owner env obj (fix_cpu_type obj os data attrs)) k = map_of attrs k"
  by (auto simp: fix_owner_def fix_cpu_type_def update_conv' delete_conv' restrict_map_def)

lemma asked_fixed:
  "asked_cpu (fix_owner env obj (fix_cpu_type obj os data attrs)) = asked_cpu attrs"
  "asked_ram (fix_owner env obj (fix_cpu_type obj os data attrs)) = asked_ram attrs"
  by (simp_all add: asked_cpu_def asked_ram_def dget_def fixed_attr)

lemma found: "find P xs = Some x \<Longrightarrow> x \<in> set xs \<and> P x"
  by (auto simp: find_Some_iff)

lemma check_disks_fit:
  assumes "check_disks env n ds = ([], st)" "(pool, mb) \<in> set ds"
  shows "\<exists>ns \<in> set (visible_zpools env). ns_node ns = n_uuid n \<and> VStr (ns_zpool ns) = pool \<and> mb \<le> st_size_free (ns_storage ns)"
  using assms
proof (induction ds arbitrary: st)
  case (Cons d ds)
  obtain p m where d: "d = (p, m)" by force
  obtain es st1 where c: "check_disks env n ds = (es, st1)" by force
  from Cons.prems(1) d c have es: "es = []" and
    f: "\<exists>ns. find (\<lambda>ns. ns_node ns = n_uuid n \<and> VStr (ns_zpool ns) = p) (visible_zpools env) = Some ns \<and> check_free_space ns m"
    by (auto simp: validate_zpool_def split: option.splits if_splits)
  show ?case
  proof (cases "(pool, mb) \<in> set ds")
    case True
    from Cons.IH [OF c [unfolded es] True] show ?thesis .
  next
    case False
    then have "pool = p" "mb = m" using Cons.prems(2) d by auto
    moreover obtain ns where "find (\<lambda>ns. ns_node ns = n_uuid n \<and> VStr (ns_zpool ns) = p) (visible_zpools env) = Some ns"
        "check_free_space ns m" using f by blast
    ultimately show ?thesis using found [of _ "visible_zpools env" ns] unfolding check_free_space_def by blast
  qed
qed simp

lemma old_resources_some:
  assumes "old_resources env (Some x) (Some n) = Inr (errors, st, cpu, mem, disk)"
  obtains disks zp st1 where "get_disks None False x = Inr disks" "node_zpool n = Inr zp"
    "get_cpu_ram_disk zp False None None x = Inr (cpu, mem, disk)" "check_disks env n disks = (errors, st1)"
proof -
  from assms obtain disks zp c where d: "get_disks None False x = Inr disks" "node_zpool n = Inr zp"
      "get_cpu_ram_disk zp False None None x = Inr c"
    by (auto simp: old_resources_def rbind_Inr_iff)
  obtain es st1 where e: "check_disks env n disks = (es, st1)" by force
  obtain c1 c2 c3 where c: "c = (c1, c2, c3)" by (cases c) auto
  have "es = errors" "c1 = cpu" "c2 = mem" "c3 = disk" using assms by (auto simp: old_resources_def d e c rbind_def)
  with that d e c show thesis by blast
qed

lemma free_errors_none:
  assumes "free_errors r d = []"
  shows "dm_cpu d \<le> max 0 (dn_cpu_free r)" "dm_ram d \<le> max 0 (dn_ram_free r)" "dm_disk d \<le> max 0 (dn_disk_free r)"
  using assms by (auto simp: free_errors_def check_free_resources_def split: if_splits)

lemma no_resource_errors:
  assumes "validate_node_resources env hvm bhyve attrs ser = Inr ([], ser')" "node_demand env hvm attrs ser = Inr (errors, st, Some d)"
  shows "errors = []" "\<exists>r. get_dc_node env (dm_node d) = Inr r \<and> free_errors r d = []"
  using assms by (auto simp: validate_node_resources_def rbind_Inr_iff Let_def)

lemma check_resources:
  assumes "def_check env db post hvm bhyve data attrs ser = Inr ([], attrs', ser')"
  shows "\<exists>os. validate_node_resources env hvm bhyve (fix_owner env (dv_object ser) (fix_cpu_type (dv_object ser) os data attrs)) ser = Inr ([], ser')"
  by (rule check_parts [OF assms]) (auto split: if_splits)

text \<open>
  C5. A VM that moves to another node fits there: when the request is accepted, the CPUs and the memory
  that it asks for (or that the VM has already) and the disk space of the VM are free in the datacenter on the node, and every disk
  fits on a storage of the node that the user may see. Nothing is said of a request that leaves the VM on its node.
\<close>

theorem accepted_move_fits:
  assumes "def_check env db post hvm bhyve data attrs ser = Inr ([], attrs', ser')" "dv_node_changed ser" "dv_object ser = Some x"
    "map_of attrs ''node'' = Some v" "node_of_val env v = Some n"
  shows "\<exists>r disks zp in_cpu in_ram cpu mem disk. get_dc_node env n = Inr r
    \<and> asked_cpu attrs = Inr in_cpu \<and> asked_ram attrs = Inr in_ram \<and> node_zpool n = Inr zp
    \<and> get_cpu_ram_disk zp False None None x = Inr (cpu, mem, disk) \<and> get_disks None False x = Inr disks
    \<and> (case in_cpu of None \<Rightarrow> cpu | Some i \<Rightarrow> i) \<le> max 0 (dn_cpu_free r)
    \<and> (case in_ram of None \<Rightarrow> mem | Some i \<Rightarrow> i) + (if hvm then KVM_MEMORY_OVERHEAD else 0) \<le> max 0 (dn_ram_free r)
    \<and> disk \<le> max 0 (dn_disk_free r)
    \<and> (\<forall>(pool, mb) \<in> set disks. \<exists>ns \<in> set (visible_zpools env).
          ns_node ns = n_uuid n \<and> VStr (ns_zpool ns) = pool \<and> mb \<le> st_size_free (ns_storage ns))"
proof -
  obtain os where vr: "validate_node_resources env hvm bhyve (fix_owner env (dv_object ser) (fix_cpu_type (dv_object ser) os data attrs)) ser = Inr ([], ser')"
    using check_resources [OF assms(1)] by blast
  let ?attrs = "fix_owner env (dv_object ser) (fix_cpu_type (dv_object ser) os data attrs)"
  have v: "ditem ?attrs ''node'' = Inr v" using assms(4) by (simp add: ditem_def fixed_attr)
  obtain errors st wanted where "node_demand env hvm ?attrs ser = Inr (errors, st, wanted)"
    using vr by (auto simp: validate_node_resources_def rbind_Inr_iff)
  note nd = this
  then obtain in_cpu in_ram where i: "asked_cpu attrs = Inr in_cpu" "asked_ram attrs = Inr in_ram"
      "moved_demand env hvm (Some x) (Some n) in_cpu in_ram = Inr (errors, st, wanted)"
    using assms(2,3,5) v by (auto simp: node_demand_def asked_fixed rbind_Inr_iff)
  from i(3) obtain st2 cpu mem disk where old: "old_resources env (Some x) (Some n) = Inr (errors, st2, cpu, mem, disk)"
      and w: "wanted = Some \<lparr>dm_node = n, dm_cpu = (case in_cpu of None \<Rightarrow> cpu | Some c \<Rightarrow> c),
          dm_ram = (case in_ram of None \<Rightarrow> mem + (if hvm then KVM_MEMORY_OVERHEAD else 0)
             | Some r \<Rightarrow> r + (if hvm then KVM_MEMORY_OVERHEAD else 0)), dm_disk = disk\<rparr>"
    by (auto simp: moved_demand_def rbind_Inr_iff Let_def)
  obtain disks zp st1 where o': "get_disks None False x = Inr disks" "node_zpool n = Inr zp"
      "get_cpu_ram_disk zp False None None x = Inr (cpu, mem, disk)" "check_disks env n disks = (errors, st1)"
    by (rule old_resources_some [OF old])
  note free = no_resource_errors [OF vr nd [unfolded w]]
  from free(2) obtain r where r: "get_dc_node env n = Inr r" "free_errors r (the wanted) = []" unfolding w by auto
  note fits = free_errors_none [OF r(2), unfolded w, simplified]
  have "(case in_ram of None \<Rightarrow> mem | Some i \<Rightarrow> i) + (if hvm then KVM_MEMORY_OVERHEAD else 0) \<le> max 0 (dn_ram_free r)"
    using fits(2) by (cases in_ram) auto
  moreover have "\<forall>(pool, mb) \<in> set disks. \<exists>ns \<in> set (visible_zpools env).
      ns_node ns = n_uuid n \<and> VStr (ns_zpool ns) = pool \<and> mb \<le> st_size_free (ns_storage ns)"
    using check_disks_fit [of env n disks st1] o'(4) free(1) by blast
  ultimately show ?thesis using r(1) i(1,2) o'(1-3) fits(1,3) by blast
qed

section \<open>Examples\<close>

definition demo_def_settings :: def_settings where
  "demo_def_settings = \<lparr>ds_ostype = LINUX, ds_hvm_type = Hypervisor_KVM, ds_cpu_type = ''qemu64'', ds_zpool = ''zones'',
     ds_monitored_internal = False, ds_zabbix_sync = False, ds_monitored = False, ds_cpu_shares = 100, ds_zfs_io_priority = 100,
     ds_mdata = [], ds_snap_limit = Some 5, ds_snap_size_limit = None, ds_snap_percent_limit = None, ds_snap_default = VInt 5,
     ds_snap_size_default = VNone, ds_snap_percent_default = VNone, ds_vga = ''std'', ds_bootrom = ''bios'',
     ds_cpu_cap_required = True, ds_zone_enabled = False, ds_define_limit = None, ds_hostgroups_allowed = None,
     ds_templates_allowed = None, ds_image_zone = [], ds_image_lx_zone = [], ds_image_disk = [], ds_compression = ''lz4'',
     ds_model_kvm = ''virtio'', ds_model_bhyve = ''virtio''\<rparr>"

definition demo_field_env :: field_env where
  "demo_field_env = \<lparr>fe_repr = (\<lambda>_. []), fe_parse_tags = (\<lambda>_. None), fe_split_strip = (\<lambda>s. [s]),
     fe_related = (\<lambda>q v. if q = ''nodes'' then Some (VStr ''n1'') else None)\<rparr>"

definition demo_env :: def_env where
  "demo_env = \<lparr>df_nic = demo_nic_env, df_fields = demo_field_env, df_settings = demo_def_settings,
     df_nodes = demo_state, df_uuids = [''u'', ''w''], df_dc = 1, df_user = 2, df_username = ''admin'', df_zpool_visible = (\<lambda>_. True),
     df_images = [], df_all_images = [], df_template = (\<lambda>_. None), df_template_hvm = (\<lambda>_. None), df_vm_define = (\<lambda>_. []),
     df_vm_define_disk = (\<lambda>_. []), df_vm_define_nic = (\<lambda>_. []), df_tags = (\<lambda>_. []), df_ipv4 = (\<lambda>_. True),
     df_ip_reserved = (\<lambda>_. False), df_new_uuid = ''x''\<rparr>"

definition demo_def_vm :: "string \<Rightarrow> string \<Rightarrow> vm" where
  "demo_def_vm u h = demo_vm\<lparr>v_uuid := u, v_hostname := h, v_alias := h, v_status := NOTCREATED, v_orig_status := NOTCREATED,
     v_vnc_port := Some 15901, v_json := [(''uuid'', VStr u), (''internal_metadata'', VDict [])]\<rparr>"

definition demo_def_state :: status_state where
  "demo_def_state = \<lparr>ss_db = [''u'' \<mapsto> demo_def_vm ''u'' ''web1'', ''w'' \<mapsto> demo_def_vm ''w'' ''web2''],
     ss_cache = [vm_status_key ''u'' \<mapsto> VInt NOTCREATED], ss_finished = [], ss_ips = [], ss_out = []\<rparr>"

definition demo_data :: pydict where "demo_data = [(''hostname'', VStr ''mail'')]"
definition demo_web :: vm where "demo_web = fresh_vm (demo_def_vm ''u'' ''web1'')"
definition demo_fields :: fields where "demo_fields = def_fields demo_env (is_hvm demo_web) (is_kvm demo_web)"
definition demo_ser :: def_ser where "demo_ser = (new_def_ser (Some demo_web))\<lparr>dv_hostname_changed := True\<rparr>"

definition demo_mail :: vm where
  "demo_mail = (case restore_object demo_env demo_data demo_ser of Inr y \<Rightarrow> y | Inl _ \<Rightarrow> demo_web)"

definition demo_renamed :: status_state where
  "demo_renamed = snd (vm_define demo_env (DefPut demo_data) ''t'' ''u'' demo_def_state)"

text \<open>The request goes through the fields, the checks, the change of the object and its save, one after another.\<close>

lemma field_unset: "field_from_native env True f None = fok None"
  by (cases "fl_read_only f")
    (simp_all add: field_from_native_def related_from_native_def require_def fbind_def fok_def split: field_kind.splits)

lemma demo_kind: "is_hvm demo_web" "is_kvm demo_web"
  by code_simp+

lemma demo_hostname_field:
  "field_from_native demo_field_env True (field_of CharField True VNone [min_length 4, max_length 128, regex_validator hostname_re])
    (Some (VStr ''mail'')) = fok (Some (VStr ''mail''))"
  by code_simp

lemma demo_attributes: "restore_fields (df_fields demo_env) True demo_fields demo_data = Inr ([], demo_data)"
  by (simp add: demo_env_def demo_data_def demo_kind demo_fields_def def_fields_def Let_def field_unset demo_hostname_field
      fok_def rbind_def)

lemma demo_hostname_free:
  "def_validate_hostname demo_env (ss_db demo_def_state) demo_data (new_def_ser (Some demo_web)) = Inr ([], demo_data, demo_ser)"
  by code_simp

lemma demo_methods:
  "validate_methods (def_methods demo_env (ss_db demo_def_state) demo_fields) True (map fst demo_fields) [] demo_data
     (new_def_ser (Some demo_web)) = Inr ([], demo_data, demo_ser)"
proof -
  have m: "def_methods demo_env (ss_db demo_def_state) demo_fields ''hostname'' = Some (def_validate_hostname demo_env (ss_db demo_def_state))"
    by (simp add: def_methods_def Let_def)
  have k: "map fst demo_fields = ''hostname'' # tl (map fst demo_fields)" "\<forall>k \<in> set (tl (map fst demo_fields)). k \<noteq> ''hostname''"
    by (simp_all add: demo_kind demo_fields_def def_fields_def Let_def)
  have d: "dhas demo_data k \<longleftrightarrow> k = ''hostname''" for k by (simp add: demo_data_def dhas_def)
  have skip: "validate_methods ms True ks [] demo_data s = Inr ([], demo_data, s)"
    if "\<forall>k \<in> set ks. k \<noteq> ''hostname''" for ms :: "def_ser methods" and ks s
    using that by (induction ks) (auto simp: d)
  have n: "\<not> dhas ([] :: form_errors) k" for k by (simp add: dhas_def)
  show ?thesis by (subst k(1)) (simp add: d n m demo_hostname_free rbind_def skip [OF k(2)])
qed

lemma demo_check: "def_check demo_env (ss_db demo_def_state) False True False demo_data demo_data demo_ser = Inr ([], demo_data, demo_ser)"
  by code_simp

lemma demo_restored: "restore_object demo_env demo_data demo_ser = Inr demo_mail"
  by code_simp

lemma demo_valid: "def_is_valid demo_env (ss_db demo_def_state) None (Some demo_web) demo_data = Inr (Inr (demo_ser, demo_mail))"
proof -
  have k: "is_hvm_of e (Some demo_web) d t" "is_kvm_of e (Some demo_web) d t" for e d t
    by (simp_all add: is_hvm_of_def is_kvm_of_def demo_kind)
  have f: "def_fields demo_env True True = demo_fields" by (simp add: demo_fields_def demo_kind)
  show ?thesis
    by (simp add: def_is_valid_def Let_def k f perform_validation_def demo_attributes demo_methods demo_check demo_restored rbind_def)
qed

lemma demo_saved:
  "map_option v_hostname (ss_db (snd (st_save (df_status demo_env) (def_save_args demo_ser) demo_mail demo_def_state)) ''u'') = Some ''mail''"
  "ss_db (snd (st_save (df_status demo_env) (def_save_args demo_ser) demo_mail demo_def_state)) ''w'' \<noteq> None"
  "cache_get (vm_status_key ''u'') (snd (st_save (df_status demo_env) (def_save_args demo_ser) demo_mail demo_def_state)) = Some (VInt NOTCREATED)"
  "\<not> isl (fst (st_save (df_status demo_env) (def_save_args demo_ser) demo_mail demo_def_state))"
  by code_simp+

lemma demo_loaded: "fst (api_get_vm (ne_api (df_nic demo_env)) ''u'' demo_def_state) = Inr demo_web"
  by code_simp

lemma demo_operational: "v_slave_vms demo_web = []" "v_status demo_web \<in> set VM_STATUS_OPERATIONAL"
  "\<not> ne_tasks_rw (df_nic demo_env) (v_uuid demo_web)"
  by code_simp+

lemma demo_rename_web:
  "map_option v_hostname (ss_db demo_renamed ''u'') = Some ''mail''" "ss_db demo_renamed ''w'' \<noteq> None"
  "cache_get (vm_status_key ''u'') demo_renamed = Some (VInt NOTCREATED)"
proof -
  let ?save = "st_save (df_status demo_env) (def_save_args demo_ser) demo_mail demo_def_state"
  obtain r t where sv: "?save = (r, t)" by force
  with demo_saved(4) obtain z where z: "r = Inr z" by (cases r) auto
  have l: "api_get_vm (ne_api (df_nic demo_env)) ''u'' demo_def_state = (Inr demo_web, demo_def_state)"
    using demo_loaded api_get_vm_result [OF surjective_pairing] by (metis prod.collapse)
  have "ss_db demo_renamed = ss_db t" "ss_cache demo_renamed = ss_cache t" unfolding demo_renamed_def
    by (simp_all add: z vm_define_def pbind_def l def_put_def if_vm_operational_def demo_operational demo_valid sv db_atomic_def pwhen_def
        out_def pmod_def pret_def split: sum.splits if_splits)
  then show "map_option v_hostname (ss_db demo_renamed ''u'') = Some ''mail''" "ss_db demo_renamed ''w'' \<noteq> None"
    "cache_get (vm_status_key ''u'') demo_renamed = Some (VInt NOTCREATED)"
    using demo_saved(1-3) unfolding sv cache_get_def by simp_all
qed

text \<open>After the VM \<open>web1\<close> is renamed, its cached status is that of its row, and its name is that of no other VM.\<close>

theorem cache_agrees_for_life_witness:
  "\<exists>x. ss_db demo_renamed ''u'' = Some x \<and> VInt NOTCREATED = VInt (v_status x)"
proof (rule cache_agrees_for_life)
  show "vm_life\<^sup>*\<^sup>* demo_def_state demo_renamed" unfolding demo_renamed_def by (rule r_into_rtranclp) (rule life_define)
  show "status_inv demo_def_state"
    by (auto simp: status_inv_def db_ok_def coherent_def demo_def_state_def demo_def_vm_def demo_vm_def cache_get_def vm_status_key_def)
  show "cache_get (vm_status_key ''u'') demo_renamed = Some (VInt NOTCREATED)" by (rule demo_rename_web)
qed

theorem names_stay_unique_witness:
  "\<exists>x y. ss_db demo_renamed ''u'' = Some x \<and> ss_db demo_renamed ''w'' = Some y \<and> v_hostname x = ''mail'' \<and> apart x y"
proof -
  obtain x y where xy: "ss_db demo_renamed ''u'' = Some x" "v_hostname x = ''mail''" "ss_db demo_renamed ''w'' = Some y"
    using demo_rename_web(1,2) by auto
  have p: "plain_templates demo_env" by (simp add: plain_templates_def demo_env_def dhas_def)
  have k: "\<forall>u. ss_db demo_def_state u \<noteq> None \<longrightarrow> u \<in> set (df_uuids demo_env)" by (simp add: demo_def_state_def demo_env_def)
  have s: "def_step\<^sup>*\<^sup>* demo_def_state demo_renamed" unfolding demo_renamed_def
    by (rule r_into_rtranclp) (rule def_step.intros [OF p k])
  have a: "apart (demo_def_vm ''u'' ''web1'') (demo_def_vm ''w'' ''web2'')" "apart (demo_def_vm ''w'' ''web2'') (demo_def_vm ''u'' ''web1'')"
    by code_simp+
  have "names_unique (ss_db demo_def_state)"
    unfolding names_unique_def using a by (auto simp: demo_def_state_def demo_def_vm_def split: if_splits)
  from names_stay_unique [OF s this xy(1,3)] xy show ?thesis by simp
qed

text \<open>A VM with one disk moves to a node that has room for it.\<close>

definition demo_roomy_env :: def_env where
  "demo_roomy_env = demo_env\<lparr>df_nodes := demo_state\<lparr>rs_nss := [demo_ns\<lparr>ns_storage := demo_storage\<lparr>st_size_free := 50000\<rparr>\<rparr>],
     rs_dcnodes := [demo_dc_node\<lparr>dn_cpu_free := 4, dn_ram_free := 8192, dn_disk_free := 90000\<rparr>]\<rparr>\<rparr>"

definition demo_disk_vm :: vm where
  "demo_disk_vm = demo_web\<lparr>v_json := [(''uuid'', VStr ''u''), (''vcpus'', VInt 2), (''ram'', VInt 1024), (''zpool'', VStr ''zones''),
     (''disks'', VList [VDict [(''size'', VInt 20480), (''zpool'', VStr ''zones'')]])]\<rparr>"

definition demo_move :: pydict where "demo_move = [(''node'', VStr ''n1''), (''vcpus'', VInt 3)]"

definition demo_move_ser :: def_ser where
  "demo_move_ser = (new_def_ser (Some demo_disk_vm))\<lparr>dv_node_changed := True\<rparr>"

definition demo_moved_ser :: def_ser where
  "demo_moved_ser = (case def_check demo_roomy_env (ss_db demo_def_state) False True False demo_move demo_move demo_move_ser of
      Inr (_, _, ser) \<Rightarrow> ser | Inl _ \<Rightarrow> demo_move_ser)"

theorem accepted_move_fits_witness:
  "\<exists>r. get_dc_node demo_roomy_env demo_node = Inr r \<and> 3 \<le> max 0 (dn_cpu_free r)
    \<and> (\<exists>ns \<in> set (visible_zpools demo_roomy_env). ns_node ns = ''n1'' \<and> 20480 \<le> st_size_free (ns_storage ns))"
proof -
  have c: "def_check demo_roomy_env (ss_db demo_def_state) False True False demo_move demo_move demo_move_ser
      = Inr ([], demo_move, demo_moved_ser)" by code_simp
  have f: "dv_node_changed demo_move_ser" "dv_object demo_move_ser = Some demo_disk_vm" "map_of demo_move ''node'' = Some (VStr ''n1'')"
    "node_of_val demo_roomy_env (VStr ''n1'') = Some demo_node" by code_simp+
  have d: "get_disks None False demo_disk_vm = Inr [(VStr ''zones'', 20480)]" "asked_cpu demo_move = Inr (Some 3)" "n_uuid demo_node = ''n1''"
    by code_simp+
  from accepted_move_fits [OF c f] show ?thesis unfolding d by auto
qed

end
