(* ===== verification/Vm_Manage_Undo.thy ===== *)
theory Vm_Manage_Undo
  imports Vm_Def_Safe
begin

text \<open>
  What is left of a request to create, update or delete a VM that is refused, and of a command that fails on its node
  (\<^verbatim>\<open>api/vm/base/vm_manage.py\<close> and the callbacks in \<^verbatim>\<open>api/vm/base/tasks.py\<close>), with the node of a new VM chosen by
  a request for its definition. All mechanics are in \<^verbatim>\<open>Vm_Manage_Safe\<close>; here the choice is the code's own.
\<close>

abbreviation choosing :: "manage_env \<Rightarrow> def_env \<Rightarrow> manage_env" where
  "choosing menv env \<equiv> menv\<lparr>me_choose := def_choose_node env\<rparr>"

lemma choice_saves: "choice_keeps (choosing menv env)"
proof -
  have "case r of Inl _ \<Rightarrow> ss_db t = ss_db s
      | Inr z \<Rightarrow> current z t \<and> ss_db t = (ss_db s)(v_uuid x \<mapsto> z) \<and> v_uuid z = v_uuid x \<and> v_status z = v_status x"
    if c: "current x s" and d: "def_choose_node env x s = (r, t)" for x s r t
  proof (cases "\<exists>n. fst (choose_node (v_dc x) x (df_nodes env)) = Inr (Some n)")
    case True
    then obtain n where n: "fst (choose_node (v_dc x) x (df_nodes env)) = Inr (Some n)" by blast
    obtain q u where p: "def_put env x [(''node'', VStr (n_hostname n))] s = (q, u)" by force
    show ?thesis
    proof (cases rule: def_put_result [OF p])
      case 1
      then show ?thesis using d n p
        by (cases q) (auto simp: def_choose_node_def Let_def prog_defs api_error_def split: sum.splits option.splits)
    next
      case (2 ser y z w es)
      have rz: "r = Inr z" "t = u" using d n p 2(3) by (auto simp: def_choose_node_def Let_def prog_defs)
      have "sv_fields (def_save_args ser) = None" by (simp add: def_save_args_def)
      note sw = st_save_whole [OF 2(2) this]
      have "same_row x y" by (rule valid_change_row [OF 2(1)])
      then have "ss_db t = (ss_db s)(v_uuid x \<mapsto> z) \<and> v_uuid z = v_uuid x \<and> v_status z = v_status x"
        using sw by (auto simp: same_row_def rz 2(4))
      moreover have "current z t" using def_put_current [OF c p] 2(3) rz(2) by blast
      ultimately show ?thesis by (simp add: rz)
    qed
  next
    case False
    then show ?thesis using d
      by (cases "fst (choose_node (v_dc x) x (df_nodes env))")
        (auto simp: def_choose_node_def Let_def prog_defs api_error_def split: option.splits)
  qed
  then show ?thesis unfolding choice_keeps_def by simp
qed

text \<open>
  The VM that a creation works on: as it was, or, when it is not created and has no node, as the choice has saved it
  with its node.
\<close>

definition chosen_vm :: "def_env \<Rightarrow> vm \<Rightarrow> status_state \<Rightarrow> vm \<Rightarrow> bool" where
  "chosen_vm env x s z \<longleftrightarrow> z = x
     \<or> v_node x = None \<and> v_status x = NOTCREATED \<and> v_status z = NOTCREATED \<and> (\<exists>s1. def_choose_node env (fresh_vm x) s = (Inr z, s1))"

lemma post_undone:
  assumes "status_inv s" "ss_db s u = Some x" "manage_post (choosing menv env) rq tid u s = (r, t)"
  shows "\<exists>z. chosen_vm env x s z
    \<and> (started r \<longrightarrow> marked_at False CREATING u (s\<lparr>ss_db := (ss_db s)(u \<mapsto> z)\<rparr>) t
        \<and> (\<exists>recreate force. mq_create rq = Inr (recreate, force) \<and> v_status z = (if recreate then STOPPED else NOTCREATED)))
    \<and> (\<not> started r \<longrightarrow> kept_at False u (s\<lparr>ss_db := (ss_db s)(u \<mapsto> z)\<rparr>) t
        \<or> (\<exists>y. ss_db t u = Some y \<and> stays_creating menv tid r y) \<and> (ss_db t)(u := None) = (ss_db s)(u := None))"
proof -
  obtain z where z: "placed (choosing menv env) (fresh_vm x) s z" "v_uuid z = u" "v_status z = v_status x"
    "started r \<longrightarrow> marked_at False CREATING u (with_row z s) t
      \<and> (\<exists>recreate force. mq_create rq = Inr (recreate, force) \<and> v_status x = (if recreate then STOPPED else NOTCREATED))"
    "\<not> started r \<longrightarrow> kept_at False u (with_row z s) t
      \<or> marked_at False CREATING u (with_row z s) t \<and> (\<exists>y. ss_db t u = Some y \<and> stays_creating (choosing menv env) tid r y)"
    using post_result [OF assms choice_saves] by blast
  have sc: "stays_creating (choosing menv env) tid r y = stays_creating menv tid r y" for y by (simp add: stays_creating_def)
  have u: "v_uuid x = u" using current_fresh [OF assms(1,2)] by simp
  show ?thesis
  proof (cases "z = fresh_vm x")
    case True
    have w: "(ss_db s)(u \<mapsto> x) = ss_db s" using assms(2) by auto
    have "kept_at False u (with_row z s) t = kept_at False u s t" "marked_at False CREATING u (with_row z s) t = marked_at False CREATING u s t"
      unfolding True by (rule kept_at_fresh [OF assms(2) u])+
    then have k: "kept_at False u (with_row z s) t = kept_at False u (s\<lparr>ss_db := (ss_db s)(u \<mapsto> x)\<rparr>) t"
        "marked_at False CREATING u (with_row z s) t = marked_at False CREATING u (s\<lparr>ss_db := (ss_db s)(u \<mapsto> x)\<rparr>) t"
      using w by simp_all
    have "chosen_vm env x s x" by (simp add: chosen_vm_def)
    then show ?thesis using z k sc by (intro exI [of _ x]) (auto simp: marked_at_def)
  next
    case False
    have k: "with_row z s = s\<lparr>ss_db := (ss_db s)(u \<mapsto> z)\<rparr>" by (simp add: with_row_def z(2))
    have "chosen_vm env x s z" using z(1,3) False by (auto simp: chosen_vm_def placed_def)
    then show ?thesis using z k sc by (intro exI [of _ z]) (auto simp: marked_at_def)
  qed
qed

text \<open>
  C2. A request to create, update or delete a VM that is refused, by an error in the answer or by an exception, leaves the
  VM as it was: also when the VM was marked before the queue refused the command, it has its old status, host name, node,
  port, active definition, information and owner, and no other VM has changed; an update and a deletion keep the wanted
  definition, too (a creation adds the root password to it). A creation has two limits, which the statement names. A VM
  without a node that the creation has placed keeps its node and port: it is as the choice has saved it. And the VM stays
  CREATING when \<open>fix_json\<close> raises, or when the identity of the event cannot be built.
\<close>

theorem refused_request_keeps_vm:
  assumes "status_inv s" "ss_db s u = Some x" "manage c (choosing menv env) rq tid u s = (r, t)" "\<not> started r"
  shows "(ss_db t)(u := None) = (ss_db s)(u := None)
    \<and> (\<exists>y. ss_db t u = Some y
        \<and> ((\<exists>z. (if c = PostVm then chosen_vm env x s z else z = x) \<and> kept_vm (c \<noteq> PostVm) z y)
            \<or> c = PostVm \<and> stays_creating menv tid r y))"
proof (cases c)
  case PostVm
  have p: "manage_post (choosing menv env) rq tid u s = (r, t)" using assms(3) PostVm by (simp add: manage_def)
  obtain z where z: "chosen_vm env x s z" "kept_at False u (s\<lparr>ss_db := (ss_db s)(u \<mapsto> z)\<rparr>) t
      \<or> (\<exists>y. ss_db t u = Some y \<and> stays_creating menv tid r y) \<and> (ss_db t)(u := None) = (ss_db s)(u := None)"
    using post_undone [OF assms(1,2) p] assms(4) by blast
  from z(2) show ?thesis
  proof
    assume "kept_at False u (s\<lparr>ss_db := (ss_db s)(u \<mapsto> z)\<rparr>) t"
    then have "(ss_db t)(u := None) = (ss_db s)(u := None)" "\<exists>y. ss_db t u = Some y \<and> kept_vm False z y"
      by (auto simp: kept_at_def split: option.splits)
    then show ?thesis using z(1) PostVm by auto
  qed (use PostVm in blast)
next
  case PutVm
  have p: "manage_put (choosing menv env) rq tid u s = (r, t)" using assms(3) PutVm by (simp add: manage_def)
  have "kept_at True u s t" using put_result [OF assms(1) p] assms(4) by blast
  then show ?thesis using PutVm assms(2) by (auto simp: kept_at_def split: option.splits)
next
  case DeleteVm
  have p: "manage_delete (choosing menv env) rq u s = (r, t)" using assms(3) DeleteVm by (simp add: manage_def)
  have "kept_at True u s t" using delete_result [OF assms(1) p] assms(4) by blast
  then show ?thesis using DeleteVm assms(2) by (auto simp: kept_at_def split: option.splits)
qed

text \<open>The queue refuses the command for a deletion: the VM, marked in the meantime, is stopped again.\<close>

definition demo_refusing_env :: manage_env where
  "demo_refusing_env = demo_manage_env\<lparr>me_api := demo_api_env\<lparr>ae_status := demo_status_env\<lparr>se_refused := (\<lambda>_ _. Some ''locked'')\<rparr>\<rparr>\<rparr>"

theorem refused_request_keeps_vm_witness:
  "\<exists>t y. manage DeleteVm (choosing demo_refusing_env demo_env) demo_manage_request ''1'' ''u'' (demo_status_state demo_stopped) = (Inr (FailureResponse ''locked''), t)
     \<and> ss_db t ''u'' = Some y \<and> v_status y = STOPPED"
proof -
  let ?s = "demo_status_state demo_stopped"
  let ?m = "manage DeleteVm (choosing demo_refusing_env demo_env) demo_manage_request ''1'' ''u'' ?s"
  have i: "status_inv ?s" by (rule demo_status_inv) (simp_all add: demo_stopped_def demo_created_def demo_vm_def)
  have x: "ss_db ?s ''u'' = Some demo_stopped" "v_status demo_stopped = STOPPED"
    by (simp_all add: demo_status_state_def demo_stopped_def demo_created_def demo_vm_def)
  have r: "?m = (Inr (FailureResponse ''locked''), snd ?m)" by (rule prod_eqI) (code_simp, simp)
  have n: "\<not> started (Inr (FailureResponse ''locked''))" by (simp add: started_def)
  obtain y where "ss_db (snd ?m) ''u'' = Some y" "kept_vm True demo_stopped y"
    using refused_request_keeps_vm [OF i x(1) r n] by auto
  then have "ss_db (snd ?m) ''u'' = Some y \<and> v_status y = STOPPED" unfolding kept_vm_def x(2) by blast
  then show ?thesis using r by blast
qed

text \<open>
  C3. A command that fails on its node leaves the VM as it was before the request, and no other VM changes: the callback
  takes back the mark that the request had saved, and reports the failure. This holds for an update, for a deletion whose
  failure does not say that the zone of the VM is missing on its node, and for a creation whose failure does not say that
  the old VM was successfully deleted (in both cases the VM is gone from its node). A VM without a node that the creation
  has placed keeps the node, as the choice has saved it, and a creation keeps the root password.
\<close>

theorem failed_command_keeps_vm:
  assumes "status_inv s" "ss_db s u = Some x" "manage c (choosing menv env) rq tid u s = (Inr (TaskStarted m), s1)"
    "mr_returncode r \<noteq> 0"
    "c = PostVm \<Longrightarrow> mq_create rq = Inr (mr_recreate r, force) \<and> \<not> contains (mr_message r) ''Successfully deleted''"
    "c = DeleteVm \<Longrightarrow> \<not> contains (mr_message r) (v_hostname x @ '': No such zone configured'')"
  shows "\<exists>e s2 y z. manage_cb c tenv r tid2 u nn s1 = (Inl e, s2) \<and> ss_db s2 u = Some y
    \<and> (if c = PostVm then chosen_vm env x s z else z = x) \<and> kept_vm (c \<noteq> PostVm) z y
    \<and> (ss_db s2)(u := None) = (ss_db s)(u := None)"
proof (cases c)
  case PostVm
  have p: "manage_post (choosing menv env) rq tid u s = (Inr (TaskStarted m), s1)" using assms(3) PostVm by (simp add: manage_def)
  have i: "status_inv s1" using triple_snd [OF triple_manage_post [OF choice_is_ok] assms(1)] p by (metis snd_conv)
  let ?s = "\<lambda>z. s\<lparr>ss_db := (ss_db s)(u \<mapsto> z)\<rparr>"
  obtain z where z: "chosen_vm env x s z" "marked_at False CREATING u (?s z) s1" "v_status z = (if mr_recreate r then STOPPED else NOTCREATED)"
    using post_undone [OF assms(1,2) p] started_task assms(5) [OF PostVm] by auto
  have row: "ss_db (?s z) u = Some z" by simp
  obtain e s2 where f: "create_cb_start tenv r tid2 u s1 = (Inl e, s2)" "kept_at False u (?s z) s2"
    using create_cb_failed [OF row z(3,2) i assms(4)] assms(5) [OF PostVm] by blast
  have "(ss_db s2)(u := None) = (ss_db s)(u := None)" "\<exists>y. ss_db s2 u = Some y \<and> kept_vm False z y"
    using f(2) by (auto simp: kept_at_def split: option.splits)
  then show ?thesis using z(1) f(1) PostVm unfolding manage_cb_def by auto
next
  case PutVm
  have p: "manage_put (choosing menv env) rq tid u s = (Inr (TaskStarted m), s1)" using assms(3) PutVm by (simp add: manage_def)
  have i: "status_inv s1" using triple_snd [OF triple_manage_put assms(1), of "choosing menv env" rq tid u] p by simp
  have "v_status x \<in> {RUNNING, STOPPED, FROZEN}" "marked_at True (v_status (set_notready x)) u s s1"
    using put_result [OF assms(1) p] started_task assms(2) by auto
  from update_cb_failed [OF assms(1,2) this i assms(4), of tenv tid2 nn] assms(2) show ?thesis
    unfolding PutVm manage_cb_def kept_at_def by (auto split: option.splits)
next
  case DeleteVm
  have p: "manage_delete (choosing menv env) rq u s = (Inr (TaskStarted m), s1)" using assms(3) DeleteVm by (simp add: manage_def)
  have i: "status_inv s1" using triple_snd [OF triple_manage_delete assms(1), of "choosing menv env" rq u] p by simp
  have "v_status x \<in> {RUNNING, STOPPED, FROZEN}" "marked_at True (v_status (set_notready x)) u s s1"
    using delete_result [OF assms(1) p] started_task assms(2) by auto
  from delete_cb_failed [OF assms(1,2) this i assms(4) assms(6) [OF DeleteVm], of tenv tid2] assms(2) show ?thesis
    unfolding DeleteVm manage_cb_def kept_at_def by (auto split: option.splits)
qed

definition demo_task_env :: task_env where
  "demo_task_env = \<lparr>te_status = demo_status_env, te_create_mail = False, te_deploy_mail = False, te_node = (\<lambda>_. None),
     te_template_defs = (\<lambda>_. False), te_manage = demo_manage_env\<rparr>"

definition demo_failure :: manage_result where
  "demo_failure = \<lparr>mr_returncode = 1, mr_message = ''disk failure'', mr_json = None, mr_recreate = False, mr_force = False\<rparr>"

theorem failed_command_keeps_vm_witness:
  "\<exists>m s1 e s2 y. manage DeleteVm (choosing demo_manage_env demo_env) demo_manage_request ''1'' ''u'' (demo_status_state demo_stopped) = (Inr (TaskStarted m), s1)
     \<and> manage_cb DeleteVm demo_task_env demo_failure ''2'' ''u'' None s1 = (Inl e, s2) \<and> ss_db s2 ''u'' = Some y \<and> v_status y = STOPPED"
proof -
  let ?s = "demo_status_state demo_stopped"
  let ?m = "manage DeleteVm (choosing demo_manage_env demo_env) demo_manage_request ''1'' ''u'' ?s"
  have i: "status_inv ?s" by (rule demo_status_inv) (simp_all add: demo_stopped_def demo_created_def demo_vm_def)
  have x: "ss_db ?s ''u'' = Some demo_stopped" "v_status demo_stopped = STOPPED"
    by (simp_all add: demo_status_state_def demo_stopped_def demo_created_def demo_vm_def)
  have r: "?m = (Inr (TaskStarted ''Delete server''), snd ?m)" by (rule prod_eqI) (code_simp, simp)
  have f: "mr_returncode demo_failure \<noteq> 0" "\<not> contains (mr_message demo_failure) (v_hostname demo_stopped @ '': No such zone configured'')"
    by code_simp+
  have p: "DeleteVm = PostVm \<Longrightarrow> mq_create demo_manage_request = Inr (mr_recreate demo_failure, False)
      \<and> \<not> contains (mr_message demo_failure) ''Successfully deleted''" by simp
  obtain e s2 y where "manage_cb DeleteVm demo_task_env demo_failure ''2'' ''u'' None (snd ?m) = (Inl e, s2)"
      "ss_db s2 ''u'' = Some y" "kept_vm True demo_stopped y"
    using failed_command_keeps_vm [OF i x(1) r f(1) p f(2), of demo_task_env "''2''" None] by auto
  then have "manage_cb DeleteVm demo_task_env demo_failure ''2'' ''u'' None (snd ?m) = (Inl e, s2) \<and> ss_db s2 ''u'' = Some y \<and> v_status y = STOPPED"
    unfolding kept_vm_def x(2) by blast
  then show ?thesis using r by blast
qed

end
