(* ===== verification/Spec2Isabelle.thy ===== *)
theory Spec2Isabelle
  imports Que_Execute Schedule_Form Vm_Manage_Undo
begin

text \<open>
  A verification library for Danube Cloud (\<^verbatim>\<open>esdc-ce\<close>), the management software of a cloud of
  compute nodes. The program is a Django application: \<^verbatim>\<open>api/\<close> receives requests, \<^verbatim>\<open>vms/\<close>
  holds the objects (VMs, nodes, storages, networks, snapshots) and the arithmetic on them, and
  \<^verbatim>\<open>que/\<close> is the task queue that runs commands on compute nodes and calls back when they are
  done. The three layers meet in the life of a VM: a request changes the wanted definition or
  submits a command, the command runs under a lock on the node, and its callback or a report of the
  node changes the status and the active definition of the VM in the database and in the cache.

  \<^bold>\<open>How programs are modelled.\<close> A call that may raise returns \<open>pyexn + 'a\<close> (\<open>Prelude\<close>); code that
  also changes shared state is a function from the state to a result and a state, and what was
  written before an exception stays written (\<open>State_Prog\<close>). Python values are \<open>pyval\<close>, dictionaries
  are association lists in their order of iteration (\<open>Py_Value\<close>), integers are unbounded as in
  Python, addresses of networks are 32-bit words (\<open>Networks\<close>) and floating point numbers are rounded
  to 53 bits (\<open>Py_Float\<close>). Services and libraries that are not in the repository are parameters:
  Redis (a locale with its documented behaviour), the celery library, pickle, md5, uuid4, dates, the
  JSON encoder, the DNS tables (a submodule). Log messages are left out.

  \<^bold>\<open>The task queue.\<close> \<open>Task_Id\<close> (\<^verbatim>\<open>que/__init__.py\<close>, \<^verbatim>\<open>que/utils.py\<close>): building and splitting
  task IDs; they are read back as they were built. \<open>Redis\<close> and \<open>Task_Lock\<close> (\<^verbatim>\<open>que/lock.py\<close>): locks
  are keys in Redis; two tasks never hold one lock, under every interleaving of acquire and release
  calls. \<open>User_Tasks\<close> (\<^verbatim>\<open>que/user_tasks.py\<close> and \<open>_UserTasksModel\<close> of \<^verbatim>\<open>vms/models/base.py\<close>): the
  lists of pending tasks agree with each other, failures included. \<open>Que_Control\<close> (\<^verbatim>\<open>que/utils.py\<close>,
  \<^verbatim>\<open>que/handlers.py\<close>): results, callbacks, sending until accepted, cancelling and the cleanup of
  revoked tasks. \<open>Que_Execute\<close> (\<^verbatim>\<open>que/tasks.py\<close>, \<^verbatim>\<open>que/mgmt.py\<close>): running a task under its lock, the
  result of a command, submission; a refused submission leaks no lock.

  \<^bold>\<open>The VM object.\<close> \<open>Json_Diff\<close> (\<^verbatim>\<open>vms/models/utils.py\<close>, \<^verbatim>\<open>vms/utils.py\<close>): the comparison of
  definitions; applying a difference to the old definition gives the new one. \<open>Vm_Model\<close>
  (\<^verbatim>\<open>vms/models/vm.py\<close>): the record \<open>vm\<close> with one field per column or attribute of the class, and the
  attributes stored inside its definition. \<open>Vm_Update\<close>: \<open>json_update\<close>, refined against a specification
  of what \<open>vmadm update\<close> does. \<open>Vm_Define\<close>: \<open>sync_json\<close>, root password, \<open>fix_json\<close> and
  \<open>revert_active\<close>. \<open>Vm_State\<close> and \<open>Vm_Save\<close>: node, VNC port, host name, uptime, node history and \<open>save\<close>,
  which returns its writes as a list of effects. \<open>Vm_Commands\<close> (\<^verbatim>\<open>api/vm/base/vm_manage.py\<close>,
  \<^verbatim>\<open>api/vm/status/vm_status.py\<close>): the shell commands for compute nodes and the disk quotas.

  \<^bold>\<open>The status of VMs.\<close> \<open>Vm_Status\<close> (\<^verbatim>\<open>api/vm/status/tasks.py\<close>): checks of reports and callbacks over
  \<open>status_state\<close>: the rows of VMs, the cache, the keys for finished deployments, the table of addresses
  and the output of signals, task logs and submitted commands. A check or callback is one step, because
  checks of one VM exclude each other; that \<open>vm_status_all_cb\<close> reads the cached states of all its VMs before the first check
  takes its lock is in the model, but not what other callbacks do in between. \<open>Vm_Status_Inv\<close>: the invariant \<open>status_inv\<close>, rows under their keys
  and a cache that agrees with the database, proved for each operation as a triple. \<open>Vm_Lifecycle\<close>: the
  deployment as the inductive relation \<open>deploy_step\<close>, refined by the checks, and its completion.
  \<open>Vm_Status_Api\<close> (\<^verbatim>\<open>api/vm/status/vm_status.py\<close>): the requests; \<open>status_op\<close> is every operation above in
  any order.

  \<^bold>\<open>Creating, updating and deleting VMs.\<close> \<open>Vm_Manage\<close> (\<^verbatim>\<open>api/vm/base/vm_manage.py\<close>): the requests, which
  check the VM, save a mark in its status and submit a command. \<open>Vm_Tasks\<close> (\<^verbatim>\<open>api/vm/base/tasks.py\<close>): the
  callbacks of these commands and the wait for a deployment. \<open>Vm_Manage_Inv\<close>: all of them keep
  \<open>status_inv\<close>. \<open>Vm_Manage_Safe\<close>: \<open>vm_op\<close> is every operation of the status with the requests and callbacks in
  any order, and the creation callback is cut into the steps between which it sleeps, with the object
  that it has read before, and the lemmas on what a refused request or a failed command leaves. The choice of
  a node is a parameter here; that it keeps the state right is the hypothesis \<open>choice_ok\<close> or \<open>choice_keeps\<close>, which the choice
  by the definition API fulfils (\<open>choice_is_ok\<close> in \<open>Vm_Def_Safe\<close>, \<open>choice_saves\<close> in \<open>Vm_Manage_Undo\<close>).
  \<open>Vm_Manage_Undo\<close> concludes that refused requests and failed commands leave the VM as it was, with the exceptions that
  its statements name. The decorator of
  callbacks (\<^verbatim>\<open>api/task/utils.py\<close>), which logs and unlocks, is left out.

  \<^bold>\<open>Requests for definitions.\<close> \<open>Api_Fields\<close> (\<^verbatim>\<open>api/fields.py\<close>, \<^verbatim>\<open>api/relations.py\<close>,
  \<^verbatim>\<open>api/validators.py\<close>, \<^verbatim>\<open>api/serializers.py\<close>): the fields turn the data of a request into attributes and a
  serializer validates them; attributes have the type of their field, and reading an accepted value gives it again.
  \<open>Schedule_Form\<close> connects the schedules that \<open>CronField\<close> accepts with the periodic tasks of \<open>Snapshots\<close>.
  \<open>Vm_Def_Form\<close> and \<open>Vm_Def_Api\<close> (\<^verbatim>\<open>api/vm/define/serializers.py\<close>, \<^verbatim>\<open>api/vm/define/vm_define.py\<close>): the
  fields of the definition of a VM, their checks, the check of the resources of a node, the change of the object, and
  the requests that change or delete a definition or choose a node. \<open>Vm_Def_Inv\<close> has what each step keeps;
  \<open>Vm_Def_Safe\<close> concludes that the cached status stays right in \<open>vm_life\<close>, every operation on VMs in any order, that
  names stay unique, and that a VM that may move to a node fits there.

  \<^bold>\<open>Networks.\<close> \<open>Ip_Usage\<close> (\<^verbatim>\<open>vms/models/ipaddress.py\<close>): the table of addresses and its update.
  \<open>Networks\<close> (\<^verbatim>\<open>vms/models/subnet.py\<close>). \<open>Nic_Define\<close> (\<^verbatim>\<open>api/vm/define/vm_define_nic.py\<close> and its
  serializer): the requests on network cards; \<open>Nic_Inv\<close> and \<open>Nic_Safe\<close>: every address of a definition
  is a row of its VM, so no two VMs share one, with the exception that the counterexample at the end of
  \<open>Nic_Safe\<close> shows.

  \<^bold>\<open>Nodes and storages.\<close> \<open>Node_Info\<close>, \<open>Dc_Node\<close> and \<open>Node_Save\<close> (\<^verbatim>\<open>vms/models/node.py\<close>): what a node
  reports, its resources and their division among datacenters, the choice of a node. \<open>Storage\<close>
  (\<^verbatim>\<open>vms/models/storage.py\<close>) and \<open>Snapshots\<close> (\<^verbatim>\<open>vms/models/snapshot.py\<close>, \<^verbatim>\<open>vms/models/backup.py\<close>): sizes,
  their cache and schedules. \<open>Node_Save\<close> has the interface \<open>resource_inv\<close> of the writes that saving makes.

  \<^bold>\<open>Bounds and fuel.\<close> The search for a host name has fuel; one attempt more than there are names is
  proved to be enough. The wait for a deployment has fuel as well; 403 polls, which are two times ten
  minutes, are proved to be enough. A task is sent until it is accepted; the list of attempts is an argument. All
  other loops are structural recursions over lists the code iterates over.

  \<^bold>\<open>Not modelled.\<close> Of the request framework, which is adapted from Django REST framework, the views and
  permissions, the rendering of objects, nested serializers, files and dates. The requests on network cards and the
  commands of nodes start from attributes that the fields have parsed. Of the definition API, the request that creates a
  definition (its serializer is modelled), the requests on disks, and the comparison and revert of definitions.
  The web interface (\<^verbatim>\<open>gui/\<close>), the monitoring backends (\<^verbatim>\<open>api/mon/\<close>), DNS, images,
  mail, the socket server (\<^verbatim>\<open>sio/\<close>), the scripts for compute nodes (\<^verbatim>\<open>bin/\<close>) and the installation
  (\<^verbatim>\<open>ans/\<close>): forms, remote calls and system commands around the core. Interleavings inside one callback
  are not modelled where the code holds a lock for it.
\<close>

end
